(* ===== verification/Prelude.thy ===== *)
theory Prelude
  imports
    Main
    "HOL-Library.Char_ord"
    "HOL-Library.List_Lexorder"
    "HOL-Library.Product_Lexorder"
    "HOL-Library.Multiset"
begin

section \<open>Shared vocabulary of the model\<close>

text \<open>
  What every component theory uses: the names of the model's value types, the
  values JavaScript produces where the code tests for them (numbers that are
  not integers, invalid dates), the domain errors of
  \<open>src/src/shared/domain/domain-error.ts\<close>, results as sums, and the list
  operations that the entities' array idioms amount to (mutate the first match,
  stable sort by a key, keep the first of equal elements).

  Amounts of money, quantities and instants are integers.  The code computes
  them with doubles, which agree with the integers up to \<open>2^53\<close>; the columns
  they are stored in are 32-bit.
\<close>

named_theorems result_simps \<open>evaluation of results, guards and option tests\<close>
named_theorems list_simps \<open>facts about the array idioms\<close>

type_synonym ident = string
type_synonym cents = int
type_synonym timestamp = int

subsection \<open>Numbers and dates as JavaScript hands them over\<close>

text \<open>
  A value of type \<open>number\<close> whose integrality the code tests: an integer, a
  finite non-integral number (represented by its \<open>Math.trunc\<close>, the only thing
  the code takes of one), or \<open>NaN\<close> and the infinities.
\<close>

datatype js_number = JsInt int | JsFraction int | JsNotFinite

fun is_integer :: "js_number \<Rightarrow> bool" where
  "is_integer (JsInt _) = True"
| "is_integer _ = False"

fun is_finite :: "js_number \<Rightarrow> bool" where
  "is_finite JsNotFinite = False"
| "is_finite _ = True"

fun js_trunc :: "js_number \<Rightarrow> int" where
  "js_trunc (JsInt n) = n"
| "js_trunc (JsFraction t) = t"
| "js_trunc JsNotFinite = 0"

text \<open>A \<open>Date\<close>: its epoch milliseconds, or the invalid date.\<close>

datatype js_date = ValidDate timestamp | InvalidDate

fun is_valid_date :: "js_date \<Rightarrow> bool" where
  "is_valid_date (ValidDate _) = True"
| "is_valid_date InvalidDate = False"

fun date_time :: "js_date \<Rightarrow> timestamp" where
  "date_time (ValidDate t) = t"
| "date_time InvalidDate = 0"

text \<open>\<open>Math.round((base * percent) / 100)\<close>: halves are rounded up.\<close>

definition round_percent :: "int \<Rightarrow> int \<Rightarrow> int" where
  "round_percent base percent = (base * percent + 50) div 100"

lemma round_percent_nonneg:
  "0 \<le> base \<Longrightarrow> 0 \<le> percent \<Longrightarrow> 0 \<le> round_percent base percent"
  by (simp add: round_percent_def pos_imp_zdiv_nonneg_iff)

lemma round_percent_le:
  assumes "0 \<le> base" and "percent \<le> 100"
  shows "round_percent base percent \<le> base"
proof -
  have "base * percent \<le> base * 100"
    using assms by (simp add: mult_left_mono)
  then have "(base * percent + 50) div 100 \<le> (base * 100 + 50) div 100"
    by (intro zdiv_mono1) simp_all
  then show ?thesis by (simp add: round_percent_def)
qed

lemma round_percent_100 [simp]: "round_percent base 100 = base"
  by (simp add: round_percent_def)

lemma round_percent_0 [simp]: "round_percent base 0 = 0"
  by (simp add: round_percent_def)

subsection \<open>Text\<close>

text \<open>
  \<open>String.prototype.trim\<close> on code units up to 255: tab, line feed, vertical
  tab, form feed, carriage return, space and the no-break space.
\<close>

definition is_js_space :: "char \<Rightarrow> bool" where
  "is_js_space c \<longleftrightarrow> (of_char c :: nat) \<in> {9, 10, 11, 12, 13, 32, 160}"

definition trim :: "string \<Rightarrow> string" where
  "trim s = rev (dropWhile is_js_space (rev (dropWhile is_js_space s)))"

text \<open>The test \<open>!s || s.trim() === ''\<close> that the factories apply to identifiers.\<close>

definition is_blank :: "string \<Rightarrow> bool" where
  "is_blank s \<longleftrightarrow> s = [] \<or> trim s = []"

text \<open>JavaScript's truthiness of an optional string: present and not empty.\<close>

fun truthy :: "string option \<Rightarrow> bool" where
  "truthy None = False"
| "truthy (Some s) = (s \<noteq> [])"

text \<open>The defaulting operator \<open>x ?? d\<close>.\<close>

fun or_default :: "'a option \<Rightarrow> 'a \<Rightarrow> 'a" where
  "or_default None d = d"
| "or_default (Some x) d = x"

lemma dropWhile_eq_self: "xs = [] \<or> \<not> P (hd xs) \<Longrightarrow> dropWhile P xs = xs"
  by (cases xs) auto

lemma hd_dropWhile_not: "dropWhile P xs = [] \<or> \<not> P (hd (dropWhile P xs))"
  by (induction xs) auto

lemma trim_idem [simp]: "trim (trim s) = trim s"
proof -
  define u where "u = dropWhile is_js_space s"
  define v where "v = dropWhile is_js_space (rev u)"
  have u: "u = [] \<or> \<not> is_js_space (hd u)"
    unfolding u_def by (rule hd_dropWhile_not)
  have v: "v = [] \<or> \<not> is_js_space (hd v)"
    unfolding v_def by (rule hd_dropWhile_not)
  have "rev v = [] \<or> \<not> is_js_space (hd (rev v))"
  proof (cases "v = []")
    case False
    have "rev u = takeWhile is_js_space (rev u) @ v"
      by (simp add: v_def)
    then have "rev (rev u) = rev (takeWhile is_js_space (rev u) @ v)"
      by (rule arg_cong)
    then obtain w where "u = rev v @ w"
      by simp
    with False u show ?thesis
      by (cases "rev v") auto
  qed simp
  then have "dropWhile is_js_space (rev v) = rev v"
    by (rule dropWhile_eq_self)
  moreover have "dropWhile is_js_space v = v"
    using v by (rule dropWhile_eq_self)
  ultimately show ?thesis
    by (simp add: trim_def u_def v_def)
qed

lemma trim_Nil [simp]: "trim [] = []"
  by (simp add: trim_def)

lemma is_blank_trim [simp]: "is_blank (trim s) \<longleftrightarrow> is_blank s"
  by (auto simp: is_blank_def)

subsection \<open>Domain errors\<close>

text \<open>
  The error classes the modelled code throws, with message and code; the
  optional \<open>details\<close> payload is not modelled.  \<open>RangeError\<close> and \<open>PlainError\<close> are
  JavaScript's own, the four stock errors those of
  \<open>src/src/inventory/domain/stock-journal.errors.ts\<close>.
\<close>

datatype domain_error =
    InvalidArgumentError (err_message: string) (err_code: string)
  | BusinessRuleViolationError (err_message: string) (err_code: string)
  | RangeError (err_message: string)
  | PlainError (err_message: string)
  | InsufficientStockError string string int int
  | StockVersionConflictError string string int
  | StockBucketNotFoundError string string
  | StockNotTrackedError string
  | EntityNotFoundError string string
  | InsufficientPermissionsError

definition invalid_argument :: "string \<Rightarrow> domain_error" where
  "invalid_argument msg = InvalidArgumentError msg ''INVALID_ARGUMENT''"

text \<open>Most rules are thrown with the code repeated as the message.\<close>

definition rule_violation :: "string \<Rightarrow> domain_error" where
  "rule_violation code = BusinessRuleViolationError code code"

subsection \<open>Results\<close>

text \<open>
  A fallible operation returns \<open>Inl\<close> of the error it throws or \<open>Inr\<close> of its
  value.  \<open>andThen\<close> is sequencing: what follows runs only if nothing was thrown.
  An operation that has already changed its receiver when it throws returns the
  receiver too.
\<close>

type_synonym 'a result = "domain_error + 'a"

fun andThen :: "'e + 'a \<Rightarrow> ('a \<Rightarrow> 'e + 'b) \<Rightarrow> 'e + 'b" where
  "andThen (Inl e) f = Inl e"
| "andThen (Inr x) f = f x"

definition throw_if :: "bool \<Rightarrow> 'e \<Rightarrow> 'e + unit" where
  "throw_if b e = (if b then Inl e else Inr ())"

fun mapR :: "('a \<Rightarrow> 'b) \<Rightarrow> 'e + 'a \<Rightarrow> 'e + 'b" where
  "mapR f (Inl e) = Inl e"
| "mapR f (Inr x) = Inr (f x)"

lemma andThen_Inr [result_simps]:
  "andThen r f = Inr y \<longleftrightarrow> (\<exists>x. r = Inr x \<and> f x = Inr y)"
  by (cases r) auto

lemma andThen_Inl [result_simps]:
  "andThen r f = Inl e \<longleftrightarrow> r = Inl e \<or> (\<exists>x. r = Inr x \<and> f x = Inl e)"
  by (cases r) auto

lemma mapR_Inr [result_simps]: "mapR f r = Inr y \<longleftrightarrow> (\<exists>x. r = Inr x \<and> y = f x)"
  by (cases r) auto

lemma mapR_Inl [result_simps]: "mapR f r = Inl e \<longleftrightarrow> r = Inl e"
  by (cases r) auto

lemma throw_if_Inr [result_simps]: "throw_if b e = Inr u \<longleftrightarrow> \<not> b"
  by (simp add: throw_if_def)

lemma throw_if_Inl [result_simps]: "throw_if b e = Inl e' \<longleftrightarrow> b \<and> e' = e"
  by (auto simp: throw_if_def)

lemma throw_if_True [simp]: "throw_if True e = Inl e"
  and throw_if_False [simp]: "throw_if False e = Inr ()"
  by (simp_all add: throw_if_def)

text \<open>The operation returns, with a value that satisfies \<open>P\<close>.\<close>

definition reached :: "'r result \<Rightarrow> ('r \<Rightarrow> bool) \<Rightarrow> bool" where
  "reached r P \<longleftrightarrow> (case r of Inr d \<Rightarrow> P d | Inl _ \<Rightarrow> False)"

lemma reachedD: "reached r P \<Longrightarrow> \<exists>d. r = Inr d \<and> P d"
  by (cases r) (auto simp: reached_def)

subsection \<open>Loops that may throw\<close>

text \<open>
  A \<open>for\<close> loop over an array whose body may throw: the state it accumulates, or
  the error of the first iteration that throws.  \<open>mapM_list\<close> is \<open>array.map\<close> with
  such a body.
\<close>

fun loopR :: "('s \<Rightarrow> 'a \<Rightarrow> 'e + 's) \<Rightarrow> 's \<Rightarrow> 'a list \<Rightarrow> 'e + 's" where
  "loopR f s [] = Inr s"
| "loopR f s (x # xs) = andThen (f s x) (\<lambda>s'. loopR f s' xs)"

fun mapM_list :: "('a \<Rightarrow> 'e + 'b) \<Rightarrow> 'a list \<Rightarrow> 'e + 'b list" where
  "mapM_list f [] = Inr []"
| "mapM_list f (x # xs) = andThen (f x) (\<lambda>y. mapR (\<lambda>ys. y # ys) (mapM_list f xs))"

lemma loopR_append: "loopR f s (xs @ ys) = andThen (loopR f s xs) (\<lambda>t. loopR f t ys)"
proof (induction xs arbitrary: s)
  case (Cons x xs)
  then show ?case by (cases "f s x") simp_all
qed simp

text \<open>The loop rule: an assertion about the elements consumed and the state.\<close>

lemma loopR_rule:
  assumes "loopR f s xs = Inr t" and "P [] s"
    and "\<And>pre x u v. x \<in> set xs \<Longrightarrow> P pre u \<Longrightarrow> f u x = Inr v \<Longrightarrow> P (pre @ [x]) v"
  shows "P xs t"
proof -
  have "P (pre @ xs) t" if "loopR f u xs = Inr t" "P pre u"
    "\<And>pre x u v. x \<in> set xs \<Longrightarrow> P pre u \<Longrightarrow> f u x = Inr v \<Longrightarrow> P (pre @ [x]) v" for pre u
    using that
  proof (induction xs arbitrary: pre u)
    case (Cons x xs)
    from Cons.prems(1) obtain v where v: "f u x = Inr v" "loopR f v xs = Inr t"
      by (auto simp: result_simps)
    from Cons.prems(2) v(1) have "P (pre @ [x]) v" by (auto intro: Cons.prems(3))
    from Cons.IH [OF v(2) this] Cons.prems(3) show ?case by simp
  qed simp
  from this [OF assms(1,2) assms(3)] show ?thesis by simp
qed

lemma mapM_list_Inr:
  "mapM_list f xs = Inr ys \<longleftrightarrow> list_all2 (\<lambda>x y. f x = Inr y) xs ys"
  by (induction xs arbitrary: ys) (auto simp: result_simps list_all2_Cons1)

subsection \<open>Array idioms\<close>

text \<open>
  \<open>xs.find(p)\<close> followed by a mutation of the object found: the first element
  that satisfies \<open>p\<close> is replaced, the rest of the array is untouched.
\<close>

fun update_first :: "('a \<Rightarrow> bool) \<Rightarrow> ('a \<Rightarrow> 'a) \<Rightarrow> 'a list \<Rightarrow> 'a list" where
  "update_first p f [] = []"
| "update_first p f (x # xs) = (if p x then f x # xs else x # update_first p f xs)"

text \<open>\<open>findIndex\<close> then \<open>splice(i, 1)\<close>.\<close>

fun remove_first :: "('a \<Rightarrow> bool) \<Rightarrow> 'a list \<Rightarrow> 'a list" where
  "remove_first p [] = []"
| "remove_first p (x # xs) = (if p x then xs else x # remove_first p xs)"

text \<open>
  \<open>if (i >= 0) xs[i] = v else xs.push(v)\<close>, with \<open>i\<close> the first index where \<open>p\<close>
  holds.
\<close>

definition replace_or_push :: "('a \<Rightarrow> bool) \<Rightarrow> 'a \<Rightarrow> 'a list \<Rightarrow> 'a list" where
  "replace_or_push p v xs =
     (if find p xs = None then xs @ [v] else update_first p (\<lambda>_. v) xs)"

text \<open>\<open>[...new Set(xs)]\<close>: the first occurrence of each element, in order.\<close>

fun unique :: "'a list \<Rightarrow> 'a list" where
  "unique [] = []"
| "unique (x # xs) = x # filter (\<lambda>y. y \<noteq> x) (unique xs)"

text \<open>
  A JavaScript \<open>Map\<close> with the insertion order kept: an association list;
  \<open>set\<close> replaces the value in place or appends.
\<close>

fun assoc_get :: "('k \<times> 'v) list \<Rightarrow> 'k \<Rightarrow> 'v option" where
  "assoc_get [] k = None"
| "assoc_get ((k', v) # m) k = (if k' = k then Some v else assoc_get m k)"

fun assoc_set :: "('k \<times> 'v) list \<Rightarrow> 'k \<Rightarrow> 'v \<Rightarrow> ('k \<times> 'v) list" where
  "assoc_set [] k v = [(k, v)]"
| "assoc_set ((k', v') # m) k v = (if k' = k then (k', v) # m else (k', v') # assoc_set m k v)"

lemma find_eq_None [list_simps]: "find p xs = None \<longleftrightarrow> (\<forall>x\<in>set xs. \<not> p x)"
  by (induction xs) auto

lemma find_SomeD: "find p xs = Some x \<Longrightarrow> x \<in> set xs \<and> p x"
  by (induction xs) (auto split: if_splits)

lemma set_update_first:
  "set (update_first p f xs) \<subseteq> set xs \<union> f ` {x \<in> set xs. p x}"
  by (induction xs) auto

lemma update_first_pres:
  assumes "\<forall>x\<in>set xs. Q x" and "\<And>x. x \<in> set xs \<Longrightarrow> p x \<Longrightarrow> Q x \<Longrightarrow> Q (f x)"
  shows "\<forall>x\<in>set (update_first p f xs). Q x"
  using assms by (induction xs) auto

lemma length_update_first [simp]: "length (update_first p f xs) = length xs"
  by (induction xs) auto

lemma map_update_first [list_simps]:
  "(\<And>x. p x \<Longrightarrow> g (f x) = g x) \<Longrightarrow> map g (update_first p f xs) = map g xs"
  by (induction xs) auto

lemma update_first_not: "\<forall>x\<in>set xs. \<not> p x \<Longrightarrow> update_first p f xs = xs"
  by (induction xs) auto

lemma set_remove_first: "set (remove_first p xs) \<subseteq> set xs"
  by (induction xs) auto

lemma set_unique [simp]: "set (unique xs) = set xs"
  by (induction xs) auto

lemma distinct_unique [simp]: "distinct (unique xs)"
  by (induction xs) auto

lemma unique_distinct: "distinct xs \<Longrightarrow> unique xs = xs"
  by (induction xs) (auto simp: filter_id_conv)

lemma assoc_get_set [simp]:
  "assoc_get (assoc_set m k v) k' = (if k' = k then Some v else assoc_get m k')"
  by (induction m) auto

lemma keys_assoc_set:
  "map fst (assoc_set m k v) = (if k \<in> fst ` set m then map fst m else map fst m @ [k])"
  by (induction m) force+

lemma distinct_assoc_set:
  "distinct (map fst m) \<Longrightarrow> distinct (map fst (assoc_set m k v))"
  by (simp add: keys_assoc_set)

lemma assoc_get_None: "assoc_get m k = None \<longleftrightarrow> k \<notin> fst ` set m"
  by (induction m) (auto split: if_splits)

lemma assoc_get_SomeD: "assoc_get m k = Some v \<Longrightarrow> (k, v) \<in> set m"
  by (induction m) (auto split: if_splits)

lemma assoc_get_in:
  "distinct (map fst m) \<Longrightarrow> (k, v) \<in> set m \<Longrightarrow> assoc_get m k = Some v"
  by (induction m) (force split: if_splits)+

text \<open>Sums over a list, the \<open>reduce\<close> of the code.\<close>

lemma sum_list_nonneg_int: "(\<And>x. x \<in> set xs \<Longrightarrow> 0 \<le> f x) \<Longrightarrow> 0 \<le> (\<Sum>x\<leftarrow>xs. f x :: int)"
  by (induction xs) simp_all

lemma sum_list_mono_int:
  "(\<And>x. x \<in> set xs \<Longrightarrow> f x \<le> g x) \<Longrightarrow> (\<Sum>x\<leftarrow>xs. f x :: int) \<le> (\<Sum>x\<leftarrow>xs. g x)"
  by (induction xs) (simp_all add: add_mono)

lemma sum_list_diff_int:
  "(\<Sum>x\<leftarrow>xs. f x - g x :: int) = (\<Sum>x\<leftarrow>xs. f x) - (\<Sum>x\<leftarrow>xs. g x)"
  by (induction xs) simp_all

subsection \<open>Updates of the unique match\<close>

lemma sum_update_first:
  "find p xs = Some x \<Longrightarrow>
     (\<Sum>y\<leftarrow>update_first p f xs. g y :: int) = (\<Sum>y\<leftarrow>xs. g y) - g x + g (f x)"
  by (induction xs) (auto split: if_splits)

lemma set_update_unique:
  assumes "distinct (map key xs)" and "find p xs = Some x" and "\<And>y. p y \<Longrightarrow> key y = k"
    and "key (f x) = k"
  shows "y \<in> set (update_first p f xs) \<longleftrightarrow> y = f x \<or> y \<in> set xs \<and> key y \<noteq> k"
  using assms(1,2)
proof (induction xs)
  case (Cons z xs)
  show ?case
  proof (cases "p z")
    case True
    with Cons.prems(2) have "x = z" by simp
    moreover from Cons.prems(1) assms(3) [OF True] have "\<forall>w\<in>set xs. key w \<noteq> k" by (auto simp: image_iff)
    ultimately show ?thesis using True assms(3) [OF True] by auto
  next
    case False
    with Cons.prems have *: "find p xs = Some x" by simp
    then have "x \<in> set xs" "key x = k" using find_SomeD [of p xs x] assms(3) by auto
    with Cons.prems(1) have "key z \<noteq> k" by (auto simp: image_iff)
    with False Cons.IH [OF _ *] Cons.prems(1) show ?thesis by auto
  qed
qed simp

lemma update_first_mem: "x \<in> set xs \<Longrightarrow> \<not> p x \<Longrightarrow> x \<in> set (update_first p f xs)"
  by (induction xs) auto

lemma find_by_id:
  assumes "distinct (map key xs)" and "x \<in> set xs" and "p x" and "\<And>y. p y \<Longrightarrow> key y = key x"
  shows "find p xs = Some x"
  using assms(1,2)
proof (induction xs)
  case (Cons z xs)
  show ?case
  proof (cases "p z")
    case True
    with Cons.prems assms(4) [OF True] have "z = x" by (auto simp: image_iff)
    with True show ?thesis by simp
  next
    case False
    with Cons assms(3) show ?thesis by auto
  qed
qed simp

lemma find_append:
  "find p (xs @ ys) = (case find p xs of None \<Rightarrow> find p ys | Some x \<Rightarrow> Some x)"
  by (induction xs) auto

subsection \<open>Picking the best candidate\<close>

text \<open>
  The promotion engine and its rankings share one loop: the first candidate
  stays until a later one has a larger value, or the same value and a smaller
  identifier.
\<close>

fun pick_best :: "('a \<Rightarrow> int) \<Rightarrow> ('a \<Rightarrow> ident) \<Rightarrow> 'a option \<Rightarrow> 'a list \<Rightarrow> 'a option" where
  "pick_best val key best [] = best"
| "pick_best val key best (c # cs) =
     pick_best val key
       (case best of
          None \<Rightarrow> Some c
        | Some b \<Rightarrow>
            if val b < val c \<or> val c = val b \<and> key c < key b then Some c else Some b)
       cs"

definition better :: "('a \<Rightarrow> int) \<Rightarrow> ('a \<Rightarrow> ident) \<Rightarrow> 'a \<Rightarrow> 'a \<Rightarrow> bool" where
  "better val key a b \<longleftrightarrow> val b < val a \<or> val a = val b \<and> key a \<le> key b"

lemma better_refl [simp]: "better val key a a"
  by (simp add: better_def)

lemma better_trans: "better val key a b \<Longrightarrow> better val key b c \<Longrightarrow> better val key a c"
  by (auto simp: better_def)

lemma pick_best_None: "pick_best val key best cs = None \<longleftrightarrow> best = None \<and> cs = []"
  by (induction cs arbitrary: best) (auto split: option.splits)

lemma pick_best_Some:
  "pick_best val key best cs = Some w \<Longrightarrow>
     (best = Some w \<or> w \<in> set cs)
     \<and> (\<forall>b. best = Some b \<longrightarrow> better val key w b)
     \<and> (\<forall>c\<in>set cs. better val key w c)"
proof (induction cs arbitrary: best)
  case Nil
  then show ?case by simp
next
  case (Cons c cs)
  define next_best where "next_best =
    (case best of None \<Rightarrow> Some c
     | Some b \<Rightarrow> if val b < val c \<or> val c = val b \<and> key c < key b then Some c else Some b)"
  have "pick_best val key next_best cs = Some w"
    using Cons.prems by (simp add: next_best_def)
  note IH = Cons.IH [OF this]
  have "\<exists>n. next_best = Some n \<and> (n = c \<or> best = Some n) \<and> better val key n c
          \<and> (\<forall>b. best = Some b \<longrightarrow> better val key n b)"
    by (auto simp: next_best_def better_def split: option.splits)
  then obtain n where n: "next_best = Some n" "n = c \<or> best = Some n" "better val key n c"
    "\<forall>b. best = Some b \<longrightarrow> better val key n b" by blast
  with IH have "better val key w n" by blast
  with n IH show ?case by (auto intro: better_trans)
qed

end
