(* ===== verification/SaleItem.thy ===== *)
theory SaleItem
  imports Prelude
begin

section \<open>Sale items\<close>

text \<open>
  \<open>src/src/sales/domain/sale-item.entity.ts\<close>: one line of a sale.  The record
  \<open>sale_item\<close> holds the entity's fields, public and private; each method is a
  definition on it.  Every method of this entity checks before it writes, so a
  failing call leaves the item as it was and the result needs no item.  The clock
  read by \<open>new Date()\<close> is the argument \<open>now\<close>.

  The lemmas show what a discount does to the price of a line, that discounts
  replace each other instead of compounding, that removing one restores the
  price, and how the reward of a buy-x-get-y promotion is told apart from a
  per-unit discount.
\<close>

datatype price_source = SourceDefault | SourcePriceList | SourceCustom
datatype discount_kind = AmountDiscount | PercentageDiscount
datatype reward_kind = RewardBuyXGetY | RewardAdvanced
datatype discount_strategy = StrategyReplace | StrategySkip

subsection \<open>Data\<close>

text \<open>
  A property that may be absent or \<open>null\<close> is an option: the factories collapse
  both with \<open>?? null\<close>.
\<close>

record sale_item_props =
  sip_id :: ident
  sip_saleId :: ident
  sip_productId :: ident
  sip_variantId :: "ident option"
  sip_productName :: string
  sip_variantName :: "string option"
  sip_imageUrl :: "string option"
  sip_quantity :: int
  sip_unitPriceCents :: cents
  sip_unitPriceCurrency :: string
  sip_originalPriceCents :: "cents option"
  sip_priceSource :: "price_source option"
  sip_appliedPriceListId :: "ident option"
  sip_customPriceCents :: "cents option"
  sip_discountType :: "discount_kind option"
  sip_discountValue :: "int option"
  sip_discountAmountCents :: "cents option"
  sip_prePriceCentsBeforeDiscount :: "cents option"
  sip_discountTitle :: "string option"
  sip_discountedAt :: "timestamp option"
  sip_promotionId :: "ident option"
  sip_rewardDiscountPercent :: "int option"
  sip_rewardKind :: "reward_kind option"

record sale_item =
  si_id :: ident
  si_saleId :: ident
  si_productId :: ident
  si_variantId :: "ident option"
  si_productName :: string
  si_variantName :: "string option"
  si_imageUrl :: "string option"
  si_quantity :: int
  si_unitPriceCents :: cents
  si_unitPriceCurrency :: string
  si_originalPriceCents :: "cents option"
  si_priceSource :: price_source
  si_appliedPriceListId :: "ident option"
  si_customPriceCents :: "cents option"
  si_discountType :: "discount_kind option"
  si_discountValue :: "int option"
  si_discountAmountCents :: "cents option"
  si_prePriceCentsBeforeDiscount :: "cents option"
  si_discountTitle :: "string option"
  si_discountedAt :: "timestamp option"
  si_promotionId :: "ident option"
  si_rewardDiscountPercent :: "int option"
  si_rewardKind :: "reward_kind option"

record apply_discount_input =
  adi_type :: discount_kind
  adi_amountCents :: "js_number option"
  adi_percent :: "js_number option"
  adi_discountTitle :: "string option"
  adi_strategy :: "discount_strategy option"
  adi_promotionId :: "ident option"

record reward_input =
  rwi_lineDiscountCents :: js_number
  rwi_perUnitRewardCents :: cents
  rwi_discountedUnitCount :: int
  rwi_discountTitle :: "string option"
  rwi_promotionId :: ident
  rwi_getDiscountPercent :: int
  rwi_rewardKind :: "reward_kind option"

record override_price_input =
  opi_priceCents :: cents
  opi_priceSource :: price_source
  opi_appliedPriceListId :: "ident option"
  opi_customPriceCents :: "cents option"

record reprice_input =
  rpi_priceCents :: js_number
  rpi_priceSource :: price_source
  rpi_appliedPriceListId :: "ident option"

subsection \<open>Factories\<close>

definition item_of_props :: "sale_item_props \<Rightarrow> sale_item" where
  "item_of_props p =
     \<lparr>si_id = sip_id p, si_saleId = sip_saleId p, si_productId = sip_productId p,
      si_variantId = sip_variantId p, si_productName = sip_productName p,
      si_variantName = sip_variantName p, si_imageUrl = sip_imageUrl p,
      si_quantity = sip_quantity p, si_unitPriceCents = sip_unitPriceCents p,
      si_unitPriceCurrency = sip_unitPriceCurrency p,
      si_originalPriceCents = sip_originalPriceCents p,
      si_priceSource = (case sip_priceSource p of None \<Rightarrow> SourceDefault | Some s \<Rightarrow> s),
      si_appliedPriceListId = sip_appliedPriceListId p,
      si_customPriceCents = sip_customPriceCents p,
      si_discountType = sip_discountType p, si_discountValue = sip_discountValue p,
      si_discountAmountCents = sip_discountAmountCents p,
      si_prePriceCentsBeforeDiscount = sip_prePriceCentsBeforeDiscount p,
      si_discountTitle = sip_discountTitle p, si_discountedAt = sip_discountedAt p,
      si_promotionId = sip_promotionId p,
      si_rewardDiscountPercent = None, si_rewardKind = None\<rparr>"

definition SaleItem_create :: "sale_item_props \<Rightarrow> sale_item result" where
  "SaleItem_create p =
     (if is_blank (sip_productId p) then Inl (invalid_argument ''Product ID cannot be empty'')
      else if is_blank (sip_productName p)
        then Inl (invalid_argument ''Product name cannot be empty'')
      else if sip_quantity p < 1 then Inl (invalid_argument ''Quantity must be at least 1'')
      else if sip_unitPriceCents p < 0
        then Inl (invalid_argument ''Unit price cannot be negative'')
      else Inr (item_of_props p))"

definition SaleItem_fromPersistence :: "sale_item_props \<Rightarrow> sale_item" where
  "SaleItem_fromPersistence p =
     (item_of_props p)
       \<lparr>si_rewardDiscountPercent := sip_rewardDiscountPercent p,
        si_rewardKind := sip_rewardKind p\<rparr>"

subsection \<open>Reads\<close>

definition subtotalCents :: "sale_item \<Rightarrow> cents" where
  "subtotalCents it = si_unitPriceCents it * si_quantity it"

definition item_matches :: "sale_item \<Rightarrow> ident \<Rightarrow> ident option \<Rightarrow> bool" where
  "item_matches it productId variantId \<longleftrightarrow>
     si_productId it = productId \<and> si_variantId it = variantId"

definition isBuyXGetYReward :: "sale_item \<Rightarrow> bool" where
  "isBuyXGetYReward it \<longleftrightarrow>
     si_promotionId it \<noteq> None \<and>
     (case si_discountAmountCents it of None \<Rightarrow> False | Some d \<Rightarrow> 0 < d) \<and>
     si_prePriceCentsBeforeDiscount it = Some (si_unitPriceCents it)"

text \<open>\<open>prePriceCentsBeforeDiscount ?? unitPriceCents\<close>, the price discounts start from.\<close>

definition item_baseline :: "sale_item \<Rightarrow> cents" where
  "item_baseline it =
     (case si_prePriceCentsBeforeDiscount it of None \<Rightarrow> si_unitPriceCents it | Some p \<Rightarrow> p)"

subsection \<open>Mutations\<close>

definition changeQuantity :: "int \<Rightarrow> sale_item \<Rightarrow> sale_item result" where
  "changeQuantity n it =
     (if n < 1 then Inl (invalid_argument ''Quantity must be at least 1'')
      else Inr (it\<lparr>si_quantity := n\<rparr>))"

definition clearDiscountFields :: "sale_item \<Rightarrow> sale_item" where
  "clearDiscountFields it =
     it\<lparr>si_discountType := None, si_discountValue := None, si_discountAmountCents := None,
        si_prePriceCentsBeforeDiscount := None, si_discountTitle := None,
        si_discountedAt := None, si_promotionId := None,
        si_rewardDiscountPercent := None, si_rewardKind := None\<rparr>"

text \<open>\<open>!x\<close> on an optional number: absent or zero.\<close>

fun falsy_number :: "int option \<Rightarrow> bool" where
  "falsy_number None = True"
| "falsy_number (Some n) = (n = 0)"

definition overridePrice :: "override_price_input \<Rightarrow> sale_item \<Rightarrow> sale_item result" where
  "overridePrice i it =
     (if opi_priceSource i = SourcePriceList \<and>
         (\<not> truthy (opi_appliedPriceListId i) \<or> opi_customPriceCents i \<noteq> None)
        then Inl (invalid_argument ''INVALID_PRICE_OVERRIDE_INPUT'')
      else if opi_priceSource i = SourceCustom \<and>
         (falsy_number (opi_customPriceCents i) \<or> opi_appliedPriceListId i \<noteq> None)
        then Inl (invalid_argument ''INVALID_PRICE_OVERRIDE_INPUT'')
      else Inr (clearDiscountFields
        (it\<lparr>si_originalPriceCents :=
              (case si_originalPriceCents it of
                 None \<Rightarrow> Some (si_unitPriceCents it) | Some c \<Rightarrow> Some c),
            si_unitPriceCents := opi_priceCents i,
            si_priceSource := opi_priceSource i,
            si_appliedPriceListId := opi_appliedPriceListId i,
            si_customPriceCents := opi_customPriceCents i\<rparr>)))"

definition reprice :: "reprice_input \<Rightarrow> sale_item \<Rightarrow> sale_item result" where
  "reprice i it =
     (if rpi_priceSource i = SourceCustom then Inl (invalid_argument ''INVALID_REPRICE_INPUT'')
      else case rpi_priceCents i of
        JsInt n \<Rightarrow>
          if n < 0 then Inl (invalid_argument ''INVALID_REPRICE_INPUT'')
          else Inr (it\<lparr>si_unitPriceCents := n, si_priceSource := rpi_priceSource i,
                      si_appliedPriceListId := rpi_appliedPriceListId i\<rparr>)
      | _ \<Rightarrow> Inl (invalid_argument ''INVALID_REPRICE_INPUT''))"

definition computeDiscountAmountCents :: "apply_discount_input \<Rightarrow> cents \<Rightarrow> cents result" where
  "computeDiscountAmountCents i baseline =
     (case adi_type i of
        AmountDiscount \<Rightarrow>
          (case adi_amountCents i of
             Some (JsInt n) \<Rightarrow>
               if n < 1 then Inl (invalid_argument ''DISCOUNT_AMOUNT_INVALID'') else Inr n
           | _ \<Rightarrow> Inl (invalid_argument ''DISCOUNT_AMOUNT_INVALID''))
      | PercentageDiscount \<Rightarrow>
          (case adi_percent i of
             Some (JsInt n) \<Rightarrow>
               if n < 1 \<or> 99 < n then Inl (invalid_argument ''DISCOUNT_PERCENT_INVALID'')
               else Inr (round_percent baseline n)
           | _ \<Rightarrow> Inl (invalid_argument ''DISCOUNT_PERCENT_INVALID'')))"

text \<open>The number stored as \<open>discountValue\<close>; the guards have made it an integer.\<close>

definition discount_input_value :: "apply_discount_input \<Rightarrow> int option" where
  "discount_input_value i =
     map_option js_trunc
       (case adi_type i of AmountDiscount \<Rightarrow> adi_amountCents i | PercentageDiscount \<Rightarrow> adi_percent i)"

definition applyDiscount :: "timestamp \<Rightarrow> apply_discount_input \<Rightarrow> sale_item \<Rightarrow> sale_item result" where
  "applyDiscount now i it =
     (let hasAmount = adi_amountCents i \<noteq> None; hasPercent = adi_percent i \<noteq> None in
      if hasAmount = hasPercent then Inl (invalid_argument ''INVALID_DISCOUNT_INPUT'')
      else if adi_type i = AmountDiscount \<and> \<not> hasAmount
        then Inl (invalid_argument ''INVALID_DISCOUNT_INPUT'')
      else if adi_type i = PercentageDiscount \<and> \<not> hasPercent
        then Inl (invalid_argument ''INVALID_DISCOUNT_INPUT'')
      else
        let baseline = item_baseline it in
        andThen (computeDiscountAmountCents i baseline) (\<lambda>discount.
          if baseline - discount < 1 then Inl (invalid_argument ''DISCOUNT_AMOUNT_INVALID'')
          else Inr
            (it\<lparr>si_prePriceCentsBeforeDiscount := Some baseline,
                si_discountType := Some (adi_type i),
                si_discountValue := discount_input_value i,
                si_discountAmountCents := Some discount,
                si_discountTitle := adi_discountTitle i,
                si_discountedAt := Some now,
                si_unitPriceCents := baseline - discount,
                si_promotionId := adi_promotionId i\<rparr>)))"

definition removeDiscount :: "sale_item \<Rightarrow> sale_item" where
  "removeDiscount it =
     clearDiscountFields
       (case si_prePriceCentsBeforeDiscount it of
          None \<Rightarrow> it | Some p \<Rightarrow> it\<lparr>si_unitPriceCents := p\<rparr>)"

definition applyBuyXGetYReward :: "timestamp \<Rightarrow> reward_input \<Rightarrow> sale_item \<Rightarrow> sale_item result" where
  "applyBuyXGetYReward now i it =
     (case rwi_lineDiscountCents i of
        JsInt r \<Rightarrow>
          if r \<le> 0
            then Inl (invalid_argument
              ''BXGY_REWARD_INVALID: lineDiscountCents must be a positive integer'')
          else if si_unitPriceCents it * si_quantity it < r
            then Inl (invalid_argument
              ''BXGY_REWARD_INVALID: lineDiscountCents must be at most unitPriceCents * quantity'')
          else if rwi_promotionId i = []
            then Inl (invalid_argument ''BXGY_REWARD_INVALID: promotionId is required'')
          else Inr
            (it\<lparr>si_prePriceCentsBeforeDiscount := Some (si_unitPriceCents it),
                si_discountType := Some AmountDiscount,
                si_discountValue := Some (rwi_perUnitRewardCents i),
                si_discountAmountCents := Some r,
                si_discountTitle := rwi_discountTitle i,
                si_discountedAt := Some now,
                si_promotionId := Some (rwi_promotionId i),
                si_rewardDiscountPercent := Some (rwi_getDiscountPercent i),
                si_rewardKind :=
                  (case rwi_rewardKind i of None \<Rightarrow> Some RewardBuyXGetY | Some k \<Rightarrow> Some k)\<rparr>)
      | _ \<Rightarrow> Inl (invalid_argument
              ''BXGY_REWARD_INVALID: lineDiscountCents must be a positive integer''))"

subsection \<open>The wire shape\<close>

record sale_item_response =
  sir_id :: ident
  sir_productId :: ident
  sir_variantId :: "ident option"
  sir_productName :: string
  sir_variantName :: "string option"
  sir_imageUrl :: "string option"
  sir_quantity :: int
  sir_unitPriceCents :: cents
  sir_unitPriceCurrency :: string
  sir_originalPriceCents :: "cents option"
  sir_priceSource :: price_source
  sir_appliedPriceListId :: "ident option"
  sir_customPriceCents :: "cents option"
  sir_discountType :: "discount_kind option"
  sir_discountValue :: "int option"
  sir_discountAmountCents :: "cents option"
  sir_prePriceCentsBeforeDiscount :: "cents option"
  sir_discountTitle :: "string option"
  sir_discountedAt :: "timestamp option"
  sir_promotionId :: "ident option"
  sir_subtotalCents :: cents
  sir_rewardKind :: "reward_kind option"
  sir_rewardDiscountPercent :: "int option"

text \<open>The part of a line's gross that a whole-line reward takes off.\<close>

definition reward_cents :: "sale_item \<Rightarrow> cents" where
  "reward_cents it =
     (if isBuyXGetYReward it
      then (case si_discountAmountCents it of None \<Rightarrow> 0 | Some d \<Rightarrow> d) else 0)"

definition SaleItem_toResponse :: "sale_item \<Rightarrow> sale_item_response" where
  "SaleItem_toResponse it =
     \<lparr>sir_id = si_id it, sir_productId = si_productId it, sir_variantId = si_variantId it,
      sir_productName = si_productName it, sir_variantName = si_variantName it,
      sir_imageUrl = si_imageUrl it, sir_quantity = si_quantity it,
      sir_unitPriceCents = si_unitPriceCents it,
      sir_unitPriceCurrency = si_unitPriceCurrency it,
      sir_originalPriceCents = si_originalPriceCents it, sir_priceSource = si_priceSource it,
      sir_appliedPriceListId = si_appliedPriceListId it,
      sir_customPriceCents = si_customPriceCents it, sir_discountType = si_discountType it,
      sir_discountValue = si_discountValue it,
      sir_discountAmountCents = si_discountAmountCents it,
      sir_prePriceCentsBeforeDiscount = si_prePriceCentsBeforeDiscount it,
      sir_discountTitle = si_discountTitle it, sir_discountedAt = si_discountedAt it,
      sir_promotionId = si_promotionId it,
      sir_subtotalCents = si_unitPriceCents it * si_quantity it - reward_cents it,
      sir_rewardKind =
        (case si_rewardKind it of
           Some k \<Rightarrow> Some k
         | None \<Rightarrow> if isBuyXGetYReward it then Some RewardBuyXGetY else None),
      sir_rewardDiscountPercent =
        (if isBuyXGetYReward it then si_rewardDiscountPercent it else None)\<rparr>"


subsection \<open>Elimination rules for the fallible operations\<close>

lemma computeDiscount_bounds:
  assumes "computeDiscountAmountCents i b = Inr d" and "0 \<le> b"
  shows "0 \<le> d"
  using assms
  by (auto simp: computeDiscountAmountCents_def round_percent_nonneg
      split: discount_kind.splits option.splits js_number.splits if_splits)

lemma applyDiscountE:
  assumes "applyDiscount now i it = Inr it'"
  obtains d where
    "computeDiscountAmountCents i (item_baseline it) = Inr d"
    "1 \<le> item_baseline it - d"
    "it' = it\<lparr>si_prePriceCentsBeforeDiscount := Some (item_baseline it),
       si_discountType := Some (adi_type i), si_discountValue := discount_input_value i,
       si_discountAmountCents := Some d, si_discountTitle := adi_discountTitle i,
       si_discountedAt := Some now, si_unitPriceCents := item_baseline it - d,
       si_promotionId := adi_promotionId i\<rparr>"
  using assms
  by (auto simp: applyDiscount_def Let_def result_simps split: if_splits)

lemma applyRewardE:
  assumes "applyBuyXGetYReward now i it = Inr it'"
  obtains r where
    "rwi_lineDiscountCents i = JsInt r" "0 < r" "r \<le> subtotalCents it" "rwi_promotionId i \<noteq> []"
    "it' = it\<lparr>si_prePriceCentsBeforeDiscount := Some (si_unitPriceCents it),
       si_discountType := Some AmountDiscount,
       si_discountValue := Some (rwi_perUnitRewardCents i), si_discountAmountCents := Some r,
       si_discountTitle := rwi_discountTitle i, si_discountedAt := Some now,
       si_promotionId := Some (rwi_promotionId i),
       si_rewardDiscountPercent := Some (rwi_getDiscountPercent i),
       si_rewardKind :=
         (case rwi_rewardKind i of None \<Rightarrow> Some RewardBuyXGetY | Some k \<Rightarrow> Some k)\<rparr>"
  using assms
  by (auto simp: applyBuyXGetYReward_def subtotalCents_def
      split: js_number.splits if_splits)

lemma clearDiscountFields_simps [simp]:
  "si_discountType (clearDiscountFields it) = None"
  "si_discountAmountCents (clearDiscountFields it) = None"
  "si_prePriceCentsBeforeDiscount (clearDiscountFields it) = None"
  "si_promotionId (clearDiscountFields it) = None"
  "si_rewardKind (clearDiscountFields it) = None"
  "si_unitPriceCents (clearDiscountFields it) = si_unitPriceCents it"
  "si_quantity (clearDiscountFields it) = si_quantity it"
  "si_id (clearDiscountFields it) = si_id it"
  "si_productId (clearDiscountFields it) = si_productId it"
  "si_variantId (clearDiscountFields it) = si_variantId it"
  "si_priceSource (clearDiscountFields it) = si_priceSource it"
  "si_appliedPriceListId (clearDiscountFields it) = si_appliedPriceListId it"
  by (simp_all add: clearDiscountFields_def)

lemma removeDiscount_simps [simp]:
  "si_discountType (removeDiscount it) = None"
  "si_discountAmountCents (removeDiscount it) = None"
  "si_prePriceCentsBeforeDiscount (removeDiscount it) = None"
  "si_promotionId (removeDiscount it) = None"
  "si_rewardKind (removeDiscount it) = None"
  "si_unitPriceCents (removeDiscount it) = item_baseline it"
  "si_quantity (removeDiscount it) = si_quantity it"
  "si_id (removeDiscount it) = si_id it"
  "si_productId (removeDiscount it) = si_productId it"
  "si_variantId (removeDiscount it) = si_variantId it"
  "si_priceSource (removeDiscount it) = si_priceSource it"
  "si_appliedPriceListId (removeDiscount it) = si_appliedPriceListId it"
  by (simp_all add: removeDiscount_def item_baseline_def split: option.splits)

lemma reward_cents_nonneg: "0 \<le> reward_cents it"
  by (auto simp: reward_cents_def isBuyXGetYReward_def split: option.splits)

subsection \<open>The invariant of a priced line\<close>

text \<open>
  A line in good order: a positive quantity, a price that is not negative and
  not above the price before the discount, and no remains of a discount where
  there is none.
\<close>

definition item_ok :: "sale_item \<Rightarrow> bool" where
  "item_ok it \<longleftrightarrow>
     1 \<le> si_quantity it \<and> 0 \<le> si_unitPriceCents it \<and>
     si_unitPriceCents it \<le> item_baseline it \<and>
     (si_discountType it = None \<longrightarrow>
        si_prePriceCentsBeforeDiscount it = None \<and> si_discountAmountCents it = None \<and>
        si_promotionId it = None)"

lemma item_baseline_Some [simp]:
  "si_prePriceCentsBeforeDiscount it = Some p \<Longrightarrow> item_baseline it = p"
  by (simp add: item_baseline_def)

lemma item_baseline_None [simp]:
  "si_prePriceCentsBeforeDiscount it = None \<Longrightarrow> item_baseline it = si_unitPriceCents it"
  by (simp add: item_baseline_def)

lemma item_ok_baseline: "item_ok it \<Longrightarrow> 0 \<le> item_baseline it"
  by (auto simp: item_ok_def)

lemma create_item_ok:
  assumes "SaleItem_create p = Inr it" and "sip_discountType p = None"
    and "sip_prePriceCentsBeforeDiscount p = None" and "sip_discountAmountCents p = None"
    and "sip_promotionId p = None"
  shows "item_ok it"
  using assms
  by (auto simp: SaleItem_create_def item_of_props_def item_ok_def item_baseline_def
      split: if_splits)

lemma changeQuantity_ok: "changeQuantity n it = Inr it' \<Longrightarrow> item_ok it \<Longrightarrow> item_ok it'"
  by (auto simp: changeQuantity_def item_ok_def item_baseline_def
      split: if_splits option.splits)

lemma removeDiscount_ok: "item_ok it \<Longrightarrow> item_ok (removeDiscount it)"
  using item_ok_baseline [of it]
  by (auto simp: item_ok_def item_baseline_def [of "removeDiscount it"])

lemma applyDiscount_ok:
  assumes "applyDiscount now i it = Inr it'" and "item_ok it"
  shows "item_ok it'"
  using assms(1)
proof (rule applyDiscountE)
  fix d
  assume d: "computeDiscountAmountCents i (item_baseline it) = Inr d"
    and le: "1 \<le> item_baseline it - d"
    and it': "it' = it\<lparr>si_prePriceCentsBeforeDiscount := Some (item_baseline it),
       si_discountType := Some (adi_type i), si_discountValue := discount_input_value i,
       si_discountAmountCents := Some d, si_discountTitle := adi_discountTitle i,
       si_discountedAt := Some now, si_unitPriceCents := item_baseline it - d,
       si_promotionId := adi_promotionId i\<rparr>"
  have "0 \<le> d" using d item_ok_baseline [OF assms(2)] by (rule computeDiscount_bounds)
  with le it' assms(2) show ?thesis
    by (simp add: item_ok_def)
qed

lemma applyReward_ok:
  "applyBuyXGetYReward now i it = Inr it' \<Longrightarrow> item_ok it \<Longrightarrow> item_ok it'"
  by (erule applyRewardE) (auto simp: item_ok_def item_baseline_def)

lemma overridePrice_ok:
  "overridePrice i it = Inr it' \<Longrightarrow> item_ok it \<Longrightarrow> 0 \<le> opi_priceCents i \<Longrightarrow> item_ok it'"
  by (auto simp: overridePrice_def item_ok_def item_baseline_def split: if_splits)

text \<open>
  \<open>reprice\<close> leaves the discount fields alone, so only a line without a discount
  stays in good order: raising the price of a discounted line puts it above the
  price before the discount.
\<close>

lemma reprice_ok:
  "reprice i it = Inr it' \<Longrightarrow> item_ok it \<Longrightarrow> si_discountType it = None \<Longrightarrow> item_ok it'"
  by (auto simp: reprice_def item_ok_def item_baseline_def
      split: if_splits js_number.splits)

lemmas item_ok_intros =
  changeQuantity_ok removeDiscount_ok applyDiscount_ok applyReward_ok overridePrice_ok reprice_ok

lemma item_keys_preserved [list_simps]:
  "changeQuantity n it = Inr it' \<Longrightarrow> si_id it' = si_id it"
  "applyDiscount now i it = Inr it' \<Longrightarrow> si_id it' = si_id it"
  "applyBuyXGetYReward now j it = Inr it' \<Longrightarrow> si_id it' = si_id it"
  "overridePrice k it = Inr it' \<Longrightarrow> si_id it' = si_id it"
  "reprice l it = Inr it' \<Longrightarrow> si_id it' = si_id it"
  by (auto simp: changeQuantity_def applyDiscount_def applyBuyXGetYReward_def overridePrice_def
      reprice_def Let_def result_simps split: if_splits js_number.splits)

subsection \<open>Properties\<close>

definition sample_item :: sale_item where
  "sample_item = item_of_props
     \<lparr>sip_id = ''i1'', sip_saleId = ''s1'', sip_productId = ''p1'', sip_variantId = None,
      sip_productName = ''Cafe'', sip_variantName = None, sip_imageUrl = None,
      sip_quantity = 3, sip_unitPriceCents = 1000, sip_unitPriceCurrency = ''MXN'',
      sip_originalPriceCents = None, sip_priceSource = None, sip_appliedPriceListId = None,
      sip_customPriceCents = None, sip_discountType = None, sip_discountValue = None,
      sip_discountAmountCents = None, sip_prePriceCentsBeforeDiscount = None,
      sip_discountTitle = None, sip_discountedAt = None, sip_promotionId = None,
      sip_rewardDiscountPercent = None, sip_rewardKind = None\<rparr>"

definition percent_input :: "int \<Rightarrow> apply_discount_input" where
  "percent_input n =
     \<lparr>adi_type = PercentageDiscount, adi_amountCents = None, adi_percent = Some (JsInt n),
      adi_discountTitle = None, adi_strategy = None, adi_promotionId = None\<rparr>"

definition amount_input :: "int \<Rightarrow> apply_discount_input" where
  "amount_input n =
     \<lparr>adi_type = AmountDiscount, adi_amountCents = Some (JsInt n), adi_percent = None,
      adi_discountTitle = None, adi_strategy = None, adi_promotionId = None\<rparr>"

definition sample_reward :: reward_input where
  "sample_reward =
     \<lparr>rwi_lineDiscountCents = JsInt 1000, rwi_perUnitRewardCents = 1000,
      rwi_discountedUnitCount = 1, rwi_discountTitle = None, rwi_promotionId = ''bxgy'',
      rwi_getDiscountPercent = 100, rwi_rewardKind = None\<rparr>"

lemmas sample_simps =
  sample_item_def item_of_props_def percent_input_def amount_input_def sample_reward_def
  applyDiscount_def computeDiscountAmountCents_def discount_input_value_def item_baseline_def
  applyBuyXGetYReward_def round_percent_def Let_def

text \<open>
  Discounts replace each other.  A discount applied to a line that
  already carries one gives exactly the line that the second discount alone would
  have given: both are computed from the price before any discount, so repeated
  discounts never compound.
\<close>

theorem discount_replaces:
  assumes "applyDiscount t1 i1 it = Inr it1"
  shows "applyDiscount t2 i2 it1 = applyDiscount t2 i2 it"
  using assms
proof (rule applyDiscountE)
  fix d
  assume it1: "it1 = it\<lparr>si_prePriceCentsBeforeDiscount := Some (item_baseline it),
       si_discountType := Some (adi_type i1), si_discountValue := discount_input_value i1,
       si_discountAmountCents := Some d, si_discountTitle := adi_discountTitle i1,
       si_discountedAt := Some t1, si_unitPriceCents := item_baseline it - d,
       si_promotionId := adi_promotionId i1\<rparr>"
  then have base: "item_baseline it1 = item_baseline it"
    by (simp add: item_baseline_def)
  show ?thesis
    unfolding applyDiscount_def Let_def base by (simp add: it1 cong: if_cong)
qed

theorem discount_replaces_witness:
  "\<exists>it1. applyDiscount 1 (percent_input 50) sample_item = Inr it1 \<and>
     applyDiscount 2 (amount_input 100) it1 = applyDiscount 2 (amount_input 100) sample_item"
proof -
  have "\<exists>it1. applyDiscount 1 (percent_input 50) sample_item = Inr it1"
    by (simp add: sample_simps)
  then obtain it1 where h: "applyDiscount 1 (percent_input 50) sample_item = Inr it1" ..
  then show ?thesis
    using discount_replaces [OF h] by blast
qed

text \<open>
  Removing a discount undoes applying it.  Whatever discount was
  accepted on a line, removing it gives the line that removing the discount from
  the original line gives: for a line without a discount, the original price.
\<close>

theorem remove_undoes_discount:
  assumes "applyDiscount now i it = Inr it'"
  shows "removeDiscount it' = removeDiscount it \<and>
         si_unitPriceCents (removeDiscount it') = item_baseline it"
  using assms
  by (rule applyDiscountE)
    (auto simp: removeDiscount_def clearDiscountFields_def item_baseline_def split: option.splits)

theorem remove_undoes_discount_witness:
  "\<exists>it'. applyDiscount 1 (percent_input 50) sample_item = Inr it' \<and>
     si_unitPriceCents it' = 500 \<and> si_unitPriceCents (removeDiscount it') = 1000"
proof -
  have "\<exists>it'. applyDiscount 1 (percent_input 50) sample_item = Inr it' \<and> si_unitPriceCents it' = 500"
    by (simp add: sample_simps)
  then obtain it' where h: "applyDiscount 1 (percent_input 50) sample_item = Inr it'"
    and "si_unitPriceCents it' = 500" by blast
  moreover have "item_baseline sample_item = 1000"
    by (simp add: sample_simps)
  ultimately show ?thesis
    using remove_undoes_discount [OF h] by auto
qed

text \<open>
  What a per-unit discount does to a line in good order.  The new
  price is at least one cent and not above the price before the discount, the
  stored amount is exactly their difference, the line stays in good order, and
  the line is not mistaken for a reward line when the discount takes anything
  off.
\<close>

theorem discount_price_bounds:
  assumes "applyDiscount now i it = Inr it'" and "item_ok it"
  shows "1 \<le> si_unitPriceCents it' \<and> si_unitPriceCents it' \<le> item_baseline it \<and>
    si_discountAmountCents it' = Some (item_baseline it - si_unitPriceCents it') \<and>
    si_prePriceCentsBeforeDiscount it' = Some (item_baseline it) \<and>
    item_ok it' \<and> \<not> isBuyXGetYReward it'"
proof -
  have "item_ok it'" using assms by (rule applyDiscount_ok)
  with assms(1) show ?thesis
    by (elim applyDiscountE) (auto simp: item_ok_def item_baseline_def isBuyXGetYReward_def)
qed

theorem discount_price_bounds_witness:
  "\<exists>it'. applyDiscount 1 (percent_input 50) sample_item = Inr it' \<and> item_ok it' \<and>
     1 \<le> si_unitPriceCents it' \<and> \<not> isBuyXGetYReward it'"
proof -
  have "\<exists>it'. applyDiscount 1 (percent_input 50) sample_item = Inr it'"
    by (simp add: sample_simps)
  then obtain it' where h: "applyDiscount 1 (percent_input 50) sample_item = Inr it'" ..
  have ok: "item_ok sample_item"
    by (simp add: item_ok_def sample_simps)
  show ?thesis
    using h discount_price_bounds [OF h ok] by blast
qed

text \<open>
  A whole-line reward keeps the unit price, is recognised by the
  column-derived test, and leaves a line total between zero and the gross: the
  wire shows the gross minus the reward, with the reward's kind and percentage;
  removing it gives back the gross.
\<close>

theorem reward_nets_line:
  assumes "applyBuyXGetYReward now i it = Inr it'"
  shows "isBuyXGetYReward it' \<and> si_unitPriceCents it' = si_unitPriceCents it \<and>
    (\<exists>r. rwi_lineDiscountCents i = JsInt r \<and>
         sir_subtotalCents (SaleItem_toResponse it') = subtotalCents it - r) \<and>
    0 \<le> sir_subtotalCents (SaleItem_toResponse it') \<and>
    sir_subtotalCents (SaleItem_toResponse it') < subtotalCents it \<and>
    sir_rewardKind (SaleItem_toResponse it') =
      Some (case rwi_rewardKind i of None \<Rightarrow> RewardBuyXGetY | Some k \<Rightarrow> k) \<and>
    sir_rewardDiscountPercent (SaleItem_toResponse it') = Some (rwi_getDiscountPercent i) \<and>
    subtotalCents (removeDiscount it') = subtotalCents it"
  using assms
  by (rule applyRewardE)
    (auto simp: isBuyXGetYReward_def SaleItem_toResponse_def reward_cents_def subtotalCents_def
      item_baseline_def split: option.splits)

theorem reward_nets_line_witness:
  "\<exists>it'. applyBuyXGetYReward 1 sample_reward sample_item = Inr it' \<and> isBuyXGetYReward it' \<and>
     sir_rewardDiscountPercent (SaleItem_toResponse it') = Some 100"
proof -
  have "\<exists>it'. applyBuyXGetYReward 1 sample_reward sample_item = Inr it'"
    by (simp add: sample_simps)
  then obtain it' where h: "applyBuyXGetYReward 1 sample_reward sample_item = Inr it'" ..
  have "rwi_getDiscountPercent sample_reward = 100"
    by (simp add: sample_reward_def)
  then show ?thesis
    using h reward_nets_line [OF h] by auto
qed

text \<open>
  Property C5: a discount entered over a reward keeps the reward's label.
  \<open>applyDiscount\<close> does not reset \<open>_rewardKind\<close>, so a line that carried a reward
  and then gets a manual discount is no reward line any more, yet the wire still
  says it is one of the old kind.
\<close>

theorem discount_keeps_reward_label:
  assumes "applyBuyXGetYReward t1 r it = Inr it1" and "applyDiscount t2 i it1 = Inr it2"
    and "adi_promotionId i = None"
  shows "\<not> isBuyXGetYReward it2 \<and>
    sir_rewardKind (SaleItem_toResponse it2) = si_rewardKind it1 \<and>
    sir_rewardKind (SaleItem_toResponse it2) \<noteq> None \<and>
    sir_rewardDiscountPercent (SaleItem_toResponse it2) = None"
  using assms
  by (elim applyRewardE applyDiscountE)
    (auto simp: isBuyXGetYReward_def SaleItem_toResponse_def split: option.splits)

theorem discount_keeps_reward_label_witness:
  "\<exists>it1 it2. applyBuyXGetYReward 1 sample_reward sample_item = Inr it1 \<and>
     applyDiscount 2 (amount_input 100) it1 = Inr it2 \<and> \<not> isBuyXGetYReward it2 \<and>
     sir_rewardKind (SaleItem_toResponse it2) \<noteq> None"
proof -
  have "\<exists>it1 it2. applyBuyXGetYReward 1 sample_reward sample_item = Inr it1 \<and>
      applyDiscount 2 (amount_input 100) it1 = Inr it2"
    by (simp add: sample_simps)
  then obtain it1 it2 where
    h: "applyBuyXGetYReward 1 sample_reward sample_item = Inr it1"
       "applyDiscount 2 (amount_input 100) it1 = Inr it2" by blast
  have "adi_promotionId (amount_input 100) = None"
    by (simp add: amount_input_def)
  from discount_keeps_reward_label [OF h this] h show ?thesis by blast
qed

end
