(* ===== verification/Lifecycle.thy ===== *)
theory Lifecycle
  imports Prelude
begin

section \<open>Lifecycles\<close>

text \<open>
  The contract the stateful entities of the code share.  A sale, a delivery
  route, a cash session and a promotion each carry a status that only moves
  forward; the operations of the entity are the steps.  The locale states the
  law once and derives what holds along every sequence of operations; each
  entity's theory interprets it on its own operations.
\<close>

locale lifecycle =
  fixes step :: "'st \<Rightarrow> 'st \<Rightarrow> bool"
    and phase :: "'st \<Rightarrow> nat"
  assumes phase_step: "step s s' \<Longrightarrow> phase s \<le> phase s'"
begin

lemma phase_mono: "step\<^sup>*\<^sup>* s s' \<Longrightarrow> phase s \<le> phase s'"
  by (induction rule: rtranclp_induct) (auto dest: phase_step)

text \<open>A status that was left is never entered again.\<close>

lemma no_return:
  assumes "step\<^sup>*\<^sup>* s t" and "phase s < phase t" and "step\<^sup>*\<^sup>* t u"
  shows "phase u \<noteq> phase s"
  using phase_mono [OF assms(3)] assms(2) by simp

lemma cycle_same_phase:
  assumes "step\<^sup>*\<^sup>* s t" and "step\<^sup>*\<^sup>* t s"
  shows "phase s = phase t"
  using assms by (auto dest!: phase_mono)

end

text \<open>
  A lifecycle with a part of the state that is frozen once a given phase is
  reached.
\<close>

locale frozen_lifecycle = lifecycle +
  fixes kept :: "'a \<Rightarrow> 'v"
    and late :: nat
  assumes kept_step: "step s s' \<Longrightarrow> late \<le> phase s \<Longrightarrow> kept s' = kept s"
begin

lemma frozen:
  assumes "step\<^sup>*\<^sup>* s t" and "late \<le> phase s"
  shows "kept t = kept s"
  using assms
proof (induction rule: rtranclp_induct)
  case base
  show ?case by simp
next
  case (step t u)
  have "late \<le> phase t"
    using phase_mono [OF step.hyps(1)] step.prems by simp
  with step show ?case by (auto dest: kept_step)
qed

end

text \<open>
  An invariant of the states: what every step keeps holds of everything that can
  be reached.
\<close>

locale step_invariant =
  fixes step :: "'st \<Rightarrow> 'st \<Rightarrow> bool"
    and inv :: "'st \<Rightarrow> bool"
  assumes inv_step: "step s s' \<Longrightarrow> inv s \<Longrightarrow> inv s'"
begin

lemma inv_reach: "step\<^sup>*\<^sup>* s s' \<Longrightarrow> inv s \<Longrightarrow> inv s'"
  by (induction rule: rtranclp_induct) (auto dest: inv_step)

end

end
