(* ===== verification/Sale.thy ===== *)
theory Sale
  imports SaleItem Lifecycle
begin

section \<open>Sales\<close>

text \<open>
  \<open>src/src/sales/domain/sale.entity.ts\<close>, the aggregate root of a point-of-sale
  ticket, with \<open>shipping-address-snapshot.ts\<close> and \<open>sale.errors.ts\<close>.  The record
  \<open>sale\<close> holds the entity's fields.  An item is found by \<open>find\<close> and mutated in
  place, so an operation on an item updates the first match of the array; item
  objects are owned by one sale at a time (\<open>confirm\<close> and \<open>cancel\<close> hand the array
  on to the sale they return).  An operation that throws leaves the sale alone,
  except \<open>applyGlobalDiscount\<close>, which has already discounted the lines before the
  one that failed and so returns the sale beside its result.

  A \<open>Date\<close> may be the invalid date, which the type checker admits and the
  guards of \<open>confirm\<close> and \<open>setDueDate\<close> do not exclude.
\<close>

datatype sale_status = SaleDraft | SaleConfirmed | SaleCanceled
datatype sale_channel = ChannelPos | ChannelOnline
datatype sale_delivery_status =
  DeliveryPending | DeliveryDelivered | DeliveryNotApplicable | DeliveryShipped
datatype sale_payment_status = PaymentPaid | PaymentPartial | PaymentCredit
datatype sale_cancel_reason =
  CustomerRequest | OrderError | OutOfStock | DuplicateSale | OtherReason

subsection \<open>Data\<close>

text \<open>A coordinate is known up to equality only.\<close>

record shipping_address =
  sad_street :: string
  sad_exteriorNumber :: "string option"
  sad_interiorNumber :: "string option"
  sad_zipCode :: "string option"
  sad_neighborhood :: "string option"
  sad_municipality :: "string option"
  sad_city :: "string option"
  sad_state :: "string option"
  sad_visualReferences :: "string option"
  sad_carrierPhone :: "string option"
  sad_label :: "string option"
  sad_latitude :: "int option"
  sad_longitude :: "int option"

definition copyShippingAddress :: "shipping_address \<Rightarrow> shipping_address" where
  "copyShippingAddress a =
     \<lparr>sad_street = sad_street a, sad_exteriorNumber = sad_exteriorNumber a,
      sad_interiorNumber = sad_interiorNumber a, sad_zipCode = sad_zipCode a,
      sad_neighborhood = sad_neighborhood a, sad_municipality = sad_municipality a,
      sad_city = sad_city a, sad_state = sad_state a,
      sad_visualReferences = sad_visualReferences a, sad_carrierPhone = sad_carrierPhone a,
      sad_label = sad_label a, sad_latitude = sad_latitude a, sad_longitude = sad_longitude a\<rparr>"

lemma copyShippingAddress_id [simp]: "copyShippingAddress a = a"
  by (simp add: copyShippingAddress_def)

record order_promotion_snapshot =
  ops_promotionId :: "ident option"
  ops_discountType :: "discount_kind option"
  ops_discountValue :: "int option"
  ops_discountAmountCents :: cents
  ops_discountTitle :: "string option"

record sale =
  sa_id :: ident
  sa_userId :: ident
  sa_status :: sale_status
  sa_channel :: sale_channel
  sa_register :: string
  sa_deliveryStatus :: sale_delivery_status
  sa_customerId :: "ident option"
  sa_shippingAddressId :: "ident option"
  sa_sellerUserId :: "ident option"
  sa_dueDate :: "js_date option"
  sa_items :: "sale_item list"
  sa_confirmedAt :: "js_date option"
  sa_folio :: "string option"
  sa_totalCents :: cents
  sa_paidCents :: cents
  sa_debtCents :: cents
  sa_changeDueCents :: cents
  sa_paymentStatus :: "sale_payment_status option"
  sa_canceledAt :: "timestamp option"
  sa_cancelReason :: "sale_cancel_reason option"
  sa_canceledByUserId :: "ident option"
  sa_createdAt :: "timestamp option"
  sa_updatedAt :: "timestamp option"
  sa_carrierName :: "string option"
  sa_trackingRef :: "string option"
  sa_estimatedDeliveryAt :: "timestamp option"
  sa_appliedOrderPromotion :: "order_promotion_snapshot option"
  sa_vetoedPromotionIds :: "ident list"
  sa_optedInManualPromotionIds :: "ident list"
  sa_globalPriceListId :: "ident option"
  sa_priceListExplicitlySet :: bool
  sa_shippingAddressSnapshot :: "shipping_address option"

record sale_props =
  slp_id :: ident
  slp_userId :: ident
  slp_status :: sale_status
  slp_channel :: "sale_channel option"
  slp_register :: "string option"
  slp_deliveryStatus :: "sale_delivery_status option"
  slp_customerId :: "ident option"
  slp_shippingAddressId :: "ident option"
  slp_shippingAddressSnapshot :: "shipping_address option"
  slp_sellerUserId :: "ident option"
  slp_dueDate :: "js_date option"
  slp_items :: "sale_item_props list"
  slp_confirmedAt :: "js_date option"
  slp_folio :: "string option"
  slp_totalCents :: "cents option"
  slp_paidCents :: "cents option"
  slp_debtCents :: "cents option"
  slp_changeDueCents :: "cents option"
  slp_paymentStatus :: "sale_payment_status option"
  slp_canceledAt :: "timestamp option"
  slp_cancelReason :: "sale_cancel_reason option"
  slp_canceledByUserId :: "ident option"
  slp_createdAt :: timestamp
  slp_updatedAt :: timestamp
  slp_carrierName :: "string option"
  slp_trackingRef :: "string option"
  slp_estimatedDeliveryAt :: "timestamp option"
  slp_appliedOrderPromotion :: "order_promotion_snapshot option"
  slp_vetoedPromotionIds :: "ident list option"
  slp_optedInManualPromotionIds :: "ident list option"
  slp_globalPriceListId :: "ident option"
  slp_priceListExplicitlySet :: "bool option"

subsection \<open>Construction\<close>

definition Sale_create :: "ident \<Rightarrow> ident \<Rightarrow> sale result" where
  "Sale_create ident userId =
     (if is_blank ident then Inl (invalid_argument ''Sale ID cannot be empty'')
      else if is_blank userId then Inl (invalid_argument ''User ID cannot be empty'')
      else Inr
        \<lparr>sa_id = ident, sa_userId = userId, sa_status = SaleDraft, sa_channel = ChannelPos,
         sa_register = ''Principal'', sa_deliveryStatus = DeliveryDelivered,
         sa_customerId = None, sa_shippingAddressId = None, sa_sellerUserId = None,
         sa_dueDate = None, sa_items = [], sa_confirmedAt = None, sa_folio = None,
         sa_totalCents = 0, sa_paidCents = 0, sa_debtCents = 0, sa_changeDueCents = 0,
         sa_paymentStatus = None, sa_canceledAt = None, sa_cancelReason = None,
         sa_canceledByUserId = None, sa_createdAt = None, sa_updatedAt = None,
         sa_carrierName = None, sa_trackingRef = None, sa_estimatedDeliveryAt = None,
         sa_appliedOrderPromotion = None, sa_vetoedPromotionIds = [],
         sa_optedInManualPromotionIds = [], sa_globalPriceListId = None,
         sa_priceListExplicitlySet = False, sa_shippingAddressSnapshot = None\<rparr>)"

definition Sale_fromPersistence :: "sale_props \<Rightarrow> sale" where
  "Sale_fromPersistence p =
     \<lparr>sa_id = slp_id p, sa_userId = slp_userId p, sa_status = slp_status p,
      sa_channel = or_default (slp_channel p) ChannelPos,
      sa_register = or_default (slp_register p) ''Principal'',
      sa_deliveryStatus = or_default (slp_deliveryStatus p) DeliveryDelivered,
      sa_customerId = slp_customerId p, sa_shippingAddressId = slp_shippingAddressId p,
      sa_sellerUserId = slp_sellerUserId p, sa_dueDate = slp_dueDate p,
      sa_items = map SaleItem_fromPersistence (slp_items p),
      sa_confirmedAt = slp_confirmedAt p, sa_folio = slp_folio p,
      sa_totalCents = or_default (slp_totalCents p) 0,
      sa_paidCents = or_default (slp_paidCents p) 0,
      sa_debtCents = or_default (slp_debtCents p) 0,
      sa_changeDueCents = or_default (slp_changeDueCents p) 0,
      sa_paymentStatus = slp_paymentStatus p, sa_canceledAt = slp_canceledAt p,
      sa_cancelReason = slp_cancelReason p, sa_canceledByUserId = slp_canceledByUserId p,
      sa_createdAt = Some (slp_createdAt p), sa_updatedAt = Some (slp_updatedAt p),
      sa_carrierName = slp_carrierName p, sa_trackingRef = slp_trackingRef p,
      sa_estimatedDeliveryAt = slp_estimatedDeliveryAt p,
      sa_appliedOrderPromotion = slp_appliedOrderPromotion p,
      sa_vetoedPromotionIds = or_default (slp_vetoedPromotionIds p) [],
      sa_optedInManualPromotionIds = or_default (slp_optedInManualPromotionIds p) [],
      sa_globalPriceListId = slp_globalPriceListId p,
      sa_priceListExplicitlySet = or_default (slp_priceListExplicitlySet p) False,
      sa_shippingAddressSnapshot = map_option copyShippingAddress (slp_shippingAddressSnapshot p)\<rparr>"

subsection \<open>Lifecycle\<close>

text \<open>
  The input of \<open>confirm\<close>: \<open>None\<close> stands for a \<open>confirmedAt\<close> that is no \<open>Date\<close>.
\<close>

record confirm_input =
  cfi_confirmedAt :: "js_date option"
  cfi_folio :: string

definition Sale_confirm :: "confirm_input \<Rightarrow> sale \<Rightarrow> sale result" where
  "Sale_confirm i s =
     (if sa_status s \<noteq> SaleDraft then Inl (rule_violation ''SALE_ALREADY_CONFIRMED'')
      else if cfi_confirmedAt i = None
        then Inl (invalid_argument ''confirmedAt must be a valid date'')
      else if is_blank (cfi_folio i) then Inl (invalid_argument ''folio cannot be empty'')
      else Inr
        (s\<lparr>sa_status := SaleConfirmed, sa_confirmedAt := cfi_confirmedAt i,
           sa_folio := Some (cfi_folio i), sa_carrierName := None, sa_trackingRef := None,
           sa_estimatedDeliveryAt := None, sa_appliedOrderPromotion := None,
           sa_vetoedPromotionIds := [], sa_optedInManualPromotionIds := [],
           sa_shippingAddressSnapshot :=
             map_option copyShippingAddress (sa_shippingAddressSnapshot s)\<rparr>))"

record cancel_actor =
  cna_actorId :: ident
  cna_canceledAt :: "timestamp option"

definition refunds_nothing :: "sale \<Rightarrow> bool" where
  "refunds_nothing s \<longleftrightarrow> sa_paymentStatus s = Some PaymentCredit \<or> sa_paidCents s = 0"

definition Sale_cancel ::
  "timestamp \<Rightarrow> sale_cancel_reason \<Rightarrow> cancel_actor \<Rightarrow> sale \<Rightarrow> (sale \<times> cents) result" where
  "Sale_cancel now reason actor s =
     (if sa_status s \<noteq> SaleConfirmed then Inl (rule_violation ''SALE_NOT_CANCELLABLE'')
      else if sa_deliveryStatus s = DeliveryShipped \<or> sa_deliveryStatus s = DeliveryDelivered
        then Inl (rule_violation ''SALE_DELIVERED_CANNOT_CANCEL'')
      else
        let refunded = (if refunds_nothing s then 0 else sa_paidCents s);
            debt = (if refunds_nothing s then 0 else sa_debtCents s)
        in Inr
          (s\<lparr>sa_status := SaleCanceled, sa_debtCents := debt,
             sa_canceledAt := Some (or_default (cna_canceledAt actor) now),
             sa_cancelReason := Some reason, sa_canceledByUserId := Some (cna_actorId actor),
             sa_appliedOrderPromotion := None, sa_vetoedPromotionIds := [],
             sa_optedInManualPromotionIds := [], sa_globalPriceListId := None,
             sa_priceListExplicitlySet := False,
             sa_shippingAddressSnapshot :=
               map_option copyShippingAddress (sa_shippingAddressSnapshot s)\<rparr>, refunded))"

definition ensureDraft :: "sale \<Rightarrow> unit result" where
  "ensureDraft s = throw_if (sa_status s \<noteq> SaleDraft) (rule_violation ''SALE_NOT_DRAFT'')"

definition ensureNotCanceled :: "sale \<Rightarrow> unit result" where
  "ensureNotCanceled s = throw_if (sa_status s = SaleCanceled) (rule_violation ''SALE_CANCELED'')"

subsection \<open>Delivery, customer and seller\<close>

definition captureShippingAddress :: "shipping_address option \<Rightarrow> sale \<Rightarrow> sale result" where
  "captureShippingAddress a s =
     andThen (ensureDraft s) (\<lambda>_.
       Inr (s\<lparr>sa_shippingAddressSnapshot := map_option copyShippingAddress a\<rparr>))"

record delivery_metadata =
  dmd_carrierName :: "string option"
  dmd_trackingRef :: "string option"
  dmd_estimatedDeliveryAt :: "timestamp option"

definition setDeliveryMetadata :: "delivery_metadata \<Rightarrow> sale \<Rightarrow> sale" where
  "setDeliveryMetadata m s =
     s\<lparr>sa_carrierName := dmd_carrierName m, sa_trackingRef := dmd_trackingRef m,
       sa_estimatedDeliveryAt := dmd_estimatedDeliveryAt m\<rparr>"

text \<open>\<open>a.getTime() < b.getTime()\<close>: false when either date is invalid.\<close>

fun date_less :: "js_date \<Rightarrow> js_date \<Rightarrow> bool" where
  "date_less (ValidDate a) (ValidDate b) = (a < b)"
| "date_less _ _ = False"

definition setDueDate :: "js_date option \<Rightarrow> sale \<Rightarrow> sale result" where
  "setDueDate d s =
     andThen (ensureNotCanceled s) (\<lambda>_.
       case d of
         None \<Rightarrow> Inr (s\<lparr>sa_dueDate := None\<rparr>)
       | Some date \<Rightarrow>
           (case sa_confirmedAt s of
              None \<Rightarrow> Inr (s\<lparr>sa_dueDate := Some date\<rparr>)
            | Some confirmed \<Rightarrow>
                if date_less date confirmed then Inl (rule_violation ''INVALID_DUE_DATE'')
                else Inr (s\<lparr>sa_dueDate := Some date\<rparr>)))"

definition markDelivered :: "sale \<Rightarrow> sale result" where
  "markDelivered s =
     (if sa_deliveryStatus s = DeliveryDelivered then Inr s
      else if sa_status s \<noteq> SaleConfirmed then Inl (rule_violation ''SALE_NOT_DELIVERABLE'')
      else Inr (s\<lparr>sa_deliveryStatus := DeliveryDelivered\<rparr>))"

definition assignSeller :: "ident \<Rightarrow> sale \<Rightarrow> sale result" where
  "assignSeller u s = andThen (ensureNotCanceled s) (\<lambda>_. Inr (s\<lparr>sa_sellerUserId := Some u\<rparr>))"

definition clearSeller :: "sale \<Rightarrow> sale result" where
  "clearSeller s = andThen (ensureNotCanceled s) (\<lambda>_. Inr (s\<lparr>sa_sellerUserId := None\<rparr>))"

definition assignCustomer :: "ident \<Rightarrow> ident option \<Rightarrow> sale \<Rightarrow> sale result" where
  "assignCustomer c a s =
     andThen (ensureDraft s) (\<lambda>_.
       let s1 = (if Some c \<noteq> sa_customerId s then s\<lparr>sa_shippingAddressId := None\<rparr> else s)
       in Inr (s1\<lparr>sa_customerId := Some c, sa_shippingAddressId := a,
                  sa_shippingAddressSnapshot := None\<rparr>))"

definition clearCustomer :: "sale \<Rightarrow> sale result" where
  "clearCustomer s =
     andThen (ensureDraft s) (\<lambda>_.
       Inr (s\<lparr>sa_customerId := None, sa_shippingAddressId := None,
              sa_shippingAddressSnapshot := None\<rparr>))"

definition setShippingAddress :: "ident option \<Rightarrow> sale \<Rightarrow> sale result" where
  "setShippingAddress a s =
     andThen (ensureDraft s) (\<lambda>_.
       if a \<noteq> None \<and> sa_customerId s = None
         then Inl (rule_violation ''SHIPPING_ADDRESS_REQUIRES_CUSTOMER'')
       else Inr (s\<lparr>sa_shippingAddressId := a, sa_shippingAddressSnapshot := None\<rparr>))"

definition markForDelivery :: "sale \<Rightarrow> sale result" where
  "markForDelivery s =
     andThen (ensureDraft s) (\<lambda>_.
       if sa_shippingAddressId s = None
         then Inl (rule_violation ''SHIPPING_ADDRESS_REQUIRED_FOR_DELIVERY'')
       else Inr (s\<lparr>sa_deliveryStatus := DeliveryPending\<rparr>))"

subsection \<open>Price list and promotion state\<close>

definition setGlobalPriceList :: "ident option \<Rightarrow> bool \<Rightarrow> sale \<Rightarrow> sale result" where
  "setGlobalPriceList l explicitly s =
     andThen (ensureDraft s) (\<lambda>_.
       if (case l of None \<Rightarrow> False | Some x \<Rightarrow> trim x = [])
         then Inl (invalid_argument ''INVALID_PRICE_LIST_ID'')
       else Inr (s\<lparr>sa_globalPriceListId := l, sa_priceListExplicitlySet := explicitly\<rparr>))"

definition setAppliedOrderPromotion :: "order_promotion_snapshot \<Rightarrow> sale \<Rightarrow> sale" where
  "setAppliedOrderPromotion p s = s\<lparr>sa_appliedOrderPromotion := Some p\<rparr>"

definition clearAppliedOrderPromotion :: "sale \<Rightarrow> sale" where
  "clearAppliedOrderPromotion s = s\<lparr>sa_appliedOrderPromotion := None\<rparr>"

definition optOutManualPromotion :: "ident \<Rightarrow> sale \<Rightarrow> sale" where
  "optOutManualPromotion p s =
     s\<lparr>sa_optedInManualPromotionIds := filter (\<lambda>x. x \<noteq> p) (sa_optedInManualPromotionIds s)\<rparr>"

definition removeVetoedPromotion :: "ident \<Rightarrow> sale \<Rightarrow> sale" where
  "removeVetoedPromotion p s =
     s\<lparr>sa_vetoedPromotionIds := filter (\<lambda>x. x \<noteq> p) (sa_vetoedPromotionIds s)\<rparr>"

definition addVetoedPromotion :: "ident \<Rightarrow> sale \<Rightarrow> sale" where
  "addVetoedPromotion p s =
     (let s1 = optOutManualPromotion p s in
      if p \<in> set (sa_vetoedPromotionIds s1) then s1
      else s1\<lparr>sa_vetoedPromotionIds := sa_vetoedPromotionIds s1 @ [p]\<rparr>)"

definition optInManualPromotion :: "ident \<Rightarrow> sale \<Rightarrow> sale" where
  "optInManualPromotion p s =
     (let s1 = removeVetoedPromotion p s in
      if p \<in> set (sa_optedInManualPromotionIds s1) then s1
      else s1\<lparr>sa_optedInManualPromotionIds := sa_optedInManualPromotionIds s1 @ [p]\<rparr>)"

subsection \<open>Items\<close>

text \<open>\<open>this._items.find(p)\<close>, the error if there is none, and the item's own method.\<close>

definition with_item ::
  "domain_error \<Rightarrow> (sale_item \<Rightarrow> bool) \<Rightarrow> (sale_item \<Rightarrow> sale_item result) \<Rightarrow> sale \<Rightarrow> sale result" where
  "with_item missing p f s =
     (case find p (sa_items s) of
        None \<Rightarrow> Inl missing
      | Some it \<Rightarrow>
          mapR (\<lambda>it'. s\<lparr>sa_items := update_first p (\<lambda>_. it') (sa_items s)\<rparr>) (f it))"

definition has_id :: "ident \<Rightarrow> sale_item \<Rightarrow> bool" where
  "has_id i it \<longleftrightarrow> si_id it = i"

definition addItem :: "sale_item_props \<Rightarrow> sale \<Rightarrow> sale result" where
  "addItem p s =
     andThen (ensureDraft s) (\<lambda>_.
     andThen (SaleItem_create p) (\<lambda>new.
       let same = (\<lambda>it. item_matches it (si_productId new) (si_variantId new)) in
       if find same (sa_items s) = None then Inr (s\<lparr>sa_items := sa_items s @ [new]\<rparr>)
       else with_item (rule_violation ''SALE_ITEM_NOT_FOUND'') same
              (\<lambda>it. changeQuantity (si_quantity it + si_quantity new) it) s))"

definition updateItemQuantity :: "ident \<Rightarrow> int \<Rightarrow> sale \<Rightarrow> sale result" where
  "updateItemQuantity itemId n s =
     andThen (ensureDraft s) (\<lambda>_.
       if n < 1 then Inl (invalid_argument ''Quantity must be at least 1'')
       else with_item
         (BusinessRuleViolationError (''Item with ID '' @ itemId @ '' not found in sale'')
           ''BUSINESS_RULE_VIOLATION'')
         (has_id itemId) (changeQuantity n) s)"

definition clearItems :: "sale \<Rightarrow> sale result" where
  "clearItems s = andThen (ensureDraft s) (\<lambda>_. Inr (s\<lparr>sa_items := []\<rparr>))"

text \<open>
  The clean-up shared by \<open>removeItem\<close> and \<open>removeItemDiscount\<close>: when no remaining
  line refers to the promotion of the line, its manual opt-in is dropped.
\<close>

definition drop_orphan_opt_in :: "ident option \<Rightarrow> sale \<Rightarrow> sale" where
  "drop_orphan_opt_in promo s =
     (case promo of
        None \<Rightarrow> s
      | Some p \<Rightarrow>
          if \<exists>it\<in>set (sa_items s). si_promotionId it = Some p then s
          else optOutManualPromotion p s)"

definition removeItem :: "ident \<Rightarrow> sale \<Rightarrow> sale result" where
  "removeItem itemId s =
     andThen (ensureDraft s) (\<lambda>_.
       case find (has_id itemId) (sa_items s) of
         None \<Rightarrow> Inl (rule_violation ''SALE_ITEM_NOT_FOUND'')
       | Some it \<Rightarrow>
           Inr (drop_orphan_opt_in (si_promotionId it)
                 (s\<lparr>sa_items := remove_first (has_id itemId) (sa_items s)\<rparr>)))"

definition overrideItemPrice :: "ident \<Rightarrow> override_price_input \<Rightarrow> sale \<Rightarrow> sale result" where
  "overrideItemPrice itemId i s =
     with_item (rule_violation ''SALE_ITEM_NOT_FOUND'') (has_id itemId) (overridePrice i) s"

definition applyItemDiscount ::
  "timestamp \<Rightarrow> ident \<Rightarrow> apply_discount_input \<Rightarrow> sale \<Rightarrow> sale result" where
  "applyItemDiscount now itemId i s =
     with_item (rule_violation ''SALE_ITEM_NOT_FOUND'') (has_id itemId) (applyDiscount now i) s"

text \<open>
  The two tests of the \<open>catch\<close> block: a business rule with this code, or an
  invalid argument with this message.
\<close>

fun is_discount_amount_invalid :: "domain_error \<Rightarrow> bool" where
  "is_discount_amount_invalid (BusinessRuleViolationError m c) = (c = ''DISCOUNT_AMOUNT_INVALID'')"
| "is_discount_amount_invalid (InvalidArgumentError m c) = (m = ''DISCOUNT_AMOUNT_INVALID'')"
| "is_discount_amount_invalid _ = False"

datatype skip_reason = AlreadyDiscounted | DiscountAmountInvalid

text \<open>
  The loop of \<open>applyGlobalDiscount\<close>: the result with the skipped items, and the
  items as they are when it ends or throws.
\<close>

fun discount_items ::
  "timestamp \<Rightarrow> apply_discount_input \<Rightarrow> sale_item list
     \<Rightarrow> (ident \<times> skip_reason) list result \<times> sale_item list" where
  "discount_items now i [] = (Inr [], [])"
| "discount_items now i (it # its) =
     (let strategy = or_default (adi_strategy i) StrategyReplace;
          go_on = (\<lambda>skipped it'.
            case discount_items now i its of
              (Inl e, its') \<Rightarrow> (Inl e, it' # its')
            | (Inr rest, its') \<Rightarrow> (Inr (skipped @ rest), it' # its'))
      in if strategy = StrategySkip \<and> si_discountType it \<noteq> None
           then go_on [(si_id it, AlreadyDiscounted)] it
         else (case applyDiscount now i it of
             Inr it' \<Rightarrow> go_on [] it'
           | Inl e \<Rightarrow>
               if adi_type i = AmountDiscount \<and> is_discount_amount_invalid e
                 then go_on [(si_id it, DiscountAmountInvalid)] it
               else (Inl e, it # its)))"

definition applyGlobalDiscount ::
  "timestamp \<Rightarrow> apply_discount_input \<Rightarrow> sale \<Rightarrow> (ident \<times> skip_reason) list result \<times> sale" where
  "applyGlobalDiscount now i s =
     (case discount_items now i (sa_items s) of (r, its) \<Rightarrow> (r, s\<lparr>sa_items := its\<rparr>))"

definition removeItemDiscount :: "ident \<Rightarrow> sale \<Rightarrow> sale result" where
  "removeItemDiscount itemId s =
     (case find (has_id itemId) (sa_items s) of
        None \<Rightarrow> Inl (rule_violation ''SALE_ITEM_NOT_FOUND'')
      | Some it \<Rightarrow>
          Inr (drop_orphan_opt_in (si_promotionId it)
                (s\<lparr>sa_items := update_first (has_id itemId) removeDiscount (sa_items s)\<rparr>)))"

definition removeGlobalDiscount :: "sale \<Rightarrow> sale" where
  "removeGlobalDiscount s = s\<lparr>sa_items := map removeDiscount (sa_items s)\<rparr>"

subsection \<open>Totals and the wire shape\<close>

record preview_totals =
  pvt_subtotalCents :: cents
  pvt_discountCents :: cents
  pvt_totalCents :: cents

definition post_line_subtotal :: "sale_item list \<Rightarrow> cents" where
  "post_line_subtotal its = (\<Sum>it\<leftarrow>its. subtotalCents it - reward_cents it)"

definition previewTotals :: "sale \<Rightarrow> preview_totals" where
  "previewTotals s =
     (let subtotal = (\<Sum>it\<leftarrow>sa_items s. item_baseline it * si_quantity it);
          postLine = post_line_subtotal (sa_items s);
          orderDiscount =
            (case sa_appliedOrderPromotion s of None \<Rightarrow> 0 | Some p \<Rightarrow> ops_discountAmountCents p);
          total = max 0 (postLine - orderDiscount)
      in \<lparr>pvt_subtotalCents = subtotal, pvt_discountCents = min subtotal (subtotal - total),
          pvt_totalCents = total\<rparr>)"

text \<open>
  The response: the optional subtotal and discount are present on drafts only.
  The ISO text of the due date is represented by its instant; \<open>toISOString\<close>
  throws on the invalid date.
\<close>

record sale_response =
  srs_id :: ident
  srs_userId :: ident
  srs_status :: sale_status
  srs_channel :: sale_channel
  srs_register :: string
  srs_deliveryStatus :: sale_delivery_status
  srs_customerId :: "ident option"
  srs_shippingAddressId :: "ident option"
  srs_sellerUserId :: "ident option"
  srs_dueDate :: "timestamp option"
  srs_confirmedAt :: "js_date option"
  srs_folio :: "string option"
  srs_totalCents :: cents
  srs_paidCents :: cents
  srs_debtCents :: cents
  srs_changeDueCents :: cents
  srs_paymentStatus :: "sale_payment_status option"
  srs_canceledAt :: "timestamp option"
  srs_cancelReason :: "sale_cancel_reason option"
  srs_canceledByUserId :: "ident option"
  srs_items :: "sale_item_response list"
  srs_createdAt :: "timestamp option"
  srs_updatedAt :: "timestamp option"
  srs_globalPriceListId :: "ident option"
  srs_subtotalCents :: "cents option"
  srs_discountCents :: "cents option"

fun toISOString :: "js_date \<Rightarrow> timestamp result" where
  "toISOString (ValidDate t) = Inr t"
| "toISOString InvalidDate = Inl (RangeError ''Invalid time value'')"

definition Sale_toResponse :: "sale \<Rightarrow> sale_response result" where
  "Sale_toResponse s =
     andThen
       (case sa_dueDate s of None \<Rightarrow> Inr None | Some d \<Rightarrow> mapR Some (toISOString d))
       (\<lambda>due.
         let base =
           \<lparr>srs_id = sa_id s, srs_userId = sa_userId s, srs_status = sa_status s,
            srs_channel = sa_channel s, srs_register = sa_register s,
            srs_deliveryStatus = sa_deliveryStatus s, srs_customerId = sa_customerId s,
            srs_shippingAddressId = sa_shippingAddressId s, srs_sellerUserId = sa_sellerUserId s,
            srs_dueDate = due, srs_confirmedAt = sa_confirmedAt s, srs_folio = sa_folio s,
            srs_totalCents = sa_totalCents s, srs_paidCents = sa_paidCents s,
            srs_debtCents = sa_debtCents s, srs_changeDueCents = sa_changeDueCents s,
            srs_paymentStatus = sa_paymentStatus s, srs_canceledAt = sa_canceledAt s,
            srs_cancelReason = sa_cancelReason s, srs_canceledByUserId = sa_canceledByUserId s,
            srs_items = map SaleItem_toResponse (sa_items s), srs_createdAt = sa_createdAt s,
            srs_updatedAt = sa_updatedAt s, srs_globalPriceListId = sa_globalPriceListId s,
            srs_subtotalCents = None, srs_discountCents = None\<rparr>
         in Inr
           (if sa_status s = SaleDraft
            then let t = previewTotals s in
              base\<lparr>srs_totalCents := pvt_totalCents t,
                   srs_subtotalCents := Some (pvt_subtotalCents t),
                   srs_discountCents := Some (pvt_discountCents t)\<rparr>
            else base))"

end
