(* ===== verification/SaleLaws.thy ===== *)
theory SaleLaws
  imports Sale
begin

section \<open>The laws of a sale\<close>

text \<open>
  The mutators of \<open>Sale\<close> as one type of operations with one step relation, the
  interpretations of the lifecycle and invariant locales on it, and the
  properties of the aggregate: its totals, its lifecycle, its promotion sets, its
  lines and the guards of its operations.
\<close>

datatype sale_op =
    OpConfirm confirm_input
  | OpCancel sale_cancel_reason cancel_actor
  | OpCaptureAddress "shipping_address option"
  | OpDeliveryMetadata delivery_metadata
  | OpDueDate "js_date option"
  | OpMarkDelivered
  | OpAssignSeller ident
  | OpClearSeller
  | OpAssignCustomer ident "ident option"
  | OpClearCustomer
  | OpShippingAddress "ident option"
  | OpMarkForDelivery
  | OpPriceList "ident option" bool
  | OpSetApplied order_promotion_snapshot
  | OpClearApplied
  | OpVeto ident
  | OpUnveto ident
  | OpOptIn ident
  | OpOptOut ident
  | OpAddItem sale_item_props
  | OpQuantity ident int
  | OpClearItems
  | OpRemoveItem ident
  | OpOverridePrice ident override_price_input
  | OpItemDiscount ident apply_discount_input
  | OpGlobalDiscount apply_discount_input
  | OpRemoveItemDiscount ident
  | OpRemoveGlobalDiscount

text \<open>
  What an operation makes of the sale, with the error it throws.  \<open>sale_after\<close> is
  the sale the caller holds afterwards.
\<close>

fun run_op :: "timestamp \<Rightarrow> sale_op \<Rightarrow> sale \<Rightarrow> sale result" where
  "run_op now (OpConfirm i) s = Sale_confirm i s"
| "run_op now (OpCancel r a) s = mapR fst (Sale_cancel now r a s)"
| "run_op now (OpCaptureAddress a) s = captureShippingAddress a s"
| "run_op now (OpDeliveryMetadata m) s = Inr (setDeliveryMetadata m s)"
| "run_op now (OpDueDate d) s = setDueDate d s"
| "run_op now OpMarkDelivered s = markDelivered s"
| "run_op now (OpAssignSeller u) s = assignSeller u s"
| "run_op now OpClearSeller s = clearSeller s"
| "run_op now (OpAssignCustomer c a) s = assignCustomer c a s"
| "run_op now OpClearCustomer s = clearCustomer s"
| "run_op now (OpShippingAddress a) s = setShippingAddress a s"
| "run_op now OpMarkForDelivery s = markForDelivery s"
| "run_op now (OpPriceList l e) s = setGlobalPriceList l e s"
| "run_op now (OpSetApplied p) s = Inr (setAppliedOrderPromotion p s)"
| "run_op now OpClearApplied s = Inr (clearAppliedOrderPromotion s)"
| "run_op now (OpVeto p) s = Inr (addVetoedPromotion p s)"
| "run_op now (OpUnveto p) s = Inr (removeVetoedPromotion p s)"
| "run_op now (OpOptIn p) s = Inr (optInManualPromotion p s)"
| "run_op now (OpOptOut p) s = Inr (optOutManualPromotion p s)"
| "run_op now (OpAddItem p) s = addItem p s"
| "run_op now (OpQuantity i n) s = updateItemQuantity i n s"
| "run_op now OpClearItems s = clearItems s"
| "run_op now (OpRemoveItem i) s = removeItem i s"
| "run_op now (OpOverridePrice i x) s = overrideItemPrice i x s"
| "run_op now (OpItemDiscount i x) s = applyItemDiscount now i x s"
| "run_op now (OpGlobalDiscount x) s =
     (case applyGlobalDiscount now x s of (r, s') \<Rightarrow> mapR (\<lambda>_. s') r)"
| "run_op now (OpRemoveItemDiscount i) s = removeItemDiscount i s"
| "run_op now OpRemoveGlobalDiscount s = Inr (removeGlobalDiscount s)"

fun sale_after :: "timestamp \<Rightarrow> sale_op \<Rightarrow> sale \<Rightarrow> sale" where
  "sale_after now (OpGlobalDiscount x) s = snd (applyGlobalDiscount now x s)"
| "sale_after now op s = (case run_op now op s of Inl _ \<Rightarrow> s | Inr s' \<Rightarrow> s')"

inductive sale_step :: "sale \<Rightarrow> sale \<Rightarrow> bool" where
  sale_stepI: "sale_step s (sale_after now op s)"

inductive_cases sale_stepE: "sale_step s s'"

fun status_rank :: "sale_status \<Rightarrow> nat" where
  "status_rank SaleDraft = 0"
| "status_rank SaleConfirmed = 1"
| "status_rank SaleCanceled = 2"

definition sale_phase :: "sale \<Rightarrow> nat" where
  "sale_phase s = status_rank (sa_status s)"

instantiation sale_status :: linorder
begin

definition less_eq_sale_status :: "sale_status \<Rightarrow> sale_status \<Rightarrow> bool" where
  "less_eq_sale_status a b \<longleftrightarrow> status_rank a \<le> status_rank b"

definition less_sale_status :: "sale_status \<Rightarrow> sale_status \<Rightarrow> bool" where
  "less_sale_status a b \<longleftrightarrow> status_rank a < status_rank b"

instance
proof
  fix a b :: sale_status
  show "a \<le> b \<Longrightarrow> b \<le> a \<Longrightarrow> a = b"
    by (cases a; cases b) (simp_all add: less_eq_sale_status_def)
qed (auto simp: less_eq_sale_status_def less_sale_status_def)

end

subsection \<open>Eliminations\<close>

lemma with_itemE:
  assumes "with_item e p f s = Inr s'"
  obtains it it' where "find p (sa_items s) = Some it" "f it = Inr it'"
    "s' = s\<lparr>sa_items := update_first p (\<lambda>_. it') (sa_items s)\<rparr>"
  using assms by (auto simp: with_item_def result_simps split: option.splits)

lemma ensureDraft_ok [result_simps]: "ensureDraft s = Inr u \<longleftrightarrow> sa_status s = SaleDraft"
  and ensureDraft_fails [result_simps]:
    "ensureDraft s = Inl e \<longleftrightarrow> sa_status s \<noteq> SaleDraft \<and> e = rule_violation ''SALE_NOT_DRAFT''"
  by (auto simp: ensureDraft_def result_simps)

lemma ensureNotCanceled_ok [result_simps]:
    "ensureNotCanceled s = Inr u \<longleftrightarrow> sa_status s \<noteq> SaleCanceled"
  and ensureNotCanceled_fails [result_simps]:
    "ensureNotCanceled s = Inl e \<longleftrightarrow> sa_status s = SaleCanceled \<and> e = rule_violation ''SALE_CANCELED''"
  by (auto simp: ensureNotCanceled_def result_simps)

text \<open>The operations, unfolded together.\<close>

lemmas op_defs =
  Sale_confirm_def Sale_cancel_def captureShippingAddress_def setDeliveryMetadata_def
  setDueDate_def markDelivered_def assignSeller_def clearSeller_def assignCustomer_def
  clearCustomer_def setShippingAddress_def markForDelivery_def setGlobalPriceList_def
  setAppliedOrderPromotion_def clearAppliedOrderPromotion_def clearItems_def

lemmas promo_defs =
  addVetoedPromotion_def removeVetoedPromotion_def optInManualPromotion_def
  optOutManualPromotion_def drop_orphan_opt_in_def

lemmas item_op_defs =
  addItem_def updateItemQuantity_def removeItem_def overrideItemPrice_def applyItemDiscount_def
  applyGlobalDiscount_def removeItemDiscount_def removeGlobalDiscount_def

text \<open>
  What the operations on items and discounts leave alone: everything but the
  items and, where a line goes, the manual opt-ins.
\<close>

fun is_item_op :: "sale_op \<Rightarrow> bool" where
  "is_item_op (OpAddItem p) = True"
| "is_item_op (OpQuantity i n) = True"
| "is_item_op OpClearItems = True"
| "is_item_op (OpRemoveItem i) = True"
| "is_item_op (OpOverridePrice i x) = True"
| "is_item_op (OpItemDiscount i x) = True"
| "is_item_op (OpGlobalDiscount x) = True"
| "is_item_op (OpRemoveItemDiscount i) = True"
| "is_item_op OpRemoveGlobalDiscount = True"
| "is_item_op _ = False"

definition ticket_with :: "sale \<Rightarrow> sale_item list \<Rightarrow> ident list \<Rightarrow> sale" where
  "ticket_with s its opts = s\<lparr>sa_items := its, sa_optedInManualPromotionIds := opts\<rparr>"

lemma ticket_with_fields [simp]:
  "sa_status (ticket_with s its opts) = sa_status s"
  "sa_totalCents (ticket_with s its opts) = sa_totalCents s"
  "sa_paidCents (ticket_with s its opts) = sa_paidCents s"
  "sa_folio (ticket_with s its opts) = sa_folio s"
  "sa_confirmedAt (ticket_with s its opts) = sa_confirmedAt s"
  "sa_deliveryStatus (ticket_with s its opts) = sa_deliveryStatus s"
  "sa_vetoedPromotionIds (ticket_with s its opts) = sa_vetoedPromotionIds s"
  "sa_optedInManualPromotionIds (ticket_with s its opts) = opts"
  "sa_shippingAddressId (ticket_with s its opts) = sa_shippingAddressId s"
  "sa_items (ticket_with s its opts) = its"
  by (simp_all add: ticket_with_def)

lemma items_update_ticket:
  "s\<lparr>sa_items := its\<rparr> = ticket_with s its (sa_optedInManualPromotionIds s)"
  by (simp add: ticket_with_def)

lemma ticket_self: "s = ticket_with s (sa_items s) (sa_optedInManualPromotionIds s)"
  by (simp add: ticket_with_def)

lemma drop_orphan_ticket:
  "drop_orphan_opt_in promo (ticket_with s its opts) =
     ticket_with s its
       (case promo of
          None \<Rightarrow> opts
        | Some p \<Rightarrow>
            if \<exists>it\<in>set its. si_promotionId it = Some p then opts
            else filter (\<lambda>x. x \<noteq> p) opts)"
  by (simp add: drop_orphan_opt_in_def optOutManualPromotion_def ticket_with_def
      split: option.splits)

definition ticket_shape :: "sale \<Rightarrow> sale \<Rightarrow> bool" where
  "ticket_shape s s' \<longleftrightarrow>
     (\<exists>its opts. s' = ticket_with s its opts \<and> set opts \<subseteq> set (sa_optedInManualPromotionIds s))"

lemma ticket_shapeI [intro]:
  "set opts \<subseteq> set (sa_optedInManualPromotionIds s) \<Longrightarrow> ticket_shape s (ticket_with s its opts)"
  unfolding ticket_shape_def by blast

lemma ticket_shape_refl [simp]: "ticket_shape s s"
  by (subst ticket_self) (rule ticket_shapeI, simp)

lemma item_op_run: "is_item_op op \<Longrightarrow> run_op now op s = Inr s' \<Longrightarrow> ticket_shape s s'"
  by (cases op)
    (auto simp: item_op_defs clearItems_def drop_orphan_ticket items_update_ticket result_simps
      Let_def split: option.splits if_splits prod.splits elim!: with_itemE intro!: ticket_shapeI)

lemma sale_after_run:
  "(\<forall>x. op \<noteq> OpGlobalDiscount x) \<Longrightarrow>
     sale_after now op s = (case run_op now op s of Inl _ \<Rightarrow> s | Inr s' \<Rightarrow> s')"
  by (cases op) simp_all

lemma item_op_after:
  assumes "is_item_op op"
  shows "ticket_shape s (sale_after now op s)"
proof (cases "\<exists>x. op = OpGlobalDiscount x")
  case True
  then show ?thesis
    by (auto simp: applyGlobalDiscount_def items_update_ticket split: prod.splits
        intro!: ticket_shapeI)
next
  case False
  then show ?thesis
    using item_op_run [OF assms, of now s]
    by (auto simp: sale_after_run split: sum.splits)
qed

lemma item_op_afterE:
  assumes "is_item_op op"
  obtains its opts where "sale_after now op s = ticket_with s its opts"
    "set opts \<subseteq> set (sa_optedInManualPromotionIds s)"
  using item_op_after [OF assms, of s now] by (auto simp: ticket_shape_def)

text \<open>The other operations leave the items alone.\<close>

lemma other_op_items: "\<not> is_item_op op \<Longrightarrow> sa_items (sale_after now op s) = sa_items s"
  by (cases op) (auto simp: op_defs promo_defs result_simps Let_def
      split: sum.splits option.splits if_splits)

subsection \<open>The interpretations\<close>

lemma sale_after_phase: "sale_phase s \<le> sale_phase (sale_after now op s)"
proof (cases "is_item_op op")
  case True
  then show ?thesis by (rule item_op_afterE [of _ now s]) (simp add: sale_phase_def)
next
  case False
  then show ?thesis
    by (cases op) (auto simp: op_defs promo_defs sale_phase_def result_simps Let_def
        split: sum.splits option.splits if_splits)
qed

text \<open>What the sale has charged and when, frozen from the confirmation on.\<close>

definition charge_record ::
  "sale \<Rightarrow> cents \<times> cents \<times> string option \<times> js_date option" where
  "charge_record s = (sa_totalCents s, sa_paidCents s, sa_folio s, sa_confirmedAt s)"

lemma sale_after_charge:
  assumes "1 \<le> sale_phase s"
  shows "charge_record (sale_after now op s) = charge_record s"
proof (cases "is_item_op op")
  case True
  then show ?thesis by (rule item_op_afterE [of _ now s]) (simp add: charge_record_def)
next
  case False
  then show ?thesis
    using assms
    by (cases op) (auto simp: op_defs promo_defs sale_phase_def charge_record_def result_simps
        Let_def split: sum.splits option.splits if_splits)
qed

interpretation sale_life: frozen_lifecycle sale_step sale_phase charge_record 1
  by unfold_locales (auto elim!: sale_stepE simp: sale_after_phase sale_after_charge)

definition promo_sets_ok :: "sale \<Rightarrow> bool" where
  "promo_sets_ok s \<longleftrightarrow>
     set (sa_optedInManualPromotionIds s) \<inter> set (sa_vetoedPromotionIds s) = {}"

lemma sale_after_promo_sets:
  assumes "promo_sets_ok s"
  shows "promo_sets_ok (sale_after now op s)"
proof (cases "is_item_op op")
  case True
  then show ?thesis
    using assms by (elim item_op_afterE [of _ now s]) (simp add: promo_sets_ok_def, blast)
next
  case False
  then show ?thesis
    using assms
    by (cases op) (auto simp: op_defs promo_defs promo_sets_ok_def result_simps
        Let_def split: sum.splits option.splits if_splits)
qed

interpretation sale_sets: step_invariant sale_step promo_sets_ok
  by unfold_locales (auto elim!: sale_stepE simp: sale_after_promo_sets)

text \<open>One line per product and variant: \<open>addItem\<close> stacks instead of adding a second.\<close>

definition line_key :: "sale_item \<Rightarrow> ident \<times> ident option" where
  "line_key it = (si_productId it, si_variantId it)"

definition lines_distinct :: "sale \<Rightarrow> bool" where
  "lines_distinct s \<longleftrightarrow> distinct (map line_key (sa_items s))"

lemma item_line_key [list_simps]:
  "changeQuantity n it = Inr it' \<Longrightarrow> line_key it' = line_key it"
  "applyDiscount now i it = Inr it' \<Longrightarrow> line_key it' = line_key it"
  "overridePrice k it = Inr it' \<Longrightarrow> line_key it' = line_key it"
  by (auto simp: line_key_def changeQuantity_def applyDiscount_def overridePrice_def Let_def
      result_simps split: if_splits)

lemma line_key_removeDiscount [simp]: "line_key (removeDiscount it) = line_key it"
  by (simp add: line_key_def)

lemma update_found_keys:
  assumes "find p its = Some it" and "line_key it' = line_key it"
  shows "map line_key (update_first p (\<lambda>_. it') its) = map line_key its"
  using assms by (induction its) (auto split: if_splits)

lemma update_found_mem: "find p its = Some it \<Longrightarrow> it' \<in> set (update_first p (\<lambda>_. it') its)"
  by (induction its) (auto split: if_splits)

lemma discount_items_keys:
  "map line_key (snd (discount_items now i its)) = map line_key its"
  by (induction its) (auto simp: Let_def item_line_key split: prod.splits sum.splits)

lemma distinct_remove_first:
  "distinct (map f xs) \<Longrightarrow> distinct (map f (remove_first p xs))"
  by (induction xs) (auto dest: subsetD [OF set_remove_first])

lemma with_item_keys:
  assumes "with_item e p f s = Inr s'"
    and "\<And>it it'. f it = Inr it' \<Longrightarrow> line_key it' = line_key it"
  shows "map line_key (sa_items s') = map line_key (sa_items s)"
  using assms by (auto elim!: with_itemE simp: update_found_keys)

lemma addItem_distinct:
  assumes "addItem p s = Inr s'" and "lines_distinct s"
  shows "lines_distinct s'"
proof -
  obtain new where new: "SaleItem_create p = Inr new" and
    r: "(let same = (\<lambda>it. item_matches it (si_productId new) (si_variantId new)) in
       if find same (sa_items s) = None then Inr (s\<lparr>sa_items := sa_items s @ [new]\<rparr>)
       else with_item (rule_violation ''SALE_ITEM_NOT_FOUND'') same
              (\<lambda>it. changeQuantity (si_quantity it + si_quantity new) it) s) = Inr s'"
    using assms(1) by (auto simp: addItem_def result_simps)
  show ?thesis
  proof (cases "find (\<lambda>it. item_matches it (si_productId new) (si_variantId new)) (sa_items s)")
    case None
    with r assms(2) show ?thesis
      by (auto simp: lines_distinct_def line_key_def item_matches_def list_simps) metis
  next
    case (Some it)
    with r have "with_item (rule_violation ''SALE_ITEM_NOT_FOUND'')
        (\<lambda>it. item_matches it (si_productId new) (si_variantId new))
        (\<lambda>it. changeQuantity (si_quantity it + si_quantity new) it) s = Inr s'"
      by simp
    from with_item_keys [OF this] assms(2) show ?thesis
      by (simp add: lines_distinct_def item_line_key)
  qed
qed

lemma sale_after_distinct:
  assumes "lines_distinct s"
  shows "lines_distinct (sale_after now op s)"
proof (cases op)
  case (OpAddItem p)
  then show ?thesis
    using assms addItem_distinct [of p s] by (auto split: sum.splits)
next
  case (OpGlobalDiscount x)
  then show ?thesis
    using assms
    by (simp add: applyGlobalDiscount_def lines_distinct_def split: prod.splits)
       (metis discount_items_keys snd_conv)
next
  case (OpQuantity i n)
  then show ?thesis
    using assms
    by (auto simp: updateItemQuantity_def lines_distinct_def result_simps item_line_key
        split: sum.splits if_splits dest!: with_item_keys)
next
  case (OpOverridePrice i x)
  then show ?thesis
    using assms
    by (auto simp: overrideItemPrice_def lines_distinct_def item_line_key
        split: sum.splits dest!: with_item_keys)
next
  case (OpItemDiscount i x)
  then show ?thesis
    using assms
    by (auto simp: applyItemDiscount_def lines_distinct_def item_line_key
        split: sum.splits dest!: with_item_keys)
qed (use assms other_op_items [of op now s] in
    \<open>auto simp: lines_distinct_def removeItem_def removeItemDiscount_def removeGlobalDiscount_def
       clearItems_def items_update_ticket drop_orphan_ticket result_simps distinct_remove_first
       map_update_first comp_def split: sum.splits option.splits\<close>)

interpretation sale_lines: step_invariant sale_step lines_distinct
  by unfold_locales (auto elim!: sale_stepE simp: sale_after_distinct)

text \<open>A delivered, confirmed sale stays one.\<close>

definition delivered_sale :: "sale \<Rightarrow> bool" where
  "delivered_sale s \<longleftrightarrow> sa_status s = SaleConfirmed \<and> sa_deliveryStatus s = DeliveryDelivered"

lemma sale_after_delivered:
  assumes "delivered_sale s"
  shows "delivered_sale (sale_after now op s)"
proof (cases "is_item_op op")
  case True
  then show ?thesis
    using assms by (elim item_op_afterE [of _ now s]) (simp add: delivered_sale_def)
next
  case False
  then show ?thesis
    using assms
    by (cases op) (auto simp: op_defs promo_defs delivered_sale_def result_simps
        Let_def split: sum.splits option.splits if_splits)
qed

interpretation sale_delivered: step_invariant sale_step delivered_sale
  by unfold_locales (auto elim!: sale_stepE simp: sale_after_delivered)

subsection \<open>Totals\<close>

lemma item_net_le_baseline:
  assumes "item_ok it"
  shows "subtotalCents it - reward_cents it \<le> item_baseline it * si_quantity it"
proof -
  have "si_unitPriceCents it * si_quantity it \<le> item_baseline it * si_quantity it"
    using assms by (auto simp: item_ok_def intro: mult_right_mono)
  then show ?thesis
    using reward_cents_nonneg [of it] by (simp add: subtotalCents_def)
qed

lemma baseline_total_nonneg:
  "\<forall>it\<in>set its. item_ok it \<Longrightarrow> 0 \<le> (\<Sum>it\<leftarrow>its. item_baseline it * si_quantity it)"
  by (rule sum_list_nonneg_int) (auto simp: item_ok_def intro!: mult_nonneg_nonneg)

lemma post_line_le_baseline:
  "\<forall>it\<in>set its. item_ok it \<Longrightarrow>
     post_line_subtotal its \<le> (\<Sum>it\<leftarrow>its. item_baseline it * si_quantity it)"
  unfolding post_line_subtotal_def
  by (rule sum_list_mono_int) (simp add: item_net_le_baseline)

lemma post_line_wire:
  "post_line_subtotal its = (\<Sum>it\<leftarrow>its. sir_subtotalCents (SaleItem_toResponse it))"
  by (simp add: post_line_subtotal_def SaleItem_toResponse_def subtotalCents_def)

lemma post_line_update:
  assumes "find p its = Some it"
  shows "post_line_subtotal (update_first p (\<lambda>_. it') its) =
    post_line_subtotal its - (subtotalCents it - reward_cents it) + (subtotalCents it' - reward_cents it')"
  using assms by (induction its) (auto simp: post_line_subtotal_def split: if_splits)

subsection \<open>The global discount as a map\<close>

text \<open>
  The reference: each line on its own is skipped, discounted or left alone, and
  the skipped ones are collected with their reasons.
\<close>

definition skips :: "apply_discount_input \<Rightarrow> sale_item \<Rightarrow> bool" where
  "skips i it \<longleftrightarrow>
     or_default (adi_strategy i) StrategyReplace = StrategySkip \<and> si_discountType it \<noteq> None"

definition discounted_line :: "timestamp \<Rightarrow> apply_discount_input \<Rightarrow> sale_item \<Rightarrow> sale_item" where
  "discounted_line now i it =
     (if skips i it then it
      else case applyDiscount now i it of Inr it' \<Rightarrow> it' | Inl _ \<Rightarrow> it)"

definition skip_entry ::
  "timestamp \<Rightarrow> apply_discount_input \<Rightarrow> sale_item \<Rightarrow> (ident \<times> skip_reason) list" where
  "skip_entry now i it =
     (if skips i it then [(si_id it, AlreadyDiscounted)]
      else case applyDiscount now i it of
        Inr _ \<Rightarrow> [] | Inl _ \<Rightarrow> [(si_id it, DiscountAmountInvalid)])"

lemma discount_items_map:
  assumes "\<And>it e. it \<in> set its \<Longrightarrow> \<not> skips i it \<Longrightarrow> applyDiscount now i it = Inl e \<Longrightarrow>
     adi_type i = AmountDiscount \<and> is_discount_amount_invalid e"
  shows "discount_items now i its =
    (Inr (concat (map (skip_entry now i) its)), map (discounted_line now i) its)"
  using assms
proof (induction its)
  case (Cons it its)
  then have "discount_items now i its =
      (Inr (concat (map (skip_entry now i) its)), map (discounted_line now i) its)"
    by (intro Cons.IH Cons.prems) simp_all
  with Cons.prems [of it] show ?case
    by (auto simp: Let_def skips_def [of i it] skip_entry_def [of now i it]
        discounted_line_def [of now i it] split: sum.splits)
qed simp

lemma amount_errors_are_skipped:
  assumes "adi_type i = AmountDiscount" and "adi_amountCents i \<noteq> None" and "adi_percent i = None"
    and "applyDiscount now i it = Inl e"
  shows "is_discount_amount_invalid e"
  using assms
  by (auto simp: applyDiscount_def computeDiscountAmountCents_def Let_def result_simps
      invalid_argument_def split: if_splits js_number.splits)

subsection \<open>Properties\<close>

definition sample_props :: sale_item_props where
  "sample_props =
     \<lparr>sip_id = ''i1'', sip_saleId = ''s1'', sip_productId = ''p1'', sip_variantId = None,
      sip_productName = ''Cafe'', sip_variantName = None, sip_imageUrl = None,
      sip_quantity = 3, sip_unitPriceCents = 1000, sip_unitPriceCurrency = ''MXN'',
      sip_originalPriceCents = None, sip_priceSource = None, sip_appliedPriceListId = None,
      sip_customPriceCents = None, sip_discountType = None, sip_discountValue = None,
      sip_discountAmountCents = None, sip_prePriceCentsBeforeDiscount = None,
      sip_discountTitle = None, sip_discountedAt = None, sip_promotionId = None,
      sip_rewardDiscountPercent = None, sip_rewardKind = None\<rparr>"

definition sample_sale :: sale where
  "sample_sale =
     (case Sale_create ''s1'' ''u1'' of
        Inr s \<Rightarrow> s\<lparr>sa_items := [sample_item]\<rparr> | Inl _ \<Rightarrow> undefined)"

definition sample_confirm :: confirm_input where
  "sample_confirm = \<lparr>cfi_confirmedAt = Some (ValidDate 100), cfi_folio = ''A-1''\<rparr>"

definition sample_actor :: cancel_actor where
  "sample_actor = \<lparr>cna_actorId = ''u1'', cna_canceledAt = None\<rparr>"

lemmas sample_sale_simps =
  sample_sale_def Sale_create_def is_blank_def trim_def is_js_space_def sample_confirm_def
  sample_actor_def

lemma sample_sale_fields [simp]:
  "sa_status sample_sale = SaleDraft" "sa_items sample_sale = [sample_item]"
  "sa_deliveryStatus sample_sale = DeliveryDelivered" "sa_appliedOrderPromotion sample_sale = None"
  "sa_vetoedPromotionIds sample_sale = []" "sa_optedInManualPromotionIds sample_sale = []"
  "sa_paidCents sample_sale = 0" "sa_totalCents sample_sale = 0" "sa_dueDate sample_sale = None"
  by (simp_all add: sample_sale_simps)

text \<open>
  The totals of a sale whose lines are in good order.  The subtotal is
  the sum before any discount, the total is what the lines on the wire add up to
  less the order discount and never negative, it never exceeds the subtotal, and
  the discount shown is exactly their difference, never negative.
\<close>

theorem preview_totals_sound:
  assumes "\<forall>it\<in>set (sa_items s). item_ok it"
    and "\<forall>p. sa_appliedOrderPromotion s = Some p \<longrightarrow> 0 \<le> ops_discountAmountCents p"
  shows "pvt_totalCents (previewTotals s) =
      max 0 ((\<Sum>it\<leftarrow>sa_items s. sir_subtotalCents (SaleItem_toResponse it)) -
             (case sa_appliedOrderPromotion s of None \<Rightarrow> 0 | Some p \<Rightarrow> ops_discountAmountCents p)) \<and>
    0 \<le> pvt_totalCents (previewTotals s) \<and>
    pvt_totalCents (previewTotals s) \<le> pvt_subtotalCents (previewTotals s) \<and>
    pvt_discountCents (previewTotals s) =
      pvt_subtotalCents (previewTotals s) - pvt_totalCents (previewTotals s) \<and>
    0 \<le> pvt_discountCents (previewTotals s)"
  using post_line_le_baseline [OF assms(1)] baseline_total_nonneg [OF assms(1)] assms(2)
  by (auto simp: previewTotals_def Let_def post_line_wire split: option.splits)

theorem preview_totals_sound_witness:
  "pvt_totalCents (previewTotals sample_sale) = 3000 \<and>
   pvt_totalCents (previewTotals sample_sale) \<le> pvt_subtotalCents (previewTotals sample_sale)"
proof -
  have ok: "\<forall>it\<in>set (sa_items sample_sale). item_ok it"
    and none: "\<forall>p. sa_appliedOrderPromotion sample_sale = Some p \<longrightarrow> 0 \<le> ops_discountAmountCents p"
    by (simp_all add: item_ok_def sample_simps)
  have "pvt_totalCents (previewTotals sample_sale) = 3000"
    by (simp add: previewTotals_def post_line_subtotal_def subtotalCents_def reward_cents_def
        isBuyXGetYReward_def sample_item_def item_of_props_def)
  then show ?thesis
    using preview_totals_sound [OF ok none] by simp
qed

text \<open>
  The lifecycle only goes forward, and what was charged stays.
  Through any sequence of operations the status never goes back, and from the
  confirmation on the total, the amount paid, the folio and the confirmation date
  are those of the confirmation.
\<close>

theorem charged_sale_frozen:
  assumes "sale_step\<^sup>*\<^sup>* s t" and "sa_status s \<noteq> SaleDraft"
  shows "sa_status s \<le> sa_status t \<and> sa_totalCents t = sa_totalCents s \<and>
    sa_paidCents t = sa_paidCents s \<and> sa_folio t = sa_folio s \<and>
    sa_confirmedAt t = sa_confirmedAt s"
proof -
  have "1 \<le> sale_phase s"
    using assms(2) by (cases "sa_status s") (auto simp: sale_phase_def)
  from sale_life.frozen [OF assms(1) this] sale_life.phase_mono [OF assms(1)] show ?thesis
    by (simp add: charge_record_def sale_phase_def less_eq_sale_status_def)
qed

theorem charged_sale_frozen_witness:
  "\<exists>s t. sale_step\<^sup>*\<^sup>* s t \<and> sa_status s = SaleConfirmed \<and> sa_sellerUserId t = Some ''u2'' \<and>
     sa_folio t = sa_folio s"
proof -
  define s where "s = sale_after 0 (OpConfirm sample_confirm) sample_sale"
  have st: "sa_status s = SaleConfirmed"
    by (simp add: s_def Sale_confirm_def sample_confirm_def is_blank_def trim_def is_js_space_def)
  have step: "sale_step\<^sup>*\<^sup>* s (sale_after 0 (OpAssignSeller ''u2'') s)"
    by (rule r_into_rtranclp, rule sale_stepI)
  have "sa_sellerUserId (sale_after 0 (OpAssignSeller ''u2'') s) = Some ''u2''"
    by (simp add: assignSeller_def ensureNotCanceled_def st)
  moreover have "sa_status s \<noteq> SaleDraft"
    by (simp add: st)
  ultimately show ?thesis
    using charged_sale_frozen [OF step] step st by blast
qed

text \<open>
  Property C37: the promotion sets and the lines of every sale that can be reached.
  From a freshly created sale, whatever operations run, no promotion is both opted
  in and vetoed, and no two lines carry the same product and variant.
\<close>

theorem reachable_sale_consistent:
  assumes "Sale_create i u = Inr s0" and "sale_step\<^sup>*\<^sup>* s0 s"
  shows "set (sa_optedInManualPromotionIds s) \<inter> set (sa_vetoedPromotionIds s) = {} \<and>
    distinct (map (\<lambda>it. (si_productId it, si_variantId it)) (sa_items s))"
proof -
  have "promo_sets_ok s0" and "lines_distinct s0"
    using assms(1) by (auto simp: Sale_create_def promo_sets_ok_def lines_distinct_def split: if_splits)
  then show ?thesis
    using sale_sets.inv_reach [OF assms(2)] sale_lines.inv_reach [OF assms(2)]
    by (simp add: promo_sets_ok_def lines_distinct_def line_key_def [abs_def])
qed

theorem reachable_sale_consistent_witness:
  "\<exists>s0 s. Sale_create ''s1'' ''u1'' = Inr s0 \<and> sale_step\<^sup>*\<^sup>* s0 s \<and>
     sa_vetoedPromotionIds s = [''x''] \<and> ''x'' \<notin> set (sa_optedInManualPromotionIds s)"
proof -
  obtain s0 where s0: "Sale_create ''s1'' ''u1'' = Inr s0" "sa_vetoedPromotionIds s0 = []"
    "sa_optedInManualPromotionIds s0 = []"
    by (simp add: sample_sale_simps)
  let ?s1 = "sale_after 0 (OpOptIn ''x'') s0"
  let ?s = "sale_after 0 (OpVeto ''x'') ?s1"
  have r: "sale_step\<^sup>*\<^sup>* s0 ?s"
    by (rule rtranclp_trans [OF r_into_rtranclp r_into_rtranclp]; rule sale_stepI)
  have "sa_vetoedPromotionIds ?s = [''x'']"
    by (simp add: promo_defs Let_def s0)
  with reachable_sale_consistent [OF s0(1) r] s0 r show ?thesis by fastforce
qed

text \<open>
  A delivered sale cannot be cancelled, ever.  A confirmed sale whose
  delivery status is DELIVERED, which is what a point-of-sale draft starts with
  unless it is marked for delivery, refuses every later cancellation.
\<close>

theorem delivered_sale_not_cancellable:
  assumes "sale_step\<^sup>*\<^sup>* s t" and "sa_status s = SaleConfirmed"
    and "sa_deliveryStatus s = DeliveryDelivered"
  shows "Sale_cancel now r a t = Inl (rule_violation ''SALE_DELIVERED_CANNOT_CANCEL'')"
  using sale_delivered.inv_reach [OF assms(1)] assms(2,3)
  by (simp add: delivered_sale_def Sale_cancel_def)

theorem delivered_sale_not_cancellable_witness:
  "\<exists>s. Sale_confirm sample_confirm sample_sale = Inr s \<and>
     Sale_cancel 5 OrderError sample_actor s =
       Inl (rule_violation ''SALE_DELIVERED_CANNOT_CANCEL'')"
proof -
  obtain s where s: "Sale_confirm sample_confirm sample_sale = Inr s"
    "sa_status s = SaleConfirmed" "sa_deliveryStatus s = DeliveryDelivered"
    by (simp add: Sale_confirm_def sample_confirm_def is_blank_def trim_def is_js_space_def)
  then show ?thesis
    using delivered_sale_not_cancellable [OF rtranclp.rtrancl_refl s(2,3)] by blast
qed

text \<open>
  What cancelling does.  A cancellation that is accepted returns the
  sale as CANCELED with the same charge and lines; the refund is the amount paid,
  or nothing for a credit sale, in which case no debt is left; and the cancelled
  sale refuses every later edit of its lines, its customer, its due date and its
  seller.
\<close>

theorem cancel_settles:
  assumes "Sale_cancel now reason actor s = Inr (s', refunded)"
  shows "sa_status s = SaleConfirmed \<and> sa_status s' = SaleCanceled \<and>
    sa_items s' = sa_items s \<and> sa_totalCents s' = sa_totalCents s \<and>
    sa_paidCents s' = sa_paidCents s \<and>
    refunded = (if sa_paymentStatus s = Some PaymentCredit then 0 else sa_paidCents s) \<and>
    sa_debtCents s' = (if refunded = 0 then 0 else sa_debtCents s) \<and>
    (\<forall>p. addItem p s' = Inl (rule_violation ''SALE_NOT_DRAFT'')) \<and>
    (\<forall>i. removeItem i s' = Inl (rule_violation ''SALE_NOT_DRAFT'')) \<and>
    (\<forall>c a. assignCustomer c a s' = Inl (rule_violation ''SALE_NOT_DRAFT'')) \<and>
    (\<forall>d. setDueDate d s' = Inl (rule_violation ''SALE_CANCELED'')) \<and>
    (\<forall>u. assignSeller u s' = Inl (rule_violation ''SALE_CANCELED'')) \<and>
    (\<forall>r a. Sale_cancel now r a s' = Inl (rule_violation ''SALE_NOT_CANCELLABLE''))"
proof -
  have ok: "sa_status s = SaleConfirmed" and
    s': "s' = s\<lparr>sa_status := SaleCanceled, sa_debtCents := (if refunds_nothing s then 0 else sa_debtCents s),
       sa_canceledAt := Some (or_default (cna_canceledAt actor) now),
       sa_cancelReason := Some reason, sa_canceledByUserId := Some (cna_actorId actor),
       sa_appliedOrderPromotion := None, sa_vetoedPromotionIds := [],
       sa_optedInManualPromotionIds := [], sa_globalPriceListId := None,
       sa_priceListExplicitlySet := False,
       sa_shippingAddressSnapshot := map_option copyShippingAddress (sa_shippingAddressSnapshot s)\<rparr>"
    and r: "refunded = (if refunds_nothing s then 0 else sa_paidCents s)"
    using assms by (auto simp: Sale_cancel_def Let_def split: if_splits)
  have "sa_status s' = SaleCanceled" by (simp add: s')
  then have "ensureDraft s' = Inl (rule_violation ''SALE_NOT_DRAFT'')"
    "ensureNotCanceled s' = Inl (rule_violation ''SALE_CANCELED'')"
    by (simp_all add: result_simps)
  then show ?thesis
    using ok r by (auto simp: s' addItem_def removeItem_def assignCustomer_def setDueDate_def
        assignSeller_def Sale_cancel_def refunds_nothing_def)
qed

theorem cancel_settles_witness:
  "\<exists>s s'. Sale_cancel 5 OrderError sample_actor s = Inr (s', 3000) \<and> sa_paidCents s' = 3000 \<and>
     addItem sample_props s' = Inl (rule_violation ''SALE_NOT_DRAFT'')"
proof -
  define s where "s = sample_sale\<lparr>sa_status := SaleConfirmed, sa_paidCents := 3000,
    sa_deliveryStatus := DeliveryPending, sa_paymentStatus := Some PaymentPaid\<rparr>"
  have "\<exists>s'. Sale_cancel 5 OrderError sample_actor s = Inr (s', 3000)"
    by (simp add: s_def Sale_cancel_def refunds_nothing_def)
  then obtain s' where h: "Sale_cancel 5 OrderError sample_actor s = Inr (s', 3000)" ..
  have "sa_paidCents s = 3000" by (simp add: s_def)
  then show ?thesis
    using cancel_settles [OF h] h by (intro exI [of _ s] exI [of _ s'] conjI) simp_all
qed

text \<open>
  Removing a line keeps exactly the opt-ins that are still wanted.
  The lines are the old ones without the first with this id; a manual promotion
  stays opted in unless it was the removed line's and no other line refers to it;
  the vetoes stay.
\<close>

theorem removeItem_opt_ins:
  assumes "removeItem i s = Inr s'" and "find (has_id i) (sa_items s) = Some it"
  shows "sa_items s' = remove_first (has_id i) (sa_items s) \<and>
    sa_vetoedPromotionIds s' = sa_vetoedPromotionIds s \<and>
    (\<forall>p. p \<in> set (sa_optedInManualPromotionIds s') \<longleftrightarrow>
      p \<in> set (sa_optedInManualPromotionIds s) \<and>
      (si_promotionId it = Some p \<longrightarrow>
        (\<exists>it'\<in>set (remove_first (has_id i) (sa_items s)). si_promotionId it' = Some p)))"
  using assms
  by (auto simp: removeItem_def items_update_ticket drop_orphan_ticket result_simps
      split: option.splits if_splits)

theorem removeItem_opt_ins_witness:
  "\<exists>s'. removeItem ''i1'' (optInManualPromotion ''m''
        (sample_sale\<lparr>sa_items := [sample_item\<lparr>si_promotionId := Some ''m''\<rparr>]\<rparr>)) = Inr s' \<and>
     ''m'' \<notin> set (sa_optedInManualPromotionIds s')"
proof -
  define it where "it = sample_item\<lparr>si_promotionId := Some ''m''\<rparr>"
  define s where "s = optInManualPromotion ''m'' (sample_sale\<lparr>sa_items := [it]\<rparr>)"
  have it: "si_id it = ''i1''" "si_promotionId it = Some ''m''"
    by (simp_all add: it_def sample_item_def item_of_props_def)
  have s: "sa_items s = [it]" "sa_status s = SaleDraft"
    by (simp_all add: s_def promo_defs Let_def)
  have f: "find (has_id ''i1'') (sa_items s) = Some it"
    by (simp add: s has_id_def it)
  have "\<exists>s'. removeItem ''i1'' s = Inr s'"
    using f by (simp add: removeItem_def ensureDraft_def s)
  then obtain s' where h: "removeItem ''i1'' s = Inr s'" ..
  have "''m'' \<notin> set (sa_optedInManualPromotionIds s')"
    using removeItem_opt_ins [OF h f] by (simp add: s has_id_def it)
  with h show ?thesis by (auto simp: s_def it_def)
qed

text \<open>
  A global amount discount is total and line by line.  It never
  throws: every line is skipped because it is already discounted (with the skip
  strategy), discounted as if alone, or left as it is because the amount does not
  fit, and the skipped lines are reported in order with the reason.
\<close>

theorem global_amount_discount_pointwise:
  assumes "adi_type i = AmountDiscount" and "adi_amountCents i \<noteq> None" and "adi_percent i = None"
  shows "applyGlobalDiscount now i s =
    (Inr (concat (map (skip_entry now i) (sa_items s))),
     s\<lparr>sa_items := map (discounted_line now i) (sa_items s)\<rparr>)"
  using discount_items_map [of "sa_items s" i now] amount_errors_are_skipped [OF assms] assms(1)
  by (auto simp: applyGlobalDiscount_def)

theorem global_amount_discount_pointwise_witness:
  "fst (applyGlobalDiscount 1 (amount_input 1000) sample_sale) = Inr [(''i1'', DiscountAmountInvalid)]"
proof -
  have "adi_type (amount_input 1000) = AmountDiscount" "adi_amountCents (amount_input 1000) \<noteq> None"
    "adi_percent (amount_input 1000) = None"
    by (simp_all add: amount_input_def)
  note p = global_amount_discount_pointwise [OF this, of 1 sample_sale]
  show ?thesis
    unfolding p by (simp add: skip_entry_def skips_def sample_simps)
qed

text \<open>
  Adding a product that is already on the ticket stacks.  The line
  found keeps its price and identity, its quantity grows by the new quantity, no
  line is added, and the post-line total grows by the new quantity at the line's
  own price, whatever price came with the new props.
\<close>

theorem addItem_stacks:
  assumes "addItem p s = Inr s'"
    and "find (\<lambda>it. item_matches it (sip_productId p) (sip_variantId p)) (sa_items s) = Some it"
  shows "length (sa_items s') = length (sa_items s) \<and>
    it\<lparr>si_quantity := si_quantity it + sip_quantity p\<rparr> \<in> set (sa_items s') \<and>
    post_line_subtotal (sa_items s') =
      post_line_subtotal (sa_items s) + si_unitPriceCents it * sip_quantity p"
proof -
  let ?same = "\<lambda>it. item_matches it (sip_productId p) (sip_variantId p)"
  let ?it' = "it\<lparr>si_quantity := si_quantity it + sip_quantity p\<rparr>"
  obtain new where new: "SaleItem_create p = Inr new" "si_productId new = sip_productId p"
    "si_variantId new = sip_variantId p" "si_quantity new = sip_quantity p"
    and w: "with_item (rule_violation ''SALE_ITEM_NOT_FOUND'') ?same
        (\<lambda>it. changeQuantity (si_quantity it + si_quantity new) it) s = Inr s'"
    using assms by (auto simp: addItem_def result_simps Let_def SaleItem_create_def
        item_of_props_def split: if_splits)
  from w assms(2) have s': "sa_items s' = update_first ?same (\<lambda>_. ?it') (sa_items s)"
    by (auto elim!: with_itemE simp: changeQuantity_def new split: if_splits)
  have "reward_cents ?it' = reward_cents it"
    by (auto simp: reward_cents_def isBuyXGetYReward_def split: option.splits)
  moreover have "?it' \<in> set (update_first ?same (\<lambda>_. ?it') (sa_items s))"
    using assms(2) by (rule update_found_mem)
  ultimately show ?thesis
    using post_line_update [OF assms(2), of ?it'] by (simp add: s' subtotalCents_def algebra_simps)
qed

theorem addItem_stacks_witness:
  "\<exists>s'. addItem sample_props sample_sale = Inr s' \<and> length (sa_items s') = 1 \<and>
     post_line_subtotal (sa_items s') = post_line_subtotal (sa_items sample_sale) + 3000"
proof -
  have it: "si_productId sample_item = ''p1''" "si_variantId sample_item = None"
      "si_unitPriceCents sample_item = 1000"
    and p: "sip_productId sample_props = ''p1''" "sip_variantId sample_props = None"
      "sip_quantity sample_props = 3"
    by (simp_all add: sample_item_def item_of_props_def sample_props_def)
  have f: "find (\<lambda>it. item_matches it (sip_productId sample_props) (sip_variantId sample_props))
      (sa_items sample_sale) = Some sample_item"
    by (simp add: item_matches_def it p)
  have "\<exists>s'. addItem sample_props sample_sale = Inr s'"
    by (simp add: addItem_def ensureDraft_def SaleItem_create_def sample_props_def is_blank_def
        trim_def is_js_space_def Let_def with_item_def item_of_props_def item_matches_def
        sample_item_def changeQuantity_def)
  then obtain s' where h: "addItem sample_props sample_sale = Inr s'" ..
  show ?thesis using addItem_stacks [OF h f] h by (simp add: it p)
qed

end
