(* ===== verification/Promotion.thy ===== *)
theory Promotion
  imports Sale
begin

section \<open>Promotions\<close>

text \<open>
  \<open>src/src/promotions/domain/promotion.entity.ts\<close> and \<open>bot-eligibility.ts\<close>: the
  promotion entity, the validation of its four types, its read-time status and the
  operator's commands.  Numeric fields are the integer columns they are stored
  in; the capacity, whose integrality the code tests, is a \<open>js_number\<close> on input.
  Dates may be the invalid date.  The clock is the argument \<open>now\<close>.
\<close>

datatype promotion_type = ProductDiscount | OrderDiscount | BuyXGetY | Advanced
datatype promotion_method = Automatic | Manual
datatype promotion_status = PromoActive | PromoScheduled | PromoEnded
datatype promo_discount_type = PromoPercentage | PromoFixed
datatype promotion_target_type = TargetCategories | TargetBrands | TargetProducts | TargetVariants
datatype customer_scope = ScopeAll | ScopeRegisteredOnly | ScopeSpecific
datatype day_of_week = Monday | Tuesday | Wednesday | Thursday | Friday | Saturday | Sunday
datatype target_side = SideDefault | SideBuy | SideGet

subsection \<open>Data\<close>

record promotion_target =
  ptg_id :: ident
  ptg_side :: target_side
  ptg_targetType :: promotion_target_type
  ptg_targetId :: ident

text \<open>
  The relations carry a row id and an embedded read-only view in the code; the
  model keeps what the engine reads: the customer ids, the price list ids and the
  days.
\<close>

record promotion =
  pm_botEligible :: bool
  pm_id :: ident
  pm_title :: string
  pm_type :: promotion_type
  pm_method :: promotion_method
  pm_status :: promotion_status
  pm_manuallyEnded :: bool
  pm_startDate :: "js_date option"
  pm_endDate :: "js_date option"
  pm_customerScope :: customer_scope
  pm_discountType :: "promo_discount_type option"
  pm_discountValue :: "int option"
  pm_minPurchaseAmountCents :: "cents option"
  pm_appliesTo :: "promotion_target_type option"
  pm_buyQuantity :: "int option"
  pm_getQuantity :: "int option"
  pm_getDiscountPercent :: "int option"
  pm_buyTargetType :: "promotion_target_type option"
  pm_getTargetType :: "promotion_target_type option"
  pm_maxProductUnits :: "int option"
  pm_consumedProductUnits :: int
  pm_createdAt :: timestamp
  pm_updatedAt :: timestamp
  pm_targetItems :: "promotion_target list"
  pm_customers :: "ident list"
  pm_priceLists :: "ident list"
  pm_daysOfWeek :: "day_of_week list"

record create_promotion_params =
  cpp_botEligible :: "bool option"
  cpp_priceLists :: "ident list option"
  cpp_daysOfWeek :: "day_of_week list option"
  cpp_id :: ident
  cpp_title :: string
  cpp_type :: promotion_type
  cpp_method :: promotion_method
  cpp_manuallyEnded :: "bool option"
  cpp_startDate :: "js_date option"
  cpp_endDate :: "js_date option"
  cpp_customerScope :: "customer_scope option"
  cpp_discountType :: "promo_discount_type option"
  cpp_discountValue :: "int option"
  cpp_minPurchaseAmountCents :: "cents option"
  cpp_appliesTo :: "promotion_target_type option"
  cpp_buyQuantity :: "int option"
  cpp_getQuantity :: "int option"
  cpp_getDiscountPercent :: "int option"
  cpp_buyTargetType :: "promotion_target_type option"
  cpp_getTargetType :: "promotion_target_type option"
  cpp_maxProductUnits :: "js_number option"
  cpp_consumedProductUnits :: "js_number option"

subsection \<open>Bot eligibility\<close>

record bot_eligibility_rule =
  ber_type :: promotion_type
  ber_method :: promotion_method
  ber_appliesTo :: "promotion_target_type list option"
  ber_customerScopes :: "customer_scope list"
  ber_allowsPriceLists :: bool
  ber_allowsDaysOfWeek :: bool

definition bot_rule :: "promotion_type \<Rightarrow> promotion_target_type list option \<Rightarrow> bot_eligibility_rule" where
  "bot_rule t targets =
     \<lparr>ber_type = t, ber_method = Automatic, ber_appliesTo = targets,
      ber_customerScopes = [ScopeAll, ScopeRegisteredOnly, ScopeSpecific],
      ber_allowsPriceLists = True, ber_allowsDaysOfWeek = True\<rparr>"

definition BOT_ELIGIBILITY_RULES :: "bot_eligibility_rule list" where
  "BOT_ELIGIBILITY_RULES =
     [bot_rule ProductDiscount
        (Some [TargetProducts, TargetVariants, TargetCategories, TargetBrands]),
      bot_rule OrderDiscount None,
      bot_rule BuyXGetY
        (Some [TargetProducts, TargetVariants, TargetCategories, TargetBrands]),
      bot_rule Advanced None]"

text \<open>The conditions in the order they are tested, each with the name reported.\<close>

definition bot_conditions ::
  "create_promotion_params \<Rightarrow> (string \<times> (bot_eligibility_rule \<Rightarrow> bool)) list" where
  "bot_conditions p =
     [(''type'', \<lambda>r. ber_type r = cpp_type p),
      (''method'', \<lambda>r. ber_method r = cpp_method p),
      (''appliesTo'', \<lambda>r. case ber_appliesTo r of
          None \<Rightarrow> True
        | Some ts \<Rightarrow> (case cpp_appliesTo p of None \<Rightarrow> False | Some t \<Rightarrow> t \<in> set ts)),
      (''customerScope'', \<lambda>r. or_default (cpp_customerScope p) ScopeAll \<in> set (ber_customerScopes r)),
      (''priceLists'', \<lambda>r. ber_allowsPriceLists r \<or> or_default (cpp_priceLists p) [] = []),
      (''daysOfWeek'', \<lambda>r. ber_allowsDaysOfWeek r \<or> or_default (cpp_daysOfWeek p) [] = [])]"

fun first_unmet ::
  "(string \<times> (bot_eligibility_rule \<Rightarrow> bool)) list \<Rightarrow> bot_eligibility_rule list \<Rightarrow> string option" where
  "first_unmet [] rules = None"
| "first_unmet ((name, ok) # cs) rules =
     (let rules' = filter ok rules in
      if rules' = [] then Some name else first_unmet cs rules')"

definition unsupportedCondition :: "create_promotion_params \<Rightarrow> string option" where
  "unsupportedCondition p = first_unmet (bot_conditions p) BOT_ELIGIBILITY_RULES"

definition assertBotEligibilitySupported :: "create_promotion_params \<Rightarrow> unit result" where
  "assertBotEligibilitySupported p =
     (case unsupportedCondition p of
        None \<Rightarrow> Inr ()
      | Some c \<Rightarrow> Inl (InvalidArgumentError
          (''Bot eligibility does not support this promotion'' @ [CHR 0x27] @ ''s '' @ c)
          ''BOT_ELIGIBILITY_UNSUPPORTED''))"

subsection \<open>Validation\<close>

fun type_name :: "promotion_type \<Rightarrow> string" where
  "type_name ProductDiscount = ''PRODUCT_DISCOUNT''"
| "type_name OrderDiscount = ''ORDER_DISCOUNT''"
| "type_name BuyXGetY = ''BUY_X_GET_Y''"
| "type_name Advanced = ''ADVANCED''"

definition requireField :: "'a option \<Rightarrow> string \<Rightarrow> promotion_type \<Rightarrow> 'a result" where
  "requireField v field t =
     (case v of
        None \<Rightarrow> Inl (InvalidArgumentError (field @ '' is required for '' @ type_name t @ '' type'')
                 ''MISSING_REQUIRED_FIELD'')
      | Some x \<Rightarrow> Inr x)"

definition forbidField :: "'a option \<Rightarrow> string \<Rightarrow> promotion_type \<Rightarrow> unit result" where
  "forbidField v field t =
     throw_if (v \<noteq> None)
       (InvalidArgumentError (field @ '' is not allowed for '' @ type_name t @ '' type'')
         ''FORBIDDEN_FIELD'')"

definition invalid_field :: "string \<Rightarrow> domain_error" where
  "invalid_field msg = InvalidArgumentError msg ''INVALID_FIELD_VALUE''"

definition validateDiscountValue :: "promo_discount_type \<Rightarrow> int \<Rightarrow> unit result" where
  "validateDiscountValue t v =
     (case t of
        PromoPercentage \<Rightarrow>
          throw_if (v < 1 \<or> 100 < v)
            (invalid_field ''discountValue must be between 1 and 100 for PERCENTAGE type'')
      | PromoFixed \<Rightarrow>
          throw_if (v \<le> 0)
            (invalid_field ''discountValue must be greater than 0 for FIXED type''))"

definition validateQuantityField :: "int \<Rightarrow> string \<Rightarrow> unit result" where
  "validateQuantityField v field = throw_if (v < 1) (invalid_field (field @ '' must be >= 1''))"

definition validateGetDiscountPercent :: "int \<Rightarrow> promotion_type \<Rightarrow> unit result" where
  "validateGetDiscountPercent v t =
     throw_if (v < 0 \<or> 100 < v)
       (invalid_field (''getDiscountPercent must be between 0 and 100 for '' @ type_name t @ '' type''))"

definition validateDateRange :: "js_date option \<Rightarrow> js_date option \<Rightarrow> unit result" where
  "validateDateRange start stop =
     (case (start, stop) of
        (Some s, Some e) \<Rightarrow>
          throw_if (date_less e s)
            (InvalidArgumentError ''endDate must be >= startDate'' ''INVALID_DATE_RANGE'')
      | _ \<Rightarrow> Inr ())"

definition MAX_PRODUCT_UNITS :: int where
  "MAX_PRODUCT_UNITS = 2147483647"

text \<open>\<open>!Number.isInteger(n) || n < low || n > MAX_PRODUCT_UNITS\<close>\<close>

fun outside_units :: "int \<Rightarrow> js_number \<Rightarrow> bool" where
  "outside_units low (JsInt n) = (n < low \<or> MAX_PRODUCT_UNITS < n)"
| "outside_units low _ = True"

definition validateProductUnitCapacity :: "js_number option \<Rightarrow> js_number \<Rightarrow> unit result" where
  "validateProductUnitCapacity cap consumed =
     (if (case cap of None \<Rightarrow> False | Some n \<Rightarrow> outside_units 1 n)
        then Inl (InvalidArgumentError
          ''maxProductUnits must be an integer between 1 and 2147483647 or null''
          ''INVALID_MAX_PRODUCT_UNITS'')
      else if outside_units 0 consumed
        then Inl (InvalidArgumentError
          ''consumedProductUnits must be an integer between 0 and 2147483647''
          ''INVALID_CONSUMED_PRODUCT_UNITS'')
      else if (case cap of None \<Rightarrow> False | Some n \<Rightarrow> js_trunc n < js_trunc consumed)
        then Inl (InvalidArgumentError ''consumedProductUnits cannot exceed maxProductUnits''
          ''PRODUCT_UNIT_CAPACITY_EXCEEDED'')
      else Inr ())"

definition validateByType :: "create_promotion_params \<Rightarrow> unit result" where
  "validateByType p =
     (let t = cpp_type p in
      case t of
        ProductDiscount \<Rightarrow>
          andThen (requireField (cpp_discountType p) ''discountType'' t) (\<lambda>dt.
          andThen (requireField (cpp_discountValue p) ''discountValue'' t) (\<lambda>dv.
          andThen (requireField (cpp_appliesTo p) ''appliesTo'' t) (\<lambda>_.
          andThen (validateDiscountValue dt dv) (\<lambda>_.
          andThen (forbidField (cpp_buyQuantity p) ''buyQuantity'' t) (\<lambda>_.
          andThen (forbidField (cpp_getQuantity p) ''getQuantity'' t) (\<lambda>_.
          andThen (forbidField (cpp_getDiscountPercent p) ''getDiscountPercent'' t) (\<lambda>_.
          andThen (forbidField (cpp_minPurchaseAmountCents p) ''minPurchaseAmountCents'' t) (\<lambda>_.
          andThen (forbidField (cpp_buyTargetType p) ''buyTargetType'' t) (\<lambda>_.
          forbidField (cpp_getTargetType p) ''getTargetType'' t)))))))))
      | OrderDiscount \<Rightarrow>
          andThen (requireField (cpp_discountType p) ''discountType'' t) (\<lambda>dt.
          andThen (requireField (cpp_discountValue p) ''discountValue'' t) (\<lambda>dv.
          andThen (validateDiscountValue dt dv) (\<lambda>_.
          andThen (forbidField (cpp_appliesTo p) ''appliesTo'' t) (\<lambda>_.
          andThen (forbidField (cpp_buyQuantity p) ''buyQuantity'' t) (\<lambda>_.
          andThen (forbidField (cpp_getQuantity p) ''getQuantity'' t) (\<lambda>_.
          andThen (forbidField (cpp_getDiscountPercent p) ''getDiscountPercent'' t) (\<lambda>_.
          andThen (forbidField (cpp_buyTargetType p) ''buyTargetType'' t) (\<lambda>_.
          forbidField (cpp_getTargetType p) ''getTargetType'' t))))))))
      | BuyXGetY \<Rightarrow>
          andThen (requireField (cpp_buyQuantity p) ''buyQuantity'' t) (\<lambda>bq.
          andThen (requireField (cpp_getQuantity p) ''getQuantity'' t) (\<lambda>gq.
          andThen (requireField (cpp_getDiscountPercent p) ''getDiscountPercent'' t) (\<lambda>gdp.
          andThen (validateQuantityField bq ''buyQuantity'') (\<lambda>_.
          andThen (validateQuantityField gq ''getQuantity'') (\<lambda>_.
          andThen (validateGetDiscountPercent gdp BuyXGetY) (\<lambda>_.
          andThen (forbidField (cpp_discountType p) ''discountType'' t) (\<lambda>_.
          andThen (forbidField (cpp_discountValue p) ''discountValue'' t) (\<lambda>_.
          andThen (forbidField (cpp_minPurchaseAmountCents p) ''minPurchaseAmountCents'' t) (\<lambda>_.
          andThen (forbidField (cpp_buyTargetType p) ''buyTargetType'' t) (\<lambda>_.
          forbidField (cpp_getTargetType p) ''getTargetType'' t))))))))))
      | Advanced \<Rightarrow>
          andThen (requireField (cpp_buyQuantity p) ''buyQuantity'' t) (\<lambda>bq.
          andThen (requireField (cpp_getQuantity p) ''getQuantity'' t) (\<lambda>gq.
          andThen (requireField (cpp_getDiscountPercent p) ''getDiscountPercent'' t) (\<lambda>gdp.
          andThen (validateQuantityField bq ''buyQuantity'') (\<lambda>_.
          andThen (validateQuantityField gq ''getQuantity'') (\<lambda>_.
          andThen (validateGetDiscountPercent gdp Advanced) (\<lambda>_.
          andThen (forbidField (cpp_appliesTo p) ''appliesTo'' t) (\<lambda>_.
          andThen (forbidField (cpp_discountType p) ''discountType'' t) (\<lambda>_.
          andThen (forbidField (cpp_discountValue p) ''discountValue'' t) (\<lambda>_.
          forbidField (cpp_minPurchaseAmountCents p) ''minPurchaseAmountCents'' t))))))))))"

subsection \<open>Status\<close>

definition deriveStatus :: "js_date option \<Rightarrow> js_date option \<Rightarrow> timestamp \<Rightarrow> promotion_status" where
  "deriveStatus start stop now =
     (if (case stop of None \<Rightarrow> False | Some e \<Rightarrow> date_less e (ValidDate now)) then PromoEnded
      else if (case start of None \<Rightarrow> False | Some s \<Rightarrow> date_less (ValidDate now) s) then PromoScheduled
      else PromoActive)"

definition getEffectiveStatus :: "timestamp \<Rightarrow> promotion \<Rightarrow> promotion_status" where
  "getEffectiveStatus now p =
     (if pm_manuallyEnded p then PromoEnded
      else if (case pm_startDate p of None \<Rightarrow> False | Some s \<Rightarrow> date_less (ValidDate now) s)
        then PromoScheduled
      else if (case pm_endDate p of None \<Rightarrow> False | Some e \<Rightarrow> date_less e (ValidDate now))
        then PromoEnded
      else PromoActive)"

subsection \<open>The entity\<close>

definition Promotion_create :: "timestamp \<Rightarrow> create_promotion_params \<Rightarrow> promotion result" where
  "Promotion_create now p =
     (let title = trim (cpp_title p) in
      if title = []
        then Inl (InvalidArgumentError ''Promotion title is required'' ''MISSING_REQUIRED_FIELD'')
      else
        andThen (validateDateRange (cpp_startDate p) (cpp_endDate p)) (\<lambda>_.
        andThen (if or_default (cpp_botEligible p) False then assertBotEligibilitySupported p
                 else Inr ()) (\<lambda>_.
        andThen (validateByType p) (\<lambda>_.
        let consumed = or_default (cpp_consumedProductUnits p) (JsInt 0) in
        andThen (validateProductUnitCapacity (cpp_maxProductUnits p) consumed) (\<lambda>_.
        let ended = or_default (cpp_manuallyEnded p) False in
        Inr \<lparr>pm_botEligible = or_default (cpp_botEligible p) False, pm_id = cpp_id p,
             pm_title = title, pm_type = cpp_type p, pm_method = cpp_method p,
             pm_status =
               (if ended then PromoEnded else deriveStatus (cpp_startDate p) (cpp_endDate p) now),
             pm_manuallyEnded = ended, pm_startDate = cpp_startDate p, pm_endDate = cpp_endDate p,
             pm_customerScope = or_default (cpp_customerScope p) ScopeAll,
             pm_discountType = cpp_discountType p, pm_discountValue = cpp_discountValue p,
             pm_minPurchaseAmountCents = cpp_minPurchaseAmountCents p,
             pm_appliesTo = cpp_appliesTo p, pm_buyQuantity = cpp_buyQuantity p,
             pm_getQuantity = cpp_getQuantity p,
             pm_getDiscountPercent = cpp_getDiscountPercent p,
             pm_buyTargetType = cpp_buyTargetType p, pm_getTargetType = cpp_getTargetType p,
             pm_maxProductUnits = map_option js_trunc (cpp_maxProductUnits p),
             pm_consumedProductUnits = js_trunc consumed,
             pm_createdAt = now, pm_updatedAt = now, pm_targetItems = [], pm_customers = [],
             pm_priceLists = or_default (cpp_priceLists p) [],
             pm_daysOfWeek = or_default (cpp_daysOfWeek p) []\<rparr>)))))"

definition remainingProductUnits :: "promotion \<Rightarrow> int option" where
  "remainingProductUnits p =
     map_option (\<lambda>m. m - pm_consumedProductUnits p) (pm_maxProductUnits p)"

definition updateMaxProductUnits :: "js_number option \<Rightarrow> promotion \<Rightarrow> promotion result" where
  "updateMaxProductUnits cap p =
     andThen (validateProductUnitCapacity cap (JsInt (pm_consumedProductUnits p))) (\<lambda>_.
       Inr (p\<lparr>pm_maxProductUnits := map_option js_trunc cap\<rparr>))"

definition Promotion_end :: "timestamp \<Rightarrow> promotion \<Rightarrow> promotion" where
  "Promotion_end now p =
     (if pm_manuallyEnded p then p
      else p\<lparr>pm_manuallyEnded := True, pm_status := PromoEnded,
             pm_endDate := (case pm_endDate p of None \<Rightarrow> Some (ValidDate now) | Some e \<Rightarrow> Some e),
             pm_updatedAt := now\<rparr>)"

definition recomputeStatus :: "timestamp \<Rightarrow> promotion \<Rightarrow> promotion" where
  "recomputeStatus now p = p\<lparr>pm_status := getEffectiveStatus now p\<rparr>"

text \<open>
  \<open>activate(now)\<close>: whether it changed anything, and the promotion.  The second
  clock reading, for \<open>updatedAt\<close>, is \<open>wall\<close>.
\<close>

definition Promotion_activate :: "timestamp \<Rightarrow> timestamp \<Rightarrow> promotion \<Rightarrow> bool \<times> promotion" where
  "Promotion_activate now wall p =
     (let expired = (case pm_endDate p of None \<Rightarrow> False | Some e \<Rightarrow> date_less e (ValidDate now)) in
      if \<not> pm_manuallyEnded p \<and> \<not> expired then (False, p)
      else
        let p1 = p\<lparr>pm_manuallyEnded := False\<rparr>;
            p2 = (if expired then p1\<lparr>pm_endDate := None\<rparr> else p1)
        in (True, (recomputeStatus now p2)\<lparr>pm_updatedAt := wall\<rparr>))"

record promotion_response =
  prr_botEligible :: bool
  prr_id :: ident
  prr_title :: string
  prr_type :: promotion_type
  prr_method :: promotion_method
  prr_status :: promotion_status
  prr_startDate :: "timestamp option"
  prr_endDate :: "timestamp option"
  prr_customerScope :: customer_scope
  prr_discountType :: "promo_discount_type option"
  prr_discountValue :: "int option"
  prr_minPurchaseAmountCents :: "cents option"
  prr_appliesTo :: "promotion_target_type option"
  prr_buyQuantity :: "int option"
  prr_getQuantity :: "int option"
  prr_getDiscountPercent :: "int option"
  prr_buyTargetType :: "promotion_target_type option"
  prr_getTargetType :: "promotion_target_type option"
  prr_maxProductUnits :: "int option"
  prr_consumedProductUnits :: int
  prr_remainingProductUnits :: "int option"
  prr_targetItems :: "promotion_target list"
  prr_customers :: "ident list"
  prr_priceLists :: "ident list"
  prr_daysOfWeek :: "day_of_week list"
  prr_createdAt :: timestamp
  prr_updatedAt :: timestamp

definition iso_option :: "js_date option \<Rightarrow> timestamp option result" where
  "iso_option d = (case d of None \<Rightarrow> Inr None | Some x \<Rightarrow> mapR Some (toISOString x))"

definition Promotion_toResponse :: "timestamp \<Rightarrow> promotion \<Rightarrow> promotion_response result" where
  "Promotion_toResponse now p =
     andThen (iso_option (pm_startDate p)) (\<lambda>start.
     andThen (iso_option (pm_endDate p)) (\<lambda>stop.
       Inr \<lparr>prr_botEligible = pm_botEligible p, prr_id = pm_id p, prr_title = pm_title p,
            prr_type = pm_type p, prr_method = pm_method p,
            prr_status = getEffectiveStatus now p, prr_startDate = start, prr_endDate = stop,
            prr_customerScope = pm_customerScope p, prr_discountType = pm_discountType p,
            prr_discountValue = pm_discountValue p,
            prr_minPurchaseAmountCents = pm_minPurchaseAmountCents p,
            prr_appliesTo = pm_appliesTo p, prr_buyQuantity = pm_buyQuantity p,
            prr_getQuantity = pm_getQuantity p, prr_getDiscountPercent = pm_getDiscountPercent p,
            prr_buyTargetType = pm_buyTargetType p, prr_getTargetType = pm_getTargetType p,
            prr_maxProductUnits = pm_maxProductUnits p,
            prr_consumedProductUnits = pm_consumedProductUnits p,
            prr_remainingProductUnits = remainingProductUnits p,
            prr_targetItems = pm_targetItems p, prr_customers = pm_customers p,
            prr_priceLists = pm_priceLists p, prr_daysOfWeek = pm_daysOfWeek p,
            prr_createdAt = pm_createdAt p, prr_updatedAt = pm_updatedAt p\<rparr>))"

subsection \<open>What the validation admits\<close>

lemma requireField_ok [result_simps]: "requireField v f t = Inr x \<longleftrightarrow> v = Some x"
  by (cases v) (auto simp: requireField_def)

lemma forbidField_ok [result_simps]: "forbidField v f t = Inr u \<longleftrightarrow> v = None"
  by (auto simp: forbidField_def result_simps)

text \<open>
  The shape of each type: the fields it requires, within their bounds, and the
  fields it must not have.
\<close>

fun discount_ok :: "promo_discount_type option \<Rightarrow> int option \<Rightarrow> bool" where
  "discount_ok (Some PromoPercentage) (Some v) = (1 \<le> v \<and> v \<le> 100)"
| "discount_ok (Some PromoFixed) (Some v) = (0 < v)"
| "discount_ok _ _ = False"

fun quantity_ok :: "int option \<Rightarrow> bool" where
  "quantity_ok (Some n) = (1 \<le> n)"
| "quantity_ok None = False"

fun percent_ok :: "int option \<Rightarrow> bool" where
  "percent_ok (Some n) = (0 \<le> n \<and> n \<le> 100)"
| "percent_ok None = False"

definition promotion_shape :: "promotion \<Rightarrow> bool" where
  "promotion_shape p =
     (case pm_type p of
        ProductDiscount \<Rightarrow>
          discount_ok (pm_discountType p) (pm_discountValue p) \<and> pm_appliesTo p \<noteq> None \<and>
          pm_buyQuantity p = None \<and> pm_getQuantity p = None \<and> pm_getDiscountPercent p = None \<and>
          pm_minPurchaseAmountCents p = None \<and> pm_buyTargetType p = None \<and> pm_getTargetType p = None
      | OrderDiscount \<Rightarrow>
          discount_ok (pm_discountType p) (pm_discountValue p) \<and> pm_appliesTo p = None \<and>
          pm_buyQuantity p = None \<and> pm_getQuantity p = None \<and> pm_getDiscountPercent p = None \<and>
          pm_buyTargetType p = None \<and> pm_getTargetType p = None
      | BuyXGetY \<Rightarrow>
          quantity_ok (pm_buyQuantity p) \<and> quantity_ok (pm_getQuantity p) \<and>
          percent_ok (pm_getDiscountPercent p) \<and> pm_discountType p = None \<and>
          pm_discountValue p = None \<and> pm_minPurchaseAmountCents p = None \<and>
          pm_buyTargetType p = None \<and> pm_getTargetType p = None
      | Advanced \<Rightarrow>
          quantity_ok (pm_buyQuantity p) \<and> quantity_ok (pm_getQuantity p) \<and>
          percent_ok (pm_getDiscountPercent p) \<and> pm_appliesTo p = None \<and>
          pm_discountType p = None \<and> pm_discountValue p = None \<and>
          pm_minPurchaseAmountCents p = None)"

text \<open>The counter lies between zero and the cap, within the column.\<close>

definition capacity_ok :: "promotion \<Rightarrow> bool" where
  "capacity_ok p \<longleftrightarrow>
     0 \<le> pm_consumedProductUnits p \<and> pm_consumedProductUnits p \<le> MAX_PRODUCT_UNITS \<and>
     (\<forall>m. pm_maxProductUnits p = Some m \<longrightarrow>
        1 \<le> m \<and> m \<le> MAX_PRODUCT_UNITS \<and> pm_consumedProductUnits p \<le> m)"

lemma outside_units_iff:
  "\<not> outside_units low n \<longleftrightarrow> (\<exists>k. n = JsInt k \<and> low \<le> k \<and> k \<le> MAX_PRODUCT_UNITS)"
  by (cases n) auto

lemma validateCapacity_ok:
  assumes "validateProductUnitCapacity cap consumed = Inr u"
  shows "\<exists>c. consumed = JsInt c \<and> 0 \<le> c \<and> c \<le> MAX_PRODUCT_UNITS \<and>
    (\<forall>n. cap = Some n \<longrightarrow> (\<exists>m. n = JsInt m \<and> 1 \<le> m \<and> m \<le> MAX_PRODUCT_UNITS \<and> c \<le> m))"
proof -
  have "\<not> outside_units 0 consumed" and "\<forall>n. cap = Some n \<longrightarrow> \<not> outside_units 1 n"
    and le: "\<forall>n. cap = Some n \<longrightarrow> js_trunc consumed \<le> js_trunc n"
    using assms by (auto simp: validateProductUnitCapacity_def not_less split: if_splits option.splits)
  then show ?thesis
    unfolding outside_units_iff by fastforce
qed

lemma validateDiscountValue_ok [result_simps]:
  "validateDiscountValue t v = Inr u \<longleftrightarrow> discount_ok (Some t) (Some v)"
  by (cases t) (auto simp: validateDiscountValue_def result_simps)

lemma validateByType_shape:
  assumes "validateByType p = Inr u"
    and "pm_type q = cpp_type p" "pm_discountType q = cpp_discountType p"
    "pm_discountValue q = cpp_discountValue p" "pm_appliesTo q = cpp_appliesTo p"
    "pm_minPurchaseAmountCents q = cpp_minPurchaseAmountCents p"
    "pm_buyQuantity q = cpp_buyQuantity p" "pm_getQuantity q = cpp_getQuantity p"
    "pm_getDiscountPercent q = cpp_getDiscountPercent p"
    "pm_buyTargetType q = cpp_buyTargetType p" "pm_getTargetType q = cpp_getTargetType p"
  shows "promotion_shape q"
  using assms
  by (cases "cpp_type p")
    (auto simp: validateByType_def promotion_shape_def result_simps
      validateQuantityField_def validateGetDiscountPercent_def Let_def)

text \<open>Bot eligibility in closed form.\<close>

lemma bot_supported_iff:
  "assertBotEligibilitySupported p = Inr u \<longleftrightarrow>
     cpp_method p = Automatic \<and>
     (cpp_type p = ProductDiscount \<or> cpp_type p = BuyXGetY \<longrightarrow> cpp_appliesTo p \<noteq> None)"
  by (cases "cpp_type p"; cases "cpp_method p"; cases "cpp_appliesTo p";
      cases "the (cpp_appliesTo p)"; cases "or_default (cpp_customerScope p) ScopeAll")
    (simp_all add: assertBotEligibilitySupported_def unsupportedCondition_def bot_conditions_def
      BOT_ELIGIBILITY_RULES_def bot_rule_def Let_def)

lemma derive_is_effective:
  assumes "validateDateRange (pm_startDate p) (pm_endDate p) = Inr u" and "\<not> pm_manuallyEnded p"
  shows "deriveStatus (pm_startDate p) (pm_endDate p) now = getEffectiveStatus now p"
  using assms
  by (cases "pm_startDate p"; cases "pm_endDate p"; cases "the (pm_startDate p)"; cases "the (pm_endDate p)")
    (auto simp: deriveStatus_def getEffectiveStatus_def validateDateRange_def result_simps)

fun promo_rank :: "promotion_status \<Rightarrow> nat" where
  "promo_rank PromoScheduled = 0"
| "promo_rank PromoActive = 1"
| "promo_rank PromoEnded = 2"

lemma effective_status_mono:
  "t \<le> t' \<Longrightarrow> promo_rank (getEffectiveStatus t p) \<le> promo_rank (getEffectiveStatus t' p)"
  by (cases "pm_startDate p"; cases "pm_endDate p"; cases "the (pm_startDate p)"; cases "the (pm_endDate p)")
    (auto simp: getEffectiveStatus_def)

text \<open>Time as the steps of a lifecycle: a promotion seen by a clock that does not go back.\<close>

definition clock_step :: "timestamp \<times> promotion \<Rightarrow> timestamp \<times> promotion \<Rightarrow> bool" where
  "clock_step a b \<longleftrightarrow> snd b = snd a \<and> fst a \<le> fst b"

definition seen_rank :: "timestamp \<times> promotion \<Rightarrow> nat" where
  "seen_rank a = promo_rank (getEffectiveStatus (fst a) (snd a))"

interpretation promo_clock: lifecycle clock_step seen_rank
  by unfold_locales (auto simp: clock_step_def seen_rank_def effective_status_mono)

lemma clock_steps: "t \<le> t' \<Longrightarrow> clock_step\<^sup>*\<^sup>* (t, p) (t', p)"
  by (rule r_into_rtranclp) (simp add: clock_step_def)

subsection \<open>Properties\<close>

definition sample_params :: create_promotion_params where
  "sample_params =
     \<lparr>cpp_botEligible = Some True, cpp_priceLists = None, cpp_daysOfWeek = None, cpp_id = ''p1'',
      cpp_title = '' Summer '', cpp_type = ProductDiscount, cpp_method = Automatic,
      cpp_manuallyEnded = None, cpp_startDate = Some (ValidDate 10),
      cpp_endDate = Some (ValidDate 20), cpp_customerScope = None,
      cpp_discountType = Some PromoPercentage, cpp_discountValue = Some 10,
      cpp_minPurchaseAmountCents = None, cpp_appliesTo = Some TargetProducts,
      cpp_buyQuantity = None, cpp_getQuantity = None, cpp_getDiscountPercent = None,
      cpp_buyTargetType = None, cpp_getTargetType = None,
      cpp_maxProductUnits = Some (JsInt 5), cpp_consumedProductUnits = None\<rparr>"

definition sample_promotion :: promotion where
  "sample_promotion =
     (case Promotion_create 12 sample_params of Inr q \<Rightarrow> q | Inl _ \<Rightarrow> undefined)"

lemma sample_promotion_created: "Promotion_create 12 sample_params = Inr sample_promotion"
  by (simp add: sample_promotion_def Promotion_create_def sample_params_def trim_def is_js_space_def
      validateDateRange_def assertBotEligibilitySupported_def unsupportedCondition_def
      bot_conditions_def BOT_ELIGIBILITY_RULES_def bot_rule_def validateByType_def requireField_def
      forbidField_def validateDiscountValue_def validateProductUnitCapacity_def
      MAX_PRODUCT_UNITS_def Let_def)

lemma Promotion_create_fields:
  assumes "Promotion_create now p = Inr q"
  shows "pm_title q = trim (cpp_title p)" "pm_startDate q = cpp_startDate p"
    "pm_endDate q = cpp_endDate p" "pm_manuallyEnded q = or_default (cpp_manuallyEnded p) False"
    "pm_status q = (if or_default (cpp_manuallyEnded p) False then PromoEnded
       else deriveStatus (cpp_startDate p) (cpp_endDate p) now)"
    "pm_botEligible q = or_default (cpp_botEligible p) False" "pm_method q = cpp_method p"
    "pm_type q = cpp_type p" "pm_appliesTo q = cpp_appliesTo p"
    "pm_maxProductUnits q = map_option js_trunc (cpp_maxProductUnits p)"
    "pm_consumedProductUnits q = js_trunc (or_default (cpp_consumedProductUnits p) (JsInt 0))"
  using assms by (auto simp: Promotion_create_def Let_def result_simps split: if_splits)

lemma sample_promotion_fields:
  "pm_consumedProductUnits sample_promotion = 0" "pm_maxProductUnits sample_promotion = Some 5"
  "pm_startDate sample_promotion = Some (ValidDate 10)" "pm_manuallyEnded sample_promotion = False"
  "pm_endDate sample_promotion = Some (ValidDate 20)"
  by (simp_all add: Promotion_create_fields [OF sample_promotion_created])
    (simp_all add: sample_params_def)

text \<open>
  Property C40: a promotion that is created is well formed.  It has the fields of
  its type within their bounds and none of the other types' fields, a trimmed
  title, a capacity that covers the units consumed, a stored status equal to the
  status read at creation, and it is offered to the bot only if it is automatic and
  has a target kind where its type needs one.
\<close>

theorem promotion_create_sound:
  assumes "Promotion_create now p = Inr q"
  shows "promotion_shape q \<and> capacity_ok q \<and> pm_title q \<noteq> [] \<and> trim (pm_title q) = pm_title q \<and>
    pm_status q = getEffectiveStatus now q \<and>
    (pm_botEligible q \<longrightarrow> pm_method q = Automatic \<and>
       (pm_type q = ProductDiscount \<or> pm_type q = BuyXGetY \<longrightarrow> pm_appliesTo q \<noteq> None))"
proof -
  from assms obtain u1 u2 u3 u4 where
    title: "trim (cpp_title p) \<noteq> []" and
    range: "validateDateRange (cpp_startDate p) (cpp_endDate p) = Inr u1" and
    bot: "or_default (cpp_botEligible p) False \<longrightarrow> assertBotEligibilitySupported p = Inr u2" and
    shape: "validateByType p = Inr u3" and
    cap: "validateProductUnitCapacity (cpp_maxProductUnits p)
            (or_default (cpp_consumedProductUnits p) (JsInt 0)) = Inr u4"
    by (auto simp: Promotion_create_def Let_def result_simps split: if_splits)
  note q = Promotion_create_fields [OF assms]
  have "promotion_shape q"
    using shape assms
    by (rule_tac validateByType_shape)
      (auto simp: Promotion_create_def Let_def result_simps split: if_splits)
  moreover have "capacity_ok q"
    using validateCapacity_ok [OF cap] by (auto simp: capacity_ok_def q)
  moreover have "pm_status q = getEffectiveStatus now q"
    using range derive_is_effective [of q u1 now] by (auto simp: q getEffectiveStatus_def)
  ultimately show ?thesis
    using title bot by (auto simp: q bot_supported_iff)
qed

theorem promotion_create_sound_witness:
  "promotion_shape sample_promotion \<and> capacity_ok sample_promotion \<and>
   pm_status sample_promotion = PromoActive"
  using promotion_create_sound [OF sample_promotion_created]
  by (simp add: getEffectiveStatus_def sample_promotion_fields)

text \<open>
  As time passes a promotion is scheduled, then active, then ended,
  and never goes back; one that the operator ended is ended at every later or
  earlier reading.
\<close>

theorem promotion_status_forward:
  assumes "t \<le> t'"
  shows "promo_rank (getEffectiveStatus t p) \<le> promo_rank (getEffectiveStatus t' p) \<and>
    getEffectiveStatus t (Promotion_end now p) = PromoEnded"
  using promo_clock.phase_mono [OF clock_steps [OF assms, of p]]
  by (auto simp: seen_rank_def Promotion_end_def getEffectiveStatus_def)

theorem promotion_status_forward_witness:
  "(5::int) \<le> 15 \<and> promo_rank (getEffectiveStatus 5 sample_promotion)
     \<le> promo_rank (getEffectiveStatus 15 sample_promotion)"
  using promotion_status_forward [of 5 15 sample_promotion] by simp

text \<open>
  Activating an ended promotion revives it, and activating one that
  is not ended does nothing.  When \<open>activate\<close> reports a change the promotion is no
  longer ended, its stored status is the one read at that moment, and a second call
  reports no change; when it reports none the promotion is untouched and was not
  ended.
\<close>

theorem activate_revives:
  shows "case Promotion_activate now wall p of (changed, q) \<Rightarrow>
    (changed \<longleftrightarrow> getEffectiveStatus now p = PromoEnded \<or>
       pm_manuallyEnded p \<or> (\<exists>e. pm_endDate p = Some e \<and> date_less e (ValidDate now))) \<and>
    getEffectiveStatus now q \<noteq> PromoEnded \<and>
    Promotion_activate now wall q = (False, q) \<and>
    (if changed then pm_status q = getEffectiveStatus now q else q = p)"
  by (auto simp: Promotion_activate_def getEffectiveStatus_def recomputeStatus_def Let_def
      split: option.splits if_splits)

text \<open>
  The capacity of a promotion.  The cap an operator sets is an
  integer within the column that covers what was already consumed, so the
  remaining units stay non-negative; a cap below the units consumed is refused.
\<close>

theorem capacity_update_safe:
  assumes "capacity_ok p"
  shows "(case updateMaxProductUnits cap p of
      Inr q \<Rightarrow> capacity_ok q \<and> pm_consumedProductUnits q = pm_consumedProductUnits p \<and>
        (\<forall>r. remainingProductUnits q = Some r \<longrightarrow> 0 \<le> r \<and> r \<le> MAX_PRODUCT_UNITS)
    | Inl e \<Rightarrow> cap \<noteq> None) \<and>
    (\<forall>m. cap = Some (JsInt m) \<and> m < pm_consumedProductUnits p \<longrightarrow>
      (\<exists>e. updateMaxProductUnits cap p = Inl e))"
proof -
  have ok: "capacity_ok q \<and> pm_consumedProductUnits q = pm_consumedProductUnits p"
    if "updateMaxProductUnits cap p = Inr q" for q
  proof -
    from that obtain u where
      "validateProductUnitCapacity cap (JsInt (pm_consumedProductUnits p)) = Inr u"
      and "q = p\<lparr>pm_maxProductUnits := map_option js_trunc cap\<rparr>"
      by (auto simp: updateMaxProductUnits_def result_simps)
    with validateCapacity_ok [of cap] assms show ?thesis
      by (fastforce simp: capacity_ok_def)
  qed
  have rem: "0 \<le> r \<and> r \<le> MAX_PRODUCT_UNITS"
    if "capacity_ok q" and "remainingProductUnits q = Some r" for q r
    using that by (auto simp: capacity_ok_def remainingProductUnits_def)
  have free: "cap \<noteq> None" if "updateMaxProductUnits cap p = Inl e" for e
    using that assms by (auto simp: updateMaxProductUnits_def validateProductUnitCapacity_def
        result_simps capacity_ok_def split: if_splits option.splits)
  have "\<exists>e. updateMaxProductUnits cap p = Inl e"
    if "cap = Some (JsInt m)" and "m < pm_consumedProductUnits p" for m
  proof (cases "updateMaxProductUnits cap p")
    case (Inr q)
    then obtain u where "validateProductUnitCapacity cap (JsInt (pm_consumedProductUnits p)) = Inr u"
      by (auto simp: updateMaxProductUnits_def result_simps)
    from validateCapacity_ok [OF this] that show ?thesis by simp
  qed simp
  with ok rem free show ?thesis by (auto split: sum.splits)
qed

theorem capacity_update_safe_witness:
  "capacity_ok sample_promotion \<and>
   (\<exists>q. updateMaxProductUnits (Some (JsInt 9)) sample_promotion = Inr q \<and> capacity_ok q)"
proof -
  have ok: "capacity_ok sample_promotion"
    by (simp add: capacity_ok_def sample_promotion_fields MAX_PRODUCT_UNITS_def)
  have "\<exists>q. updateMaxProductUnits (Some (JsInt 9)) sample_promotion = Inr q"
    by (simp add: updateMaxProductUnits_def validateProductUnitCapacity_def MAX_PRODUCT_UNITS_def
        sample_promotion_fields)
  then show ?thesis
    using capacity_update_safe [OF ok, of "Some (JsInt 9)"] ok by auto
qed

end
