(* ===== verification/PromotionEngine.thy ===== *)
theory PromotionEngine
  imports Promotion
begin

section \<open>The promotion engine\<close>

text \<open>
  \<open>src/src/promotions/application/pos-evaluate-promotions.use-case.ts\<close> and the
  data of its port \<open>ports/pos-evaluate-promotions.port.ts\<close>.  One evaluation takes
  the promotions the repository returned and a cart, and runs the passes of the
  code in their order: product discounts line by line, buy-x-get-y line by line,
  the cross-line advanced promotions, the order discount, the manual surface, and
  the loop that excludes promotions whose demand overruns their capacity.

  A loop body that may \<open>continue\<close> is a function to an option, the loop is
  \<open>map_filter\<close> or \<open>foldl\<close> of it.  The weekday of an instant in the business time
  zone comes from \<open>Intl.DateTimeFormat\<close> and a configured zone: it is the argument
  \<open>weekday\<close>.  Buy and get quantities are positive, as the entity's validation
  makes them; the quotients by zero that JavaScript would turn into \<open>Infinity\<close>
  are outside the model.
\<close>

subsection \<open>Data of the port\<close>

record pos_eval_line =
  pel_itemId :: ident
  pel_productId :: ident
  pel_variantId :: "ident option"
  pel_quantity :: int
  pel_effectiveUnitPriceCents :: cents
  pel_appliedPriceListId :: "ident option"
  pel_appliedGlobalPriceListId :: "ident option"
  pel_categoryId :: "ident option"
  pel_brandId :: "ident option"
  pel_hasManualDiscount :: bool

record pos_eval_input =
  pei_botEligibleOnly :: bool
  pei_treatCustomerAsUnregistered :: bool
  pei_now :: timestamp
  pei_customerId :: "ident option"
  pei_lines :: "pos_eval_line list"
  pei_vetoedPromotionIds :: "ident list"
  pei_optedInManualPromotionIds :: "ident list"

text \<open>The three kinds of line result, told apart by \<open>kind\<close>.\<close>

datatype line_result =
    PerUnitResult (lr_itemId: ident) (lr_promotionId: ident) (lr_discountType: discount_kind)
      (lr_discountValue: int) (lr_title: string)
  | BuyXGetYResult (lr_itemId: ident) (lr_promotionId: ident) (lr_title: string)
      (lr_lineDiscountCents: int) (lr_perUnitRewardCents: int) (lr_discountedUnitCount: int)
      (lr_getDiscountPercent: int)
  | AdvancedResult (lr_itemId: ident) (lr_promotionId: ident) (lr_title: string)
      (lr_lineDiscountCents: int) (lr_perUnitRewardCents: int) (lr_discountedUnitCount: int)
      (lr_getDiscountPercent: int)

record order_result =
  orr_promotionId :: ident
  orr_discountType :: discount_kind
  orr_discountValue :: int
  orr_discountTitle :: string
  orr_discountAmountCents :: cents

record manual_candidate =
  mnc_id :: ident
  mnc_title :: string
  mnc_type :: promotion_type
  mnc_eligible :: bool
  mnc_buyQuantity :: "int option"
  mnc_getQuantity :: "int option"
  mnc_unitsNeeded :: int

text \<open>A demand is a promotion id with its units.\<close>

record pos_eval_result =
  per_lines :: "line_result list"
  per_order :: "order_result option"
  per_availableManualPromotions :: "manual_candidate list"
  per_targetableManualPromotionIds :: "ident list"
  per_promotionCapacityDemands :: "(ident \<times> int) list"
  per_capacityExcludedPromotionIds :: "ident list"

subsection \<open>Pure helpers\<close>

fun clampPercentageToSafeRange :: "js_number \<Rightarrow> int" where
  "clampPercentageToSafeRange JsNotFinite = 1"
| "clampPercentageToSafeRange n = min (max (js_trunc n) 1) 99"

record bxgy_reward =
  bxr_rewardGroups :: int
  bxr_discountedUnitCount :: int
  bxr_perUnitRewardCents :: cents
  bxr_lineDiscountCents :: cents

definition computeBuyXGetYReward :: "int \<Rightarrow> cents \<Rightarrow> int \<Rightarrow> int \<Rightarrow> int \<Rightarrow> bxgy_reward" where
  "computeBuyXGetYReward quantity price buyQ getQ percent =
     (let groups = quantity div (buyQ + getQ);
          units = groups * getQ;
          perUnit = round_percent price percent
      in \<lparr>bxr_rewardGroups = groups, bxr_discountedUnitCount = units,
          bxr_perUnitRewardCents = perUnit, bxr_lineDiscountCents = units * perUnit\<rparr>)"

record get_candidate =
  gtc_itemId :: ident
  gtc_price :: cents
  gtc_quantity :: int

record advanced_reward =
  avr_itemId :: ident
  avr_discountedUnitCount :: int
  avr_perUnitRewardCents :: cents
  avr_lineDiscountCents :: cents

text \<open>The allocation loop: \<open>break\<close> when the pool is empty, \<open>continue\<close> on a line without units.\<close>

fun allocate :: "int \<Rightarrow> int \<Rightarrow> get_candidate list \<Rightarrow> advanced_reward list" where
  "allocate percent remaining [] = []"
| "allocate percent remaining (l # ls) =
     (if remaining \<le> 0 then []
      else
        let units = min (gtc_quantity l) remaining in
        if units \<le> 0 then allocate percent remaining ls
        else
          let perUnit = round_percent (gtc_price l) percent in
          \<lparr>avr_itemId = gtc_itemId l, avr_discountedUnitCount = units,
           avr_perUnitRewardCents = perUnit, avr_lineDiscountCents = units * perUnit\<rparr>
          # allocate percent (remaining - units) ls)"

definition computeAdvancedReward ::
  "int \<Rightarrow> int \<Rightarrow> int \<Rightarrow> int \<Rightarrow> get_candidate list \<Rightarrow> int \<times> advanced_reward list" where
  "computeAdvancedReward totalBuy buyQ getQ percent cands =
     (let groups = totalBuy div buyQ in
      if groups = 0 then (0, [])
      else (groups, allocate percent (groups * getQ) (sort_key gtc_itemId cands)))"

datatype match_tier = TierVariant | TierProduct | TierCategory | TierBrand

definition target_hit ::
  "promotion_target list \<Rightarrow> target_side \<Rightarrow> promotion_target_type \<Rightarrow> ident option \<Rightarrow> bool" where
  "target_hit targets side t x \<longleftrightarrow>
     (case x of None \<Rightarrow> False
      | Some i \<Rightarrow> \<exists>ti\<in>set targets. ptg_side ti = side \<and> ptg_targetType ti = t \<and> ptg_targetId ti = i)"

definition matchTargetTier ::
  "promotion_target list \<Rightarrow> pos_eval_line \<Rightarrow> target_side \<Rightarrow> match_tier option" where
  "matchTargetTier targets line side =
     (if target_hit targets side TargetVariants (pel_variantId line) then Some TierVariant
      else if target_hit targets side TargetProducts (Some (pel_productId line)) then Some TierProduct
      else if target_hit targets side TargetCategories (pel_categoryId line) then Some TierCategory
      else if target_hit targets side TargetBrands (pel_brandId line) then Some TierBrand
      else None)"

text \<open>\<open>map.set(id, (map.get(id) ?? 0) + units)\<close>\<close>

definition add_units :: "ident \<Rightarrow> int \<Rightarrow> (ident \<times> int) list \<Rightarrow> (ident \<times> int) list" where
  "add_units p units m = assoc_set m p (or_default (assoc_get m p) 0 + units)"

fun add_result_units ::
  "pos_eval_line list \<Rightarrow> (ident \<times> int) list \<Rightarrow> line_result \<Rightarrow> (ident \<times> int) list" where
  "add_result_units lines m (PerUnitResult i p t v title) =
     (case find (\<lambda>l. pel_itemId l = i) lines of
        None \<Rightarrow> m | Some l \<Rightarrow> add_units p (pel_quantity l) m)"
| "add_result_units lines m (BuyXGetYResult i p title r u n pc) = add_units p n m"
| "add_result_units lines m (AdvancedResult i p title r u n pc) = add_units p n m"

definition computePromotionCapacityDemands ::
  "pos_eval_line list \<Rightarrow> line_result list \<Rightarrow> order_result option \<Rightarrow> (ident \<times> int) list" where
  "computePromotionCapacityDemands lines results order =
     (let m = foldl (add_result_units lines) [] results;
          m' = (case order of
                  None \<Rightarrow> m
                | Some o' \<Rightarrow> add_units (orr_promotionId o') (\<Sum>l\<leftarrow>lines. pel_quantity l) m)
      in sort_key fst (filter (\<lambda>(p, units). 0 < units) m'))"

definition matchesPriceList :: "promotion \<Rightarrow> pos_eval_line \<Rightarrow> bool" where
  "matchesPriceList promo line \<longleftrightarrow>
     pm_priceLists promo = [] \<or>
     (case pel_appliedGlobalPriceListId line of
        None \<Rightarrow> False | Some g \<Rightarrow> g \<in> set (pm_priceLists promo))"

subsection \<open>Eligibility\<close>

definition isSupportedEngineType :: "promotion \<Rightarrow> bool" where
  "isSupportedEngineType promo =
     (case pm_type promo of
        OrderDiscount \<Rightarrow> True
      | ProductDiscount \<Rightarrow> pm_appliesTo promo \<noteq> None
      | BuyXGetY \<Rightarrow> pm_appliesTo promo \<noteq> None
      | Advanced \<Rightarrow> pm_buyTargetType promo \<noteq> None \<and> pm_getTargetType promo \<noteq> None)"

definition passesPromotionWideGates ::
  "(timestamp \<Rightarrow> day_of_week) \<Rightarrow> promotion \<Rightarrow> pos_eval_input \<Rightarrow> bool" where
  "passesPromotionWideGates weekday promo input =
     (if \<not> isSupportedEngineType promo then False
      else if getEffectiveStatus (pei_now input) promo \<noteq> PromoActive then False
      else if pm_daysOfWeek promo \<noteq> [] \<and> weekday (pei_now input) \<notin> set (pm_daysOfWeek promo)
        then False
      else if pm_customerScope promo = ScopeRegisteredOnly \<and>
              (pei_customerId input = None \<or> pei_treatCustomerAsUnregistered input) then False
      else if pm_customerScope promo = ScopeSpecific then
        (case pei_customerId input of None \<Rightarrow> False | Some c \<Rightarrow> c \<in> set (pm_customers promo))
      else True)"

text \<open>The opt-in and veto test shared by the line, buy-x-get-y and order passes.\<close>

definition method_admits :: "promotion \<Rightarrow> pos_eval_input \<Rightarrow> bool" where
  "method_admits promo input =
     (if pm_method promo = Manual
      then pm_id promo \<in> set (pei_optedInManualPromotionIds input) \<and>
           pm_id promo \<notin> set (pei_vetoedPromotionIds input)
      else pm_id promo \<notin> set (pei_vetoedPromotionIds input))"

subsection \<open>Product discounts, line by line\<close>

text \<open>
  The discount value is an \<open>Int\<close> column, so the \<open>Number.isInteger\<close> test of the code always
  passes and has no counterpart here.
\<close>

record per_line_candidate =
  plc_promotion :: promotion
  plc_discountCents :: cents
  plc_tier :: match_tier

definition computeLineDiscountCents :: "promotion \<Rightarrow> cents \<Rightarrow> cents" where
  "computeLineDiscountCents promo baseline =
     (case (pm_discountType promo, pm_discountValue promo) of
        (Some t, Some v) \<Rightarrow>
          if baseline \<le> 0 then 0
          else (case t of
              PromoPercentage \<Rightarrow> round_percent baseline (clampPercentageToSafeRange (JsInt v))
            | PromoFixed \<Rightarrow> if v \<le> 0 then 0 else min v baseline)
      | _ \<Rightarrow> 0)"

definition line_candidate ::
  "(timestamp \<Rightarrow> day_of_week) \<Rightarrow> pos_eval_input \<Rightarrow> pos_eval_line \<Rightarrow> promotion
     \<Rightarrow> per_line_candidate option" where
  "line_candidate weekday input line promo =
     (if \<not> method_admits promo input then None
      else if \<not> passesPromotionWideGates weekday promo input then None
      else if pm_type promo \<noteq> ProductDiscount then None
      else case matchTargetTier (pm_targetItems promo) line SideDefault of
          None \<Rightarrow> None
        | Some tier \<Rightarrow>
            if \<not> matchesPriceList promo line then None
            else
              let d = computeLineDiscountCents promo (pel_effectiveUnitPriceCents line) in
              if d \<le> 0 then None
              else Some \<lparr>plc_promotion = promo, plc_discountCents = d, plc_tier = tier\<rparr>)"

fun TIER_ORDINAL :: "match_tier \<Rightarrow> nat" where
  "TIER_ORDINAL TierVariant = 3"
| "TIER_ORDINAL TierProduct = 2"
| "TIER_ORDINAL TierBrand = 1"
| "TIER_ORDINAL TierCategory = 1"

definition pickBestByMaxDiscountThenLowestId ::
  "per_line_candidate list \<Rightarrow> per_line_candidate option" where
  "pickBestByMaxDiscountThenLowestId cs =
     pick_best plc_discountCents (\<lambda>c. pm_id (plc_promotion c)) None cs"

definition pickBestPerLine ::
  "(timestamp \<Rightarrow> day_of_week) \<Rightarrow> pos_eval_line \<Rightarrow> promotion list \<Rightarrow> pos_eval_input
     \<Rightarrow> per_line_candidate option" where
  "pickBestPerLine weekday line candidates input =
     (if pel_hasManualDiscount line then None
      else
        let eligible = List.map_filter (line_candidate weekday input line) candidates in
        if eligible = [] then None
        else
          let maxOrdinal = foldl (\<lambda>m c. max m (TIER_ORDINAL (plc_tier c))) 0 eligible in
          pickBestByMaxDiscountThenLowestId
            (filter (\<lambda>c. TIER_ORDINAL (plc_tier c) = maxOrdinal) eligible))"

definition toLineResult :: "ident \<Rightarrow> per_line_candidate \<Rightarrow> line_result" where
  "toLineResult itemId winner =
     (let promo = plc_promotion winner in
      if pm_discountType promo = Some PromoPercentage
      then PerUnitResult itemId (pm_id promo) PercentageDiscount
             (clampPercentageToSafeRange (JsInt (or_default (pm_discountValue promo) 1))) (pm_title promo)
      else PerUnitResult itemId (pm_id promo) AmountDiscount
             (or_default (pm_discountValue promo) 0) (pm_title promo))"

fun computeAppliedDiscountCents :: "pos_eval_line \<Rightarrow> line_result \<Rightarrow> cents" where
  "computeAppliedDiscountCents line (BuyXGetYResult i p title r u n pc) = r"
| "computeAppliedDiscountCents line (AdvancedResult i p title r u n pc) = r"
| "computeAppliedDiscountCents line (PerUnitResult i p t v title) =
     (case t of
        PercentageDiscount \<Rightarrow>
          round_percent (pel_effectiveUnitPriceCents line) (clampPercentageToSafeRange (JsInt v))
      | AmountDiscount \<Rightarrow> min v (pel_effectiveUnitPriceCents line))"

fun existingLineResultTotalCents :: "pos_eval_line \<Rightarrow> line_result option \<Rightarrow> cents" where
  "existingLineResultTotalCents line None = 0"
| "existingLineResultTotalCents line (Some (PerUnitResult i p t v title)) =
     computeAppliedDiscountCents line (PerUnitResult i p t v title) * pel_quantity line"
| "existingLineResultTotalCents line (Some (BuyXGetYResult i p title r u n pc)) = r"
| "existingLineResultTotalCents line (Some (AdvancedResult i p title r u n pc)) = r"

subsection \<open>Buy-x-get-y, line by line\<close>

record bxgy_candidate =
  bxc_promotion :: promotion
  bxc_lineDiscountCents :: cents
  bxc_perUnitRewardCents :: cents
  bxc_discountedUnitCount :: int
  bxc_getDiscountPercent :: int

definition bxgy_candidate_of ::
  "(timestamp \<Rightarrow> day_of_week) \<Rightarrow> pos_eval_input \<Rightarrow> pos_eval_line \<Rightarrow> promotion
     \<Rightarrow> bxgy_candidate option" where
  "bxgy_candidate_of weekday input line promo =
     (if pm_type promo \<noteq> BuyXGetY then None
      else if \<not> method_admits promo input then None
      else if \<not> passesPromotionWideGates weekday promo input then None
      else if matchTargetTier (pm_targetItems promo) line SideDefault = None then None
      else if \<not> matchesPriceList promo line then None
      else case (pm_buyQuantity promo, pm_getQuantity promo, pm_getDiscountPercent promo) of
          (Some buyQ, Some getQ, Some percent) \<Rightarrow>
            if pel_quantity line < buyQ then None
            else
              let r = computeBuyXGetYReward (pel_quantity line) (pel_effectiveUnitPriceCents line)
                        buyQ getQ percent in
              if bxr_lineDiscountCents r \<le> 0 then None
              else Some \<lparr>bxc_promotion = promo, bxc_lineDiscountCents = bxr_lineDiscountCents r,
                         bxc_perUnitRewardCents = bxr_perUnitRewardCents r,
                         bxc_discountedUnitCount = bxr_discountedUnitCount r,
                         bxc_getDiscountPercent = percent\<rparr>
        | _ \<Rightarrow> None)"

definition pickBestBuyXGetYPerLine ::
  "(timestamp \<Rightarrow> day_of_week) \<Rightarrow> pos_eval_line \<Rightarrow> promotion list \<Rightarrow> pos_eval_input
     \<Rightarrow> bxgy_candidate option" where
  "pickBestBuyXGetYPerLine weekday line candidates input =
     (if pel_hasManualDiscount line then None
      else pick_best bxc_lineDiscountCents (\<lambda>c. pm_id (bxc_promotion c)) None
             (List.map_filter (bxgy_candidate_of weekday input line) candidates))"

fun is_bxgy_result :: "line_result \<Rightarrow> bool" where
  "is_bxgy_result (BuyXGetYResult i p title r u n pc) = True"
| "is_bxgy_result _ = False"

definition result_of_item :: "ident \<Rightarrow> line_result list \<Rightarrow> line_result option" where
  "result_of_item i results = find (\<lambda>r. lr_itemId r = i) results"

definition put_result :: "line_result \<Rightarrow> line_result list \<Rightarrow> line_result list" where
  "put_result r results = replace_or_push (\<lambda>x. lr_itemId x = lr_itemId r) r results"

definition bxgy_line ::
  "(timestamp \<Rightarrow> day_of_week) \<Rightarrow> promotion list \<Rightarrow> pos_eval_input
     \<Rightarrow> line_result list \<Rightarrow> pos_eval_line \<Rightarrow> line_result list" where
  "bxgy_line weekday candidates input results line =
     (if pel_hasManualDiscount line then results
      else
        let existing = result_of_item (pel_itemId line) results;
            existingPd =
              (case existing of None \<Rightarrow> None
               | Some e \<Rightarrow> if is_bxgy_result e then None else Some e)
        in case pickBestBuyXGetYPerLine weekday line candidates input of
             None \<Rightarrow> results
           | Some w \<Rightarrow>
               let pdPerUnit = (case existingPd of None \<Rightarrow> 0
                                | Some e \<Rightarrow> computeAppliedDiscountCents line e);
                   pdTotal = pdPerUnit * pel_quantity line;
                   total = bxc_lineDiscountCents w;
                   wins = (pdTotal < total \<or>
                           total = pdTotal \<and>
                           (case existingPd of None \<Rightarrow> True
                            | Some e \<Rightarrow> pm_id (bxc_promotion w) < lr_promotionId e))
               in if \<not> wins then results
                  else put_result
                    (BuyXGetYResult (pel_itemId line) (pm_id (bxc_promotion w))
                      (pm_title (bxc_promotion w)) (bxc_lineDiscountCents w)
                      (bxc_perUnitRewardCents w) (bxc_discountedUnitCount w)
                      (bxc_getDiscountPercent w)) results)"

definition evaluateBuyXGetYPass ::
  "(timestamp \<Rightarrow> day_of_week) \<Rightarrow> pos_eval_line list \<Rightarrow> promotion list \<Rightarrow> pos_eval_input
     \<Rightarrow> line_result list \<Rightarrow> line_result list" where
  "evaluateBuyXGetYPass weekday lines candidates input results =
     foldl (bxgy_line weekday candidates input) results lines"

subsection \<open>Advanced promotions, across lines\<close>

definition on_side :: "promotion \<Rightarrow> target_side \<Rightarrow> pos_eval_line \<Rightarrow> bool" where
  "on_side promo side line \<longleftrightarrow>
     \<not> pel_hasManualDiscount line \<and> matchesPriceList promo line \<and>
     matchTargetTier (pm_targetItems promo) line side \<noteq> None"

definition buy_lines :: "promotion \<Rightarrow> pos_eval_line list \<Rightarrow> pos_eval_line list" where
  "buy_lines promo lines = filter (on_side promo SideBuy) lines"

definition get_lines :: "promotion \<Rightarrow> pos_eval_line list \<Rightarrow> get_candidate list" where
  "get_lines promo lines =
     map (\<lambda>l. \<lparr>gtc_itemId = pel_itemId l, gtc_price = pel_effectiveUnitPriceCents l,
               gtc_quantity = pel_quantity l\<rparr>)
       (filter (\<lambda>l. on_side promo SideGet l \<and>
                    pel_itemId l \<notin> pel_itemId ` set (buy_lines promo lines)) lines)"

definition apply_advanced_reward ::
  "pos_eval_line list \<Rightarrow> promotion \<Rightarrow> int \<Rightarrow> line_result list \<Rightarrow> advanced_reward
     \<Rightarrow> line_result list" where
  "apply_advanced_reward lines promo percent results r =
     (if avr_lineDiscountCents r \<le> 0 then results
      else case find (\<lambda>l. pel_itemId l = avr_itemId r) lines of
          None \<Rightarrow> results
        | Some line \<Rightarrow>
            let existing = result_of_item (avr_itemId r) results;
                existingTotal = existingLineResultTotalCents line existing;
                wins = (existingTotal < avr_lineDiscountCents r \<or>
                        avr_lineDiscountCents r = existingTotal \<and>
                        (case existing of None \<Rightarrow> True
                         | Some e \<Rightarrow> pm_id promo < lr_promotionId e))
            in if \<not> wins then results
               else put_result
                 (AdvancedResult (avr_itemId r) (pm_id promo) (pm_title promo)
                   (avr_lineDiscountCents r) (avr_perUnitRewardCents r)
                   (avr_discountedUnitCount r) percent) results)"

definition advanced_promo ::
  "(timestamp \<Rightarrow> day_of_week) \<Rightarrow> pos_eval_line list \<Rightarrow> pos_eval_input
     \<Rightarrow> line_result list \<Rightarrow> promotion \<Rightarrow> line_result list" where
  "advanced_promo weekday lines input results promo =
     (if pm_type promo \<noteq> Advanced then results
      else if pm_method promo \<noteq> Automatic then results
      else if pm_id promo \<in> set (pei_vetoedPromotionIds input) then results
      else if \<not> passesPromotionWideGates weekday promo input then results
      else case (pm_buyQuantity promo, pm_getQuantity promo, pm_getDiscountPercent promo) of
          (Some buyQ, Some getQ, Some percent) \<Rightarrow>
            let totalBuy = (\<Sum>l\<leftarrow>buy_lines promo lines. pel_quantity l) in
            if totalBuy div buyQ = 0 then results
            else if get_lines promo lines = [] then results
            else foldl (apply_advanced_reward lines promo percent) results
                   (snd (computeAdvancedReward totalBuy buyQ getQ percent (get_lines promo lines)))
        | _ \<Rightarrow> results)"

definition evaluateAdvancedPass ::
  "(timestamp \<Rightarrow> day_of_week) \<Rightarrow> pos_eval_line list \<Rightarrow> promotion list \<Rightarrow> pos_eval_input
     \<Rightarrow> line_result list \<Rightarrow> line_result list" where
  "evaluateAdvancedPass weekday lines candidates input results =
     foldl (advanced_promo weekday lines input) results candidates"

subsection \<open>The order discount\<close>

definition computeOrderDiscountCents :: "promotion \<Rightarrow> cents \<Rightarrow> cents" where
  "computeOrderDiscountCents promo subtotal =
     (case (pm_discountType promo, pm_discountValue promo) of
        (Some PromoPercentage, Some v) \<Rightarrow>
          round_percent subtotal (clampPercentageToSafeRange (JsInt v))
      | (Some PromoFixed, Some v) \<Rightarrow> if v \<le> 0 then 0 else min v subtotal
      | _ \<Rightarrow> 0)"

definition order_candidate ::
  "(timestamp \<Rightarrow> day_of_week) \<Rightarrow> pos_eval_input \<Rightarrow> cents \<Rightarrow> cents \<Rightarrow> promotion
     \<Rightarrow> (promotion \<times> cents) option" where
  "order_candidate weekday input prePromo postLine promo =
     (if pm_type promo \<noteq> OrderDiscount then None
      else if \<not> method_admits promo input then None
      else if \<not> passesPromotionWideGates weekday promo input then None
      else if \<not> list_all (matchesPriceList promo) (pei_lines input) then None
      else if (case pm_minPurchaseAmountCents promo of None \<Rightarrow> False | Some m \<Rightarrow> prePromo < m)
        then None
      else if postLine \<le> 0 then None
      else
        let d = computeOrderDiscountCents promo postLine in
        if d \<le> 0 then None else Some (promo, d))"

definition pickBestOrderPromo ::
  "(timestamp \<Rightarrow> day_of_week) \<Rightarrow> promotion list \<Rightarrow> pos_eval_input \<Rightarrow> cents \<Rightarrow> cents
     \<Rightarrow> order_result option" where
  "pickBestOrderPromo weekday candidates input prePromo postLine =
     map_option
       (\<lambda>(promo, d).
         \<lparr>orr_promotionId = pm_id promo,
          orr_discountType =
            (if pm_discountType promo = Some PromoPercentage then PercentageDiscount
             else AmountDiscount),
          orr_discountValue =
            (if pm_discountType promo = Some PromoPercentage
             then clampPercentageToSafeRange (JsInt (or_default (pm_discountValue promo) 1))
             else or_default (pm_discountValue promo) 0),
          orr_discountTitle = pm_title promo,
          orr_discountAmountCents = d\<rparr>)
       (pick_best snd (\<lambda>c. pm_id (fst c)) None
         (List.map_filter (order_candidate weekday input prePromo postLine) candidates))"

end
