(* ===== verification/EngineLoop.thy ===== *)
theory EngineLoop
  imports PromotionEngine
begin

section \<open>Evaluation passes and the capacity loop\<close>

text \<open>
  \<open>runEvaluationPass\<close> and \<open>evaluate\<close> of
  \<open>src/src/promotions/application/pos-evaluate-promotions.use-case.ts\<close>.  A pass
  that computes the manual surface simulates each capped manual candidate by a
  nested pass without that surface, so the nesting is one level deep and the model
  composes the two instead of recursing.  The capacity loop is a function with a
  proof that it ends: each round excludes a promotion that was still a candidate.
\<close>

subsection \<open>One pass\<close>

definition line_winners ::
  "(timestamp \<Rightarrow> day_of_week) \<Rightarrow> promotion list \<Rightarrow> pos_eval_input \<Rightarrow> line_result list" where
  "line_winners weekday candidates input =
     List.map_filter
       (\<lambda>line. map_option (toLineResult (pel_itemId line))
                 (pickBestPerLine weekday line candidates input))
       (pei_lines input)"

definition selected_lines ::
  "(timestamp \<Rightarrow> day_of_week) \<Rightarrow> promotion list \<Rightarrow> pos_eval_input \<Rightarrow> line_result list" where
  "selected_lines weekday candidates input =
     evaluateAdvancedPass weekday (pei_lines input) candidates input
       (evaluateBuyXGetYPass weekday (pei_lines input) candidates input
         (line_winners weekday candidates input))"

definition prePromoSubtotalCents :: "pos_eval_line list \<Rightarrow> cents" where
  "prePromoSubtotalCents lines =
     (\<Sum>l\<leftarrow>lines. pel_effectiveUnitPriceCents l * pel_quantity l)"

text \<open>\<open>lineDiscountByItemId\<close>, filled from the results in order.\<close>

definition line_discounts :: "pos_eval_line list \<Rightarrow> line_result list \<Rightarrow> (ident \<times> cents) list" where
  "line_discounts lines results =
     foldl (\<lambda>m r. case find (\<lambda>l. pel_itemId l = lr_itemId r) lines of
                    None \<Rightarrow> m
                  | Some l \<Rightarrow> assoc_set m (lr_itemId r) (computeAppliedDiscountCents l r))
       [] results"

definition postLineSubtotalCents :: "pos_eval_line list \<Rightarrow> line_result list \<Rightarrow> cents" where
  "postLineSubtotalCents lines results =
     (\<Sum>l\<leftarrow>lines. pel_effectiveUnitPriceCents l * pel_quantity l
        - or_default (assoc_get (line_discounts lines results) (pel_itemId l)) 0)"

definition selected_order ::
  "(timestamp \<Rightarrow> day_of_week) \<Rightarrow> promotion list \<Rightarrow> pos_eval_input \<Rightarrow> line_result list
     \<Rightarrow> order_result option" where
  "selected_order weekday candidates input results =
     pickBestOrderPromo weekday candidates input
       (prePromoSubtotalCents (pei_lines input))
       (postLineSubtotalCents (pei_lines input) results)"

subsection \<open>The manual surface\<close>

definition has_matching_line :: "promotion \<Rightarrow> pos_eval_line list \<Rightarrow> bool" where
  "has_matching_line promo lines \<longleftrightarrow>
     (\<exists>l\<in>set lines. matchTargetTier (pm_targetItems promo) l SideDefault \<noteq> None)"

definition maxMatchQty :: "promotion \<Rightarrow> pos_eval_line list \<Rightarrow> int" where
  "maxMatchQty promo lines =
     foldl (\<lambda>m l. if matchTargetTier (pm_targetItems promo) l SideDefault = None then m
                  else if m < pel_quantity l then pel_quantity l else m) 0 lines"

definition manual_entry :: "promotion \<Rightarrow> pos_eval_line list \<Rightarrow> manual_candidate" where
  "manual_entry promo lines =
     (if pm_type promo = BuyXGetY
      then
        let buyQ = or_default (pm_buyQuantity promo) 0; getQ = or_default (pm_getQuantity promo) 0;
            groupSize = buyQ + getQ; best = maxMatchQty promo lines
        in \<lparr>mnc_id = pm_id promo, mnc_title = pm_title promo, mnc_type = BuyXGetY,
            mnc_eligible = (groupSize \<le> best), mnc_buyQuantity = Some buyQ,
            mnc_getQuantity = Some getQ,
            mnc_unitsNeeded = (if groupSize \<le> best then 0 else groupSize - best)\<rparr>
      else \<lparr>mnc_id = pm_id promo, mnc_title = pm_title promo, mnc_type = pm_type promo,
            mnc_eligible = True, mnc_buyQuantity = None, mnc_getQuantity = None,
            mnc_unitsNeeded = 0\<rparr>)"

text \<open>The body of the loop over the manual candidates; \<open>demand\<close> simulates an opt-in.\<close>

definition manual_surface ::
  "(timestamp \<Rightarrow> day_of_week) \<Rightarrow> pos_eval_input \<Rightarrow> (ident \<Rightarrow> int) \<Rightarrow> promotion
     \<Rightarrow> manual_candidate option" where
  "manual_surface weekday input demand promo =
     (if pm_method promo \<noteq> Manual then None
      else if \<not> passesPromotionWideGates weekday promo input then None
      else if \<not> isSupportedEngineType promo then None
      else if pm_id promo \<in> set (pei_vetoedPromotionIds input) then None
      else if pm_id promo \<in> set (pei_optedInManualPromotionIds input) then None
      else if pm_type promo = Advanced then None
      else if pm_type promo \<noteq> OrderDiscount \<and> \<not> has_matching_line promo (pei_lines input) then None
      else if (case remainingProductUnits promo of
                 None \<Rightarrow> False | Some r \<Rightarrow> r < demand (pm_id promo)) then None
      else Some (manual_entry promo (pei_lines input)))"

definition targetable :: "pos_eval_input \<Rightarrow> promotion \<Rightarrow> bool" where
  "targetable input promo \<longleftrightarrow>
     pm_method promo = Manual \<and>
     pm_id promo \<in> set (pei_optedInManualPromotionIds input) \<and>
     pm_id promo \<notin> set (pei_vetoedPromotionIds input) \<and>
     isSupportedEngineType promo \<and>
     (pm_type promo = OrderDiscount \<or>
      (pm_type promo = ProductDiscount \<or> pm_type promo = BuyXGetY) \<and>
        has_matching_line promo (pei_lines input))"

subsection \<open>The pass and its simulation\<close>

record pass_outcome =
  pso_result :: pos_eval_result
  pso_remaining :: "(ident \<times> int option) list"

text \<open>
  One pass over the candidates that are not excluded: \<open>availability\<close> is the flag
  \<open>computeManualAvailability\<close>, \<open>demand\<close> the simulation of a manual opt-in.
\<close>

definition evaluation_pass ::
  "(timestamp \<Rightarrow> day_of_week) \<Rightarrow> bool \<Rightarrow> (ident \<Rightarrow> int) \<Rightarrow> pos_eval_input \<Rightarrow> promotion list
     \<Rightarrow> ident list \<Rightarrow> pass_outcome" where
  "evaluation_pass weekday availability demand input loaded excluded =
     (let candidates = filter (\<lambda>p. pm_id p \<notin> set excluded) loaded;
          remaining = foldl (\<lambda>m p. assoc_set m (pm_id p) (remainingProductUnits p)) [] candidates;
          results = selected_lines weekday candidates input;
          order = selected_order weekday candidates input results
      in \<lparr>pso_result =
            \<lparr>per_lines = results,
             per_order = order,
             per_availableManualPromotions =
               List.map_filter (manual_surface weekday input demand)
                 (if availability then candidates else []),
             per_targetableManualPromotionIds =
               map pm_id (filter (targetable input) (if availability then loaded else [])),
             per_promotionCapacityDemands =
               computePromotionCapacityDemands (pei_lines input) results order,
             per_capacityExcludedPromotionIds = sort excluded\<rparr>,
          pso_remaining = remaining\<rparr>)"

definition computeManualCandidateSelectedDemand ::
  "(timestamp \<Rightarrow> day_of_week) \<Rightarrow> pos_eval_input \<Rightarrow> promotion list \<Rightarrow> ident list \<Rightarrow> ident \<Rightarrow> int" where
  "computeManualCandidateSelectedDemand weekday input loaded excluded promotionId =
     (let nested = evaluation_pass weekday False (\<lambda>_. 0)
            (input\<lparr>pei_optedInManualPromotionIds :=
               pei_optedInManualPromotionIds input @ [promotionId]\<rparr>) loaded excluded
      in case find (\<lambda>d. fst d = promotionId) (per_promotionCapacityDemands (pso_result nested)) of
           None \<Rightarrow> 0 | Some d \<Rightarrow> snd d)"

definition runEvaluationPass ::
  "(timestamp \<Rightarrow> day_of_week) \<Rightarrow> pos_eval_input \<Rightarrow> promotion list \<Rightarrow> ident list \<Rightarrow> pass_outcome" where
  "runEvaluationPass weekday input loaded excluded =
     evaluation_pass weekday True
       (computeManualCandidateSelectedDemand weekday input loaded excluded) input loaded excluded"

subsection \<open>The capacity loop\<close>

definition overruns :: "(ident \<times> int option) list \<Rightarrow> ident \<times> int \<Rightarrow> bool" where
  "overruns remaining d \<longleftrightarrow>
     (case assoc_get remaining (fst d) of
        Some (Some r) \<Rightarrow> r < snd d
      | _ \<Rightarrow> False)"

definition findCapacityOverrunIds :: "pass_outcome \<Rightarrow> ident list" where
  "findCapacityOverrunIds pass =
     map fst (filter (overruns (pso_remaining pass))
       (per_promotionCapacityDemands (pso_result pass)))"

definition set_add :: "ident list \<Rightarrow> ident \<Rightarrow> ident list" where
  "set_add s x = (if x \<in> set s then s else s @ [x])"

lemma set_foldl_set_add [simp]: "set (foldl set_add s xs) = set s \<union> set xs"
  by (induction xs arbitrary: s) (auto simp: set_add_def)

lemma distinct_foldl_set_add [simp]: "distinct s \<Longrightarrow> distinct (foldl set_add s xs)"
  by (induction xs arbitrary: s) (auto simp: set_add_def)

lemma foldl_assoc_set_get:
  "assoc_get (foldl (\<lambda>m p. assoc_set m (key p) (v p)) m ps) k = Some x \<Longrightarrow>
     assoc_get m k = Some x \<or> (\<exists>p\<in>set ps. key p = k \<and> v p = x)"
proof (induction ps arbitrary: m)
  case (Cons p ps)
  from Cons.IH [of "assoc_set m (key p) (v p)"] Cons.prems show ?case
    by (auto split: if_splits)
qed simp

lemma pass_remaining:
  "pso_remaining (runEvaluationPass weekday input loaded excluded) =
     foldl (\<lambda>m p. assoc_set m (pm_id p) (remainingProductUnits p)) []
       (filter (\<lambda>p. pm_id p \<notin> set excluded) loaded)"
  by (simp add: runEvaluationPass_def evaluation_pass_def Let_def)

text \<open>Only candidates overrun, so every round excludes something new.\<close>

lemma overrun_is_candidate:
  assumes "i \<in> set (findCapacityOverrunIds (runEvaluationPass weekday input loaded excluded))"
  shows "i \<in> pm_id ` set loaded - set excluded"
proof -
  from assms obtain r where
    "assoc_get (pso_remaining (runEvaluationPass weekday input loaded excluded)) i = Some r"
    by (auto simp: findCapacityOverrunIds_def overruns_def split: option.splits)
  then show ?thesis
    unfolding pass_remaining by (auto dest!: foldl_assoc_set_get)
qed

function evaluate_loop ::
  "(timestamp \<Rightarrow> day_of_week) \<Rightarrow> pos_eval_input \<Rightarrow> promotion list \<Rightarrow> ident list \<Rightarrow> pos_eval_result" where
  "evaluate_loop weekday input loaded excluded =
     (let pass = runEvaluationPass weekday input loaded excluded;
          overrunIds = findCapacityOverrunIds pass
      in if overrunIds = [] then pso_result pass
         else evaluate_loop weekday input loaded (foldl set_add excluded overrunIds))"
  by pat_completeness auto

termination
proof (relation "measure (\<lambda>(w, input, loaded, excluded). card (pm_id ` set loaded - set excluded))")
  fix weekday input loaded excluded pass overrunIds
  assume pass: "pass = runEvaluationPass weekday input loaded excluded"
    and ids: "overrunIds = findCapacityOverrunIds pass" and ne: "overrunIds \<noteq> []"
  from ne obtain i where "i \<in> set overrunIds" using hd_in_set by blast
  moreover from this have "i \<in> pm_id ` set loaded - set excluded"
    using overrun_is_candidate [of i weekday input loaded excluded] pass ids by simp
  ultimately have "pm_id ` set loaded - set (foldl set_add excluded overrunIds)
      \<subset> pm_id ` set loaded - set excluded"
    by auto
  then show "((weekday, input, loaded, foldl set_add excluded overrunIds),
      (weekday, input, loaded, excluded))
    \<in> measure (\<lambda>(w, input, loaded, excluded). card (pm_id ` set loaded - set excluded))"
    by (simp add: psubset_card_mono)
qed simp

declare evaluate_loop.simps [simp del]

text \<open>\<open>data\<close> is what the repository's query for active promotions returned.\<close>

definition evaluate ::
  "(timestamp \<Rightarrow> day_of_week) \<Rightarrow> pos_eval_input \<Rightarrow> promotion list \<Rightarrow> pos_eval_result" where
  "evaluate weekday input data =
     evaluate_loop weekday input
       (if pei_botEligibleOnly input then filter pm_botEligible data else data) []"

end
