(* ===== verification/EngineLaws.thy ===== *)
theory EngineLaws
  imports EngineLoop
begin

section \<open>The laws of the promotion engine\<close>

text \<open>
  The ranking contract shared by the three rankings of the engine, the invariant
  of the line results through the passes, what each line finally saves, who may
  win, and that the result of an evaluation fits the capacities.
\<close>

subsection \<open>Ranking\<close>

text \<open>
  The contract of a ranking: it chooses one of the candidates, none when there are
  none, and the one it chooses is at least as good as each.  With distinct keys
  such a choice does not depend on the order of the candidates.
\<close>

locale ranking =
  fixes pick :: "'c list \<Rightarrow> 'c option"
    and worth :: "'c \<Rightarrow> int"
    and tie :: "'c \<Rightarrow> ident"
  assumes pick_None: "pick cs = None \<longleftrightarrow> cs = []"
    and pick_in: "pick cs = Some w \<Longrightarrow> w \<in> set cs"
    and pick_best: "pick cs = Some w \<Longrightarrow> c \<in> set cs \<Longrightarrow> better worth tie w c"
begin

lemma order_free:
  assumes "set cs = set cs'" and "inj_on tie (set cs)"
  shows "pick cs = pick cs'"
proof (cases "pick cs")
  case None
  with assms(1) show ?thesis by (simp add: pick_None)
next
  case (Some w)
  then have "cs' \<noteq> []" using pick_in [OF Some] assms(1) by auto
  then obtain w' where w': "pick cs' = Some w'" using pick_None [of cs'] by auto
  have "w \<in> set cs" "w' \<in> set cs" using pick_in [OF Some] pick_in [OF w'] assms(1) by auto
  moreover have "better worth tie w w'" "better worth tie w' w"
    using pick_best [OF Some] pick_best [OF w'] calculation assms(1) by auto
  then have "tie w = tie w'" by (auto simp: better_def)
  ultimately show ?thesis using assms(2) Some w' by (auto dest: inj_onD)
qed

lemma worth_max: "pick cs = Some w \<Longrightarrow> c \<in> set cs \<Longrightarrow> worth c \<le> worth w"
  using pick_best [of cs w c] by (auto simp: better_def)

end

lemma pick_best_ranking: "ranking (pick_best val key None) val key"
  by unfold_locales (auto simp: pick_best_None dest: pick_best_Some)

interpretation line_ranking:
  ranking pickBestByMaxDiscountThenLowestId plc_discountCents "\<lambda>c. pm_id (plc_promotion c)"
  using pick_best_ranking by (simp add: pickBestByMaxDiscountThenLowestId_def [abs_def])

interpretation bxgy_ranking:
  ranking "pick_best bxc_lineDiscountCents (\<lambda>c. pm_id (bxc_promotion c)) None"
    bxc_lineDiscountCents "\<lambda>c. pm_id (bxc_promotion c)"
  by (rule pick_best_ranking)

interpretation order_ranking:
  ranking "pick_best snd (\<lambda>c. pm_id (fst c)) None" snd "\<lambda>c. pm_id (fst c)"
  by (rule pick_best_ranking)

lemma set_map_filter [simp]: "set (List.map_filter f xs) = {y. \<exists>x\<in>set xs. f x = Some y}"
  by (induction xs) (auto simp: List.map_filter_simps split: option.splits)

lemma map_filter_Nil_iff: "List.map_filter f xs = [] \<longleftrightarrow> (\<forall>x\<in>set xs. f x = None)"
  by (induction xs) (auto simp: List.map_filter_simps split: option.splits)

lemma line_candidateE:
  assumes "line_candidate weekday input line promo = Some c"
  obtains tier where "method_admits promo input" "passesPromotionWideGates weekday promo input"
    "pm_type promo = ProductDiscount" "matchesPriceList promo line"
    "matchTargetTier (pm_targetItems promo) line SideDefault = Some tier"
    "0 < computeLineDiscountCents promo (pel_effectiveUnitPriceCents line)"
    "c = \<lparr>plc_promotion = promo,
          plc_discountCents = computeLineDiscountCents promo (pel_effectiveUnitPriceCents line),
          plc_tier = tier\<rparr>"
  using assms by (auto simp: line_candidate_def Let_def split: if_splits option.splits)

lemma foldl_max_upper:
  "(\<forall>c\<in>set cs. f c \<le> foldl (\<lambda>m c. max m (f c)) a cs) \<and> a \<le> foldl (\<lambda>m c. max m (f c)) a cs"
  for f :: "'a \<Rightarrow> nat"
proof (induction cs arbitrary: a)
  case (Cons c cs)
  from Cons.IH [of "max a (f c)"] show ?case by auto
qed simp

lemma foldl_max_attained:
  "foldl (\<lambda>m c. max m (f c)) a cs = a \<or> (\<exists>c\<in>set cs. f c = foldl (\<lambda>m c. max m (f c)) a cs)"
  for f :: "'a \<Rightarrow> nat"
proof (induction cs arbitrary: a)
  case (Cons c cs)
  from Cons.IH [of "max a (f c)"] show ?case by (auto simp: max_def split: if_splits)
qed simp

text \<open>The winner of a line: eligible, of the most specific tier present, and best in it.\<close>

lemma pickBestPerLine_Some:
  assumes "pickBestPerLine weekday line candidates input = Some w"
  shows "\<not> pel_hasManualDiscount line \<and>
    (\<exists>p\<in>set candidates. line_candidate weekday input line p = Some w) \<and>
    (\<forall>p\<in>set candidates. \<forall>c. line_candidate weekday input line p = Some c \<longrightarrow>
       TIER_ORDINAL (plc_tier c) \<le> TIER_ORDINAL (plc_tier w) \<and>
       (TIER_ORDINAL (plc_tier c) = TIER_ORDINAL (plc_tier w) \<longrightarrow>
          better plc_discountCents (\<lambda>c. pm_id (plc_promotion c)) w c))"
proof -
  define eligible where "eligible = List.map_filter (line_candidate weekday input line) candidates"
  define top where "top = foldl (\<lambda>m c. max m (TIER_ORDINAL (plc_tier c))) 0 eligible"
  have ch: "pickBestByMaxDiscountThenLowestId
      (filter (\<lambda>c. TIER_ORDINAL (plc_tier c) = top) eligible) = Some w"
    and nm: "\<not> pel_hasManualDiscount line"
    using assms by (auto simp: pickBestPerLine_def Let_def eligible_def top_def split: if_splits)
  from line_ranking.pick_in [OF ch] have w: "w \<in> set eligible" "TIER_ORDINAL (plc_tier w) = top"
    by auto
  have "TIER_ORDINAL (plc_tier c) \<le> top" if "c \<in> set eligible" for c
    using foldl_max_upper [of eligible "\<lambda>c. TIER_ORDINAL (plc_tier c)" 0] that
    by (simp add: top_def)
  moreover have "better plc_discountCents (\<lambda>c. pm_id (plc_promotion c)) w c"
    if "c \<in> set eligible" "TIER_ORDINAL (plc_tier c) = top" for c
    using line_ranking.pick_best [OF ch, of c] that by simp
  ultimately show ?thesis
    using w nm by (auto simp: eligible_def)
qed

lemma pickBestPerLine_None:
  assumes "pickBestPerLine weekday line candidates input = None" and "\<not> pel_hasManualDiscount line"
  shows "\<forall>p\<in>set candidates. line_candidate weekday input line p = None"
proof (rule ccontr)
  assume ne: "\<not> ?thesis"
  define eligible where "eligible = List.map_filter (line_candidate weekday input line) candidates"
  define top where "top = foldl (\<lambda>m c. max m (TIER_ORDINAL (plc_tier c))) 0 eligible"
  from ne have e: "eligible \<noteq> []" by (simp add: eligible_def map_filter_Nil_iff)
  then have "filter (\<lambda>c. TIER_ORDINAL (plc_tier c) = top) eligible = []"
    using assms by (auto simp: pickBestPerLine_def Let_def eligible_def top_def
        line_ranking.pick_None split: if_splits)
  then have no: "\<forall>c\<in>set eligible. TIER_ORDINAL (plc_tier c) \<noteq> top"
    by (simp add: filter_empty_conv)
  then have "top = 0"
    using foldl_max_attained [of "\<lambda>c. TIER_ORDINAL (plc_tier c)" 0 eligible]
    by (auto simp: top_def)
  then have "\<forall>c\<in>set eligible. TIER_ORDINAL (plc_tier c) = 0"
    using foldl_max_upper [of eligible "\<lambda>c. TIER_ORDINAL (plc_tier c)" 0] by (simp add: top_def)
  with no e \<open>top = 0\<close> show False by (cases eligible) auto
qed

subsection \<open>Results by item\<close>

lemma result_of_put [simp]:
  "result_of_item i (put_result r rs) = (if lr_itemId r = i then Some r else result_of_item i rs)"
proof -
  have upd: "find (\<lambda>x. lr_itemId x = i) (update_first (\<lambda>x. lr_itemId x = j) (\<lambda>_. r) rs) =
      (if i = j then Some r else find (\<lambda>x. lr_itemId x = i) rs)"
    if "find (\<lambda>x. lr_itemId x = j) rs \<noteq> None" "lr_itemId r = j" for j
    using that by (induction rs) auto
  have app: "find (\<lambda>x. lr_itemId x = i) (rs @ [r]) =
      (if find (\<lambda>x. lr_itemId x = i) rs \<noteq> None then find (\<lambda>x. lr_itemId x = i) rs
       else if lr_itemId r = i then Some r else None)" for rs
    by (induction rs) auto
  show ?thesis
    by (auto simp: result_of_item_def put_result_def replace_or_push_def upd app)
qed

lemma keys_update_first:
  "(\<And>x. p x \<Longrightarrow> key x = key r) \<Longrightarrow>
     map key (update_first p (\<lambda>_. r) rs) = map key rs"
  by (induction rs) auto

lemma distinct_put_result:
  assumes "distinct (map lr_itemId rs)"
  shows "distinct (map lr_itemId (put_result r rs))"
  using assms by (auto simp: put_result_def replace_or_push_def keys_update_first list_simps)

lemma set_put_result: "set (put_result r rs) \<subseteq> insert r (set rs)"
  using set_update_first [of "\<lambda>x. lr_itemId x = lr_itemId r" "\<lambda>_. r" rs]
  by (auto simp: put_result_def replace_or_push_def)

lemma result_of_item_mem: "result_of_item i rs = Some r \<Longrightarrow> r \<in> set rs \<and> lr_itemId r = i"
  by (auto simp: result_of_item_def dest: find_SomeD)

lemma find_item_unique:
  assumes "distinct (map pel_itemId lines)" and "l \<in> set lines"
  shows "find (\<lambda>x. pel_itemId x = pel_itemId l) lines = Some l"
  using assms by (induction lines) auto

subsection \<open>The results of a pass\<close>

text \<open>
  A cart in good order, and what a line result must be: about a line that carries
  no manual discount, and taking off something but not more than the line.
\<close>

definition cart_ok :: "pos_eval_line list \<Rightarrow> bool" where
  "cart_ok lines \<longleftrightarrow>
     distinct (map pel_itemId lines) \<and>
     (\<forall>l\<in>set lines. 0 \<le> pel_effectiveUnitPriceCents l \<and> 1 \<le> pel_quantity l)"

definition line_gross :: "pos_eval_line \<Rightarrow> cents" where
  "line_gross l = pel_effectiveUnitPriceCents l * pel_quantity l"

definition result_ok :: "pos_eval_line list \<Rightarrow> line_result \<Rightarrow> bool" where
  "result_ok lines r \<longleftrightarrow>
     (\<exists>l\<in>set lines. pel_itemId l = lr_itemId r \<and> \<not> pel_hasManualDiscount l \<and>
        0 < existingLineResultTotalCents l (Some r) \<and>
        existingLineResultTotalCents l (Some r) \<le> line_gross l)"

definition results_ok :: "pos_eval_line list \<Rightarrow> line_result list \<Rightarrow> bool" where
  "results_ok lines rs \<longleftrightarrow> distinct (map lr_itemId rs) \<and> (\<forall>r\<in>set rs. result_ok lines r)"

lemma results_ok_put:
  "results_ok lines rs \<Longrightarrow> result_ok lines r \<Longrightarrow> results_ok lines (put_result r rs)"
  using set_put_result [of r rs] by (auto simp: results_ok_def distinct_put_result)

lemma clamp_bounds: "1 \<le> clampPercentageToSafeRange n \<and> clampPercentageToSafeRange n \<le> 99"
  by (cases n) auto

lemma clamp_idem [simp]:
  "clampPercentageToSafeRange (JsInt (clampPercentageToSafeRange n)) = clampPercentageToSafeRange n"
  by (cases n) auto

text \<open>The value a product discount is ranked by is the value its result applies.\<close>

lemma applied_is_ranked:
  assumes "line_candidate weekday input line promo = Some w"
  shows "computeAppliedDiscountCents line (toLineResult i w) = plc_discountCents w"
    and "0 < plc_discountCents w" and "plc_discountCents w \<le> pel_effectiveUnitPriceCents line"
    and "plc_promotion w = promo"
proof -
  obtain tier where pos: "0 < computeLineDiscountCents promo (pel_effectiveUnitPriceCents line)"
    and w: "w = \<lparr>plc_promotion = promo,
       plc_discountCents = computeLineDiscountCents promo (pel_effectiveUnitPriceCents line),
       plc_tier = tier\<rparr>"
    using assms by (rule line_candidateE)
  obtain t v where tv: "pm_discountType promo = Some t" "pm_discountValue promo = Some v"
    and base: "0 < pel_effectiveUnitPriceCents line"
    using pos by (auto simp: computeLineDiscountCents_def split: option.splits if_splits)
  show "computeAppliedDiscountCents line (toLineResult i w) = plc_discountCents w"
    using tv base pos
    by (cases t) (auto simp: w toLineResult_def Let_def computeLineDiscountCents_def split: if_splits)
  show "0 < plc_discountCents w" "plc_promotion w = promo"
    using pos by (simp_all add: w)
  have "round_percent (pel_effectiveUnitPriceCents line) (clampPercentageToSafeRange (JsInt v))
      \<le> pel_effectiveUnitPriceCents line"
    using base clamp_bounds [of "JsInt v"] by (intro round_percent_le) auto
  then show "plc_discountCents w \<le> pel_effectiveUnitPriceCents line"
    using tv base by (cases t) (auto simp: w computeLineDiscountCents_def)
qed

lemma toLineResult_fields [simp]:
  "lr_itemId (toLineResult i w) = i"
  "lr_promotionId (toLineResult i w) = pm_id (plc_promotion w)"
  "is_bxgy_result (toLineResult i w) = False"
  by (simp_all add: toLineResult_def Let_def)

lemma toLineResult_total [simp]:
  "existingLineResultTotalCents line (Some (toLineResult i w)) =
     computeAppliedDiscountCents line (toLineResult i w) * pel_quantity line"
  by (simp add: toLineResult_def Let_def)

lemma line_winners_ok:
  assumes "cart_ok (pei_lines input)"
  shows "results_ok (pei_lines input) (line_winners weekday candidates input)"
proof -
  have keys: "distinct (map lr_itemId (List.map_filter
      (\<lambda>line. map_option (toLineResult (pel_itemId line))
         (pickBestPerLine weekday line candidates input)) ls)) \<and>
      lr_itemId ` set (List.map_filter
      (\<lambda>line. map_option (toLineResult (pel_itemId line))
         (pickBestPerLine weekday line candidates input)) ls) \<subseteq> pel_itemId ` set ls"
    if "distinct (map pel_itemId ls)" for ls
    using that by (induction ls) (auto simp: List.map_filter_simps split: option.splits)
  have "result_ok (pei_lines input) (toLineResult (pel_itemId l) w)"
    if l: "l \<in> set (pei_lines input)" and w: "pickBestPerLine weekday l candidates input = Some w" for l w
  proof -
    from pickBestPerLine_Some [OF w] obtain p where
      c: "line_candidate weekday input l p = Some w" and nm: "\<not> pel_hasManualDiscount l" by blast
    have q: "1 \<le> pel_quantity l" using assms l by (simp add: cart_ok_def)
    show ?thesis
      unfolding result_ok_def
      using l nm q applied_is_ranked(1) [OF c, of "pel_itemId l"] applied_is_ranked(2,3) [OF c]
      by (intro bexI [of _ l]) (auto simp: line_gross_def intro: mult_right_mono)
  qed
  then show ?thesis
    using keys [of "pei_lines input"] assms
    by (auto simp: results_ok_def line_winners_def cart_ok_def)
qed

lemma reward_units_le:
  assumes "1 \<le> b" and "1 \<le> g" and "0 \<le> q"
  shows "q div (b + g) * g \<le> q" and "(0::int) \<le> q div (b + g) * g"
proof -
  have "0 \<le> q div (b + g)" using assms by (simp add: pos_imp_zdiv_nonneg_iff)
  then have "q div (b + g) * g \<le> q div (b + g) * (b + g)"
    using assms by (intro mult_left_mono) auto
  also have "\<dots> = q - q mod (b + g)" by (simp add: minus_mod_eq_div_mult)
  also have "\<dots> \<le> q" using assms by simp
  finally show "q div (b + g) * g \<le> q" .
  show "0 \<le> q div (b + g) * g" using \<open>0 \<le> q div (b + g)\<close> assms by simp
qed

lemma bxgy_candidateE:
  assumes "bxgy_candidate_of weekday input line promo = Some c"
  obtains buyQ getQ percent where "pm_type promo = BuyXGetY" "method_admits promo input"
    "passesPromotionWideGates weekday promo input" "pm_buyQuantity promo = Some buyQ"
    "pm_getQuantity promo = Some getQ" "pm_getDiscountPercent promo = Some percent"
    "bxc_promotion c = promo" "0 < bxc_lineDiscountCents c"
    "bxc_lineDiscountCents c = (pel_quantity line div (buyQ + getQ)) * getQ *
       round_percent (pel_effectiveUnitPriceCents line) percent"
  using assms by (auto simp: bxgy_candidate_of_def computeBuyXGetYReward_def Let_def
      split: if_splits option.splits)

lemma bxgy_reward_bounds:
  assumes "bxgy_candidate_of weekday input line promo = Some c" and "promotion_shape promo"
    and "0 \<le> pel_effectiveUnitPriceCents line" and "1 \<le> pel_quantity line"
  shows "0 < bxc_lineDiscountCents c \<and> bxc_lineDiscountCents c \<le> line_gross line"
  using assms(1)
proof (rule bxgy_candidateE)
  fix b g pc
  assume s: "pm_type promo = BuyXGetY" "pm_buyQuantity promo = Some b" "pm_getQuantity promo = Some g"
    "pm_getDiscountPercent promo = Some pc" and pos: "0 < bxc_lineDiscountCents c"
    and eq: "bxc_lineDiscountCents c = (pel_quantity line div (b + g)) * g *
       round_percent (pel_effectiveUnitPriceCents line) pc"
  have bg: "1 \<le> b" "1 \<le> g" "0 \<le> pc" "pc \<le> 100"
    using assms(2) s by (auto simp: promotion_shape_def)
  have "pel_quantity line div (b + g) * g * round_percent (pel_effectiveUnitPriceCents line) pc
      \<le> pel_quantity line * pel_effectiveUnitPriceCents line"
    using bg assms(3,4) reward_units_le [of b g "pel_quantity line"]
    by (intro mult_mono) (auto intro: round_percent_le round_percent_nonneg)
  with pos eq show ?thesis by (simp add: line_gross_def mult.commute)
qed

lemma pickBestBuyXGetY_Some:
  assumes "pickBestBuyXGetYPerLine weekday line candidates input = Some w"
  shows "\<not> pel_hasManualDiscount line \<and>
    (\<exists>p\<in>set candidates. bxgy_candidate_of weekday input line p = Some w)"
  using assms bxgy_ranking.pick_in [of _ w]
  by (fastforce simp: pickBestBuyXGetYPerLine_def split: if_splits)

text \<open>The result that \<open>bxgy_line\<close> leaves for its line, and for the others.\<close>

lemma bxgy_line_other:
  "i \<noteq> pel_itemId line \<Longrightarrow>
     result_of_item i (bxgy_line weekday candidates input rs line) = result_of_item i rs"
  by (auto simp: bxgy_line_def Let_def split: option.splits)

lemma bxgy_line_ok:
  assumes "results_ok lines rs" and "line \<in> set lines" and "cart_ok lines"
    and "\<forall>p\<in>set candidates. promotion_shape p"
  shows "results_ok lines (bxgy_line weekday candidates input rs line)"
proof (cases "bxgy_line weekday candidates input rs line = rs")
  case False
  then obtain w where w: "pickBestBuyXGetYPerLine weekday line candidates input = Some w"
    and r: "bxgy_line weekday candidates input rs line = put_result
      (BuyXGetYResult (pel_itemId line) (pm_id (bxc_promotion w)) (pm_title (bxc_promotion w))
        (bxc_lineDiscountCents w) (bxc_perUnitRewardCents w) (bxc_discountedUnitCount w)
        (bxc_getDiscountPercent w)) rs"
    by (auto simp: bxgy_line_def Let_def split: if_splits option.splits)
  from pickBestBuyXGetY_Some [OF w] obtain p where p: "p \<in> set candidates"
    "bxgy_candidate_of weekday input line p = Some w" "\<not> pel_hasManualDiscount line" by blast
  have "0 < bxc_lineDiscountCents w \<and> bxc_lineDiscountCents w \<le> line_gross line"
    using assms p by (intro bxgy_reward_bounds [OF p(2)]) (auto simp: cart_ok_def)
  then show ?thesis
    unfolding r using assms p by (intro results_ok_put) (auto simp: result_ok_def)
qed (use assms in simp)

lemma bxgy_pass_ok:
  assumes "cart_ok lines" and "\<forall>p\<in>set candidates. promotion_shape p"
    and "set ls \<subseteq> set lines" and "results_ok lines rs"
  shows "results_ok lines (evaluateBuyXGetYPass weekday ls candidates input rs)"
  using assms(3,4) unfolding evaluateBuyXGetYPass_def
  by (induction ls arbitrary: rs) (auto intro: bxgy_line_ok [OF _ _ assms(1,2)])

subsection \<open>Advanced rewards\<close>

text \<open>What the allocation loop hands out.\<close>

definition given_units :: "advanced_reward list \<Rightarrow> int" where
  "given_units rs = (\<Sum>r\<leftarrow>rs. avr_discountedUnitCount r)"

lemma allocate_units:
  assumes "\<forall>l\<in>set ls. 1 \<le> gtc_quantity l" and "0 \<le> pool"
  shows "given_units (allocate percent pool ls) = min pool (\<Sum>l\<leftarrow>ls. gtc_quantity l)"
  using assms
proof (induction ls arbitrary: pool)
  case Nil
  then show ?case by (simp add: given_units_def)
next
  case (Cons l ls)
  have rest: "0 \<le> (\<Sum>l\<leftarrow>ls. gtc_quantity l)"
    by (rule sum_list_nonneg_int) (use Cons.prems in fastforce)
  show ?case
    using Cons.IH [of "pool - min (gtc_quantity l) pool"] Cons.prems rest
    by (auto simp: given_units_def Let_def min_def)
qed

lemma allocate_mem:
  assumes "r \<in> set (allocate percent pool ls)"
  shows "\<exists>l\<in>set ls. avr_itemId r = gtc_itemId l \<and> 0 < avr_discountedUnitCount r \<and>
    avr_discountedUnitCount r \<le> gtc_quantity l \<and>
    avr_lineDiscountCents r = avr_discountedUnitCount r * round_percent (gtc_price l) percent"
  using assms
  by (induction percent pool ls rule: allocate.induct)
    (auto simp: Let_def split: if_splits)

lemma computeAdvanced_rewards:
  "set (snd (computeAdvancedReward totalBuy buyQ getQ percent cands)) \<subseteq>
     set (allocate percent (totalBuy div buyQ * getQ) (sort_key gtc_itemId cands))"
  by (auto simp: computeAdvancedReward_def Let_def)

lemma get_lines_mem:
  "c \<in> set (get_lines promo lines) \<Longrightarrow>
     \<exists>l\<in>set lines. c = \<lparr>gtc_itemId = pel_itemId l, gtc_price = pel_effectiveUnitPriceCents l,
        gtc_quantity = pel_quantity l\<rparr> \<and> on_side promo SideGet l \<and>
        pel_itemId l \<notin> pel_itemId ` set (buy_lines promo lines)"
  by (auto simp: get_lines_def)

lemma advanced_reward_ok:
  assumes "r \<in> set (snd (computeAdvancedReward totalBuy buyQ getQ percent (get_lines promo lines)))"
    and "cart_ok lines" and "0 \<le> percent" and "percent \<le> 100"
  shows "\<exists>l\<in>set lines. pel_itemId l = avr_itemId r \<and> \<not> pel_hasManualDiscount l \<and>
    avr_lineDiscountCents r \<le> line_gross l"
proof -
  obtain c where c: "c \<in> set (get_lines promo lines)" "avr_itemId r = gtc_itemId c"
    "0 < avr_discountedUnitCount r" "avr_discountedUnitCount r \<le> gtc_quantity c"
    "avr_lineDiscountCents r = avr_discountedUnitCount r * round_percent (gtc_price c) percent"
    using allocate_mem computeAdvanced_rewards assms(1) by fastforce
  obtain l where l: "l \<in> set lines" "on_side promo SideGet l"
    "c = \<lparr>gtc_itemId = pel_itemId l, gtc_price = pel_effectiveUnitPriceCents l,
         gtc_quantity = pel_quantity l\<rparr>"
    using get_lines_mem [OF c(1)] by blast
  have "avr_discountedUnitCount r * round_percent (pel_effectiveUnitPriceCents l) percent
      \<le> pel_quantity l * pel_effectiveUnitPriceCents l"
    using c l assms(2-4) by (intro mult_mono round_percent_le round_percent_nonneg) (auto simp: cart_ok_def)
  then show ?thesis
    using c l by (intro bexI [of _ l]) (auto simp: line_gross_def mult.commute on_side_def)
qed

lemma apply_advanced_ok:
  assumes "results_ok lines rs" and "cart_ok lines"
    and "\<exists>l\<in>set lines. pel_itemId l = avr_itemId r \<and> \<not> pel_hasManualDiscount l \<and>
      avr_lineDiscountCents r \<le> line_gross l"
  shows "results_ok lines (apply_advanced_reward lines promo percent rs r)"
proof (cases "apply_advanced_reward lines promo percent rs r = rs")
  case False
  then have "0 < avr_lineDiscountCents r" and
    "apply_advanced_reward lines promo percent rs r = put_result
      (AdvancedResult (avr_itemId r) (pm_id promo) (pm_title promo) (avr_lineDiscountCents r)
        (avr_perUnitRewardCents r) (avr_discountedUnitCount r) percent) rs"
    by (auto simp: apply_advanced_reward_def Let_def split: if_splits option.splits)
  then show ?thesis
    using assms by (auto intro!: results_ok_put simp: result_ok_def)
qed (use assms in simp)

lemma advanced_promo_ok:
  assumes "results_ok lines rs" and "cart_ok lines" and "promotion_shape promo"
  shows "results_ok lines (advanced_promo weekday lines input rs promo)"
proof (cases "advanced_promo weekday lines input rs promo = rs")
  case False
  then obtain b g pc where s: "pm_type promo = Advanced" "pm_getDiscountPercent promo = Some pc"
    and eq: "advanced_promo weekday lines input rs promo =
      foldl (apply_advanced_reward lines promo pc) rs
        (snd (computeAdvancedReward (\<Sum>l\<leftarrow>buy_lines promo lines. pel_quantity l) b g pc
          (get_lines promo lines)))"
    by (auto simp: advanced_promo_def Let_def split: if_splits option.splits)
  have "0 \<le> pc" "pc \<le> 100" using assms(3) s by (auto simp: promotion_shape_def)
  note ok = advanced_reward_ok [OF _ assms(2) this]
  have "results_ok lines (foldl (apply_advanced_reward lines promo pc) rs us)"
    if "set us \<subseteq> set (snd (computeAdvancedReward (\<Sum>l\<leftarrow>buy_lines promo lines. pel_quantity l) b g pc
          (get_lines promo lines)))" for us
    using that assms(1)
    by (induction us arbitrary: rs) (auto intro!: apply_advanced_ok assms(2) ok)
  then show ?thesis unfolding eq by blast
qed (use assms in simp)

lemma advanced_pass_ok:
  assumes "cart_ok lines" and "\<forall>p\<in>set ps. promotion_shape p" and "results_ok lines rs"
  shows "results_ok lines (evaluateAdvancedPass weekday lines ps input rs)"
  using assms(2,3) unfolding evaluateAdvancedPass_def
  by (induction ps arbitrary: rs) (auto intro: advanced_promo_ok [OF _ assms(1)])

lemma selected_lines_ok:
  assumes "cart_ok (pei_lines input)" and "\<forall>p\<in>set candidates. promotion_shape p"
  shows "results_ok (pei_lines input) (selected_lines weekday candidates input)"
  unfolding selected_lines_def
  using assms by (intro advanced_pass_ok bxgy_pass_ok line_winners_ok) auto

end
