(* ===== verification/EngineProps.thy ===== *)
theory EngineProps
  imports EngineLaws
begin

section \<open>Properties of the promotion engine\<close>

text \<open>
  What each line finally saves, who may win, how the order discount relates to
  the lines, and that the result of an evaluation fits the capacities.  The
  properties at the end rest on these lemmas and on the ranking contract.
\<close>

subsection \<open>Savings\<close>

definition saving :: "line_result list \<Rightarrow> pos_eval_line \<Rightarrow> cents" where
  "saving rs l = existingLineResultTotalCents l (result_of_item (pel_itemId l) rs)"

fun is_per_unit :: "line_result \<Rightarrow> bool" where
  "is_per_unit (PerUnitResult i p t v title) = True"
| "is_per_unit _ = False"

definition bxgy_saving ::
  "(timestamp \<Rightarrow> day_of_week) \<Rightarrow> promotion list \<Rightarrow> pos_eval_input \<Rightarrow> pos_eval_line \<Rightarrow> cents" where
  "bxgy_saving weekday candidates input l =
     (case pickBestBuyXGetYPerLine weekday l candidates input of
        None \<Rightarrow> 0 | Some w \<Rightarrow> bxc_lineDiscountCents w)"

definition product_saving ::
  "(timestamp \<Rightarrow> day_of_week) \<Rightarrow> promotion list \<Rightarrow> pos_eval_input \<Rightarrow> pos_eval_line \<Rightarrow> cents" where
  "product_saving weekday candidates input l =
     (case pickBestPerLine weekday l candidates input of
        None \<Rightarrow> 0 | Some w \<Rightarrow> plc_discountCents w * pel_quantity l)"

lemma saving_bxgy_line_other:
  "pel_itemId l \<noteq> pel_itemId l' \<Longrightarrow>
     saving (bxgy_line weekday candidates input rs l') l = saving rs l"
  by (simp add: saving_def bxgy_line_other)

lemma existing_total_per_unit:
  "is_per_unit e \<Longrightarrow>
     existingLineResultTotalCents l (Some e) = computeAppliedDiscountCents l e * pel_quantity l"
  by (cases e) simp_all

lemma per_unit_not_bxgy: "is_per_unit e \<Longrightarrow> \<not> is_bxgy_result e"
  by (cases e) simp_all

lemma saving_bxgy_line:
  assumes "\<forall>e. result_of_item (pel_itemId l) rs = Some e \<longrightarrow> is_per_unit e"
    and "0 \<le> saving rs l"
  shows "saving (bxgy_line weekday candidates input rs l) l =
    max (saving rs l) (bxgy_saving weekday candidates input l)"
proof (cases "pickBestBuyXGetYPerLine weekday l candidates input")
  case None
  then show ?thesis
    using assms(2) by (auto simp: bxgy_line_def bxgy_saving_def max_def)
next
  case (Some w)
  then have nm: "\<not> pel_hasManualDiscount l" using pickBestBuyXGetY_Some by blast
  show ?thesis
  proof (cases "result_of_item (pel_itemId l) rs")
    case None
    then show ?thesis
      using Some nm assms(2) by (auto simp: bxgy_line_def bxgy_saving_def saving_def Let_def)
  next
    case (Some e)
    with assms(1) have e: "is_per_unit e" by simp
    show ?thesis
      using Some e nm \<open>pickBestBuyXGetYPerLine weekday l candidates input = Some w\<close>
      by (auto simp: bxgy_line_def bxgy_saving_def saving_def Let_def per_unit_not_bxgy
          existing_total_per_unit)
  qed
qed

lemma line_winners_result:
  assumes "distinct (map pel_itemId (pei_lines input))" and "l \<in> set (pei_lines input)"
  shows "result_of_item (pel_itemId l) (line_winners weekday candidates input) =
    map_option (toLineResult (pel_itemId l)) (pickBestPerLine weekday l candidates input)"
proof -
  let ?f = "\<lambda>line. map_option (toLineResult (pel_itemId line))
         (pickBestPerLine weekday line candidates input)"
  have none: "find (\<lambda>r. lr_itemId r = i) (List.map_filter ?f ls) = None"
    if "i \<notin> pel_itemId ` set ls" for i ls
    using that by (auto simp: list_simps)
  have "find (\<lambda>r. lr_itemId r = pel_itemId l) (List.map_filter ?f ls) = ?f l"
    if "distinct (map pel_itemId ls)" "l \<in> set ls" for ls
    using that
  proof (induction ls)
    case (Cons a ls)
    show ?case
    proof (cases "a = l")
      case True
      with Cons.prems none [of "pel_itemId l" ls] show ?thesis
        by (auto simp: List.map_filter_simps split: option.splits)
    next
      case False
      with Cons.prems have "pel_itemId a \<noteq> pel_itemId l" by auto
      with False Cons show ?thesis
        by (auto simp: List.map_filter_simps split: option.splits)
    qed
  qed simp
  from this [OF assms] show ?thesis by (simp add: result_of_item_def line_winners_def)
qed

lemma line_winners_saving:
  assumes "distinct (map pel_itemId (pei_lines input))" and "l \<in> set (pei_lines input)"
  shows "saving (line_winners weekday candidates input) l = product_saving weekday candidates input l"
proof (cases "pickBestPerLine weekday l candidates input")
  case None
  then show ?thesis by (simp add: saving_def line_winners_result [OF assms] product_saving_def)
next
  case (Some w)
  from pickBestPerLine_Some [OF Some] obtain p where
    "line_candidate weekday input l p = Some w" by blast
  from applied_is_ranked(1) [OF this, of "pel_itemId l"] Some show ?thesis
    by (simp add: saving_def line_winners_result [OF assms] product_saving_def)
qed

lemma product_saving_nonneg:
  assumes "cart_ok (pei_lines input)" and "l \<in> set (pei_lines input)"
  shows "0 \<le> product_saving weekday candidates input l"
proof (cases "pickBestPerLine weekday l candidates input")
  case (Some w)
  from pickBestPerLine_Some [OF Some] obtain p where
    "line_candidate weekday input l p = Some w" by blast
  from applied_is_ranked(2) [OF this] Some assms show ?thesis
    by (auto simp: product_saving_def cart_ok_def)
qed (simp add: product_saving_def)

lemma bxgy_fold_other:
  "i \<notin> pel_itemId ` set ls \<Longrightarrow>
     result_of_item i (foldl (bxgy_line weekday candidates input) rs ls) = result_of_item i rs"
  by (induction ls arbitrary: rs) (auto simp: bxgy_line_other)

lemma bxgy_pass_saving:
  assumes "distinct (map pel_itemId ls)" and "l \<in> set ls"
    and "\<forall>e. result_of_item (pel_itemId l) rs = Some e \<longrightarrow> is_per_unit e" and "0 \<le> saving rs l"
  shows "saving (foldl (bxgy_line weekday candidates input) rs ls) l =
    max (saving rs l) (bxgy_saving weekday candidates input l)"
  using assms
proof (induction ls arbitrary: rs)
  case (Cons a ls)
  show ?case
  proof (cases "a = l")
    case True
    have "pel_itemId l \<notin> pel_itemId ` set ls" using Cons.prems True by auto
    then show ?thesis
      using True saving_bxgy_line [OF Cons.prems(3,4)] by (simp add: saving_def bxgy_fold_other)
  next
    case False
    with Cons.prems have "l \<in> set ls" "pel_itemId a \<notin> pel_itemId ` set ls" by auto
    then have ne: "pel_itemId l \<noteq> pel_itemId a" by (metis imageI)
    have "saving (foldl (bxgy_line weekday candidates input)
        (bxgy_line weekday candidates input rs a) ls) l =
      max (saving (bxgy_line weekday candidates input rs a) l) (bxgy_saving weekday candidates input l)"
      using Cons.prems False ne
      by (intro Cons.IH) (auto simp: bxgy_line_other saving_bxgy_line_other)
    with ne show ?thesis by (simp add: saving_bxgy_line_other)
  qed
qed simp

text \<open>The advanced pass never lowers what a line saves.\<close>

lemma apply_advanced_saving:
  assumes "distinct (map pel_itemId lines)" and "l \<in> set lines"
  shows "saving rs l \<le> saving (apply_advanced_reward lines promo percent rs r) l"
proof (cases "pel_itemId l = avr_itemId r")
  case True
  then have "find (\<lambda>x. pel_itemId x = avr_itemId r) lines = Some l"
    using find_item_unique [OF assms] by simp
  then show ?thesis
    using True by (auto simp: apply_advanced_reward_def Let_def saving_def)
next
  case False
  then show ?thesis
    by (auto simp: apply_advanced_reward_def Let_def saving_def split: option.splits)
qed

lemma advanced_fold_saving:
  assumes "distinct (map pel_itemId lines)" and "l \<in> set lines"
  shows "saving rs l \<le> saving (foldl (apply_advanced_reward lines promo percent) rs us) l"
proof (induction us arbitrary: rs)
  case (Cons u us)
  show ?case
    using Cons.IH [of "apply_advanced_reward lines promo percent rs u"]
      apply_advanced_saving [OF assms, of rs promo percent u] by simp
qed simp

lemma advanced_promo_saving:
  assumes "distinct (map pel_itemId lines)" and "l \<in> set lines"
  shows "saving rs l \<le> saving (advanced_promo weekday lines input rs promo) l"
  using advanced_fold_saving [OF assms]
  by (auto simp: advanced_promo_def Let_def split: option.splits)

lemma advanced_pass_saving:
  assumes "distinct (map pel_itemId lines)" and "l \<in> set lines"
  shows "saving rs l \<le> saving (evaluateAdvancedPass weekday lines ps input rs) l"
  unfolding evaluateAdvancedPass_def
proof (induction ps arbitrary: rs)
  case (Cons p ps)
  show ?case
    using Cons.IH [of "advanced_promo weekday lines input rs p"]
      advanced_promo_saving [OF assms, of rs weekday input p] by simp
qed simp

lemma selected_saving:
  assumes "cart_ok (pei_lines input)" and "l \<in> set (pei_lines input)"
  shows "max (product_saving weekday candidates input l) (bxgy_saving weekday candidates input l)
    \<le> saving (selected_lines weekday candidates input) l"
proof -
  have d: "distinct (map pel_itemId (pei_lines input))" using assms(1) by (simp add: cart_ok_def)
  have "saving (evaluateBuyXGetYPass weekday (pei_lines input) candidates input
      (line_winners weekday candidates input)) l =
    max (product_saving weekday candidates input l) (bxgy_saving weekday candidates input l)"
    unfolding evaluateBuyXGetYPass_def
    using product_saving_nonneg [OF assms, of weekday candidates] line_winners_saving [OF d assms(2)]
    by (subst bxgy_pass_saving [OF d assms(2)])
      (auto simp: line_winners_result [OF d assms(2)] toLineResult_def Let_def)
  then show ?thesis
    unfolding selected_lines_def using advanced_pass_saving [OF d assms(2)] by metis
qed

subsection \<open>Who may win\<close>

text \<open>
  The promotion behind a result was a candidate, passed the gates and was admitted
  by the seller's opt-ins and vetoes.
\<close>

definition may_win ::
  "(timestamp \<Rightarrow> day_of_week) \<Rightarrow> promotion list \<Rightarrow> pos_eval_input \<Rightarrow> ident \<Rightarrow> bool" where
  "may_win weekday candidates input i \<longleftrightarrow>
     (\<exists>p\<in>set candidates. pm_id p = i \<and> passesPromotionWideGates weekday p input \<and>
        method_admits p input)"

lemma put_result_all:
  "\<forall>x\<in>set rs. P x \<Longrightarrow> P r \<Longrightarrow> \<forall>x\<in>set (put_result r rs). P x"
  using set_put_result [of r rs] by blast

lemma bxgy_line_may_win:
  assumes "\<forall>r\<in>set rs. may_win weekday candidates input (lr_promotionId r)"
  shows "\<forall>r\<in>set (bxgy_line weekday candidates input rs l).
    may_win weekday candidates input (lr_promotionId r)"
proof (cases "bxgy_line weekday candidates input rs l = rs")
  case False
  then obtain w where w: "pickBestBuyXGetYPerLine weekday l candidates input = Some w"
    and r: "bxgy_line weekday candidates input rs l = put_result
      (BuyXGetYResult (pel_itemId l) (pm_id (bxc_promotion w)) (pm_title (bxc_promotion w))
        (bxc_lineDiscountCents w) (bxc_perUnitRewardCents w) (bxc_discountedUnitCount w)
        (bxc_getDiscountPercent w)) rs"
    by (auto simp: bxgy_line_def Let_def split: if_splits option.splits)
  from pickBestBuyXGetY_Some [OF w] obtain p where "p \<in> set candidates"
    "bxgy_candidate_of weekday input l p = Some w" by blast
  then have "may_win weekday candidates input (pm_id (bxc_promotion w))"
    by (auto simp: may_win_def elim!: bxgy_candidateE)
  then show ?thesis
    unfolding r using assms by (intro put_result_all) simp_all
qed (use assms in simp)

lemma apply_advanced_may_win:
  assumes "\<forall>r\<in>set rs. P (lr_promotionId r)" and "P (pm_id promo)"
  shows "\<forall>r\<in>set (foldl (apply_advanced_reward lines promo percent) rs us). P (lr_promotionId r)"
  using assms(1)
proof (induction us arbitrary: rs)
  case (Cons u us)
  have "\<forall>r\<in>set (apply_advanced_reward lines promo percent rs u). P (lr_promotionId r)"
    using Cons.prems assms(2)
    by (auto simp: apply_advanced_reward_def Let_def split: option.splits
        dest!: subsetD [OF set_put_result])
  then show ?case by (simp add: Cons.IH)
qed simp

lemma advanced_promo_may_win:
  assumes "\<forall>r\<in>set rs. may_win weekday candidates input (lr_promotionId r)"
    and "p \<in> set candidates"
  shows "\<forall>r\<in>set (advanced_promo weekday lines input rs p).
    may_win weekday candidates input (lr_promotionId r)"
proof (cases "advanced_promo weekday lines input rs p = rs")
  case False
  then have "may_win weekday candidates input (pm_id p)"
    using assms(2) by (auto simp: may_win_def advanced_promo_def method_admits_def split: if_splits)
  then show ?thesis
    using assms(1) apply_advanced_may_win [of rs "may_win weekday candidates input" p]
    by (auto simp: advanced_promo_def Let_def split: option.splits)
qed (use assms in simp)

lemma foldl_pres:
  assumes "P s" and "\<And>s x. x \<in> set xs \<Longrightarrow> P s \<Longrightarrow> P (f s x)"
  shows "P (foldl f s xs)"
  using assms by (induction xs arbitrary: s) simp_all

lemma pickBest_may_win:
  assumes "pickBestPerLine weekday l candidates input = Some w"
  shows "may_win weekday candidates input (pm_id (plc_promotion w))"
proof -
  from pickBestPerLine_Some [OF assms] obtain p where "p \<in> set candidates"
    "line_candidate weekday input l p = Some w" by blast
  then show ?thesis by (auto simp: may_win_def elim!: line_candidateE)
qed

lemma selected_lines_may_win:
  "\<forall>r\<in>set (selected_lines weekday candidates input).
     may_win weekday candidates input (lr_promotionId r)"
proof -
  have 1: "\<forall>r\<in>set (line_winners weekday candidates input).
      may_win weekday candidates input (lr_promotionId r)"
    using pickBest_may_win by (auto simp: line_winners_def)
  have 2: "\<forall>r\<in>set (foldl (bxgy_line weekday candidates input) rs ls).
      may_win weekday candidates input (lr_promotionId r)"
    if "\<forall>r\<in>set rs. may_win weekday candidates input (lr_promotionId r)" for rs ls
    using that by (rule foldl_pres) (rule bxgy_line_may_win)
  have 3: "\<forall>r\<in>set (foldl (advanced_promo weekday lines input) rs ps).
      may_win weekday candidates input (lr_promotionId r)"
    if "\<forall>r\<in>set rs. may_win weekday candidates input (lr_promotionId r)"
      "set ps \<subseteq> set candidates" for rs ps lines
    using that(1) by (rule foldl_pres) (rule advanced_promo_may_win, use that(2) in auto)
  show ?thesis
    unfolding selected_lines_def evaluateBuyXGetYPass_def evaluateAdvancedPass_def
    by (intro 3 2 1) simp
qed

lemma order_pick:
  assumes "pickBestOrderPromo weekday candidates input prePromo postLine = Some r"
  shows "\<exists>p\<in>set candidates. order_candidate weekday input prePromo postLine p =
      Some (p, orr_discountAmountCents r) \<and> orr_promotionId r = pm_id p \<and>
    (\<forall>q\<in>set candidates. \<forall>d. order_candidate weekday input prePromo postLine q = Some (q, d) \<longrightarrow>
       d \<le> orr_discountAmountCents r)"
proof -
  let ?cs = "List.map_filter (order_candidate weekday input prePromo postLine) candidates"
  obtain w where w: "pick_best snd (\<lambda>c. pm_id (fst c)) None ?cs = Some w"
    and r: "orr_promotionId r = pm_id (fst w)" "orr_discountAmountCents r = snd w"
    using assms by (auto simp: pickBestOrderPromo_def split: prod.splits)
  from order_ranking.pick_in [OF w] obtain p where p: "p \<in> set candidates"
    "order_candidate weekday input prePromo postLine p = Some w" by auto
  moreover have "fst w = p"
    using p(2) by (auto simp: order_candidate_def Let_def split: if_splits)
  ultimately show ?thesis
    using r order_ranking.worth_max [OF w] by (intro bexI [of _ p]) (fastforce, assumption)
qed

lemma order_candidate_bounds:
  assumes "order_candidate weekday input prePromo postLine p = Some (p, d)"
  shows "0 < d \<and> d \<le> postLine \<and> pm_type p = OrderDiscount \<and> method_admits p input \<and>
    passesPromotionWideGates weekday p input"
proof -
  have c: "d = computeOrderDiscountCents p postLine" "0 < d" "0 < postLine"
    "pm_type p = OrderDiscount" "method_admits p input" "passesPromotionWideGates weekday p input"
    using assms by (auto simp: order_candidate_def Let_def split: if_splits)
  have "round_percent postLine (clampPercentageToSafeRange n) \<le> postLine" for n
    using c(3) clamp_bounds [of n] by (intro round_percent_le) auto
  then show ?thesis
    using c by (auto simp: computeOrderDiscountCents_def simp del: clampPercentageToSafeRange.simps
        split: option.splits promo_discount_type.splits)
qed

subsection \<open>The order subtotal\<close>

text \<open>
  What the pass subtracts from the gross of a line before it ranks the order
  discounts: the whole reward of a reward line, but only one unit's worth of a
  per-unit discount.
\<close>

lemma line_discounts_get:
  assumes "distinct (map pel_itemId lines)" and "l \<in> set lines" and "distinct (map lr_itemId rs)"
  shows "assoc_get (line_discounts lines rs) (pel_itemId l) =
    map_option (computeAppliedDiscountCents l) (result_of_item (pel_itemId l) rs)"
proof -
  let ?step = "\<lambda>m r. case find (\<lambda>l. pel_itemId l = lr_itemId r) lines of
                    None \<Rightarrow> m
                  | Some l \<Rightarrow> assoc_set m (lr_itemId r) (computeAppliedDiscountCents l r)"
  have "assoc_get (foldl ?step m rs) (pel_itemId l) =
     (case find (\<lambda>r. lr_itemId r = pel_itemId l) rs of
        None \<Rightarrow> assoc_get m (pel_itemId l)
      | Some r \<Rightarrow> Some (computeAppliedDiscountCents l r))"
    if "distinct (map lr_itemId rs)" for m
    using that
  proof (induction rs arbitrary: m)
    case (Cons r rs)
    define m' where "m' = ?step m r"
    have IH: "assoc_get (foldl ?step m (r # rs)) (pel_itemId l) =
      (case find (\<lambda>r. lr_itemId r = pel_itemId l) rs of
         None \<Rightarrow> assoc_get m' (pel_itemId l)
       | Some r \<Rightarrow> Some (computeAppliedDiscountCents l r))"
      using Cons.IH [of m'] Cons.prems by (simp add: m'_def)
    show ?case
    proof (cases "lr_itemId r = pel_itemId l")
      case True
      have "find (\<lambda>x. pel_itemId x = lr_itemId r) lines = Some l"
        using find_item_unique [OF assms(1,2)] True by simp
      then have "assoc_get m' (pel_itemId l) = Some (computeAppliedDiscountCents l r)"
        using True by (simp add: m'_def)
      moreover have "find (\<lambda>r. lr_itemId r = pel_itemId l) rs = None"
        using Cons.prems True by (simp add: list_simps) (metis imageI)
      ultimately show ?thesis
        unfolding IH using True by simp
    next
      case False
      then have "assoc_get m' (pel_itemId l) = assoc_get m (pel_itemId l)"
        by (auto simp: m'_def split: option.splits)
      with False show ?thesis unfolding IH by (simp split: option.splits)
    qed
  qed simp
  from this [OF assms(3), of "[]"] show ?thesis
    by (auto simp: line_discounts_def result_of_item_def split: option.splits)
qed

text \<open>The part of a per-unit saving that the order subtotal misses.\<close>

definition missed_saving :: "line_result list \<Rightarrow> pos_eval_line \<Rightarrow> cents" where
  "missed_saving rs l =
     (case result_of_item (pel_itemId l) rs of
        None \<Rightarrow> 0
      | Some r \<Rightarrow>
          if is_per_unit r then computeAppliedDiscountCents l r * (pel_quantity l - 1) else 0)"

lemma applied_split:
  "(case result_of_item (pel_itemId l) rs of None \<Rightarrow> 0
      | Some r \<Rightarrow> computeAppliedDiscountCents l r) = saving rs l - missed_saving rs l"
proof (cases "result_of_item (pel_itemId l) rs")
  case (Some r)
  then show ?thesis
    by (cases r) (simp_all add: saving_def missed_saving_def algebra_simps)
qed (simp add: saving_def missed_saving_def)

lemma postLine_excess:
  assumes "distinct (map pel_itemId lines)" and "distinct (map lr_itemId rs)"
  shows "postLineSubtotalCents lines rs =
    (\<Sum>l\<leftarrow>lines. line_gross l - saving rs l) + (\<Sum>l\<leftarrow>lines. missed_saving rs l)"
proof -
  have eq: "or_default (assoc_get (line_discounts lines rs) (pel_itemId l)) 0 =
      saving rs l - missed_saving rs l" if "l \<in> set lines" for l
    using line_discounts_get [OF assms(1) that assms(2)] applied_split [of l rs]
    by (auto split: option.splits)
  have "postLineSubtotalCents lines rs =
      (\<Sum>l\<leftarrow>lines. (line_gross l - saving rs l) + missed_saving rs l)"
    unfolding postLineSubtotalCents_def
    by (intro arg_cong [where f = sum_list] map_cong) (simp_all add: eq line_gross_def)
  then show ?thesis by (simp add: sum_list_addf)
qed

subsection \<open>Capacity demands\<close>

fun result_units :: "pos_eval_line list \<Rightarrow> line_result \<Rightarrow> int" where
  "result_units lines (PerUnitResult i p t v title) =
     (case find (\<lambda>l. pel_itemId l = i) lines of None \<Rightarrow> 0 | Some l \<Rightarrow> pel_quantity l)"
| "result_units lines (BuyXGetYResult i p title r u n pc) = n"
| "result_units lines (AdvancedResult i p title r u n pc) = n"

definition demanded ::
  "pos_eval_line list \<Rightarrow> line_result list \<Rightarrow> order_result option \<Rightarrow> ident \<Rightarrow> int" where
  "demanded lines results order i =
     (\<Sum>r\<leftarrow>filter (\<lambda>r. lr_promotionId r = i) results. result_units lines r) +
     (case order of
        None \<Rightarrow> 0
      | Some w \<Rightarrow> if orr_promotionId w = i then (\<Sum>l\<leftarrow>lines. pel_quantity l) else 0)"

definition units_in :: "(ident \<times> int) list \<Rightarrow> ident \<Rightarrow> int" where
  "units_in m i = or_default (assoc_get m i) 0"

lemma demanded_winner:
  assumes "0 < demanded lines rs order i"
  shows "(\<exists>r\<in>set rs. lr_promotionId r = i) \<or> (\<exists>w. order = Some w \<and> orr_promotionId w = i)"
proof (rule ccontr)
  assume "\<not> ?thesis"
  then have "filter (\<lambda>r. lr_promotionId r = i) rs = []"
    and "\<forall>w. order = Some w \<longrightarrow> orr_promotionId w \<noteq> i" by (auto simp: filter_empty_conv)
  then have "demanded lines rs order i = 0"
    by (auto simp: demanded_def split: option.splits)
  with assms show False by simp
qed

lemma units_in_add [simp]:
  "units_in (add_units p n m) i = units_in m i + (if p = i then n else 0)"
  by (simp add: units_in_def add_units_def)

lemma units_in_result:
  "units_in (add_result_units lines m r) i =
     units_in m i + (if lr_promotionId r = i then result_units lines r else 0)"
  by (cases r) (auto split: option.splits)

lemma units_in_fold:
  "units_in (foldl (add_result_units lines) m rs) i =
     units_in m i + (\<Sum>r\<leftarrow>filter (\<lambda>r. lr_promotionId r = i) rs. result_units lines r)"
  by (induction rs arbitrary: m) (auto simp: units_in_result)

lemma distinct_add_result:
  "distinct (map fst m) \<Longrightarrow> distinct (map fst (add_result_units lines m r))"
  by (cases r) (auto simp: add_units_def distinct_assoc_set split: option.splits)

lemma units_in_mem:
  "distinct (map fst m) \<Longrightarrow> (i, u) \<in> set m \<Longrightarrow> units_in m i = u"
  by (simp add: units_in_def assoc_get_in)

lemma units_in_pos: "units_in m i \<noteq> 0 \<Longrightarrow> (i, units_in m i) \<in> set m"
  by (cases "assoc_get m i") (auto simp: units_in_def dest: assoc_get_SomeD)

lemma distinct_map_filter_fst: "distinct (map fst m) \<Longrightarrow> distinct (map fst (filter P m))"
  by (induction m) auto

lemma distinct_map_sort_key: "distinct (map f (sort_key g xs)) \<longleftrightarrow> distinct (map f xs)"
proof -
  have "mset (map f (sort_key g xs)) = mset (map f xs)" by simp
  then show ?thesis by (rule mset_eq_imp_distinct_iff)
qed

lemma demands_spec:
  shows "(i, u) \<in> set (computePromotionCapacityDemands lines rs order) \<longleftrightarrow>
      0 < u \<and> u = demanded lines rs order i"
    and "sorted (map fst (computePromotionCapacityDemands lines rs order))"
    and "distinct (map fst (computePromotionCapacityDemands lines rs order))"
proof -
  define m where "m = (case order of
      None \<Rightarrow> foldl (add_result_units lines) [] rs
    | Some w \<Rightarrow> add_units (orr_promotionId w) (\<Sum>l\<leftarrow>lines. pel_quantity l)
        (foldl (add_result_units lines) [] rs))"
  have c: "computePromotionCapacityDemands lines rs order =
      sort_key fst (filter (\<lambda>(p, units). 0 < units) m)"
    by (auto simp: computePromotionCapacityDemands_def m_def Let_def split: option.splits)
  have d0: "distinct (map fst (foldl (add_result_units lines) [] rs))"
    by (rule foldl_pres) (auto intro: distinct_add_result)
  then have d: "distinct (map fst m)"
    by (auto simp: m_def add_units_def distinct_assoc_set split: option.splits)
  have u: "units_in m i = demanded lines rs order i" for i
    by (auto simp: m_def demanded_def units_in_fold units_in_def [of "[]"] split: option.splits)
  show "(i, u) \<in> set (computePromotionCapacityDemands lines rs order) \<longleftrightarrow>
      0 < u \<and> u = demanded lines rs order i"
    unfolding c using units_in_mem [OF d, of i u] units_in_pos [of m i] u by auto
  show "sorted (map fst (computePromotionCapacityDemands lines rs order))"
    unfolding c by simp
  show "distinct (map fst (computePromotionCapacityDemands lines rs order))"
    unfolding c distinct_map_sort_key by (rule distinct_map_filter_fst [OF d])
qed

subsection \<open>The capacity loop\<close>

lemma evaluate_loop_pass:
  "\<exists>ex. evaluate_loop weekday input loaded excluded = pso_result (runEvaluationPass weekday input loaded ex)
     \<and> findCapacityOverrunIds (runEvaluationPass weekday input loaded ex) = []
     \<and> set excluded \<subseteq> set ex \<and> set ex \<subseteq> set excluded \<union> pm_id ` set loaded"
proof (induction weekday input loaded excluded rule: evaluate_loop.induct)
  case (1 weekday input loaded excluded)
  define over where "over = findCapacityOverrunIds (runEvaluationPass weekday input loaded excluded)"
  show ?case
  proof (cases "over = []")
    case True
    then show ?thesis
      by (intro exI [of _ excluded]) (simp add: over_def evaluate_loop.simps Let_def)
  next
    case False
    have "set over \<subseteq> pm_id ` set loaded"
      using overrun_is_candidate by (auto simp: over_def)
    moreover have "evaluate_loop weekday input loaded excluded =
        evaluate_loop weekday input loaded (foldl set_add excluded over)"
      using False by (subst evaluate_loop.simps) (simp add: over_def Let_def)
    ultimately show ?thesis
      using 1 [OF refl over_def False] by fastforce
  qed
qed

lemma run_pass_fields:
  "per_lines (pso_result (runEvaluationPass weekday input loaded ex)) =
     selected_lines weekday (filter (\<lambda>p. pm_id p \<notin> set ex) loaded) input"
  "per_order (pso_result (runEvaluationPass weekday input loaded ex)) =
     selected_order weekday (filter (\<lambda>p. pm_id p \<notin> set ex) loaded) input
       (selected_lines weekday (filter (\<lambda>p. pm_id p \<notin> set ex) loaded) input)"
  "per_promotionCapacityDemands (pso_result (runEvaluationPass weekday input loaded ex)) =
     computePromotionCapacityDemands (pei_lines input)
       (per_lines (pso_result (runEvaluationPass weekday input loaded ex)))
       (per_order (pso_result (runEvaluationPass weekday input loaded ex)))"
  "per_capacityExcludedPromotionIds (pso_result (runEvaluationPass weekday input loaded ex)) = sort ex"
  by (simp_all add: runEvaluationPass_def evaluation_pass_def Let_def)

lemma pass_winner_candidate:
  fixes ex weekday input loaded
  defines "res \<equiv> pso_result (runEvaluationPass weekday input loaded ex)"
  assumes "(\<exists>r\<in>set (per_lines res). lr_promotionId r = i) \<or>
    (\<exists>w. per_order res = Some w \<and> orr_promotionId w = i)"
  shows "i \<in> pm_id ` set loaded \<and> i \<notin> set ex \<and> may_win weekday loaded input i"
proof -
  let ?cs = "filter (\<lambda>p. pm_id p \<notin> set ex) loaded"
  have "may_win weekday ?cs input i"
    using assms(2)
  proof
    assume "\<exists>r\<in>set (per_lines res). lr_promotionId r = i"
    then show ?thesis
      using selected_lines_may_win [of weekday ?cs input] by (auto simp: res_def run_pass_fields)
  next
    assume "\<exists>w. per_order res = Some w \<and> orr_promotionId w = i"
    then obtain w where "selected_order weekday ?cs input (selected_lines weekday ?cs input) = Some w"
      "orr_promotionId w = i" by (auto simp: res_def run_pass_fields)
    then show ?thesis
      unfolding selected_order_def
      by (fastforce simp: may_win_def dest!: order_pick order_candidate_bounds)
  qed
  then show ?thesis by (auto simp: may_win_def)
qed

lemma remaining_get:
  assumes "distinct (map pm_id ps)" and "p \<in> set ps"
  shows "assoc_get (foldl (\<lambda>m p. assoc_set m (pm_id p) (remainingProductUnits p)) m ps) (pm_id p) =
    Some (remainingProductUnits p)"
proof -
  have keep: "assoc_get (foldl (\<lambda>m p. assoc_set m (pm_id p) (remainingProductUnits p)) m ps) i =
      assoc_get m i" if "i \<notin> pm_id ` set ps" for i m ps
    using that by (induction ps arbitrary: m) auto
  show ?thesis
    using assms by (induction ps arbitrary: m) (auto simp: keep)
qed

subsection \<open>Order of the candidates and of the rewards\<close>

lemma foldl_max_set:
  assumes "set xs = set ys"
  shows "foldl (\<lambda>m c. max m (f c)) (0::nat) xs = foldl (\<lambda>m c. max m (f c)) 0 ys"
proof -
  have "foldl (\<lambda>m c. max m (f c)) (0::nat) us \<le> foldl (\<lambda>m c. max m (f c)) 0 vs"
    if "set us \<subseteq> set vs" for us vs
    using foldl_max_attained [of f 0 us] foldl_max_upper [of vs f 0] that by (metis subsetD zero_le)
  then show ?thesis using assms by (intro antisym) auto
qed

lemma line_candidate_id:
  "line_candidate weekday input line p = Some c \<Longrightarrow> plc_promotion c = p"
  by (auto elim!: line_candidateE)

lemma pickBestPerLine_order_free:
  assumes "set cs = set cs'" and "inj_on pm_id (set cs)"
  shows "pickBestPerLine weekday line cs input = pickBestPerLine weekday line cs' input"
proof -
  let ?e = "\<lambda>cs. List.map_filter (line_candidate weekday input line) cs"
  let ?top = "foldl (\<lambda>m c. max m (TIER_ORDINAL (plc_tier c))) 0 (?e cs)"
  have sets: "set (?e cs) = set (?e cs')" using assms(1) by simp
  then have top: "foldl (\<lambda>m c. max m (TIER_ORDINAL (plc_tier c))) 0 (?e cs') = ?top"
    by (intro foldl_max_set) simp
  have inj: "inj_on (\<lambda>c. pm_id (plc_promotion c))
      (set (filter (\<lambda>c. TIER_ORDINAL (plc_tier c) = ?top) (?e cs)))"
  proof (rule inj_onI)
    fix a b
    assume a: "a \<in> set (filter (\<lambda>c. TIER_ORDINAL (plc_tier c) = ?top) (?e cs))"
      and b: "b \<in> set (filter (\<lambda>c. TIER_ORDINAL (plc_tier c) = ?top) (?e cs))"
      and eq: "pm_id (plc_promotion a) = pm_id (plc_promotion b)"
    from a b obtain p q where p: "p \<in> set cs" "line_candidate weekday input line p = Some a"
      and q: "q \<in> set cs" "line_candidate weekday input line q = Some b" by auto
    then have "p = q" using eq assms(2) by (auto dest!: line_candidate_id dest: inj_onD)
    with p q show "a = b" by simp
  qed
  have "pickBestByMaxDiscountThenLowestId
      (filter (\<lambda>c. TIER_ORDINAL (plc_tier c) = ?top) (?e cs)) =
    pickBestByMaxDiscountThenLowestId
      (filter (\<lambda>c. TIER_ORDINAL (plc_tier c) = ?top) (?e cs'))"
    by (rule line_ranking.order_free [OF _ inj]) (use sets in simp)
  moreover have "?e cs = [] \<longleftrightarrow> ?e cs' = []"
    using sets by (metis set_empty)
  ultimately show ?thesis
    by (simp add: pickBestPerLine_def Let_def top)
qed

lemma allocate_sorted:
  "sorted (map gtc_itemId ls) \<Longrightarrow> sorted (map avr_itemId (allocate percent pool ls))"
proof (induction percent pool ls rule: allocate.induct)
  case (2 percent pool l ls)
  have "gtc_itemId l \<le> avr_itemId r" if "r \<in> set (allocate percent p ls)" for r p
    using allocate_mem [OF that] 2 by auto
  with 2 show ?case by (auto simp: Let_def)
qed simp

subsection \<open>A sample evaluation\<close>

definition sample_line :: pos_eval_line where
  "sample_line =
     \<lparr>pel_itemId = ''i1'', pel_productId = ''prod'', pel_variantId = None, pel_quantity = 2,
      pel_effectiveUnitPriceCents = 1000, pel_appliedPriceListId = None,
      pel_appliedGlobalPriceListId = None, pel_categoryId = None, pel_brandId = None,
      pel_hasManualDiscount = False\<rparr>"

definition sample_input :: pos_eval_input where
  "sample_input =
     \<lparr>pei_botEligibleOnly = False, pei_treatCustomerAsUnregistered = False, pei_now = 0,
      pei_customerId = None, pei_lines = [sample_line], pei_vetoedPromotionIds = [],
      pei_optedInManualPromotionIds = []\<rparr>"

definition plain_promotion :: "ident \<Rightarrow> promotion_type \<Rightarrow> promotion" where
  "plain_promotion i t =
     \<lparr>pm_botEligible = False, pm_id = i, pm_title = i, pm_type = t, pm_method = Automatic,
      pm_status = PromoActive, pm_manuallyEnded = False, pm_startDate = None, pm_endDate = None,
      pm_customerScope = ScopeAll, pm_discountType = None, pm_discountValue = None,
      pm_minPurchaseAmountCents = None, pm_appliesTo = None, pm_buyQuantity = None,
      pm_getQuantity = None, pm_getDiscountPercent = None, pm_buyTargetType = None,
      pm_getTargetType = None, pm_maxProductUnits = None, pm_consumedProductUnits = 0,
      pm_createdAt = 0, pm_updatedAt = 0, pm_targetItems = [], pm_customers = [],
      pm_priceLists = [], pm_daysOfWeek = []\<rparr>"

definition product_target :: promotion_target where
  "product_target =
     \<lparr>ptg_id = ''t'', ptg_side = SideDefault, ptg_targetType = TargetProducts,
      ptg_targetId = ''prod''\<rparr>"

text \<open>Ten percent off the product, and ten percent off the order.\<close>

definition pd_promotion :: promotion where
  "pd_promotion = (plain_promotion ''pd'' ProductDiscount)
     \<lparr>pm_discountType := Some PromoPercentage, pm_discountValue := Some 10,
      pm_appliesTo := Some TargetProducts, pm_targetItems := [product_target]\<rparr>"

definition od_promotion :: promotion where
  "od_promotion = (plain_promotion ''od'' OrderDiscount)
     \<lparr>pm_discountType := Some PromoPercentage, pm_discountValue := Some 10\<rparr>"

lemmas sample_engine_simps =
  sample_line_def sample_input_def plain_promotion_def product_target_def pd_promotion_def
  od_promotion_def

lemmas engine_eval_simps =
  sample_engine_simps selected_lines_def evaluateAdvancedPass_def
  evaluateBuyXGetYPass_def line_winners_def List.map_filter_simps pickBestPerLine_def
  line_candidate_def method_admits_def passesPromotionWideGates_def isSupportedEngineType_def
  getEffectiveStatus_def matchTargetTier_def target_hit_def matchesPriceList_def
  computeLineDiscountCents_def round_percent_def Let_def pickBestByMaxDiscountThenLowestId_def
  toLineResult_def bxgy_line_def pickBestBuyXGetYPerLine_def bxgy_candidate_of_def
  advanced_promo_def result_of_item_def

lemma sample_lines:
  "selected_lines weekday [pd_promotion, od_promotion] sample_input =
     [PerUnitResult ''i1'' ''pd'' PercentageDiscount 10 ''pd'']"
  by (simp add: engine_eval_simps)

lemma sample_cart: "cart_ok (pei_lines sample_input)"
  and sample_shapes: "\<forall>p\<in>set [pd_promotion, od_promotion]. promotion_shape p"
  and sample_ids: "distinct (map pm_id [pd_promotion, od_promotion])"
  by (simp_all add: cart_ok_def sample_engine_simps promotion_shape_def)

lemma sample_pass:
  "pso_result (runEvaluationPass (\<lambda>_. Monday) sample_input [pd_promotion, od_promotion] []) =
     evaluate (\<lambda>_. Monday) sample_input [pd_promotion, od_promotion]"
proof -
  have "findCapacityOverrunIds
      (runEvaluationPass (\<lambda>_. Monday) sample_input [pd_promotion, od_promotion] []) = []"
    by (simp add: findCapacityOverrunIds_def overruns_def pass_remaining filter_empty_conv
        pd_promotion_def od_promotion_def plain_promotion_def remainingProductUnits_def)
  then show ?thesis
    by (simp add: evaluate_def evaluate_loop.simps Let_def sample_input_def)
qed

text \<open>One unit left for a line of two: the promotion is excluded.\<close>

definition capped_promotion :: promotion where
  "capped_promotion = pd_promotion\<lparr>pm_maxProductUnits := Some 1\<rparr>"

lemma capped_lines:
  "selected_lines weekday [capped_promotion] sample_input =
     [PerUnitResult ''i1'' ''pd'' PercentageDiscount 10 ''pd'']"
  by (simp add: capped_promotion_def engine_eval_simps)

lemma capped_excluded:
  "''pd'' \<in> set (per_capacityExcludedPromotionIds
      (evaluate (\<lambda>_. Monday) sample_input [capped_promotion]))"
proof -
  have order: "selected_order (\<lambda>_. Monday) [capped_promotion] sample_input rs = None" for rs
    by (simp add: selected_order_def pickBestOrderPromo_def order_candidate_def
        List.map_filter_simps capped_promotion_def pd_promotion_def plain_promotion_def)
  have "per_promotionCapacityDemands (pso_result
      (runEvaluationPass (\<lambda>_. Monday) sample_input [capped_promotion] [])) = [(''pd'', 2)]"
    unfolding run_pass_fields
    by (simp add: capped_lines order)
      (simp add: computePromotionCapacityDemands_def add_units_def sample_input_def sample_line_def)
  moreover have "pso_remaining
      (runEvaluationPass (\<lambda>_. Monday) sample_input [capped_promotion] []) = [(''pd'', Some 1)]"
    by (simp add: pass_remaining capped_promotion_def pd_promotion_def plain_promotion_def
        remainingProductUnits_def)
  ultimately have over: "findCapacityOverrunIds
      (runEvaluationPass (\<lambda>_. Monday) sample_input [capped_promotion] []) = [''pd'']"
    by (simp add: findCapacityOverrunIds_def overruns_def)
  have none: "findCapacityOverrunIds
      (runEvaluationPass (\<lambda>_. Monday) sample_input [capped_promotion] [''pd'']) = []"
    by (simp add: findCapacityOverrunIds_def overruns_def pass_remaining filter_empty_conv
        capped_promotion_def pd_promotion_def plain_promotion_def)
  have "evaluate (\<lambda>_. Monday) sample_input [capped_promotion] =
      pso_result (runEvaluationPass (\<lambda>_. Monday) sample_input [capped_promotion] [''pd''])"
    using over none
    by (simp add: evaluate_def evaluate_loop.simps Let_def sample_input_def set_add_def)
  then show ?thesis by (simp add: run_pass_fields)
qed

subsection \<open>Properties\<close>

text \<open>
  The product discount of a line is the best of the most specific ones.
  The winner is eligible on the line; no eligible promotion has a more specific
  target; among those as specific it has the largest discount and, on a tie, the
  smallest id; and the discount it was ranked by is the one its result applies,
  positive and at most the price.
\<close>

theorem line_winner_is_best:
  assumes "pickBestPerLine weekday line candidates input = Some w"
  shows "(\<exists>p\<in>set candidates. line_candidate weekday input line p = Some w) \<and>
    (\<forall>p\<in>set candidates. \<forall>c. line_candidate weekday input line p = Some c \<longrightarrow>
       TIER_ORDINAL (plc_tier c) \<le> TIER_ORDINAL (plc_tier w) \<and>
       (TIER_ORDINAL (plc_tier c) = TIER_ORDINAL (plc_tier w) \<longrightarrow>
          plc_discountCents c < plc_discountCents w \<or>
          plc_discountCents c = plc_discountCents w \<and>
            pm_id (plc_promotion w) \<le> pm_id (plc_promotion c))) \<and>
    computeAppliedDiscountCents line (toLineResult i w) = plc_discountCents w \<and>
    0 < plc_discountCents w \<and> plc_discountCents w \<le> pel_effectiveUnitPriceCents line"
proof -
  note best = pickBestPerLine_Some [OF assms]
  then obtain p where "line_candidate weekday input line p = Some w" by blast
  note applied = applied_is_ranked(1) [OF this, of i] applied_is_ranked(2,3) [OF this]
  from best applied show ?thesis by (auto simp: better_def)
qed

theorem line_winner_is_best_witness:
  "\<exists>w. pickBestPerLine (\<lambda>_. Monday) sample_line [od_promotion, pd_promotion] sample_input = Some w \<and>
     0 < plc_discountCents w"
proof -
  have "\<exists>w. pickBestPerLine (\<lambda>_. Monday) sample_line [od_promotion, pd_promotion] sample_input = Some w"
    by (simp add: engine_eval_simps)
  then obtain w where
    h: "pickBestPerLine (\<lambda>_. Monday) sample_line [od_promotion, pd_promotion] sample_input = Some w" ..
  with line_winner_is_best [OF h] show ?thesis by blast
qed

text \<open>
  One result per line, within the line.  On a cart with distinct lines,
  prices that are not negative and positive quantities, and with well-formed
  promotions, the selected results are about distinct lines of the cart, never
  about a line with a manual discount, and each takes off more than nothing and at
  most the gross of its line.
\<close>

theorem one_result_per_line:
  assumes "cart_ok (pei_lines input)" and "\<forall>p\<in>set candidates. promotion_shape p"
  shows "distinct (map lr_itemId (selected_lines weekday candidates input)) \<and>
    (\<forall>r\<in>set (selected_lines weekday candidates input). \<exists>l\<in>set (pei_lines input).
       pel_itemId l = lr_itemId r \<and> \<not> pel_hasManualDiscount l \<and>
       0 < existingLineResultTotalCents l (Some r) \<and>
       existingLineResultTotalCents l (Some r) \<le> pel_effectiveUnitPriceCents l * pel_quantity l)"
  using selected_lines_ok [OF assms, of weekday]
  by (simp add: results_ok_def result_ok_def line_gross_def)

theorem one_result_per_line_witness:
  "cart_ok (pei_lines sample_input) \<and>
   distinct (map lr_itemId (selected_lines (\<lambda>_. Monday) [pd_promotion, od_promotion] sample_input))"
  using one_result_per_line [OF sample_cart sample_shapes] sample_cart by blast

text \<open>
  Property C33: no line saves less than it could.  After all passes each line saves
  at least what its best product discount takes off the whole line, and at least
  what any eligible buy-x-get-y promotion rewards on it: a later pass replaces a
  result only by one that saves as much or more.
\<close>

theorem line_saving_maximal:
  assumes "cart_ok (pei_lines input)" and "l \<in> set (pei_lines input)"
    and "\<not> pel_hasManualDiscount l"
  shows "(\<forall>w. pickBestPerLine weekday l candidates input = Some w \<longrightarrow>
       plc_discountCents w * pel_quantity l \<le>
         existingLineResultTotalCents l
           (result_of_item (pel_itemId l) (selected_lines weekday candidates input))) \<and>
    (\<forall>p\<in>set candidates. \<forall>c. bxgy_candidate_of weekday input l p = Some c \<longrightarrow>
       bxc_lineDiscountCents c \<le>
         existingLineResultTotalCents l
           (result_of_item (pel_itemId l) (selected_lines weekday candidates input)))"
proof -
  have m: "max (product_saving weekday candidates input l) (bxgy_saving weekday candidates input l)
      \<le> saving (selected_lines weekday candidates input) l"
    by (rule selected_saving [OF assms(1,2)])
  have "bxc_lineDiscountCents c \<le> bxgy_saving weekday candidates input l"
    if p: "p \<in> set candidates" and c: "bxgy_candidate_of weekday input l p = Some c" for p c
  proof -
    let ?cs = "List.map_filter (bxgy_candidate_of weekday input l) candidates"
    have "c \<in> set ?cs" using p c by auto
    moreover from this obtain w where
      w: "pick_best bxc_lineDiscountCents (\<lambda>c. pm_id (bxc_promotion c)) None ?cs = Some w"
      using bxgy_ranking.pick_None [of ?cs] by (cases ?cs) auto
    ultimately show ?thesis
      using bxgy_ranking.worth_max [OF w] assms(3)
      by (simp add: bxgy_saving_def pickBestBuyXGetYPerLine_def)
  qed
  with m show ?thesis by (auto simp: saving_def product_saving_def) fastforce+
qed

theorem line_saving_maximal_witness:
  "200 \<le> existingLineResultTotalCents sample_line
     (result_of_item (pel_itemId sample_line)
       (selected_lines (\<lambda>_. Monday) [pd_promotion] sample_input))"
proof -
  have mem: "sample_line \<in> set (pei_lines sample_input)" "\<not> pel_hasManualDiscount sample_line"
    by (simp_all add: sample_engine_simps)
  have "pickBestPerLine (\<lambda>_. Monday) sample_line [pd_promotion] sample_input =
      Some \<lparr>plc_promotion = pd_promotion, plc_discountCents = 100, plc_tier = TierProduct\<rparr>"
    by (simp add: engine_eval_simps)
  with line_saving_maximal [OF sample_cart mem, of "\<lambda>_. Monday" "[pd_promotion]"]
  have "100 * pel_quantity sample_line \<le> existingLineResultTotalCents sample_line
      (result_of_item (pel_itemId sample_line)
        (selected_lines (\<lambda>_. Monday) [pd_promotion] sample_input))"
    by force
  then show ?thesis by (simp add: sample_line_def)
qed

text \<open>
  Property C13: who may win.  Every promotion behind a line result or the order
  result of an evaluation is one the repository returned, is active at the time of
  the evaluation, was not vetoed, and, when it is manual, was opted in by the
  seller; for a bot evaluation it is offered to the bot.
\<close>

theorem winners_admitted:
  assumes "(\<exists>r\<in>set (per_lines (evaluate weekday input data)). lr_promotionId r = i) \<or>
    (\<exists>w. per_order (evaluate weekday input data) = Some w \<and> orr_promotionId w = i)"
  shows "i \<notin> set (pei_vetoedPromotionIds input) \<and>
    (\<exists>p\<in>set data. pm_id p = i \<and> getEffectiveStatus (pei_now input) p = PromoActive \<and>
       (pm_method p = Manual \<longrightarrow> i \<in> set (pei_optedInManualPromotionIds input)) \<and>
       (pei_botEligibleOnly input \<longrightarrow> pm_botEligible p))"
proof -
  let ?loaded = "if pei_botEligibleOnly input then filter pm_botEligible data else data"
  obtain ex where "evaluate weekday input data =
      pso_result (runEvaluationPass weekday input ?loaded ex)"
    using evaluate_loop_pass [of weekday input ?loaded "[]"] by (auto simp: evaluate_def)
  with assms have "may_win weekday ?loaded input i"
    using pass_winner_candidate [of weekday input ?loaded ex i] by simp
  then show ?thesis
    by (auto simp: may_win_def method_admits_def passesPromotionWideGates_def split: if_splits)
qed

theorem winners_admitted_witness:
  "\<exists>p\<in>set [pd_promotion, od_promotion]. pm_id p = ''pd'' \<and>
     getEffectiveStatus 0 p = PromoActive"
proof -
  have "per_lines (evaluate (\<lambda>_. Monday) sample_input [pd_promotion, od_promotion]) =
      selected_lines (\<lambda>_. Monday) [pd_promotion, od_promotion] sample_input"
    unfolding sample_pass [symmetric] run_pass_fields by simp
  then have "\<exists>r\<in>set (per_lines (evaluate (\<lambda>_. Monday) sample_input [pd_promotion, od_promotion])).
      lr_promotionId r = ''pd''"
    by (simp add: sample_lines)
  from winners_admitted [OF disjI1, OF this] show ?thesis
    by (auto simp: sample_input_def)
qed

lemma demand_fits:
  assumes "distinct (map pm_id data)"
    and "(i, u) \<in> set (per_promotionCapacityDemands (evaluate weekday input data))"
  shows "0 < u \<and> (\<exists>p\<in>set data. pm_id p = i \<and>
    (\<forall>r. remainingProductUnits p = Some r \<longrightarrow> u \<le> r))"
proof -
  define loaded where "loaded = (if pei_botEligibleOnly input then filter pm_botEligible data else data)"
  have dl: "distinct (map pm_id loaded)" "set loaded \<subseteq> set data"
    using assms(1) distinct_map_filter [of pm_id data pm_botEligible] by (auto simp: loaded_def)
  obtain ex where res: "evaluate weekday input data =
      pso_result (runEvaluationPass weekday input loaded ex)"
    and fit: "findCapacityOverrunIds (runEvaluationPass weekday input loaded ex) = []"
    using evaluate_loop_pass [of weekday input loaded "[]"] by (auto simp: evaluate_def loaded_def)
  let ?res = "pso_result (runEvaluationPass weekday input loaded ex)"
  have d: "(i, u) \<in> set (per_promotionCapacityDemands ?res)" using assms(2) by (simp add: res)
  then have u: "0 < u" unfolding run_pass_fields(3) demands_spec(1) by simp
  have "(\<exists>x\<in>set (per_lines ?res). lr_promotionId x = i) \<or>
      (\<exists>w. per_order ?res = Some w \<and> orr_promotionId w = i)"
    using d unfolding run_pass_fields(3) demands_spec(1) by (rule_tac demanded_winner) auto
  from pass_winner_candidate [OF this] obtain p where p: "p \<in> set loaded" "pm_id p = i" "i \<notin> set ex"
    by auto
  then have mem: "p \<in> set (filter (\<lambda>p. pm_id p \<notin> set ex) loaded)" by simp
  have "u \<le> r" if "remainingProductUnits p = Some r" for r
  proof -
    have "assoc_get (pso_remaining (runEvaluationPass weekday input loaded ex)) i = Some (Some r)"
      unfolding pass_remaining that [symmetric] p(2) [symmetric]
      by (rule remaining_get [OF _ mem]) (rule distinct_map_filter [OF dl(1)])
    with fit d show "u \<le> r"
      by (force simp: findCapacityOverrunIds_def overruns_def filter_empty_conv)
  qed
  with u p dl(2) show ?thesis by blast
qed

lemma demands_distinct:
  "distinct (map fst (per_promotionCapacityDemands (evaluate weekday input data)))"
proof -
  obtain loaded ex where "evaluate weekday input data =
      pso_result (runEvaluationPass weekday input loaded ex)"
    unfolding evaluate_def using evaluate_loop_pass by blast
  then show ?thesis by (simp only: run_pass_fields(3) demands_spec(3))
qed

text \<open>
  Property C2: an evaluation ends and its result fits the capacities.  No selected
  promotion with a cap is asked for more units than it has left, and the promotions
  excluded on the way are promotions the repository returned and none of them is
  behind a result.
\<close>

theorem evaluate_within_capacity:
  assumes "distinct (map pm_id data)"
  shows "(\<forall>p\<in>set data. \<forall>u r.
      (pm_id p, u) \<in> set (per_promotionCapacityDemands (evaluate weekday input data)) \<and>
      remainingProductUnits p = Some r \<longrightarrow> u \<le> r) \<and>
    (\<forall>i\<in>set (per_capacityExcludedPromotionIds (evaluate weekday input data)).
      i \<in> pm_id ` set data \<and>
      (\<forall>r\<in>set (per_lines (evaluate weekday input data)). lr_promotionId r \<noteq> i) \<and>
      (\<forall>w. per_order (evaluate weekday input data) = Some w \<longrightarrow> orr_promotionId w \<noteq> i))"
proof -
  define loaded where "loaded = (if pei_botEligibleOnly input then filter pm_botEligible data else data)"
  have dl: "distinct (map pm_id loaded)" "set loaded \<subseteq> set data"
    using assms distinct_map_filter [of pm_id data pm_botEligible] by (auto simp: loaded_def)
  obtain ex where res: "evaluate weekday input data =
      pso_result (runEvaluationPass weekday input loaded ex)"
    and ex: "set ex \<subseteq> pm_id ` set loaded"
    using evaluate_loop_pass [of weekday input loaded "[]"] by (auto simp: evaluate_def loaded_def)
  let ?res = "pso_result (runEvaluationPass weekday input loaded ex)"
  have "u \<le> r" if p: "p \<in> set data" and d: "(pm_id p, u) \<in> set (per_promotionCapacityDemands ?res)"
    and r: "remainingProductUnits p = Some r" for p u r
    using demand_fits [OF assms d [folded res]] assms p r by (metis distinct_map inj_onD)
  moreover have "i \<in> pm_id ` set data \<and>
      (\<forall>r\<in>set (per_lines ?res). lr_promotionId r \<noteq> i) \<and>
      (\<forall>w. per_order ?res = Some w \<longrightarrow> orr_promotionId w \<noteq> i)"
    if "i \<in> set (per_capacityExcludedPromotionIds ?res)" for i
  proof -
    have "i \<in> set ex" using that by (simp add: run_pass_fields)
    then show ?thesis
      using ex dl(2) pass_winner_candidate [of weekday input loaded ex i] by blast
  qed
  ultimately show ?thesis unfolding res by blast
qed

theorem evaluate_within_capacity_witness:
  "''pd'' \<in> set (per_capacityExcludedPromotionIds
      (evaluate (\<lambda>_. Monday) sample_input [capped_promotion])) \<and>
   (\<nexists>r. r \<in> set (per_lines (evaluate (\<lambda>_. Monday) sample_input [capped_promotion])) \<and>
      lr_promotionId r = ''pd'')"
proof -
  have d: "distinct (map pm_id [capped_promotion])" by simp
  from evaluate_within_capacity [OF d, of "\<lambda>_. Monday" sample_input] capped_excluded show ?thesis
    by blast
qed

text \<open>
  The demands are exactly the units benefited.  The list is sorted by
  promotion id without repetition, and it holds a promotion with a number of units
  exactly when that number is positive and is the sum over its results of the units
  they benefit: the quantity of a discounted line, the rewarded units of a reward,
  every unit of the order for the order discount.
\<close>

theorem demands_exact:
  shows "sorted (map fst (computePromotionCapacityDemands lines rs order)) \<and>
    distinct (map fst (computePromotionCapacityDemands lines rs order)) \<and>
    (\<forall>i u. (i, u) \<in> set (computePromotionCapacityDemands lines rs order) \<longleftrightarrow>
      0 < u \<and> u = (\<Sum>r\<leftarrow>filter (\<lambda>r. lr_promotionId r = i) rs. result_units lines r) +
        (case order of
           None \<Rightarrow> 0
         | Some w \<Rightarrow> if orr_promotionId w = i then (\<Sum>l\<leftarrow>lines. pel_quantity l) else 0))"
  using demands_spec(2,3) [of lines rs order]
  by (simp add: demands_spec(1) demanded_def)

text \<open>
  The winner of a line does not depend on the order of the
  promotions, as long as their ids are distinct.
\<close>

theorem line_winner_order_free:
  assumes "set candidates = set candidates'" and "inj_on pm_id (set candidates)"
  shows "pickBestPerLine weekday line candidates input =
    pickBestPerLine weekday line candidates' input"
  using assms by (rule pickBestPerLine_order_free)

theorem line_winner_order_free_witness:
  "pickBestPerLine (\<lambda>_. Monday) sample_line [od_promotion, pd_promotion] sample_input =
   pickBestPerLine (\<lambda>_. Monday) sample_line [pd_promotion, od_promotion] sample_input"
  by (rule line_winner_order_free) (auto simp: sample_engine_simps)

text \<open>
  The allocation of an advanced promotion.  The rewarded units are as
  many as the groups bought allow, or all units of the get lines when those are
  fewer; no line gets more units than it has; the rewards follow the ids of the
  lines; and no line that counted as bought is rewarded.
\<close>

theorem advanced_allocation:
  assumes "cart_ok lines" and "1 \<le> buyQ" and "1 \<le> getQ" and "0 \<le> totalBuy"
  shows "given_units (snd (computeAdvancedReward totalBuy buyQ getQ percent (get_lines promo lines))) =
      min (totalBuy div buyQ * getQ) (\<Sum>c\<leftarrow>get_lines promo lines. gtc_quantity c) \<and>
    sorted (map avr_itemId
      (snd (computeAdvancedReward totalBuy buyQ getQ percent (get_lines promo lines)))) \<and>
    (\<forall>r\<in>set (snd (computeAdvancedReward totalBuy buyQ getQ percent (get_lines promo lines))).
      (\<exists>l\<in>set lines. pel_itemId l = avr_itemId r \<and> 0 < avr_discountedUnitCount r \<and>
         avr_discountedUnitCount r \<le> pel_quantity l \<and>
         avr_lineDiscountCents r =
           avr_discountedUnitCount r * round_percent (pel_effectiveUnitPriceCents l) percent) \<and>
      avr_itemId r \<notin> pel_itemId ` set (buy_lines promo lines))"
proof -
  let ?cs = "get_lines promo lines"
  let ?out = "snd (computeAdvancedReward totalBuy buyQ getQ percent ?cs)"
  let ?alloc = "allocate percent (totalBuy div buyQ * getQ) (sort_key gtc_itemId ?cs)"
  have pool: "0 \<le> totalBuy div buyQ * getQ"
    using assms by (simp add: pos_imp_zdiv_nonneg_iff)
  have q: "\<forall>c\<in>set (sort_key gtc_itemId ?cs). 1 \<le> gtc_quantity c"
    using assms(1) get_lines_mem by (fastforce simp: cart_ok_def)
  have none: "allocate percent 0 ls = []" for ls by (cases ls) simp_all
  have out: "?out = ?alloc"
    by (simp add: computeAdvancedReward_def Let_def none)
  have perm: "(\<Sum>c\<leftarrow>sort_key gtc_itemId ?cs. gtc_quantity c) = (\<Sum>c\<leftarrow>?cs. gtc_quantity c)"
    by (metis mset_map mset_sort sum_mset_sum_list)
  have mem: "(\<exists>l\<in>set lines. pel_itemId l = avr_itemId r \<and> 0 < avr_discountedUnitCount r \<and>
         avr_discountedUnitCount r \<le> pel_quantity l \<and>
         avr_lineDiscountCents r =
           avr_discountedUnitCount r * round_percent (pel_effectiveUnitPriceCents l) percent) \<and>
      avr_itemId r \<notin> pel_itemId ` set (buy_lines promo lines)" if r: "r \<in> set ?alloc" for r
  proof -
    obtain c where c: "c \<in> set ?cs" "avr_itemId r = gtc_itemId c" "0 < avr_discountedUnitCount r"
      "avr_discountedUnitCount r \<le> gtc_quantity c"
      "avr_lineDiscountCents r = avr_discountedUnitCount r * round_percent (gtc_price c) percent"
      using allocate_mem [OF r] by auto
    obtain l where "l \<in> set lines" "pel_itemId l \<notin> pel_itemId ` set (buy_lines promo lines)"
      "c = \<lparr>gtc_itemId = pel_itemId l, gtc_price = pel_effectiveUnitPriceCents l,
         gtc_quantity = pel_quantity l\<rparr>"
      using get_lines_mem [OF c(1)] by blast
    with c show ?thesis by (intro conjI bexI [of _ l]) simp_all
  qed
  show ?thesis
    unfolding out using allocate_units [OF q pool] perm mem
    by (simp add: allocate_sorted)
qed

theorem advanced_allocation_witness:
  "given_units (snd (computeAdvancedReward 7 2 1 100
      (get_lines ((plain_promotion ''a'' Advanced)
         \<lparr>pm_targetItems := [product_target\<lparr>ptg_side := SideGet\<rparr>]\<rparr>) [sample_line]))) = 2"
proof -
  have "cart_ok [sample_line]" by (simp add: cart_ok_def sample_line_def)
  from advanced_allocation [OF this, of 2 1 7 100 "(plain_promotion ''a'' Advanced)
      \<lparr>pm_targetItems := [product_target\<lparr>ptg_side := SideGet\<rparr>]\<rparr>"] show ?thesis
    by (simp add: get_lines_def buy_lines_def on_side_def matchTargetTier_def target_hit_def
        plain_promotion_def sample_line_def product_target_def matchesPriceList_def)
qed

text \<open>
  The order discount is ranked on a subtotal that counts a per-unit
  discount once per line.  The subtotal the pass computes is what the customer would
  pay for the lines plus, for each line with a per-unit discount, that discount for
  all its units but one; the order discount is positive and at most this subtotal.
\<close>

theorem order_subtotal_counts_one_unit:
  assumes "cart_ok (pei_lines input)" and "\<forall>p\<in>set candidates. promotion_shape p"
  shows "postLineSubtotalCents (pei_lines input) (selected_lines weekday candidates input) =
      (\<Sum>l\<leftarrow>pei_lines input. line_gross l -
         existingLineResultTotalCents l
           (result_of_item (pel_itemId l) (selected_lines weekday candidates input))) +
      (\<Sum>l\<leftarrow>pei_lines input.
         missed_saving (selected_lines weekday candidates input) l) \<and>
    (\<forall>w. selected_order weekday candidates input (selected_lines weekday candidates input) = Some w \<longrightarrow>
       0 < orr_discountAmountCents w \<and>
       orr_discountAmountCents w \<le>
         postLineSubtotalCents (pei_lines input) (selected_lines weekday candidates input))"
proof -
  have "distinct (map lr_itemId (selected_lines weekday candidates input))"
    using selected_lines_ok [OF assms] by (simp add: results_ok_def)
  moreover have "distinct (map pel_itemId (pei_lines input))"
    using assms(1) by (simp add: cart_ok_def)
  ultimately show ?thesis
    using postLine_excess [of "pei_lines input" "selected_lines weekday candidates input"]
    by (auto simp: saving_def selected_order_def dest!: order_pick order_candidate_bounds)
qed

theorem order_subtotal_counts_one_unit_witness:
  "postLineSubtotalCents (pei_lines sample_input)
      (selected_lines (\<lambda>_. Monday) [pd_promotion, od_promotion] sample_input) = 1900 \<and>
   (\<Sum>l\<leftarrow>pei_lines sample_input. line_gross l -
      existingLineResultTotalCents l (result_of_item (pel_itemId l)
        (selected_lines (\<lambda>_. Monday) [pd_promotion, od_promotion] sample_input))) = 1800"
proof -
  have "(\<Sum>l\<leftarrow>pei_lines sample_input. line_gross l -
      existingLineResultTotalCents l (result_of_item (pel_itemId l)
        (selected_lines (\<lambda>_. Monday) [pd_promotion, od_promotion] sample_input))) = 1800"
    and "(\<Sum>l\<leftarrow>pei_lines sample_input.
      missed_saving (selected_lines (\<lambda>_. Monday) [pd_promotion, od_promotion] sample_input) l) = 100"
    unfolding sample_lines
    by (simp_all add: sample_input_def sample_line_def line_gross_def result_of_item_def
        round_percent_def missed_saving_def)
  with order_subtotal_counts_one_unit [OF sample_cart sample_shapes, of "\<lambda>_. Monday"]
  show ?thesis by simp
qed

end
