(* ===== verification/StockPlan.thy ===== *)
theory StockPlan
  imports Prelude
begin

section \<open>Stock planning\<close>

text \<open>
  \<open>src/src/inventory/domain\<close>: \<open>fefo-allocator.ts\<close>, \<open>stock-plan.ts\<close> and
  \<open>sale-reversal.ts\<close> with the types of \<open>stock-journal.types.ts\<close>.  A plan is the
  in-memory copy of the locked stock with the movements and the touched rows it
  records.  \<open>apply\<close> checks before it writes, so it returns the plan or an error;
  \<open>charge\<close> applies several changes and returns the plan beside its result.

  A calendar date is represented by its day number, which orders as the ISO text
  does; the business day \<open>today\<close> comes from \<open>Intl.DateTimeFormat\<close> and a time zone
  and is an argument.  Quantities and deltas whose integrality is tested are
  \<open>js_number\<close>s.
\<close>

subsection \<open>Data\<close>

record lot_stock =
  lts_id :: ident
  lts_lotNumber :: string
  lts_quantity :: int
  lts_stockVersion :: int
  lts_expirationDate :: timestamp

record variant_stock =
  vrs_id :: ident
  vrs_name :: string
  vrs_quantity :: int
  vrs_stockVersion :: int

record product_stock =
  pds_id :: ident
  pds_name :: string
  pds_quantity :: int
  pds_stockVersion :: int
  pds_useStock :: bool
  pds_hasVariants :: bool
  pds_lots :: "lot_stock list"
  pds_variants :: "variant_stock list"

datatype stock_bucket =
    UntrackedBucket (bucket_product: ident)
  | VariantBucket (bucket_product: ident) ident
  | LotBucket (bucket_product: ident) ident

datatype bucket_kind = KindUntracked | KindVariant | KindLot

record stock_change =
  stc_bucket :: stock_bucket
  stc_delta :: js_number
  stc_expectedVersion :: "int option"
  stc_skipIfNotStocked :: bool

record stock_charge_item =
  sci_productId :: ident
  sci_variantId :: "ident option"
  sci_quantity :: js_number

record planned_movement =
  plm_bucketKind :: bucket_kind
  plm_productId :: ident
  plm_variantId :: "ident option"
  plm_lotId :: "ident option"
  plm_productName :: string
  plm_variantLabel :: "string option"
  plm_lotNumber :: "string option"
  plm_delta :: int
  plm_balanceAfter :: int
  plm_productBalanceAfter :: int
  plm_bucketVersionAfter :: int

record stock_plan =
  spl_products :: "(ident \<times> product_stock) list"
  spl_movements :: "planned_movement list"
  spl_touchedProducts :: "(ident \<times> (int \<times> bool)) list"
  spl_touchedLots :: "(ident \<times> int) list"
  spl_touchedVariants :: "(ident \<times> int) list"
  spl_today :: int

subsection \<open>First expired, first out\<close>

record fefo_allocation =
  ffa_lotId :: "ident option"
  ffa_quantity :: int

definition isLotExpired :: "timestamp \<Rightarrow> int \<Rightarrow> bool" where
  "isLotExpired expiration today \<longleftrightarrow> expiration div 86400000 < today"

definition sumExpiredLotQuantity :: "lot_stock list \<Rightarrow> int \<Rightarrow> int" where
  "sumExpiredLotQuantity lots today =
     (\<Sum>l\<leftarrow>filter (\<lambda>l. isLotExpired (lts_expirationDate l) today) lots. lts_quantity l)"

definition sellable_lots :: "lot_stock list \<Rightarrow> int \<Rightarrow> lot_stock list" where
  "sellable_lots lots today =
     sort_key (\<lambda>l. (lts_expirationDate l, lts_id l))
       (filter (\<lambda>l. 0 < lts_quantity l \<and> \<not> isLotExpired (lts_expirationDate l) today) lots)"

text \<open>The loop over the sellable lots: the allocations and what remains.\<close>

fun take_lots :: "int \<Rightarrow> lot_stock list \<Rightarrow> fefo_allocation list \<times> int" where
  "take_lots remaining [] = ([], remaining)"
| "take_lots remaining (l # ls) =
     (if remaining = 0 then ([], remaining)
      else
        let n = min (lts_quantity l) remaining in
        case take_lots (remaining - n) ls of
          (as, rest) \<Rightarrow> (\<lparr>ffa_lotId = Some (lts_id l), ffa_quantity = n\<rparr> # as, rest))"

definition allocateFefo ::
  "ident option \<Rightarrow> js_number \<Rightarrow> int \<Rightarrow> lot_stock list \<Rightarrow> int \<Rightarrow> fefo_allocation list result" where
  "allocateFefo productId quantity untrackedAvailable lots today =
     (case quantity of
        JsInt q \<Rightarrow>
          if q \<le> 0 then Inl (RangeError ''FEFO quantity must be a positive integer'')
          else
            let sellable = sellable_lots lots today in
            (case take_lots q sellable of
               (as, remaining) \<Rightarrow>
                 if 0 < remaining
                 then if untrackedAvailable < remaining
                      then Inl (InsufficientStockError ''PRODUCT''
                             (case productId of None \<Rightarrow> ''sellable'' | Some p \<Rightarrow> p)
                             ((\<Sum>l\<leftarrow>sellable. lts_quantity l) + max untrackedAvailable 0) q)
                      else Inr (as @ [\<lparr>ffa_lotId = None, ffa_quantity = remaining\<rparr>])
                 else Inr as)
      | _ \<Rightarrow> Inl (RangeError ''FEFO quantity must be a positive integer''))"

subsection \<open>The plan\<close>

definition new_plan :: "product_stock list \<Rightarrow> int \<Rightarrow> stock_plan" where
  "new_plan products today =
     \<lparr>spl_products = foldl (\<lambda>m p. assoc_set m (pds_id p) p) [] products, spl_movements = [],
      spl_touchedProducts = [], spl_touchedLots = [], spl_touchedVariants = [],
      spl_today = today\<rparr>"

definition untracked :: "product_stock \<Rightarrow> int" where
  "untracked p = pds_quantity p - (\<Sum>l\<leftarrow>pds_lots p. lts_quantity l)"

definition requireProduct :: "ident \<Rightarrow> string \<Rightarrow> stock_plan \<Rightarrow> product_stock result" where
  "requireProduct i kind s =
     (case assoc_get (spl_products s) i of
        None \<Rightarrow> Inl (StockBucketNotFoundError kind i) | Some p \<Rightarrow> Inr p)"

definition checkVersion :: "string \<Rightarrow> ident \<Rightarrow> int \<Rightarrow> stock_change \<Rightarrow> unit result" where
  "checkVersion kind i current change =
     (case stc_expectedVersion change of
        None \<Rightarrow> Inr ()
      | Some v \<Rightarrow> throw_if (v \<noteq> current) (StockVersionConflictError kind i current))"

definition movement_row ::
  "product_stock \<Rightarrow> bucket_kind \<Rightarrow> lot_stock option \<Rightarrow> variant_stock option \<Rightarrow> int \<Rightarrow> int \<Rightarrow> int
     \<Rightarrow> planned_movement" where
  "movement_row p kind lot variant delta balance version =
     \<lparr>plm_bucketKind = kind, plm_productId = pds_id p,
      plm_variantId = map_option vrs_id variant, plm_lotId = map_option lts_id lot,
      plm_productName = pds_name p, plm_variantLabel = map_option vrs_name variant,
      plm_lotNumber = map_option lts_lotNumber lot, plm_delta = delta,
      plm_balanceAfter = balance,
      plm_productBalanceAfter =
        (if pds_hasVariants p then (\<Sum>v\<leftarrow>pds_variants p. vrs_quantity v) else pds_quantity p),
      plm_bucketVersionAfter = version\<rparr>"

definition applyUntracked :: "ident \<Rightarrow> int \<Rightarrow> stock_change \<Rightarrow> stock_plan \<Rightarrow> stock_plan result" where
  "applyUntracked i delta change s =
     andThen (requireProduct i ''PRODUCT_UNTRACKED'' s) (\<lambda>p.
       if pds_hasVariants p then Inl (StockBucketNotFoundError ''PRODUCT_UNTRACKED'' i)
       else if \<not> pds_useStock p
         then if stc_skipIfNotStocked change then Inr s else Inl (StockNotTrackedError i)
       else
         andThen (checkVersion ''PRODUCT_UNTRACKED'' i (pds_stockVersion p) change) (\<lambda>_.
           let u = untracked p in
           if u + delta < 0
             then Inl (InsufficientStockError ''PRODUCT_UNTRACKED'' i u (- delta))
           else
             let p' = p\<lparr>pds_quantity := pds_quantity p + delta\<rparr> in
             Inr (s\<lparr>spl_products := assoc_set (spl_products s) i p',
                    spl_touchedProducts :=
                      assoc_set (spl_touchedProducts s) i (pds_quantity p', True),
                    spl_movements := spl_movements s @
                      [movement_row p' KindUntracked None None delta (u + delta)
                        (pds_stockVersion p + 1)]\<rparr>)))"

definition applyLot :: "ident \<Rightarrow> ident \<Rightarrow> int \<Rightarrow> stock_change \<Rightarrow> stock_plan \<Rightarrow> stock_plan result" where
  "applyLot i lotId delta change s =
     andThen (requireProduct i ''LOT'' s) (\<lambda>p.
       case find (\<lambda>l. lts_id l = lotId) (pds_lots p) of
         None \<Rightarrow> Inl (StockBucketNotFoundError ''LOT'' lotId)
       | Some lot \<Rightarrow>
           if pds_hasVariants p then Inl (StockBucketNotFoundError ''LOT'' lotId)
           else
             andThen (checkVersion ''LOT'' lotId (lts_stockVersion lot) change) (\<lambda>_.
               if lts_quantity lot + delta < 0
                 then Inl (InsufficientStockError ''LOT'' lotId (lts_quantity lot) (- delta))
               else if pds_quantity p + delta < 0
                 then Inl (InsufficientStockError ''PRODUCT'' i (pds_quantity p) (- delta))
               else
                 let lot' = lot\<lparr>lts_quantity := lts_quantity lot + delta\<rparr>;
                     p' = p\<lparr>pds_lots := update_first (\<lambda>l. lts_id l = lotId) (\<lambda>_. lot') (pds_lots p),
                            pds_quantity := pds_quantity p + delta\<rparr>;
                     bump = (case assoc_get (spl_touchedProducts s) i of
                               None \<Rightarrow> False | Some (q, b) \<Rightarrow> b)
                 in Inr (s\<lparr>spl_products := assoc_set (spl_products s) i p',
                           spl_touchedLots := assoc_set (spl_touchedLots s) lotId (lts_quantity lot'),
                           spl_touchedProducts :=
                             assoc_set (spl_touchedProducts s) i (pds_quantity p', bump),
                           spl_movements := spl_movements s @
                             [movement_row p' KindLot (Some lot') None delta (lts_quantity lot')
                               (lts_stockVersion lot + 1)]\<rparr>)))"

definition applyVariant ::
  "ident \<Rightarrow> ident \<Rightarrow> int \<Rightarrow> stock_change \<Rightarrow> stock_plan \<Rightarrow> stock_plan result" where
  "applyVariant i variantId delta change s =
     andThen (requireProduct i ''VARIANT'' s) (\<lambda>p.
       case find (\<lambda>v. vrs_id v = variantId) (pds_variants p) of
         None \<Rightarrow> Inl (StockBucketNotFoundError ''VARIANT'' variantId)
       | Some v \<Rightarrow>
           andThen (checkVersion ''VARIANT'' variantId (vrs_stockVersion v) change) (\<lambda>_.
             if vrs_quantity v + delta < 0
               then Inl (InsufficientStockError ''VARIANT'' variantId (vrs_quantity v) (- delta))
             else
               let v' = v\<lparr>vrs_quantity := vrs_quantity v + delta\<rparr>;
                   p' = p\<lparr>pds_variants :=
                            update_first (\<lambda>x. vrs_id x = variantId) (\<lambda>_. v') (pds_variants p)\<rparr>
               in Inr (s\<lparr>spl_products := assoc_set (spl_products s) i p',
                         spl_touchedVariants :=
                           assoc_set (spl_touchedVariants s) variantId (vrs_quantity v'),
                         spl_movements := spl_movements s @
                           [movement_row p' KindVariant None (Some v') delta (vrs_quantity v')
                             (vrs_stockVersion v + 1)]\<rparr>)))"

definition apply_change :: "stock_change \<Rightarrow> stock_plan \<Rightarrow> stock_plan result" where
  "apply_change c s =
     (case stc_delta c of
        JsInt d \<Rightarrow>
          if d = 0 then Inl (RangeError ''Stock delta must be a non-zero integer'')
          else (case stc_bucket c of
              UntrackedBucket i \<Rightarrow> applyUntracked i d c s
            | LotBucket i l \<Rightarrow> applyLot i l d c s
            | VariantBucket i v \<Rightarrow> applyVariant i v d c s)
      | _ \<Rightarrow> Inl (RangeError ''Stock delta must be a non-zero integer''))"

text \<open>A loop of \<open>apply\<close>: it stops at the first change that throws and keeps the earlier ones.\<close>

fun apply_all :: "stock_change list \<Rightarrow> stock_plan \<Rightarrow> unit result \<times> stock_plan" where
  "apply_all [] s = (Inr (), s)"
| "apply_all (c # cs) s =
     (case apply_change c s of Inl e \<Rightarrow> (Inl e, s) | Inr s' \<Rightarrow> apply_all cs s')"

fun the_ident :: "ident option \<Rightarrow> ident" where
  "the_ident (Some i) = i"
| "the_ident None = []"

fun js_neg :: "js_number \<Rightarrow> js_number" where
  "js_neg (JsInt n) = JsInt (- n)"
| "js_neg (JsFraction t) = JsFraction (- t)"
| "js_neg JsNotFinite = JsNotFinite"

definition plain_change :: "stock_bucket \<Rightarrow> js_number \<Rightarrow> stock_change" where
  "plain_change b d =
     \<lparr>stc_bucket = b, stc_delta = d, stc_expectedVersion = None, stc_skipIfNotStocked = False\<rparr>"

definition allocation_change :: "ident \<Rightarrow> fefo_allocation \<Rightarrow> stock_change" where
  "allocation_change i a =
     plain_change
       (if truthy (ffa_lotId a) then LotBucket i (the_ident (ffa_lotId a)) else UntrackedBucket i)
       (JsInt (- ffa_quantity a))"

definition charge :: "stock_charge_item \<Rightarrow> stock_plan \<Rightarrow> unit result \<times> stock_plan" where
  "charge item s =
     (if truthy (sci_variantId item)
      then apply_all
        [plain_change
          (VariantBucket (sci_productId item) (the_ident (sci_variantId item)))
          (js_neg (sci_quantity item))] s
      else
        case requireProduct (sci_productId item) ''PRODUCT_UNTRACKED'' s of
          Inl e \<Rightarrow> (Inl e, s)
        | Inr p \<Rightarrow>
            if \<not> pds_useStock p then (Inr (), s)
            else case allocateFefo (Some (sci_productId item)) (sci_quantity item) (untracked p)
                        (pds_lots p) (spl_today s) of
                Inl e \<Rightarrow> (Inl e, s)
              | Inr as \<Rightarrow> apply_all (map (allocation_change (sci_productId item)) as) s)"

definition has_bucket :: "stock_bucket \<Rightarrow> stock_plan \<Rightarrow> bool" where
  "has_bucket b s =
     (case assoc_get (spl_products s) (bucket_product b) of
        None \<Rightarrow> False
      | Some p \<Rightarrow>
          (case b of
             UntrackedBucket i \<Rightarrow> \<not> pds_hasVariants p
           | LotBucket i l \<Rightarrow> \<exists>x\<in>set (pds_lots p). lts_id x = l
           | VariantBucket i v \<Rightarrow> \<exists>x\<in>set (pds_variants p). vrs_id x = v))"

definition tracksStock :: "ident \<Rightarrow> stock_plan \<Rightarrow> bool" where
  "tracksStock i s =
     (case assoc_get (spl_products s) i of None \<Rightarrow> False | Some p \<Rightarrow> pds_useStock p)"

definition productQuantity :: "ident \<Rightarrow> stock_plan \<Rightarrow> int option" where
  "productQuantity i s = map_option pds_quantity (assoc_get (spl_products s) i)"

subsection \<open>Reversal\<close>

record sale_movement_record =
  smr_bucketKind :: bucket_kind
  smr_productId :: ident
  smr_variantId :: "ident option"
  smr_lotId :: "ident option"
  smr_delta :: int

definition reversal_change :: "ident set \<Rightarrow> sale_movement_record \<Rightarrow> stock_change option" where
  "reversal_change existingLots m =
     (if 0 \<le> smr_delta m then None
      else
        let delta = JsInt (- smr_delta m) in
        if smr_bucketKind m = KindVariant \<and> truthy (smr_variantId m)
          then Some (plain_change (VariantBucket (smr_productId m) (the_ident (smr_variantId m))) delta)
        else if smr_bucketKind m = KindLot \<and> truthy (smr_lotId m) \<and>
                the_ident (smr_lotId m) \<in> existingLots
          then Some (plain_change (LotBucket (smr_productId m) (the_ident (smr_lotId m))) delta)
        else Some (plain_change (UntrackedBucket (smr_productId m)) delta))"

definition mapSaleReversal :: "sale_movement_record list \<Rightarrow> ident set \<Rightarrow> stock_change list" where
  "mapSaleReversal ms existingLots = List.map_filter (reversal_change existingLots) ms"

end
