(* ===== verification/StockLaws.thy ===== *)
theory StockLaws
  imports StockPlan
begin

section \<open>The laws of stock planning\<close>

text \<open>
  The contract of a ledger of buckets, the plan as a ledger, the FEFO split, and
  the properties: no bucket goes below zero, a charge takes exactly what was
  asked, first expired first out, and a reversal restores every bucket.
\<close>

subsection \<open>Ledgers\<close>

text \<open>
  A ledger posts signed amounts to buckets.  A good ledger accepts a posting that
  leaves its bucket at zero or above, and a posting changes its bucket by the
  amount and nothing else.
\<close>

locale ledger =
  fixes good :: "'s \<Rightarrow> bool"
    and accepts :: "'s \<Rightarrow> 'b \<Rightarrow> bool"
    and qty :: "'s \<Rightarrow> 'b \<Rightarrow> int option"
    and post :: "'b \<Rightarrow> int \<Rightarrow> 's \<Rightarrow> 's option"
  assumes post_accepted:
      "good s \<Longrightarrow> accepts s b \<Longrightarrow> qty s b = Some n \<Longrightarrow> 0 \<le> n + d \<Longrightarrow> d \<noteq> 0 \<Longrightarrow> post b d s \<noteq> None"
    and post_good: "good s \<Longrightarrow> accepts s b \<Longrightarrow> post b d s = Some s' \<Longrightarrow> good s'"
    and post_accepts: "good s \<Longrightarrow> post b d s = Some s' \<Longrightarrow> accepts s' = accepts s"
    and post_qty:
      "good s \<Longrightarrow> accepts s b \<Longrightarrow> post b d s = Some s' \<Longrightarrow>
         \<exists>n. qty s b = Some n \<and> 0 \<le> n + d \<and> qty s' = (qty s)(b \<mapsto> n + d)"
begin

fun post_all :: "('b \<times> int) list \<Rightarrow> 's \<Rightarrow> 's option" where
  "post_all [] s = Some s"
| "post_all ((b, d) # ps) s = (case post b d s of None \<Rightarrow> None | Some s' \<Rightarrow> post_all ps s')"

definition posted :: "('b \<times> int) list \<Rightarrow> 'b \<Rightarrow> int" where
  "posted ps b = (\<Sum>p\<leftarrow>filter (\<lambda>p. fst p = b) ps. snd p)"

lemma posted_Nil [simp]: "posted [] b = 0"
  and posted_Cons [simp]: "posted (p # ps) b = (if fst p = b then snd p else 0) + posted ps b"
  by (simp_all add: posted_def)

lemma posted_append [simp]: "posted (ps @ qs) b = posted ps b + posted qs b"
  by (simp add: posted_def)

lemma post_all_qty:
  "good s \<Longrightarrow> \<forall>p\<in>set ps. accepts s (fst p) \<Longrightarrow> post_all ps s = Some s' \<Longrightarrow>
     good s' \<and> accepts s' = accepts s \<and> qty s' = (\<lambda>b. map_option (\<lambda>n. n + posted ps b) (qty s b))"
proof (induction ps arbitrary: s)
  case Nil
  then show ?case by (simp add: option.map_ident)
next
  case (Cons p ps)
  obtain b d where p: "p = (b, d)" by force
  with Cons.prems obtain s1 where s1: "post b d s = Some s1" "post_all ps s1 = Some s'"
    by (auto split: option.splits)
  have acc: "accepts s b" using Cons.prems(2) p by simp
  from post_qty [OF Cons.prems(1) acc s1(1)] obtain n where
    n: "qty s b = Some n" "qty s1 = (qty s)(b \<mapsto> n + d)" by blast
  have "good s1" "accepts s1 = accepts s"
    using post_good [OF Cons.prems(1) acc s1(1)] post_accepts [OF Cons.prems(1) s1(1)] by auto
  with Cons.IH [of s1] Cons.prems s1 have ih: "good s'" "accepts s' = accepts s"
    "qty s' = (\<lambda>b. map_option (\<lambda>n. n + posted ps b) (qty s1 b))"
    by auto
  have "qty s' = (\<lambda>c. map_option (\<lambda>n. n + posted (p # ps) c) (qty s c))"
    unfolding ih(3) n(2) using n(1) by (auto simp: p)
  with ih show ?case by simp
qed

text \<open>Postings that leave their buckets at zero or above, bucket by bucket, are all accepted.\<close>

lemma post_all_accepted:
  assumes "good s" and "\<forall>p\<in>set ps. accepts s (fst p) \<and> snd p \<noteq> 0"
    and "\<forall>p\<in>set ps. \<exists>n. qty s (fst p) = Some n"
    and "\<And>qs rs b n. ps = qs @ rs \<Longrightarrow> qty s b = Some n \<Longrightarrow> 0 \<le> n + posted qs b"
  shows "\<exists>s'. post_all ps s = Some s'"
  using assms
proof (induction ps arbitrary: s)
  case Nil
  then show ?case by simp
next
  case (Cons p ps)
  obtain b d where p: "p = (b, d)" by force
  from Cons.prems p obtain n where n: "qty s b = Some n" by auto
  have pos: "0 \<le> n + d"
    using Cons.prems(4) [of "[p]" ps b n] n by (simp add: p)
  have acc: "accepts s b" "d \<noteq> 0" using Cons.prems(2) p by auto
  obtain s1 where s1: "post b d s = Some s1"
    using post_accepted [OF Cons.prems(1) acc(1) n pos acc(2)] by auto
  have q1: "qty s1 = (qty s)(b \<mapsto> n + d)"
    using post_qty [OF Cons.prems(1) acc(1) s1] n by auto
  have "\<exists>s'. post_all ps s1 = Some s'"
  proof (rule Cons.IH)
    show "good s1" by (rule post_good [OF Cons.prems(1) acc(1) s1])
    show "\<forall>p\<in>set ps. accepts s1 (fst p) \<and> snd p \<noteq> 0"
      using Cons.prems(2) post_accepts [OF Cons.prems(1) s1] by simp
    show "\<forall>p\<in>set ps. \<exists>n. qty s1 (fst p) = Some n"
      using Cons.prems(3) by (auto simp: q1)
    show "0 \<le> m + posted qs c" if "ps = qs @ rs" and "qty s1 c = Some m" for qs rs c m
    proof (cases "c = b")
      case True
      then have "m = n + d" using that(2) by (simp add: q1)
      with Cons.prems(4) [of "p # qs" rs b n] that(1) n True show ?thesis by (simp add: p)
    next
      case False
      then have "qty s c = Some m" using that(2) by (simp add: q1)
      with Cons.prems(4) [of "p # qs" rs c m] that(1) False show ?thesis by (simp add: p)
    qed
  qed
  then show ?case by (simp add: p s1)
qed

lemma posted_distinct:
  "distinct (map fst ps) \<Longrightarrow> posted ps b = 0 \<or> (\<exists>d. (b, d) \<in> set ps \<and> posted ps b = d)"
proof (induction ps)
  case (Cons p ps)
  have zero: "posted ps b = 0" if "b \<notin> fst ` set ps"
    using that by (induction ps) auto
  show ?case
  proof (cases "fst p = b")
    case True
    with Cons.prems zero show ?thesis by (cases p) auto
  next
    case False
    with Cons show ?thesis by auto
  qed
qed simp

text \<open>Postings to different buckets, each covered by its bucket, are all accepted.\<close>

lemma distinct_postings_accepted:
  assumes "good s" and "distinct (map fst ps)"
    and "\<forall>p\<in>set ps. accepts s (fst p) \<and> snd p \<noteq> 0 \<and>
      (\<exists>n. qty s (fst p) = Some n \<and> 0 \<le> n + snd p)"
    and "\<And>b n. qty s b = Some n \<Longrightarrow> 0 \<le> n"
  shows "\<exists>s'. post_all ps s = Some s'"
proof (rule post_all_accepted [OF assms(1)])
  fix qs rs b n
  assume ps: "ps = qs @ rs" and n: "qty s b = Some n"
  have "distinct (map fst qs)" using assms(2) ps by simp
  then consider "posted qs b = 0" | d where "(b, d) \<in> set qs" "posted qs b = d"
    using posted_distinct [of qs b] by blast
  then show "0 \<le> n + posted qs b"
  proof cases
    case 1
    then show ?thesis using assms(4) [OF n] by simp
  next
    case 2
    then have "(b, d) \<in> set ps" using ps by simp
    with assms(3) n 2(2) show ?thesis by fastforce
  qed
qed (use assms(3) in auto)

lemma post_all_known:
  "good s \<Longrightarrow> \<forall>p\<in>set ps. accepts s (fst p) \<Longrightarrow> post_all ps s = Some s' \<Longrightarrow> p \<in> set ps \<Longrightarrow>
     \<exists>n. qty s (fst p) = Some n"
proof (induction ps arbitrary: s)
  case (Cons q qs)
  obtain b d where q: "q = (b, d)" by force
  with Cons.prems obtain s1 where s1: "post b d s = Some s1" "post_all qs s1 = Some s'"
    by (auto split: option.splits)
  have acc: "accepts s b" using Cons.prems(2) q by simp
  obtain n where n: "qty s b = Some n" "qty s1 = (qty s)(b \<mapsto> n + d)"
    using post_qty [OF Cons.prems(1) acc s1(1)] by blast
  show ?case
  proof (cases "p = q")
    case True
    then show ?thesis using n q by simp
  next
    case False
    then have "\<exists>n. qty s1 (fst p) = Some n"
      using Cons.prems s1 post_good [OF Cons.prems(1) acc s1(1)] post_accepts [OF Cons.prems(1) s1(1)]
      by (intro Cons.IH) auto
    then show ?thesis using n by (auto split: if_splits)
  qed
qed simp

definition inverse_of :: "('b \<times> int) list \<Rightarrow> ('b \<times> int) list" where
  "inverse_of ps = map (\<lambda>p. (fst p, - snd p)) ps"

lemma posted_inverse: "posted (inverse_of ps) b = - posted ps b"
  by (induction ps) (auto simp: inverse_of_def)

text \<open>Restoring what was withdrawn is always possible and leads back.\<close>

lemma reversal_restores:
  assumes "good s" and "\<forall>p\<in>set ps. accepts s (fst p) \<and> snd p < 0"
    and "post_all ps s = Some s'" and nonneg: "\<And>b n. qty s' b = Some n \<Longrightarrow> 0 \<le> n"
  shows "\<exists>s''. post_all (inverse_of ps) s' = Some s'' \<and> good s'' \<and> qty s'' = qty s"
proof -
  have eff: "good s'" "accepts s' = accepts s"
    "qty s' = (\<lambda>b. map_option (\<lambda>n. n + posted ps b) (qty s b))"
    using post_all_qty [OF assms(1) _ assms(3)] assms(2) by auto
  have acc: "\<forall>p\<in>set (inverse_of ps). accepts s' (fst p) \<and> snd p \<noteq> 0"
    using assms(2) eff(2) by (auto simp: inverse_of_def)
  have known: "\<forall>p\<in>set (inverse_of ps). \<exists>n. qty s' (fst p) = Some n"
    using post_all_known [OF assms(1) _ assms(3)] assms(2) by (auto simp: inverse_of_def eff(3))
  have up: "0 \<le> posted qs b" if "set qs \<subseteq> set (inverse_of ps)" for qs b
    using that assms(2) by (induction qs) (auto simp: inverse_of_def)
  have "\<exists>s''. post_all (inverse_of ps) s' = Some s''"
  proof (rule post_all_accepted [OF eff(1) acc known])
    fix qs rs b n
    assume "inverse_of ps = qs @ rs" and "qty s' b = Some n"
    then show "0 \<le> n + posted qs b"
      using up [of qs b] nonneg [of b n] by simp
  qed
  then obtain s'' where s'': "post_all (inverse_of ps) s' = Some s''" ..
  have "good s''" "qty s'' = (\<lambda>b. map_option (\<lambda>n. n + posted (inverse_of ps) b) (qty s' b))"
    using post_all_qty [OF eff(1) _ s''] acc by auto
  moreover have "(\<lambda>b. map_option (\<lambda>n. n + posted (inverse_of ps) b) (qty s' b)) = qty s"
    by (simp add: eff(3) posted_inverse option.map_comp comp_def option.map_ident)
  ultimately show ?thesis using s'' by auto
qed

end

subsection \<open>The plan as a ledger\<close>

definition bucket_quantity :: "stock_plan \<Rightarrow> stock_bucket \<Rightarrow> int option" where
  "bucket_quantity s b =
     (case assoc_get (spl_products s) (bucket_product b) of
        None \<Rightarrow> None
      | Some p \<Rightarrow>
          (case b of
             UntrackedBucket i \<Rightarrow> Some (untracked p)
           | LotBucket i l \<Rightarrow> map_option lts_quantity (find (\<lambda>x. lts_id x = l) (pds_lots p))
           | VariantBucket i v \<Rightarrow> map_option vrs_quantity (find (\<lambda>x. vrs_id x = v) (pds_variants p))))"

text \<open>
  A product in good order has no bucket below zero; a bucket is open when its
  product is of the right kind.
\<close>

definition product_ok :: "product_stock \<Rightarrow> bool" where
  "product_ok p \<longleftrightarrow>
     0 \<le> untracked p \<and> (\<forall>l\<in>set (pds_lots p). 0 \<le> lts_quantity l) \<and>
     (\<forall>v\<in>set (pds_variants p). 0 \<le> vrs_quantity v)"

definition plan_ok :: "stock_plan \<Rightarrow> bool" where
  "plan_ok s \<longleftrightarrow>
     (\<forall>i p. assoc_get (spl_products s) i = Some p \<longrightarrow> product_ok p \<and> pds_id p = i)"

definition bucket_open :: "stock_plan \<Rightarrow> stock_bucket \<Rightarrow> bool" where
  "bucket_open s b =
     (case assoc_get (spl_products s) (bucket_product b) of
        None \<Rightarrow> False
      | Some p \<Rightarrow>
          (case b of
             UntrackedBucket i \<Rightarrow> \<not> pds_hasVariants p \<and> pds_useStock p
           | LotBucket i l \<Rightarrow> \<not> pds_hasVariants p
           | VariantBucket i v \<Rightarrow> True))"

definition post_change :: "stock_bucket \<Rightarrow> int \<Rightarrow> stock_plan \<Rightarrow> stock_plan option" where
  "post_change b d s =
     (case apply_change (plain_change b (JsInt d)) s of Inl e \<Rightarrow> None | Inr s' \<Rightarrow> Some s')"

lemma sum_lots_update:
  "find (\<lambda>l. lts_id l = i) ls = Some lot \<Longrightarrow>
     (\<Sum>l\<leftarrow>update_first (\<lambda>l. lts_id l = i) (\<lambda>_. lot') ls. lts_quantity l) =
       (\<Sum>l\<leftarrow>ls. lts_quantity l) - lts_quantity lot + lts_quantity lot'"
  by (induction ls) (auto split: if_splits)

lemma find_update_first:
  "key r = i \<Longrightarrow> find (\<lambda>x. key x = i) xs = Some x0 \<Longrightarrow>
     find (\<lambda>x. key x = j) (update_first (\<lambda>x. key x = i) (\<lambda>_. r) xs) =
       (if j = i then Some r else find (\<lambda>x. key x = j) xs)"
  by (induction xs) (auto split: if_splits)

text \<open>What an accepted change does to the products of the plan.\<close>

lemma apply_untrackedE:
  assumes "post_change (UntrackedBucket i) d s = Some s'"
    and "bucket_open s (UntrackedBucket i)"
  obtains p where "assoc_get (spl_products s) i = Some p" "0 \<le> untracked p + d" "d \<noteq> 0"
    "spl_products s' = assoc_set (spl_products s) i (p\<lparr>pds_quantity := pds_quantity p + d\<rparr>)"
  using assms
  by (auto simp: post_change_def apply_change_def plain_change_def applyUntracked_def
      requireProduct_def checkVersion_def bucket_open_def Let_def result_simps
      split: option.splits if_splits sum.splits)

lemma apply_lotE:
  assumes "post_change (LotBucket i l) d s = Some s'"
  obtains p lot where "assoc_get (spl_products s) i = Some p" "\<not> pds_hasVariants p" "d \<noteq> 0"
    "find (\<lambda>x. lts_id x = l) (pds_lots p) = Some lot" "0 \<le> lts_quantity lot + d"
    "spl_products s' = assoc_set (spl_products s) i
       (p\<lparr>pds_lots := update_first (\<lambda>x. lts_id x = l)
            (\<lambda>_. lot\<lparr>lts_quantity := lts_quantity lot + d\<rparr>) (pds_lots p),
          pds_quantity := pds_quantity p + d\<rparr>)"
  using assms
  by (auto simp: post_change_def apply_change_def plain_change_def applyLot_def
      requireProduct_def checkVersion_def Let_def result_simps
      split: option.splits if_splits sum.splits)

lemma apply_variantE:
  assumes "post_change (VariantBucket i v) d s = Some s'"
  obtains p var where "assoc_get (spl_products s) i = Some p" "d \<noteq> 0"
    "find (\<lambda>x. vrs_id x = v) (pds_variants p) = Some var" "0 \<le> vrs_quantity var + d"
    "spl_products s' = assoc_set (spl_products s) i
       (p\<lparr>pds_variants := update_first (\<lambda>x. vrs_id x = v)
            (\<lambda>_. var\<lparr>vrs_quantity := vrs_quantity var + d\<rparr>) (pds_variants p)\<rparr>)"
  using assms
  by (auto simp: post_change_def apply_change_def plain_change_def applyVariant_def
      requireProduct_def checkVersion_def Let_def result_simps
      split: option.splits if_splits sum.splits)

lemma product_lot_le:
  assumes "product_ok p" and "find (\<lambda>x. lts_id x = l) (pds_lots p) = Some lot"
  shows "lts_quantity lot \<le> pds_quantity p"
proof -
  have "lot \<in> set (pds_lots p)" using find_SomeD [OF assms(2)] by blast
  moreover have "\<forall>l\<in>set ls. 0 \<le> lts_quantity l \<Longrightarrow> lot \<in> set ls \<Longrightarrow>
      lts_quantity lot \<le> (\<Sum>l\<leftarrow>ls. lts_quantity l)" for ls
  proof (induction ls)
    case (Cons a ls)
    have "0 \<le> (\<Sum>l\<leftarrow>ls. lts_quantity l)"
      using Cons.prems by (intro sum_list_nonneg_int) auto
    with Cons show ?case by auto
  qed simp
  ultimately show ?thesis using assms(1) by (fastforce simp: product_ok_def untracked_def)
qed

lemma post_change_accepted:
  assumes "plan_ok s" and "bucket_open s b" and "bucket_quantity s b = Some n"
    and "0 \<le> n + d" and "d \<noteq> 0"
  shows "post_change b d s \<noteq> None"
proof -
  obtain p where p: "assoc_get (spl_products s) (bucket_product b) = Some p"
    using assms(2) by (auto simp: bucket_open_def split: option.splits)
  then have ok: "product_ok p" using assms(1) by (auto simp: plan_ok_def)
  show ?thesis
  proof (cases b)
    case (UntrackedBucket i)
    with assms p show ?thesis
      by (auto simp: post_change_def apply_change_def plain_change_def applyUntracked_def
          requireProduct_def checkVersion_def bucket_open_def bucket_quantity_def Let_def)
  next
    case (LotBucket i l)
    with assms p obtain lot where lot: "find (\<lambda>x. lts_id x = l) (pds_lots p) = Some lot"
      "lts_quantity lot = n" by (auto simp: bucket_quantity_def)
    have "0 \<le> pds_quantity p + d" using product_lot_le [OF ok lot(1)] lot(2) assms(4) by simp
    with LotBucket assms p lot show ?thesis
      by (auto simp: post_change_def apply_change_def plain_change_def applyLot_def
          requireProduct_def checkVersion_def bucket_open_def Let_def)
  next
    case (VariantBucket i v)
    with assms p show ?thesis
      by (auto simp: post_change_def apply_change_def plain_change_def applyVariant_def
          requireProduct_def checkVersion_def bucket_quantity_def Let_def)
  qed
qed

lemma post_change_effect:
  assumes "plan_ok s" and "bucket_open s b" and "post_change b d s = Some s'"
  shows "plan_ok s' \<and> (\<exists>n. bucket_quantity s b = Some n \<and> 0 \<le> n + d \<and>
    bucket_quantity s' = (bucket_quantity s)(b \<mapsto> n + d))"
proof (cases b)
  case (UntrackedBucket i)
  from assms(3,2) obtain p where p: "assoc_get (spl_products s) i = Some p" "0 \<le> untracked p + d"
    and s': "spl_products s' = assoc_set (spl_products s) i (p\<lparr>pds_quantity := pds_quantity p + d\<rparr>)"
    unfolding UntrackedBucket by (rule apply_untrackedE)
  have u: "untracked (p\<lparr>pds_quantity := pds_quantity p + d\<rparr>) = untracked p + d"
    by (simp add: untracked_def)
  have "bucket_quantity s' = (bucket_quantity s)(b \<mapsto> untracked p + d)"
    by (rule ext) (auto simp: bucket_quantity_def s' u p UntrackedBucket split: stock_bucket.splits)
  moreover have "plan_ok s'"
    using assms(1) p by (auto simp: plan_ok_def s' product_ok_def u split: if_splits)
  ultimately show ?thesis using p by (auto simp: bucket_quantity_def UntrackedBucket)
next
  case (LotBucket i l)
  from assms(3) obtain p lot where p: "assoc_get (spl_products s) i = Some p"
    and lot: "find (\<lambda>x. lts_id x = l) (pds_lots p) = Some lot" "0 \<le> lts_quantity lot + d"
    and s': "spl_products s' = assoc_set (spl_products s) i
       (p\<lparr>pds_lots := update_first (\<lambda>x. lts_id x = l)
            (\<lambda>_. lot\<lparr>lts_quantity := lts_quantity lot + d\<rparr>) (pds_lots p),
          pds_quantity := pds_quantity p + d\<rparr>)"
    unfolding LotBucket by (rule apply_lotE)
  let ?lots = "update_first (\<lambda>x. lts_id x = l)
      (\<lambda>_. lot\<lparr>lts_quantity := lts_quantity lot + d\<rparr>) (pds_lots p)"
  have key: "lts_id (lot\<lparr>lts_quantity := lts_quantity lot + d\<rparr>) = l"
    using find_SomeD [OF lot(1)] by simp
  have u: "untracked (p\<lparr>pds_lots := ?lots, pds_quantity := pds_quantity p + d\<rparr>) = untracked p"
    by (simp add: untracked_def sum_lots_update [OF lot(1)])
  have "bucket_quantity s' = (bucket_quantity s)(b \<mapsto> lts_quantity lot + d)"
    by (rule ext) (auto simp: bucket_quantity_def s' u p LotBucket
        find_update_first [where key = lts_id, OF key lot(1)] split: stock_bucket.splits)
  moreover have "\<forall>x\<in>set (pds_lots p). 0 \<le> lts_quantity x"
    using assms(1) p by (auto simp: plan_ok_def product_ok_def)
  then have "\<forall>x\<in>set ?lots. 0 \<le> lts_quantity x"
    by (rule update_first_pres) (use lot(2) in simp)
  then have "plan_ok s'"
    using assms(1) p by (auto simp: plan_ok_def s' product_ok_def u split: if_splits)
  ultimately show ?thesis using p lot by (auto simp: bucket_quantity_def LotBucket)
next
  case (VariantBucket i v)
  from assms(3) obtain p var where p: "assoc_get (spl_products s) i = Some p"
    and var: "find (\<lambda>x. vrs_id x = v) (pds_variants p) = Some var" "0 \<le> vrs_quantity var + d"
    and s': "spl_products s' = assoc_set (spl_products s) i
       (p\<lparr>pds_variants := update_first (\<lambda>x. vrs_id x = v)
            (\<lambda>_. var\<lparr>vrs_quantity := vrs_quantity var + d\<rparr>) (pds_variants p)\<rparr>)"
    unfolding VariantBucket by (rule apply_variantE)
  let ?vs = "update_first (\<lambda>x. vrs_id x = v)
      (\<lambda>_. var\<lparr>vrs_quantity := vrs_quantity var + d\<rparr>) (pds_variants p)"
  have key: "vrs_id (var\<lparr>vrs_quantity := vrs_quantity var + d\<rparr>) = v"
    using find_SomeD [OF var(1)] by simp
  have u: "untracked (p\<lparr>pds_variants := ?vs\<rparr>) = untracked p"
    by (simp add: untracked_def)
  have "bucket_quantity s' = (bucket_quantity s)(b \<mapsto> vrs_quantity var + d)"
    by (rule ext) (auto simp: bucket_quantity_def s' u p VariantBucket
        find_update_first [where key = vrs_id, OF key var(1)] split: stock_bucket.splits)
  moreover have "\<forall>x\<in>set (pds_variants p). 0 \<le> vrs_quantity x"
    using assms(1) p by (auto simp: plan_ok_def product_ok_def)
  then have "\<forall>x\<in>set ?vs. 0 \<le> vrs_quantity x"
    by (rule update_first_pres) (use var(2) in simp)
  then have "plan_ok s'"
    using assms(1) p by (auto simp: plan_ok_def s' product_ok_def u split: if_splits)
  ultimately show ?thesis using p var by (auto simp: bucket_quantity_def VariantBucket)
qed

lemma open_kept:
  assumes "assoc_get (spl_products s) i = Some p"
    and "spl_products s' = assoc_set (spl_products s) i p'"
    and "pds_hasVariants p' = pds_hasVariants p" and "pds_useStock p' = pds_useStock p"
  shows "bucket_open s' = bucket_open s"
  using assms by (intro ext) (auto simp: bucket_open_def split: stock_bucket.splits)

lemma post_change_open:
  assumes "post_change b d s = Some s'"
  shows "bucket_open s' = bucket_open s"
proof (cases b)
  case (UntrackedBucket i)
  then have "bucket_open s (UntrackedBucket i)"
    using assms
    by (auto simp: post_change_def apply_change_def plain_change_def applyUntracked_def
        requireProduct_def bucket_open_def result_simps split: option.splits if_splits sum.splits)
  with assms UntrackedBucket obtain p where "assoc_get (spl_products s) i = Some p"
    "spl_products s' = assoc_set (spl_products s) i (p\<lparr>pds_quantity := pds_quantity p + d\<rparr>)"
    by (auto elim: apply_untrackedE)
  then show ?thesis by (rule open_kept) simp_all
next
  case (LotBucket i l)
  from assms show ?thesis
    unfolding LotBucket by (rule apply_lotE) (rule open_kept, assumption+, simp_all)
next
  case (VariantBucket i v)
  from assms show ?thesis
    unfolding VariantBucket by (rule apply_variantE) (rule open_kept, assumption+, simp_all)
qed

interpretation stock: ledger plan_ok bucket_open bucket_quantity post_change
proof
  show "plan_ok s \<Longrightarrow> bucket_open s b \<Longrightarrow> bucket_quantity s b = Some n \<Longrightarrow> 0 \<le> n + d \<Longrightarrow> d \<noteq> 0 \<Longrightarrow>
      post_change b d s \<noteq> None" for s b n d
    by (rule post_change_accepted)
  show "plan_ok s \<Longrightarrow> bucket_open s b \<Longrightarrow> post_change b d s = Some s' \<Longrightarrow> plan_ok s'" for s b d s'
    using post_change_effect by blast
  show "plan_ok s \<Longrightarrow> post_change b d s = Some s' \<Longrightarrow> bucket_open s' = bucket_open s" for s b d s'
    using post_change_open by blast
  show "plan_ok s \<Longrightarrow> bucket_open s b \<Longrightarrow> post_change b d s = Some s' \<Longrightarrow>
      \<exists>n. bucket_quantity s b = Some n \<and> 0 \<le> n + d \<and>
        bucket_quantity s' = (bucket_quantity s)(b \<mapsto> n + d)" for s b d s'
    using post_change_effect by blast
qed

text \<open>The loop of \<open>apply\<close> over plain changes is the ledger's sequence of postings.\<close>

definition changes_of :: "(stock_bucket \<times> int) list \<Rightarrow> stock_change list" where
  "changes_of ps = map (\<lambda>p. plain_change (fst p) (JsInt (snd p))) ps"

lemma apply_all_post:
  "apply_all (changes_of ps) s = (Inr u, s') \<longleftrightarrow> stock.post_all ps s = Some s'"
proof (induction ps arbitrary: s)
  case Nil
  show ?case by (simp add: changes_of_def)
next
  case (Cons p ps)
  show ?case
  proof (cases "apply_change (plain_change (fst p) (JsInt (snd p))) s")
    case (Inl e)
    then have "post_change (fst p) (snd p) s = None" by (simp add: post_change_def)
    with Inl show ?thesis by (cases p) (simp add: changes_of_def)
  next
    case (Inr s1)
    then have "post_change (fst p) (snd p) s = Some s1" by (simp add: post_change_def)
    with Inr show ?thesis
      using Cons.IH [of s1] by (cases p) (simp add: changes_of_def)
  qed
qed

text \<open>A plan over consistent products starts in good order.\<close>

lemma new_plan_ok:
  assumes "\<forall>p\<in>set ps. product_ok p"
  shows "plan_ok (new_plan ps today)"
proof -
  have step: "product_ok p \<and> pds_id p = i"
    if "assoc_get (foldl (\<lambda>m p. assoc_set m (pds_id p) p) m ps) i = Some p"
      and "\<And>i p. assoc_get m i = Some p \<Longrightarrow> product_ok p \<and> pds_id p = i" for m i p
    using that assms
  proof (induction ps arbitrary: m)
    case (Cons a ps)
    show ?case
      by (rule Cons.IH [of "assoc_set m (pds_id a) a"])
        (use Cons.prems in \<open>auto split: if_splits\<close>)
  qed simp
  show ?thesis using step [of "[]"] by (simp add: plan_ok_def new_plan_def)
qed

subsection \<open>The movements of a posting\<close>

definition movement_record :: "planned_movement \<Rightarrow> sale_movement_record" where
  "movement_record m =
     \<lparr>smr_bucketKind = plm_bucketKind m, smr_productId = plm_productId m,
      smr_variantId = plm_variantId m, smr_lotId = plm_lotId m, smr_delta = plm_delta m\<rparr>"

fun named_bucket :: "stock_bucket \<Rightarrow> bool" where
  "named_bucket (UntrackedBucket i) = True"
| "named_bucket (LotBucket i l) = (l \<noteq> [])"
| "named_bucket (VariantBucket i v) = (v \<noteq> [])"

fun lots_of_bucket :: "stock_bucket \<Rightarrow> ident set" where
  "lots_of_bucket (LotBucket i l) = {l}"
| "lots_of_bucket _ = {}"

fun moves :: "stock_bucket \<Rightarrow> int \<Rightarrow> planned_movement \<Rightarrow> bool" where
  "moves (UntrackedBucket i) d m =
     (plm_bucketKind m = KindUntracked \<and> plm_productId m = i \<and> plm_delta m = d)"
| "moves (LotBucket i l) d m =
     (plm_bucketKind m = KindLot \<and> plm_productId m = i \<and> plm_lotId m = Some l \<and> plm_delta m = d)"
| "moves (VariantBucket i v) d m =
     (plm_bucketKind m = KindVariant \<and> plm_productId m = i \<and> plm_variantId m = Some v \<and>
      plm_delta m = d)"

lemma post_movement:
  assumes "plan_ok s" and "bucket_open s b" and "post_change b d s = Some s'"
  shows "spl_movements s' = spl_movements s @ [last (spl_movements s')] \<and>
    moves b d (last (spl_movements s'))"
proof (cases b)
  case (UntrackedBucket i)
  with assms show ?thesis
    by (auto simp: post_change_def apply_change_def plain_change_def applyUntracked_def
        requireProduct_def checkVersion_def Let_def result_simps plan_ok_def bucket_open_def
        movement_row_def split: option.splits if_splits sum.splits)
next
  case (LotBucket i l)
  with assms show ?thesis
    by (auto simp: post_change_def apply_change_def plain_change_def applyLot_def
        requireProduct_def checkVersion_def Let_def result_simps plan_ok_def
        movement_row_def split: option.splits if_splits sum.splits dest!: find_SomeD)
next
  case (VariantBucket i v)
  with assms show ?thesis
    by (auto simp: post_change_def apply_change_def plain_change_def applyVariant_def
        requireProduct_def checkVersion_def Let_def result_simps plan_ok_def
        movement_row_def split: option.splits if_splits sum.splits dest!: find_SomeD)
qed

lemma moves_reversal:
  assumes "moves b d m" and "d < 0" and "named_bucket b" and "lots_of_bucket b \<subseteq> L"
  shows "reversal_change L (movement_record m) = Some (plain_change b (JsInt (- d)))"
  using assms by (cases b) (auto simp: reversal_change_def movement_record_def)

lemma post_all_movements:
  assumes "plan_ok s"
    and "\<forall>p\<in>set ps. bucket_open s (fst p) \<and> snd p < 0 \<and> named_bucket (fst p) \<and>
      lots_of_bucket (fst p) \<subseteq> L"
    and "stock.post_all ps s = Some s'"
  shows "\<exists>ms. spl_movements s' = spl_movements s @ ms \<and>
    mapSaleReversal (map movement_record ms) L = changes_of (stock.inverse_of ps)"
  using assms
proof (induction ps arbitrary: s)
  case Nil
  then show ?case
    by (simp add: mapSaleReversal_def changes_of_def stock.inverse_of_def List.map_filter_simps)
next
  case (Cons p ps)
  obtain b d where p: "p = (b, d)" by force
  with Cons.prems obtain s1 where s1: "post_change b d s = Some s1" "stock.post_all ps s1 = Some s'"
    by (auto split: option.splits)
  have b: "bucket_open s b" "d < 0" "named_bucket b" "lots_of_bucket b \<subseteq> L"
    using Cons.prems(2) p by auto
  obtain m where m: "spl_movements s1 = spl_movements s @ [m]"
    "reversal_change L (movement_record m) = Some (plain_change b (JsInt (- d)))"
    using post_movement [OF Cons.prems(1) b(1) s1(1)] moves_reversal b(2-4) by blast
  obtain ms where "spl_movements s' = spl_movements s1 @ ms"
    "mapSaleReversal (map movement_record ms) L = changes_of (stock.inverse_of ps)"
    using Cons.IH [of s1] Cons.prems(2) s1(2) post_change_effect [OF Cons.prems(1) b(1) s1(1)]
      post_change_open [OF s1(1)] by auto
  with m show ?case
    by (intro exI [of _ "m # ms"])
      (simp add: mapSaleReversal_def List.map_filter_simps changes_of_def stock.inverse_of_def p)
qed

text \<open>No open bucket of a plan in good order is below zero.\<close>

lemma bucket_nonneg:
  assumes "plan_ok s" and "bucket_quantity s b = Some n"
  shows "0 \<le> n"
proof -
  obtain p where p: "assoc_get (spl_products s) (bucket_product b) = Some p"
    using assms(2) by (auto simp: bucket_quantity_def split: option.splits)
  then have "product_ok p" using assms(1) by (auto simp: plan_ok_def)
  then show ?thesis
    using assms(2) p
    by (auto simp: bucket_quantity_def product_ok_def split: stock_bucket.splits dest!: find_SomeD)
qed

subsection \<open>The FEFO split\<close>

definition full_lot :: "lot_stock \<Rightarrow> fefo_allocation" where
  "full_lot l = \<lparr>ffa_lotId = Some (lts_id l), ffa_quantity = lts_quantity l\<rparr>"

lemma take_lots_shape:
  assumes "0 \<le> q" and "\<forall>l\<in>set ls. 0 < lts_quantity l" and "take_lots q ls = (as, rest)"
  shows "(rest = 0 \<and> q = 0 \<and> as = []) \<or>
    (rest = 0 \<and> (\<exists>pre l post n. ls = pre @ l # post \<and> 0 < n \<and> n \<le> lts_quantity l \<and>
       as = map full_lot pre @ [\<lparr>ffa_lotId = Some (lts_id l), ffa_quantity = n\<rparr>] \<and>
       q = (\<Sum>l\<leftarrow>pre. lts_quantity l) + n)) \<or>
    (0 < rest \<and> as = map full_lot ls \<and> q = (\<Sum>l\<leftarrow>ls. lts_quantity l) + rest)"
  using assms
proof (induction ls arbitrary: q as)
  case Nil
  then show ?case by auto
next
  case (Cons l ls)
  show ?case
  proof (cases "q = 0")
    case True
    with Cons.prems show ?thesis by simp
  next
    case False
    define n where "n = min (lts_quantity l) q"
    obtain as' where as': "take_lots (q - n) ls = (as', rest)"
      "as = \<lparr>ffa_lotId = Some (lts_id l), ffa_quantity = n\<rparr> # as'"
      using Cons.prems(3) False by (auto simp: n_def Let_def split: prod.splits)
    have n: "0 < n" "n \<le> lts_quantity l" "n \<le> q"
      using False Cons.prems(1,2) by (auto simp: n_def)
    note IH = Cons.IH [of "q - n" as']
    show ?thesis
    proof (cases "q \<le> lts_quantity l")
      case True
      then have "take_lots (q - n) ls = ([], 0)" by (cases ls) (simp_all add: n_def)
      with as' True n False have "rest = 0" "as = [\<lparr>ffa_lotId = Some (lts_id l), ffa_quantity = n\<rparr>]"
        "n = q" by (auto simp: n_def)
      then show ?thesis
        using n by (intro disjI2 disjI1 conjI exI [of _ "[]"] exI [of _ l] exI [of _ ls]) auto
    next
      case False
      then have full: "n = lts_quantity l" "\<lparr>ffa_lotId = Some (lts_id l), ffa_quantity = n\<rparr> = full_lot l"
        by (auto simp: n_def full_lot_def)
      from IH as' n Cons.prems(2) False full consider
        "rest = 0" "\<exists>pre l' post m. ls = pre @ l' # post \<and> 0 < m \<and> m \<le> lts_quantity l' \<and>
           as' = map full_lot pre @ [\<lparr>ffa_lotId = Some (lts_id l'), ffa_quantity = m\<rparr>] \<and>
           q - n = (\<Sum>l\<leftarrow>pre. lts_quantity l) + m"
        | "0 < rest" "as' = map full_lot ls" "q - n = (\<Sum>l\<leftarrow>ls. lts_quantity l) + rest"
        by fastforce
      then show ?thesis
      proof cases
        case 1
        then obtain pre l' post m where "ls = pre @ l' # post" "0 < m" "m \<le> lts_quantity l'"
          "as' = map full_lot pre @ [\<lparr>ffa_lotId = Some (lts_id l'), ffa_quantity = m\<rparr>]"
          "q - n = (\<Sum>l\<leftarrow>pre. lts_quantity l) + m" by blast
        then show ?thesis
          using 1(1) as' full
          by (intro disjI2 disjI1 conjI exI [of _ "l # pre"] exI [of _ l'] exI [of _ post] exI [of _ m])
            simp_all
      next
        case 2
        then show ?thesis using as' full by (intro disjI2) simp
      qed
    qed
  qed
qed

lemma allocateFefo_shape:
  assumes "allocateFefo pid (JsInt q) u lots today = Inr as" and "0 < q"
  shows "(\<exists>pre l post n. sellable_lots lots today = pre @ l # post \<and> 0 < n \<and> n \<le> lts_quantity l \<and>
       as = map full_lot pre @ [\<lparr>ffa_lotId = Some (lts_id l), ffa_quantity = n\<rparr>] \<and>
       q = (\<Sum>l\<leftarrow>pre. lts_quantity l) + n) \<or>
    (\<exists>rest. 0 < rest \<and> rest \<le> u \<and>
       as = map full_lot (sellable_lots lots today) @ [\<lparr>ffa_lotId = None, ffa_quantity = rest\<rparr>] \<and>
       q = (\<Sum>l\<leftarrow>sellable_lots lots today. lts_quantity l) + rest)"
proof -
  obtain as' rest where t: "take_lots q (sellable_lots lots today) = (as', rest)" by force
  have pos: "\<forall>l\<in>set (sellable_lots lots today). 0 < lts_quantity l"
    by (simp add: sellable_lots_def)
  from take_lots_shape [OF _ pos t] assms show ?thesis
    by (auto simp: allocateFefo_def t Let_def split: if_splits)
qed

lemma allocateFefo_fails:
  assumes "allocateFefo pid (JsInt q) u lots today = Inl e" and "0 < q" and "0 \<le> u"
  shows "(\<Sum>l\<leftarrow>sellable_lots lots today. lts_quantity l) + u < q \<and>
    e = InsufficientStockError ''PRODUCT'' (case pid of None \<Rightarrow> ''sellable'' | Some p \<Rightarrow> p)
      ((\<Sum>l\<leftarrow>sellable_lots lots today. lts_quantity l) + u) q"
proof -
  obtain as' rest where t: "take_lots q (sellable_lots lots today) = (as', rest)" by force
  have pos: "\<forall>l\<in>set (sellable_lots lots today). 0 < lts_quantity l"
    by (simp add: sellable_lots_def)
  from take_lots_shape [OF _ pos t] assms show ?thesis
    by (auto simp: allocateFefo_def t Let_def split: if_splits)
qed

lemma sum_list_part: "0 \<le> (\<Sum>l\<leftarrow>post. lts_quantity l)" if "\<forall>l\<in>set post. 0 < lts_quantity l"
  using that by (intro sum_list_nonneg_int) auto

lemma allocateFefo_fits:
  assumes "allocateFefo pid (JsInt q) u lots today = Inr as" and "0 < q" and "0 \<le> u"
  shows "q \<le> (\<Sum>l\<leftarrow>sellable_lots lots today. lts_quantity l) + u"
proof -
  have "\<forall>l\<in>set (sellable_lots lots today). 0 < lts_quantity l"
    by (simp add: sellable_lots_def)
  then have tail: "sellable_lots lots today = pre @ l # post \<Longrightarrow> 0 \<le> (\<Sum>l\<leftarrow>post. lts_quantity l)"
    for pre l post by (intro sum_list_part) simp
  from allocateFefo_shape [OF assms(1,2)] show ?thesis
  proof (elim disjE exE conjE)
    fix pre l post n
    assume "sellable_lots lots today = pre @ l # post" "n \<le> lts_quantity l"
      "q = (\<Sum>l\<leftarrow>pre. lts_quantity l) + n"
    then show ?thesis using tail [of pre l post] assms(3) by simp
  qed simp
qed

text \<open>A charge as postings to the buckets of its product.\<close>

definition allocation_posting :: "ident \<Rightarrow> fefo_allocation \<Rightarrow> stock_bucket \<times> int" where
  "allocation_posting i a =
     ((case ffa_lotId a of None \<Rightarrow> UntrackedBucket i | Some l \<Rightarrow> LotBucket i l), - ffa_quantity a)"

lemma allocation_changes:
  assumes "\<forall>a\<in>set as. ffa_lotId a \<noteq> Some []"
  shows "map (allocation_change i) as = changes_of (map (allocation_posting i) as)"
  using assms
  by (auto simp: changes_of_def allocation_change_def allocation_posting_def split: option.splits)

lemma post_all_product:
  assumes "\<forall>p\<in>set ps. bucket_open s (fst p) \<and>
      (fst p = UntrackedBucket i \<or> (\<exists>l. fst p = LotBucket i l))"
    and "stock.post_all ps s = Some s'" and "productQuantity i s = Some n"
  shows "productQuantity i s' = Some (n + (\<Sum>p\<leftarrow>ps. snd p))"
  using assms
proof (induction ps arbitrary: s n)
  case (Cons p ps)
  obtain b d where p: "p = (b, d)" by force
  with Cons.prems obtain s1 where s1: "post_change b d s = Some s1" "stock.post_all ps s1 = Some s'"
    by (auto split: option.splits)
  have "productQuantity i s1 = Some (n + d)"
  proof (cases "b = UntrackedBucket i")
    case True
    with s1(1) Cons.prems p show ?thesis
      by (auto simp: productQuantity_def elim!: apply_untrackedE)
  next
    case False
    with Cons.prems(1) p obtain l where "b = LotBucket i l" by auto
    with s1(1) Cons.prems(3) show ?thesis
      by (auto simp: productQuantity_def elim!: apply_lotE)
  qed
  from Cons.IH [OF _ s1(2) this] Cons.prems(1) post_change_open [OF s1(1)] p show ?case by simp
qed simp

lemma find_lot_unique:
  assumes "distinct (map lts_id ls)" and "l \<in> set ls"
  shows "find (\<lambda>x. lts_id x = lts_id l) ls = Some l"
  using assms by (induction ls) auto

lemma sellable_mem: "l \<in> set (sellable_lots lots today) \<Longrightarrow> l \<in> set lots"
  by (simp add: sellable_lots_def)

lemma sellable_distinct:
  assumes "distinct (map lts_id lots)"
  shows "distinct (map lts_id (sellable_lots lots today))"
proof -
  have "mset (map lts_id (sellable_lots lots today)) =
      mset (map lts_id (filter (\<lambda>l. 0 < lts_quantity l \<and> \<not> isLotExpired (lts_expirationDate l) today) lots))"
    by (simp add: sellable_lots_def)
  then show ?thesis
    using mset_eq_imp_distinct_iff distinct_map_filter [OF assms] by metis
qed

text \<open>The facts about the postings of a FEFO split that the charge needs.\<close>

lemma fefo_postings:
  assumes "allocateFefo pid (JsInt q) u lots today = Inr as" and "0 < q"
    and "distinct (map lts_id lots)" and "\<forall>l\<in>set lots. lts_id l \<noteq> []"
  shows "distinct (map fst (map (allocation_posting i) as))"
    and "(\<Sum>p\<leftarrow>map (allocation_posting i) as. snd p) = - q"
    and "\<forall>a\<in>set as. ffa_lotId a \<noteq> Some [] \<and> 0 < ffa_quantity a \<and>
      (case ffa_lotId a of
         None \<Rightarrow> ffa_quantity a \<le> u
       | Some x \<Rightarrow> \<exists>l\<in>set lots. lts_id l = x \<and> ffa_quantity a \<le> lts_quantity l \<and>
           \<not> isLotExpired (lts_expirationDate l) today)"
proof -
  let ?sl = "sellable_lots lots today"
  have d: "distinct (map lts_id ?sl)" by (rule sellable_distinct [OF assms(3)])
  have sl: "\<forall>l\<in>set ?sl. l \<in> set lots \<and> 0 < lts_quantity l \<and>
      \<not> isLotExpired (lts_expirationDate l) today"
    by (simp add: sellable_lots_def)
  have post: "map (allocation_posting i) (map full_lot ls) =
      map (\<lambda>l. (LotBucket i (lts_id l), - lts_quantity l)) ls" for ls
    by (simp add: allocation_posting_def full_lot_def comp_def)
  have dl: "distinct (map lts_id ls) \<Longrightarrow> distinct (map (\<lambda>l. LotBucket i (lts_id l)) ls)" for ls
    by (induction ls) auto
  have neg: "(\<Sum>l\<leftarrow>ls. - lts_quantity l) = - (\<Sum>l\<leftarrow>ls. lts_quantity l)" for ls
    by (induction ls) auto
  consider (lots) pre l post n where "?sl = pre @ l # post" "0 < n" "n \<le> lts_quantity l"
      "as = map full_lot pre @ [\<lparr>ffa_lotId = Some (lts_id l), ffa_quantity = n\<rparr>]"
      "q = (\<Sum>l\<leftarrow>pre. lts_quantity l) + n"
    | (rest) rest where "0 < rest" "rest \<le> u"
      "as = map full_lot ?sl @ [\<lparr>ffa_lotId = None, ffa_quantity = rest\<rparr>]"
      "q = (\<Sum>l\<leftarrow>?sl. lts_quantity l) + rest"
    using allocateFefo_shape [OF assms(1,2)] by blast
  note cases = this
  show "distinct (map fst (map (allocation_posting i) as))"
  proof (cases rule: cases)
    case lots
    with d have "distinct (map lts_id (pre @ [l]))" by simp
    from dl [OF this] show ?thesis
      unfolding lots(4) map_append post by (simp add: allocation_posting_def comp_def)
  next
    case rest
    from dl [OF d] show ?thesis
      unfolding rest(3) map_append post by (auto simp: allocation_posting_def comp_def)
  qed
  show "(\<Sum>p\<leftarrow>map (allocation_posting i) as. snd p) = - q"
  proof (cases rule: cases)
    case lots
    then show ?thesis
      unfolding lots(4) map_append post by (simp add: allocation_posting_def comp_def neg)
  next
    case rest
    then show ?thesis
      unfolding rest(3) map_append post by (simp add: allocation_posting_def comp_def neg)
  qed
  show "\<forall>a\<in>set as. ffa_lotId a \<noteq> Some [] \<and> 0 < ffa_quantity a \<and>
      (case ffa_lotId a of
         None \<Rightarrow> ffa_quantity a \<le> u
       | Some x \<Rightarrow> \<exists>l\<in>set lots. lts_id l = x \<and> ffa_quantity a \<le> lts_quantity l \<and>
           \<not> isLotExpired (lts_expirationDate l) today)"
  proof (cases rule: cases)
    case lots
    then show ?thesis using sl assms(4) by (auto simp: full_lot_def)
  next
    case rest
    then show ?thesis using sl assms(4) by (auto simp: full_lot_def)
  qed
qed

lemma untracked_total: "pds_quantity p = untracked p + (\<Sum>l\<leftarrow>pds_lots p. lts_quantity l)"
  by (simp add: untracked_def)

definition sold_item :: "ident \<Rightarrow> int \<Rightarrow> stock_charge_item" where
  "sold_item i q = \<lparr>sci_productId = i, sci_variantId = None, sci_quantity = JsInt q\<rparr>"

lemma charge_postings:
  assumes "assoc_get (spl_products s) i = Some p" and "pds_useStock p"
    and "allocateFefo (Some i) (JsInt q) (untracked p) (pds_lots p) (spl_today s) = Inr as"
    and "0 < q" and "distinct (map lts_id (pds_lots p))" and "\<forall>l\<in>set (pds_lots p). lts_id l \<noteq> []"
  shows "charge (sold_item i q) s = apply_all (changes_of (map (allocation_posting i) as)) s"
proof -
  have "\<forall>a\<in>set as. ffa_lotId a \<noteq> Some []"
    using fefo_postings(3) [OF assms(3-6)] by auto
  from allocation_changes [OF this, of i] assms(1-3) show ?thesis
    by (simp add: charge_def sold_item_def requireProduct_def)
qed

lemma charge_accepted:
  assumes "plan_ok s" and "assoc_get (spl_products s) i = Some p" and "pds_useStock p"
    and "\<not> pds_hasVariants p" and "distinct (map lts_id (pds_lots p))"
    and "\<forall>l\<in>set (pds_lots p). lts_id l \<noteq> []" and "0 < q"
    and "allocateFefo (Some i) (JsInt q) (untracked p) (pds_lots p) (spl_today s) = Inr as"
  shows "\<exists>s'. charge (sold_item i q) s = (Inr (), s') \<and> plan_ok s' \<and>
    productQuantity i s' = Some (pds_quantity p - q)"
proof -
  let ?ps = "map (allocation_posting i) as"
  note f = fefo_postings [OF assms(8,7,5,6)]
  have ok: "bucket_open s (fst x) \<and> snd x \<noteq> 0 \<and>
      (\<exists>n. bucket_quantity s (fst x) = Some n \<and> 0 \<le> n + snd x) \<and>
      (fst x = UntrackedBucket i \<or> (\<exists>l. fst x = LotBucket i l))" if "x \<in> set ?ps" for x
  proof -
    obtain a where a: "a \<in> set as" "x = allocation_posting i a" using \<open>x \<in> set ?ps\<close> by auto
    with f(3) have pos: "0 < ffa_quantity a" and
      cov: "case ffa_lotId a of
         None \<Rightarrow> ffa_quantity a \<le> untracked p
       | Some x \<Rightarrow> \<exists>l\<in>set (pds_lots p). lts_id l = x \<and> ffa_quantity a \<le> lts_quantity l \<and>
           \<not> isLotExpired (lts_expirationDate l) (spl_today s)" by auto
    show ?thesis
    proof (cases "ffa_lotId a")
      case None
      with pos cov a assms(2-4) show ?thesis
        by (simp add: allocation_posting_def bucket_open_def bucket_quantity_def)
    next
      case (Some y)
      with cov obtain l where l: "l \<in> set (pds_lots p)" "lts_id l = y"
        "ffa_quantity a \<le> lts_quantity l" by auto
      have "find (\<lambda>x. lts_id x = y) (pds_lots p) = Some l"
        using find_lot_unique [OF assms(5) l(1)] l(2) by simp
      with Some pos l a assms(2-4) show ?thesis
        by (simp add: allocation_posting_def bucket_open_def bucket_quantity_def)
    qed
  qed
  have "\<exists>s'. stock.post_all ?ps s = Some s'"
    using ok bucket_nonneg [OF assms(1)]
    by (intro stock.distinct_postings_accepted [OF assms(1) f(1)]) auto
  then obtain s' where s': "stock.post_all ?ps s = Some s'" ..
  have "plan_ok s'"
    using stock.post_all_qty [OF assms(1) _ s'] ok by auto
  moreover have "productQuantity i s' = Some (pds_quantity p - q)"
    using post_all_product [OF _ s', of i "pds_quantity p"] ok f(2) assms(2)
    by (simp add: productQuantity_def)
  moreover have "charge (sold_item i q) s = (Inr (), s')"
    using s' unfolding charge_postings [OF assms(2,3,8,7,5,6)] apply_all_post .
  ultimately show ?thesis by blast
qed

lemma charge_refused:
  assumes "assoc_get (spl_products s) i = Some p" and "pds_useStock p"
    and "allocateFefo (Some i) (JsInt q) (untracked p) (pds_lots p) (spl_today s) = Inl e"
  shows "charge (sold_item i q) s = (Inl e, s)"
  using assms by (simp add: charge_def sold_item_def requireProduct_def)

subsection \<open>Properties\<close>

definition lot_a :: lot_stock where
  "lot_a = \<lparr>lts_id = ''a'', lts_lotNumber = ''A'', lts_quantity = 3, lts_stockVersion = 0,
     lts_expirationDate = 864000000\<rparr>"

definition lot_b :: lot_stock where
  "lot_b = \<lparr>lts_id = ''b'', lts_lotNumber = ''B'', lts_quantity = 4, lts_stockVersion = 0,
     lts_expirationDate = 432000000\<rparr>"

definition sample_product :: product_stock where
  "sample_product =
     \<lparr>pds_id = ''p'', pds_name = ''Milk'', pds_quantity = 9, pds_stockVersion = 0,
      pds_useStock = True, pds_hasVariants = False, pds_lots = [lot_a, lot_b], pds_variants = []\<rparr>"

lemmas sample_stock_simps = lot_a_def lot_b_def sample_product_def

lemma sample_plan_ok: "plan_ok (new_plan [sample_product] 1)"
  by (rule new_plan_ok) (simp add: product_ok_def untracked_def sample_stock_simps)

lemma sample_plan_product:
  "assoc_get (spl_products (new_plan [sample_product] 1)) ''p'' = Some sample_product"
  by (simp add: new_plan_def sample_stock_simps)

text \<open>
  First expired, first out.  An accepted split of a positive quantity
  takes whole lots in the order of expiration, the last one possibly in part, and
  turns to the untracked stock only when all sellable lots are used up; the
  quantities add up to the quantity asked.  It fails exactly when the sellable lots
  and the untracked stock together do not cover the quantity, and then reports what
  was available.
\<close>

theorem fefo_first_expired_first_out:
  assumes "0 < q" and "0 \<le> u"
  shows "sorted (map (\<lambda>l. (lts_expirationDate l, lts_id l)) (sellable_lots lots today)) \<and>
    (case allocateFefo pid (JsInt q) u lots today of
       Inr as \<Rightarrow>
         q \<le> (\<Sum>l\<leftarrow>sellable_lots lots today. lts_quantity l) + u \<and>
         ((\<exists>pre l post n. sellable_lots lots today = pre @ l # post \<and> 0 < n \<and> n \<le> lts_quantity l \<and>
             as = map full_lot pre @ [\<lparr>ffa_lotId = Some (lts_id l), ffa_quantity = n\<rparr>] \<and>
             q = (\<Sum>l\<leftarrow>pre. lts_quantity l) + n) \<or>
          (\<exists>rest. 0 < rest \<and> rest \<le> u \<and>
             as = map full_lot (sellable_lots lots today) @ [\<lparr>ffa_lotId = None, ffa_quantity = rest\<rparr>] \<and>
             q = (\<Sum>l\<leftarrow>sellable_lots lots today. lts_quantity l) + rest))
     | Inl e \<Rightarrow>
         (\<Sum>l\<leftarrow>sellable_lots lots today. lts_quantity l) + u < q \<and>
         e = InsufficientStockError ''PRODUCT'' (case pid of None \<Rightarrow> ''sellable'' | Some p \<Rightarrow> p)
           ((\<Sum>l\<leftarrow>sellable_lots lots today. lts_quantity l) + u) q)"
proof -
  have "sorted (map (\<lambda>l. (lts_expirationDate l, lts_id l)) (sellable_lots lots today))"
    by (simp add: sellable_lots_def)
  then show ?thesis
    using allocateFefo_shape [of pid q u lots today] allocateFefo_fits [of pid q u lots today]
      allocateFefo_fails [of pid q u lots today] assms
    by (cases "allocateFefo pid (JsInt q) u lots today") simp_all
qed

theorem fefo_first_expired_first_out_witness:
  "\<exists>as. allocateFefo None (JsInt 5) 2 [lot_a, lot_b] 1 = Inr as \<and>
     map ffa_lotId as = [Some ''b'', Some ''a''] \<and> 5 \<le> (\<Sum>l\<leftarrow>sellable_lots [lot_a, lot_b] 1. lts_quantity l) + 2"
proof -
  have a: "allocateFefo None (JsInt 5) 2 [lot_a, lot_b] 1 =
      Inr [\<lparr>ffa_lotId = Some ''b'', ffa_quantity = 4\<rparr>, \<lparr>ffa_lotId = Some ''a'', ffa_quantity = 1\<rparr>]"
    by (simp add: allocateFefo_def sellable_lots_def isLotExpired_def sample_stock_simps)
  show ?thesis
    using fefo_first_expired_first_out [of 5 2 "[lot_a, lot_b]" 1 None] unfolding a by simp
qed

text \<open>
  A posting changes its bucket and nothing else.  From a plan in good
  order an accepted change of an open bucket leaves the plan in good order, moves
  that bucket by the signed amount to a quantity that is not negative, leaves every
  other bucket alone, and records one movement of that bucket and amount.
\<close>

theorem posting_is_local:
  assumes "plan_ok s" and "bucket_open s b"
    and "apply_change (plain_change b (JsInt d)) s = Inr s'"
  shows "plan_ok s' \<and> (\<exists>n. bucket_quantity s b = Some n \<and> 0 \<le> n + d \<and>
      bucket_quantity s' = (bucket_quantity s)(b \<mapsto> n + d)) \<and>
    (\<exists>m. spl_movements s' = spl_movements s @ [m] \<and> moves b d m)"
proof -
  have "post_change b d s = Some s'" using assms(3) by (simp add: post_change_def)
  from post_change_effect [OF assms(1,2) this] post_movement [OF assms(1,2) this] show ?thesis by blast
qed

theorem posting_is_local_witness:
  "\<exists>s'. apply_change (plain_change (LotBucket ''p'' ''a'') (JsInt (- 2))) (new_plan [sample_product] 1)
      = Inr s' \<and> bucket_quantity s' (LotBucket ''p'' ''a'') = Some 1"
proof -
  let ?s = "new_plan [sample_product] 1" and ?b = "LotBucket ''p'' ''a''"
  have op: "bucket_open ?s ?b"
    by (simp add: bucket_open_def sample_plan_product) (simp add: sample_product_def)
  have q: "bucket_quantity ?s ?b = Some 3"
    by (simp add: bucket_quantity_def sample_plan_product) (simp add: sample_stock_simps)
  have "post_change ?b (- 2) ?s \<noteq> None"
    by (rule stock.post_accepted [OF sample_plan_ok op q]) simp_all
  then obtain s' where h: "apply_change (plain_change ?b (JsInt (- 2))) ?s = Inr s'"
    by (auto simp: post_change_def split: sum.splits)
  from posting_is_local [OF sample_plan_ok op h] q h show ?thesis by auto
qed

text \<open>
  Property C17: a sale line is all or nothing.  Charging a tracked product without
  variants either takes exactly the quantity sold off the product and leaves the
  plan in good order, or finds too little sellable stock, reports it and leaves the
  plan as it was: no later allocation fails after an earlier one was applied.
\<close>

theorem charge_all_or_nothing:
  assumes "plan_ok s" and "assoc_get (spl_products s) i = Some p" and "pds_useStock p"
    and "\<not> pds_hasVariants p" and "distinct (map lts_id (pds_lots p))"
    and "\<forall>l\<in>set (pds_lots p). lts_id l \<noteq> []" and "0 < q"
  shows "case charge (sold_item i q) s of
      (Inr _, s') \<Rightarrow> plan_ok s' \<and> productQuantity i s' = Some (pds_quantity p - q) \<and>
        q \<le> (\<Sum>l\<leftarrow>sellable_lots (pds_lots p) (spl_today s). lts_quantity l) + untracked p
    | (Inl e, s') \<Rightarrow> s' = s \<and>
        e = InsufficientStockError ''PRODUCT'' i
          ((\<Sum>l\<leftarrow>sellable_lots (pds_lots p) (spl_today s). lts_quantity l) + untracked p) q \<and>
        (\<Sum>l\<leftarrow>sellable_lots (pds_lots p) (spl_today s). lts_quantity l) + untracked p < q"
proof -
  have u: "0 \<le> untracked p" using assms(1,2) by (auto simp: plan_ok_def product_ok_def)
  show ?thesis
  proof (cases "allocateFefo (Some i) (JsInt q) (untracked p) (pds_lots p) (spl_today s)")
    case (Inl e)
    from charge_refused [OF assms(2,3) Inl] allocateFefo_fails [OF Inl assms(7) u] show ?thesis by simp
  next
    case (Inr as)
    from charge_accepted [OF assms Inr] allocateFefo_fits [OF Inr assms(7) u] show ?thesis by auto
  qed
qed

theorem charge_all_or_nothing_witness:
  "case charge (sold_item ''p'' 8) (new_plan [sample_product] 1) of
     (Inr _, s') \<Rightarrow> productQuantity ''p'' s' = Some 1 | (Inl e, s') \<Rightarrow> False"
proof -
  have side: "pds_useStock sample_product" "\<not> pds_hasVariants sample_product"
    "distinct (map lts_id (pds_lots sample_product))"
    "\<forall>l\<in>set (pds_lots sample_product). lts_id l \<noteq> []" "(0::int) < 8"
    by (simp_all add: sample_stock_simps)
  have "(\<Sum>l\<leftarrow>sellable_lots (pds_lots sample_product) (spl_today (new_plan [sample_product] 1)).
      lts_quantity l) + untracked sample_product = 9" "pds_quantity sample_product = 9"
    by (simp_all add: new_plan_def sellable_lots_def isLotExpired_def untracked_def sample_stock_simps)
  with charge_all_or_nothing [OF sample_plan_ok sample_plan_product side] show ?thesis
    by (auto split: sum.splits prod.splits)
qed

text \<open>
  Property C8: reversing a sale restores every bucket.  After any accepted sequence
  of withdrawals from open buckets, mapping the movements it recorded to their
  reversal, with the lots still there, gives changes that are all accepted and
  bring every bucket back to its quantity before the sale.
\<close>

theorem reversal_restores_stock:
  assumes "plan_ok s"
    and "\<forall>w\<in>set ws. bucket_open s (fst w) \<and> snd w < 0 \<and> named_bucket (fst w) \<and>
      lots_of_bucket (fst w) \<subseteq> existingLots"
    and "apply_all (changes_of ws) s = (Inr (), s')"
  shows "\<exists>s''. apply_all
      (mapSaleReversal (map movement_record (drop (length (spl_movements s)) (spl_movements s')))
        existingLots) s' = (Inr (), s'') \<and>
    plan_ok s'' \<and> bucket_quantity s'' = bucket_quantity s"
proof -
  have posted: "stock.post_all ws s = Some s'" using assms(3) unfolding apply_all_post .
  obtain ms where ms: "spl_movements s' = spl_movements s @ ms"
    "mapSaleReversal (map movement_record ms) existingLots = changes_of (stock.inverse_of ws)"
    using post_all_movements [OF assms(1,2) posted] by blast
  have "plan_ok s'" using stock.post_all_qty [OF assms(1) _ posted] assms(2) by auto
  then have "0 \<le> n" if "bucket_quantity s' b = Some n" for b n
    using that by (rule bucket_nonneg)
  then obtain s'' where "stock.post_all (stock.inverse_of ws) s' = Some s''" "plan_ok s''"
    "bucket_quantity s'' = bucket_quantity s"
    using stock.reversal_restores [OF assms(1) _ posted] assms(2) by blast
  then show ?thesis
    by (intro exI [of _ s'']) (simp add: ms apply_all_post)
qed

theorem reversal_restores_stock_witness:
  "\<exists>s' s''. apply_all (changes_of [(LotBucket ''p'' ''a'', - 2)]) (new_plan [sample_product] 1) = (Inr (), s') \<and>
     apply_all (mapSaleReversal (map movement_record (drop 0 (spl_movements s'))) {''a'', ''b''}) s'
       = (Inr (), s'') \<and>
     bucket_quantity s'' = bucket_quantity (new_plan [sample_product] 1)"
proof -
  let ?s = "new_plan [sample_product] 1" and ?w = "[(LotBucket ''p'' ''a'', - 2::int)]"
  have op: "bucket_open ?s (LotBucket ''p'' ''a'')"
    by (simp add: bucket_open_def sample_plan_product) (simp add: sample_product_def)
  have q: "bucket_quantity ?s (LotBucket ''p'' ''a'') = Some 3"
    by (simp add: bucket_quantity_def sample_plan_product) (simp add: sample_stock_simps)
  have "post_change (LotBucket ''p'' ''a'') (- 2) ?s \<noteq> None"
    by (rule stock.post_accepted [OF sample_plan_ok op q]) simp_all
  then obtain s' where h: "apply_all (changes_of ?w) ?s = (Inr (), s')"
    by (auto simp: apply_all_post)
  have side: "\<forall>w\<in>set ?w. bucket_open ?s (fst w) \<and> snd w < 0 \<and> named_bucket (fst w) \<and>
      lots_of_bucket (fst w) \<subseteq> {''a'', ''b''}"
    using op by simp
  have "spl_movements ?s = []" by (simp add: new_plan_def)
  with reversal_restores_stock [OF sample_plan_ok side h] h show ?thesis by auto
qed

end
