(* ===== verification/CashMoney.thy ===== *)
theory CashMoney
  imports Prelude
begin

section \<open>Cash register: money and guards\<close>

text \<open>
  \<open>src/src/cash-register/domain/cash-money.ts\<close>, \<open>cash-guards.ts\<close> and the
  violations of \<open>cash-register.errors.ts\<close>.  An assertion returns unit or the
  error it throws.  A value of type \<open>number\<close> that reaches an assertion is a
  \<open>js_number\<close>; once the assertion has passed it is an integer, which
  \<open>cents_of\<close> reads.  The products \<open>multiplyCents\<close> forms are below \<open>2^62\<close>: above
  \<open>2^53\<close> a double may round them, but never into the storage window, so the
  guard decides as it does on the exact product.
\<close>

definition cash_violation :: "string \<Rightarrow> string \<Rightarrow> domain_error" where
  "cash_violation code msg = BusinessRuleViolationError msg code"

abbreviation cents_of :: "js_number \<Rightarrow> int" where
  "cents_of v \<equiv> js_trunc v"

definition CENTS_STORAGE_MIN :: int where
  "CENTS_STORAGE_MIN = -2147483647"

definition CENTS_STORAGE_MAX :: int where
  "CENTS_STORAGE_MAX = 2147483647"

definition in_storage :: "int \<Rightarrow> bool" where
  "in_storage n \<longleftrightarrow> CENTS_STORAGE_MIN \<le> n \<and> n \<le> CENTS_STORAGE_MAX"

definition assertIntegerCents :: "js_number \<Rightarrow> string \<Rightarrow> unit result" where
  "assertIntegerCents v field =
     throw_if (\<not> is_integer v)
       (cash_violation ''CASH_CENTS_NOT_INTEGER'' (field @ '' must be an integer number of cents''))"

definition assertStorageRangeCents :: "js_number \<Rightarrow> string \<Rightarrow> unit result" where
  "assertStorageRangeCents v field =
     andThen (assertIntegerCents v field) (\<lambda>_.
       throw_if (cents_of v < CENTS_STORAGE_MIN \<or> CENTS_STORAGE_MAX < cents_of v)
         (cash_violation ''CASH_CENTS_OUT_OF_RANGE''
           (field @ '' must fit the Int cents storage range'')))"

definition assertNonNegativeCents :: "js_number \<Rightarrow> string \<Rightarrow> unit result" where
  "assertNonNegativeCents v field =
     andThen (assertIntegerCents v field) (\<lambda>_.
       throw_if (cents_of v < 0)
         (cash_violation ''CASH_CENTS_NEGATIVE'' (field @ '' must not be negative'')))"

definition assertArithmeticRange :: "int \<Rightarrow> string \<Rightarrow> int result" where
  "assertArithmeticRange v field =
     (if v < CENTS_STORAGE_MIN \<or> CENTS_STORAGE_MAX < v
      then Inl (cash_violation ''CASH_ARITHMETIC_OVERFLOW''
             (field @ '' arithmetic exceeded the safe cents storage range''))
      else Inr v)"

definition checked :: "(int \<Rightarrow> int \<Rightarrow> int) \<Rightarrow> js_number \<Rightarrow> js_number \<Rightarrow> string \<Rightarrow> string \<Rightarrow> int result" where
  "checked f l r fieldR field =
     andThen (assertStorageRangeCents l field) (\<lambda>_.
     andThen (assertStorageRangeCents r fieldR) (\<lambda>_.
       assertArithmeticRange (f (cents_of l) (cents_of r)) field))"

definition addCents :: "js_number \<Rightarrow> js_number \<Rightarrow> string \<Rightarrow> int result" where
  "addCents l r field = checked (+) l r field field"

definition subtractCents :: "js_number \<Rightarrow> js_number \<Rightarrow> string \<Rightarrow> int result" where
  "subtractCents l r field = checked (-) l r field field"

definition sumCents :: "js_number list \<Rightarrow> string \<Rightarrow> int result" where
  "sumCents vs field = loopR (\<lambda>total v. addCents (JsInt total) v field) 0 vs"

definition multiplyCents :: "js_number \<Rightarrow> js_number \<Rightarrow> string \<Rightarrow> int result" where
  "multiplyCents a q field = checked (*) a q (field @ ''.quantity'') field"

subsection \<open>Guards\<close>

text \<open>\<open>None\<close> is \<open>null\<close> or \<open>undefined\<close>.\<close>

definition isNonEmptyText :: "string option \<Rightarrow> bool" where
  "isNonEmptyText v \<longleftrightarrow> (case v of None \<Rightarrow> False | Some s \<Rightarrow> 0 < length (trim s))"

definition assertNonEmptyText :: "string option \<Rightarrow> string \<Rightarrow> string result" where
  "assertNonEmptyText v field =
     (case v of
        Some s \<Rightarrow>
          if length (trim s) = 0
          then Inl (cash_violation ''CASH_IDENTITY_REQUIRED'' (field @ '' must be a non-empty identifier''))
          else Inr (trim s)
      | None \<Rightarrow>
          Inl (cash_violation ''CASH_IDENTITY_REQUIRED'' (field @ '' must be a non-empty identifier'')))"

definition assertValidDate :: "js_date \<Rightarrow> string \<Rightarrow> unit result" where
  "assertValidDate d field =
     throw_if (\<not> is_valid_date d)
       (cash_violation ''CASH_DATE_INVALID'' (field @ '' must be a valid date''))"

definition assertOptionalValidDate :: "js_date option \<Rightarrow> string \<Rightarrow> unit result" where
  "assertOptionalValidDate d field =
     (case d of None \<Rightarrow> Inr () | Some d' \<Rightarrow> assertValidDate d' field)"

subsection \<open>What the guards let through\<close>

named_theorems cash_simps \<open>when the cash guards and operations succeed\<close>

lemma in_storage_iff: "in_storage n \<longleftrightarrow> \<not> (n < CENTS_STORAGE_MIN \<or> CENTS_STORAGE_MAX < n)"
  by (auto simp: in_storage_def)

lemma in_storage_bounds: "in_storage n \<longleftrightarrow> - 2147483647 \<le> n \<and> n \<le> 2147483647"
  by (simp add: in_storage_def CENTS_STORAGE_MIN_def CENTS_STORAGE_MAX_def)

lemma is_integerE: "is_integer v \<longleftrightarrow> v = JsInt (cents_of v)"
  by (cases v) auto

lemma assertIntegerCents_ok [cash_simps]: "assertIntegerCents v f = Inr u \<longleftrightarrow> v = JsInt (cents_of v)"
  by (simp add: assertIntegerCents_def result_simps is_integerE)

lemma assertStorageRangeCents_ok [cash_simps]:
  "assertStorageRangeCents v f = Inr u \<longleftrightarrow> v = JsInt (cents_of v) \<and> in_storage (cents_of v)"
  by (auto simp: assertStorageRangeCents_def result_simps cash_simps in_storage_iff)

lemma assertNonNegativeCents_ok [cash_simps]:
  "assertNonNegativeCents v f = Inr u \<longleftrightarrow> v = JsInt (cents_of v) \<and> 0 \<le> cents_of v"
  by (auto simp: assertNonNegativeCents_def result_simps cash_simps)

lemma assertArithmeticRange_ok [cash_simps]:
  "assertArithmeticRange v f = Inr w \<longleftrightarrow> w = v \<and> in_storage v"
  by (auto simp: assertArithmeticRange_def in_storage_iff)

lemma checked_ok:
  "checked f l r fr fl = Inr w \<longleftrightarrow>
     l = JsInt (cents_of l) \<and> r = JsInt (cents_of r) \<and> in_storage (cents_of l) \<and>
     in_storage (cents_of r) \<and> w = f (cents_of l) (cents_of r) \<and> in_storage w"
  by (auto simp: checked_def result_simps cash_simps)

lemma addCents_ok [cash_simps]:
  "addCents l r f = Inr w \<longleftrightarrow>
     l = JsInt (cents_of l) \<and> r = JsInt (cents_of r) \<and> in_storage (cents_of l) \<and>
     in_storage (cents_of r) \<and> w = cents_of l + cents_of r \<and> in_storage w"
  by (simp add: addCents_def checked_ok)

lemma subtractCents_ok [cash_simps]:
  "subtractCents l r f = Inr w \<longleftrightarrow>
     l = JsInt (cents_of l) \<and> r = JsInt (cents_of r) \<and> in_storage (cents_of l) \<and>
     in_storage (cents_of r) \<and> w = cents_of l - cents_of r \<and> in_storage w"
  by (simp add: subtractCents_def checked_ok)

lemma multiplyCents_ok [cash_simps]:
  "multiplyCents l r f = Inr w \<longleftrightarrow>
     l = JsInt (cents_of l) \<and> r = JsInt (cents_of r) \<and> in_storage (cents_of l) \<and>
     in_storage (cents_of r) \<and> w = cents_of l * cents_of r \<and> in_storage w"
  by (simp add: multiplyCents_def checked_ok)

lemma assertNonEmptyText_ok [cash_simps]:
  "assertNonEmptyText v f = Inr t \<longleftrightarrow> isNonEmptyText v \<and> (\<exists>s. v = Some s \<and> t = trim s)"
  by (auto simp: assertNonEmptyText_def isNonEmptyText_def split: option.splits)

lemma assertValidDate_ok [cash_simps]: "assertValidDate d f = Inr u \<longleftrightarrow> d = ValidDate (date_time d)"
  by (cases d) (simp_all add: assertValidDate_def)

text \<open>
  A running total: every partial sum of the amounts added stays in the storage
  window, and so does every amount.
\<close>

definition sums_within :: "int \<Rightarrow> int list \<Rightarrow> bool" where
  "sums_within s xs \<longleftrightarrow> (\<forall>n\<le>length xs. in_storage (s + sum_list (take n xs)))"

lemma sums_within_Nil [simp]: "sums_within s [] \<longleftrightarrow> in_storage s"
  by (simp add: sums_within_def)

lemma sums_within_Cons [simp]: "sums_within s (x # xs) \<longleftrightarrow> in_storage s \<and> sums_within (s + x) xs"
proof -
  have "(\<forall>n\<le>Suc m. P n) \<longleftrightarrow> P 0 \<and> (\<forall>n\<le>m. P (Suc n))" for P :: "nat \<Rightarrow> bool" and m
    by (metis Suc_le_mono le0 not0_implies_Suc)
  then show ?thesis by (simp add: sums_within_def add.assoc)
qed

text \<open>A loop whose body adds the amounts of some of its elements.\<close>

lemma addCents_loop:
  assumes "loopR f s xs = Inr t" and "in_storage s"
    and "\<And>u x v. f u x = Inr v \<Longrightarrow> v = u + g x \<and> (in_storage u \<longrightarrow> in_storage v)"
  shows "t = s + (\<Sum>x\<leftarrow>xs. g x) \<and> sums_within s (map g xs)"
  using assms(1,2)
proof (induction xs arbitrary: s)
  case (Cons x xs)
  then obtain v where v: "f s x = Inr v" "loopR f v xs = Inr t" by (auto simp: result_simps)
  from assms(3) [OF v(1)] Cons.IH [OF v(2)] Cons.prems show ?case by auto
qed simp

lemma sumCents_ok:
  assumes "sumCents vs f = Inr t"
  shows "t = (\<Sum>v\<leftarrow>vs. cents_of v) \<and> sums_within 0 (map cents_of vs)"
proof -
  from assms have "t = 0 + (\<Sum>v\<leftarrow>vs. cents_of v) \<and> sums_within 0 (map cents_of vs)"
    unfolding sumCents_def
    by (rule addCents_loop) (auto simp: cash_simps in_storage_bounds)
  then show ?thesis by simp
qed

end
