(* ===== verification/CashMovement.thy ===== *)
theory CashMovement
  imports CashMoney
begin

section \<open>Cash register: movements\<close>

text \<open>
  \<open>src/src/cash-register/domain/cash-movement.policy.ts\<close> over the types of
  \<open>cash-register.types.ts\<close>: the sign and the source of a movement follow from its
  kind, the movements of a charge are its tenders and at most one change, and the
  expected cash is the opening fund and every physical cash delta_of.
\<close>

datatype cash_movement_kind = SalePayment | SaleChange | RefundSettlement | CashIn | CashOut

datatype cash_method = Cash | CardCredit | CardDebit | Transfer

datatype cash_source_type = SourcePayment | SourceSale | SourceRefund | SourceManual

record cash_channel =
  cch_channelKey :: string
  cch_channelLabel :: string
  cch_method :: cash_method

record cash_movement =
  cmv_sessionId :: ident
  cmv_deltaCents :: js_number
  cmv_method :: cash_method
  cmv_channelKey :: string
  cmv_channelLabel :: string
  cmv_kind :: cash_movement_kind
  cmv_sourceType :: cash_source_type
  cmv_sourceId :: ident
  cmv_reason :: "string option"

datatype cash_movement_sign = Positive | Negative

fun CASH_MOVEMENT_SIGNS :: "cash_movement_kind \<Rightarrow> cash_movement_sign" where
  "CASH_MOVEMENT_SIGNS SalePayment = Positive"
| "CASH_MOVEMENT_SIGNS SaleChange = Negative"
| "CASH_MOVEMENT_SIGNS RefundSettlement = Negative"
| "CASH_MOVEMENT_SIGNS CashIn = Positive"
| "CASH_MOVEMENT_SIGNS CashOut = Negative"

fun CASH_MOVEMENT_SOURCES :: "cash_movement_kind \<Rightarrow> cash_source_type" where
  "CASH_MOVEMENT_SOURCES SalePayment = SourcePayment"
| "CASH_MOVEMENT_SOURCES SaleChange = SourceSale"
| "CASH_MOVEMENT_SOURCES RefundSettlement = SourceRefund"
| "CASH_MOVEMENT_SOURCES CashIn = SourceManual"
| "CASH_MOVEMENT_SOURCES CashOut = SourceManual"

fun kind_name :: "cash_movement_kind \<Rightarrow> string" where
  "kind_name SalePayment = ''SALE_PAYMENT''"
| "kind_name SaleChange = ''SALE_CHANGE''"
| "kind_name RefundSettlement = ''REFUND_SETTLEMENT''"
| "kind_name CashIn = ''CASH_IN''"
| "kind_name CashOut = ''CASH_OUT''"

fun source_name :: "cash_source_type \<Rightarrow> string" where
  "source_name SourcePayment = ''PAYMENT''"
| "source_name SourceSale = ''SALE''"
| "source_name SourceRefund = ''REFUND''"
| "source_name SourceManual = ''MANUAL''"

fun sign_name :: "cash_movement_sign \<Rightarrow> string" where
  "sign_name Positive = ''positive''"
| "sign_name Negative = ''negative''"

definition assertValidCashMovement :: "cash_movement \<Rightarrow> unit result" where
  "assertValidCashMovement m =
     andThen (assertNonEmptyText (Some (cmv_sessionId m)) ''sessionId'') (\<lambda>_.
     andThen (assertNonEmptyText (Some (cmv_sourceId m)) ''sourceId'') (\<lambda>_.
     andThen (assertNonEmptyText (Some (cmv_channelKey m)) ''channelKey'') (\<lambda>_.
     andThen (assertNonEmptyText (Some (cmv_channelLabel m)) ''channelLabel'') (\<lambda>_.
     andThen (assertStorageRangeCents (cmv_deltaCents m) ''deltaCents'') (\<lambda>_.
     andThen (throw_if (cents_of (cmv_deltaCents m) = 0)
       (cash_violation ''CASH_MOVEMENT_ZERO_DELTA'' ''a cash movement must change the balance'')) (\<lambda>_.
     let sign = CASH_MOVEMENT_SIGNS (cmv_kind m);
         signViolated = (if sign = Positive then cents_of (cmv_deltaCents m) < 0
                         else 0 < cents_of (cmv_deltaCents m));
         expectedSource = CASH_MOVEMENT_SOURCES (cmv_kind m)
     in
     andThen (throw_if signViolated
       (cash_violation ''CASH_MOVEMENT_SIGN_INVALID''
         (kind_name (cmv_kind m) @ '' must be '' @ sign_name sign))) (\<lambda>_.
     andThen (throw_if (cmv_sourceType m \<noteq> expectedSource)
       (cash_violation ''CASH_MOVEMENT_SOURCE_MISMATCH''
         (kind_name (cmv_kind m) @ '' cannot be sourced from '' @ source_name (cmv_sourceType m)))) (\<lambda>_.
     andThen (throw_if (cmv_kind m = SaleChange \<and> cmv_method m \<noteq> Cash)
       (cash_violation ''CASH_CHANGE_NOT_CASH'' ''customer change is always physical cash'')) (\<lambda>_.
     if expectedSource = SourceManual then
       andThen (throw_if (cmv_method m \<noteq> Cash)
         (cash_violation ''CASH_MANUAL_MOVEMENT_NOT_CASH''
           ''manual cash movements must be physical cash'')) (\<lambda>_.
       throw_if (\<not> isNonEmptyText (cmv_reason m))
         (cash_violation ''CASH_MOVEMENT_REASON_REQUIRED''
           ''manual cash movements require a reason''))
     else Inr ())))))))))"

definition assertMovementBelongsToSession :: "cash_movement \<Rightarrow> ident \<Rightarrow> unit result" where
  "assertMovementBelongsToSession m sessionId =
     andThen (assertNonEmptyText (Some sessionId) ''sessionId'') (\<lambda>_.
       throw_if (cmv_sessionId m \<noteq> sessionId)
         (cash_violation ''CASH_MOVEMENT_SESSION_MISMATCH''
           ''cash movement does not belong to the target session''))"

definition assertMovementSourceUnique :: "cash_movement list \<Rightarrow> cash_movement \<Rightarrow> unit result" where
  "assertMovementSourceUnique existing candidate =
     loopR (\<lambda>_ e.
       throw_if (cmv_sourceType e = cmv_sourceType candidate \<and> cmv_sourceId e = cmv_sourceId candidate)
         (cash_violation ''CASH_MOVEMENT_DUPLICATE_SOURCE'' ''cash movement source already recorded''))
       () existing"

subsection \<open>The movements of a charge\<close>

fun js_neg_number :: "js_number \<Rightarrow> js_number" where
  "js_neg_number (JsInt n) = JsInt (- n)"
| "js_neg_number (JsFraction t) = JsFraction (- t)"
| "js_neg_number JsNotFinite = JsNotFinite"

definition planChangeMovement ::
  "ident \<Rightarrow> ident \<Rightarrow> js_number \<Rightarrow> cash_channel \<Rightarrow> cash_movement option result" where
  "planChangeMovement sessionId saleId changeDue channel =
     andThen (assertNonEmptyText (Some sessionId) ''sessionId'') (\<lambda>_.
     andThen (assertNonEmptyText (Some saleId) ''saleId'') (\<lambda>_.
     andThen (assertNonNegativeCents changeDue ''changeDueCents'') (\<lambda>_.
     andThen (assertStorageRangeCents changeDue ''changeDueCents'') (\<lambda>_.
     if cents_of changeDue = 0 then Inr None
     else
       andThen (throw_if (cch_method channel \<noteq> Cash)
         (cash_violation ''CASH_CHANGE_NOT_CASH'' ''customer change is always physical cash'')) (\<lambda>_.
       let change =
         \<lparr>cmv_sessionId = sessionId, cmv_deltaCents = js_neg_number changeDue, cmv_method = Cash,
          cmv_channelKey = cch_channelKey channel, cmv_channelLabel = cch_channelLabel channel,
          cmv_kind = SaleChange, cmv_sourceType = SourceSale, cmv_sourceId = saleId,
          cmv_reason = None\<rparr>
       in andThen (assertValidCashMovement change) (\<lambda>_. Inr (Some change)))))))"

record charge_payment =
  cpy_paymentId :: ident
  cpy_method :: cash_method
  cpy_amountCents :: js_number
  cpy_channel :: cash_channel

record charge_movements_input =
  cmi_sessionId :: ident
  cmi_saleId :: ident
  cmi_payments :: "charge_payment list"
  cmi_changeDueCents :: js_number
  cmi_cashChannel :: cash_channel

definition tender_of :: "ident \<Rightarrow> charge_payment \<Rightarrow> cash_movement" where
  "tender_of sessionId p =
     \<lparr>cmv_sessionId = sessionId, cmv_deltaCents = cpy_amountCents p, cmv_method = cpy_method p,
      cmv_channelKey = cch_channelKey (cpy_channel p),
      cmv_channelLabel = cch_channelLabel (cpy_channel p), cmv_kind = SalePayment,
      cmv_sourceType = SourcePayment, cmv_sourceId = cpy_paymentId p, cmv_reason = None\<rparr>"

definition plan_tender :: "ident \<Rightarrow> charge_payment \<Rightarrow> cash_movement result" where
  "plan_tender sessionId p =
     andThen (assertNonEmptyText (Some (cpy_paymentId p)) ''paymentId'') (\<lambda>_.
     andThen (assertNonNegativeCents (cpy_amountCents p) ''amountCents'') (\<lambda>_.
     andThen (assertStorageRangeCents (cpy_amountCents p) ''amountCents'') (\<lambda>_.
     andThen (throw_if (cch_method (cpy_channel p) \<noteq> cpy_method p)
       (cash_violation ''CASH_CHANNEL_METHOD_MISMATCH''
         ''payment channel does not match the payment method'')) (\<lambda>_.
     andThen (assertValidCashMovement (tender_of sessionId p)) (\<lambda>_.
       Inr (tender_of sessionId p))))))"

definition planChargeMovements :: "charge_movements_input \<Rightarrow> cash_movement list result" where
  "planChargeMovements input =
     andThen (assertNonEmptyText (Some (cmi_sessionId input)) ''sessionId'') (\<lambda>_.
     andThen (assertNonEmptyText (Some (cmi_saleId input)) ''saleId'') (\<lambda>_.
     andThen (mapM_list (plan_tender (cmi_sessionId input)) (cmi_payments input)) (\<lambda>tenders.
     andThen (planChangeMovement (cmi_sessionId input) (cmi_saleId input)
                (cmi_changeDueCents input) (cmi_cashChannel input)) (\<lambda>change.
       Inr (case change of None \<Rightarrow> tenders | Some c \<Rightarrow> tenders @ [c])))))"

subsection \<open>Expected cash\<close>

definition add_cash_delta :: "int \<Rightarrow> cash_movement \<Rightarrow> int result" where
  "add_cash_delta cashDelta m =
     andThen (assertValidCashMovement m) (\<lambda>_.
       if cmv_method m \<noteq> Cash then Inr cashDelta
       else addCents (JsInt cashDelta) (cmv_deltaCents m) ''cashDeltaCents'')"

definition expectedCashCents :: "js_number \<Rightarrow> cash_movement list \<Rightarrow> int result" where
  "expectedCashCents opening movements =
     andThen (assertNonNegativeCents opening ''openingCents'') (\<lambda>_.
     andThen (assertStorageRangeCents opening ''openingCents'') (\<lambda>_.
     andThen (loopR add_cash_delta 0 movements) (\<lambda>cashDelta.
       addCents opening (JsInt cashDelta) ''expectedCashCents'')))"

subsection \<open>What a valid movement is\<close>

definition delta_of :: "cash_movement \<Rightarrow> int" where
  "delta_of m = cents_of (cmv_deltaCents m)"

definition cash_delta :: "cash_movement \<Rightarrow> int" where
  "cash_delta m = (if cmv_method m = Cash then delta_of m else 0)"

definition movement_ok :: "cash_movement \<Rightarrow> bool" where
  "movement_ok m \<longleftrightarrow>
     cmv_deltaCents m = JsInt (delta_of m) \<and> in_storage (delta_of m) \<and>
     (if CASH_MOVEMENT_SIGNS (cmv_kind m) = Positive then 0 < delta_of m else delta_of m < 0) \<and>
     cmv_sourceType m = CASH_MOVEMENT_SOURCES (cmv_kind m) \<and>
     (cmv_kind m \<in> {SaleChange, CashIn, CashOut} \<longrightarrow> cmv_method m = Cash) \<and>
     (cmv_kind m \<in> {CashIn, CashOut} \<longrightarrow> isNonEmptyText (cmv_reason m)) \<and>
     isNonEmptyText (Some (cmv_sessionId m)) \<and> isNonEmptyText (Some (cmv_sourceId m)) \<and>
     isNonEmptyText (Some (cmv_channelKey m)) \<and> isNonEmptyText (Some (cmv_channelLabel m))"

lemma assertValidCashMovement_ok [cash_simps]:
  "assertValidCashMovement m = Inr u \<longleftrightarrow> movement_ok m"
  by (cases "cmv_kind m")
    (auto simp: assertValidCashMovement_def movement_ok_def delta_of_def result_simps cash_simps Let_def)

lemma movement_ok_range: "movement_ok m \<Longrightarrow> cmv_deltaCents m = JsInt (delta_of m) \<and> in_storage (delta_of m)"
  by (simp add: movement_ok_def)

lemma unique_source_ok:
  "assertMovementSourceUnique existing c = Inr u \<longleftrightarrow>
     (\<forall>e\<in>set existing. (cmv_sourceType e, cmv_sourceId e) \<noteq> (cmv_sourceType c, cmv_sourceId c))"
  unfolding assertMovementSourceUnique_def by (induction existing) (auto simp: result_simps)

lemma add_cash_delta_ok:
  "add_cash_delta s m = Inr t \<Longrightarrow>
     movement_ok m \<and> t = s + cash_delta m \<and> (in_storage s \<longrightarrow> in_storage t)"
  by (auto simp: add_cash_delta_def cash_delta_def delta_of_def result_simps cash_simps split: if_splits)

lemma add_cash_delta_loop:
  assumes "loopR add_cash_delta s ms = Inr t" and "in_storage s"
  shows "(\<forall>m\<in>set ms. movement_ok m) \<and> t = s + (\<Sum>m\<leftarrow>ms. cash_delta m) \<and>
    sums_within s (map cash_delta ms)"
proof -
  have "\<forall>m\<in>set ms. movement_ok m"
    using assms(1) by (induction ms arbitrary: s) (auto simp: result_simps dest: add_cash_delta_ok)
  with addCents_loop [OF assms] add_cash_delta_ok show ?thesis by blast
qed

lemma add_cash_delta_total:
  "\<forall>m\<in>set ms. movement_ok m \<Longrightarrow> sums_within s (map cash_delta ms) \<Longrightarrow>
     loopR add_cash_delta s ms = Inr (s + (\<Sum>m\<leftarrow>ms. cash_delta m))"
proof (induction ms arbitrary: s)
  case (Cons m ms)
  then have w: "in_storage s" "in_storage (s + cash_delta m)" and m: "movement_ok m"
    by (auto simp: sums_within_def dest: spec [of _ 0])
  have "add_cash_delta s m = Inr (s + cash_delta m)"
    using w m movement_ok_range [OF m]
    by (auto simp: add_cash_delta_def cash_delta_def delta_of_def result_simps cash_simps)
  with Cons show ?case by (simp add: add.assoc)
qed simp

lemma expectedCashCents_ok:
  "expectedCashCents opening ms = Inr e \<longleftrightarrow>
     opening = JsInt (cents_of opening) \<and> 0 \<le> cents_of opening \<and> in_storage (cents_of opening) \<and>
     (\<forall>m\<in>set ms. movement_ok m) \<and> sums_within 0 (map cash_delta ms) \<and>
     e = cents_of opening + (\<Sum>m\<leftarrow>ms. cash_delta m) \<and> in_storage e"
    (is "?l \<longleftrightarrow> ?r")
proof
  assume ?l
  then obtain t where "loopR add_cash_delta 0 ms = Inr t"
    and rest: "opening = JsInt (cents_of opening)" "0 \<le> cents_of opening"
      "in_storage (cents_of opening)" "e = cents_of opening + t" "in_storage e"
    by (auto simp: expectedCashCents_def result_simps cash_simps)
  from add_cash_delta_loop [OF this(1)] rest show ?r by (simp add: in_storage_bounds)
next
  assume r: ?r
  then have "loopR add_cash_delta 0 ms = Inr (\<Sum>m\<leftarrow>ms. cash_delta m)"
    using add_cash_delta_total [of ms 0] by simp
  moreover have "in_storage (\<Sum>m\<leftarrow>ms. cash_delta m)"
    using r by (auto simp: sums_within_def dest: spec [of _ "length ms"])
  ultimately show ?l using r by (auto simp: expectedCashCents_def result_simps cash_simps)
qed

end
