(* ===== verification/CashChannel.thy ===== *)
theory CashChannel
  imports CashMovement
begin

section \<open>Cash register: channels\<close>

text \<open>
  \<open>src/src/cash-register/domain/cash-channel.ts\<close>: the channel a movement belongs
  to and the totals by channel.  \<open>localeCompare\<close> is the collation of the host's
  ICU library; it is the parameter \<open>collate\<close>, the sort key (a byte string) whose
  order is the collation order.
\<close>

fun CASH_METHOD_LABELS :: "cash_method \<Rightarrow> string" where
  "CASH_METHOD_LABELS Cash = ''Efectivo''"
| "CASH_METHOD_LABELS CardCredit = ''Tarjeta de cr'' @ CHR 0xE9 # ''dito''"
| "CASH_METHOD_LABELS CardDebit = ''Tarjeta de d'' @ CHR 0xE9 # ''bito''"
| "CASH_METHOD_LABELS Transfer = ''Transferencia''"

fun method_name :: "cash_method \<Rightarrow> string" where
  "method_name Cash = ''CASH''"
| "method_name CardCredit = ''CARD_CREDIT''"
| "method_name CardDebit = ''CARD_DEBIT''"
| "method_name Transfer = ''TRANSFER''"

definition POOLED_CASH_CHANNEL :: cash_channel where
  "POOLED_CASH_CHANNEL =
     \<lparr>cch_channelKey = ''CASH'', cch_channelLabel = CASH_METHOD_LABELS Cash, cch_method = Cash\<rparr>"

record catalog_identity =
  cid_paymentMethodId :: string
  cid_name :: string

definition resolveCashChannel :: "cash_method \<Rightarrow> catalog_identity option \<Rightarrow> cash_channel result" where
  "resolveCashChannel m catalog =
     (if m = Cash then Inr POOLED_CASH_CHANNEL
      else case catalog of
          Some c \<Rightarrow>
            let paymentMethodId = trim (cid_paymentMethodId c); name = trim (cid_name c) in
            if length paymentMethodId = 0 \<or> length name = 0
            then Inl (cash_violation ''CASH_CATALOG_IDENTITY_INVALID''
                   ''catalog channel identity requires a non-empty id and name'')
            else Inr \<lparr>cch_channelKey = ''PM:'' @ paymentMethodId, cch_channelLabel = name,
                      cch_method = m\<rparr>
        | None \<Rightarrow> Inr \<lparr>cch_channelKey = ''METHOD:'' @ method_name m,
                        cch_channelLabel = CASH_METHOD_LABELS m, cch_method = m\<rparr>)"

definition isPhysicalCashChannel :: "cash_channel \<Rightarrow> bool" where
  "isPhysicalCashChannel c \<longleftrightarrow> cch_method c = Cash"

record channel_total =
  cct_channelKey :: string
  cct_channelLabel :: string
  cct_method :: cash_method
  cct_totalCents :: int
  cct_movementCount :: int

text \<open>\<open>compareChannelKeys\<close> orders by this key: the pooled cash first.\<close>

definition channel_sort_key :: "(string \<Rightarrow> string) \<Rightarrow> string \<Rightarrow> nat \<times> string" where
  "channel_sort_key collate k =
     (if k = cch_channelKey POOLED_CASH_CHANNEL then (0, []) else (1, collate k))"

type_synonym channel_map = "(string \<times> channel_total) list"

definition add_to_channel :: "channel_map \<Rightarrow> cash_movement \<Rightarrow> channel_map result" where
  "add_to_channel byKey m =
     andThen (assertValidCashMovement m) (\<lambda>_.
       case assoc_get byKey (cmv_channelKey m) of
         Some existing \<Rightarrow>
           andThen (throw_if
             (cct_channelLabel existing \<noteq> cmv_channelLabel m \<or> cct_method existing \<noteq> cmv_method m)
             (cash_violation ''CASH_CHANNEL_LABEL_CONFLICT''
               ''channel key is bound to more than one label or method'')) (\<lambda>_.
           andThen (addCents (JsInt (cct_totalCents existing)) (cmv_deltaCents m) ''channelTotalCents'')
             (\<lambda>t.
               Inr (assoc_set byKey (cmv_channelKey m)
                 (existing\<lparr>cct_totalCents := t,
                           cct_movementCount := cct_movementCount existing + 1\<rparr>))))
       | None \<Rightarrow>
           Inr (assoc_set byKey (cmv_channelKey m)
             \<lparr>cct_channelKey = cmv_channelKey m, cct_channelLabel = cmv_channelLabel m,
              cct_method = cmv_method m, cct_totalCents = cents_of (cmv_deltaCents m),
              cct_movementCount = 1\<rparr>))"

definition groupMovementsByChannel ::
  "(string \<Rightarrow> string) \<Rightarrow> cash_movement list \<Rightarrow> channel_total list result" where
  "groupMovementsByChannel collate ms =
     mapR (\<lambda>byKey. sort_key (\<lambda>t. channel_sort_key collate (cct_channelKey t)) (map snd byKey))
       (loopR add_to_channel [] ms)"

subsection \<open>The grouping is the partition by key\<close>

text \<open>What a channel total says of the movements it was built from.\<close>

definition total_of :: "cash_movement list \<Rightarrow> channel_total \<Rightarrow> bool" where
  "total_of ms t \<longleftrightarrow>
     (let own = filter (\<lambda>m. cmv_channelKey m = cct_channelKey t) ms in
      own \<noteq> [] \<and> cct_totalCents t = (\<Sum>m\<leftarrow>own. delta_of m) \<and>
      cct_movementCount t = int (length own) \<and> in_storage (cct_totalCents t) \<and>
      (\<forall>m\<in>set own. cmv_channelLabel m = cct_channelLabel t \<and> cmv_method m = cct_method t))"

definition groups_of :: "cash_movement list \<Rightarrow> channel_map \<Rightarrow> bool" where
  "groups_of ms byKey \<longleftrightarrow>
     distinct (map fst byKey) \<and> (\<forall>m\<in>set ms. movement_ok m) \<and>
     (\<forall>k. case assoc_get byKey k of
            None \<Rightarrow> filter (\<lambda>m. cmv_channelKey m = k) ms = []
          | Some t \<Rightarrow> cct_channelKey t = k \<and> total_of ms t)"

lemma groups_of_get:
  "groups_of ms byKey \<Longrightarrow>
     (case assoc_get byKey k of
        None \<Rightarrow> filter (\<lambda>m. cmv_channelKey m = k) ms = []
      | Some t \<Rightarrow> cct_channelKey t = k \<and> total_of ms t)"
  by (simp add: groups_of_def)

lemma groups_of_step:
  assumes g: "groups_of ms byKey" and s: "add_to_channel byKey m = Inr byKey'"
  shows "groups_of (ms @ [m]) byKey'"
proof -
  let ?k = "cmv_channelKey m"
  have mok: "movement_ok m" using s by (auto simp: add_to_channel_def result_simps cash_simps)
  have each: "case assoc_get byKey k of None \<Rightarrow> filter (\<lambda>m. cmv_channelKey m = k) ms = []
      | Some t \<Rightarrow> cct_channelKey t = k \<and> total_of ms t" for k
    by (rule groups_of_get [OF g])
  obtain t where byKey': "byKey' = assoc_set byKey ?k t"
    and t: "cct_channelKey t = ?k" "total_of (ms @ [m]) t"
  proof (cases "assoc_get byKey ?k")
    case None
    then have none: "filter (\<lambda>x. cmv_channelKey x = ?k) ms = []" using each [of ?k] by simp
    from s None mok have "byKey' = assoc_set byKey ?k
        \<lparr>cct_channelKey = ?k, cct_channelLabel = cmv_channelLabel m, cct_method = cmv_method m,
         cct_totalCents = delta_of m, cct_movementCount = 1\<rparr>"
      by (auto simp: add_to_channel_def result_simps cash_simps delta_of_def)
    from this show ?thesis
      by (rule that) (use none movement_ok_range [OF mok] in \<open>simp_all add: total_of_def Let_def\<close>)
  next
    case (Some old)
    then have old: "cct_channelKey old = ?k" "total_of ms old" using each [of ?k] by simp_all
    from s Some mok have v: "cct_channelLabel old = cmv_channelLabel m" "cct_method old = cmv_method m"
      "in_storage (cct_totalCents old + delta_of m)"
      "byKey' = assoc_set byKey ?k
         (old\<lparr>cct_totalCents := cct_totalCents old + delta_of m,
              cct_movementCount := cct_movementCount old + 1\<rparr>)"
      by (auto simp: add_to_channel_def result_simps cash_simps delta_of_def)
    show ?thesis
      by (rule that [OF v(4)]) (use old v(1-3) in \<open>auto simp: total_of_def Let_def\<close>)
  qed
  have other: "total_of (ms @ [m]) u" if "total_of ms u" "cct_channelKey u \<noteq> ?k" for u
    using that by (auto simp: total_of_def Let_def)
  have "case assoc_get byKey' k of None \<Rightarrow> filter (\<lambda>x. cmv_channelKey x = k) (ms @ [m]) = []
      | Some t \<Rightarrow> cct_channelKey t = k \<and> total_of (ms @ [m]) t" for k
    using each [of k] t other by (auto simp: byKey' split: option.splits)
  then show ?thesis
    using g mok byKey' by (simp add: groups_of_def distinct_assoc_set)
qed

lemma groups_of_loop:
  assumes "loopR add_to_channel [] ms = Inr byKey"
  shows "groups_of ms byKey"
  using assms
proof (rule loopR_rule)
  show "groups_of [] []" by (simp add: groups_of_def)
qed (rule groups_of_step)

lemma groups_of_member:
  assumes "groups_of ms byKey" and "(k, t) \<in> set byKey"
  shows "cct_channelKey t = k \<and> total_of ms t"
proof -
  have "assoc_get byKey k = Some t"
    using assms by (intro assoc_get_in) (simp_all add: groups_of_def)
  then show ?thesis using groups_of_get [OF assms(1), of k] by simp
qed

lemma groups_of_keys:
  assumes "groups_of ms byKey"
  shows "map cct_channelKey (map snd byKey) = map fst byKey"
    and "fst ` set byKey = cmv_channelKey ` set ms"
proof -
  show "map cct_channelKey (map snd byKey) = map fst byKey"
    using groups_of_member [OF assms] by auto
  have "k \<in> fst ` set byKey \<longleftrightarrow> k \<in> cmv_channelKey ` set ms" for k
  proof (cases "assoc_get byKey k")
    case None
    with groups_of_get [OF assms, of k] have "filter (\<lambda>m. cmv_channelKey m = k) ms = []" by simp
    with None show ?thesis by (auto simp: assoc_get_None filter_empty_conv)
  next
    case (Some t)
    with groups_of_get [OF assms, of k] have "filter (\<lambda>m. cmv_channelKey m = k) ms \<noteq> []"
      by (auto simp: total_of_def Let_def)
    then have "k \<in> cmv_channelKey ` set ms" by (force simp: filter_empty_conv)
    with Some show ?thesis by (force dest: assoc_get_SomeD)
  qed
  then show "fst ` set byKey = cmv_channelKey ` set ms" by blast
qed

lemma sum_by_key:
  assumes "distinct ks" and "key ` set xs \<subseteq> set ks"
  shows "(\<Sum>k\<leftarrow>ks. \<Sum>x\<leftarrow>filter (\<lambda>x. key x = k) xs. f x) = (\<Sum>x\<leftarrow>xs. f x :: int)"
  using assms(2)
proof (induction xs)
  case (Cons x xs)
  have "(\<Sum>k\<leftarrow>ks. \<Sum>y\<leftarrow>filter (\<lambda>y. key y = k) (x # xs). f y) =
      (\<Sum>k\<leftarrow>ks. (if key x = k then f x else 0) + (\<Sum>y\<leftarrow>filter (\<lambda>y. key y = k) xs. f y))"
    by (intro arg_cong [of _ _ sum_list] map_cong) auto
  also have "\<dots> = (\<Sum>k\<leftarrow>ks. if key x = k then f x else 0) + (\<Sum>y\<leftarrow>xs. f y)"
    using Cons by (simp add: sum_list_addf)
  also have "(\<Sum>k\<leftarrow>ks. if key x = k then f x else 0) = f x"
    using assms(1) Cons.prems by (simp add: sum_list_distinct_conv_sum_set)
  finally show ?case by simp
qed simp

text \<open>The specification of the grouping.\<close>

lemma group_spec:
  assumes "groupMovementsByChannel collate ms = Inr ts"
  shows "sorted (map (\<lambda>t. channel_sort_key collate (cct_channelKey t)) ts)"
    and "distinct (map cct_channelKey ts)"
    and "cct_channelKey ` set ts = cmv_channelKey ` set ms"
    and "t \<in> set ts \<Longrightarrow> total_of ms t"
    and "\<forall>m\<in>set ms. movement_ok m"
    and "(\<Sum>t\<leftarrow>ts. cct_totalCents t) = (\<Sum>m\<leftarrow>ms. delta_of m)"
proof -
  obtain byKey where loop: "loopR add_to_channel [] ms = Inr byKey"
    and ts: "ts = sort_key (\<lambda>t. channel_sort_key collate (cct_channelKey t)) (map snd byKey)"
    using assms by (auto simp: groupMovementsByChannel_def result_simps)
  note g = groups_of_loop [OF loop]
  show "sorted (map (\<lambda>t. channel_sort_key collate (cct_channelKey t)) ts)" by (simp add: ts)
  have keys: "distinct (map cct_channelKey (map snd byKey))"
    unfolding groups_of_keys(1) [OF g] using g by (simp add: groups_of_def)
  have perm: "mset ts = mset (map snd byKey)" by (simp add: ts)
  show d: "distinct (map cct_channelKey ts)"
    using keys perm by (metis mset_eq_imp_distinct_iff mset_map)
  have mem: "set ts = snd ` set byKey" by (simp add: ts)
  show ks: "cct_channelKey ` set ts = cmv_channelKey ` set ms"
    unfolding mem groups_of_keys(2) [OF g, symmetric]
    using groups_of_member [OF g] by (force simp: image_iff)
  show tot: "t \<in> set ts \<Longrightarrow> total_of ms t" for t
    using groups_of_member [OF g] unfolding mem by auto
  show "\<forall>m\<in>set ms. movement_ok m" using g by (simp add: groups_of_def)
  have "(\<Sum>t\<leftarrow>ts. cct_totalCents t) =
      (\<Sum>t\<leftarrow>ts. \<Sum>m\<leftarrow>filter (\<lambda>m. cmv_channelKey m = cct_channelKey t) ms. delta_of m)"
    using tot by (intro arg_cong [of _ _ sum_list] map_cong) (auto simp: total_of_def Let_def)
  also have "\<dots> = (\<Sum>k\<leftarrow>map cct_channelKey ts.
      \<Sum>m\<leftarrow>filter (\<lambda>m. cmv_channelKey m = k) ms. delta_of m)"
    by (simp add: comp_def)
  also have "\<dots> = (\<Sum>m\<leftarrow>ms. delta_of m)"
    by (rule sum_by_key [OF d]) (simp add: ks)
  finally show "(\<Sum>t\<leftarrow>ts. cct_totalCents t) = (\<Sum>m\<leftarrow>ms. delta_of m)" .
qed

text \<open>A movement on a channel the code resolved: its key tells the method.\<close>

definition on_resolved_channel :: "cash_movement \<Rightarrow> bool" where
  "on_resolved_channel m \<longleftrightarrow>
     (\<exists>catalog. resolveCashChannel (cmv_method m) catalog =
        Inr \<lparr>cch_channelKey = cmv_channelKey m, cch_channelLabel = cmv_channelLabel m,
             cch_method = cmv_method m\<rparr>)"

lemma resolved_channel:
  assumes "resolveCashChannel m catalog = Inr ch"
  shows "cch_method ch = m" and "cch_channelKey ch = ''CASH'' \<longleftrightarrow> m = Cash"
proof -
  have "cch_method ch = m \<and> (cch_channelKey ch = ''CASH'' \<longleftrightarrow> m = Cash)"
  proof (cases "m = Cash")
    case True
    with assms show ?thesis by (auto simp: resolveCashChannel_def POOLED_CASH_CHANNEL_def)
  next
    case False
    with assms show ?thesis
      by (cases catalog) (auto simp: resolveCashChannel_def Let_def split: if_split_asm)
  qed
  then show "cch_method ch = m" and "cch_channelKey ch = ''CASH'' \<longleftrightarrow> m = Cash" by simp_all
qed

lemma resolved_key:
  assumes "on_resolved_channel m"
  shows "cmv_channelKey m = ''CASH'' \<longleftrightarrow> cmv_method m = Cash"
proof -
  from assms obtain catalog where "resolveCashChannel (cmv_method m) catalog =
      Inr \<lparr>cch_channelKey = cmv_channelKey m, cch_channelLabel = cmv_channelLabel m,
           cch_method = cmv_method m\<rparr>"
    unfolding on_resolved_channel_def by blast
  from resolved_channel(2) [OF this] show ?thesis by simp
qed

text \<open>On such movements the physical cash is what the pooled channel totals.\<close>

lemma cash_is_pooled:
  assumes "\<forall>m\<in>set ms. on_resolved_channel m"
  shows "(\<Sum>m\<leftarrow>ms. cash_delta m) =
    (\<Sum>m\<leftarrow>filter (\<lambda>m. cmv_channelKey m = ''CASH'') ms. delta_of m)"
  using assms by (induction ms) (auto simp: cash_delta_def resolved_key)

end
