(* ===== verification/CashCount.thy ===== *)
theory CashCount
  imports CashChannel
begin

section \<open>Cash register: counts\<close>

text \<open>
  \<open>src/src/cash-register/domain/cash-count.policy.ts\<close> and the rules over counts of
  \<open>src/src/cash-register/infrastructure/cash-adapter-count-rules.ts\<close>: what a count
  must cover, the validation of a count, the comparison of expected, declared and
  verified amounts, and the expected snapshot frozen when counting starts.
\<close>

datatype channel_count_state = Missing | CountedZero | CountedNonzero

record count_line =
  ccl_channelKey :: string
  ccl_amountCents :: js_number

record denomination_line =
  cdl_denominationCents :: js_number
  cdl_quantity :: js_number

definition requiredCountChannelKeys :: "(string \<Rightarrow> string) \<Rightarrow> cash_movement list \<Rightarrow> string list" where
  "requiredCountChannelKeys collate ms =
     cch_channelKey POOLED_CASH_CHANNEL #
     sort_key collate (unique (map cmv_channelKey (filter (\<lambda>m. cmv_method m \<noteq> Cash) ms)))"

definition classifyChannelCount :: "count_line list \<Rightarrow> string \<Rightarrow> channel_count_state" where
  "classifyChannelCount ls k =
     (case find (\<lambda>l. ccl_channelKey l = k) ls of
        None \<Rightarrow> Missing
      | Some l \<Rightarrow> if ccl_amountCents l = JsInt 0 then CountedZero else CountedNonzero)"

subsection \<open>Validation\<close>

record validated_count =
  vcc_lines :: "count_line list"
  vcc_amountByChannel :: "(string \<times> js_number) list"
  vcc_cashCents :: js_number
  vcc_totalCents :: int

definition out_of_bounds :: "(int \<Rightarrow> bool) \<Rightarrow> js_number \<Rightarrow> bool" where
  "out_of_bounds low v \<longleftrightarrow> \<not> is_integer v \<or> low (cents_of v) \<or> CENTS_STORAGE_MAX < cents_of v"

definition add_denomination :: "int \<Rightarrow> denomination_line \<Rightarrow> int result" where
  "add_denomination t d =
     andThen (throw_if (out_of_bounds (\<lambda>n. n \<le> 0) (cdl_denominationCents d))
       (cash_violation ''CASH_DENOMINATION_INVALID''
         ''denomination must be a positive integer number of cents'')) (\<lambda>_.
     andThen (throw_if (out_of_bounds (\<lambda>n. n < 0) (cdl_quantity d))
       (cash_violation ''CASH_DENOMINATION_INVALID''
         ''denomination quantity must be a non-negative integer'')) (\<lambda>_.
     andThen (multiplyCents (cdl_denominationCents d) (cdl_quantity d) ''denominationCents'') (\<lambda>p.
       addCents (JsInt t) (JsInt p) ''denominationTotalCents'')))"

definition assertValidDenominations :: "denomination_line list \<Rightarrow> js_number \<Rightarrow> unit result" where
  "assertValidDenominations ds cashCents =
     andThen (loopR add_denomination 0 ds) (\<lambda>t.
       throw_if (JsInt t \<noteq> cashCents)
         (cash_violation ''CASH_DENOMINATION_SUM_MISMATCH''
           ''denominations must sum to the counted physical cash''))"

text \<open>
  The loop over the lines accumulates \<open>amountByChannel\<close> and \<open>normalized\<close>; the set
  \<open>seen\<close> holds the keys of the former.
\<close>

type_synonym count_state = "(string \<times> js_number) list \<times> count_line list"

definition count_one :: "string list \<Rightarrow> count_state \<Rightarrow> count_line \<Rightarrow> count_state result" where
  "count_one required s line =
     (let k = trim (ccl_channelKey line); v = ccl_amountCents line in
      andThen (throw_if (length k = 0 \<or> k \<notin> set required)
        (cash_violation ''CASH_COUNT_UNKNOWN_CHANNEL'' ''count line references an unknown channel'')) (\<lambda>_.
      andThen (throw_if (k \<in> fst ` set (fst s))
        (cash_violation ''CASH_COUNT_DUPLICATE_CHANNEL''
          ''count must reference each channel exactly once'')) (\<lambda>_.
      andThen (assertNonNegativeCents v (''lines.'' @ k)) (\<lambda>_.
      andThen (assertStorageRangeCents v (''lines.'' @ k)) (\<lambda>_.
        Inr (assoc_set (fst s) k v,
             snd s @ [\<lparr>ccl_channelKey = k, ccl_amountCents = v\<rparr>]))))))"

definition validateCashCount ::
  "(string \<Rightarrow> string) \<Rightarrow> count_line list \<Rightarrow> string list \<Rightarrow> denomination_line list option
     \<Rightarrow> validated_count result" where
  "validateCashCount collate ls required denominations =
     andThen (throw_if (length ls = 0)
       (cash_violation ''CASH_COUNT_EMPTY'' ''an empty count is not a zero count'')) (\<lambda>_.
     andThen (loopR (count_one required) ([], []) ls) (\<lambda>(amounts, normalized).
     andThen (throw_if (\<exists>k\<in>set required. k \<notin> fst ` set amounts)
       (cash_violation ''CASH_COUNT_MISSING_CHANNEL''
         ''count is missing a required channel (missing is not zero)'')) (\<lambda>_.
     let cashKey = cch_channelKey POOLED_CASH_CHANNEL;
         cashCents = or_default (assoc_get amounts cashKey) (JsInt 0)
     in
     andThen (case denominations of
         None \<Rightarrow> Inr ()
       | Some ds \<Rightarrow>
           if ds = [] then Inr ()
           else andThen (throw_if (assoc_get amounts cashKey = None)
               (cash_violation ''CASH_DENOMINATION_CASH_LINE_REQUIRED''
                 ''denominations require a counted cash line'')) (\<lambda>_.
             assertValidDenominations ds cashCents)) (\<lambda>_.
     let ordered = sort_key (\<lambda>l. channel_sort_key collate (ccl_channelKey l)) normalized in
     andThen (loopR (\<lambda>acc l. addCents (JsInt acc) (ccl_amountCents l) ''totalCents'') 0 ordered) (\<lambda>t.
       Inr \<lparr>vcc_lines = ordered, vcc_amountByChannel = amounts, vcc_cashCents = cashCents,
            vcc_totalCents = t\<rparr>)))))"

subsection \<open>Comparison\<close>

record cash_comparison =
  ccp_expectedCents :: js_number
  ccp_declaredCents :: js_number
  ccp_verifiedCents :: "js_number option"
  ccp_declarationDifferenceCents :: int
  ccp_verificationDifferenceCents :: "int option"
  ccp_verifiedVsExpectedDifferenceCents :: "int option"
  ccp_requiresDeclarationNotes :: bool
  ccp_requiresVerificationNotes :: bool
  ccp_hasDiscrepancy :: bool

definition compareCashCounts ::
  "js_number \<Rightarrow> js_number \<Rightarrow> js_number option \<Rightarrow> string option \<Rightarrow> string option
     \<Rightarrow> cash_comparison result" where
  "compareCashCounts expected declared verified declarationNotes verificationNotes =
     andThen (assertStorageRangeCents expected ''expectedCents'') (\<lambda>_.
     andThen (assertStorageRangeCents declared ''declaredCents'') (\<lambda>_.
     andThen (case verified of None \<Rightarrow> Inr ()
              | Some v \<Rightarrow> assertStorageRangeCents v ''verifiedCents'') (\<lambda>_.
     andThen (subtractCents declared expected ''declarationDifferenceCents'') (\<lambda>dd.
     andThen (throw_if (dd \<noteq> 0 \<and> \<not> isNonEmptyText declarationNotes)
       (cash_violation ''CASH_DISCREPANCY_NOTES_REQUIRED''
         ''a declared cash difference requires an explanation'')) (\<lambda>_.
     case verified of
       None \<Rightarrow>
         Inr \<lparr>ccp_expectedCents = expected, ccp_declaredCents = declared, ccp_verifiedCents = None,
              ccp_declarationDifferenceCents = dd, ccp_verificationDifferenceCents = None,
              ccp_verifiedVsExpectedDifferenceCents = None, ccp_requiresDeclarationNotes = (dd \<noteq> 0),
              ccp_requiresVerificationNotes = False, ccp_hasDiscrepancy = (dd \<noteq> 0)\<rparr>
     | Some v \<Rightarrow>
         andThen (subtractCents v declared ''verificationDifferenceCents'') (\<lambda>vd.
         andThen (subtractCents v expected ''verifiedVsExpectedDifferenceCents'') (\<lambda>ve.
         andThen (throw_if (vd \<noteq> 0 \<and> \<not> isNonEmptyText verificationNotes)
           (cash_violation ''CASH_DISCREPANCY_NOTES_REQUIRED''
             ''a verified cash difference requires an explanation'')) (\<lambda>_.
           Inr \<lparr>ccp_expectedCents = expected, ccp_declaredCents = declared,
                ccp_verifiedCents = Some v, ccp_declarationDifferenceCents = dd,
                ccp_verificationDifferenceCents = Some vd,
                ccp_verifiedVsExpectedDifferenceCents = Some ve,
                ccp_requiresDeclarationNotes = (dd \<noteq> 0), ccp_requiresVerificationNotes = (vd \<noteq> 0),
                ccp_hasDiscrepancy = (dd \<noteq> 0 \<or> vd \<noteq> 0)\<rparr>))))))))"

subsection \<open>The frozen expected snapshot and the lines against it\<close>

record expected_channel =
  ech_channelKey :: string
  ech_channelLabel :: string
  ech_method :: cash_method
  ech_expectedCents :: int

record expected_snapshot =
  exs_cashExpectedCents :: int
  exs_frozenAt :: timestamp
  exs_channels :: "expected_channel list"

definition expected_of_group :: "int \<Rightarrow> channel_total \<Rightarrow> expected_channel result" where
  "expected_of_group opening g =
     mapR (\<lambda>e. \<lparr>ech_channelKey = cct_channelKey g, ech_channelLabel = cct_channelLabel g,
                ech_method = cct_method g, ech_expectedCents = e\<rparr>)
       (if cct_method g = Cash
        then addCents (JsInt opening) (JsInt (cct_totalCents g)) ''expectedCashCents''
        else Inr (cct_totalCents g))"

definition buildExpectedSnapshot ::
  "(string \<Rightarrow> string) \<Rightarrow> int \<Rightarrow> cash_movement list \<Rightarrow> timestamp \<Rightarrow> expected_snapshot result" where
  "buildExpectedSnapshot collate opening ms frozenAt =
     andThen (groupMovementsByChannel collate ms) (\<lambda>grouped.
     andThen (mapM_list (expected_of_group opening) grouped) (\<lambda>cs.
     let channels =
           (if \<exists>c\<in>set cs. ech_channelKey c = ''CASH'' then cs
            else \<lparr>ech_channelKey = cch_channelKey POOLED_CASH_CHANNEL,
                  ech_channelLabel = cch_channelLabel POOLED_CASH_CHANNEL, ech_method = Cash,
                  ech_expectedCents = opening\<rparr> # cs)
     in Inr \<lparr>exs_cashExpectedCents =
               (case find (\<lambda>c. ech_method c = Cash) channels of
                  Some c \<Rightarrow> ech_expectedCents c | None \<Rightarrow> opening),
             exs_frozenAt = frozenAt, exs_channels = channels\<rparr>))"

text \<open>\<open>decodeCountLines\<close> of what was persisted gives the lines back; \<open>cashCents\<close> reads one.\<close>

definition cash_line_cents :: "count_line list \<Rightarrow> js_number" where
  "cash_line_cents ls =
     (case find (\<lambda>l. ccl_channelKey l = ''CASH'') ls of
        Some l \<Rightarrow> ccl_amountCents l | None \<Rightarrow> JsInt 0)"

definition explain_channel ::
  "count_line list \<Rightarrow> count_line list \<Rightarrow> string option \<Rightarrow> string option \<Rightarrow> unit \<Rightarrow> expected_channel
     \<Rightarrow> unit result" where
  "explain_channel declaredLines verifiedLines declarationNotes verificationNotes _ c =
     (case (find (\<lambda>l. ccl_channelKey l = ech_channelKey c) declaredLines,
            find (\<lambda>l. ccl_channelKey l = ech_channelKey c) verifiedLines) of
        (Some d, Some v) \<Rightarrow>
          mapR (\<lambda>_. ()) (compareCashCounts (JsInt (ech_expectedCents c)) (ccl_amountCents d)
            (Some (ccl_amountCents v)) declarationNotes verificationNotes)
      | _ \<Rightarrow> Inl (cash_violation ''CASH_COUNT_MISSING_CHANNEL''
             ''A count must include every frozen channel''))"

definition assertChannelExplanations ::
  "expected_snapshot \<Rightarrow> count_line list \<Rightarrow> count_line list \<Rightarrow> string option \<Rightarrow> string option
     \<Rightarrow> unit result" where
  "assertChannelExplanations expected declaredLines verifiedLines declarationNotes verificationNotes =
     loopR (explain_channel declaredLines verifiedLines declarationNotes verificationNotes) ()
       (exs_channels expected)"

subsection \<open>What a validated count is\<close>

definition normalized :: "count_line \<Rightarrow> count_line" where
  "normalized l = \<lparr>ccl_channelKey = trim (ccl_channelKey l), ccl_amountCents = ccl_amountCents l\<rparr>"

definition line_amount :: "count_line \<Rightarrow> int" where
  "line_amount l = cents_of (ccl_amountCents l)"

definition amount_ok :: "count_line \<Rightarrow> bool" where
  "amount_ok l \<longleftrightarrow> ccl_amountCents l = JsInt (line_amount l) \<and> 0 \<le> line_amount l \<and>
     in_storage (line_amount l)"

definition counted :: "string list \<Rightarrow> count_line list \<Rightarrow> count_state \<Rightarrow> bool" where
  "counted required ls s \<longleftrightarrow>
     snd s = map normalized ls \<and>
     fst s = map (\<lambda>l. (ccl_channelKey l, ccl_amountCents l)) (snd s) \<and>
     distinct (map ccl_channelKey (snd s)) \<and> ccl_channelKey ` set (snd s) \<subseteq> set required \<and>
     (\<forall>l\<in>set (snd s). amount_ok l)"

lemma assoc_set_new: "k \<notin> fst ` set m \<Longrightarrow> assoc_set m k v = m @ [(k, v)]"
  by (induction m) auto

lemma count_one_counted:
  assumes "counted required pre s" and "count_one required s l = Inr t"
  shows "counted required (pre @ [l]) t"
proof -
  let ?n = "normalized l"
  from assms(2) have n: "ccl_channelKey ?n \<in> set required" "ccl_channelKey ?n \<notin> fst ` set (fst s)"
    "amount_ok ?n" and t: "t = (assoc_set (fst s) (ccl_channelKey ?n) (ccl_amountCents ?n), snd s @ [?n])"
    by (auto simp: count_one_def Let_def result_simps cash_simps normalized_def amount_ok_def
        line_amount_def)
  have c: "snd s = map normalized pre" "fst s = map (\<lambda>l. (ccl_channelKey l, ccl_amountCents l)) (snd s)"
    "distinct (map ccl_channelKey (snd s))" "ccl_channelKey ` set (snd s) \<subseteq> set required"
    "\<forall>l\<in>set (snd s). amount_ok l"
    using assms(1) unfolding counted_def by blast+
  have "fst ` set (fst s) = ccl_channelKey ` set (snd s)" unfolding c(2) by force
  with n(2) have new: "ccl_channelKey ?n \<notin> ccl_channelKey ` set (snd s)" by simp
  show ?thesis
    unfolding counted_def t assoc_set_new [OF n(2)] fst_conv snd_conv
  proof (intro conjI)
    show "snd s @ [?n] = map normalized (pre @ [l])" by (simp add: c(1))
    show "fst s @ [(ccl_channelKey ?n, ccl_amountCents ?n)] =
        map (\<lambda>l. (ccl_channelKey l, ccl_amountCents l)) (snd s @ [?n])"
      using c(2) by simp
  qed (use c(3-5) n(1,3) new in auto)
qed

lemma count_loop_counted:
  assumes "loopR (count_one required) ([], []) ls = Inr s"
  shows "counted required ls s"
  using assms
proof (rule loopR_rule)
  show "counted required [] ([], [])" by (simp add: counted_def)
qed (rule count_one_counted)

lemma assoc_get_map:
  "assoc_get (map (\<lambda>l. (key l, v l)) ls) k = map_option v (find (\<lambda>l. key l = k) ls)"
  by (induction ls) auto

lemma find_map_key:
  assumes "distinct (map key xs)" and "mset xs = mset ys"
  shows "find (\<lambda>x. key x = k) xs = find (\<lambda>x. key x = k) ys"
proof -
  have d: "distinct (map key ys)" using assms by (metis mset_eq_imp_distinct_iff mset_map)
  have set: "set xs = set ys" using assms(2) by (rule mset_eq_setD)
  show ?thesis
  proof (cases "find (\<lambda>x. key x = k) xs")
    case None
    with set have "find (\<lambda>x. key x = k) ys = None" by (simp add: list_simps)
    with None show ?thesis by simp
  next
    case (Some x)
    from find_SomeD [OF this] have x: "x \<in> set xs" "key x = k" by simp_all
    then obtain y where y: "find (\<lambda>x. key x = k) ys = Some y"
      using set by (cases "find (\<lambda>x. key x = k) ys") (auto simp: list_simps)
    from find_SomeD [OF y] have "y \<in> set xs" "key y = k" using set by simp_all
    with x assms(1) have "x = y" by (auto simp: distinct_map dest: inj_onD)
    with Some y show ?thesis by simp
  qed
qed

lemma add_denomination_ok:
  "add_denomination s d = Inr t \<Longrightarrow>
     t = s + cents_of (cdl_denominationCents d) * cents_of (cdl_quantity d) \<and>
     (in_storage s \<longrightarrow> in_storage t)"
  by (auto simp: add_denomination_def result_simps cash_simps)

lemma validateCashCount_spec:
  assumes "validateCashCount collate ls required ds = Inr v"
  shows "mset (vcc_lines v) = mset (map normalized ls)"
    and "sorted (map (\<lambda>l. channel_sort_key collate (ccl_channelKey l)) (vcc_lines v))"
    and "distinct (map ccl_channelKey (vcc_lines v))"
    and "ccl_channelKey ` set (vcc_lines v) = set required"
    and "\<forall>l\<in>set (vcc_lines v). amount_ok l"
    and "vcc_totalCents v = (\<Sum>l\<leftarrow>vcc_lines v. line_amount l)"
    and "vcc_cashCents v = cash_line_cents (vcc_lines v)"
    and "assoc_get (vcc_amountByChannel v) k =
      map_option ccl_amountCents (find (\<lambda>l. ccl_channelKey l = k) (vcc_lines v))"
    and "\<lbrakk>ds = Some dl; dl \<noteq> []\<rbrakk> \<Longrightarrow> vcc_cashCents v =
      JsInt (\<Sum>d\<leftarrow>dl. cents_of (cdl_denominationCents d) * cents_of (cdl_quantity d))"
proof -
  obtain am nm where loop: "loopR (count_one required) ([], []) ls = Inr (am, nm)"
    and cover: "\<forall>k\<in>set required. k \<in> fst ` set am"
    and dens: "(case ds of None \<Rightarrow> Inr () | Some dl \<Rightarrow> if dl = [] then Inr ()
        else andThen (throw_if (assoc_get am ''CASH'' = None)
               (cash_violation ''CASH_DENOMINATION_CASH_LINE_REQUIRED''
                 ''denominations require a counted cash line'')) (\<lambda>_.
             assertValidDenominations dl (or_default (assoc_get am ''CASH'') (JsInt 0)))) = Inr ()"
    and tot: "loopR (\<lambda>acc l. addCents (JsInt acc) (ccl_amountCents l) ''totalCents'') 0 (vcc_lines v) =
        Inr (vcc_totalCents v)"
    and v: "vcc_lines v = sort_key (\<lambda>l. channel_sort_key collate (ccl_channelKey l)) nm"
      "vcc_amountByChannel v = am" "vcc_cashCents v = or_default (assoc_get am ''CASH'') (JsInt 0)"
    using assms
    by (auto simp: validateCashCount_def Let_def result_simps POOLED_CASH_CHANNEL_def)
  note c = count_loop_counted [OF loop]
  have nm: "nm = map normalized ls" and am: "am = map (\<lambda>l. (ccl_channelKey l, ccl_amountCents l)) nm"
    and d: "distinct (map ccl_channelKey nm)" and sub: "ccl_channelKey ` set nm \<subseteq> set required"
    and ok: "\<forall>l\<in>set nm. amount_ok l"
    using c unfolding counted_def fst_conv snd_conv by blast+
  have perm: "mset (vcc_lines v) = mset nm" by (simp add: v)
  show "mset (vcc_lines v) = mset (map normalized ls)" using perm nm by simp
  show "sorted (map (\<lambda>l. channel_sort_key collate (ccl_channelKey l)) (vcc_lines v))" by (simp add: v)
  show dl: "distinct (map ccl_channelKey (vcc_lines v))"
    using d perm by (metis mset_eq_imp_distinct_iff mset_map)
  show "ccl_channelKey ` set (vcc_lines v) = set required"
    using sub cover by (force simp: v am)
  show "\<forall>l\<in>set (vcc_lines v). amount_ok l" using ok by (simp add: v)
  have "vcc_totalCents v = 0 + (\<Sum>l\<leftarrow>vcc_lines v. line_amount l) \<and>
      sums_within 0 (map line_amount (vcc_lines v))"
    using tot by (rule addCents_loop) (auto simp: cash_simps in_storage_bounds line_amount_def)
  then show "vcc_totalCents v = (\<Sum>l\<leftarrow>vcc_lines v. line_amount l)" by simp
  show get: "assoc_get (vcc_amountByChannel v) k =
      map_option ccl_amountCents (find (\<lambda>l. ccl_channelKey l = k) (vcc_lines v))" for k
    by (simp add: v(2) am assoc_get_map find_map_key [OF dl perm])
  show "vcc_cashCents v = cash_line_cents (vcc_lines v)"
    using get [of "''CASH''"] by (auto simp: v(2,3) cash_line_cents_def split: option.splits)
  show "\<lbrakk>ds = Some dl; dl \<noteq> []\<rbrakk> \<Longrightarrow> vcc_cashCents v =
      JsInt (\<Sum>d\<leftarrow>dl. cents_of (cdl_denominationCents d) * cents_of (cdl_quantity d))"
  proof -
    assume "ds = Some dl" "dl \<noteq> []"
    with dens obtain t where t: "loopR add_denomination 0 dl = Inr t" "JsInt t = vcc_cashCents v"
      by (auto simp: assertValidDenominations_def result_simps v(3))
    have "t = 0 + (\<Sum>d\<leftarrow>dl. cents_of (cdl_denominationCents d) * cents_of (cdl_quantity d)) \<and>
      sums_within 0 (map (\<lambda>d. cents_of (cdl_denominationCents d) * cents_of (cdl_quantity d)) dl)"
      using t(1) by (rule addCents_loop) (auto simp: in_storage_bounds dest: add_denomination_ok)
    with t(2) show ?thesis by simp
  qed
qed

end
