(* ===== verification/CashSession.thy ===== *)
theory CashSession
  imports CashMoney Lifecycle
begin

section \<open>Cash register: sessions\<close>

text \<open>
  \<open>src/src/cash-register/domain/cash-session.policy.ts\<close>: the transitions of a
  session, the fences on writing to it, and the projection a viewer gets.  Instants
  read from the database are timestamps; an ISO string is represented by its
  instant.
\<close>

datatype cash_session_status = SessionOpen | SessionCounting | SessionSubmitted | SessionClosed

fun status_name :: "cash_session_status \<Rightarrow> string" where
  "status_name SessionOpen = ''OPEN''"
| "status_name SessionCounting = ''COUNTING''"
| "status_name SessionSubmitted = ''SUBMITTED''"
| "status_name SessionClosed = ''CLOSED''"

fun status_index :: "cash_session_status \<Rightarrow> nat" where
  "status_index SessionOpen = 0"
| "status_index SessionCounting = 1"
| "status_index SessionSubmitted = 2"
| "status_index SessionClosed = 3"

text \<open>The statuses in the order of the lifecycle.\<close>

instantiation cash_session_status :: linorder
begin

definition less_eq_cash_session_status :: "cash_session_status \<Rightarrow> cash_session_status \<Rightarrow> bool" where
  "less_eq_cash_session_status a b \<longleftrightarrow> status_index a \<le> status_index b"

definition less_cash_session_status :: "cash_session_status \<Rightarrow> cash_session_status \<Rightarrow> bool" where
  "less_cash_session_status a b \<longleftrightarrow> status_index a < status_index b"

instance
proof
  fix a b :: cash_session_status
  assume "a \<le> b" and "b \<le> a"
  then show "a = b" by (cases a; cases b) (simp_all add: less_eq_cash_session_status_def)
qed (auto simp: less_eq_cash_session_status_def less_cash_session_status_def)

end

record cash_session =
  csn_id :: ident
  csn_tenantId :: ident
  csn_registerId :: ident
  csn_cashierUserId :: ident
  csn_status :: cash_session_status
  csn_openingCents :: int
  csn_frozenAt :: "timestamp option"
  csn_drawerReleasedAt :: "timestamp option"

fun CASH_STATUS_TRANSITIONS :: "cash_session_status \<Rightarrow> cash_session_status list" where
  "CASH_STATUS_TRANSITIONS SessionOpen = [SessionCounting]"
| "CASH_STATUS_TRANSITIONS SessionCounting = [SessionSubmitted]"
| "CASH_STATUS_TRANSITIONS SessionSubmitted = [SessionClosed]"
| "CASH_STATUS_TRANSITIONS SessionClosed = []"

definition canTransitionStatus :: "cash_session_status \<Rightarrow> cash_session_status \<Rightarrow> bool" where
  "canTransitionStatus from_status to_status \<longleftrightarrow> to_status \<in> set (CASH_STATUS_TRANSITIONS from_status)"

definition assertValidStatusTransition ::
  "cash_session_status \<Rightarrow> cash_session_status \<Rightarrow> unit result" where
  "assertValidStatusTransition from_status to_status =
     throw_if (\<not> canTransitionStatus from_status to_status)
       (cash_violation ''CASH_INVALID_STATUS_TRANSITION''
         (''Invalid cash session transition '' @ status_name from_status @ '' -> '' @
          status_name to_status))"

definition isFrozen :: "cash_session \<Rightarrow> bool" where
  "isFrozen s \<longleftrightarrow> csn_status s \<noteq> SessionOpen \<or> csn_frozenAt s \<noteq> None"

definition assertOperationalWriteAllowed :: "cash_session \<Rightarrow> unit result" where
  "assertOperationalWriteAllowed s =
     throw_if (isFrozen s)
       (cash_violation ''CASH_SESSION_NOT_WRITABLE''
         ''Cash session no longer accepts operational movements'')"

definition assertCanFreezeSession :: "cash_session \<Rightarrow> unit result" where
  "assertCanFreezeSession s =
     throw_if (csn_status s \<noteq> SessionOpen \<or> csn_frozenAt s \<noteq> None)
       (cash_violation ''CASH_SESSION_NOT_WRITABLE''
         ''Cash session can only be frozen once from OPEN'')"

definition assertIndependentVerifier :: "ident \<Rightarrow> ident \<Rightarrow> unit result" where
  "assertIndependentVerifier cashier verifier =
     throw_if (cashier = verifier)
       (cash_violation ''CASH_SELF_VERIFICATION_FORBIDDEN''
         ''A cashier cannot verify their own declaration'')"

definition assertIndependentCloser :: "ident \<Rightarrow> ident \<Rightarrow> unit result" where
  "assertIndependentCloser cashier closer =
     throw_if (cashier = closer)
       (cash_violation ''CASH_SELF_CLOSING_FORBIDDEN''
         ''A cashier cannot close their own session'')"

definition assertSessionTenant :: "cash_session \<Rightarrow> ident \<Rightarrow> unit result" where
  "assertSessionTenant s tenantId =
     throw_if (csn_tenantId s \<noteq> tenantId)
       (cash_violation ''CASH_TENANT_MISMATCH''
         ''Cash session does not belong to the active tenant'')"

definition isFirstDeclarationRevision :: "int \<Rightarrow> bool" where
  "isFirstDeclarationRevision revision \<longleftrightarrow> revision = 1"

subsection \<open>The projection\<close>

record projection_input =
  cpi_session :: cash_session
  cpi_viewerUserId :: ident
  cpi_expectedCashCents :: js_number
  cpi_declaredCents :: "js_number option"
  cpi_hasAuditVisibility :: bool
  cpi_declarationSubmitted :: bool

text \<open>An optional field that is absent is \<open>None\<close>.\<close>

record projection_view =
  cpv_id :: ident
  cpv_tenantId :: ident
  cpv_registerId :: ident
  cpv_status :: cash_session_status
  cpv_cashierUserId :: ident
  cpv_openingCents :: int
  cpv_frozenAt :: "timestamp option"
  cpv_drawerReleasedAt :: "timestamp option"
  cpv_blind :: bool
  cpv_expectedCashCents :: "js_number option"
  cpv_differenceCents :: "int option"

definition base_view :: "cash_session \<Rightarrow> bool \<Rightarrow> projection_view" where
  "base_view s blind =
     \<lparr>cpv_id = csn_id s, cpv_tenantId = csn_tenantId s, cpv_registerId = csn_registerId s,
      cpv_status = csn_status s, cpv_cashierUserId = csn_cashierUserId s,
      cpv_openingCents = csn_openingCents s, cpv_frozenAt = csn_frozenAt s,
      cpv_drawerReleasedAt = csn_drawerReleasedAt s, cpv_blind = blind,
      cpv_expectedCashCents = None, cpv_differenceCents = None\<rparr>"

definition projectCashSession :: "projection_input \<Rightarrow> projection_view result" where
  "projectCashSession input =
     andThen (assertNonEmptyText (Some (cpi_viewerUserId input)) ''viewerUserId'') (\<lambda>_.
     andThen (assertStorageRangeCents (cpi_expectedCashCents input) ''expectedCashCents'') (\<lambda>_.
     andThen (case cpi_declaredCents input of None \<Rightarrow> Inr ()
              | Some d \<Rightarrow> assertStorageRangeCents d ''declaredCents'') (\<lambda>_.
     let s = cpi_session input;
         isDeclarant = (cpi_viewerUserId input = csn_cashierUserId s);
         blind = (isDeclarant \<and> \<not> cpi_declarationSubmitted input);
         canSeeExpected = (\<not> blind \<and> (isDeclarant \<or> cpi_hasAuditVisibility input));
         base = base_view s blind
     in
     if \<not> canSeeExpected then Inr base
     else
       andThen (case cpi_declaredCents input of
           None \<Rightarrow> Inr None
         | Some d \<Rightarrow> mapR Some (subtractCents d (cpi_expectedCashCents input) ''differenceCents''))
         (\<lambda>difference.
           Inr (base\<lparr>cpv_expectedCashCents := Some (cpi_expectedCashCents input),
                     cpv_differenceCents := difference\<rparr>)))))"

lemma freeze_ok [cash_simps]:
  "assertCanFreezeSession s = Inr u \<longleftrightarrow> csn_status s = SessionOpen \<and> csn_frozenAt s = None"
  by (auto simp: assertCanFreezeSession_def result_simps)

lemma write_allowed_ok [cash_simps]:
  "assertOperationalWriteAllowed s = Inr u \<longleftrightarrow> csn_status s = SessionOpen \<and> csn_frozenAt s = None"
  by (auto simp: assertOperationalWriteAllowed_def isFrozen_def result_simps)

lemma independent_ok [cash_simps]:
  "assertIndependentVerifier c v = Inr u \<longleftrightarrow> c \<noteq> v"
  "assertIndependentCloser c v = Inr u \<longleftrightarrow> c \<noteq> v"
  by (auto simp: assertIndependentVerifier_def assertIndependentCloser_def result_simps)

text \<open>Every allowed transition moves one status forward.\<close>

lemma transition_forward: "canTransitionStatus a b \<Longrightarrow> status_index b = Suc (status_index a)"
  by (cases a) (auto simp: canTransitionStatus_def)

text \<open>Who is not shown the expected amount: the declarant before submission, and others without audit.\<close>

definition hidden_from :: "projection_input \<Rightarrow> bool" where
  "hidden_from input \<longleftrightarrow>
     (if cpi_viewerUserId input = csn_cashierUserId (cpi_session input)
      then \<not> cpi_declarationSubmitted input else \<not> cpi_hasAuditVisibility input)"

lemma hidden_projection:
  "projectCashSession input = Inr v \<Longrightarrow> hidden_from input \<Longrightarrow>
     v = base_view (cpi_session input)
       (cpi_viewerUserId input = csn_cashierUserId (cpi_session input))"
  by (auto simp: projectCashSession_def hidden_from_def Let_def result_simps split: if_split_asm)

lemma shown_projection:
  "projectCashSession input = Inr v \<Longrightarrow> \<not> hidden_from input \<Longrightarrow>
     cpv_expectedCashCents v = Some (cpi_expectedCashCents input) \<and>
     cpv_differenceCents v =
       map_option (\<lambda>d. cents_of d - cents_of (cpi_expectedCashCents input)) (cpi_declaredCents input)"
  by (auto simp: projectCashSession_def hidden_from_def Let_def result_simps cash_simps
      split: if_split_asm option.splits)

end
