(* ===== verification/CashCustody.thy ===== *)
theory CashCustody
  imports CashSession CashChannel
begin

section \<open>Cash register: custody and the closing snapshot\<close>

text \<open>
  \<open>src/src/cash-register/domain/cash-handover.policy.ts\<close> and \<open>cash-snapshot.ts\<close>:
  the allocation of the declared cash to handovers, the receipt of a handover, the
  opening fund it may give, the release of the drawer, and the snapshot of a closed
  session.  Freezing and cloning a snapshot do not change what it says; records are
  values here, so they are the identity.
\<close>

datatype handover_kind = Withdrawal | Float

record handover_allocation =
  hal_handoverId :: ident
  hal_allocatedCents :: js_number

definition allocate_one ::
  "ident list \<times> int \<Rightarrow> handover_allocation \<Rightarrow> (ident list \<times> int) result" where
  "allocate_one s a =
     andThen (assertNonEmptyText (Some (hal_handoverId a)) ''handoverId'') (\<lambda>_.
     andThen (throw_if (hal_handoverId a \<in> set (fst s))
       (cash_violation ''CASH_HANDOVER_DUPLICATE_ALLOCATION''
         ''declared cash can only be allocated once per handover'')) (\<lambda>_.
     andThen (assertNonNegativeCents (hal_allocatedCents a) ''allocatedCents'') (\<lambda>_.
     andThen (assertStorageRangeCents (hal_allocatedCents a) ''allocatedCents'') (\<lambda>_.
     andThen (addCents (JsInt (snd s)) (hal_allocatedCents a) ''allocatedCents'') (\<lambda>allocated.
       Inr (fst s @ [hal_handoverId a], allocated))))))"

definition assertCashFullyAllocated :: "js_number \<Rightarrow> handover_allocation list \<Rightarrow> unit result" where
  "assertCashFullyAllocated declared allocations =
     andThen (assertNonNegativeCents declared ''declaredCents'') (\<lambda>_.
     andThen (assertStorageRangeCents declared ''declaredCents'') (\<lambda>_.
     andThen (loopR allocate_one ([], 0) allocations) (\<lambda>s.
       throw_if (snd s \<noteq> cents_of declared)
         (cash_violation ''CASH_HANDOVER_ALLOCATION_MISMATCH''
           ''all declared cash must be allocated before the drawer is released''))))"

record handover =
  hnd_id :: ident
  hnd_sessionId :: ident
  hnd_kind :: handover_kind
  hnd_declaredCents :: js_number
  hnd_receivedCents :: "js_number option"
  hnd_senderUserId :: ident
  hnd_receiverUserId :: "ident option"
  hnd_receiptActorUserId :: "ident option"
  hnd_declaredAt :: js_date
  hnd_receivedAt :: "js_date option"

definition blank_or_missing :: "ident option \<Rightarrow> bool" where
  "blank_or_missing v \<longleftrightarrow> (case v of None \<Rightarrow> True | Some s \<Rightarrow> length (trim s) = 0)"

definition assertHandoverReceipt :: "handover \<Rightarrow> unit result" where
  "assertHandoverReceipt h =
     andThen (assertNonNegativeCents (hnd_declaredCents h) ''declaredCents'') (\<lambda>_.
     andThen (assertStorageRangeCents (hnd_declaredCents h) ''declaredCents'') (\<lambda>_.
     andThen (assertNonEmptyText (Some (hnd_senderUserId h)) ''senderUserId'') (\<lambda>_.
     andThen (assertValidDate (hnd_declaredAt h) ''declaredAt'') (\<lambda>_.
     case (hnd_receivedCents h, hnd_receivedAt h) of
       (Some received, Some receivedAt) \<Rightarrow>
         andThen (assertNonNegativeCents received ''receivedCents'') (\<lambda>_.
         andThen (assertStorageRangeCents received ''receivedCents'') (\<lambda>_.
         andThen (assertValidDate receivedAt ''receivedAt'') (\<lambda>_.
         andThen (throw_if (blank_or_missing (hnd_receiverUserId h))
           (cash_violation ''CASH_HANDOVER_RECEIVER_REQUIRED''
             ''a receipt requires a designated receiver'')) (\<lambda>_.
         andThen (throw_if (blank_or_missing (hnd_receiptActorUserId h))
           (cash_violation ''CASH_HANDOVER_RECEIPT_ACTOR_REQUIRED''
             ''a receipt requires the authenticated receiving actor'')) (\<lambda>_.
         andThen (throw_if (hnd_receiptActorUserId h \<noteq> hnd_receiverUserId h)
           (cash_violation ''CASH_HANDOVER_RECEIPT_ACTOR_MISMATCH''
             ''the authenticated receipt actor must be the designated receiver'')) (\<lambda>_.
         andThen (throw_if (hnd_kind h = Withdrawal \<and>
             hnd_receiverUserId h = Some (hnd_senderUserId h))
           (cash_violation ''CASH_HANDOVER_SELF_WITHDRAWAL''
             ''a withdrawal cannot be received by its own sender'')) (\<lambda>_.
         throw_if (date_time receivedAt < date_time (hnd_declaredAt h))
           (cash_violation ''CASH_HANDOVER_RECEIPT_BEFORE_DECLARATION''
             ''handover receipt cannot predate its declaration''))))))))
     | _ \<Rightarrow> Inl (cash_violation ''CASH_HANDOVER_NOT_RECEIVED''
            ''handover funds are not reusable until the receiver confirms receipt'')))))"

definition resolveOpeningFundCents :: "handover \<Rightarrow> js_number result" where
  "resolveOpeningFundCents h =
     andThen (throw_if (hnd_kind h \<noteq> Float)
       (cash_violation ''CASH_HANDOVER_NOT_FLOAT''
         ''only a retained FLOAT handover can fund the next session'')) (\<lambda>_.
     andThen (assertHandoverReceipt h) (\<lambda>_.
     case hnd_receivedCents h of
       None \<Rightarrow> Inl (cash_violation ''CASH_HANDOVER_NOT_RECEIVED''
         ''handover funds are not reusable until the receiver confirms receipt'')
     | Some received \<Rightarrow> Inr received))"

definition assertDrawerReleaseAllowed ::
  "cash_session \<Rightarrow> js_number option \<Rightarrow> handover_allocation list \<Rightarrow> unit result" where
  "assertDrawerReleaseAllowed s declaredCount allocations =
     (let blocked = cash_violation ''CASH_DRAWER_RELEASE_BLOCKED''
            ''drawer release requires a frozen session with a cash declaration''
      in case declaredCount of
           None \<Rightarrow> Inl blocked
         | Some declared \<Rightarrow>
             andThen (throw_if (\<not> isFrozen s) blocked) (\<lambda>_.
               assertCashFullyAllocated declared allocations))"

subsection \<open>The closing snapshot\<close>

record snapshot_channel =
  snc_channelKey :: string
  snc_channelLabel :: string
  snc_method :: cash_method
  snc_expectedCents :: js_number
  snc_declaredCents :: js_number
  snc_verifiedCents :: "js_number option"
  snc_differenceCents :: js_number

record snapshot_handover =
  snh_handoverId :: ident
  snh_kind :: handover_kind
  snh_declaredCents :: js_number
  snh_receivedCents :: "js_number option"
  snh_senderUserId :: ident
  snh_receiverUserId :: "ident option"
  snh_receiptActorUserId :: "ident option"
  snh_declaredAt :: timestamp
  snh_receivedAt :: "timestamp option"

record closing_snapshot =
  cls_sessionId :: ident
  cls_tenantId :: ident
  cls_registerId :: ident
  cls_folio :: string
  cls_cashierUserId :: ident
  cls_openingCents :: int
  cls_expectedCents :: js_number
  cls_declaredCents :: js_number
  cls_verifiedCents :: "js_number option"
  cls_verifierUserId :: "ident option"
  cls_channels :: "snapshot_channel list"
  cls_handovers :: "snapshot_handover list"
  cls_countedAt :: timestamp
  cls_verifiedAt :: "timestamp option"
  cls_closedAt :: timestamp
  cls_closedByUserId :: ident

record closing_input =
  cli_session :: cash_session
  cli_folio :: string
  cli_expectedCents :: js_number
  cli_declaredCents :: js_number
  cli_verifiedCents :: "js_number option"
  cli_verifierUserId :: "ident option"
  cli_channels :: "snapshot_channel list"
  cli_handovers :: "handover list"
  cli_countedAt :: js_date
  cli_verifiedAt :: "js_date option"
  cli_closedAt :: js_date
  cli_closedByUserId :: ident

definition assertOptionalCents :: "js_number option \<Rightarrow> string \<Rightarrow> unit result" where
  "assertOptionalCents v field =
     (case v of None \<Rightarrow> Inr () | Some v' \<Rightarrow> assertStorageRangeCents v' field)"

definition copyChannelLine :: "snapshot_channel \<Rightarrow> snapshot_channel result" where
  "copyChannelLine l =
     andThen (assertStorageRangeCents (snc_expectedCents l) ''channel.expectedCents'') (\<lambda>_.
     andThen (assertStorageRangeCents (snc_declaredCents l) ''channel.declaredCents'') (\<lambda>_.
     andThen (assertOptionalCents (snc_verifiedCents l) ''channel.verifiedCents'') (\<lambda>_.
     andThen (assertStorageRangeCents (snc_differenceCents l) ''channel.differenceCents'') (\<lambda>_.
       Inr l))))"

definition toSnapshotHandover :: "handover \<Rightarrow> snapshot_handover result" where
  "toSnapshotHandover h =
     andThen (assertNonEmptyText (Some (hnd_id h)) ''handoverId'') (\<lambda>_.
     andThen (assertNonEmptyText (Some (hnd_senderUserId h)) ''handover.senderUserId'') (\<lambda>_.
     andThen (assertStorageRangeCents (hnd_declaredCents h) ''handover.declaredCents'') (\<lambda>_.
     andThen (assertOptionalCents (hnd_receivedCents h) ''handover.receivedCents'') (\<lambda>_.
     andThen (assertValidDate (hnd_declaredAt h) ''handover.declaredAt'') (\<lambda>_.
     andThen (assertOptionalValidDate (hnd_receivedAt h) ''handover.receivedAt'') (\<lambda>_.
       Inr \<lparr>snh_handoverId = hnd_id h, snh_kind = hnd_kind h,
            snh_declaredCents = hnd_declaredCents h, snh_receivedCents = hnd_receivedCents h,
            snh_senderUserId = hnd_senderUserId h, snh_receiverUserId = hnd_receiverUserId h,
            snh_receiptActorUserId = hnd_receiptActorUserId h,
            snh_declaredAt = date_time (hnd_declaredAt h),
            snh_receivedAt = map_option date_time (hnd_receivedAt h)\<rparr>))))))"

definition createCashClosingSnapshot :: "closing_input \<Rightarrow> closing_snapshot result" where
  "createCashClosingSnapshot input =
     andThen (throw_if (csn_status (cli_session input) \<noteq> SessionClosed)
       (cash_violation ''CASH_SNAPSHOT_SESSION_NOT_CLOSED''
         ''a closing snapshot requires a CLOSED session'')) (\<lambda>_.
     andThen (throw_if (\<not> isNonEmptyText (Some (cli_folio input)))
       (cash_violation ''CASH_FOLIO_REQUIRED'' ''a closing snapshot requires a folio'')) (\<lambda>_.
     andThen (assertNonEmptyText (Some (cli_closedByUserId input)) ''closedByUserId'') (\<lambda>_.
     andThen (case cli_verifierUserId input of
         None \<Rightarrow> Inr ()
       | Some v \<Rightarrow> mapR (\<lambda>_. ()) (assertNonEmptyText (Some v) ''verifierUserId'')) (\<lambda>_.
     andThen (throw_if (cli_verifiedCents input \<noteq> None \<and> cli_verifierUserId input = None)
       (cash_violation ''CASH_IDENTITY_REQUIRED''
         ''a verified snapshot requires the verifier identity'')) (\<lambda>_.
     andThen (assertStorageRangeCents (cli_expectedCents input) ''expectedCents'') (\<lambda>_.
     andThen (assertStorageRangeCents (cli_declaredCents input) ''declaredCents'') (\<lambda>_.
     andThen (assertOptionalCents (cli_verifiedCents input) ''verifiedCents'') (\<lambda>_.
     andThen (assertValidDate (cli_countedAt input) ''countedAt'') (\<lambda>_.
     andThen (assertOptionalValidDate (cli_verifiedAt input) ''verifiedAt'') (\<lambda>_.
     andThen (assertValidDate (cli_closedAt input) ''closedAt'') (\<lambda>_.
     andThen (mapM_list copyChannelLine (cli_channels input)) (\<lambda>channels.
     andThen (mapM_list toSnapshotHandover (cli_handovers input)) (\<lambda>handovers.
       let s = cli_session input in
       Inr \<lparr>cls_sessionId = csn_id s, cls_tenantId = csn_tenantId s,
            cls_registerId = csn_registerId s, cls_folio = trim (cli_folio input),
            cls_cashierUserId = csn_cashierUserId s, cls_openingCents = csn_openingCents s,
            cls_expectedCents = cli_expectedCents input, cls_declaredCents = cli_declaredCents input,
            cls_verifiedCents = cli_verifiedCents input,
            cls_verifierUserId = cli_verifierUserId input, cls_channels = channels,
            cls_handovers = handovers, cls_countedAt = date_time (cli_countedAt input),
            cls_verifiedAt = map_option date_time (cli_verifiedAt input),
            cls_closedAt = date_time (cli_closedAt input),
            cls_closedByUserId = cli_closedByUserId input\<rparr>)))))))))))))"

subsection \<open>What custody guarantees\<close>

definition allocation_amount :: "handover_allocation \<Rightarrow> int" where
  "allocation_amount a = cents_of (hal_allocatedCents a)"

lemma allocate_one_ok:
  "allocate_one s a = Inr t \<Longrightarrow>
     t = (fst s @ [hal_handoverId a], snd s + allocation_amount a) \<and>
     hal_handoverId a \<notin> set (fst s) \<and> 0 \<le> allocation_amount a \<and>
     hal_allocatedCents a = JsInt (allocation_amount a)"
  by (auto simp: allocate_one_def allocation_amount_def result_simps cash_simps)

lemma allocated_ok:
  assumes "assertCashFullyAllocated declared as = Inr u"
  shows "declared = JsInt (\<Sum>a\<leftarrow>as. allocation_amount a)"
    and "distinct (map hal_handoverId as)" and "\<forall>a\<in>set as. 0 \<le> allocation_amount a"
proof -
  obtain s where s: "loopR allocate_one ([], 0) as = Inr s"
    and d: "declared = JsInt (cents_of declared)" "snd s = cents_of declared"
    using assms by (auto simp: assertCashFullyAllocated_def result_simps cash_simps)
  have "fst s = map hal_handoverId as \<and> snd s = (\<Sum>a\<leftarrow>as. allocation_amount a) \<and>
      distinct (map hal_handoverId as) \<and> (\<forall>a\<in>set as. 0 \<le> allocation_amount a)"
    using s by (rule loopR_rule) (auto dest!: allocate_one_ok)
  with d show "declared = JsInt (\<Sum>a\<leftarrow>as. allocation_amount a)"
    and "distinct (map hal_handoverId as)" and "\<forall>a\<in>set as. 0 \<le> allocation_amount a"
    by simp_all
qed

definition received_properly :: "handover \<Rightarrow> bool" where
  "received_properly h \<longleftrightarrow>
     (\<exists>received receivedAt receiver.
        hnd_receivedCents h = Some (JsInt received) \<and> 0 \<le> received \<and> in_storage received \<and>
        hnd_receivedAt h = Some (ValidDate receivedAt) \<and>
        date_time (hnd_declaredAt h) \<le> receivedAt \<and>
        hnd_receiverUserId h = Some receiver \<and> hnd_receiptActorUserId h = Some receiver \<and>
        (hnd_kind h = Withdrawal \<longrightarrow> receiver \<noteq> hnd_senderUserId h))"

lemma receipt_ok: "assertHandoverReceipt h = Inr u \<Longrightarrow> received_properly h"
  by (auto simp: assertHandoverReceipt_def received_properly_def blank_or_missing_def
      result_simps cash_simps split: option.splits) (metis linorder_not_less)+

end
