(* ===== verification/CashDesk.thy ===== *)
theory CashDesk
  imports CashCount CashCustody
begin

section \<open>Cash register: the life of a session\<close>

text \<open>
  The command handlers of \<open>src/src/cash-register/infrastructure\<close> over the rows of
  one session: \<open>cash-adapter-ledger.ts\<close>, \<open>cash-adapter-ledger-movements.ts\<close>,
  \<open>cash-adapter-movements.ts\<close>, \<open>cash-adapter-counts.ts\<close>,
  \<open>cash-adapter-custody.ts\<close> and \<open>cash-adapter-closing.ts\<close>.  Each runs in a
  transaction that holds the session's row lock, so it is a function from the rows
  to the rows, or to the error that rolls it back.

  Outside the repository, and arguments here: the permission check of
  \<open>@casl/ability\<close> on the session (\<open>act_can\<close>), the user and membership tables
  (\<open>act_active\<close>, \<open>act_member\<close>), generated identifiers and folios, the clock, and
  the collation.  Rows come back from JSON columns as they were written.
\<close>

subsection \<open>Rows and actors\<close>

record ledger_row =
  ldr_movement :: cash_movement
  ldr_actorUserId :: ident
  ldr_occurredAt :: timestamp

record count_row =
  cnr_revision :: int
  cnr_actorUserId :: ident
  cnr_lines :: "count_line list"
  cnr_denominations :: "denomination_line list option"
  cnr_notes :: "string option"
  cnr_createdAt :: timestamp

record closing_row =
  clr_folio :: string
  clr_closedByUserId :: ident
  clr_snapshot :: closing_snapshot
  clr_comparison :: cash_comparison
  clr_declarationNotes :: "string option"
  clr_verificationNotes :: "string option"
  clr_closingNotes :: "string option"

record cash_desk =
  dsk_session :: cash_session
  dsk_submittedAt :: "timestamp option"
  dsk_closedAt :: "timestamp option"
  dsk_expected :: "expected_snapshot option"
  dsk_ledger :: "ledger_row list"
  dsk_declarations :: "count_row list"
  dsk_verifications :: "count_row list"
  dsk_handovers :: "handover list"
  dsk_closing :: "closing_row option"

datatype cash_command_kind =
    CmdCreateRegister | CmdUpdateRegister | CmdOpenSession
  | CmdCashIn | CmdCashOut | CmdStartCount | CmdDeclare | CmdAnnotateDeclaration | CmdVerify
  | CmdCreateHandover | CmdReceiveHandover | CmdReleaseDrawer | CmdClose

fun CASH_COMMAND_ABILITY :: "cash_command_kind \<Rightarrow> string \<times> string" where
  "CASH_COMMAND_ABILITY CmdCreateRegister = (''create'', ''CashRegister'')"
| "CASH_COMMAND_ABILITY CmdUpdateRegister = (''update'', ''CashRegister'')"
| "CASH_COMMAND_ABILITY CmdOpenSession = (''create'', ''CashSession'')"
| "CASH_COMMAND_ABILITY CmdCashIn = (''create'', ''CashIn'')"
| "CASH_COMMAND_ABILITY CmdCashOut = (''create'', ''CashOut'')"
| "CASH_COMMAND_ABILITY CmdStartCount = (''create'', ''CashCount'')"
| "CASH_COMMAND_ABILITY CmdDeclare = (''create'', ''CashCount'')"
| "CASH_COMMAND_ABILITY CmdAnnotateDeclaration = (''create'', ''CashCount'')"
| "CASH_COMMAND_ABILITY CmdVerify = (''create'', ''CashVerification'')"
| "CASH_COMMAND_ABILITY CmdCreateHandover = (''create'', ''CashHandover'')"
| "CASH_COMMAND_ABILITY CmdReceiveHandover = (''update'', ''CashHandover'')"
| "CASH_COMMAND_ABILITY CmdReleaseDrawer = (''create'', ''CashHandover'')"
| "CASH_COMMAND_ABILITY CmdClose = (''create'', ''CashClosing'')"

text \<open>\<open>act_can action subject\<close> answers for the row the command is about.\<close>

record cash_actor =
  act_userId :: ident
  act_can :: "string \<Rightarrow> string \<Rightarrow> bool"
  act_active :: bool
  act_member :: bool

definition assertCommandAbility :: "cash_actor \<Rightarrow> cash_command_kind \<Rightarrow> unit result" where
  "assertCommandAbility a k =
     (case CASH_COMMAND_ABILITY k of (action, subject) \<Rightarrow>
        throw_if (\<not> act_can a action subject)
          (cash_violation ''CASH_PERMISSION_DENIED''
            (''Missing permission '' @ action @ '':'' @ subject)))"

definition assertActiveMember :: "bool \<Rightarrow> bool \<Rightarrow> unit result" where
  "assertActiveMember active member =
     andThen (throw_if (\<not> active)
       (cash_violation ''CASH_ACTOR_INACTIVE'' ''Cash actor is not an active user'')) (\<lambda>_.
     throw_if (\<not> member)
       (cash_violation ''CASH_TENANT_MEMBERSHIP_REQUIRED''
         ''Cash actor is not a member of the active tenant''))"

definition assertSessionOwner :: "cash_session \<Rightarrow> ident \<Rightarrow> unit result" where
  "assertSessionOwner s userId =
     throw_if (csn_cashierUserId s \<noteq> userId)
       (cash_violation ''CASH_SESSION_NOT_OWNED'' ''Only the session owner may perform this action'')"

definition not_writable :: "string \<Rightarrow> domain_error" where
  "not_writable msg = cash_violation ''CASH_SESSION_NOT_WRITABLE'' msg"

text \<open>\<open>orderBy: occurredAt\<close>; rows of the same instant keep their insertion order.\<close>

definition loadSessionMovements :: "cash_desk \<Rightarrow> cash_movement list" where
  "loadSessionMovements d = map ldr_movement (sort_key ldr_occurredAt (dsk_ledger d))"

fun newer :: "count_row option \<Rightarrow> count_row \<Rightarrow> count_row option" where
  "newer None r = Some r"
| "newer (Some b) r = (if cnr_revision b < cnr_revision r then Some r else Some b)"

definition latestCount :: "count_row list \<Rightarrow> count_row option" where
  "latestCount rs = foldl newer None rs"

subsection \<open>Movements\<close>

record ledger_payment =
  ldp_paymentId :: ident
  ldp_method :: cash_method
  ldp_amountCents :: js_number
  ldp_catalog :: "catalog_identity option"

definition ledger_tender :: "ident \<Rightarrow> ledger_payment \<Rightarrow> cash_movement option result" where
  "ledger_tender sessionId p =
     (if ldp_amountCents p = JsInt 0 then Inr None
      else
        andThen (assertNonNegativeCents (ldp_amountCents p) ''amountCents'') (\<lambda>_.
        andThen (assertStorageRangeCents (ldp_amountCents p) ''amountCents'') (\<lambda>_.
        andThen (resolveCashChannel (ldp_method p) (ldp_catalog p)) (\<lambda>channel.
        let m = \<lparr>cmv_sessionId = sessionId, cmv_deltaCents = ldp_amountCents p,
                 cmv_method = ldp_method p, cmv_channelKey = cch_channelKey channel,
                 cmv_channelLabel = cch_channelLabel channel, cmv_kind = SalePayment,
                 cmv_sourceType = SourcePayment, cmv_sourceId = ldp_paymentId p,
                 cmv_reason = None\<rparr>
        in andThen (assertValidCashMovement m) (\<lambda>_. Inr (Some m))))))"

definition planLedgerPayments ::
  "ident \<Rightarrow> ident \<Rightarrow> ledger_payment list \<Rightarrow> js_number \<Rightarrow> cash_movement list result" where
  "planLedgerPayments sessionId saleId payments changeDue =
     andThen (mapM_list (ledger_tender sessionId) payments) (\<lambda>tenders.
     andThen (planChangeMovement sessionId saleId changeDue POOLED_CASH_CHANNEL) (\<lambda>change.
       Inr (List.map_filter id (tenders @ [change]))))"

definition source_of :: "cash_movement \<Rightarrow> cash_source_type \<times> ident" where
  "source_of m = (cmv_sourceType m, cmv_sourceId m)"

text \<open>
  \<open>elsewhere\<close> holds the sources of the tenant's movements in other sessions; the
  unique index of the table covers them, the session's own and the new rows.
\<close>

definition bound_cash :: "int \<Rightarrow> cash_movement \<Rightarrow> int result" where
  "bound_cash expected m =
     andThen (assertValidCashMovement m) (\<lambda>_.
       if cmv_method m = Cash then addCents (JsInt expected) (cmv_deltaCents m) ''expectedCashCents''
       else Inr expected)"

definition persistLedgerMovements ::
  "cash_actor \<Rightarrow> (cash_source_type \<times> ident) set \<Rightarrow> cash_movement list \<Rightarrow> timestamp
     \<Rightarrow> cash_desk \<Rightarrow> cash_desk result" where
  "persistLedgerMovements actor elsewhere ms occurredAt d =
     andThen (expectedCashCents (JsInt (csn_openingCents (dsk_session d))) (loadSessionMovements d)) (\<lambda>e.
     andThen (loopR bound_cash e ms) (\<lambda>_.
     andThen (throw_if (\<exists>m\<in>set ms. source_of m \<in> elsewhere \<union>
           (source_of \<circ> ldr_movement) ` set (dsk_ledger d))
       (cash_violation ''CASH_MOVEMENT_DUPLICATE_SOURCE'' ''cash movement source already recorded'')) (\<lambda>_.
     andThen (throw_if (\<not> distinct (map source_of ms))
       (cash_violation ''CASH_MOVEMENT_DUPLICATE_SOURCE'' ''cash movement source already recorded'')) (\<lambda>_.
       Inr (d\<lparr>dsk_ledger := dsk_ledger d @
         map (\<lambda>m. \<lparr>ldr_movement = m, ldr_actorUserId = act_userId actor,
                   ldr_occurredAt = occurredAt\<rparr>) ms\<rparr>)))))"

definition requireSessionForLedger :: "cash_actor \<Rightarrow> cash_desk \<Rightarrow> unit result" where
  "requireSessionForLedger actor d =
     andThen (assertActiveMember (act_active actor) (act_member actor)) (\<lambda>_.
     andThen (throw_if (csn_cashierUserId (dsk_session d) \<noteq> act_userId actor)
       (cash_violation ''CASH_SESSION_NOT_OWNED''
         ''Only the session owner may bind POS money to this session'')) (\<lambda>_.
     assertOperationalWriteAllowed (dsk_session d)))"

definition recordPayments ::
  "cash_actor \<Rightarrow> (cash_source_type \<times> ident) set \<Rightarrow> ident \<Rightarrow> ledger_payment list \<Rightarrow> js_number
     \<Rightarrow> timestamp \<Rightarrow> cash_desk \<Rightarrow> cash_desk result" where
  "recordPayments actor elsewhere saleId payments changeDue occurredAt d =
     andThen (requireSessionForLedger actor d) (\<lambda>_.
     andThen (assertNonEmptyText (Some saleId) ''saleId'') (\<lambda>_.
     andThen (assertStorageRangeCents changeDue ''changeDueCents'') (\<lambda>_.
     andThen (planLedgerPayments (csn_id (dsk_session d)) saleId payments changeDue) (\<lambda>planned.
       if planned = [] then Inr d
       else persistLedgerMovements actor elsewhere planned occurredAt d))))"

definition refund_movement ::
  "ident \<Rightarrow> cents \<Rightarrow> cash_method \<Rightarrow> cash_channel \<Rightarrow> ident \<Rightarrow> cash_movement" where
  "refund_movement sid amount method channel settlementId =
     \<lparr>cmv_sessionId = sid, cmv_deltaCents = JsInt (- amount), cmv_method = method,
      cmv_channelKey = cch_channelKey channel, cmv_channelLabel = cch_channelLabel channel,
      cmv_kind = RefundSettlement, cmv_sourceType = SourceRefund, cmv_sourceId = settlementId,
      cmv_reason = None\<rparr>"

text \<open>The settled amount comes from the refund the sales code computed, an integer.\<close>

definition recordRefund ::
  "cash_actor \<Rightarrow> (cash_source_type \<times> ident) set \<Rightarrow> ident \<Rightarrow> cents \<Rightarrow> cash_method
     \<Rightarrow> timestamp \<Rightarrow> cash_desk \<Rightarrow> cash_desk result" where
  "recordRefund actor elsewhere settlementId amount method occurredAt d =
     andThen (requireSessionForLedger actor d) (\<lambda>_.
     andThen (assertNonEmptyText (Some settlementId) ''settlementId'') (\<lambda>_.
     andThen (throw_if (amount \<le> 0)
       (cash_violation ''CASH_MOVEMENT_ZERO_DELTA''
         ''a refund settlement must settle a positive amount'')) (\<lambda>_.
     andThen (resolveCashChannel method None) (\<lambda>channel.
     let m = refund_movement (csn_id (dsk_session d)) amount method channel settlementId
     in andThen (assertValidCashMovement m) (\<lambda>_.
          persistLedgerMovements actor elsewhere [m] occurredAt d)))))"

definition manual_movement ::
  "ident \<Rightarrow> js_number \<Rightarrow> bool \<Rightarrow> ident \<Rightarrow> string \<Rightarrow> cash_movement" where
  "manual_movement sid signed cash_in uuid reason =
     \<lparr>cmv_sessionId = sid, cmv_deltaCents = signed, cmv_method = Cash,
      cmv_channelKey = cch_channelKey POOLED_CASH_CHANNEL,
      cmv_channelLabel = cch_channelLabel POOLED_CASH_CHANNEL,
      cmv_kind = (if cash_in then CashIn else CashOut), cmv_sourceType = SourceManual,
      cmv_sourceId = uuid, cmv_reason = Some reason\<rparr>"

text \<open>
  The handler relies on a fresh identifier; were it not fresh, the unique index would
  make the insertion throw.
\<close>

definition manualMovement ::
  "cash_actor \<Rightarrow> (cash_source_type \<times> ident) set \<Rightarrow> bool \<Rightarrow> js_number \<Rightarrow> string option \<Rightarrow> ident \<Rightarrow> timestamp \<Rightarrow> cash_desk
     \<Rightarrow> cash_desk result" where
  "manualMovement actor elsewhere cash_in amount reason uuid now d =
     andThen (assertCommandAbility actor (if cash_in then CmdCashIn else CmdCashOut)) (\<lambda>_.
     andThen (assertSessionOwner (dsk_session d) (act_userId actor)) (\<lambda>_.
     andThen (assertOperationalWriteAllowed (dsk_session d)) (\<lambda>_.
     andThen (assertNonNegativeCents amount ''amountCents'') (\<lambda>_.
     andThen (assertStorageRangeCents amount ''amountCents'') (\<lambda>_.
     andThen (assertNonEmptyText reason ''reason'') (\<lambda>reason'.
     let signed = (if cash_in then amount else js_neg_number amount);
         m = manual_movement (csn_id (dsk_session d)) signed cash_in uuid reason'
     in
     andThen (assertValidCashMovement m) (\<lambda>_.
     andThen (expectedCashCents (JsInt (csn_openingCents (dsk_session d))) (loadSessionMovements d)) (\<lambda>bookedBefore.
     andThen (addCents (JsInt bookedBefore) signed ''expectedCashCents'') (\<lambda>_.
     andThen (throw_if (source_of m \<in> elsewhere \<union> (source_of \<circ> ldr_movement) ` set (dsk_ledger d))
       (PlainError ''Unique constraint failed'')) (\<lambda>_.
       Inr (d\<lparr>dsk_ledger := dsk_ledger d @
         [\<lparr>ldr_movement = m, ldr_actorUserId = act_userId actor, ldr_occurredAt = now\<rparr>]\<rparr>)))))))))))"

end
