(* ===== verification/CashClosing.thy ===== *)
theory CashClosing
  imports CashDesk
begin

section \<open>Cash register: counting, custody and closing\<close>

text \<open>
  The remaining handlers of a session (\<open>cash-adapter-counts.ts\<close>,
  \<open>cash-adapter-custody.ts\<close>, \<open>cash-adapter-closing.ts\<close> and \<open>buildClosingChannels\<close>
  of \<open>cash-adapter-count-rules.ts\<close>).  The documents they answer with
  are computed where computing them can throw, and otherwise left out, as are the
  display names a closing also stores.
\<close>

subsection \<open>Counting\<close>

definition startCount ::
  "(string \<Rightarrow> string) \<Rightarrow> cash_actor \<Rightarrow> timestamp \<Rightarrow> cash_desk \<Rightarrow> cash_desk result" where
  "startCount collate actor now d =
     andThen (assertCommandAbility actor CmdStartCount) (\<lambda>_.
     andThen (assertSessionOwner (dsk_session d) (act_userId actor)) (\<lambda>_.
     andThen (assertCanFreezeSession (dsk_session d)) (\<lambda>_.
     andThen (buildExpectedSnapshot collate (csn_openingCents (dsk_session d))
                (loadSessionMovements d) now) (\<lambda>frozen.
     let s = (dsk_session d)\<lparr>csn_status := SessionCounting, csn_frozenAt := Some now\<rparr> in
     andThen (projectCashSession
       \<lparr>cpi_session = s, cpi_viewerUserId = act_userId actor,
        cpi_expectedCashCents = JsInt (exs_cashExpectedCents frozen), cpi_declaredCents = None,
        cpi_hasAuditVisibility = act_can actor ''read'' ''CashSessionAudit'',
        cpi_declarationSubmitted = False\<rparr>) (\<lambda>_.
       Inr (d\<lparr>dsk_session := s, dsk_expected := Some frozen\<rparr>))))))"

definition required_keys :: "expected_snapshot \<Rightarrow> string list" where
  "required_keys ex = map ech_channelKey (exs_channels ex)"

text \<open>
  The comparison \<open>declare\<close> answers with once the declaration is stored: one that
  misses its note, or leaves the storage window, is reported and does not throw.
\<close>

datatype comparison_report =
    Compared cash_comparison
  | NotesRequired js_number js_number "js_number option" "int option"

definition compareSafely ::
  "js_number \<Rightarrow> js_number \<Rightarrow> js_number option \<Rightarrow> string option \<Rightarrow> string option
     \<Rightarrow> comparison_report result" where
  "compareSafely expected declared verified declarationNotes verificationNotes =
     (case compareCashCounts expected declared verified declarationNotes verificationNotes of
        Inr c \<Rightarrow> Inr (Compared c)
      | Inl e \<Rightarrow>
          (case e of
             BusinessRuleViolationError msg code \<Rightarrow>
               if code = ''CASH_DISCREPANCY_NOTES_REQUIRED'' \<or> code = ''CASH_ARITHMETIC_OVERFLOW''
               then Inr (NotesRequired expected declared verified
                      (case subtractCents declared expected ''differenceCents'' of
                         Inr n \<Rightarrow> Some n | Inl _ \<Rightarrow> None))
               else Inl e
           | _ \<Rightarrow> Inl e))"

definition declare_count ::
  "(string \<Rightarrow> string) \<Rightarrow> cash_actor \<Rightarrow> count_line list \<Rightarrow> denomination_line list option
     \<Rightarrow> string option \<Rightarrow> timestamp \<Rightarrow> cash_desk \<Rightarrow> cash_desk result" where
  "declare_count collate actor ls denominations notes now d =
     andThen (assertCommandAbility actor CmdDeclare) (\<lambda>_.
     andThen (assertSessionOwner (dsk_session d) (act_userId actor)) (\<lambda>_.
     case dsk_expected d of
       None \<Rightarrow> Inl (not_writable ''A declaration requires a frozen counting session'')
     | Some expected \<Rightarrow>
         andThen (throw_if (csn_status (dsk_session d) \<noteq> SessionCounting)
           (not_writable ''A declaration requires a frozen counting session'')) (\<lambda>_.
         andThen (throw_if (dsk_declarations d \<noteq> [])
           (cash_violation ''CASH_DECLARATION_ALREADY_SUBMITTED''
             ''This session already has a blind declaration'')) (\<lambda>_.
         andThen (validateCashCount collate ls (required_keys expected) denominations) (\<lambda>v.
         andThen (compareSafely (JsInt (exs_cashExpectedCents expected)) (vcc_cashCents v) None
                    notes None) (\<lambda>_.
           Inr (d\<lparr>dsk_declarations := dsk_declarations d @
                   [\<lparr>cnr_revision = 1, cnr_actorUserId = act_userId actor, cnr_lines = vcc_lines v,
                     cnr_denominations = denominations, cnr_notes = notes, cnr_createdAt = now\<rparr>],
                  dsk_session := (dsk_session d)\<lparr>csn_status := SessionSubmitted\<rparr>,
                  dsk_submittedAt := Some now\<rparr>)))))))"

definition annotateDeclaration ::
  "cash_actor \<Rightarrow> string option \<Rightarrow> timestamp \<Rightarrow> cash_desk \<Rightarrow> cash_desk result" where
  "annotateDeclaration actor notes now d =
     andThen (assertCommandAbility actor CmdAnnotateDeclaration) (\<lambda>_.
     andThen (assertSessionOwner (dsk_session d) (act_userId actor)) (\<lambda>_.
     andThen (throw_if (dsk_verifications d \<noteq> [] \<or> csn_status (dsk_session d) = SessionClosed)
       (cash_violation ''CASH_ANNOTATION_BLOCKED''
         ''Declaration notes cannot change after verification or closing'')) (\<lambda>_.
     case latestCount (dsk_declarations d) of
       None \<Rightarrow> Inl (cash_violation ''CASH_DECLARATION_NOT_FOUND'' ''No declaration exists to annotate'')
     | Some r \<Rightarrow>
         andThen (assertNonEmptyText notes ''notes'') (\<lambda>n.
           Inr (d\<lparr>dsk_declarations := dsk_declarations d @
             [\<lparr>cnr_revision = cnr_revision r + 1, cnr_actorUserId = act_userId actor,
               cnr_lines = cnr_lines r, cnr_denominations = cnr_denominations r,
               cnr_notes = Some n, cnr_createdAt = now\<rparr>]\<rparr>)))))"

definition verify ::
  "(string \<Rightarrow> string) \<Rightarrow> cash_actor \<Rightarrow> count_line list \<Rightarrow> denomination_line list option
     \<Rightarrow> string option \<Rightarrow> timestamp \<Rightarrow> cash_desk \<Rightarrow> cash_desk result" where
  "verify collate actor ls denominations notes now d =
     andThen (assertCommandAbility actor CmdVerify) (\<lambda>_.
     andThen (throw_if (csn_status (dsk_session d) \<noteq> SessionSubmitted)
       (not_writable ''Verification requires a submitted declaration'')) (\<lambda>_.
     andThen (assertIndependentVerifier (csn_cashierUserId (dsk_session d)) (act_userId actor)) (\<lambda>_.
     case dsk_expected d of
       None \<Rightarrow> Inl (not_writable ''Expected snapshot is missing for verification'')
     | Some expected \<Rightarrow>
     (case latestCount (dsk_declarations d) of
       None \<Rightarrow> Inl (cash_violation ''CASH_DECLARATION_NOT_FOUND'' ''No declaration exists to verify'')
     | Some declaration \<Rightarrow>
         andThen (throw_if (dsk_verifications d \<noteq> [])
           (cash_violation ''CASH_ALREADY_VERIFIED''
             ''This session already has an independent verification'')) (\<lambda>_.
         andThen (validateCashCount collate ls (required_keys expected) denominations) (\<lambda>v.
         andThen (assertChannelExplanations expected (cnr_lines declaration) (vcc_lines v)
                    (cnr_notes declaration) notes) (\<lambda>_.
         andThen (compareCashCounts (JsInt (exs_cashExpectedCents expected))
                    (cash_line_cents (cnr_lines declaration)) (Some (vcc_cashCents v))
                    (cnr_notes declaration) notes) (\<lambda>_.
           Inr (d\<lparr>dsk_verifications := dsk_verifications d @
             [\<lparr>cnr_revision = 1, cnr_actorUserId = act_userId actor, cnr_lines = vcc_lines v,
               cnr_denominations = denominations, cnr_notes = notes, cnr_createdAt = now\<rparr>]\<rparr>))))))
     )))"

subsection \<open>Custody\<close>

definition add_allocated :: "int \<Rightarrow> handover \<Rightarrow> int result" where
  "add_allocated allocated h = addCents (JsInt allocated) (hnd_declaredCents h) ''allocatedCents''"

definition createHandover ::
  "cash_actor \<Rightarrow> handover_kind \<Rightarrow> ident \<Rightarrow> bool \<Rightarrow> bool \<Rightarrow> js_number \<Rightarrow> ident \<Rightarrow> timestamp
     \<Rightarrow> cash_desk \<Rightarrow> cash_desk result" where
  "createHandover actor kind recipient recipientActive recipientMember declared uuid now d =
     andThen (assertCommandAbility actor CmdCreateHandover) (\<lambda>_.
     andThen (assertSessionOwner (dsk_session d) (act_userId actor)) (\<lambda>_.
     andThen (throw_if (csn_status (dsk_session d) \<noteq> SessionSubmitted)
       (not_writable ''Handovers require a submitted declaration'')) (\<lambda>_.
     andThen (assertNonNegativeCents declared ''declaredCents'') (\<lambda>_.
     andThen (assertStorageRangeCents declared ''declaredCents'') (\<lambda>_.
     andThen (assertActiveMember recipientActive recipientMember) (\<lambda>_.
     andThen (throw_if (kind = Withdrawal \<and> recipient = act_userId actor)
       (cash_violation ''CASH_HANDOVER_SELF_WITHDRAWAL''
         ''a withdrawal cannot be received by its own sender'')) (\<lambda>_.
     case latestCount (dsk_declarations d) of
       None \<Rightarrow> Inl (cash_violation ''CASH_DECLARATION_NOT_FOUND''
         ''No declaration exists for handover allocation'')
     | Some declaration \<Rightarrow>
         andThen (loopR add_allocated (cents_of declared) (dsk_handovers d)) (\<lambda>allocated.
         andThen (throw_if (cents_of (cash_line_cents (cnr_lines declaration)) < allocated)
           (cash_violation ''CASH_HANDOVER_ALLOCATION_EXCEEDED''
             ''Handovers cannot allocate more than the counted cash'')) (\<lambda>_.
           Inr (d\<lparr>dsk_handovers := dsk_handovers d @
             [\<lparr>hnd_id = uuid, hnd_sessionId = csn_id (dsk_session d), hnd_kind = kind,
               hnd_declaredCents = declared, hnd_receivedCents = None,
               hnd_senderUserId = act_userId actor, hnd_receiverUserId = Some recipient,
               hnd_receiptActorUserId = None, hnd_declaredAt = ValidDate now,
               hnd_receivedAt = None\<rparr>]\<rparr>))))))))))"

definition receiveHandover ::
  "cash_actor \<Rightarrow> ident \<Rightarrow> js_number \<Rightarrow> string option \<Rightarrow> timestamp \<Rightarrow> cash_desk
     \<Rightarrow> cash_desk result" where
  "receiveHandover actor handoverId received notes now d =
     (case find (\<lambda>h. hnd_id h = handoverId) (dsk_handovers d) of
        None \<Rightarrow> Inl (cash_violation ''CASH_HANDOVER_NOT_FOUND'' ''Cash handover not found'')
      | Some h \<Rightarrow>
          andThen (assertCommandAbility actor CmdReceiveHandover) (\<lambda>_.
          andThen (throw_if (hnd_receivedAt h \<noteq> None \<or> hnd_receiptActorUserId h \<noteq> None)
            (cash_violation ''CASH_HANDOVER_ALREADY_RECEIVED'' ''This handover was already received'')) (\<lambda>_.
          andThen (throw_if (hnd_receiverUserId h \<noteq> Some (act_userId actor))
            (cash_violation ''CASH_HANDOVER_RECIPIENT_INVALID''
              ''Only the designated recipient may confirm receipt'')) (\<lambda>_.
          andThen (assertNonNegativeCents received ''receivedCents'') (\<lambda>_.
          andThen (assertStorageRangeCents received ''receivedCents'') (\<lambda>_.
          let h' = h\<lparr>hnd_receivedCents := Some received,
                     hnd_receiptActorUserId := Some (act_userId actor),
                     hnd_receivedAt := Some (ValidDate now)\<rparr>
          in
          andThen (assertHandoverReceipt h') (\<lambda>_.
          andThen (throw_if (received \<noteq> hnd_declaredCents h \<and> \<not> isNonEmptyText notes)
            (cash_violation ''CASH_RECEIPT_NOTES_REQUIRED''
              ''A received amount that differs from the declared amount requires a note'')) (\<lambda>_.
            Inr (d\<lparr>dsk_handovers :=
              update_first (\<lambda>x. hnd_id x = handoverId) (\<lambda>_. h') (dsk_handovers d)\<rparr>)))))))))"

definition allocation_of :: "handover \<Rightarrow> handover_allocation" where
  "allocation_of h = \<lparr>hal_handoverId = hnd_id h, hal_allocatedCents = hnd_declaredCents h\<rparr>"

definition all_received :: "handover list \<Rightarrow> string \<Rightarrow> unit result" where
  "all_received hs msg =
     throw_if (\<exists>h\<in>set hs. hnd_receivedAt h = None) (cash_violation ''CASH_CUSTODY_NOT_RECEIVED'' msg)"

definition releaseDrawer :: "cash_actor \<Rightarrow> timestamp \<Rightarrow> cash_desk \<Rightarrow> cash_desk result" where
  "releaseDrawer actor now d =
     andThen (assertCommandAbility actor CmdReleaseDrawer) (\<lambda>_.
     andThen (assertSessionOwner (dsk_session d) (act_userId actor)) (\<lambda>_.
     andThen (throw_if (csn_drawerReleasedAt (dsk_session d) \<noteq> None)
       (cash_violation ''CASH_DRAWER_ALREADY_RELEASED'' ''The drawer was already released'')) (\<lambda>_.
     andThen (all_received (dsk_handovers d)
       ''All handovers must be received before the drawer is released'') (\<lambda>_.
     andThen (assertDrawerReleaseAllowed (dsk_session d)
       (map_option (\<lambda>r. cash_line_cents (cnr_lines r)) (latestCount (dsk_declarations d)))
       (map allocation_of (dsk_handovers d))) (\<lambda>_.
       Inr (d\<lparr>dsk_session := (dsk_session d)\<lparr>csn_drawerReleasedAt := Some now\<rparr>\<rparr>))))))"

subsection \<open>Closing\<close>

text \<open>A later line of the same channel overwrites an earlier one in \<open>amountByChannel\<close>.\<close>

definition amountByChannel :: "count_line list \<Rightarrow> (string \<times> js_number) list" where
  "amountByChannel ls = foldl (\<lambda>m l. assoc_set m (ccl_channelKey l) (ccl_amountCents l)) [] ls"

definition closing_channel ::
  "count_line list \<Rightarrow> count_line list \<Rightarrow> expected_channel \<Rightarrow> snapshot_channel result" where
  "closing_channel declaredLines verifiedLines c =
     (let declared = or_default (assoc_get (amountByChannel declaredLines) (ech_channelKey c)) (JsInt 0)
      in mapR (\<lambda>difference.
           \<lparr>snc_channelKey = ech_channelKey c, snc_channelLabel = ech_channelLabel c,
            snc_method = ech_method c, snc_expectedCents = JsInt (ech_expectedCents c),
            snc_declaredCents = declared,
            snc_verifiedCents = assoc_get (amountByChannel verifiedLines) (ech_channelKey c),
            snc_differenceCents = JsInt difference\<rparr>)
         (subtractCents declared (JsInt (ech_expectedCents c)) ''differenceCents''))"

definition buildClosingChannels ::
  "expected_snapshot \<Rightarrow> count_line list \<Rightarrow> count_line list \<Rightarrow> snapshot_channel list result" where
  "buildClosingChannels expected declaredLines verifiedLines =
     mapM_list (closing_channel declaredLines verifiedLines) (exs_channels expected)"

definition close ::
  "cash_actor \<Rightarrow> string \<Rightarrow> string option \<Rightarrow> timestamp \<Rightarrow> cash_desk \<Rightarrow> cash_desk result" where
  "close actor folio closingNotes now d =
     (let s = dsk_session d in
     andThen (assertCommandAbility actor CmdClose) (\<lambda>_.
     andThen (throw_if (csn_status s \<noteq> SessionSubmitted)
       (not_writable ''Closing requires a submitted declaration'')) (\<lambda>_.
     andThen (assertIndependentCloser (csn_cashierUserId s) (act_userId actor)) (\<lambda>_.
     andThen (throw_if (csn_drawerReleasedAt s = None)
       (cash_violation ''CASH_DRAWER_NOT_RELEASED'' ''The drawer must be released before closing'')) (\<lambda>_.
     case dsk_expected d of
       None \<Rightarrow> Inl (not_writable ''Expected snapshot is missing for closing'')
     | Some expected \<Rightarrow>
     (case latestCount (dsk_declarations d) of
       None \<Rightarrow> Inl (cash_violation ''CASH_DECLARATION_NOT_FOUND'' ''No declaration exists to close'')
     | Some declaration \<Rightarrow>
     (case latestCount (dsk_verifications d) of
       None \<Rightarrow> Inl (cash_violation ''CASH_VERIFICATION_REQUIRED''
         ''An independent verification is required to close'')
     | Some verification \<Rightarrow>
     (case find (\<lambda>r. cnr_revision r = 1) (dsk_declarations d) of
       None \<Rightarrow> Inl (cash_violation ''CASH_DECLARATION_NOT_FOUND''
         ''The original declaration is required to close'')
     | Some original \<Rightarrow>
         let declaredLines = cnr_lines declaration; verifiedLines = cnr_lines verification;
             declaredCash = cash_line_cents declaredLines; verifiedCash = cash_line_cents verifiedLines
         in
         andThen (assertChannelExplanations expected declaredLines verifiedLines
                    (cnr_notes declaration) (cnr_notes verification)) (\<lambda>_.
         andThen (compareCashCounts (JsInt (exs_cashExpectedCents expected)) declaredCash
                    (Some verifiedCash) (cnr_notes declaration) (cnr_notes verification)) (\<lambda>comparison.
         andThen (all_received (dsk_handovers d) ''All handovers must be received before closing'') (\<lambda>_.
         andThen (assertCashFullyAllocated declaredCash (map allocation_of (dsk_handovers d))) (\<lambda>_.
         andThen (buildClosingChannels expected declaredLines verifiedLines) (\<lambda>channels.
         andThen (createCashClosingSnapshot
           \<lparr>cli_session = s\<lparr>csn_status := SessionClosed\<rparr>, cli_folio = folio,
            cli_expectedCents = JsInt (exs_cashExpectedCents expected),
            cli_declaredCents = declaredCash, cli_verifiedCents = Some verifiedCash,
            cli_verifierUserId = Some (cnr_actorUserId verification), cli_channels = channels,
            cli_handovers = dsk_handovers d, cli_countedAt = ValidDate (cnr_createdAt original),
            cli_verifiedAt = Some (ValidDate (cnr_createdAt verification)),
            cli_closedAt = ValidDate now, cli_closedByUserId = act_userId actor\<rparr>) (\<lambda>snapshot.
           Inr (d\<lparr>dsk_session := s\<lparr>csn_status := SessionClosed\<rparr>, dsk_closedAt := Some now,
                  dsk_closing := Some
                    \<lparr>clr_folio = folio, clr_closedByUserId = act_userId actor,
                     clr_snapshot = snapshot, clr_comparison = comparison,
                     clr_declarationNotes = cnr_notes declaration,
                     clr_verificationNotes = cnr_notes verification,
                     clr_closingNotes = closingNotes\<rparr>\<rparr>)))))))
     ))))))))"

end
