(* ===== verification/CashLaws.thy ===== *)
theory CashLaws
  imports CashClosing Lifecycle
begin

section \<open>What holds of cash sessions\<close>

text \<open>
  Laws over the cash theories: the frozen expected snapshot against the movements,
  what the ledger operations append, the steps of a session with its invariant and
  the parts of it that freeze (interpretations of the lifecycle locales), and the
  properties.
\<close>

subsection \<open>The frozen snapshot\<close>

lemma mapM_list_map:
  assumes "mapM_list f xs = Inr ys" and "\<And>x y. x \<in> set xs \<Longrightarrow> f x = Inr y \<Longrightarrow> y = g x"
  shows "ys = map g xs"
  using assms by (induction xs arbitrary: ys) (auto simp: result_simps)

definition group_channel :: "int \<Rightarrow> channel_total \<Rightarrow> expected_channel" where
  "group_channel opening t =
     \<lparr>ech_channelKey = cct_channelKey t, ech_channelLabel = cct_channelLabel t,
      ech_method = cct_method t,
      ech_expectedCents = (if cct_method t = Cash then opening else 0) + cct_totalCents t\<rparr>"

lemma expected_of_group_map:
  "mapM_list (expected_of_group opening) ts = Inr cs \<Longrightarrow> cs = map (group_channel opening) ts"
  by (erule mapM_list_map)
    (auto simp: expected_of_group_def group_channel_def result_simps cash_simps split: if_splits)

lemma total_of_resolved:
  assumes "total_of ms t" and "\<forall>m\<in>set ms. on_resolved_channel m"
  shows "cct_channelKey t = ''CASH'' \<longleftrightarrow> cct_method t = Cash"
proof -
  from assms(1) have "filter (\<lambda>m. cmv_channelKey m = cct_channelKey t) ms \<noteq> []"
    by (simp add: total_of_def Let_def)
  then obtain m where "m \<in> set ms" "cmv_channelKey m = cct_channelKey t"
    by (auto simp: filter_empty_conv)
  moreover from this assms(1) have "cmv_method m = cct_method t"
    by (simp add: total_of_def Let_def)
  ultimately show ?thesis using resolved_key assms(2) by metis
qed

definition own_total :: "cash_movement list \<Rightarrow> string \<Rightarrow> int" where
  "own_total ms k = (\<Sum>m\<leftarrow>filter (\<lambda>m. cmv_channelKey m = k) ms. delta_of m)"

lemma expected_snapshot_spec:
  assumes b: "buildExpectedSnapshot collate opening ms t = Inr ex"
    and res: "\<forall>m\<in>set ms. on_resolved_channel m"
  shows "exs_cashExpectedCents ex = opening + (\<Sum>m\<leftarrow>ms. cash_delta m)"
    and "distinct (required_keys ex)"
    and "set (required_keys ex) = insert ''CASH'' (cmv_channelKey ` set ms)"
    and "c \<in> set (exs_channels ex) \<Longrightarrow>
      (ech_method c = Cash \<longleftrightarrow> ech_channelKey c = ''CASH'') \<and>
      ech_expectedCents c =
        (if ech_channelKey c = ''CASH'' then opening else 0) + own_total ms (ech_channelKey c)"
proof -
  obtain ts where g: "groupMovementsByChannel collate ms = Inr ts"
    and m: "mapM_list (expected_of_group opening) ts = Inr (map (group_channel opening) ts)"
    using b by (auto simp: buildExpectedSnapshot_def result_simps Let_def dest: expected_of_group_map)
  let ?cs = "map (group_channel opening) ts"
  let ?pool = "\<lparr>ech_channelKey = ''CASH'', ech_channelLabel = CASH_METHOD_LABELS Cash,
      ech_method = Cash, ech_expectedCents = opening\<rparr>"
  define channels where
    "channels = (if \<exists>c\<in>set ?cs. ech_channelKey c = ''CASH'' then ?cs else ?pool # ?cs)"
  have ex: "exs_channels ex = channels"
    "exs_cashExpectedCents ex =
       (case find (\<lambda>c. ech_method c = Cash) channels of
          Some c \<Rightarrow> ech_expectedCents c | None \<Rightarrow> opening)"
    using b by (auto simp: buildExpectedSnapshot_def g m Let_def channels_def POOLED_CASH_CHANNEL_def)
  note spec = group_spec [OF g]
  have keys: "map ech_channelKey ?cs = map cct_channelKey ts" by (simp add: group_channel_def)
  have each: "(ech_method c = Cash \<longleftrightarrow> ech_channelKey c = ''CASH'') \<and>
      ech_expectedCents c =
        (if ech_channelKey c = ''CASH'' then opening else 0) + own_total ms (ech_channelKey c)"
    if "c \<in> set channels" for c
  proof (cases "c \<in> set ?cs")
    case True
    then obtain t where t: "t \<in> set ts" "c = group_channel opening t" by auto
    from total_of_resolved [OF spec(4) [OF t(1)] res] spec(4) [OF t(1)] t(2) show ?thesis
      by (simp add: group_channel_def total_of_def own_total_def Let_def)
  next
    case False
    with that have c: "c = ?pool" and none: "''CASH'' \<notin> ech_channelKey ` set ?cs"
      by (auto simp: channels_def split: if_splits)
    have "''CASH'' \<notin> cmv_channelKey ` set ms"
      using none spec(3) keys by (metis list.set_map)
    then have "filter (\<lambda>m. cmv_channelKey m = ''CASH'') ms = []" by (force simp: filter_empty_conv)
    then show ?thesis by (simp add: c own_total_def)
  qed
  then show "c \<in> set (exs_channels ex) \<Longrightarrow>
      (ech_method c = Cash \<longleftrightarrow> ech_channelKey c = ''CASH'') \<and>
      ech_expectedCents c =
        (if ech_channelKey c = ''CASH'' then opening else 0) + own_total ms (ech_channelKey c)"
    unfolding ex(1) .
  have "distinct (map ech_channelKey ?cs)" unfolding keys by (rule spec(2))
  then show "distinct (required_keys ex)"
    unfolding required_keys_def ex(1) channels_def by (auto simp del: map_map)
  have group: "ech_channelKey ` set ?cs = cmv_channelKey ` set ms"
    using spec(3) keys by (metis list.set_map)
  have pooled: "ech_channelKey ` set (if \<exists>c\<in>set cs. ech_channelKey c = ''CASH'' then cs
      else ?pool # cs) = insert ''CASH'' (ech_channelKey ` set cs)" for cs
    by (cases "\<exists>c\<in>set cs. ech_channelKey c = ''CASH''") force+
  show "set (required_keys ex) = insert ''CASH'' (cmv_channelKey ` set ms)"
    using pooled [of ?cs] unfolding group
    by (simp only: required_keys_def ex(1) channels_def set_map)
  have "\<exists>c\<in>set channels. ech_channelKey c = ''CASH''" by (auto simp: channels_def)
  then obtain c where "find (\<lambda>c. ech_method c = Cash) channels = Some c"
    using each by (cases "find (\<lambda>c. ech_method c = Cash) channels") (auto simp: list_simps)
  with each [of c] find_SomeD [OF this]
  show "exs_cashExpectedCents ex = opening + (\<Sum>m\<leftarrow>ms. cash_delta m)"
    by (simp add: ex(2) own_total_def cash_is_pooled [OF res])
qed

subsection \<open>What the ledger operations append\<close>

definition booked :: "cash_movement \<Rightarrow> bool" where
  "booked m \<longleftrightarrow> movement_ok m \<and> on_resolved_channel m"

lemma on_resolvedI:
  assumes "resolveCashChannel (cmv_method m) catalog = Inr ch"
    and "cmv_channelKey m = cch_channelKey ch" and "cmv_channelLabel m = cch_channelLabel ch"
  shows "on_resolved_channel m"
  unfolding on_resolved_channel_def
  using assms resolved_channel(1) [OF assms(1)]
  by (intro exI [of _ catalog]) (cases ch, simp)

lemma pooled_resolved: "resolveCashChannel Cash None = Inr POOLED_CASH_CHANNEL"
  by (simp add: resolveCashChannel_def)

lemma ledger_tender_ok:
  assumes "ledger_tender sid p = Inr mo"
  shows "ldp_amountCents p = JsInt (cents_of (ldp_amountCents p))"
    and "cents_of (ldp_amountCents p) = 0 \<Longrightarrow> mo = None"
    and "cents_of (ldp_amountCents p) \<noteq> 0 \<Longrightarrow> \<exists>m. mo = Some m \<and> booked m \<and>
      delta_of m = cents_of (ldp_amountCents p) \<and> cmv_method m = ldp_method p \<and>
      cmv_kind m = SalePayment \<and> source_of m = (SourcePayment, ldp_paymentId p)"
proof -
  have "ldp_amountCents p = JsInt 0 \<and> mo = None \<or>
      ldp_amountCents p = JsInt (cents_of (ldp_amountCents p)) \<and>
      cents_of (ldp_amountCents p) \<noteq> 0 \<and> (\<exists>m. mo = Some m \<and> booked m \<and>
      delta_of m = cents_of (ldp_amountCents p) \<and> cmv_method m = ldp_method p \<and>
      cmv_kind m = SalePayment \<and> source_of m = (SourcePayment, ldp_paymentId p))"
  proof (cases "ldp_amountCents p = JsInt 0")
    case True
    with assms show ?thesis by (simp add: ledger_tender_def)
  next
    case False
    with assms obtain ch m where a: "ldp_amountCents p = JsInt (cents_of (ldp_amountCents p))"
      and ch: "resolveCashChannel (ldp_method p) (ldp_catalog p) = Inr ch"
      and m: "mo = Some m" "movement_ok m"
        "m = \<lparr>cmv_sessionId = sid, cmv_deltaCents = ldp_amountCents p,
              cmv_method = ldp_method p, cmv_channelKey = cch_channelKey ch,
              cmv_channelLabel = cch_channelLabel ch, cmv_kind = SalePayment,
              cmv_sourceType = SourcePayment, cmv_sourceId = ldp_paymentId p, cmv_reason = None\<rparr>"
      by (auto simp: ledger_tender_def Let_def result_simps cash_simps)
    have "on_resolved_channel m"
      by (rule on_resolvedI [where catalog = "ldp_catalog p" and ch = ch]) (simp_all add: m(3) ch)
    moreover have "cents_of (ldp_amountCents p) \<noteq> 0" using a False by auto
    ultimately show ?thesis
      using a m by (simp add: booked_def delta_of_def source_of_def)
  qed
  then show "ldp_amountCents p = JsInt (cents_of (ldp_amountCents p))"
    and "cents_of (ldp_amountCents p) = 0 \<Longrightarrow> mo = None"
    and "cents_of (ldp_amountCents p) \<noteq> 0 \<Longrightarrow> \<exists>m. mo = Some m \<and> booked m \<and>
      delta_of m = cents_of (ldp_amountCents p) \<and> cmv_method m = ldp_method p \<and>
      cmv_kind m = SalePayment \<and> source_of m = (SourcePayment, ldp_paymentId p)"
    by auto
qed

lemma js_neg_number_int: "v = JsInt (cents_of v) \<Longrightarrow> js_neg_number v = JsInt (- cents_of v)"
  by (cases v) auto

lemma planChange_ok:
  assumes "planChangeMovement sid saleId change POOLED_CASH_CHANNEL = Inr mo"
  shows "0 \<le> cents_of change"
    and "cents_of change = 0 \<Longrightarrow> mo = None"
    and "cents_of change \<noteq> 0 \<Longrightarrow> \<exists>m. mo = Some m \<and> booked m \<and> delta_of m = - cents_of change \<and>
      cmv_method m = Cash \<and> cmv_kind m = SaleChange \<and> source_of m = (SourceSale, saleId)"
proof -
  show "0 \<le> cents_of change" and "cents_of change = 0 \<Longrightarrow> mo = None"
    using assms by (auto simp: planChangeMovement_def Let_def result_simps cash_simps split: if_splits)
  assume "cents_of change \<noteq> 0"
  with assms obtain m where m: "mo = Some m" "movement_ok m" "change = JsInt (cents_of change)"
    "m = \<lparr>cmv_sessionId = sid, cmv_deltaCents = js_neg_number change, cmv_method = Cash,
          cmv_channelKey = cch_channelKey POOLED_CASH_CHANNEL,
          cmv_channelLabel = cch_channelLabel POOLED_CASH_CHANNEL, cmv_kind = SaleChange,
          cmv_sourceType = SourceSale, cmv_sourceId = saleId, cmv_reason = None\<rparr>"
    by (auto simp: planChangeMovement_def Let_def result_simps cash_simps)
  have "on_resolved_channel m"
    by (rule on_resolvedI [where catalog = None and ch = POOLED_CASH_CHANNEL])
      (simp_all add: m(4) pooled_resolved)
  with m show "\<exists>m. mo = Some m \<and> booked m \<and> delta_of m = - cents_of change \<and>
      cmv_method m = Cash \<and> cmv_kind m = SaleChange \<and> source_of m = (SourceSale, saleId)"
    by (simp add: booked_def delta_of_def source_of_def js_neg_number_int)
qed

definition tendered :: "ledger_payment list \<Rightarrow> int" where
  "tendered ps = (\<Sum>p\<leftarrow>ps. cents_of (ldp_amountCents p))"

definition cash_tendered :: "ledger_payment list \<Rightarrow> int" where
  "cash_tendered ps = tendered (filter (\<lambda>p. ldp_method p = Cash) ps)"

lemma tenders_ok:
  assumes "mapM_list (ledger_tender sid) ps = Inr mos"
  shows "(\<forall>m\<in>set (List.map_filter id mos). booked m) \<and>
    (\<Sum>m\<leftarrow>List.map_filter id mos. delta_of m) = tendered ps \<and>
    (\<Sum>m\<leftarrow>List.map_filter id mos. cash_delta m) = cash_tendered ps"
  using assms
proof (induction ps arbitrary: mos)
  case Nil
  then show ?case by (simp add: tendered_def cash_tendered_def List.map_filter_simps)
next
  case (Cons p ps)
  then obtain mo rest where mos: "mos = mo # rest" "ledger_tender sid p = Inr mo"
    "mapM_list (ledger_tender sid) ps = Inr rest"
    by (auto simp: result_simps)
  note IH = Cons.IH [OF mos(3)] and t = ledger_tender_ok [OF mos(2)]
  show ?case
  proof (cases "cents_of (ldp_amountCents p) = 0")
    case True
    with t(2) IH show ?thesis
      by (simp add: mos(1) List.map_filter_simps tendered_def cash_tendered_def)
  next
    case False
    from t(3) [OF this] IH show ?thesis
      by (auto simp: mos(1) List.map_filter_simps tendered_def cash_tendered_def cash_delta_def)
  qed
qed

lemma planLedgerPayments_ok:
  assumes "planLedgerPayments sid saleId ps change = Inr ms"
  shows "\<forall>m\<in>set ms. booked m"
    and "(\<Sum>m\<leftarrow>ms. delta_of m) = tendered ps - cents_of change"
    and "(\<Sum>m\<leftarrow>ms. cash_delta m) = cash_tendered ps - cents_of change"
proof -
  obtain mos mo where mos: "mapM_list (ledger_tender sid) ps = Inr mos"
    and mo: "planChangeMovement sid saleId change POOLED_CASH_CHANNEL = Inr mo"
    and ms: "ms = List.map_filter id mos @ List.map_filter id [mo]"
    using assms by (auto simp: planLedgerPayments_def result_simps map_filter_def)
  note t = tenders_ok [OF mos] and c = planChange_ok [OF mo]
  have "(\<forall>m\<in>set (List.map_filter id [mo]). booked m) \<and>
      (\<Sum>m\<leftarrow>List.map_filter id [mo]. delta_of m) = - cents_of change \<and>
      (\<Sum>m\<leftarrow>List.map_filter id [mo]. cash_delta m) = - cents_of change"
  proof (cases "cents_of change = 0")
    case True
    with c(2) show ?thesis by (simp add: List.map_filter_simps)
  next
    case False
    from c(3) [OF this] show ?thesis by (auto simp: List.map_filter_simps cash_delta_def)
  qed
  with t show "\<forall>m\<in>set ms. booked m"
    and "(\<Sum>m\<leftarrow>ms. delta_of m) = tendered ps - cents_of change"
    and "(\<Sum>m\<leftarrow>ms. cash_delta m) = cash_tendered ps - cents_of change"
    by (auto simp: ms)
qed

definition recorded :: "cash_desk \<Rightarrow> cash_movement list" where
  "recorded d = map ldr_movement (dsk_ledger d)"

definition book_cash :: "cash_desk \<Rightarrow> int" where
  "book_cash d = csn_openingCents (dsk_session d) + (\<Sum>m\<leftarrow>recorded d. cash_delta m)"

lemma loaded_recorded: "mset (loadSessionMovements d) = mset (recorded d)"
  by (simp add: loadSessionMovements_def recorded_def)

lemma sum_loaded: "(\<Sum>m\<leftarrow>loadSessionMovements d. f m :: int) = (\<Sum>m\<leftarrow>recorded d. f m)"
  using loaded_recorded [of d] by (metis mset_map sum_mset_sum_list)

lemma set_loaded [simp]: "set (loadSessionMovements d) = set (recorded d)"
  by (rule mset_eq_setD [OF loaded_recorded])

definition appends :: "cash_movement list \<Rightarrow> cash_desk \<Rightarrow> cash_desk \<Rightarrow> bool" where
  "appends ms d d' \<longleftrightarrow>
     (\<exists>rows. map ldr_movement rows = ms \<and> d' = d\<lparr>dsk_ledger := dsk_ledger d @ rows\<rparr>) \<and>
     csn_status (dsk_session d) = SessionOpen \<and> csn_frozenAt (dsk_session d) = None \<and>
     (\<forall>m\<in>set ms. booked m) \<and> distinct (map source_of ms) \<and>
     source_of ` set ms \<inter> (source_of \<circ> ldr_movement) ` set (dsk_ledger d) = {} \<and>
     (ms \<noteq> [] \<longrightarrow> in_storage (book_cash d'))"

lemma bound_cash_ok:
  "bound_cash e m = Inr e' \<Longrightarrow> movement_ok m \<and> e' = e + cash_delta m \<and> (in_storage e \<longrightarrow> in_storage e')"
  by (auto simp: bound_cash_def cash_delta_def delta_of_def result_simps cash_simps split: if_splits)

lemma persist_ok:
  assumes "persistLedgerMovements actor elsewhere ms t d = Inr d'"
  shows "\<exists>rows. map ldr_movement rows = ms \<and> d' = d\<lparr>dsk_ledger := dsk_ledger d @ rows\<rparr>"
    and "distinct (map source_of ms)"
    and "source_of ` set ms \<inter> (source_of \<circ> ldr_movement) ` set (dsk_ledger d) = {}"
    and "in_storage (book_cash d')"
proof -
  obtain e e' where e: "expectedCashCents (JsInt (csn_openingCents (dsk_session d)))
      (loadSessionMovements d) = Inr e" and e': "loopR bound_cash e ms = Inr e'"
    and fresh: "\<not> (\<exists>m\<in>set ms. source_of m \<in> elsewhere \<union> (source_of \<circ> ldr_movement) ` set (dsk_ledger d))"
    and dist: "distinct (map source_of ms)"
    and d': "d' = d\<lparr>dsk_ledger := dsk_ledger d @
        map (\<lambda>m. \<lparr>ldr_movement = m, ldr_actorUserId = act_userId actor, ldr_occurredAt = t\<rparr>) ms\<rparr>"
    using assms unfolding persistLedgerMovements_def by (auto simp: result_simps)
  show "\<exists>rows. map ldr_movement rows = ms \<and> d' = d\<lparr>dsk_ledger := dsk_ledger d @ rows\<rparr>"
    by (intro exI [of _ "map (\<lambda>m. \<lparr>ldr_movement = m, ldr_actorUserId = act_userId actor,
        ldr_occurredAt = t\<rparr>) ms"]) (simp add: d' comp_def)
  show "distinct (map source_of ms)" by (rule dist)
  show "source_of ` set ms \<inter> (source_of \<circ> ldr_movement) ` set (dsk_ledger d) = {}" using fresh by blast
  have "e' = e + (\<Sum>m\<leftarrow>ms. cash_delta m) \<and> sums_within e (map cash_delta ms)"
    using e' by (rule addCents_loop) (use e in \<open>auto simp: expectedCashCents_ok dest: bound_cash_ok\<close>)
  then have "in_storage (e + (\<Sum>m\<leftarrow>ms. cash_delta m))"
    by (auto simp: sums_within_def dest: spec [of _ "length ms"])
  with e show "in_storage (book_cash d')"
    by (simp add: expectedCashCents_ok sum_loaded book_cash_def d' recorded_def comp_def add.assoc)
qed

lemma ledger_session_ok:
  "requireSessionForLedger actor d = Inr u \<Longrightarrow>
     csn_status (dsk_session d) = SessionOpen \<and> csn_frozenAt (dsk_session d) = None"
  by (auto simp: requireSessionForLedger_def result_simps cash_simps)

lemma recordPayments_ok:
  assumes "recordPayments actor elsewhere saleId ps change t d = Inr d'"
  shows "\<exists>ms. appends ms d d' \<and> (\<Sum>m\<leftarrow>ms. delta_of m) = tendered ps - cents_of change \<and>
    (\<Sum>m\<leftarrow>ms. cash_delta m) = cash_tendered ps - cents_of change"
proof -
  obtain u ms where s: "requireSessionForLedger actor d = Inr u"
    and ms: "planLedgerPayments (csn_id (dsk_session d)) saleId ps change = Inr ms"
    and d': "ms = [] \<and> d' = d \<or> ms \<noteq> [] \<and> persistLedgerMovements actor elsewhere ms t d = Inr d'"
    using assms unfolding recordPayments_def by (auto simp: result_simps split: if_splits)
  note p = planLedgerPayments_ok [OF ms] and w = ledger_session_ok [OF s]
  have "appends ms d d'"
  proof (cases "ms = []")
    case True
    with d' w show ?thesis by (auto simp: appends_def intro: exI [of _ "[]"])
  next
    case False
    with d' have "persistLedgerMovements actor elsewhere ms t d = Inr d'" by simp
    from persist_ok [OF this] w p(1) show ?thesis by (simp add: appends_def)
  qed
  with p show ?thesis by blast
qed

lemma recordRefund_ok:
  assumes "recordRefund actor elsewhere settlementId amount method t d = Inr d'"
  shows "\<exists>m. appends [m] d d' \<and> delta_of m = - amount \<and> cmv_method m = method"
proof -
  obtain u ch where s: "requireSessionForLedger actor d = Inr u"
    and ch: "resolveCashChannel method None = Inr ch"
    and m: "movement_ok (refund_movement (csn_id (dsk_session d)) amount method ch settlementId)"
      "persistLedgerMovements actor elsewhere
        [refund_movement (csn_id (dsk_session d)) amount method ch settlementId] t d = Inr d'"
    using assms unfolding recordRefund_def Let_def by (auto simp: result_simps cash_simps)
  let ?m = "refund_movement (csn_id (dsk_session d)) amount method ch settlementId"
  have "on_resolved_channel ?m"
    by (rule on_resolvedI [where catalog = None and ch = ch]) (simp_all add: ch refund_movement_def)
  with m(1) have "booked ?m" by (simp add: booked_def)
  with persist_ok [OF m(2)] ledger_session_ok [OF s] have "appends [?m] d d'"
    by (simp add: appends_def)
  then show ?thesis by (intro exI [of _ ?m]) (simp add: delta_of_def refund_movement_def)
qed

lemma manualMovement_ok:
  assumes "manualMovement actor elsewhere cash_in amount reason uuid now d = Inr d'"
  shows "\<exists>m. appends [m] d d' \<and> delta_of m = (if cash_in then cents_of amount else - cents_of amount) \<and>
    cmv_method m = Cash"
proof -
  let ?signed = "if cash_in then amount else js_neg_number amount"
  obtain r before b where w: "csn_status (dsk_session d) = SessionOpen" "csn_frozenAt (dsk_session d) = None"
    and a: "amount = JsInt (cents_of amount)"
    and m: "movement_ok (manual_movement (csn_id (dsk_session d)) ?signed cash_in uuid r)"
    and fresh: "source_of (manual_movement (csn_id (dsk_session d)) ?signed cash_in uuid r)
        \<notin> elsewhere \<union> (source_of \<circ> ldr_movement) ` set (dsk_ledger d)"
    and d': "d' = d\<lparr>dsk_ledger := dsk_ledger d @ [\<lparr>ldr_movement =
          manual_movement (csn_id (dsk_session d)) ?signed cash_in uuid r,
        ldr_actorUserId = act_userId actor, ldr_occurredAt = now\<rparr>]\<rparr>"
    and bound: "expectedCashCents (JsInt (csn_openingCents (dsk_session d)))
        (loadSessionMovements d) = Inr before"
      "addCents (JsInt before) ?signed ''expectedCashCents'' = Inr b"
    using assms unfolding manualMovement_def Let_def andThen_Inr throw_if_Inr write_allowed_ok
      assertNonNegativeCents_ok assertStorageRangeCents_ok assertValidCashMovement_ok by blast
  let ?m = "manual_movement (csn_id (dsk_session d)) ?signed cash_in uuid r"
  have "on_resolved_channel ?m"
    by (rule on_resolvedI [where catalog = None and ch = POOLED_CASH_CHANNEL])
      (simp_all add: pooled_resolved manual_movement_def)
  with m have "booked ?m" by (simp add: booked_def)
  moreover have "\<exists>rows. map ldr_movement rows = [?m] \<and> d' = d\<lparr>dsk_ledger := dsk_ledger d @ rows\<rparr>"
    by (intro exI [of _ "[\<lparr>ldr_movement = ?m, ldr_actorUserId = act_userId actor,
        ldr_occurredAt = now\<rparr>]"]) (simp add: d')
  moreover have "in_storage (book_cash d')"
  proof -
    have "cash_delta ?m = cents_of ?signed"
      by (simp add: cash_delta_def delta_of_def manual_movement_def)
    moreover have "before = book_cash d"
      using bound(1) by (simp add: expectedCashCents_ok sum_loaded book_cash_def)
    moreover have "book_cash d' = book_cash d + cash_delta ?m"
      by (simp add: book_cash_def d' recorded_def)
    ultimately show ?thesis using bound(2) unfolding addCents_ok js_trunc.simps by metis
  qed
  ultimately have "appends [?m] d d'" using w fresh by (simp add: appends_def)
  moreover have "delta_of ?m = (if cash_in then cents_of amount else - cents_of amount)"
    using js_neg_number_int [OF a] by (simp add: delta_of_def manual_movement_def)
  ultimately show ?thesis by (intro exI [of _ ?m]) (simp add: manual_movement_def)
qed

subsection \<open>The steps of a session\<close>

text \<open>\<open>elsewhere\<close> holds the sources of the movements of the other sessions.\<close>

inductive desk_step ::
  "(string \<Rightarrow> string) \<Rightarrow> (cash_source_type \<times> ident) set \<Rightarrow> cash_desk \<Rightarrow> cash_desk \<Rightarrow> bool"
  for collate :: "string \<Rightarrow> string" and elsewhere :: "(cash_source_type \<times> ident) set" where
  Payments: "recordPayments actor elsewhere saleId ps change t d = Inr d' \<Longrightarrow> desk_step collate elsewhere d d'"
| Refund: "recordRefund actor elsewhere settlementId amount method t d = Inr d' \<Longrightarrow> desk_step collate elsewhere d d'"
| Manual: "manualMovement actor elsewhere cash_in v reason uuid t d = Inr d' \<Longrightarrow> desk_step collate elsewhere d d'"
| StartCount: "startCount collate actor t d = Inr d' \<Longrightarrow> desk_step collate elsewhere d d'"
| Declare: "declare_count collate actor ls ds notes t d = Inr d' \<Longrightarrow> desk_step collate elsewhere d d'"
| Annotate: "annotateDeclaration actor notes t d = Inr d' \<Longrightarrow> desk_step collate elsewhere d d'"
| Verify: "verify collate actor ls ds notes t d = Inr d' \<Longrightarrow> desk_step collate elsewhere d d'"
| CreateHandover: "createHandover actor kind rcpt active member v uuid t d = Inr d' \<Longrightarrow>
    desk_step collate elsewhere d d'"
| ReceiveHandover: "receiveHandover actor i v notes t d = Inr d' \<Longrightarrow> desk_step collate elsewhere d d'"
| ReleaseDrawer: "releaseDrawer actor t d = Inr d' \<Longrightarrow> desk_step collate elsewhere d d'"
| Close: "close actor folio notes t d = Inr d' \<Longrightarrow> desk_step collate elsewhere d d'"

text \<open>What an accepted handler says of the rows before and after.\<close>

lemma startCount_ok:
  assumes "startCount collate actor t d = Inr d'"
  shows "csn_status (dsk_session d) = SessionOpen \<and> csn_frozenAt (dsk_session d) = None \<and>
    csn_cashierUserId (dsk_session d) = act_userId actor \<and>
    (\<exists>ex. buildExpectedSnapshot collate (csn_openingCents (dsk_session d))
        (loadSessionMovements d) t = Inr ex \<and>
      d' = d\<lparr>dsk_session := (dsk_session d)\<lparr>csn_status := SessionCounting, csn_frozenAt := Some t\<rparr>,
             dsk_expected := Some ex\<rparr>)"
  using assms unfolding startCount_def
  by (auto simp: result_simps cash_simps Let_def assertSessionOwner_def)

lemma declare_ok:
  assumes "declare_count collate actor ls ds notes t d = Inr d'"
  shows "csn_status (dsk_session d) = SessionCounting \<and> dsk_declarations d = [] \<and>
    csn_cashierUserId (dsk_session d) = act_userId actor \<and>
    (\<exists>ex v. dsk_expected d = Some ex \<and>
      validateCashCount collate ls (required_keys ex) ds = Inr v \<and>
      d' = d\<lparr>dsk_declarations :=
          [\<lparr>cnr_revision = 1, cnr_actorUserId = act_userId actor, cnr_lines = vcc_lines v,
            cnr_denominations = ds, cnr_notes = notes, cnr_createdAt = t\<rparr>],
        dsk_session := (dsk_session d)\<lparr>csn_status := SessionSubmitted\<rparr>,
        dsk_submittedAt := Some t\<rparr>)"
  using assms unfolding declare_count_def
  by (auto simp: result_simps assertSessionOwner_def split: option.splits)

lemma annotate_ok:
  assumes "annotateDeclaration actor notes t d = Inr d'"
  shows "dsk_verifications d = [] \<and> csn_status (dsk_session d) \<noteq> SessionClosed \<and>
    csn_cashierUserId (dsk_session d) = act_userId actor \<and>
    (\<exists>r n. latestCount (dsk_declarations d) = Some r \<and>
      d' = d\<lparr>dsk_declarations := dsk_declarations d @
        [\<lparr>cnr_revision = cnr_revision r + 1, cnr_actorUserId = act_userId actor,
          cnr_lines = cnr_lines r, cnr_denominations = cnr_denominations r,
          cnr_notes = Some n, cnr_createdAt = t\<rparr>]\<rparr>)"
  using assms unfolding annotateDeclaration_def
  by (auto simp: result_simps assertSessionOwner_def split: option.splits)

lemma verify_ok:
  assumes "verify collate actor ls ds notes t d = Inr d'"
  shows "csn_status (dsk_session d) = SessionSubmitted \<and> dsk_verifications d = [] \<and>
    csn_cashierUserId (dsk_session d) \<noteq> act_userId actor \<and>
    (\<exists>ex v. dsk_expected d = Some ex \<and>
      validateCashCount collate ls (required_keys ex) ds = Inr v \<and>
      d' = d\<lparr>dsk_verifications :=
        [\<lparr>cnr_revision = 1, cnr_actorUserId = act_userId actor, cnr_lines = vcc_lines v,
          cnr_denominations = ds, cnr_notes = notes, cnr_createdAt = t\<rparr>]\<rparr>)"
  using assms unfolding verify_def
  by (auto simp: result_simps cash_simps split: option.splits)

lemma createHandover_ok:
  assumes "createHandover actor kind rcpt active member v uuid t d = Inr d'"
  shows "csn_status (dsk_session d) = SessionSubmitted \<and>
    csn_cashierUserId (dsk_session d) = act_userId actor \<and>
    (\<exists>h. hnd_senderUserId h = act_userId actor \<and> hnd_receivedAt h = None \<and>
      hnd_declaredCents h = JsInt (cents_of v) \<and> 0 \<le> cents_of v \<and>
      d' = d\<lparr>dsk_handovers := dsk_handovers d @ [h]\<rparr>) \<and>
    (\<exists>r s. latestCount (dsk_declarations d) = Some r \<and>
      loopR add_allocated (cents_of v) (dsk_handovers d) = Inr s \<and>
      s \<le> cents_of (cash_line_cents (cnr_lines r)))"
proof -
  let ?h = "\<lparr>hnd_id = uuid, hnd_sessionId = csn_id (dsk_session d), hnd_kind = kind,
      hnd_declaredCents = v, hnd_receivedCents = None, hnd_senderUserId = act_userId actor,
      hnd_receiverUserId = Some rcpt, hnd_receiptActorUserId = None,
      hnd_declaredAt = ValidDate t, hnd_receivedAt = None\<rparr>"
  have "csn_status (dsk_session d) = SessionSubmitted \<and>
      csn_cashierUserId (dsk_session d) = act_userId actor \<and>
      v = JsInt (cents_of v) \<and> 0 \<le> cents_of v \<and>
      d' = d\<lparr>dsk_handovers := dsk_handovers d @ [?h]\<rparr> \<and>
      (\<exists>r s. latestCount (dsk_declarations d) = Some r \<and>
        loopR add_allocated (cents_of v) (dsk_handovers d) = Inr s \<and>
        s \<le> cents_of (cash_line_cents (cnr_lines r)))"
    using assms unfolding createHandover_def
    by (auto simp: result_simps cash_simps assertSessionOwner_def split: option.splits)
  then show ?thesis by (intro conjI exI [of _ ?h]) auto
qed

lemma receiveHandover_ok:
  assumes "receiveHandover actor i v notes t d = Inr d'"
  shows "\<exists>h h'. find (\<lambda>h. hnd_id h = i) (dsk_handovers d) = Some h \<and> hnd_receivedAt h = None \<and>
    received_properly h' \<and> hnd_senderUserId h' = hnd_senderUserId h \<and>
    hnd_declaredCents h' = hnd_declaredCents h \<and> hnd_id h' = hnd_id h \<and>
    d' = d\<lparr>dsk_handovers := update_first (\<lambda>x. hnd_id x = i) (\<lambda>_. h') (dsk_handovers d)\<rparr>"
proof -
  obtain h where h: "find (\<lambda>h. hnd_id h = i) (dsk_handovers d) = Some h"
    using assms by (auto simp: receiveHandover_def split: option.splits)
  let ?h' = "h\<lparr>hnd_receivedCents := Some v, hnd_receiptActorUserId := Some (act_userId actor),
      hnd_receivedAt := Some (ValidDate t)\<rparr>"
  from assms have "hnd_receivedAt h = None" "assertHandoverReceipt ?h' = Inr ()"
    "d' = d\<lparr>dsk_handovers := update_first (\<lambda>x. hnd_id x = i) (\<lambda>_. ?h') (dsk_handovers d)\<rparr>"
    by (auto simp: receiveHandover_def h Let_def result_simps)
  with h receipt_ok show ?thesis by (intro exI [of _ h] exI [of _ ?h']) simp
qed

lemma releaseDrawer_ok:
  assumes "releaseDrawer actor t d = Inr d'"
  shows "csn_drawerReleasedAt (dsk_session d) = None \<and> dsk_declarations d \<noteq> [] \<and>
    (\<forall>h\<in>set (dsk_handovers d). hnd_receivedAt h \<noteq> None) \<and>
    d' = d\<lparr>dsk_session := (dsk_session d)\<lparr>csn_drawerReleasedAt := Some t\<rparr>\<rparr> \<and>
    (\<exists>r. latestCount (dsk_declarations d) = Some r \<and> cash_line_cents (cnr_lines r) =
       JsInt (\<Sum>h\<leftarrow>dsk_handovers d. cents_of (hnd_declaredCents h)))"
proof -
  obtain r u where r: "latestCount (dsk_declarations d) = Some r"
    and u: "assertCashFullyAllocated (cash_line_cents (cnr_lines r))
      (map allocation_of (dsk_handovers d)) = Inr u"
    using assms unfolding releaseDrawer_def
    by (auto simp: result_simps assertDrawerReleaseAllowed_def Let_def comp_def
        split: option.splits)
  have "cash_line_cents (cnr_lines r) = JsInt (\<Sum>h\<leftarrow>dsk_handovers d. cents_of (hnd_declaredCents h))"
    using allocated_ok(1) [OF u] by (simp add: comp_def allocation_of_def allocation_amount_def)
  with r assms show ?thesis unfolding releaseDrawer_def
    by (auto simp: result_simps all_received_def latestCount_def)
qed

lemma latestCount_mem: "latestCount rs = Some r \<Longrightarrow> r \<in> set rs"
proof -
  have "foldl newer b rs = Some r \<Longrightarrow> r \<in> set rs \<or> b = Some r" for b
  proof (induction rs arbitrary: b)
    case (Cons a rs)
    from Cons.IH [of "newer b a"] Cons.prems show ?case by (cases b) (auto split: if_splits)
  qed simp
  then show "latestCount rs = Some r \<Longrightarrow> r \<in> set rs" by (auto simp: latestCount_def)
qed

lemma amountByChannel_get:
  assumes "distinct (map ccl_channelKey ls)"
  shows "assoc_get (amountByChannel ls) k =
    map_option ccl_amountCents (find (\<lambda>l. ccl_channelKey l = k) ls)"
proof -
  have "amountByChannel ls = map (\<lambda>l. (ccl_channelKey l, ccl_amountCents l)) ls"
    using assms unfolding amountByChannel_def
  proof (induction ls rule: rev_induct)
    case (snoc l ls)
    then show ?case by (simp add: assoc_set_new image_image)
  qed simp
  then show ?thesis by (simp add: assoc_get_map)
qed

lemma createSnapshot_ok:
  assumes "createCashClosingSnapshot input = Inr s"
  shows "cls_expectedCents s = cli_expectedCents input \<and> cls_declaredCents s = cli_declaredCents input \<and>
    cls_verifiedCents s = cli_verifiedCents input \<and> cls_verifierUserId s = cli_verifierUserId input \<and>
    cls_channels s = cli_channels input \<and> cls_closedByUserId s = cli_closedByUserId input \<and>
    cls_openingCents s = csn_openingCents (cli_session input) \<and>
    cls_cashierUserId s = csn_cashierUserId (cli_session input) \<and>
    map snh_declaredCents (cls_handovers s) = map hnd_declaredCents (cli_handovers input) \<and>
    cls_countedAt s = date_time (cli_countedAt input)"
proof -
  obtain cs hs where cs: "mapM_list copyChannelLine (cli_channels input) = Inr cs"
    and hs: "mapM_list toSnapshotHandover (cli_handovers input) = Inr hs"
    and s: "cls_channels s = cs" "cls_handovers s = hs"
      "cls_expectedCents s = cli_expectedCents input" "cls_declaredCents s = cli_declaredCents input"
      "cls_verifiedCents s = cli_verifiedCents input" "cls_verifierUserId s = cli_verifierUserId input"
      "cls_closedByUserId s = cli_closedByUserId input"
      "cls_openingCents s = csn_openingCents (cli_session input)"
      "cls_cashierUserId s = csn_cashierUserId (cli_session input)"
      "cls_countedAt s = date_time (cli_countedAt input)"
    using assms unfolding createCashClosingSnapshot_def Let_def
    by (simp only: andThen_Inr) (elim exE conjE, rule that, assumption, assumption, auto)
  have "cs = map (\<lambda>c. c) (cli_channels input)"
    using cs by (rule mapM_list_map) (auto simp: copyChannelLine_def result_simps)
  moreover have "map snh_declaredCents hs = map hnd_declaredCents (cli_handovers input)"
    using hs unfolding mapM_list_Inr
    by (induction rule: list_all2_induct) (auto simp: toSnapshotHandover_def result_simps)
  ultimately show ?thesis using s by simp
qed

definition cut_line ::
  "count_line list \<Rightarrow> count_line list \<Rightarrow> expected_channel \<Rightarrow> snapshot_channel \<Rightarrow> bool" where
  "cut_line declared verified e c \<longleftrightarrow>
     snc_channelKey c = ech_channelKey e \<and> snc_expectedCents c = JsInt (ech_expectedCents e) \<and>
     snc_declaredCents c = or_default (assoc_get (amountByChannel declared) (ech_channelKey e)) (JsInt 0) \<and>
     snc_verifiedCents c = assoc_get (amountByChannel verified) (ech_channelKey e) \<and>
     snc_differenceCents c = JsInt (cents_of (snc_declaredCents c) - ech_expectedCents e)"

lemma buildClosingChannels_ok:
  "buildClosingChannels ex declared verified = Inr cs \<Longrightarrow>
     list_all2 (cut_line declared verified) (exs_channels ex) cs"
  unfolding buildClosingChannels_def mapM_list_Inr
  by (erule list_all2_mono)
    (auto simp: closing_channel_def cut_line_def Let_def result_simps cash_simps)

text \<open>What a stored closing says of the session it closed.\<close>

definition cut_of :: "cash_desk \<Rightarrow> closing_row \<Rightarrow> bool" where
  "cut_of d c \<longleftrightarrow>
     (\<exists>ex declaration verification.
        dsk_expected d = Some ex \<and> declaration \<in> set (dsk_declarations d) \<and>
        verification \<in> set (dsk_verifications d) \<and>
        cls_openingCents (clr_snapshot c) = csn_openingCents (dsk_session d) \<and>
        cls_expectedCents (clr_snapshot c) = JsInt (exs_cashExpectedCents ex) \<and>
        cls_declaredCents (clr_snapshot c) = cash_line_cents (cnr_lines declaration) \<and>
        cls_verifiedCents (clr_snapshot c) = Some (cash_line_cents (cnr_lines verification)) \<and>
        cls_verifierUserId (clr_snapshot c) = Some (cnr_actorUserId verification) \<and>
        cls_closedByUserId (clr_snapshot c) \<noteq> csn_cashierUserId (dsk_session d) \<and>
        cash_line_cents (cnr_lines declaration) =
          JsInt (\<Sum>h\<leftarrow>dsk_handovers d. cents_of (hnd_declaredCents h)) \<and>
        (\<forall>h\<in>set (dsk_handovers d). hnd_receivedAt h \<noteq> None) \<and>
        csn_drawerReleasedAt (dsk_session d) \<noteq> None \<and>
        list_all2 (cut_line (cnr_lines declaration) (cnr_lines verification)) (exs_channels ex)
          (cls_channels (clr_snapshot c)))"

lemma close_ok:
  assumes "close actor folio notes t d = Inr d'"
  shows "csn_status (dsk_session d) = SessionSubmitted \<and>
    (\<exists>c. cut_of d c \<and> d' = d\<lparr>dsk_session := (dsk_session d)\<lparr>csn_status := SessionClosed\<rparr>,
       dsk_closedAt := Some t, dsk_closing := Some c\<rparr>)"
proof -
  let ?s = "dsk_session d"
  have st: "csn_status ?s = SessionSubmitted" and ind: "csn_cashierUserId ?s \<noteq> act_userId actor"
    and rel: "csn_drawerReleasedAt ?s \<noteq> None"
    using assms unfolding close_def Let_def by (auto simp: result_simps cash_simps)
  obtain ex decl ver orig where rows: "dsk_expected d = Some ex"
      "latestCount (dsk_declarations d) = Some decl" "latestCount (dsk_verifications d) = Some ver"
      "find (\<lambda>r. cnr_revision r = 1) (dsk_declarations d) = Some orig"
    using assms unfolding close_def Let_def by (auto simp: result_simps split: option.splits)
  obtain u1 u2 cmp cs snap where recv: "all_received (dsk_handovers d)
      ''All handovers must be received before closing'' = Inr u1"
    and alloc: "assertCashFullyAllocated (cash_line_cents (cnr_lines decl))
      (map allocation_of (dsk_handovers d)) = Inr u2"
    and cs: "buildClosingChannels ex (cnr_lines decl) (cnr_lines ver) = Inr cs"
    and snap: "createCashClosingSnapshot
           \<lparr>cli_session = ?s\<lparr>csn_status := SessionClosed\<rparr>, cli_folio = folio,
            cli_expectedCents = JsInt (exs_cashExpectedCents ex),
            cli_declaredCents = cash_line_cents (cnr_lines decl),
            cli_verifiedCents = Some (cash_line_cents (cnr_lines ver)),
            cli_verifierUserId = Some (cnr_actorUserId ver), cli_channels = cs,
            cli_handovers = dsk_handovers d, cli_countedAt = ValidDate (cnr_createdAt orig),
            cli_verifiedAt = Some (ValidDate (cnr_createdAt ver)),
            cli_closedAt = ValidDate t, cli_closedByUserId = act_userId actor\<rparr> = Inr snap"
    and d': "d' = d\<lparr>dsk_session := ?s\<lparr>csn_status := SessionClosed\<rparr>, dsk_closedAt := Some t,
        dsk_closing := Some \<lparr>clr_folio = folio, clr_closedByUserId = act_userId actor,
          clr_snapshot = snap, clr_comparison = cmp, clr_declarationNotes = cnr_notes decl,
          clr_verificationNotes = cnr_notes ver, clr_closingNotes = notes\<rparr>\<rparr>"
    using assms unfolding close_def Let_def rows option.case
    by (simp only: andThen_Inr) (elim exE conjE, rule that, assumption, assumption, assumption, assumption, auto)
  note s = createSnapshot_ok [OF snap, simplified]
  have "cash_line_cents (cnr_lines decl) =
      JsInt (\<Sum>h\<leftarrow>dsk_handovers d. cents_of (hnd_declaredCents h))"
    using allocated_ok(1) [OF alloc] by (simp add: comp_def allocation_of_def allocation_amount_def)
  moreover have "\<forall>h\<in>set (dsk_handovers d). hnd_receivedAt h \<noteq> None"
    using recv by (auto simp: all_received_def result_simps)
  ultimately have "cut_of d \<lparr>clr_folio = folio, clr_closedByUserId = act_userId actor,
          clr_snapshot = snap, clr_comparison = cmp, clr_declarationNotes = cnr_notes decl,
          clr_verificationNotes = cnr_notes ver, clr_closingNotes = notes\<rparr>"
    unfolding cut_of_def
    using rows(1) latestCount_mem [OF rows(2)] latestCount_mem [OF rows(3)] ind rel s
      buildClosingChannels_ok [OF cs]
    by (intro exI [of _ ex] exI [of _ decl] exI [of _ ver]) simp
  with st d' show ?thesis by blast
qed

subsection \<open>The invariant\<close>

definition validated :: "(string \<Rightarrow> string) \<Rightarrow> expected_snapshot \<Rightarrow> count_line list \<Rightarrow> bool" where
  "validated collate ex ls \<longleftrightarrow>
     (\<exists>raw ds v. validateCashCount collate raw (required_keys ex) ds = Inr v \<and> ls = vcc_lines v)"

definition handed_over :: "cash_desk \<Rightarrow> int" where
  "handed_over d = (\<Sum>h\<leftarrow>dsk_handovers d. cents_of (hnd_declaredCents h))"

definition declared_cash :: "cash_desk \<Rightarrow> int" where
  "declared_cash d = cents_of (cash_line_cents (cnr_lines (hd (dsk_declarations d))))"

text \<open>The rows as far as the status says they exist.\<close>

definition stage_ok :: "cash_desk \<Rightarrow> bool" where
  "stage_ok d \<longleftrightarrow>
     (case csn_status (dsk_session d) of
        SessionOpen \<Rightarrow> csn_frozenAt (dsk_session d) = None \<and> dsk_declarations d = [] \<and>
          dsk_verifications d = [] \<and> dsk_handovers d = [] \<and> dsk_closing d = None
      | SessionCounting \<Rightarrow> dsk_declarations d = [] \<and> dsk_verifications d = [] \<and>
          dsk_handovers d = [] \<and> dsk_closing d = None
      | SessionSubmitted \<Rightarrow> dsk_declarations d \<noteq> [] \<and> dsk_closing d = None
      | SessionClosed \<Rightarrow> dsk_declarations d \<noteq> [] \<and> dsk_verifications d \<noteq> [] \<and>
          (\<exists>c. dsk_closing d = Some c \<and> cut_of d c)) \<and>
     (csn_drawerReleasedAt (dsk_session d) \<noteq> None \<longrightarrow> dsk_declarations d \<noteq> [])"

definition ledger_ok :: "cash_desk \<Rightarrow> bool" where
  "ledger_ok d \<longleftrightarrow> (\<forall>m\<in>set (recorded d). booked m) \<and> distinct (map source_of (recorded d)) \<and>
     (recorded d \<noteq> [] \<longrightarrow> in_storage (book_cash d))"

definition expected_ok :: "(string \<Rightarrow> string) \<Rightarrow> cash_desk \<Rightarrow> bool" where
  "expected_ok collate d \<longleftrightarrow> csn_status (dsk_session d) \<noteq> SessionOpen \<longrightarrow>
     (\<exists>ex t. dsk_expected d = Some ex \<and> csn_frozenAt (dsk_session d) = Some t \<and>
        buildExpectedSnapshot collate (csn_openingCents (dsk_session d)) (loadSessionMovements d) t =
          Inr ex)"

definition counts_ok :: "(string \<Rightarrow> string) \<Rightarrow> cash_desk \<Rightarrow> bool" where
  "counts_ok collate d \<longleftrightarrow>
     (\<forall>r\<in>set (dsk_declarations d). cnr_actorUserId r = csn_cashierUserId (dsk_session d) \<and>
        cnr_lines r = cnr_lines (hd (dsk_declarations d)) \<and>
        (\<exists>ex. dsk_expected d = Some ex \<and> validated collate ex (cnr_lines r))) \<and>
     (\<forall>r\<in>set (dsk_verifications d). cnr_actorUserId r \<noteq> csn_cashierUserId (dsk_session d) \<and>
        (\<exists>ex. dsk_expected d = Some ex \<and> validated collate ex (cnr_lines r)))"

definition custody_ok :: "cash_desk \<Rightarrow> bool" where
  "custody_ok d \<longleftrightarrow>
     (\<forall>h\<in>set (dsk_handovers d). hnd_senderUserId h = csn_cashierUserId (dsk_session d) \<and>
        (hnd_receivedAt h \<noteq> None \<longrightarrow> received_properly h)) \<and>
     (dsk_handovers d \<noteq> [] \<longrightarrow> handed_over d \<le> declared_cash d)"

definition desk_ok :: "(string \<Rightarrow> string) \<Rightarrow> cash_desk \<Rightarrow> bool" where
  "desk_ok collate d \<longleftrightarrow> stage_ok d \<and> ledger_ok d \<and> expected_ok collate d \<and> counts_ok collate d \<and>
     custody_ok d"

lemmas desk_parts = desk_ok_def stage_ok_def ledger_ok_def expected_ok_def counts_ok_def custody_ok_def

lemma add_allocated_sum:
  "loopR add_allocated s hs = Inr t \<Longrightarrow> t = s + (\<Sum>h\<leftarrow>hs. cents_of (hnd_declaredCents h))"
proof (induction hs arbitrary: s)
  case (Cons h hs)
  then obtain u where "add_allocated s h = Inr u" "loopR add_allocated u hs = Inr t"
    by (auto simp: result_simps)
  from Cons.IH [OF this(2)] this(1) show ?case by (simp add: add_allocated_def addCents_ok)
qed simp

lemma map_update_found:
  "find p xs = Some x \<Longrightarrow> g y = g x \<Longrightarrow> map g (update_first p (\<lambda>_. y) xs) = map g xs"
  by (induction xs) (auto split: if_splits)

text \<open>The frame of appending to the ledger.\<close>

lemma appends_desk:
  assumes "appends ms d d'"
  shows "dsk_session d' = dsk_session d" "dsk_expected d' = dsk_expected d"
    "dsk_declarations d' = dsk_declarations d" "dsk_verifications d' = dsk_verifications d"
    "dsk_handovers d' = dsk_handovers d" "dsk_closing d' = dsk_closing d"
    "recorded d' = recorded d @ ms" "csn_status (dsk_session d) = SessionOpen"
    "book_cash d' = book_cash d + (\<Sum>m\<leftarrow>ms. cash_delta m)"
  using assms by (auto simp: appends_def recorded_def book_cash_def)

lemma appends_ok:
  assumes a: "appends ms d d'" and ok: "desk_ok collate d"
  shows "desk_ok collate d'"
proof -
  note f = appends_desk [OF a]
  have "ledger_ok d'"
  proof -
    have "source_of ` set ms \<inter> source_of ` set (recorded d) = {}"
      using a by (simp add: appends_def recorded_def image_comp)
    moreover have "(\<forall>m\<in>set ms. booked m) \<and> distinct (map source_of ms) \<and>
        (ms \<noteq> [] \<longrightarrow> in_storage (book_cash d'))"
      using a by (simp add: appends_def)
    ultimately show ?thesis
      using ok f by (auto simp: desk_ok_def ledger_ok_def)
  qed
  moreover have open_rows: "csn_frozenAt (dsk_session d) = None" "dsk_declarations d = []"
    "dsk_verifications d = []" "dsk_handovers d = []" "dsk_closing d = None"
    "csn_drawerReleasedAt (dsk_session d) = None"
    using ok f(8) by (auto simp: desk_ok_def stage_ok_def)
  moreover have "stage_ok d'" by (simp add: stage_ok_def f open_rows)
  moreover have "expected_ok collate d' \<and> counts_ok collate d' \<and> custody_ok d'"
    by (simp add: expected_ok_def counts_ok_def custody_ok_def f open_rows)
  ultimately show ?thesis by (simp add: desk_ok_def)
qed

lemma startCount_desk:
  assumes s: "startCount collate actor t d = Inr d'" and ok: "desk_ok collate d"
  shows "desk_ok collate d'"
proof -
  obtain ex where st: "csn_status (dsk_session d) = SessionOpen"
    and ex: "buildExpectedSnapshot collate (csn_openingCents (dsk_session d))
        (loadSessionMovements d) t = Inr ex"
    and d': "d' = d\<lparr>dsk_session := (dsk_session d)\<lparr>csn_status := SessionCounting,
        csn_frozenAt := Some t\<rparr>, dsk_expected := Some ex\<rparr>"
    using startCount_ok [OF s] by blast
  have f: "csn_status (dsk_session d') = SessionCounting" "csn_frozenAt (dsk_session d') = Some t"
    "csn_openingCents (dsk_session d') = csn_openingCents (dsk_session d)"
    "csn_drawerReleasedAt (dsk_session d') = csn_drawerReleasedAt (dsk_session d)"
    "dsk_expected d' = Some ex" "dsk_declarations d' = dsk_declarations d"
    "dsk_verifications d' = dsk_verifications d" "dsk_handovers d' = dsk_handovers d"
    "dsk_closing d' = dsk_closing d" "recorded d' = recorded d" "book_cash d' = book_cash d"
    "loadSessionMovements d' = loadSessionMovements d"
    by (simp_all add: d' recorded_def book_cash_def loadSessionMovements_def)
  have rows: "dsk_declarations d = []" "dsk_verifications d = []" "dsk_handovers d = []"
    "dsk_closing d = None" "csn_drawerReleasedAt (dsk_session d) = None"
    using ok st by (auto simp: desk_ok_def stage_ok_def)
  have "ledger_ok d'" using ok by (simp add: desk_ok_def ledger_ok_def f)
  moreover have "stage_ok d'" by (simp add: stage_ok_def f rows)
  moreover have "expected_ok collate d'" using ex by (simp add: expected_ok_def f)
  moreover have "counts_ok collate d' \<and> custody_ok d'"
    by (simp add: counts_ok_def custody_ok_def f rows)
  ultimately show ?thesis by (simp add: desk_ok_def)
qed

lemma declare_desk:
  assumes s: "declare_count collate actor ls ds notes t d = Inr d'" and ok: "desk_ok collate d"
  shows "desk_ok collate d'"
proof -
  obtain ex v where st: "csn_status (dsk_session d) = SessionCounting"
    and own: "csn_cashierUserId (dsk_session d) = act_userId actor"
    and ex: "dsk_expected d = Some ex" "validateCashCount collate ls (required_keys ex) ds = Inr v"
    and d': "d' = d\<lparr>dsk_declarations :=
          [\<lparr>cnr_revision = 1, cnr_actorUserId = act_userId actor, cnr_lines = vcc_lines v,
            cnr_denominations = ds, cnr_notes = notes, cnr_createdAt = t\<rparr>],
        dsk_session := (dsk_session d)\<lparr>csn_status := SessionSubmitted\<rparr>,
        dsk_submittedAt := Some t\<rparr>"
    using declare_ok [OF s] by blast
  obtain r where r: "dsk_declarations d' = [r]" "cnr_actorUserId r = act_userId actor"
    "cnr_lines r = vcc_lines v"
    by (simp add: d')
  have f: "csn_status (dsk_session d') = SessionSubmitted"
    "csn_frozenAt (dsk_session d') = csn_frozenAt (dsk_session d)"
    "csn_openingCents (dsk_session d') = csn_openingCents (dsk_session d)"
    "csn_cashierUserId (dsk_session d') = csn_cashierUserId (dsk_session d)"
    "dsk_expected d' = dsk_expected d"
    "dsk_verifications d' = dsk_verifications d" "dsk_handovers d' = dsk_handovers d"
    "dsk_closing d' = dsk_closing d" "recorded d' = recorded d" "book_cash d' = book_cash d"
    "loadSessionMovements d' = loadSessionMovements d"
    by (simp_all add: d' recorded_def book_cash_def loadSessionMovements_def)
  have rows: "dsk_verifications d = []" "dsk_handovers d = []" "dsk_closing d = None"
    using ok st by (auto simp: desk_ok_def stage_ok_def)
  have "validated collate ex (vcc_lines v)" using ex(2) by (auto simp: validated_def)
  then have "counts_ok collate d'" by (simp add: counts_ok_def f rows r own ex(1))
  moreover have "ledger_ok d'" using ok by (simp add: desk_ok_def ledger_ok_def f)
  moreover have "stage_ok d'" by (simp add: stage_ok_def f rows r)
  moreover have "expected_ok collate d'" using ok st by (simp add: desk_ok_def expected_ok_def f)
  moreover have "custody_ok d'" by (simp add: custody_ok_def f rows)
  ultimately show ?thesis by (simp add: desk_ok_def)
qed

lemma annotate_desk:
  assumes s: "annotateDeclaration actor notes t d = Inr d'" and ok: "desk_ok collate d"
  shows "desk_ok collate d'"
proof -
  obtain r n where v: "dsk_verifications d = []" and notClosed: "csn_status (dsk_session d) \<noteq> SessionClosed"
    and own: "csn_cashierUserId (dsk_session d) = act_userId actor"
    and r: "latestCount (dsk_declarations d) = Some r"
    and d': "d' = d\<lparr>dsk_declarations := dsk_declarations d @
        [\<lparr>cnr_revision = cnr_revision r + 1, cnr_actorUserId = act_userId actor,
          cnr_lines = cnr_lines r, cnr_denominations = cnr_denominations r,
          cnr_notes = Some n, cnr_createdAt = t\<rparr>]\<rparr>"
    using annotate_ok [OF s] by blast
  note mem = latestCount_mem [OF r]
  then have ne: "dsk_declarations d \<noteq> []" by auto
  then have hd: "hd (dsk_declarations d') = hd (dsk_declarations d)" by (simp add: d')
  have same: "dsk_session d' = dsk_session d" "dsk_expected d' = dsk_expected d"
    "dsk_verifications d' = dsk_verifications d" "dsk_handovers d' = dsk_handovers d"
    "dsk_closing d' = dsk_closing d" "recorded d' = recorded d" "book_cash d' = book_cash d"
    "loadSessionMovements d' = loadSessionMovements d" "handed_over d' = handed_over d"
    "declared_cash d' = declared_cash d"
    using hd by (simp_all add: d' loadSessionMovements_def recorded_def book_cash_def handed_over_def
        declared_cash_def)
  have "stage_ok d'"
    using ok ne notClosed by (auto simp: desk_ok_def stage_ok_def same d' split: cash_session_status.splits)
  moreover have "counts_ok collate d'"
    using ok mem v own unfolding desk_ok_def counts_ok_def same hd by (auto simp: d')
  moreover have "ledger_ok d' \<and> expected_ok collate d' \<and> custody_ok d'"
    using ok by (simp add: desk_ok_def ledger_ok_def expected_ok_def custody_ok_def same)
  ultimately show ?thesis by (simp add: desk_ok_def)
qed

lemma verify_desk:
  assumes s: "verify collate actor ls ds notes t d = Inr d'" and ok: "desk_ok collate d"
  shows "desk_ok collate d'"
proof -
  obtain ex v where st: "csn_status (dsk_session d) = SessionSubmitted"
    and other: "csn_cashierUserId (dsk_session d) \<noteq> act_userId actor"
    and ex: "dsk_expected d = Some ex" "validateCashCount collate ls (required_keys ex) ds = Inr v"
    and d': "d' = d\<lparr>dsk_verifications :=
        [\<lparr>cnr_revision = 1, cnr_actorUserId = act_userId actor, cnr_lines = vcc_lines v,
          cnr_denominations = ds, cnr_notes = notes, cnr_createdAt = t\<rparr>]\<rparr>"
    using verify_ok [OF s] by blast
  have same: "dsk_session d' = dsk_session d" "dsk_expected d' = dsk_expected d"
    "dsk_declarations d' = dsk_declarations d" "dsk_handovers d' = dsk_handovers d"
    "dsk_closing d' = dsk_closing d" "recorded d' = recorded d" "book_cash d' = book_cash d"
    "loadSessionMovements d' = loadSessionMovements d" "handed_over d' = handed_over d"
    "declared_cash d' = declared_cash d"
    by (simp_all add: d' loadSessionMovements_def recorded_def book_cash_def handed_over_def
        declared_cash_def)
  have "validated collate ex (vcc_lines v)" using ex(2) by (auto simp: validated_def)
  then have "counts_ok collate d'"
    using ok other ex(1) unfolding desk_ok_def counts_ok_def same by (auto simp: d')
  moreover have "stage_ok d'" using ok st by (auto simp: desk_ok_def stage_ok_def same)
  moreover have "ledger_ok d' \<and> expected_ok collate d' \<and> custody_ok d'"
    using ok by (simp add: desk_ok_def ledger_ok_def expected_ok_def custody_ok_def same)
  ultimately show ?thesis by (simp add: desk_ok_def)
qed

lemma createHandover_desk:
  assumes s: "createHandover actor kind rcpt active member v uuid t d = Inr d'"
    and ok: "desk_ok collate d"
  shows "desk_ok collate d'"
proof -
  obtain h r u where st: "csn_status (dsk_session d) = SessionSubmitted"
    and own: "csn_cashierUserId (dsk_session d) = act_userId actor"
    and h: "hnd_senderUserId h = act_userId actor" "hnd_receivedAt h = None"
      "hnd_declaredCents h = JsInt (cents_of v)"
    and d': "d' = d\<lparr>dsk_handovers := dsk_handovers d @ [h]\<rparr>"
    and r: "latestCount (dsk_declarations d) = Some r"
    and u: "loopR add_allocated (cents_of v) (dsk_handovers d) = Inr u"
      "u \<le> cents_of (cash_line_cents (cnr_lines r))"
    using createHandover_ok [OF s] by blast
  have same: "dsk_session d' = dsk_session d" "dsk_expected d' = dsk_expected d"
    "dsk_declarations d' = dsk_declarations d" "dsk_verifications d' = dsk_verifications d"
    "dsk_closing d' = dsk_closing d" "recorded d' = recorded d" "book_cash d' = book_cash d"
    "loadSessionMovements d' = loadSessionMovements d" "declared_cash d' = declared_cash d"
    by (simp_all add: d' loadSessionMovements_def recorded_def book_cash_def declared_cash_def)
  have "cnr_lines r = cnr_lines (hd (dsk_declarations d))"
    using ok latestCount_mem [OF r] by (auto simp: desk_ok_def counts_ok_def)
  then have "handed_over d' \<le> declared_cash d"
    using u(2) add_allocated_sum [OF u(1)] by (simp add: d' handed_over_def declared_cash_def h)
  then have "custody_ok d'"
    using ok own h by (auto simp: desk_ok_def custody_ok_def same) (auto simp: d')
  moreover have "stage_ok d'" using ok st by (simp add: desk_ok_def stage_ok_def same)
  moreover have "ledger_ok d' \<and> expected_ok collate d' \<and> counts_ok collate d'"
    using ok unfolding desk_ok_def ledger_ok_def expected_ok_def counts_ok_def same by blast
  ultimately show ?thesis by (simp add: desk_ok_def)
qed

text \<open>Every handover of a closed session was received, so none can be received again.\<close>

lemma closed_rows:
  assumes "desk_ok collate d" and "csn_status (dsk_session d) = SessionClosed"
  shows "\<forall>h\<in>set (dsk_handovers d). hnd_receivedAt h \<noteq> None"
    and "csn_drawerReleasedAt (dsk_session d) \<noteq> None"
  using assms by (auto simp: desk_ok_def stage_ok_def cut_of_def)

lemma receiveHandover_desk:
  assumes s: "receiveHandover actor i v notes t d = Inr d'" and ok: "desk_ok collate d"
  shows "desk_ok collate d'"
proof -
  obtain h h' where h: "find (\<lambda>h. hnd_id h = i) (dsk_handovers d) = Some h" "hnd_receivedAt h = None"
    and h': "received_properly h'" "hnd_senderUserId h' = hnd_senderUserId h"
      "hnd_declaredCents h' = hnd_declaredCents h"
    and d': "d' = d\<lparr>dsk_handovers := update_first (\<lambda>x. hnd_id x = i) (\<lambda>_. h') (dsk_handovers d)\<rparr>"
    using receiveHandover_ok [OF s] by blast
  have mem: "h \<in> set (dsk_handovers d)" using find_SomeD [OF h(1)] by simp
  have same: "dsk_session d' = dsk_session d" "dsk_expected d' = dsk_expected d"
    "dsk_declarations d' = dsk_declarations d" "dsk_verifications d' = dsk_verifications d"
    "dsk_closing d' = dsk_closing d" "recorded d' = recorded d" "book_cash d' = book_cash d"
    "loadSessionMovements d' = loadSessionMovements d" "declared_cash d' = declared_cash d"
    by (simp_all add: d' loadSessionMovements_def recorded_def book_cash_def declared_cash_def)
  have "map hnd_declaredCents (dsk_handovers d') = map hnd_declaredCents (dsk_handovers d)"
    using map_update_found [OF h(1), of hnd_declaredCents h'] h' by (simp add: d')
  then have "map cents_of (map hnd_declaredCents (dsk_handovers d')) =
      map cents_of (map hnd_declaredCents (dsk_handovers d))" by simp
  then have sum: "handed_over d' = handed_over d"
    unfolding handed_over_def map_map comp_def by simp
  have hs: "set (dsk_handovers d') \<subseteq> insert h' (set (dsk_handovers d))"
    using set_update_first [of "\<lambda>x. hnd_id x = i" "\<lambda>_. h'" "dsk_handovers d"] by (auto simp: d')
  have ne: "dsk_handovers d \<noteq> []" using mem by auto
  have c: "(\<forall>h\<in>set (dsk_handovers d). hnd_senderUserId h = csn_cashierUserId (dsk_session d) \<and>
        (hnd_receivedAt h \<noteq> None \<longrightarrow> received_properly h)) \<and> handed_over d \<le> declared_cash d"
    using ok ne by (simp add: desk_ok_def custody_ok_def)
  with mem h' have new: "hnd_senderUserId h' = csn_cashierUserId (dsk_session d)" by simp
  have "custody_ok d'"
    unfolding custody_ok_def sum same using c hs h'(1) new by blast
  moreover have "csn_status (dsk_session d) \<noteq> SessionClosed"
    using closed_rows(1) [OF ok] mem h(2) by blast
  then have "stage_ok d'"
    using ok ne by (auto simp: desk_ok_def stage_ok_def same split: cash_session_status.splits)
  moreover have "ledger_ok d' \<and> expected_ok collate d' \<and> counts_ok collate d'"
    using ok unfolding desk_ok_def ledger_ok_def expected_ok_def counts_ok_def same by blast
  ultimately show ?thesis by (simp add: desk_ok_def)
qed

lemma releaseDrawer_desk:
  assumes s: "releaseDrawer actor t d = Inr d'" and ok: "desk_ok collate d"
  shows "desk_ok collate d'"
proof -
  have new: "csn_drawerReleasedAt (dsk_session d) = None" and ne: "dsk_declarations d \<noteq> []"
    and d': "d' = d\<lparr>dsk_session := (dsk_session d)\<lparr>csn_drawerReleasedAt := Some t\<rparr>\<rparr>"
    using releaseDrawer_ok [OF s] by auto
  have same: "csn_status (dsk_session d') = csn_status (dsk_session d)"
    "csn_frozenAt (dsk_session d') = csn_frozenAt (dsk_session d)"
    "csn_openingCents (dsk_session d') = csn_openingCents (dsk_session d)"
    "csn_cashierUserId (dsk_session d') = csn_cashierUserId (dsk_session d)"
    "dsk_expected d' = dsk_expected d"
    "dsk_declarations d' = dsk_declarations d" "dsk_verifications d' = dsk_verifications d"
    "dsk_handovers d' = dsk_handovers d"
    "dsk_closing d' = dsk_closing d" "recorded d' = recorded d" "book_cash d' = book_cash d"
    "loadSessionMovements d' = loadSessionMovements d" "declared_cash d' = declared_cash d"
    "handed_over d' = handed_over d"
    by (simp_all add: d' loadSessionMovements_def recorded_def book_cash_def declared_cash_def
        handed_over_def)
  have "csn_status (dsk_session d) \<noteq> SessionClosed"
    using closed_rows(2) [OF ok] new by auto
  then have "stage_ok d'"
    using ok ne unfolding desk_ok_def stage_ok_def same by (cases "csn_status (dsk_session d)") auto
  moreover have "ledger_ok d' \<and> expected_ok collate d' \<and> counts_ok collate d' \<and> custody_ok d'"
    using ok unfolding desk_ok_def ledger_ok_def expected_ok_def counts_ok_def custody_ok_def same
    by blast
  ultimately show ?thesis by (simp add: desk_ok_def)
qed

lemma close_desk:
  assumes s: "close actor folio notes t d = Inr d'" and ok: "desk_ok collate d"
  shows "desk_ok collate d'"
proof -
  obtain c where st: "csn_status (dsk_session d) = SessionSubmitted" and c: "cut_of d c"
    and d': "d' = d\<lparr>dsk_session := (dsk_session d)\<lparr>csn_status := SessionClosed\<rparr>,
       dsk_closedAt := Some t, dsk_closing := Some c\<rparr>"
    using close_ok [OF s] by blast
  have same: "csn_status (dsk_session d') = SessionClosed"
    "csn_frozenAt (dsk_session d') = csn_frozenAt (dsk_session d)"
    "csn_drawerReleasedAt (dsk_session d') = csn_drawerReleasedAt (dsk_session d)"
    "csn_openingCents (dsk_session d') = csn_openingCents (dsk_session d)"
    "csn_cashierUserId (dsk_session d') = csn_cashierUserId (dsk_session d)"
    "dsk_expected d' = dsk_expected d" "dsk_closing d' = Some c"
    "dsk_declarations d' = dsk_declarations d" "dsk_verifications d' = dsk_verifications d"
    "dsk_handovers d' = dsk_handovers d" "recorded d' = recorded d" "book_cash d' = book_cash d"
    "loadSessionMovements d' = loadSessionMovements d" "declared_cash d' = declared_cash d"
    "handed_over d' = handed_over d"
    by (simp_all add: d' loadSessionMovements_def recorded_def book_cash_def declared_cash_def
        handed_over_def)
  have st': "csn_status (dsk_session d) \<noteq> SessionOpen" using st by simp
  have "cut_of d' c = cut_of d c" unfolding cut_of_def same ..
  moreover have "dsk_declarations d \<noteq> []" "dsk_verifications d \<noteq> []"
    using c by (auto simp: cut_of_def)
  ultimately have "stage_ok d'" using c by (simp add: stage_ok_def same)
  moreover have "ledger_ok d' \<and> expected_ok collate d' \<and> counts_ok collate d' \<and> custody_ok d'"
    using ok st' unfolding desk_ok_def ledger_ok_def expected_ok_def counts_ok_def custody_ok_def same
    by blast
  ultimately show ?thesis by (simp add: desk_ok_def)
qed

lemma desk_step_ok: "desk_step collate elsewhere d d' \<Longrightarrow> desk_ok collate d \<Longrightarrow> desk_ok collate d'"
  by (induction rule: desk_step.induct)
    (blast dest: recordPayments_ok recordRefund_ok manualMovement_ok
      intro: appends_ok startCount_desk declare_desk annotate_desk verify_desk
        createHandover_desk receiveHandover_desk releaseDrawer_desk close_desk)+

interpretation desk: step_invariant "desk_step collate elsewhere" "desk_ok collate"
  by unfold_locales (rule desk_step_ok)

subsection \<open>The lifecycle\<close>

definition desk_phase :: "cash_desk \<Rightarrow> nat" where
  "desk_phase d = status_index (csn_status (dsk_session d))"

text \<open>What freezes when the count starts: the ledger, the snapshot, and the session's terms.\<close>

definition frozen_books ::
  "cash_desk \<Rightarrow> ledger_row list \<times> expected_snapshot option \<times> timestamp option \<times> int \<times> ident" where
  "frozen_books d = (dsk_ledger d, dsk_expected d, csn_frozenAt (dsk_session d),
     csn_openingCents (dsk_session d), csn_cashierUserId (dsk_session d))"

text \<open>What every accepted handler does to the phase and to the frozen parts.\<close>

lemma appends_frame:
  "appends ms d d' \<Longrightarrow> desk_phase d = 0 \<and> desk_phase d' = 0 \<and>
     dsk_declarations d' = dsk_declarations d"
  using appends_desk [of ms d d'] by (simp add: desk_phase_def)

lemma desk_step_frame:
  "desk_step collate elsewhere d d' \<Longrightarrow> desk_phase d \<le> desk_phase d' \<and>
     (1 \<le> desk_phase d \<longrightarrow> frozen_books d' = frozen_books d) \<and>
     (2 \<le> desk_phase d \<longrightarrow> dsk_declarations d \<noteq> [] \<longrightarrow>
        hd (dsk_declarations d') = hd (dsk_declarations d))"
proof (induction rule: desk_step.induct)
  case Payments
  then show ?case by (auto dest!: recordPayments_ok appends_frame)
next
  case Refund
  then show ?case by (auto dest!: recordRefund_ok appends_frame)
next
  case Manual
  then show ?case by (auto dest!: manualMovement_ok appends_frame)
next
  case StartCount
  from startCount_ok [OF StartCount] show ?case by (auto simp: desk_phase_def)
next
  case Declare
  from declare_ok [OF Declare] show ?case by (auto simp: desk_phase_def frozen_books_def)
next
  case Annotate
  from annotate_ok [OF Annotate] show ?case by (auto simp: desk_phase_def frozen_books_def)
next
  case Verify
  from verify_ok [OF Verify] show ?case by (auto simp: desk_phase_def frozen_books_def)
next
  case CreateHandover
  from createHandover_ok [OF CreateHandover] show ?case
    by (auto simp: desk_phase_def frozen_books_def)
next
  case ReceiveHandover
  from receiveHandover_ok [OF ReceiveHandover] show ?case
    by (auto simp: desk_phase_def frozen_books_def)
next
  case ReleaseDrawer
  from releaseDrawer_ok [OF ReleaseDrawer] show ?case
    by (auto simp: desk_phase_def frozen_books_def)
next
  case Close
  from close_ok [OF Close] show ?case by (auto simp: desk_phase_def frozen_books_def)
qed

interpretation desk: frozen_lifecycle "desk_step collate elsewhere" desk_phase frozen_books 1
  by unfold_locales (use desk_step_frame in blast)+

subsection \<open>What a step keeps\<close>

text \<open>The terms a session was opened on.\<close>

definition session_terms :: "cash_desk \<Rightarrow> ident \<times> ident \<times> ident \<times> int" where
  "session_terms d = (csn_id (dsk_session d), csn_registerId (dsk_session d),
     csn_cashierUserId (dsk_session d), csn_openingCents (dsk_session d))"

definition received_handovers :: "cash_desk \<Rightarrow> handover set" where
  "received_handovers d = {h \<in> set (dsk_handovers d). hnd_receivedAt h \<noteq> None}"

definition keeps :: "(cash_source_type \<times> ident) set \<Rightarrow> cash_desk \<Rightarrow> cash_desk \<Rightarrow> bool" where
  "keeps elsewhere d d' \<longleftrightarrow> session_terms d' = session_terms d \<and>
     (csn_drawerReleasedAt (dsk_session d) \<noteq> None \<longrightarrow> csn_drawerReleasedAt (dsk_session d') \<noteq> None) \<and>
     received_handovers d \<subseteq> received_handovers d' \<and>
     (\<exists>ms. recorded d' = recorded d @ ms \<and> source_of ` set ms \<inter> elsewhere = {})"

lemma keeps_append:
  assumes "source_of ` set ms \<inter> elsewhere = {}"
    and "\<exists>rows. map ldr_movement rows = ms \<and> d' = d\<lparr>dsk_ledger := dsk_ledger d @ rows\<rparr>"
  shows "keeps elsewhere d d'"
  using assms by (auto simp: keeps_def session_terms_def received_handovers_def recorded_def)

lemma keeps_same_ledger:
  assumes "dsk_ledger d' = dsk_ledger d" and "session_terms d' = session_terms d"
    and "csn_drawerReleasedAt (dsk_session d) \<noteq> None \<Longrightarrow> csn_drawerReleasedAt (dsk_session d') \<noteq> None"
    and "received_handovers d \<subseteq> received_handovers d'"
  shows "keeps elsewhere d d'"
  using assms by (auto simp: keeps_def recorded_def)

lemma persist_keeps:
  assumes "persistLedgerMovements actor elsewhere ms t d = Inr d'"
  shows "keeps elsewhere d d'"
proof (rule keeps_append)
  show "source_of ` set ms \<inter> elsewhere = {}"
    using assms unfolding persistLedgerMovements_def by (auto simp: result_simps)
qed (rule persist_ok(1) [OF assms])

lemma ledger_keeps:
  "recordPayments actor elsewhere saleId ps change t d = Inr d' \<Longrightarrow> keeps elsewhere d d'"
  "recordRefund actor elsewhere settlementId amount method t d = Inr d' \<Longrightarrow> keeps elsewhere d d'"
proof -
  assume "recordPayments actor elsewhere saleId ps change t d = Inr d'"
  then obtain ms where "d' = d \<or> persistLedgerMovements actor elsewhere ms t d = Inr d'"
    unfolding recordPayments_def by (auto simp: result_simps split: if_splits)
  then show "keeps elsewhere d d'"
    by (auto intro: persist_keeps keeps_same_ledger)
next
  assume "recordRefund actor elsewhere settlementId amount method t d = Inr d'"
  then obtain m where "persistLedgerMovements actor elsewhere [m] t d = Inr d'"
    unfolding recordRefund_def Let_def by (auto simp: result_simps)
  then show "keeps elsewhere d d'" by (rule persist_keeps)
qed

lemma manual_keeps:
  assumes "manualMovement actor elsewhere cash_in v reason uuid t d = Inr d'"
  shows "keeps elsewhere d d'"
proof -
  obtain m where fresh: "source_of m \<notin> elsewhere \<union> (source_of \<circ> ldr_movement) ` set (dsk_ledger d)"
    and d': "d' = d\<lparr>dsk_ledger := dsk_ledger d @
      [\<lparr>ldr_movement = m, ldr_actorUserId = act_userId actor, ldr_occurredAt = t\<rparr>]\<rparr>"
    using assms unfolding manualMovement_def Let_def andThen_Inr throw_if_Inr by blast
  show ?thesis
  proof (rule keeps_append)
    show "source_of ` set [m] \<inter> elsewhere = {}" using fresh by simp
  qed (intro exI [of _ "[\<lparr>ldr_movement = m, ldr_actorUserId = act_userId actor,
      ldr_occurredAt = t\<rparr>]"], simp add: d')
qed

lemma receive_keeps:
  assumes "receiveHandover actor i v notes t d = Inr d'"
  shows "keeps elsewhere d d'"
proof -
  obtain h h' where h: "find (\<lambda>h. hnd_id h = i) (dsk_handovers d) = Some h" "hnd_receivedAt h = None"
    and d': "d' = d\<lparr>dsk_handovers := update_first (\<lambda>x. hnd_id x = i) (\<lambda>_. h') (dsk_handovers d)\<rparr>"
    using receiveHandover_ok [OF assms] by blast
  have "find p xs = Some x \<Longrightarrow> Q y \<Longrightarrow> \<not> Q x \<Longrightarrow> y \<in> set xs \<Longrightarrow> y \<in> set (update_first p (\<lambda>_. z) xs)"
    for p Q x y z and xs :: "handover list"
    by (induction xs) (auto split: if_splits)
  from this [of _ _ h "\<lambda>h. hnd_receivedAt h \<noteq> None"] h
  have "received_handovers d \<subseteq> received_handovers d'"
    unfolding received_handovers_def d' by auto
  then show ?thesis by (intro keeps_same_ledger) (simp_all add: d' session_terms_def)
qed

lemma desk_step_keeps: "desk_step collate elsewhere d d' \<Longrightarrow> keeps elsewhere d d'"
proof (induction rule: desk_step.induct)
  case StartCount
  from startCount_ok [OF this] show ?case
    by (auto intro!: keeps_same_ledger simp: session_terms_def received_handovers_def)
next
  case Declare
  from declare_ok [OF this] show ?case
    by (auto intro!: keeps_same_ledger simp: session_terms_def received_handovers_def)
next
  case Annotate
  from annotate_ok [OF this] show ?case
    by (auto intro!: keeps_same_ledger simp: session_terms_def received_handovers_def)
next
  case Verify
  from verify_ok [OF this] show ?case
    by (auto intro!: keeps_same_ledger simp: session_terms_def received_handovers_def)
next
  case CreateHandover
  from createHandover_ok [OF this] show ?case
    by (auto intro!: keeps_same_ledger simp: session_terms_def received_handovers_def)
next
  case ReleaseDrawer
  from releaseDrawer_ok [OF this] show ?case
    by (auto intro!: keeps_same_ledger simp: session_terms_def received_handovers_def)
next
  case Close
  from close_ok [OF this] show ?case
    by (auto intro!: keeps_same_ledger simp: session_terms_def received_handovers_def)
qed (rule ledger_keeps manual_keeps receive_keeps; assumption)+

end
