(* ===== verification/CashTill.thy ===== *)
theory CashTill
  imports CashLaws
begin

section \<open>A cash session as a till\<close>

text \<open>
  The abstract machine a session implements: a balance that only moves while the till
  is open, one declared amount, allocations that never exceed it, a release once all of
  it is handed over, and a closing after the release.  Every accepted handler of the
  session is a step of the till or leaves it alone.
\<close>

record till =
  til_phase :: nat
  til_balance :: int
  til_declared :: int
  til_promised :: int
  til_released :: bool

inductive till_step :: "till \<Rightarrow> till \<Rightarrow> bool" where
  TillPost: "\<lbrakk>til_phase t = 0; in_storage (til_balance t + x)\<rbrakk> \<Longrightarrow>
    till_step t (t\<lparr>til_balance := til_balance t + x\<rparr>)"
| TillFreeze: "til_phase t = 0 \<Longrightarrow> till_step t (t\<lparr>til_phase := 1\<rparr>)"
| TillDeclare: "\<lbrakk>til_phase t = 1; 0 \<le> x; in_storage x\<rbrakk> \<Longrightarrow>
    till_step t (t\<lparr>til_phase := 2, til_declared := x\<rparr>)"
| TillAllocate: "\<lbrakk>til_phase t = 2; 0 \<le> x; til_promised t + x \<le> til_declared t\<rbrakk> \<Longrightarrow>
    till_step t (t\<lparr>til_promised := til_promised t + x\<rparr>)"
| TillRelease: "\<lbrakk>til_phase t = 2; \<not> til_released t; til_promised t = til_declared t\<rbrakk> \<Longrightarrow>
    till_step t (t\<lparr>til_released := True\<rparr>)"
| TillClose: "\<lbrakk>til_phase t = 2; til_released t; til_promised t = til_declared t\<rbrakk> \<Longrightarrow>
    till_step t (t\<lparr>til_phase := 3\<rparr>)"

definition till_of :: "cash_desk \<Rightarrow> till" where
  "till_of d = \<lparr>til_phase = desk_phase d, til_balance = book_cash d,
     til_declared = (if desk_phase d < 2 then 0 else declared_cash d), til_promised = handed_over d,
     til_released = (csn_drawerReleasedAt (dsk_session d) \<noteq> None)\<rparr>"

lemma validated_cash:
  assumes "validated collate ex ls"
  shows "0 \<le> cents_of (cash_line_cents ls)" "in_storage (cents_of (cash_line_cents ls))"
proof -
  from assms obtain raw ds v where v: "validateCashCount collate raw (required_keys ex) ds = Inr v"
    and ls: "ls = vcc_lines v" by (auto simp: validated_def)
  note ok = validateCashCount_spec(5) [OF v, folded ls]
  show "0 \<le> cents_of (cash_line_cents ls)" "in_storage (cents_of (cash_line_cents ls))"
    using ok by (auto simp: cash_line_cents_def amount_ok_def line_amount_def in_storage_bounds
        dest!: find_SomeD split: option.splits)
qed

lemma latest_declaration:
  assumes "desk_ok collate d" and "latestCount (dsk_declarations d) = Some r"
  shows "cash_line_cents (cnr_lines r) = cash_line_cents (cnr_lines (hd (dsk_declarations d)))"
  using assms(1) latestCount_mem [OF assms(2)] by (auto simp: desk_ok_def counts_ok_def)

lemma till_appends: "appends ms d d' \<Longrightarrow> desk_ok collate d \<Longrightarrow>
    till_step (till_of d) (till_of d') \<or> till_of d' = till_of d"
proof -
  assume a: "appends ms d d'" and ok: "desk_ok collate d"
  note f = appends_desk [OF a]
  have ph: "desk_phase d = 0" "desk_phase d' = 0" using appends_frame [OF a] by simp_all
  let ?x = "\<Sum>m\<leftarrow>ms. cash_delta m"
  have t: "till_of d' = (till_of d)\<lparr>til_balance := til_balance (till_of d) + ?x\<rparr>"
    by (simp add: till_of_def ph f handed_over_def)
  show "till_step (till_of d) (till_of d') \<or> till_of d' = till_of d"
  proof (cases "ms = []")
    case True
    then show ?thesis using t by simp
  next
    case False
    with a have "in_storage (book_cash d + ?x)" by (simp add: appends_def f(9) [symmetric])
    then have "till_step (till_of d) ((till_of d)\<lparr>til_balance := til_balance (till_of d) + ?x\<rparr>)"
      by (intro TillPost) (simp_all add: till_of_def ph)
    with t show ?thesis by simp
  qed
qed

lemma till_startCount:
  assumes "startCount collate actor t d = Inr d'"
  shows "till_step (till_of d) (till_of d')"
proof -
  have eq: "till_of d' = (till_of d)\<lparr>til_phase := 1\<rparr>" and "til_phase (till_of d) = 0"
    using startCount_ok [OF assms]
    by (auto simp: till_of_def desk_phase_def book_cash_def recorded_def handed_over_def)
  then show ?thesis unfolding eq by (intro TillFreeze)
qed

lemma till_declare:
  assumes s: "declare_count collate actor ls ds notes t d = Inr d'"
  shows "till_step (till_of d) (till_of d')"
proof -
  obtain ex v where v: "validateCashCount collate ls (required_keys ex) ds = Inr v"
    and d: "csn_status (dsk_session d) = SessionCounting"
    and d': "d' = d\<lparr>dsk_declarations :=
          [\<lparr>cnr_revision = 1, cnr_actorUserId = act_userId actor, cnr_lines = vcc_lines v,
            cnr_denominations = ds, cnr_notes = notes, cnr_createdAt = t\<rparr>],
        dsk_session := (dsk_session d)\<lparr>csn_status := SessionSubmitted\<rparr>,
        dsk_submittedAt := Some t\<rparr>"
    using declare_ok [OF s] by blast
  let ?x = "cents_of (cash_line_cents (vcc_lines v))"
  have "till_of d' = (till_of d)\<lparr>til_phase := 2, til_declared := ?x\<rparr>" "til_phase (till_of d) = 1"
    by (simp_all add: d' d till_of_def desk_phase_def book_cash_def recorded_def handed_over_def
        declared_cash_def)
  moreover have "validated collate ex (vcc_lines v)" using v by (auto simp: validated_def)
  ultimately show ?thesis by (simp add: TillDeclare validated_cash)
qed

lemma till_createHandover:
  assumes s: "createHandover actor kind rcpt active member v uuid t d = Inr d'"
    and ok: "desk_ok collate d"
  shows "till_step (till_of d) (till_of d')"
proof -
  obtain h r u where st: "csn_status (dsk_session d) = SessionSubmitted"
    and h: "hnd_declaredCents h = JsInt (cents_of v)" and pos: "0 \<le> cents_of v"
    and d': "d' = d\<lparr>dsk_handovers := dsk_handovers d @ [h]\<rparr>"
    and r: "latestCount (dsk_declarations d) = Some r"
    and u: "loopR add_allocated (cents_of v) (dsk_handovers d) = Inr u"
      "u \<le> cents_of (cash_line_cents (cnr_lines r))"
    using createHandover_ok [OF s] by blast
  have eq: "till_of d' = (till_of d)\<lparr>til_promised := til_promised (till_of d) + cents_of v\<rparr>"
    by (simp add: d' h till_of_def desk_phase_def book_cash_def recorded_def handed_over_def
        declared_cash_def)
  have "til_promised (till_of d) + cents_of v \<le> til_declared (till_of d)"
    using add_allocated_sum [OF u(1)] u(2) latest_declaration [OF ok r]
    by (simp add: till_of_def desk_phase_def st handed_over_def declared_cash_def)
  moreover have "til_phase (till_of d) = 2" by (simp add: till_of_def desk_phase_def st)
  ultimately show ?thesis unfolding eq using pos by (intro TillAllocate)
qed

lemma till_receiveHandover:
  assumes s: "receiveHandover actor i v notes t d = Inr d'"
  shows "till_of d' = till_of d"
proof -
  obtain h h' where h: "find (\<lambda>h. hnd_id h = i) (dsk_handovers d) = Some h"
    and h': "hnd_declaredCents h' = hnd_declaredCents h"
    and d': "d' = d\<lparr>dsk_handovers := update_first (\<lambda>x. hnd_id x = i) (\<lambda>_. h') (dsk_handovers d)\<rparr>"
    using receiveHandover_ok [OF s] by blast
  have "handed_over d' = handed_over d"
    unfolding handed_over_def d'
    using map_update_found [OF h, of "\<lambda>h. cents_of (hnd_declaredCents h)" h'] h' by simp
  then show ?thesis
    by (simp add: d' till_of_def desk_phase_def book_cash_def recorded_def declared_cash_def)
qed

lemma till_releaseDrawer:
  assumes s: "releaseDrawer actor t d = Inr d'" and ok: "desk_ok collate d"
  shows "till_step (till_of d) (till_of d')"
proof -
  obtain r where new: "csn_drawerReleasedAt (dsk_session d) = None" and ne: "dsk_declarations d \<noteq> []"
    and d': "d' = d\<lparr>dsk_session := (dsk_session d)\<lparr>csn_drawerReleasedAt := Some t\<rparr>\<rparr>"
    and r: "latestCount (dsk_declarations d) = Some r"
    and sum: "cash_line_cents (cnr_lines r) =
      JsInt (\<Sum>h\<leftarrow>dsk_handovers d. cents_of (hnd_declaredCents h))"
    using releaseDrawer_ok [OF s] by blast
  have st: "csn_status (dsk_session d) = SessionSubmitted"
    using ok ne closed_rows(2) [OF ok] new
    by (cases "csn_status (dsk_session d)") (auto simp: desk_ok_def stage_ok_def)
  have eq: "till_of d' = (till_of d)\<lparr>til_released := True\<rparr>"
    by (simp add: d' till_of_def desk_phase_def book_cash_def recorded_def handed_over_def
        declared_cash_def)
  have "til_promised (till_of d) = til_declared (till_of d)"
    using sum latest_declaration [OF ok r]
    by (simp add: till_of_def desk_phase_def st handed_over_def declared_cash_def)
  moreover have "til_phase (till_of d) = 2" "\<not> til_released (till_of d)"
    by (simp_all add: till_of_def desk_phase_def st new)
  ultimately show ?thesis unfolding eq by (intro TillRelease)
qed

lemma till_close:
  assumes s: "close actor folio notes t d = Inr d'" and ok: "desk_ok collate d"
  shows "till_step (till_of d) (till_of d')"
proof -
  obtain c where st: "csn_status (dsk_session d) = SessionSubmitted" and c: "cut_of d c"
    and d': "d' = d\<lparr>dsk_session := (dsk_session d)\<lparr>csn_status := SessionClosed\<rparr>,
       dsk_closedAt := Some t, dsk_closing := Some c\<rparr>"
    using close_ok [OF s] by blast
  obtain r where r: "r \<in> set (dsk_declarations d)" and rel: "csn_drawerReleasedAt (dsk_session d) \<noteq> None"
    and sum: "cash_line_cents (cnr_lines r) =
      JsInt (\<Sum>h\<leftarrow>dsk_handovers d. cents_of (hnd_declaredCents h))"
    using c unfolding cut_of_def by blast
  have "cnr_lines r = cnr_lines (hd (dsk_declarations d))"
    using ok r by (simp add: desk_ok_def counts_ok_def)
  then have "til_promised (till_of d) = til_declared (till_of d)"
    using sum by (simp add: till_of_def desk_phase_def st handed_over_def declared_cash_def)
  moreover have eq: "till_of d' = (till_of d)\<lparr>til_phase := 3\<rparr>"
    by (simp add: d' st till_of_def desk_phase_def book_cash_def recorded_def handed_over_def
        declared_cash_def)
  moreover have "til_phase (till_of d) = 2" "til_released (till_of d)"
    using rel by (simp_all add: till_of_def desk_phase_def st)
  ultimately show ?thesis unfolding eq by (intro TillClose)
qed

lemma till_same:
  "annotateDeclaration actor notes t d = Inr d' \<Longrightarrow> till_of d' = till_of d"
  "verify collate actor ls ds notes t d = Inr d' \<Longrightarrow> till_of d' = till_of d"
proof -
  assume "annotateDeclaration actor notes t d = Inr d'"
  from annotate_ok [OF this] show "till_of d' = till_of d"
    by (auto simp: till_of_def desk_phase_def book_cash_def recorded_def handed_over_def
        declared_cash_def hd_append dest!: latestCount_mem)
next
  assume "verify collate actor ls ds notes t d = Inr d'"
  from verify_ok [OF this] show "till_of d' = till_of d"
    by (auto simp: till_of_def desk_phase_def book_cash_def recorded_def handed_over_def
        declared_cash_def)
qed

lemma desk_step_till:
  "desk_step collate elsewhere d d' \<Longrightarrow> desk_ok collate d \<Longrightarrow>
     till_step (till_of d) (till_of d') \<or> till_of d' = till_of d"
proof (induction rule: desk_step.induct)
  case Payments
  then show ?case by (blast dest: recordPayments_ok till_appends)
next
  case Refund
  then show ?case by (blast dest: recordRefund_ok till_appends)
next
  case Manual
  then show ?case by (blast dest: manualMovement_ok till_appends)
next
  case StartCount
  from till_startCount [OF this(1)] show ?case ..
next
  case Declare
  from till_declare [OF this(1)] show ?case ..
next
  case Annotate
  from till_same(1) [OF this(1)] show ?case ..
next
  case Verify
  from till_same(2) [OF this(1)] show ?case ..
next
  case CreateHandover
  from till_createHandover [OF this] show ?case ..
next
  case ReceiveHandover
  from till_receiveHandover [OF this(1)] show ?case ..
next
  case ReleaseDrawer
  from till_releaseDrawer [OF this] show ?case ..
next
  case Close
  from till_close [OF this] show ?case ..
qed

end
