(* ===== verification/CashTenant.thy ===== *)
theory CashTenant
  imports CashClosing
begin

section \<open>Cash register: the tenant's registers and sessions\<close>

text \<open>
  The commands that work across sessions: \<open>cash-adapter-registers.ts\<close>,
  \<open>cash-adapter-opening.ts\<close>, the replay rechecks of \<open>cash-adapter-instances.ts\<close>
  and the facade \<open>prisma-cash-register.ts\<close> of
  \<open>src/src/cash-register/infrastructure\<close>.  The tables of one tenant are a record;
  a command runs in one transaction under the idempotency lock, so it is a function
  from the tables to the tables or to the error that rolls it back.

  Arguments, because they are not under \<open>src/\<close>: the user and membership tables and
  the permission check (in \<open>cash_actor\<close>), generated identifiers and folios, the
  clock, and the SHA-256 of a request.  The JSON text of an answer is an argument too;
  of a document only the session's identifier is kept, which a replay reads.
\<close>

subsection \<open>Tables\<close>

record cash_register =
  crg_id :: ident
  crg_name :: string
  crg_isActive :: bool

record tenant_session =
  tss_desk :: cash_desk
  tss_openingHandoverId :: "ident option"

datatype cash_command =
    CreateRegister string
  | UpdateRegister ident "string option" "bool option"
  | OpenSession ident js_number "ident option" bool
  | CashInOut bool ident js_number string
  | StartCount ident
  | DeclareCount ident "count_line list" "denomination_line list option" "string option"
  | VerifyCount ident "count_line list" "denomination_line list option" "string option"
  | AnnotateDeclaration ident string
  | CreateHandover ident handover_kind ident js_number
  | ReceiveHandover ident js_number "string option"
  | ReleaseDrawer ident
  | CloseSession ident "string option"

record cash_document =
  cdc_session :: "ident option"
  cdc_body :: string

record command_row =
  cmr_key :: string
  cmr_requestHash :: string
  cmr_response :: cash_document

record cash_tenant =
  ctn_registers :: "cash_register list"
  ctn_sessions :: "tenant_session list"
  ctn_commands :: "command_row list"

text \<open>What a call finds outside: who acts, whether the named recipient may receive, the clock.\<close>

record cash_env =
  cev_actor :: cash_actor
  cev_coarse :: "string \<Rightarrow> string \<Rightarrow> bool"
  cev_recipientActive :: bool
  cev_recipientMember :: bool
  cev_uuid :: ident
  cev_folio :: string
  cev_now :: timestamp

fun command_kind :: "cash_command \<Rightarrow> cash_command_kind" where
  "command_kind (CreateRegister _) = CmdCreateRegister"
| "command_kind (UpdateRegister _ _ _) = CmdUpdateRegister"
| "command_kind (OpenSession _ _ _ _) = CmdOpenSession"
| "command_kind (CashInOut cash_in _ _ _) = (if cash_in then CmdCashIn else CmdCashOut)"
| "command_kind (StartCount _) = CmdStartCount"
| "command_kind (DeclareCount _ _ _ _) = CmdDeclare"
| "command_kind (VerifyCount _ _ _ _) = CmdVerify"
| "command_kind (AnnotateDeclaration _ _) = CmdAnnotateDeclaration"
| "command_kind (CreateHandover _ _ _ _) = CmdCreateHandover"
| "command_kind (ReceiveHandover _ _ _) = CmdReceiveHandover"
| "command_kind (ReleaseDrawer _) = CmdReleaseDrawer"
| "command_kind (CloseSession _ _) = CmdClose"

abbreviation session_of :: "tenant_session \<Rightarrow> cash_session" where
  "session_of s \<equiv> dsk_session (tss_desk s)"

definition find_register :: "cash_tenant \<Rightarrow> ident \<Rightarrow> cash_register option" where
  "find_register st i = find (\<lambda>r. crg_id r = i) (ctn_registers st)"

definition find_session :: "cash_tenant \<Rightarrow> ident \<Rightarrow> tenant_session option" where
  "find_session st i = find (\<lambda>s. csn_id (session_of s) = i) (ctn_sessions st)"

definition all_handovers :: "cash_tenant \<Rightarrow> handover list" where
  "all_handovers st = concat (map (\<lambda>s. dsk_handovers (tss_desk s)) (ctn_sessions st))"

definition find_handover :: "cash_tenant \<Rightarrow> ident \<Rightarrow> handover option" where
  "find_handover st i = find (\<lambda>h. hnd_id h = i) (all_handovers st)"

subsection \<open>Registers\<close>

definition name_conflict :: domain_error where
  "name_conflict = cash_violation ''CASH_REGISTER_NAME_CONFLICT''
     ''A cash register with that name already exists in this tenant''"

definition register_not_found :: domain_error where
  "register_not_found = cash_violation ''CASH_REGISTER_NOT_FOUND'' ''Cash register not found''"

definition createRegister :: "cash_env \<Rightarrow> string \<Rightarrow> cash_tenant \<Rightarrow> cash_tenant result" where
  "createRegister env name st =
     andThen (assertCommandAbility (cev_actor env) CmdCreateRegister) (\<lambda>_.
     andThen (assertNonEmptyText (Some name) ''name'') (\<lambda>trimmed.
     andThen (throw_if (\<exists>r\<in>set (ctn_registers st). crg_name r = trimmed) name_conflict) (\<lambda>_.
       Inr (st\<lparr>ctn_registers := ctn_registers st @
         [\<lparr>crg_id = cev_uuid env, crg_name = trimmed, crg_isActive = True\<rparr>]\<rparr>))))"

definition updateRegister ::
  "cash_env \<Rightarrow> ident \<Rightarrow> string option \<Rightarrow> bool option \<Rightarrow> cash_tenant \<Rightarrow> cash_tenant result" where
  "updateRegister env i name isActive st =
     (case find_register st i of
        None \<Rightarrow> Inl register_not_found
      | Some row \<Rightarrow>
          andThen (assertCommandAbility (cev_actor env) CmdUpdateRegister) (\<lambda>_.
          andThen (case name of
              None \<Rightarrow> Inr (crg_name row)
            | Some n \<Rightarrow>
                andThen (assertNonEmptyText (Some n) ''name'') (\<lambda>trimmed.
                andThen (throw_if (trimmed \<noteq> crg_name row \<and>
                    (\<exists>r\<in>set (ctn_registers st). crg_name r = trimmed)) name_conflict) (\<lambda>_.
                  Inr trimmed))) (\<lambda>name'.
            Inr (st\<lparr>ctn_registers := update_first (\<lambda>r. crg_id r = i)
              (\<lambda>_. row\<lparr>crg_name := name', crg_isActive := or_default isActive (crg_isActive row)\<rparr>)
              (ctn_registers st)\<rparr>))))"

subsection \<open>Opening\<close>

definition resolveOpeningHandover ::
  "cash_env \<Rightarrow> ident \<Rightarrow> ident \<Rightarrow> js_number \<Rightarrow> cash_tenant \<Rightarrow> ident result" where
  "resolveOpeningHandover env registerId handoverId openingCents st =
     (case find_handover st handoverId of
        None \<Rightarrow> Inl (cash_violation ''CASH_OPENING_HANDOVER_NOT_FOUND'' ''Opening FLOAT handover not found'')
      | Some h \<Rightarrow>
     (case find_session st (hnd_sessionId h) of
        None \<Rightarrow> Inl (cash_violation ''CASH_OPENING_HANDOVER_NOT_FOUND''
          ''Opening FLOAT source session not found'')
      | Some source \<Rightarrow>
          andThen (throw_if (hnd_kind h \<noteq> Float)
            (cash_violation ''CASH_HANDOVER_NOT_FLOAT''
              ''only a retained FLOAT handover can fund the next session'')) (\<lambda>_.
          andThen (throw_if (hnd_receiverUserId h \<noteq> Some (act_userId (cev_actor env)) \<or>
              hnd_receiptActorUserId h \<noteq> Some (act_userId (cev_actor env)))
            (cash_violation ''CASH_HANDOVER_RECIPIENT_INVALID''
              ''The opening FLOAT must have been received by the opening cashier'')) (\<lambda>_.
          andThen (resolveOpeningFundCents h) (\<lambda>received.
          andThen (throw_if (received \<noteq> openingCents)
            (cash_violation ''CASH_OPENING_FUNDS_MISMATCH''
              ''The opening fund must equal the received FLOAT amount'')) (\<lambda>_.
          andThen (throw_if (csn_registerId (session_of source) = registerId \<and>
              csn_drawerReleasedAt (session_of source) = None)
            (cash_violation ''CASH_OPENING_SOURCE_DRAWER_NOT_RELEASED''
              ''The source drawer must be released before its funds are reused on the same register'')) (\<lambda>_.
          andThen (throw_if (\<exists>s\<in>set (ctn_sessions st). tss_openingHandoverId s = Some (hnd_id h))
            (cash_violation ''CASH_OPENING_FLOAT_REUSE''
              ''This FLOAT handover already funds another session'')) (\<lambda>_.
            Inr (hnd_id h)))))))))"

definition new_desk :: "ident \<Rightarrow> ident \<Rightarrow> ident \<Rightarrow> ident \<Rightarrow> int \<Rightarrow> cash_desk" where
  "new_desk sid tenantId registerId cashier opening =
     \<lparr>dsk_session = \<lparr>csn_id = sid, csn_tenantId = tenantId, csn_registerId = registerId,
        csn_cashierUserId = cashier, csn_status = SessionOpen, csn_openingCents = opening,
        csn_frozenAt = None, csn_drawerReleasedAt = None\<rparr>,
      dsk_submittedAt = None, dsk_closedAt = None, dsk_expected = None, dsk_ledger = [],
      dsk_declarations = [], dsk_verifications = [], dsk_handovers = [], dsk_closing = None\<rparr>"

text \<open>A generated identifier that is taken would make the insertion throw.\<close>

definition openSession ::
  "ident \<Rightarrow> cash_env \<Rightarrow> ident \<Rightarrow> js_number \<Rightarrow> ident option \<Rightarrow> bool \<Rightarrow> cash_tenant
     \<Rightarrow> cash_tenant result" where
  "openSession tenantId env registerId openingCents openingHandoverId confirmed st =
     (case find_register st registerId of
        None \<Rightarrow> Inl register_not_found
      | Some register \<Rightarrow>
          andThen (assertCommandAbility (cev_actor env) CmdOpenSession) (\<lambda>_.
          andThen (throw_if (\<not> crg_isActive register)
            (cash_violation ''CASH_REGISTER_INACTIVE'' ''Cash register is inactive'')) (\<lambda>_.
          andThen (throw_if (\<not> confirmed)
            (cash_violation ''CASH_OPENING_NOT_CONFIRMED''
              ''Opening the drawer requires an explicit confirmation'')) (\<lambda>_.
          andThen (assertNonNegativeCents openingCents ''openingCents'') (\<lambda>_.
          andThen (assertStorageRangeCents openingCents ''openingCents'') (\<lambda>_.
          andThen (throw_if (\<exists>s\<in>set (ctn_sessions st). csn_registerId (session_of s) = registerId \<and>
              csn_drawerReleasedAt (session_of s) = None)
            (cash_violation ''CASH_REGISTER_UNRELEASED_SESSION''
              ''The register already has an unreleased cash session'')) (\<lambda>_.
          andThen (case openingHandoverId of
              None \<Rightarrow> Inr None
            | Some h \<Rightarrow> mapR Some (resolveOpeningHandover env registerId h openingCents st)) (\<lambda>funding.
          andThen (throw_if (\<exists>s\<in>set (ctn_sessions st). csn_id (session_of s) = cev_uuid env)
            (PlainError ''Unique constraint failed'')) (\<lambda>_.
          let d = new_desk (cev_uuid env) tenantId registerId (act_userId (cev_actor env))
                    (cents_of openingCents) in
          andThen (projectCashSession
            \<lparr>cpi_session = dsk_session d, cpi_viewerUserId = act_userId (cev_actor env),
             cpi_expectedCashCents = JsInt (csn_openingCents (dsk_session d)),
             cpi_declaredCents = None,
             cpi_hasAuditVisibility = act_can (cev_actor env) ''read'' ''CashSessionAudit'',
             cpi_declarationSubmitted = False\<rparr>) (\<lambda>_.
            Inr (st\<lparr>ctn_sessions := ctn_sessions st @
              [\<lparr>tss_desk = d, tss_openingHandoverId = funding\<rparr>]\<rparr>)))))))))))"

subsection \<open>Commands on a session\<close>

definition elsewhere_sources :: "cash_tenant \<Rightarrow> ident \<Rightarrow> (cash_source_type \<times> ident) set" where
  "elsewhere_sources st sid =
     (\<Union>s\<in>set (filter (\<lambda>s. csn_id (session_of s) \<noteq> sid) (ctn_sessions st)).
        (source_of \<circ> ldr_movement) ` set (dsk_ledger (tss_desk s)))"

text \<open>\<open>requireSessionLocked\<close>, then the handler on the session's rows.\<close>

definition on_session ::
  "cash_tenant \<Rightarrow> ident \<Rightarrow> (cash_desk \<Rightarrow> cash_desk result) \<Rightarrow> cash_tenant result" where
  "on_session st sid f =
     (case find_session st sid of
        None \<Rightarrow> Inl (cash_violation ''CASH_SESSION_NOT_FOUND'' ''Cash session not found'')
      | Some s \<Rightarrow>
          mapR (\<lambda>d'. st\<lparr>ctn_sessions := update_first (\<lambda>s. csn_id (session_of s) = sid)
                         (\<lambda>_. s\<lparr>tss_desk := d'\<rparr>) (ctn_sessions st)\<rparr>) (f (tss_desk s)))"

definition handover_not_found :: domain_error where
  "handover_not_found = cash_violation ''CASH_HANDOVER_NOT_FOUND'' ''Cash handover not found''"

fun run_session_command ::
  "(string \<Rightarrow> string) \<Rightarrow> cash_env \<Rightarrow> cash_command \<Rightarrow> cash_tenant \<Rightarrow> cash_tenant result" where
  "run_session_command collate env (CashInOut cash_in sid amount reason) st =
     on_session st sid (manualMovement (cev_actor env) (elsewhere_sources st sid) cash_in amount
       (Some reason) (cev_uuid env) (cev_now env))"
| "run_session_command collate env (StartCount sid) st =
     on_session st sid (startCount collate (cev_actor env) (cev_now env))"
| "run_session_command collate env (DeclareCount sid ls ds notes) st =
     on_session st sid (declare_count collate (cev_actor env) ls ds notes (cev_now env))"
| "run_session_command collate env (VerifyCount sid ls ds notes) st =
     on_session st sid (verify collate (cev_actor env) ls ds notes (cev_now env))"
| "run_session_command collate env (AnnotateDeclaration sid notes) st =
     on_session st sid (annotateDeclaration (cev_actor env) (Some notes) (cev_now env))"
| "run_session_command collate env (CreateHandover sid kind recipient declared) st =
     (if find_handover st (cev_uuid env) \<noteq> None then Inl (PlainError ''Unique constraint failed'')
      else on_session st sid (createHandover (cev_actor env) kind recipient (cev_recipientActive env)
             (cev_recipientMember env) declared (cev_uuid env) (cev_now env)))"
| "run_session_command collate env (ReceiveHandover i received notes) st =
     (case find_handover st i of
        None \<Rightarrow> Inl handover_not_found
      | Some h \<Rightarrow> on_session st (hnd_sessionId h)
                   (receiveHandover (cev_actor env) i received notes (cev_now env)))"
| "run_session_command collate env (ReleaseDrawer sid) st =
     on_session st sid (releaseDrawer (cev_actor env) (cev_now env))"
| "run_session_command collate env (CloseSession sid notes) st =
     on_session st sid (close (cev_actor env) (cev_folio env) notes (cev_now env))"
| "run_session_command collate env _ st = Inr st"

definition runCommand ::
  "(string \<Rightarrow> string) \<Rightarrow> ident \<Rightarrow> cash_env \<Rightarrow> cash_command \<Rightarrow> cash_tenant \<Rightarrow> cash_tenant result" where
  "runCommand collate tenantId env cmd st =
     andThen (assertActiveMember (act_active (cev_actor env)) (act_member (cev_actor env))) (\<lambda>_.
     case cmd of
       CreateRegister name \<Rightarrow> createRegister env name st
     | UpdateRegister i name isActive \<Rightarrow> updateRegister env i name isActive st
     | OpenSession registerId opening handoverId confirmed \<Rightarrow>
         openSession tenantId env registerId opening handoverId confirmed st
     | _ \<Rightarrow> run_session_command collate env cmd st)"

subsection \<open>Idempotent execution\<close>

definition requireIdempotencyKey :: "string \<Rightarrow> string result" where
  "requireIdempotencyKey raw =
     (let key = trim raw in
      andThen (throw_if (length key = 0)
        (cash_violation ''CASH_IDEMPOTENCY_KEY_REQUIRED'' ''An idempotency key is required'')) (\<lambda>_.
      andThen (throw_if (200 < length key)
        (cash_violation ''CASH_IDEMPOTENCY_KEY_TOO_LONG''
          ''Idempotency key must be at most 200 characters'')) (\<lambda>_.
        Inr key)))"

fun target_session :: "cash_command \<Rightarrow> ident" where
  "target_session (CashInOut _ sid _ _) = sid"
| "target_session (StartCount sid) = sid"
| "target_session (DeclareCount sid _ _ _) = sid"
| "target_session (VerifyCount sid _ _ _) = sid"
| "target_session (AnnotateDeclaration sid _) = sid"
| "target_session (CreateHandover sid _ _ _) = sid"
| "target_session (ReleaseDrawer sid) = sid"
| "target_session (CloseSession sid _) = sid"
| "target_session _ = ''''"

definition recheckReplayAbility ::
  "cash_env \<Rightarrow> cash_command \<Rightarrow> cash_document \<Rightarrow> cash_tenant \<Rightarrow> unit result" where
  "recheckReplayAbility env cmd stored st =
     (let ability = assertCommandAbility (cev_actor env) (command_kind cmd) in
      case cmd of
        CreateRegister _ \<Rightarrow> ability
      | OpenSession registerId _ _ _ \<Rightarrow>
          (case cdc_session stored of
             None \<Rightarrow> Inl (cash_violation ''CASH_SESSION_NOT_FOUND''
               ''The original cash session was not found'')
           | Some i \<Rightarrow>
               if \<exists>s\<in>set (ctn_sessions st). csn_id (session_of s) = i \<and>
                   csn_registerId (session_of s) = registerId \<and>
                   csn_cashierUserId (session_of s) = act_userId (cev_actor env)
               then ability
               else Inl (cash_violation ''CASH_SESSION_NOT_FOUND''
                 ''The original cash session was not found''))
      | UpdateRegister i _ _ \<Rightarrow>
          if find_register st i = None then Inl register_not_found else ability
      | ReceiveHandover i _ _ \<Rightarrow>
          if find_handover st i = None then Inl handover_not_found else ability
      | _ \<Rightarrow>
          if find_session st (target_session cmd) = None
          then Inl (cash_violation ''CASH_SESSION_NOT_FOUND'' ''Cash session not found'')
          else ability)"

definition opened_session :: "cash_env \<Rightarrow> cash_command \<Rightarrow> ident option" where
  "opened_session env cmd = (case cmd of OpenSession _ _ _ _ \<Rightarrow> Some (cev_uuid env) | _ \<Rightarrow> None)"

definition execute ::
  "(string \<Rightarrow> string) \<Rightarrow> (ident \<Rightarrow> cash_command \<Rightarrow> string) \<Rightarrow> (cash_command \<Rightarrow> cash_tenant \<Rightarrow> string)
     \<Rightarrow> ident \<Rightarrow> cash_env \<Rightarrow> cash_command \<Rightarrow> string \<Rightarrow> cash_tenant
     \<Rightarrow> (cash_document \<times> cash_tenant) result" where
  "execute collate sha256 body tenantId env cmd rawKey st =
     andThen (requireIdempotencyKey rawKey) (\<lambda>key.
     case CASH_COMMAND_ABILITY (command_kind cmd) of (action, subject) \<Rightarrow>
     andThen (throw_if (\<not> cev_coarse env action subject)
       (cash_violation ''CASH_PERMISSION_DENIED''
         (''Missing permission '' @ action @ '':'' @ subject))) (\<lambda>_.
     let requestHash = sha256 (act_userId (cev_actor env)) cmd in
     case find (\<lambda>r. cmr_key r = key) (ctn_commands st) of
       Some existing \<Rightarrow>
         andThen (throw_if (cmr_requestHash existing \<noteq> requestHash)
           (cash_violation ''CASH_IDEMPOTENCY_CONFLICT''
             ''Idempotency key was already used with a different request'')) (\<lambda>_.
         andThen (assertActiveMember (act_active (cev_actor env)) (act_member (cev_actor env))) (\<lambda>_.
         andThen (recheckReplayAbility env cmd (cmr_response existing) st) (\<lambda>_.
           Inr (cmr_response existing, st))))
     | None \<Rightarrow>
         andThen (runCommand collate tenantId env cmd st) (\<lambda>st'.
           let result = \<lparr>cdc_session = opened_session env cmd, cdc_body = body cmd st'\<rparr> in
           Inr (result, st'\<lparr>ctn_commands := ctn_commands st' @
             [\<lparr>cmr_key = key, cmr_requestHash = requestHash, cmr_response = result\<rparr>]\<rparr>))))"

text \<open>The sales code calls the ledger of a session inside its own transaction.\<close>

definition ledgerPayments ::
  "cash_env \<Rightarrow> ident \<Rightarrow> ident \<Rightarrow> ledger_payment list \<Rightarrow> js_number \<Rightarrow> cash_tenant
     \<Rightarrow> cash_tenant result" where
  "ledgerPayments env sid saleId payments changeDue st =
     on_session st sid (recordPayments (cev_actor env) (elsewhere_sources st sid) saleId payments
       changeDue (cev_now env))"

definition ledgerRefund ::
  "cash_env \<Rightarrow> ident \<Rightarrow> ident \<Rightarrow> cents \<Rightarrow> cash_method \<Rightarrow> cash_tenant \<Rightarrow> cash_tenant result" where
  "ledgerRefund env sid settlementId amount method st =
     on_session st sid (recordRefund (cev_actor env) (elsewhere_sources st sid) settlementId amount
       method (cev_now env))"

end
