(* ===== verification/CashTenantLaws.thy ===== *)
theory CashTenantLaws
  imports CashTill CashTenant
begin

section \<open>What holds of a tenant's tables\<close>

text \<open>
  The invariant of the tables: every session is sound, a register has at most one
  unreleased drawer, a float funds one session with exactly what was received, no
  source is booked twice in the tenant, register names and idempotency keys are
  unique.  Every accepted command and ledger call keeps it.
\<close>

definition sources_of_desk :: "cash_desk \<Rightarrow> (cash_source_type \<times> ident) list" where
  "sources_of_desk d = map source_of (recorded d)"

definition tenant_sources :: "tenant_session list \<Rightarrow> (cash_source_type \<times> ident) list" where
  "tenant_sources ss = concat (map (\<lambda>s. sources_of_desk (tss_desk s)) ss)"

definition unreleased :: "tenant_session list \<Rightarrow> ident list" where
  "unreleased ss = map (\<lambda>s. csn_registerId (session_of s))
     (filter (\<lambda>s. csn_drawerReleasedAt (session_of s) = None) ss)"

text \<open>The handover that funds a session: a float its cashier received, of the opening amount.\<close>

definition funds :: "tenant_session list \<Rightarrow> tenant_session \<Rightarrow> ident \<Rightarrow> bool" where
  "funds ss s i \<longleftrightarrow> (\<exists>t\<in>set ss. \<exists>h\<in>received_handovers (tss_desk t). hnd_id h = i \<and>
     hnd_kind h = Float \<and> hnd_receivedCents h = Some (JsInt (csn_openingCents (session_of s))) \<and>
     hnd_receiverUserId h = Some (csn_cashierUserId (session_of s)))"

definition sessions_ok :: "(string \<Rightarrow> string) \<Rightarrow> tenant_session list \<Rightarrow> bool" where
  "sessions_ok collate ss \<longleftrightarrow>
     distinct (map (\<lambda>s. csn_id (session_of s)) ss) \<and>
     (\<forall>s\<in>set ss. desk_ok collate (tss_desk s)) \<and>
     distinct (unreleased ss) \<and>
     distinct (List.map_filter tss_openingHandoverId ss) \<and>
     (\<forall>s\<in>set ss. \<forall>i. tss_openingHandoverId s = Some i \<longrightarrow> funds ss s i) \<and>
     distinct (tenant_sources ss)"

definition tenant_ok :: "(string \<Rightarrow> string) \<Rightarrow> cash_tenant \<Rightarrow> bool" where
  "tenant_ok collate st \<longleftrightarrow> distinct (map crg_name (ctn_registers st)) \<and>
     sessions_ok collate (ctn_sessions st) \<and> distinct (map cmr_key (ctn_commands st))"

lemma find_split:
  "find p xs = Some x \<Longrightarrow> \<exists>pre post. xs = pre @ x # post \<and> p x \<and>
     (\<forall>y. update_first p (\<lambda>_. y) xs = pre @ y # post)"
proof (induction xs)
  case (Cons a xs)
  show ?case
  proof (cases "p a")
    case True
    with Cons.prems show ?thesis by (intro exI [of _ "[]"] exI [of _ xs]) simp
  next
    case False
    with Cons obtain pre post where "xs = pre @ x # post" "p x"
      "\<forall>y. update_first p (\<lambda>_. y) xs = pre @ y # post" by auto
    with False show ?thesis by (intro exI [of _ "a # pre"] exI [of _ post]) simp
  qed
qed simp

lemma on_session_ok:
  assumes "on_session st sid f = Inr st'"
  obtains pre s post d' where "ctn_sessions st = pre @ s # post" "csn_id (session_of s) = sid"
    "f (tss_desk s) = Inr d'" "st' = st\<lparr>ctn_sessions := pre @ s\<lparr>tss_desk := d'\<rparr> # post\<rparr>"
proof -
  obtain s d' where s: "find (\<lambda>s. csn_id (session_of s) = sid) (ctn_sessions st) = Some s"
    and d': "f (tss_desk s) = Inr d'"
    and st': "st' = st\<lparr>ctn_sessions := update_first (\<lambda>s. csn_id (session_of s) = sid)
        (\<lambda>_. s\<lparr>tss_desk := d'\<rparr>) (ctn_sessions st)\<rparr>"
    using assms by (auto simp: on_session_def find_session_def result_simps split: option.splits)
  from find_split [OF s] d' st' that show ?thesis by metis
qed

lemma elsewhere_split:
  assumes "ctn_sessions st = pre @ s # post" and "csn_id (session_of s) = sid"
    and "distinct (map (\<lambda>s. csn_id (session_of s)) (ctn_sessions st))"
  shows "elsewhere_sources st sid = set (tenant_sources (pre @ post))"
proof -
  have "\<forall>x\<in>set pre \<union> set post. csn_id (session_of x) \<noteq> sid"
    using assms by (auto simp: image_iff)
  then have "filter (\<lambda>s. csn_id (session_of s) \<noteq> sid) pre = pre"
    "filter (\<lambda>s. csn_id (session_of s) \<noteq> sid) post = post"
    by (simp_all add: filter_id_conv)
  then have "filter (\<lambda>s. csn_id (session_of s) \<noteq> sid) (ctn_sessions st) = pre @ post"
    by (simp add: assms(1,2))
  then show ?thesis
    by (simp add: elsewhere_sources_def tenant_sources_def sources_of_desk_def recorded_def image_comp)
qed

lemma find_app: "find p (xs @ ys) = (case find p xs of Some x \<Rightarrow> Some x | None \<Rightarrow> find p ys)"
  by (induction xs) auto

lemma map_filter_append: "List.map_filter f (xs @ ys) = List.map_filter f xs @ List.map_filter f ys"
  by (simp add: List.map_filter_def)

lemma distinct_wider:
  "distinct (b @ m) \<Longrightarrow> distinct (a @ b @ c) \<Longrightarrow> set m \<inter> set (a @ c) = {} \<Longrightarrow>
     distinct (a @ (b @ m) @ c)"
  by auto

lemma session_update_ok:
  assumes ok: "sessions_ok collate (pre @ s # post)"
    and step: "desk_step collate elsewhere (tss_desk s) d'"
    and away: "set (tenant_sources (pre @ post)) \<subseteq> elsewhere"
  shows "sessions_ok collate (pre @ s\<lparr>tss_desk := d'\<rparr> # post)"
proof -
  let ?s = "s\<lparr>tss_desk := d'\<rparr>"
  let ?ss = "pre @ s # post" and ?ss' = "pre @ ?s # post"
  have keep: "keeps elsewhere (tss_desk s) d'" by (rule desk_step_keeps [OF step])
  then have terms: "csn_id (dsk_session d') = csn_id (session_of s)"
    "csn_registerId (dsk_session d') = csn_registerId (session_of s)"
    "csn_cashierUserId (dsk_session d') = csn_cashierUserId (session_of s)"
    "csn_openingCents (dsk_session d') = csn_openingCents (session_of s)"
    and rel: "csn_drawerReleasedAt (session_of s) \<noteq> None \<Longrightarrow> csn_drawerReleasedAt (dsk_session d') \<noteq> None"
    and rec: "received_handovers (tss_desk s) \<subseteq> received_handovers d'"
    by (auto simp: keeps_def session_terms_def)
  have "desk_ok collate (tss_desk s)" using ok by (simp add: sessions_ok_def)
  with step have desk: "desk_ok collate d'" by (rule desk_step_ok)
  have "distinct (map (\<lambda>s. csn_id (session_of s)) ?ss')"
    using ok by (simp add: sessions_ok_def terms)
  moreover have "\<forall>x\<in>set ?ss'. desk_ok collate (tss_desk x)"
    using ok desk by (simp add: sessions_ok_def)
  moreover have "distinct (unreleased ?ss')"
    using ok rel by (cases "csn_drawerReleasedAt (session_of s)")
      (auto simp: sessions_ok_def unreleased_def terms)
  moreover have "distinct (List.map_filter tss_openingHandoverId ?ss')"
    using ok by (simp add: sessions_ok_def map_filter_append List.map_filter_simps)
  moreover have "funds ?ss' x' i"
    if "funds ?ss x i" "csn_openingCents (session_of x') = csn_openingCents (session_of x)"
      "csn_cashierUserId (session_of x') = csn_cashierUserId (session_of x)" for x x' i
    using that rec unfolding funds_def by auto
  then have "\<forall>x\<in>set ?ss'. \<forall>i. tss_openingHandoverId x = Some i \<longrightarrow> funds ?ss' x i"
    using ok terms unfolding sessions_ok_def by (auto simp del: Un_iff) fastforce+
  moreover have "distinct (tenant_sources ?ss')"
  proof -
    obtain ms where ms: "recorded d' = recorded (tss_desk s) @ ms" "source_of ` set ms \<inter> elsewhere = {}"
      using keep by (auto simp: keeps_def)
    have "distinct (sources_of_desk (tss_desk s) @ map source_of ms)"
      using desk ms(1) by (simp add: desk_ok_def ledger_ok_def sources_of_desk_def)
    moreover have "distinct (tenant_sources pre @ sources_of_desk (tss_desk s) @ tenant_sources post)"
      using ok by (simp add: sessions_ok_def tenant_sources_def)
    moreover have "set (map source_of ms) \<inter> set (tenant_sources pre @ tenant_sources post) = {}"
      using ms(2) away unfolding tenant_sources_def map_append concat_append set_map by blast
    ultimately have "distinct (tenant_sources pre @ (sources_of_desk (tss_desk s) @ map source_of ms) @
        tenant_sources post)" by (intro distinct_wider)
    then show ?thesis by (simp add: tenant_sources_def sources_of_desk_def ms(1))
  qed
  ultimately show ?thesis unfolding sessions_ok_def by blast
qed

lemma on_session_tenant:
  assumes ok: "tenant_ok collate st" and s: "on_session st sid f = Inr st'"
    and step: "\<And>d d'. f d = Inr d' \<Longrightarrow> desk_step collate (elsewhere_sources st sid) d d'"
  shows "tenant_ok collate st' \<and> ctn_commands st' = ctn_commands st"
proof -
  obtain pre x post d' where x: "ctn_sessions st = pre @ x # post" "csn_id (session_of x) = sid"
    and d': "f (tss_desk x) = Inr d'"
    and st': "st' = st\<lparr>ctn_sessions := pre @ x\<lparr>tss_desk := d'\<rparr> # post\<rparr>"
    by (rule on_session_ok [OF s])
  have ids: "distinct (map (\<lambda>s. csn_id (session_of s)) (ctn_sessions st))"
    and ss: "sessions_ok collate (pre @ x # post)"
    using ok x(1) by (simp_all add: tenant_ok_def sessions_ok_def)
  have "sessions_ok collate (pre @ x\<lparr>tss_desk := d'\<rparr> # post)"
    by (rule session_update_ok [OF ss step [OF d']]) (simp add: elsewhere_split [OF x ids])
  with ok show ?thesis by (simp add: tenant_ok_def st')
qed

subsection \<open>Every command and ledger call keeps the tables sound\<close>

lemma new_desk_ok: "desk_ok collate (new_desk sid tenantId registerId cashier opening)"
  by (simp add: desk_parts new_desk_def recorded_def)

lemma createRegister_tenant:
  assumes ok: "tenant_ok collate st" and s: "createRegister env name st = Inr st'"
  shows "tenant_ok collate st' \<and> ctn_commands st' = ctn_commands st"
proof -
  obtain n where "\<forall>r\<in>set (ctn_registers st). crg_name r \<noteq> n"
    "st' = st\<lparr>ctn_registers := ctn_registers st @
      [\<lparr>crg_id = cev_uuid env, crg_name = n, crg_isActive = True\<rparr>]\<rparr>"
    using s by (auto simp: createRegister_def result_simps)
  with ok show ?thesis by (auto simp: tenant_ok_def)
qed

lemma updateRegister_ok:
  assumes "updateRegister env i name isActive st = Inr st'"
  shows "\<exists>row n. find (\<lambda>r. crg_id r = i) (ctn_registers st) = Some row \<and>
    (n = crg_name row \<or> (\<forall>r\<in>set (ctn_registers st). crg_name r \<noteq> n)) \<and>
    st' = st\<lparr>ctn_registers := update_first (\<lambda>r. crg_id r = i)
        (\<lambda>_. row\<lparr>crg_name := n, crg_isActive := or_default isActive (crg_isActive row)\<rparr>)
        (ctn_registers st)\<rparr>"
proof -
  obtain row where row: "find (\<lambda>r. crg_id r = i) (ctn_registers st) = Some row"
    using assms by (auto simp: updateRegister_def find_register_def split: option.splits)
  have eta: "row\<lparr>crg_name := crg_name row, crg_isActive := b\<rparr> = row\<lparr>crg_isActive := b\<rparr>" for b
    by (cases row) simp
  show ?thesis
  proof (cases name)
    case None
    with assms row show ?thesis
      by (intro exI [of _ row] exI [of _ "crg_name row"])
        (simp add: updateRegister_def find_register_def eta result_simps)
  next
    case (Some n)
    with assms row show ?thesis
      by (intro exI [of _ row] exI [of _ "trim n"])
        (auto simp: updateRegister_def find_register_def result_simps cash_simps)
  qed
qed

lemma updateRegister_tenant:
  assumes ok: "tenant_ok collate st" and s: "updateRegister env i name isActive st = Inr st'"
  shows "tenant_ok collate st' \<and> ctn_commands st' = ctn_commands st"
proof -
  obtain row n where row: "find (\<lambda>r. crg_id r = i) (ctn_registers st) = Some row"
    and n: "n = crg_name row \<or> (\<forall>r\<in>set (ctn_registers st). crg_name r \<noteq> n)"
    and st': "st' = st\<lparr>ctn_registers := update_first (\<lambda>r. crg_id r = i)
        (\<lambda>_. row\<lparr>crg_name := n, crg_isActive := or_default isActive (crg_isActive row)\<rparr>)
        (ctn_registers st)\<rparr>"
    using updateRegister_ok [OF s] by blast
  from find_split [OF row] obtain pre post where split: "ctn_registers st = pre @ row # post"
    and upd: "ctn_registers st' =
      pre @ row\<lparr>crg_name := n, crg_isActive := or_default isActive (crg_isActive row)\<rparr> # post"
    by (auto simp: st')
  have "distinct (map crg_name (ctn_registers st'))"
    using ok n unfolding upd by (auto simp: tenant_ok_def split)
  with ok show ?thesis by (simp add: tenant_ok_def st')
qed

lemma opening_handover_ok:
  assumes ok: "sessions_ok collate (ctn_sessions st)"
    and r: "resolveOpeningHandover env registerId i openingCents st = Inr j"
  shows "j = i \<and> (\<forall>s\<in>set (ctn_sessions st). tss_openingHandoverId s \<noteq> Some j) \<and>
    (\<exists>t\<in>set (ctn_sessions st). \<exists>h\<in>received_handovers (tss_desk t). hnd_id h = j \<and>
      hnd_kind h = Float \<and> hnd_receivedCents h = Some openingCents \<and>
      hnd_receiverUserId h = Some (act_userId (cev_actor env)))"
proof -
  obtain h u where h: "find_handover st i = Some h" and u: "assertHandoverReceipt h = Inr u"
    and f: "hnd_kind h = Float" "hnd_receiverUserId h = Some (act_userId (cev_actor env))"
      "hnd_receivedCents h = Some openingCents" "j = hnd_id h"
      "\<forall>s\<in>set (ctn_sessions st). tss_openingHandoverId s \<noteq> Some (hnd_id h)"
    using r by (auto simp: resolveOpeningHandover_def resolveOpeningFundCents_def result_simps
        split: option.splits)
  have mem: "h \<in> set (all_handovers st)" and id: "hnd_id h = i"
    using find_SomeD [OF h [unfolded find_handover_def]] by simp_all
  from mem obtain t where "t \<in> set (ctn_sessions st)" "h \<in> set (dsk_handovers (tss_desk t))"
    by (auto simp: all_handovers_def)
  moreover have "hnd_receivedAt h \<noteq> None" using receipt_ok [OF u] by (auto simp: received_properly_def)
  ultimately have "t \<in> set (ctn_sessions st) \<and> h \<in> received_handovers (tss_desk t)"
    by (simp add: received_handovers_def)
  with f id show ?thesis by blast
qed

lemma openSession_tenant:
  assumes ok: "tenant_ok collate st"
    and s: "openSession tenantId env registerId openingCents handoverId confirmed st = Inr st'"
  shows "tenant_ok collate st' \<and> ctn_commands st' = ctn_commands st"
proof -
  let ?d = "new_desk (cev_uuid env) tenantId registerId (act_userId (cev_actor env)) (cents_of openingCents)"
  obtain funding where int: "openingCents = JsInt (cents_of openingCents)"
    and free: "\<forall>s\<in>set (ctn_sessions st). csn_registerId (session_of s) = registerId \<longrightarrow>
        csn_drawerReleasedAt (session_of s) \<noteq> None"
    and fund: "(case handoverId of None \<Rightarrow> Inr None
        | Some h \<Rightarrow> mapR Some (resolveOpeningHandover env registerId h openingCents st)) = Inr funding"
    and fresh: "\<forall>s\<in>set (ctn_sessions st). csn_id (session_of s) \<noteq> cev_uuid env"
    and st': "st' = st\<lparr>ctn_sessions := ctn_sessions st @
        [\<lparr>tss_desk = ?d, tss_openingHandoverId = funding\<rparr>]\<rparr>"
    using s by (auto simp: openSession_def Let_def result_simps cash_simps split: option.splits)
  have ss: "sessions_ok collate (ctn_sessions st)" using ok by (simp add: tenant_ok_def)
  let ?s = "\<lparr>tss_desk = ?d, tss_openingHandoverId = funding\<rparr>"
  let ?ss' = "ctn_sessions st @ [?s]"
  have fields: "csn_id (dsk_session ?d) = cev_uuid env" "csn_registerId (dsk_session ?d) = registerId"
    "csn_openingCents (dsk_session ?d) = cents_of openingCents" "sources_of_desk ?d = []"
    "csn_cashierUserId (dsk_session ?d) = act_userId (cev_actor env)"
    by (simp_all add: new_desk_def sources_of_desk_def recorded_def)
  have "distinct (map (\<lambda>s. csn_id (session_of s)) ?ss')"
    using ss fresh by (auto simp: sessions_ok_def fields)
  moreover have "\<forall>s\<in>set ?ss'. desk_ok collate (tss_desk s)"
    using ss new_desk_ok by (simp add: sessions_ok_def)
  moreover have "distinct (unreleased ?ss')"
    using ss free by (auto simp: sessions_ok_def unreleased_def fields)
  moreover have funded: "(\<forall>s\<in>set (ctn_sessions st). tss_openingHandoverId s \<noteq> Some i) \<and> funds ?ss' ?s i"
    if f: "funding = Some i" for i
  proof -
    obtain h where "resolveOpeningHandover env registerId h openingCents st = Inr i"
      using fund f by (auto simp: result_simps split: option.splits)
    from opening_handover_ok [OF ss this] int show ?thesis
      by (auto simp: funds_def fields)
  qed
  moreover have "distinct (List.map_filter tss_openingHandoverId ?ss')"
    using ss funded by (cases funding)
      (auto simp: sessions_ok_def map_filter_append List.map_filter_simps List.map_filter_def)
  moreover have "\<forall>s\<in>set ?ss'. \<forall>i. tss_openingHandoverId s = Some i \<longrightarrow> funds ?ss' s i"
    using ss funded by (auto simp: sessions_ok_def funds_def)
  moreover have "distinct (tenant_sources ?ss')"
    using ss by (simp add: sessions_ok_def tenant_sources_def fields)
  ultimately have "sessions_ok collate ?ss'" unfolding sessions_ok_def by blast
  with ok show ?thesis by (simp add: tenant_ok_def st')
qed

lemma run_session_command_tenant:
  assumes ok: "tenant_ok collate st" and s: "run_session_command collate env cmd st = Inr st'"
  shows "tenant_ok collate st' \<and> ctn_commands st' = ctn_commands st"
proof (cases cmd)
  case (CashInOut cash_in sid amount reason)
  with s have "on_session st sid (manualMovement (cev_actor env) (elsewhere_sources st sid) cash_in
      amount (Some reason) (cev_uuid env) (cev_now env)) = Inr st'" by simp
  with ok show ?thesis by (rule on_session_tenant) (rule desk_step.Manual)
next
  case (StartCount sid)
  with s have "on_session st sid (startCount collate (cev_actor env) (cev_now env)) = Inr st'" by simp
  with ok show ?thesis by (rule on_session_tenant) (rule desk_step.StartCount)
next
  case (DeclareCount sid ls ds n)
  with s have "on_session st sid (declare_count collate (cev_actor env) ls ds n (cev_now env)) =
      Inr st'" by simp
  with ok show ?thesis by (rule on_session_tenant) (rule desk_step.Declare)
next
  case (VerifyCount sid ls ds n)
  with s have "on_session st sid (verify collate (cev_actor env) ls ds n (cev_now env)) = Inr st'"
    by simp
  with ok show ?thesis by (rule on_session_tenant) (rule desk_step.Verify)
next
  case (AnnotateDeclaration sid n)
  with s have "on_session st sid (annotateDeclaration (cev_actor env) (Some n) (cev_now env)) =
      Inr st'" by simp
  with ok show ?thesis by (rule on_session_tenant) (rule desk_step.Annotate)
next
  case (CreateHandover sid kind recipient declared)
  with s have "on_session st sid (createHandover (cev_actor env) kind recipient
      (cev_recipientActive env) (cev_recipientMember env) declared (cev_uuid env) (cev_now env)) =
      Inr st'" by (simp split: if_splits)
  with ok show ?thesis by (rule on_session_tenant) (rule desk_step.CreateHandover)
next
  case (ReceiveHandover i received n)
  with s obtain h :: handover where "on_session st (hnd_sessionId h)
      (receiveHandover (cev_actor env) i received n (cev_now env)) = Inr st'"
    by (cases "find_handover st i") auto
  with ok show ?thesis by (rule on_session_tenant) (rule desk_step.ReceiveHandover)
next
  case (ReleaseDrawer sid)
  with s have "on_session st sid (releaseDrawer (cev_actor env) (cev_now env)) = Inr st'" by simp
  with ok show ?thesis by (rule on_session_tenant) (rule desk_step.ReleaseDrawer)
next
  case (CloseSession sid n)
  with s have "on_session st sid (close (cev_actor env) (cev_folio env) n (cev_now env)) = Inr st'"
    by simp
  with ok show ?thesis by (rule on_session_tenant) (rule desk_step.Close)
qed (use ok s in simp_all)

lemma runCommand_ok:
  assumes "runCommand collate tenantId env cmd st = Inr st'"
  shows "(\<exists>name. createRegister env name st = Inr st') \<or>
    (\<exists>i name isActive. updateRegister env i name isActive st = Inr st') \<or>
    (\<exists>r opening h c. openSession tenantId env r opening h c st = Inr st') \<or>
    run_session_command collate env cmd st = Inr st'"
  using assms by (cases cmd)
    (auto simp: runCommand_def result_simps simp del: run_session_command.simps)

lemma runCommand_tenant:
  assumes "tenant_ok collate st" and "runCommand collate tenantId env cmd st = Inr st'"
  shows "tenant_ok collate st' \<and> ctn_commands st' = ctn_commands st"
  using runCommand_ok [OF assms(2)]
proof (elim disjE exE)
qed (rule createRegister_tenant [OF assms(1)] updateRegister_tenant [OF assms(1)]
    openSession_tenant [OF assms(1)] run_session_command_tenant [OF assms(1)]; assumption)+

subsection \<open>The steps of a tenant\<close>

inductive tenant_step ::
  "(string \<Rightarrow> string) \<Rightarrow> (ident \<Rightarrow> cash_command \<Rightarrow> string) \<Rightarrow> (cash_command \<Rightarrow> cash_tenant \<Rightarrow> string)
     \<Rightarrow> ident \<Rightarrow> cash_tenant \<Rightarrow> cash_tenant \<Rightarrow> bool"
  for collate sha256 body tenantId where
  Execute: "execute collate sha256 body tenantId env cmd key st = Inr (doc, st') \<Longrightarrow>
    tenant_step collate sha256 body tenantId st st'"
| LedgerPayments: "ledgerPayments env sid saleId payments changeDue st = Inr st' \<Longrightarrow>
    tenant_step collate sha256 body tenantId st st'"
| LedgerRefund: "ledgerRefund env sid settlementId amount method st = Inr st' \<Longrightarrow>
    tenant_step collate sha256 body tenantId st st'"

text \<open>Either a replay, which changes nothing, or the command ran and was logged under its key.\<close>

lemma execute_ok:
  assumes "execute collate sha256 body tenantId env cmd rawKey st = Inr (doc, st')"
  shows "(\<exists>row. find (\<lambda>r. cmr_key r = trim rawKey) (ctn_commands st) = Some row \<and>
      cmr_requestHash row = sha256 (act_userId (cev_actor env)) cmd \<and>
      doc = cmr_response row \<and> st' = st) \<or>
    (find (\<lambda>r. cmr_key r = trim rawKey) (ctn_commands st) = None \<and>
      (\<exists>st1 row. runCommand collate tenantId env cmd st = Inr st1 \<and> cmr_key row = trim rawKey \<and>
        cmr_requestHash row = sha256 (act_userId (cev_actor env)) cmd \<and> cmr_response row = doc \<and>
        st' = st1\<lparr>ctn_commands := ctn_commands st1 @ [row]\<rparr>))"
proof (cases "find (\<lambda>r. cmr_key r = trim rawKey) (ctn_commands st)")
  case (Some row)
  with assms show ?thesis
    unfolding execute_def requireIdempotencyKey_def Let_def
    by (auto simp: result_simps split: prod.splits)
next
  case None
  with assms obtain st1 where "runCommand collate tenantId env cmd st = Inr st1"
    "doc = \<lparr>cdc_session = opened_session env cmd, cdc_body = body cmd st1\<rparr>"
    "st' = st1\<lparr>ctn_commands := ctn_commands st1 @ [\<lparr>cmr_key = trim rawKey,
        cmr_requestHash = sha256 (act_userId (cev_actor env)) cmd, cmr_response = doc\<rparr>]\<rparr>"
    unfolding execute_def requireIdempotencyKey_def Let_def
    by (auto simp: result_simps split: prod.splits)
  with None show ?thesis by (intro disjI2 conjI exI [of _ st1]
    exI [of _ "\<lparr>cmr_key = trim rawKey, cmr_requestHash = sha256 (act_userId (cev_actor env)) cmd,
      cmr_response = doc\<rparr>"]) simp_all
qed

lemma ledger_tenant:
  "ledgerPayments env sid saleId payments changeDue st = Inr st' \<Longrightarrow> tenant_ok collate st \<Longrightarrow>
     tenant_ok collate st' \<and> ctn_commands st' = ctn_commands st"
  "ledgerRefund env sid settlementId amount method st = Inr st' \<Longrightarrow> tenant_ok collate st \<Longrightarrow>
     tenant_ok collate st' \<and> ctn_commands st' = ctn_commands st"
  unfolding ledgerPayments_def ledgerRefund_def
  by (rule on_session_tenant, assumption, assumption, rule desk_step.intros, assumption)+

lemma tenant_step_ok:
  assumes "tenant_step collate sha256 body tenantId st st'" and ok: "tenant_ok collate st"
  shows "tenant_ok collate st' \<and> (\<exists>rows. ctn_commands st' = ctn_commands st @ rows)"
  using assms(1)
proof cases
  case (Execute env cmd key doc)
  from execute_ok [OF this] ok show ?thesis
    by (auto dest!: runCommand_tenant [OF ok] simp: list_simps) (auto simp: tenant_ok_def list_simps)
next
  case LedgerPayments
  from ledger_tenant(1) [OF this ok] show ?thesis by simp
next
  case LedgerRefund
  from ledger_tenant(2) [OF this ok] show ?thesis by simp
qed

interpretation tenant: step_invariant "tenant_step collate sha256 body tenantId" "tenant_ok collate"
  by unfold_locales (blast dest: tenant_step_ok)

text \<open>The log of commands only grows, so a stored answer stays stored.\<close>

interpretation answered: step_invariant "tenant_step collate sha256 body tenantId"
  "\<lambda>st. tenant_ok collate st \<and> find (\<lambda>r. cmr_key r = key) (ctn_commands st) = Some row"
proof
  fix st st'
  assume "tenant_step collate sha256 body tenantId st st'"
    and "tenant_ok collate st \<and> find (\<lambda>r. cmr_key r = key) (ctn_commands st) = Some row"
  with tenant_step_ok obtain rows where "tenant_ok collate st'"
    "ctn_commands st' = ctn_commands st @ rows" by blast
  with \<open>tenant_ok collate st \<and> _\<close>
  show "tenant_ok collate st' \<and> find (\<lambda>r. cmr_key r = key) (ctn_commands st') = Some row"
    by (auto simp: find_app split: option.splits)
qed

end
