(* ===== verification/CashProps.thy ===== *)
theory CashProps
  imports CashTenantLaws
begin

section \<open>Properties of the cash register\<close>

text \<open>
  The properties of the cash register, over the laws of \<open>CashLaws\<close>, \<open>CashTill\<close> and
  \<open>CashTenantLaws\<close>, and a sample day (open, sell, pay out, count, verify, hand over,
  release, close) on which they are applied.
\<close>

subsection \<open>A sample day\<close>

definition cashier :: cash_actor where
  "cashier = \<lparr>act_userId = ''ana'', act_can = (\<lambda>_ _. True), act_active = True, act_member = True\<rparr>"

definition auditor :: cash_actor where
  "auditor = \<lparr>act_userId = ''bob'', act_can = (\<lambda>_ _. True), act_active = True, act_member = True\<rparr>"

definition fresh_desk :: cash_desk where
  "fresh_desk = new_desk ''s1'' ''t1'' ''r1'' ''ana'' 10000"

definition cash_payment :: ledger_payment where
  "cash_payment = \<lparr>ldp_paymentId = ''p1'', ldp_method = Cash, ldp_amountCents = JsInt 5000,
     ldp_catalog = None\<rparr>"

definition cash_count :: "count_line list" where
  "cash_count = [\<lparr>ccl_channelKey = ''CASH'', ccl_amountCents = JsInt 14300\<rparr>]"

definition sample_steps :: "(cash_desk \<Rightarrow> cash_desk result) list" where
  "sample_steps =
     [recordPayments cashier {} ''sale1'' [cash_payment] (JsInt 500) 1,
      manualMovement cashier {} False (JsInt 200) (Some ''change'') ''u1'' 2,
      startCount id cashier 3,
      declare_count id cashier cash_count None None 4,
      verify id auditor cash_count None None 5,
      createHandover cashier Withdrawal ''bob'' True True (JsInt 14300) ''h1'' 6,
      receiveHandover auditor ''h1'' (JsInt 14300) None 7,
      releaseDrawer cashier 8,
      close auditor ''CC-1'' None 9]"

definition sample_desk :: "nat \<Rightarrow> cash_desk result" where
  "sample_desk n = loopR (\<lambda>d f. f d) fresh_desk (take n sample_steps)"

lemma sample_open: "reached (sample_desk 2) (\<lambda>d. csn_status (dsk_session d) = SessionOpen)"
  by code_simp

lemma sample_closed: "reached (sample_desk 9) (\<lambda>d. csn_status (dsk_session d) = SessionClosed)"
  by code_simp

lemma sample_step: "f \<in> set sample_steps \<Longrightarrow> f d = Inr d' \<Longrightarrow> desk_step id {} d d'"
  by (auto simp: sample_steps_def intro: desk_step.intros)

lemma loop_step: "loopR (\<lambda>d f. f d) d0 fs = Inr d \<Longrightarrow> set fs \<subseteq> set sample_steps \<Longrightarrow>
    (desk_step id {})\<^sup>*\<^sup>* d0 d"
proof (induction fs arbitrary: d0)
  case (Cons f fs)
  then obtain d1 where d1: "f d0 = Inr d1" "loopR (\<lambda>d f. f d) d1 fs = Inr d"
    by (auto simp: result_simps)
  have "desk_step id {} d0 d1" using Cons.prems(2) d1(1) by (auto intro: sample_step)
  moreover have "(desk_step id {})\<^sup>*\<^sup>* d1 d" using Cons.prems(2) by (intro Cons.IH [OF d1(2)]) simp
  ultimately show ?case by (rule converse_rtranclp_into_rtranclp)
qed simp

lemma sample_reach: "sample_desk n = Inr d \<Longrightarrow> (desk_step id {})\<^sup>*\<^sup>* fresh_desk d"
  unfolding sample_desk_def by (erule loop_step) (rule set_take_subset)

lemma sample_between:
  assumes "sample_desk n = Inr d" and "sample_desk k = Inr d'" and "n \<le> k"
  shows "(desk_step id {})\<^sup>*\<^sup>* d d'"
proof -
  have "take k sample_steps = take n sample_steps @ take (k - n) (drop n sample_steps)"
    using assms(3) by (metis le_add_diff_inverse take_add)
  with assms(1,2) have "loopR (\<lambda>d f. f d) d (take (k - n) (drop n sample_steps)) = Inr d'"
    unfolding sample_desk_def by (simp add: loopR_append result_simps)
  then show ?thesis by (rule loop_step) (meson order_trans set_drop_subset set_take_subset)
qed

lemma fresh_desk_ok: "desk_ok id fresh_desk"
  unfolding fresh_desk_def by (rule new_desk_ok)

subsection \<open>The ledger\<close>

text \<open>The amount frozen for the physical cash when the count starts, which comes
  from the movements grouped by channel, is the running balance that every posting was checked
  against; the frozen snapshot has each channel that moved, and the cash, exactly once.\<close>

theorem frozen_cash_is_balance:
  assumes "buildExpectedSnapshot collate opening ms t = Inr ex"
    and "expectedCashCents (JsInt opening) ms = Inr e"
    and "\<forall>m\<in>set ms. on_resolved_channel m"
  shows "exs_cashExpectedCents ex = e \<and> e = opening + (\<Sum>m\<leftarrow>ms. cash_delta m) \<and>
    distinct (required_keys ex) \<and>
    set (required_keys ex) = insert ''CASH'' (cmv_channelKey ` set ms)"
  using expected_snapshot_spec(1-3) [OF assms(1,3)] assms(2)
  by (simp add: expectedCashCents_ok)

definition sample_movements :: "cash_movement list" where
  "sample_movements =
     [manual_movement ''s1'' (JsInt 700) True ''u1'' ''in'',
      refund_movement ''s1'' 200 CardDebit
        \<lparr>cch_channelKey = ''METHOD:CARD_DEBIT'', cch_channelLabel = CASH_METHOD_LABELS CardDebit,
         cch_method = CardDebit\<rparr> ''r1'']"

lemma sample_movements_resolved: "\<forall>m\<in>set sample_movements. on_resolved_channel m"
proof -
  have "resolveCashChannel CardDebit None = Inr
      \<lparr>cch_channelKey = ''METHOD:CARD_DEBIT'', cch_channelLabel = CASH_METHOD_LABELS CardDebit,
       cch_method = CardDebit\<rparr>"
    by code_simp
  then show ?thesis
    by (auto simp: sample_movements_def manual_movement_def refund_movement_def
        intro!: on_resolvedI [where catalog = None] pooled_resolved)
qed

theorem frozen_cash_is_balance_witness:
  "case buildExpectedSnapshot id 1000 sample_movements 5 of
     Inr ex \<Rightarrow> exs_cashExpectedCents ex = 1700 \<and>
       set (required_keys ex) = {''CASH'', ''METHOD:CARD_DEBIT''}
   | Inl _ \<Rightarrow> False"
proof -
  have "reached (mapR (\<lambda>_. fresh_desk) (buildExpectedSnapshot id 1000 sample_movements 5)) (\<lambda>_. True)"
    by code_simp
  then obtain ex where ex: "buildExpectedSnapshot id 1000 sample_movements 5 = Inr ex"
    by (auto simp: result_simps dest!: reachedD)
  have "expectedCashCents (JsInt 1000) sample_movements = Inr 1700" by code_simp
  from frozen_cash_is_balance [OF ex this sample_movements_resolved] ex show ?thesis
    by (auto simp: sample_movements_def manual_movement_def refund_movement_def
        POOLED_CASH_CHANNEL_def)
qed

text \<open>Recording the tenders of a sale appends movements whose sum is what was
  tendered less the change given, and raises the cash of the drawer by the cash tendered less the
  change; nothing else of the session moves, and no payment is booked twice.\<close>

theorem payments_conserve_money:
  assumes "recordPayments actor elsewhere saleId ps change t d = Inr d'"
  shows "\<exists>ms. recorded d' = recorded d @ ms \<and> (\<Sum>m\<leftarrow>ms. delta_of m) = tendered ps - cents_of change \<and>
    book_cash d' = book_cash d + cash_tendered ps - cents_of change \<and>
    dsk_session d' = dsk_session d \<and> distinct (map source_of ms) \<and>
    source_of ` set ms \<inter> source_of ` set (recorded d) = {}"
proof -
  obtain ms where a: "appends ms d d'" and sums: "(\<Sum>m\<leftarrow>ms. delta_of m) = tendered ps - cents_of change"
    "(\<Sum>m\<leftarrow>ms. cash_delta m) = cash_tendered ps - cents_of change"
    using recordPayments_ok [OF assms] by blast
  have "distinct (map source_of ms) \<and> source_of ` set ms \<inter> source_of ` set (recorded d) = {}"
    using a by (simp add: appends_def recorded_def image_comp)
  with appends_desk [OF a] sums show ?thesis by (intro exI [of _ ms]) simp
qed

theorem payments_conserve_money_witness:
  "case recordPayments cashier {} ''sale1'' [cash_payment] (JsInt 500) 1 fresh_desk of
     Inr d \<Rightarrow> book_cash d = book_cash fresh_desk + 4500 | Inl _ \<Rightarrow> False"
proof -
  have "reached (recordPayments cashier {} ''sale1'' [cash_payment] (JsInt 500) 1 fresh_desk)
      (\<lambda>_. True)" by code_simp
  then obtain d where d: "recordPayments cashier {} ''sale1'' [cash_payment] (JsInt 500) 1 fresh_desk =
      Inr d" by (auto dest: reachedD)
  from payments_conserve_money [OF d] d show ?thesis
    by (auto simp: cash_tendered_def tendered_def cash_payment_def)
qed

subsection \<open>Counting\<close>

text \<open>An accepted count holds each required channel exactly once and no other, with
  non-negative amounts inside the storage range, in the fixed order of the channels; its lines are
  the given ones with trimmed keys, its total is their sum, and denominations, when given, add up
  to the counted cash.\<close>

theorem count_covers_channels:
  assumes "validateCashCount collate ls required ds = Inr v"
  shows "mset (vcc_lines v) = mset (map normalized ls) \<and>
    distinct (map ccl_channelKey (vcc_lines v)) \<and>
    set (map ccl_channelKey (vcc_lines v)) = set required \<and>
    sorted (map (\<lambda>l. channel_sort_key collate (ccl_channelKey l)) (vcc_lines v)) \<and>
    (\<forall>l\<in>set (vcc_lines v). amount_ok l) \<and>
    vcc_totalCents v = (\<Sum>l\<leftarrow>vcc_lines v. line_amount l) \<and>
    (case ds of
       Some (q # qs) \<Rightarrow> cash_line_cents (vcc_lines v) = JsInt (\<Sum>d\<leftarrow>q # qs.
         cents_of (cdl_denominationCents d) * cents_of (cdl_quantity d))
     | _ \<Rightarrow> True)"
proof -
  note spec = validateCashCount_spec [OF assms]
  have "case ds of
       Some (q # qs) \<Rightarrow> cash_line_cents (vcc_lines v) = JsInt (\<Sum>d\<leftarrow>q # qs.
         cents_of (cdl_denominationCents d) * cents_of (cdl_quantity d))
     | _ \<Rightarrow> True"
    using spec(9) spec(7) by (cases ds rule: option.exhaust; cases "the ds") auto
  with spec(1-6) show ?thesis by simp
qed

theorem count_covers_channels_witness:
  "case validateCashCount id
      [\<lparr>ccl_channelKey = '' CASH'', ccl_amountCents = JsInt 700\<rparr>] [''CASH'']
      (Some [\<lparr>cdl_denominationCents = JsInt 200, cdl_quantity = JsInt 3\<rparr>,
             \<lparr>cdl_denominationCents = JsInt 100, cdl_quantity = JsInt 1\<rparr>]) of
     Inr v \<Rightarrow> set (map ccl_channelKey (vcc_lines v)) = {''CASH''} \<and>
       cash_line_cents (vcc_lines v) = JsInt 700
   | Inl _ \<Rightarrow> False"
proof -
  let ?r = "validateCashCount id
      [\<lparr>ccl_channelKey = '' CASH'', ccl_amountCents = JsInt 700\<rparr>] [''CASH'']
      (Some [\<lparr>cdl_denominationCents = JsInt 200, cdl_quantity = JsInt 3\<rparr>,
             \<lparr>cdl_denominationCents = JsInt 100, cdl_quantity = JsInt 1\<rparr>])"
  have "reached (mapR (\<lambda>_. fresh_desk) ?r) (\<lambda>_. True)" by code_simp
  then obtain v where v: "?r = Inr v" by (auto simp: result_simps dest!: reachedD)
  have "trim '' CASH'' = ''CASH''" by code_simp
  with count_covers_channels [OF v] show ?thesis
    by (simp add: v normalized_def cash_line_cents_def)
qed

text \<open>A viewer from whom the expected amount is hidden (the declarant until the
  declaration, anyone else without audit visibility) is shown the same view whatever was expected
  and declared, with neither amount in it; every other viewer is shown the expected amount.\<close>

theorem blind_view_reveals_nothing:
  assumes "projectCashSession input = Inr v"
    and "projectCashSession (input\<lparr>cpi_expectedCashCents := e, cpi_declaredCents := x\<rparr>) = Inr w"
  shows "if hidden_from input
    then w = v \<and> cpv_expectedCashCents v = None \<and> cpv_differenceCents v = None
    else cpv_expectedCashCents v = Some (cpi_expectedCashCents input) \<and>
      cpv_expectedCashCents w = Some e"
proof -
  have h: "hidden_from (input\<lparr>cpi_expectedCashCents := e, cpi_declaredCents := x\<rparr>) =
      hidden_from input"
    by (simp add: hidden_from_def)
  show ?thesis
  proof (cases "hidden_from input")
    case True
    with hidden_projection [OF assms(2)] hidden_projection [OF assms(1)] h show ?thesis
      by (simp add: base_view_def)
  next
    case False
    with shown_projection [OF assms(2)] shown_projection [OF assms(1)] h show ?thesis by simp
  qed
qed

definition cashier_input :: projection_input where
  "cashier_input = \<lparr>cpi_session = dsk_session fresh_desk, cpi_viewerUserId = ''ana'',
     cpi_expectedCashCents = JsInt 10000, cpi_declaredCents = None,
     cpi_hasAuditVisibility = True, cpi_declarationSubmitted = False\<rparr>"

theorem blind_view_reveals_nothing_witness:
  "projectCashSession (cashier_input\<lparr>cpi_expectedCashCents := JsInt 7, cpi_declaredCents := Some (JsInt 9)\<rparr>) =
     projectCashSession cashier_input \<and>
   reached (projectCashSession (cashier_input\<lparr>cpi_viewerUserId := ''bob'', cpi_expectedCashCents := JsInt 7,
       cpi_declaredCents := Some (JsInt 9)\<rparr>)) (\<lambda>v. cpv_expectedCashCents v = Some (JsInt 7))"
proof -
  let ?i = "cashier_input\<lparr>cpi_expectedCashCents := JsInt 7, cpi_declaredCents := Some (JsInt 9)\<rparr>"
  let ?b = "cashier_input\<lparr>cpi_viewerUserId := ''bob''\<rparr>"
  let ?c = "?b\<lparr>cpi_expectedCashCents := JsInt 7, cpi_declaredCents := Some (JsInt 9)\<rparr>"
  have r: "reached (projectCashSession cashier_input) (\<lambda>_. True)"
    "reached (projectCashSession ?i) (\<lambda>_. True)"
    "reached (projectCashSession ?b) (\<lambda>_. True)" "reached (projectCashSession ?c) (\<lambda>_. True)"
    by code_simp+
  from r(1) obtain v where v: "projectCashSession cashier_input = Inr v" by (blast dest: reachedD)
  from r(2) obtain w where w: "projectCashSession ?i = Inr w" by (blast dest: reachedD)
  from r(3) obtain u where u: "projectCashSession ?b = Inr u" by (blast dest: reachedD)
  from r(4) obtain t where t: "projectCashSession ?c = Inr t" by (blast dest: reachedD)
  have h: "hidden_from cashier_input" "\<not> hidden_from ?b" by code_simp+
  have "cpv_expectedCashCents t = Some (JsInt 7)"
    using blind_view_reveals_nothing [OF u t] h(2) by simp
  then have "reached (projectCashSession ?c) (\<lambda>v. cpv_expectedCashCents v = Some (JsInt 7))"
    by (simp add: t reached_def)
  moreover have "w = v" using blind_view_reveals_nothing [OF v w] h(1) by simp
  ultimately show ?thesis by (simp add: v w)
qed

subsection \<open>Closing\<close>

text \<open>What a sound, counted session expects is the opening fund and the cash it recorded.\<close>

lemma expected_is_balance:
  assumes ok: "desk_ok collate d" and st: "csn_status (dsk_session d) \<noteq> SessionOpen"
  shows "\<exists>ex. dsk_expected d = Some ex \<and> exs_cashExpectedCents ex = book_cash d"
proof -
  obtain ex t where ex: "dsk_expected d = Some ex"
    "buildExpectedSnapshot collate (csn_openingCents (dsk_session d)) (loadSessionMovements d) t = Inr ex"
    using ok st by (auto simp: desk_ok_def expected_ok_def)
  have "\<forall>m\<in>set (loadSessionMovements d). on_resolved_channel m"
    using ok by (simp add: desk_ok_def ledger_ok_def booked_def)
  from expected_snapshot_spec(1) [OF ex(2) this] ex(1) show ?thesis
    by (simp add: sum_loaded book_cash_def)
qed

lemma closed_is_final:
  assumes ok: "desk_ok collate d" and st: "csn_status (dsk_session d) = SessionClosed"
    and step: "desk_step collate elsewhere d d'"
  shows "d' = d"
  using step
proof cases
  case Payments
  with st show ?thesis by (auto dest!: recordPayments_ok appends_desk(8))
next
  case Refund
  with st show ?thesis by (auto dest!: recordRefund_ok appends_desk(8))
next
  case Manual
  with st show ?thesis by (auto dest!: manualMovement_ok appends_desk(8))
next
  case (ReceiveHandover actor i)
  from receiveHandover_ok [OF this] obtain h where
    "find (\<lambda>h. hnd_id h = i) (dsk_handovers d) = Some h" "hnd_receivedAt h = None" by blast
  with closed_rows(1) [OF ok st] show ?thesis by (blast dest: find_SomeD)
next
  case ReleaseDrawer
  with closed_rows(2) [OF ok st] show ?thesis by (auto dest!: releaseDrawer_ok)
qed (use st in \<open>auto dest!: startCount_ok declare_ok annotate_ok verify_ok createHandover_ok close_ok\<close>)

text \<open>Property C6: whatever happened in a session that was opened and is closed, its stored cut
  says: expected is the opening fund plus all the cash recorded, declared is the cashier's counted
  cash, which the handovers share out completely, each of them received; another user verified and
  another user closed, and each channel's difference is declared less expected.\<close>

theorem closed_cut_is_sound:
  assumes run: "(desk_step collate elsewhere)\<^sup>*\<^sup>* (new_desk sid tenantId registerId cashierId opening) d"
    and closed: "csn_status (dsk_session d) = SessionClosed"
  shows "\<exists>c declaration verification. dsk_closing d = Some c \<and>
    cls_expectedCents (clr_snapshot c) = JsInt (opening + (\<Sum>m\<leftarrow>recorded d. cash_delta m)) \<and>
    declaration \<in> set (dsk_declarations d) \<and> verification \<in> set (dsk_verifications d) \<and>
    cnr_actorUserId declaration = cashierId \<and> cnr_actorUserId verification \<noteq> cashierId \<and>
    cls_closedByUserId (clr_snapshot c) \<noteq> cashierId \<and>
    cls_declaredCents (clr_snapshot c) = cash_line_cents (cnr_lines declaration) \<and>
    cls_declaredCents (clr_snapshot c) = JsInt (handed_over d) \<and>
    (\<forall>h\<in>set (dsk_handovers d). received_properly h) \<and>
    (\<exists>ex. dsk_expected d = Some ex \<and>
      list_all2 (cut_line (cnr_lines declaration) (cnr_lines verification)) (exs_channels ex)
        (cls_channels (clr_snapshot c)))"
proof -
  have ok: "desk_ok collate d" by (rule desk.inv_reach [OF run new_desk_ok])
  have "session_terms d = session_terms (new_desk sid tenantId registerId cashierId opening)"
    using run by (induction rule: rtranclp_induct) (auto dest: desk_step_keeps simp: keeps_def)
  then have terms: "csn_cashierUserId (dsk_session d) = cashierId"
    "csn_openingCents (dsk_session d) = opening"
    by (simp_all add: session_terms_def new_desk_def)
  obtain c where c: "dsk_closing d = Some c" and cut: "cut_of d c"
    using ok closed by (auto simp: desk_ok_def stage_ok_def)
  obtain e where e: "dsk_expected d = Some e" "exs_cashExpectedCents e = book_cash d"
    using expected_is_balance [OF ok] closed by auto
  have counts: "\<forall>r\<in>set (dsk_declarations d). cnr_actorUserId r = cashierId"
    "\<forall>r\<in>set (dsk_verifications d). cnr_actorUserId r \<noteq> cashierId"
    "\<forall>h\<in>set (dsk_handovers d). hnd_receivedAt h \<noteq> None \<longrightarrow> received_properly h"
    using ok by (simp_all add: desk_ok_def counts_ok_def custody_ok_def terms)
  show ?thesis
    using cut counts e c unfolding cut_of_def terms book_cash_def handed_over_def by fastforce
qed

theorem closed_cut_is_sound_witness:
  "reached (sample_desk 9) (\<lambda>d. case dsk_closing d of
     Some c \<Rightarrow> cls_expectedCents (clr_snapshot c) = JsInt 14300 \<and>
       cls_declaredCents (clr_snapshot c) = JsInt (handed_over d)
   | None \<Rightarrow> False)"
proof -
  obtain d where d: "sample_desk 9 = Inr d" "csn_status (dsk_session d) = SessionClosed"
    using reachedD [OF sample_closed] by blast
  have "reached (sample_desk 9) (\<lambda>d. (\<Sum>m\<leftarrow>recorded d. cash_delta m) = 4300)" by code_simp
  with d(1) have "(\<Sum>m\<leftarrow>recorded d. cash_delta m) = 4300" by (simp add: reached_def)
  with closed_cut_is_sound [OF sample_reach [OF d(1), unfolded fresh_desk_def] d(2)]
  show ?thesis by (auto simp: reached_def d(1))
qed

text \<open>Once the count has started, no sequence of operations changes the ledger, the
  frozen snapshot, the opening fund or the cashier, and nothing at all changes in a closed
  session.\<close>

theorem counted_session_frozen:
  assumes run: "(desk_step collate elsewhere)\<^sup>*\<^sup>* d d'" and ok: "desk_ok collate d"
    and counting: "csn_status (dsk_session d) \<noteq> SessionOpen"
  shows "frozen_books d' = frozen_books d \<and>
    (csn_status (dsk_session d) = SessionClosed \<longrightarrow> d' = d)"
proof
  have "1 \<le> desk_phase d" using counting by (cases "csn_status (dsk_session d)") (auto simp: desk_phase_def)
  with run show "frozen_books d' = frozen_books d" by (rule desk.frozen)
  show "csn_status (dsk_session d) = SessionClosed \<longrightarrow> d' = d"
    using run by (induction rule: rtranclp_induct) (auto dest: closed_is_final [OF ok])
qed

theorem counted_session_frozen_witness:
  "reached (sample_desk 3) (\<lambda>d. reached (sample_desk 9) (\<lambda>d'. frozen_books d' = frozen_books d))"
proof -
  obtain d' where d': "sample_desk 9 = Inr d'" using reachedD [OF sample_closed] by blast
  have "reached (sample_desk 3) (\<lambda>d. csn_status (dsk_session d) = SessionCounting)" by code_simp
  then obtain d where d: "sample_desk 3 = Inr d" "csn_status (dsk_session d) = SessionCounting"
    by (blast dest: reachedD)
  have "(desk_step id {})\<^sup>*\<^sup>* d d'" by (rule sample_between [OF d(1) d']) simp
  moreover have "desk_ok id d" by (rule desk.inv_reach [OF sample_reach [OF d(1)] fresh_desk_ok])
  ultimately show ?thesis
    using counted_session_frozen d(2) by (simp add: reached_def d(1) d')
qed

text \<open>Property C12: a session implements the till: along any operations on a sound session the
  till it stands for moves by steps of the till, or rests.\<close>

theorem session_refines_till:
  assumes "(desk_step collate elsewhere)\<^sup>*\<^sup>* d d'" and "desk_ok collate d"
  shows "till_step\<^sup>*\<^sup>* (till_of d) (till_of d')"
  using assms
proof (induction rule: rtranclp_induct)
  case (step y z)
  from desk.inv_reach [OF step.hyps(1) step.prems] step
  show ?case by (auto dest: desk_step_till intro: rtranclp.rtrancl_into_rtrancl)
qed simp

theorem session_refines_till_witness:
  "reached (sample_desk 9) (\<lambda>d. till_step\<^sup>*\<^sup>*
     \<lparr>til_phase = 0, til_balance = 10000, til_declared = 0, til_promised = 0, til_released = False\<rparr>
     \<lparr>til_phase = 3, til_balance = 14300, til_declared = 14300, til_promised = 14300,
      til_released = True\<rparr>)"
proof -
  obtain d where d: "sample_desk 9 = Inr d" using reachedD [OF sample_closed] by blast
  have "reached (sample_desk 9) (\<lambda>d. till_of d =
     \<lparr>til_phase = 3, til_balance = 14300, til_declared = 14300, til_promised = 14300,
      til_released = True\<rparr>)" by code_simp
  then have "till_of d =
     \<lparr>til_phase = 3, til_balance = 14300, til_declared = 14300, til_promised = 14300,
      til_released = True\<rparr>" by (simp add: reached_def d)
  moreover have "till_of fresh_desk =
     \<lparr>til_phase = 0, til_balance = 10000, til_declared = 0, til_promised = 0, til_released = False\<rparr>"
    by code_simp
  ultimately show ?thesis
    using session_refines_till [OF sample_reach [OF d] fresh_desk_ok] by (simp add: reached_def d)
qed

subsection \<open>The tables of a tenant\<close>

definition no_tables :: cash_tenant where
  "no_tables = \<lparr>ctn_registers = [], ctn_sessions = [], ctn_commands = []\<rparr>"

lemma no_tables_ok: "tenant_ok collate no_tables"
  by (simp add: tenant_ok_def sessions_ok_def no_tables_def unreleased_def tenant_sources_def
      List.map_filter_simps)

text \<open>Property C11: in whatever state commands and ledger calls bring a tenant's tables, a register
  has at most one session whose drawer is not released, a float funds at most one session, whose
  cashier received it and whose opening fund is exactly what was received, no payment, refund or
  manual movement is booked twice in any session, and every session is sound.\<close>

theorem tenant_tables_sound:
  assumes "(tenant_step collate sha256 body tenantId)\<^sup>*\<^sup>* no_tables st"
  shows "distinct (unreleased (ctn_sessions st)) \<and>
    distinct (List.map_filter tss_openingHandoverId (ctn_sessions st)) \<and>
    (\<forall>s\<in>set (ctn_sessions st). desk_ok collate (tss_desk s) \<and>
       (\<forall>i. tss_openingHandoverId s = Some i \<longrightarrow> funds (ctn_sessions st) s i)) \<and>
    distinct (tenant_sources (ctn_sessions st)) \<and>
    distinct (map crg_name (ctn_registers st))"
  using tenant.inv_reach [OF assms no_tables_ok] by (simp add: tenant_ok_def sessions_ok_def)

definition env_of :: "cash_actor \<Rightarrow> ident \<Rightarrow> timestamp \<Rightarrow> cash_env" where
  "env_of actor uuid now = \<lparr>cev_actor = actor, cev_coarse = (\<lambda>_ _. True),
     cev_recipientActive = True, cev_recipientMember = True, cev_uuid = uuid, cev_folio = ''CC-1'',
     cev_now = now\<rparr>"

text \<open>A hash that tells the samples apart.\<close>

definition sample_hash :: "ident \<Rightarrow> cash_command \<Rightarrow> string" where
  "sample_hash u c = u @ fst (CASH_COMMAND_ABILITY (command_kind c)) @
     snd (CASH_COMMAND_ABILITY (command_kind c)) @ target_session c"

definition run_one :: "cash_tenant \<Rightarrow> cash_env \<times> cash_command \<times> string
    \<Rightarrow> (cash_document \<times> cash_tenant) result" where
  "run_one st c = execute id sample_hash (\<lambda>_ _. ''{}'') ''t1'' (fst c) (fst (snd c)) (snd (snd c)) st"

definition run_from :: "cash_tenant \<Rightarrow> (cash_env \<times> cash_command \<times> string) list \<Rightarrow> cash_tenant result" where
  "run_from st cs = loopR (\<lambda>st c. mapR snd (run_one st c)) st cs"

abbreviation sample_tenant_step :: "cash_tenant \<Rightarrow> cash_tenant \<Rightarrow> bool" where
  "sample_tenant_step \<equiv> tenant_step id sample_hash (\<lambda>_ _. ''{}'') ''t1''"

definition float_commands :: "(cash_env \<times> cash_command \<times> string) list" where
  "float_commands =
     [(env_of cashier ''r1'' 1, CreateRegister '' Front '', ''k1''),
      (env_of cashier ''s1'' 2, OpenSession ''r1'' (JsInt 10000) None True, ''k2''),
      (env_of cashier ''u1'' 3, CashInOut True ''s1'' (JsInt 4300) ''coins'', ''k3''),
      (env_of cashier ''u2'' 4, StartCount ''s1'', ''k4''),
      (env_of cashier ''u3'' 5, DeclareCount ''s1'' cash_count None None, ''k5''),
      (env_of cashier ''h1'' 6, CreateHandover ''s1'' Float ''bob'' (JsInt 14300), ''k6''),
      (env_of auditor ''u4'' 7, ReceiveHandover ''h1'' (JsInt 14300) None, ''k7''),
      (env_of cashier ''u5'' 8, ReleaseDrawer ''s1'', ''k8''),
      (env_of auditor ''s2'' 9, OpenSession ''r1'' (JsInt 14300) (Some ''h1'') True, ''k9'')]"

lemma run_one_step: "run_one st c = Inr r \<Longrightarrow> sample_tenant_step st (snd r)"
  unfolding run_one_def by (cases r) (auto intro: tenant_step.Execute)

lemma run_from_Cons:
  assumes "run_from st (c # cs) = Inr st'"
  obtains r where "run_one st c = Inr r" and "run_from (snd r) cs = Inr st'"
  using assms unfolding run_from_def by (auto simp: result_simps)

lemma run_from_reach: "run_from st cs = Inr st' \<Longrightarrow> sample_tenant_step\<^sup>*\<^sup>* st st'"
proof (induction cs arbitrary: st)
  case Nil
  then show ?case by (simp add: run_from_def)
next
  case (Cons c cs)
  from Cons.prems obtain r where r: "run_one st c = Inr r" "run_from (snd r) cs = Inr st'"
    by (rule run_from_Cons)
  from run_one_step [OF r(1)] Cons.IH [OF r(2)] show ?case by (rule converse_rtranclp_into_rtranclp)
qed

theorem tenant_tables_sound_witness:
  "case run_from no_tables float_commands of
     Inr st \<Rightarrow> length (ctn_sessions st) = 2 \<and> distinct (unreleased (ctn_sessions st)) \<and>
       funds (ctn_sessions st) (last (ctn_sessions st)) ''h1''
   | Inl _ \<Rightarrow> False"
proof -
  have "case run_from no_tables float_commands of
      Inr st \<Rightarrow> length (ctn_sessions st) = 2 \<and>
        tss_openingHandoverId (last (ctn_sessions st)) = Some ''h1''
    | Inl _ \<Rightarrow> False" by code_simp
  then obtain st where st: "run_from no_tables float_commands = Inr st" "length (ctn_sessions st) = 2"
    "tss_openingHandoverId (last (ctn_sessions st)) = Some ''h1''"
    by (auto split: sum.splits)
  then have "last (ctn_sessions st) \<in> set (ctn_sessions st)" by (intro last_in_set) auto
  with tenant_tables_sound [OF run_from_reach [OF st(1)]] st show ?thesis by simp
qed

text \<open>Property C31: a command takes effect once per idempotency key.  After it was accepted, and
  whatever happened since, executing any command under the same key either fails or, with the same
  request hash, returns the stored answer and changes nothing.\<close>

theorem execute_once_per_key:
  assumes first: "execute collate sha256 body tenantId env cmd key st = Inr (doc, st1)"
    and ok: "tenant_ok collate st"
    and run: "(tenant_step collate sha256 body tenantId)\<^sup>*\<^sup>* st1 st2"
    and same: "trim key' = trim key"
  shows "case execute collate sha256 body tenantId env' cmd' key' st2 of
      Inr (doc', st3) \<Rightarrow> doc' = doc \<and> st3 = st2 \<and>
        sha256 (act_userId (cev_actor env')) cmd' = sha256 (act_userId (cev_actor env)) cmd
    | Inl _ \<Rightarrow> True"
proof -
  have ok1: "tenant_ok collate st1"
    using tenant_step_ok [OF tenant_step.Execute [OF first] ok] by simp
  obtain row where row: "find (\<lambda>r. cmr_key r = trim key) (ctn_commands st1) = Some row"
    and answer: "cmr_response row = doc" "cmr_requestHash row = sha256 (act_userId (cev_actor env)) cmd"
    using execute_ok [OF first] by (auto dest!: runCommand_tenant [OF ok] simp: find_app)
  have stored: "find (\<lambda>r. cmr_key r = trim key) (ctn_commands st2) = Some row"
    using answered.inv_reach [OF run] ok1 row by blast
  show ?thesis
  proof (cases "execute collate sha256 body tenantId env' cmd' key' st2")
    case (Inr r)
    obtain doc' st3 where r: "r = (doc', st3)" by (cases r)
    from execute_ok [OF Inr [unfolded r]] stored answer same show ?thesis by (simp add: Inr r)
  qed simp
qed

theorem execute_once_per_key_witness:
  "reached (run_from no_tables float_commands) (\<lambda>st.
     run_one st (env_of cashier ''u9'' 20, CreateRegister '' Front '', '' k1'') =
       Inr (\<lparr>cdc_session = None, cdc_body = ''{}''\<rparr>, st))"
proof -
  let ?again = "(env_of cashier ''u9'' 20, CreateRegister '' Front '', '' k1'')"
  let ?one = "(env_of cashier ''r1'' 1, CreateRegister '' Front '', ''k1'')"
  have "reached (run_from no_tables float_commands) (\<lambda>st. reached (run_one st ?again) (\<lambda>_. True))"
    by code_simp
  then obtain st r where st: "run_from no_tables float_commands = Inr st"
    and r: "run_one st ?again = Inr r"
    by (blast dest: reachedD)
  from st obtain a where a: "run_one no_tables ?one = Inr a" and rest: "run_from (snd a) (tl float_commands) = Inr st"
    unfolding float_commands_def list.sel by (rule run_from_Cons)
  have "reached (run_one no_tables ?one) (\<lambda>a. fst a = \<lparr>cdc_session = None, cdc_body = ''{}''\<rparr>)"
    by code_simp
  then have doc: "fst a = \<lparr>cdc_session = None, cdc_body = ''{}''\<rparr>" by (simp add: reached_def a)
  have same: "trim '' k1'' = trim ''k1''" by code_simp
  have "execute id sample_hash (\<lambda>_ _. ''{}'') ''t1'' (env_of cashier ''r1'' 1)
      (CreateRegister '' Front '') ''k1'' no_tables = Inr (fst a, snd a)"
    using a by (simp add: run_one_def)
  from execute_once_per_key [OF this no_tables_ok run_from_reach [OF rest] same,
      of "env_of cashier ''u9'' 20" "CreateRegister '' Front ''"] r doc
  have "r = (\<lparr>cdc_session = None, cdc_body = ''{}''\<rparr>, st)"
    by (auto simp: run_one_def split: prod.splits)
  with r show ?thesis by (simp add: reached_def st)
qed

end
