(* ===== verification/DeliveryRoute.thy ===== *)
theory DeliveryRoute
  imports Sale Lifecycle
begin

section \<open>Delivery routes\<close>

text \<open>
  The aggregate of \<open>src/src/delivery-routes/domain/delivery-route.entity.ts\<close> and its
  stops (\<open>delivery-route-stop.entity.ts\<close>): a record per class, a function per
  method.  A method that mutates the aggregate returns it; \<open>reorderStops\<close> and
  \<open>transferStopTo\<close>, which mutate before they may throw, return it beside the result.

  The identifiers \<open>randomUUID\<close> makes and the readings of the clock are arguments, and
  so is the eligibility probe.  Positions are array indices, so integers.  The stops
  of a route are addressed by their identifier, which is their primary key.
\<close>

subsection \<open>Stops\<close>

datatype stop_status = StopPending | StopInProgress | StopCompleted | StopSkipped

fun stop_status_name :: "stop_status \<Rightarrow> string" where
  "stop_status_name StopPending = ''PENDING''"
| "stop_status_name StopInProgress = ''IN_PROGRESS''"
| "stop_status_name StopCompleted = ''COMPLETED''"
| "stop_status_name StopSkipped = ''SKIPPED''"

record route_stop =
  rst_id :: ident
  rst_tenantId :: ident
  rst_routeId :: ident
  rst_saleId :: ident
  rst_sortOrder :: int
  rst_status :: stop_status
  rst_checkedInAt :: "timestamp option"
  rst_completedAt :: "timestamp option"
  rst_skippedReason :: "string option"
  rst_activeRouteId :: "ident option"
  rst_createdAt :: timestamp
  rst_updatedAt :: timestamp

definition bad_sort_order :: domain_error where
  "bad_sort_order = PlainError ''DeliveryRouteStop sortOrder must be a non-negative integer''"

definition stop_create ::
  "ident \<Rightarrow> ident \<Rightarrow> ident \<Rightarrow> ident \<Rightarrow> int \<Rightarrow> timestamp \<Rightarrow> route_stop result" where
  "stop_create i tenantId routeId saleId sortOrder now =
     andThen (throw_if (is_blank i) (PlainError ''DeliveryRouteStop id is required'')) (\<lambda>_.
     andThen (throw_if (is_blank tenantId) (PlainError ''DeliveryRouteStop tenantId is required'')) (\<lambda>_.
     andThen (throw_if (is_blank routeId) (PlainError ''DeliveryRouteStop routeId is required'')) (\<lambda>_.
     andThen (throw_if (is_blank saleId) (PlainError ''DeliveryRouteStop saleId is required'')) (\<lambda>_.
     andThen (throw_if (sortOrder < 0) bad_sort_order) (\<lambda>_.
       Inr \<lparr>rst_id = i, rst_tenantId = tenantId, rst_routeId = routeId, rst_saleId = saleId,
            rst_sortOrder = sortOrder, rst_status = StopPending, rst_checkedInAt = None,
            rst_completedAt = None, rst_skippedReason = None, rst_activeRouteId = None,
            rst_createdAt = now, rst_updatedAt = now\<rparr>)))))"

definition markCompleted :: "timestamp \<Rightarrow> route_stop \<Rightarrow> route_stop" where
  "markCompleted now s =
     (if rst_status s = StopCompleted then s
      else s\<lparr>rst_status := StopCompleted, rst_checkedInAt := Some now,
             rst_completedAt := Some now, rst_updatedAt := now\<rparr>)"

definition setActiveRouteId :: "ident option \<Rightarrow> route_stop \<Rightarrow> route_stop" where
  "setActiveRouteId i s = s\<lparr>rst_activeRouteId := i\<rparr>"

definition relocateTo :: "ident \<Rightarrow> int \<Rightarrow> timestamp \<Rightarrow> route_stop \<Rightarrow> route_stop result" where
  "relocateTo routeId sortOrder now s =
     andThen (throw_if (is_blank routeId) (PlainError ''DeliveryRouteStop routeId is required'')) (\<lambda>_.
     andThen (throw_if (sortOrder < 0) bad_sort_order) (\<lambda>_.
       Inr (s\<lparr>rst_routeId := routeId, rst_sortOrder := sortOrder, rst_status := StopPending,
              rst_checkedInAt := None, rst_completedAt := None, rst_skippedReason := None,
              rst_activeRouteId := Some routeId, rst_updatedAt := now\<rparr>)))"

text \<open>Only called with an index, so the guard never throws and the stop is returned.\<close>

definition setSortOrder :: "timestamp \<Rightarrow> int \<Rightarrow> route_stop \<Rightarrow> route_stop" where
  "setSortOrder clock sortOrder s =
     (if sortOrder < 0 then s else s\<lparr>rst_sortOrder := sortOrder, rst_updatedAt := clock\<rparr>)"

subsection \<open>The aggregate\<close>

datatype route_status = RouteDraft | RouteActive | RouteCompleted | RouteCancelled

fun route_status_name :: "route_status \<Rightarrow> string" where
  "route_status_name RouteDraft = ''DRAFT''"
| "route_status_name RouteActive = ''ACTIVE''"
| "route_status_name RouteCompleted = ''COMPLETED''"
| "route_status_name RouteCancelled = ''CANCELLED''"

record eligibility_snapshot =
  els_deliveryStatus :: sale_delivery_status
  els_hasShippingAddress :: bool

record delivery_route =
  drt_id :: ident
  drt_tenantId :: ident
  drt_driverUserId :: ident
  drt_status :: route_status
  drt_startedAt :: "timestamp option"
  drt_completedAt :: "timestamp option"
  drt_cancelledAt :: "timestamp option"
  drt_notes :: "string option"
  drt_createdAt :: timestamp
  drt_updatedAt :: timestamp
  drt_stops :: "route_stop list"

definition invalid_transition :: "string \<Rightarrow> domain_error" where
  "invalid_transition msg = BusinessRuleViolationError msg ''DELIVERY_ROUTE_INVALID_TRANSITION''"

definition sale_not_eligible :: "string \<Rightarrow> domain_error" where
  "sale_not_eligible msg = BusinessRuleViolationError msg ''DELIVERY_ROUTE_STOP_SALE_NOT_ELIGIBLE''"

definition is_eligible :: "eligibility_snapshot option \<Rightarrow> bool" where
  "is_eligible e \<longleftrightarrow> (case e of None \<Rightarrow> False
     | Some s \<Rightarrow> els_deliveryStatus s \<in> {DeliveryPending, DeliveryShipped} \<and> els_hasShippingAddress s)"

definition assert_eligible :: "(ident \<Rightarrow> eligibility_snapshot option) \<Rightarrow> ident \<Rightarrow> unit result" where
  "assert_eligible probe saleId =
     throw_if (\<not> is_eligible (probe saleId))
       (sale_not_eligible (''Sale \"'' @ saleId @ ''\" is not eligible for delivery''))"

definition assertDraft :: "delivery_route \<Rightarrow> unit result" where
  "assertDraft r =
     throw_if (drt_status r \<noteq> RouteDraft)
       (invalid_transition (''Operation not allowed in status \"'' @ route_status_name (drt_status r) @
         ''\" (DRAFT only)''))"

text \<open>One stop of \<open>create\<close> and \<open>addStop\<close>: probed, built, and reserved for the route.\<close>

definition reserved_stop ::
  "(ident \<Rightarrow> eligibility_snapshot option) \<Rightarrow> ident \<Rightarrow> ident \<Rightarrow> ident \<Rightarrow> ident \<Rightarrow> int \<Rightarrow> timestamp
     \<Rightarrow> route_stop result" where
  "reserved_stop probe uuid tenantId routeId saleId position now =
     andThen (assert_eligible probe saleId) (\<lambda>_.
       mapR (setActiveRouteId (Some routeId)) (stop_create uuid tenantId routeId saleId position now))"

definition route_create ::
  "(ident \<Rightarrow> eligibility_snapshot option) \<Rightarrow> (nat \<Rightarrow> ident) \<Rightarrow> ident \<Rightarrow> ident \<Rightarrow> ident \<Rightarrow> ident list
     \<Rightarrow> string option \<Rightarrow> timestamp \<Rightarrow> delivery_route result" where
  "route_create probe uuid routeId tenantId driverUserId saleIds notes now =
     andThen (throw_if (is_blank tenantId) (PlainError ''DeliveryRoute tenantId is required'')) (\<lambda>_.
     andThen (throw_if (is_blank driverUserId) (PlainError ''DeliveryRoute driverUserId is required'')) (\<lambda>_.
     andThen (throw_if (saleIds = [])
       (invalid_transition ''A DeliveryRoute requires at least one sale'')) (\<lambda>_.
     andThen (throw_if (\<not> distinct saleIds)
       (sale_not_eligible ''Duplicate saleIds in the same create payload'')) (\<lambda>_.
     andThen (loopR (\<lambda>stops saleId. mapR (\<lambda>s. stops @ [s])
                (reserved_stop probe (uuid (length stops)) tenantId routeId saleId
                   (int (length stops)) now))
              [] saleIds) (\<lambda>stops.
       Inr \<lparr>drt_id = routeId, drt_tenantId = tenantId, drt_driverUserId = driverUserId,
            drt_status = RouteDraft, drt_startedAt = None, drt_completedAt = None,
            drt_cancelledAt = None,
            drt_notes = (if truthy notes \<and> trim (or_default notes '''') \<noteq> ''''
                         then Some (trim (or_default notes '''')) else None),
            drt_createdAt = now, drt_updatedAt = now, drt_stops = stops\<rparr>)))))"

definition addStop ::
  "(ident \<Rightarrow> eligibility_snapshot option) \<Rightarrow> ident \<Rightarrow> ident \<Rightarrow> timestamp \<Rightarrow> delivery_route
     \<Rightarrow> delivery_route result" where
  "addStop probe uuid saleId now r =
     andThen (assertDraft r) (\<lambda>_.
     andThen (reserved_stop probe uuid (drt_tenantId r) (drt_id r) saleId
                (int (length (drt_stops r))) now) (\<lambda>s.
       Inr (r\<lparr>drt_stops := drt_stops r @ [s], drt_updatedAt := now\<rparr>)))"

text \<open>
  The loop of \<open>reorderStops\<close>: the stop objects of the route, of which the visited
  ones already carry their new position, and the positions given so far.  When an
  identifier is unknown or repeated the loop throws and the objects keep the
  positions they were given.
\<close>

fun reorder_loop ::
  "timestamp \<Rightarrow> ident list \<Rightarrow> ident list \<Rightarrow> route_stop list \<Rightarrow> unit result \<times> route_stop list" where
  "reorder_loop clock seen [] stops = (Inr (), stops)"
| "reorder_loop clock seen (i # is) stops =
     (if \<forall>s\<in>set stops. rst_id s \<noteq> i
      then (Inl (invalid_transition (''Stop \"'' @ i @ ''\" does not belong to this route'')), stops)
      else if i \<in> set seen
      then (Inl (invalid_transition ''Stop ids in orderedStopIds must be unique''), stops)
      else reorder_loop clock (seen @ [i]) is
             (update_first (\<lambda>s. rst_id s = i) (setSortOrder clock (int (length seen))) stops))"

definition reorderStops ::
  "timestamp \<Rightarrow> ident list \<Rightarrow> delivery_route \<Rightarrow> unit result \<times> delivery_route" where
  "reorderStops now ordered r =
     (case andThen (assertDraft r) (\<lambda>_. throw_if (length ordered \<noteq> length (drt_stops r))
             (invalid_transition ''reorderStops must reference every stop exactly once'')) of
        Inl e \<Rightarrow> (Inl e, r)
      | Inr _ \<Rightarrow>
          (case reorder_loop now [] ordered (drt_stops r) of
             (Inl e, stops) \<Rightarrow> (Inl e, r\<lparr>drt_stops := stops\<rparr>)
           | (Inr _, stops) \<Rightarrow>
               (Inr (), r\<lparr>drt_stops := List.map_filter (\<lambda>i. find (\<lambda>s. rst_id s = i) stops) ordered,
                         drt_updatedAt := now\<rparr>)))"

definition assignDriver :: "ident \<Rightarrow> timestamp \<Rightarrow> delivery_route \<Rightarrow> delivery_route result" where
  "assignDriver driverUserId now r =
     andThen (assertDraft r) (\<lambda>_.
     andThen (throw_if (is_blank driverUserId) (PlainError ''driverUserId is required'')) (\<lambda>_.
       Inr (r\<lparr>drt_driverUserId := driverUserId, drt_updatedAt := now\<rparr>)))"

definition updateNotes :: "string option \<Rightarrow> timestamp \<Rightarrow> delivery_route \<Rightarrow> delivery_route result" where
  "updateNotes notes now r =
     andThen (assertDraft r) (\<lambda>_.
       Inr (r\<lparr>drt_notes := (if truthy notes \<and> trim (or_default notes '''') \<noteq> ''''
                           then Some (trim (or_default notes '''')) else None),
              drt_updatedAt := now\<rparr>))"

definition renumber :: "timestamp \<Rightarrow> route_stop list \<Rightarrow> route_stop list" where
  "renumber clock stops = map (\<lambda>(n, s). setSortOrder clock (int n) s) (enumerate 0 stops)"

text \<open>
  The origin drops the stop and renumbers the rest before \<open>relocateTo\<close> may throw.
  Two aggregates of one identifier are the same route.
\<close>

definition transferStopTo ::
  "ident \<Rightarrow> timestamp \<Rightarrow> delivery_route \<Rightarrow> delivery_route
     \<Rightarrow> unit result \<times> delivery_route \<times> delivery_route" where
  "transferStopTo stopId now origin destination =
     (case andThen (throw_if (drt_id destination = drt_id origin)
               (invalid_transition ''Cannot transfer a stop to its own route'')) (\<lambda>_.
           andThen (assertDraft origin) (\<lambda>_.
           andThen (assertDraft destination) (\<lambda>_.
             case find (\<lambda>s. rst_id s = stopId) (drt_stops origin) of
               None \<Rightarrow> Inl (invalid_transition (''Stop \"'' @ stopId @ ''\" does not belong to this route''))
             | Some moved \<Rightarrow>
                 if \<exists>s\<in>set (drt_stops destination). rst_saleId s = rst_saleId moved
                 then Inl (invalid_transition (''Destination route already has a stop for sale \"'' @
                        rst_saleId moved @ ''\"''))
                 else Inr moved))) of
        Inl e \<Rightarrow> (Inl e, origin, destination)
      | Inr moved \<Rightarrow>
          let origin' = origin\<lparr>drt_stops := renumber now
                          (remove_first (\<lambda>s. rst_id s = stopId) (drt_stops origin)),
                        drt_updatedAt := now\<rparr> in
          (case relocateTo (drt_id destination) (int (length (drt_stops destination))) now moved of
             Inl e \<Rightarrow> (Inl e, origin', destination)
           | Inr s \<Rightarrow> (Inr (), origin', destination\<lparr>drt_stops := drt_stops destination @ [s],
                                                   drt_updatedAt := now\<rparr>)))"

definition route_start :: "timestamp \<Rightarrow> delivery_route \<Rightarrow> delivery_route result" where
  "route_start now r =
     andThen (assertDraft r) (\<lambda>_.
     andThen (throw_if (drt_stops r = [])
       (invalid_transition ''Cannot start a route with zero stops'')) (\<lambda>_.
       Inr (r\<lparr>drt_stops := map (setActiveRouteId (Some (drt_id r))) (drt_stops r),
              drt_status := RouteActive, drt_startedAt := Some now, drt_updatedAt := now\<rparr>)))"

definition is_open :: "route_stop \<Rightarrow> bool" where
  "is_open s \<longleftrightarrow> rst_status s = StopPending \<or> rst_status s = StopInProgress"

definition nextPendingStop :: "delivery_route \<Rightarrow> route_stop option" where
  "nextPendingStop r =
     (case sort_key rst_sortOrder (filter is_open (drt_stops r)) of [] \<Rightarrow> None | s # _ \<Rightarrow> Some s)"

record check_in_result =
  cir_route :: delivery_route
  cir_completedStop :: route_stop
  cir_nextStop :: "route_stop option"

definition not_active :: "delivery_route \<Rightarrow> domain_error" where
  "not_active r = invalid_transition (''Cannot check in a stop on a route in status \"'' @
     route_status_name (drt_status r) @ ''\"'')"

definition checkInStop :: "ident \<Rightarrow> timestamp \<Rightarrow> delivery_route \<Rightarrow> check_in_result result" where
  "checkInStop stopId now r =
     (case find (\<lambda>s. rst_id s = stopId) (drt_stops r) of
        None \<Rightarrow> Inl (invalid_transition (''Stop \"'' @ stopId @ ''\" does not belong to this route''))
      | Some s \<Rightarrow>
          if rst_status s = StopCompleted then
            andThen (throw_if (drt_status r \<noteq> RouteActive \<and> drt_status r \<noteq> RouteCompleted)
              (not_active r)) (\<lambda>_.
              Inr \<lparr>cir_route = r, cir_completedStop = s, cir_nextStop = nextPendingStop r\<rparr>)
          else
            andThen (throw_if (drt_status r \<noteq> RouteActive) (not_active r)) (\<lambda>_.
            andThen (throw_if (rst_status s \<noteq> StopPending)
              (invalid_transition (''Stop \"'' @ stopId @ ''\" cannot be checked in from status \"'' @
                stop_status_name (rst_status s) @ ''\"''))) (\<lambda>_.
            let s' = markCompleted now s;
                r' = r\<lparr>drt_stops := update_first (\<lambda>x. rst_id x = stopId) (markCompleted now) (drt_stops r)\<rparr>
            in case nextPendingStop r' of
                 Some n \<Rightarrow> Inr \<lparr>cir_route = r'\<lparr>drt_updatedAt := now\<rparr>, cir_completedStop = s',
                                cir_nextStop = Some n\<rparr>
               | None \<Rightarrow> Inr \<lparr>cir_route = r'\<lparr>drt_stops := map (setActiveRouteId None) (drt_stops r'),
                                            drt_status := RouteCompleted, drt_completedAt := Some now,
                                            drt_updatedAt := now\<rparr>,
                              cir_completedStop = setActiveRouteId None s', cir_nextStop = None\<rparr>)))"

definition route_cancel :: "timestamp \<Rightarrow> delivery_route \<Rightarrow> delivery_route result" where
  "route_cancel now r =
     andThen (throw_if (drt_status r \<noteq> RouteDraft \<and> drt_status r \<noteq> RouteActive)
       (invalid_transition (''Cannot cancel a route in status \"'' @ route_status_name (drt_status r) @ ''\"''))) (\<lambda>_.
       Inr (r\<lparr>drt_stops := map (setActiveRouteId None) (drt_stops r), drt_status := RouteCancelled,
              drt_cancelledAt := Some now, drt_updatedAt := now\<rparr>))"

definition canDelete :: "delivery_route \<Rightarrow> bool" where
  "canDelete r \<longleftrightarrow> drt_status r = RouteDraft \<and> drt_stops r = []"

subsection \<open>The timeline\<close>

datatype route_event_type = RouteCreated | RouteStarted | StopCheckedIn | RouteFinished | RouteDropped

record route_event =
  rev_type :: route_event_type
  rev_at :: timestamp
  rev_stop :: "(ident \<times> int) option"
  rev_actor :: "(ident \<times> string) option"

text \<open>ISO instants compare as the instants do; the sort is stable.\<close>

definition route_event_of ::
  "route_event_type \<Rightarrow> (ident \<times> int) option \<Rightarrow> (ident \<times> string) option \<Rightarrow> timestamp option
     \<Rightarrow> route_event list" where
  "route_event_of ty stop actor at =
     (case at of None \<Rightarrow> [] | Some t \<Rightarrow>
        [\<lparr>rev_type = ty, rev_at = t, rev_stop = stop, rev_actor = actor\<rparr>])"

definition buildDeliveryRouteTimeline ::
  "(ident \<times> string) option \<Rightarrow> delivery_route \<Rightarrow> route_event list" where
  "buildDeliveryRouteTimeline driver r =
     sort_key rev_at
       (route_event_of RouteCreated None None (Some (drt_createdAt r)) @
        route_event_of RouteStarted None driver (drt_startedAt r) @
        concat (map (\<lambda>s. route_event_of StopCheckedIn (Some (rst_id s, rst_sortOrder s)) driver
                          (rst_checkedInAt s)) (drt_stops r)) @
        route_event_of RouteFinished None driver (drt_completedAt r) @
        route_event_of RouteDropped None driver (drt_cancelledAt r))"

end
