(* ===== verification/DeliveryBoard.thy ===== *)
theory DeliveryBoard
  imports DeliveryRoute
begin

section \<open>Delivery routes in the database\<close>

text \<open>
  The routes of one tenant with the sales they deliver and the outbox: what
  \<open>src/src/delivery-routes/infrastructure/prisma-delivery-route.repository.ts\<close> reads
  and writes and \<open>src/src/delivery-routes/application/delivery-routes.service.ts\<close>
  composes into transactions.  A transaction that throws is rolled back, so a
  service operation returns the error or the new board.

  The code loads the stops of a route without an order: the parameter \<open>order\<close> is the
  permutation the database answers with.  \<open>collate\<close> is the sort key of
  \<open>localeCompare\<close>, \<open>can\<close> the ability of the caller on the instance with a given
  driver, \<open>uuid\<close> what \<open>randomUUID\<close> returns.
\<close>

subsection \<open>The tables\<close>

record delivery_customer =
  dcu_tenantId :: ident
  dcu_firstName :: string
  dcu_lastName :: "string option"
  dcu_email :: "string option"

record delivery_sale =
  dsl_status :: sale_status
  dsl_deliveryStatus :: sale_delivery_status
  dsl_customer :: "delivery_customer option"
  dsl_address :: "shipping_address option"

record next_stop_payload =
  nsp_tenantId :: ident
  nsp_routeId :: ident
  nsp_currentStopId :: ident
  nsp_nextStopId :: ident
  nsp_nextSaleId :: ident
  nsp_nextCustomerName :: "string option"
  nsp_nextAddressLabel :: "string option"
  nsp_nextCustomerEmail :: "string option"
  nsp_idempotencyKey :: string
  nsp_occurredAt :: timestamp

record thank_you_payload =
  typ_tenantId :: ident
  typ_saleId :: ident
  typ_routeId :: ident
  typ_stopId :: ident

datatype delivery_event = NextStopNotify next_stop_payload | ThankYouNotify thank_you_payload

record delivery_board =
  dbd_tenantId :: ident
  dbd_routes :: "delivery_route list"
  dbd_sales :: "ident \<rightharpoonup> delivery_sale"
  dbd_outbox :: "delivery_event list"

definition find_route :: "ident \<Rightarrow> delivery_board \<Rightarrow> delivery_route option" where
  "find_route i b = find (\<lambda>r. drt_id r = i) (dbd_routes b)"

text \<open>\<open>loadRoute\<close>, behind \<open>findById\<close>.\<close>

definition findById ::
  "(route_stop list \<Rightarrow> route_stop list) \<Rightarrow> ident \<Rightarrow> delivery_board \<Rightarrow> delivery_route option" where
  "findById order i b =
     map_option (\<lambda>r. r\<lparr>drt_stops := map (\<lambda>s. s\<lparr>rst_routeId := drt_id r\<rparr>) (order (drt_stops r))\<rparr>)
       (find_route i b)"

text \<open>
  The read model orders the stops by position.  The columns it joins (driver, folio,
  customer, address) and drops (the reservation marker) are left out.
\<close>

definition findOneWithStops :: "ident \<Rightarrow> delivery_board \<Rightarrow> delivery_route option" where
  "findOneWithStops i b =
     map_option (\<lambda>r. r\<lparr>drt_stops := sort_key rst_sortOrder (drt_stops r)\<rparr>) (find_route i b)"

text \<open>\<open>list\<close>: the newest first, of one driver and in one status when these are given.\<close>

definition list_routes ::
  "ident option \<Rightarrow> route_status option \<Rightarrow> delivery_board \<Rightarrow> delivery_route list" where
  "list_routes driver status b =
     map (\<lambda>r. r\<lparr>drt_stops := sort_key rst_sortOrder (drt_stops r)\<rparr>)
       (sort_key (\<lambda>r. - drt_createdAt r)
         (filter (\<lambda>r. (case driver of None \<Rightarrow> True | Some d \<Rightarrow> drt_driverUserId r = d)
                    \<and> (case status of None \<Rightarrow> True | Some s \<Rightarrow> drt_status r = s)) (dbd_routes b)))"

text \<open>The service lists every route to a route manager and a driver's own to a driver.\<close>

definition list_for_caller ::
  "bool \<Rightarrow> ident \<Rightarrow> route_status option \<Rightarrow> delivery_board \<Rightarrow> delivery_route list" where
  "list_for_caller isRouteManager userId status =
     list_routes (if isRouteManager then None else Some userId) status"

definition other_stops :: "ident \<Rightarrow> delivery_board \<Rightarrow> route_stop list" where
  "other_stops i b = concat (map drt_stops (filter (\<lambda>r. drt_id r \<noteq> i) (dbd_routes b)))"

definition already_reserved :: "string \<Rightarrow> domain_error" where
  "already_reserved msg =
     BusinessRuleViolationError msg ''DELIVERY_ROUTE_STOP_SALE_ALREADY_ON_ACTIVE_ROUTE''"

definition reserved :: "route_stop \<Rightarrow> bool" where
  "reserved s \<longleftrightarrow> rst_activeRouteId s \<noteq> None"

text \<open>
  The upsert of the parent row and the replacement of its stops.  The pre-check finds
  the sales other routes hold; the unique indexes of the stop table refuse a sale
  reserved twice by this route, and an identifier or a position that repeats.
\<close>

definition upsert_route :: "delivery_route \<Rightarrow> delivery_route list \<Rightarrow> delivery_route list" where
  "upsert_route r rows =
     (if \<exists>x\<in>set rows. drt_id x = drt_id r
      then update_first (\<lambda>x. drt_id x = drt_id r)
             (\<lambda>x. r\<lparr>drt_tenantId := drt_tenantId x, drt_createdAt := drt_createdAt x\<rparr>) rows
      else rows @ [r])"

definition saveRoute :: "delivery_route \<Rightarrow> delivery_board \<Rightarrow> delivery_board result" where
  "saveRoute r b =
     andThen (throw_if (\<exists>s\<in>set (drt_stops r). \<exists>t\<in>set (other_stops (drt_id r) b).
                reserved t \<and> rst_saleId t = rst_saleId s)
       (already_reserved ''One or more sales are already reserved by another draft or active route'')) (\<lambda>_.
     andThen (throw_if (\<not> distinct (map rst_saleId (filter reserved (drt_stops r))))
       (already_reserved ''One or more sales already belong to another draft or active route'')) (\<lambda>_.
     andThen (throw_if (\<not> distinct (map rst_id (drt_stops r @ other_stops (drt_id r) b))
                 \<and> drt_stops r \<noteq> [])
       (PlainError ''Unique constraint failed on the fields: (`id`)'')) (\<lambda>_.
     andThen (throw_if (\<not> distinct (map rst_sortOrder (drt_stops r)))
       (PlainError ''Unique constraint failed on the fields: (`routeId`,`sortOrder`)'')) (\<lambda>_.
       Inr (b\<lparr>dbd_routes := upsert_route r (dbd_routes b)\<rparr>)))))"

text \<open>\<open>delete\<close>: a route that is gone already is no error.\<close>

definition deleteRoute :: "ident \<Rightarrow> delivery_board \<Rightarrow> delivery_board result" where
  "deleteRoute i b =
     (case find_route i b of
        None \<Rightarrow> Inr b
      | Some r \<Rightarrow>
          andThen (throw_if (drt_status r \<noteq> RouteDraft \<or> drt_stops r \<noteq> [])
            (invalid_transition ''DeliveryRoute can only be deleted when DRAFT with no stops'')) (\<lambda>_.
            Inr (b\<lparr>dbd_routes := filter (\<lambda>x. drt_id x \<noteq> i) (dbd_routes b)\<rparr>)))"

subsection \<open>Mutations under row locks\<close>

definition route_not_found :: "ident \<Rightarrow> domain_error" where
  "route_not_found i = EntityNotFoundError ''DeliveryRoute'' i"

definition checkSaleEligibility :: "delivery_board \<Rightarrow> ident \<Rightarrow> eligibility_snapshot option" where
  "checkSaleEligibility b saleId =
     map_option (\<lambda>s. \<lparr>els_deliveryStatus = dsl_deliveryStatus s,
                      els_hasShippingAddress = dsl_address s \<noteq> None\<rparr>) (dbd_sales b saleId)"

definition lockRoutesForUpdate ::
  "(ident \<Rightarrow> string) \<Rightarrow> ident list \<Rightarrow> delivery_board \<Rightarrow> ident list" where
  "lockRoutesForUpdate collate ids b =
     filter (\<lambda>i. find_route i b = None) (sort_key collate (unique ids))"

text \<open>One route, locked and loaded; the two of a transfer.\<close>

definition with_route ::
  "(route_stop list \<Rightarrow> route_stop list) \<Rightarrow> ident \<Rightarrow> (delivery_route \<Rightarrow> 'a result) \<Rightarrow> delivery_board
     \<Rightarrow> 'a result" where
  "with_route order i work b =
     (case findById order i b of None \<Rightarrow> Inl (route_not_found i) | Some r \<Rightarrow> work r)"

definition runWithRouteLocks ::
  "(ident \<Rightarrow> string) \<Rightarrow> (route_stop list \<Rightarrow> route_stop list) \<Rightarrow> ident list
     \<Rightarrow> ((ident \<times> delivery_route) list \<Rightarrow> 'a result) \<Rightarrow> delivery_board \<Rightarrow> 'a result" where
  "runWithRouteLocks collate order ids work b =
     (case lockRoutesForUpdate collate ids b of
        i # _ \<Rightarrow> Inl (route_not_found i)
      | [] \<Rightarrow> andThen (mapM_list (\<lambda>i. mapR (\<lambda>r. (i, r)) (with_route order i Inr b)) (unique ids)) work)"

text \<open>\<open>routes.get(i)!\<close> on a route that was locked.\<close>

definition with_locked ::
  "(ident \<Rightarrow> string) \<Rightarrow> (route_stop list \<Rightarrow> route_stop list) \<Rightarrow> ident
     \<Rightarrow> (delivery_route \<Rightarrow> 'a result) \<Rightarrow> delivery_board \<Rightarrow> 'a result" where
  "with_locked collate order i work b =
     runWithRouteLocks collate order [i] (\<lambda>routes.
       case assoc_get routes i of None \<Rightarrow> Inl (route_not_found i) | Some r \<Rightarrow> work r) b"

definition createRoute ::
  "(nat \<Rightarrow> ident) \<Rightarrow> ident \<Rightarrow> ident \<Rightarrow> ident list \<Rightarrow> string option \<Rightarrow> timestamp \<Rightarrow> delivery_board
     \<Rightarrow> delivery_board result" where
  "createRoute uuid routeId driverUserId saleIds notes now b =
     andThen (route_create (checkSaleEligibility b) uuid routeId (dbd_tenantId b) driverUserId saleIds
                notes now) (\<lambda>r. saveRoute r b)"

definition addStopToRoute ::
  "(ident \<Rightarrow> string) \<Rightarrow> (route_stop list \<Rightarrow> route_stop list) \<Rightarrow> ident \<Rightarrow> ident \<Rightarrow> ident \<Rightarrow> timestamp
     \<Rightarrow> delivery_board \<Rightarrow> delivery_board result" where
  "addStopToRoute collate order uuid routeId saleId now b =
     with_locked collate order routeId (\<lambda>r.
       andThen (addStop (checkSaleEligibility b) uuid saleId now r) (\<lambda>r'. saveRoute r' b)) b"

definition reorderRoute ::
  "(ident \<Rightarrow> string) \<Rightarrow> (route_stop list \<Rightarrow> route_stop list) \<Rightarrow> ident \<Rightarrow> ident list \<Rightarrow> timestamp
     \<Rightarrow> delivery_board \<Rightarrow> delivery_board result" where
  "reorderRoute collate order routeId ordered now b =
     with_locked collate order routeId (\<lambda>r.
       case reorderStops now ordered r of (Inl e, _) \<Rightarrow> Inl e | (Inr _, r') \<Rightarrow> saveRoute r' b) b"

text \<open>\<open>update\<close>: the driver when one is given, then the notes when these are (\<open>null\<close> clears).\<close>

definition updateRoute ::
  "(ident \<Rightarrow> string) \<Rightarrow> (route_stop list \<Rightarrow> route_stop list) \<Rightarrow> ident \<Rightarrow> ident option
     \<Rightarrow> string option option \<Rightarrow> timestamp \<Rightarrow> delivery_board \<Rightarrow> delivery_board result" where
  "updateRoute collate order routeId driver notes now b =
     with_locked collate order routeId (\<lambda>r.
       andThen (case driver of None \<Rightarrow> Inr r | Some d \<Rightarrow> assignDriver d now r) (\<lambda>r1.
       andThen (case notes of None \<Rightarrow> Inr r1 | Some n \<Rightarrow> updateNotes n now r1) (\<lambda>r2.
         saveRoute r2 b))) b"

definition startRoute ::
  "(ident \<Rightarrow> string) \<Rightarrow> (route_stop list \<Rightarrow> route_stop list) \<Rightarrow> ident \<Rightarrow> timestamp
     \<Rightarrow> delivery_board \<Rightarrow> delivery_board result" where
  "startRoute collate order routeId now b =
     with_locked collate order routeId (\<lambda>r. andThen (route_start now r) (\<lambda>r'. saveRoute r' b)) b"

datatype route_action = ReadRoute | UpdateRoute

definition assertInstancePermission :: "(route_action \<Rightarrow> ident \<Rightarrow> bool) \<Rightarrow> ident \<Rightarrow> unit result" where
  "assertInstancePermission can driverUserId =
     throw_if (\<not> can ReadRoute driverUserId \<or> \<not> can UpdateRoute driverUserId)
       InsufficientPermissionsError"

text \<open>The origin is saved first.  With one identifier both names are one aggregate.\<close>

definition transferStop ::
  "(ident \<Rightarrow> string) \<Rightarrow> (route_stop list \<Rightarrow> route_stop list) \<Rightarrow> (route_action \<Rightarrow> ident \<Rightarrow> bool)
     \<Rightarrow> ident \<Rightarrow> ident \<Rightarrow> ident \<Rightarrow> timestamp \<Rightarrow> delivery_board \<Rightarrow> delivery_board result" where
  "transferStop collate order can routeId stopId destinationId now b =
     runWithRouteLocks collate order [routeId, destinationId] (\<lambda>routes.
       case (assoc_get routes routeId, assoc_get routes destinationId) of
         (Some origin, Some destination) \<Rightarrow>
           andThen (assertInstancePermission can (drt_driverUserId origin)) (\<lambda>_.
           andThen (assertInstancePermission can (drt_driverUserId destination)) (\<lambda>_.
             case transferStopTo stopId now origin destination of
               (Inl e, _, _) \<Rightarrow> Inl e
             | (Inr _, origin', destination') \<Rightarrow>
                 andThen (saveRoute origin' b) (saveRoute destination')))
       | _ \<Rightarrow> Inl (route_not_found routeId)) b"

definition deleteRouteById ::
  "(ident \<Rightarrow> string) \<Rightarrow> (route_stop list \<Rightarrow> route_stop list) \<Rightarrow> ident \<Rightarrow> delivery_board
     \<Rightarrow> delivery_board result" where
  "deleteRouteById collate order routeId b =
     with_locked collate order routeId (\<lambda>r.
       andThen (throw_if (\<not> canDelete r)
         (invalid_transition ''DeliveryRoute can only be deleted when DRAFT with no stops'')) (\<lambda>_.
         deleteRoute routeId b)) b"

subsection \<open>The conditional commit\<close>

record stop_expectation =
  sxp_id :: ident
  sxp_status :: stop_status
  sxp_checkedInAt :: "timestamp option"
  sxp_completedAt :: "timestamp option"
  sxp_activeRouteId :: "ident option"

record route_expectation =
  rxp_status :: route_status
  rxp_startedAt :: "timestamp option"
  rxp_completedAt :: "timestamp option"
  rxp_cancelledAt :: "timestamp option"
  rxp_updatedAt :: timestamp
  rxp_stops :: "stop_expectation list"

definition stop_expectation_of :: "route_stop \<Rightarrow> stop_expectation" where
  "stop_expectation_of s =
     \<lparr>sxp_id = rst_id s, sxp_status = rst_status s, sxp_checkedInAt = rst_checkedInAt s,
      sxp_completedAt = rst_completedAt s, sxp_activeRouteId = rst_activeRouteId s\<rparr>"

definition captureRouteTransitionExpectation :: "delivery_route \<Rightarrow> route_expectation" where
  "captureRouteTransitionExpectation r =
     \<lparr>rxp_status = drt_status r, rxp_startedAt = drt_startedAt r,
      rxp_completedAt = drt_completedAt r, rxp_cancelledAt = drt_cancelledAt r,
      rxp_updatedAt = drt_updatedAt r, rxp_stops = map stop_expectation_of (drt_stops r)\<rparr>"

definition parent_matches :: "route_expectation \<Rightarrow> delivery_route \<Rightarrow> bool" where
  "parent_matches x r \<longleftrightarrow>
     drt_status r = rxp_status x \<and> drt_startedAt r = rxp_startedAt x \<and>
     drt_completedAt r = rxp_completedAt x \<and> drt_cancelledAt r = rxp_cancelledAt x \<and>
     drt_updatedAt r = rxp_updatedAt x"

definition write_parent :: "delivery_route \<Rightarrow> delivery_route \<Rightarrow> delivery_route" where
  "write_parent n r =
     r\<lparr>drt_driverUserId := drt_driverUserId n, drt_status := drt_status n,
       drt_startedAt := drt_startedAt n, drt_completedAt := drt_completedAt n,
       drt_cancelledAt := drt_cancelledAt n, drt_notes := drt_notes n,
       drt_updatedAt := drt_updatedAt n\<rparr>"

text \<open>The same four fields decide whether a stop changed and whether a row still matches.\<close>

definition stop_matches :: "stop_expectation \<Rightarrow> route_stop \<Rightarrow> bool" where
  "stop_matches x s \<longleftrightarrow>
     rst_status s = sxp_status x \<and> rst_checkedInAt s = sxp_checkedInAt x \<and>
     rst_completedAt s = sxp_completedAt x \<and> rst_activeRouteId s = sxp_activeRouteId x"

definition stopTransitionChanged :: "stop_expectation \<Rightarrow> route_stop \<Rightarrow> bool" where
  "stopTransitionChanged x s \<longleftrightarrow>
     sxp_status x \<noteq> rst_status s \<or> sxp_checkedInAt x \<noteq> rst_checkedInAt s \<or>
     sxp_completedAt x \<noteq> rst_completedAt s \<or> sxp_activeRouteId x \<noteq> rst_activeRouteId s"

definition write_stop :: "route_stop \<Rightarrow> route_stop \<Rightarrow> route_stop" where
  "write_stop n s =
     s\<lparr>rst_status := rst_status n, rst_checkedInAt := rst_checkedInAt n,
       rst_completedAt := rst_completedAt n, rst_activeRouteId := rst_activeRouteId n,
       rst_updatedAt := rst_updatedAt n\<rparr>"

text \<open>The per-stop writes over the rows of the route; \<open>None\<close> when a predicate misses.\<close>

fun commit_stops ::
  "stop_expectation list \<Rightarrow> route_stop list \<Rightarrow> route_stop list \<Rightarrow> route_stop list option" where
  "commit_stops expected [] rows = Some rows"
| "commit_stops expected (s # ss) rows =
     (case find (\<lambda>x. sxp_id x = rst_id s) expected of
        None \<Rightarrow> commit_stops expected ss rows
      | Some prior \<Rightarrow>
          if \<not> stopTransitionChanged prior s then commit_stops expected ss rows
          else if \<exists>row\<in>set rows. rst_id row = rst_id s \<and> stop_matches prior row
          then commit_stops expected ss
                 (map (\<lambda>row. if rst_id row = rst_id s \<and> stop_matches prior row
                            then write_stop s row else row) rows)
          else None)"

text \<open>\<open>updatedAt\<close> of a released stop is set by the client library (\<open>@updatedAt\<close>).\<close>

definition reconcileRouteCompletion :: "timestamp \<Rightarrow> delivery_route \<Rightarrow> delivery_route" where
  "reconcileRouteCompletion clock r =
     (if \<exists>s\<in>set (drt_stops r). is_open s then r
      else let r1 = (if drt_status r = RouteActive
                     then r\<lparr>drt_status := RouteCompleted, drt_completedAt := Some clock,
                            drt_updatedAt := clock\<rparr> else r)
           in r1\<lparr>drt_stops := map (\<lambda>s. if reserved s
                    then s\<lparr>rst_activeRouteId := None, rst_updatedAt := clock\<rparr> else s) (drt_stops r1)\<rparr>)"

datatype commit_outcome = Committed delivery_board | StaleState | MissingState

definition put_route :: "delivery_route \<Rightarrow> delivery_board \<Rightarrow> delivery_board" where
  "put_route r b = b\<lparr>dbd_routes := update_first (\<lambda>x. drt_id x = drt_id r) (\<lambda>_. r) (dbd_routes b)\<rparr>"

definition commitTransition ::
  "timestamp \<Rightarrow> ident \<Rightarrow> route_expectation \<Rightarrow> delivery_route \<Rightarrow> delivery_board \<Rightarrow> commit_outcome" where
  "commitTransition clock routeId expected next_route b =
     (case find_route routeId b of
        None \<Rightarrow> MissingState
      | Some row \<Rightarrow>
          if \<not> parent_matches expected row then StaleState
          else (case commit_stops (rxp_stops expected) (drt_stops next_route) (drt_stops row) of
                  None \<Rightarrow> StaleState
                | Some stops \<Rightarrow>
                    Committed (put_route
                      (reconcileRouteCompletion clock ((write_parent next_route row)\<lparr>drt_stops := stops\<rparr>)) b)))"

datatype mark_outcome = MarkedDelivered delivery_board | NotDeliverable | SaleMissing

definition deliverable :: "delivery_sale \<Rightarrow> bool" where
  "deliverable s \<longleftrightarrow> dsl_status s = SaleConfirmed \<and>
     dsl_deliveryStatus s \<in> {DeliveryPending, DeliveryShipped, DeliveryDelivered}"

definition markSaleDelivered :: "ident \<Rightarrow> delivery_board \<Rightarrow> mark_outcome" where
  "markSaleDelivered saleId b =
     (case dbd_sales b saleId of
        None \<Rightarrow> SaleMissing
      | Some s \<Rightarrow>
          if deliverable s
          then MarkedDelivered (b\<lparr>dbd_sales := (dbd_sales b)(saleId \<mapsto> s\<lparr>dsl_deliveryStatus := DeliveryDelivered\<rparr>)\<rparr>)
          else NotDeliverable)"

subsection \<open>Notifications\<close>

definition present :: "string option \<Rightarrow> bool" where
  "present p \<longleftrightarrow> (case p of None \<Rightarrow> False | Some s \<Rightarrow> trim s \<noteq> [])"

fun join_with :: "string \<Rightarrow> string list \<Rightarrow> string" where
  "join_with sep [] = []"
| "join_with sep [x] = x"
| "join_with sep (x # xs) = x @ sep @ join_with sep xs"

definition join_parts :: "string \<Rightarrow> string option list \<Rightarrow> string" where
  "join_parts sep parts = trim (join_with sep (map (\<lambda>p. or_default p []) (filter present parts)))"

definition formatShippingAddress :: "shipping_address \<Rightarrow> string option" where
  "formatShippingAddress a =
     (let label = (if present (sad_label a) then [trim (or_default (sad_label a) [])] else []);
          street = join_parts '' '' [Some (sad_street a), sad_exteriorNumber a,
            (if truthy (sad_interiorNumber a)
             then Some (''Int. '' @ or_default (sad_interiorNumber a) []) else None)];
          locality = join_parts '', '' [sad_neighborhood a, sad_municipality a, sad_city a, sad_state a];
          zip_code = (if present (sad_zipCode a) then [''CP '' @ trim (or_default (sad_zipCode a) [])] else []);
          lines = label @ (if street \<noteq> [] then [street] else [])
                    @ (if locality \<noteq> [] then [locality] else []) @ zip_code
      in if lines = [] then None else Some (join_with [CHR 0x0A] lines))"

definition or_null :: "string \<Rightarrow> string option" where
  "or_null s = (if s = [] then None else Some s)"

definition computeDeliveryNextStopIdempotencyKey :: "ident \<Rightarrow> ident \<Rightarrow> string" where
  "computeDeliveryNextStopIdempotencyKey tenantId currentStopId = tenantId @ '':'' @ currentStopId"

definition composeNextStopPayload ::
  "timestamp \<Rightarrow> ident \<Rightarrow> ident \<Rightarrow> ident \<Rightarrow> ident \<Rightarrow> delivery_board \<Rightarrow> next_stop_payload" where
  "composeNextStopPayload clock routeId currentStopId nextStopId nextSaleId b =
     (let tenantId = dbd_tenantId b;
          sale = dbd_sales b nextSaleId;
          customer = (case Option.bind sale dsl_customer of
              None \<Rightarrow> None | Some c \<Rightarrow> if dcu_tenantId c = tenantId then Some c else None)
      in \<lparr>nsp_tenantId = tenantId, nsp_routeId = routeId, nsp_currentStopId = currentStopId,
          nsp_nextStopId = nextStopId, nsp_nextSaleId = nextSaleId,
          nsp_nextCustomerName = Option.bind customer (\<lambda>c. or_null (trim (dcu_firstName c @
            (if truthy (dcu_lastName c) then '' '' @ or_default (dcu_lastName c) [] else [])))),
          nsp_nextAddressLabel = Option.bind (Option.bind sale dsl_address) formatShippingAddress,
          nsp_nextCustomerEmail = Option.bind customer (\<lambda>c.
            if present (dcu_email c) then map_option trim (dcu_email c) else None),
          nsp_idempotencyKey = computeDeliveryNextStopIdempotencyKey tenantId currentStopId,
          nsp_occurredAt = clock\<rparr>)"

definition publish :: "delivery_event \<Rightarrow> delivery_board \<Rightarrow> delivery_board" where
  "publish e b = b\<lparr>dbd_outbox := dbd_outbox b @ [e]\<rparr>"

subsection \<open>Check-in and cancellation\<close>

text \<open>
  One attempt: the snapshot \<open>before\<close> that was loaded, and the board at the moment of
  the commit.
\<close>

datatype attempt_outcome = AttemptDone delivery_board | AttemptStale | AttemptFailed domain_error

definition sale_not_deliverable :: domain_error where
  "sale_not_deliverable = rule_violation ''SALE_NOT_DELIVERABLE''"

text \<open>\<open>assertTransitionCommitted\<close>, then the rest of the attempt.\<close>

definition when_committed ::
  "ident \<Rightarrow> (delivery_board \<Rightarrow> attempt_outcome) \<Rightarrow> commit_outcome \<Rightarrow> attempt_outcome" where
  "when_committed routeId rest c =
     (case c of MissingState \<Rightarrow> AttemptFailed (route_not_found routeId)
      | StaleState \<Rightarrow> AttemptStale
      | Committed b \<Rightarrow> rest b)"

definition publish_check_in ::
  "timestamp \<Rightarrow> bool \<Rightarrow> check_in_result \<Rightarrow> delivery_board \<Rightarrow> delivery_board" where
  "publish_check_in clock wasPending c b =
     (let done = cir_completedStop c; routeId = drt_id (cir_route c);
          b1 = (case cir_nextStop c of
                  Some n \<Rightarrow> if wasPending
                    then publish (NextStopNotify (composeNextStopPayload clock routeId (rst_id done)
                           (rst_id n) (rst_saleId n) b)) b else b
                | None \<Rightarrow> b)
      in if wasPending
         then publish (ThankYouNotify \<lparr>typ_tenantId = dbd_tenantId b, typ_saleId = rst_saleId done,
                         typ_routeId = routeId, typ_stopId = rst_id done\<rparr>) b1
         else b1)"

definition was_pending :: "ident \<Rightarrow> delivery_route \<Rightarrow> bool" where
  "was_pending stopId r \<longleftrightarrow>
     map_option rst_status (find (\<lambda>s. rst_id s = stopId) (drt_stops r)) = Some StopPending"

definition attemptCheckIn ::
  "ident \<Rightarrow> ident \<Rightarrow> timestamp \<Rightarrow> timestamp \<Rightarrow> delivery_route \<Rightarrow> delivery_board \<Rightarrow> attempt_outcome" where
  "attemptCheckIn routeId stopId now clock before b =
     (case checkInStop stopId now before of
        Inl e \<Rightarrow> AttemptFailed e
      | Inr c \<Rightarrow>
          when_committed routeId (\<lambda>b1.
            case markSaleDelivered (rst_saleId (cir_completedStop c)) b1 of
              SaleMissing \<Rightarrow> AttemptFailed (route_not_found routeId)
            | NotDeliverable \<Rightarrow> AttemptFailed sale_not_deliverable
            | MarkedDelivered b2 \<Rightarrow> AttemptDone (publish_check_in clock (was_pending stopId before) c b2))
            (commitTransition clock routeId (captureRouteTransitionExpectation before) (cir_route c) b))"

definition attemptCancel ::
  "ident \<Rightarrow> timestamp \<Rightarrow> timestamp \<Rightarrow> delivery_route \<Rightarrow> delivery_board \<Rightarrow> attempt_outcome" where
  "attemptCancel routeId now clock before b =
     (case route_cancel now before of
        Inl e \<Rightarrow> AttemptFailed e
      | Inr r \<Rightarrow>
          when_committed routeId AttemptDone
            (commitTransition clock routeId (captureRouteTransitionExpectation before) r b))"

definition MAX_ROUTE_TRANSITION_ATTEMPTS :: nat where
  "MAX_ROUTE_TRANSITION_ATTEMPTS = 4"

text \<open>
  The bounded retries.  \<open>env n\<close> is what the other requests commit between the load and
  the commit when \<open>n\<close> attempts are left.
\<close>

fun transition_attempts ::
  "(route_stop list \<Rightarrow> route_stop list) \<Rightarrow> ident \<Rightarrow> (nat \<Rightarrow> delivery_route \<Rightarrow> delivery_board \<Rightarrow> attempt_outcome)
     \<Rightarrow> (nat \<Rightarrow> delivery_board \<Rightarrow> delivery_board) \<Rightarrow> nat \<Rightarrow> delivery_board
     \<Rightarrow> unit result \<times> delivery_board" where
  "transition_attempts order routeId attempt env 0 b =
     (Inl (invalid_transition
        ''DeliveryRoute was updated concurrently; the transition could not be applied''), b)"
| "transition_attempts order routeId attempt env (Suc n) b =
     (case findById order routeId b of
        None \<Rightarrow> (Inl (route_not_found routeId), b)
      | Some before \<Rightarrow>
          let b' = env n b in
          (case attempt n before b' of
             AttemptDone b'' \<Rightarrow> (Inr (), b'')
           | AttemptFailed e \<Rightarrow> (Inl e, b')
           | AttemptStale \<Rightarrow> transition_attempts order routeId attempt env n b'))"

definition runTransitionWithStaleRetry ::
  "(route_stop list \<Rightarrow> route_stop list) \<Rightarrow> ident \<Rightarrow> (nat \<Rightarrow> delivery_route \<Rightarrow> delivery_board \<Rightarrow> attempt_outcome)
     \<Rightarrow> (nat \<Rightarrow> delivery_board \<Rightarrow> delivery_board) \<Rightarrow> delivery_board \<Rightarrow> unit result \<times> delivery_board" where
  "runTransitionWithStaleRetry order routeId attempt env =
     transition_attempts order routeId attempt env MAX_ROUTE_TRANSITION_ATTEMPTS"

definition checkIn ::
  "(route_stop list \<Rightarrow> route_stop list) \<Rightarrow> ident \<Rightarrow> ident \<Rightarrow> (nat \<Rightarrow> timestamp) \<Rightarrow> (nat \<Rightarrow> timestamp)
     \<Rightarrow> (nat \<Rightarrow> delivery_board \<Rightarrow> delivery_board) \<Rightarrow> delivery_board \<Rightarrow> unit result \<times> delivery_board" where
  "checkIn order routeId stopId now clock =
     runTransitionWithStaleRetry order routeId (\<lambda>n. attemptCheckIn routeId stopId (now n) (clock n))"

definition cancelRoute ::
  "(route_stop list \<Rightarrow> route_stop list) \<Rightarrow> ident \<Rightarrow> (nat \<Rightarrow> timestamp) \<Rightarrow> (nat \<Rightarrow> timestamp)
     \<Rightarrow> (nat \<Rightarrow> delivery_board \<Rightarrow> delivery_board) \<Rightarrow> delivery_board \<Rightarrow> unit result \<times> delivery_board" where
  "cancelRoute order routeId now clock =
     runTransitionWithStaleRetry order routeId (\<lambda>n. attemptCancel routeId (now n) (clock n))"

end
