(* ===== verification/DeliveryLaws.thy ===== *)
theory DeliveryLaws
  imports DeliveryBoard
begin

section \<open>Laws of delivery routes\<close>

text \<open>
  What the operations of the aggregate keep, and what a board of routes keeps: the
  replacement of a route by \<open>saveRoute\<close> and the conditional commit, each reduced to
  the multiset of the stops of the board.
\<close>

named_theorems route_defs \<open>operations of the aggregate\<close>

lemmas [route_defs] = assertDraft_def assert_eligible_def stop_create_def reserved_stop_def
  addStop_def assignDriver_def updateNotes_def route_start_def route_cancel_def

subsection \<open>A sound route\<close>

definition is_open_route :: "delivery_route \<Rightarrow> bool" where
  "is_open_route r \<longleftrightarrow> drt_status r = RouteDraft \<or> drt_status r = RouteActive"

definition stop_sound :: "delivery_route \<Rightarrow> route_stop \<Rightarrow> bool" where
  "stop_sound r s \<longleftrightarrow>
     rst_routeId s = drt_id r \<and>
     (rst_status s = StopPending \<or> rst_status s = StopCompleted) \<and>
     (rst_checkedInAt s \<noteq> None \<longleftrightarrow> rst_status s = StopCompleted) \<and>
     (rst_completedAt s \<noteq> None \<longleftrightarrow> rst_status s = StopCompleted) \<and>
     rst_activeRouteId s = (if is_open_route r then Some (drt_id r) else None)"

definition contiguous :: "route_stop list \<Rightarrow> bool" where
  "contiguous ss \<longleftrightarrow> mset (map rst_sortOrder ss) = mset (map int [0..<length ss])"

definition all_pending :: "delivery_route \<Rightarrow> bool" where
  "all_pending r \<longleftrightarrow> (\<forall>s\<in>set (drt_stops r). rst_status s = StopPending)"

definition phase_sound :: "delivery_route \<Rightarrow> bool" where
  "phase_sound r \<longleftrightarrow>
     (case drt_status r of
        RouteDraft \<Rightarrow> all_pending r
      | RouteActive \<Rightarrow> \<not> (\<forall>s\<in>set (drt_stops r). rst_status s = StopCompleted)
      | RouteCompleted \<Rightarrow> drt_stops r \<noteq> [] \<and> (\<forall>s\<in>set (drt_stops r). rst_status s = StopCompleted)
      | RouteCancelled \<Rightarrow> True)"

definition route_sound :: "delivery_route \<Rightarrow> bool" where
  "route_sound r \<longleftrightarrow>
     (\<forall>s\<in>set (drt_stops r). stop_sound r s) \<and> contiguous (drt_stops r) \<and> phase_sound r"

lemma contiguous_Nil [simp]: "contiguous []"
  by (simp add: contiguous_def)

lemma contiguous_snoc:
  "contiguous ss \<Longrightarrow> rst_sortOrder s = int (length ss) \<Longrightarrow> contiguous (ss @ [s])"
  by (simp add: contiguous_def)

lemma contiguous_map_cong:
  "(\<And>s. s \<in> set ss \<Longrightarrow> rst_sortOrder (f s) = rst_sortOrder s) \<Longrightarrow> contiguous (map f ss) = contiguous ss"
  by (simp add: contiguous_def comp_def cong: map_cong)

lemma contiguous_perm: "mset ss = mset ts \<Longrightarrow> contiguous ss = contiguous ts"
  by (metis contiguous_def mset_eq_length mset_map)

lemma contiguous_distinct: "contiguous ss \<Longrightarrow> distinct (map rst_sortOrder ss)"
  unfolding contiguous_def by (metis distinct_map distinct_upt inj_on_of_nat mset_eq_imp_distinct_iff)

lemma distinct_map_perm: "mset xs = mset ys \<Longrightarrow> distinct (map f xs) = distinct (map f ys)"
  by (metis mset_eq_imp_distinct_iff mset_map)

lemma update_first_map:
  "distinct (map key xs) \<Longrightarrow>
   update_first (\<lambda>x. key x = k) f xs = map (\<lambda>x. if key x = k then f x else x) xs"
  by (induction xs) (auto intro!: map_idI [symmetric] simp: rev_image_eqI)

lemma setActiveRouteId_simps [simp]:
  "rst_id (setActiveRouteId i s) = rst_id s" "rst_saleId (setActiveRouteId i s) = rst_saleId s"
  "rst_sortOrder (setActiveRouteId i s) = rst_sortOrder s"
  "rst_status (setActiveRouteId i s) = rst_status s"
  "rst_routeId (setActiveRouteId i s) = rst_routeId s"
  "rst_checkedInAt (setActiveRouteId i s) = rst_checkedInAt s"
  "rst_completedAt (setActiveRouteId i s) = rst_completedAt s"
  "rst_activeRouteId (setActiveRouteId i s) = i"
  by (simp_all add: setActiveRouteId_def)

text \<open>The positions \<open>setSortOrder\<close> writes come from array indices.\<close>

lemma setSortOrder_nat [simp]:
  "setSortOrder t (int n) s = s\<lparr>rst_sortOrder := int n, rst_updatedAt := t\<rparr>"
  by (simp add: setSortOrder_def)

text \<open>A pending stop of an open route, which is all a draft has.\<close>

definition fresh_stop :: "ident \<Rightarrow> route_stop \<Rightarrow> bool" where
  "fresh_stop i s \<longleftrightarrow> rst_routeId s = i \<and> rst_status s = StopPending \<and> rst_checkedInAt s = None \<and>
     rst_completedAt s = None \<and> rst_activeRouteId s = Some i"

lemma draft_sound:
  "drt_status r = RouteDraft \<Longrightarrow>
   route_sound r \<longleftrightarrow> (\<forall>s\<in>set (drt_stops r). fresh_stop (drt_id r) s) \<and> contiguous (drt_stops r)"
  by (auto simp: route_sound_def stop_sound_def fresh_stop_def phase_sound_def all_pending_def
      is_open_route_def)

lemma sound_all_pending:
  "route_sound r \<Longrightarrow> drt_status r = RouteDraft \<Longrightarrow> all_pending r"
  by (simp add: route_sound_def phase_sound_def)

subsection \<open>The draft operations\<close>

lemma reserved_stop_fresh:
  "reserved_stop probe uuid tenantId i saleId n now = Inr s \<Longrightarrow>
     fresh_stop i s \<and> rst_id s = uuid \<and> rst_saleId s = saleId \<and> rst_sortOrder s = n \<and>
     is_eligible (probe saleId)"
  by (auto simp: route_defs result_simps fresh_stop_def)

lemma route_create_sound:
  assumes "route_create probe uuid i tenantId driver saleIds notes now = Inr r"
  shows "drt_id r = i" "drt_status r = RouteDraft" "drt_updatedAt r = now" "route_sound r"
    "map rst_saleId (drt_stops r) = saleIds" "saleIds \<noteq> []"
    "map rst_id (drt_stops r) = map uuid [0..<length saleIds]"
proof -
  let ?step = "\<lambda>stops saleId. mapR (\<lambda>s. stops @ [s])
    (reserved_stop probe (uuid (length stops)) tenantId i saleId (int (length stops)) now)"
  from assms obtain stops where l: "loopR ?step [] saleIds = Inr stops"
    and r: "drt_id r = i" "drt_status r = RouteDraft" "drt_updatedAt r = now" "drt_stops r = stops"
    and ne: "saleIds \<noteq> []"
    by (auto simp: route_create_def result_simps)
  let ?P = "\<lambda>pre stops. map rst_saleId stops = pre \<and> contiguous stops \<and> (\<forall>s\<in>set stops. fresh_stop i s)
    \<and> map rst_id stops = map uuid [0..<length pre]"
  have "?P saleIds stops"
    by (rule loopR_rule [OF l])
      (auto simp: result_simps intro: contiguous_snoc dest!: reserved_stop_fresh)
  with r ne show "drt_id r = i" "drt_status r = RouteDraft" "drt_updatedAt r = now" "route_sound r"
    "map rst_saleId (drt_stops r) = saleIds" "saleIds \<noteq> []"
    "map rst_id (drt_stops r) = map uuid [0..<length saleIds]"
    by (simp_all add: draft_sound)
qed

text \<open>A draft operation: it starts from a draft and ends in a stamped, sound draft.\<close>

definition drafted :: "timestamp \<Rightarrow> delivery_route \<Rightarrow> delivery_route \<Rightarrow> bool" where
  "drafted now r r' \<longleftrightarrow> drt_status r = RouteDraft \<and> drt_id r' = drt_id r \<and>
     drt_updatedAt r' = now \<and> drt_status r' = RouteDraft \<and> (route_sound r \<longrightarrow> route_sound r')"

lemma addStop_drafted: "addStop probe uuid saleId now r = Inr r' \<Longrightarrow> drafted now r r'"
  by (auto simp: addStop_def assertDraft_def result_simps drafted_def draft_sound
      intro: contiguous_snoc dest!: reserved_stop_fresh)

lemma assignDriver_drafted: "assignDriver d now r = Inr r' \<Longrightarrow> drafted now r r'"
  by (auto simp: route_defs result_simps drafted_def draft_sound)

lemma updateNotes_drafted: "updateNotes n now r = Inr r' \<Longrightarrow> drafted now r r'"
  by (auto simp: route_defs result_simps drafted_def draft_sound)

text \<open>Reordering: the loop gives every named stop its place in the list.\<close>

definition place :: "ident \<Rightarrow> ident list \<Rightarrow> nat" where
  "place i is = length (takeWhile (\<lambda>j. j \<noteq> i) is)"

lemma map_place: "distinct is \<Longrightarrow> map (\<lambda>i. place i is) is = [0..<length is]"
proof (induction "is")
  case (Cons i "is")
  then have "map (\<lambda>j. place j (i # is)) is = map (\<lambda>j. Suc (place j is)) is"
    by (auto simp: place_def)
  also have "\<dots> = map Suc (map (\<lambda>j. place j is) is)" by simp
  also have "\<dots> = map Suc [0..<length is]" using Cons by (simp only: distinct.simps)
  finally have "map (\<lambda>j. place j (i # is)) (i # is) = 0 # [Suc 0..<Suc (length is)]"
    by (simp only: map_Suc_upt) (simp add: place_def)
  then show ?case by (simp only: upt_conv_Cons [OF zero_less_Suc] length_Cons)
qed simp

lemma reorder_loop_Inr:
  assumes "reorder_loop t seen is stops = (Inr (), stops')" and "distinct (map rst_id stops)"
  shows "distinct is \<and> set is \<inter> set seen = {} \<and> set is \<subseteq> rst_id ` set stops \<and>
    stops' = map (\<lambda>s. if rst_id s \<in> set is
      then s\<lparr>rst_sortOrder := int (length seen + place (rst_id s) is), rst_updatedAt := t\<rparr> else s) stops"
  using assms
proof (induction t seen "is" stops rule: reorder_loop.induct)
  case (2 t seen i "is" stops)
  let ?stops = "update_first (\<lambda>s. rst_id s = i) (setSortOrder t (int (length seen))) stops"
  from "2.prems"(1) have i: "i \<in> rst_id ` set stops" "i \<notin> set seen"
    and rest: "reorder_loop t (seen @ [i]) is ?stops = (Inr (), stops')"
    by (auto split: if_splits)
  have ids: "map rst_id ?stops = map rst_id stops"
    by (simp add: map_update_first)
  then have "rst_id ` set ?stops = rst_id ` set stops"
    by (metis set_map)
  with "2.IH" i rest ids "2.prems"(2)
  have IH: "distinct is" "set is \<inter> set (seen @ [i]) = {}" "set is \<subseteq> rst_id ` set stops"
    "stops' = map (\<lambda>s. if rst_id s \<in> set is
      then s\<lparr>rst_sortOrder := int (length (seen @ [i]) + place (rst_id s) is), rst_updatedAt := t\<rparr> else s) ?stops"
    by auto
  moreover have "?stops = map (\<lambda>s. if rst_id s = i
      then s\<lparr>rst_sortOrder := int (length seen), rst_updatedAt := t\<rparr> else s) stops"
    using "2.prems"(2) by (simp add: update_first_map)
  ultimately show ?case
    using i by (auto simp: place_def)
qed simp

lemma reorderStops_drafted:
  assumes "reorderStops now ordered r = (Inr (), r')" and d: "distinct (map rst_id (drt_stops r))"
  shows "drafted now r r'"
proof -
  from assms(1) obtain stops where dr: "drt_status r = RouteDraft"
    and len: "length ordered = length (drt_stops r)"
    and l: "reorder_loop now [] ordered (drt_stops r) = (Inr (), stops)"
    and r': "r' = r\<lparr>drt_stops := List.map_filter (\<lambda>i. find (\<lambda>s. rst_id s = i) stops) ordered,
                   drt_updatedAt := now\<rparr>"
    by (auto simp: reorderStops_def assertDraft_def result_simps split: sum.splits prod.splits)
  define f where "f s = (if rst_id s \<in> set ordered
    then s\<lparr>rst_sortOrder := int (place (rst_id s) ordered), rst_updatedAt := now\<rparr> else s)" for s :: route_stop
  have L: "distinct ordered" "set ordered \<subseteq> rst_id ` set (drt_stops r)" "stops = map f (drt_stops r)"
    using reorder_loop_Inr [OF l d] by (simp_all add: f_def [abs_def])
  have f: "rst_id (f s) = rst_id s" for s by (simp add: f_def)
  define at where "at i = the (find (\<lambda>s. rst_id s = i) stops)" for i
  have ids: "rst_id ` set stops = rst_id ` set (drt_stops r)"
    by (simp add: L(3) f image_image)
  have found: "find (\<lambda>s. rst_id s = i) stops = Some (at i)" if "i \<in> set ordered" for i
  proof -
    from L(2) that ids have "i \<in> rst_id ` set stops" by blast
    then have "find (\<lambda>s. rst_id s = i) stops \<noteq> None" by (auto simp: find_eq_None)
    then show ?thesis by (auto simp: at_def)
  qed
  have at: "at i \<in> set stops" "rst_id (at i) = i" if "i \<in> set ordered" for i
    using find_SomeD [OF found [OF that]] by auto
  have "List.map_filter (\<lambda>i. find (\<lambda>s. rst_id s = i) stops) ordered = map at ordered"
    using found by (induction ordered) (auto simp: List.map_filter_simps)
  with r' have stops: "drt_stops r' = map at ordered" by simp
  have pos: "rst_sortOrder (at i) = int (place i ordered)" if "i \<in> set ordered" for i
    using at [OF that] that by (auto simp: L(3) f_def)
  have "map rst_sortOrder (map at ordered) = map int (map (\<lambda>i. place i ordered) ordered)"
    using pos by simp
  also have "\<dots> = map int [0..<length ordered]"
    by (simp only: map_place [OF L(1)])
  finally have "contiguous (drt_stops r')"
    by (simp add: contiguous_def stops)
  moreover have "fresh_stop (drt_id r) s" if "s \<in> set (drt_stops r')"
    "\<forall>s\<in>set (drt_stops r). fresh_stop (drt_id r) s" for s
  proof -
    from that(1) stops at(1) have "s \<in> set stops" by auto
    with L(3) obtain t where "t \<in> set (drt_stops r)" "s = f t" by auto
    with that(2) show ?thesis by (auto simp: fresh_stop_def f_def)
  qed
  ultimately show ?thesis
    using dr r' by (auto simp: drafted_def draft_sound)
qed

lemma transferStopTo_drafted:
  assumes "transferStopTo stopId now o1 d1 = (Inr (), o2, d2)"
  shows "drafted now o1 o2" and "drafted now d1 d2" and "drt_id d1 \<noteq> drt_id o1"
proof -
  from assms obtain m where dr: "drt_status o1 = RouteDraft" "drt_status d1 = RouteDraft"
    "drt_id d1 \<noteq> drt_id o1" and m: "find (\<lambda>s. rst_id s = stopId) (drt_stops o1) = Some m"
    and o2: "o2 = o1\<lparr>drt_stops := renumber now (remove_first (\<lambda>s. rst_id s = stopId) (drt_stops o1)),
                     drt_updatedAt := now\<rparr>"
    and d2: "\<exists>s. relocateTo (drt_id d1) (int (length (drt_stops d1))) now m = Inr s \<and>
               d2 = d1\<lparr>drt_stops := drt_stops d1 @ [s], drt_updatedAt := now\<rparr>"
    by (auto simp: transferStopTo_def assertDraft_def result_simps Let_def
        split: sum.splits option.splits if_splits)
  show "drt_id d1 \<noteq> drt_id o1" by (rule dr(3))
  let ?rest = "remove_first (\<lambda>s. rst_id s = stopId) (drt_stops o1)"
  have "map rst_sortOrder (renumber now ?rest) = map int [0..<length ?rest]"
    by (simp add: renumber_def comp_def split_def) (simp add: map_fst_enumerate flip: map_map [unfolded comp_def])
  then have "contiguous (renumber now ?rest)"
    by (simp add: contiguous_def renumber_def)
  moreover have "\<forall>s\<in>set (renumber now ?rest). fresh_stop i s"
    if "\<forall>s\<in>set (drt_stops o1). fresh_stop i s" for i
    using that set_remove_first [of "\<lambda>s. rst_id s = stopId" "drt_stops o1"]
    by (auto simp: renumber_def fresh_stop_def in_set_enumerate_eq dest!: nth_mem)
  ultimately show "drafted now o1 o2"
    using dr o2 by (simp add: drafted_def draft_sound)
  show "drafted now d1 d2"
    using dr d2 by (auto simp: drafted_def draft_sound relocateTo_def result_simps fresh_stop_def
        intro: contiguous_snoc)
qed

text \<open>Starting a sound draft: every stop stays pending, reserved for the route.\<close>

lemma route_start_sound:
  assumes "route_start now r = Inr r'"
  shows "drt_status r = RouteDraft" "drt_id r' = drt_id r" "drt_status r' = RouteActive"
    "drt_updatedAt r' = now" "route_sound r \<Longrightarrow> route_sound r' \<and> all_pending r'"
  using assms
  by (auto simp: route_start_def assertDraft_def result_simps draft_sound)
    (auto simp: route_sound_def stop_sound_def phase_sound_def all_pending_def is_open_route_def
      fresh_stop_def contiguous_map_cong neq_Nil_conv)

subsection \<open>A sound board\<close>

definition all_stops :: "delivery_board \<Rightarrow> route_stop list" where
  "all_stops b = concat (map drt_stops (dbd_routes b))"

definition completed_ids :: "route_stop list \<Rightarrow> ident list" where
  "completed_ids ss = map rst_id (filter (\<lambda>s. rst_status s = StopCompleted) ss)"

definition reserved_sales :: "route_stop list \<Rightarrow> ident list" where
  "reserved_sales ss = map rst_saleId (filter reserved ss)"

text \<open>The stops whose customers the outbox thanks.\<close>

fun thanks_for :: "delivery_event \<Rightarrow> ident list" where
  "thanks_for (ThankYouNotify p) = [typ_stopId p]"
| "thanks_for (NextStopNotify _) = []"

definition thanked :: "delivery_board \<Rightarrow> ident list" where
  "thanked b = concat (map thanks_for (dbd_outbox b))"

definition board_ok :: "delivery_board \<Rightarrow> bool" where
  "board_ok b \<longleftrightarrow>
     distinct (map drt_id (dbd_routes b)) \<and>
     distinct (map rst_id (all_stops b)) \<and>
     distinct (reserved_sales (all_stops b)) \<and>
     (\<forall>r\<in>set (dbd_routes b). route_sound r) \<and>
     mset (thanked b) = mset (completed_ids (all_stops b))"

lemma distinct_reserved_perm: "mset xs = mset ys \<Longrightarrow> distinct (reserved_sales xs) = distinct (reserved_sales ys)"
  unfolding reserved_sales_def by (rule distinct_map_perm) simp

lemma completed_ids_perm: "mset xs = mset ys \<Longrightarrow> mset (completed_ids xs) = mset (completed_ids ys)"
  by (simp add: completed_ids_def)

lemma completed_ids_append [simp]: "completed_ids (xs @ ys) = completed_ids xs @ completed_ids ys"
  by (simp add: completed_ids_def)

lemma completed_ids_pending:
  "\<forall>s\<in>set ss. rst_status s = StopPending \<Longrightarrow> completed_ids ss = []"
  by (auto simp: completed_ids_def filter_empty_conv)

lemma same_id_eq:
  "distinct (map drt_id rs) \<Longrightarrow> r \<in> set rs \<Longrightarrow> x \<in> set rs \<Longrightarrow> drt_id x = drt_id r \<Longrightarrow> x = r"
  by (metis distinct_map inj_on_def)

lemma find_route_Some:
  assumes d: "distinct (map drt_id (dbd_routes b))"
  shows "(find_route i b = Some r) = (r \<in> set (dbd_routes b) \<and> drt_id r = i)"
proof
  show "r \<in> set (dbd_routes b) \<and> drt_id r = i" if "find_route i b = Some r"
    using find_SomeD [OF that [unfolded find_route_def]] by simp
  assume r: "r \<in> set (dbd_routes b) \<and> drt_id r = i"
  then have "find_route i b \<noteq> None" by (auto simp: find_route_def find_eq_None)
  then obtain x where x: "find_route i b = Some x" by blast
  with find_SomeD [OF x [unfolded find_route_def]] same_id_eq [OF d] r
  show "find_route i b = Some r" by auto
qed

lemma find_route_None: "find_route i b = None \<longleftrightarrow> i \<notin> drt_id ` set (dbd_routes b)"
  by (auto simp: find_route_def find_eq_None)

lemma stops_split:
  "distinct (map drt_id rs) \<Longrightarrow> r \<in> set rs \<Longrightarrow>
   mset (concat (map drt_stops rs)) =
     mset (drt_stops r @ concat (map drt_stops (filter (\<lambda>x. drt_id x \<noteq> drt_id r) rs)))"
proof (induction rs)
  case (Cons x rs)
  show ?case
  proof (cases "x = r")
    case True
    with Cons.prems have "filter (\<lambda>x. drt_id x \<noteq> drt_id r) rs = rs"
      by (intro filter_True) (auto simp: rev_image_eqI)
    with True show ?thesis by simp
  next
    case False
    with Cons.prems have "drt_id x \<noteq> drt_id r" "r \<in> set rs" by (auto simp: rev_image_eqI)
    with Cons.IH Cons.prems show ?thesis by simp
  qed
qed simp

lemma all_stops_split:
  "distinct (map drt_id (dbd_routes b)) \<Longrightarrow> r \<in> set (dbd_routes b) \<Longrightarrow>
   mset (all_stops b) = mset (drt_stops r @ other_stops (drt_id r) b)"
  unfolding all_stops_def other_stops_def by (rule stops_split)

lemma other_stops_absent:
  "i \<notin> drt_id ` set (dbd_routes b) \<Longrightarrow> other_stops i b = all_stops b"
  unfolding other_stops_def all_stops_def by (subst filter_True) auto

text \<open>The one place where a route of a board is replaced, or a new one added.\<close>

lemma board_ok_swap:
  assumes ok: "board_ok b"
    and ids: "distinct (map drt_id (dbd_routes b'))" and r: "r \<in> set (dbd_routes b')"
    and same: "filter (\<lambda>x. drt_id x \<noteq> drt_id r) (dbd_routes b') = filter (\<lambda>x. drt_id x \<noteq> drt_id r) (dbd_routes b)"
    and sound: "route_sound r"
    and stops: "distinct (map rst_id (drt_stops r @ other_stops (drt_id r) b))"
    and sales: "distinct (reserved_sales (drt_stops r @ other_stops (drt_id r) b))"
    and thanks: "mset (thanked b') = mset (completed_ids (drt_stops r @ other_stops (drt_id r) b))"
  shows "board_ok b'"
proof -
  have split: "mset (all_stops b') = mset (drt_stops r @ other_stops (drt_id r) b)"
    using all_stops_split [OF ids r] same by (simp add: other_stops_def)
  have "route_sound x" if "x \<in> set (dbd_routes b')" for x
  proof (cases "drt_id x = drt_id r")
    case True
    with same_id_eq [OF ids r that] sound show ?thesis by simp
  next
    case False
    with that have "x \<in> set (filter (\<lambda>x. drt_id x \<noteq> drt_id r) (dbd_routes b'))" by simp
    then show ?thesis using ok by (simp add: same board_ok_def)
  qed
  then show ?thesis
    using ids stops sales thanks distinct_map_perm [OF split] distinct_reserved_perm [OF split]
      completed_ids_perm [OF split]
    by (auto simp: board_ok_def)
qed

lemma upsert_route_facts:
  assumes "distinct (map drt_id rows)"
  obtains r' where "r' \<in> set (upsert_route r rows)" "distinct (map drt_id (upsert_route r rows))"
    "filter (\<lambda>x. drt_id x \<noteq> drt_id r) (upsert_route r rows) = filter (\<lambda>x. drt_id x \<noteq> drt_id r) rows"
    "drt_id r' = drt_id r" "drt_stops r' = drt_stops r" "drt_status r' = drt_status r"
    "drt_updatedAt r' = drt_updatedAt r"
proof (cases "\<exists>x\<in>set rows. drt_id x = drt_id r")
  case True
  let ?f = "\<lambda>x. r\<lparr>drt_tenantId := drt_tenantId x, drt_createdAt := drt_createdAt x\<rparr>"
  have up: "upsert_route r rows = map (\<lambda>x. if drt_id x = drt_id r then ?f x else x) rows"
    using True by (simp add: upsert_route_def update_first_map [OF assms])
  from True obtain x where x: "x \<in> set rows" "drt_id x = drt_id r" by blast
  have "map drt_id (upsert_route r rows) = map drt_id rows"
    by (simp add: up)
  moreover have "filter (\<lambda>x. drt_id x \<noteq> drt_id r) (upsert_route r rows) = filter (\<lambda>x. drt_id x \<noteq> drt_id r) rows"
    unfolding up by (induction rows) auto
  moreover have "?f x \<in> set (upsert_route r rows)"
    using x by (auto simp: up intro!: image_eqI [of _ _ x])
  ultimately show ?thesis
    using assms by (intro that [of "?f x"]) simp_all
next
  case False
  with assms show ?thesis
    by (intro that [of r]) (auto simp: upsert_route_def)
qed

lemma saveRoute_facts:
  assumes "saveRoute r b = Inr b'" and "distinct (map drt_id (dbd_routes b))"
  obtains r' where "r' \<in> set (dbd_routes b')" "distinct (map drt_id (dbd_routes b'))"
    "filter (\<lambda>x. drt_id x \<noteq> drt_id r) (dbd_routes b') = filter (\<lambda>x. drt_id x \<noteq> drt_id r) (dbd_routes b)"
    "drt_id r' = drt_id r" "drt_stops r' = drt_stops r" "drt_status r' = drt_status r"
    "drt_updatedAt r' = drt_updatedAt r"
    "b' = b\<lparr>dbd_routes := dbd_routes b'\<rparr>"
proof -
  from assms(1) have b': "b' = b\<lparr>dbd_routes := upsert_route r (dbd_routes b)\<rparr>"
    by (auto simp: saveRoute_def result_simps)
  obtain r' where "r' \<in> set (upsert_route r (dbd_routes b))"
    "distinct (map drt_id (upsert_route r (dbd_routes b)))"
    "filter (\<lambda>x. drt_id x \<noteq> drt_id r) (upsert_route r (dbd_routes b)) =
     filter (\<lambda>x. drt_id x \<noteq> drt_id r) (dbd_routes b)"
    "drt_id r' = drt_id r" "drt_stops r' = drt_stops r" "drt_status r' = drt_status r"
    "drt_updatedAt r' = drt_updatedAt r"
    by (rule upsert_route_facts [OF assms(2)])
  then show ?thesis
    by (intro that [of r']) (simp_all add: b')
qed

text \<open>Every save of the service: a route whose stops are pending, over one whose were.\<close>

lemma saveRoute_ok:
  assumes s: "saveRoute r b = Inr b'" and ok: "board_ok b"
    and r: "route_sound r" "all_pending r"
    and old: "\<forall>x\<in>set (dbd_routes b). drt_id x = drt_id r \<longrightarrow> all_pending x"
  shows "board_ok b'"
proof -
  let ?others = "other_stops (drt_id r) b"
  have ids: "distinct (map drt_id (dbd_routes b))" using ok by (simp add: board_ok_def)
  from s have free: "\<forall>s\<in>set (drt_stops r). \<forall>t\<in>set ?others. \<not> (reserved t \<and> rst_saleId t = rst_saleId s)"
    and own: "distinct (reserved_sales (drt_stops r))"
    and keys: "drt_stops r = [] \<or> distinct (map rst_id (drt_stops r @ ?others))"
    by (auto simp: saveRoute_def result_simps reserved_sales_def)
  have "\<exists>ss. mset (all_stops b) = mset (ss @ ?others) \<and> (\<forall>s\<in>set ss. rst_status s = StopPending)"
  proof (cases "drt_id r \<in> drt_id ` set (dbd_routes b)")
    case True
    then obtain x where x: "x \<in> set (dbd_routes b)" "drt_id x = drt_id r" by auto
    with all_stops_split [OF ids x(1)] old show ?thesis
      by (intro exI [of _ "drt_stops x"]) (auto simp: all_pending_def)
  next
    case False
    then show ?thesis by (intro exI [of _ "[]"]) (simp add: other_stops_absent)
  qed
  then obtain ss where ss: "mset (all_stops b) = mset (ss @ ?others)"
    "\<forall>s\<in>set ss. rst_status s = StopPending" by blast
  have base: "distinct (map rst_id (ss @ ?others))" "distinct (reserved_sales (ss @ ?others))"
    "mset (thanked b) = mset (completed_ids ?others)"
    using ok distinct_map_perm [OF ss(1)] distinct_reserved_perm [OF ss(1)]
      completed_ids_perm [OF ss(1)] completed_ids_pending [OF ss(2)]
    by (auto simp: board_ok_def)
  obtain r' where r': "r' \<in> set (dbd_routes b')" "distinct (map drt_id (dbd_routes b'))"
    "filter (\<lambda>x. drt_id x \<noteq> drt_id r) (dbd_routes b') = filter (\<lambda>x. drt_id x \<noteq> drt_id r) (dbd_routes b)"
    "drt_id r' = drt_id r" "drt_stops r' = drt_stops r" "drt_status r' = drt_status r"
    and b': "b' = b\<lparr>dbd_routes := dbd_routes b'\<rparr>"
    using saveRoute_facts [OF s ids] by metis
  show ?thesis
  proof (rule board_ok_swap [OF ok r'(2,1)])
    show "filter (\<lambda>x. drt_id x \<noteq> drt_id r') (dbd_routes b') = filter (\<lambda>x. drt_id x \<noteq> drt_id r') (dbd_routes b)"
      using r'(3,4) by simp
    show "route_sound r'"
      using r(1) r'(4-6) by (simp add: route_sound_def stop_sound_def phase_sound_def all_pending_def
          is_open_route_def split: route_status.splits)
    show "distinct (map rst_id (drt_stops r' @ other_stops (drt_id r') b))"
      using keys base(1) r'(4,5) by auto
    show "distinct (reserved_sales (drt_stops r' @ other_stops (drt_id r') b))"
      using free own base(2) r'(4,5) by (fastforce simp: reserved_sales_def)
    have "thanked b' = thanked b" by (subst b') (simp add: thanked_def)
    then show "mset (thanked b') = mset (completed_ids (drt_stops r' @ other_stops (drt_id r') b))"
      using base(3) r(2) r'(4,5) by (simp add: completed_ids_pending all_pending_def)
  qed
qed

subsection \<open>Loading\<close>

definition permuting :: "(route_stop list \<Rightarrow> route_stop list) \<Rightarrow> bool" where
  "permuting order \<longleftrightarrow> (\<forall>ss. mset (order ss) = mset ss)"

text \<open>The same route, but for the order of its stops.\<close>

definition same_route :: "delivery_route \<Rightarrow> delivery_route \<Rightarrow> bool" where
  "same_route a r \<longleftrightarrow> (\<exists>ss. a = r\<lparr>drt_stops := ss\<rparr> \<and> mset ss = mset (drt_stops r))"

lemma same_route_fields:
  "same_route a r \<Longrightarrow> drt_id a = drt_id r" "same_route a r \<Longrightarrow> drt_status a = drt_status r"
  "same_route a r \<Longrightarrow> drt_updatedAt a = drt_updatedAt r"
  by (auto simp: same_route_def)

lemma same_route_sound: "same_route a r \<Longrightarrow> route_sound a = route_sound r"
proof -
  assume s: "same_route a r"
  then have m: "mset (drt_stops a) = mset (drt_stops r)" by (auto simp: same_route_def)
  then have "set (drt_stops a) = set (drt_stops r)" by (rule mset_eq_setD)
  moreover from m have "(drt_stops a = []) = (drt_stops r = [])" by auto
  ultimately show ?thesis
    using same_route_fields [OF s] contiguous_perm [OF m]
    by (simp add: route_sound_def stop_sound_def phase_sound_def all_pending_def is_open_route_def
        split: route_status.splits)
qed

lemma findById_Some:
  assumes ok: "board_ok b" and p: "permuting order" and a: "findById order i b = Some a"
  obtains r where "r \<in> set (dbd_routes b)" "drt_id r = i" "same_route a r" "route_sound a"
proof -
  from a obtain r where f: "find_route i b = Some r"
    and a': "a = r\<lparr>drt_stops := map (\<lambda>s. s\<lparr>rst_routeId := drt_id r\<rparr>) (order (drt_stops r))\<rparr>"
    by (auto simp: findById_def)
  have r: "r \<in> set (dbd_routes b)" "drt_id r = i"
    using f ok by (simp_all add: board_ok_def find_route_Some)
  then have sound: "route_sound r" using ok by (simp add: board_ok_def)
  have m: "mset (order (drt_stops r)) = mset (drt_stops r)" using p by (simp add: permuting_def)
  then have "set (order (drt_stops r)) = set (drt_stops r)" by (rule mset_eq_setD)
  then have "map (\<lambda>s. s\<lparr>rst_routeId := drt_id r\<rparr>) (order (drt_stops r)) = order (drt_stops r)"
    using sound by (intro map_idI) (auto simp: route_sound_def stop_sound_def)
  with a' m have "same_route a r" by (auto simp: same_route_def)
  with r sound show ?thesis by (intro that) (simp_all add: same_route_sound)
qed

lemma with_locked_Inr:
  "with_locked collate order i work b = Inr x \<longleftrightarrow> (\<exists>a. findById order i b = Some a \<and> work a = Inr x)"
  by (auto simp: with_locked_def runWithRouteLocks_def lockRoutesForUpdate_def with_route_def
      findById_def result_simps split: option.splits)

lemma same_route_refl [simp]: "same_route r r"
  unfolding same_route_def by (rule exI [of _ "drt_stops r"]) simp

lemma same_route_sym: "same_route a r \<Longrightarrow> same_route r a"
  unfolding same_route_def by (elim exE conjE, rule exI [of _ "drt_stops r"]) simp

lemma same_route_trans: "same_route a r \<Longrightarrow> same_route r s \<Longrightarrow> same_route a s"
  unfolding same_route_def by (elim exE conjE, rule exI [of _ "drt_stops a"]) simp

lemma same_route_stops: "same_route a r \<Longrightarrow> mset (drt_stops a) = mset (drt_stops r)"
  by (auto simp: same_route_def)

lemma same_route_set: "same_route a r \<Longrightarrow> set (drt_stops a) = set (drt_stops r)"
  by (rule mset_eq_setD) (rule same_route_stops)

lemma same_route_pending: "same_route a r \<Longrightarrow> all_pending a = all_pending r"
  by (simp add: all_pending_def same_route_set)

subsection \<open>The operations under locks\<close>

text \<open>
  What one transaction does to the routes: each is the route it was, or carries a
  later stamp, or is new.
\<close>

definition moves :: "ident set \<Rightarrow> delivery_board \<Rightarrow> delivery_board \<Rightarrow> bool" where
  "moves new b b' \<longleftrightarrow> (\<forall>r'\<in>set (dbd_routes b'). drt_id r' \<in> new \<or>
     (\<exists>r\<in>set (dbd_routes b). drt_id r = drt_id r' \<and>
        (same_route r' r \<or> drt_updatedAt r < drt_updatedAt r')))"

text \<open>The clock is read after the routes \<open>ids\<close> are locked.\<close>

definition later :: "ident set \<Rightarrow> timestamp \<Rightarrow> delivery_board \<Rightarrow> bool" where
  "later ids now b \<longleftrightarrow> (\<forall>r\<in>set (dbd_routes b). drt_id r \<in> ids \<longrightarrow> drt_updatedAt r < now)"

lemma moves_refl [simp]: "moves new b b"
  by (auto simp: moves_def)

lemma moves_trans: "moves new b c \<Longrightarrow> moves new c d \<Longrightarrow> moves new b d"
proof (unfold moves_def, intro ballI)
  fix r assume 1: "\<forall>r'\<in>set (dbd_routes c). drt_id r' \<in> new \<or> (\<exists>r\<in>set (dbd_routes b).
      drt_id r = drt_id r' \<and> (same_route r' r \<or> drt_updatedAt r < drt_updatedAt r'))"
    and 2: "\<forall>r'\<in>set (dbd_routes d). drt_id r' \<in> new \<or> (\<exists>r\<in>set (dbd_routes c).
      drt_id r = drt_id r' \<and> (same_route r' r \<or> drt_updatedAt r < drt_updatedAt r'))"
    and r: "r \<in> set (dbd_routes d)"
  show "drt_id r \<in> new \<or> (\<exists>x\<in>set (dbd_routes b).
      drt_id x = drt_id r \<and> (same_route r x \<or> drt_updatedAt x < drt_updatedAt r))"
  proof (cases "drt_id r \<in> new")
    case False
    with 2 r obtain y where y: "y \<in> set (dbd_routes c)" "drt_id y = drt_id r"
      "same_route r y \<or> drt_updatedAt y < drt_updatedAt r" by blast
    with 1 False obtain x where x: "x \<in> set (dbd_routes b)" "drt_id x = drt_id y"
      "same_route y x \<or> drt_updatedAt x < drt_updatedAt y" by metis
    have "same_route r x \<or> drt_updatedAt x < drt_updatedAt r"
      using x(3) y(3) same_route_fields(3) [of r y] same_route_fields(3) [of y x] same_route_trans [of r y x]
      by (elim disjE) simp_all
    with x y show ?thesis by auto
  qed simp
qed

lemma save_moves:
  assumes s: "saveRoute r b = Inr b'" and ok: "board_ok b"
    and x: "drt_id r \<in> new \<or> (\<exists>x\<in>set (dbd_routes b). drt_id x = drt_id r \<and> drt_updatedAt x < drt_updatedAt r)"
  shows "moves new b b'"
proof -
  have ids: "distinct (map drt_id (dbd_routes b))" using ok by (simp add: board_ok_def)
  obtain r' where r': "r' \<in> set (dbd_routes b')" "distinct (map drt_id (dbd_routes b'))"
    "filter (\<lambda>x. drt_id x \<noteq> drt_id r) (dbd_routes b') = filter (\<lambda>x. drt_id x \<noteq> drt_id r) (dbd_routes b)"
    "drt_id r' = drt_id r" "drt_updatedAt r' = drt_updatedAt r"
    using saveRoute_facts [OF s ids] by metis
  show ?thesis
    unfolding moves_def
  proof
    fix y assume y: "y \<in> set (dbd_routes b')"
    show "drt_id y \<in> new \<or> (\<exists>x\<in>set (dbd_routes b).
      drt_id x = drt_id y \<and> (same_route y x \<or> drt_updatedAt x < drt_updatedAt y))"
    proof (cases "drt_id y = drt_id r")
      case True
      with same_id_eq [OF r'(2,1) y] r'(4) have "y = r'" by simp
      with x r'(4,5) show ?thesis by auto
    next
      case False
      with y have "y \<in> set (filter (\<lambda>x. drt_id x \<noteq> drt_id r) (dbd_routes b'))" by simp
      then have "y \<in> set (dbd_routes b)" by (simp add: r'(3))
      then show ?thesis by auto
    qed
  qed
qed

lemma save_outbox: "saveRoute r b = Inr b' \<Longrightarrow> dbd_outbox b' = dbd_outbox b \<and> dbd_sales b' = dbd_sales b"
  by (auto simp: saveRoute_def result_simps)

lemma save_locked:
  assumes ok: "board_ok b" and x: "x \<in> set (dbd_routes b)" "all_pending x" "drt_updatedAt x < drt_updatedAt r"
    and r: "drt_id r = drt_id x" "route_sound r" "all_pending r" and s: "saveRoute r b = Inr b'"
  shows "board_ok b' \<and> moves {} b b'"
proof
  have ids: "distinct (map drt_id (dbd_routes b))" using ok by (simp add: board_ok_def)
  show "board_ok b'"
    using same_id_eq [OF ids x(1)] x(2) r(1) by (intro saveRoute_ok [OF s ok r(2,3)]) auto
  show "moves {} b b'"
    using x r(1) by (intro save_moves [OF s ok]) auto
qed

lemma drafted_save:
  assumes ok: "board_ok b" and p: "permuting order" and a: "findById order i b = Some a"
    and d: "drafted now a r" and l: "later {i} now b" and s: "saveRoute r b = Inr b'"
  shows "board_ok b' \<and> moves {} b b'"
proof -
  obtain x where x: "x \<in> set (dbd_routes b)" "drt_id x = i" "same_route a x" "route_sound a"
    using findById_Some [OF ok p a] by metis
  have "drt_status a = RouteDraft" using d by (simp add: drafted_def)
  then have pa: "all_pending a" using x(4) by (rule sound_all_pending [rotated])
  show ?thesis
    using d l x pa same_route_fields [OF x(3)]
    by (intro save_locked [OF ok x(1) _ _ _ _ _ s])
      (auto simp: drafted_def later_def same_route_pending intro: sound_all_pending)
qed

text \<open>An update that changes nothing saves the route as it was loaded, in any status.\<close>

lemma unchanged_save:
  assumes ok: "board_ok b" and p: "permuting order" and a: "findById order i b = Some a"
    and s: "saveRoute a b = Inr b'"
  shows "board_ok b' \<and> moves {} b b'"
proof -
  obtain x where x: "x \<in> set (dbd_routes b)" "drt_id x = i" "same_route a x" "route_sound a"
    using findById_Some [OF ok p a] by metis
  have ids: "distinct (map drt_id (dbd_routes b))" using ok by (simp add: board_ok_def)
  have i: "drt_id a = drt_id x" by (rule same_route_fields [OF x(3)])
  have ax: "a\<lparr>drt_tenantId := drt_tenantId x, drt_createdAt := drt_createdAt x\<rparr> = a"
    using x(3) by (auto simp: same_route_def)
  have up: "upsert_route a (dbd_routes b) = map (\<lambda>y. if drt_id y = drt_id x then a else y) (dbd_routes b)"
    using x(1) by (auto simp: upsert_route_def update_first_map [OF ids] i ax dest: same_id_eq [OF ids x(1)])
  from s have b': "b' = b\<lparr>dbd_routes := upsert_route a (dbd_routes b)\<rparr>"
    by (auto simp: saveRoute_def result_simps)
  have split: "mset (all_stops b) = mset (drt_stops a @ other_stops (drt_id x) b)"
    using all_stops_split [OF ids x(1)] same_route_stops [OF x(3)] by simp
  have rows: "dbd_routes b' = map (\<lambda>y. if drt_id y = drt_id x then a else y) (dbd_routes b)"
    by (simp add: b' up)
  have "map drt_id (dbd_routes b') = map drt_id (dbd_routes b)"
    unfolding rows using i by simp
  moreover have "filter (\<lambda>y. drt_id y \<noteq> drt_id a) (dbd_routes b') = filter (\<lambda>y. drt_id y \<noteq> drt_id a) (dbd_routes b)"
    unfolding rows i by (induction "dbd_routes b") (auto simp: i filter_map comp_def intro!: map_idI)
  moreover have "thanked b' = thanked b" by (simp add: b' thanked_def)
  moreover have "a \<in> set (dbd_routes b')" using x(1) by (auto simp: rows)
  ultimately have "board_ok b'"
    using ok ids x(4) i distinct_map_perm [OF split, of rst_id] distinct_reserved_perm [OF split]
      completed_ids_perm [OF split]
    by (intro board_ok_swap [OF ok, of b' a]) (simp_all add: board_ok_def)
  moreover have "moves {} b b'"
    using x(1,3) i by (fastforce simp: moves_def rows)
  ultimately show ?thesis by simp
qed

lemma draft_all_pending: "drafted now r r' \<Longrightarrow> route_sound r \<Longrightarrow> all_pending r'"
  by (auto simp: drafted_def intro: sound_all_pending)

lemma drafted_trans: "drafted now r s \<Longrightarrow> drafted now s t \<Longrightarrow> drafted now r t"
  by (simp add: drafted_def)

lemma createRoute_ok:
  assumes ok: "board_ok b" and c: "createRoute uuid i driver saleIds notes now b = Inr b'"
    and i: "i \<notin> drt_id ` set (dbd_routes b)"
  shows "board_ok b' \<and> moves {i} b b'"
proof -
  from c obtain r where r: "route_create (checkSaleEligibility b) uuid i (dbd_tenantId b) driver saleIds
      notes now = Inr r" and s: "saveRoute r b = Inr b'"
    by (auto simp: createRoute_def result_simps)
  note R = route_create_sound [OF r]
  have "board_ok b'"
    by (rule saveRoute_ok [OF s ok R(4) sound_all_pending [OF R(4,2)]]) (use i R(1) in \<open>auto simp: rev_image_eqI\<close>)
  moreover have "moves {i} b b'"
    by (rule save_moves [OF s ok]) (simp add: R(1))
  ultimately show ?thesis ..
qed

lemma addStopToRoute_ok:
  assumes ok: "board_ok b" and p: "permuting order" and l: "later {i} now b"
    and u: "addStopToRoute collate order uuid i saleId now b = Inr b'"
  shows "board_ok b' \<and> moves {} b b'"
proof -
  from u obtain a r where a: "findById order i b = Some a" and s: "saveRoute r b = Inr b'"
    and r: "addStop (checkSaleEligibility b) uuid saleId now a = Inr r"
    by (auto simp: addStopToRoute_def with_locked_Inr result_simps)
  show ?thesis by (rule drafted_save [OF ok p a addStop_drafted [OF r] l s])
qed

lemma findById_distinct:
  assumes ok: "board_ok b" and p: "permuting order" and a: "findById order i b = Some a"
  shows "distinct (map rst_id (drt_stops a))"
proof -
  obtain x where x: "x \<in> set (dbd_routes b)" "same_route a x"
    using findById_Some [OF ok p a] by metis
  have "mset (all_stops b) = mset (drt_stops x @ other_stops (drt_id x) b)"
    using ok x(1) by (simp add: all_stops_split board_ok_def)
  then have "distinct (map rst_id (drt_stops x @ other_stops (drt_id x) b))"
    using ok distinct_map_perm unfolding board_ok_def by blast
  then have "distinct (map rst_id (drt_stops x))" by simp
  then show ?thesis by (rule distinct_map_perm [OF same_route_stops [OF x(2)], THEN iffD2])
qed

lemma reorderRoute_ok:
  assumes ok: "board_ok b" and p: "permuting order" and l: "later {i} now b"
    and u: "reorderRoute collate order i ordered now b = Inr b'"
  shows "board_ok b' \<and> moves {} b b'"
proof -
  from u obtain a where a: "findById order i b = Some a"
    and w: "(case reorderStops now ordered a of (Inl e, _) \<Rightarrow> Inl e | (Inr _, r') \<Rightarrow> saveRoute r' b) = Inr b'"
    by (auto simp: reorderRoute_def with_locked_Inr)
  from w obtain r where r: "reorderStops now ordered a = (Inr (), r)" and s: "saveRoute r b = Inr b'"
    by (auto split: prod.splits sum.splits)
  have "drafted now a r" by (rule reorderStops_drafted [OF r findById_distinct [OF ok p a]])
  then show ?thesis by (rule drafted_save [OF ok p a _ l s])
qed

lemma updateRoute_ok:
  assumes ok: "board_ok b" and p: "permuting order" and l: "later {i} now b"
    and u: "updateRoute collate order i driver notes now b = Inr b'"
  shows "board_ok b' \<and> moves {} b b'"
proof -
  from u obtain a r1 r2 where a: "findById order i b = Some a" and s: "saveRoute r2 b = Inr b'"
    and r1: "(case driver of None \<Rightarrow> Inr a | Some d \<Rightarrow> assignDriver d now a) = Inr r1"
    and r2: "(case notes of None \<Rightarrow> Inr r1 | Some n \<Rightarrow> updateNotes n now r1) = Inr r2"
    by (auto simp: updateRoute_def with_locked_Inr result_simps)
  have "r1 = a \<or> drafted now a r1" using r1 by (auto split: option.splits dest: assignDriver_drafted)
  moreover have "r2 = r1 \<or> drafted now r1 r2" using r2 by (auto split: option.splits dest: updateNotes_drafted)
  ultimately consider "r2 = a" | "drafted now a r2" using drafted_trans by blast
  then show ?thesis
  proof cases
    case 1
    with unchanged_save [OF ok p a] s show ?thesis by simp
  next
    case 2
    show ?thesis by (rule drafted_save [OF ok p a 2 l s])
  qed
qed

lemma startRoute_ok:
  assumes ok: "board_ok b" and p: "permuting order" and l: "later {i} now b"
    and u: "startRoute collate order i now b = Inr b'"
  shows "board_ok b' \<and> moves {} b b'"
proof -
  from u obtain a r where a: "findById order i b = Some a" and s: "saveRoute r b = Inr b'"
    and r: "route_start now a = Inr r"
    by (auto simp: startRoute_def with_locked_Inr result_simps)
  obtain x where x: "x \<in> set (dbd_routes b)" "drt_id x = i" "same_route a x" "route_sound a"
    using findById_Some [OF ok p a] by metis
  note R = route_start_sound [OF r]
  have "all_pending x"
    using sound_all_pending [OF x(4) R(1)] same_route_pending [OF x(3)] by simp
  then show ?thesis
    using l x(2) R(2,4) R(5) [OF x(4)] same_route_fields(1) [OF x(3)] x(1)
    by (intro save_locked [OF ok x(1) _ _ _ _ _ s]) (auto simp: later_def)
qed

lemma deleteRouteById_ok:
  assumes ok: "board_ok b" and u: "deleteRouteById collate order i b = Inr b'"
  shows "board_ok b' \<and> moves {} b b'"
proof -
  have ids: "distinct (map drt_id (dbd_routes b))" using ok by (simp add: board_ok_def)
  from u obtain x where f: "find_route i b = Some x" and d: "deleteRoute i b = Inr b'"
    by (auto simp: deleteRouteById_def with_locked_Inr findById_def result_simps)
  then have x: "x \<in> set (dbd_routes b)" "drt_id x = i" "drt_stops x = []"
    and b': "b' = b\<lparr>dbd_routes := filter (\<lambda>x. drt_id x \<noteq> i) (dbd_routes b)\<rparr>"
    using find_route_Some [OF ids, of i x] by (auto simp: deleteRoute_def result_simps)
  have m: "mset (all_stops b) = mset (all_stops b')"
    using all_stops_split [OF ids x(1)] x(2,3) by (simp add: b' all_stops_def other_stops_def)
  have "board_ok b'"
    using ok distinct_map_perm [OF m, of rst_id] distinct_reserved_perm [OF m] completed_ids_perm [OF m]
    by (auto simp: board_ok_def b' thanked_def intro: distinct_map_filter)
  moreover have "moves {} b b'" by (auto simp: moves_def b')
  ultimately show ?thesis ..
qed

lemma locked_pair_Inr:
  assumes "runWithRouteLocks collate order [i, j] work b = Inr x"
  obtains a1 a2 where "findById order i b = Some a1" "findById order j b = Some a2"
    "work (if j = i then [(i, a1)] else [(i, a1), (j, a2)]) = Inr x"
proof -
  from assms have "andThen (mapM_list (\<lambda>k. mapR (\<lambda>r. (k, r)) (with_route order k Inr b)) (unique [i, j])) work
      = Inr x"
    by (auto simp: runWithRouteLocks_def split: list.splits)
  then show ?thesis
    using that by (auto simp: with_route_def result_simps split: option.splits if_splits)
qed

lemma transferStop_ok:
  assumes ok: "board_ok b" and p: "permuting order" and l: "later {i, j} now b"
    and u: "transferStop collate order can i stopId j now b = Inr b'"
  shows "board_ok b' \<and> moves {} b b'"
proof -
  obtain a1 a2 where a: "findById order i b = Some a1" "findById order j b = Some a2"
    and w: "(case transferStopTo stopId now a1 (if j = i then a1 else a2) of
        (Inl e, _, _) \<Rightarrow> Inl e
      | (Inr _, o', d') \<Rightarrow> andThen (saveRoute o' b) (saveRoute d')) = Inr b'"
    by (rule locked_pair_Inr [OF u [unfolded transferStop_def]])
      (auto simp: result_simps split: if_splits)
  have "(if j = i then a1 else a2) = a2" using a by auto
  with w obtain c1 c2 b1 where t: "transferStopTo stopId now a1 a2 = (Inr (), c1, c2)"
    and s: "saveRoute c1 b = Inr b1" "saveRoute c2 b1 = Inr b'"
    by (auto simp: result_simps split: prod.splits sum.splits)
  note T = transferStopTo_drafted [OF t]
  have 1: "board_ok b1 \<and> moves {} b b1"
    using l by (intro drafted_save [OF ok p a(1) T(1) _ s(1)]) (simp add: later_def)
  obtain y where y: "y \<in> set (dbd_routes b)" "drt_id y = j" "same_route a2 y" "route_sound a2"
    using findById_Some [OF ok p a(2)] by metis
  obtain x where x: "drt_id x = i" "same_route a1 x"
    using findById_Some [OF ok p a(1)] by metis
  have ids: "distinct (map drt_id (dbd_routes b))" using ok by (simp add: board_ok_def)
  have c1: "drt_id c1 = i"
    using T(1) x same_route_fields(1) [OF x(2)] by (simp add: drafted_def)
  have j: "j \<noteq> i" using T(3) x(1) y(2) same_route_fields(1) [OF x(2)] same_route_fields(1) [OF y(3)] by simp
  have "filter (\<lambda>z. drt_id z \<noteq> i) (dbd_routes b1) = filter (\<lambda>z. drt_id z \<noteq> i) (dbd_routes b)"
    by (rule saveRoute_facts [OF s(1) ids]) (simp add: c1)
  then have "set (filter (\<lambda>z. drt_id z \<noteq> i) (dbd_routes b1)) = set (filter (\<lambda>z. drt_id z \<noteq> i) (dbd_routes b))"
    by simp
  with y(1,2) j have yb: "y \<in> set (dbd_routes b1)" by auto
  have "drt_status a2 = RouteDraft" using T(2) by (simp add: drafted_def)
  then have "all_pending y"
    using sound_all_pending [OF y(4)] same_route_pending [OF y(3)] by simp
  then have "board_ok b' \<and> moves {} b1 b'"
    using l y(1,2) T(2) same_route_fields [OF y(3)] draft_all_pending [OF T(2) y(4)] y(4) 1
    by (intro save_locked [OF _ yb _ _ _ _ _ s(2)]) (auto simp: later_def drafted_def)
  with 1 show ?thesis using moves_trans by blast
qed

end
