(* ===== verification/DeliveryCommit.thy ===== *)
theory DeliveryCommit
  imports DeliveryLaws
begin

section \<open>The conditional commit of delivery routes\<close>

text \<open>
  Check-in and cancellation against a snapshot: what the aggregate changes stop by
  stop, and that a commit whose predicates hold is the transition of the persisted
  route itself.
\<close>

subsection \<open>The transitions, stop by stop\<close>

text \<open>
  A change of a stop that the conditional write transports: it keeps the identity, and
  is nothing when the compared fields stay.
\<close>

definition transported :: "(route_stop \<Rightarrow> route_stop) \<Rightarrow> route_stop \<Rightarrow> bool" where
  "transported f s \<longleftrightarrow> rst_id (f s) = rst_id s \<and> write_stop (f s) s = f s \<and>
     (\<not> stopTransitionChanged (stop_expectation_of s) (f s) \<longrightarrow> f s = s)"

lemma stop_matches_self [simp]: "stop_matches (stop_expectation_of s) s"
  by (simp add: stop_matches_def stop_expectation_of_def)

lemma commit_stops_map:
  assumes "distinct (map rst_id rows0)" and "set ss \<subseteq> set rows0" and "distinct ss"
    and "\<forall>s\<in>set rows0. transported f s"
    and "mset stops = mset rows0"
    and "rows = map (\<lambda>s. if s \<in> done then f s else s) rows0" and "done \<inter> set ss = {}"
  shows "commit_stops (map stop_expectation_of stops) (map f ss) rows =
    Some (map (\<lambda>s. if s \<in> done \<union> set ss then f s else s) rows0)"
  using assms
proof (induction ss arbitrary: "done" rows)
  case (Cons s ss)
  have s: "s \<in> set rows0" "transported f s" "s \<notin> done" using Cons.prems by auto
  have uniq: "t = s" if "t \<in> set rows0" "rst_id t = rst_id s" for t
    using Cons.prems(1) s(1) that by (metis distinct_map inj_on_def)
  have stops: "set stops = set rows0" using Cons.prems(5) by (rule mset_eq_setD)
  have "find (\<lambda>x. sxp_id x = rst_id (f s)) (map stop_expectation_of stops) = Some (stop_expectation_of s)"
  proof -
    have "\<exists>x\<in>set (map stop_expectation_of stops). sxp_id x = rst_id (f s)"
      using s stops by (auto simp: stop_expectation_of_def transported_def intro!: bexI [of _ s])
    then have "find (\<lambda>x. sxp_id x = rst_id (f s)) (map stop_expectation_of stops) \<noteq> None"
      unfolding find_eq_None by blast
    then obtain x where x: "find (\<lambda>x. sxp_id x = rst_id (f s)) (map stop_expectation_of stops) = Some x"
      by blast
    from find_SomeD [OF x] obtain t where t: "t \<in> set rows0" "x = stop_expectation_of t"
      "sxp_id x = rst_id (f s)"
      using stops by auto
    from t(2,3) have "rst_id t = rst_id s"
      using s(2) by (simp add: stop_expectation_of_def transported_def)
    note t = t(1,2) this
    with uniq [OF t(1,3)] x show ?thesis by simp
  qed
  note found = this
  have rows: "rows = map (\<lambda>s. if s \<in> done then f s else s) rows0" by (rule Cons.prems(6))
  have next_rows: "commit_stops (map stop_expectation_of stops) (map f ss)
      (map (\<lambda>t. if t \<in> insert s done then f t else t) rows0) =
    Some (map (\<lambda>t. if t \<in> done \<union> set (s # ss) then f t else t) rows0)"
    using Cons.IH [of "map (\<lambda>t. if t \<in> insert s done then f t else t) rows0" "insert s done"] Cons.prems
    by (simp add: Un_commute)
  show ?case
  proof (cases "stopTransitionChanged (stop_expectation_of s) (f s)")
    case False
    with s(2) have "f s = s" by (simp add: transported_def)
    then have "rows = map (\<lambda>t. if t \<in> insert s done then f t else t) rows0"
      by (auto simp: rows)
    with False found next_rows show ?thesis by simp
  next
    case True
    have ids: "rst_id (f t) = rst_id t" if "t \<in> set rows0" for t
      using Cons.prems(4) that by (simp add: transported_def)
    have hit: "\<exists>row\<in>set rows. rst_id row = rst_id (f s) \<and> stop_matches (stop_expectation_of s) row"
      using s ids by (auto simp: rows intro!: bexI [of _ s])
    have "map (\<lambda>row. if rst_id row = rst_id (f s) \<and> stop_matches (stop_expectation_of s) row
        then write_stop (f s) row else row) rows = map (\<lambda>t. if t \<in> insert s done then f t else t) rows0"
      unfolding rows map_map comp_def
    proof (rule map_cong [OF refl])
      fix t assume t: "t \<in> set rows0"
      let ?row = "if t \<in> done then f t else t"
      show "(if rst_id ?row = rst_id (f s) \<and> stop_matches (stop_expectation_of s) ?row
          then write_stop (f s) ?row else ?row) = (if t \<in> insert s done then f t else t)"
      proof (cases "t = s")
        case True
        with s show ?thesis by (simp add: transported_def)
      next
        case False
        then have "rst_id t \<noteq> rst_id s" using uniq t by blast
        with False ids t s(1) show ?thesis by auto
      qed
    qed
    with True found hit next_rows show ?thesis by simp
  qed
qed simp

text \<open>What a transition does to the route: its own fields, and a change of every stop.\<close>

lemma release_unreserved: "rst_activeRouteId s = None \<Longrightarrow> setActiveRouteId None s = s"
  by (cases s) (simp add: setActiveRouteId_def)

lemma write_stop_release: "write_stop (setActiveRouteId None t) s = setActiveRouteId None (write_stop t s)"
  by (simp add: write_stop_def setActiveRouteId_def)

lemma write_stop_self [simp]: "write_stop s s = s"
  by (simp add: write_stop_def)

lemma write_stop_completed: "write_stop (markCompleted now s) s = markCompleted now s"
  by (simp add: write_stop_def markCompleted_def)

definition checked :: "ident \<Rightarrow> timestamp \<Rightarrow> route_stop \<Rightarrow> route_stop" where
  "checked i now s = (if rst_id s = i then markCompleted now s else s)"

lemma write_stop_checked: "write_stop (checked i now s) s = checked i now s"
  by (simp add: checked_def write_stop_completed)

lemma markCompleted_simps [simp]:
  "rst_id (markCompleted now s) = rst_id s" "rst_saleId (markCompleted now s) = rst_saleId s"
  "rst_sortOrder (markCompleted now s) = rst_sortOrder s"
  "rst_routeId (markCompleted now s) = rst_routeId s"
  "rst_status (markCompleted now s) = StopCompleted"
  "rst_activeRouteId (markCompleted now s) = rst_activeRouteId s"
  by (simp_all add: markCompleted_def)

lemma checked_simps [simp]:
  "rst_id (checked i now s) = rst_id s" "rst_saleId (checked i now s) = rst_saleId s"
  "rst_sortOrder (checked i now s) = rst_sortOrder s"
  "rst_routeId (checked i now s) = rst_routeId s"
  "rst_status (checked i now s) = (if rst_id s = i then StopCompleted else rst_status s)"
  "rst_activeRouteId (checked i now s) = rst_activeRouteId s"
  by (simp_all add: checked_def)

lemma checked_unchanged: "rst_status (checked i now s) = rst_status s \<Longrightarrow> checked i now s = s"
  by (auto simp: checked_def markCompleted_def split: if_splits)

lemma transportedI:
  assumes "rst_id (f s) = rst_id s" and "write_stop (f s) s = f s"
    and "rst_status (f s) = rst_status s \<Longrightarrow> rst_activeRouteId (f s) = rst_activeRouteId s \<Longrightarrow> f s = s"
  shows "transported f s"
  unfolding transported_def
proof (intro conjI impI assms(1,2))
  assume "\<not> stopTransitionChanged (stop_expectation_of s) (f s)"
  then show "f s = s" by (intro assms(3)) (simp_all add: stopTransitionChanged_def stop_expectation_of_def)
qed

lemma transported_release: "transported (setActiveRouteId None) s"
  by (rule transportedI) (simp_all add: write_stop_release release_unreserved)

lemma transported_checked: "transported (checked i now) s"
  by (rule transportedI) (simp_all only: write_stop_checked checked_unchanged checked_simps(1))

lemma transported_checked_release: "transported (\<lambda>s. setActiveRouteId None (checked i now s)) s"
proof (rule transportedI)
  assume "rst_status (setActiveRouteId None (checked i now s)) = rst_status s"
    and "rst_activeRouteId (setActiveRouteId None (checked i now s)) = rst_activeRouteId s"
  then have "rst_status (checked i now s) = rst_status s" "rst_activeRouteId s = None" by simp_all
  then show "setActiveRouteId None (checked i now s) = s"
    by (simp only: checked_unchanged release_unreserved)
qed (simp_all add: write_stop_release write_stop_checked)

text \<open>
  The conditional commit of \<open>next\<close>, whose stops are those of the snapshot under a
  transported change, with reconciliation left to do nothing.
\<close>

lemma commitTransition_same:
  assumes b: "board_ok b" and r: "r \<in> set (dbd_routes b)" and a: "same_route a r"
    and n: "drt_id n = drt_id r" "drt_createdAt n = drt_createdAt r" "drt_tenantId n = drt_tenantId r"
      "drt_stops n = map f (drt_stops a)"
    and f: "\<forall>s\<in>set (drt_stops r). transported f s"
    and settled: "(\<exists>s\<in>set (drt_stops n). is_open s) \<or>
      drt_status n \<noteq> RouteActive \<and> (\<forall>s\<in>set (drt_stops n). \<not> reserved s)"
  shows "commitTransition clock (drt_id r) (captureRouteTransitionExpectation a) n b =
    Committed (put_route (n\<lparr>drt_stops := map f (drt_stops r)\<rparr>) b)"
proof -
  have ids: "distinct (map drt_id (dbd_routes b))" using b by (simp add: board_ok_def)
  then have found: "find_route (drt_id r) b = Some r" using r by (simp add: find_route_Some)
  have m: "mset (drt_stops a) = mset (drt_stops r)" by (rule same_route_stops [OF a])
  have set_eq: "set (drt_stops a) = set (drt_stops r)" by (rule same_route_set [OF a])
  have "mset (all_stops b) = mset (drt_stops r @ other_stops (drt_id r) b)"
    using all_stops_split [OF ids r] .
  then have d: "distinct (map rst_id (drt_stops r))"
    using b distinct_map_perm [of "all_stops b" "drt_stops r @ other_stops (drt_id r) b" rst_id]
    by (simp add: board_ok_def)
  have da: "distinct (drt_stops a)"
    using d distinct_map [of rst_id "drt_stops r"] mset_eq_imp_distinct_iff [OF m] by simp
  have match: "parent_matches (captureRouteTransitionExpectation a) r"
    using a by (auto simp: parent_matches_def captureRouteTransitionExpectation_def same_route_def)
  have stops: "commit_stops (map stop_expectation_of (drt_stops a)) (map f (drt_stops a)) (drt_stops r) =
    Some (map f (drt_stops r))"
    using commit_stops_map [OF d _ da f m, of "drt_stops r" "{}"] set_eq by (simp cong: map_cong)
  have w: "(write_parent n r)\<lparr>drt_stops := ss\<rparr> = n\<lparr>drt_stops := ss\<rparr>" for ss
    using n(1-3) by (simp add: write_parent_def)
  have "reconcileRouteCompletion clock (n\<lparr>drt_stops := map f (drt_stops r)\<rparr>) = n\<lparr>drt_stops := map f (drt_stops r)\<rparr>"
    using settled unfolding n(4) set_map set_eq
    by (auto simp: reconcileRouteCompletion_def Let_def intro!: map_idI)
  with found match stops w n(4) show ?thesis
    by (simp add: commitTransition_def captureRouteTransitionExpectation_def put_route_def)
qed

subsection \<open>Check-in\<close>

lemma nextPendingStop_None: "nextPendingStop r = None \<longleftrightarrow> (\<forall>s\<in>set (drt_stops r). \<not> is_open s)"
proof -
  have "sort_key rst_sortOrder (filter is_open (drt_stops r)) = [] \<longleftrightarrow> filter is_open (drt_stops r) = []"
    by (metis length_sort length_0_conv)
  then show ?thesis by (auto simp: nextPendingStop_def filter_empty_conv split: list.splits)
qed

lemma nextPendingStop_Some:
  assumes "nextPendingStop r = Some n"
  shows "n \<in> set (drt_stops r) \<and> is_open n \<and>
    (\<forall>s\<in>set (drt_stops r). is_open s \<longrightarrow> rst_sortOrder n \<le> rst_sortOrder s)"
proof -
  let ?l = "sort_key rst_sortOrder (filter is_open (drt_stops r))"
  from assms obtain rest where l: "?l = n # rest" by (auto simp: nextPendingStop_def split: list.splits)
  have "set ?l = {s \<in> set (drt_stops r). is_open s}" by simp
  moreover have "sorted (map rst_sortOrder ?l)" by simp
  ultimately show ?thesis unfolding l by auto
qed

lemma nextPendingStop_same:
  assumes m: "mset (drt_stops a) = mset (drt_stops r)" and d: "distinct (map rst_sortOrder (drt_stops r))"
  shows "nextPendingStop a = nextPendingStop r"
proof -
  let ?f = "\<lambda>x. filter is_open (drt_stops x)"
  have "mset (?f a) = mset (?f r)" using m by simp
  moreover have "inj_on rst_sortOrder (set (?f a))"
    using d mset_eq_setD [OF m] by (auto simp: distinct_map intro: inj_on_subset)
  ultimately have "sort_key rst_sortOrder (?f a) = sort_key rst_sortOrder (?f r)"
    by (intro sort_key_inj_key_eq) simp_all
  then show ?thesis by (simp add: nextPendingStop_def)
qed

text \<open>The two results of a check-in, in closed form.\<close>

definition checked_route :: "ident \<Rightarrow> timestamp \<Rightarrow> delivery_route \<Rightarrow> delivery_route" where
  "checked_route i now r = r\<lparr>drt_stops := map (checked i now) (drt_stops r)\<rparr>"

definition check_in_of :: "ident \<Rightarrow> timestamp \<Rightarrow> delivery_route \<Rightarrow> route_stop \<Rightarrow> check_in_result" where
  "check_in_of i now r s =
     (case nextPendingStop (checked_route i now r) of
        Some n \<Rightarrow> \<lparr>cir_route = (checked_route i now r)\<lparr>drt_updatedAt := now\<rparr>,
                    cir_completedStop = markCompleted now s, cir_nextStop = Some n\<rparr>
      | None \<Rightarrow> \<lparr>cir_route = r\<lparr>drt_stops := map (\<lambda>x. setActiveRouteId None (checked i now x)) (drt_stops r),
                                drt_status := RouteCompleted, drt_completedAt := Some now,
                                drt_updatedAt := now\<rparr>,
                  cir_completedStop = setActiveRouteId None (markCompleted now s), cir_nextStop = None\<rparr>)"

lemma find_stop:
  assumes "distinct (map rst_id ss)" and "s \<in> set ss"
  shows "find (\<lambda>x. rst_id x = rst_id s) ss = Some s"
proof -
  have "find (\<lambda>x. rst_id x = rst_id s) ss \<noteq> None" using assms(2) by (auto simp: find_eq_None)
  then obtain t where t: "find (\<lambda>x. rst_id x = rst_id s) ss = Some t" by blast
  with find_SomeD [OF t] assms have "t = s" by (metis distinct_map inj_on_def)
  with t show ?thesis by simp
qed

lemma checkInStop_pending:
  assumes d: "distinct (map rst_id (drt_stops r))" and s: "s \<in> set (drt_stops r)"
    and p: "rst_status s = StopPending" and r: "drt_status r = RouteActive"
  shows "checkInStop (rst_id s) now r = Inr (check_in_of (rst_id s) now r s)"
proof -
  have "update_first (\<lambda>x. rst_id x = rst_id s) (markCompleted now) (drt_stops r) =
      map (checked (rst_id s) now) (drt_stops r)"
    by (simp add: update_first_map [OF d] checked_def [abs_def])
  then show ?thesis
    using p r by (simp add: checkInStop_def find_stop [OF d s] check_in_of_def checked_route_def Let_def
        comp_def split: option.splits)
qed

lemma checkInStop_replay:
  assumes d: "distinct (map rst_id (drt_stops r))" and s: "s \<in> set (drt_stops r)"
    and p: "rst_status s = StopCompleted"
  shows "checkInStop (rst_id s) now r =
    (if drt_status r = RouteActive \<or> drt_status r = RouteCompleted
     then Inr \<lparr>cir_route = r, cir_completedStop = s, cir_nextStop = nextPendingStop r\<rparr>
     else Inl (not_active r))"
  using p by (simp add: checkInStop_def find_stop [OF d s] throw_if_def)

lemma checkInStop_inactive:
  assumes d: "distinct (map rst_id (drt_stops r))" and s: "s \<in> set (drt_stops r)"
    and p: "rst_status s = StopPending" and r: "drt_status r \<noteq> RouteActive"
  shows "checkInStop (rst_id s) now r = Inl (not_active r)"
  using p r by (simp add: checkInStop_def find_stop [OF d s])

lemma checkInStop_unknown:
  "\<forall>s\<in>set (drt_stops r). rst_id s \<noteq> i \<Longrightarrow> checkInStop i now r =
     Inl (invalid_transition (''Stop \"'' @ i @ ''\" does not belong to this route''))"
proof -
  assume "\<forall>s\<in>set (drt_stops r). rst_id s \<noteq> i"
  then have "find (\<lambda>s. rst_id s = i) (drt_stops r) = None" by (simp add: find_eq_None)
  then show ?thesis by (simp add: checkInStop_def)
qed

lemma sound_stop_status:
  "route_sound r \<Longrightarrow> s \<in> set (drt_stops r) \<Longrightarrow> rst_status s = StopPending \<or> rst_status s = StopCompleted"
  by (simp add: route_sound_def stop_sound_def)

lemma sound_is_open:
  "route_sound r \<Longrightarrow> s \<in> set (drt_stops r) \<Longrightarrow> is_open s \<longleftrightarrow> rst_status s = StopPending"
  by (auto dest!: sound_stop_status simp: is_open_def)

lemma sound_active_open:
  assumes r: "route_sound r" and a: "drt_status r = RouteActive"
  shows "\<exists>s\<in>set (drt_stops r). is_open s"
proof -
  have "\<not> (\<forall>s\<in>set (drt_stops r). rst_status s = StopCompleted)"
    using r a by (simp add: route_sound_def phase_sound_def)
  then obtain s where s: "s \<in> set (drt_stops r)" "rst_status s \<noteq> StopCompleted" by blast
  with sound_stop_status [OF r s(1)] show ?thesis by (auto simp: is_open_def)
qed

text \<open>Both ways a check-in of a sound route succeeds.\<close>

lemma checkInStop_cases:
  assumes d: "distinct (map rst_id (drt_stops r))" and sound: "route_sound r"
    and c: "checkInStop i now r = Inr c"
  obtains (replay) s where "s \<in> set (drt_stops r)" "rst_id s = i" "rst_status s = StopCompleted"
      "drt_status r = RouteActive \<or> drt_status r = RouteCompleted"
      "c = \<lparr>cir_route = r, cir_completedStop = s, cir_nextStop = nextPendingStop r\<rparr>"
    | (first) s where "s \<in> set (drt_stops r)" "rst_id s = i" "rst_status s = StopPending"
      "drt_status r = RouteActive" "c = check_in_of i now r s"
proof (cases "\<exists>s\<in>set (drt_stops r). rst_id s = i")
  case False
  with checkInStop_unknown [of r i now] c show ?thesis by simp
next
  case True
  then obtain s where s: "s \<in> set (drt_stops r)" "rst_id s = i" by blast
  show ?thesis
  proof (cases "rst_status s = StopCompleted")
    case True
    with checkInStop_replay [OF d s(1) True, of now] c s show ?thesis
      by (intro replay [OF s True]) (auto split: if_splits)
  next
    case False
    with sound_stop_status [OF sound s(1)] have p: "rst_status s = StopPending" by simp
    have a: "drt_status r = RouteActive"
      using checkInStop_inactive [OF d s(1) p, of now] c s(2) by (cases "drt_status r = RouteActive") auto
    show ?thesis
      using checkInStop_pending [OF d s(1) p a, of now] c s(2) by (intro first [OF s p a]) simp
  qed
qed

subsection \<open>A snapshot that still matches is the persisted route\<close>

lemma board_route:
  assumes "board_ok b" and "r \<in> set (dbd_routes b)"
  shows "find_route (drt_id r) b = Some r" "route_sound r" "distinct (map rst_id (drt_stops r))"
    "distinct (map drt_id (dbd_routes b))" "distinct (map rst_sortOrder (drt_stops r))"
proof -
  show ids: "distinct (map drt_id (dbd_routes b))" using assms(1) by (simp add: board_ok_def)
  then show "find_route (drt_id r) b = Some r" using assms(2) by (simp add: find_route_Some)
  show sound: "route_sound r" using assms by (simp add: board_ok_def)
  then show "distinct (map rst_sortOrder (drt_stops r))"
    by (simp add: route_sound_def contiguous_distinct)
  have "distinct (map rst_id (drt_stops r @ other_stops (drt_id r) b))"
    using assms(1) distinct_map_perm [OF all_stops_split [OF ids assms(2)], of rst_id]
    by (simp add: board_ok_def)
  then show "distinct (map rst_id (drt_stops r))" by simp
qed

lemma find_perm:
  assumes m: "mset xs = mset ys" and d: "distinct (map rst_id ys)"
  shows "find (\<lambda>s. rst_id s = i) xs = find (\<lambda>s. rst_id s = i) ys"
proof (cases "\<exists>s\<in>set ys. rst_id s = i")
  case True
  then obtain s where s: "s \<in> set ys" "rst_id s = i" by blast
  moreover from s m have "s \<in> set xs" by (metis mset_eq_setD)
  moreover have "distinct (map rst_id xs)" using d by (rule distinct_map_perm [OF m, THEN iffD2])
  ultimately show ?thesis using find_stop [of xs s] find_stop [OF d s(1)] by simp
next
  case False
  with mset_eq_setD [OF m] have "find (\<lambda>s. rst_id s = i) xs = None" "find (\<lambda>s. rst_id s = i) ys = None"
    by (auto simp: find_eq_None)
  then show ?thesis by simp
qed

lemma next_checked_same:
  assumes a: "same_route a r" and r: "distinct (map rst_sortOrder (drt_stops r))"
  shows "nextPendingStop (checked_route i now a) = nextPendingStop (checked_route i now r)"
  by (rule nextPendingStop_same)
    (simp_all add: checked_route_def same_route_stops [OF a] r comp_def)

lemma commit_check_in:
  assumes b: "board_ok b" and r: "r \<in> set (dbd_routes b)" and a: "same_route a r"
    and s: "s \<in> set (drt_stops r)" "rst_status s = StopPending" and act: "drt_status r = RouteActive"
  shows "commitTransition clock (drt_id r) (captureRouteTransitionExpectation a)
      (cir_route (check_in_of (rst_id s) now a s)) b =
    Committed (put_route (cir_route (check_in_of (rst_id s) now r s)) b)"
proof -
  note R = board_route [OF b r]
  note nx = next_checked_same [OF a R(5), of "rst_id s" now]
  have f: "drt_id a = drt_id r" "drt_createdAt a = drt_createdAt r" "drt_tenantId a = drt_tenantId r"
    using a by (auto simp: same_route_def)
  have se: "set (drt_stops a) = set (drt_stops r)" by (rule same_route_set [OF a])
  show ?thesis
  proof (cases "nextPendingStop (checked_route (rst_id s) now r)")
    case (Some n)
    from nextPendingStop_Some [OF Some] se have op: "\<exists>x\<in>set (drt_stops (checked_route (rst_id s) now a)). is_open x"
      by (auto simp: checked_route_def)
    have "commitTransition clock (drt_id r) (captureRouteTransitionExpectation a)
        ((checked_route (rst_id s) now a)\<lparr>drt_updatedAt := now\<rparr>) b =
      Committed (put_route ((checked_route (rst_id s) now a)\<lparr>drt_updatedAt := now,
        drt_stops := map (checked (rst_id s) now) (drt_stops r)\<rparr>) b)"
      using op f
      by (intro commitTransition_same [OF b r a]) (simp_all add: checked_route_def transported_checked)
    moreover have "(checked_route (rst_id s) now a)\<lparr>drt_updatedAt := now,
        drt_stops := map (checked (rst_id s) now) (drt_stops r)\<rparr> =
      (checked_route (rst_id s) now r)\<lparr>drt_updatedAt := now\<rparr>"
      using a by (auto simp: checked_route_def same_route_def)
    ultimately show ?thesis using Some nx by (simp add: check_in_of_def)
  next
    case None
    let ?f = "\<lambda>x. setActiveRouteId None (checked (rst_id s) now x)"
    let ?n = "\<lambda>x. x\<lparr>drt_stops := map ?f (drt_stops x), drt_status := RouteCompleted,
      drt_completedAt := Some now, drt_updatedAt := now\<rparr>"
    have "commitTransition clock (drt_id r) (captureRouteTransitionExpectation a) (?n a) b =
      Committed (put_route ((?n a)\<lparr>drt_stops := map ?f (drt_stops r)\<rparr>) b)"
      using f by (intro commitTransition_same [OF b r a]) (simp_all add: transported_checked_release reserved_def)
    moreover have "(?n a)\<lparr>drt_stops := map ?f (drt_stops r)\<rparr> = ?n r"
      using a by (auto simp: same_route_def)
    ultimately show ?thesis using None nx by (simp add: check_in_of_def)
  qed
qed

lemma put_route_same: "r \<in> set (dbd_routes b) \<Longrightarrow> board_ok b \<Longrightarrow> put_route r b = b"
proof -
  assume r: "r \<in> set (dbd_routes b)" and b: "board_ok b"
  note R = board_route [OF b r]
  have "map (\<lambda>x. if drt_id x = drt_id r then r else x) (dbd_routes b) = dbd_routes b"
    using same_id_eq [OF R(4) r] by (intro map_idI) auto
  then show ?thesis by (simp add: put_route_def update_first_map [OF R(4)])
qed

text \<open>A replay writes nothing.\<close>

lemma commit_replay:
  assumes b: "board_ok b" and r: "r \<in> set (dbd_routes b)" and a: "same_route a r"
    and act: "drt_status r = RouteActive \<or> drt_status r = RouteCompleted"
  shows "commitTransition clock (drt_id r) (captureRouteTransitionExpectation a) a b = Committed b"
proof -
  note R = board_route [OF b r]
  have ra: "route_sound a" using R(2) same_route_sound [OF a] by simp
  have st: "drt_status a = drt_status r" by (rule same_route_fields [OF a])
  have settled: "(\<exists>s\<in>set (drt_stops a). is_open s) \<or>
      drt_status a \<noteq> RouteActive \<and> (\<forall>s\<in>set (drt_stops a). \<not> reserved s)"
    using act
  proof
    assume "drt_status r = RouteActive"
    with sound_active_open [OF ra] st show ?thesis by simp
  next
    assume "drt_status r = RouteCompleted"
    with ra st show ?thesis
      by (simp add: route_sound_def stop_sound_def reserved_def is_open_route_def)
  qed
  have "commitTransition clock (drt_id r) (captureRouteTransitionExpectation a) a b =
    Committed (put_route (a\<lparr>drt_stops := map (\<lambda>s. s) (drt_stops r)\<rparr>) b)"
    using a by (intro commitTransition_same [OF b r a _ _ _ _ _ settled])
      (auto simp: same_route_def transported_def)
  also have "a\<lparr>drt_stops := map (\<lambda>s. s) (drt_stops r)\<rparr> = r"
    using a by (auto simp: same_route_def)
  finally show ?thesis using put_route_same [OF r b] by simp
qed

lemma attemptCheckIn_snapshot:
  assumes b: "board_ok b" and r: "r \<in> set (dbd_routes b)" and a: "same_route a r"
  shows "attemptCheckIn (drt_id r) i now clock a b = attemptCheckIn (drt_id r) i now clock r b"
proof -
  note R = board_route [OF b r]
  have m: "mset (drt_stops a) = mset (drt_stops r)" by (rule same_route_stops [OF a])
  have da: "distinct (map rst_id (drt_stops a))" using R(3) by (rule distinct_map_perm [OF m, THEN iffD2])
  have se: "set (drt_stops a) = set (drt_stops r)" by (rule same_route_set [OF a])
  have st: "drt_status a = drt_status r" and ai: "drt_id a = drt_id r" by (rule same_route_fields [OF a])+
  have na: "not_active a = not_active r" by (simp add: not_active_def st)
  have wp: "was_pending i a = was_pending i r"
    by (simp add: was_pending_def find_perm [OF m R(3)])
  have nx: "nextPendingStop a = nextPendingStop r" by (rule nextPendingStop_same [OF m R(5)])
  show ?thesis
  proof (cases "\<exists>s\<in>set (drt_stops r). rst_id s = i")
    case False
    with se checkInStop_unknown [of r i now] checkInStop_unknown [of a i now] show ?thesis
      by (simp add: attemptCheckIn_def)
  next
    case True
    then obtain s where s: "s \<in> set (drt_stops r)" "rst_id s = i" by blast
    then have sa: "s \<in> set (drt_stops a)" by (simp add: se)
    consider (pending) "rst_status s = StopPending" | (completed) "rst_status s = StopCompleted"
      using sound_stop_status [OF R(2) s(1)] by blast
    then show ?thesis
    proof cases
      case completed
      note c = checkInStop_replay [OF da sa completed, of now] checkInStop_replay [OF R(3) s(1) completed, of now]
      show ?thesis
      proof (cases "drt_status r = RouteActive \<or> drt_status r = RouteCompleted")
        case True
        note commit_replay [OF b r a True, of clock] commit_replay [OF b r same_route_refl True, of clock]
        with c True show ?thesis
          using s(2) by (simp add: attemptCheckIn_def st wp nx ai when_committed_def publish_check_in_def
                split: mark_outcome.splits)
      next
        case False
        with c s(2) show ?thesis by (simp add: attemptCheckIn_def st na)
      qed
    next
      case pending
      show ?thesis
      proof (cases "drt_status r = RouteActive")
        case False
        with checkInStop_inactive [OF da sa pending, of now] checkInStop_inactive [OF R(3) s(1) pending, of now] s(2)
        show ?thesis by (simp add: attemptCheckIn_def st na)
      next
        case True
        note c = checkInStop_pending [OF da sa pending, of now] checkInStop_pending [OF R(3) s(1) pending True, of now]
        note k = commit_check_in [OF b r a s(1) pending True, of clock now]
          commit_check_in [OF b r same_route_refl s(1) pending True, of clock now]
        have "cir_completedStop (check_in_of i now a s) = cir_completedStop (check_in_of i now r s)"
          "cir_nextStop (check_in_of i now a s) = cir_nextStop (check_in_of i now r s)"
          "drt_id (cir_route (check_in_of i now a s)) = drt_id (cir_route (check_in_of i now r s))"
          using next_checked_same [OF a R(5), of i now] ai
          by (simp_all add: check_in_of_def checked_route_def split: option.splits)
        with c k s(2) True show ?thesis
          by (simp add: attemptCheckIn_def st wp when_committed_def publish_check_in_def
              split: mark_outcome.splits)
      qed
    qed
  qed
qed

lemma attemptCancel_snapshot:
  assumes b: "board_ok b" and r: "r \<in> set (dbd_routes b)" and a: "same_route a r"
  shows "attemptCancel (drt_id r) now clock a b =
    (if is_open_route r
     then AttemptDone (put_route (r\<lparr>drt_stops := map (setActiveRouteId None) (drt_stops r),
            drt_status := RouteCancelled, drt_cancelledAt := Some now, drt_updatedAt := now\<rparr>) b)
     else AttemptFailed (invalid_transition
       (''Cannot cancel a route in status \"'' @ route_status_name (drt_status r) @ ''\"'')))"
proof (cases "is_open_route r")
  case False
  with same_route_fields(2) [OF a] show ?thesis
    by (simp add: attemptCancel_def route_cancel_def is_open_route_def)
next
  case True
  let ?n = "\<lambda>x. x\<lparr>drt_stops := map (setActiveRouteId None) (drt_stops x),
    drt_status := RouteCancelled, drt_cancelledAt := Some now, drt_updatedAt := now\<rparr>"
  have "route_cancel now a = Inr (?n a)"
    using True same_route_fields(2) [OF a] by (auto simp: route_cancel_def is_open_route_def)
  moreover have "commitTransition clock (drt_id r) (captureRouteTransitionExpectation a) (?n a) b =
      Committed (put_route ((?n a)\<lparr>drt_stops := map (setActiveRouteId None) (drt_stops r)\<rparr>) b)"
    using a by (intro commitTransition_same [OF b r a])
      (auto simp: same_route_def transported_release reserved_def)
  moreover have "(?n a)\<lparr>drt_stops := map (setActiveRouteId None) (drt_stops r)\<rparr> = ?n r"
    using a by (auto simp: same_route_def)
  ultimately show ?thesis using True by (simp add: attemptCancel_def when_committed_def)
qed

subsection \<open>What the transitions keep\<close>

lemma put_route_rows:
  assumes "board_ok b" and "r \<in> set (dbd_routes b)" and "drt_id r' = drt_id r"
  shows "dbd_routes (put_route r' b) = map (\<lambda>x. if drt_id x = drt_id r then r' else x) (dbd_routes b)"
  using board_route(4) [OF assms(1,2)] assms(3) by (simp add: put_route_def update_first_map)

lemma put_route_ok:
  assumes b: "board_ok b" and r: "r \<in> set (dbd_routes b)"
    and r': "drt_id r' = drt_id r" "route_sound r'" "map rst_id (drt_stops r') = map rst_id (drt_stops r)"
    and sales: "reserved_sales (drt_stops r') = reserved_sales (drt_stops r) \<or> reserved_sales (drt_stops r') = []"
    and rows: "dbd_routes b' = dbd_routes (put_route r' b)"
    and thanks: "mset (thanked b') + mset (completed_ids (drt_stops r)) =
      mset (thanked b) + mset (completed_ids (drt_stops r'))"
  shows "board_ok b'"
proof -
  let ?others = "other_stops (drt_id r) b"
  note R = board_route [OF b r]
  have split: "mset (all_stops b) = mset (drt_stops r @ ?others)" by (rule all_stops_split [OF R(4) r])
  have base: "distinct (map rst_id (drt_stops r @ ?others))" "distinct (reserved_sales (drt_stops r @ ?others))"
    "mset (thanked b) = mset (completed_ids (drt_stops r @ ?others))"
    using b distinct_map_perm [OF split, of rst_id] distinct_reserved_perm [OF split] completed_ids_perm [OF split]
    by (simp_all add: board_ok_def)
  have rows': "dbd_routes b' = map (\<lambda>x. if drt_id x = drt_id r then r' else x) (dbd_routes b)"
    unfolding rows by (rule put_route_rows [OF b r r'(1)])
  have ids: "map drt_id (dbd_routes b') = map drt_id (dbd_routes b)" using r'(1) by (simp add: rows')
  show ?thesis
  proof (rule board_ok_swap [OF b, of b' r'])
    show "distinct (map drt_id (dbd_routes b'))" using ids R(4) by simp
    show "r' \<in> set (dbd_routes b')" using r by (auto simp: rows')
    show "filter (\<lambda>x. drt_id x \<noteq> drt_id r') (dbd_routes b') = filter (\<lambda>x. drt_id x \<noteq> drt_id r') (dbd_routes b)"
      unfolding rows' r'(1) using r'(1) by (induction "dbd_routes b") (auto simp: filter_map comp_def intro!: map_idI)
    show "route_sound r'" by (rule r'(2))
    have "map rst_id (drt_stops r' @ ?others) = map rst_id (drt_stops r @ ?others)"
      using r'(3) by simp
    with base(1) show "distinct (map rst_id (drt_stops r' @ other_stops (drt_id r') b))"
      unfolding r'(1) by metis
    have "reserved_sales (drt_stops r' @ ?others) = reserved_sales (drt_stops r') @ reserved_sales ?others"
      "reserved_sales (drt_stops r @ ?others) = reserved_sales (drt_stops r) @ reserved_sales ?others"
      by (simp_all add: reserved_sales_def)
    with sales base(2) show "distinct (reserved_sales (drt_stops r' @ other_stops (drt_id r') b))"
      unfolding r'(1) by auto
    show "mset (thanked b') = mset (completed_ids (drt_stops r' @ other_stops (drt_id r') b))"
      using thanks base(3) r'(1) by (simp add: ac_simps)
  qed
qed

lemma put_route_moves:
  assumes b: "board_ok b" and r: "r \<in> set (dbd_routes b)" and r': "drt_id r' = drt_id r"
    and later: "drt_updatedAt r < drt_updatedAt r'" and rows: "dbd_routes b' = dbd_routes (put_route r' b)"
  shows "moves {} b b'"
  using r r' later by (fastforce simp: moves_def rows put_route_rows [OF b r r'])

lemma completed_ids_checked:
  assumes "distinct (map rst_id ss)" and "s \<in> set ss" and "rst_status s \<noteq> StopCompleted"
  shows "mset (completed_ids (map (checked (rst_id s) now) ss)) = add_mset (rst_id s) (mset (completed_ids ss))"
proof -
  from assms(2) obtain xs ys where ss: "ss = xs @ s # ys" by (meson split_list)
  have "map (checked (rst_id s) now) xs = xs" "map (checked (rst_id s) now) ys = ys"
    using assms(1) by (auto simp: ss checked_def rev_image_eqI intro!: map_idI)
  then show ?thesis using assms(3) by (simp add: ss completed_ids_def)
qed

lemma check_in_sound:
  assumes sound: "route_sound r" and act: "drt_status r = RouteActive"
    and s: "s \<in> set (drt_stops r)" "rst_status s = StopPending"
  shows "route_sound (cir_route (check_in_of (rst_id s) now r s))"
proof -
  let ?ss = "drt_stops (checked_route (rst_id s) now r)"
  have stops: "rst_status x = StopPending \<or> rst_status x = StopCompleted" if "x \<in> set ?ss" for x
  proof -
    from that obtain y where "y \<in> set (drt_stops r)" "x = checked (rst_id s) now y"
      by (auto simp: checked_route_def)
    with sound_stop_status [OF sound, of y] show ?thesis by auto
  qed
  have shape: "rst_routeId x = drt_id r \<and> rst_activeRouteId x = Some (drt_id r) \<and>
      (rst_checkedInAt x \<noteq> None \<longleftrightarrow> rst_status x = StopCompleted) \<and>
      (rst_completedAt x \<noteq> None \<longleftrightarrow> rst_status x = StopCompleted)" if "x \<in> set ?ss" for x
    using that sound act
    by (auto simp: checked_route_def checked_def markCompleted_def route_sound_def stop_sound_def is_open_route_def)
  have cont: "contiguous ?ss"
    using sound by (simp add: checked_route_def route_sound_def contiguous_map_cong)
  show ?thesis
  proof (cases "nextPendingStop (checked_route (rst_id s) now r)")
    case (Some n)
    have "\<not> (\<forall>x\<in>set ?ss. rst_status x = StopCompleted)"
      using nextPendingStop_Some [OF Some] by (auto simp: is_open_def intro!: bexI [of _ n])
    moreover have "drt_status (checked_route (rst_id s) now r) = RouteActive" "drt_id (checked_route (rst_id s) now r) = drt_id r"
      using act by (simp_all add: checked_route_def)
    ultimately show ?thesis
      using stops shape cont Some
      by (simp add: check_in_of_def route_sound_def stop_sound_def phase_sound_def is_open_route_def)
  next
    case None
    have fin: "rst_status x = StopCompleted" if "x \<in> set ?ss" for x
      using None stops [OF that] that by (auto simp: nextPendingStop_None is_open_def)
    let ?f = "\<lambda>x. setActiveRouteId None (checked (rst_id s) now x)"
    have ss: "map ?f (drt_stops r) = map (setActiveRouteId None) ?ss" by (simp add: checked_route_def)
    have "contiguous (map (setActiveRouteId None) ?ss)" using cont by (simp add: contiguous_map_cong)
    moreover have "?ss \<noteq> []" using s(1) by (auto simp: checked_route_def)
    ultimately show ?thesis
      using fin shape None
      by (simp add: check_in_of_def ss route_sound_def stop_sound_def phase_sound_def is_open_route_def
          del: map_map)
  qed
qed

lemma thanked_publish [simp]: "thanked (publish e b) = thanked b @ thanks_for e"
  by (simp add: thanked_def publish_def)

lemma publish_rows [simp]: "dbd_routes (publish e b) = dbd_routes b"
  by (simp add: publish_def)

lemma publish_check_in_facts:
  "dbd_routes (publish_check_in clock w c b) = dbd_routes b"
  "dbd_sales (publish_check_in clock w c b) = dbd_sales b"
  "thanked (publish_check_in clock w c b) = thanked b @ (if w then [rst_id (cir_completedStop c)] else [])"
  by (simp_all add: publish_check_in_def Let_def publish_def thanked_def split: option.splits)

lemma markSaleDelivered_facts:
  assumes "markSaleDelivered i b = MarkedDelivered b'"
  shows "dbd_routes b' = dbd_routes b" "thanked b' = thanked b" "dbd_outbox b' = dbd_outbox b"
    "\<exists>x. dbd_sales b i = Some x \<and> deliverable x \<and>
       dbd_sales b' = (dbd_sales b)(i \<mapsto> x\<lparr>dsl_deliveryStatus := DeliveryDelivered\<rparr>)"
  using assms by (auto simp: markSaleDelivered_def thanked_def split: option.splits if_splits)

text \<open>A check-in of the persisted route: a replay, or the first check-in of a pending stop.\<close>

lemma attemptCheckIn_Done:
  assumes b: "board_ok b" and r: "r \<in> set (dbd_routes b)"
    and d: "attemptCheckIn (drt_id r) i now clock r b = AttemptDone b'"
  obtains (replay) s where "s \<in> set (drt_stops r)" "rst_id s = i" "rst_status s = StopCompleted"
      "dbd_routes b' = dbd_routes b" "dbd_outbox b' = dbd_outbox b"
      "markSaleDelivered (rst_saleId s) b = MarkedDelivered b'"
    | (first) s b2 where "s \<in> set (drt_stops r)" "rst_id s = i" "rst_status s = StopPending"
      "drt_status r = RouteActive"
      "dbd_routes b' = dbd_routes (put_route (cir_route (check_in_of i now r s)) b)"
      "markSaleDelivered (rst_saleId s) (put_route (cir_route (check_in_of i now r s)) b) = MarkedDelivered b2"
      "b' = publish_check_in clock True (check_in_of i now r s) b2"
proof -
  note R = board_route [OF b r]
  obtain c where c: "checkInStop i now r = Inr c"
    using d by (cases "checkInStop i now r") (simp_all add: attemptCheckIn_def)
  show ?thesis
  proof (rule checkInStop_cases [OF R(3,2) c])
    fix s assume s: "s \<in> set (drt_stops r)" "rst_id s = i" "rst_status s = StopCompleted"
      and act: "drt_status r = RouteActive \<or> drt_status r = RouteCompleted"
      and cc: "c = \<lparr>cir_route = r, cir_completedStop = s, cir_nextStop = nextPendingStop r\<rparr>"
    have "\<not> was_pending i r"
      using find_stop [OF R(3) s(1)] s(2,3) by (simp add: was_pending_def)
    with d c cc commit_replay [OF b r same_route_refl act, of clock]
    have m: "markSaleDelivered (rst_saleId s) b = MarkedDelivered b'"
      by (auto simp: attemptCheckIn_def when_committed_def publish_check_in_def Let_def
          split: mark_outcome.splits option.splits)
    show ?thesis
      using markSaleDelivered_facts [OF m] m by (intro replay [OF s]) simp_all
  next
    fix s assume s: "s \<in> set (drt_stops r)" "rst_id s = i" "rst_status s = StopPending"
      and act: "drt_status r = RouteActive" and cc: "c = check_in_of i now r s"
    have "was_pending i r"
      using find_stop [OF R(3) s(1)] s(2,3) by (simp add: was_pending_def)
    moreover have "rst_saleId (cir_completedStop (check_in_of i now r s)) = rst_saleId s"
      by (simp add: check_in_of_def split: option.splits)
    ultimately obtain b2 where b2: "markSaleDelivered (rst_saleId s) (put_route (cir_route (check_in_of i now r s)) b)
          = MarkedDelivered b2"
        "b' = publish_check_in clock True (check_in_of i now r s) b2"
      using d c cc commit_check_in [OF b r same_route_refl s(1,3) act, of clock now] s(2)
      by (auto simp: attemptCheckIn_def when_committed_def split: mark_outcome.splits)
    show ?thesis
      using b2 markSaleDelivered_facts(1) [OF b2(1)]
      by (intro first [OF s act _ b2]) (simp add: publish_check_in_facts)
  qed
qed

lemma check_in_of_simps:
  "drt_id (cir_route (check_in_of i now r s)) = drt_id r"
  "drt_updatedAt (cir_route (check_in_of i now r s)) = now"
  "rst_id (cir_completedStop (check_in_of i now r s)) = rst_id s"
  "map rst_id (drt_stops (cir_route (check_in_of i now r s))) = map rst_id (drt_stops r)"
  "completed_ids (drt_stops (cir_route (check_in_of i now r s))) = completed_ids (map (checked i now) (drt_stops r))"
  by (simp_all add: check_in_of_def checked_route_def completed_ids_def comp_def filter_map
      split: option.splits)

lemma check_in_reserved:
  "reserved_sales (drt_stops (cir_route (check_in_of i now r s))) = reserved_sales (drt_stops r) \<or>
   reserved_sales (drt_stops (cir_route (check_in_of i now r s))) = []"
  by (auto simp: check_in_of_def checked_route_def reserved_sales_def comp_def filter_map reserved_def [abs_def]
      split: option.splits)

lemma attemptCheckIn_ok:
  assumes b: "board_ok b" and r: "r \<in> set (dbd_routes b)"
    and d: "attemptCheckIn (drt_id r) i now clock r b = AttemptDone b'"
  shows "board_ok b' \<and> (drt_updatedAt r < now \<longrightarrow> moves {} b b')"
  using b r d
proof (cases rule: attemptCheckIn_Done)
  case (replay s)
  then have "thanked b' = thanked b" by (simp add: thanked_def)
  with replay(4) show ?thesis
    using b by (simp add: board_ok_def all_stops_def moves_def) (blast intro: same_route_refl)
next
  case (first s b2)
  note R = board_route [OF b r]
  let ?r = "cir_route (check_in_of i now r s)"
  have thanks: "thanked b' = thanked b @ [i]"
    using markSaleDelivered_facts(2) [OF first(6)] first(2,7)
    by (simp add: publish_check_in_facts check_in_of_simps) (simp add: thanked_def put_route_def)
  have "mset (thanked b') + mset (completed_ids (drt_stops r)) = mset (thanked b) + mset (completed_ids (drt_stops ?r))"
    using completed_ids_checked [OF R(3) first(1), of now] first(2,3)
    by (simp add: thanks check_in_of_simps)
  moreover have "route_sound ?r"
    using check_in_sound [OF R(2) first(4,1,3), of now] first(2) by simp
  ultimately have "board_ok b'"
    using check_in_reserved
    by (intro put_route_ok [OF b r _ _ _ _ first(5)]) (simp_all add: check_in_of_simps)
  moreover have "moves {} b b'" if "drt_updatedAt r < now"
    using that by (intro put_route_moves [OF b r _ _ first(5)]) (simp_all add: check_in_of_simps)
  ultimately show ?thesis by simp
qed

lemma attemptCancel_ok:
  assumes b: "board_ok b" and r: "r \<in> set (dbd_routes b)" and l: "drt_updatedAt r < now"
    and d: "attemptCancel (drt_id r) now clock r b = AttemptDone b'"
  shows "board_ok b' \<and> moves {} b b'"
proof -
  note R = board_route [OF b r]
  let ?r = "r\<lparr>drt_stops := map (setActiveRouteId None) (drt_stops r), drt_status := RouteCancelled,
    drt_cancelledAt := Some now, drt_updatedAt := now\<rparr>"
  from d have b': "b' = put_route ?r b" and op: "is_open_route r"
    by (simp_all add: attemptCancel_snapshot [OF b r same_route_refl] split: if_splits)
  have sound: "route_sound ?r"
    using R(2) by (simp add: route_sound_def stop_sound_def phase_sound_def is_open_route_def contiguous_map_cong)
  have "board_ok b'"
    by (rule put_route_ok [OF b r _ sound])
      (simp_all add: b' comp_def completed_ids_def filter_map reserved_sales_def reserved_def thanked_def put_route_def)
  moreover have "moves {} b b'"
    by (rule put_route_moves [OF b r, of ?r]) (simp_all add: b' l)
  ultimately show ?thesis ..
qed

end
