(* ===== verification/DeliverySystem.thy ===== *)
theory DeliverySystem
  imports DeliveryCommit
begin

section \<open>Concurrent requests on the routes of a tenant\<close>

text \<open>
  The requests of \<open>delivery-routes.service.ts\<close> as steps.  A mutation under row locks is
  one step.  A check-in or a cancellation is two: an attempt loads a snapshot, and
  commits against whatever the board has become; between the two any other step may
  happen, and so may changes of the sales by the rest of the program.

  Assumed of the environment: \<open>randomUUID\<close> does not repeat, the database answers with
  the stops of a route in some order, and the clock is past the stamp of the
  routes a mutation has locked or loaded.  (Stamps have a resolution of a millisecond;
  with equal stamps the compared fields of the parent row may agree although the row
  was written in between.)
\<close>

record delivery_system =
  dsy_board :: delivery_board
  dsy_inflight :: "delivery_route list"
  dsy_uuids :: "ident list"

inductive delivery_step ::
  "(ident \<Rightarrow> string) \<Rightarrow> (route_action \<Rightarrow> ident \<Rightarrow> bool) \<Rightarrow> delivery_system \<Rightarrow> delivery_system \<Rightarrow> bool"
  for collate and can where
  Create: "createRoute uuid i driver saleIds notes now (dsy_board s) = Inr b \<Longrightarrow> i \<notin> set (dsy_uuids s) \<Longrightarrow>
    delivery_step collate can s (s\<lparr>dsy_board := b, dsy_uuids := i # dsy_uuids s\<rparr>)"
| AddStop: "addStopToRoute collate order uuid i saleId now (dsy_board s) = Inr b \<Longrightarrow>
    permuting order \<Longrightarrow> later {i} now (dsy_board s) \<Longrightarrow>
    delivery_step collate can s (s\<lparr>dsy_board := b\<rparr>)"
| Reorder: "reorderRoute collate order i ordered now (dsy_board s) = Inr b \<Longrightarrow>
    permuting order \<Longrightarrow> later {i} now (dsy_board s) \<Longrightarrow>
    delivery_step collate can s (s\<lparr>dsy_board := b\<rparr>)"
| Update: "updateRoute collate order i driverChange notesChange now (dsy_board s) = Inr b \<Longrightarrow>
    permuting order \<Longrightarrow> later {i} now (dsy_board s) \<Longrightarrow>
    delivery_step collate can s (s\<lparr>dsy_board := b\<rparr>)"
| Start: "startRoute collate order i now (dsy_board s) = Inr b \<Longrightarrow>
    permuting order \<Longrightarrow> later {i} now (dsy_board s) \<Longrightarrow>
    delivery_step collate can s (s\<lparr>dsy_board := b\<rparr>)"
| Transfer: "transferStop collate order can i stopId j now (dsy_board s) = Inr b \<Longrightarrow>
    permuting order \<Longrightarrow> later {i, j} now (dsy_board s) \<Longrightarrow>
    delivery_step collate can s (s\<lparr>dsy_board := b\<rparr>)"
| Delete: "deleteRouteById collate order i (dsy_board s) = Inr b \<Longrightarrow> permuting order \<Longrightarrow>
    delivery_step collate can s (s\<lparr>dsy_board := b\<rparr>)"
| Load: "findById order i (dsy_board s) = Some r \<Longrightarrow> permuting order \<Longrightarrow>
    delivery_step collate can s (s\<lparr>dsy_inflight := r # dsy_inflight s\<rparr>)"
| CheckIn: "r \<in> set (dsy_inflight s) \<Longrightarrow> drt_updatedAt r < now \<Longrightarrow>
    attemptCheckIn (drt_id r) stopId now clock r (dsy_board s) = AttemptDone b \<Longrightarrow>
    delivery_step collate can s (s\<lparr>dsy_board := b, dsy_inflight := remove1 r (dsy_inflight s)\<rparr>)"
| Cancel: "r \<in> set (dsy_inflight s) \<Longrightarrow> drt_updatedAt r < now \<Longrightarrow>
    attemptCancel (drt_id r) now clock r (dsy_board s) = AttemptDone b \<Longrightarrow>
    delivery_step collate can s (s\<lparr>dsy_board := b, dsy_inflight := remove1 r (dsy_inflight s)\<rparr>)"
| Abort: "delivery_step collate can s (s\<lparr>dsy_inflight := remove1 r (dsy_inflight s)\<rparr>)"
| SalesChange: "delivery_step collate can s (s\<lparr>dsy_board := (dsy_board s)\<lparr>dbd_sales := sales\<rparr>\<rparr>)"

definition empty_system :: "ident \<Rightarrow> delivery_system" where
  "empty_system tenantId =
     \<lparr>dsy_board = \<lparr>dbd_tenantId = tenantId, dbd_routes = [], dbd_sales = (\<lambda>_. None), dbd_outbox = []\<rparr>,
      dsy_inflight = [], dsy_uuids = []\<rparr>"

subsection \<open>The invariant\<close>

text \<open>
  A snapshot in flight is never ahead of its route, and is the route when the stamps
  agree.  Identifiers of routes, present or in flight, were handed out.
\<close>

definition snapshot_ok :: "delivery_board \<Rightarrow> delivery_route \<Rightarrow> bool" where
  "snapshot_ok b a \<longleftrightarrow> (\<forall>r\<in>set (dbd_routes b). drt_id r = drt_id a \<longrightarrow>
     same_route a r \<or> drt_updatedAt a < drt_updatedAt r)"

definition system_ok :: "delivery_system \<Rightarrow> bool" where
  "system_ok s \<longleftrightarrow> board_ok (dsy_board s) \<and>
     (\<forall>a\<in>set (dsy_inflight s). snapshot_ok (dsy_board s) a \<and> drt_id a \<in> set (dsy_uuids s)) \<and>
     drt_id ` set (dbd_routes (dsy_board s)) \<subseteq> set (dsy_uuids s)"

lemma snapshot_ok_moves:
  assumes m: "moves new b b'" and a: "snapshot_ok b a" and fresh: "drt_id a \<notin> new"
  shows "snapshot_ok b' a"
  unfolding snapshot_ok_def
proof (intro ballI impI)
  fix r' assume r': "r' \<in> set (dbd_routes b')" "drt_id r' = drt_id a"
  with m fresh obtain r where r: "r \<in> set (dbd_routes b)" "drt_id r = drt_id r'"
    "same_route r' r \<or> drt_updatedAt r < drt_updatedAt r'"
    by (auto simp: moves_def)
  with a r'(2) have "same_route a r \<or> drt_updatedAt a < drt_updatedAt r"
    by (auto simp: snapshot_ok_def)
  with r(3) show "same_route a r' \<or> drt_updatedAt a < drt_updatedAt r'"
    using same_route_trans [of a r r'] same_route_sym [of r' r] same_route_fields(3) [of a r]
      same_route_fields(3) [of r' r]
    by (elim disjE) simp_all
qed

lemma system_ok_board:
  assumes s: "system_ok s" and b: "board_ok b \<and> moves new (dsy_board s) b"
    and new: "new \<inter> set (dsy_uuids s) = {}"
    and fl: "set fl \<subseteq> set (dsy_inflight s)" and u: "set u = new \<union> set (dsy_uuids s)"
  shows "system_ok (s\<lparr>dsy_board := b, dsy_inflight := fl, dsy_uuids := u\<rparr>)"
proof -
  have "drt_id r \<in> set u" if "r \<in> set (dbd_routes b)" for r
    using b that s by (fastforce simp: moves_def system_ok_def u)
  moreover have "snapshot_ok b a \<and> drt_id a \<in> set u" if "a \<in> set fl" for a
    using s b new fl that by (auto simp: system_ok_def u intro: snapshot_ok_moves)
  ultimately show ?thesis using b by (auto simp: system_ok_def)
qed

text \<open>A commit that succeeds had a snapshot that was the persisted route.\<close>

lemma committed_snapshot:
  assumes s: "system_ok s" and a: "a \<in> set (dsy_inflight s)"
    and c: "commitTransition clock (drt_id a) (captureRouteTransitionExpectation a) n (dsy_board s) = Committed b"
  obtains r where "r \<in> set (dbd_routes (dsy_board s))" "drt_id r = drt_id a" "same_route a r"
proof -
  have ids: "distinct (map drt_id (dbd_routes (dsy_board s)))"
    using s by (simp add: system_ok_def board_ok_def)
  from c obtain r where f: "find_route (drt_id a) (dsy_board s) = Some r"
    and p: "parent_matches (captureRouteTransitionExpectation a) r"
    by (auto simp: commitTransition_def split: option.splits if_splits)
  then have r: "r \<in> set (dbd_routes (dsy_board s))" "drt_id r = drt_id a"
    by (simp_all add: find_route_Some [OF ids])
  have "drt_updatedAt r = drt_updatedAt a"
    using p by (simp add: parent_matches_def captureRouteTransitionExpectation_def)
  moreover have "same_route a r \<or> drt_updatedAt a < drt_updatedAt r"
    using s a r by (auto simp: system_ok_def snapshot_ok_def)
  ultimately have "same_route a r" by simp
  with r show ?thesis by (rule that)
qed

lemma check_in_commits:
  assumes s: "system_ok s" and a: "a \<in> set (dsy_inflight s)"
    and d: "attemptCheckIn (drt_id a) i now clock a (dsy_board s) = AttemptDone b"
  obtains r where "r \<in> set (dbd_routes (dsy_board s))" "drt_id r = drt_id a" "same_route a r"
    "attemptCheckIn (drt_id r) i now clock r (dsy_board s) = AttemptDone b"
proof -
  obtain n b1 where "commitTransition clock (drt_id a) (captureRouteTransitionExpectation a) n (dsy_board s)
      = Committed b1"
    using d by (auto simp: attemptCheckIn_def when_committed_def split: sum.splits commit_outcome.splits)
  then obtain r where r: "r \<in> set (dbd_routes (dsy_board s))" "drt_id r = drt_id a" "same_route a r"
    by (rule committed_snapshot [OF s a])
  moreover have "board_ok (dsy_board s)" using s by (simp add: system_ok_def)
  ultimately show ?thesis
    using d attemptCheckIn_snapshot [of "dsy_board s" r a i now clock] by (intro that [of r]) simp_all
qed

lemma cancel_commits:
  assumes s: "system_ok s" and a: "a \<in> set (dsy_inflight s)"
    and d: "attemptCancel (drt_id a) now clock a (dsy_board s) = AttemptDone b"
  obtains r where "r \<in> set (dbd_routes (dsy_board s))" "drt_id r = drt_id a" "same_route a r"
    "attemptCancel (drt_id r) now clock r (dsy_board s) = AttemptDone b"
proof -
  obtain n b1 where "commitTransition clock (drt_id a) (captureRouteTransitionExpectation a) n (dsy_board s)
      = Committed b1"
    using d by (auto simp: attemptCancel_def when_committed_def split: sum.splits commit_outcome.splits)
  then obtain r where r: "r \<in> set (dbd_routes (dsy_board s))" "drt_id r = drt_id a" "same_route a r"
    by (rule committed_snapshot [OF s a])
  moreover have b: "board_ok (dsy_board s)" using s by (simp add: system_ok_def)
  ultimately show ?thesis
    using d attemptCancel_snapshot [OF b r(1,3)] attemptCancel_snapshot [OF b r(1) same_route_refl]
    by (intro that [of r]) simp_all
qed

lemma delivery_step_ok: "delivery_step collate can s s' \<Longrightarrow> system_ok s \<Longrightarrow> system_ok s'"
proof (induction rule: delivery_step.induct)
  case (Create uuid i driver saleIds nt now s b)
  have "board_ok b \<and> moves {i} (dsy_board s) b"
    using Create by (intro createRoute_ok) (auto simp: system_ok_def)
  with Create show ?case
    using system_ok_board [of s b "{i}" "dsy_inflight s" "i # dsy_uuids s"] by simp
next
  case (CheckIn r s now stopId clock b)
  obtain x where x: "x \<in> set (dbd_routes (dsy_board s))" "drt_id x = drt_id r" "same_route r x"
    "attemptCheckIn (drt_id x) stopId now clock x (dsy_board s) = AttemptDone b"
    by (rule check_in_commits [OF CheckIn.prems CheckIn.hyps(1,3)])
  have "board_ok b \<and> moves {} (dsy_board s) b"
    using CheckIn same_route_fields(3) [OF x(3)] attemptCheckIn_ok [OF _ x(1,4)]
    by (simp add: system_ok_def)
  with CheckIn.prems show ?case
    using system_ok_board [of s b "{}" "remove1 r (dsy_inflight s)" "dsy_uuids s"] set_remove1_subset
    by fastforce
next
  case (Cancel r s now clock b)
  obtain x where x: "x \<in> set (dbd_routes (dsy_board s))" "drt_id x = drt_id r" "same_route r x"
    "attemptCancel (drt_id x) now clock x (dsy_board s) = AttemptDone b"
    by (rule cancel_commits [OF Cancel.prems Cancel.hyps(1,3)])
  have "board_ok b \<and> moves {} (dsy_board s) b"
    using Cancel x(1,4) same_route_fields(3) [OF x(3)]
    by (intro attemptCancel_ok [OF _ x(1) _ x(4)]) (simp_all add: system_ok_def)
  with Cancel.prems show ?case
    using system_ok_board [of s b "{}" "remove1 r (dsy_inflight s)" "dsy_uuids s"] set_remove1_subset
    by fastforce
next
  case (Load order i s r)
  then obtain x where x: "x \<in> set (dbd_routes (dsy_board s))" "same_route r x"
    using findById_Some [of "dsy_board s" order i r] by (auto simp: system_ok_def)
  have "snapshot_ok (dsy_board s) r"
    using same_id_eq [of "dbd_routes (dsy_board s)" x] x Load.prems same_route_fields(1) [OF x(2)]
    by (auto simp: snapshot_ok_def system_ok_def board_ok_def)
  with Load.prems x same_route_fields(1) [OF x(2)] show ?case by (auto simp: system_ok_def)
next
  case (Abort s r)
  then show ?case using set_remove1_subset [of r "dsy_inflight s"] by (auto simp: system_ok_def)
next
  case (SalesChange s sales)
  then show ?case
    by (simp add: system_ok_def board_ok_def all_stops_def thanked_def snapshot_ok_def)
next
  case (AddStop order uuid i saleId now s b)
  then have "board_ok b \<and> moves {} (dsy_board s) b" by (intro addStopToRoute_ok) (auto simp: system_ok_def)
  with AddStop.prems show ?case
    using system_ok_board [of s b "{}" "dsy_inflight s" "dsy_uuids s"] by simp
next
  case (Reorder order i ordered now s b)
  then have "board_ok b \<and> moves {} (dsy_board s) b" by (intro reorderRoute_ok) (auto simp: system_ok_def)
  with Reorder.prems show ?case
    using system_ok_board [of s b "{}" "dsy_inflight s" "dsy_uuids s"] by simp
next
  case (Update order i driverChange notesChange now s b)
  then have "board_ok b \<and> moves {} (dsy_board s) b" by (intro updateRoute_ok) (auto simp: system_ok_def)
  with Update.prems show ?case
    using system_ok_board [of s b "{}" "dsy_inflight s" "dsy_uuids s"] by simp
next
  case (Start order i now s b)
  then have "board_ok b \<and> moves {} (dsy_board s) b" by (intro startRoute_ok) (auto simp: system_ok_def)
  with Start.prems show ?case
    using system_ok_board [of s b "{}" "dsy_inflight s" "dsy_uuids s"] by simp
next
  case (Transfer order i stopId j now s b)
  then have "board_ok b \<and> moves {} (dsy_board s) b" by (intro transferStop_ok) (auto simp: system_ok_def)
  with Transfer.prems show ?case
    using system_ok_board [of s b "{}" "dsy_inflight s" "dsy_uuids s"] by simp
next
  case (Delete order i s b)
  then have "board_ok b \<and> moves {} (dsy_board s) b" by (intro deleteRouteById_ok) (auto simp: system_ok_def)
  with Delete.prems show ?case
    using system_ok_board [of s b "{}" "dsy_inflight s" "dsy_uuids s"] by simp
qed

interpretation board: step_invariant "delivery_step collate can" system_ok
  by unfold_locales (rule delivery_step_ok)

lemma empty_system_ok [simp]: "system_ok (empty_system tenantId)"
  by (simp add: system_ok_def empty_system_def board_ok_def all_stops_def reserved_sales_def
      completed_ids_def thanked_def)

lemma reachable_board_ok:
  "(delivery_step collate can)\<^sup>*\<^sup>* (empty_system tenantId) s \<Longrightarrow> system_ok s"
  by (erule board.inv_reach) simp

subsection \<open>One route\<close>

text \<open>
  The transitions the aggregate offers on one route, and the lifecycle they form:
  a completed or cancelled route is final.
\<close>

inductive route_step :: "delivery_route \<Rightarrow> delivery_route \<Rightarrow> bool" where
  "addStop probe uuid saleId now r = Inr r' \<Longrightarrow> route_step r r'"
| "reorderStops now ordered r = (res, r') \<Longrightarrow> route_step r r'"
| "assignDriver d now r = Inr r' \<Longrightarrow> route_step r r'"
| "updateNotes n now r = Inr r' \<Longrightarrow> route_step r r'"
| "transferStopTo i now r d = (res, r', d') \<Longrightarrow> route_step r r'"
| "transferStopTo i now q r = (res, q', r') \<Longrightarrow> route_step r r'"
| "route_start now r = Inr r' \<Longrightarrow> route_step r r'"
| "checkInStop i now r = Inr c \<Longrightarrow> route_step r (cir_route c)"
| "route_cancel now r = Inr r' \<Longrightarrow> route_step r r'"

fun route_phase :: "route_status \<Rightarrow> nat" where
  "route_phase RouteDraft = 0"
| "route_phase RouteActive = 1"
| "route_phase RouteCompleted = 2"
| "route_phase RouteCancelled = 2"

lemma late_status: "2 \<le> route_phase st \<longleftrightarrow> st = RouteCompleted \<or> st = RouteCancelled"
  by (cases st) auto

text \<open>A draft operation leaves a draft, and a route that is no draft as it is.\<close>

lemma reorderStops_status:
  "reorderStops now ordered r = (res, r') \<Longrightarrow> drt_status r' = drt_status r \<and> (drt_status r \<noteq> RouteDraft \<longrightarrow> r' = r)"
  by (auto simp: reorderStops_def assertDraft_def throw_if_def split: sum.splits prod.splits if_splits)

lemma transferStopTo_status:
  "transferStopTo i now q d = (res, q', d') \<Longrightarrow>
     drt_status q' = drt_status q \<and> drt_status d' = drt_status d \<and>
     (drt_status q \<noteq> RouteDraft \<longrightarrow> q' = q) \<and> (drt_status d \<noteq> RouteDraft \<longrightarrow> d' = d)"
  by (auto simp: transferStopTo_def assertDraft_def result_simps Let_def
      split: sum.splits option.splits if_splits)

lemma checkInStop_status:
  "checkInStop i now r = Inr c \<Longrightarrow> cir_route c = r \<or>
     drt_status r = RouteActive \<and> (drt_status (cir_route c) = RouteActive \<or> drt_status (cir_route c) = RouteCompleted)"
  by (auto simp: checkInStop_def result_simps Let_def split: option.splits if_splits)

lemma route_step_phase: "route_step r r' \<Longrightarrow> route_phase (drt_status r) \<le> route_phase (drt_status r')"
  by (induction rule: route_step.induct)
    (auto simp: route_defs result_simps dest!: reorderStops_status transferStopTo_status checkInStop_status)

lemma route_step_final: "route_step r r' \<Longrightarrow> 2 \<le> route_phase (drt_status r) \<Longrightarrow> r' = r"
  by (induction rule: route_step.induct)
    (auto simp: late_status route_defs result_simps dest!: reorderStops_status transferStopTo_status checkInStop_status)

interpretation route: frozen_lifecycle route_step "\<lambda>r. route_phase (drt_status r)" "\<lambda>r. r" 2
  by unfold_locales (fact route_step_phase route_step_final)+

end
