(* ===== verification/DeliveryProps.thy ===== *)
theory DeliveryProps
  imports DeliverySystem
begin

section \<open>Properties of delivery routes\<close>

text \<open>
  The properties of \<open>src/src/delivery-routes\<close>, each with a witness on a sample board:
  two sales, one route with both, driven to its end.
\<close>

subsection \<open>A sample board\<close>

definition sample_address :: shipping_address where
  "sample_address =
     \<lparr>sad_street = ''Juarez'', sad_exteriorNumber = Some ''10'', sad_interiorNumber = None,
      sad_zipCode = Some ''64000'', sad_neighborhood = Some ''Centro'', sad_municipality = None,
      sad_city = Some ''Monterrey'', sad_state = None, sad_visualReferences = None,
      sad_carrierPhone = None, sad_label = Some ''Casa'', sad_latitude = None, sad_longitude = None\<rparr>"

definition sample_sale :: delivery_sale where
  "sample_sale = \<lparr>dsl_status = SaleConfirmed, dsl_deliveryStatus = DeliveryPending,
     dsl_customer = None, dsl_address = Some sample_address\<rparr>"

definition sample_sales :: "ident \<rightharpoonup> delivery_sale" where
  "sample_sales = [''s1'' \<mapsto> sample_sale, ''s2'' \<mapsto> sample_sale]"

definition sample_empty :: delivery_board where
  "sample_empty = \<lparr>dbd_tenantId = ''t'', dbd_routes = [], dbd_sales = sample_sales, dbd_outbox = []\<rparr>"

definition stop_name :: "nat \<Rightarrow> ident" where
  "stop_name n = (if n = 0 then ''p0'' else ''p1'')"

definition sample_draft :: "delivery_board result" where
  "sample_draft = createRoute stop_name ''r'' ''ana'' [''s1'', ''s2''] None 1 sample_empty"

definition sample_active :: "delivery_board result" where
  "sample_active = andThen sample_draft (startRoute id rev ''r'' 2)"

lemma sample_active_ok: "reached sample_active (\<lambda>b. map drt_status (dbd_routes b) = [RouteActive])"
  by code_simp

lemma reached_at: "reached r P \<Longrightarrow> r = Inr b \<Longrightarrow> P b"
  by (simp add: reached_def)

lemma reachedI: "r = Inr b \<Longrightarrow> P b \<Longrightarrow> reached r P"
  by (simp add: reached_def)

subsection \<open>Driving a route to its end\<close>

text \<open>
  A driver with nobody else at work: as long as the read model shows a next stop, that
  stop is checked in; at most \<open>n\<close> times.  \<open>now\<close> and \<open>clock\<close> are the readings of the
  clocks when \<open>n\<close> check-ins are left.
\<close>

fun deliver_rest ::
  "(route_stop list \<Rightarrow> route_stop list) \<Rightarrow> ident \<Rightarrow> (nat \<Rightarrow> timestamp) \<Rightarrow> nat \<Rightarrow> delivery_board
     \<Rightarrow> delivery_board result" where
  "deliver_rest order i now 0 b = Inr b"
| "deliver_rest order i now (Suc n) b =
     (case findOneWithStops i b of
        None \<Rightarrow> Inl (route_not_found i)
      | Some r \<Rightarrow>
          (case nextPendingStop r of
             None \<Rightarrow> Inr b
           | Some s \<Rightarrow>
               (case checkIn order i (rst_id s) (\<lambda>_. now n) (\<lambda>_. now n) (\<lambda>_ b. b) b of
                  (Inl e, _) \<Rightarrow> Inl e
                | (Inr _, b') \<Rightarrow> deliver_rest order i now n b')))"

definition pending_stops :: "delivery_route \<Rightarrow> route_stop list" where
  "pending_stops r = filter (\<lambda>s. rst_status s = StopPending) (drt_stops r)"

text \<open>The sales of the stops not delivered yet can be delivered.\<close>

definition can_deliver :: "delivery_board \<Rightarrow> delivery_route \<Rightarrow> bool" where
  "can_deliver b r \<longleftrightarrow> (\<forall>s\<in>set (pending_stops r). \<exists>x. dbd_sales b (rst_saleId s) = Some x \<and> deliverable x)"

definition delivered :: "delivery_board \<Rightarrow> ident \<Rightarrow> bool" where
  "delivered b i \<longleftrightarrow> (\<exists>x. dbd_sales b i = Some x \<and> dsl_deliveryStatus x = DeliveryDelivered)"

lemma serial_check_in:
  assumes b: "board_ok b" and p: "permuting order" and r: "r \<in> set (dbd_routes b)"
    and act: "drt_status r = RouteActive" and s: "s \<in> set (drt_stops r)" "rst_status s = StopPending"
    and x: "dbd_sales b (rst_saleId s) = Some x" "deliverable x"
  shows "\<exists>b'. checkIn order (drt_id r) (rst_id s) (\<lambda>_. now) clock (\<lambda>_ b. b) b = (Inr (), b') \<and>
    board_ok b' \<and> cir_route (check_in_of (rst_id s) now r s) \<in> set (dbd_routes b') \<and>
    dbd_sales b' = (dbd_sales b)(rst_saleId s \<mapsto> x\<lparr>dsl_deliveryStatus := DeliveryDelivered\<rparr>)"
proof -
  note R = board_route [OF b r]
  let ?c = "check_in_of (rst_id s) now r s"
  obtain a where a: "findById order (drt_id r) b = Some a" using R(1) by (simp add: findById_def)
  obtain q where q: "q \<in> set (dbd_routes b)" "drt_id q = drt_id r" "same_route a q"
    using findById_Some [OF b p a] by metis
  have ar: "same_route a r" using q same_id_eq [OF R(4) r q(1,2)] by simp
  have "rst_saleId (cir_completedStop ?c) = rst_saleId s"
    by (simp add: check_in_of_def split: option.splits)
  moreover have "was_pending (rst_id s) r"
    using find_stop [OF R(3) s(1)] s(2) by (simp add: was_pending_def)
  moreover obtain b2 where m: "markSaleDelivered (rst_saleId s) (put_route (cir_route ?c) b) = MarkedDelivered b2"
    using x by (simp add: markSaleDelivered_def put_route_def)
  ultimately have d: "attemptCheckIn (drt_id r) (rst_id s) now (clock 3) r b =
      AttemptDone (publish_check_in (clock 3) True ?c b2)"
    using checkInStop_pending [OF R(3) s act, of now] commit_check_in [OF b r same_route_refl s act, of "clock 3" now]
    by (simp add: attemptCheckIn_def when_committed_def)
  let ?b = "publish_check_in (clock 3) True ?c b2"
  have "checkIn order (drt_id r) (rst_id s) (\<lambda>_. now) clock (\<lambda>_ b. b) b = (Inr (), ?b)"
    using a d attemptCheckIn_snapshot [OF b r ar]
    by (simp add: checkIn_def runTransitionWithStaleRetry_def MAX_ROUTE_TRANSITION_ATTEMPTS_def
        eval_nat_numeral)
  moreover have "board_ok ?b" using attemptCheckIn_ok [OF b r d] by simp
  moreover have "cir_route ?c \<in> set (dbd_routes ?b)"
    using markSaleDelivered_facts(1) [OF m] r
    by (force simp: publish_check_in_facts put_route_rows [OF b r] check_in_of_simps)
  moreover have "dbd_sales ?b = (dbd_sales b)(rst_saleId s \<mapsto> x\<lparr>dsl_deliveryStatus := DeliveryDelivered\<rparr>)"
    using markSaleDelivered_facts(4) [OF m] x(1) by (auto simp: publish_check_in_facts put_route_def)
  ultimately show ?thesis by blast
qed

lemma pending_after:
  assumes sound: "route_sound r" and d: "distinct (map rst_id (drt_stops r))"
    and act: "drt_status r = RouteActive" and s: "s \<in> set (pending_stops r)"
    and r': "r' = cir_route (check_in_of (rst_id s) now r s)"
  shows "\<exists>xs ys. pending_stops r = xs @ s # ys \<and> pending_stops r' = xs @ ys" (is ?split)
    and "drt_status r' = (if pending_stops r' = [] then RouteCompleted else RouteActive)" (is ?status)
proof -
  from s have sp: "s \<in> set (drt_stops r)" "rst_status s = StopPending" by (simp_all add: pending_stops_def)
  then obtain us vs where uv: "drt_stops r = us @ s # vs" by (meson split_list)
  let ?xs = "filter (\<lambda>x. rst_status x = StopPending) us"
  let ?ys = "filter (\<lambda>x. rst_status x = StopPending) vs"
  have same: "map (checked (rst_id s) now) us = us" "map (checked (rst_id s) now) vs = vs"
    using d by (auto simp: uv checked_def rev_image_eqI intro!: map_idI)
  have stops: "drt_stops (checked_route (rst_id s) now r) = us @ markCompleted now s # vs"
    using same by (simp add: checked_route_def uv checked_def)
  have p: "pending_stops r = ?xs @ s # ?ys"
    using sp(2) by (simp add: pending_stops_def uv)
  have st: "is_open x = (rst_status x = StopPending)" if "x \<in> set us \<union> set vs" for x
    using that sound_is_open [OF sound, of x] by (auto simp: uv)
  have cm: "\<not> is_open (markCompleted now s)" by (simp add: is_open_def)
  have "(nextPendingStop (checked_route (rst_id s) now r) = None) = (?xs @ ?ys = [])"
    using st cm by (auto simp: nextPendingStop_None stops filter_empty_conv)
  moreover have "pending_stops r' = ?xs @ ?ys"
  proof (cases "nextPendingStop (checked_route (rst_id s) now r)")
    case None
    have "map (\<lambda>x. setActiveRouteId None (checked (rst_id s) now x)) (drt_stops r) =
        map (setActiveRouteId None) (us @ markCompleted now s # vs)"
      using stops by (simp add: checked_route_def flip: map_map [unfolded comp_def])
    with None show ?thesis
      by (simp add: r' check_in_of_def pending_stops_def filter_map comp_def)
        (use \<open>(nextPendingStop (checked_route (rst_id s) now r) = None) = (?xs @ ?ys = [])\<close> in simp)
  next
    case (Some n)
    then show ?thesis using stops by (simp add: r' check_in_of_def pending_stops_def)
  qed
  ultimately show ?split ?status
    using p act by (auto simp: r' check_in_of_def checked_route_def split: option.splits)
qed

lemma deliver_rest_step:
  assumes b: "board_ok b" and p: "permuting order" and r: "r \<in> set (dbd_routes b)"
    and act: "drt_status r = RouteActive" and can: "can_deliver b r"
  shows "\<exists>s b' r'. s \<in> set (pending_stops r) \<and>
    deliver_rest order (drt_id r) now (Suc n) b = deliver_rest order (drt_id r) now n b' \<and>
    board_ok b' \<and> r' \<in> set (dbd_routes b') \<and> r' = cir_route (check_in_of (rst_id s) (now n) r s) \<and>
    delivered b' (rst_saleId s) \<and> (\<forall>j. delivered b j \<longrightarrow> delivered b' j) \<and>
    (\<forall>j x. dbd_sales b j = Some x \<longrightarrow> deliverable x \<longrightarrow> (\<exists>y. dbd_sales b' j = Some y \<and> deliverable y))"
proof -
  note R = board_route [OF b r]
  let ?v = "r\<lparr>drt_stops := sort_key rst_sortOrder (drt_stops r)\<rparr>"
  have v: "findOneWithStops (drt_id r) b = Some ?v" by (simp add: findOneWithStops_def R(1))
  have nx: "nextPendingStop ?v = nextPendingStop r" by (rule nextPendingStop_same [OF _ R(5)]) simp
  obtain s where s: "nextPendingStop r = Some s"
    using sound_active_open [OF R(2) act] nextPendingStop_None [of r] by (cases "nextPendingStop r") auto
  from nextPendingStop_Some [OF s] sound_is_open [OF R(2), of s]
  have sp: "s \<in> set (drt_stops r)" "rst_status s = StopPending" by auto
  then have pend: "s \<in> set (pending_stops r)" by (simp add: pending_stops_def)
  with can obtain x where x: "dbd_sales b (rst_saleId s) = Some x" "deliverable x"
    by (auto simp: can_deliver_def)
  obtain b' where b': "checkIn order (drt_id r) (rst_id s) (\<lambda>_. now n) (\<lambda>_. now n) (\<lambda>_ b. b) b = (Inr (), b')"
    "board_ok b'" "cir_route (check_in_of (rst_id s) (now n) r s) \<in> set (dbd_routes b')"
    "dbd_sales b' = (dbd_sales b)(rst_saleId s \<mapsto> x\<lparr>dsl_deliveryStatus := DeliveryDelivered\<rparr>)"
    using serial_check_in [OF b p r act sp x] by metis
  have "deliver_rest order (drt_id r) now (Suc n) b = deliver_rest order (drt_id r) now n b'"
    by (simp add: v nx s b'(1))
  moreover have "deliverable (x\<lparr>dsl_deliveryStatus := DeliveryDelivered\<rparr>)"
    using x(2) by (simp add: deliverable_def)
  ultimately show ?thesis
    using pend b' by (intro exI [of _ s] exI [of _ b']) (auto simp: delivered_def)
qed

lemma can_deliver_after:
  assumes "can_deliver b r" and "set (pending_stops r') \<subseteq> set (pending_stops r)"
    and "\<forall>j x. dbd_sales b j = Some x \<longrightarrow> deliverable x \<longrightarrow> (\<exists>y. dbd_sales b' j = Some y \<and> deliverable y)"
  shows "can_deliver b' r'"
  using assms unfolding can_deliver_def by (meson subsetD)

text \<open>
  Property C32: a started route can always be finished.  When the sales of its pending
  stops are confirmed and not cancelled, checking in the stop the read model shows as
  next, once for each pending stop, completes the route and delivers those sales; every
  one of these check-ins succeeds at its first attempt, whatever order the database
  returns the stops in.
\<close>

theorem active_route_completes:
  assumes "board_ok b" and "permuting order" and "r \<in> set (dbd_routes b)"
    and "drt_status r = RouteActive" and "can_deliver b r"
  shows "\<exists>b' r'. deliver_rest order (drt_id r) now (length (pending_stops r)) b = Inr b' \<and>
    r' \<in> set (dbd_routes b') \<and> drt_id r' = drt_id r \<and> drt_status r' = RouteCompleted \<and>
    (\<forall>s\<in>set (pending_stops r). delivered b' (rst_saleId s))"
proof -
  have "\<exists>b' r'. deliver_rest order (drt_id r) now n b = Inr b' \<and> r' \<in> set (dbd_routes b') \<and>
      drt_id r' = drt_id r \<and> drt_status r' = RouteCompleted \<and>
      (\<forall>j. delivered b j \<longrightarrow> delivered b' j) \<and> (\<forall>s\<in>set (pending_stops r). delivered b' (rst_saleId s))"
    if "length (pending_stops r) = n" "board_ok b" "r \<in> set (dbd_routes b)"
      "drt_status r = RouteActive" "can_deliver b r" for n b r
    using that
  proof (induction n arbitrary: b r)
    case 0
    then have "\<forall>s\<in>set (drt_stops r). rst_status s \<noteq> StopPending" by (simp add: pending_stops_def filter_empty_conv)
    moreover have "route_sound r" using board_route(2) [OF "0.prems"(2,3)] .
    ultimately show ?case
      using sound_active_open [of r] sound_is_open [of r] "0.prems"(4) by blast
  next
    case (Suc n)
    note R = board_route [OF Suc.prems(2,3)]
    obtain s b1 r1 where s: "s \<in> set (pending_stops r)"
      and step: "deliver_rest order (drt_id r) now (Suc n) b = deliver_rest order (drt_id r) now n b1"
      and b1: "board_ok b1" "r1 \<in> set (dbd_routes b1)"
      and r1: "r1 = cir_route (check_in_of (rst_id s) (now n) r s)"
      and del: "delivered b1 (rst_saleId s)" "\<forall>j. delivered b j \<longrightarrow> delivered b1 j"
      and sales: "\<forall>j x. dbd_sales b j = Some x \<longrightarrow> deliverable x \<longrightarrow> (\<exists>y. dbd_sales b1 j = Some y \<and> deliverable y)"
      using deliver_rest_step [OF Suc.prems(2) assms(2) Suc.prems(3-5)] by metis
    have id1: "drt_id r1 = drt_id r" by (simp add: r1 check_in_of_simps)
    obtain xs ys where xy: "pending_stops r = xs @ s # ys" "pending_stops r1 = xs @ ys"
      using pending_after(1) [OF R(2,3) Suc.prems(4) s r1] by blast
    note st = pending_after(2) [OF R(2,3) Suc.prems(4) s r1]
    show ?case
    proof (cases "pending_stops r1 = []")
      case True
      with xy Suc.prems(1) have "n = 0" by simp
      with True xy st step b1 id1 del show ?thesis
        by (intro exI [of _ b1] exI [of _ r1]) simp
    next
      case False
      have "can_deliver b1 r1" using xy sales by (intro can_deliver_after [OF Suc.prems(5)]) auto
      moreover have "length (pending_stops r1) = n" using xy Suc.prems(1) by simp
      ultimately obtain b2 r2 where 2: "deliver_rest order (drt_id r1) now n b1 = Inr b2"
        "r2 \<in> set (dbd_routes b2)" "drt_id r2 = drt_id r1" "drt_status r2 = RouteCompleted"
        "\<forall>j. delivered b1 j \<longrightarrow> delivered b2 j" "\<forall>s\<in>set (pending_stops r1). delivered b2 (rst_saleId s)"
        using Suc.IH [OF _ b1] False st by auto
      with step id1 del xy show ?thesis by (intro exI [of _ b2] exI [of _ r2]) auto
    qed
  qed
  with assms show ?thesis by blast
qed

lemma permuting_rev [simp]: "permuting rev"
  by (simp add: permuting_def)

lemma sample_system:
  obtains d b a s where "sample_draft = Inr d" "sample_active = Inr b" "findById rev ''r'' b = Some a"
    "(delivery_step id (\<lambda>_ _. True))\<^sup>*\<^sup>* (empty_system ''t'') s"
    "dsy_board s = b" "dsy_inflight s = [a]" "drt_id a = ''r''"
proof -
  have "reached sample_draft (\<lambda>d. later {''r''} 2 d \<and> reached (startRoute id rev ''r'' 2 d)
      (\<lambda>b. map_option drt_id (findById rev ''r'' b) = Some ''r''))" by code_simp
  then obtain d b a where d: "sample_draft = Inr d" "later {''r''} 2 d"
    and b: "startRoute id rev ''r'' 2 d = Inr b" and a: "findById rev ''r'' b = Some a" "drt_id a = ''r''"
    by (auto dest!: reachedD)
  let ?s0 = "empty_system ''t''"
  let ?s1 = "?s0\<lparr>dsy_board := (dsy_board ?s0)\<lparr>dbd_sales := sample_sales\<rparr>\<rparr>"
  let ?s2 = "?s1\<lparr>dsy_board := d, dsy_uuids := [''r'']\<rparr>"
  let ?s3 = "?s2\<lparr>dsy_board := b\<rparr>"
  let ?s4 = "?s3\<lparr>dsy_inflight := [a]\<rparr>"
  let ?step = "delivery_step id (\<lambda>_ _. True)"
  have 1: "?step ?s0 ?s1" by (rule SalesChange)
  have e: "dsy_board ?s1 = sample_empty" by (simp add: empty_system_def sample_empty_def)
  have "?step ?s1 (?s1\<lparr>dsy_board := d, dsy_uuids := ''r'' # dsy_uuids ?s1\<rparr>)"
    by (rule Create [where i = "''r''"])
      (use d(1) in \<open>simp_all only: e sample_draft_def\<close>, simp add: empty_system_def)
  then have 2: "?step ?s1 ?s2" by (simp add: empty_system_def)
  have 3: "?step ?s2 ?s3" using b d(2) by (intro Start [where i = "''r''" and order = rev]) simp_all
  have "?step ?s3 (?s3\<lparr>dsy_inflight := a # dsy_inflight ?s3\<rparr>)"
    by (rule Load [where i = "''r''" and order = rev]) (simp_all add: a)
  then have 4: "?step ?s3 ?s4" by (simp add: empty_system_def)
  have "sample_active = Inr b" by (simp add: sample_active_def d b)
  with 1 2 3 4 d a show ?thesis
    by (intro that [of d b a ?s4]) (auto intro: rtranclp.intros)
qed

lemma sample_board: "sample_active = Inr b \<Longrightarrow> board_ok b"
proof -
  assume "sample_active = Inr b"
  then obtain s where "(delivery_step id (\<lambda>_ _. True))\<^sup>*\<^sup>* (empty_system ''t'') s" "dsy_board s = b"
    by (metis sample_system Inr_inject)
  then show ?thesis using reachable_board_ok by (auto simp: system_ok_def)
qed

theorem active_route_completes_witness:
  "reached sample_active (\<lambda>b. reached (deliver_rest rev ''r'' (\<lambda>n. 10 - int n) 2 b)
     (\<lambda>b'. delivered b' ''s1'' \<and> delivered b' ''s2''))"
proof -
  have "reached sample_active (\<lambda>b. case dbd_routes b of [r] \<Rightarrow> drt_id r = ''r'' \<and> drt_status r = RouteActive \<and>
      map rst_saleId (pending_stops r) = [''s2'', ''s1''] \<and>
      list_all (\<lambda>s. case dbd_sales b (rst_saleId s) of Some x \<Rightarrow> deliverable x | None \<Rightarrow> False) (pending_stops r)
    | _ \<Rightarrow> False)"
    by code_simp
  then obtain b where b: "sample_active = Inr b" and c: "case dbd_routes b of [r] \<Rightarrow>
      drt_id r = ''r'' \<and> drt_status r = RouteActive \<and>
      map rst_saleId (pending_stops r) = [''s2'', ''s1''] \<and>
      list_all (\<lambda>s. case dbd_sales b (rst_saleId s) of Some x \<Rightarrow> deliverable x | None \<Rightarrow> False) (pending_stops r)
    | _ \<Rightarrow> False" by (blast dest: reachedD)
  from c obtain r where r: "dbd_routes b = [r]" by (auto split: list.splits)
  with c have r: "dbd_routes b = [r]" "drt_id r = ''r''" "drt_status r = RouteActive"
    "map rst_saleId (pending_stops r) = [''s2'', ''s1'']"
    and sales: "\<forall>s\<in>set (pending_stops r). \<exists>x. dbd_sales b (rst_saleId s) = Some x \<and> deliverable x"
    by (auto simp: list_all_iff split: option.splits)
  have len: "length (pending_stops r) = 2" using arg_cong [OF r(4), of length] by simp
  have set_s: "rst_saleId ` set (pending_stops r) = {''s1'', ''s2''}"
    using arg_cong [OF r(4), of set] by (simp add: insert_commute)
  obtain b' where b': "deliver_rest rev ''r'' (\<lambda>n. 10 - int n) 2 b = Inr b'"
    "\<forall>s\<in>set (pending_stops r). delivered b' (rst_saleId s)"
    using active_route_completes [OF sample_board [OF b] permuting_rev, of r "\<lambda>n. 10 - int n"] r sales len
    by (auto simp: can_deliver_def)
  then have "\<forall>j\<in>rst_saleId ` set (pending_stops r). delivered b' j" by simp
  then show ?thesis by (simp add: b b'(1) reached_def set_s)
qed

subsection \<open>Concurrent requests\<close>

text \<open>
  Property C18: a sale is never on two open routes.  Whatever the interleaving of the
  requests on the routes of a tenant, a draft or active route and the stop of it that
  carries a sale are determined by the sale.
\<close>

theorem sale_on_one_open_route:
  assumes "(delivery_step collate can)\<^sup>*\<^sup>* (empty_system tenantId) s"
    and "r1 \<in> set (dbd_routes (dsy_board s))" and "r2 \<in> set (dbd_routes (dsy_board s))"
    and "is_open_route r1" and "is_open_route r2"
    and "s1 \<in> set (drt_stops r1)" and "s2 \<in> set (drt_stops r2)"
    and "rst_saleId s1 = rst_saleId s2"
  shows "r1 = r2 \<and> s1 = s2"
proof -
  let ?b = "dsy_board s"
  have b: "board_ok ?b" using reachable_board_ok [OF assms(1)] by (simp add: system_ok_def)
  note R1 = board_route [OF b assms(2)] and R2 = board_route [OF b assms(3)]
  have res: "reserved s1" "reserved s2" "rst_activeRouteId s1 = Some (drt_id r1)" "rst_activeRouteId s2 = Some (drt_id r2)"
    using R1(2) R2(2) assms(4-7) by (auto simp: route_sound_def stop_sound_def reserved_def)
  have all: "s1 \<in> set (all_stops ?b)" "s2 \<in> set (all_stops ?b)"
    using assms(2,3,6,7) by (auto simp: all_stops_def)
  have "distinct (map rst_saleId (filter reserved (all_stops ?b)))"
    using b by (simp add: board_ok_def reserved_sales_def)
  then have "inj_on rst_saleId (set (filter reserved (all_stops ?b)))" by (simp add: distinct_map)
  with all res assms(8) have eq: "s1 = s2" by (auto dest: inj_onD)
  with res have "drt_id r1 = drt_id r2" by simp
  with same_id_eq [OF R1(4) assms(3,2)] eq show ?thesis by simp
qed

theorem sale_on_one_open_route_witness:
  "reached sample_active (\<lambda>b. \<exists>r x. dbd_routes b = [r] \<and>
     find (\<lambda>x. rst_saleId x = ''s2'') (drt_stops r) = Some x \<and> hd (drt_stops r) = x)"
proof -
  obtain d b a sys where *: "sample_active = Inr b" "dsy_board sys = b"
    "(delivery_step id (\<lambda>_ _. True))\<^sup>*\<^sup>* (empty_system ''t'') sys"
    by (rule sample_system)
  have "reached sample_active (\<lambda>b. case dbd_routes b of [r] \<Rightarrow> drt_status r = RouteActive \<and>
    map rst_saleId (drt_stops r) = [''s2'', ''s1''] | _ \<Rightarrow> False)" by code_simp
  from reached_at [OF this *(1)]
  obtain r where r: "dbd_routes b = [r]" "drt_status r = RouteActive" "map rst_saleId (drt_stops r) = [''s2'', ''s1'']"
    by (auto split: list.splits)
  from r(3) obtain y ys where y: "drt_stops r = y # ys" "rst_saleId y = ''s2''" by (cases "drt_stops r") auto
  obtain x where x: "find (\<lambda>x. rst_saleId x = ''s2'') (drt_stops r) = Some x" using y by simp
  have "r = r \<and> hd (drt_stops r) = x"
    by (rule sale_on_one_open_route [OF *(3)])
      (use find_SomeD [OF x] y in \<open>simp_all add: *(2) r is_open_route_def\<close>)
  with r x show ?thesis by (intro reachedI [OF *(1)]) auto
qed

text \<open>
  Property C19: customers are thanked exactly once.  In every reachable system the outbox
  holds one thank-you event for a stop when the stop is completed and none otherwise,
  so replayed, lost and concurrent check-ins neither repeat nor drop one.
\<close>

theorem thanked_exactly_once:
  assumes "(delivery_step collate can)\<^sup>*\<^sup>* (empty_system tenantId) s"
  shows "count (mset (thanked (dsy_board s))) i =
    (if \<exists>r\<in>set (dbd_routes (dsy_board s)). \<exists>x\<in>set (drt_stops r). rst_id x = i \<and> rst_status x = StopCompleted
     then 1 else 0)"
proof -
  let ?b = "dsy_board s"
  have b: "board_ok ?b" using reachable_board_ok [OF assms] by (simp add: system_ok_def)
  have "distinct (completed_ids (all_stops ?b))"
    using b by (simp add: board_ok_def completed_ids_def distinct_map_filter)
  moreover have "mset (thanked ?b) = mset (completed_ids (all_stops ?b))"
    using b by (simp add: board_ok_def)
  ultimately have "count (mset (thanked ?b)) i = (if i \<in> set (completed_ids (all_stops ?b)) then 1 else 0)"
    by (simp add: distinct_count_atmost_1)
  moreover have "i \<in> set (completed_ids (all_stops ?b)) \<longleftrightarrow>
    (\<exists>r\<in>set (dbd_routes ?b). \<exists>x\<in>set (drt_stops r). rst_id x = i \<and> rst_status x = StopCompleted)"
    by (auto simp: completed_ids_def all_stops_def)
  ultimately show ?thesis by simp
qed

text \<open>One check-in on the sample system, committed from a snapshot.\<close>

lemma sample_check_in:
  obtains b a b' s s' where "sample_active = Inr b" "findById rev ''r'' b = Some a" "drt_id a = ''r''"
    "attemptCheckIn ''r'' ''p0'' 3 3 a b = AttemptDone b'" "a \<in> set (dsy_inflight s)" "dsy_board s = b"
    "(delivery_step id (\<lambda>_ _. True))\<^sup>*\<^sup>* (empty_system ''t'') s"
    "(delivery_step id (\<lambda>_ _. True))\<^sup>*\<^sup>* (empty_system ''t'') s'" "dsy_board s' = b'"
proof -
  obtain d b a s where *: "sample_active = Inr b" "findById rev ''r'' b = Some a" "drt_id a = ''r''"
    "dsy_board s = b" "dsy_inflight s = [a]"
    "(delivery_step id (\<lambda>_ _. True))\<^sup>*\<^sup>* (empty_system ''t'') s"
    by (rule sample_system)
  have "reached sample_active (\<lambda>b. case findById rev ''r'' b of None \<Rightarrow> False | Some a \<Rightarrow>
      drt_updatedAt a < 3 \<and> (case attemptCheckIn ''r'' ''p0'' 3 3 a b of AttemptDone _ \<Rightarrow> True | _ \<Rightarrow> False))"
    by code_simp
  from reached_at [OF this *(1)] *(2)
  obtain b' where b': "attemptCheckIn ''r'' ''p0'' 3 3 a b = AttemptDone b'" "drt_updatedAt a < 3"
    by (auto split: attempt_outcome.splits)
  let ?s = "s\<lparr>dsy_board := b', dsy_inflight := remove1 a (dsy_inflight s)\<rparr>"
  have "delivery_step id (\<lambda>_ _. True) s ?s"
    by (rule CheckIn [where now = 3 and clock = 3 and stopId = "''p0''"]) (simp_all add: * b')
  with *(6) have "(delivery_step id (\<lambda>_ _. True))\<^sup>*\<^sup>* (empty_system ''t'') ?s"
    by (rule rtranclp.rtrancl_into_rtrancl)
  with * b' show ?thesis by (intro that [of b a b' s ?s]) simp_all
qed

theorem thanked_exactly_once_witness:
  "reached sample_active (\<lambda>b. case findById rev ''r'' b of None \<Rightarrow> False | Some a \<Rightarrow>
     (case attemptCheckIn ''r'' ''p0'' 3 3 a b of
        AttemptDone b' \<Rightarrow> count (mset (thanked b')) ''p0'' = 1 \<and> count (mset (thanked b')) ''p1'' = 0
      | _ \<Rightarrow> False))"
proof -
  obtain b a b' and s s' :: delivery_system where *: "sample_active = Inr b" "findById rev ''r'' b = Some a"
    "attemptCheckIn ''r'' ''p0'' 3 3 a b = AttemptDone b'"
    "(delivery_step id (\<lambda>_ _. True))\<^sup>*\<^sup>* (empty_system ''t'') s'" "dsy_board s' = b'"
    by (rule sample_check_in)
  let ?fin = "\<lambda>b' i. list_ex (\<lambda>r. list_ex (\<lambda>x. rst_id x = i \<and> rst_status x = StopCompleted) (drt_stops r)) (dbd_routes b')"
  have "reached sample_active (\<lambda>b. case findById rev ''r'' b of None \<Rightarrow> False | Some a \<Rightarrow>
      (case attemptCheckIn ''r'' ''p0'' 3 3 a b of AttemptDone b' \<Rightarrow> ?fin b' ''p0'' \<and> \<not> ?fin b' ''p1'' | _ \<Rightarrow> False))"
    by code_simp
  from reached_at [OF this *(1)] *(2,3) have "?fin b' ''p0''" "\<not> ?fin b' ''p1''" by simp_all
  with thanked_exactly_once [OF *(4), of "''p0''"] thanked_exactly_once [OF *(4), of "''p1''"]
  have "count (mset (thanked b')) ''p0'' = 1 \<and> count (mset (thanked b')) ''p1'' = 0"
    unfolding *(5) list_ex_iff by simp
  with *(2,3) show ?thesis by (intro reachedI [OF *(1)]) simp
qed

text \<open>
  Property C7: the optimistic check-in is the serial one.  An attempt that commits from
  a snapshot loaded at any earlier moment of any interleaving writes the very board that
  the check-in of the route as it is now stored would have written; a snapshot that fell
  behind cannot commit.
\<close>

theorem optimistic_check_in_serial:
  assumes "(delivery_step collate can)\<^sup>*\<^sup>* (empty_system tenantId) s"
    and "a \<in> set (dsy_inflight s)"
    and "attemptCheckIn (drt_id a) stopId now clock a (dsy_board s) = AttemptDone b"
  shows "\<exists>r\<in>set (dbd_routes (dsy_board s)). drt_id r = drt_id a \<and>
    attemptCheckIn (drt_id a) stopId now clock r (dsy_board s) = AttemptDone b"
  using check_in_commits [OF reachable_board_ok [OF assms(1)] assms(2,3)] by metis

theorem optimistic_check_in_serial_witness:
  "reached sample_active (\<lambda>b. case findById rev ''r'' b of None \<Rightarrow> False | Some a \<Rightarrow>
     (case attemptCheckIn ''r'' ''p0'' 3 3 a b of
        AttemptDone b' \<Rightarrow> \<exists>r\<in>set (dbd_routes b). drt_id r = ''r'' \<and>
          attemptCheckIn ''r'' ''p0'' 3 3 r b = AttemptDone b'
      | _ \<Rightarrow> False))"
proof -
  obtain b a b' and s s' :: delivery_system where *: "sample_active = Inr b" "findById rev ''r'' b = Some a" "drt_id a = ''r''"
    "attemptCheckIn ''r'' ''p0'' 3 3 a b = AttemptDone b'" "a \<in> set (dsy_inflight s)" "dsy_board s = b"
    "(delivery_step id (\<lambda>_ _. True))\<^sup>*\<^sup>* (empty_system ''t'') s"
    by (rule sample_check_in)
  from optimistic_check_in_serial [OF *(7,5)] *(3,4,6)
  have "\<exists>r\<in>set (dbd_routes b). drt_id r = ''r'' \<and> attemptCheckIn ''r'' ''p0'' 3 3 r b = AttemptDone b'"
    by metis
  with *(2,4) show ?thesis by (intro reachedI [OF *(1)]) simp
qed

text \<open>
  A finished route is final.  Once a route is completed or cancelled no
  operation of the aggregate changes any part of it.
\<close>

theorem finished_route_final:
  assumes "route_step\<^sup>*\<^sup>* r t" and "drt_status r = RouteCompleted \<or> drt_status r = RouteCancelled"
  shows "t = r"
  using route.frozen [OF assms(1)] assms(2) by (simp add: late_status)

theorem finished_route_final_witness:
  "reached (andThen sample_active (\<lambda>b. deliver_rest rev ''r'' (\<lambda>n. 10 - int n) 2 b)) (\<lambda>b.
     \<exists>r. dbd_routes b = [r] \<and> (\<exists>c. checkInStop ''p0'' 20 r = Inr c \<and> cir_route c = r))"
proof -
  have "reached (andThen sample_active (\<lambda>b. deliver_rest rev ''r'' (\<lambda>n. 10 - int n) 2 b)) (\<lambda>b.
     case dbd_routes b of [r] \<Rightarrow> drt_status r = RouteCompleted \<and> reached (checkInStop ''p0'' 20 r) (\<lambda>_. True)
     | _ \<Rightarrow> False)"
    by code_simp
  then obtain b where b: "andThen sample_active (\<lambda>b. deliver_rest rev ''r'' (\<lambda>n. 10 - int n) 2 b) = Inr b"
    and c: "case dbd_routes b of [r] \<Rightarrow> drt_status r = RouteCompleted \<and> reached (checkInStop ''p0'' 20 r) (\<lambda>_. True)
     | _ \<Rightarrow> False" by (blast dest: reachedD)
  from c obtain r where r: "dbd_routes b = [r]" by (auto split: list.splits)
  with c have st: "drt_status r = RouteCompleted" "reached (checkInStop ''p0'' 20 r) (\<lambda>_. True)" by simp_all
  from st(2) obtain c where c: "checkInStop ''p0'' 20 r = Inr c" by (blast dest: reachedD)
  then have "route_step\<^sup>*\<^sup>* r (cir_route c)" by (blast intro: route_step.intros)
  with finished_route_final st(1) have "cir_route c = r" by blast
  with r c show ?thesis by (simp add: b reached_def)
qed

end
