(* ===== verification/PromotionUsage.thy ===== *)
theory PromotionUsage
  imports EngineLoop
begin

text \<open>
  The capacity ledger of the promotions:
  \<open>src/src/promotions/infrastructure/prisma-promotion-usage.repository.ts\<close>.  The
  store is what one tenant's transaction sees: the rows of \<open>promotions\<close> (with the
  counter \<open>consumedProductUnits\<close>), the rows of \<open>promotion_usages\<close> (unique per sale
  and promotion) and the near-capacity rows written to the outbox.  A rejected
  operation rolls the ambient transaction back, so it returns no store.
\<close>

subsection \<open>Rows\<close>

record capacity_claim =
  cpc_promotionId :: ident
  cpc_units :: js_number

record usage_row =
  usr_saleId :: ident
  usr_promotionId :: ident
  usr_units :: int
  usr_restoredAt :: "timestamp option"

record near_capacity_event =
  nce_promotionId :: ident
  nce_saleId :: ident
  nce_previousConsumed :: int
  nce_consumed :: int
  nce_maxProductUnits :: int

record usage_store =
  ust_promotions :: "promotion list"
  ust_usages :: "usage_row list"
  ust_near :: "near_capacity_event list"

definition PG_INT_MAX :: int where
  "PG_INT_MAX = 2147483647"

subsection \<open>Claims\<close>

fun valid_units :: "js_number \<Rightarrow> bool" where
  "valid_units (JsInt n) = (0 < n \<and> n \<le> PG_INT_MAX)"
| "valid_units _ = False"

definition validate_claim :: "ident list \<Rightarrow> capacity_claim \<Rightarrow> ident list result" where
  "validate_claim seen c =
     (if \<not> (cpc_promotionId c \<noteq> [] \<and> valid_units (cpc_units c))
        then Inl (InvalidArgumentError
          ''Promotion capacity claims require a non-empty promotionId and positive PostgreSQL INTEGER units''
          ''PROMOTION_CAPACITY_CLAIM_INVALID'')
      else if cpc_promotionId c \<in> set seen
        then Inl (InvalidArgumentError
          ''Promotion capacity claim contains a duplicate promotionId''
          ''PROMOTION_CAPACITY_CLAIM_DUPLICATE'')
      else Inr (seen @ [cpc_promotionId c]))"

definition validateClaims :: "capacity_claim list \<Rightarrow> unit result" where
  "validateClaims claims = mapR (\<lambda>_. ()) (loopR validate_claim [] claims)"

definition is_usage :: "ident \<Rightarrow> ident \<Rightarrow> usage_row \<Rightarrow> bool" where
  "is_usage saleId promotionId r \<longleftrightarrow> usr_saleId r = saleId \<and> usr_promotionId r = promotionId"

definition find_usage :: "ident \<Rightarrow> ident \<Rightarrow> usage_store \<Rightarrow> usage_row option" where
  "find_usage saleId promotionId st = find (is_usage saleId promotionId) (ust_usages st)"

definition assertIdempotentRetry :: "ident \<Rightarrow> ident \<Rightarrow> int \<Rightarrow> usage_store \<Rightarrow> unit result" where
  "assertIdempotentRetry saleId promotionId units st =
     (case find_usage saleId promotionId st of
        Some r \<Rightarrow>
          if usr_restoredAt r = None \<and> usr_units r = units then Inr ()
          else Inl (BusinessRuleViolationError
            ''Promotion capacity claim does not match the existing ledger row''
            ''PROMOTION_CAPACITY_CLAIM_MISMATCH'')
      | None \<Rightarrow> Inl (BusinessRuleViolationError
            ''Promotion capacity claim does not match the existing ledger row''
            ''PROMOTION_CAPACITY_CLAIM_MISMATCH''))"

text \<open>The \<open>WHERE\<close> of the guarded increment.\<close>

definition can_consume :: "ident \<Rightarrow> int \<Rightarrow> promotion \<Rightarrow> bool" where
  "can_consume promotionId units p \<longleftrightarrow>
     pm_id p = promotionId \<and>
     pm_consumedProductUnits p \<le> PG_INT_MAX - units \<and>
     (case pm_maxProductUnits p of
        None \<Rightarrow> True | Some m \<Rightarrow> pm_consumedProductUnits p \<le> m - units)"

definition bump_consumed :: "timestamp \<Rightarrow> int \<Rightarrow> promotion \<Rightarrow> promotion" where
  "bump_consumed now units p =
     p\<lparr>pm_consumedProductUnits := pm_consumedProductUnits p + units, pm_updatedAt := now\<rparr>"

definition publishNearCapacityIfCrossed ::
  "ident \<Rightarrow> int \<Rightarrow> promotion \<Rightarrow> usage_store \<Rightarrow> usage_store" where
  "publishNearCapacityIfCrossed saleId units row st =
     (case pm_maxProductUnits row of
        None \<Rightarrow> st
      | Some cap \<Rightarrow>
          let consumed = pm_consumedProductUnits row;
              previous = consumed - units
          in if \<not> (previous * 5 < cap * 4 \<and> cap * 4 \<le> consumed * 5) then st
             else st\<lparr>ust_near := ust_near st @
               [\<lparr>nce_promotionId = pm_id row, nce_saleId = saleId,
                 nce_previousConsumed = previous, nce_consumed = consumed,
                 nce_maxProductUnits = cap\<rparr>]\<rparr>)"

definition claim_one ::
  "timestamp \<Rightarrow> ident \<Rightarrow> usage_store \<Rightarrow> capacity_claim \<Rightarrow> usage_store result" where
  "claim_one now saleId st c =
     (let i = cpc_promotionId c; units = js_trunc (cpc_units c) in
      if find_usage saleId i st \<noteq> None
        then mapR (\<lambda>_. st) (assertIdempotentRetry saleId i units st)
      else
        let st1 = st\<lparr>ust_usages := ust_usages st @
                       [\<lparr>usr_saleId = saleId, usr_promotionId = i, usr_units = units,
                         usr_restoredAt = None\<rparr>]\<rparr> in
        case find (can_consume i units) (ust_promotions st1) of
          None \<Rightarrow> Inl (BusinessRuleViolationError ''Promotion capacity exceeded''
                    ''PROMOTION_CAPACITY_EXCEEDED'')
        | Some p \<Rightarrow>
            Inr (publishNearCapacityIfCrossed saleId units (bump_consumed now units p)
              (st1\<lparr>ust_promotions :=
                 update_first (can_consume i units) (bump_consumed now units)
                   (ust_promotions st1)\<rparr>)))"

definition claimForSale ::
  "timestamp \<Rightarrow> bool \<Rightarrow> ident \<Rightarrow> capacity_claim list \<Rightarrow> usage_store \<Rightarrow> usage_store result" where
  "claimForSale now inTransaction saleId claims st =
     (if \<not> inTransaction
        then Inl (BusinessRuleViolationError
          ''Promotion capacity claims require an active ambient transaction''
          ''PROMOTION_CAPACITY_CLAIM_OUTSIDE_TRANSACTION'')
      else if claims = [] then Inr st
      else andThen (validateClaims claims) (\<lambda>_.
        loopR (claim_one now saleId) st (sort_key cpc_promotionId claims)))"

subsection \<open>Restores\<close>

definition active_usage :: "ident \<Rightarrow> usage_row \<Rightarrow> bool" where
  "active_usage saleId r \<longleftrightarrow> usr_saleId r = saleId \<and> usr_restoredAt r = None"

definition can_release :: "ident \<Rightarrow> int \<Rightarrow> promotion \<Rightarrow> bool" where
  "can_release promotionId units p \<longleftrightarrow>
     pm_id p = promotionId \<and> units \<le> pm_consumedProductUnits p"

definition stampable :: "ident \<Rightarrow> ident \<Rightarrow> usage_row \<Rightarrow> bool" where
  "stampable saleId promotionId r \<longleftrightarrow> is_usage saleId promotionId r \<and> usr_restoredAt r = None"

definition restore_one ::
  "timestamp \<Rightarrow> ident \<Rightarrow> usage_store \<Rightarrow> usage_row \<Rightarrow> usage_store result" where
  "restore_one now saleId st row =
     (let i = usr_promotionId row; units = usr_units row in
      if \<not> (\<exists>r\<in>set (ust_usages st). stampable saleId i r) then Inr st
      else
        let st1 = st\<lparr>ust_usages :=
                       update_first (stampable saleId i) (\<lambda>r. r\<lparr>usr_restoredAt := Some now\<rparr>)
                         (ust_usages st)\<rparr> in
        case find (can_release i units) (ust_promotions st1) of
          None \<Rightarrow> Inl (BusinessRuleViolationError
                    ''Promotion counter is smaller than the restored ledger units''
                    ''PROMOTION_CAPACITY_RESTORE_COUNTER_MISMATCH'')
        | Some p \<Rightarrow>
            Inr (st1\<lparr>ust_promotions :=
              update_first (can_release i units) (bump_consumed now (- units))
                (ust_promotions st1)\<rparr>))"

text \<open>The ordering of the active rows is the database's, \<open>collate\<close>.\<close>

definition restoreForSale ::
  "(string \<Rightarrow> string) \<Rightarrow> timestamp \<Rightarrow> bool \<Rightarrow> ident \<Rightarrow> usage_store \<Rightarrow> usage_store result" where
  "restoreForSale collate now inTransaction saleId st =
     (if \<not> inTransaction
        then Inl (BusinessRuleViolationError
          ''Promotion capacity restore requires an active ambient transaction''
          ''PROMOTION_CAPACITY_RESTORE_OUTSIDE_TRANSACTION'')
      else if saleId = []
        then Inl (InvalidArgumentError
          ''Promotion capacity restore requires a non-empty saleId''
          ''PROMOTION_CAPACITY_RESTORE_INVALID'')
      else
        let activeRows = sort_key (\<lambda>r. collate (usr_promotionId r))
              (filter (active_usage saleId) (ust_usages st))
        in loopR (restore_one now saleId) st activeRows)"

end
