(* ===== verification/PromotionUsageLaws.thy ===== *)
theory PromotionUsageLaws
  imports PromotionUsage EngineLaws
begin

text \<open>
  The laws of the capacity ledger: every counter is the sum of the active rows of
  the ledger, claims and restores keep it so, a restore of a consistent store
  cannot fail, and what the engine demands can be claimed.
\<close>

subsection \<open>The invariant\<close>

definition active_units :: "ident \<Rightarrow> usage_row list \<Rightarrow> int" where
  "active_units i rows =
     (\<Sum>r\<leftarrow>rows. if usr_promotionId r = i \<and> usr_restoredAt r = None then usr_units r else 0)"

definition usage_key :: "usage_row \<Rightarrow> ident \<times> ident" where
  "usage_key r = (usr_saleId r, usr_promotionId r)"

definition counter_ok :: "usage_row list \<Rightarrow> promotion \<Rightarrow> bool" where
  "counter_ok rows p \<longleftrightarrow>
     pm_consumedProductUnits p = active_units (pm_id p) rows \<and>
     pm_consumedProductUnits p \<le> PG_INT_MAX \<and>
     (\<forall>m. pm_maxProductUnits p = Some m \<longrightarrow> pm_consumedProductUnits p \<le> m)"

definition usage_ok :: "usage_store \<Rightarrow> bool" where
  "usage_ok st \<longleftrightarrow>
     distinct (map pm_id (ust_promotions st)) \<and>
     distinct (map usage_key (ust_usages st)) \<and>
     (\<forall>r\<in>set (ust_usages st).
        0 < usr_units r \<and> usr_promotionId r \<in> pm_id ` set (ust_promotions st)) \<and>
     (\<forall>p\<in>set (ust_promotions st). counter_ok (ust_usages st) p)"

lemma active_units_append [simp]:
  "active_units i (xs @ ys) = active_units i xs + active_units i ys"
  by (simp add: active_units_def)

lemma active_units_single [simp]:
  "active_units i [r] = (if usr_promotionId r = i \<and> usr_restoredAt r = None then usr_units r else 0)"
  by (simp add: active_units_def)

lemma active_units_ge:
  assumes "r \<in> set rows" and "usr_restoredAt r = None" and "\<forall>r\<in>set rows. 0 < usr_units r"
  shows "usr_units r \<le> active_units (usr_promotionId r) rows"
  using assms
proof (induction rows)
  case (Cons x rows)
  have "0 \<le> active_units i rows" for i
    unfolding active_units_def using Cons.prems(3) by (intro sum_list_nonneg_int) auto
  with Cons show ?case by (fastforce simp: active_units_def)
qed simp

text \<open>Moving one counter by as much as its ledger rows move keeps the counters right.\<close>

lemma counters_moved:
  assumes "distinct (map pm_id ps)" and "find q ps = Some p" and q: "\<And>y. q y \<Longrightarrow> pm_id y = i"
    and "\<forall>x\<in>set ps. counter_ok rows x"
    and rows: "\<And>j. active_units j rows' = active_units j rows + (if j = i then d else 0)"
    and "pm_consumedProductUnits p + d \<le> PG_INT_MAX"
    and cap: "\<And>m. pm_maxProductUnits p = Some m \<Longrightarrow> pm_consumedProductUnits p + d \<le> m"
  shows "\<forall>x\<in>set (update_first q (bump_consumed now d) ps). counter_ok rows' x"
proof
  fix x assume x: "x \<in> set (update_first q (bump_consumed now d) ps)"
  have p: "p \<in> set ps" "pm_id p = i" using find_SomeD [OF assms(2)] q by auto
  have "pm_id (bump_consumed now d p) = i" using p by (simp add: bump_consumed_def)
  from x set_update_unique [where key = pm_id and f = "bump_consumed now d" and y = x and k = i, OF assms(1,2) q this]
  consider "x = bump_consumed now d p" | "x \<in> set ps" "pm_id x \<noteq> i" by blast
  then show "counter_ok rows' x"
  proof cases
    case 1
    from assms(4) p have "counter_ok rows p" by blast
    with 1 p rows [of i] assms(6) cap show ?thesis
      by (simp add: counter_ok_def bump_consumed_def)
  next
    case 2
    from assms(4) 2 have "counter_ok rows x" by blast
    moreover have "active_units (pm_id x) rows' = active_units (pm_id x) rows"
      using 2 rows [of "pm_id x"] by simp
    then have "counter_ok rows' x = counter_ok rows x" by (simp only: counter_ok_def)
    ultimately show ?thesis by (simp only:)
  qed
qed

lemma ids_bumped [simp]:
  "map pm_id (update_first q (bump_consumed now d) ps) = map pm_id ps"
  by (induction ps) (simp_all add: bump_consumed_def)

lemma near_fields [simp]:
  "ust_promotions (publishNearCapacityIfCrossed s u p st) = ust_promotions st"
  "ust_usages (publishNearCapacityIfCrossed s u p st) = ust_usages st"
  by (simp_all add: publishNearCapacityIfCrossed_def Let_def split: option.splits)

subsection \<open>Claims\<close>

definition claim_ok :: "capacity_claim \<Rightarrow> bool" where
  "claim_ok c \<longleftrightarrow> cpc_promotionId c \<noteq> [] \<and> valid_units (cpc_units c)"

definition claim_units :: "capacity_claim \<Rightarrow> int" where
  "claim_units c = js_trunc (cpc_units c)"

lemma valid_units_iff:
  "valid_units n \<longleftrightarrow> n = JsInt (js_trunc n) \<and> 0 < js_trunc n \<and> js_trunc n \<le> PG_INT_MAX"
  by (cases n) auto

lemma validate_loop:
  "loopR validate_claim seen cs = Inr seen' \<longleftrightarrow>
     (\<forall>c\<in>set cs. claim_ok c) \<and> distinct (map cpc_promotionId cs) \<and>
     set (map cpc_promotionId cs) \<inter> set seen = {} \<and> seen' = seen @ map cpc_promotionId cs"
  by (induction cs arbitrary: seen)
    (auto simp: validate_claim_def claim_ok_def)

lemma validateClaims_ok:
  "validateClaims cs = Inr u \<longleftrightarrow>
     (\<forall>c\<in>set cs. claim_ok c) \<and> distinct (map cpc_promotionId cs)"
  by (auto simp: validateClaims_def result_simps validate_loop)

definition fresh_row :: "ident \<Rightarrow> capacity_claim \<Rightarrow> usage_row" where
  "fresh_row saleId c =
     \<lparr>usr_saleId = saleId, usr_promotionId = cpc_promotionId c, usr_units = claim_units c,
      usr_restoredAt = None\<rparr>"

lemma claim_fresh:
  assumes "find_usage saleId (cpc_promotionId c) st = None"
  shows "claim_one now saleId st c = Inr st' \<longleftrightarrow>
    (\<exists>p. find (can_consume (cpc_promotionId c) (claim_units c)) (ust_promotions st) = Some p \<and>
       st' = publishNearCapacityIfCrossed saleId (claim_units c)
         (bump_consumed now (claim_units c) p)
         (st\<lparr>ust_usages := ust_usages st @ [fresh_row saleId c],
             ust_promotions := update_first (can_consume (cpc_promotionId c) (claim_units c))
               (bump_consumed now (claim_units c)) (ust_promotions st)\<rparr>))"
  using assms
  by (auto simp: claim_one_def Let_def fresh_row_def claim_units_def split: option.splits)

lemma claim_retry:
  assumes "find_usage saleId (cpc_promotionId c) st = Some r"
  shows "claim_one now saleId st c = Inr st' \<longleftrightarrow>
    st' = st \<and> usr_restoredAt r = None \<and> usr_units r = claim_units c"
  using assms by (auto simp: claim_one_def Let_def assertIdempotentRetry_def claim_units_def)

lemma find_usage_mem:
  "find_usage s i st = None \<longleftrightarrow> (s, i) \<notin> usage_key ` set (ust_usages st)"
  unfolding find_usage_def find_eq_None by (auto simp: is_usage_def usage_key_def)

lemma claim_one_usage_ok:
  assumes "usage_ok st" and "claim_ok c" and "claim_one now saleId st c = Inr st'"
  shows "usage_ok st'"
proof (cases "find_usage saleId (cpc_promotionId c) st")
  case None
  let ?i = "cpc_promotionId c" and ?u = "claim_units c"
  from claim_fresh [OF None] assms(3) obtain p where
    p: "find (can_consume ?i ?u) (ust_promotions st) = Some p" and
    st': "ust_promotions st' = update_first (can_consume ?i ?u) (bump_consumed now ?u) (ust_promotions st)"
      "ust_usages st' = ust_usages st @ [fresh_row saleId c]"
    by auto
  from find_SomeD [OF p] have mem: "p \<in> set (ust_promotions st)" "can_consume ?i ?u p" by auto
  have "\<forall>x\<in>set (ust_promotions st'). counter_ok (ust_usages st') x"
    unfolding st'
  proof (rule counters_moved [where i = ?i, OF _ p])
    show "distinct (map pm_id (ust_promotions st))" "\<forall>x\<in>set (ust_promotions st). counter_ok (ust_usages st) x"
      using assms(1) by (simp_all add: usage_ok_def)
    show "can_consume ?i ?u y \<Longrightarrow> pm_id y = ?i" for y by (simp add: can_consume_def)
    show "active_units j (ust_usages st @ [fresh_row saleId c]) =
        active_units j (ust_usages st) + (if j = ?i then ?u else 0)" for j
      by (simp add: fresh_row_def)
    show "pm_consumedProductUnits p + ?u \<le> PG_INT_MAX" using mem(2) by (simp add: can_consume_def)
    show "pm_consumedProductUnits p + ?u \<le> m" if "pm_maxProductUnits p = Some m" for m
      using mem(2) that by (simp add: can_consume_def)
  qed
  moreover have "0 < ?u" using assms(2) by (simp add: claim_ok_def claim_units_def valid_units_iff)
  moreover have "?i \<in> pm_id ` set (ust_promotions st)"
    using mem by (intro image_eqI [where x = p]) (simp_all add: can_consume_def)
  moreover have "pm_id ` set (ust_promotions st') = pm_id ` set (ust_promotions st)"
    using ids_bumped [of "can_consume ?i ?u" now ?u "ust_promotions st"] st'(1)
    by (metis list.set_map)
  ultimately show ?thesis
    using assms(1) None unfolding usage_ok_def st'(2) find_usage_mem
    by (auto simp: st'(1) fresh_row_def usage_key_def)
next
  case (Some r)
  with claim_retry [OF Some] assms(1,3) show ?thesis by simp
qed

text \<open>The ledger holds the claim: an active row with its units.\<close>

definition holds_claim :: "ident \<Rightarrow> capacity_claim \<Rightarrow> usage_store \<Rightarrow> bool" where
  "holds_claim saleId c st \<longleftrightarrow>
     (\<exists>r. find_usage saleId (cpc_promotionId c) st = Some r \<and> usr_restoredAt r = None \<and>
        usr_units r = claim_units c)"

lemma claim_one_rows:
  assumes "claim_one now saleId st c = Inr st'"
  shows "holds_claim saleId c st' \<and>
    map pm_id (ust_promotions st') = map pm_id (ust_promotions st) \<and>
    ust_usages st' =
      ust_usages st @ (if find_usage saleId (cpc_promotionId c) st = None then [fresh_row saleId c] else [])"
proof (cases "find_usage saleId (cpc_promotionId c) st")
  case None
  with claim_fresh [OF None] assms show ?thesis
    by (auto simp: holds_claim_def find_usage_def find_append is_usage_def fresh_row_def)
next
  case (Some r)
  with claim_retry [OF Some] assms show ?thesis by (simp add: holds_claim_def)
qed

lemma holds_claim_kept:
  assumes "holds_claim saleId c st" and "ust_usages st' = ust_usages st @ ext"
  shows "holds_claim saleId c st'"
  using assms by (auto simp: holds_claim_def find_usage_def find_append)

lemma claim_loop:
  assumes "loopR (claim_one now saleId) st cs = Inr st'" and "usage_ok st"
    and "\<forall>c\<in>set cs. claim_ok c"
  shows "usage_ok st' \<and> (\<forall>c\<in>set cs. holds_claim saleId c st') \<and>
    map pm_id (ust_promotions st') = map pm_id (ust_promotions st) \<and>
    (\<exists>ext. ust_usages st' = ust_usages st @ ext \<and> (\<forall>r\<in>set ext. usr_saleId r = saleId))"
  using assms
proof (induction cs arbitrary: st)
  case (Cons c cs)
  from Cons.prems(1) obtain st1 where
    one: "claim_one now saleId st c = Inr st1" and rest: "loopR (claim_one now saleId) st1 cs = Inr st'"
    by (auto simp: result_simps)
  have ok1: "usage_ok st1" using claim_one_usage_ok [OF Cons.prems(2) _ one] Cons.prems(3) by simp
  note rows = claim_one_rows [OF one]
  from Cons.IH [OF rest ok1] Cons.prems(3) obtain ext where
    IH: "usage_ok st'" "\<forall>c\<in>set cs. holds_claim saleId c st'"
      "map pm_id (ust_promotions st') = map pm_id (ust_promotions st1)"
      "ust_usages st' = ust_usages st1 @ ext" "\<forall>r\<in>set ext. usr_saleId r = saleId"
    by auto
  show ?case
  proof (intro conjI)
    have "holds_claim saleId c st'" using holds_claim_kept [OF _ IH(4)] rows by blast
    with IH(2) show "\<forall>c\<in>set (c # cs). holds_claim saleId c st'" by simp
    show "map pm_id (ust_promotions st') = map pm_id (ust_promotions st)" using IH(3) rows by simp
    show "\<exists>ext. ust_usages st' = ust_usages st @ ext \<and> (\<forall>r\<in>set ext. usr_saleId r = saleId)"
      using IH(5) rows unfolding IH(4)
      by (intro exI [of _ "(if find_usage saleId (cpc_promotionId c) st = None
            then [fresh_row saleId c] else []) @ ext"]) (auto simp: fresh_row_def)
  qed (fact IH(1))
qed auto

lemma claimForSale_cases:
  assumes "claimForSale now True saleId claims st = Inr st'"
  shows "(\<forall>c\<in>set claims. claim_ok c) \<and> distinct (map cpc_promotionId claims) \<and>
    loopR (claim_one now saleId) st (sort_key cpc_promotionId claims) = Inr st'"
  using assms by (auto simp: claimForSale_def result_simps validateClaims_ok split: if_splits)

lemma claimForSale_spec:
  assumes "claimForSale now True saleId claims st = Inr st'" and "usage_ok st"
  shows "usage_ok st' \<and> (\<forall>c\<in>set claims. holds_claim saleId c st') \<and>
    map pm_id (ust_promotions st') = map pm_id (ust_promotions st) \<and>
    (\<exists>ext. ust_usages st' = ust_usages st @ ext \<and> (\<forall>r\<in>set ext. usr_saleId r = saleId))"
  using claimForSale_cases [OF assms(1)] claim_loop [of now saleId st "sort_key cpc_promotionId claims" st']
    assms(2) by auto

lemma claim_loop_retry:
  "\<forall>c\<in>set cs. holds_claim saleId c st \<Longrightarrow> loopR (claim_one now saleId) st cs = Inr st"
proof (induction cs)
  case (Cons c cs)
  then have "claim_one now saleId st c = Inr st"
    by (auto simp: holds_claim_def claim_retry)
  with Cons show ?case by simp
qed simp

subsection \<open>Restores\<close>

definition stamp :: "timestamp \<Rightarrow> usage_row \<Rightarrow> usage_row" where
  "stamp now r = r\<lparr>usr_restoredAt := Some now\<rparr>"

lemma key_stamp [simp]: "usage_key (stamp now r) = usage_key r"
  by (simp add: stamp_def usage_key_def)

lemma restore_one_ok:
  assumes "usage_ok st" and "row \<in> set (ust_usages st)" and "active_usage saleId row"
  shows "\<exists>st'. restore_one now saleId st row = Inr st' \<and> usage_ok st' \<and>
    map pm_id (ust_promotions st') = map pm_id (ust_promotions st) \<and>
    (\<forall>r. r \<in> set (ust_usages st') \<longleftrightarrow>
      r = stamp now row \<or> r \<in> set (ust_usages st) \<and> usage_key r \<noteq> usage_key row)"
proof -
  let ?i = "usr_promotionId row" and ?u = "usr_units row"
  let ?q = "stampable saleId ?i" and ?c = "can_release ?i ?u"
  let ?rows = "update_first ?q (\<lambda>r. r\<lparr>usr_restoredAt := Some now\<rparr>) (ust_usages st)"
  have dist: "distinct (map usage_key (ust_usages st))" "distinct (map pm_id (ust_promotions st))"
    and pos: "\<forall>r\<in>set (ust_usages st). 0 < usr_units r" and ex: "?i \<in> pm_id ` set (ust_promotions st)"
    and cnt: "\<forall>p\<in>set (ust_promotions st). counter_ok (ust_usages st) p"
    using assms(1,2) by (auto simp: usage_ok_def)
  have q: "?q row" "usage_key row = (saleId, ?i)" "\<And>y. ?q y \<Longrightarrow> usage_key y = (saleId, ?i)"
    using assms(3) by (auto simp: stampable_def active_usage_def is_usage_def usage_key_def)
  have row: "find ?q (ust_usages st) = Some row"
    using q by (intro find_by_id [OF dist(1) assms(2)]) auto
  from ex obtain p where p: "p \<in> set (ust_promotions st)" "pm_id p = ?i" by force
  have act: "?u \<le> active_units ?i (ust_usages st)"
    using active_units_ge [OF assms(2) _ pos] assms(3) by (simp add: active_usage_def)
  have rel: "?c p" using cnt p act by (auto simp: counter_ok_def can_release_def)
  have fp: "find ?c (ust_promotions st) = Some p"
    using rel p by (intro find_by_id [OF dist(2)]) (auto simp: can_release_def)
  have moved: "active_units j ?rows = active_units j (ust_usages st) + (if j = ?i then - ?u else 0)" for j
    using assms(3) unfolding active_units_def by (simp add: sum_update_first [OF row] active_usage_def)
  have "\<forall>x\<in>set (update_first ?c (bump_consumed now (- ?u)) (ust_promotions st)). counter_ok ?rows x"
    using cnt p pos assms(2)
    by (intro counters_moved [where i = ?i, OF dist(2) fp _ cnt moved])
      (fastforce simp: can_release_def counter_ok_def)+
  moreover have rows: "r \<in> set ?rows \<longleftrightarrow>
      r = stamp now row \<or> r \<in> set (ust_usages st) \<and> usage_key r \<noteq> usage_key row" for r
    unfolding q(2) stamp_def
    by (rule set_update_unique [OF dist(1) row q(3)]) (simp_all add: usage_key_def q(2) [unfolded usage_key_def])
  moreover have "map usage_key ?rows = map usage_key (ust_usages st)"
    by (rule map_update_first) (simp add: usage_key_def)
  moreover have "pm_id ` set (update_first ?c (bump_consumed now (- ?u)) (ust_promotions st)) =
      pm_id ` set (ust_promotions st)"
    by (metis ids_bumped list.set_map)
  ultimately have "usage_ok (st\<lparr>ust_usages := ?rows,
      ust_promotions := update_first ?c (bump_consumed now (- ?u)) (ust_promotions st)\<rparr>)"
    using assms(1,2) dist by (auto simp: usage_ok_def stamp_def)
  moreover have "restore_one now saleId st row = Inr (st\<lparr>ust_usages := ?rows,
      ust_promotions := update_first ?c (bump_consumed now (- ?u)) (ust_promotions st)\<rparr>)"
    using assms(2) q(1) by (auto simp: restore_one_def Let_def fp)
  ultimately show ?thesis using rows by auto
qed

lemma restore_loop:
  assumes "usage_ok st" and "distinct (map usage_key rows)"
    and "\<forall>row\<in>set rows. row \<in> set (ust_usages st) \<and> active_usage saleId row"
  shows "\<exists>st'. loopR (restore_one now saleId) st rows = Inr st' \<and> usage_ok st' \<and>
    map pm_id (ust_promotions st') = map pm_id (ust_promotions st) \<and>
    (\<forall>r. r \<in> set (ust_usages st') \<longleftrightarrow>
      r \<in> stamp now ` set rows \<or> r \<in> set (ust_usages st) \<and> usage_key r \<notin> usage_key ` set rows)"
  using assms
proof (induction rows arbitrary: st)
  case (Cons row rows)
  from restore_one_ok [OF Cons.prems(1), of row saleId now] Cons.prems(3) obtain st1 where
    one: "restore_one now saleId st row = Inr st1" "usage_ok st1"
      "map pm_id (ust_promotions st1) = map pm_id (ust_promotions st)"
    and rows1: "\<And>r. r \<in> set (ust_usages st1) \<longleftrightarrow>
      r = stamp now row \<or> r \<in> set (ust_usages st) \<and> usage_key r \<noteq> usage_key row"
    by auto
  have diff: "usage_key r \<noteq> usage_key row" if "r \<in> set rows" for r
    using Cons.prems(2) that by (auto simp: image_iff)
  have "\<forall>r\<in>set rows. r \<in> set (ust_usages st1) \<and> active_usage saleId r"
    using Cons.prems(3) diff by (auto simp: rows1)
  with Cons.IH [OF one(2)] Cons.prems(2) obtain st' where
    st': "loopR (restore_one now saleId) st1 rows = Inr st'" "usage_ok st'"
      "map pm_id (ust_promotions st') = map pm_id (ust_promotions st1)"
    and rows': "\<And>r. r \<in> set (ust_usages st') \<longleftrightarrow>
      r \<in> stamp now ` set rows \<or> r \<in> set (ust_usages st1) \<and> usage_key r \<notin> usage_key ` set rows"
    by auto
  have "usage_key (stamp now row) \<notin> usage_key ` set rows"
    using diff by (metis imageE key_stamp)
  then have "r \<in> set (ust_usages st') \<longleftrightarrow>
      r \<in> stamp now ` set (row # rows) \<or>
      r \<in> set (ust_usages st) \<and> usage_key r \<notin> usage_key ` set (row # rows)" for r
    unfolding rows' rows1 by auto
  with one st' show ?case by auto
qed simp

lemma active_units_set:
  assumes "distinct (map usage_key rows)"
  shows "active_units i rows =
    (\<Sum>r | r \<in> set rows \<and> usr_promotionId r = i \<and> usr_restoredAt r = None. usr_units r)"
proof -
  have "distinct rows" using assms by (simp add: distinct_map)
  then have "active_units i rows =
      (\<Sum>r\<in>set rows. if usr_promotionId r = i \<and> usr_restoredAt r = None then usr_units r else 0)"
    by (simp add: active_units_def sum_list_distinct_conv_sum_set)
  also have "\<dots> = (\<Sum>r | r \<in> set rows \<and> usr_promotionId r = i \<and> usr_restoredAt r = None. usr_units r)"
    by (intro sum.mono_neutral_cong_right) auto
  finally show ?thesis .
qed

text \<open>The units of the other sales.\<close>

definition others_units :: "ident \<Rightarrow> ident \<Rightarrow> usage_store \<Rightarrow> int" where
  "others_units saleId i st = active_units i (filter (\<lambda>r. usr_saleId r \<noteq> saleId) (ust_usages st))"

definition consumed_units :: "usage_store \<Rightarrow> (ident \<times> int) list" where
  "consumed_units st = map (\<lambda>p. (pm_id p, pm_consumedProductUnits p)) (ust_promotions st)"

lemma consumed_active:
  "usage_ok st \<Longrightarrow>
     consumed_units st = map (\<lambda>i. (i, active_units i (ust_usages st))) (map pm_id (ust_promotions st))"
  by (auto simp: consumed_units_def usage_ok_def counter_ok_def)

lemma restoreForSale_spec:
  assumes "usage_ok st" and "saleId \<noteq> []"
  shows "\<exists>st'. restoreForSale collate now True saleId st = Inr st' \<and> usage_ok st' \<and>
    consumed_units st' =
      map (\<lambda>i. (i, others_units saleId i st)) (map pm_id (ust_promotions st)) \<and>
    filter (active_usage saleId) (ust_usages st') = [] \<and>
    (\<forall>r. usr_saleId r \<noteq> saleId \<longrightarrow> (r \<in> set (ust_usages st') \<longleftrightarrow> r \<in> set (ust_usages st)))"
proof -
  let ?rows = "sort_key (\<lambda>r. collate (usr_promotionId r)) (filter (active_usage saleId) (ust_usages st))"
  have dist: "distinct (map usage_key (ust_usages st))" using assms(1) by (simp add: usage_ok_def)
  have "distinct (map usage_key ?rows)"
    using dist by (simp add: distinct_map inj_on_def)
  with restore_loop [OF assms(1) this, of saleId now] obtain st' where
    st': "loopR (restore_one now saleId) st ?rows = Inr st'" "usage_ok st'"
      "map pm_id (ust_promotions st') = map pm_id (ust_promotions st)"
    and rows: "\<And>r. r \<in> set (ust_usages st') \<longleftrightarrow>
      r \<in> stamp now ` set ?rows \<or> r \<in> set (ust_usages st) \<and> usage_key r \<notin> usage_key ` set ?rows"
    by auto
  have act: "r \<in> set (ust_usages st') \<and> usr_restoredAt r = None \<longleftrightarrow>
      r \<in> set (ust_usages st) \<and> usr_restoredAt r = None \<and> usr_saleId r \<noteq> saleId" for r
    unfolding rows using dist
    by (auto simp: stamp_def active_usage_def usage_key_def distinct_map inj_on_def image_iff)
  have "active_units i (ust_usages st') = others_units saleId i st" for i
  proof -
    have "distinct (map usage_key (ust_usages st'))" using st'(2) by (simp add: usage_ok_def)
    moreover have "distinct (map usage_key (filter (\<lambda>r. usr_saleId r \<noteq> saleId) (ust_usages st)))"
      using dist by (rule distinct_map_filter)
    ultimately show ?thesis
      using act by (simp add: others_units_def active_units_set) (intro sum.cong; blast)
  qed
  then have "consumed_units st' = map (\<lambda>i. (i, others_units saleId i st)) (map pm_id (ust_promotions st))"
    using consumed_active [OF st'(2)] st'(3) by simp
  moreover have "filter (active_usage saleId) (ust_usages st') = []"
    unfolding filter_empty_conv active_usage_def using act by blast
  moreover have "usr_saleId r \<noteq> saleId \<Longrightarrow> r \<in> set (ust_usages st') \<longleftrightarrow> r \<in> set (ust_usages st)" for r
    unfolding rows by (auto simp: stamp_def active_usage_def usage_key_def image_iff)
  ultimately show ?thesis
    using st' assms(2) by (auto simp: restoreForSale_def Let_def)
qed

end
