(* ===== verification/PromotionUsageProps.thy ===== *)
theory PromotionUsageProps
  imports PromotionUsageLaws EngineProps
begin

text \<open>
  What the capacity ledger promises: every counter is the sum of the active rows, a
  claim can be repeated, a cancellation gives back exactly what the sale took, and
  a claim made from the engine's demands on the same rows is never rejected.
\<close>

subsection \<open>The engine's demands\<close>

definition claims_of :: "(ident \<times> int) list \<Rightarrow> capacity_claim list" where
  "claims_of demands = map (\<lambda>d. \<lparr>cpc_promotionId = fst d, cpc_units = JsInt (snd d)\<rparr>) demands"

lemma publish_returns:
  assumes "usage_ok st" and "find_usage saleId (cpc_promotionId c) st = None"
    and "p \<in> set (ust_promotions st)" and "can_consume (cpc_promotionId c) (claim_units c) p"
  shows "\<exists>st'. claim_one now saleId st c = Inr st'"
proof -
  have "find (can_consume (cpc_promotionId c) (claim_units c)) (ust_promotions st) = Some p"
    using assms by (intro find_by_id [where key = pm_id]) (auto simp: usage_ok_def can_consume_def)
  then show ?thesis using claim_fresh [OF assms(2)] by blast
qed

lemma claims_available:
  assumes "usage_ok st" and "distinct (map cpc_promotionId cs)"
    and "\<forall>c\<in>set cs. claim_ok c \<and> find_usage saleId (cpc_promotionId c) st = None \<and>
      (\<exists>p\<in>set (ust_promotions st). can_consume (cpc_promotionId c) (claim_units c) p)"
  shows "\<exists>st'. loopR (claim_one now saleId) st cs = Inr st'"
  using assms
proof (induction cs arbitrary: st)
  case (Cons c cs)
  from Cons.prems(3) obtain p where "p \<in> set (ust_promotions st)"
    "can_consume (cpc_promotionId c) (claim_units c) p" "find_usage saleId (cpc_promotionId c) st = None"
    by auto
  with publish_returns [OF Cons.prems(1)] obtain st1 where
    one: "claim_one now saleId st c = Inr st1" by blast
  have ok1: "usage_ok st1" using claim_one_usage_ok [OF Cons.prems(1) _ one] Cons.prems(3) by simp
  have "find_usage saleId (cpc_promotionId d) st1 = None \<and>
      (\<exists>p\<in>set (ust_promotions st1). can_consume (cpc_promotionId d) (claim_units d) p)"
    if d: "d \<in> set cs" for d
  proof -
    have ne: "cpc_promotionId d \<noteq> cpc_promotionId c" using Cons.prems(2) d by (auto simp: image_iff)
    from Cons.prems(3) d obtain q where q: "q \<in> set (ust_promotions st)"
      "can_consume (cpc_promotionId d) (claim_units d) q" "find_usage saleId (cpc_promotionId d) st = None"
      by auto
    have "\<not> can_consume (cpc_promotionId c) (claim_units c) q"
      using q(2) ne by (simp add: can_consume_def)
    then have "q \<in> set (ust_promotions st1)"
      using claim_fresh [THEN iffD1, OF _ one] Cons.prems(3) q(1)
      by (auto intro!: update_first_mem)
    moreover have "find_usage saleId (cpc_promotionId d) st1 = None"
      using claim_one_rows [OF one] q(3) ne
      by (auto simp: find_usage_def find_append is_usage_def fresh_row_def)
    ultimately show ?thesis using q(2) by blast
  qed
  with Cons.IH [OF ok1] Cons.prems one show ?case by auto
qed simp

subsection \<open>A sample store\<close>

definition sample_usage_store :: usage_store where
  "sample_usage_store =
     \<lparr>ust_promotions = [sample_promotion\<lparr>pm_id := ''a'', pm_maxProductUnits := Some 10,
          pm_consumedProductUnits := 7\<rparr>, sample_promotion\<lparr>pm_id := ''b'',
          pm_maxProductUnits := None, pm_consumedProductUnits := 0\<rparr>],
      ust_usages = [\<lparr>usr_saleId = ''s0'', usr_promotionId = ''a'', usr_units = 7,
          usr_restoredAt = None\<rparr>],
      ust_near = []\<rparr>"

definition sample_claims :: "capacity_claim list" where
  "sample_claims =
     [\<lparr>cpc_promotionId = ''b'', cpc_units = JsInt 2\<rparr>, \<lparr>cpc_promotionId = ''a'', cpc_units = JsInt 3\<rparr>]"

lemma sample_usage_ok: "usage_ok sample_usage_store"
  by (simp add: usage_ok_def counter_ok_def sample_usage_store_def usage_key_def active_units_def
      PG_INT_MAX_def)

lemma sample_claim_some: "\<exists>st. claimForSale 5 True ''s1'' sample_claims sample_usage_store = Inr st"
proof -
  have "reached (claimForSale 5 True ''s1'' sample_claims sample_usage_store) (\<lambda>_. True)"
    by code_simp
  from reachedD [OF this] show ?thesis by blast
qed

subsection \<open>Properties\<close>

text \<open>
  Property C20: the capacity ledger balances.  A claim leaves every promotion's
  counter equal to the units of its active ledger rows, below its cap and within
  the column; the ledger then holds each claimed promotion with its units, so that
  the same claim repeated (a retried confirmation) changes nothing.
\<close>

theorem capacity_claimed_once:
  assumes "usage_ok st" and "claimForSale now True saleId claims st = Inr st'"
  shows "usage_ok st' \<and> (\<forall>c\<in>set claims. holds_claim saleId c st') \<and>
    claimForSale later True saleId claims st' = Inr st'"
proof -
  from claimForSale_spec [OF assms(2,1)] have spec: "usage_ok st'" "\<forall>c\<in>set claims. holds_claim saleId c st'"
    by auto
  have "validateClaims claims = Inr ()"
    using claimForSale_cases [OF assms(2)] by (simp add: validateClaims_ok)
  moreover have "loopR (claim_one later saleId) st' (sort_key cpc_promotionId claims) = Inr st'"
    using spec(2) by (intro claim_loop_retry) simp
  ultimately show ?thesis using spec by (simp add: claimForSale_def)
qed

theorem capacity_claimed_once_witness:
  "\<exists>st. claimForSale 5 True ''s1'' sample_claims sample_usage_store = Inr st \<and>
     claimForSale 9 True ''s1'' sample_claims st = Inr st"
  using sample_claim_some capacity_claimed_once [OF sample_usage_ok, of 5 "''s1''" sample_claims _ 9]
  by blast

text \<open>
  Property C21: a cancellation gives back exactly what the sale took.  From a balanced
  ledger in which the sale has no row, confirming and then cancelling brings every
  counter back to its value; the restore cannot fail with a counter mismatch, and
  repeated it finds nothing more to restore.
\<close>

theorem cancellation_returns_capacity:
  assumes "usage_ok st" and "saleId \<noteq> []" and "\<forall>r\<in>set (ust_usages st). usr_saleId r \<noteq> saleId"
    and "claimForSale now True saleId claims st = Inr st1"
  shows "\<exists>st2. restoreForSale collate later True saleId st1 = Inr st2 \<and> usage_ok st2 \<and>
    consumed_units st2 = consumed_units st \<and> restoreForSale collate again True saleId st2 = Inr st2"
proof -
  from claimForSale_spec [OF assms(4,1)] obtain ext where
    st1: "usage_ok st1" "map pm_id (ust_promotions st1) = map pm_id (ust_promotions st)"
      "ust_usages st1 = ust_usages st @ ext" "\<forall>r\<in>set ext. usr_saleId r = saleId"
    by auto
  from restoreForSale_spec [OF st1(1) assms(2), of collate later] obtain st2 where
    st2: "restoreForSale collate later True saleId st1 = Inr st2" "usage_ok st2"
      "consumed_units st2 =
        map (\<lambda>i. (i, others_units saleId i st1)) (map pm_id (ust_promotions st1))"
      "filter (active_usage saleId) (ust_usages st2) = []"
    by blast
  have "filter (\<lambda>r. usr_saleId r \<noteq> saleId) (ust_usages st1) = ust_usages st"
    using st1(3,4) assms(3) by simp
  then have "consumed_units st2 = consumed_units st"
    unfolding st2(3) consumed_active [OF assms(1)] st1(2) others_units_def by simp
  moreover have "restoreForSale collate again True saleId st2 = Inr st2"
    using st2(4) assms(2) by (simp add: restoreForSale_def)
  ultimately show ?thesis using st2 by blast
qed

theorem cancellation_returns_capacity_witness:
  "\<exists>st1 st2. claimForSale 5 True ''s1'' sample_claims sample_usage_store = Inr st1 \<and>
     restoreForSale id 6 True ''s1'' st1 = Inr st2 \<and>
     consumed_units st2 = consumed_units sample_usage_store"
proof -
  from sample_claim_some obtain st1 where
    st1: "claimForSale 5 True ''s1'' sample_claims sample_usage_store = Inr st1" by blast
  have "''s1'' \<noteq> ([] :: string)" "\<forall>r\<in>set (ust_usages sample_usage_store). usr_saleId r \<noteq> ''s1''"
    by (simp_all add: sample_usage_store_def)
  from cancellation_returns_capacity [OF sample_usage_ok this st1, of id 6 7] st1 show ?thesis by blast
qed

text \<open>
  Property C29: a confirmation is never rejected for capacity that the engine saw.
  When the rows the engine evaluated are the rows of the transaction, the sale has
  no claim yet and the counters of uncapped promotions have room in their column,
  the claim of everything the evaluation demands succeeds.
\<close>

theorem engine_demands_are_claimable:
  assumes "usage_ok st" and "set data \<subseteq> set (ust_promotions st)" and "distinct (map pm_id data)"
    and "\<forall>r\<in>set (ust_usages st). usr_saleId r \<noteq> saleId"
    and "\<forall>p\<in>set data. pm_id p \<noteq> []"
    and "\<forall>d\<in>set (per_promotionCapacityDemands (evaluate weekday input data)). \<forall>p\<in>set data.
      pm_id p = fst d \<longrightarrow> pm_consumedProductUnits p + snd d \<le> PG_INT_MAX"
  shows "\<exists>st'. claimForSale now True saleId
    (claims_of (per_promotionCapacityDemands (evaluate weekday input data))) st = Inr st'"
proof -
  let ?ds = "per_promotionCapacityDemands (evaluate weekday input data)"
  let ?cs = "claims_of ?ds"
  have fits: "claim_ok c \<and> find_usage saleId (cpc_promotionId c) st = None \<and>
      (\<exists>p\<in>set (ust_promotions st). can_consume (cpc_promotionId c) (claim_units c) p)"
    if "c \<in> set ?cs" for c
  proof -
    from that obtain i u where c: "c = \<lparr>cpc_promotionId = i, cpc_units = JsInt u\<rparr>" "(i, u) \<in> set ?ds"
      by (auto simp: claims_of_def)
    from demand_fits [OF assms(3) c(2)] obtain p where p: "0 < u" "p \<in> set data" "pm_id p = i"
      "\<And>r. remainingProductUnits p = Some r \<Longrightarrow> u \<le> r" by blast
    have room: "pm_consumedProductUnits p + u \<le> PG_INT_MAX" using assms(6) c(2) p by fastforce
    have "0 \<le> pm_consumedProductUnits p"
    proof -
      have "pm_consumedProductUnits p = active_units i (ust_usages st)"
        "\<forall>r\<in>set (ust_usages st). 0 < usr_units r"
        using assms(1,2) p by (auto simp: usage_ok_def counter_ok_def)
      then show ?thesis unfolding active_units_def by (auto intro!: sum_list_nonneg_int)
    qed
    with p room have "can_consume i u p"
      by (auto simp: can_consume_def remainingProductUnits_def split: option.splits)
    moreover have "claim_ok c" using c(1) p assms(5) room \<open>0 \<le> pm_consumedProductUnits p\<close>
      by (auto simp: claim_ok_def)
    moreover have "find_usage saleId i st = None"
      unfolding find_usage_mem usage_key_def using assms(4) by auto
    ultimately show ?thesis using c(1) p assms(2) by (auto simp: claim_units_def)
  qed
  have dist: "distinct (map cpc_promotionId ?cs)"
    using demands_distinct by (simp add: claims_of_def comp_def)
  then have "distinct (map cpc_promotionId (sort_key cpc_promotionId ?cs))"
    by (simp add: distinct_map)
  with claims_available [OF assms(1), of "sort_key cpc_promotionId ?cs" saleId now] fits
  have "\<exists>st'. loopR (claim_one now saleId) st (sort_key cpc_promotionId ?cs) = Inr st'" by simp
  moreover have "validateClaims ?cs = Inr ()" using fits dist by (auto simp: validateClaims_ok)
  ultimately show ?thesis by (auto simp: claimForSale_def)
qed

definition engine_store :: usage_store where
  "engine_store = \<lparr>ust_promotions = [pd_promotion], ust_usages = [], ust_near = []\<rparr>"

lemma engine_sample_demands:
  "list_all (\<lambda>d. snd d \<le> 100)
     (per_promotionCapacityDemands (evaluate (\<lambda>_. Monday) sample_input [pd_promotion]))"
  by code_simp

theorem engine_demands_are_claimable_witness:
  "\<exists>st. claimForSale 5 True ''s1'' (claims_of
     (per_promotionCapacityDemands (evaluate (\<lambda>_. Monday) sample_input [pd_promotion])))
     engine_store = Inr st"
proof (rule engine_demands_are_claimable)
  show "usage_ok engine_store"
    by (simp add: usage_ok_def counter_ok_def engine_store_def active_units_def PG_INT_MAX_def
        sample_engine_simps)
  show "\<forall>d\<in>set (per_promotionCapacityDemands (evaluate (\<lambda>_. Monday) sample_input [pd_promotion])).
      \<forall>p\<in>set [pd_promotion]. pm_id p = fst d \<longrightarrow> pm_consumedProductUnits p + snd d \<le> PG_INT_MAX"
    using engine_sample_demands by (auto simp: list_all_iff sample_engine_simps PG_INT_MAX_def)
qed (simp_all add: engine_store_def sample_engine_simps)

end
