(* ===== verification/StockJournal.thy ===== *)
theory StockJournal
  imports StockPlan
begin

text \<open>
  The single writer of stock quantities,
  \<open>src/src/inventory/infrastructure/stock-journal.writer.ts\<close>.  The database is the tenant's
  products with their lots and variants, the journal rows and the instant the
  journal went live; the locks have no counterpart, a call is one transaction.  A
  call that throws leaves no database: the transaction is rolled back.
\<close>

subsection \<open>Rows\<close>

datatype stock_movement_type =
    MovementOpening | MovementInitial | MovementAdjustment | MovementSale
  | MovementSaleCancellation | MovementRemoval

datatype stock_group_type = GroupSale | GroupAdjustment | GroupProduct

record stock_actor =
  sta_id :: "ident option"
  sta_displayName :: string

record stock_context =
  scx_type :: stock_movement_type
  scx_groupType :: stock_group_type
  scx_groupId :: ident
  scx_actor :: stock_actor

record stock_movement =
  smv_id :: ident
  smv_planned :: planned_movement
  smv_type :: stock_movement_type
  smv_groupType :: stock_group_type
  smv_groupId :: ident
  smv_actor :: stock_actor
  smv_createdAt :: timestamp

record stock_db =
  sdb_products :: "product_stock list"
  sdb_movements :: "stock_movement list"
  sdb_activatedAt :: "timestamp option"

text \<open>
  What a call finds outside: the ambient transaction, the clock with its business
  day, fresh row ids, the database's ordering of ids.
\<close>

record journal_env =
  jne_inTransaction :: bool
  jne_now :: timestamp
  jne_today :: int
  jne_uuid :: "nat \<Rightarrow> ident"
  jne_collate :: "string \<Rightarrow> string"

subsection \<open>Plan and persist\<close>

definition requireTx :: "journal_env \<Rightarrow> unit result" where
  "requireTx env =
     throw_if (\<not> jne_inTransaction env)
       (PlainError ''StockJournalWriter must be called inside TenantPrismaService.runInTransaction'')"

definition lockAndPlan :: "journal_env \<Rightarrow> ident list \<Rightarrow> stock_db \<Rightarrow> stock_plan result" where
  "lockAndPlan env productIds db =
     andThen (requireTx env) (\<lambda>_.
       Inr (new_plan (filter (\<lambda>p. pds_id p \<in> set productIds) (sdb_products db)) (jne_today env)))"

definition write_lot :: "stock_plan \<Rightarrow> lot_stock \<Rightarrow> lot_stock" where
  "write_lot plan l =
     (case assoc_get (spl_touchedLots plan) (lts_id l) of
        None \<Rightarrow> l
      | Some q \<Rightarrow> l\<lparr>lts_quantity := q, lts_stockVersion := lts_stockVersion l + 1\<rparr>)"

definition write_variant :: "stock_plan \<Rightarrow> variant_stock \<Rightarrow> variant_stock" where
  "write_variant plan v =
     (case assoc_get (spl_touchedVariants plan) (vrs_id v) of
        None \<Rightarrow> v
      | Some q \<Rightarrow> v\<lparr>vrs_quantity := q, vrs_stockVersion := vrs_stockVersion v + 1\<rparr>)"

definition write_product :: "stock_plan \<Rightarrow> product_stock \<Rightarrow> product_stock" where
  "write_product plan p =
     (case assoc_get (spl_touchedProducts plan) (pds_id p) of
        None \<Rightarrow> p
      | Some (q, bump) \<Rightarrow>
          p\<lparr>pds_quantity := q,
            pds_stockVersion := (if bump then pds_stockVersion p + 1 else pds_stockVersion p)\<rparr>)
     \<lparr>pds_lots := map (write_lot plan) (pds_lots p),
      pds_variants := map (write_variant plan) (pds_variants p)\<rparr>"

definition journal_rows ::
  "journal_env \<Rightarrow> stock_context \<Rightarrow> planned_movement list \<Rightarrow> stock_movement list" where
  "journal_rows env ctx ms =
     map (\<lambda>(index, m).
         \<lparr>smv_id = jne_uuid env index, smv_planned = m, smv_type = scx_type ctx,
          smv_groupType = scx_groupType ctx, smv_groupId = scx_groupId ctx,
          smv_actor = scx_actor ctx,
          smv_createdAt = jne_now env - (int (length ms) - 1 - int index)\<rparr>)
       (enumerate 0 ms)"

definition persist ::
  "journal_env \<Rightarrow> stock_context \<Rightarrow> stock_plan \<Rightarrow> stock_db \<Rightarrow> (stock_movement list \<times> stock_db) result" where
  "persist env ctx plan db =
     andThen (requireTx env) (\<lambda>_.
       let rows = journal_rows env ctx (spl_movements plan)
       in Inr (rows, db\<lparr>sdb_products := map (write_product plan) (sdb_products db),
                        sdb_movements := sdb_movements db @ rows\<rparr>))"

subsection \<open>Apply and charge\<close>

definition journal_apply ::
  "journal_env \<Rightarrow> stock_context \<Rightarrow> stock_change list \<Rightarrow> stock_db
     \<Rightarrow> (stock_movement list \<times> stock_db) result" where
  "journal_apply env ctx changes db =
     andThen (lockAndPlan env (map (bucket_product \<circ> stc_bucket) changes) db) (\<lambda>plan.
     andThen (loopR (\<lambda>s c. apply_change c s) plan changes) (\<lambda>plan'.
       persist env ctx plan' db))"

definition charge_item :: "stock_plan \<Rightarrow> stock_charge_item \<Rightarrow> stock_plan result" where
  "charge_item s item = (case charge item s of (Inl e, s') \<Rightarrow> Inl e | (Inr u, s') \<Rightarrow> Inr s')"

definition sale_context :: "stock_movement_type \<Rightarrow> ident \<Rightarrow> stock_actor \<Rightarrow> stock_context" where
  "sale_context t saleId actor =
     \<lparr>scx_type = t, scx_groupType = GroupSale, scx_groupId = saleId, scx_actor = actor\<rparr>"

definition journal_charge ::
  "journal_env \<Rightarrow> ident \<Rightarrow> stock_actor \<Rightarrow> stock_charge_item list \<Rightarrow> stock_db
     \<Rightarrow> (stock_movement list \<times> stock_db) result" where
  "journal_charge env saleId actor items db =
     andThen (lockAndPlan env (map sci_productId items) db) (\<lambda>plan.
     andThen (loopR charge_item plan items) (\<lambda>plan'.
       persist env (sale_context MovementSale saleId actor) plan' db))"

subsection \<open>Reversal\<close>

datatype reversal_outcome =
    Reversed "stock_movement list" nat
  | NothingToRestore
  | AlreadyReversed

definition in_sale_group :: "ident \<Rightarrow> stock_movement_type \<Rightarrow> stock_movement \<Rightarrow> bool" where
  "in_sale_group saleId t m \<longleftrightarrow>
     smv_groupType m = GroupSale \<and> smv_groupId m = saleId \<and> smv_type m = t"

definition consumed_rows :: "journal_env \<Rightarrow> ident \<Rightarrow> stock_db \<Rightarrow> stock_movement list" where
  "consumed_rows env saleId db =
     sort_key (\<lambda>m. (smv_createdAt m, jne_collate env (smv_id m)))
       (filter (in_sale_group saleId MovementSale) (sdb_movements db))"

definition already_reversed :: "ident \<Rightarrow> stock_db \<Rightarrow> bool" where
  "already_reversed saleId db \<longleftrightarrow>
     (\<exists>m\<in>set (sdb_movements db). in_sale_group saleId MovementSaleCancellation m)"

definition sale_record :: "stock_movement \<Rightarrow> sale_movement_record" where
  "sale_record m =
     \<lparr>smr_bucketKind = plm_bucketKind (smv_planned m), smr_productId = plm_productId (smv_planned m),
      smr_variantId = plm_variantId (smv_planned m), smr_lotId = plm_lotId (smv_planned m),
      smr_delta = plm_delta (smv_planned m)\<rparr>"

definition existing_lots :: "stock_plan \<Rightarrow> sale_movement_record list \<Rightarrow> ident set" where
  "existing_lots plan ms =
     set (List.map_filter (\<lambda>m.
       if truthy (smr_lotId m) \<and> has_bucket (LotBucket (smr_productId m) (the_ident (smr_lotId m))) plan
       then smr_lotId m else None) ms)"

definition reverse_change ::
  "stock_plan \<times> nat \<Rightarrow> stock_change \<Rightarrow> (stock_plan \<times> nat) result" where
  "reverse_change st c =
     (let (plan, skipped) = st in
      if \<not> has_bucket (stc_bucket c) plan then Inr (plan, skipped + 1)
      else mapR (\<lambda>plan'. (plan', skipped)) (apply_change (c\<lparr>stc_skipIfNotStocked := True\<rparr>) plan))"

definition legacy_bucket :: "stock_charge_item \<Rightarrow> stock_bucket" where
  "legacy_bucket l =
     (if truthy (sci_variantId l) then VariantBucket (sci_productId l) (the_ident (sci_variantId l))
      else UntrackedBucket (sci_productId l))"

definition reverse_line ::
  "stock_plan \<times> nat \<Rightarrow> stock_charge_item \<Rightarrow> (stock_plan \<times> nat) result" where
  "reverse_line st l =
     (let (plan, skipped) = st in
      if \<not> has_bucket (legacy_bucket l) plan \<or> \<not> tracksStock (sci_productId l) plan
        then Inr (plan, skipped + 1)
      else mapR (\<lambda>plan'. (plan', skipped))
        (apply_change (plain_change (legacy_bucket l) (sci_quantity l)) plan))"

definition journalActivatedAt :: "stock_db \<Rightarrow> timestamp result" where
  "journalActivatedAt db =
     (case sdb_activatedAt db of
        None \<Rightarrow> Inl (PlainError ''Inventory journal activation marker not found'')
      | Some t \<Rightarrow> Inr t)"

text \<open>The quantities of sale lines are integers.\<close>

fun positive_quantity :: "js_number \<Rightarrow> bool" where
  "positive_quantity (JsInt n) = (0 < n)"
| "positive_quantity _ = False"

definition reverseLegacySale ::
  "journal_env \<Rightarrow> ident \<Rightarrow> stock_actor \<Rightarrow> stock_charge_item list \<Rightarrow> timestamp option \<Rightarrow> stock_db
     \<Rightarrow> (reversal_outcome \<times> stock_db) result" where
  "reverseLegacySale env saleId actor saleLines confirmedAt db =
     (let lines = filter (\<lambda>l. positive_quantity (sci_quantity l)) saleLines in
      case (lines, confirmedAt) of
        (l # ls, Some confirmed) \<Rightarrow>
          andThen (journalActivatedAt db) (\<lambda>activated.
            if activated \<le> confirmed then Inr (NothingToRestore, db)
            else
              andThen (lockAndPlan env (map sci_productId lines) db) (\<lambda>plan.
                if already_reversed saleId db then Inr (AlreadyReversed, db)
                else
                  andThen (loopR reverse_line (plan, 0) lines) (\<lambda>(plan', skipped).
                  andThen (persist env (sale_context MovementSaleCancellation saleId actor) plan' db)
                    (\<lambda>(rows, db'). Inr (Reversed rows skipped, db')))))
      | _ \<Rightarrow> Inr (NothingToRestore, db))"

definition reverseSale ::
  "journal_env \<Rightarrow> ident \<Rightarrow> stock_actor \<Rightarrow> stock_charge_item list \<Rightarrow> timestamp option \<Rightarrow> stock_db
     \<Rightarrow> (reversal_outcome \<times> stock_db) result" where
  "reverseSale env saleId actor saleLines confirmedAt db =
     andThen (requireTx env) (\<lambda>_.
       let consumed = map sale_record (consumed_rows env saleId db) in
       if consumed = [] then reverseLegacySale env saleId actor saleLines confirmedAt db
       else
         andThen (lockAndPlan env (map smr_productId consumed) db) (\<lambda>plan.
           if already_reversed saleId db then Inr (AlreadyReversed, db)
           else
             andThen (loopR reverse_change (plan, 0)
                 (mapSaleReversal consumed (existing_lots plan consumed))) (\<lambda>(plan', skipped).
             andThen (persist env (sale_context MovementSaleCancellation saleId actor) plan' db)
               (\<lambda>(rows, db'). Inr (Reversed rows skipped, db')))))"

end
