(* ===== verification/StockJournalLaws.thy ===== *)
theory StockJournalLaws
  imports StockJournal StockLaws
begin

text \<open>
  The laws of the journal: what a plan decides is what the database holds after it
  was persisted, the journal rows of a call account for every quantity it changed,
  and a reversal gives back what the rows of the sale say it took.
\<close>

subsection \<open>Quantities of the database\<close>

definition product_bucket :: "product_stock \<Rightarrow> stock_bucket \<Rightarrow> int option" where
  "product_bucket p b =
     (case b of
        UntrackedBucket i \<Rightarrow> Some (untracked p)
      | LotBucket i l \<Rightarrow> map_option lts_quantity (find (\<lambda>x. lts_id x = l) (pds_lots p))
      | VariantBucket i v \<Rightarrow> map_option vrs_quantity (find (\<lambda>x. vrs_id x = v) (pds_variants p)))"

definition db_product :: "stock_db \<Rightarrow> ident \<Rightarrow> product_stock option" where
  "db_product db i = find (\<lambda>p. pds_id p = i) (sdb_products db)"

definition db_quantity :: "stock_db \<Rightarrow> stock_bucket \<Rightarrow> int option" where
  "db_quantity db b =
     (case db_product db (bucket_product b) of None \<Rightarrow> None | Some p \<Rightarrow> product_bucket p b)"

definition db_ok :: "stock_db \<Rightarrow> bool" where
  "db_ok db \<longleftrightarrow>
     distinct (map pds_id (sdb_products db)) \<and>
     distinct (concat (map (\<lambda>p. map lts_id (pds_lots p)) (sdb_products db))) \<and>
     distinct (concat (map (\<lambda>p. map vrs_id (pds_variants p)) (sdb_products db))) \<and>
     (\<forall>p\<in>set (sdb_products db). product_ok p \<and> (\<forall>l\<in>set (pds_lots p). lts_id l \<noteq> []) \<and>
        (\<forall>v\<in>set (pds_variants p). vrs_id v \<noteq> []))"

text \<open>The part of a product that quantities depend on.\<close>

definition lot_view :: "lot_stock list \<Rightarrow> (ident \<times> int) list" where
  "lot_view ls = map (\<lambda>l. (lts_id l, lts_quantity l)) ls"

definition variant_view :: "variant_stock list \<Rightarrow> (ident \<times> int) list" where
  "variant_view vs = map (\<lambda>v. (vrs_id v, vrs_quantity v)) vs"

definition same_stock :: "product_stock \<Rightarrow> product_stock \<Rightarrow> bool" where
  "same_stock p q \<longleftrightarrow>
     pds_id p = pds_id q \<and> pds_quantity p = pds_quantity q \<and> pds_useStock p = pds_useStock q \<and>
     pds_hasVariants p = pds_hasVariants q \<and> lot_view (pds_lots p) = lot_view (pds_lots q) \<and>
     variant_view (pds_variants p) = variant_view (pds_variants q)"

lemma lot_view_find:
  "lot_view ls = lot_view ls' \<Longrightarrow>
     map_option lts_quantity (find (\<lambda>x. lts_id x = l) ls) =
     map_option lts_quantity (find (\<lambda>x. lts_id x = l) ls')"
  unfolding lot_view_def
proof (induction ls arbitrary: ls')
  case (Cons a ls)
  then show ?case by (cases ls') auto
qed simp

lemma variant_view_find:
  "variant_view vs = variant_view vs' \<Longrightarrow>
     map_option vrs_quantity (find (\<lambda>x. vrs_id x = v) vs) =
     map_option vrs_quantity (find (\<lambda>x. vrs_id x = v) vs')"
  unfolding variant_view_def
proof (induction vs arbitrary: vs')
  case (Cons a vs)
  then show ?case by (cases vs') auto
qed simp

lemma lot_view_sum: "(\<Sum>l\<leftarrow>ls. lts_quantity l) = (\<Sum>x\<leftarrow>lot_view ls. snd x)"
  by (induction ls) (simp_all add: lot_view_def)

lemma lot_view_all:
  "(\<forall>l\<in>set ls. P (lts_id l) (lts_quantity l)) \<longleftrightarrow> (\<forall>x\<in>set (lot_view ls). P (fst x) (snd x))"
  by (auto simp: lot_view_def)

lemma variant_view_all:
  "(\<forall>v\<in>set vs. P (vrs_id v) (vrs_quantity v)) \<longleftrightarrow> (\<forall>x\<in>set (variant_view vs). P (fst x) (snd x))"
  by (auto simp: variant_view_def)

lemma lot_view_ids: "map lts_id ls = map fst (lot_view ls)"
  and variant_view_ids: "map vrs_id vs = map fst (variant_view vs)"
  by (simp_all add: lot_view_def variant_view_def)

lemma same_stock_bucket: "same_stock p q \<Longrightarrow> product_bucket p b = product_bucket q b"
  using lot_view_find [of "pds_lots p" "pds_lots q"]
    variant_view_find [of "pds_variants p" "pds_variants q"]
  by (cases b) (simp_all add: product_bucket_def same_stock_def untracked_def lot_view_sum)

lemma same_stock_ok: "same_stock p q \<Longrightarrow> product_ok p \<longleftrightarrow> product_ok q"
  using lot_view_all [of "pds_lots p" "\<lambda>i n. 0 \<le> n"] lot_view_all [of "pds_lots q" "\<lambda>i n. 0 \<le> n"]
    variant_view_all [of "pds_variants p" "\<lambda>i n. 0 \<le> n"]
    variant_view_all [of "pds_variants q" "\<lambda>i n. 0 \<le> n"]
  by (simp add: same_stock_def product_ok_def untracked_def lot_view_sum)

lemma bucket_quantity_product:
  "bucket_quantity s b =
     (case assoc_get (spl_products s) (bucket_product b) of None \<Rightarrow> None | Some p \<Rightarrow> product_bucket p b)"
  by (cases b) (simp_all add: bucket_quantity_def product_bucket_def split: option.splits)

subsection \<open>The plan and the rows written from it\<close>

text \<open>The loaded products as the plan has them are the products as it writes them.\<close>

definition synced :: "product_stock list \<Rightarrow> stock_plan \<Rightarrow> bool" where
  "synced ps plan \<longleftrightarrow>
     (\<forall>i. assoc_get (spl_products plan) i = None \<longleftrightarrow> i \<notin> pds_id ` set ps) \<and>
     (\<forall>p\<in>set ps. \<forall>q. assoc_get (spl_products plan) (pds_id p) = Some q \<longrightarrow>
        same_stock q (write_product plan p)) \<and>
     fst ` set (spl_touchedProducts plan) \<subseteq> pds_id ` set ps \<and>
     fst ` set (spl_touchedLots plan) \<subseteq> lts_id ` (\<Union>p\<in>set ps. set (pds_lots p)) \<and>
     fst ` set (spl_touchedVariants plan) \<subseteq> vrs_id ` (\<Union>p\<in>set ps. set (pds_variants p))"

lemma write_lot_view:
  "lot_view (map (write_lot plan) ls) =
     map (\<lambda>l. (lts_id l, case assoc_get (spl_touchedLots plan) (lts_id l) of
       None \<Rightarrow> lts_quantity l | Some q \<Rightarrow> q)) ls"
  by (auto simp: lot_view_def write_lot_def split: option.splits)

lemma write_variant_view:
  "variant_view (map (write_variant plan) vs) =
     map (\<lambda>v. (vrs_id v, case assoc_get (spl_touchedVariants plan) (vrs_id v) of
       None \<Rightarrow> vrs_quantity v | Some q \<Rightarrow> q)) vs"
  by (auto simp: variant_view_def write_variant_def split: option.splits)

lemma write_product_fields [simp]:
  "pds_id (write_product plan p) = pds_id p"
  "pds_useStock (write_product plan p) = pds_useStock p"
  "pds_hasVariants (write_product plan p) = pds_hasVariants p"
  "pds_lots (write_product plan p) = map (write_lot plan) (pds_lots p)"
  "pds_variants (write_product plan p) = map (write_variant plan) (pds_variants p)"
  by (auto simp: write_product_def split: option.splits)

lemma write_product_quantity:
  "pds_quantity (write_product plan p) =
     (case assoc_get (spl_touchedProducts plan) (pds_id p) of
        None \<Rightarrow> pds_quantity p | Some x \<Rightarrow> fst x)"
  by (auto simp: write_product_def split: option.splits)

text \<open>Replacing the entry of a known key, in a view and in the written view alike.\<close>

lemma map_view_update:
  assumes "map (\<lambda>l. (key l, f l)) ls = xs" and "\<forall>l\<in>set ls. f' l = (if key l = k then n else f l)"
  shows "map (\<lambda>l. (key l, f' l)) ls = map (\<lambda>x. (fst x, if fst x = k then n else snd x)) xs"
  using assms by (auto simp: comp_def)

lemma lot_view_update:
  assumes "distinct (map lts_id ls)" and "find (\<lambda>x. lts_id x = l) ls = Some lot"
    and "lts_id lot' = l"
  shows "lot_view (update_first (\<lambda>x. lts_id x = l) (\<lambda>_. lot') ls) =
    map (\<lambda>x. (fst x, if fst x = l then lts_quantity lot' else snd x)) (lot_view ls)"
  using assms
proof (induction ls)
  case (Cons a ls)
  then show ?case
    by (cases "lts_id a = l") (auto simp: lot_view_def image_iff)
qed simp

lemma variant_view_update:
  assumes "distinct (map vrs_id vs)" and "find (\<lambda>x. vrs_id x = v) vs = Some var"
    and "vrs_id var' = v"
  shows "variant_view (update_first (\<lambda>x. vrs_id x = v) (\<lambda>_. var') vs) =
    map (\<lambda>x. (fst x, if fst x = v then vrs_quantity var' else snd x)) (variant_view vs)"
  using assms
proof (induction vs)
  case (Cons a vs)
  then show ?case
    by (cases "vrs_id a = v") (auto simp: variant_view_def image_iff)
qed simp

subsection \<open>What a change does\<close>

text \<open>
  An accepted change either is dropped, or posts its amount to an open bucket and
  records the new quantities among those to write.
\<close>

definition posts_to :: "stock_bucket \<Rightarrow> int \<Rightarrow> stock_plan \<Rightarrow> stock_plan \<Rightarrow> bool" where
  "posts_to b d s s' \<longleftrightarrow> bucket_open s b \<and> d \<noteq> 0 \<and> post_change b d s = Some s'"

lemma versionless: "andThen (checkVersion k i v c) f = Inr s' \<Longrightarrow> f () = Inr s'"
  by (auto simp: result_simps)

lemma plain_version [simp]: "andThen (checkVersion k i v (plain_change b x)) f = f ()"
  by (simp add: checkVersion_def plain_change_def)

lemma plain_fields [simp]:
  "stc_bucket (plain_change b x) = b" "stc_delta (plain_change b x) = x"
  "stc_skipIfNotStocked (plain_change b x) = False"
  by (simp_all add: plain_change_def)

lemma apply_change_integer:
  assumes "apply_change c s = Inr s'"
  obtains d where "stc_delta c = JsInt d" "d \<noteq> 0"
    "case stc_bucket c of
       UntrackedBucket i \<Rightarrow> applyUntracked i d c s = Inr s'
     | LotBucket i l \<Rightarrow> applyLot i l d c s = Inr s'
     | VariantBucket i v \<Rightarrow> applyVariant i v d c s = Inr s'"
  using assms by (auto simp: apply_change_def split: js_number.splits if_splits stock_bucket.splits)

lemma change_untracked:
  assumes "apply_change c s = Inr s'" and "stc_bucket c = UntrackedBucket i" and "s' \<noteq> s"
  obtains d q where "stc_delta c = JsInt d" "posts_to (UntrackedBucket i) d s s'"
    "assoc_get (spl_products s) i = Some q"
    "spl_products s' = assoc_set (spl_products s) i (q\<lparr>pds_quantity := pds_quantity q + d\<rparr>)"
    "spl_touchedProducts s' = assoc_set (spl_touchedProducts s) i (pds_quantity q + d, True)"
    "spl_touchedLots s' = spl_touchedLots s" "spl_touchedVariants s' = spl_touchedVariants s"
proof -
  from assms(1,2) obtain d where d: "stc_delta c = JsInt d" "d \<noteq> 0" "applyUntracked i d c s = Inr s'"
    by (auto elim: apply_change_integer)
  then obtain q where q: "assoc_get (spl_products s) i = Some q" "\<not> pds_hasVariants q" "pds_useStock q"
    using assms(3)
    by (auto simp: applyUntracked_def requireProduct_def result_simps split: option.splits if_splits)
  have "applyUntracked i d (plain_change (UntrackedBucket i) (JsInt d)) s = Inr s'"
    using d(3) q by (auto simp: applyUntracked_def requireProduct_def dest!: versionless)
  then have "posts_to (UntrackedBucket i) d s s'"
    using d(2) q by (simp add: posts_to_def post_change_def apply_change_def bucket_open_def)
  moreover have "\<not> untracked q + d < 0"
    using d(3) q by (auto simp: applyUntracked_def requireProduct_def Let_def dest!: versionless split: if_splits)
  ultimately show thesis
    using d(3) q
    by (intro that [OF d(1) _ q(1)])
      (auto simp: applyUntracked_def requireProduct_def Let_def dest!: versionless)
qed

lemma change_lot:
  assumes "apply_change c s = Inr s'" and "stc_bucket c = LotBucket i l"
  obtains d q lot bump where "stc_delta c = JsInt d" "posts_to (LotBucket i l) d s s'"
    "assoc_get (spl_products s) i = Some q" "find (\<lambda>x. lts_id x = l) (pds_lots q) = Some lot"
    "spl_products s' = assoc_set (spl_products s) i
      (q\<lparr>pds_lots := update_first (\<lambda>x. lts_id x = l)
           (\<lambda>_. lot\<lparr>lts_quantity := lts_quantity lot + d\<rparr>) (pds_lots q),
         pds_quantity := pds_quantity q + d\<rparr>)"
    "spl_touchedProducts s' = assoc_set (spl_touchedProducts s) i (pds_quantity q + d, bump)"
    "spl_touchedLots s' = assoc_set (spl_touchedLots s) l (lts_quantity lot + d)"
    "spl_touchedVariants s' = spl_touchedVariants s"
proof -
  from assms obtain d where d: "stc_delta c = JsInt d" "d \<noteq> 0" "applyLot i l d c s = Inr s'"
    by (auto elim: apply_change_integer)
  then obtain q lot where q: "assoc_get (spl_products s) i = Some q" "\<not> pds_hasVariants q"
      "find (\<lambda>x. lts_id x = l) (pds_lots q) = Some lot"
    by (auto simp: applyLot_def requireProduct_def result_simps split: option.splits if_splits)
  have "applyLot i l d (plain_change (LotBucket i l) (JsInt d)) s = Inr s'"
    using d(3) q
    by (simp add: applyLot_def requireProduct_def split del: if_split) (erule versionless)
  then have "posts_to (LotBucket i l) d s s'"
    using d(2) q by (simp add: posts_to_def post_change_def apply_change_def bucket_open_def)
  moreover have "\<not> lts_quantity lot + d < 0 \<and> \<not> pds_quantity q + d < 0"
    using d(3) q by (auto simp: applyLot_def requireProduct_def result_simps split: if_splits)
  ultimately show thesis
    using d(3) q
    by (elim conjE, intro that [OF d(1) _ q(1,3)])
      (auto simp: applyLot_def requireProduct_def Let_def dest!: versionless)
qed

lemma change_variant:
  assumes "apply_change c s = Inr s'" and "stc_bucket c = VariantBucket i v"
  obtains d q var where "stc_delta c = JsInt d" "posts_to (VariantBucket i v) d s s'"
    "assoc_get (spl_products s) i = Some q" "find (\<lambda>x. vrs_id x = v) (pds_variants q) = Some var"
    "spl_products s' = assoc_set (spl_products s) i
      (q\<lparr>pds_variants := update_first (\<lambda>x. vrs_id x = v)
           (\<lambda>_. var\<lparr>vrs_quantity := vrs_quantity var + d\<rparr>) (pds_variants q)\<rparr>)"
    "spl_touchedProducts s' = spl_touchedProducts s" "spl_touchedLots s' = spl_touchedLots s"
    "spl_touchedVariants s' = assoc_set (spl_touchedVariants s) v (vrs_quantity var + d)"
proof -
  from assms obtain d where d: "stc_delta c = JsInt d" "d \<noteq> 0" "applyVariant i v d c s = Inr s'"
    by (auto elim: apply_change_integer)
  then obtain q var where q: "assoc_get (spl_products s) i = Some q"
      "find (\<lambda>x. vrs_id x = v) (pds_variants q) = Some var"
    by (auto simp: applyVariant_def requireProduct_def result_simps split: option.splits)
  have "applyVariant i v d (plain_change (VariantBucket i v) (JsInt d)) s = Inr s'"
    using d(3) q by (auto simp: applyVariant_def requireProduct_def dest!: versionless)
  then have "posts_to (VariantBucket i v) d s s'"
    using d(2) q by (simp add: posts_to_def post_change_def apply_change_def bucket_open_def)
  moreover have "\<not> vrs_quantity var + d < 0"
    using d(3) q by (auto simp: applyVariant_def requireProduct_def Let_def dest!: versionless split: if_splits)
  ultimately show thesis
    using d(3) q
    by (intro that [OF d(1) _ q])
      (auto simp: applyVariant_def requireProduct_def Let_def dest!: versionless)
qed

lemma change_posts:
  assumes "apply_change c s = Inr s'"
  shows "s' = s \<or> (\<exists>d. stc_delta c = JsInt d \<and> posts_to (stc_bucket c) d s s')"
proof (cases "stc_bucket c")
  case (UntrackedBucket i)
  then show ?thesis using change_untracked [OF assms UntrackedBucket] by metis
next
  case (VariantBucket i v)
  then show ?thesis using change_variant [OF assms VariantBucket] by metis
next
  case (LotBucket i l)
  then show ?thesis using change_lot [OF assms LotBucket] by metis
qed

subsection \<open>The plan stays in step with what it writes\<close>

definition rows_distinct :: "product_stock list \<Rightarrow> bool" where
  "rows_distinct ps \<longleftrightarrow>
     distinct (map pds_id ps) \<and> distinct (concat (map (\<lambda>p. map lts_id (pds_lots p)) ps)) \<and>
     distinct (concat (map (\<lambda>p. map vrs_id (pds_variants p)) ps))"

lemma distinct_rows_part:
  assumes "distinct (concat (map f ps))" and "p \<in> set ps"
  shows "distinct (f p)"
  using assms by (induction ps) auto

lemma distinct_rows_disjoint:
  assumes "distinct (concat (map f ps))" and "distinct ps" and "p \<in> set ps" and "q \<in> set ps"
    and "x \<in> set (f p)" and "x \<in> set (f q)"
  shows "p = q"
  using assms
proof (induction ps)
  case (Cons a ps)
  then show ?case by (auto simp: disjoint_iff)
qed simp

lemma rows_distinct_lots:
  assumes "rows_distinct ps" and "p \<in> set ps" and "q \<in> set ps"
    and "l \<in> lts_id ` set (pds_lots p)" and "l \<in> lts_id ` set (pds_lots q)"
  shows "p = q"
  using assms distinct_rows_disjoint [where f = "\<lambda>p. map lts_id (pds_lots p)" and ps = ps and x = l]
  by (auto simp: rows_distinct_def distinct_map)

lemma rows_distinct_variants:
  assumes "rows_distinct ps" and "p \<in> set ps" and "q \<in> set ps"
    and "v \<in> vrs_id ` set (pds_variants p)" and "v \<in> vrs_id ` set (pds_variants q)"
  shows "p = q"
  using assms distinct_rows_disjoint [where f = "\<lambda>p. map vrs_id (pds_variants p)" and ps = ps and x = v]
  by (auto simp: rows_distinct_def distinct_map)

lemma write_lots_same:
  assumes "\<forall>l\<in>set ls. assoc_get (spl_touchedLots plan') (lts_id l) = assoc_get (spl_touchedLots plan) (lts_id l)"
  shows "lot_view (map (write_lot plan') ls) = lot_view (map (write_lot plan) ls)"
  using assms unfolding write_lot_view by (auto split: option.splits)

lemma write_variants_same:
  assumes "\<forall>v\<in>set vs. assoc_get (spl_touchedVariants plan') (vrs_id v) =
      assoc_get (spl_touchedVariants plan) (vrs_id v)"
  shows "variant_view (map (write_variant plan') vs) = variant_view (map (write_variant plan) vs)"
  using assms unfolding write_variant_view by (auto split: option.splits)

lemma synced_other:
  assumes "same_stock q (write_product plan p)"
    and "assoc_get (spl_touchedProducts plan') (pds_id p) = assoc_get (spl_touchedProducts plan) (pds_id p)"
    and "\<forall>l\<in>set (pds_lots p). assoc_get (spl_touchedLots plan') (lts_id l) =
      assoc_get (spl_touchedLots plan) (lts_id l)"
    and "\<forall>v\<in>set (pds_variants p). assoc_get (spl_touchedVariants plan') (vrs_id v) =
      assoc_get (spl_touchedVariants plan) (vrs_id v)"
  shows "same_stock q (write_product plan' p)"
  using assms write_lots_same [OF assms(3)] write_variants_same [OF assms(4)]
  by (simp add: same_stock_def write_product_quantity)

lemma synced_product:
  assumes "synced ps plan" and "assoc_get (spl_products plan) i = Some q"
  obtains p where "p \<in> set ps" "pds_id p = i" "same_stock q (write_product plan p)"
proof -
  from assms have "i \<in> pds_id ` set ps" unfolding synced_def by (metis option.discI)
  then obtain p where "p \<in> set ps" "pds_id p = i" by auto
  with assms that show thesis by (auto simp: synced_def)
qed

lemma same_stock_lots:
  assumes "same_stock q (write_product plan p)"
  shows "map lts_id (pds_lots q) = map lts_id (pds_lots p)"
    and "map vrs_id (pds_variants q) = map vrs_id (pds_variants p)"
  using assms
  by (simp_all add: same_stock_def lot_view_ids [of "pds_lots q"] variant_view_ids [of "pds_variants q"]
      write_lot_view write_variant_view comp_def)

text \<open>
  One product of the plan replaced, with the rows of no other product touched.
\<close>

lemma synced_replace:
  assumes "rows_distinct ps" and "synced ps plan" and "p0 \<in> set ps" and "pds_id p0 = i"
    and products: "spl_products plan' = assoc_set (spl_products plan) i q'"
    and same: "same_stock q' (write_product plan' p0)"
    and "\<And>j. j \<noteq> i \<Longrightarrow>
      assoc_get (spl_touchedProducts plan') j = assoc_get (spl_touchedProducts plan) j"
    and "\<And>l. l \<notin> lts_id ` set (pds_lots p0) \<Longrightarrow>
      assoc_get (spl_touchedLots plan') l = assoc_get (spl_touchedLots plan) l"
    and "\<And>v. v \<notin> vrs_id ` set (pds_variants p0) \<Longrightarrow>
      assoc_get (spl_touchedVariants plan') v = assoc_get (spl_touchedVariants plan) v"
    and "fst ` set (spl_touchedProducts plan') \<subseteq> insert i (fst ` set (spl_touchedProducts plan))"
    and "fst ` set (spl_touchedLots plan') \<subseteq>
      lts_id ` set (pds_lots p0) \<union> fst ` set (spl_touchedLots plan)"
    and "fst ` set (spl_touchedVariants plan') \<subseteq>
      vrs_id ` set (pds_variants p0) \<union> fst ` set (spl_touchedVariants plan)"
  shows "synced ps plan'"
proof -
  have one: "same_stock q1 (write_product plan' p)"
    if p: "p \<in> set ps" and q1: "assoc_get (spl_products plan') (pds_id p) = Some q1" for p q1
  proof (cases "p = p0")
    case True
    with q1 assms(4) same show ?thesis by (simp add: products)
  next
    case False
    then have ne: "pds_id p \<noteq> i"
      using assms(1,3,4) p by (auto simp: rows_distinct_def distinct_map inj_on_def)
    with q1 have "assoc_get (spl_products plan) (pds_id p) = Some q1" by (simp add: products)
    with assms(2) p have "same_stock q1 (write_product plan p)" by (simp add: synced_def)
    then show ?thesis
    proof (rule synced_other)
      show "assoc_get (spl_touchedProducts plan') (pds_id p) = assoc_get (spl_touchedProducts plan) (pds_id p)"
        using assms(7) [OF ne] .
      show "\<forall>l\<in>set (pds_lots p). assoc_get (spl_touchedLots plan') (lts_id l) =
          assoc_get (spl_touchedLots plan) (lts_id l)"
        using rows_distinct_lots [OF assms(1) p assms(3)] False assms(8) by blast
      show "\<forall>v\<in>set (pds_variants p). assoc_get (spl_touchedVariants plan') (vrs_id v) =
          assoc_get (spl_touchedVariants plan) (vrs_id v)"
        using rows_distinct_variants [OF assms(1) p assms(3)] False assms(9) by blast
    qed
  qed
  have dom: "assoc_get (spl_products plan') j = None \<longleftrightarrow> j \<notin> pds_id ` set ps" for j
    using assms(2-4) by (auto simp: products synced_def)
  have subs: "fst ` set (spl_touchedProducts plan) \<subseteq> pds_id ` set ps"
    "fst ` set (spl_touchedLots plan) \<subseteq> lts_id ` (\<Union>p\<in>set ps. set (pds_lots p))"
    "fst ` set (spl_touchedVariants plan) \<subseteq> vrs_id ` (\<Union>p\<in>set ps. set (pds_variants p))"
    using assms(2) by (simp_all add: synced_def)
  have "i \<in> pds_id ` set ps" using assms(3,4) by force
  with subs(1) have tp: "fst ` set (spl_touchedProducts plan') \<subseteq> pds_id ` set ps"
    by (intro order_trans [OF assms(10)]) simp
  have "lts_id ` set (pds_lots p0) \<subseteq> lts_id ` (\<Union>p\<in>set ps. set (pds_lots p))"
    using assms(3) by (intro image_mono) blast
  with subs(2) have tl: "fst ` set (spl_touchedLots plan') \<subseteq> lts_id ` (\<Union>p\<in>set ps. set (pds_lots p))"
    by (intro order_trans [OF assms(11)]) simp
  have "vrs_id ` set (pds_variants p0) \<subseteq> vrs_id ` (\<Union>p\<in>set ps. set (pds_variants p))"
    using assms(3) by (intro image_mono) blast
  with subs(3) have tv: "fst ` set (spl_touchedVariants plan') \<subseteq> vrs_id ` (\<Union>p\<in>set ps. set (pds_variants p))"
    by (intro order_trans [OF assms(12)]) simp
  from one dom tp tl tv show ?thesis unfolding synced_def by blast
qed

lemma keys_assoc_set_subset: "fst ` set (assoc_set m k v) \<subseteq> insert k (fst ` set m)"
  using keys_assoc_set [of m k v] by (metis list.set_map set_append empty_set list.simps(15)
      insert_is_Un sup_commute order_refl subset_insertI)

lemma same_stock_find_lot:
  assumes "same_stock q (write_product plan p)" and "find (\<lambda>x. lts_id x = l) (pds_lots q) = Some lot"
  shows "l \<in> lts_id ` set (pds_lots p)"
proof -
  have "l \<in> set (map lts_id (pds_lots q))" using find_SomeD [OF assms(2)] by auto
  then show ?thesis unfolding same_stock_lots(1) [OF assms(1)] by simp
qed

lemma same_stock_find_variant:
  assumes "same_stock q (write_product plan p)" and "find (\<lambda>x. vrs_id x = v) (pds_variants q) = Some var"
  shows "v \<in> vrs_id ` set (pds_variants p)"
proof -
  have "v \<in> set (map vrs_id (pds_variants q))" using find_SomeD [OF assms(2)] by auto
  then show ?thesis unfolding same_stock_lots(2) [OF assms(1)] by simp
qed

lemma write_lots_update:
  assumes "\<And>j. assoc_get (spl_touchedLots plan') j = (if j = l then Some n else assoc_get (spl_touchedLots plan) j)"
  shows "lot_view (map (write_lot plan') ls) =
    map (\<lambda>x. (fst x, if fst x = l then n else snd x)) (lot_view (map (write_lot plan) ls))"
  unfolding write_lot_view by (auto simp: assms split: option.splits)

lemma write_variants_update:
  assumes "\<And>j. assoc_get (spl_touchedVariants plan') j =
      (if j = v then Some n else assoc_get (spl_touchedVariants plan) j)"
  shows "variant_view (map (write_variant plan') vs) =
    map (\<lambda>x. (fst x, if fst x = v then n else snd x)) (variant_view (map (write_variant plan) vs))"
  unfolding write_variant_view by (auto simp: assms split: option.splits)

lemma synced_change:
  assumes ps: "rows_distinct ps" and sync: "synced ps plan" and c: "apply_change c plan = Inr plan'"
  shows "synced ps plan'"
proof (cases "plan' = plan")
  case True
  with sync show ?thesis by simp
next
  case False
  show ?thesis
  proof (cases "stc_bucket c")
    case (UntrackedBucket i)
    from change_untracked [OF c this False] obtain d q where
      q: "assoc_get (spl_products plan) i = Some q"
      "spl_products plan' = assoc_set (spl_products plan) i (q\<lparr>pds_quantity := pds_quantity q + d\<rparr>)"
      "spl_touchedProducts plan' = assoc_set (spl_touchedProducts plan) i (pds_quantity q + d, True)"
      "spl_touchedLots plan' = spl_touchedLots plan" "spl_touchedVariants plan' = spl_touchedVariants plan"
      by metis
    from synced_product [OF sync q(1)] obtain p0 where
      p0: "p0 \<in> set ps" "pds_id p0 = i" "same_stock q (write_product plan p0)" .
    have views: "lot_view (map (write_lot plan') (pds_lots p0)) = lot_view (map (write_lot plan) (pds_lots p0))"
      "variant_view (map (write_variant plan') (pds_variants p0)) =
        variant_view (map (write_variant plan) (pds_variants p0))"
      by (rule write_lots_same, simp add: q) (rule write_variants_same, simp add: q)
    have "same_stock (q\<lparr>pds_quantity := pds_quantity q + d\<rparr>) (write_product plan' p0)"
      using p0(2,3) views by (simp add: same_stock_def write_product_quantity q(3))
    from synced_replace [OF ps sync p0(1,2) q(2) this] show ?thesis
      using keys_assoc_set_subset [of "spl_touchedProducts plan" i "(pds_quantity q + d, True)"]
      by (simp add: q(3-5))
  next
    case (LotBucket i l)
    from change_lot [OF c this] obtain d q lot bump where
      q: "assoc_get (spl_products plan) i = Some q" "find (\<lambda>x. lts_id x = l) (pds_lots q) = Some lot"
      "spl_products plan' = assoc_set (spl_products plan) i
        (q\<lparr>pds_lots := update_first (\<lambda>x. lts_id x = l)
             (\<lambda>_. lot\<lparr>lts_quantity := lts_quantity lot + d\<rparr>) (pds_lots q),
           pds_quantity := pds_quantity q + d\<rparr>)"
      "spl_touchedProducts plan' = assoc_set (spl_touchedProducts plan) i (pds_quantity q + d, bump)"
      "spl_touchedLots plan' = assoc_set (spl_touchedLots plan) l (lts_quantity lot + d)"
      "spl_touchedVariants plan' = spl_touchedVariants plan"
      by metis
    from synced_product [OF sync q(1)] obtain p0 where
      p0: "p0 \<in> set ps" "pds_id p0 = i" "same_stock q (write_product plan p0)" .
    have l: "l \<in> lts_id ` set (pds_lots p0)" by (rule same_stock_find_lot [OF p0(3) q(2)])
    have "distinct (map lts_id (pds_lots q))"
      unfolding same_stock_lots(1) [OF p0(3)] using ps p0(1) distinct_rows_part
      by (auto simp: rows_distinct_def)
    then have lv: "lot_view (update_first (\<lambda>x. lts_id x = l)
        (\<lambda>_. lot\<lparr>lts_quantity := lts_quantity lot + d\<rparr>) (pds_lots q)) =
        map (\<lambda>x. (fst x, if fst x = l then lts_quantity lot + d else snd x)) (lot_view (pds_lots q))"
      using lot_view_update [OF _ q(2)] find_SomeD [OF q(2)] by simp
    have wv: "lot_view (map (write_lot plan') (pds_lots p0)) =
        map (\<lambda>x. (fst x, if fst x = l then lts_quantity lot + d else snd x))
          (lot_view (map (write_lot plan) (pds_lots p0)))"
      by (rule write_lots_update) (simp add: q(5))
    have vv: "variant_view (map (write_variant plan') (pds_variants p0)) =
        variant_view (map (write_variant plan) (pds_variants p0))"
      by (rule write_variants_same) (simp add: q)
    have "same_stock (q\<lparr>pds_lots := update_first (\<lambda>x. lts_id x = l)
             (\<lambda>_. lot\<lparr>lts_quantity := lts_quantity lot + d\<rparr>) (pds_lots q),
           pds_quantity := pds_quantity q + d\<rparr>) (write_product plan' p0)"
      using p0(2,3) by (simp add: same_stock_def write_product_quantity q(4) lv wv vv)
    then show ?thesis
    proof (rule synced_replace [OF ps sync p0(1,2) q(3)])
      show "fst ` set (spl_touchedProducts plan') \<subseteq> insert i (fst ` set (spl_touchedProducts plan))"
        unfolding q(4) by (rule keys_assoc_set_subset)
      show "fst ` set (spl_touchedLots plan') \<subseteq>
          lts_id ` set (pds_lots p0) \<union> fst ` set (spl_touchedLots plan)"
        unfolding q(5) using l by (intro order_trans [OF keys_assoc_set_subset]) simp
      show "l' \<notin> lts_id ` set (pds_lots p0) \<Longrightarrow>
          assoc_get (spl_touchedLots plan') l' = assoc_get (spl_touchedLots plan) l'" for l'
        using l by (auto simp: q(5))
    qed (simp_all add: q(4,6))
  next
    case (VariantBucket i v)
    from change_variant [OF c this] obtain d q var where
      q: "assoc_get (spl_products plan) i = Some q" "find (\<lambda>x. vrs_id x = v) (pds_variants q) = Some var"
      "spl_products plan' = assoc_set (spl_products plan) i
        (q\<lparr>pds_variants := update_first (\<lambda>x. vrs_id x = v)
             (\<lambda>_. var\<lparr>vrs_quantity := vrs_quantity var + d\<rparr>) (pds_variants q)\<rparr>)"
      "spl_touchedProducts plan' = spl_touchedProducts plan" "spl_touchedLots plan' = spl_touchedLots plan"
      "spl_touchedVariants plan' = assoc_set (spl_touchedVariants plan) v (vrs_quantity var + d)"
      by metis
    from synced_product [OF sync q(1)] obtain p0 where
      p0: "p0 \<in> set ps" "pds_id p0 = i" "same_stock q (write_product plan p0)" .
    have v: "v \<in> vrs_id ` set (pds_variants p0)" by (rule same_stock_find_variant [OF p0(3) q(2)])
    have "distinct (map vrs_id (pds_variants q))"
      unfolding same_stock_lots(2) [OF p0(3)] using ps p0(1) distinct_rows_part
      by (auto simp: rows_distinct_def)
    then have vv: "variant_view (update_first (\<lambda>x. vrs_id x = v)
        (\<lambda>_. var\<lparr>vrs_quantity := vrs_quantity var + d\<rparr>) (pds_variants q)) =
        map (\<lambda>x. (fst x, if fst x = v then vrs_quantity var + d else snd x)) (variant_view (pds_variants q))"
      using variant_view_update [OF _ q(2)] find_SomeD [OF q(2)] by simp
    have wv: "variant_view (map (write_variant plan') (pds_variants p0)) =
        map (\<lambda>x. (fst x, if fst x = v then vrs_quantity var + d else snd x))
          (variant_view (map (write_variant plan) (pds_variants p0)))"
      by (rule write_variants_update) (simp add: q(6))
    have lv: "lot_view (map (write_lot plan') (pds_lots p0)) = lot_view (map (write_lot plan) (pds_lots p0))"
      by (rule write_lots_same) (simp add: q)
    have "same_stock (q\<lparr>pds_variants := update_first (\<lambda>x. vrs_id x = v)
             (\<lambda>_. var\<lparr>vrs_quantity := vrs_quantity var + d\<rparr>) (pds_variants q)\<rparr>) (write_product plan' p0)"
      using p0(2,3) by (simp add: same_stock_def write_product_quantity q(4) lv wv vv)
    then show ?thesis
    proof (rule synced_replace [OF ps sync p0(1,2) q(3)])
      show "fst ` set (spl_touchedVariants plan') \<subseteq>
          vrs_id ` set (pds_variants p0) \<union> fst ` set (spl_touchedVariants plan)"
        unfolding q(6) using v by (intro order_trans [OF keys_assoc_set_subset]) simp
      show "v' \<notin> vrs_id ` set (pds_variants p0) \<Longrightarrow>
          assoc_get (spl_touchedVariants plan') v' = assoc_get (spl_touchedVariants plan) v'" for v'
        using v by (auto simp: q(6))
    qed (simp_all add: q(4,5) subset_insertI)
  qed
qed

subsection \<open>Plans in the course of a call\<close>

text \<open>
  Where a call started from the loaded products, the plan is in order, in step with
  what it writes, and its movements account for every quantity it changed.
\<close>

definition planned_bucket :: "planned_movement \<Rightarrow> stock_bucket" where
  "planned_bucket m =
     (case plm_bucketKind m of
        KindUntracked \<Rightarrow> UntrackedBucket (plm_productId m)
      | KindLot \<Rightarrow> LotBucket (plm_productId m) (the_ident (plm_lotId m))
      | KindVariant \<Rightarrow> VariantBucket (plm_productId m) (the_ident (plm_variantId m)))"

definition moved :: "stock_bucket \<Rightarrow> planned_movement list \<Rightarrow> int" where
  "moved b ms = (\<Sum>m\<leftarrow>ms. if planned_bucket m = b then plm_delta m else 0)"

lemma moved_simps [simp]:
  "moved b [] = 0"
  "moved b (m # ms) = (if planned_bucket m = b then plm_delta m else 0) + moved b ms"
  "moved b (ms @ ns) = moved b ms + moved b ns"
  by (simp_all add: moved_def)

definition in_course :: "product_stock list \<Rightarrow> stock_plan \<Rightarrow> stock_plan \<Rightarrow> bool" where
  "in_course ps start plan \<longleftrightarrow>
     plan_ok plan \<and> synced ps plan \<and> bucket_open plan = bucket_open start \<and>
     spl_today plan = spl_today start \<and>
     bucket_quantity plan =
       (\<lambda>b. map_option (\<lambda>n. n + moved b (spl_movements plan)) (bucket_quantity start b)) \<and>
     (\<forall>m\<in>set (spl_movements plan).
        plm_delta m \<noteq> 0 \<and> bucket_open start (planned_bucket m) \<and>
        bucket_quantity start (planned_bucket m) \<noteq> None)"

lemma moves_bucket: "moves b d m \<Longrightarrow> planned_bucket m = b \<and> plm_delta m = d"
  by (cases b) (auto simp: planned_bucket_def)

lemma apply_today: "apply_change c s = Inr s' \<Longrightarrow> spl_today s' = spl_today s"
  by (auto simp: apply_change_def applyUntracked_def applyLot_def applyVariant_def Let_def result_simps
      split: js_number.splits if_splits stock_bucket.splits option.splits)

lemma in_course_step:
  assumes "rows_distinct ps" and "in_course ps start s" and c: "apply_change c s = Inr s'"
  shows "in_course ps start s' \<and>
    (s' = s \<or> (\<exists>m d. stc_delta c = JsInt d \<and> moves (stc_bucket c) d m \<and>
       spl_movements s' = spl_movements s @ [m]))"
proof (cases "s' = s")
  case True
  with assms(2) show ?thesis by simp
next
  case False
  with change_posts [OF c] obtain d where
    d: "stc_delta c = JsInt d" "bucket_open s (stc_bucket c)" "d \<noteq> 0" "post_change (stc_bucket c) d s = Some s'"
    by (auto simp: posts_to_def)
  have ok: "plan_ok s" using assms(2) by (simp add: in_course_def)
  from post_change_effect [OF ok d(2,4)] obtain n where
    eff: "plan_ok s'" "bucket_quantity s (stc_bucket c) = Some n"
      "bucket_quantity s' = (bucket_quantity s)(stc_bucket c \<mapsto> n + d)" by auto
  from post_movement [OF ok d(2,4)] obtain m where
    m: "spl_movements s' = spl_movements s @ [m]" "moves (stc_bucket c) d m" by metis
  note mb = moves_bucket [OF m(2)]
  have open_same: "bucket_open s' = bucket_open s" by (rule post_change_open [OF d(4)])
  have start_some: "bucket_quantity start (stc_bucket c) \<noteq> None"
    using eff(2) assms(2) by (auto simp: in_course_def)
  have "bucket_quantity s' b = map_option (\<lambda>n. n + moved b (spl_movements s')) (bucket_quantity start b)" for b
    using assms(2) eff(2) unfolding eff(3) m(1) in_course_def
    by (auto simp: mb option.map_comp comp_def)
  moreover have "synced ps s'"
    using synced_change [OF assms(1) _ c] assms(2) by (simp add: in_course_def)
  moreover have "spl_today s' = spl_today start"
    using apply_today [OF c] assms(2) by (simp add: in_course_def)
  ultimately have "in_course ps start s'"
    using assms(2) eff(1) d(2,3) open_same start_some
    by (auto simp: in_course_def m(1) mb)
  with m d(1) show ?thesis by blast
qed

lemma in_course_loop:
  assumes "rows_distinct ps" and "in_course ps start s"
    and "loopR (\<lambda>s c. apply_change c s) s cs = Inr s'"
  shows "in_course ps start s' \<and>
    (\<exists>ms. spl_movements s' = spl_movements s @ ms \<and>
       (\<forall>m\<in>set ms. \<exists>c\<in>set cs. \<exists>d. stc_delta c = JsInt d \<and> moves (stc_bucket c) d m))"
  using assms(2,3)
proof (induction cs arbitrary: s)
  case (Cons c cs)
  from Cons.prems(2) obtain s1 where
    one: "apply_change c s = Inr s1" and rest: "loopR (\<lambda>s c. apply_change c s) s1 cs = Inr s'"
    by (auto simp: result_simps)
  note step = in_course_step [OF assms(1) Cons.prems(1) one]
  from Cons.IH [OF conjunct1 [OF step] rest] obtain ms where
    ms: "in_course ps start s'" "spl_movements s' = spl_movements s1 @ ms"
      "\<forall>m\<in>set ms. \<exists>c\<in>set cs. \<exists>d. stc_delta c = JsInt d \<and> moves (stc_bucket c) d m" by blast
  from step consider "s1 = s"
    | m d where "stc_delta c = JsInt d" "moves (stc_bucket c) d m" "spl_movements s1 = spl_movements s @ [m]"
    by blast
  then show ?case
  proof cases
    case 1
    with ms show ?thesis by auto
  next
    case 2
    then show ?thesis using ms by (intro conjI exI [of _ "m # ms"]) auto
  qed
qed auto

subsection \<open>From the database to a plan and back\<close>

lemma new_plan_get:
  assumes "distinct (map pds_id ps)"
  shows "assoc_get (spl_products (new_plan ps today)) i = find (\<lambda>p. pds_id p = i) ps"
proof -
  have "assoc_get (foldl (\<lambda>m p. assoc_set m (pds_id p) p) m ps) i =
      (case find (\<lambda>p. pds_id p = i) ps of None \<Rightarrow> assoc_get m i | Some p \<Rightarrow> Some p)" for m
    using assms
  proof (induction ps arbitrary: m)
    case (Cons p ps)
    then have "find (\<lambda>q. pds_id q = i) ps = None" if "pds_id p = i"
      using that unfolding find_eq_None by (auto simp: image_iff)
    with Cons show ?case by (auto split: option.splits)
  qed simp
  from this [of "[]"] show ?thesis by (simp add: new_plan_def split: option.splits)
qed

lemma db_ok_rows: "db_ok db \<Longrightarrow> rows_distinct (sdb_products db)"
  by (simp add: db_ok_def rows_distinct_def)

lemma distinct_concat_filter:
  "distinct (concat (map f ps)) \<Longrightarrow> distinct (concat (map f (filter P ps)))"
  by (induction ps) auto

lemma rows_distinct_filter: "rows_distinct ps \<Longrightarrow> rows_distinct (filter P ps)"
  by (simp add: rows_distinct_def distinct_map_filter distinct_concat_filter)

lemma same_stock_refl [simp]: "same_stock p p"
  by (simp add: same_stock_def)

lemma write_untouched:
  assumes "assoc_get (spl_touchedProducts plan) (pds_id p) = None"
    and "\<forall>l\<in>set (pds_lots p). assoc_get (spl_touchedLots plan) (lts_id l) = None"
    and "\<forall>v\<in>set (pds_variants p). assoc_get (spl_touchedVariants plan) (vrs_id v) = None"
  shows "write_product plan p = p"
proof -
  have "map (write_lot plan) (pds_lots p) = pds_lots p"
    using assms(2) by (intro map_idI) (simp add: write_lot_def)
  moreover have "map (write_variant plan) (pds_variants p) = pds_variants p"
    using assms(3) by (intro map_idI) (simp add: write_variant_def)
  ultimately show ?thesis using assms(1) by (simp add: write_product_def)
qed

lemma find_loaded:
  "find (\<lambda>p. pds_id p = i) (filter (\<lambda>p. pds_id p \<in> S) ps) =
     (if i \<in> S then find (\<lambda>p. pds_id p = i) ps else None)"
  by (induction ps) auto

lemma plan_start:
  assumes "db_ok db" and "lockAndPlan env ids db = Inr plan"
  shows "plan = new_plan (filter (\<lambda>p. pds_id p \<in> set ids) (sdb_products db)) (jne_today env)"
    and "in_course (filter (\<lambda>p. pds_id p \<in> set ids) (sdb_products db)) plan plan"
    and "bucket_quantity plan b = (if bucket_product b \<in> set ids then db_quantity db b else None)"
    and "spl_movements plan = []"
proof -
  let ?ps = "filter (\<lambda>p. pds_id p \<in> set ids) (sdb_products db)"
  show plan: "plan = new_plan ?ps (jne_today env)"
    using assms(2) by (auto simp: lockAndPlan_def result_simps)
  have dist: "distinct (map pds_id ?ps)"
    using assms(1) by (intro distinct_map_filter) (simp add: db_ok_def)
  have get: "assoc_get (spl_products plan) i = find (\<lambda>p. pds_id p = i) ?ps" for i
    unfolding plan by (rule new_plan_get [OF dist])
  have untouched: "write_product plan p = p" for p
    by (rule write_untouched) (simp_all add: plan new_plan_def)
  have ok: "plan_ok plan"
    unfolding plan using assms(1) by (intro new_plan_ok) (simp add: db_ok_def)
  have "find (\<lambda>q. pds_id q = pds_id p) ?ps = Some p" if "p \<in> set ?ps" for p
    by (rule find_by_id [OF dist that]) simp_all
  then have "synced ?ps plan"
    unfolding synced_def get find_eq_None untouched by (auto simp: plan new_plan_def)
  with ok show "in_course ?ps plan plan"
    by (simp add: in_course_def plan new_plan_def option.map_ident)
  show "bucket_quantity plan b = (if bucket_product b \<in> set ids then db_quantity db b else None)"
    by (simp add: bucket_quantity_product get find_loaded db_quantity_def db_product_def)
  show "spl_movements plan = []" by (simp add: plan new_plan_def)
qed

text \<open>The rows of a call account for what it changed.\<close>

definition row_moves :: "stock_bucket \<Rightarrow> stock_movement list \<Rightarrow> int" where
  "row_moves b rows = moved b (map smv_planned rows)"

definition accounted :: "stock_movement list \<Rightarrow> stock_db \<Rightarrow> stock_db \<Rightarrow> bool" where
  "accounted rows db db' \<longleftrightarrow>
     sdb_movements db' = sdb_movements db @ rows \<and> sdb_activatedAt db' = sdb_activatedAt db \<and>
     db_quantity db' = (\<lambda>b. map_option (\<lambda>n. n + row_moves b rows) (db_quantity db b))"

lemma journal_rows_planned: "map smv_planned (journal_rows env ctx ms) = ms"
  by (simp add: journal_rows_def comp_def case_prod_beta)

lemma journal_rows_fields:
  "r \<in> set (journal_rows env ctx ms) \<Longrightarrow>
     smv_type r = scx_type ctx \<and> smv_groupType r = scx_groupType ctx \<and> smv_groupId r = scx_groupId ctx \<and>
     smv_planned r \<in> set ms"
  by (auto simp: journal_rows_def in_set_enumerate_eq)

lemma written_lot_ids: "map lts_id (pds_lots (write_product plan p)) = map lts_id (pds_lots p)"
  by (auto simp: write_lot_def split: option.splits)

lemma written_variant_ids: "map vrs_id (pds_variants (write_product plan p)) = map vrs_id (pds_variants p)"
  by (auto simp: write_variant_def split: option.splits)

lemma persist_keeps_rows:
  "rows_distinct (map (write_product plan) ps) \<longleftrightarrow> rows_distinct ps"
  by (simp add: rows_distinct_def comp_def written_lot_ids written_variant_ids
      del: write_product_fields(4,5))

lemma find_written:
  "find (\<lambda>p. pds_id p = i) (map (write_product plan) ps) =
     map_option (write_product plan) (find (\<lambda>p. pds_id p = i) ps)"
  by (induction ps) auto

lemma synced_in_plan:
  assumes "synced ps plan" and "p \<in> set ps"
  obtains q where "assoc_get (spl_products plan) (pds_id p) = Some q" "same_stock q (write_product plan p)"
proof -
  have "assoc_get (spl_products plan) (pds_id p) \<noteq> None"
    using conjunct1 [OF assms(1) [unfolded synced_def]] assms(2) by simp
  then obtain q where q: "assoc_get (spl_products plan) (pds_id p) = Some q" by blast
  with assms have "same_stock q (write_product plan p)" by (simp add: synced_def)
  with q show thesis by (rule that)
qed

lemma synced_elsewhere:
  assumes dist: "rows_distinct ps" and sync: "synced (filter (\<lambda>p. pds_id p \<in> S) ps) plan"
    and p: "p \<in> set ps" "pds_id p \<notin> S"
  shows "write_product plan p = p"
proof (rule write_untouched)
  let ?ps = "filter (\<lambda>p. pds_id p \<in> S) ps"
  have tp: "fst ` set (spl_touchedProducts plan) \<subseteq> pds_id ` set ?ps"
    and tl: "fst ` set (spl_touchedLots plan) \<subseteq> lts_id ` (\<Union>p\<in>set ?ps. set (pds_lots p))"
    and tv: "fst ` set (spl_touchedVariants plan) \<subseteq> vrs_id ` (\<Union>p\<in>set ?ps. set (pds_variants p))"
    using sync by (simp_all add: synced_def)
  show "assoc_get (spl_touchedProducts plan) (pds_id p) = None"
    unfolding assoc_get_None using tp p(2) by auto
  have "lts_id l \<notin> fst ` set (spl_touchedLots plan)" if l: "l \<in> set (pds_lots p)" for l
  proof
    assume "lts_id l \<in> fst ` set (spl_touchedLots plan)"
    with tl have "lts_id l \<in> lts_id ` (\<Union>p\<in>set ?ps. set (pds_lots p))" by (rule subsetD)
    then obtain q where q: "q \<in> set ?ps" "lts_id l \<in> lts_id ` set (pds_lots q)" by auto
    have "p = q"
      using q l by (intro rows_distinct_lots [OF dist p(1), of q "lts_id l"]) auto
    with q(1) p(2) show False by simp
  qed
  then show "\<forall>l\<in>set (pds_lots p). assoc_get (spl_touchedLots plan) (lts_id l) = None"
    unfolding assoc_get_None by simp
  have "vrs_id v \<notin> fst ` set (spl_touchedVariants plan)" if v: "v \<in> set (pds_variants p)" for v
  proof
    assume "vrs_id v \<in> fst ` set (spl_touchedVariants plan)"
    with tv have "vrs_id v \<in> vrs_id ` (\<Union>p\<in>set ?ps. set (pds_variants p))" by (rule subsetD)
    then obtain q where q: "q \<in> set ?ps" "vrs_id v \<in> vrs_id ` set (pds_variants q)" by auto
    have "p = q"
      using q v by (intro rows_distinct_variants [OF dist p(1), of q "vrs_id v"]) auto
    with q(1) p(2) show False by simp
  qed
  then show "\<forall>v\<in>set (pds_variants p). assoc_get (spl_touchedVariants plan) (vrs_id v) = None"
    unfolding assoc_get_None by simp
qed

lemma persist_quantity:
  assumes "db_ok db" and "lockAndPlan env ids db = Inr start"
    and course: "in_course (filter (\<lambda>p. pds_id p \<in> set ids) (sdb_products db)) start plan"
    and "sdb_products db' = map (write_product plan) (sdb_products db)"
  shows "db_quantity db' b = map_option (\<lambda>n. n + moved b (spl_movements plan)) (db_quantity db b)"
proof -
  let ?ps = "filter (\<lambda>p. pds_id p \<in> set ids) (sdb_products db)"
  note start = plan_start [OF assms(1,2)]
  have sync: "synced ?ps plan" using course by (simp add: in_course_def)
  have q: "bucket_quantity plan b = map_option (\<lambda>n. n + moved b (spl_movements plan)) (bucket_quantity start b)"
    using course by (simp add: in_course_def)
  have prod: "db_product db' i = map_option (write_product plan) (db_product db i)" for i
    unfolding db_product_def assms(4) by (rule find_written)
  show ?thesis
  proof (cases "db_product db (bucket_product b)")
    case None
    then show ?thesis by (simp add: db_quantity_def prod)
  next
    case (Some p)
    then have p: "p \<in> set (sdb_products db)" "pds_id p = bucket_product b"
      unfolding db_product_def by (auto dest: find_SomeD)
    show ?thesis
    proof (cases "bucket_product b \<in> set ids")
      case True
      with p have "p \<in> set ?ps" by simp
      from synced_in_plan [OF sync this] obtain r where
        r: "assoc_get (spl_products plan) (pds_id p) = Some r" "same_stock r (write_product plan p)" .
      have "bucket_quantity plan b = product_bucket (write_product plan p) b"
        using r(1) same_stock_bucket [OF r(2)] by (simp add: bucket_quantity_product flip: p(2))
      then show ?thesis
        using q start(3) [of b] True Some by (simp add: db_quantity_def prod)
    next
      case False
      have none: "planned_bucket m \<noteq> b" if "m \<in> set (spl_movements plan)" for m
      proof
        assume "planned_bucket m = b"
        with that course have "bucket_quantity start b \<noteq> None" by (auto simp: in_course_def)
        with start(3) [of b] False show False by simp
      qed
      then have "moved b (spl_movements plan) = 0"
        by (simp add: moved_def cong: map_cong)
      moreover have "write_product plan p = p"
        using synced_elsewhere [OF db_ok_rows [OF assms(1)] sync p(1)] False p(2) by simp
      ultimately show ?thesis using Some by (simp add: db_quantity_def prod option.map_ident)
    qed
  qed
qed

lemma persist_accounted:
  assumes "db_ok db" and "lockAndPlan env ids db = Inr start"
    and course: "in_course (filter (\<lambda>p. pds_id p \<in> set ids) (sdb_products db)) start plan"
    and "persist env ctx plan db = Inr (rows, db')"
  shows "db_ok db'" and "accounted rows db db'" and "rows = journal_rows env ctx (spl_movements plan)"
proof -
  let ?ps = "filter (\<lambda>p. pds_id p \<in> set ids) (sdb_products db)"
  show rows: "rows = journal_rows env ctx (spl_movements plan)"
    using assms(4) by (auto simp: persist_def result_simps Let_def)
  have db': "sdb_products db' = map (write_product plan) (sdb_products db)"
      "sdb_movements db' = sdb_movements db @ rows" "sdb_activatedAt db' = sdb_activatedAt db"
    using assms(4) by (auto simp: persist_def result_simps Let_def)
  have dist: "rows_distinct (sdb_products db)" by (rule db_ok_rows [OF assms(1)])
  have sync: "synced ?ps plan" and ok: "plan_ok plan" using course by (auto simp: in_course_def)
  have pok: "product_ok (write_product plan p)" if p: "p \<in> set (sdb_products db)" for p
  proof (cases "pds_id p \<in> set ids")
    case True
    with p have "p \<in> set ?ps" by simp
    from synced_in_plan [OF sync this] obtain r where
      r: "assoc_get (spl_products plan) (pds_id p) = Some r" "same_stock r (write_product plan p)" .
    from r(1) ok have "product_ok r" by (auto simp: plan_ok_def)
    with same_stock_ok [OF r(2)] show ?thesis by simp
  next
    case False
    with synced_elsewhere [OF dist sync p] assms(1) p show ?thesis by (simp add: db_ok_def)
  qed
  have "rows_distinct (sdb_products db')" unfolding db'(1) persist_keeps_rows by (rule dist)
  moreover have "(\<forall>l\<in>set (pds_lots (write_product plan p)). lts_id l \<noteq> []) \<and>
      (\<forall>v\<in>set (pds_variants (write_product plan p)). vrs_id v \<noteq> [])"
    if p: "p \<in> set (sdb_products db)" for p
    using assms(1) p by (auto simp: db_ok_def write_lot_def write_variant_def split: option.splits)
  ultimately show "db_ok db'"
    using pok unfolding db_ok_def rows_distinct_def by (simp add: db'(1))
  show "accounted rows db db'"
    using persist_quantity [OF assms(1,2) course db'(1)]
    by (auto simp: accounted_def db' row_moves_def rows journal_rows_planned)
qed

subsection \<open>The calls of the journal\<close>

text \<open>
  A run of changes: what the writer does with the plan between loading and writing.
\<close>

lemma in_course_trans:
  assumes "rows_distinct ps" and "in_course ps start s"
    and "\<forall>x\<in>set xs. \<forall>u u'. f u x = Inr u' \<longrightarrow>
      (\<exists>cs. loopR (\<lambda>s c. apply_change c s) u cs = Inr u' \<and> (\<forall>c\<in>set cs. Q c))"
    and "loopR f s xs = Inr s'"
  shows "in_course ps start s' \<and> (\<exists>ms. spl_movements s' = spl_movements s @ ms \<and>
    (\<forall>m\<in>set ms. \<exists>c d. Q c \<and> stc_delta c = JsInt d \<and> moves (stc_bucket c) d m))"
  using assms(2-4)
proof (induction xs arbitrary: s)
  case (Cons x xs)
  from Cons.prems(3) obtain u where u: "f s x = Inr u" "loopR f u xs = Inr s'"
    by (auto simp: result_simps)
  from Cons.prems(2) u(1) obtain cs where
    cs: "loopR (\<lambda>s c. apply_change c s) s cs = Inr u" "\<forall>c\<in>set cs. Q c"
    by (meson list.set_intros(1))
  have rest: "\<forall>x\<in>set xs. \<forall>u u'. f u x = Inr u' \<longrightarrow>
      (\<exists>cs. loopR (\<lambda>s c. apply_change c s) u cs = Inr u' \<and> (\<forall>c\<in>set cs. Q c))"
    using Cons.prems(2) by simp
  from in_course_loop [OF assms(1) Cons.prems(1) cs(1)] obtain ms where
    ms: "in_course ps start u" "spl_movements u = spl_movements s @ ms"
      "\<forall>m\<in>set ms. \<exists>c\<in>set cs. \<exists>d. stc_delta c = JsInt d \<and> moves (stc_bucket c) d m" by blast
  from Cons.IH [OF ms(1) rest u(2)] obtain ns where
    ns: "in_course ps start s'" "spl_movements s' = spl_movements u @ ns"
      "\<forall>m\<in>set ns. \<exists>c d. Q c \<and> stc_delta c = JsInt d \<and> moves (stc_bucket c) d m" by blast
  have "\<forall>m\<in>set (ms @ ns). \<exists>c d. Q c \<and> stc_delta c = JsInt d \<and> moves (stc_bucket c) d m"
    using ms(3) ns(3) cs(2) unfolding set_append ball_Un by meson
  with ns(1,2) ms(2) show ?case by (intro conjI exI [of _ "ms @ ns"]) simp_all
qed auto

lemma apply_all_loop:
  "apply_all cs s = (Inr u, s') \<longleftrightarrow> loopR (\<lambda>s c. apply_change c s) s cs = Inr s'"
  by (induction cs arbitrary: s) (auto split: sum.splits)

text \<open>The changes of a charge withdraw from named buckets.\<close>

definition withdraws :: "stock_change \<Rightarrow> bool" where
  "withdraws c \<longleftrightarrow> (\<exists>d<0. stc_delta c = JsInt d) \<and> named_bucket (stc_bucket c)"

lemma take_lots_positive:
  "\<forall>l\<in>set ls. 0 < lts_quantity l \<Longrightarrow> 0 \<le> r \<Longrightarrow> take_lots r ls = (as, rest) \<Longrightarrow>
     0 \<le> rest \<and> (\<forall>a\<in>set as. 0 < ffa_quantity a)"
proof (induction ls arbitrary: r as)
  case (Cons l ls)
  show ?case
  proof (cases "r = 0")
    case False
    obtain bs where bs: "take_lots (r - min (lts_quantity l) r) ls = (bs, rest)"
      and as: "as = \<lparr>ffa_lotId = Some (lts_id l), ffa_quantity = min (lts_quantity l) r\<rparr> # bs"
      using Cons.prems(3) False by (auto simp: Let_def split: prod.splits)
    from Cons.IH [OF _ _ bs] Cons.prems(1,2) False as show ?thesis by auto
  qed (use Cons.prems in auto)
qed simp

lemma sellable_positive: "l \<in> set (sellable_lots lots today) \<Longrightarrow> 0 < lts_quantity l"
  by (simp add: sellable_lots_def)

lemma allocateFefo_positive:
  assumes "allocateFefo i q u lots today = Inr as"
  shows "\<forall>a\<in>set as. 0 < ffa_quantity a"
proof -
  from assms obtain n where n: "q = JsInt n" "0 < n"
    by (auto simp: allocateFefo_def split: js_number.splits if_splits)
  obtain bs rest where t: "take_lots n (sellable_lots lots today) = (bs, rest)" by force
  from take_lots_positive [OF _ _ t] n sellable_positive
  have "\<forall>a\<in>set bs. 0 < ffa_quantity a" by force
  with assms n t show ?thesis by (auto simp: allocateFefo_def Let_def split: if_splits)
qed

lemma allocation_withdraws: "0 < ffa_quantity a \<Longrightarrow> withdraws (allocation_change i a)"
  by (cases "ffa_lotId a") (auto simp: withdraws_def allocation_change_def)

lemma charge_item_changes:
  assumes "charge_item s item = Inr s'" and "positive_quantity (sci_quantity item)"
  shows "\<exists>cs. loopR (\<lambda>s c. apply_change c s) s cs = Inr s' \<and> (\<forall>c\<in>set cs. withdraws c)"
proof -
  from assms(2) obtain q where q: "sci_quantity item = JsInt q" "0 < q"
    by (cases "sci_quantity item") auto
  from assms(1) have "\<exists>u. charge item s = (Inr u, s')"
    by (auto simp: charge_item_def split: prod.splits sum.splits)
  then obtain u where c: "charge item s = (Inr u, s')" ..
  show ?thesis
  proof (cases "truthy (sci_variantId item)")
    case True
    then have "withdraws (plain_change (VariantBucket (sci_productId item)
        (the_ident (sci_variantId item))) (js_neg (sci_quantity item)))"
      using q True by (cases "sci_variantId item") (auto simp: withdraws_def)
    moreover have "loopR (\<lambda>s c. apply_change c s) s [plain_change
        (VariantBucket (sci_productId item) (the_ident (sci_variantId item))) (js_neg (sci_quantity item))] = Inr s'"
      using c True by (simp only: charge_def if_True apply_all_loop)
    ultimately show ?thesis by (metis list.set_intros(1) empty_iff empty_set set_ConsD)
  next
    case False
    then obtain p where p: "requireProduct (sci_productId item) ''PRODUCT_UNTRACKED'' s = Inr p"
      using c by (auto simp: charge_def split: sum.splits)
    show ?thesis
    proof (cases "pds_useStock p")
      case False
      then have "loopR (\<lambda>s c. apply_change c s) s [] = Inr s'"
        using c p \<open>\<not> truthy _\<close> by (simp add: charge_def)
      then show ?thesis by (metis empty_iff empty_set)
    next
      case True
      then obtain as where as: "allocateFefo (Some (sci_productId item)) (sci_quantity item) (untracked p)
          (pds_lots p) (spl_today s) = Inr as"
        using c p \<open>\<not> truthy _\<close> by (auto simp: charge_def split: sum.splits)
      then have "apply_all (map (allocation_change (sci_productId item)) as) s = (Inr u, s')"
        using c p \<open>\<not> truthy _\<close> True by (simp add: charge_def)
      then have "loopR (\<lambda>s c. apply_change c s) s (map (allocation_change (sci_productId item)) as) = Inr s'"
        by (simp only: apply_all_loop)
      with allocateFefo_positive [OF as] allocation_withdraws show ?thesis
        by (intro exI [of _ "map (allocation_change (sci_productId item)) as"]) simp
    qed
  qed
qed

text \<open>A row that withdrew from a named bucket.\<close>

definition withdrawal :: "stock_movement \<Rightarrow> bool" where
  "withdrawal m \<longleftrightarrow> (\<exists>b d. moves b d (smv_planned m) \<and> d < 0 \<and> named_bucket b)"

lemma withdrawal_bucket:
  "withdrawal m \<Longrightarrow> moves (planned_bucket (smv_planned m)) (plm_delta (smv_planned m)) (smv_planned m) \<and>
     plm_delta (smv_planned m) < 0 \<and> named_bucket (planned_bucket (smv_planned m))"
  using moves_bucket by (auto simp: withdrawal_def)

text \<open>Which buckets of the database are of the right kind.\<close>

definition db_open :: "stock_db \<Rightarrow> stock_bucket \<Rightarrow> bool" where
  "db_open db b =
     (case db_product db (bucket_product b) of
        None \<Rightarrow> False
      | Some p \<Rightarrow>
          (case b of
             UntrackedBucket i \<Rightarrow> \<not> pds_hasVariants p \<and> pds_useStock p
           | LotBucket i l \<Rightarrow> \<not> pds_hasVariants p
           | VariantBucket i v \<Rightarrow> True))"

lemma plan_open:
  assumes "db_ok db" and "lockAndPlan env ids db = Inr start"
  shows "bucket_open start b \<longleftrightarrow> bucket_product b \<in> set ids \<and> db_open db b"
proof -
  have dist: "distinct (map pds_id (filter (\<lambda>p. pds_id p \<in> set ids) (sdb_products db)))"
    using assms(1) by (intro distinct_map_filter) (simp add: db_ok_def)
  show ?thesis
    unfolding bucket_open_def plan_start(1) [OF assms] new_plan_get [OF dist] find_loaded
    by (simp add: db_open_def db_product_def)
qed

lemma persist_open:
  assumes "sdb_products db' = map (write_product plan) (sdb_products db)"
  shows "db_open db' = db_open db"
  unfolding db_open_def db_product_def assms find_written
  by (intro ext) (auto split: option.splits stock_bucket.splits)

lemma charge_booked:
  assumes ok: "db_ok db" and items: "\<forall>i\<in>set items. positive_quantity (sci_quantity i)"
    and charged: "journal_charge env saleId actor items db = Inr (rows, db')"
  shows "db_ok db' \<and> accounted rows db db' \<and> db_open db' = db_open db \<and>
    (\<forall>m\<in>set rows. in_sale_group saleId MovementSale m \<and> withdrawal m \<and>
       db_open db (planned_bucket (smv_planned m)) \<and> db_quantity db (planned_bucket (smv_planned m)) \<noteq> None)"
proof -
  from charged obtain start plan where
    start: "lockAndPlan env (map sci_productId items) db = Inr start"
    and loop: "loopR charge_item start items = Inr plan"
    and written: "persist env (sale_context MovementSale saleId actor) plan db = Inr (rows, db')"
    by (auto simp: journal_charge_def result_simps)
  let ?ps = "filter (\<lambda>p. pds_id p \<in> set (map sci_productId items)) (sdb_products db)"
  note st = plan_start [OF ok start]
  have dist: "rows_distinct ?ps" by (rule rows_distinct_filter [OF db_ok_rows [OF ok]])
  have "in_course ?ps start plan \<and> (\<exists>ms. spl_movements plan = spl_movements start @ ms \<and>
    (\<forall>m\<in>set ms. \<exists>c d. withdraws c \<and> stc_delta c = JsInt d \<and> moves (stc_bucket c) d m))"
    by (rule in_course_trans [OF dist st(2) _ loop]) (use charge_item_changes items in blast)
  then have course: "in_course ?ps start plan"
    and moves: "\<forall>m\<in>set (spl_movements plan). \<exists>c d. withdraws c \<and> stc_delta c = JsInt d \<and> moves (stc_bucket c) d m"
    using st(4) by auto
  note booked = persist_accounted [OF ok start course written]
  have db': "sdb_products db' = map (write_product plan) (sdb_products db)"
    using written by (auto simp: persist_def result_simps Let_def)
  have "in_sale_group saleId MovementSale m \<and> withdrawal m \<and>
       db_open db (planned_bucket (smv_planned m)) \<and> db_quantity db (planned_bucket (smv_planned m)) \<noteq> None"
    if m: "m \<in> set rows" for m
  proof -
    from m have f: "smv_planned m \<in> set (spl_movements plan)" "in_sale_group saleId MovementSale m"
      unfolding booked(3) by (auto dest!: journal_rows_fields simp: in_sale_group_def sale_context_def)
    from moves f(1) have "withdrawal m" by (fastforce simp: withdrawal_def withdraws_def)
    moreover have "bucket_open start (planned_bucket (smv_planned m))"
      "bucket_quantity start (planned_bucket (smv_planned m)) \<noteq> None"
      using course f(1) by (auto simp: in_course_def)
    ultimately show ?thesis
      using f(2) plan_open [OF ok start] st(3) [of "planned_bucket (smv_planned m)"] by (auto split: if_splits)
  qed
  with booked(1,2) persist_open [OF db'] show ?thesis by blast
qed

lemma apply_booked:
  assumes ok: "db_ok db" and applied: "journal_apply env ctx changes db = Inr (rows, db')"
  shows "db_ok db' \<and> accounted rows db db'"
proof -
  let ?ids = "map (bucket_product \<circ> stc_bucket) changes"
  from applied obtain start plan where
    start: "lockAndPlan env ?ids db = Inr start"
    and loop: "loopR (\<lambda>s c. apply_change c s) start changes = Inr plan"
    and written: "persist env ctx plan db = Inr (rows, db')"
    by (auto simp: journal_apply_def result_simps)
  note st = plan_start [OF ok start]
  have dist: "rows_distinct (filter (\<lambda>p. pds_id p \<in> set ?ids) (sdb_products db))"
    by (rule rows_distinct_filter [OF db_ok_rows [OF ok]])
  from in_course_loop [OF dist st(2) loop] persist_accounted [OF ok start _ written]
  show ?thesis by blast
qed

text \<open>The two loops of a reversal.\<close>

definition keeps_course :: "(stock_plan \<times> nat \<Rightarrow> 'a \<Rightarrow> (stock_plan \<times> nat) result) \<Rightarrow> bool" where
  "keeps_course f \<longleftrightarrow> (\<forall>ps start st x st'. rows_distinct ps \<longrightarrow> in_course ps start (fst st) \<longrightarrow>
     f st x = Inr st' \<longrightarrow> in_course ps start (fst st'))"

lemma reverse_change_course: "keeps_course reverse_change"
  unfolding keeps_course_def
proof (intro allI impI)
  fix ps start st c st'
  assume a: "rows_distinct ps" "in_course ps start (fst st)" "reverse_change st c = Inr st'"
  then show "in_course ps start (fst st')"
    using in_course_step [OF a(1,2)]
    by (auto simp: reverse_change_def result_simps split: prod.splits if_splits)
qed

lemma reverse_line_course: "keeps_course reverse_line"
  unfolding keeps_course_def
proof (intro allI impI)
  fix ps start st l st'
  assume a: "rows_distinct ps" "in_course ps start (fst st)" "reverse_line st l = Inr st'"
  then show "in_course ps start (fst st')"
    using in_course_step [OF a(1,2)]
    by (auto simp: reverse_line_def result_simps split: prod.splits if_splits)
qed

lemma loop_course:
  assumes "keeps_course f" and "rows_distinct ps"
    and "in_course ps start (fst st)" and "loopR f st xs = Inr st'"
  shows "in_course ps start (fst st')"
  using assms(4)
proof (rule loopR_rule [where P = "\<lambda>_ st. in_course ps start (fst st)"])
  show "in_course ps start (fst st)" by (rule assms(3))
  show "in_course ps start (fst v)" if "in_course ps start (fst u)" "f u x = Inr v" for u x v
    using assms(1,2) that unfolding keeps_course_def by blast
qed

lemma reversal_persisted:
  assumes ok: "db_ok db" and start: "lockAndPlan env ids db = Inr start"
    and keeps: "keeps_course f" and loop: "loopR f (start, 0) xs = Inr (plan, k)"
    and written: "persist env ctx plan db = Inr (rows, db')"
  shows "db_ok db' \<and> accounted rows db db' \<and> db_open db' = db_open db \<and>
    rows = journal_rows env ctx (spl_movements plan) \<and>
    in_course (filter (\<lambda>p. pds_id p \<in> set ids) (sdb_products db)) start plan"
proof -
  let ?ps = "filter (\<lambda>p. pds_id p \<in> set ids) (sdb_products db)"
  have dist: "rows_distinct ?ps" by (rule rows_distinct_filter [OF db_ok_rows [OF ok]])
  have "in_course ?ps start start" by (rule plan_start(2) [OF ok start])
  then have course: "in_course ?ps start plan"
    using loop_course [OF keeps dist _ loop] by simp
  have "sdb_products db' = map (write_product plan) (sdb_products db)"
    using written by (auto simp: persist_def result_simps Let_def)
  with persist_accounted [OF ok start course written] course persist_open show ?thesis by blast
qed

text \<open>Whatever a reversal does, its rows account for it.\<close>

lemma accounted_none [simp]: "accounted [] db db"
  by (simp add: accounted_def row_moves_def option.map_ident)

definition outcome_rows :: "reversal_outcome \<Rightarrow> stock_movement list" where
  "outcome_rows out = (case out of Reversed rows skipped \<Rightarrow> rows | _ \<Rightarrow> [])"

lemma reversal_group:
  "r \<in> set (journal_rows env (sale_context t saleId actor) ms) \<Longrightarrow> in_sale_group saleId t r"
  by (auto dest!: journal_rows_fields simp: in_sale_group_def sale_context_def)

lemma reversal_booked:
  assumes ok: "db_ok db"
    and reversed: "reverseSale env saleId actor ls confirmedAt db = Inr (out, db')"
  shows "db_ok db' \<and> accounted (outcome_rows out) db db' \<and>
    (\<forall>m\<in>set (outcome_rows out). in_sale_group saleId MovementSaleCancellation m)"
proof -
  let ?consumed = "map sale_record (consumed_rows env saleId db)"
  have legacy: "db_ok db' \<and> accounted (outcome_rows out) db db' \<and>
      (\<forall>m\<in>set (outcome_rows out). in_sale_group saleId MovementSaleCancellation m)"
    if "reverseLegacySale env saleId actor ls confirmedAt db = Inr (out, db')"
  proof -
    let ?ls = "filter (\<lambda>l. positive_quantity (sci_quantity l)) ls"
    from that consider "db' = db" "outcome_rows out = []"
      | start plan k rows where "lockAndPlan env (map sci_productId ?ls) db = Inr start"
        "loopR reverse_line (start, 0) ?ls = Inr (plan, k)" "out = Reversed rows k"
        "persist env (sale_context MovementSaleCancellation saleId actor) plan db = Inr (rows, db')"
      unfolding reverseLegacySale_def Let_def
      by (fastforce simp: result_simps outcome_rows_def split: list.splits option.splits if_splits)
    then show ?thesis
    proof cases
      case 1
      with ok show ?thesis by simp
    next
      case 2
      from reversal_persisted [OF ok 2(1) reverse_line_course 2(2,4)]
      show ?thesis by (auto simp: outcome_rows_def 2(3) dest: reversal_group)
    qed
  qed
  show ?thesis
  proof (cases "?consumed = []")
    case True
    with reversed legacy show ?thesis by (simp add: reverseSale_def Let_def result_simps)
  next
    case False
    with reversed consider "db' = db" "outcome_rows out = []"
      | start plan k rows where "lockAndPlan env (map smr_productId ?consumed) db = Inr start"
        "loopR reverse_change (start, 0) (mapSaleReversal ?consumed (existing_lots start ?consumed)) =
          Inr (plan, k)" "out = Reversed rows k"
        "persist env (sale_context MovementSaleCancellation saleId actor) plan db = Inr (rows, db')"
      unfolding reverseSale_def Let_def
      by (fastforce simp: result_simps outcome_rows_def split: if_splits)
    then show ?thesis
    proof cases
      case 1
      with ok show ?thesis by simp
    next
      case 2
      from reversal_persisted [OF ok 2(1) reverse_change_course 2(2,4)]
      show ?thesis by (auto simp: outcome_rows_def 2(3) dest: reversal_group)
    qed
  qed
qed

end
