(* ===== verification/StockJournalProps.thy ===== *)
theory StockJournalProps
  imports StockJournalLaws
begin

text \<open>
  Properties of the stock journal: the quantities of the database are at every moment
  its opening quantities plus the movements it recorded, and cancelling a sale gives
  back exactly what charging it took, once.
\<close>

subsection \<open>A reversal that skips nothing\<close>

lemma open_bucket_found:
  "bucket_open s b \<Longrightarrow> bucket_quantity s b = Some n \<Longrightarrow> has_bucket b s"
  by (cases b) (auto simp: bucket_open_def bucket_quantity_def has_bucket_def split: option.splits
      dest: find_SomeD)

lemma apply_change_lenient:
  assumes "bucket_open s b"
  shows "apply_change ((plain_change b x)\<lparr>stc_skipIfNotStocked := True\<rparr>) s = apply_change (plain_change b x) s"
  using assms
  by (cases b) (auto simp: apply_change_def plain_change_def applyUntracked_def applyLot_def applyVariant_def
      requireProduct_def checkVersion_def bucket_open_def Let_def split: option.splits js_number.splits)

lemma reverse_changes_post:
  "plan_ok s \<Longrightarrow> \<forall>p\<in>set ps. bucket_open s (fst p) \<Longrightarrow> stock.post_all ps s = Some s' \<Longrightarrow>
     loopR reverse_change (s, k) (changes_of ps) = Inr (s', k)"
proof (induction ps arbitrary: s)
  case Nil
  then show ?case by (simp add: changes_of_def)
next
  case (Cons p ps)
  obtain b d where p: "p = (b, d)" by force
  with Cons.prems obtain s1 where s1: "post_change b d s = Some s1" "stock.post_all ps s1 = Some s'"
    by (auto split: option.splits)
  have acc: "bucket_open s b" using Cons.prems(2) p by simp
  from post_change_effect [OF Cons.prems(1) acc s1(1)] obtain n where
    eff: "plan_ok s1" "bucket_quantity s b = Some n" by blast
  have "apply_change (plain_change b (JsInt d)) s = Inr s1"
    using s1(1) by (auto simp: post_change_def split: sum.splits)
  then have "reverse_change (s, k) (plain_change b (JsInt d)) = Inr (s1, k)"
    using open_bucket_found [OF acc eff(2)] apply_change_lenient [OF acc] by (simp add: reverse_change_def)
  moreover have "loopR reverse_change (s1, k) (changes_of ps) = Inr (s', k)"
    using Cons.IH [OF eff(1) _ s1(2)] Cons.prems(2) post_change_open [OF s1(1)] by simp
  ultimately show ?case by (simp add: changes_of_def p)
qed

definition reversal_postings :: "stock_movement list \<Rightarrow> (stock_bucket \<times> int) list" where
  "reversal_postings rows =
     map (\<lambda>m. (planned_bucket (smv_planned m), - plm_delta (smv_planned m))) rows"

lemma posted_reversal: "stock.posted (reversal_postings rows) b = - row_moves b rows"
  by (induction rows) (auto simp: reversal_postings_def row_moves_def)

lemma sale_record_movement: "sale_record m = movement_record (smv_planned m)"
  by (simp add: sale_record_def movement_record_def)

lemma reversal_mapped:
  assumes "\<forall>m\<in>set rows. withdrawal m \<and> lots_of_bucket (planned_bucket (smv_planned m)) \<subseteq> L"
  shows "mapSaleReversal (map sale_record rows) L = changes_of (reversal_postings rows)"
  using assms
proof (induction rows)
  case (Cons m rows)
  then have "reversal_change L (sale_record m) =
      Some (plain_change (planned_bucket (smv_planned m)) (JsInt (- plm_delta (smv_planned m))))"
    using withdrawal_bucket [of m] unfolding sale_record_movement by (intro moves_reversal) auto
  with Cons show ?case
    by (simp add: mapSaleReversal_def List.map_filter_simps changes_of_def reversal_postings_def)
qed (simp add: mapSaleReversal_def changes_of_def reversal_postings_def List.map_filter_simps)

lemma lots_exist:
  assumes "m \<in> set rows" and "withdrawal m" and "bucket_open plan (planned_bucket (smv_planned m))"
    and "bucket_quantity plan (planned_bucket (smv_planned m)) = Some n"
  shows "lots_of_bucket (planned_bucket (smv_planned m)) \<subseteq> existing_lots plan (map sale_record rows)"
proof (cases "planned_bucket (smv_planned m)")
  case (LotBucket i l)
  with withdrawal_bucket [OF assms(2)] have f: "plm_lotId (smv_planned m) = Some l" "l \<noteq> []"
      "plm_productId (smv_planned m) = i" by auto
  have "has_bucket (LotBucket i l) plan" using open_bucket_found [OF assms(3,4)] LotBucket by simp
  with f assms(1) LotBucket show ?thesis
    by (auto simp: existing_lots_def map_filter_def image_iff sale_record_def intro!: bexI [of _ m])
qed simp_all

text \<open>The rows a sale took, each of whose buckets is still there.\<close>

definition reversible :: "stock_db \<Rightarrow> stock_movement list \<Rightarrow> bool" where
  "reversible db rows \<longleftrightarrow>
     (\<forall>m\<in>set rows. withdrawal m \<and> db_open db (planned_bucket (smv_planned m)) \<and>
        db_quantity db (planned_bucket (smv_planned m)) \<noteq> None)"

lemma consumed_rows_set:
  "set (consumed_rows env saleId db) = set (filter (in_sale_group saleId MovementSale) (sdb_movements db))"
  by (simp add: consumed_rows_def)

lemma row_moves_mset: "mset rows = mset rows' \<Longrightarrow> row_moves b rows = row_moves b rows'"
proof -
  assume perm: "mset rows = mset rows'"
  let ?f = "\<lambda>m. if planned_bucket (smv_planned m) = b then plm_delta (smv_planned m) else 0"
  have sum: "row_moves b rs = sum_mset (image_mset ?f (mset rs))" for rs
    by (simp add: row_moves_def moved_def comp_def flip: sum_mset_sum_list)
  show ?thesis unfolding sum perm ..
qed

lemma row_moves_neg:
  assumes "\<forall>m\<in>set rows. withdrawal m" and "m \<in> set rows" and "planned_bucket (smv_planned m) = b"
  shows "row_moves b rows < 0"
proof -
  have le: "row_moves b ms \<le> 0" if "\<forall>m\<in>set ms. withdrawal m" for ms
    using that withdrawal_bucket by (induction ms) (force simp: row_moves_def)+
  from assms show ?thesis
  proof (induction rows)
    case (Cons a rows)
    have "plm_delta (smv_planned a) < 0" using Cons.prems(1) withdrawal_bucket by simp
    moreover have "row_moves b rows \<le> 0" using Cons.prems(1) by (intro le) simp
    moreover have "row_moves b (a # rows) =
        (if planned_bucket (smv_planned a) = b then plm_delta (smv_planned a) else 0) + row_moves b rows"
      by (simp add: row_moves_def)
    ultimately show ?case using Cons by (auto split: if_splits)
  qed simp
qed

lemma reversal_succeeds:
  assumes ok: "db_ok db" and tx: "jne_inTransaction env"
    and fresh: "\<not> already_reversed saleId db"
    and took: "filter (in_sale_group saleId MovementSale) (sdb_movements db) = taken" "taken \<noteq> []"
    and rev: "reversible db taken"
  obtains rows db' where "reverseSale env saleId actor ls confirmedAt db = Inr (Reversed rows 0, db')"
    "db_ok db'" "accounted rows db db'" "rows \<noteq> []"
    "\<forall>m\<in>set rows. in_sale_group saleId MovementSaleCancellation m"
    "db_quantity db' = (\<lambda>b. map_option (\<lambda>n. n - row_moves b taken) (db_quantity db b))"
proof -
  let ?rows = "consumed_rows env saleId db"
  let ?ids = "map smr_productId (map sale_record ?rows)"
  let ?ps = "reversal_postings ?rows"
  have mset: "mset ?rows = mset taken" by (simp add: consumed_rows_def flip: took(1))
  then have setr: "set ?rows = set taken" by (metis set_mset_mset)
  have ne: "?rows \<noteq> []" using took(2) setr by (metis set_empty)
  obtain start where start: "lockAndPlan env ?ids db = Inr start"
    using tx by (simp add: lockAndPlan_def requireTx_def)
  note st = plan_start [OF ok start]
  have planok: "plan_ok start" using st(2) by (simp add: in_course_def)
  have row: "withdrawal m \<and> bucket_open start (planned_bucket (smv_planned m)) \<and>
      (\<exists>n. bucket_quantity start (planned_bucket (smv_planned m)) = Some n) \<and> plm_delta (smv_planned m) < 0"
    if m: "m \<in> set ?rows" for m
  proof -
    from m rev setr have r: "withdrawal m" "db_open db (planned_bucket (smv_planned m))"
      "db_quantity db (planned_bucket (smv_planned m)) \<noteq> None" by (auto simp: reversible_def)
    have "bucket_product (planned_bucket (smv_planned m)) = plm_productId (smv_planned m)"
      by (auto simp: planned_bucket_def split: bucket_kind.splits)
    then have "bucket_product (planned_bucket (smv_planned m)) \<in> set ?ids"
      using m by (auto simp: sale_record_def image_iff)
    with r plan_open [OF ok start] st(3) [of "planned_bucket (smv_planned m)"] withdrawal_bucket [OF r(1)]
    show ?thesis by auto
  qed
  have mapped: "mapSaleReversal (map sale_record ?rows) (existing_lots start (map sale_record ?rows)) =
      changes_of ?ps"
    using row lots_exist by (intro reversal_mapped) blast
  have post: "\<forall>p\<in>set ?ps. bucket_open start (fst p) \<and> snd p \<noteq> 0"
    "\<forall>p\<in>set ?ps. \<exists>n. bucket_quantity start (fst p) = Some n" "\<forall>p\<in>set ?ps. 0 < snd p"
    using row by (fastforce simp: reversal_postings_def)+
  have up: "0 \<le> stock.posted qs b" if "set qs \<subseteq> set ?ps" for qs b
    using that post(3) by (induction qs) auto
  have "\<exists>s'. stock.post_all ?ps start = Some s'"
  proof (rule stock.post_all_accepted [OF planok post(1,2)])
    show "0 \<le> n + stock.posted qs b" if "?ps = qs @ rs" "bucket_quantity start b = Some n" for qs rs b n
      using that(1) up [of qs b] bucket_nonneg [OF planok that(2)] by simp
  qed
  then obtain plan where plan: "stock.post_all ?ps start = Some plan" ..
  have loop: "loopR reverse_change (start, 0) (changes_of ?ps) = Inr (plan, 0)"
    by (rule reverse_changes_post [OF planok _ plan]) (use post(1) in blast)
  obtain rows db' where written:
      "persist env (sale_context MovementSaleCancellation saleId actor) plan db = Inr (rows, db')"
    using tx by (simp add: persist_def requireTx_def Let_def)
  have res: "reverseSale env saleId actor ls confirmedAt db = Inr (Reversed rows 0, db')"
    using tx ne start fresh loop written
    by (simp add: reverseSale_def requireTx_def mapped)
  note booked = reversal_persisted [OF ok start reverse_change_course loop written]
  have moved: "moved b (spl_movements plan) = - row_moves b taken" if q: "db_quantity db b \<noteq> None"
      "bucket_product b \<in> set ?ids" for b
  proof -
    from q st(3) [of b] obtain n where n: "bucket_quantity start b = Some n" by auto
    have "bucket_quantity plan b = Some (n + moved b (spl_movements plan))"
      using booked n by (simp add: in_course_def)
    moreover have "bucket_quantity plan b = Some (n + stock.posted ?ps b)"
      using stock.post_all_qty [OF planok _ plan] post(1) n by simp
    ultimately show ?thesis using posted_reversal row_moves_mset [OF mset] by simp
  qed
  have elsewhere: "moved b (spl_movements plan) = - row_moves b taken" if out: "bucket_product b \<notin> set ?ids" for b
  proof -
    have "planned_bucket m \<noteq> b" if "m \<in> set (spl_movements plan)" for m
      using that out booked plan_open [OF ok start] by (auto simp: in_course_def)
    then have "moved b (spl_movements plan) = 0" by (simp add: moved_def cong: map_cong)
    moreover have "planned_bucket (smv_planned m) \<noteq> b" if "m \<in> set taken" for m
      using that out row plan_open [OF ok start] setr by blast
    then have "row_moves b taken = 0" by (simp add: row_moves_def moved_def comp_def cong: map_cong)
    ultimately show ?thesis by simp
  qed
  have rows: "row_moves b rows = moved b (spl_movements plan)" for b
    using booked by (simp add: row_moves_def journal_rows_planned)
  have qty: "db_quantity db' b = map_option (\<lambda>n. n - row_moves b taken) (db_quantity db b)" for b
  proof -
    have acc: "db_quantity db' b = map_option (\<lambda>n. n + moved b (spl_movements plan)) (db_quantity db b)"
      using booked by (simp add: accounted_def rows)
    show ?thesis
    proof (cases "bucket_product b \<in> set ?ids")
      case True
      with acc moved [of b] show ?thesis by (cases "db_quantity db b") simp_all
    next
      case False
      with acc elsewhere [of b] show ?thesis by simp
    qed
  qed
  obtain m where m: "m \<in> set taken" using took(2) by (cases taken) auto
  let ?b = "planned_bucket (smv_planned m)"
  from m rev have some: "db_quantity db ?b \<noteq> None" by (simp add: reversible_def)
  have "row_moves ?b taken < 0" using rev m by (intro row_moves_neg) (auto simp: reversible_def)
  then have "moved ?b (spl_movements plan) \<noteq> 0"
    using moved [OF some] elsewhere [of ?b] by (cases "bucket_product ?b \<in> set ?ids") auto
  then have "rows \<noteq> []" using rows [of ?b] by (auto simp: row_moves_def)
  moreover have "\<forall>m\<in>set rows. in_sale_group saleId MovementSaleCancellation m"
    using booked by (auto dest: reversal_group)
  ultimately show thesis
    using qty booked by (intro that [OF res]) (auto intro: ext)
qed

subsection \<open>The life of the stock of a tenant\<close>

text \<open>One committed call of the journal, with whatever environment and arguments.\<close>

inductive journal_call :: "stock_db \<Rightarrow> stock_db \<Rightarrow> bool" where
  called_apply: "journal_apply env ctx changes db = Inr (rows, db') \<Longrightarrow> journal_call db db'"
| called_charge: "\<forall>i\<in>set items. positive_quantity (sci_quantity i) \<Longrightarrow>
    journal_charge env saleId actor items db = Inr (rows, db') \<Longrightarrow> journal_call db db'"
| called_reverse: "reverseSale env saleId actor ls confirmedAt db = Inr (out, db') \<Longrightarrow> journal_call db db'"

lemma journal_call_booked:
  "journal_call db db' \<Longrightarrow> db_ok db \<Longrightarrow> db_ok db' \<and> (\<exists>rows. accounted rows db db')"
proof (induction rule: journal_call.induct)
  case called_apply
  then show ?case using apply_booked by blast
next
  case called_charge
  then show ?case using charge_booked by blast
next
  case (called_reverse env saleId actor ls confirmedAt db out db')
  from reversal_booked [OF called_reverse.prems called_reverse.hyps] show ?case by blast
qed

lemma row_moves_append: "row_moves b (rows @ rows') = row_moves b rows + row_moves b rows'"
  by (simp add: row_moves_def)

definition ledger_balanced :: "stock_db \<Rightarrow> stock_db \<Rightarrow> bool" where
  "ledger_balanced db0 db \<longleftrightarrow>
     (\<exists>rows. sdb_movements db = sdb_movements db0 @ rows \<and>
        (\<forall>b. db_quantity db b = map_option (\<lambda>n. n + row_moves b rows) (db_quantity db0 b) \<and>
             (\<forall>n. db_quantity db b = Some n \<longrightarrow> 0 \<le> n)))"

lemma db_quantity_nonneg:
  assumes "db_ok db" and "db_quantity db b = Some n"
  shows "0 \<le> n"
proof -
  from assms(2) obtain p where p: "db_product db (bucket_product b) = Some p" "product_bucket p b = Some n"
    by (auto simp: db_quantity_def split: option.splits)
  then have "product_ok p" using assms(1) by (auto simp: db_product_def db_ok_def dest: find_SomeD)
  with p(2) show ?thesis
    by (auto simp: product_bucket_def product_ok_def split: stock_bucket.splits dest!: find_SomeD)
qed

text \<open>
  Property C23: the ledger of a tenant's stock always balances.  Whatever sequence of
  adjustments, charges and reversals was committed, each bucket of the database holds
  its opening quantity plus the deltas of the journal rows appended since, no bucket
  is below zero, and no row was lost or rewritten.
\<close>

theorem stock_ledger_balances:
  assumes "db_ok db0" and "journal_call\<^sup>*\<^sup>* db0 db"
  shows "db_ok db \<and> ledger_balanced db0 db"
  using assms(2)
proof (induction rule: rtranclp_induct)
  case base
  show ?case
    using assms(1) db_quantity_nonneg [OF assms(1)]
    by (simp add: ledger_balanced_def row_moves_def option.map_ident)
next
  case (step db db')
  from step.IH obtain rows where
    rows: "sdb_movements db = sdb_movements db0 @ rows"
      "\<And>b. db_quantity db b = map_option (\<lambda>n. n + row_moves b rows) (db_quantity db0 b)"
    by (auto simp: ledger_balanced_def)
  from journal_call_booked [OF step.hyps(2)] step.IH obtain new where
    new: "db_ok db'" "accounted new db db'" by blast
  then have "sdb_movements db' = sdb_movements db0 @ (rows @ new)"
    "\<And>b. db_quantity db' b = map_option (\<lambda>n. n + row_moves b (rows @ new)) (db_quantity db0 b)"
    using rows by (simp_all add: accounted_def row_moves_append option.map_comp comp_def add.assoc)
  then show ?case using new(1) db_quantity_nonneg [OF new(1)] unfolding ledger_balanced_def by blast
qed

text \<open>A tenant with one product in two lots, and a sale of eight of its nine units.\<close>

definition shelf_db :: stock_db where
  "shelf_db = \<lparr>sdb_products = [sample_product], sdb_movements = [], sdb_activatedAt = Some 0\<rparr>"

definition shelf_env :: "nat \<Rightarrow> journal_env" where
  "shelf_env t = \<lparr>jne_inTransaction = True, jne_now = int t, jne_today = 1,
     jne_uuid = (\<lambda>i. replicate (t + i) (CHR ''r'')), jne_collate = id\<rparr>"

definition bot_actor :: stock_actor where
  "bot_actor = \<lparr>sta_id = None, sta_displayName = ''Bot''\<rparr>"

definition sold_db :: stock_db where
  "sold_db = (case journal_charge (shelf_env 5) ''s'' bot_actor [sold_item ''p'' 8] shelf_db of
     Inr (rows, db) \<Rightarrow> db | Inl e \<Rightarrow> shelf_db)"

lemmas shelf_simps = shelf_db_def shelf_env_def bot_actor_def sample_stock_simps sold_item_def

lemma shelf_ok: "db_ok shelf_db"
  by (simp add: db_ok_def shelf_simps product_ok_def untracked_def)

lemma shelf_sold:
  "\<exists>rows. journal_charge (shelf_env 5) ''s'' bot_actor [sold_item ''p'' 8] shelf_db = Inr (rows, sold_db) \<and>
     rows \<noteq> []"
proof -
  have "(case journal_charge (shelf_env 5) ''s'' bot_actor [sold_item ''p'' 8] shelf_db of
     Inr (rows, db) \<Rightarrow> rows \<noteq> [] | Inl e \<Rightarrow> False)" by code_simp
  then show ?thesis
    by (cases "journal_charge (shelf_env 5) ''s'' bot_actor [sold_item ''p'' 8] shelf_db")
      (auto simp: sold_db_def split: prod.splits)
qed

theorem stock_ledger_balances_witness: "ledger_balanced shelf_db sold_db"
proof -
  obtain rows where
    "journal_charge (shelf_env 5) ''s'' bot_actor [sold_item ''p'' 8] shelf_db = Inr (rows, sold_db)"
    using shelf_sold by blast
  then have "journal_call shelf_db sold_db"
    by (intro called_charge) (simp_all add: sold_item_def)
  with stock_ledger_balances [OF shelf_ok] show ?thesis by blast
qed

text \<open>
  Property C24: cancelling a sale gives back exactly what charging it took, once.
  When the charge of a sale took anything, reversing the sale, with other calls of
  the journal in between that leave the sale's own rows alone and its buckets in
  place, is accepted and skips nothing, adds to each bucket what the charge took
  from it, and a second reversal finds it done and changes nothing.
\<close>

theorem charge_then_reverse:
  assumes "db_ok db0" and "\<forall>i\<in>set items. positive_quantity (sci_quantity i)"
    and "journal_charge env saleId actor items db0 = Inr (took, db1)" and "took \<noteq> []"
    and "db_ok db"
    and "filter (\<lambda>m. in_sale_group saleId MovementSale m \<or> in_sale_group saleId MovementSaleCancellation m)
      (sdb_movements db) = took"
    and "\<forall>m\<in>set took. db_open db (planned_bucket (smv_planned m)) \<and>
      db_quantity db (planned_bucket (smv_planned m)) \<noteq> None"
    and "jne_inTransaction env'"
  shows "\<exists>given db'. reverseSale env' saleId actor' ls confirmedAt db = Inr (Reversed given 0, db') \<and>
    db_ok db' \<and>
    db_quantity db' = (\<lambda>b. map_option (\<lambda>n. n - row_moves b took) (db_quantity db b)) \<and>
    (\<forall>env''. jne_inTransaction env'' \<longrightarrow>
       reverseSale env'' saleId actor' ls confirmedAt db' = Inr (AlreadyReversed, db'))"
proof -
  have took: "\<forall>m\<in>set took. in_sale_group saleId MovementSale m \<and> withdrawal m"
    using charge_booked [OF assms(1-3)] by blast
  have sale: "filter (in_sale_group saleId MovementSale) (sdb_movements db) = took"
  proof -
    have "filter (in_sale_group saleId MovementSale) (sdb_movements db) =
        filter (in_sale_group saleId MovementSale) took"
      unfolding assms(6) [symmetric] filter_filter by (rule filter_cong) auto
    also have "\<dots> = took" using took by (simp add: filter_id_conv)
    finally show ?thesis .
  qed
  have fresh: "\<not> already_reversed saleId db"
  proof
    assume "already_reversed saleId db"
    then obtain m where m: "m \<in> set (sdb_movements db)" "in_sale_group saleId MovementSaleCancellation m"
      by (auto simp: already_reversed_def)
    then have "m \<in> set took" unfolding assms(6) [symmetric] by simp
    with took m(2) show False by (auto simp: in_sale_group_def)
  qed
  have "reversible db took" using took assms(7) by (simp add: reversible_def)
  from reversal_succeeds [OF assms(5,8) fresh sale assms(4) this] obtain given db' where
    r: "reverseSale env' saleId actor' ls confirmedAt db = Inr (Reversed given 0, db')"
      "db_ok db'" "accounted given db db'" "given \<noteq> []"
      "\<forall>m\<in>set given. in_sale_group saleId MovementSaleCancellation m"
      "db_quantity db' = (\<lambda>b. map_option (\<lambda>n. n - row_moves b took) (db_quantity db b))" .
  have rows: "sdb_movements db' = sdb_movements db @ given" using r(3) by (simp add: accounted_def)
  have "already_reversed saleId db'"
    using r(4,5) by (cases given) (auto simp: already_reversed_def rows)
  moreover have "consumed_rows e saleId db' \<noteq> []" for e
  proof -
    obtain m where "m \<in> set took" using assms(4) by (cases took) auto
    then have "m \<in> set (consumed_rows e saleId db')"
      unfolding consumed_rows_set rows by (simp flip: sale)
    then show ?thesis by auto
  qed
  ultimately have "reverseSale e saleId actor' ls confirmedAt db' = Inr (AlreadyReversed, db')"
    if "jne_inTransaction e" for e
    using that by (simp add: reverseSale_def requireTx_def lockAndPlan_def)
  with r(1,2,6) show ?thesis by blast
qed

theorem charge_then_reverse_witness:
  "\<exists>given db'. reverseSale (shelf_env 9) ''s'' bot_actor [] None sold_db = Inr (Reversed given 0, db') \<and>
     db_quantity db' = db_quantity shelf_db"
proof -
  obtain took where took:
    "journal_charge (shelf_env 5) ''s'' bot_actor [sold_item ''p'' 8] shelf_db = Inr (took, sold_db)" "took \<noteq> []"
    using shelf_sold by blast
  have pos: "\<forall>i\<in>set [sold_item ''p'' 8]. positive_quantity (sci_quantity i)"
    by (simp add: sold_item_def)
  from charge_booked [OF shelf_ok pos took(1)] have booked: "db_ok sold_db" "accounted took shelf_db sold_db"
      "db_open sold_db = db_open shelf_db"
      "\<forall>m\<in>set took. in_sale_group ''s'' MovementSale m \<and> withdrawal m \<and>
        db_open shelf_db (planned_bucket (smv_planned m)) \<and>
        db_quantity shelf_db (planned_bucket (smv_planned m)) \<noteq> None" by blast+
  have "sdb_movements sold_db = took" using booked(2) by (simp add: accounted_def shelf_db_def)
  then have only: "filter (\<lambda>m. in_sale_group ''s'' MovementSale m \<or>
      in_sale_group ''s'' MovementSaleCancellation m) (sdb_movements sold_db) = took"
    using booked(4) by (simp add: filter_id_conv)
  have there: "\<forall>m\<in>set took. db_open sold_db (planned_bucket (smv_planned m)) \<and>
      db_quantity sold_db (planned_bucket (smv_planned m)) \<noteq> None"
    using booked by (auto simp: accounted_def)
  have tx: "jne_inTransaction (shelf_env 9)" by (simp add: shelf_env_def)
  from charge_then_reverse [OF shelf_ok pos took booked(1) only there tx] obtain given db' where
    "reverseSale (shelf_env 9) ''s'' bot_actor [] None sold_db = Inr (Reversed given 0, db')"
    "db_quantity db' = (\<lambda>b. map_option (\<lambda>n. n - row_moves b took) (db_quantity sold_db b))" by metis
  with booked(2) show ?thesis
    by (intro exI conjI) (assumption, simp add: accounted_def option.map_comp comp_def option.map_ident)
qed

end
