(* ===== verification/PriceCatalog.thy ===== *)
theory PriceCatalog
  imports StockPlan
begin

section \<open>Catalogue prices\<close>

text \<open>
  The reads of \<open>src/src/products/products.service.ts\<close> that a sale rests on: the
  prices of the lists with their quantity tiers, one by one and in a batch, the
  information a new line freezes, the availability check, the resolution of list
  ids and of categories and brands.  The catalogue is the tenant's rows, in the
  order a query without \<open>orderBy\<close> returns them; a Prisma \<open>findMany\<close> is a filter
  of the rows, a \<open>Map\<close> an association list.
\<close>

subsection \<open>Rows\<close>

record tier_price =
  tpr_minQuantity :: int
  tpr_priceCents :: cents

record global_price_list =
  gpl_id :: ident
  gpl_name :: string
  gpl_isDefault :: bool

record price_list_row =
  plr_id :: ident
  plr_productId :: ident
  plr_globalPriceListId :: ident
  plr_priceCents :: cents
  plr_tierPrices :: "tier_price list"

record variant_price_row =
  vpr_variantId :: ident
  vpr_priceListId :: ident
  vpr_priceCents :: cents
  vpr_tierPrices :: "tier_price list"

text \<open>The columns stock planning reads are those of \<open>product_stock\<close>.\<close>

record catalog_product =
  cpd_stock :: product_stock
  cpd_sellInPos :: bool
  cpd_categoryId :: "ident option"
  cpd_brandId :: "ident option"
  cpd_ivaRate :: string
  cpd_chargeProductTaxes :: bool

record product_image =
  pim_productId :: ident
  pim_variantId :: "ident option"
  pim_url :: string
  pim_isMain :: bool
  pim_sortOrder :: int

record price_catalog =
  ctg_globalLists :: "global_price_list list"
  ctg_priceLists :: "price_list_row list"
  ctg_variantPrices :: "variant_price_row list"
  ctg_products :: "catalog_product list"
  ctg_images :: "product_image list"

text \<open>Joins along the foreign keys.\<close>

definition cpd_id :: "catalog_product \<Rightarrow> ident" where
  "cpd_id p = pds_id (cpd_stock p)"

definition global_list :: "price_catalog \<Rightarrow> ident \<Rightarrow> global_price_list option" where
  "global_list c i = find (\<lambda>g. gpl_id g = i) (ctg_globalLists c)"

definition price_list_of :: "price_catalog \<Rightarrow> variant_price_row \<Rightarrow> price_list_row option" where
  "price_list_of c v = find (\<lambda>r. plr_id r = vpr_priceListId v) (ctg_priceLists c)"

definition variant_global_id :: "price_catalog \<Rightarrow> variant_price_row \<Rightarrow> ident option" where
  "variant_global_id c v = map_option plr_globalPriceListId (price_list_of c v)"

definition in_default_list :: "price_catalog \<Rightarrow> price_list_row \<Rightarrow> bool" where
  "in_default_list c r \<longleftrightarrow>
     (case global_list c (plr_globalPriceListId r) of None \<Rightarrow> False | Some g \<Rightarrow> gpl_isDefault g)"

definition find_product :: "price_catalog \<Rightarrow> ident \<Rightarrow> catalog_product option" where
  "find_product c i = find (\<lambda>p. cpd_id p = i) (ctg_products c)"

definition find_variant :: "catalog_product \<Rightarrow> ident \<Rightarrow> variant_stock option" where
  "find_variant p v = find (\<lambda>x. vrs_id x = v) (pds_variants (cpd_stock p))"

subsection \<open>Tiers\<close>

definition selectEffectivePrice :: "cents \<Rightarrow> tier_price list \<Rightarrow> int \<Rightarrow> cents" where
  "selectEffectivePrice base tiers quantity =
     (case sort_key (\<lambda>t. - tpr_minQuantity t)
             (filter (\<lambda>t. tpr_minQuantity t \<le> quantity \<and> 0 < tpr_priceCents t) tiers) of
        [] \<Rightarrow> base
      | t # ts \<Rightarrow> tpr_priceCents t)"

text \<open>The loop of \<open>validateTierPrices\<close>: the thresholds seen so far, the last one.\<close>

definition duplicate_tier :: domain_error where
  "duplicate_tier =
     BusinessRuleViolationError ''Tier thresholds must be unique'' ''INVALID_TIER_SEQUENCE''"

definition unordered_tiers :: domain_error where
  "unordered_tiers =
     BusinessRuleViolationError ''Tier thresholds must be strictly ascending and unique''
       ''INVALID_TIER_SEQUENCE''"

fun check_thresholds :: "int list \<Rightarrow> js_number list \<Rightarrow> unit result" where
  "check_thresholds seen [] = Inr ()"
| "check_thresholds seen (JsInt n # ts) =
     (if n < 0 then Inl (invalid_argument ''Tier quantity thresholds must be >= 0'')
      else if n \<in> set seen then Inl duplicate_tier
      else if seen \<noteq> [] \<and> n \<le> last seen then Inl unordered_tiers
      else check_thresholds (seen @ [n]) ts)"
| "check_thresholds seen (t # ts) =
     Inl (invalid_argument ''Tier quantity thresholds must be integers >= 0'')"

definition validateTierPrices :: "(js_number \<times> cents) list \<Rightarrow> unit result" where
  "validateTierPrices tiers = check_thresholds [] (map fst tiers)"

subsection \<open>Prices one by one\<close>

record applicable_price =
  apr_priceListId :: ident
  apr_priceListName :: string
  apr_priceCents :: cents

definition list_name :: "price_catalog \<Rightarrow> ident \<Rightarrow> string" where
  "list_name c i = (case global_list c i of None \<Rightarrow> [] | Some g \<Rightarrow> gpl_name g)"

definition getApplicablePrices ::
  "price_catalog \<Rightarrow> ident \<Rightarrow> ident option \<Rightarrow> int \<Rightarrow> applicable_price list" where
  "getApplicablePrices c productId variantId quantity =
     (if truthy variantId
      then map (\<lambda>v.
          \<lparr>apr_priceListId = vpr_priceListId v,
           apr_priceListName = list_name c (or_default (variant_global_id c v) []),
           apr_priceCents = selectEffectivePrice (vpr_priceCents v) (vpr_tierPrices v) quantity\<rparr>)
        (filter (\<lambda>v. vpr_variantId v = the_ident variantId) (ctg_variantPrices c))
      else map (\<lambda>r.
          \<lparr>apr_priceListId = plr_id r, apr_priceListName = list_name c (plr_globalPriceListId r),
           apr_priceCents = selectEffectivePrice (plr_priceCents r) (plr_tierPrices r) quantity\<rparr>)
        (filter (\<lambda>r. plr_productId r = productId) (ctg_priceLists c)))"

definition resolveListPrice ::
  "price_catalog \<Rightarrow> ident \<Rightarrow> ident \<Rightarrow> ident option \<Rightarrow> int \<Rightarrow> cents result" where
  "resolveListPrice c priceListId productId variantId quantity =
     (case find (\<lambda>a. apr_priceListId a = priceListId)
             (getApplicablePrices c productId variantId quantity) of
        None \<Rightarrow> Inl (rule_violation ''INVALID_PRICE_LIST_FOR_ITEM'')
      | Some a \<Rightarrow> Inr (apr_priceCents a))"

subsection \<open>Prices in a batch\<close>

record price_input =
  pin_productId :: ident
  pin_variantId :: "ident option"
  pin_priceListId :: "ident option"
  pin_globalPriceListId :: "ident option"
  pin_quantity :: int

type_synonym price_map = "(string \<times> (int \<times> cents) list) list"

definition price_key :: "ident \<Rightarrow> ident option \<Rightarrow> ident \<Rightarrow> string" where
  "price_key productId variantId listId =
     productId @ ''::'' @ or_default variantId [] @ ''::'' @ listId"

definition row_key :: "ident \<Rightarrow> ident \<Rightarrow> string" where
  "row_key i listId = i @ ''::'' @ listId"

text \<open>\<open>outer.get(key) ?? new Map()\<close>, \<open>inner.set\<close>, \<open>outer.set\<close>.\<close>

definition put_price :: "string \<Rightarrow> int \<Rightarrow> cents \<Rightarrow> price_map \<Rightarrow> price_map" where
  "put_price key quantity price m =
     assoc_set m key (assoc_set (or_default (assoc_get m key) []) quantity price)"

text \<open>
  The distinct keys of the inputs, the rows they select, and the map from each row's
  keys to the row.
\<close>

definition distinct_keys :: "(ident \<times> ident) list \<Rightarrow> (ident \<times> ident) list" where
  "distinct_keys ks =
     map snd (foldl (\<lambda>m k. if assoc_get m (row_key (fst k) (snd k)) = None
         then assoc_set m (row_key (fst k) (snd k)) k else m) [] ks)"

definition variant_rows :: "price_catalog \<Rightarrow> (ident \<times> ident) list \<Rightarrow> variant_price_row list" where
  "variant_rows c ks =
     filter (\<lambda>v. \<exists>k\<in>set ks. vpr_variantId v = fst k \<and>
         (vpr_priceListId v = snd k \<or> variant_global_id c v = Some (snd k)))
       (ctg_variantPrices c)"

definition index_variant_row ::
  "price_catalog \<Rightarrow> (string \<times> variant_price_row) list \<Rightarrow> variant_price_row
     \<Rightarrow> (string \<times> variant_price_row) list" where
  "index_variant_row c m v =
     (let m1 = assoc_set m (row_key (vpr_variantId v) (vpr_priceListId v)) v in
      if truthy (variant_global_id c v)
      then assoc_set m1 (row_key (vpr_variantId v) (the_ident (variant_global_id c v))) v
      else m1)"

definition product_rows :: "price_catalog \<Rightarrow> (ident \<times> ident) list \<Rightarrow> price_list_row list" where
  "product_rows c ks =
     filter (\<lambda>r. \<exists>k\<in>set ks. plr_productId r = fst k \<and>
         (plr_id r = snd k \<or> plr_globalPriceListId r = snd k))
       (ctg_priceLists c)"

definition index_product_row ::
  "(string \<times> price_list_row) list \<Rightarrow> price_list_row \<Rightarrow> (string \<times> price_list_row) list" where
  "index_product_row m r =
     (let m1 = assoc_set m (row_key (plr_productId r) (plr_id r)) r in
      if plr_globalPriceListId r \<noteq> []
      then assoc_set m1 (row_key (plr_productId r) (plr_globalPriceListId r)) r
      else m1)"

definition put_variant_price ::
  "(string \<times> variant_price_row) list \<Rightarrow> price_map \<Rightarrow> price_input \<Rightarrow> price_map" where
  "put_variant_price rows m i =
     (let v = the_ident (pin_variantId i); l = the_ident (pin_priceListId i) in
      case assoc_get rows (row_key v l) of
        None \<Rightarrow> m
      | Some r \<Rightarrow>
          put_price (price_key (pin_productId i) (Some v) l) (pin_quantity i)
            (selectEffectivePrice (vpr_priceCents r) (vpr_tierPrices r) (pin_quantity i)) m)"

definition put_product_price ::
  "(string \<times> price_list_row) list \<Rightarrow> price_map \<Rightarrow> price_input \<Rightarrow> price_map" where
  "put_product_price rows m i =
     (let l = the_ident (pin_priceListId i) in
      case assoc_get rows (row_key (pin_productId i) l) of
        None \<Rightarrow> m
      | Some r \<Rightarrow>
          put_price (price_key (pin_productId i) None l) (pin_quantity i)
            (selectEffectivePrice (plr_priceCents r) (plr_tierPrices r) (pin_quantity i)) m)"

definition batchResolvePriceMap :: "price_catalog \<Rightarrow> price_input list \<Rightarrow> price_map" where
  "batchResolvePriceMap c inputs =
     (let variantInputs = filter (\<lambda>i. pin_variantId i \<noteq> None \<and> pin_priceListId i \<noteq> None) inputs;
          productInputs = filter (\<lambda>i. pin_variantId i = None \<and> pin_priceListId i \<noteq> None) inputs;
          variantRows = variant_rows c (distinct_keys (map (\<lambda>i.
            (the_ident (pin_variantId i), the_ident (pin_priceListId i))) variantInputs));
          variantMap = foldl (index_variant_row c) [] variantRows;
          outer = foldl (put_variant_price variantMap) [] variantInputs;
          productRows = product_rows c (distinct_keys (map (\<lambda>i.
            (pin_productId i, the_ident (pin_priceListId i))) productInputs));
          productMap = foldl index_product_row [] productRows
      in foldl (put_product_price productMap) outer productInputs)"

definition map_price :: "price_map \<Rightarrow> string \<Rightarrow> int \<Rightarrow> cents option" where
  "map_price m key quantity =
     (case assoc_get m key of None \<Rightarrow> None | Some inner \<Rightarrow> assoc_get inner quantity)"

subsection \<open>What a new line freezes\<close>

record product_sale_info =
  pif_productId :: ident
  pif_productName :: string
  pif_variantId :: "ident option"
  pif_variantName :: "string option"
  pif_unitPriceCents :: cents
  pif_imageUrl :: "string option"
  pif_ivaRate :: string
  pif_chargeProductTaxes :: bool

text \<open>Main images first, then by position.\<close>

definition first_image :: "price_catalog \<Rightarrow> ident \<Rightarrow> ident option \<Rightarrow> string option" where
  "first_image c productId variantId =
     (case sort_key (\<lambda>i. (\<not> pim_isMain i, pim_sortOrder i))
             (filter (\<lambda>i. pim_productId i = productId \<and> pim_variantId i = variantId) (ctg_images c)) of
        [] \<Rightarrow> None | i # is \<Rightarrow> Some (pim_url i))"

definition variant_default_price :: "price_catalog \<Rightarrow> ident \<Rightarrow> cents" where
  "variant_default_price c v =
     (case find (\<lambda>r. vpr_variantId r = v \<and>
               (case price_list_of c r of None \<Rightarrow> False | Some l \<Rightarrow> in_default_list c l))
             (ctg_variantPrices c) of
        None \<Rightarrow> 0 | Some r \<Rightarrow> vpr_priceCents r)"

definition product_default_price :: "price_catalog \<Rightarrow> ident \<Rightarrow> cents" where
  "product_default_price c p =
     (case find (\<lambda>r. plr_productId r = p \<and> in_default_list c r) (ctg_priceLists c) of
        None \<Rightarrow> 0 | Some r \<Rightarrow> plr_priceCents r)"

definition getProductInfoForSale ::
  "price_catalog \<Rightarrow> ident \<Rightarrow> ident option \<Rightarrow> product_sale_info result" where
  "getProductInfoForSale c productId variantId =
     (case find_product c productId of
        None \<Rightarrow> Inl (EntityNotFoundError ''Product'' productId)
      | Some p \<Rightarrow>
          if \<not> cpd_sellInPos p
            then Inl (BusinessRuleViolationError
              (''Product '' @ productId @ '' is not enabled for POS sales'') ''BUSINESS_RULE_VIOLATION'')
          else if pds_hasVariants (cpd_stock p) \<and> \<not> truthy variantId
            then Inl (BusinessRuleViolationError
              (''Product '' @ productId @ '' has variants, you must specify a variant'')
              ''BUSINESS_RULE_VIOLATION'')
          else if \<not> pds_hasVariants (cpd_stock p) \<and> truthy variantId
            then Inl (BusinessRuleViolationError
              (''Product '' @ productId @ '' does not have variants'') ''BUSINESS_RULE_VIOLATION'')
          else if truthy variantId
            then (case find_variant p (the_ident variantId) of
                None \<Rightarrow> Inl (EntityNotFoundError ''Variant'' (the_ident variantId))
              | Some v \<Rightarrow> Inr
                  \<lparr>pif_productId = productId, pif_productName = pds_name (cpd_stock p),
                   pif_variantId = variantId, pif_variantName = Some (vrs_name v),
                   pif_unitPriceCents = variant_default_price c (the_ident variantId),
                   pif_imageUrl = first_image c productId variantId,
                   pif_ivaRate = cpd_ivaRate p, pif_chargeProductTaxes = cpd_chargeProductTaxes p\<rparr>)
          else Inr
            \<lparr>pif_productId = productId, pif_productName = pds_name (cpd_stock p),
             pif_variantId = None, pif_variantName = None,
             pif_unitPriceCents = product_default_price c productId,
             pif_imageUrl = first_image c productId None,
             pif_ivaRate = cpd_ivaRate p, pif_chargeProductTaxes = cpd_chargeProductTaxes p\<rparr>)"

subsection \<open>Availability\<close>

definition expiredLotQuantity :: "product_stock \<Rightarrow> int \<Rightarrow> int" where
  "expiredLotQuantity p today =
     sumExpiredLotQuantity (filter (\<lambda>l. 0 < lts_quantity l) (pds_lots p)) today"

definition checkStockAvailability ::
  "price_catalog \<Rightarrow> int \<Rightarrow> ident \<Rightarrow> ident option \<Rightarrow> int \<Rightarrow> (bool \<times> int option) result" where
  "checkStockAvailability c today productId variantId requested =
     (case find_product c productId of
        None \<Rightarrow> Inl (EntityNotFoundError ''Product'' productId)
      | Some p \<Rightarrow>
          if \<not> pds_useStock (cpd_stock p) then Inr (True, None)
          else if pds_hasVariants (cpd_stock p) \<and> truthy variantId
            then
              let current = (case find_variant p (the_ident variantId) of
                  None \<Rightarrow> 0 | Some v \<Rightarrow> vrs_quantity v)
              in Inr (requested \<le> current, Some current)
          else
            let current = max (pds_quantity (cpd_stock p) - expiredLotQuantity (cpd_stock p) today) 0
            in Inr (requested \<le> current, Some current))"

subsection \<open>Ids for the promotion engine\<close>

definition resolvePriceListGlobalIds :: "price_catalog \<Rightarrow> ident list \<Rightarrow> (ident \<times> ident) list" where
  "resolvePriceListGlobalIds c ids =
     foldl (\<lambda>m r. assoc_set m (plr_id r) (plr_globalPriceListId r)) []
       (filter (\<lambda>r. plr_id r \<in> set (unique ids)) (ctg_priceLists c))"

definition resolveProductCategoryBrandIds ::
  "price_catalog \<Rightarrow> ident list \<Rightarrow> (ident \<times> (ident option \<times> ident option)) list" where
  "resolveProductCategoryBrandIds c ids =
     foldl (\<lambda>m p. assoc_set m (cpd_id p) (cpd_categoryId p, cpd_brandId p)) []
       (filter (\<lambda>p. cpd_id p \<in> set (unique ids)) (ctg_products c))"

end
