(* ===== verification/PriceCatalogLaws.thy ===== *)
theory PriceCatalogLaws
  imports PriceCatalog StockLaws
begin

text \<open>
  The laws of the catalogue's prices: which tier a quantity gets, and that the batch
  resolution gives every line the price its own list has for it.
\<close>

subsection \<open>Tiers\<close>

definition qualifies :: "int \<Rightarrow> tier_price \<Rightarrow> bool" where
  "qualifies quantity t \<longleftrightarrow> tpr_minQuantity t \<le> quantity \<and> 0 < tpr_priceCents t"

lemma effective_price_base:
  "(\<forall>t\<in>set tiers. \<not> qualifies quantity t) \<Longrightarrow> selectEffectivePrice base tiers quantity = base"
  by (simp add: selectEffectivePrice_def qualifies_def filter_False)

lemma effective_price_tier:
  assumes "t \<in> set tiers" and "qualifies quantity t"
    and "\<And>u. u \<in> set tiers \<Longrightarrow> qualifies quantity u \<Longrightarrow> u = t \<or> tpr_minQuantity u < tpr_minQuantity t"
  shows "selectEffectivePrice base tiers quantity = tpr_priceCents t"
proof -
  let ?ts = "filter (\<lambda>t. tpr_minQuantity t \<le> quantity \<and> 0 < tpr_priceCents t) tiers"
  let ?s = "sort_key (\<lambda>t. - tpr_minQuantity t) ?ts"
  have set: "set ?s = {u \<in> set tiers. qualifies quantity u}" by (auto simp: qualifies_def)
  then have ne: "?s \<noteq> []" using assms(1,2) by (metis (mono_tags, lifting) empty_iff empty_set mem_Collect_eq)
  then obtain u us where s: "?s = u # us" by (cases ?s) auto
  have "sorted (map (\<lambda>t. - tpr_minQuantity t) ?s)" by simp
  then have least: "\<forall>x\<in>set ?s. - tpr_minQuantity u \<le> - tpr_minQuantity x" unfolding s by simp
  have "t \<in> set ?s" unfolding set using assms(1,2) by simp
  with least have "tpr_minQuantity t \<le> tpr_minQuantity u" by simp
  moreover have "u \<in> set ?s" unfolding s by simp
  then have "u \<in> set tiers" "qualifies quantity u" unfolding set by simp_all
  ultimately have "u = t" using assms(3) [of u] by fastforce
  then show ?thesis by (simp add: selectEffectivePrice_def s)
qed

subsection \<open>Maps filled by a loop\<close>

lemma foldl_index:
  assumes "\<And>m r. assoc_get (f m r) k = (if hit r then Some r else assoc_get m k)"
    and "\<And>r r'. r \<in> set rows \<Longrightarrow> r' \<in> set rows \<Longrightarrow> hit r \<Longrightarrow> hit r' \<Longrightarrow> r = r'"
  shows "assoc_get (foldl f m rows) k = (case find hit rows of None \<Rightarrow> assoc_get m k | Some r \<Rightarrow> Some r)"
  using assms(2)
proof (induction rows arbitrary: m)
  case (Cons a rows)
  have IH: "assoc_get (foldl f (f m a) rows) k = (case find hit rows of None \<Rightarrow> assoc_get (f m a) k | Some r \<Rightarrow> Some r)"
    by (rule Cons.IH) (use Cons.prems in auto)
  show ?case
  proof (cases "find hit rows")
    case (Some r)
    then have "r \<in> set rows" "hit r" using find_SomeD by fastforce+
    with Cons.prems [of a r] IH Some show ?thesis by auto
  qed (use IH assms(1) in simp)
qed simp

lemma find_filter_part:
  assumes "\<And>x. x \<in> set xs \<Longrightarrow> hit x \<longleftrightarrow> P x" and "\<And>x. P x \<Longrightarrow> Q x"
  shows "find hit (filter Q xs) = find P xs"
  using assms by (induction xs) auto

lemma foldl_look:
  assumes "\<And>m i. i \<in> set is \<Longrightarrow> look (f m i) = (if hit i then val else look m)"
  shows "look (foldl f m is) = (if \<exists>i\<in>set is. hit i then val else look m)"
  using assms by (induction "is" arbitrary: m) auto

lemma map_price_put [simp]:
  "map_price (put_price key' q' x m) key q =
     (if key' = key \<and> q' = q then Some x else map_price m key q)"
  by (auto simp: map_price_def put_price_def split: option.splits)

lemma map_price_empty [simp]: "map_price [] key q = None"
  by (simp add: map_price_def)

subsection \<open>Keys\<close>

text \<open>Ids are UUIDs: not empty and without a colon, so the keys tell them apart.\<close>

definition plain_id :: "ident \<Rightarrow> bool" where
  "plain_id i \<longleftrightarrow> i \<noteq> [] \<and> CHR '':'' \<notin> set i"

lemma colon_split:
  assumes "CHR '':'' \<notin> set a" and "CHR '':'' \<notin> set b" and "a @ CHR '':'' # s = b @ CHR '':'' # t"
  shows "a = b \<and> s = t"
  using assms
proof (induction a arbitrary: b)
  case Nil
  then show ?case by (cases b) auto
next
  case (Cons x a)
  then show ?case by (cases b) auto
qed

lemma row_key_inj:
  assumes "plain_id i" and "plain_id j" and "row_key i l = row_key j l'"
  shows "i = j \<and> l = l'"
  using assms colon_split [of i j "CHR '':'' # l" "CHR '':'' # l'"]
  by (auto simp: plain_id_def row_key_def)

definition plain_variant :: "ident option \<Rightarrow> bool" where
  "plain_variant v \<longleftrightarrow> (case v of None \<Rightarrow> True | Some i \<Rightarrow> plain_id i)"

lemma plain_parts: "plain_variant v \<Longrightarrow> CHR '':'' \<notin> set (or_default v [])"
  by (cases v) (simp_all add: plain_variant_def plain_id_def)

lemma plain_default_inj:
  "plain_variant v \<Longrightarrow> plain_variant v' \<Longrightarrow> or_default v [] = or_default v' [] \<Longrightarrow> v = v'"
  by (cases v; cases v') (simp_all add: plain_variant_def plain_id_def)

lemma price_key_row: "price_key p v l = row_key p (row_key (or_default v []) l)"
  by (simp add: price_key_def row_key_def)

lemma row_key_split:
  assumes "CHR '':'' \<notin> set i" and "CHR '':'' \<notin> set j" and "row_key i l = row_key j l'"
  shows "i = j \<and> l = l'"
  using colon_split [OF assms(1,2), of "CHR '':'' # l" "CHR '':'' # l'"] assms(3)
  by (simp add: row_key_def)

lemma price_key_inj:
  assumes "plain_id p" and "plain_id p'" and "plain_variant v" and "plain_variant v'"
    and "price_key p v l = price_key p' v' l'"
  shows "p = p' \<and> v = v' \<and> l = l'"
proof -
  from row_key_inj [OF assms(1,2) assms(5) [unfolded price_key_row]]
  have p: "p = p'" and r: "row_key (or_default v []) l = row_key (or_default v' []) l'" by blast+
  from row_key_split [OF plain_parts [OF assms(3)] plain_parts [OF assms(4)] r]
  have "or_default v [] = or_default v' []" "l = l'" by blast+
  with p plain_default_inj [OF assms(3,4)] show ?thesis by blast
qed

lemma distinct_keys_step:
  assumes "\<forall>k\<in>set ks. plain_id (fst k)"
    and "\<forall>x\<in>set m. fst x = row_key (fst (snd x)) (snd (snd x)) \<and> plain_id (fst (snd x))"
  shows "snd ` set (foldl (\<lambda>m k. if assoc_get m (row_key (fst k) (snd k)) = None
      then assoc_set m (row_key (fst k) (snd k)) k else m) m ks) = snd ` set m \<union> set ks"
  using assms
proof (induction ks arbitrary: m)
  case (Cons k ks)
  let ?key = "row_key (fst k) (snd k)"
  show ?case
  proof (cases "assoc_get m ?key")
    case None
    then have set: "set (assoc_set m ?key k) = insert (?key, k) (set m)"
      by (induction m) (auto split: if_splits)
    have inv: "\<forall>x\<in>set (assoc_set m ?key k). fst x = row_key (fst (snd x)) (snd (snd x)) \<and> plain_id (fst (snd x))"
      using Cons.prems unfolding set by simp
    show ?thesis using Cons.IH [OF _ inv] Cons.prems(1) None by (simp add: set)
  next
    case (Some k')
    then have mem: "(?key, k') \<in> set m" by (rule assoc_get_SomeD)
    with Cons.prems(2) have "?key = row_key (fst k') (snd k')" "plain_id (fst k')" by fastforce+
    with Cons.prems(1) have "k' = k"
      using row_key_inj [of "fst k" "fst k'" "snd k" "snd k'"] by (simp add: prod_eq_iff)
    with mem have "k \<in> snd ` set m" by force
    then show ?thesis using Cons.IH [of m] Cons.prems Some by auto
  qed
qed simp

lemma set_distinct_keys: "\<forall>k\<in>set ks. plain_id (fst k) \<Longrightarrow> set (distinct_keys ks) = set ks"
  using distinct_keys_step [of ks "[]"] by (simp add: distinct_keys_def)

subsection \<open>The catalogue's own prices\<close>

definition product_row_for :: "ident \<Rightarrow> ident \<Rightarrow> price_list_row \<Rightarrow> bool" where
  "product_row_for p l r \<longleftrightarrow> plr_productId r = p \<and> (plr_id r = l \<or> plr_globalPriceListId r = l)"

definition variant_row_for :: "price_catalog \<Rightarrow> ident \<Rightarrow> ident \<Rightarrow> variant_price_row \<Rightarrow> bool" where
  "variant_row_for c v l r \<longleftrightarrow>
     vpr_variantId r = v \<and> (vpr_priceListId r = l \<or> variant_global_id c r = Some l)"

text \<open>The price a list, by its own id or its global id, has for a quantity.\<close>

definition list_price ::
  "price_catalog \<Rightarrow> ident \<Rightarrow> ident option \<Rightarrow> ident \<Rightarrow> int \<Rightarrow> cents option" where
  "list_price c p v l q =
     (case v of
        None \<Rightarrow> map_option (\<lambda>r. selectEffectivePrice (plr_priceCents r) (plr_tierPrices r) q)
                  (find (product_row_for p l) (ctg_priceLists c))
      | Some i \<Rightarrow> map_option (\<lambda>r. selectEffectivePrice (vpr_priceCents r) (vpr_tierPrices r) q)
                  (find (variant_row_for c i l) (ctg_variantPrices c)))"

text \<open>
  A catalogue in good order: plain ids, and one row for a product or a variant and a
  list, which the unique indexes of the schema give.
\<close>

definition catalog_ok :: "price_catalog \<Rightarrow> bool" where
  "catalog_ok c \<longleftrightarrow>
     (\<forall>r\<in>set (ctg_priceLists c). plain_id (plr_productId r) \<and> plr_globalPriceListId r \<noteq> []) \<and>
     (\<forall>r\<in>set (ctg_variantPrices c). plain_id (vpr_variantId r)) \<and>
     (\<forall>r\<in>set (ctg_priceLists c). \<forall>r'\<in>set (ctg_priceLists c). \<forall>p l.
        product_row_for p l r \<longrightarrow> product_row_for p l r' \<longrightarrow> r = r') \<and>
     (\<forall>r\<in>set (ctg_variantPrices c). \<forall>r'\<in>set (ctg_variantPrices c). \<forall>v l.
        variant_row_for c v l r \<longrightarrow> variant_row_for c v l r' \<longrightarrow> r = r')"

lemma product_rows_unique:
  "catalog_ok c \<Longrightarrow> r \<in> set (ctg_priceLists c) \<Longrightarrow> r' \<in> set (ctg_priceLists c) \<Longrightarrow>
     product_row_for p l r \<Longrightarrow> product_row_for p l r' \<Longrightarrow> r = r'"
  unfolding catalog_ok_def by blast

lemma variant_rows_unique:
  "catalog_ok c \<Longrightarrow> r \<in> set (ctg_variantPrices c) \<Longrightarrow> r' \<in> set (ctg_variantPrices c) \<Longrightarrow>
     variant_row_for c v l r \<Longrightarrow> variant_row_for c v l r' \<Longrightarrow> r = r'"
  unfolding catalog_ok_def by blast

lemma variant_global_nonempty:
  assumes "catalog_ok c" and "variant_global_id c r = Some g"
  shows "g \<noteq> []"
proof -
  from assms(2) obtain l where "price_list_of c r = Some l" "plr_globalPriceListId l = g"
    by (auto simp: variant_global_id_def)
  moreover from this(1) have "l \<in> set (ctg_priceLists c)"
    unfolding price_list_of_def by (auto dest: find_SomeD)
  ultimately show ?thesis using assms(1) by (auto simp: catalog_ok_def)
qed

subsection \<open>The batch\<close>

definition plain_input :: "price_input \<Rightarrow> bool" where
  "plain_input i \<longleftrightarrow> plain_id (pin_productId i) \<and> plain_variant (pin_variantId i)"

lemma product_index:
  assumes ok: "catalog_ok c" and plain: "\<forall>k\<in>set ks. plain_id (fst k)" and k: "(p, l) \<in> set ks"
  shows "assoc_get (foldl index_product_row [] (product_rows c (distinct_keys ks))) (row_key p l) =
    find (product_row_for p l) (ctg_priceLists c)"
proof -
  let ?hit = "\<lambda>r. row_key (plr_productId r) (plr_id r) = row_key p l \<or> plr_globalPriceListId r \<noteq> [] \<and>
          row_key (plr_productId r) (plr_globalPriceListId r) = row_key p l"
  have hit: "?hit r \<longleftrightarrow> product_row_for p l r" if r: "r \<in> set (ctg_priceLists c)" for r
  proof -
    have "plain_id (plr_productId r)" "plr_globalPriceListId r \<noteq> []" "plain_id p"
      using ok plain k r by (auto simp: catalog_ok_def)
    then show ?thesis using row_key_inj [of "plr_productId r" p] by (auto simp: product_row_for_def)
  qed
  have found: "find ?hit (product_rows c (distinct_keys ks)) = find (product_row_for p l) (ctg_priceLists c)"
    unfolding product_rows_def set_distinct_keys [OF plain]
  proof (rule find_filter_part [OF hit])
    show "\<exists>k\<in>set ks. plr_productId r = fst k \<and> (plr_id r = snd k \<or> plr_globalPriceListId r = snd k)"
      if "product_row_for p l r" for r
      using that by (intro bexI [OF _ k]) (auto simp: product_row_for_def)
  qed
  have "assoc_get (foldl index_product_row [] (product_rows c (distinct_keys ks))) (row_key p l) =
      (case find ?hit (product_rows c (distinct_keys ks)) of None \<Rightarrow> assoc_get [] (row_key p l) | Some r \<Rightarrow> Some r)"
  proof (rule foldl_index)
    show "assoc_get (index_product_row m r) (row_key p l) = (if ?hit r then Some r else assoc_get m (row_key p l))"
      for m r by (auto simp: index_product_row_def Let_def)
    show "r = r'" if "r \<in> set (product_rows c (distinct_keys ks))" "r' \<in> set (product_rows c (distinct_keys ks))"
      "?hit r" "?hit r'" for r r'
      using that hit product_rows_unique [OF ok, of r r' p l] by (auto simp: product_rows_def)
  qed
  then show ?thesis unfolding found by (simp split: option.splits)
qed

lemma variant_index:
  assumes ok: "catalog_ok c" and plain: "\<forall>k\<in>set ks. plain_id (fst k)" and k: "(v, l) \<in> set ks"
  shows "assoc_get (foldl (index_variant_row c) [] (variant_rows c (distinct_keys ks))) (row_key v l) =
    find (variant_row_for c v l) (ctg_variantPrices c)"
proof -
  let ?hit = "\<lambda>r. row_key (vpr_variantId r) (vpr_priceListId r) = row_key v l \<or> truthy (variant_global_id c r) \<and>
          row_key (vpr_variantId r) (the_ident (variant_global_id c r)) = row_key v l"
  have hit: "?hit r \<longleftrightarrow> variant_row_for c v l r" if r: "r \<in> set (ctg_variantPrices c)" for r
  proof -
    have "plain_id (vpr_variantId r)" "plain_id v" using ok plain k r by (auto simp: catalog_ok_def)
    then show ?thesis
      using row_key_inj [of "vpr_variantId r" v] variant_global_nonempty [OF ok, of r]
      by (cases "variant_global_id c r") (auto simp: variant_row_for_def)
  qed
  have found: "find ?hit (variant_rows c (distinct_keys ks)) = find (variant_row_for c v l) (ctg_variantPrices c)"
    unfolding variant_rows_def set_distinct_keys [OF plain]
  proof (rule find_filter_part [OF hit])
    show "\<exists>k\<in>set ks. vpr_variantId r = fst k \<and> (vpr_priceListId r = snd k \<or> variant_global_id c r = Some (snd k))"
      if "variant_row_for c v l r" for r
      using that by (intro bexI [OF _ k]) (auto simp: variant_row_for_def)
  qed
  have "assoc_get (foldl (index_variant_row c) [] (variant_rows c (distinct_keys ks))) (row_key v l) =
      (case find ?hit (variant_rows c (distinct_keys ks)) of None \<Rightarrow> assoc_get [] (row_key v l) | Some r \<Rightarrow> Some r)"
  proof (rule foldl_index)
    show "assoc_get (index_variant_row c m r) (row_key v l) = (if ?hit r then Some r else assoc_get m (row_key v l))"
      for m r by (auto simp: index_variant_row_def Let_def)
    show "r = r'" if "r \<in> set (variant_rows c (distinct_keys ks))" "r' \<in> set (variant_rows c (distinct_keys ks))"
      "?hit r" "?hit r'" for r r'
      using that hit variant_rows_unique [OF ok, of r r' v l] by (auto simp: variant_rows_def)
  qed
  then show ?thesis unfolding found by (simp split: option.splits)
qed

text \<open>Every input of a batch finds the price its list has for it.\<close>

lemma batch_price:
  assumes ok: "catalog_ok c" and plain: "\<forall>i\<in>set inputs. plain_input i"
    and i: "i \<in> set inputs" "pin_priceListId i = Some l"
  shows "map_price (batchResolvePriceMap c inputs) (price_key (pin_productId i) (pin_variantId i) l) (pin_quantity i) =
    list_price c (pin_productId i) (pin_variantId i) l (pin_quantity i)"
proof -
  let ?vs = "filter (\<lambda>i. pin_variantId i \<noteq> None \<and> pin_priceListId i \<noteq> None) inputs"
  let ?ps = "filter (\<lambda>i. pin_variantId i = None \<and> pin_priceListId i \<noteq> None) inputs"
  let ?vk = "map (\<lambda>i. (the_ident (pin_variantId i), the_ident (pin_priceListId i))) ?vs"
  let ?pk = "map (\<lambda>i. (pin_productId i, the_ident (pin_priceListId i))) ?ps"
  define vmap where "vmap = foldl (index_variant_row c) [] (variant_rows c (distinct_keys ?vk))"
  define pmap where "pmap = foldl index_product_row [] (product_rows c (distinct_keys ?pk))"
  let ?key = "price_key (pin_productId i) (pin_variantId i) l"
  let ?look = "\<lambda>m. map_price m ?key (pin_quantity i)"
  let ?same = "\<lambda>j. pin_productId j = pin_productId i \<and> pin_variantId j = pin_variantId i \<and>
      pin_priceListId j = Some l \<and> pin_quantity j = pin_quantity i"
  have plain_i: "plain_input i" using plain i(1) by blast
  have key: "price_key (pin_productId j) (pin_variantId j) l' = ?key \<longleftrightarrow>
      pin_productId j = pin_productId i \<and> pin_variantId j = pin_variantId i \<and> l' = l"
    if "j \<in> set inputs" for j l'
  proof
    assume eq: "price_key (pin_productId j) (pin_variantId j) l' = ?key"
    have "plain_input j" using that plain by blast
    with plain_i show "pin_productId j = pin_productId i \<and> pin_variantId j = pin_variantId i \<and> l' = l"
      unfolding plain_input_def by (intro price_key_inj [OF _ _ _ _ eq]) blast+
  qed simp
  have vp: "\<forall>k\<in>set ?vk. plain_id (fst k)" and pp: "\<forall>k\<in>set ?pk. plain_id (fst k)"
    using plain by (auto simp: plain_input_def plain_variant_def)
  have batch: "batchResolvePriceMap c inputs =
      foldl (put_product_price pmap) (foldl (put_variant_price vmap) [] ?vs) ?ps"
    by (simp add: batchResolvePriceMap_def Let_def vmap_def pmap_def)
  show ?thesis
  proof (cases "pin_variantId i")
    case None
    let ?val = "list_price c (pin_productId i) None l (pin_quantity i)"
    have get: "assoc_get pmap (row_key (pin_productId i) l) = find (product_row_for (pin_productId i) l) (ctg_priceLists c)"
      unfolding pmap_def by (rule product_index [OF ok pp]) (use i None in \<open>force simp: image_iff\<close>)
    have start: "?look (foldl (put_variant_price vmap) [] ?vs) = None"
    proof -
      have "?look (foldl (put_variant_price vmap) [] ?vs) = (if \<exists>j\<in>set ?vs. False then None else ?look [])"
      proof (rule foldl_look)
        show "?look (put_variant_price vmap m j) = (if False then None else ?look m)" if "j \<in> set ?vs" for m j
          using that key [of j] None
          by (auto simp: put_variant_price_def Let_def split: option.splits)
      qed
      then show ?thesis by simp
    qed
    have "?look (foldl (put_product_price pmap) m0 ?ps) = (if \<exists>j\<in>set ?ps. ?same j \<and> ?val \<noteq> None then ?val else ?look m0)"
      for m0
    proof (rule foldl_look)
      show "?look (put_product_price pmap m j) = (if ?same j \<and> ?val \<noteq> None then ?val else ?look m)"
        if "j \<in> set ?ps" for m j
        using that key [of j "the_ident (pin_priceListId j)"] get None
        by (auto simp: put_product_price_def Let_def list_price_def split: option.splits)
    qed
    moreover have "i \<in> set ?ps" using i None by simp
    ultimately show ?thesis unfolding batch using start i(2) None by auto
  next
    case (Some v)
    let ?val = "list_price c (pin_productId i) (Some v) l (pin_quantity i)"
    have get: "assoc_get vmap (row_key v l) = find (variant_row_for c v l) (ctg_variantPrices c)"
      unfolding vmap_def by (rule variant_index [OF ok vp]) (use i Some in \<open>force simp: image_iff\<close>)
    have rest: "?look (foldl (put_product_price pmap) m0 ?ps) = ?look m0" for m0
    proof -
      have "?look (foldl (put_product_price pmap) m0 ?ps) = (if \<exists>j\<in>set ?ps. False then None else ?look m0)"
      proof (rule foldl_look)
        show "?look (put_product_price pmap m j) = (if False then None else ?look m)" if "j \<in> set ?ps" for m j
          using that key [of j] Some
          by (auto simp: put_product_price_def Let_def split: option.splits)
      qed
      then show ?thesis by simp
    qed
    have "?look (foldl (put_variant_price vmap) [] ?vs) = (if \<exists>j\<in>set ?vs. ?same j \<and> ?val \<noteq> None then ?val else ?look [])"
    proof (rule foldl_look)
      show "?look (put_variant_price vmap m j) = (if ?same j \<and> ?val \<noteq> None then ?val else ?look m)"
        if "j \<in> set ?vs" for m j
        using that key [of j "the_ident (pin_priceListId j)"] get Some
        by (auto simp: put_variant_price_def Let_def list_price_def split: option.splits)
    qed
    moreover have "i \<in> set ?vs" using i Some by simp
    ultimately show ?thesis unfolding batch rest using i(2) Some by auto
  qed
qed

end
