(* ===== verification/PriceCatalogProps.thy ===== *)
theory PriceCatalogProps
  imports PriceCatalogLaws
begin

text \<open>
  Properties of the catalogue: the batch resolution of prices is the price of each
  line's own list, and the availability check of the counter is the guard of the
  charge.
\<close>

definition tier :: "int \<Rightarrow> cents \<Rightarrow> tier_price" where
  "tier q p = \<lparr>tpr_minQuantity = q, tpr_priceCents = p\<rparr>"

text \<open>One product on two lists, with tiers on the default one.\<close>

definition sample_catalog :: price_catalog where
  "sample_catalog =
     \<lparr>ctg_globalLists =
        [\<lparr>gpl_id = ''g1'', gpl_name = ''PUBLICO'', gpl_isDefault = True\<rparr>,
         \<lparr>gpl_id = ''g2'', gpl_name = ''MAYOREO'', gpl_isDefault = False\<rparr>],
      ctg_priceLists =
        [\<lparr>plr_id = ''l1'', plr_productId = ''p'', plr_globalPriceListId = ''g1'', plr_priceCents = 1000,
          plr_tierPrices = [tier 3 900, tier 10 800]\<rparr>,
         \<lparr>plr_id = ''l2'', plr_productId = ''p'', plr_globalPriceListId = ''g2'', plr_priceCents = 700,
          plr_tierPrices = []\<rparr>],
      ctg_variantPrices = [],
      ctg_products =
        [\<lparr>cpd_stock = sample_product, cpd_sellInPos = True, cpd_categoryId = None, cpd_brandId = None,
          cpd_ivaRate = ''IVA_16'', cpd_chargeProductTaxes = True\<rparr>],
      ctg_images = []\<rparr>"

lemmas sample_catalog_simps = sample_catalog_def tier_def

lemma sample_catalog_ok: "catalog_ok sample_catalog"
  by (auto simp: catalog_ok_def sample_catalog_simps product_row_for_def plain_id_def)

definition price_ask :: "ident \<Rightarrow> int \<Rightarrow> price_input" where
  "price_ask l q = \<lparr>pin_productId = ''p'', pin_variantId = None, pin_priceListId = Some l,
     pin_globalPriceListId = None, pin_quantity = q\<rparr>"

text \<open>
  Property C30: the batch price map is right.  However many lines, lists and quantities
  one batch of two queries resolves, the entry of each line is exactly the price its
  list, named by its own id or by the global id, has for the line's quantity, tiers
  included, and a line whose list has no price for the product has no entry.
\<close>

theorem batch_prices_are_list_prices:
  assumes "catalog_ok c" and "\<forall>i\<in>set inputs. plain_input i"
    and "i \<in> set inputs" and "pin_priceListId i = Some l"
  shows "map_price (batchResolvePriceMap c inputs) (price_key (pin_productId i) (pin_variantId i) l) (pin_quantity i) =
    list_price c (pin_productId i) (pin_variantId i) l (pin_quantity i)"
  by (rule batch_price [OF assms])

theorem batch_prices_are_list_prices_witness:
  "map_price (batchResolvePriceMap sample_catalog [price_ask ''g1'' 2, price_ask ''g1'' 12, price_ask ''l2'' 5])
     (price_key ''p'' None ''g1'') 12 = Some 800"
proof -
  let ?inputs = "[price_ask ''g1'' 2, price_ask ''g1'' 12, price_ask ''l2'' 5]"
  have "\<forall>i\<in>set ?inputs. plain_input i"
    by (simp add: price_ask_def plain_input_def plain_id_def plain_variant_def)
  from batch_prices_are_list_prices [OF sample_catalog_ok this, of "price_ask ''g1'' 12" "''g1''"]
  have "map_price (batchResolvePriceMap sample_catalog ?inputs) (price_key ''p'' None ''g1'') 12 =
      list_price sample_catalog ''p'' None ''g1'' 12"
    by (simp add: price_ask_def)
  also have "\<dots> = Some 800" by code_simp
  finally show ?thesis .
qed

text \<open>What is sellable of a product, and what the availability check compares with.\<close>

lemma sum_filter_parts:
  "(\<Sum>l\<leftarrow>filter P ls. f l :: int) + (\<Sum>l\<leftarrow>filter (\<lambda>l. \<not> P l) ls. f l) = (\<Sum>l\<leftarrow>ls. f l)"
  by (induction ls) auto

lemma sellable_sum:
  "(\<Sum>l\<leftarrow>sellable_lots lots today. lts_quantity l) =
     (\<Sum>l\<leftarrow>filter (\<lambda>l. 0 < lts_quantity l \<and> \<not> isLotExpired (lts_expirationDate l) today) lots. lts_quantity l)"
proof -
  have "(\<Sum>l\<leftarrow>sort_key k ls. lts_quantity l) = (\<Sum>l\<leftarrow>ls. lts_quantity l)"
    for ls and k :: "lot_stock \<Rightarrow> timestamp \<times> ident"
    by (metis mset_map mset_sort sum_mset_sum_list)
  then show ?thesis by (simp add: sellable_lots_def)
qed

lemma sellable_quantity:
  assumes "product_ok p"
  shows "(\<Sum>l\<leftarrow>sellable_lots (pds_lots p) today. lts_quantity l) + untracked p =
    pds_quantity p - expiredLotQuantity p today"
proof -
  have "(\<Sum>l\<leftarrow>filter (\<lambda>l. 0 < lts_quantity l) ls. lts_quantity l) = (\<Sum>l\<leftarrow>ls. lts_quantity l)"
    if "\<forall>l\<in>set ls. 0 \<le> lts_quantity l" for ls :: "lot_stock list"
    using that by (induction ls) auto
  then have pos: "(\<Sum>l\<leftarrow>filter (\<lambda>l. 0 < lts_quantity l) (pds_lots p). lts_quantity l) =
      (\<Sum>l\<leftarrow>pds_lots p. lts_quantity l)" using assms by (simp add: product_ok_def)
  let ?ls = "filter (\<lambda>l. 0 < lts_quantity l) (pds_lots p)"
  have "(\<Sum>l\<leftarrow>filter (\<lambda>l. isLotExpired (lts_expirationDate l) today) ?ls. lts_quantity l) +
      (\<Sum>l\<leftarrow>filter (\<lambda>l. \<not> isLotExpired (lts_expirationDate l) today) ?ls. lts_quantity l) =
      (\<Sum>l\<leftarrow>pds_lots p. lts_quantity l)"
    unfolding sum_filter_parts pos ..
  then show ?thesis
    by (simp add: sellable_sum untracked_def expiredLotQuantity_def sumExpiredLotQuantity_def conj_commute)
qed

text \<open>
  The counter's availability check is the charge's guard.  For a tracked
  product without variants the check answers that a quantity is available exactly
  when charging that quantity on the same day would be accepted, untracked units and
  unexpired lots together, and the stock it reports is never below zero.
\<close>

theorem stock_check_is_charge_guard:
  assumes "find_product c i = Some p" and "pds_useStock (cpd_stock p)" and "\<not> pds_hasVariants (cpd_stock p)"
    and "product_ok (cpd_stock p)" and "distinct (map lts_id (pds_lots (cpd_stock p)))"
    and "\<forall>l\<in>set (pds_lots (cpd_stock p)). lts_id l \<noteq> []" and "0 < q"
  shows "\<exists>stock. checkStockAvailability c today i v q =
      Inr (fst (charge (sold_item i q) (new_plan [cpd_stock p] today)) = Inr (), Some stock) \<and> 0 \<le> stock"
proof -
  let ?p = "cpd_stock p" and ?s = "new_plan [cpd_stock p] today"
  have "pds_id ?p = i" using find_SomeD [OF assms(1) [unfolded find_product_def]] by (simp add: cpd_id_def)
  then have get: "assoc_get (spl_products ?s) i = Some ?p" by (simp add: new_plan_def)
  have ok: "plan_ok ?s" using assms(4) by (intro new_plan_ok) simp
  have today: "spl_today ?s = today" by (simp add: new_plan_def)
  have u: "0 \<le> untracked ?p" using assms(4) by (simp add: product_ok_def)
  let ?room = "(\<Sum>l\<leftarrow>sellable_lots (pds_lots ?p) (spl_today ?s). lts_quantity l) + untracked ?p"
  have room: "0 \<le> ?room" using u by (auto simp: sellable_lots_def intro!: add_nonneg_nonneg sum_list_nonneg)
  have "fst (charge (sold_item i q) ?s) = Inr () \<longleftrightarrow> q \<le> ?room"
  proof (cases "allocateFefo (Some i) (JsInt q) (untracked ?p) (pds_lots ?p) (spl_today ?s)")
    case (Inl e)
    from charge_refused [OF get assms(2) Inl] allocateFefo_fails [OF Inl assms(7) u] show ?thesis by simp
  next
    case (Inr as)
    from charge_accepted [OF ok get assms(2,3,5,6,7) Inr] allocateFefo_fits [OF Inr assms(7) u]
    show ?thesis by auto
  qed
  moreover have "?room = pds_quantity ?p - expiredLotQuantity ?p today"
    using sellable_quantity [OF assms(4), of today] by (simp add: today)
  ultimately show ?thesis
    using assms(1-3,7) room by (auto simp: checkStockAvailability_def Let_def)
qed

theorem stock_check_is_charge_guard_witness:
  "\<exists>stock. checkStockAvailability sample_catalog 1 ''p'' None 8 = Inr (True, Some stock)"
proof -
  let ?p = "hd (ctg_products sample_catalog)"
  have p: "find_product sample_catalog ''p'' = Some ?p"
    by (simp add: find_product_def sample_catalog_simps cpd_id_def sample_product_def)
  have "pds_useStock (cpd_stock ?p)" "\<not> pds_hasVariants (cpd_stock ?p)" "product_ok (cpd_stock ?p)"
    "distinct (map lts_id (pds_lots (cpd_stock ?p)))" "\<forall>l\<in>set (pds_lots (cpd_stock ?p)). lts_id l \<noteq> []"
    by (simp_all add: sample_catalog_simps sample_stock_simps product_ok_def untracked_def)
  from stock_check_is_charge_guard [OF p this, of 8 1 None] obtain stock where
    "checkStockAvailability sample_catalog 1 ''p'' None 8 =
      Inr (fst (charge (sold_item ''p'' 8) (new_plan [cpd_stock ?p] 1)) = Inr (), Some stock)" by auto
  moreover have "fst (charge (sold_item ''p'' 8) (new_plan [cpd_stock ?p] 1)) = Inr ()" by code_simp
  ultimately show ?thesis by simp
qed

end
