(* ===== verification/SalesPricing.thy ===== *)
theory SalesPricing
  imports SaleLaws EngineLoop PriceCatalog
begin

section \<open>Repricing a draft\<close>

text \<open>
  The pricing pipeline of \<open>src/src/sales/sales.service.ts\<close>: clear the promotions'
  discounts, reprice the lines that follow a list, evaluate the promotions, apply
  what they give, prune the opt-ins that lost their target; and the price check of a
  charge.  The draft is the aggregate \<open>sale\<close>, mutated in memory by the code and
  returned by the model; a step that throws leaves the stored sale alone, as nothing
  is saved before the pipeline ends.  The clock is read once.
\<close>

subsection \<open>What the pipeline reads\<close>

record pricing_env =
  pce_catalog :: price_catalog
  pce_promotions :: "promotion list"
  pce_weekday :: "timestamp \<Rightarrow> day_of_week"
  pce_now :: timestamp

subsection \<open>Tier-aware repricing\<close>

definition is_manual_discount :: "sale_item \<Rightarrow> bool" where
  "is_manual_discount it \<longleftrightarrow> si_discountType it \<noteq> None \<and> si_promotionId it = None"

definition is_sticky :: "sale_item \<Rightarrow> bool" where
  "is_sticky it \<longleftrightarrow> si_priceSource it = SourceCustom \<or> is_manual_discount it"

definition resolveDefaultGlobalPriceListId :: "price_catalog \<Rightarrow> ident option" where
  "resolveDefaultGlobalPriceListId c = map_option gpl_id (find gpl_isDefault (ctg_globalLists c))"

definition effective_global_list :: "price_catalog \<Rightarrow> sale \<Rightarrow> ident option" where
  "effective_global_list c s =
     (case sa_globalPriceListId s of
        Some g \<Rightarrow> Some g | None \<Rightarrow> resolveDefaultGlobalPriceListId c)"

definition effective_list :: "ident option \<Rightarrow> sale_item \<Rightarrow> ident option" where
  "effective_list global it =
     (case si_appliedPriceListId it of Some l \<Rightarrow> Some l | None \<Rightarrow> global)"

definition reprice_inputs :: "ident option \<Rightarrow> sale_item list \<Rightarrow> price_input list" where
  "reprice_inputs global its =
     List.map_filter (\<lambda>it.
       if is_sticky it then None
       else map_option (\<lambda>l.
           \<lparr>pin_productId = si_productId it, pin_variantId = si_variantId it,
            pin_priceListId = Some l,
            pin_globalPriceListId = (if Some l = global then Some l else None),
            pin_quantity = si_quantity it\<rparr>)
         (effective_list global it)) its"

definition reprice_item :: "ident option \<Rightarrow> price_map \<Rightarrow> sale_item \<Rightarrow> sale_item result" where
  "reprice_item global m it =
     (if is_sticky it then Inr it
      else case effective_list global it of
        None \<Rightarrow> Inr it
      | Some l \<Rightarrow>
          (case map_price m (price_key (si_productId it) (si_variantId it) l) (si_quantity it) of
             None \<Rightarrow> Inr it
           | Some price \<Rightarrow>
               reprice \<lparr>rpi_priceCents = JsInt price, rpi_priceSource = SourcePriceList,
                        rpi_appliedPriceListId = si_appliedPriceListId it\<rparr> it))"

definition repriceNonStickyLines :: "price_catalog \<Rightarrow> sale \<Rightarrow> sale result" where
  "repriceNonStickyLines c s =
     (let global = effective_global_list c s;
          inputs = reprice_inputs global (sa_items s)
      in if inputs = [] then Inr s
         else mapR (\<lambda>its. s\<lparr>sa_items := its\<rparr>)
           (mapM_list (reprice_item global (batchResolvePriceMap c inputs)) (sa_items s)))"

subsection \<open>The engine's input\<close>

definition eval_line ::
  "(ident \<times> ident) list \<Rightarrow> (ident \<times> (ident option \<times> ident option)) list \<Rightarrow> sale_item \<Rightarrow> pos_eval_line" where
  "eval_line globals groups it =
     \<lparr>pel_itemId = si_id it, pel_productId = si_productId it, pel_variantId = si_variantId it,
      pel_quantity = si_quantity it, pel_effectiveUnitPriceCents = item_baseline it,
      pel_appliedPriceListId = si_appliedPriceListId it,
      pel_appliedGlobalPriceListId =
        (case si_appliedPriceListId it of None \<Rightarrow> None | Some l \<Rightarrow> assoc_get globals l),
      pel_categoryId = (case assoc_get groups (si_productId it) of None \<Rightarrow> None | Some g \<Rightarrow> fst g),
      pel_brandId = (case assoc_get groups (si_productId it) of None \<Rightarrow> None | Some g \<Rightarrow> snd g),
      pel_hasManualDiscount = is_manual_discount it\<rparr>"

definition buildPosEvalInput :: "pricing_env \<Rightarrow> sale \<Rightarrow> pos_eval_input" where
  "buildPosEvalInput env s =
     (let lists = unique (map the_ident (filter truthy (map si_appliedPriceListId (sa_items s))));
          products = unique (filter (\<lambda>p. p \<noteq> []) (map si_productId (sa_items s)));
          globals = (if lists = [] then [] else resolvePriceListGlobalIds (pce_catalog env) lists);
          groups = (if products = [] then []
            else resolveProductCategoryBrandIds (pce_catalog env) products)
      in \<lparr>pei_botEligibleOnly = False, pei_treatCustomerAsUnregistered = False,
          pei_now = pce_now env, pei_customerId = sa_customerId s,
          pei_lines = map (eval_line globals groups) (sa_items s),
          pei_vetoedPromotionIds = sa_vetoedPromotionIds s,
          pei_optedInManualPromotionIds = sa_optedInManualPromotionIds s\<rparr>)"

definition bind_bot_list :: "ident option \<Rightarrow> pos_eval_line \<Rightarrow> pos_eval_line" where
  "bind_bot_list bound l =
     (if pel_appliedPriceListId l = None then l\<lparr>pel_appliedGlobalPriceListId := bound\<rparr> else l)"

definition eval_input :: "pricing_env \<Rightarrow> bool \<Rightarrow> bool \<Rightarrow> sale \<Rightarrow> pos_eval_input" where
  "eval_input env botEligibleOnly asUnregistered s =
     (let input = buildPosEvalInput env s;
          input1 = (if botEligibleOnly
            then input\<lparr>pei_botEligibleOnly := True,
              pei_lines := map (bind_bot_list (effective_global_list (pce_catalog env) s)) (pei_lines input)\<rparr>
            else input)
      in if asUnregistered then input1\<lparr>pei_treatCustomerAsUnregistered := True\<rparr> else input1)"

definition evaluatePromotionsForSale ::
  "pricing_env \<Rightarrow> bool \<Rightarrow> bool \<Rightarrow> sale \<Rightarrow> pos_eval_result" where
  "evaluatePromotionsForSale env botEligibleOnly asUnregistered s =
     evaluate (pce_weekday env) (eval_input env botEligibleOnly asUnregistered s) (pce_promotions env)"

subsection \<open>Applying what the engine gives\<close>

definition clear_promotion :: "sale_item \<Rightarrow> sale_item" where
  "clear_promotion it = (if si_promotionId it \<noteq> None then removeDiscount it else it)"

definition line_reward :: "line_result \<Rightarrow> reward_kind \<Rightarrow> reward_input" where
  "line_reward r k =
     \<lparr>rwi_lineDiscountCents = JsInt (lr_lineDiscountCents r),
      rwi_perUnitRewardCents = lr_perUnitRewardCents r,
      rwi_discountedUnitCount = lr_discountedUnitCount r, rwi_discountTitle = Some (lr_title r),
      rwi_promotionId = lr_promotionId r, rwi_getDiscountPercent = lr_getDiscountPercent r,
      rwi_rewardKind = Some k\<rparr>"

fun apply_line_result :: "timestamp \<Rightarrow> line_result \<Rightarrow> sale_item \<Rightarrow> sale_item result" where
  "apply_line_result now (BuyXGetYResult i p t d u n g) it =
     applyBuyXGetYReward now (line_reward (BuyXGetYResult i p t d u n g) RewardBuyXGetY) it"
| "apply_line_result now (AdvancedResult i p t d u n g) it =
     applyBuyXGetYReward now (line_reward (AdvancedResult i p t d u n g) RewardAdvanced) it"
| "apply_line_result now (PerUnitResult i p k v t) it =
     applyDiscount now
       \<lparr>adi_type = k,
        adi_amountCents = (if k = AmountDiscount then Some (JsInt v) else None),
        adi_percent = (if k = PercentageDiscount then Some (JsInt v) else None),
        adi_discountTitle = Some t, adi_strategy = None, adi_promotionId = Some p\<rparr> it"

text \<open>\<open>sale.items.find\<close>, \<open>continue\<close> when there is none.\<close>

definition apply_result_line ::
  "timestamp \<Rightarrow> sale_item list \<Rightarrow> line_result \<Rightarrow> sale_item list result" where
  "apply_result_line now its r =
     (case find (has_id (lr_itemId r)) its of
        None \<Rightarrow> Inr its
      | Some it \<Rightarrow>
          mapR (\<lambda>it'. update_first (has_id (lr_itemId r)) (\<lambda>_. it') its) (apply_line_result now r it))"

definition order_snapshot :: "order_result \<Rightarrow> order_promotion_snapshot" where
  "order_snapshot o' =
     \<lparr>ops_promotionId = Some (orr_promotionId o'), ops_discountType = Some (orr_discountType o'),
      ops_discountValue = Some (orr_discountValue o'),
      ops_discountAmountCents = orr_discountAmountCents o',
      ops_discountTitle = Some (orr_discountTitle o')\<rparr>"

definition apply_order :: "order_result option \<Rightarrow> sale \<Rightarrow> sale" where
  "apply_order o' s =
     (case o' of
        Some r \<Rightarrow> setAppliedOrderPromotion (order_snapshot r) s
      | None \<Rightarrow> clearAppliedOrderPromotion s)"

definition prune_opt_ins :: "ident list \<Rightarrow> sale \<Rightarrow> sale" where
  "prune_opt_ins targetables s =
     foldl (\<lambda>s p. if p \<in> set targetables then s else optOutManualPromotion p s) s
       (sa_optedInManualPromotionIds s)"

definition recomputePricingAndPromotions ::
  "pricing_env \<Rightarrow> bool \<Rightarrow> bool \<Rightarrow> sale \<Rightarrow> (sale \<times> (ident \<times> int) list \<times> ident list) result" where
  "recomputePricingAndPromotions env botEligibleOnly asUnregistered s =
     andThen (ensureDraft s) (\<lambda>_.
     andThen (repriceNonStickyLines (pce_catalog env)
         (s\<lparr>sa_items := map clear_promotion (sa_items s)\<rparr>)) (\<lambda>repriced.
       let result = evaluatePromotionsForSale env botEligibleOnly asUnregistered repriced in
       andThen (loopR (apply_result_line (pce_now env)) (sa_items repriced) (per_lines result)) (\<lambda>its.
         Inr (prune_opt_ins (per_targetableManualPromotionIds result)
               (apply_order (per_order result) (repriced\<lparr>sa_items := its\<rparr>)),
              per_promotionCapacityDemands result, per_capacityExcludedPromotionIds result))))"

subsection \<open>The price check of a charge\<close>

definition resolveChargeValidationPrice ::
  "price_catalog \<Rightarrow> ident option \<Rightarrow> sale_item \<Rightarrow> cents result" where
  "resolveChargeValidationPrice c globalList it =
     (if si_priceSource it = SourcePriceList \<and> truthy (si_appliedPriceListId it)
        then resolveListPrice c (the_ident (si_appliedPriceListId it)) (si_productId it)
          (si_variantId it) (si_quantity it)
      else if si_priceSource it = SourcePriceList \<and> truthy globalList
        then
          let g = the_ident globalList;
              m = batchResolvePriceMap c
                [\<lparr>pin_productId = si_productId it, pin_variantId = si_variantId it,
                  pin_priceListId = Some g, pin_globalPriceListId = Some g,
                  pin_quantity = si_quantity it\<rparr>]
          in (case map_price m (price_key (si_productId it) (si_variantId it) g) (si_quantity it) of
                Some price \<Rightarrow> Inr price
              | None \<Rightarrow> Inl (rule_violation ''PRICE_OUT_OF_DATE''))
      else mapR pif_unitPriceCents (getProductInfoForSale c (si_productId it) (si_variantId it)))"

definition check_charge_price :: "price_catalog \<Rightarrow> ident option \<Rightarrow> sale_item \<Rightarrow> unit result" where
  "check_charge_price c globalList it =
     (if si_priceSource it = SourceCustom then Inr ()
      else andThen (resolveChargeValidationPrice c globalList it) (\<lambda>current.
        throw_if (current \<noteq> item_baseline it) (rule_violation ''PRICE_OUT_OF_DATE'')))"

text \<open>The loop over the items.\<close>

definition check_charge_prices :: "price_catalog \<Rightarrow> sale \<Rightarrow> unit result" where
  "check_charge_prices c s =
     loopR (\<lambda>_ it. check_charge_price c (sa_globalPriceListId s) it) () (sa_items s)"

text \<open>The promotions on the draft before the recompute of a charge.\<close>

definition applied_promotion_ids :: "sale \<Rightarrow> ident list" where
  "applied_promotion_ids s =
     map the_ident (filter truthy (map si_promotionId (sa_items s))) @
     (case sa_appliedOrderPromotion s of
        None \<Rightarrow> []
      | Some p \<Rightarrow> (if truthy (ops_promotionId p) then [the_ident (ops_promotionId p)] else []))"

end
