(* ===== verification/SalesPricingLaws.thy ===== *)
theory SalesPricingLaws
  imports SalesPricing EngineProps PriceCatalogLaws
begin

text \<open>
  The laws of the pricing pipeline: what a recompute keeps of a line, which price a
  line ends with, and when the price check of a charge accepts it.
\<close>

subsection \<open>What a step keeps of a line\<close>

definition kept :: "sale_item \<Rightarrow> sale_item \<Rightarrow> bool" where
  "kept it it' \<longleftrightarrow>
     si_id it' = si_id it \<and> si_productId it' = si_productId it \<and> si_variantId it' = si_variantId it \<and>
     si_quantity it' = si_quantity it \<and> si_priceSource it' = si_priceSource it \<and>
     si_appliedPriceListId it' = si_appliedPriceListId it \<and> item_baseline it' = item_baseline it \<and>
     is_manual_discount it' = is_manual_discount it"

lemma kept_refl [simp]: "kept it it"
  by (simp add: kept_def)

lemma kept_check: "kept it it' \<Longrightarrow> check_charge_price c g it' = check_charge_price c g it"
  by (simp add: kept_def check_charge_price_def resolveChargeValidationPrice_def)

definition same_line :: "sale_item \<Rightarrow> sale_item \<Rightarrow> bool" where
  "same_line it it' \<longleftrightarrow>
     si_id it' = si_id it \<and> si_productId it' = si_productId it \<and> si_variantId it' = si_variantId it \<and>
     si_quantity it' = si_quantity it \<and> si_appliedPriceListId it' = si_appliedPriceListId it"

text \<open>A line the promotions have been cleared from: manually discounted, or with no discount.\<close>

lemma removeDiscount_line: "same_line it (removeDiscount it)"
  by (simp add: same_line_def removeDiscount_def clearDiscountFields_def split: option.splits)

lemma clear_line:
  assumes "item_ok it"
  shows "same_line it (clear_promotion it) \<and> item_ok (clear_promotion it) \<and>
    si_priceSource (clear_promotion it) = si_priceSource it \<and>
    is_manual_discount (clear_promotion it) = is_manual_discount it \<and>
    (\<not> is_manual_discount it \<longrightarrow> si_discountType (clear_promotion it) = None)"
proof (cases "si_promotionId it = None")
  case True
  with assms show ?thesis by (auto simp: clear_promotion_def same_line_def is_manual_discount_def)
next
  case False
  then have c: "clear_promotion it = removeDiscount it" by (simp add: clear_promotion_def)
  have "si_priceSource (removeDiscount it) = si_priceSource it"
    by (simp add: removeDiscount_def clearDiscountFields_def split: option.splits)
  with False show ?thesis
    unfolding c using removeDiscount_line removeDiscount_ok [OF assms]
    by (simp add: is_manual_discount_def)
qed

lemma reprice_line:
  assumes "reprice_item g m it = Inr it'" and "item_ok it"
    and "\<not> is_manual_discount it \<longrightarrow> si_discountType it = None"
  shows "same_line it it' \<and> item_ok it' \<and> is_manual_discount it' = is_manual_discount it \<and>
    (\<not> is_manual_discount it \<longrightarrow> si_discountType it' = None)"
proof (cases "it' = it")
  case True
  with assms show ?thesis by (simp add: same_line_def)
next
  case False
  with assms(1) obtain i where r: "reprice i it = Inr it'" and ns: "\<not> is_sticky it"
    and a: "rpi_appliedPriceListId i = si_appliedPriceListId it"
    by (auto simp: reprice_item_def split: if_splits option.splits)
  then have "si_discountType it = None" using assms(3) by (simp add: is_sticky_def)
  with reprice_ok [OF r assms(2)] r a show ?thesis
    by (auto simp: reprice_def same_line_def is_manual_discount_def split: js_number.splits if_splits)
qed

lemma apply_line_kept:
  assumes "apply_line_result now r it = Inr it'" and "si_prePriceCentsBeforeDiscount it = None"
    and "\<not> is_manual_discount it"
  shows "kept it it' \<and> si_promotionId it' = Some (lr_promotionId r)"
proof (cases r)
  case (PerUnitResult i p k v t)
  with assms show ?thesis
    by (auto elim!: applyDiscountE simp: kept_def is_manual_discount_def)
next
  case (BuyXGetYResult i p t d u n g)
  with assms show ?thesis
    by (auto elim!: applyRewardE simp: kept_def line_reward_def is_manual_discount_def)
next
  case (AdvancedResult i p t d u n g)
  with assms show ?thesis
    by (auto elim!: applyRewardE simp: kept_def line_reward_def is_manual_discount_def)
qed

lemma list_all2_update_first:
  "find p xs = Some x \<Longrightarrow> R x y \<Longrightarrow> (\<And>z. R z z) \<Longrightarrow> list_all2 R xs (update_first p (\<lambda>_. y) xs)"
  by (induction xs) (auto simp: list.rel_refl split: if_splits)

lemma apply_results_kept:
  assumes "loopR (apply_result_line now) its rs = Inr its'" and "distinct (map lr_itemId rs)"
    and "\<forall>it\<in>set its. si_id it \<in> lr_itemId ` set rs \<longrightarrow>
      si_prePriceCentsBeforeDiscount it = None \<and> \<not> is_manual_discount it"
  shows "list_all2 kept its its'"
  using assms
proof (induction rs arbitrary: its)
  case Nil
  then show ?case by (simp add: list.rel_refl)
next
  case (Cons r rs)
  from Cons.prems(1) obtain its1 where
    one: "apply_result_line now its r = Inr its1" and rest: "loopR (apply_result_line now) its1 rs = Inr its'"
    by (auto simp: result_simps)
  have step: "list_all2 kept its its1 \<and>
      (\<forall>it\<in>set its1. si_id it \<noteq> lr_itemId r \<longrightarrow> it \<in> set its)"
  proof (cases "find (has_id (lr_itemId r)) its")
    case None
    with one show ?thesis by (auto simp: apply_result_line_def list.rel_refl)
  next
    case (Some it)
    with one obtain it' where it': "apply_line_result now r it = Inr it'"
      "its1 = update_first (has_id (lr_itemId r)) (\<lambda>_. it') its"
      by (auto simp: apply_result_line_def result_simps)
    have it: "it \<in> set its" "si_id it = lr_itemId r" using find_SomeD [OF Some] by (auto simp: has_id_def)
    with Cons.prems(3) have "si_prePriceCentsBeforeDiscount it = None" "\<not> is_manual_discount it" by simp_all
    from apply_line_kept [OF it'(1) this] have k: "kept it it'" by simp
    then have "si_id it' = lr_itemId r" using it by (simp add: kept_def)
    then have "x \<in> set its" if "x \<in> set its1" "si_id x \<noteq> lr_itemId r" for x
      using that set_update_first [of "has_id (lr_itemId r)" "\<lambda>_. it'" its] unfolding it'(2) by auto
    with list_all2_update_first [where R = kept, OF Some k kept_refl] show ?thesis by (simp add: it'(2))
  qed
  have "\<forall>it\<in>set its1. si_id it \<in> lr_itemId ` set rs \<longrightarrow>
      si_prePriceCentsBeforeDiscount it = None \<and> \<not> is_manual_discount it"
  proof (intro ballI impI)
    fix it
    assume it: "it \<in> set its1" "si_id it \<in> lr_itemId ` set rs"
    with Cons.prems(2) have "si_id it \<noteq> lr_itemId r" by auto
    with step it Cons.prems(3) show "si_prePriceCentsBeforeDiscount it = None \<and> \<not> is_manual_discount it" by auto
  qed
  from Cons.IH [OF rest _ this] Cons.prems(2) have "list_all2 kept its1 its'" by simp
  with step show ?case
    by (auto intro: list_all2_trans [where as = its and bs = its1, rotated] simp: kept_def)
qed

subsection \<open>The engine's results on a draft\<close>

lemma eval_line_fields [simp]:
  "pel_itemId (eval_line a b it) = si_id it" "pel_quantity (eval_line a b it) = si_quantity it"
  "pel_effectiveUnitPriceCents (eval_line a b it) = item_baseline it"
  "pel_hasManualDiscount (eval_line a b it) = is_manual_discount it"
  by (simp_all add: eval_line_def)

lemma bind_bot_fields [simp]:
  "pel_itemId (bind_bot_list l x) = pel_itemId x" "pel_quantity (bind_bot_list l x) = pel_quantity x"
  "pel_effectiveUnitPriceCents (bind_bot_list l x) = pel_effectiveUnitPriceCents x"
  "pel_hasManualDiscount (bind_bot_list l x) = pel_hasManualDiscount x"
  by (simp_all add: bind_bot_list_def)

lemma eval_input_lines:
  obtains f where "pei_lines (eval_input env b u s) = map f (sa_items s)"
    "\<And>it. pel_itemId (f it) = si_id it" "\<And>it. pel_quantity (f it) = si_quantity it"
    "\<And>it. pel_effectiveUnitPriceCents (f it) = item_baseline it"
    "\<And>it. pel_hasManualDiscount (f it) = is_manual_discount it"
proof -
  obtain x y where base: "pei_lines (buildPosEvalInput env s) = map (eval_line x y) (sa_items s)"
    unfolding buildPosEvalInput_def Let_def by auto
  let ?l = "effective_global_list (pce_catalog env) s"
  let ?f = "if b then bind_bot_list ?l \<circ> eval_line x y else eval_line x y"
  have "pei_lines (eval_input env b u s) = map ?f (sa_items s)"
    by (simp add: eval_input_def Let_def base)
  then show thesis by (rule that) auto
qed

lemma evaluate_results_ok:
  assumes "cart_ok (pei_lines input)" and "\<forall>p\<in>set data. promotion_shape p"
  shows "results_ok (pei_lines input) (per_lines (evaluate weekday input data))"
proof -
  let ?data = "if pei_botEligibleOnly input then filter pm_botEligible data else data"
  obtain ex where "evaluate weekday input data = pso_result (runEvaluationPass weekday input ?data ex)"
    using evaluate_loop_pass [of weekday input ?data "[]"] by (auto simp: evaluate_def)
  moreover have "\<forall>p\<in>set (filter (\<lambda>p. pm_id p \<notin> set ex) ?data). promotion_shape p"
    using assms(2) by auto
  ultimately show ?thesis using selected_lines_ok [OF assms(1)] by (simp add: run_pass_fields)
qed

subsection \<open>A recompute\<close>

definition draft_ok :: "sale \<Rightarrow> bool" where
  "draft_ok s \<longleftrightarrow>
     (\<forall>it\<in>set (sa_items s). item_ok it \<and> plain_id (si_productId it) \<and> plain_variant (si_variantId it)) \<and>
     distinct (map si_id (sa_items s))"

text \<open>The lines after the clear and the reprice.\<close>

definition repriced_items :: "pricing_env \<Rightarrow> sale \<Rightarrow> sale_item list \<Rightarrow> bool" where
  "repriced_items env s its \<longleftrightarrow>
     (\<exists>r. repriceNonStickyLines (pce_catalog env) (s\<lparr>sa_items := map clear_promotion (sa_items s)\<rparr>) = Inr r \<and>
        its = sa_items r)"

lemma map_filter_Cons:
  "List.map_filter f (x # xs) = (case f x of None \<Rightarrow> List.map_filter f xs | Some y \<Rightarrow> y # List.map_filter f xs)"
  by (simp add: List.map_filter_simps)

lemma reprice_inputs_mem:
  "i \<in> set (reprice_inputs g its) \<longleftrightarrow>
     (\<exists>it\<in>set its. \<not> is_sticky it \<and> (\<exists>l. effective_list g it = Some l \<and>
        i = \<lparr>pin_productId = si_productId it, pin_variantId = si_variantId it, pin_priceListId = Some l,
          pin_globalPriceListId = (if Some l = g then Some l else None), pin_quantity = si_quantity it\<rparr>))"
  by (auto simp: reprice_inputs_def)

text \<open>Repricing gives each line that follows a list the price the list has for it.\<close>

lemma repriced_line:
  assumes ok: "catalog_ok c" and plain: "\<forall>it\<in>set its. plain_id (si_productId it) \<and> plain_variant (si_variantId it)"
    and it: "it \<in> set its"
  shows "reprice_item g (batchResolvePriceMap c (reprice_inputs g its)) it =
    (if is_sticky it then Inr it
     else case effective_list g it of
       None \<Rightarrow> Inr it
     | Some l \<Rightarrow>
         (case list_price c (si_productId it) (si_variantId it) l (si_quantity it) of
            None \<Rightarrow> Inr it
          | Some price \<Rightarrow>
              reprice \<lparr>rpi_priceCents = JsInt price, rpi_priceSource = SourcePriceList,
                       rpi_appliedPriceListId = si_appliedPriceListId it\<rparr> it))"
proof (cases "is_sticky it")
  case True
  then show ?thesis by (simp add: reprice_item_def)
next
  case False
  show ?thesis
  proof (cases "effective_list g it")
    case None
    with False show ?thesis by (simp add: reprice_item_def)
  next
    case (Some l)
    let ?i = "\<lparr>pin_productId = si_productId it, pin_variantId = si_variantId it, pin_priceListId = Some l,
          pin_globalPriceListId = (if Some l = g then Some l else None), pin_quantity = si_quantity it\<rparr>"
    have mem: "?i \<in> set (reprice_inputs g its)"
      unfolding reprice_inputs_mem using it False Some by blast
    have "\<forall>i\<in>set (reprice_inputs g its). plain_input i"
      using plain by (auto simp: reprice_inputs_mem plain_input_def)
    from batch_price [OF ok this mem] False Some show ?thesis by (simp add: reprice_item_def)
  qed
qed

lemma repriceNonSticky_items:
  assumes "catalog_ok c" and "\<forall>it\<in>set (sa_items s). plain_id (si_productId it) \<and> plain_variant (si_variantId it)"
    and "repriceNonStickyLines c s = Inr r"
  shows "r = s\<lparr>sa_items := sa_items r\<rparr> \<and>
    list_all2 (\<lambda>it it'. reprice_item (effective_global_list c s)
      (batchResolvePriceMap c (reprice_inputs (effective_global_list c s) (sa_items s))) it = Inr it')
      (sa_items s) (sa_items r)"
proof -
  let ?g = "effective_global_list c s"
  have none: "reprice_item ?g m it = Inr it"
    if "reprice_inputs ?g (sa_items s) = []" "it \<in> set (sa_items s)" for m it
  proof -
    from that have "is_sticky it \<or> effective_list ?g it = None"
      unfolding reprice_inputs_def map_filter_Nil_iff by (auto split: if_splits)
    then show ?thesis by (auto simp: reprice_item_def)
  qed
  show ?thesis
  proof (cases "reprice_inputs ?g (sa_items s) = []")
    case True
    with assms(3) have "r = s" by (simp add: repriceNonStickyLines_def)
    then show ?thesis using none [OF True] by (auto simp: list.rel_refl_strong)
  next
    case False
    with assms(3) show ?thesis
      by (auto simp: repriceNonStickyLines_def Let_def result_simps mapM_list_Inr)
  qed
qed

lemma list_all2_trans2:
  "list_all2 P xs ys \<Longrightarrow> list_all2 Q ys zs \<Longrightarrow> (\<And>x y z. P x y \<Longrightarrow> Q y z \<Longrightarrow> R x z) \<Longrightarrow> list_all2 R xs zs"
  by (rule list_all2_trans)

lemma list_all2_strong:
  "list_all2 P xs ys \<Longrightarrow> (\<And>x y. x \<in> set xs \<Longrightarrow> P x y \<Longrightarrow> Q x y) \<Longrightarrow> list_all2 Q xs ys"
  by (induction rule: list_all2_induct) auto

lemma list_all2_map_eq: "list_all2 P xs ys \<Longrightarrow> (\<And>x y. P x y \<Longrightarrow> f x = f y) \<Longrightarrow> map f xs = map f ys"
  by (induction rule: list_all2_induct) auto

lemma list_all2_set_right: "list_all2 P xs ys \<Longrightarrow> y \<in> set ys \<Longrightarrow> \<exists>x\<in>set xs. P x y"
  by (induction rule: list_all2_induct) auto

text \<open>The price a line ends with before the promotions.\<close>

definition repriced_to :: "price_catalog \<Rightarrow> ident option \<Rightarrow> sale_item \<Rightarrow> sale_item \<Rightarrow> bool" where
  "repriced_to c g it it' \<longleftrightarrow>
     same_line it it' \<and> is_manual_discount it' = is_manual_discount it \<and>
     (if is_sticky it then si_priceSource it' = si_priceSource it \<and> item_baseline it' = item_baseline it
      else case effective_list g it of
        None \<Rightarrow> si_priceSource it' = si_priceSource it \<and> item_baseline it' = item_baseline it
      | Some l \<Rightarrow>
          (case list_price c (si_productId it) (si_variantId it) l (si_quantity it) of
             None \<Rightarrow> si_priceSource it' = si_priceSource it \<and> item_baseline it' = item_baseline it
           | Some price \<Rightarrow> si_priceSource it' = SourcePriceList \<and> item_baseline it' = price))"

lemma clear_baseline: "item_ok it \<Longrightarrow> item_baseline (clear_promotion it) = item_baseline it"
  by (simp add: clear_promotion_def)

lemma sticky_cleared: "item_ok it \<Longrightarrow> is_sticky (clear_promotion it) = is_sticky it"
  using clear_line [of it] by (simp add: is_sticky_def)

lemma prune_fields [simp]:
  "sa_items (prune_opt_ins ts s) = sa_items s"
  "sa_globalPriceListId (prune_opt_ins ts s) = sa_globalPriceListId s"
proof -
  have "sa_items (foldl (\<lambda>s p. if p \<in> set ts then s else optOutManualPromotion p s) s ps) = sa_items s \<and>
      sa_globalPriceListId (foldl (\<lambda>s p. if p \<in> set ts then s else optOutManualPromotion p s) s ps) =
        sa_globalPriceListId s" for ps
    by (induction ps arbitrary: s) (simp_all add: optOutManualPromotion_def)
  then show "sa_items (prune_opt_ins ts s) = sa_items s"
    "sa_globalPriceListId (prune_opt_ins ts s) = sa_globalPriceListId s"
    by (simp_all add: prune_opt_ins_def)
qed

lemma apply_order_fields [simp]:
  "sa_items (apply_order r s) = sa_items s"
  "sa_globalPriceListId (apply_order r s) = sa_globalPriceListId s"
  by (simp_all add: apply_order_def setAppliedOrderPromotion_def clearAppliedOrderPromotion_def
      split: option.splits)

lemma recompute_lines:
  assumes ok: "draft_ok s" and cat: "catalog_ok (pce_catalog env)"
    and shapes: "\<forall>p\<in>set (pce_promotions env). promotion_shape p"
    and run: "recomputePricingAndPromotions env b u s = Inr (s', demands, excluded)"
  shows "list_all2 (repriced_to (pce_catalog env) (effective_global_list (pce_catalog env) s)) (sa_items s) (sa_items s') \<and>
    sa_globalPriceListId s' = sa_globalPriceListId s"
proof -
  let ?c = "pce_catalog env"
  let ?s0 = "s\<lparr>sa_items := map clear_promotion (sa_items s)\<rparr>"
  let ?g = "effective_global_list ?c s"
  from run obtain r its where
    reprice: "repriceNonStickyLines ?c ?s0 = Inr r"
    and applied: "loopR (apply_result_line (pce_now env)) (sa_items r)
      (per_lines (evaluatePromotionsForSale env b u r)) = Inr its"
    and s': "s' = prune_opt_ins (per_targetableManualPromotionIds (evaluatePromotionsForSale env b u r))
      (apply_order (per_order (evaluatePromotionsForSale env b u r)) (r\<lparr>sa_items := its\<rparr>))"
    by (auto simp: recomputePricingAndPromotions_def result_simps Let_def)
  have g: "effective_global_list ?c ?s0 = ?g" by (simp add: effective_global_list_def cong: option.case_cong)
  have line: "item_ok (clear_promotion it) \<and> same_line it (clear_promotion it) \<and>
      is_manual_discount (clear_promotion it) = is_manual_discount it \<and>
      (\<not> is_manual_discount it \<longrightarrow> si_discountType (clear_promotion it) = None)" if "it \<in> set (sa_items s)" for it
    using clear_line ok that by (auto simp: draft_ok_def)
  have plain: "\<forall>it\<in>set (sa_items ?s0). plain_id (si_productId it) \<and> plain_variant (si_variantId it)"
    using line ok by (fastforce simp: draft_ok_def same_line_def)
  from repriceNonSticky_items [OF cat plain reprice] have
    r: "r = ?s0\<lparr>sa_items := sa_items r\<rparr>" and
    all: "list_all2 (\<lambda>it it'. reprice_item ?g (batchResolvePriceMap ?c (reprice_inputs ?g (sa_items ?s0))) it = Inr it')
      (map clear_promotion (sa_items s)) (sa_items r)" by (simp_all add: g)
  have priced: "list_all2 (\<lambda>it it'. repriced_to ?c ?g it it' \<and> item_ok it' \<and>
      (\<not> is_manual_discount it' \<longrightarrow> si_discountType it' = None)) (sa_items s) (sa_items r)"
  proof (rule list_all2_strong [OF all [unfolded list_all2_map1]])
    fix it it'
    assume it: "it \<in> set (sa_items s)"
      and rp: "reprice_item ?g (batchResolvePriceMap ?c (reprice_inputs ?g (sa_items ?s0))) (clear_promotion it) = Inr it'"
    have iok: "item_ok it" using ok it by (simp add: draft_ok_def)
    note l = line [OF it] and st = sticky_cleared [OF iok] and bl = clear_baseline [OF iok]
    have mem: "clear_promotion it \<in> set (sa_items ?s0)" using it by simp
    note eq = rp [unfolded repriced_line [OF cat plain mem]]
    from reprice_line [OF rp] l have keep: "same_line it it'" "item_ok it'"
      "is_manual_discount it' = is_manual_discount it" "\<not> is_manual_discount it' \<longrightarrow> si_discountType it' = None"
      by (auto simp: same_line_def)
    have src: "si_priceSource (clear_promotion it) = si_priceSource it" using clear_line [OF iok] by simp
    have "repriced_to ?c ?g it it'"
      using eq l keep st bl src
      by (auto simp: repriced_to_def effective_list_def same_line_def reprice_def item_ok_def is_sticky_def
          split: if_splits option.splits js_number.splits)
    with keep show "repriced_to ?c ?g it it' \<and> item_ok it' \<and> (\<not> is_manual_discount it' \<longrightarrow> si_discountType it' = None)"
      by simp
  qed
  have ids: "map si_id (sa_items s) = map si_id (sa_items r)"
    by (rule list_all2_map_eq [OF priced]) (simp add: repriced_to_def same_line_def)
  have rok: "item_ok it' \<and> (\<not> is_manual_discount it' \<longrightarrow> si_discountType it' = None)" if "it' \<in> set (sa_items r)" for it'
    using list_all2_set_right [OF priced that] by blast
  obtain f where f: "pei_lines (eval_input env b u r) = map f (sa_items r)"
    "\<And>it. pel_itemId (f it) = si_id it" "\<And>it. pel_quantity (f it) = si_quantity it"
    "\<And>it. pel_effectiveUnitPriceCents (f it) = item_baseline it"
    "\<And>it. pel_hasManualDiscount (f it) = is_manual_discount it"
    using eval_input_lines [of env b u r] by metis
  have "cart_ok (pei_lines (eval_input env b u r))"
  proof -
    have "0 \<le> item_baseline it \<and> 1 \<le> si_quantity it" if "it \<in> set (sa_items r)" for it
      using rok [OF that] item_ok_baseline by (auto simp: item_ok_def)
    moreover have "distinct (map si_id (sa_items r))" using ok by (simp add: draft_ok_def ids)
    ultimately show ?thesis by (auto simp: cart_ok_def f comp_def)
  qed
  from evaluate_results_ok [OF this shapes] have res:
    "results_ok (pei_lines (eval_input env b u r)) (per_lines (evaluatePromotionsForSale env b u r))"
    by (simp add: evaluatePromotionsForSale_def)
  have "list_all2 kept (sa_items r) its"
  proof (rule apply_results_kept [OF applied])
    show "distinct (map lr_itemId (per_lines (evaluatePromotionsForSale env b u r)))"
      using res by (simp add: results_ok_def)
    show "\<forall>it\<in>set (sa_items r). si_id it \<in> lr_itemId ` set (per_lines (evaluatePromotionsForSale env b u r)) \<longrightarrow>
        si_prePriceCentsBeforeDiscount it = None \<and> \<not> is_manual_discount it"
    proof (intro ballI impI)
      fix it
      assume it: "it \<in> set (sa_items r)"
        and "si_id it \<in> lr_itemId ` set (per_lines (evaluatePromotionsForSale env b u r))"
      then obtain x where "x \<in> set (sa_items r)" "si_id x = si_id it" "\<not> is_manual_discount x"
        using res by (auto simp: results_ok_def result_ok_def f)
      moreover have "distinct (map si_id (sa_items r))" using ok by (simp add: draft_ok_def ids)
      ultimately have "\<not> is_manual_discount it" using it by (metis distinct_map inj_onD)
      with rok [OF it] show "si_prePriceCentsBeforeDiscount it = None \<and> \<not> is_manual_discount it"
        by (simp add: item_ok_def)
    qed
  qed
  then have "list_all2 (repriced_to ?c ?g) (sa_items s) its"
    by (rule list_all2_trans2 [OF priced])
      (auto simp: repriced_to_def kept_def same_line_def split: if_splits option.splits)
  moreover have "sa_globalPriceListId r = sa_globalPriceListId s" by (subst r) simp
  then have "sa_items s' = its \<and> sa_globalPriceListId s' = sa_globalPriceListId s"
    by (simp add: s')
  ultimately show ?thesis by simp
qed

end
