(* ===== verification/SalesPricingProps.thy ===== *)
theory SalesPricingProps
  imports SalesPricingLaws PriceCatalogProps
begin

text \<open>
  Properties of the pricing pipeline: a recomputed draft passes the price check of the
  charge, except that a walk-in draft with a quantity tier never does.
\<close>

subsection \<open>The check on a repriced line\<close>

lemma resolve_list_price:
  assumes "catalog_ok c" and "plain_variant v" and "resolveListPrice c l p v q = Inr price"
  shows "list_price c p v l q = Some price"
proof (cases v)
  case None
  from assms(3) None obtain a where
    "find (\<lambda>a. apr_priceListId a = l) (getApplicablePrices c p None q) = Some a" "apr_priceCents a = price"
    by (auto simp: resolveListPrice_def split: option.splits)
  then obtain r where r: "r \<in> set (ctg_priceLists c)" "plr_productId r = p" "plr_id r = l"
    "selectEffectivePrice (plr_priceCents r) (plr_tierPrices r) q = price"
    by (auto simp: getApplicablePrices_def dest!: find_SomeD)
  then have "product_row_for p l r" by (simp add: product_row_for_def)
  moreover obtain x where x: "find (product_row_for p l) (ctg_priceLists c) = Some x"
    using r(1) \<open>product_row_for p l r\<close>
    by (cases "find (product_row_for p l) (ctg_priceLists c)") (auto simp: find_eq_None)
  ultimately have "x = r"
    using product_rows_unique [OF assms(1)] r(1) find_SomeD [OF x] by blast
  with x r(4) None show ?thesis by (simp add: list_price_def)
next
  case (Some i)
  then have "truthy v" using assms(2) by (simp add: plain_variant_def plain_id_def)
  with assms(3) Some obtain a where
    "find (\<lambda>a. apr_priceListId a = l) (getApplicablePrices c p v q) = Some a" "apr_priceCents a = price"
    by (auto simp: resolveListPrice_def split: option.splits)
  with \<open>truthy v\<close> Some obtain r where r: "r \<in> set (ctg_variantPrices c)" "vpr_variantId r = i" "vpr_priceListId r = l"
    "selectEffectivePrice (vpr_priceCents r) (vpr_tierPrices r) q = price"
    by (auto simp: getApplicablePrices_def dest!: find_SomeD)
  then have "variant_row_for c i l r" by (simp add: variant_row_for_def)
  moreover obtain x where x: "find (variant_row_for c i l) (ctg_variantPrices c) = Some x"
    using r(1) \<open>variant_row_for c i l r\<close>
    by (cases "find (variant_row_for c i l) (ctg_variantPrices c)") (auto simp: find_eq_None)
  ultimately have "x = r"
    using variant_rows_unique [OF assms(1)] r(1) find_SomeD [OF x] by blast
  with x r(4) Some show ?thesis by (simp add: list_price_def)
qed

text \<open>
  A line whose list has a current price: its own list, the list of the sale, or, on a
  sale without a list, the default list at the price a new line would get.
\<close>

definition follows_price :: "price_catalog \<Rightarrow> ident option \<Rightarrow> sale_item \<Rightarrow> bool" where
  "follows_price c bound it \<longleftrightarrow>
     (case si_appliedPriceListId it of
        Some l \<Rightarrow> l \<noteq> [] \<and>
          (\<exists>price. resolveListPrice c l (si_productId it) (si_variantId it) (si_quantity it) = Inr price)
      | None \<Rightarrow>
          (case bound of
             Some g \<Rightarrow> g \<noteq> [] \<and> list_price c (si_productId it) (si_variantId it) g (si_quantity it) \<noteq> None
           | None \<Rightarrow> (\<exists>d info. resolveDefaultGlobalPriceListId c = Some d \<and>
               getProductInfoForSale c (si_productId it) (si_variantId it) = Inr info \<and>
               list_price c (si_productId it) (si_variantId it) d (si_quantity it) = Some (pif_unitPriceCents info))))"

lemma single_batch_price:
  assumes "catalog_ok c" and "plain_id p" and "plain_variant v"
  shows "map_price (batchResolvePriceMap c
      [\<lparr>pin_productId = p, pin_variantId = v, pin_priceListId = Some g, pin_globalPriceListId = Some g,
        pin_quantity = q\<rparr>]) (price_key p v g) q = list_price c p v g q"
  using batch_price [OF assms(1), of
      "[\<lparr>pin_productId = p, pin_variantId = v, pin_priceListId = Some g, pin_globalPriceListId = Some g, pin_quantity = q\<rparr>]"
      "\<lparr>pin_productId = p, pin_variantId = v, pin_priceListId = Some g, pin_globalPriceListId = Some g, pin_quantity = q\<rparr>" g]
    assms(2,3)
  by (simp add: plain_input_def)

lemma checked_line:
  assumes ok: "catalog_ok c" and plain: "plain_id (si_productId it)" "plain_variant (si_variantId it)"
    and priced: "repriced_to c (case bound of Some g \<Rightarrow> Some g | None \<Rightarrow> resolveDefaultGlobalPriceListId c) it it'"
    and follows: "si_priceSource it = SourceCustom \<or> \<not> is_manual_discount it \<and> follows_price c bound it"
  shows "check_charge_price c bound it' = Inr ()"
proof (cases "si_priceSource it = SourceCustom")
  case True
  with priced have "si_priceSource it' = SourceCustom" by (simp add: repriced_to_def is_sticky_def)
  then show ?thesis by (simp add: check_charge_price_def)
next
  case False
  with follows have f: "follows_price c bound it" and ns: "\<not> is_sticky it" by (auto simp: is_sticky_def)
  have same: "si_productId it' = si_productId it" "si_variantId it' = si_variantId it"
    "si_quantity it' = si_quantity it" "si_appliedPriceListId it' = si_appliedPriceListId it"
    using priced by (simp_all add: repriced_to_def same_line_def)
  show ?thesis
  proof (cases "si_appliedPriceListId it")
    case (Some l)
    with f obtain price where l: "l \<noteq> []"
      "resolveListPrice c l (si_productId it) (si_variantId it) (si_quantity it) = Inr price"
      by (auto simp: follows_price_def)
    from resolve_list_price [OF ok plain(2) l(2)] priced ns Some
    have "si_priceSource it' = SourcePriceList" "item_baseline it' = price"
      by (simp_all add: repriced_to_def effective_list_def)
    with l Some show ?thesis
      by (simp add: check_charge_price_def resolveChargeValidationPrice_def same)
  next
    case None
    show ?thesis
    proof (cases bound)
      case (Some g)
      with f None obtain price where g: "g \<noteq> []"
        "list_price c (si_productId it) (si_variantId it) g (si_quantity it) = Some price"
        by (auto simp: follows_price_def)
      with priced ns None Some have "si_priceSource it' = SourcePriceList" "item_baseline it' = price"
        by (simp_all add: repriced_to_def effective_list_def)
      with g None Some single_batch_price [OF ok plain] show ?thesis
        by (simp add: check_charge_price_def resolveChargeValidationPrice_def same Let_def)
    next
      case bound: None
      with f None obtain d info where d: "resolveDefaultGlobalPriceListId c = Some d"
        "getProductInfoForSale c (si_productId it) (si_variantId it) = Inr info"
        "list_price c (si_productId it) (si_variantId it) d (si_quantity it) = Some (pif_unitPriceCents info)"
        by (auto simp: follows_price_def)
      with priced ns None bound
      have "si_priceSource it' = SourcePriceList" "item_baseline it' = pif_unitPriceCents info"
        by (simp_all add: repriced_to_def effective_list_def)
      with d None bound show ?thesis
        by (simp add: check_charge_price_def resolveChargeValidationPrice_def same)
    qed
  qed
qed

lemma check_loop: "check_charge_prices c s = Inr () \<longleftrightarrow>
    (\<forall>it\<in>set (sa_items s). check_charge_price c (sa_globalPriceListId s) it = Inr ())"
proof -
  have "loopR (\<lambda>_ it. check_charge_price c g it) () its = Inr () \<longleftrightarrow>
      (\<forall>it\<in>set its. check_charge_price c g it = Inr ())" for g its
    by (induction its) (auto simp: result_simps)
  then show ?thesis by (simp add: check_charge_prices_def)
qed

subsection \<open>Properties\<close>

definition tiered_item :: "int \<Rightarrow> sale_item" where
  "tiered_item q = sample_item\<lparr>si_productId := ''p'', si_quantity := q\<rparr>"

definition tiered_draft :: "ident option \<Rightarrow> int \<Rightarrow> sale" where
  "tiered_draft bound q = sample_sale\<lparr>sa_items := [tiered_item q], sa_globalPriceListId := bound\<rparr>"

definition sample_pricing :: pricing_env where
  "sample_pricing = \<lparr>pce_catalog = sample_catalog, pce_promotions = [], pce_weekday = (\<lambda>_. Monday), pce_now = 5\<rparr>"

lemma tiered_draft_ok: "1 \<le> q \<Longrightarrow> draft_ok (tiered_draft bound q)"
  by (simp add: draft_ok_def tiered_draft_def tiered_item_def sample_simps item_ok_def plain_id_def
      plain_variant_def)

text \<open>
  What the counter shows is what the charge accepts.  After a recompute of
  a draft in good order, every line that follows a list with a current price, its own
  or the list bound to the sale, and every line with a custom price passes the price
  check of the charge, whatever promotions the recompute put on it: the check never
  reports an out-of-date price for prices the recompute has just set.
\<close>

theorem recomputed_draft_passes_price_check:
  assumes "draft_ok s" and "catalog_ok (pce_catalog env)"
    and "\<forall>p\<in>set (pce_promotions env). promotion_shape p"
    and "recomputePricingAndPromotions env b u s = Inr (s', demands, excluded)"
    and "\<forall>it\<in>set (sa_items s). si_priceSource it = SourceCustom \<or>
      \<not> is_manual_discount it \<and> follows_price (pce_catalog env) (sa_globalPriceListId s) it"
  shows "check_charge_prices (pce_catalog env) s' = Inr ()"
proof -
  let ?c = "pce_catalog env"
  note rl = recompute_lines [OF assms(1-4)]
  have "check_charge_price ?c (sa_globalPriceListId s') it' = Inr ()" if it': "it' \<in> set (sa_items s')" for it'
  proof -
    from list_all2_set_right [OF conjunct1 [OF rl] it'] obtain it where
      it: "it \<in> set (sa_items s)" "repriced_to ?c (effective_global_list ?c s) it it'" by blast
    have plain: "plain_id (si_productId it)" "plain_variant (si_variantId it)"
      using assms(1) it(1) by (auto simp: draft_ok_def)
    have "check_charge_price ?c (sa_globalPriceListId s) it' = Inr ()"
      by (rule checked_line [OF assms(2) plain it(2) [unfolded effective_global_list_def]])
        (use assms(5) it(1) in blast)
    with rl show ?thesis by simp
  qed
  then show ?thesis unfolding check_loop by blast
qed

theorem recomputed_draft_passes_price_check_witness:
  "\<exists>s' d x. recomputePricingAndPromotions sample_pricing False False (tiered_draft (Some ''g1'') 12) = Inr (s', d, x) \<and>
     check_charge_prices sample_catalog s' = Inr ()"
proof -
  let ?s = "tiered_draft (Some ''g1'') 12"
  have cat: "catalog_ok (pce_catalog sample_pricing)" by (simp add: sample_pricing_def sample_catalog_ok)
  have shapes: "\<forall>p\<in>set (pce_promotions sample_pricing). promotion_shape p" by (simp add: sample_pricing_def)
  have "case recomputePricingAndPromotions sample_pricing False False ?s of Inr r \<Rightarrow> True | Inl e \<Rightarrow> False"
    by code_simp
  then obtain s' d x where r: "recomputePricingAndPromotions sample_pricing False False ?s = Inr (s', d, x)"
    by (cases "recomputePricingAndPromotions sample_pricing False False ?s") auto
  have price: "list_price sample_catalog ''p'' None ''g1'' 12 = Some 800" by code_simp
  have "\<forall>it\<in>set (sa_items ?s). si_priceSource it = SourceCustom \<or> \<not> is_manual_discount it \<and>
      follows_price (pce_catalog sample_pricing) (sa_globalPriceListId ?s) it"
    by (simp add: tiered_draft_def tiered_item_def sample_simps follows_price_def is_manual_discount_def
        sample_pricing_def price)
  from recomputed_draft_passes_price_check [OF tiered_draft_ok cat shapes r this] r show ?thesis
    by (auto simp: sample_pricing_def)
qed

text \<open>
  Property C34: a walk-in draft with a quantity tier cannot be charged.  A draft without a
  bound list is repriced from the default list, tiers included, but the charge compares
  such a line with the base price of the default list: whenever the tier price
  differs, the price check fails right after the recompute that set the price.
\<close>

theorem tiered_walk_in_never_charges:
  assumes "draft_ok s" and "catalog_ok (pce_catalog env)"
    and "\<forall>p\<in>set (pce_promotions env). promotion_shape p"
    and "recomputePricingAndPromotions env b u s = Inr (s', demands, excluded)"
    and "sa_globalPriceListId s = None" and "it \<in> set (sa_items s)"
    and "si_priceSource it \<noteq> SourceCustom" and "\<not> is_manual_discount it" and "si_appliedPriceListId it = None"
    and "resolveDefaultGlobalPriceListId (pce_catalog env) = Some d"
    and "list_price (pce_catalog env) (si_productId it) (si_variantId it) d (si_quantity it) = Some price"
    and "getProductInfoForSale (pce_catalog env) (si_productId it) (si_variantId it) = Inr info"
    and "price \<noteq> pif_unitPriceCents info"
  shows "check_charge_prices (pce_catalog env) s' \<noteq> Inr ()"
proof -
  let ?c = "pce_catalog env"
  note rl = recompute_lines [OF assms(1-4)]
  obtain it' where it': "it' \<in> set (sa_items s')" "repriced_to ?c (effective_global_list ?c s) it it'"
    using conjunct1 [OF rl] assms(6) by (metis in_set_conv_nth list_all2_conv_all_nth)
  have "effective_list (effective_global_list ?c s) it = Some d"
    using assms(5,9,10) by (simp add: effective_list_def effective_global_list_def)
  with it'(2) assms(7,8,11) have "si_priceSource it' = SourcePriceList" "item_baseline it' = price"
    "si_productId it' = si_productId it" "si_variantId it' = si_variantId it" "si_appliedPriceListId it' = None"
    using assms(9) by (simp_all add: repriced_to_def is_sticky_def same_line_def)
  then have "check_charge_price ?c (sa_globalPriceListId s') it' = Inl (rule_violation ''PRICE_OUT_OF_DATE'')"
    using assms(5,12,13) rl by (simp add: check_charge_price_def resolveChargeValidationPrice_def)
  then show ?thesis unfolding check_loop using it'(1) by force
qed

theorem tiered_walk_in_never_charges_witness:
  "\<exists>s' d x. recomputePricingAndPromotions sample_pricing False False (tiered_draft None 3) = Inr (s', d, x) \<and>
     check_charge_prices sample_catalog s' \<noteq> Inr ()"
proof -
  let ?s = "tiered_draft None 3"
  have cat: "catalog_ok (pce_catalog sample_pricing)" by (simp add: sample_pricing_def sample_catalog_ok)
  have shapes: "\<forall>p\<in>set (pce_promotions sample_pricing). promotion_shape p" by (simp add: sample_pricing_def)
  have "case recomputePricingAndPromotions sample_pricing False False ?s of Inr r \<Rightarrow> True | Inl e \<Rightarrow> False"
    by code_simp
  then obtain s' d x where r: "recomputePricingAndPromotions sample_pricing False False ?s = Inr (s', d, x)"
    by (cases "recomputePricingAndPromotions sample_pricing False False ?s") auto
  have fields: "sa_globalPriceListId ?s = None" "tiered_item 3 \<in> set (sa_items ?s)"
    "si_priceSource (tiered_item 3) \<noteq> SourceCustom" "\<not> is_manual_discount (tiered_item 3)"
    "si_appliedPriceListId (tiered_item 3) = None"
    by (simp_all add: tiered_draft_def tiered_item_def sample_simps is_manual_discount_def)
  have cols: "si_productId (tiered_item 3) = ''p''" "si_variantId (tiered_item 3) = None" "si_quantity (tiered_item 3) = 3"
    by (simp_all add: tiered_item_def sample_simps)
  have c: "pce_catalog sample_pricing = sample_catalog" by (simp add: sample_pricing_def)
  have default: "resolveDefaultGlobalPriceListId (pce_catalog sample_pricing) = Some ''g1''" unfolding c by code_simp
  have price: "list_price (pce_catalog sample_pricing) (si_productId (tiered_item 3)) (si_variantId (tiered_item 3))
      ''g1'' (si_quantity (tiered_item 3)) = Some 900" unfolding c cols by code_simp
  have "(case getProductInfoForSale sample_catalog ''p'' None of Inr i \<Rightarrow> pif_unitPriceCents i = 1000 | Inl e \<Rightarrow> False)"
    by code_simp
  then obtain i where i: "getProductInfoForSale sample_catalog ''p'' None = Inr i" "pif_unitPriceCents i = 1000"
    by (cases "getProductInfoForSale sample_catalog ''p'' None") auto
  then have info: "getProductInfoForSale (pce_catalog sample_pricing) (si_productId (tiered_item 3))
      (si_variantId (tiered_item 3)) = Inr i" "(900::int) \<noteq> pif_unitPriceCents i" by (simp_all add: c cols)
  have "check_charge_prices (pce_catalog sample_pricing) s' \<noteq> Inr ()"
    by (rule tiered_walk_in_never_charges [OF tiered_draft_ok cat shapes r fields default price info]) simp
  with r show ?thesis by (auto simp: c)
qed

end
