(* ===== verification/SalesTender.thy ===== *)
theory SalesTender
  imports Sale CashTenant StockPlan
begin

text \<open>
  The tender rules of \<open>src/src/sales/sales.service.ts\<close> that need no database: the
  normal form of a charge or collection request and of its idempotency digest, what
  a charge settles, the refunds a cancellation owes, the due date.  Amounts are
  integers, as the request validation (\<open>IsInt\<close>) makes them; the payment method
  catalogue is the argument \<open>resolver\<close>.
\<close>

subsection \<open>Requests\<close>

datatype tender = TenderCash | TenderCardCredit | TenderCardDebit | TenderTransfer | TenderCredit

record tender_entry =
  tde_method :: tender
  tde_amountCents :: cents
  tde_reference :: "string option"
  tde_paymentMethodId :: "ident option"

record entry_dto =
  edt_method :: string
  edt_amountCents :: cents
  edt_reference :: "string option"
  edt_paymentMethodId :: "ident option"

record charge_dto =
  cdt_method :: "string option"
  cdt_amountCents :: "cents option"
  cdt_reference :: "string option"
  cdt_paymentMethodId :: "ident option"
  cdt_payments :: "entry_dto list option"
  cdt_dueDate :: "js_date option"
  cdt_delivery :: "bool option"
  cdt_cashSessionId :: "ident option"

fun tender_name :: "tender \<Rightarrow> string" where
  "tender_name TenderCash = ''cash''"
| "tender_name TenderCardCredit = ''card_credit''"
| "tender_name TenderCardDebit = ''card_debit''"
| "tender_name TenderTransfer = ''transfer''"
| "tender_name TenderCredit = ''credit''"

definition charge_methods :: "tender list" where
  "charge_methods = [TenderCash, TenderCardCredit, TenderCardDebit, TenderTransfer, TenderCredit]"

definition collection_methods :: "tender list" where
  "collection_methods = [TenderCash, TenderCardCredit, TenderCardDebit, TenderTransfer]"

definition isSupportedChargeMethod :: "string option \<Rightarrow> tender option" where
  "isSupportedChargeMethod m = find (\<lambda>t. tender_name t = or_default m '''') charge_methods"

definition isSupportedCollectionMethod :: "string \<Rightarrow> tender option" where
  "isSupportedCollectionMethod m = find (\<lambda>t. tender_name t = m) collection_methods"

definition chargeValidationError :: "string \<Rightarrow> domain_error" where
  "chargeValidationError code = BusinessRuleViolationError code code"

definition has_legacy :: "charge_dto \<Rightarrow> bool" where
  "has_legacy d \<longleftrightarrow> cdt_method d \<noteq> None \<or> cdt_amountCents d \<noteq> None"

definition normal_entry :: "tender \<Rightarrow> entry_dto \<Rightarrow> tender_entry" where
  "normal_entry t e =
     \<lparr>tde_method = t, tde_amountCents = edt_amountCents e, tde_reference = edt_reference e,
      tde_paymentMethodId = edt_paymentMethodId e\<rparr>"

definition normal_charge_entry :: "entry_dto \<Rightarrow> tender_entry result" where
  "normal_charge_entry e =
     (case isSupportedChargeMethod (Some (edt_method e)) of
        None \<Rightarrow> Inl (rule_violation ''PAYMENT_METHOD_NOT_SUPPORTED'')
      | Some t \<Rightarrow>
          if t = TenderCredit then Inl (chargeValidationError ''CREDIT_METHOD_NOT_VALID_IN_MULTI'')
          else Inr (normal_entry t e))"

definition normalizeChargeRequestPayments :: "charge_dto \<Rightarrow> tender_entry list result" where
  "normalizeChargeRequestPayments d =
     (if has_legacy d \<and> cdt_payments d \<noteq> None
        then Inl (chargeValidationError ''AMBIGUOUS_PAYMENT_SHAPE'')
      else case cdt_payments d of
        Some entries \<Rightarrow>
          if 5 < length entries then Inl (chargeValidationError ''TOO_MANY_PAYMENTS'')
          else mapM_list normal_charge_entry entries
      | None \<Rightarrow>
          (case cdt_amountCents d of
             None \<Rightarrow> Inl (rule_violation ''PAYMENT_METHOD_NOT_SUPPORTED'')
           | Some amount \<Rightarrow>
               if \<not> truthy (cdt_method d) then Inl (rule_violation ''PAYMENT_METHOD_NOT_SUPPORTED'')
               else (case isSupportedChargeMethod (cdt_method d) of
                   None \<Rightarrow> Inl (rule_violation ''PAYMENT_METHOD_NOT_SUPPORTED'')
                 | Some t \<Rightarrow>
                     Inr [\<lparr>tde_method = t, tde_amountCents = amount, tde_reference = None,
                           tde_paymentMethodId = cdt_paymentMethodId d\<rparr>])))"

definition normal_collection_entry :: "entry_dto \<Rightarrow> tender_entry result" where
  "normal_collection_entry e =
     (case isSupportedCollectionMethod (edt_method e) of
        None \<Rightarrow> Inl (rule_violation ''PAYMENT_METHOD_NOT_SUPPORTED'')
      | Some t \<Rightarrow> Inr (normal_entry t e))"

definition normalizeCollectionRequestPayments :: "charge_dto \<Rightarrow> tender_entry list result" where
  "normalizeCollectionRequestPayments d =
     (if has_legacy d \<and> cdt_payments d \<noteq> None then Inl (rule_violation ''AMBIGUOUS_PAYMENT_SHAPE'')
      else case cdt_payments d of
        Some entries \<Rightarrow>
          if entries = [] then Inl (rule_violation ''EMPTY_PAYMENTS'')
          else mapM_list normal_collection_entry entries
      | None \<Rightarrow>
          (case (cdt_method d, cdt_amountCents d) of
             (Some m, Some amount) \<Rightarrow>
               if m = [] then Inl (rule_violation ''PAYMENT_METHOD_NOT_SUPPORTED'')
               else (case isSupportedCollectionMethod m of
                   None \<Rightarrow> Inl (rule_violation ''PAYMENT_METHOD_NOT_SUPPORTED'')
                 | Some t \<Rightarrow>
                     Inr [\<lparr>tde_method = t, tde_amountCents = amount,
                           tde_reference = cdt_reference d,
                           tde_paymentMethodId = cdt_paymentMethodId d\<rparr>])
           | _ \<Rightarrow> Inl (rule_violation ''PAYMENT_METHOD_NOT_SUPPORTED'')))"

subsection \<open>The digest's order\<close>

text \<open>Template text of an integer: decimal digits, a minus sign in front of a negative.\<close>

fun show_nat :: "nat \<Rightarrow> string" where
  "show_nat n =
     (if n < 10 then [char_of (48 + n)] else show_nat (n div 10) @ [char_of (48 + n mod 10)])"

definition show_int :: "int \<Rightarrow> string" where
  "show_int z = (if z < 0 then ''-'' @ show_nat (nat (- z)) else show_nat (nat z))"

definition payment_sort_key :: "tender_entry \<Rightarrow> string" where
  "payment_sort_key p =
     tender_name (tde_method p) @ ''|'' @ show_int (tde_amountCents p) @ ''|'' @
     or_default (tde_reference p) '''' @
     (if truthy (tde_paymentMethodId p) then ''|'' @ the_ident (tde_paymentMethodId p) else '''')"

definition sortPaymentsForHash ::
  "(string \<Rightarrow> string) \<Rightarrow> tender_entry list \<Rightarrow> tender_entry list" where
  "sortPaymentsForHash collate payments = sort_key (\<lambda>p. collate (payment_sort_key p)) payments"

definition sortUniquePromotionIds :: "ident list \<Rightarrow> ident list" where
  "sortUniquePromotionIds ids = sort (unique ids)"

subsection \<open>Catalogue snapshots\<close>

record catalog_snapshot =
  ctl_paymentMethodId :: ident
  ctl_name :: string
  ctl_subtitle :: "string option"

datatype payment_metadata = CatalogMetadata catalog_snapshot | BotOrigin sale_channel

record charge_payment_row =
  cpr_method :: tender
  cpr_amountCents :: cents
  cpr_reference :: "string option"
  cpr_metadata :: "payment_metadata option"

type_synonym method_resolver = "ident \<Rightarrow> tender \<Rightarrow> (string \<times> string option) result"

definition snapshot_of ::
  "method_resolver \<Rightarrow> tender_entry \<Rightarrow> payment_metadata option result" where
  "snapshot_of resolver p =
     (if \<not> truthy (tde_paymentMethodId p) then Inr None
      else
        let i = the_ident (tde_paymentMethodId p) in
        mapR (\<lambda>(name, subtitle). Some (CatalogMetadata
            \<lparr>ctl_paymentMethodId = i, ctl_name = name, ctl_subtitle = subtitle\<rparr>))
          (resolver i (tde_method p)))"

definition canonical_row :: "method_resolver \<Rightarrow> tender_entry \<Rightarrow> charge_payment_row result" where
  "canonical_row resolver p =
     mapR (\<lambda>m. \<lparr>cpr_method = tde_method p, cpr_amountCents = tde_amountCents p,
                cpr_reference = tde_reference p, cpr_metadata = m\<rparr>) (snapshot_of resolver p)"

definition toCanonicalChargePayments ::
  "method_resolver \<Rightarrow> tender_entry list \<Rightarrow> charge_payment_row list result" where
  "toCanonicalChargePayments resolver ps =
     mapM_list (canonical_row resolver) (filter (\<lambda>p. tde_method p \<noteq> TenderCredit) ps)"

subsection \<open>What a charge settles\<close>

record charge_settlement =
  cst_paidCents :: cents
  cst_debtCents :: cents
  cst_paymentStatus :: sale_payment_status
  cst_changeDueCents :: cents

definition payment_status_of :: "cents \<Rightarrow> cents \<Rightarrow> sale_payment_status" where
  "payment_status_of paid totalCents =
     (if paid = totalCents then PaymentPaid else if paid = 0 then PaymentCredit else PaymentPartial)"

definition tenderedCents :: "tender_entry list \<Rightarrow> cents" where
  "tenderedCents ps = (\<Sum>p\<leftarrow>ps. tde_amountCents p)"

definition has_tender :: "tender \<Rightarrow> tender_entry list \<Rightarrow> bool" where
  "has_tender t ps \<longleftrightarrow> (\<exists>p\<in>set ps. tde_method p = t)"

definition validate_tenders :: "tender_entry list \<Rightarrow> cents \<Rightarrow> ident option \<Rightarrow> unit result" where
  "validate_tenders ps totalCents customerId =
     (let tendered = tenderedCents ps; hasCash = has_tender TenderCash ps;
          hasCredit = has_tender TenderCredit ps
      in if hasCredit \<and> 1 < length ps then Inl (chargeValidationError ''INVALID_CREDIT_CHARGE'')
         else if hasCredit \<and> tendered \<noteq> 0 then Inl (chargeValidationError ''INVALID_CREDIT_CHARGE'')
         else if \<not> hasCash \<and> totalCents < tendered
           then Inl (chargeValidationError ''PAYMENT_AMOUNT_INVALID'')
         else if tendered < 0 then Inl (chargeValidationError ''PAYMENT_AMOUNT_INVALID'')
         else if tendered < totalCents \<and> \<not> truthy customerId
           then Inl (chargeValidationError ''CUSTOMER_REQUIRED_FOR_CREDIT'')
         else if \<not> hasCredit \<and> tendered < totalCents \<and> tendered \<le> 0 \<and> 0 < length ps
           then Inl (chargeValidationError ''PAYMENT_AMOUNT_INVALID'')
         else if tendered < totalCents \<and> 0 < tendered \<and> \<not> hasCash
           then Inl (chargeValidationError ''PAYMENT_AMOUNT_INSUFFICIENT'')
         else Inr ())"

definition settle_charge :: "tender_entry list \<Rightarrow> cents \<Rightarrow> ident option \<Rightarrow> charge_settlement result" where
  "settle_charge ps totalCents customerId =
     andThen (validate_tenders ps totalCents customerId) (\<lambda>_.
       let tendered = tenderedCents ps;
           paid = min tendered totalCents;
           status = payment_status_of paid totalCents
       in Inr \<lparr>cst_paidCents = paid, cst_debtCents = totalCents - paid, cst_paymentStatus = status,
               cst_changeDueCents =
                 (if has_tender TenderCash ps \<and> status = PaymentPaid then tendered - totalCents else 0)\<rparr>)"

text \<open>The fifteen days are added on the local calendar, \<open>in_fifteen_days\<close>.\<close>

definition resolveDueDate ::
  "(timestamp \<Rightarrow> timestamp) \<Rightarrow> js_date option \<Rightarrow> timestamp \<Rightarrow> sale_payment_status \<Rightarrow> js_date option" where
  "resolveDueDate in_fifteen_days dueDate confirmedAt status =
     (if status = PaymentPaid then None
      else case dueDate of
        Some d \<Rightarrow> Some d
      | None \<Rightarrow> Some (ValidDate (in_fifteen_days confirmedAt)))"

subsection \<open>What a cancellation refunds\<close>

record sale_payment =
  spy_id :: ident
  spy_saleId :: ident
  spy_method :: tender
  spy_amountCents :: cents
  spy_reference :: "string option"
  spy_metadata :: "payment_metadata option"
  spy_userId :: "ident option"

record refund_draft =
  rfd_salePaymentId :: ident
  rfd_method :: tender
  rfd_amountCents :: cents
  rfd_reason :: sale_cancel_reason

text \<open>
  The stored methods are the five of the enumeration, so \<open>normalizeRefundMethod\<close>
  keeps them; its default branch is for text outside it.
\<close>

definition normalizeRefundMethod :: "string \<Rightarrow> tender result" where
  "normalizeRefundMethod upper =
     (if upper = ''CASH'' then Inr TenderCash
      else if upper = ''CARD_CREDIT'' then Inr TenderCardCredit
      else if upper = ''CARD_DEBIT'' then Inr TenderCardDebit
      else if upper = ''TRANSFER'' then Inr TenderTransfer
      else if upper = ''CREDIT'' then Inr TenderCredit
      else Inl (rule_violation ''SALE_REFUND_METHOD_NOT_SUPPORTED''))"

fun stored_method :: "tender \<Rightarrow> string" where
  "stored_method TenderCash = ''CASH''"
| "stored_method TenderCardCredit = ''CARD_CREDIT''"
| "stored_method TenderCardDebit = ''CARD_DEBIT''"
| "stored_method TenderTransfer = ''TRANSFER''"
| "stored_method TenderCredit = ''CREDIT''"

fun refund_payments ::
  "sale_cancel_reason \<Rightarrow> cents \<Rightarrow> sale_payment list \<Rightarrow> (refund_draft list \<times> cents) result" where
  "refund_payments reason remaining [] = Inr ([], remaining)"
| "refund_payments reason remaining (p # ps) =
     (if remaining \<le> 0 then Inr ([], remaining)
      else
        let amount = min (spy_amountCents p) remaining in
        if amount \<le> 0 then refund_payments reason remaining ps
        else
          andThen (normalizeRefundMethod (stored_method (spy_method p))) (\<lambda>m.
            mapR (\<lambda>(rs, left).
                (\<lparr>rfd_salePaymentId = spy_id p, rfd_method = m, rfd_amountCents = amount,
                  rfd_reason = reason\<rparr> # rs, left))
              (refund_payments reason (remaining - amount) ps)))"

definition buildCancellationRefunds ::
  "sale_payment list \<Rightarrow> cents \<Rightarrow> sale_cancel_reason \<Rightarrow> refund_draft list result" where
  "buildCancellationRefunds payments refunded reason =
     andThen (refund_payments reason refunded payments) (\<lambda>(rs, left).
       if left \<noteq> 0 then Inl (rule_violation ''SALE_REFUND_AUDIT_MISMATCH'') else Inr rs)"

subsection \<open>The ledger's methods\<close>

fun requireLedgerPaymentMethod :: "tender \<Rightarrow> cash_method result" where
  "requireLedgerPaymentMethod TenderCash = Inr Cash"
| "requireLedgerPaymentMethod TenderCardCredit = Inr CardCredit"
| "requireLedgerPaymentMethod TenderCardDebit = Inr CardDebit"
| "requireLedgerPaymentMethod TenderTransfer = Inr Transfer"
| "requireLedgerPaymentMethod TenderCredit = Inl (rule_violation ''CASH_SESSION_CREDIT_NOT_ALLOWED'')"

end
