(* ===== verification/SaleStore.thy ===== *)
theory SaleStore
  imports SaleLaws SalesTender
begin

section \<open>The sale tables\<close>

text \<open>
  The writes of \<open>src/src/sales/infrastructure/prisma-sale.repository.ts\<close> over the
  tables of one tenant: sales with their items and promotion junctions, payments,
  refunds and their settlements, idempotency slots, folio counters and the rows the
  sales code adds to the outbox.  Each operation is one transaction or a part of the
  caller's; one that throws leaves no tables.  Row locks have no counterpart.

  A row of \<open>sales\<close> carries its items and its promotion junctions, which are only
  written together with it.  The address columns are one optional value:
  \<open>shippingAddressColumns\<close> and \<open>hydrateShippingAddress\<close> of
  \<open>shipping-address-snapshot.mapper.ts\<close> are inverse on addresses with a street.
\<close>

subsection \<open>Rows\<close>

datatype fulfillment_mode = FulfillDelivery | FulfillPickup

record sale_row =
  slr_id :: ident
  slr_userId :: ident
  slr_status :: sale_status
  slr_channel :: sale_channel
  slr_register :: string
  slr_deliveryStatus :: sale_delivery_status
  slr_customerId :: "ident option"
  slr_shippingAddressId :: "ident option"
  slr_shipping :: "shipping_address option"
  slr_sellerUserId :: "ident option"
  slr_dueDate :: "timestamp option"
  slr_confirmedAt :: "timestamp option"
  slr_folio :: "string option"
  slr_globalPriceListId :: "ident option"
  slr_priceListExplicitlySet :: bool
  slr_subtotalCents :: cents
  slr_discountCents :: cents
  slr_totalCents :: cents
  slr_paidCents :: cents
  slr_debtCents :: cents
  slr_changeDueCents :: cents
  slr_paymentStatus :: "sale_payment_status option"
  slr_canceledAt :: "timestamp option"
  slr_cancelReason :: "sale_cancel_reason option"
  slr_canceledByUserId :: "ident option"
  slr_shippingChargeCents :: cents
  slr_shippingApprovalId :: "string option"
  slr_shippingQuoteId :: "string option"
  slr_shippingQuoteRecordId :: "ident option"
  slr_fulfillmentMode :: "fulfillment_mode option"
  slr_createdAt :: timestamp
  slr_updatedAt :: timestamp
  slr_items :: "sale_item_props list"
  slr_vetoed :: "ident list"
  slr_optedIn :: "ident list"
  slr_applied :: "order_promotion_snapshot option"

record refund_row =
  rfr_id :: ident
  rfr_saleId :: ident
  rfr_salePaymentId :: "ident option"
  rfr_method :: tender
  rfr_amountCents :: cents
  rfr_settledCents :: cents
  rfr_reason :: sale_cancel_reason

record settlement_row =
  stt_id :: ident
  stt_refundId :: ident
  stt_settledByUserId :: "ident option"
  stt_amountCents :: cents
  stt_method :: tender
  stt_reference :: "string option"
  stt_settledAt :: timestamp

datatype idempotency_operation =
    OpSaleCharge | OpSalePayment | OpSaleCancel | OpBotSaleRegister | OpRefundSettlement

datatype idempotency_status = SlotInFlight | SlotSucceeded

text \<open>The JSON answers the slots keep.\<close>

record charge_answer =
  cha_saleId :: ident
  cha_folio :: string
  cha_subtotalCents :: cents
  cha_discountCents :: cents
  cha_totalCents :: cents
  cha_paidCents :: cents
  cha_debtCents :: cents
  cha_changeDueCents :: cents
  cha_paymentStatus :: sale_payment_status
  cha_confirmedAt :: timestamp

record cancel_answer =
  cca_saleId :: ident
  cca_refundedCents :: cents
  cca_restockedItems :: "stock_charge_item list"
  cca_canceledAt :: timestamp

record payment_answer =
  paa_saleId :: ident
  paa_paidCents :: cents
  paa_debtCents :: cents
  paa_totalCents :: cents
  paa_paymentStatus :: sale_payment_status
  paa_paymentIds :: "ident list"

record settlement_answer =
  sta_settlementId :: ident
  sta_refundId :: ident
  sta_saleId :: ident
  sta_amountCents :: cents
  sta_method :: tender
  sta_reference :: "string option"
  sta_settledAt :: timestamp
  sta_settledCents :: cents
  sta_outstandingCents :: cents

datatype sale_answer =
    ChargeAnswer charge_answer
  | CancelAnswer cancel_answer
  | PaymentAnswer payment_answer
  | SettlementAnswer settlement_answer

record idempotency_slot =
  ids_id :: ident
  ids_operation :: idempotency_operation
  ids_key :: string
  ids_requestHash :: string
  ids_status :: idempotency_status
  ids_response :: "sale_answer option"
  ids_saleId :: "ident option"
  ids_updatedAt :: timestamp

record confirmed_event =
  cfe_saleId :: ident
  cfe_actorId :: ident
  cfe_folio :: string
  cfe_totalCents :: cents
  cfe_paidCents :: cents
  cfe_debtCents :: cents
  cfe_paymentStatus :: sale_payment_status
  cfe_confirmedAt :: timestamp
  cfe_subtotalCents :: "cents option"
  cfe_discountCents :: "cents option"
  cfe_shippingChargeCents :: "cents option"

record received_event =
  rce_saleId :: ident
  rce_actorId :: "ident option"
  rce_paymentId :: ident
  rce_method :: tender
  rce_amountCents :: cents
  rce_reference :: "string option"
  rce_resultingPaidCents :: cents
  rce_resultingDebtCents :: cents
  rce_resultingPaymentStatus :: sale_payment_status

record canceled_event =
  cle_saleId :: ident
  cle_actorId :: ident
  cle_folio :: string
  cle_reason :: sale_cancel_reason
  cle_refundedCents :: cents
  cle_restockedItems :: "stock_charge_item list"
  cle_canceledAt :: timestamp

datatype sale_event =
    SaleConfirmedEvent confirmed_event
  | PaymentReceivedEvent received_event
  | SaleFullyPaidEvent ident string cents
  | SaleCanceledEvent canceled_event

record sales_db =
  sls_sales :: "sale_row list"
  sls_payments :: "sale_payment list"
  sls_refunds :: "refund_row list"
  sls_settlements :: "settlement_row list"
  sls_slots :: "idempotency_slot list"
  sls_folios :: "(string \<times> nat) list"
  sls_outbox :: "sale_event list"

definition is_sale :: "ident \<Rightarrow> sale_row \<Rightarrow> bool" where
  "is_sale i r \<longleftrightarrow> slr_id r = i"

definition find_sale :: "ident \<Rightarrow> sales_db \<Rightarrow> sale_row option" where
  "find_sale i db = find (is_sale i) (sls_sales db)"

definition put_sale :: "sale_row \<Rightarrow> sales_db \<Rightarrow> sales_db" where
  "put_sale r db = db\<lparr>sls_sales := update_first (is_sale (slr_id r)) (\<lambda>_. r) (sls_sales db)\<rparr>"

subsection \<open>Rows and aggregates\<close>

definition toWriteRow :: "ident \<Rightarrow> sale_item \<Rightarrow> sale_item_props" where
  "toWriteRow saleId it =
     \<lparr>sip_id = si_id it, sip_saleId = saleId, sip_productId = si_productId it,
      sip_variantId = si_variantId it, sip_productName = si_productName it,
      sip_variantName = si_variantName it, sip_imageUrl = si_imageUrl it,
      sip_quantity = si_quantity it, sip_unitPriceCents = si_unitPriceCents it,
      sip_unitPriceCurrency = si_unitPriceCurrency it,
      sip_originalPriceCents = si_originalPriceCents it,
      sip_priceSource = Some (si_priceSource it),
      sip_appliedPriceListId = si_appliedPriceListId it,
      sip_customPriceCents = si_customPriceCents it, sip_discountType = si_discountType it,
      sip_discountValue = si_discountValue it, sip_discountAmountCents = si_discountAmountCents it,
      sip_prePriceCentsBeforeDiscount = si_prePriceCentsBeforeDiscount it,
      sip_discountTitle = si_discountTitle it, sip_discountedAt = si_discountedAt it,
      sip_promotionId = si_promotionId it, sip_rewardDiscountPercent = si_rewardDiscountPercent it,
      sip_rewardKind = si_rewardKind it\<rparr>"

text \<open>Prisma refuses to write an invalid date.\<close>

fun stored_date :: "js_date option \<Rightarrow> timestamp option result" where
  "stored_date None = Inr None"
| "stored_date (Some (ValidDate t)) = Inr (Some t)"
| "stored_date (Some InvalidDate) = Inl (PlainError ''Provided Date object is invalid. Expected Date.'')"

text \<open>
  What \<open>findById\<close> maps: it leaves the totals, the payment status and the
  cancellation to the defaults of \<open>fromPersistence\<close>.
\<close>

definition loaded_props :: "sale_row \<Rightarrow> sale_props" where
  "loaded_props r =
     \<lparr>slp_id = slr_id r, slp_userId = slr_userId r, slp_status = slr_status r,
      slp_channel = Some (slr_channel r), slp_register = Some (slr_register r),
      slp_deliveryStatus = Some (slr_deliveryStatus r), slp_customerId = slr_customerId r,
      slp_shippingAddressId = slr_shippingAddressId r,
      slp_shippingAddressSnapshot = slr_shipping r, slp_sellerUserId = slr_sellerUserId r,
      slp_dueDate = map_option ValidDate (slr_dueDate r), slp_items = slr_items r,
      slp_confirmedAt = map_option ValidDate (slr_confirmedAt r), slp_folio = slr_folio r,
      slp_totalCents = None, slp_paidCents = None, slp_debtCents = None,
      slp_changeDueCents = None, slp_paymentStatus = None, slp_canceledAt = None,
      slp_cancelReason = None, slp_canceledByUserId = None, slp_createdAt = slr_createdAt r,
      slp_updatedAt = slr_updatedAt r, slp_carrierName = None, slp_trackingRef = None,
      slp_estimatedDeliveryAt = None, slp_appliedOrderPromotion = slr_applied r,
      slp_vetoedPromotionIds = Some (slr_vetoed r),
      slp_optedInManualPromotionIds = Some (slr_optedIn r),
      slp_globalPriceListId = slr_globalPriceListId r,
      slp_priceListExplicitlySet = Some (slr_priceListExplicitlySet r)\<rparr>"

text \<open>
  \<open>findById\<close> names no order for the lines; they are taken in the order they were stored.
\<close>

definition load_sale :: "ident \<Rightarrow> sales_db \<Rightarrow> sale option" where
  "load_sale i db = map_option (Sale_fromPersistence \<circ> loaded_props) (find_sale i db)"

definition locked_props :: "sale_row \<Rightarrow> sale_props" where
  "locked_props r = (loaded_props r)
     \<lparr>slp_totalCents := Some (slr_totalCents r), slp_paidCents := Some (slr_paidCents r),
      slp_debtCents := Some (slr_debtCents r), slp_changeDueCents := Some (slr_changeDueCents r),
      slp_paymentStatus := slr_paymentStatus r, slp_canceledAt := slr_canceledAt r,
      slp_cancelReason := slr_cancelReason r, slp_canceledByUserId := slr_canceledByUserId r\<rparr>"

definition findByIdForUpdate :: "ident \<Rightarrow> sales_db \<Rightarrow> sale option" where
  "findByIdForUpdate i db = map_option (Sale_fromPersistence \<circ> locked_props) (find_sale i db)"

subsection \<open>Saving an aggregate\<close>

datatype write_intent = IntentDraft | IntentGeneric

definition snapshotItemsEqual :: "sale_item list \<Rightarrow> sale_item_props list \<Rightarrow> ident \<Rightarrow> bool" where
  "snapshotItemsEqual incoming persisted saleId \<longleftrightarrow>
     length incoming = length persisted \<and>
     distinct (map si_id incoming) \<and>
     distinct (map sip_id persisted) \<and>
     (\<forall>it\<in>set incoming.
        find (\<lambda>r. sip_id r = si_id it) persisted = Some (toWriteRow saleId it))"

definition new_row :: "timestamp \<Rightarrow> sale \<Rightarrow> sale_row" where
  "new_row now s =
     \<lparr>slr_id = sa_id s, slr_userId = sa_userId s, slr_status = SaleDraft, slr_channel = ChannelPos,
      slr_register = ''Principal'', slr_deliveryStatus = DeliveryDelivered, slr_customerId = None,
      slr_shippingAddressId = None, slr_shipping = None, slr_sellerUserId = None,
      slr_dueDate = None, slr_confirmedAt = None, slr_folio = None, slr_globalPriceListId = None,
      slr_priceListExplicitlySet = False, slr_subtotalCents = 0, slr_discountCents = 0,
      slr_totalCents = 0, slr_paidCents = 0, slr_debtCents = 0, slr_changeDueCents = 0,
      slr_paymentStatus = None, slr_canceledAt = None, slr_cancelReason = None,
      slr_canceledByUserId = None, slr_shippingChargeCents = 0, slr_shippingApprovalId = None,
      slr_shippingQuoteId = None, slr_shippingQuoteRecordId = None, slr_fulfillmentMode = None,
      slr_createdAt = now, slr_updatedAt = now, slr_items = [], slr_vetoed = [], slr_optedIn = [],
      slr_applied = None\<rparr>"

definition write_columns ::
  "timestamp \<Rightarrow> bool \<Rightarrow> timestamp option \<Rightarrow> timestamp option \<Rightarrow> sale \<Rightarrow> sale_row \<Rightarrow> sale_row" where
  "write_columns now withAddress due confirmed s r =
     r\<lparr>slr_status := sa_status s, slr_channel := sa_channel s, slr_register := sa_register s,
       slr_deliveryStatus := sa_deliveryStatus s, slr_customerId := sa_customerId s,
       slr_shippingAddressId := sa_shippingAddressId s,
       slr_shipping := (if withAddress then sa_shippingAddressSnapshot s else slr_shipping r),
       slr_sellerUserId := sa_sellerUserId s, slr_dueDate := due, slr_confirmedAt := confirmed,
       slr_folio := sa_folio s, slr_globalPriceListId := sa_globalPriceListId s,
       slr_priceListExplicitlySet := sa_priceListExplicitlySet s, slr_updatedAt := now,
       slr_items := map (toWriteRow (sa_id s)) (sa_items s),
       slr_vetoed := sa_vetoedPromotionIds s, slr_optedIn := sa_optedInManualPromotionIds s,
       slr_applied := sa_appliedOrderPromotion s\<rparr>"

definition check_intent :: "write_intent \<Rightarrow> sale \<Rightarrow> sale_row option \<Rightarrow> unit result" where
  "check_intent intent s existing =
     (case intent of
        IntentDraft \<Rightarrow>
          (case existing of
             None \<Rightarrow> Inl (EntityNotFoundError ''Sale'' (sa_id s))
           | Some r \<Rightarrow>
               throw_if (slr_status r \<noteq> SaleDraft \<or> sa_status s \<noteq> SaleDraft)
                 (rule_violation ''SALE_NOT_DRAFT''))
      | IntentGeneric \<Rightarrow>
          (case existing of
             None \<Rightarrow> Inr ()
           | Some r \<Rightarrow>
               throw_if (slr_status r \<noteq> SaleDraft \<and>
                   (sa_status s = SaleDraft \<or>
                    \<not> snapshotItemsEqual (sa_items s) (slr_items r) (sa_id s)))
                 (rule_violation ''SALE_NOT_DRAFT'')))"

definition writeImpl ::
  "timestamp \<Rightarrow> write_intent \<Rightarrow> sale \<Rightarrow> sales_db \<Rightarrow> sales_db result" where
  "writeImpl now intent s db =
     (let existing = find_sale (sa_id s) db in
      andThen (check_intent intent s existing) (\<lambda>_.
      andThen (stored_date (sa_dueDate s)) (\<lambda>due.
      andThen (stored_date (sa_confirmedAt s)) (\<lambda>confirmed.
        case existing of
          None \<Rightarrow>
            Inr (db\<lparr>sls_sales := sls_sales db @ [write_columns now True due confirmed s (new_row now s)]\<rparr>)
        | Some r \<Rightarrow>
            Inr (put_sale (write_columns now (slr_status r = SaleDraft) due confirmed s r) db)))))"

definition save_sale :: "timestamp \<Rightarrow> sale \<Rightarrow> sales_db \<Rightarrow> sales_db result" where
  "save_sale now s db =
     andThen (throw_if (sa_createdAt s \<noteq> None \<and> find_sale (sa_id s) db = None)
       (EntityNotFoundError ''Sale'' (sa_id s))) (\<lambda>_.
       writeImpl now IntentGeneric s db)"

definition saveDraftItems :: "timestamp \<Rightarrow> sale \<Rightarrow> sales_db \<Rightarrow> sales_db result" where
  "saveDraftItems now s db = writeImpl now IntentDraft s db"

text \<open>The foreign key of a slot is set to null when its sale goes.\<close>

definition forget_sale :: "ident \<Rightarrow> idempotency_slot \<Rightarrow> idempotency_slot" where
  "forget_sale i x = (if ids_saleId x = Some i then x\<lparr>ids_saleId := None\<rparr> else x)"

definition delete_sale :: "ident \<Rightarrow> sales_db \<Rightarrow> sales_db result" where
  "delete_sale i db =
     (case find_sale i db of
        None \<Rightarrow> Inl (PlainError ''Record to delete does not exist.'')
      | Some r \<Rightarrow>
          andThen (throw_if (slr_status r \<noteq> SaleDraft) (rule_violation ''SALE_NOT_DRAFT'')) (\<lambda>_.
            Inr (db\<lparr>sls_sales := remove_first (is_sale i) (sls_sales db),
                    sls_slots := map (forget_sale i) (sls_slots db)\<rparr>)))"

end
