(* ===== verification/SaleBooks.thy ===== *)
theory SaleBooks
  imports SaleStore
begin

section \<open>Money writes of the sale tables\<close>

text \<open>
  The writes of \<open>prisma-sale.repository.ts\<close> that move money: folios, confirmations,
  collected payments, cancellations with their refunds, settlements of refunds, and
  the idempotency slots in front of them.  Generated identifiers are the argument
  \<open>uuid\<close>, the clock the argument \<open>now\<close>.
\<close>

subsection \<open>Folios\<close>

text \<open>The calendar of \<open>getUTCFullYear\<close> and \<open>getUTCMonth\<close>, from days since the epoch.\<close>

definition utc_month :: "timestamp \<Rightarrow> int \<times> int" where
  "utc_month t =
     (let z = t div 86400000 + 719468;
          era = z div 146097;
          doe = z - era * 146097;
          yoe = (doe - doe div 1460 + doe div 36524 - doe div 146096) div 365;
          doy = doe - (365 * yoe + yoe div 4 - yoe div 100);
          mp = (5 * doy + 2) div 153;
          m = (if mp < 10 then mp + 3 else mp - 9)
      in (yoe + era * 400 + (if m \<le> 2 then 1 else 0), m))"

definition padStart :: "nat \<Rightarrow> string \<Rightarrow> string" where
  "padStart n s = replicate (n - length s) CHR ''0'' @ s"

definition folio_period :: "timestamp \<Rightarrow> string" where
  "folio_period t = (case utc_month t of (y, m) \<Rightarrow> show_int y @ padStart 2 (show_int m))"

definition format_folio :: "string \<Rightarrow> nat \<Rightarrow> string" where
  "format_folio period n = ''A-'' @ period @ ''-'' @ padStart 6 (show_nat n)"

definition allocateNextFolio :: "timestamp \<Rightarrow> sales_db \<Rightarrow> string \<times> sales_db" where
  "allocateNextFolio now db =
     (let period = folio_period now;
          n = or_default (assoc_get (sls_folios db) period) 0 + 1
      in (format_folio period n, db\<lparr>sls_folios := assoc_set (sls_folios db) period n\<rparr>))"

subsection \<open>Confirmation\<close>

text \<open>An outer \<open>None\<close> is a key the caller leaves out.\<close>

record confirmation =
  cnf_saleId :: ident
  cnf_shipping :: "shipping_address option option"
  cnf_userId :: ident
  cnf_payments :: "charge_payment_row list"
  cnf_subtotalCents :: cents
  cnf_discountCents :: cents
  cnf_totalCents :: cents
  cnf_paidCents :: cents
  cnf_debtCents :: cents
  cnf_changeDueCents :: cents
  cnf_paymentStatus :: sale_payment_status
  cnf_channel :: "sale_channel option"
  cnf_register :: "string option"
  cnf_deliveryStatus :: "sale_delivery_status option"
  cnf_shippingChargeCents :: "cents option"
  cnf_shippingApprovalId :: "string option"
  cnf_shippingQuoteId :: "string option option"
  cnf_shippingQuoteRecordId :: "ident option"
  cnf_fulfillmentMode :: "fulfillment_mode option"
  cnf_customerId :: "ident option option"
  cnf_sellerUserId :: "ident option option"
  cnf_dueDate :: "js_date option option"
  cnf_confirmedAt :: timestamp
  cnf_folio :: string
  cnf_items :: "sale_item list option"
  cnf_applied :: "order_promotion_snapshot option option"

definition confirm_row ::
  "timestamp \<Rightarrow> confirmation \<Rightarrow> timestamp option \<Rightarrow> sale_row \<Rightarrow> sale_row" where
  "confirm_row now c due r =
     r\<lparr>slr_status := SaleConfirmed, slr_subtotalCents := cnf_subtotalCents c,
       slr_discountCents := cnf_discountCents c, slr_totalCents := cnf_totalCents c,
       slr_paidCents := cnf_paidCents c, slr_debtCents := cnf_debtCents c,
       slr_changeDueCents := cnf_changeDueCents c,
       slr_paymentStatus := Some (cnf_paymentStatus c),
       slr_confirmedAt := Some (cnf_confirmedAt c), slr_folio := Some (cnf_folio c),
       slr_shipping := or_default (cnf_shipping c) (slr_shipping r),
       slr_channel := or_default (cnf_channel c) (slr_channel r),
       slr_register := or_default (cnf_register c) (slr_register r),
       slr_deliveryStatus := or_default (cnf_deliveryStatus c) (slr_deliveryStatus r),
       slr_shippingChargeCents := or_default (cnf_shippingChargeCents c) (slr_shippingChargeCents r),
       slr_shippingApprovalId := (case cnf_shippingApprovalId c of
          None \<Rightarrow> slr_shippingApprovalId r | Some x \<Rightarrow> Some x),
       slr_shippingQuoteId := or_default (cnf_shippingQuoteId c) (slr_shippingQuoteId r),
       slr_shippingQuoteRecordId := (case cnf_shippingQuoteRecordId c of
          None \<Rightarrow> slr_shippingQuoteRecordId r | Some x \<Rightarrow> Some x),
       slr_fulfillmentMode := (case cnf_fulfillmentMode c of
          None \<Rightarrow> slr_fulfillmentMode r | Some x \<Rightarrow> Some x),
       slr_customerId := or_default (cnf_customerId c) (slr_customerId r),
       slr_sellerUserId := or_default (cnf_sellerUserId c) (slr_sellerUserId r),
       slr_dueDate := (if cnf_dueDate c = None then slr_dueDate r else due),
       slr_items := (case cnf_items c of
          None \<Rightarrow> slr_items r | Some its \<Rightarrow> map (\<lambda>it. toWriteRow (si_saleId it) it) its),
       slr_applied := or_default (cnf_applied c) (slr_applied r),
       slr_updatedAt := now\<rparr>"

definition payment_rows ::
  "(nat \<Rightarrow> ident) \<Rightarrow> ident \<Rightarrow> ident option \<Rightarrow> charge_payment_row list \<Rightarrow> sale_payment list" where
  "payment_rows uuid saleId userId ps =
     map (\<lambda>(index, p).
         \<lparr>spy_id = uuid index, spy_saleId = saleId, spy_method = cpr_method p,
          spy_amountCents = cpr_amountCents p, spy_reference = cpr_reference p,
          spy_metadata = cpr_metadata p, spy_userId = userId\<rparr>)
       (enumerate 0 ps)"

definition confirmable :: "confirmation \<Rightarrow> sale_row \<Rightarrow> bool" where
  "confirmable c r \<longleftrightarrow>
     slr_id r = cnf_saleId c \<and> (cnf_shipping c \<noteq> None \<longrightarrow> slr_status r = SaleDraft)"

definition approval_taken :: "confirmation \<Rightarrow> sales_db \<Rightarrow> bool" where
  "approval_taken c db \<longleftrightarrow>
     truthy (cnf_shippingApprovalId c) \<and>
     (\<exists>r\<in>set (sls_sales db). slr_id r \<noteq> cnf_saleId c \<and>
        slr_shippingApprovalId r = cnf_shippingApprovalId c)"

definition quote_taken :: "confirmation \<Rightarrow> sales_db \<Rightarrow> bool" where
  "quote_taken c db \<longleftrightarrow>
     truthy (cnf_shippingQuoteRecordId c) \<and>
     (\<exists>r\<in>set (sls_sales db). slr_id r \<noteq> cnf_saleId c \<and>
        slr_shippingQuoteRecordId r = cnf_shippingQuoteRecordId c)"

definition persistChargeConfirmation ::
  "timestamp \<Rightarrow> (nat \<Rightarrow> ident) \<Rightarrow> confirmation \<Rightarrow> sales_db \<Rightarrow> (sale_payment list \<times> sales_db) result" where
  "persistChargeConfirmation now uuid c db =
     andThen (case cnf_dueDate c of None \<Rightarrow> Inr None | Some d \<Rightarrow> stored_date d) (\<lambda>due.
     case find (confirmable c) (sls_sales db) of
       None \<Rightarrow> Inl (rule_violation ''SALE_NOT_DRAFT'')
     | Some r \<Rightarrow>
         andThen (throw_if (approval_taken c db)
           (BusinessRuleViolationError ''Shipping approval was already used''
             ''SHIPPING_APPROVAL_ALREADY_USED'')) (\<lambda>_.
         andThen (throw_if (quote_taken c db)
           (BusinessRuleViolationError ''Shipping quote already backs a sale''
             ''SHIPPING_QUOTE_ALREADY_USED'')) (\<lambda>_.
           let rows = payment_rows uuid (cnf_saleId c) (Some (cnf_userId c)) (cnf_payments c) in
           Inr (rows,
             db\<lparr>sls_sales := update_first (confirmable c) (confirm_row now c due) (sls_sales db),
                sls_payments := sls_payments db @ rows\<rparr>))))"

subsection \<open>Collected payments\<close>

definition payments_of :: "ident \<Rightarrow> sales_db \<Rightarrow> sale_payment list" where
  "payments_of saleId db = filter (\<lambda>p. spy_saleId p = saleId) (sls_payments db)"

definition paid_from_ledger :: "ident \<Rightarrow> sales_db \<Rightarrow> cents" where
  "paid_from_ledger saleId db = (\<Sum>p\<leftarrow>payments_of saleId db. spy_amountCents p)"

record collected =
  cld_rows :: "sale_payment list"
  cld_paidCents :: cents
  cld_debtCents :: cents
  cld_paymentStatus :: sale_payment_status
  cld_totalCents :: cents

definition collect_row ::
  "timestamp \<Rightarrow> cents \<Rightarrow> cents \<Rightarrow> sale_payment_status \<Rightarrow> sale_row \<Rightarrow> sale_row" where
  "collect_row now paid debt status r =
     r\<lparr>slr_paidCents := paid, slr_debtCents := debt, slr_paymentStatus := Some status,
       slr_updatedAt := now\<rparr>"

definition persistCollectedPayments ::
  "timestamp \<Rightarrow> (nat \<Rightarrow> ident) \<Rightarrow> ident \<Rightarrow> ident option \<Rightarrow> charge_payment_row list \<Rightarrow> sales_db
     \<Rightarrow> (collected \<times> sales_db) result" where
  "persistCollectedPayments now uuid saleId userId ps db =
     (case find (\<lambda>r. is_sale saleId r \<and> slr_status r = SaleConfirmed) (sls_sales db) of
        None \<Rightarrow> Inl (rule_violation ''SALE_NOT_FOUND'')
      | Some r \<Rightarrow>
          let fromLedger = paid_from_ledger saleId db;
              paid = fromLedger + (\<Sum>p\<leftarrow>ps. cpr_amountCents p);
              debt = slr_totalCents r - paid;
              status = payment_status_of paid (slr_totalCents r);
              rows = payment_rows uuid saleId userId ps
          in andThen (throw_if (slr_totalCents r \<le> fromLedger)
               (rule_violation ''NO_OUTSTANDING_DEBT'')) (\<lambda>_.
             andThen (throw_if (slr_totalCents r < paid) (rule_violation ''PAYMENT_EXCEEDS_DEBT'')) (\<lambda>_.
               Inr (\<lparr>cld_rows = rows, cld_paidCents = paid, cld_debtCents = debt,
                     cld_paymentStatus = status, cld_totalCents = slr_totalCents r\<rparr>,
                    db\<lparr>sls_sales := update_first (is_sale saleId) (collect_row now paid debt status)
                         (sls_sales db),
                       sls_payments := sls_payments db @ rows\<rparr>))))"

subsection \<open>Cancellation\<close>

definition cancel_row :: "timestamp \<Rightarrow> sale \<Rightarrow> sale_row \<Rightarrow> sale_row" where
  "cancel_row now s r =
     r\<lparr>slr_status := SaleCanceled, slr_canceledAt := sa_canceledAt s,
       slr_cancelReason := sa_cancelReason s, slr_canceledByUserId := sa_canceledByUserId s,
       slr_debtCents := (if sa_paymentStatus s = Some PaymentCredit then 0 else sa_debtCents s),
       slr_updatedAt := now\<rparr>"

definition refund_rows :: "(nat \<Rightarrow> ident) \<Rightarrow> ident \<Rightarrow> refund_draft list \<Rightarrow> refund_row list" where
  "refund_rows uuid saleId rs =
     map (\<lambda>(index, r).
         \<lparr>rfr_id = uuid index, rfr_saleId = saleId, rfr_salePaymentId = Some (rfd_salePaymentId r),
          rfr_method = rfd_method r, rfr_amountCents = rfd_amountCents r, rfr_settledCents = 0,
          rfr_reason = rfd_reason r\<rparr>)
       (enumerate 0 rs)"

definition persistCancellation ::
  "timestamp \<Rightarrow> (nat \<Rightarrow> ident) \<Rightarrow> sale \<Rightarrow> refund_draft list \<Rightarrow> sales_db \<Rightarrow> sales_db" where
  "persistCancellation now uuid s refunds db =
     db\<lparr>sls_sales := update_first (is_sale (sa_id s)) (cancel_row now s) (sls_sales db),
        sls_refunds := sls_refunds db @ refund_rows uuid (sa_id s) refunds\<rparr>"

subsection \<open>Settlements\<close>

record settle_input =
  sti_refundId :: ident
  sti_settledByUserId :: "ident option"
  sti_amountCents :: cents
  sti_method :: tender
  sti_reference :: "string option"
  sti_settledAt :: timestamp

record settlement_result =
  stl_settlementId :: ident
  stl_saleId :: ident
  stl_settledCents :: cents
  stl_outstandingCents :: cents

definition settled_cents :: "ident \<Rightarrow> sales_db \<Rightarrow> cents" where
  "settled_cents refundId db =
     (\<Sum>x\<leftarrow>filter (\<lambda>x. stt_refundId x = refundId) (sls_settlements db). stt_amountCents x)"

definition settlement_row_of :: "ident \<Rightarrow> settle_input \<Rightarrow> settlement_row" where
  "settlement_row_of i input =
     \<lparr>stt_id = i, stt_refundId = sti_refundId input,
      stt_settledByUserId = sti_settledByUserId input, stt_amountCents = sti_amountCents input,
      stt_method = sti_method input, stt_reference = sti_reference input,
      stt_settledAt = sti_settledAt input\<rparr>"

definition persistSettlement ::
  "ident \<Rightarrow> settle_input \<Rightarrow> sales_db \<Rightarrow> (settlement_result \<times> sales_db) result" where
  "persistSettlement settlementId input db =
     andThen (throw_if (sti_amountCents input \<le> 0) (rule_violation ''INVALID_SETTLEMENT_AMOUNT'')) (\<lambda>_.
     case find (\<lambda>r. rfr_id r = sti_refundId input) (sls_refunds db) of
       None \<Rightarrow> Inl (rule_violation ''REFUND_NOT_FOUND'')
     | Some obligation \<Rightarrow>
         let settled = settled_cents (sti_refundId input) db;
             outstanding = rfr_amountCents obligation - settled;
             cumulative = settled + sti_amountCents input
         in andThen (throw_if (outstanding \<le> 0) (rule_violation ''REFUND_ALREADY_SETTLED'')) (\<lambda>_.
            andThen (throw_if (outstanding < sti_amountCents input)
              (rule_violation ''SETTLEMENT_EXCEEDS_REFUND'')) (\<lambda>_.
              Inr (\<lparr>stl_settlementId = settlementId, stl_saleId = rfr_saleId obligation,
                    stl_settledCents = cumulative,
                    stl_outstandingCents = rfr_amountCents obligation - cumulative\<rparr>,
                   db\<lparr>sls_settlements := sls_settlements db @ [settlement_row_of settlementId input],
                      sls_refunds := update_first (\<lambda>r. rfr_id r = sti_refundId input)
                        (\<lambda>r. r\<lparr>rfr_settledCents := cumulative\<rparr>) (sls_refunds db)\<rparr>))))"

subsection \<open>Idempotency slots\<close>

datatype acquire_outcome =
    SlotAcquired ident | SlotReplay sale_answer | SlotConflict | SlotBusy | SlotWithoutSale

definition is_slot :: "idempotency_operation \<Rightarrow> string \<Rightarrow> idempotency_slot \<Rightarrow> bool" where
  "is_slot operation key x \<longleftrightarrow> ids_operation x = operation \<and> ids_key x = key"

definition resolveIdempotencyOutcome :: "string \<Rightarrow> idempotency_slot \<Rightarrow> acquire_outcome" where
  "resolveIdempotencyOutcome requestHash existing =
     (if ids_requestHash existing \<noteq> requestHash then SlotConflict
      else case (ids_status existing, ids_response existing) of
        (SlotSucceeded, Some a) \<Rightarrow> SlotReplay a
      | _ \<Rightarrow> SlotBusy)"

text \<open>
  A slot may name a sale: the insert of one whose sale does not exist violates the
  foreign key, an error the code passes on.
\<close>

definition names_no_sale :: "ident option \<Rightarrow> sales_db \<Rightarrow> bool" where
  "names_no_sale saleId db \<longleftrightarrow>
     (case saleId of None \<Rightarrow> False | Some i \<Rightarrow> find_sale i db = None)"

definition acquireIdempotency ::
  "timestamp \<Rightarrow> ident \<Rightarrow> idempotency_operation \<Rightarrow> ident option \<Rightarrow> string \<Rightarrow> string \<Rightarrow> sales_db
     \<Rightarrow> acquire_outcome \<times> sales_db" where
  "acquireIdempotency now token operation saleId key requestHash db =
     (case find (is_slot operation key) (sls_slots db) of
        Some existing \<Rightarrow> (resolveIdempotencyOutcome requestHash existing, db)
      | None \<Rightarrow>
          if names_no_sale saleId db then (SlotWithoutSale, db)
          else (SlotAcquired token,
           db\<lparr>sls_slots := sls_slots db @
             [\<lparr>ids_id = token, ids_operation = operation, ids_key = key,
               ids_requestHash = requestHash, ids_status = SlotInFlight, ids_response = None,
               ids_saleId = saleId, ids_updatedAt = now\<rparr>]\<rparr>))"

definition SETTLEMENT_LEASE_TTL_MS :: int where
  "SETTLEMENT_LEASE_TTL_MS = 5 * 60 * 1000"

definition settlement_key :: "ident \<Rightarrow> string \<Rightarrow> string" where
  "settlement_key refundId key = ''refund:settle:'' @ refundId @ '':'' @ key"

definition reclaimable :: "timestamp \<Rightarrow> string \<Rightarrow> string \<Rightarrow> idempotency_slot \<Rightarrow> bool" where
  "reclaimable now key requestHash x \<longleftrightarrow>
     is_slot OpRefundSettlement key x \<and> ids_requestHash x = requestHash \<and>
     ids_status x = SlotInFlight \<and> ids_updatedAt x < now - SETTLEMENT_LEASE_TTL_MS"

definition acquireSettlementIdempotency ::
  "timestamp \<Rightarrow> ident \<Rightarrow> ident \<Rightarrow> string \<Rightarrow> string \<Rightarrow> sales_db \<Rightarrow> acquire_outcome \<times> sales_db" where
  "acquireSettlementIdempotency now token refundId rawKey requestHash db =
     (let key = settlement_key refundId rawKey in
      case acquireIdempotency now token OpRefundSettlement None key requestHash db of
        (SlotBusy, db1) \<Rightarrow>
          (if \<exists>x\<in>set (sls_slots db1). reclaimable now key requestHash x
           then acquireIdempotency now token OpRefundSettlement None key requestHash
             (db1\<lparr>sls_slots := filter (\<lambda>x. \<not> reclaimable now key requestHash x) (sls_slots db1)\<rparr>)
           else (SlotBusy, db1))
      | r \<Rightarrow> r)"

definition succeed_slot ::
  "timestamp \<Rightarrow> ident \<Rightarrow> sale_answer \<Rightarrow> idempotency_slot \<Rightarrow> idempotency_slot" where
  "succeed_slot now saleId payload x =
     x\<lparr>ids_status := SlotSucceeded, ids_response := Some payload, ids_saleId := Some saleId,
       ids_updatedAt := now\<rparr>"

definition markIdempotencySucceeded ::
  "timestamp \<Rightarrow> ident \<Rightarrow> ident \<Rightarrow> sale_answer \<Rightarrow> sales_db \<Rightarrow> sales_db" where
  "markIdempotencySucceeded now token saleId payload db =
     db\<lparr>sls_slots := map (\<lambda>x. if ids_id x = token then succeed_slot now saleId payload x else x)
       (sls_slots db)\<rparr>"

definition owns_settlement :: "ident \<Rightarrow> idempotency_slot \<Rightarrow> bool" where
  "owns_settlement token x \<longleftrightarrow>
     ids_id x = token \<and> ids_operation x = OpRefundSettlement \<and> ids_status x = SlotInFlight"

definition markSettlementIdempotencySucceeded ::
  "timestamp \<Rightarrow> ident \<Rightarrow> ident \<Rightarrow> sale_answer \<Rightarrow> sales_db \<Rightarrow> sales_db result" where
  "markSettlementIdempotencySucceeded now token saleId payload db =
     andThen (throw_if (length (filter (owns_settlement token) (sls_slots db)) \<noteq> 1)
       (rule_violation ''IDEMPOTENCY_KEY_IN_FLIGHT'')) (\<lambda>_.
       Inr (db\<lparr>sls_slots := map (\<lambda>x. if owns_settlement token x then succeed_slot now saleId payload x
         else x) (sls_slots db)\<rparr>))"

definition releaseSettlementIdempotency :: "ident \<Rightarrow> sales_db \<Rightarrow> sales_db" where
  "releaseSettlementIdempotency token db =
     db\<lparr>sls_slots := filter (\<lambda>x. \<not> owns_settlement token x) (sls_slots db)\<rparr>"

end
