(* ===== verification/StockAlerts.thy ===== *)
theory StockAlerts
  imports StockJournal
begin

section \<open>Low-stock alerts\<close>

text \<open>
  The low-stock edge every journal write passes through,
  \<open>src/src/stock-alerts/infrastructure/low-stock-crossing.service.ts\<close>, over the alert
  states of \<open>prisma-stock-alert-state.repository.ts\<close>, and the sales facade that
  charges and reverses through both, \<open>src/src/sales/sale-stock.service.ts\<close>.  The
  store is what one tenant's transaction sees: the thresholds of its products and
  variants, the alert states and the low-stock rows written to the outbox.
\<close>

subsection \<open>Rows\<close>

record alert_row =
  alr_productId :: ident
  alr_variantKey :: string
  alr_alerted :: bool
  alr_alertEpoch :: int

record low_stock_event =
  lse_productId :: ident
  lse_variantKey :: string
  lse_alertEpoch :: int
  lse_newQuantity :: int
  lse_minQuantity :: int

text \<open>A product's \<open>minQuantity\<close> with its \<open>useLotsAndExpirations\<close>, a variant's \<open>minQuantity\<close>.\<close>

record alert_store =
  als_products :: "(ident \<times> (int \<times> bool)) list"
  als_variants :: "(ident \<times> int) list"
  als_rows :: "alert_row list"
  als_outbox :: "low_stock_event list"

definition variant_key :: "ident option \<Rightarrow> string" where
  "variant_key v = or_default v ''__PRODUCT__''"

definition is_alert :: "ident \<Rightarrow> ident option \<Rightarrow> alert_row \<Rightarrow> bool" where
  "is_alert productId variantId r \<longleftrightarrow>
     alr_productId r = productId \<and> alr_variantKey r = variant_key variantId"

subsection \<open>Alert states\<close>

text \<open>\<open>INSERT ... ON CONFLICT DO NOTHING\<close>, then the guarded flip.\<close>

definition seed_alert :: "ident \<Rightarrow> ident option \<Rightarrow> alert_row list \<Rightarrow> alert_row list" where
  "seed_alert productId variantId rows =
     (if \<exists>r\<in>set rows. is_alert productId variantId r then rows
      else rows @ [\<lparr>alr_productId = productId, alr_variantKey = variant_key variantId,
                    alr_alerted = False, alr_alertEpoch = 0\<rparr>])"

definition armed :: "ident \<Rightarrow> ident option \<Rightarrow> alert_row \<Rightarrow> bool" where
  "armed productId variantId r \<longleftrightarrow> is_alert productId variantId r \<and> \<not> alr_alerted r"

definition raise_alert :: "alert_row \<Rightarrow> alert_row" where
  "raise_alert r = r\<lparr>alr_alerted := True, alr_alertEpoch := alr_alertEpoch r + 1\<rparr>"

definition seedAndFlip ::
  "ident \<Rightarrow> ident option \<Rightarrow> alert_row list \<Rightarrow> int option \<times> alert_row list" where
  "seedAndFlip productId variantId rows =
     (let seeded = seed_alert productId variantId rows in
      case find (armed productId variantId) seeded of
        None \<Rightarrow> (None, seeded)
      | Some r \<Rightarrow>
          (Some (alr_alertEpoch r + 1),
           update_first (armed productId variantId) raise_alert seeded))"

definition rearm :: "ident \<Rightarrow> ident option \<Rightarrow> alert_row list \<Rightarrow> alert_row list" where
  "rearm productId variantId rows =
     map (\<lambda>r. if is_alert productId variantId r then r\<lparr>alr_alerted := False\<rparr> else r) rows"

subsection \<open>The edge\<close>

record balance_change =
  blc_productId :: ident
  blc_variantId :: "ident option"
  blc_before :: int
  blc_after :: int

definition change_key :: "planned_movement \<Rightarrow> string" where
  "change_key m = plm_productId m @ '':'' @ or_default (plm_variantId m) ''''"

definition movement_after :: "planned_movement \<Rightarrow> int" where
  "movement_after m =
     (if truthy (plm_variantId m) then plm_balanceAfter m else plm_productBalanceAfter m)"

definition merge_change ::
  "(string \<times> balance_change) list \<Rightarrow> planned_movement \<Rightarrow> (string \<times> balance_change) list" where
  "merge_change byKey m =
     assoc_set byKey (change_key m)
       \<lparr>blc_productId = plm_productId m, blc_variantId = plm_variantId m,
        blc_before = (case assoc_get byKey (change_key m) of
          Some c \<Rightarrow> blc_before c | None \<Rightarrow> movement_after m - plm_delta m),
        blc_after = movement_after m\<rparr>"

definition balanceChanges :: "planned_movement list \<Rightarrow> balance_change list" where
  "balanceChanges ms = map snd (foldl merge_change [] ms)"

definition threshold :: "alert_store \<Rightarrow> balance_change \<Rightarrow> int option" where
  "threshold st c =
     (if truthy (blc_variantId c) then assoc_get (als_variants st) (the_ident (blc_variantId c))
      else map_option fst (assoc_get (als_products st) (blc_productId c)))"

definition uses_lots :: "alert_store \<Rightarrow> balance_change \<Rightarrow> bool" where
  "uses_lots st c \<longleftrightarrow>
     \<not> truthy (blc_variantId c) \<and>
     or_default (map_option snd (assoc_get (als_products st) (blc_productId c))) False"

definition flag_low :: "balance_change \<Rightarrow> int \<Rightarrow> alert_store \<Rightarrow> alert_store" where
  "flag_low c minQuantity st =
     (case seedAndFlip (blc_productId c) (blc_variantId c) (als_rows st) of
        (None, rows) \<Rightarrow> st\<lparr>als_rows := rows\<rparr>
      | (Some epoch, rows) \<Rightarrow>
          st\<lparr>als_rows := rows,
             als_outbox := als_outbox st @
               [\<lparr>lse_productId = blc_productId c, lse_variantKey = variant_key (blc_variantId c),
                 lse_alertEpoch = epoch, lse_newQuantity = blc_after c,
                 lse_minQuantity = minQuantity\<rparr>]\<rparr>)"

definition record_change :: "alert_store \<Rightarrow> balance_change \<Rightarrow> alert_store" where
  "record_change st c =
     (case threshold st c of
        None \<Rightarrow> st
      | Some minQuantity \<Rightarrow>
          if minQuantity < blc_after c
          then (if blc_before c < blc_after c
                then st\<lparr>als_rows := rearm (blc_productId c) (blc_variantId c) (als_rows st)\<rparr>
                else st)
          else if uses_lots st c \<or> blc_before c \<le> minQuantity then st
          else flag_low c minQuantity st)"

definition record_crossing :: "planned_movement list \<Rightarrow> alert_store \<Rightarrow> alert_store" where
  "record_crossing ms st = foldl record_change st (balanceChanges ms)"

subsection \<open>The sales facade\<close>

datatype sale_stock_actor = UserActor ident | BotActor ident

definition resolveActor :: "(ident \<Rightarrow> string option) \<Rightarrow> sale_stock_actor \<Rightarrow> stock_actor" where
  "resolveActor user_name actor =
     (case actor of
        BotActor u \<Rightarrow> \<lparr>sta_id = Some u, sta_displayName = ''Bot''\<rparr>
      | UserActor u \<Rightarrow> \<lparr>sta_id = Some u, sta_displayName = or_default (user_name u) ''Usuario''\<rparr>)"

fun confirm_error :: "domain_error \<Rightarrow> domain_error" where
  "confirm_error (InsufficientStockError k i a r) = rule_violation ''STOCK_INSUFFICIENT_AT_CONFIRM''"
| "confirm_error (StockBucketNotFoundError k i) = rule_violation ''STOCK_INSUFFICIENT_AT_CONFIRM''"
| "confirm_error e = e"

record sale_stock =
  sst_db :: stock_db
  sst_alerts :: alert_store

definition sale_stock_charge ::
  "journal_env \<Rightarrow> (ident \<Rightarrow> string option) \<Rightarrow> ident \<Rightarrow> sale_stock_actor \<Rightarrow> stock_charge_item list
     \<Rightarrow> sale_stock \<Rightarrow> sale_stock result" where
  "sale_stock_charge env user_name saleId actor items st =
     (case journal_charge env saleId (resolveActor user_name actor) items (sst_db st) of
        Inl e \<Rightarrow> Inl (confirm_error e)
      | Inr (movements, db) \<Rightarrow>
          Inr \<lparr>sst_db = db,
               sst_alerts = record_crossing (map smv_planned movements) (sst_alerts st)\<rparr>)"

definition sale_stock_reverse ::
  "journal_env \<Rightarrow> (ident \<Rightarrow> string option) \<Rightarrow> ident \<Rightarrow> sale_stock_actor \<Rightarrow> stock_charge_item list
     \<Rightarrow> timestamp option \<Rightarrow> sale_stock \<Rightarrow> sale_stock result" where
  "sale_stock_reverse env user_name saleId actor saleLines confirmedAt st =
     andThen (reverseSale env saleId (resolveActor user_name actor) saleLines confirmedAt (sst_db st))
       (\<lambda>(outcome, db). Inr
          \<lparr>sst_db = db,
           sst_alerts = (case outcome of
               Reversed movements _ \<Rightarrow> record_crossing (map smv_planned movements) (sst_alerts st)
             | _ \<Rightarrow> sst_alerts st)\<rparr>)"

end
