(* ===== verification/SaleDesk.thy ===== *)
theory SaleDesk
  imports SaleBooks SalesPricing StockAlerts PromotionUsage
begin

section \<open>Charging, collecting, cancelling and settling\<close>

text \<open>
  The money commands of \<open>src/src/sales/sales.service.ts\<close>: \<open>chargeDraft\<close>,
  \<open>addPayment\<close>, \<open>cancelSale\<close> and \<open>settleRefund\<close>, each a whole request.  A desk is
  everything they write: the sale tables, the promotion ledger, the stock with its
  alerts and the cash tables.

  A command takes its idempotency slot first.  Without a cash session the slot is
  committed on its own and the rest is one transaction, so a command that throws
  afterwards leaves the slot behind; with a session the slot belongs to the same
  transaction.  So a command returns its answer or error \<^emph>\<open>and\<close> the desk.
\<close>

subsection \<open>The desk and its surroundings\<close>

datatype sale_request =
    ChargeRequest ident ident "tender_entry list" "js_date option" bool "ident option"
  | PaymentRequest ident ident "tender_entry list" "ident option"
  | CancelRequest ident ident sale_cancel_reason
  | SettleRequest ident ident cents tender "string option" timestamp "ident option"

record sales_desk =
  sdk_sales :: sales_db
  sdk_usage :: usage_store
  sdk_stock :: sale_stock
  sdk_cash :: cash_tenant

text \<open>
  Outside the commands: the clock, generated identifiers, SHA-256 of the request's
  JSON text, the process's collation and calendar, the price catalogue, the payment
  method catalogue, the customers' addresses with their owners, the order in which
  rows come back, and the names of users.
\<close>

record desk_env =
  dke_now :: timestamp
  dke_uuid :: "nat \<Rightarrow> ident"
  dke_hash :: "sale_request \<Rightarrow> string"
  dke_collate :: "string \<Rightarrow> string"
  dke_in_fifteen_days :: "timestamp \<Rightarrow> timestamp"
  dke_catalog :: price_catalog
  dke_weekday :: "timestamp \<Rightarrow> day_of_week"
  dke_promotions :: "promotion list \<Rightarrow> promotion list"
  dke_resolver :: method_resolver
  dke_address :: "ident \<Rightarrow> (ident \<times> shipping_address) option"
  dke_payment_order :: "sale_payment list \<Rightarrow> sale_payment list"
  dke_user_name :: "ident \<Rightarrow> string option"
  dke_journal :: journal_env
  dke_cash :: cash_env

type_synonym 'a outcome = "'a result \<times> sales_desk"

definition in_tx :: "('a \<times> sales_desk) result \<Rightarrow> sales_desk \<Rightarrow> 'a outcome" where
  "in_tx r st = (case r of Inl e \<Rightarrow> (Inl e, st) | Inr (a, st') \<Rightarrow> (Inr a, st'))"

text \<open>\<open>tenantPrisma.runInTransaction\<close> around the whole command when a session is named.\<close>

definition ambient ::
  "ident option \<Rightarrow> (sales_desk \<Rightarrow> 'a outcome) \<Rightarrow> sales_desk \<Rightarrow> 'a outcome" where
  "ambient session f st =
     (if session = None then f st
      else case f st of (Inl e, st') \<Rightarrow> (Inl e, st) | (Inr a, st') \<Rightarrow> (Inr a, st'))"

definition run_slot ::
  "acquire_outcome \<Rightarrow> (ident \<Rightarrow> sale_answer outcome) \<Rightarrow> sales_desk \<Rightarrow> sale_answer outcome" where
  "run_slot outcome go st =
     (case outcome of
        SlotReplay a \<Rightarrow> (Inr a, st)
      | SlotConflict \<Rightarrow> (Inl (rule_violation ''IDEMPOTENCY_KEY_CONFLICT''), st)
      | SlotBusy \<Rightarrow> (Inl (rule_violation ''IDEMPOTENCY_KEY_IN_FLIGHT''), st)
      | SlotWithoutSale \<Rightarrow> (Inl (PlainError ''Foreign key constraint violated''), st)
      | SlotAcquired token \<Rightarrow> go token)"

subsection \<open>Cash sessions\<close>

definition assertOpenSession :: "cash_env \<Rightarrow> ident \<Rightarrow> cash_tenant \<Rightarrow> unit result" where
  "assertOpenSession env sid st =
     (case find_session st sid of
        None \<Rightarrow> Inl (cash_violation ''CASH_SESSION_NOT_FOUND'' ''Cash session not found'')
      | Some s \<Rightarrow> requireSessionForLedger (cev_actor env) (tss_desk s))"

definition session_fence :: "desk_env \<Rightarrow> ident option \<Rightarrow> sales_desk \<Rightarrow> unit result" where
  "session_fence env session st =
     (case session of
        None \<Rightarrow> Inr () | Some sid \<Rightarrow> assertOpenSession (dke_cash env) sid (sdk_cash st))"

definition readCatalogIdentity :: "payment_metadata option \<Rightarrow> catalog_identity option" where
  "readCatalogIdentity m =
     (case m of
        Some (CatalogMetadata c) \<Rightarrow>
          Some \<lparr>cid_paymentMethodId = ctl_paymentMethodId c, cid_name = ctl_name c\<rparr>
      | _ \<Rightarrow> None)"

definition ledger_payment_of :: "sale_payment \<Rightarrow> ledger_payment result" where
  "ledger_payment_of p =
     mapR (\<lambda>m. \<lparr>ldp_paymentId = spy_id p, ldp_method = m, ldp_amountCents = JsInt (spy_amountCents p),
                ldp_catalog = readCatalogIdentity (spy_metadata p)\<rparr>)
       (requireLedgerPaymentMethod (spy_method p))"

definition book_payments ::
  "desk_env \<Rightarrow> timestamp \<Rightarrow> ident option \<Rightarrow> ident \<Rightarrow> sale_payment list \<Rightarrow> cents \<Rightarrow> cash_tenant
     \<Rightarrow> cash_tenant result" where
  "book_payments env occurredAt session saleId rows changeDue cash =
     (case session of
        None \<Rightarrow> Inr cash
      | Some sid \<Rightarrow>
          andThen (mapM_list ledger_payment_of rows) (\<lambda>payments.
            ledgerPayments ((dke_cash env)\<lparr>cev_now := occurredAt\<rparr>) sid saleId payments
              (JsInt changeDue) cash))"

subsection \<open>Events\<close>

text \<open>
  One event per payment with the running totals, starting from what was paid before
  these payments.
\<close>

fun received_events ::
  "(cents \<Rightarrow> sale_payment_status) \<Rightarrow> ident \<Rightarrow> ident option \<Rightarrow> cents \<Rightarrow> cents \<Rightarrow> sale_payment list
     \<Rightarrow> sale_event list" where
  "received_events status saleId actorId paid debt [] = []"
| "received_events status saleId actorId paid debt (p # ps) =
     (let paid' = paid + spy_amountCents p; debt' = max (debt - spy_amountCents p) 0 in
      PaymentReceivedEvent
        \<lparr>rce_saleId = saleId, rce_actorId = actorId, rce_paymentId = spy_id p,
         rce_method = spy_method p, rce_amountCents = spy_amountCents p,
         rce_reference = spy_reference p, rce_resultingPaidCents = paid',
         rce_resultingDebtCents = debt', rce_resultingPaymentStatus = status debt'\<rparr>
      # received_events status saleId actorId paid' debt' ps)"

definition publishPaymentReceivedEvents ::
  "sale_payment_status option \<Rightarrow> ident \<Rightarrow> ident option \<Rightarrow> sale_payment list \<Rightarrow> cents \<Rightarrow> cents
     \<Rightarrow> sale_event list" where
  "publishPaymentReceivedEvents resulting saleId actorId ps paid debt =
     (let paidBefore = paid - (\<Sum>p\<leftarrow>ps. spy_amountCents p);
          status = (\<lambda>remaining. or_default resulting
            (if remaining = 0 then PaymentPaid else PaymentPartial))
      in received_events status saleId actorId paidBefore (paid + debt - paidBefore) ps)"

definition publish :: "sale_event list \<Rightarrow> sales_db \<Rightarrow> sales_db" where
  "publish es db = db\<lparr>sls_outbox := sls_outbox db @ es\<rparr>"

subsection \<open>Charging a draft\<close>

definition refreshShippingAddressSnapshot :: "desk_env \<Rightarrow> sale \<Rightarrow> sale result" where
  "refreshShippingAddressSnapshot env s =
     andThen (ensureDraft s) (\<lambda>_.
       if \<not> truthy (sa_shippingAddressId s) then captureShippingAddress None s
       else case dke_address env (the_ident (sa_shippingAddressId s)) of
         None \<Rightarrow> Inl (rule_violation ''SHIPPING_ADDRESS_NOT_FOUND'')
       | Some (owner, address) \<Rightarrow>
           if Some owner \<noteq> sa_customerId s
           then Inl (rule_violation ''SHIPPING_ADDRESS_NOT_FOR_CUSTOMER'')
           else captureShippingAddress (Some address) s)"

definition pricing_env_of :: "desk_env \<Rightarrow> sales_desk \<Rightarrow> pricing_env" where
  "pricing_env_of env st =
     \<lparr>pce_catalog = dke_catalog env,
      pce_promotions = dke_promotions env (ust_promotions (sdk_usage st)),
      pce_weekday = dke_weekday env, pce_now = dke_now env\<rparr>"

definition draft_to_charge :: "ident \<Rightarrow> ident \<Rightarrow> sales_db \<Rightarrow> sale result" where
  "draft_to_charge saleId actorId db =
     (case findByIdForUpdate saleId db of
        None \<Rightarrow> Inl (rule_violation ''SALE_NOT_FOUND'')
      | Some s \<Rightarrow>
          andThen (throw_if (sa_userId s \<noteq> actorId) (rule_violation ''SALE_NOT_FOUND'')) (\<lambda>_.
          andThen (throw_if (sa_status s \<noteq> SaleDraft) (rule_violation ''SALE_ALREADY_CONFIRMED'')) (\<lambda>_.
            Inr s)))"

text \<open>The price check, the authoritative recompute and the check of a stale preview.\<close>

definition quote_charge ::
  "pricing_env \<Rightarrow> sale \<Rightarrow> (sale \<times> (ident \<times> int) list) result" where
  "quote_charge env s =
     andThen (check_charge_prices (pce_catalog env) s) (\<lambda>_.
       let applied = sortUniquePromotionIds (applied_promotion_ids s) in
       andThen (recomputePricingAndPromotions env False False s) (\<lambda>(s', demands, excluded).
       andThen (throw_if (\<exists>p\<in>set applied. p \<in> set excluded)
         (BusinessRuleViolationError ''Promotion capacity changed during charge''
           ''PROMO_CAPACITY_RE_QUOTE'')) (\<lambda>_.
         Inr (s', demands))))"

definition capacity_claims :: "(ident \<times> int) list \<Rightarrow> capacity_claim list" where
  "capacity_claims demands =
     map (\<lambda>(p, n). \<lparr>cpc_promotionId = p, cpc_units = JsInt n\<rparr>) demands"

definition sale_charge_items :: "sale \<Rightarrow> stock_charge_item list" where
  "sale_charge_items s =
     map (\<lambda>it. \<lparr>sci_productId = si_productId it, sci_variantId = si_variantId it,
                sci_quantity = JsInt (si_quantity it)\<rparr>) (sa_items s)"

definition with_due_date :: "js_date option \<Rightarrow> sale \<Rightarrow> sale result" where
  "with_due_date due s = (if due = None then Inr s else setDueDate due s)"

definition charge_confirmation ::
  "desk_env \<Rightarrow> ident \<Rightarrow> sale \<Rightarrow> charge_payment_row list \<Rightarrow> charge_settlement \<Rightarrow> string \<Rightarrow> confirmation" where
  "charge_confirmation env actorId s payments c folio =
     (let totals = previewTotals s in
      \<lparr>cnf_saleId = sa_id s, cnf_shipping = Some (sa_shippingAddressSnapshot s),
       cnf_userId = actorId, cnf_payments = payments,
       cnf_subtotalCents = pvt_subtotalCents totals, cnf_discountCents = pvt_discountCents totals,
       cnf_totalCents = pvt_totalCents totals, cnf_paidCents = cst_paidCents c,
       cnf_debtCents = cst_debtCents c, cnf_changeDueCents = cst_changeDueCents c,
       cnf_paymentStatus = cst_paymentStatus c, cnf_channel = None, cnf_register = None,
       cnf_deliveryStatus = Some (sa_deliveryStatus s), cnf_shippingChargeCents = None,
       cnf_shippingApprovalId = None, cnf_shippingQuoteId = None,
       cnf_shippingQuoteRecordId = None, cnf_fulfillmentMode = None,
       cnf_customerId = Some (sa_customerId s), cnf_sellerUserId = Some (sa_sellerUserId s),
       cnf_dueDate = Some (sa_dueDate s), cnf_confirmedAt = dke_now env, cnf_folio = folio,
       cnf_items = Some (sa_items s), cnf_applied = Some (sa_appliedOrderPromotion s)\<rparr>)"

definition charge_answer_of :: "confirmation \<Rightarrow> charge_answer" where
  "charge_answer_of c =
     \<lparr>cha_saleId = cnf_saleId c, cha_folio = cnf_folio c, cha_subtotalCents = cnf_subtotalCents c,
      cha_discountCents = cnf_discountCents c, cha_totalCents = cnf_totalCents c,
      cha_paidCents = cnf_paidCents c, cha_debtCents = cnf_debtCents c,
      cha_changeDueCents = cnf_changeDueCents c, cha_paymentStatus = cnf_paymentStatus c,
      cha_confirmedAt = cnf_confirmedAt c\<rparr>"

definition charge_events :: "ident \<Rightarrow> confirmation \<Rightarrow> sale_payment list \<Rightarrow> sale_event list" where
  "charge_events actorId c rows =
     SaleConfirmedEvent
       \<lparr>cfe_saleId = cnf_saleId c, cfe_actorId = actorId, cfe_folio = cnf_folio c,
        cfe_totalCents = cnf_totalCents c, cfe_paidCents = cnf_paidCents c,
        cfe_debtCents = cnf_debtCents c, cfe_paymentStatus = cnf_paymentStatus c,
        cfe_confirmedAt = cnf_confirmedAt c, cfe_subtotalCents = None, cfe_discountCents = None,
        cfe_shippingChargeCents = None\<rparr>
     # publishPaymentReceivedEvents None (cnf_saleId c) (Some actorId) rows (cnf_paidCents c)
         (cnf_debtCents c)
     @ (if cnf_debtCents c = 0
        then [SaleFullyPaidEvent (cnf_saleId c) (cnf_folio c) (cnf_totalCents c)] else [])"

text \<open>The transaction, after the slot.\<close>

definition charge_tx ::
  "desk_env \<Rightarrow> ident \<Rightarrow> ident \<Rightarrow> charge_dto \<Rightarrow> tender_entry list \<Rightarrow> ident \<Rightarrow> sales_desk
     \<Rightarrow> (sale_answer \<times> sales_desk) result" where
  "charge_tx env saleId actorId dto entries token st =
     andThen (session_fence env (cdt_cashSessionId dto) st) (\<lambda>_.
     andThen (draft_to_charge saleId actorId (sdk_sales st)) (\<lambda>s0.
     andThen (refreshShippingAddressSnapshot env s0) (\<lambda>s1.
     andThen (if cdt_delivery dto = Some True then markForDelivery s1 else Inr s1) (\<lambda>s2.
     andThen (quote_charge (pricing_env_of env st) s2) (\<lambda>(s3, demands).
     andThen (settle_charge entries (pvt_totalCents (previewTotals s3)) (sa_customerId s3)) (\<lambda>settled.
     andThen (toCanonicalChargePayments (dke_resolver env) entries) (\<lambda>payments.
     andThen (claimForSale (dke_now env) True (sa_id s3) (capacity_claims demands) (sdk_usage st)) (\<lambda>usage.
     andThen (sale_stock_charge (dke_journal env) (dke_user_name env) (sa_id s3) (UserActor actorId)
       (sale_charge_items s3) (sdk_stock st)) (\<lambda>stock.
     case allocateNextFolio (dke_now env) (sdk_sales st) of (folio, db1) \<Rightarrow>
     andThen (with_due_date (resolveDueDate (dke_in_fifteen_days env) (cdt_dueDate dto) (dke_now env)
       (cst_paymentStatus settled)) s3) (\<lambda>s4.
     let c = charge_confirmation env actorId s4 payments settled folio in
     andThen (persistChargeConfirmation (dke_now env) (\<lambda>i. dke_uuid env (i + 1)) c db1) (\<lambda>(rows, db2).
     andThen (book_payments env (dke_now env) (cdt_cashSessionId dto) saleId rows
       (cnf_changeDueCents c) (sdk_cash st)) (\<lambda>cash.
       let answer = ChargeAnswer (charge_answer_of c);
           db3 = publish (charge_events actorId c rows) db2
       in Inr (answer,
            \<lparr>sdk_sales = markIdempotencySucceeded (dke_now env) token saleId answer db3,
             sdk_usage = usage, sdk_stock = stock, sdk_cash = cash\<rparr>)))))))))))))"

definition executeChargeDraft ::
  "desk_env \<Rightarrow> ident \<Rightarrow> ident \<Rightarrow> charge_dto \<Rightarrow> string \<Rightarrow> sales_desk \<Rightarrow> sale_answer outcome" where
  "executeChargeDraft env saleId actorId dto key st =
     (case normalizeChargeRequestPayments dto of
        Inl e \<Rightarrow> (Inl e, st)
      | Inr entries \<Rightarrow>
          let requestHash = dke_hash env (ChargeRequest saleId actorId
                (sortPaymentsForHash (dke_collate env) entries) (cdt_dueDate dto)
                (cdt_delivery dto = Some True) (cdt_cashSessionId dto))
          in case acquireIdempotency (dke_now env) (dke_uuid env 0) OpSaleCharge (Some saleId) key
               requestHash (sdk_sales st) of
             (outcome, db) \<Rightarrow>
               let st1 = st\<lparr>sdk_sales := db\<rparr> in
               run_slot outcome
                 (\<lambda>token. in_tx (charge_tx env saleId actorId dto entries token st1) st1) st1)"

definition chargeDraft ::
  "desk_env \<Rightarrow> ident \<Rightarrow> ident \<Rightarrow> charge_dto \<Rightarrow> string \<Rightarrow> sales_desk \<Rightarrow> sale_answer outcome" where
  "chargeDraft env saleId actorId dto key =
     ambient (cdt_cashSessionId dto) (executeChargeDraft env saleId actorId dto key)"

subsection \<open>Collecting a payment\<close>

datatype payment_auth = AuthOwner | AuthReviewer

text \<open>Owners get catalogue snapshots; a reviewer's payment is a transfer of bot origin.\<close>

definition reviewer_row :: "sale_channel \<Rightarrow> tender_entry \<Rightarrow> charge_payment_row" where
  "reviewer_row channel p =
     \<lparr>cpr_method = TenderTransfer, cpr_amountCents = tde_amountCents p,
      cpr_reference = tde_reference p, cpr_metadata = Some (BotOrigin channel)\<rparr>"

definition payments_to_persist ::
  "desk_env \<Rightarrow> payment_auth \<Rightarrow> sale_channel \<Rightarrow> tender_entry list \<Rightarrow> charge_payment_row list result" where
  "payments_to_persist env auth channel entries =
     (if auth = AuthReviewer then Inr (map (reviewer_row channel) entries)
      else mapM_list (canonical_row (dke_resolver env)) entries)"

definition sale_to_collect :: "payment_auth \<Rightarrow> ident \<Rightarrow> ident \<Rightarrow> sales_db \<Rightarrow> sale result" where
  "sale_to_collect auth saleId actorId db =
     (case findByIdForUpdate saleId db of
        None \<Rightarrow> Inl (rule_violation ''SALE_NOT_FOUND'')
      | Some s \<Rightarrow>
          andThen (throw_if (auth = AuthOwner \<and> sa_userId s \<noteq> actorId)
            (rule_violation ''SALE_NOT_FOUND'')) (\<lambda>_.
          andThen (throw_if (sa_status s \<noteq> SaleConfirmed)
            (rule_violation ''SALE_NOT_CONFIRMABLE_FOR_PAYMENT'')) (\<lambda>_.
            Inr s)))"

definition collect_events ::
  "ident \<Rightarrow> ident option \<Rightarrow> string option \<Rightarrow> collected \<Rightarrow> sale_event list" where
  "collect_events saleId actorId folio c =
     publishPaymentReceivedEvents (Some (cld_paymentStatus c)) saleId actorId (cld_rows c)
       (cld_paidCents c) (cld_debtCents c) @
     (if cld_debtCents c = 0
      then [SaleFullyPaidEvent saleId (or_default folio ''N/A'') (cld_totalCents c)] else [])"

definition payment_answer_of :: "ident \<Rightarrow> collected \<Rightarrow> payment_answer" where
  "payment_answer_of saleId c =
     \<lparr>paa_saleId = saleId, paa_paidCents = cld_paidCents c, paa_debtCents = cld_debtCents c,
      paa_totalCents = cld_totalCents c, paa_paymentStatus = cld_paymentStatus c,
      paa_paymentIds = map spy_id (cld_rows c)\<rparr>"

definition payment_tx ::
  "desk_env \<Rightarrow> payment_auth \<Rightarrow> ident \<Rightarrow> ident \<Rightarrow> ident option \<Rightarrow> tender_entry list \<Rightarrow> ident
     \<Rightarrow> sales_desk \<Rightarrow> (sale_answer \<times> sales_desk) result" where
  "payment_tx env auth saleId actorId session entries token st =
     (let payer = (if auth = AuthReviewer then None else Some actorId) in
      andThen (session_fence env session st) (\<lambda>_.
      andThen (sale_to_collect auth saleId actorId (sdk_sales st)) (\<lambda>s.
      andThen (payments_to_persist env auth (sa_channel s) entries) (\<lambda>rows.
      andThen (persistCollectedPayments (dke_now env) (\<lambda>i. dke_uuid env (i + 1)) saleId payer rows
        (sdk_sales st)) (\<lambda>(c, db).
      andThen (book_payments env (dke_now env) session saleId (cld_rows c) 0 (sdk_cash st)) (\<lambda>cash.
        let answer = PaymentAnswer (payment_answer_of saleId c);
            db1 = publish (collect_events saleId payer (sa_folio s) c) db
        in Inr (answer,
             st\<lparr>sdk_sales := markIdempotencySucceeded (dke_now env) token saleId answer db1,
                sdk_cash := cash\<rparr>)))))))"

definition executeAddPayment ::
  "desk_env \<Rightarrow> payment_auth \<Rightarrow> ident \<Rightarrow> ident \<Rightarrow> charge_dto \<Rightarrow> string \<Rightarrow> sales_desk
     \<Rightarrow> sale_answer outcome" where
  "executeAddPayment env auth saleId actorId dto key st =
     (if cdt_cashSessionId dto \<noteq> None \<and> auth = AuthReviewer
        then (Inl (rule_violation ''CASH_SESSION_REVIEWER_NOT_ALLOWED''), st)
      else case normalizeCollectionRequestPayments dto of
        Inl e \<Rightarrow> (Inl e, st)
      | Inr entries \<Rightarrow>
          let requestHash = dke_hash env (PaymentRequest saleId actorId
                (sortPaymentsForHash (dke_collate env) entries) (cdt_cashSessionId dto))
          in case acquireIdempotency (dke_now env) (dke_uuid env 0) OpSalePayment (Some saleId) key
               requestHash (sdk_sales st) of
             (outcome, db) \<Rightarrow>
               let st1 = st\<lparr>sdk_sales := db\<rparr> in
               run_slot outcome
                 (\<lambda>token. in_tx (payment_tx env auth saleId actorId (cdt_cashSessionId dto) entries
                    token st1) st1) st1)"

definition addPayment ::
  "desk_env \<Rightarrow> payment_auth \<Rightarrow> ident \<Rightarrow> ident \<Rightarrow> charge_dto \<Rightarrow> string \<Rightarrow> sales_desk
     \<Rightarrow> sale_answer outcome" where
  "addPayment env auth saleId actorId dto key =
     ambient (cdt_cashSessionId dto) (executeAddPayment env auth saleId actorId dto key)"

subsection \<open>Cancelling a sale\<close>

definition cancel_result :: "desk_env \<Rightarrow> sale \<Rightarrow> sale \<Rightarrow> cents \<Rightarrow> cancel_answer" where
  "cancel_result env loaded canceled refunded =
     \<lparr>cca_saleId = sa_id canceled, cca_refundedCents = refunded,
      cca_restockedItems = sale_charge_items loaded,
      cca_canceledAt = or_default (sa_canceledAt canceled) (dke_now env)\<rparr>"

definition cancellation_key :: "ident \<Rightarrow> string" where
  "cancellation_key saleId = ''sale:cancel:'' @ saleId"

text \<open>\<open>findOneWithRelations\<close> sees confirmed and cancelled sales only.\<close>

definition refundable_payments :: "desk_env \<Rightarrow> ident \<Rightarrow> sales_db \<Rightarrow> sale_payment list" where
  "refundable_payments env saleId db =
     (case find_sale saleId db of
        None \<Rightarrow> []
      | Some r \<Rightarrow>
          if slr_status r = SaleDraft then [] else dke_payment_order env (payments_of saleId db))"

definition cancellation_refunds ::
  "desk_env \<Rightarrow> ident \<Rightarrow> cents \<Rightarrow> sale_cancel_reason \<Rightarrow> sales_db \<Rightarrow> refund_draft list result" where
  "cancellation_refunds env saleId refunded reason db =
     (if refunded = 0 then Inr []
      else buildCancellationRefunds (refundable_payments env saleId db) refunded reason)"

definition canceled_event_of ::
  "ident \<Rightarrow> sale_cancel_reason \<Rightarrow> sale \<Rightarrow> cancel_answer \<Rightarrow> sale_event" where
  "canceled_event_of actorId reason s a = SaleCanceledEvent
     \<lparr>cle_saleId = cca_saleId a, cle_actorId = actorId, cle_folio = or_default (sa_folio s) ''N/A'',
      cle_reason = reason, cle_refundedCents = cca_refundedCents a,
      cle_restockedItems = cca_restockedItems a, cle_canceledAt = cca_canceledAt a\<rparr>"

definition confirmed_time :: "sale \<Rightarrow> timestamp option" where
  "confirmed_time s =
     (case sa_confirmedAt s of Some (ValidDate t) \<Rightarrow> Some t | _ \<Rightarrow> None)"

definition cancel_tx ::
  "desk_env \<Rightarrow> ident \<Rightarrow> ident \<Rightarrow> sale_cancel_reason \<Rightarrow> bool \<Rightarrow> ident \<Rightarrow> sales_desk
     \<Rightarrow> (sale_answer \<times> sales_desk) result" where
  "cancel_tx env saleId actorId reason fromBot token st =
     (case findByIdForUpdate saleId (sdk_sales st) of
        None \<Rightarrow> Inl (rule_violation ''SALE_NOT_FOUND'')
      | Some s \<Rightarrow>
          if sa_status s = SaleCanceled then
            let answer = CancelAnswer (cancel_result env s s (if refunds_nothing s then 0 else sa_paidCents s))
            in Inr (answer, st\<lparr>sdk_sales :=
                 markIdempotencySucceeded (dke_now env) token saleId answer (sdk_sales st)\<rparr>)
          else
            andThen (Sale_cancel (dke_now env) reason
                \<lparr>cna_actorId = actorId, cna_canceledAt = None\<rparr> s) (\<lambda>(canceled, refunded).
            andThen (sale_stock_reverse (dke_journal env) (dke_user_name env) saleId
                (if fromBot then BotActor actorId else UserActor actorId) (sale_charge_items s)
                (confirmed_time s) (sdk_stock st)) (\<lambda>stock.
            andThen (cancellation_refunds env saleId refunded reason (sdk_sales st)) (\<lambda>refunds.
            let db = persistCancellation (dke_now env) (\<lambda>i. dke_uuid env (i + 1)) canceled refunds
                  (sdk_sales st)
            in andThen (restoreForSale (dke_collate env) (dke_now env) True saleId (sdk_usage st)) (\<lambda>usage.
              let a = cancel_result env s canceled refunded;
                  db1 = publish [canceled_event_of actorId reason canceled a] db
              in Inr (CancelAnswer a,
                   st\<lparr>sdk_sales := markIdempotencySucceeded (dke_now env) token saleId (CancelAnswer a) db1,
                      sdk_usage := usage, sdk_stock := stock\<rparr>))))))"

definition cancelSale ::
  "desk_env \<Rightarrow> ident \<Rightarrow> ident \<Rightarrow> sale_cancel_reason \<Rightarrow> bool \<Rightarrow> sales_desk \<Rightarrow> sale_answer outcome" where
  "cancelSale env saleId actorId reason fromBot st =
     (case acquireIdempotency (dke_now env) (dke_uuid env 0) OpSaleCancel (Some saleId)
        (cancellation_key saleId) (dke_hash env (CancelRequest saleId actorId reason))
        (sdk_sales st) of
        (outcome, db) \<Rightarrow>
          let st1 = st\<lparr>sdk_sales := db\<rparr> in
          run_slot outcome
            (\<lambda>token. in_tx (cancel_tx env saleId actorId reason fromBot token st1) st1) st1)"

subsection \<open>Settling a refund\<close>

record settle_dto =
  sdt_amountCents :: cents
  sdt_method :: tender
  sdt_reference :: "string option"
  sdt_settledAt :: js_date
  sdt_cashSessionId :: "ident option"

definition settle_input_of :: "ident \<Rightarrow> ident \<Rightarrow> settle_dto \<Rightarrow> timestamp \<Rightarrow> settle_input" where
  "settle_input_of refundId actorId dto at =
     \<lparr>sti_refundId = refundId, sti_settledByUserId = Some actorId,
      sti_amountCents = sdt_amountCents dto, sti_method = sdt_method dto,
      sti_reference = sdt_reference dto, sti_settledAt = at\<rparr>"

definition settlement_answer_of ::
  "ident \<Rightarrow> settle_dto \<Rightarrow> timestamp \<Rightarrow> settlement_result \<Rightarrow> settlement_answer" where
  "settlement_answer_of refundId dto at r =
     \<lparr>sta_settlementId = stl_settlementId r, sta_refundId = refundId, sta_saleId = stl_saleId r,
      sta_amountCents = sdt_amountCents dto, sta_method = sdt_method dto,
      sta_reference = sdt_reference dto, sta_settledAt = at,
      sta_settledCents = stl_settledCents r, sta_outstandingCents = stl_outstandingCents r\<rparr>"

definition book_refund ::
  "desk_env \<Rightarrow> (ident \<times> cash_method) option \<Rightarrow> ident \<Rightarrow> cents \<Rightarrow> timestamp \<Rightarrow> cash_tenant
     \<Rightarrow> cash_tenant result" where
  "book_refund env bound settlementId amount at cash =
     (case bound of
        None \<Rightarrow> Inr cash
      | Some (sid, m) \<Rightarrow>
          ledgerRefund ((dke_cash env)\<lparr>cev_now := at\<rparr>) sid settlementId amount m cash)"

definition settle_tx ::
  "desk_env \<Rightarrow> ident \<Rightarrow> ident \<Rightarrow> settle_dto \<Rightarrow> timestamp \<Rightarrow> (ident \<times> cash_method) option \<Rightarrow> ident
     \<Rightarrow> sales_desk \<Rightarrow> (sale_answer \<times> sales_desk) result" where
  "settle_tx env refundId actorId dto at bound token st =
     andThen (session_fence env (sdt_cashSessionId dto) st) (\<lambda>_.
     andThen (persistSettlement (dke_uuid env 1) (settle_input_of refundId actorId dto at)
       (sdk_sales st)) (\<lambda>(r, db).
     andThen (book_refund env bound (stl_settlementId r) (sdt_amountCents dto) at (sdk_cash st)) (\<lambda>cash.
     let answer = SettlementAnswer (settlement_answer_of refundId dto at r) in
     andThen (markSettlementIdempotencySucceeded (dke_now env) token (stl_saleId r) answer db) (\<lambda>db1.
       Inr (answer, st\<lparr>sdk_sales := db1, sdk_cash := cash\<rparr>)))))"

text \<open>A transaction that throws releases the slot before the error goes on.\<close>

definition release_on_error :: "ident \<Rightarrow> sale_answer outcome \<Rightarrow> sale_answer outcome" where
  "release_on_error token r =
     (case r of
        (Inl e, st) \<Rightarrow>
          (Inl e, st\<lparr>sdk_sales := releaseSettlementIdempotency token (sdk_sales st)\<rparr>)
      | (Inr a, st) \<Rightarrow> (Inr a, st))"

text \<open>A stored answer must have the shape of a settlement.\<close>

definition settlement_replay :: "sale_answer outcome \<Rightarrow> sale_answer outcome" where
  "settlement_replay r =
     (case r of
        (Inr (SettlementAnswer a), st) \<Rightarrow> r
      | (Inr _, st) \<Rightarrow> (Inl (PlainError ''INVALID_SETTLEMENT_IDEMPOTENCY_PAYLOAD''), st)
      | _ \<Rightarrow> r)"

definition bound_method :: "settle_dto \<Rightarrow> (ident \<times> cash_method) option result" where
  "bound_method dto =
     (case sdt_cashSessionId dto of
        None \<Rightarrow> Inr None
      | Some sid \<Rightarrow> mapR (\<lambda>m. Some (sid, m)) (requireLedgerPaymentMethod (sdt_method dto)))"

definition executeSettleRefund ::
  "desk_env \<Rightarrow> ident \<Rightarrow> ident \<Rightarrow> settle_dto \<Rightarrow> string \<Rightarrow> sales_desk \<Rightarrow> sale_answer outcome" where
  "executeSettleRefund env refundId actorId dto key st =
     (case andThen (toISOString (sdt_settledAt dto)) (\<lambda>at. mapR (Pair at) (bound_method dto)) of
        Inl e \<Rightarrow> (Inl e, st)
      | Inr (at, bound) \<Rightarrow>
          let requestHash = dke_hash env (SettleRequest refundId actorId (sdt_amountCents dto)
                (sdt_method dto) (sdt_reference dto) at (sdt_cashSessionId dto))
          in case acquireSettlementIdempotency (dke_now env) (dke_uuid env 0) refundId key
               requestHash (sdk_sales st) of
             (outcome, db) \<Rightarrow>
               let st1 = st\<lparr>sdk_sales := db\<rparr> in
               settlement_replay (run_slot outcome
                 (\<lambda>token. release_on_error token
                    (in_tx (settle_tx env refundId actorId dto at bound token st1) st1)) st1))"

definition settleRefund ::
  "desk_env \<Rightarrow> ident \<Rightarrow> ident \<Rightarrow> settle_dto \<Rightarrow> string \<Rightarrow> sales_desk \<Rightarrow> sale_answer outcome" where
  "settleRefund env refundId actorId dto key =
     ambient (sdt_cashSessionId dto) (executeSettleRefund env refundId actorId dto key)"

end
