(* ===== verification/SalesTenderLaws.thy ===== *)
theory SalesTenderLaws
  imports SalesTender "HOL-Library.Multiset"
begin

section \<open>Laws of tenders\<close>

text \<open>
  What an accepted charge settles, what its stored payments sum to, and when the
  refunds of a cancellation can be built.
\<close>

subsection \<open>Charges\<close>

lemma settle_chargeE:
  assumes "settle_charge ps totalCents customer = Inr c"
  obtains "0 \<le> tenderedCents ps" and "cst_paidCents c = min (tenderedCents ps) totalCents"
    and "cst_debtCents c = totalCents - cst_paidCents c"
    and "cst_paymentStatus c = payment_status_of (cst_paidCents c) totalCents"
    and "tenderedCents ps = cst_paidCents c + cst_changeDueCents c" and "0 \<le> cst_changeDueCents c"
    and "has_tender TenderCash ps \<or> cst_changeDueCents c = 0"
    and "cst_debtCents c \<noteq> 0 \<longrightarrow> truthy customer"
    and "has_tender TenderCredit ps \<Longrightarrow> \<forall>p\<in>set ps. tde_amountCents p = 0"
proof -
  from assms have v: "validate_tenders ps totalCents customer = Inr ()"
    and c: "c = \<lparr>cst_paidCents = min (tenderedCents ps) totalCents,
       cst_debtCents = totalCents - min (tenderedCents ps) totalCents,
       cst_paymentStatus = payment_status_of (min (tenderedCents ps) totalCents) totalCents,
       cst_changeDueCents = (if has_tender TenderCash ps \<and>
           payment_status_of (min (tenderedCents ps) totalCents) totalCents = PaymentPaid
         then tenderedCents ps - totalCents else 0)\<rparr>"
    by (auto simp: settle_charge_def Let_def result_simps)
  from v have *: "0 \<le> tenderedCents ps" "has_tender TenderCash ps \<or> tenderedCents ps \<le> totalCents"
    "totalCents \<le> tenderedCents ps \<or> truthy customer"
    "has_tender TenderCredit ps \<Longrightarrow> length ps \<le> 1 \<and> tenderedCents ps = 0"
    by (auto simp: validate_tenders_def Let_def split: if_split_asm)
  have paid: "payment_status_of t n = PaymentPaid \<longleftrightarrow> t = n" for t n :: int
    by (simp add: payment_status_of_def)
  show thesis
  proof (rule that)
    assume "has_tender TenderCredit ps"
    with *(4) have "length ps \<le> 1" "tenderedCents ps = 0" by simp_all
    then show "\<forall>p\<in>set ps. tde_amountCents p = 0"
      by (cases ps) (auto simp: tenderedCents_def)
  qed (use * in \<open>auto simp: c paid min_def\<close>)
qed

lemma canonical_row_fields:
  "canonical_row resolver p = Inr r \<Longrightarrow> cpr_amountCents r = tde_amountCents p \<and> cpr_method r = tde_method p"
  by (auto simp: canonical_row_def result_simps)

lemma canonical_rows_sum:
  assumes "mapM_list (canonical_row resolver) ps = Inr rows"
  shows "(\<Sum>r\<leftarrow>rows. cpr_amountCents r) = tenderedCents ps"
proof -
  from assms have "list_all2 (\<lambda>p r. canonical_row resolver p = Inr r) ps rows" by (simp add: mapM_list_Inr)
  then show ?thesis
    by (induction rule: list_all2_induct) (simp_all add: tenderedCents_def canonical_row_fields)
qed

lemma tendered_without_credit:
  assumes "has_tender TenderCredit ps \<Longrightarrow> \<forall>p\<in>set ps. tde_amountCents p = 0"
  shows "tenderedCents (filter (\<lambda>p. tde_method p \<noteq> TenderCredit) ps) = tenderedCents ps"
proof (cases "has_tender TenderCredit ps")
  case True
  from assms [OF this] show ?thesis
    by (induction ps) (auto simp: tenderedCents_def)
next
  case False
  then have "filter (\<lambda>p. tde_method p \<noteq> TenderCredit) ps = ps"
    by (auto simp: has_tender_def filter_id_conv)
  then show ?thesis by simp
qed

text \<open>What is stored for a charge sums to what was tendered.\<close>

lemma canonical_charge_sum:
  assumes "settle_charge ps totalCents customer = Inr c"
    and "toCanonicalChargePayments resolver ps = Inr rows"
  shows "(\<Sum>r\<leftarrow>rows. cpr_amountCents r) = tenderedCents ps"
    and "\<forall>r\<in>set rows. cpr_method r \<noteq> TenderCredit"
proof -
  from assms(1) have "has_tender TenderCredit ps \<Longrightarrow> \<forall>p\<in>set ps. tde_amountCents p = 0"
    by (rule settle_chargeE)
  with canonical_rows_sum assms(2) show "(\<Sum>r\<leftarrow>rows. cpr_amountCents r) = tenderedCents ps"
    by (simp add: toCanonicalChargePayments_def tendered_without_credit)
  from assms(2) have "list_all2 (\<lambda>p r. canonical_row resolver p = Inr r)
      (filter (\<lambda>p. tde_method p \<noteq> TenderCredit) ps) rows"
    by (simp add: toCanonicalChargePayments_def mapM_list_Inr)
  moreover have "list_all2 (\<lambda>p r. canonical_row resolver p = Inr r) qs rows \<Longrightarrow>
      \<forall>q\<in>set qs. tde_method q \<noteq> TenderCredit \<Longrightarrow> \<forall>r\<in>set rows. cpr_method r \<noteq> TenderCredit" for qs
    by (induction rule: list_all2_induct) (auto dest: canonical_row_fields)
  ultimately show "\<forall>r\<in>set rows. cpr_method r \<noteq> TenderCredit" by simp
qed

subsection \<open>Refunds\<close>

lemma normalize_stored [simp]: "normalizeRefundMethod (stored_method m) = Inr m"
  by (cases m) (simp_all add: normalizeRefundMethod_def)

text \<open>What is positive in the payments bounds what can be refunded.\<close>

definition refund_pool :: "sale_payment list \<Rightarrow> cents" where
  "refund_pool ps = (\<Sum>p\<leftarrow>ps. max 0 (spy_amountCents p))"

definition refund_of :: "sale_cancel_reason \<Rightarrow> sale_payment list \<Rightarrow> refund_draft \<Rightarrow> bool" where
  "refund_of reason ps d \<longleftrightarrow> 0 < rfd_amountCents d \<and> rfd_reason d = reason \<and>
     (\<exists>p\<in>set ps. rfd_salePaymentId d = spy_id p \<and> rfd_method d = spy_method p \<and>
        rfd_amountCents d \<le> spy_amountCents p)"

lemma refund_pool_Cons [simp]: "refund_pool (p # ps) = max 0 (spy_amountCents p) + refund_pool ps"
  and refund_pool_Nil [simp]: "refund_pool [] = 0"
  by (simp_all add: refund_pool_def)

lemma refund_pool_nonneg: "0 \<le> refund_pool ps"
  by (induction ps) auto

lemma refund_of_Cons: "refund_of reason ps d \<Longrightarrow> refund_of reason (p # ps) d"
  by (auto simp: refund_of_def)

lemma refund_payments_total:
  "0 \<le> remaining \<Longrightarrow> \<exists>rs. refund_payments reason remaining ps = Inr (rs, max 0 (remaining - refund_pool ps)) \<and>
     (\<Sum>d\<leftarrow>rs. rfd_amountCents d) = min remaining (refund_pool ps) \<and> (\<forall>d\<in>set rs. refund_of reason ps d)"
proof (induction ps arbitrary: remaining)
  case (Cons p ps)
  let ?a = "min (spy_amountCents p) remaining"
  show ?case
  proof (cases "remaining \<le> 0 \<or> ?a \<le> 0")
    case True
    show ?thesis
    proof (cases "remaining = 0")
      case True
      with refund_pool_nonneg [of ps] show ?thesis by simp
    next
      case False
      with True Cons.prems have a: "spy_amountCents p \<le> 0" by auto
      with False Cons.prems have "refund_payments reason remaining (p # ps) = refund_payments reason remaining ps"
        by (simp add: Let_def)
      with a Cons.IH [OF Cons.prems] show ?thesis by (auto intro: refund_of_Cons)
    qed
  next
    case False
    with Cons.prems have "0 \<le> remaining - ?a" by auto
    from Cons.IH [OF this] obtain rs where
      rs: "refund_payments reason (remaining - ?a) ps = Inr (rs, max 0 (remaining - ?a - refund_pool ps))"
        "(\<Sum>d\<leftarrow>rs. rfd_amountCents d) = min (remaining - ?a) (refund_pool ps)"
        "\<forall>d\<in>set rs. refund_of reason ps d" by blast
    let ?d = "\<lparr>rfd_salePaymentId = spy_id p, rfd_method = spy_method p, rfd_amountCents = ?a,
      rfd_reason = reason\<rparr>"
    have "refund_payments reason remaining (p # ps) =
        Inr (?d # rs, max 0 (remaining - ?a - refund_pool ps))"
      using False rs(1) by (simp add: Let_def)
    moreover have "max 0 (remaining - ?a - refund_pool ps) = max 0 (remaining - refund_pool (p # ps))"
      using False refund_pool_nonneg [of ps] by (auto simp: min_def max_def)
    moreover have "(\<Sum>d\<leftarrow>?d # rs. rfd_amountCents d) = min remaining (refund_pool (p # ps))"
      using False rs(2) refund_pool_nonneg [of ps] by (auto simp: min_def max_def)
    moreover have "\<forall>d\<in>set (?d # rs). refund_of reason (p # ps) d"
      using rs(3) False refund_of_Cons by (auto simp: refund_of_def)
    ultimately show ?thesis by metis
  qed
qed auto

lemma refunds_cover:
  assumes "0 \<le> refunded" and "refunded \<le> refund_pool ps"
  obtains rs where "buildCancellationRefunds ps refunded reason = Inr rs"
    and "(\<Sum>d\<leftarrow>rs. rfd_amountCents d) = refunded" and "\<forall>d\<in>set rs. refund_of reason ps d"
proof -
  from refund_payments_total [OF assms(1), of reason ps] obtain rs where
    rs: "refund_payments reason refunded ps = Inr (rs, max 0 (refunded - refund_pool ps))"
      "(\<Sum>d\<leftarrow>rs. rfd_amountCents d) = min refunded (refund_pool ps)"
      "\<forall>d\<in>set rs. refund_of reason ps d" by blast
  show thesis by (rule that [of rs]) (use rs assms(2) in \<open>simp_all add: buildCancellationRefunds_def\<close>)
qed

lemma refunds_built:
  assumes "buildCancellationRefunds ps refunded reason = Inr rs" and "0 \<le> refunded"
  shows "(\<Sum>d\<leftarrow>rs. rfd_amountCents d) = refunded \<and> (\<forall>d\<in>set rs. refund_of reason ps d)"
  using refund_payments_total [OF assms(2), of reason ps] assms(1)
  by (auto simp: buildCancellationRefunds_def split: if_split_asm)

lemma refund_pool_ge: "(\<Sum>p\<leftarrow>ps. spy_amountCents p) \<le> refund_pool ps"
  by (induction ps) auto

lemma refund_pool_mset: "mset ps = mset qs \<Longrightarrow> refund_pool ps = refund_pool qs"
  unfolding refund_pool_def by (metis mset_map sum_mset_sum_list)

end
