(* ===== verification/SaleBooksLaws.thy ===== *)
theory SaleBooksLaws
  imports SaleBooks SalesTenderLaws
begin

section \<open>Laws of the sale tables\<close>

text \<open>
  The books balance: what a charged sale says it was paid is what its payments sum to,
  up to its total; a cancelled sale owes back what was paid; a refund is settled by its
  settlements and never beyond its amount.  Every write keeps this.
\<close>

subsection \<open>The invariant\<close>

definition refund_due :: "sale_row \<Rightarrow> cents" where
  "refund_due r =
     (if slr_paymentStatus r = Some PaymentCredit \<or> slr_paidCents r = 0 then 0 else slr_paidCents r)"

definition refunded_cents :: "ident \<Rightarrow> sales_db \<Rightarrow> cents" where
  "refunded_cents saleId db =
     (\<Sum>f\<leftarrow>filter (\<lambda>f. rfr_saleId f = saleId) (sls_refunds db). rfr_amountCents f)"

definition charged_row :: "cents \<Rightarrow> sale_row \<Rightarrow> bool" where
  "charged_row paid r \<longleftrightarrow>
     0 \<le> slr_totalCents r \<and> slr_paidCents r = min (slr_totalCents r) paid \<and>
     slr_paymentStatus r = Some (payment_status_of (slr_paidCents r) (slr_totalCents r))"

definition row_balanced :: "sales_db \<Rightarrow> sale_row \<Rightarrow> bool" where
  "row_balanced db r \<longleftrightarrow>
     (case slr_status r of
        SaleDraft \<Rightarrow> True
      | SaleConfirmed \<Rightarrow>
          charged_row (paid_from_ledger (slr_id r) db) r \<and>
          slr_debtCents r = slr_totalCents r - slr_paidCents r
      | SaleCanceled \<Rightarrow>
          charged_row (paid_from_ledger (slr_id r) db) r \<and>
          refunded_cents (slr_id r) db = refund_due r)"

definition has_row :: "(sale_row \<Rightarrow> bool) \<Rightarrow> ident \<Rightarrow> sales_db \<Rightarrow> bool" where
  "has_row P i db \<longleftrightarrow> (\<exists>r\<in>set (sls_sales db). slr_id r = i \<and> P r)"

definition payment_booked :: "sales_db \<Rightarrow> sale_payment \<Rightarrow> bool" where
  "payment_booked db p \<longleftrightarrow>
     0 \<le> spy_amountCents p \<and> has_row (\<lambda>r. slr_status r \<noteq> SaleDraft) (spy_saleId p) db"

definition refund_booked :: "sales_db \<Rightarrow> refund_row \<Rightarrow> bool" where
  "refund_booked db f \<longleftrightarrow>
     has_row (\<lambda>r. slr_status r = SaleCanceled) (rfr_saleId f) db \<and>
     rfr_settledCents f = settled_cents (rfr_id f) db \<and>
     0 \<le> rfr_settledCents f \<and> rfr_settledCents f \<le> rfr_amountCents f \<and> 0 < rfr_amountCents f"

definition books_ok :: "sales_db \<Rightarrow> bool" where
  "books_ok db \<longleftrightarrow>
     distinct (map slr_id (sls_sales db)) \<and> distinct (map rfr_id (sls_refunds db)) \<and>
     (\<forall>r\<in>set (sls_sales db). row_balanced db r) \<and>
     (\<forall>p\<in>set (sls_payments db). payment_booked db p) \<and>
     (\<forall>f\<in>set (sls_refunds db). refund_booked db f) \<and>
     (\<forall>x\<in>set (sls_settlements db). stt_refundId x \<in> rfr_id ` set (sls_refunds db))"

lemma books_okD:
  assumes "books_ok db"
  shows "distinct (map slr_id (sls_sales db))" "distinct (map rfr_id (sls_refunds db))"
    "r \<in> set (sls_sales db) \<Longrightarrow> row_balanced db r"
    "p \<in> set (sls_payments db) \<Longrightarrow> payment_booked db p"
    "f \<in> set (sls_refunds db) \<Longrightarrow> refund_booked db f"
    "x \<in> set (sls_settlements db) \<Longrightarrow> stt_refundId x \<in> rfr_id ` set (sls_refunds db)"
  using assms by (auto simp: books_ok_def)

text \<open>The tables the invariant reads.\<close>

definition same_books :: "sales_db \<Rightarrow> sales_db \<Rightarrow> bool" where
  "same_books db db' \<longleftrightarrow>
     sls_sales db' = sls_sales db \<and> sls_payments db' = sls_payments db \<and>
     sls_refunds db' = sls_refunds db \<and> sls_settlements db' = sls_settlements db"

lemma same_books_ok: "same_books db db' \<Longrightarrow> books_ok db' = books_ok db"
  by (simp add: same_books_def books_ok_def row_balanced_def payment_booked_def refund_booked_def
      has_row_def paid_from_ledger_def payments_of_def refunded_cents_def settled_cents_def
      cong: sale_status.case_cong)

lemma find_sale_SomeD: "find_sale i db = Some r \<Longrightarrow> r \<in> set (sls_sales db) \<and> slr_id r = i"
  by (auto simp: find_sale_def is_sale_def dest: find_SomeD)

lemma one_row:
  assumes "books_ok db" and "r \<in> set (sls_sales db)" and "r' \<in> set (sls_sales db)" and "slr_id r = slr_id r'"
  shows "r = r'"
  using books_okD(1) [OF assms(1)] assms(2-4) by (auto simp: distinct_map dest: inj_onD)

lemma find_sale_in: "books_ok db \<Longrightarrow> r \<in> set (sls_sales db) \<Longrightarrow> find_sale (slr_id r) db = Some r"
  unfolding find_sale_def
  by (rule find_by_id [where key = slr_id]) (auto simp: is_sale_def books_okD(1))

subsection \<open>Rewriting one row\<close>

text \<open>One sale's row is rewritten, and its payments and refunds may grow.\<close>

lemma books_rewrite:
  assumes ok: "books_ok db" and p: "find p (sls_sales db) = Some r" "\<And>y. p y \<Longrightarrow> slr_id y = slr_id r"
    and f: "slr_id (f r) = slr_id r"
    and sales: "sls_sales db' = update_first p f (sls_sales db)"
    and payments: "sls_payments db' = sls_payments db @ ps" "\<forall>q\<in>set ps. spy_saleId q = slr_id r \<and> 0 \<le> spy_amountCents q"
    and refunds: "sls_refunds db' = sls_refunds db @ fs" "\<forall>g\<in>set fs. rfr_saleId g = slr_id r \<and> refund_booked db' g"
      "distinct (map rfr_id (sls_refunds db @ fs))"
    and settlements: "sls_settlements db' = sls_settlements db"
    and balanced: "row_balanced db' (f r)"
    and draft: "ps \<noteq> [] \<or> slr_status r \<noteq> SaleDraft \<Longrightarrow> slr_status (f r) \<noteq> SaleDraft"
    and canceled: "slr_status r = SaleCanceled \<Longrightarrow> slr_status (f r) = SaleCanceled"
  shows "books_ok db'"
proof -
  have mem: "y \<in> set (sls_sales db') \<longleftrightarrow> y = f r \<or> y \<in> set (sls_sales db) \<and> slr_id y \<noteq> slr_id r" for y
    unfolding sales by (rule set_update_unique [OF books_okD(1) [OF ok] p(1)]) (use p(2) f in auto)
  from p(1) have r: "r \<in> set (sls_sales db)" by (auto dest: find_SomeD)
  have "map slr_id (sls_sales db') = map slr_id (sls_sales db)"
  proof -
    have "map slr_id (update_first p f xs) = map slr_id xs" if "find p xs = Some r" for xs
      using that f by (induction xs) (auto split: if_splits)
    with p(1) show ?thesis unfolding sales by blast
  qed
  moreover have "row_balanced db' y" if y: "y \<in> set (sls_sales db)" "slr_id y \<noteq> slr_id r" for y
  proof -
    have "paid_from_ledger (slr_id y) db' = paid_from_ledger (slr_id y) db"
      using payments y(2) by (simp add: paid_from_ledger_def payments_of_def filter_empty_conv)
    moreover have "refunded_cents (slr_id y) db' = refunded_cents (slr_id y) db"
      using refunds(1,2) y(2) by (simp add: refunded_cents_def filter_empty_conv)
    ultimately show ?thesis using books_okD(3) [OF ok y(1)] by (simp add: row_balanced_def cong: sale_status.case_cong)
  qed
  moreover have row_kept: "has_row P i db'" if i: "has_row P i db" and P: "P r \<Longrightarrow> P (f r)" for P i
  proof -
    from i obtain y where y: "y \<in> set (sls_sales db)" "slr_id y = i" "P y" by (auto simp: has_row_def)
    show ?thesis
    proof (cases "slr_id y = slr_id r")
      case True
      with one_row [OF ok r y(1)] y P f show ?thesis by (auto simp: has_row_def mem)
    next
      case False
      with y show ?thesis by (auto simp: has_row_def mem)
    qed
  qed
  moreover have "payment_booked db' q" if "q \<in> set (sls_payments db')" for q
  proof (cases "q \<in> set ps")
    case True
    then have "ps \<noteq> []" by auto
    with draft payments(2) True f show ?thesis by (auto simp: payment_booked_def has_row_def mem)
  next
    case False
    with that payments(1) have "payment_booked db q" using books_okD(4) [OF ok] by auto
    then show ?thesis using row_kept draft by (auto simp: payment_booked_def)
  qed
  moreover have "refund_booked db' g" if "g \<in> set (sls_refunds db)" for g
    using books_okD(5) [OF ok that] row_kept canceled settlements
    by (auto simp: refund_booked_def settled_cents_def)
  ultimately show ?thesis
    using ok refunds settlements balanced by (auto simp: books_ok_def mem)
qed

text \<open>A draft has neither payments nor refunds; a confirmed sale has no refunds.\<close>

lemma draft_unpaid:
  assumes "books_ok db" and "r \<in> set (sls_sales db)" and "slr_status r = SaleDraft"
  shows "payments_of (slr_id r) db = []"
  using assms one_row [OF assms(1,2)] books_okD(4) [OF assms(1)]
  by (fastforce simp: payments_of_def filter_empty_conv payment_booked_def has_row_def)

lemma unrefunded:
  assumes "books_ok db" and "r \<in> set (sls_sales db)" and "slr_status r \<noteq> SaleCanceled"
  shows "filter (\<lambda>f. rfr_saleId f = slr_id r) (sls_refunds db) = []"
  using assms one_row [OF assms(1,2)] books_okD(5) [OF assms(1)]
  by (fastforce simp: filter_empty_conv refund_booked_def has_row_def)

subsection \<open>Confirmations\<close>

definition sound_confirmation :: "confirmation \<Rightarrow> bool" where
  "sound_confirmation c \<longleftrightarrow>
     cnf_shipping c \<noteq> None \<and> 0 \<le> cnf_totalCents c \<and>
     (\<forall>p\<in>set (cnf_payments c). 0 \<le> cpr_amountCents p) \<and>
     cnf_paidCents c = min (cnf_totalCents c) (\<Sum>p\<leftarrow>cnf_payments c. cpr_amountCents p) \<and>
     cnf_debtCents c = cnf_totalCents c - cnf_paidCents c \<and>
     cnf_paymentStatus c = payment_status_of (cnf_paidCents c) (cnf_totalCents c)"

lemma map_enumerate_snd: "map (\<lambda>x. g (snd x)) (enumerate n xs) = map g xs"
  by (induction xs arbitrary: n) simp_all

lemma map_enumerate_fst: "map (\<lambda>x. g (fst x)) (enumerate n xs) = map g [n..<n + length xs]"
proof -
  have "map (\<lambda>x. g (fst x)) (enumerate n xs) = map g (map fst (enumerate n xs))" by (simp only: map_map comp_def)
  then show ?thesis by (simp only: map_fst_enumerate)
qed

lemma payment_rows_fields:
  "p \<in> set (payment_rows uuid saleId userId ps) \<Longrightarrow>
     spy_saleId p = saleId \<and> (\<exists>q\<in>set ps. spy_amountCents p = cpr_amountCents q \<and> spy_method p = cpr_method q)"
  by (auto simp: payment_rows_def in_set_enumerate_eq)

lemma payment_rows_sum: "(\<Sum>p\<leftarrow>payment_rows uuid saleId userId ps. spy_amountCents p) = (\<Sum>q\<leftarrow>ps. cpr_amountCents q)"
  by (simp add: payment_rows_def case_prod_unfold comp_def map_enumerate_snd)

lemma payment_rows_Nil [simp]: "payment_rows uuid saleId userId ps = [] \<longleftrightarrow> ps = []"
  by (cases ps) (simp_all add: payment_rows_def enumerate_simps)

lemma confirm_row_fields [simp]:
  "slr_id (confirm_row now c due r) = slr_id r" "slr_status (confirm_row now c due r) = SaleConfirmed"
  "slr_totalCents (confirm_row now c due r) = cnf_totalCents c"
  "slr_paidCents (confirm_row now c due r) = cnf_paidCents c"
  "slr_debtCents (confirm_row now c due r) = cnf_debtCents c"
  "slr_paymentStatus (confirm_row now c due r) = Some (cnf_paymentStatus c)"
  by (simp_all add: confirm_row_def)

lemma confirmationE:
  assumes "persistChargeConfirmation now uuid c db = Inr (rows, db')" and "cnf_shipping c \<noteq> None"
  obtains r due where "find (confirmable c) (sls_sales db) = Some r" and "r \<in> set (sls_sales db)"
    and "slr_id r = cnf_saleId c" and "slr_status r = SaleDraft"
    and "rows = payment_rows uuid (cnf_saleId c) (Some (cnf_userId c)) (cnf_payments c)"
    and "db' = db\<lparr>sls_sales := update_first (confirmable c) (confirm_row now c due) (sls_sales db),
       sls_payments := sls_payments db @ rows\<rparr>"
proof -
  obtain due where due: "(case cnf_dueDate c of None \<Rightarrow> Inr None | Some d \<Rightarrow> stored_date d) = Inr due"
    using assms(1) unfolding persistChargeConfirmation_def
    by (cases "case cnf_dueDate c of None \<Rightarrow> Inr None | Some d \<Rightarrow> stored_date d") (auto simp: result_simps)
  from assms(1) [unfolded persistChargeConfirmation_def due] obtain r where
    r: "find (confirmable c) (sls_sales db) = Some r" and
    rows: "rows = payment_rows uuid (cnf_saleId c) (Some (cnf_userId c)) (cnf_payments c)"
      "db' = db\<lparr>sls_sales := update_first (confirmable c) (confirm_row now c due) (sls_sales db),
         sls_payments := sls_payments db @ rows\<rparr>"
    by (auto simp: result_simps Let_def split: option.splits)
  from find_SomeD [OF r] assms(2) have "r \<in> set (sls_sales db)" "slr_id r = cnf_saleId c" "slr_status r = SaleDraft"
    by (simp_all add: confirmable_def)
  from that [OF r this rows] show thesis .
qed

lemma confirmation_keeps_books:
  assumes ok: "books_ok db" and c: "sound_confirmation c"
    and run: "persistChargeConfirmation now uuid c db = Inr (rows, db')"
  shows "books_ok db'"
proof -
  from c have "cnf_shipping c \<noteq> None" by (simp add: sound_confirmation_def)
  from run this obtain r due where
    r: "find (confirmable c) (sls_sales db) = Some r" "r \<in> set (sls_sales db)" "slr_id r = cnf_saleId c"
      "slr_status r = SaleDraft"
    and rows: "rows = payment_rows uuid (cnf_saleId c) (Some (cnf_userId c)) (cnf_payments c)"
    and db': "db' = db\<lparr>sls_sales := update_first (confirmable c) (confirm_row now c due) (sls_sales db),
       sls_payments := sls_payments db @ rows\<rparr>" by (rule confirmationE)
  have paid: "paid_from_ledger (slr_id r) db' = (\<Sum>p\<leftarrow>cnf_payments c. cpr_amountCents p)"
  proof -
    have "payments_of (slr_id r) db' = rows"
      using draft_unpaid [OF ok r(2,4)] payment_rows_fields r(3)
      by (auto simp: payments_of_def db' rows filter_id_conv)
    then show ?thesis by (simp add: paid_from_ledger_def rows payment_rows_sum)
  qed
  show ?thesis
  proof (rule books_rewrite [OF ok r(1), where f = "confirm_row now c due" and ps = rows and fs = "[]"])
    show "\<forall>q\<in>set rows. spy_saleId q = slr_id r \<and> 0 \<le> spy_amountCents q"
      using c r(3) by (auto simp: rows sound_confirmation_def dest!: payment_rows_fields)
    show "row_balanced db' (confirm_row now c due r)"
      using c by (simp add: row_balanced_def charged_row_def paid sound_confirmation_def)
  qed (use r books_okD(2) [OF ok] in \<open>auto simp: db' confirmable_def\<close>)
qed

subsection \<open>Collections\<close>

lemma collectedE:
  assumes "persistCollectedPayments now uuid saleId userId ps db = Inr (c, db')"
  obtains r where "find (\<lambda>r. is_sale saleId r \<and> slr_status r = SaleConfirmed) (sls_sales db) = Some r"
    and "r \<in> set (sls_sales db)" and "slr_id r = saleId" and "slr_status r = SaleConfirmed"
    and "paid_from_ledger saleId db < slr_totalCents r"
    and "cld_paidCents c = paid_from_ledger saleId db + (\<Sum>p\<leftarrow>ps. cpr_amountCents p)"
    and "cld_paidCents c \<le> slr_totalCents r" and "cld_debtCents c = slr_totalCents r - cld_paidCents c"
    and "cld_paymentStatus c = payment_status_of (cld_paidCents c) (slr_totalCents r)"
    and "cld_totalCents c = slr_totalCents r" and "cld_rows c = payment_rows uuid saleId userId ps"
    and "db' = db\<lparr>sls_sales := update_first (is_sale saleId)
          (collect_row now (cld_paidCents c) (cld_debtCents c) (cld_paymentStatus c)) (sls_sales db),
        sls_payments := sls_payments db @ cld_rows c\<rparr>"
  using assms unfolding persistCollectedPayments_def Let_def
  by (auto simp: result_simps is_sale_def not_le not_less split: option.splits dest: find_SomeD)

lemma collection_keeps_books:
  assumes ok: "books_ok db" and ps: "\<forall>p\<in>set ps. 0 \<le> cpr_amountCents p"
    and run: "persistCollectedPayments now uuid saleId userId ps db = Inr (c, db')"
  shows "books_ok db'"
proof -
  from run obtain r where
    r: "r \<in> set (sls_sales db)" "slr_id r = saleId" "slr_status r = SaleConfirmed"
    and paid: "cld_paidCents c = paid_from_ledger saleId db + (\<Sum>p\<leftarrow>ps. cpr_amountCents p)"
      "cld_paidCents c \<le> slr_totalCents r" "cld_debtCents c = slr_totalCents r - cld_paidCents c"
      "cld_paymentStatus c = payment_status_of (cld_paidCents c) (slr_totalCents r)"
    and rows: "cld_rows c = payment_rows uuid saleId userId ps"
    and db': "db' = db\<lparr>sls_sales := update_first (is_sale saleId)
          (collect_row now (cld_paidCents c) (cld_debtCents c) (cld_paymentStatus c)) (sls_sales db),
        sls_payments := sls_payments db @ cld_rows c\<rparr>"
    by (rule collectedE) metis
  let ?f = "collect_row now (cld_paidCents c) (cld_debtCents c) (cld_paymentStatus c)"
  have found: "find (is_sale saleId) (sls_sales db) = Some r"
    using find_sale_in [OF ok r(1)] r(2) by (simp add: find_sale_def)
  have own: "filter (\<lambda>p. spy_saleId p = saleId) (cld_rows c) = cld_rows c"
    using payment_rows_fields by (auto simp: rows filter_id_conv)
  have ledger: "paid_from_ledger saleId db' = cld_paidCents c"
    by (simp add: paid_from_ledger_def payments_of_def db' own) (simp add: paid(1) rows payment_rows_sum
        paid_from_ledger_def payments_of_def)
  have total: "0 \<le> slr_totalCents r"
    using books_okD(3) [OF ok r(1)] r(3) by (simp add: row_balanced_def charged_row_def)
  show ?thesis
  proof (rule books_rewrite [OF ok found, where f = ?f and ps = "cld_rows c" and fs = "[]"])
    show "\<forall>q\<in>set (cld_rows c). spy_saleId q = slr_id r \<and> 0 \<le> spy_amountCents q"
      using ps r(2) by (auto simp: rows dest!: payment_rows_fields)
    show "row_balanced db' (?f r)"
      using paid total r ledger by (simp add: row_balanced_def charged_row_def collect_row_def)
  qed (use r books_okD(2) [OF ok] in \<open>auto simp: db' collect_row_def is_sale_def\<close>)
qed

subsection \<open>Cancellations\<close>

lemma settled_none:
  "i \<notin> stt_refundId ` set (sls_settlements db) \<Longrightarrow> settled_cents i db = 0"
proof -
  assume "i \<notin> stt_refundId ` set (sls_settlements db)"
  then have "filter (\<lambda>x. stt_refundId x = i) (sls_settlements db) = []" by (auto simp: filter_empty_conv)
  then show ?thesis by (simp add: settled_cents_def)
qed

lemma refund_rows_fields:
  "f \<in> set (refund_rows uuid saleId rs) \<Longrightarrow>
     rfr_saleId f = saleId \<and> rfr_settledCents f = 0 \<and>
     (\<exists>d\<in>set rs. rfr_amountCents f = rfd_amountCents d \<and> rfr_method f = rfd_method d)"
  by (auto simp: refund_rows_def in_set_enumerate_eq)

lemma refund_rows_sum:
  "(\<Sum>f\<leftarrow>refund_rows uuid saleId rs. rfr_amountCents f) = (\<Sum>d\<leftarrow>rs. rfd_amountCents d)"
  by (simp add: refund_rows_def case_prod_unfold comp_def map_enumerate_snd)

lemma refund_rows_ids: "map rfr_id (refund_rows uuid saleId rs) = map uuid [0..<length rs]"
  by (simp add: refund_rows_def case_prod_unfold comp_def map_enumerate_fst)

lemma cancel_row_fields [simp]:
  "slr_id (cancel_row now s r) = slr_id r" "slr_status (cancel_row now s r) = SaleCanceled"
  "slr_totalCents (cancel_row now s r) = slr_totalCents r"
  "slr_paidCents (cancel_row now s r) = slr_paidCents r"
  "slr_paymentStatus (cancel_row now s r) = slr_paymentStatus r"
  by (simp_all add: cancel_row_def)

lemma cancellation_keeps_books:
  assumes ok: "books_ok db" and r: "find_sale saleId db = Some r" "slr_status r = SaleConfirmed"
    and s: "sa_id s = saleId"
    and refunds: "(\<Sum>d\<leftarrow>rs. rfd_amountCents d) = refund_due r" "\<forall>d\<in>set rs. 0 < rfd_amountCents d"
    and fresh: "inj uuid" "range uuid \<inter> rfr_id ` set (sls_refunds db) = {}"
  shows "books_ok (persistCancellation now uuid s rs db)" (is "books_ok ?db")
proof -
  from find_sale_SomeD [OF r(1)] have mem: "r \<in> set (sls_sales db)" "slr_id r = saleId" by simp_all
  let ?fs = "refund_rows uuid saleId rs"
  have due: "refunded_cents saleId ?db = refund_due r"
  proof -
    have "filter (\<lambda>f. rfr_saleId f = saleId) ?fs = ?fs"
      using refund_rows_fields by (auto simp: filter_id_conv)
    with unrefunded [OF ok mem(1)] r(2) mem(2) refunds(1) show ?thesis
      by (simp add: refunded_cents_def persistCancellation_def s refund_rows_sum)
  qed
  have ids: "rfr_id ` set ?fs \<subseteq> range uuid"
    using arg_cong [OF refund_rows_ids, of set uuid saleId rs] by auto
  have unsettled: "settled_cents i ?db = 0" if "i \<in> rfr_id ` set ?fs" for i
  proof (rule settled_none)
    from that ids obtain n where n: "i = uuid n" by auto
    show "i \<notin> stt_refundId ` set (sls_settlements ?db)"
    proof
      assume "i \<in> stt_refundId ` set (sls_settlements ?db)"
      then obtain x where "x \<in> set (sls_settlements db)" "i = stt_refundId x"
        by (auto simp: persistCancellation_def)
      from books_okD(6) [OF ok this(1)] this(2) n fresh(2) show False by blast
    qed
  qed
  show ?thesis
  proof (rule books_rewrite [OF ok r(1) [unfolded find_sale_def], where f = "cancel_row now s"
        and ps = "[]" and fs = ?fs])
    show "\<forall>g\<in>set ?fs. rfr_saleId g = slr_id r \<and> refund_booked ?db g"
    proof
      fix g assume g: "g \<in> set ?fs"
      from refund_rows_fields [OF g] refunds(2) have "rfr_saleId g = saleId" "rfr_settledCents g = 0"
        "0 < rfr_amountCents g" by auto
      moreover from g unsettled have "settled_cents (rfr_id g) ?db = 0" by blast
      moreover have "has_row (\<lambda>r. slr_status r = SaleCanceled) saleId ?db"
      proof -
        have "cancel_row now s r \<in> set (update_first (is_sale saleId) (cancel_row now s) (sls_sales db))"
          by (subst set_update_unique [OF books_okD(1) [OF ok] r(1) [unfolded find_sale_def], where k = saleId])
            (auto simp: is_sale_def mem)
        with mem(2) show ?thesis unfolding has_row_def persistCancellation_def s
          by (intro bexI [of _ "cancel_row now s r"]) simp_all
      qed
      ultimately show "rfr_saleId g = slr_id r \<and> refund_booked ?db g" using mem by (simp add: refund_booked_def)
    qed
    show "row_balanced ?db (cancel_row now s r)"
    proof -
      have "paid_from_ledger saleId ?db = paid_from_ledger saleId db"
        by (simp add: paid_from_ledger_def payments_of_def persistCancellation_def)
      moreover have "charged_row (paid_from_ledger saleId db) r"
        using books_okD(3) [OF ok mem(1)] r(2) mem(2) by (simp add: row_balanced_def)
      ultimately show ?thesis using due mem(2)
        by (simp add: row_balanced_def charged_row_def refund_due_def)
    qed
    have "distinct (map rfr_id ?fs)"
      unfolding refund_rows_ids distinct_map by (intro conjI inj_on_subset [OF fresh(1)]) simp_all
    moreover have "rfr_id ` set (sls_refunds db) \<inter> rfr_id ` set ?fs = {}"
      using ids fresh(2) by blast
    ultimately show "distinct (map rfr_id (sls_refunds db @ ?fs))"
      using books_okD(2) [OF ok] by simp
  qed (use mem r in \<open>auto simp: persistCancellation_def s is_sale_def\<close>)
qed

subsection \<open>Settlements\<close>

lemma settlementE:
  assumes "persistSettlement i input db = Inr (r, db')"
  obtains f where "find (\<lambda>f. rfr_id f = sti_refundId input) (sls_refunds db) = Some f"
    and "f \<in> set (sls_refunds db)" and "rfr_id f = sti_refundId input" and "0 < sti_amountCents input"
    and "settled_cents (rfr_id f) db + sti_amountCents input \<le> rfr_amountCents f"
    and "r = \<lparr>stl_settlementId = i, stl_saleId = rfr_saleId f,
      stl_settledCents = settled_cents (rfr_id f) db + sti_amountCents input,
      stl_outstandingCents = rfr_amountCents f - (settled_cents (rfr_id f) db + sti_amountCents input)\<rparr>"
    and "db' = db\<lparr>sls_settlements := sls_settlements db @ [settlement_row_of i input],
      sls_refunds := update_first (\<lambda>f. rfr_id f = sti_refundId input)
        (\<lambda>f. f\<lparr>rfr_settledCents := stl_settledCents r\<rparr>) (sls_refunds db)\<rparr>"
proof -
  from assms obtain f where f: "find (\<lambda>f. rfr_id f = sti_refundId input) (sls_refunds db) = Some f"
    by (auto simp: persistSettlement_def result_simps split: option.splits)
  from find_SomeD [OF f] have id: "f \<in> set (sls_refunds db)" "rfr_id f = sti_refundId input" by simp_all
  show thesis
    by (rule that [OF f id]) (use assms f id in \<open>auto simp: persistSettlement_def Let_def result_simps\<close>)
qed

lemma settled_append:
  "settled_cents i (db\<lparr>sls_settlements := sls_settlements db @ [x], sls_refunds := fs\<rparr>) =
     settled_cents i db + (if stt_refundId x = i then stt_amountCents x else 0)"
  by (simp add: settled_cents_def)

lemma refund_update_sum:
  "(\<And>f. rfr_saleId (g f) = rfr_saleId f \<and> rfr_amountCents (g f) = rfr_amountCents f) \<Longrightarrow>
     (\<Sum>f\<leftarrow>filter (\<lambda>f. rfr_saleId f = i) (update_first p g fs). rfr_amountCents f) =
     (\<Sum>f\<leftarrow>filter (\<lambda>f. rfr_saleId f = i) fs. rfr_amountCents f)"
  by (induction fs) auto

lemma settlement_keeps_books:
  assumes ok: "books_ok db" and run: "persistSettlement i input db = Inr (r, db')"
  shows "books_ok db'"
proof -
  from run obtain f where f: "find (\<lambda>f. rfr_id f = sti_refundId input) (sls_refunds db) = Some f"
      "f \<in> set (sls_refunds db)" "rfr_id f = sti_refundId input"
    and pos: "0 < sti_amountCents input"
    and cap: "settled_cents (rfr_id f) db + sti_amountCents input \<le> rfr_amountCents f"
    and res: "r = \<lparr>stl_settlementId = i, stl_saleId = rfr_saleId f,
      stl_settledCents = settled_cents (rfr_id f) db + sti_amountCents input,
      stl_outstandingCents = rfr_amountCents f - (settled_cents (rfr_id f) db + sti_amountCents input)\<rparr>"
    and db': "db' = db\<lparr>sls_settlements := sls_settlements db @ [settlement_row_of i input],
      sls_refunds := update_first (\<lambda>f. rfr_id f = sti_refundId input)
        (\<lambda>f. f\<lparr>rfr_settledCents := stl_settledCents r\<rparr>) (sls_refunds db)\<rparr>"
    by (rule settlementE)
  let ?g = "\<lambda>f. f\<lparr>rfr_settledCents := stl_settledCents r\<rparr>"
  have mem: "y \<in> set (sls_refunds db') \<longleftrightarrow> y = ?g f \<or> y \<in> set (sls_refunds db) \<and> rfr_id y \<noteq> rfr_id f" for y
  proof -
    have "y \<in> set (update_first (\<lambda>f. rfr_id f = sti_refundId input) ?g (sls_refunds db)) \<longleftrightarrow>
        y = ?g f \<or> y \<in> set (sls_refunds db) \<and> rfr_id y \<noteq> rfr_id f"
      by (rule set_update_unique [where key = rfr_id, OF books_okD(2) [OF ok] f(1)]) (simp_all add: f(3))
    then show ?thesis by (simp add: db')
  qed
  have ids: "map rfr_id (sls_refunds db') = map rfr_id (sls_refunds db)"
    unfolding db' by (simp add: map_update_first)
  have sums: "refunded_cents x db' = refunded_cents x db" for x
    unfolding refunded_cents_def db' by (simp add: refund_update_sum)
  have settled: "settled_cents x db' = settled_cents x db + (if sti_refundId input = x then sti_amountCents input else 0)" for x
    unfolding db' settled_append by (simp add: settlement_row_of_def)
  have f_ok: "refund_booked db f" by (rule books_okD(5) [OF ok f(2)])
  have "refund_booked db' y" if "y \<in> set (sls_refunds db')" for y
  proof (cases "y = ?g f")
    case True
    with f_ok pos cap res f(3) show ?thesis
      by (simp add: refund_booked_def settled) (simp add: has_row_def db')
  next
    case False
    with that mem have y: "y \<in> set (sls_refunds db)" "rfr_id y \<noteq> rfr_id f" by auto
    with books_okD(5) [OF ok y(1)] f(3) show ?thesis
      by (simp add: refund_booked_def settled) (simp add: has_row_def db')
  qed
  moreover have "row_balanced db' y" if "y \<in> set (sls_sales db')" for y
  proof -
    have "paid_from_ledger x db' = paid_from_ledger x db" for x
      by (simp add: paid_from_ledger_def payments_of_def db')
    moreover have "y \<in> set (sls_sales db)" using that by (simp add: db')
    ultimately show ?thesis
      using books_okD(3) [OF ok, of y] by (simp add: row_balanced_def sums cong: sale_status.case_cong)
  qed
  moreover have "payment_booked db' p" if "p \<in> set (sls_payments db')" for p
    using books_okD(4) [OF ok, of p] that by (simp add: payment_booked_def has_row_def db')
  moreover have "stt_refundId x \<in> rfr_id ` set (sls_refunds db')" if "x \<in> set (sls_settlements db')" for x
  proof -
    have eq: "rfr_id ` set (sls_refunds db') = rfr_id ` set (sls_refunds db)"
      using arg_cong [OF ids, of set] by simp
    from that have "x \<in> set (sls_settlements db) \<or> x = settlement_row_of i input" by (auto simp: db')
    then show ?thesis
    proof
      assume "x \<in> set (sls_settlements db)"
      then show ?thesis unfolding eq by (rule books_okD(6) [OF ok])
    next
      assume "x = settlement_row_of i input"
      then have "stt_refundId x = rfr_id f" by (simp add: settlement_row_of_def f(3))
      with f(2) show ?thesis unfolding eq by blast
    qed
  qed
  moreover have "distinct (map slr_id (sls_sales db'))" "distinct (map rfr_id (sls_refunds db'))"
    unfolding ids using books_okD(1,2) [OF ok] by (simp_all add: db')
  ultimately show ?thesis by (simp add: books_ok_def)
qed

subsection \<open>Saved aggregates and deleted drafts\<close>

text \<open>
  A save that keeps the status of the row it meets, and one of a new draft, leave the
  books alone: the money columns are not among the written ones.
\<close>

lemma write_columns_fields [simp]:
  "slr_id (write_columns now a due confirmed s r) = slr_id r"
  "slr_status (write_columns now a due confirmed s r) = sa_status s"
  "slr_totalCents (write_columns now a due confirmed s r) = slr_totalCents r"
  "slr_paidCents (write_columns now a due confirmed s r) = slr_paidCents r"
  "slr_debtCents (write_columns now a due confirmed s r) = slr_debtCents r"
  "slr_paymentStatus (write_columns now a due confirmed s r) = slr_paymentStatus r"
  by (simp_all add: write_columns_def)

lemma row_balanced_cong:
  assumes "slr_id r' = slr_id r" "slr_status r' = slr_status r" "slr_totalCents r' = slr_totalCents r"
    "slr_paidCents r' = slr_paidCents r" "slr_debtCents r' = slr_debtCents r"
    "slr_paymentStatus r' = slr_paymentStatus r"
    and "sls_payments db' = sls_payments db" "sls_refunds db' = sls_refunds db"
  shows "row_balanced db' r' = row_balanced db r"
  using assms by (simp add: row_balanced_def charged_row_def refund_due_def paid_from_ledger_def
      payments_of_def refunded_cents_def cong: sale_status.case_cong)

lemma save_keeps_books:
  assumes ok: "books_ok db" and run: "writeImpl now intent s db = Inr db'"
    and status: "sa_status s = (case find_sale (sa_id s) db of None \<Rightarrow> SaleDraft | Some r \<Rightarrow> slr_status r)"
  shows "books_ok db'"
proof (cases "find_sale (sa_id s) db")
  case None
  with run obtain due confirmed where
    db': "db' = db\<lparr>sls_sales := sls_sales db @ [write_columns now True due confirmed s (new_row now s)]\<rparr>"
    by (auto simp: writeImpl_def Let_def result_simps)
  let ?r = "write_columns now True due confirmed s (new_row now s)"
  have new: "slr_id ?r = sa_id s" "slr_status ?r = SaleDraft"
    using status None by (simp_all add: new_row_def)
  have "sa_id s \<notin> slr_id ` set (sls_sales db)"
    using None by (auto simp: find_sale_def is_sale_def find_eq_None)
  then have "distinct (map slr_id (sls_sales db'))"
    using books_okD(1) [OF ok] new by (auto simp: db')
  moreover have "row_balanced db' x" if "x \<in> set (sls_sales db')" for x
    using that books_okD(3) [OF ok, of x] new row_balanced_cong [of x x db' db]
    by (auto simp: db' row_balanced_def [where r = ?r])
  moreover have "payment_booked db' p" if "p \<in> set (sls_payments db')" for p
    using books_okD(4) [OF ok, of p] that by (auto simp: payment_booked_def has_row_def db')
  moreover have "refund_booked db' f" if "f \<in> set (sls_refunds db')" for f
    using books_okD(5) [OF ok, of f] that
    by (auto simp: refund_booked_def has_row_def settled_cents_def db')
  ultimately show ?thesis using ok by (simp add: books_ok_def db')
next
  case (Some r)
  with run obtain due confirmed where
    db': "db' = put_sale (write_columns now (slr_status r = SaleDraft) due confirmed s r) db"
    by (auto simp: writeImpl_def Let_def result_simps)
  let ?r = "write_columns now (slr_status r = SaleDraft) due confirmed s r"
  from find_sale_SomeD [OF Some] have r: "r \<in> set (sls_sales db)" "slr_id r = sa_id s" by simp_all
  show ?thesis
  proof (rule books_rewrite [OF ok Some [unfolded find_sale_def], where f = "\<lambda>_. ?r" and ps = "[]" and fs = "[]"])
    show "row_balanced db' ?r"
    proof -
      have "row_balanced db' ?r = row_balanced db r"
        by (rule row_balanced_cong) (use status Some in \<open>simp_all add: db' put_sale_def\<close>)
      with books_okD(3) [OF ok r(1)] show ?thesis by simp
    qed
  qed (use r books_okD(2) [OF ok] status Some in \<open>simp_all add: db' put_sale_def is_sale_def\<close>)
qed

lemma delete_keeps_books:
  assumes ok: "books_ok db" and run: "delete_sale i db = Inr db'"
  shows "books_ok db'"
proof -
  from run obtain r where r: "find_sale i db = Some r" "slr_status r = SaleDraft"
    and db': "db' = db\<lparr>sls_sales := remove_first (is_sale i) (sls_sales db),
      sls_slots := map (forget_sale i) (sls_slots db)\<rparr>"
    by (auto simp: delete_sale_def result_simps split: option.splits)
  have mem: "y \<in> set (sls_sales db') \<longleftrightarrow> y \<in> set (sls_sales db) \<and> slr_id y \<noteq> i" for y
  proof -
    have "y \<in> set (remove_first (is_sale i) xs) \<longleftrightarrow> y \<in> set xs \<and> slr_id y \<noteq> i"
      if "distinct (map slr_id xs)" for xs
      using that by (induction xs) (auto simp: is_sale_def)
    with books_okD(1) [OF ok] show ?thesis by (simp add: db')
  qed
  have "distinct (map slr_id (remove_first (is_sale i) xs))" if "distinct (map slr_id xs)" for xs
    using that by (induction xs) (auto dest: set_remove_first [THEN subsetD])
  then have "distinct (map slr_id (sls_sales db'))" using books_okD(1) [OF ok] by (simp add: db')
  moreover have row_kept: "has_row P j db'" if P: "has_row P j db" "\<not> P r" for P j
  proof -
    from P(1) obtain y where y: "y \<in> set (sls_sales db)" "slr_id y = j" "P y" by (auto simp: has_row_def)
    from find_sale_SomeD [OF r(1)] have "r \<in> set (sls_sales db)" "slr_id r = i" by simp_all
    with one_row [OF ok y(1)] y(3) P(2) have "slr_id y \<noteq> i" by auto
    with y mem show ?thesis by (auto simp: has_row_def)
  qed
  moreover have "row_balanced db' x" if "x \<in> set (sls_sales db')" for x
    using that books_okD(3) [OF ok, of x] row_balanced_cong [of x x db' db] mem by (simp add: db')
  moreover have "payment_booked db' p" if "p \<in> set (sls_payments db')" for p
    using books_okD(4) [OF ok, of p] that row_kept r(2) by (simp add: payment_booked_def db')
  moreover have "refund_booked db' f" if "f \<in> set (sls_refunds db')" for f
    using books_okD(5) [OF ok, of f] that row_kept r(2)
    by (simp add: refund_booked_def settled_cents_def db')
  ultimately show ?thesis using ok by (simp add: books_ok_def db')
qed

end
