(* ===== verification/SaleDeskLaws.thy ===== *)
theory SaleDeskLaws
  imports SaleDesk SaleBooksLaws
begin

section \<open>Laws of the money commands\<close>

text \<open>
  What each command does to the sale tables, from its parts: the steps a successful
  transaction went through, the tables a slot or an event leaves alone, and that the
  books stay balanced.
\<close>

subsection \<open>Slots and events leave the books alone\<close>

lemma same_booksI:
  "sls_sales db' = sls_sales db \<Longrightarrow> sls_payments db' = sls_payments db \<Longrightarrow>
     sls_refunds db' = sls_refunds db \<Longrightarrow> sls_settlements db' = sls_settlements db \<Longrightarrow> same_books db db'"
  by (simp add: same_books_def)

lemma same_books_trans: "same_books a b \<Longrightarrow> same_books b c \<Longrightarrow> same_books a c"
  by (simp add: same_books_def)

lemma acquire_books: "acquireIdempotency now token op saleId key h db = (r, db') \<Longrightarrow> same_books db db'"
  by (auto simp: acquireIdempotency_def same_books_def split: option.splits if_splits)

lemma acquire_settlement_books:
  assumes "acquireSettlementIdempotency now token refundId key h db = (r, db')"
  shows "same_books db db'"
proof -
  let ?k = "settlement_key refundId key"
  obtain r1 db1 where one: "acquireIdempotency now token OpRefundSettlement None ?k h db = (r1, db1)"
    by (cases "acquireIdempotency now token OpRefundSettlement None ?k h db")
  from acquire_books [OF one] have b: "same_books db db1" .
  show ?thesis
  proof (cases "r1 = SlotBusy \<and> (\<exists>x\<in>set (sls_slots db1). reclaimable now ?k h x)")
    case True
    with assms one have "acquireIdempotency now token OpRefundSettlement None ?k h
        (db1\<lparr>sls_slots := filter (\<lambda>x. \<not> reclaimable now ?k h x) (sls_slots db1)\<rparr>) = (r, db')"
      by (simp add: acquireSettlementIdempotency_def Let_def)
    from acquire_books [OF this] b show ?thesis by (simp add: same_books_def)
  next
    case False
    with assms one b show ?thesis
      by (cases r1) (auto simp: acquireSettlementIdempotency_def Let_def)
  qed
qed

lemma slot_writes_books [simp]:
  "same_books db (markIdempotencySucceeded now token saleId a db)"
  "same_books db (releaseSettlementIdempotency token db)"
  "same_books db (publish es db)"
  by (simp_all add: same_books_def markIdempotencySucceeded_def releaseSettlementIdempotency_def publish_def)

lemma books_slot_writes [simp]:
  "books_ok (markIdempotencySucceeded now token saleId a db) = books_ok db"
  "books_ok (releaseSettlementIdempotency token db) = books_ok db"
  "books_ok (publish es db) = books_ok db"
  by (rule same_books_ok, simp)+

lemma folio_books: "allocateNextFolio now db = (folio, db') \<Longrightarrow> same_books db db'"
  by (auto simp: allocateNextFolio_def Let_def same_books_def)

lemma mark_settlement_books:
  "markSettlementIdempotencySucceeded now token saleId a db = Inr db' \<Longrightarrow> same_books db db'"
  by (auto simp: markSettlementIdempotencySucceeded_def result_simps same_books_def)

subsection \<open>Outcomes\<close>

lemma andThen_InrE:
  assumes "andThen r f = Inr y"
  obtains x where "r = Inr x" and "f x = Inr y"
  using assms by (auto simp: result_simps)

lemma pair_InrE:
  assumes "(case p of (a, b) \<Rightarrow> f a b) = Inr y"
  obtains a b where "p = (a, b)" and "f a b = Inr y"
  using assms by (cases p) simp

lemma ambient_cases:
  assumes "ambient session f st = (a, st')"
  obtains (kept) "st' = st" | (ran) "f st = (a, st')"
  using assms by (auto simp: ambient_def split: if_splits prod.splits sum.splits)

lemma in_tx_cases:
  assumes "in_tx r st = (a, st')"
  obtains (failed) e where "r = Inl e" "a = Inl e" "st' = st"
    | (done_) x where "r = Inr (x, st')" "a = Inr x"
  using assms by (auto simp: in_tx_def split: sum.splits)

text \<open>
  A command in front of its slot: the slot answered, or the slot was taken and the
  transaction failed, or it went through.
\<close>

lemma acquired:
  assumes "acquireIdempotency now token op saleId key h db = (SlotAcquired tok, db')"
  shows "tok = token" and "find (is_slot op key) (sls_slots db) = None"
    and "db' = db\<lparr>sls_slots := sls_slots db @
      [\<lparr>ids_id = token, ids_operation = op, ids_key = key, ids_requestHash = h, ids_status = SlotInFlight,
        ids_response = None, ids_saleId = saleId, ids_updatedAt = now\<rparr>]\<rparr>"
  using assms by (auto simp: acquireIdempotency_def resolveIdempotencyOutcome_def split: option.splits if_splits
      idempotency_status.splits)

lemma not_acquired:
  "acquireIdempotency now token op saleId key h db = (r, db') \<Longrightarrow> \<forall>tok. r \<noteq> SlotAcquired tok \<Longrightarrow> db' = db"
  by (auto simp: acquireIdempotency_def split: option.splits if_splits)

lemma run_slot_cases:
  assumes "run_slot outcome go st = (a, st')"
  obtains (kept) "st' = st" | (ran) token where "outcome = SlotAcquired token" "go token = (a, st')"
  using assms by (auto simp: run_slot_def split: acquire_outcome.splits)

lemma slot_run:
  assumes acq: "acquireIdempotency now token op saleId key h (sdk_sales st) = (outcome, db)"
    and run: "run_slot outcome (\<lambda>token. in_tx (f token (st\<lparr>sdk_sales := db\<rparr>)) (st\<lparr>sdk_sales := db\<rparr>))
      (st\<lparr>sdk_sales := db\<rparr>) = (a, st')"
  obtains (answered) "st' = st" "\<forall>tok. outcome \<noteq> SlotAcquired tok" "a = fst (run_slot outcome undefined st)"
    | (failed) e where "outcome = SlotAcquired token" "f token (st\<lparr>sdk_sales := db\<rparr>) = Inl e" "a = Inl e"
        "st' = st\<lparr>sdk_sales := db\<rparr>"
    | (succeeded) x where "outcome = SlotAcquired token" "f token (st\<lparr>sdk_sales := db\<rparr>) = Inr (x, st')" "a = Inr x"
proof (cases "\<exists>tok. outcome = SlotAcquired tok")
  case True
  then obtain tok where tok: "outcome = SlotAcquired tok" by blast
  with acquired(1) acq have "tok = token" by metis
  with tok run have "in_tx (f token (st\<lparr>sdk_sales := db\<rparr>)) (st\<lparr>sdk_sales := db\<rparr>) = (a, st')" "outcome = SlotAcquired token"
    by (simp_all add: run_slot_def)
  then show thesis by (cases rule: in_tx_cases) (auto intro: failed succeeded)
next
  case False
  with not_acquired [OF acq] have "db = sdk_sales st" by simp
  with False run show thesis by (intro answered) (cases outcome; simp add: run_slot_def)+
qed

subsection \<open>A charge, step by step\<close>

lemma chargeE:
  assumes "charge_tx env saleId actorId dto entries token st = Inr (answer, st')"
  obtains s0 s1 s2 s3 demands settled payments usage stock folio db1 s4 rows db2 cash where
    "session_fence env (cdt_cashSessionId dto) st = Inr ()"
    and "draft_to_charge saleId actorId (sdk_sales st) = Inr s0"
    and "refreshShippingAddressSnapshot env s0 = Inr s1"
    and "(if cdt_delivery dto = Some True then markForDelivery s1 else Inr s1) = Inr s2"
    and "quote_charge (pricing_env_of env st) s2 = Inr (s3, demands)"
    and "settle_charge entries (pvt_totalCents (previewTotals s3)) (sa_customerId s3) = Inr settled"
    and "toCanonicalChargePayments (dke_resolver env) entries = Inr payments"
    and "claimForSale (dke_now env) True (sa_id s3) (capacity_claims demands) (sdk_usage st) = Inr usage"
    and "sale_stock_charge (dke_journal env) (dke_user_name env) (sa_id s3) (UserActor actorId)
      (sale_charge_items s3) (sdk_stock st) = Inr stock"
    and "allocateNextFolio (dke_now env) (sdk_sales st) = (folio, db1)"
    and "with_due_date (resolveDueDate (dke_in_fifteen_days env) (cdt_dueDate dto) (dke_now env)
      (cst_paymentStatus settled)) s3 = Inr s4"
    and "persistChargeConfirmation (dke_now env) (\<lambda>i. dke_uuid env (i + 1))
      (charge_confirmation env actorId s4 payments settled folio) db1 = Inr (rows, db2)"
    and "book_payments env (dke_now env) (cdt_cashSessionId dto) saleId rows
      (cst_changeDueCents settled) (sdk_cash st) = Inr cash"
    and "answer = ChargeAnswer (charge_answer_of (charge_confirmation env actorId s4 payments settled folio))"
    and "st' = \<lparr>sdk_sales = markIdempotencySucceeded (dke_now env) token saleId answer
        (publish (charge_events actorId (charge_confirmation env actorId s4 payments settled folio) rows) db2),
      sdk_usage = usage, sdk_stock = stock, sdk_cash = cash\<rparr>"
proof -
  obtain folio db1 where folio: "allocateNextFolio (dke_now env) (sdk_sales st) = (folio, db1)"
    by (cases "allocateNextFolio (dke_now env) (sdk_sales st)")
  have change: "cnf_changeDueCents (charge_confirmation env actorId s ps c f) = cst_changeDueCents c" for s ps c f
    by (simp add: charge_confirmation_def Let_def)
  from assms show thesis
    unfolding charge_tx_def folio Let_def change prod.case
    by (elim andThen_InrE pair_InrE) (simp only: sum.inject prod.inject, erule conjE, rule that; (rule folio | assumption | (rule sym, assumption) | (hypsubst, rule refl) | (simp; fail)))
qed

lemma due_date_totals:
  "with_due_date due s = Inr s' \<Longrightarrow> previewTotals s' = previewTotals s \<and> sa_id s' = sa_id s"
  by (auto simp: with_due_date_def setDueDate_def previewTotals_def result_simps split: if_splits option.splits)

lemma previewTotals_nonneg: "0 \<le> pvt_totalCents (previewTotals s)"
  by (simp add: previewTotals_def Let_def)

text \<open>Amounts as the request validation lets them through.\<close>

definition amounts_ok :: "charge_dto \<Rightarrow> bool" where
  "amounts_ok d \<longleftrightarrow>
     0 \<le> or_default (cdt_amountCents d) 0 \<and>
     (\<forall>e\<in>set (or_default (cdt_payments d) []). 0 \<le> edt_amountCents e)"

lemma mapM_list_all:
  assumes "mapM_list f xs = Inr ys" and "\<And>x y. x \<in> set xs \<Longrightarrow> f x = Inr y \<Longrightarrow> P y"
  shows "\<forall>y\<in>set ys. P y"
proof -
  from assms(1) have "list_all2 (\<lambda>x y. f x = Inr y) xs ys" by (simp add: mapM_list_Inr)
  with assms(2) show ?thesis by (fastforce simp: list_all2_conv_all_nth in_set_conv_nth)
qed

lemma charge_entries_ok:
  assumes "normalizeChargeRequestPayments d = Inr entries" and "amounts_ok d"
  shows "\<forall>p\<in>set entries. 0 \<le> tde_amountCents p"
proof (cases "cdt_payments d")
  case None
  with assms show ?thesis
    by (auto simp: normalizeChargeRequestPayments_def amounts_ok_def split: if_splits option.splits)
next
  case (Some es)
  with assms(1) have "mapM_list normal_charge_entry es = Inr entries"
    by (auto simp: normalizeChargeRequestPayments_def split: if_splits)
  then show ?thesis
    by (rule mapM_list_all) (use assms(2) Some in \<open>auto simp: amounts_ok_def normal_charge_entry_def
      normal_entry_def split: option.splits if_splits\<close>)
qed

lemma collection_entries_ok:
  assumes "normalizeCollectionRequestPayments d = Inr entries" and "amounts_ok d"
  shows "\<forall>p\<in>set entries. 0 \<le> tde_amountCents p"
proof (cases "cdt_payments d")
  case None
  with assms show ?thesis
    by (auto simp: normalizeCollectionRequestPayments_def amounts_ok_def split: if_splits option.splits)
next
  case (Some es)
  with assms(1) have "mapM_list normal_collection_entry es = Inr entries"
    by (auto simp: normalizeCollectionRequestPayments_def split: if_splits)
  then show ?thesis
    by (rule mapM_list_all) (use assms(2) Some in \<open>auto simp: amounts_ok_def normal_collection_entry_def
      normal_entry_def split: option.splits if_splits\<close>)
qed

lemma canonical_rows_ok:
  "mapM_list (canonical_row resolver) ps = Inr rows \<Longrightarrow> \<forall>p\<in>set ps. 0 \<le> tde_amountCents p \<Longrightarrow>
     \<forall>r\<in>set rows. 0 \<le> cpr_amountCents r"
  by (erule mapM_list_all) (auto dest: canonical_row_fields)

lemma charge_confirmation_sound:
  assumes "settle_charge entries (pvt_totalCents (previewTotals s)) customer = Inr settled"
    and "toCanonicalChargePayments resolver entries = Inr payments"
    and "\<forall>p\<in>set entries. 0 \<le> tde_amountCents p" and "previewTotals s' = previewTotals s"
  shows "sound_confirmation (charge_confirmation env actorId s' payments settled folio)"
proof -
  have pos: "\<forall>r\<in>set payments. 0 \<le> cpr_amountCents r"
    by (rule canonical_rows_ok [OF assms(2) [unfolded toCanonicalChargePayments_def]]) (use assms(3) in auto)
  let ?t = "pvt_totalCents (previewTotals s)"
  have "cst_paidCents settled = min (tenderedCents entries) ?t \<and>
      cst_debtCents settled = ?t - cst_paidCents settled \<and>
      cst_paymentStatus settled = payment_status_of (cst_paidCents settled) ?t"
    using settle_chargeE [OF assms(1)] by metis
  with pos canonical_charge_sum(1) [OF assms(1,2)] previewTotals_nonneg [of s] show ?thesis
    by (simp add: sound_confirmation_def charge_confirmation_def Let_def assms(4) min.commute)
qed

lemma charge_tx_books:
  assumes ok: "books_ok (sdk_sales st)" and pos: "\<forall>p\<in>set entries. 0 \<le> tde_amountCents p"
    and run: "charge_tx env saleId actorId dto entries token st = Inr (answer, st')"
  shows "books_ok (sdk_sales st')"
proof -
  from run obtain s3 settled payments folio db1 s4 rows db2 where
    settled: "settle_charge entries (pvt_totalCents (previewTotals s3)) (sa_customerId s3) = Inr settled"
    and payments: "toCanonicalChargePayments (dke_resolver env) entries = Inr payments"
    and folio: "allocateNextFolio (dke_now env) (sdk_sales st) = (folio, db1)"
    and due: "with_due_date (resolveDueDate (dke_in_fifteen_days env) (cdt_dueDate dto) (dke_now env)
      (cst_paymentStatus settled)) s3 = Inr s4"
    and rows: "persistChargeConfirmation (dke_now env) (\<lambda>i. dke_uuid env (i + 1))
      (charge_confirmation env actorId s4 payments settled folio) db1 = Inr (rows, db2)"
    and sales: "\<exists>es. sdk_sales st' = markIdempotencySucceeded (dke_now env) token saleId answer (publish es db2)"
    by (rule chargeE) (metis sales_desk.select_convs(1))
  have "books_ok db1" using same_books_ok [OF folio_books [OF folio]] ok by simp
  moreover have "sound_confirmation (charge_confirmation env actorId s4 payments settled folio)"
    by (rule charge_confirmation_sound [OF settled payments pos]) (use due_date_totals [OF due] in simp)
  ultimately have "books_ok db2" using rows by (rule confirmation_keeps_books)
  with sales show ?thesis by auto
qed

definition charge_digest :: "desk_env \<Rightarrow> ident \<Rightarrow> ident \<Rightarrow> charge_dto \<Rightarrow> tender_entry list \<Rightarrow> string" where
  "charge_digest env saleId actorId dto entries =
     dke_hash env (ChargeRequest saleId actorId (sortPaymentsForHash (dke_collate env) entries)
       (cdt_dueDate dto) (cdt_delivery dto = Some True) (cdt_cashSessionId dto))"

lemma charge_run:
  assumes "chargeDraft env saleId actorId dto key st = (a, st')"
  obtains (kept) "st' = st"
    | (failed) entries db e where "normalizeChargeRequestPayments dto = Inr entries"
        "acquireIdempotency (dke_now env) (dke_uuid env 0) OpSaleCharge (Some saleId) key
           (charge_digest env saleId actorId dto entries) (sdk_sales st) = (SlotAcquired (dke_uuid env 0), db)"
        "cdt_cashSessionId dto = None" "a = Inl e" "st' = st\<lparr>sdk_sales := db\<rparr>"
    | (succeeded) entries db x where "normalizeChargeRequestPayments dto = Inr entries"
        "acquireIdempotency (dke_now env) (dke_uuid env 0) OpSaleCharge (Some saleId) key
           (charge_digest env saleId actorId dto entries) (sdk_sales st) = (SlotAcquired (dke_uuid env 0), db)"
        "charge_tx env saleId actorId dto entries (dke_uuid env 0) (st\<lparr>sdk_sales := db\<rparr>) = Inr (x, st')" "a = Inr x"
proof (cases "normalizeChargeRequestPayments dto")
  case (Inl e)
  with assms show thesis
    by (intro kept) (auto simp: chargeDraft_def executeChargeDraft_def ambient_def split: if_splits)
next
  case (Inr entries)
  obtain outcome db where acq: "acquireIdempotency (dke_now env) (dke_uuid env 0) OpSaleCharge (Some saleId) key
      (charge_digest env saleId actorId dto entries) (sdk_sales st) = (outcome, db)" by fastforce
  let ?st = "st\<lparr>sdk_sales := db\<rparr>"
  let ?run = "run_slot outcome (\<lambda>token. in_tx (charge_tx env saleId actorId dto entries token ?st) ?st) ?st"
  obtain b st1 where b: "?run = (b, st1)" by fastforce
  have "executeChargeDraft env saleId actorId dto key st = (b, st1)"
    using acq b unfolding charge_digest_def by (simp add: executeChargeDraft_def Let_def Inr)
  with assms have amb: "ambient (cdt_cashSessionId dto) (\<lambda>_. (b, st1)) st = (a, st')"
    by (auto simp: chargeDraft_def ambient_def split: if_splits)
  from acq b show thesis
  proof (cases rule: slot_run)
    case answered
    with amb show thesis by (intro kept) (auto simp: ambient_def split: if_splits sum.splits)
  next
    case (failed e)
    with amb acq Inr that(2) kept show thesis by (auto simp: ambient_def split: if_splits)
  next
    case (succeeded x)
    with amb acq Inr that(3) show thesis by (auto simp: ambient_def split: if_splits)
  qed
qed

lemma charge_books:
  assumes "books_ok (sdk_sales st)" and "amounts_ok dto"
    and "chargeDraft env saleId actorId dto key st = (a, st')"
  shows "books_ok (sdk_sales st')"
  using assms(3)
proof (cases rule: charge_run)
  case (succeeded entries db x)
  from same_books_ok [OF acquire_books [OF succeeded(2)]] assms(1)
    charge_tx_books [OF _ charge_entries_ok [OF succeeded(1) assms(2)] succeeded(3)]
  show ?thesis by simp
next
  case failed
  from same_books_ok [OF acquire_books [OF failed(2)]] assms(1) failed show ?thesis by simp
qed (use assms(1) in simp)

subsection \<open>A collection, step by step\<close>

lemma paymentE:
  assumes "payment_tx env auth saleId actorId session entries token st = Inr (answer, st')"
  obtains (went) s rows c db cash where
    "session_fence env session st = Inr ()"
    and "sale_to_collect auth saleId actorId (sdk_sales st) = Inr s"
    and "payments_to_persist env auth (sa_channel s) entries = Inr rows"
    and "persistCollectedPayments (dke_now env) (\<lambda>i. dke_uuid env (i + 1)) saleId
      (if auth = AuthReviewer then None else Some actorId) rows (sdk_sales st) = Inr (c, db)"
    and "book_payments env (dke_now env) session saleId (cld_rows c) 0 (sdk_cash st) = Inr cash"
    and "answer = PaymentAnswer (payment_answer_of saleId c)"
    and "st' = st\<lparr>sdk_sales := markIdempotencySucceeded (dke_now env) token saleId answer
        (publish (collect_events saleId (if auth = AuthReviewer then None else Some actorId) (sa_folio s) c) db),
      sdk_cash := cash\<rparr>"
  using assms unfolding payment_tx_def Let_def
  by (elim andThen_InrE pair_InrE) (simp only: sum.inject prod.inject, erule conjE,
      rule went; (assumption | (rule sym, assumption) | (hypsubst, rule refl) | (simp; fail)))

lemma persisted_amounts:
  assumes "payments_to_persist env auth channel entries = Inr rows" and "\<forall>p\<in>set entries. 0 \<le> tde_amountCents p"
  shows "\<forall>r\<in>set rows. 0 \<le> cpr_amountCents r"
proof (cases "auth = AuthReviewer")
  case True
  with assms show ?thesis by (auto simp: payments_to_persist_def reviewer_row_def)
next
  case False
  with assms(1) have "mapM_list (canonical_row (dke_resolver env)) entries = Inr rows"
    by (simp add: payments_to_persist_def)
  from canonical_rows_ok [OF this assms(2)] show ?thesis .
qed

lemma payment_tx_books:
  assumes ok: "books_ok (sdk_sales st)" and pos: "\<forall>p\<in>set entries. 0 \<le> tde_amountCents p"
    and run: "payment_tx env auth saleId actorId session entries token st = Inr (answer, st')"
  shows "books_ok (sdk_sales st')"
  using run
proof (cases rule: paymentE)
  case (went s rows c db cash)
  from collection_keeps_books [OF ok persisted_amounts [OF went(3) pos] went(4)] went(7) show ?thesis by simp
qed

definition payment_digest :: "desk_env \<Rightarrow> ident \<Rightarrow> ident \<Rightarrow> charge_dto \<Rightarrow> tender_entry list \<Rightarrow> string" where
  "payment_digest env saleId actorId dto entries =
     dke_hash env (PaymentRequest saleId actorId (sortPaymentsForHash (dke_collate env) entries)
       (cdt_cashSessionId dto))"

lemma payment_run:
  assumes "addPayment env auth saleId actorId dto key st = (a, st')"
  obtains (kept) "st' = st"
    | (failed) entries db e where "normalizeCollectionRequestPayments dto = Inr entries"
        "acquireIdempotency (dke_now env) (dke_uuid env 0) OpSalePayment (Some saleId) key
           (payment_digest env saleId actorId dto entries) (sdk_sales st) = (SlotAcquired (dke_uuid env 0), db)"
        "cdt_cashSessionId dto = None" "a = Inl e" "st' = st\<lparr>sdk_sales := db\<rparr>"
    | (succeeded) entries db x where "normalizeCollectionRequestPayments dto = Inr entries"
        "acquireIdempotency (dke_now env) (dke_uuid env 0) OpSalePayment (Some saleId) key
           (payment_digest env saleId actorId dto entries) (sdk_sales st) = (SlotAcquired (dke_uuid env 0), db)"
        "payment_tx env auth saleId actorId (cdt_cashSessionId dto) entries (dke_uuid env 0)
           (st\<lparr>sdk_sales := db\<rparr>) = Inr (x, st')" "a = Inr x"
proof (cases "cdt_cashSessionId dto \<noteq> None \<and> auth = AuthReviewer \<or>
    (\<exists>e. normalizeCollectionRequestPayments dto = Inl e)")
  case True
  with assms show thesis
    by (intro kept) (auto simp: addPayment_def executeAddPayment_def ambient_def split: if_splits)
next
  case False
  then obtain entries where Inr: "normalizeCollectionRequestPayments dto = Inr entries"
    by (cases "normalizeCollectionRequestPayments dto") auto
  obtain outcome db where acq: "acquireIdempotency (dke_now env) (dke_uuid env 0) OpSalePayment (Some saleId) key
      (payment_digest env saleId actorId dto entries) (sdk_sales st) = (outcome, db)" by fastforce
  let ?st = "st\<lparr>sdk_sales := db\<rparr>"
  let ?run = "run_slot outcome (\<lambda>token. in_tx (payment_tx env auth saleId actorId (cdt_cashSessionId dto)
    entries token ?st) ?st) ?st"
  obtain b st1 where b: "?run = (b, st1)" by fastforce
  have "executeAddPayment env auth saleId actorId dto key st = (b, st1)"
    using acq b False unfolding payment_digest_def by (auto simp: executeAddPayment_def Let_def Inr)
  with assms have amb: "ambient (cdt_cashSessionId dto) (\<lambda>_. (b, st1)) st = (a, st')"
    by (auto simp: addPayment_def ambient_def split: if_splits)
  from acq b show thesis
  proof (cases rule: slot_run)
    case answered
    with amb show thesis by (intro kept) (auto simp: ambient_def split: if_splits sum.splits)
  next
    case (failed e)
    with amb acq Inr that(2) kept show thesis by (auto simp: ambient_def split: if_splits)
  next
    case (succeeded x)
    with amb acq Inr that(3) show thesis by (auto simp: ambient_def split: if_splits)
  qed
qed

lemma payment_books:
  assumes "books_ok (sdk_sales st)" and "amounts_ok dto"
    and "addPayment env auth saleId actorId dto key st = (a, st')"
  shows "books_ok (sdk_sales st')"
  using assms(3)
proof (cases rule: payment_run)
  case (succeeded entries db x)
  from same_books_ok [OF acquire_books [OF succeeded(2)]] assms(1)
    payment_tx_books [OF _ collection_entries_ok [OF succeeded(1) assms(2)] succeeded(3)]
  show ?thesis by simp
next
  case failed
  from same_books_ok [OF acquire_books [OF failed(2)]] assms(1) failed show ?thesis by simp
qed (use assms(1) in simp)

subsection \<open>A cancellation, step by step\<close>

lemma locked_fields:
  assumes "findByIdForUpdate i db = Some s"
  obtains r where "find_sale i db = Some r" and "r \<in> set (sls_sales db)" and "slr_id r = i"
    and "s = Sale_fromPersistence (locked_props r)"
    and "sa_id s = i" and "sa_status s = slr_status r" and "sa_paidCents s = slr_paidCents r"
    and "sa_debtCents s = slr_debtCents r" and "sa_totalCents s = slr_totalCents r"
    and "sa_paymentStatus s = slr_paymentStatus r" and "sa_folio s = slr_folio r" and "sa_userId s = slr_userId r"
proof -
  from assms obtain r where r: "find_sale i db = Some r" "s = Sale_fromPersistence (locked_props r)"
    by (auto simp: findByIdForUpdate_def)
  from find_sale_SomeD [OF r(1)] show thesis
    by (intro that [OF r(1) _ _ r(2)])
      (simp_all add: r(2) Sale_fromPersistence_def locked_props_def loaded_props_def)
qed

lemma cancelE:
  assumes "cancel_tx env saleId actorId reason fromBot token st = Inr (answer, st')"
  obtains
    (again) s where "findByIdForUpdate saleId (sdk_sales st) = Some s" and "sa_status s = SaleCanceled"
      and "st' = st\<lparr>sdk_sales := markIdempotencySucceeded (dke_now env) token saleId answer (sdk_sales st)\<rparr>"
  | (canceled) s canceled refunded stock refunds usage where
      "findByIdForUpdate saleId (sdk_sales st) = Some s" and "sa_status s = SaleConfirmed"
      and "Sale_cancel (dke_now env) reason \<lparr>cna_actorId = actorId, cna_canceledAt = None\<rparr> s =
        Inr (canceled, refunded)"
      and "sale_stock_reverse (dke_journal env) (dke_user_name env) saleId
        (if fromBot then BotActor actorId else UserActor actorId) (sale_charge_items s)
        (confirmed_time s) (sdk_stock st) = Inr stock"
      and "cancellation_refunds env saleId refunded reason (sdk_sales st) = Inr refunds"
      and "restoreForSale (dke_collate env) (dke_now env) True saleId (sdk_usage st) = Inr usage"
      and "answer = CancelAnswer (cancel_result env s canceled refunded)"
      and "st' = st\<lparr>sdk_sales := markIdempotencySucceeded (dke_now env) token saleId answer
          (publish [canceled_event_of actorId reason canceled (cancel_result env s canceled refunded)]
            (persistCancellation (dke_now env) (\<lambda>i. dke_uuid env (i + 1)) canceled refunds (sdk_sales st))),
        sdk_usage := usage, sdk_stock := stock\<rparr>"
proof -
  from assms obtain s where s: "findByIdForUpdate saleId (sdk_sales st) = Some s"
    by (auto simp: cancel_tx_def split: option.splits)
  show thesis
  proof (cases "sa_status s = SaleCanceled")
    case True
    with assms s show thesis by (intro again [OF s True]) (auto simp: cancel_tx_def Let_def)
  next
    case False
    from assms obtain canceled refunded where
      c: "Sale_cancel (dke_now env) reason \<lparr>cna_actorId = actorId, cna_canceledAt = None\<rparr> s =
        Inr (canceled, refunded)"
      using s False by (auto simp: cancel_tx_def result_simps)
    have confirmed: "sa_status s = SaleConfirmed"
      using c by (auto simp: Sale_cancel_def split: if_splits)
    from assms [unfolded cancel_tx_def s option.case if_not_P [OF False] c andThen.simps prod.case Let_def]
    show thesis
      by (elim andThen_InrE) (simp only: sum.inject prod.inject, erule conjE, rule canceled [OF s confirmed c];
          (assumption | (rule sym, assumption) | (hypsubst, rule refl) | (simp; fail)))
  qed
qed

lemma cancel_refunds_due:
  assumes "Sale_cancel now reason actor s = Inr (canceled, refunded)" and "sa_paidCents s = slr_paidCents r"
    and "sa_paymentStatus s = slr_paymentStatus r"
  shows "refunded = refund_due r" and "sa_id canceled = sa_id s"
  using assms by (auto simp: Sale_cancel_def refund_due_def refunds_nothing_def Let_def split: if_splits)

lemma refund_due_nonneg:
  assumes "books_ok db" and "r \<in> set (sls_sales db)" and "slr_status r \<noteq> SaleDraft"
  shows "0 \<le> refund_due r" and "refund_due r \<le> paid_from_ledger (slr_id r) db"
proof -
  have "0 \<le> paid_from_ledger (slr_id r) db"
    unfolding paid_from_ledger_def payments_of_def
    by (rule sum_list_nonneg_int) (use books_okD(4) [OF assms(1)] in \<open>auto simp: payment_booked_def\<close>)
  moreover have "charged_row (paid_from_ledger (slr_id r) db) r"
    using books_okD(3) [OF assms(1,2)] assms(3) by (cases "slr_status r") (auto simp: row_balanced_def)
  ultimately show "0 \<le> refund_due r" "refund_due r \<le> paid_from_ledger (slr_id r) db"
    by (auto simp: refund_due_def charged_row_def)
qed

text \<open>What the environment gives a command: fresh identifiers, and payments in some order.\<close>

definition env_ok :: "desk_env \<Rightarrow> sales_desk \<Rightarrow> bool" where
  "env_ok env st \<longleftrightarrow>
     inj (dke_uuid env) \<and> range (dke_uuid env) \<inter> rfr_id ` set (sls_refunds (sdk_sales st)) = {} \<and>
     range (dke_uuid env) \<inter> ids_id ` set (sls_slots (sdk_sales st)) = {} \<and>
     (\<forall>ps. mset (dke_payment_order env ps) = mset ps)"

definition fresh_refunds :: "desk_env \<Rightarrow> sales_desk \<Rightarrow> bool" where
  "fresh_refunds env st \<longleftrightarrow>
     inj (dke_uuid env) \<and> range (dke_uuid env) \<inter> rfr_id ` set (sls_refunds (sdk_sales st)) = {}"

lemma shifted_uuid:
  assumes "fresh_refunds env st" and "sls_refunds db = sls_refunds (sdk_sales st)"
  shows "inj (\<lambda>i. dke_uuid env (i + 1))" and "range (\<lambda>i. dke_uuid env (i + 1)) \<inter> rfr_id ` set (sls_refunds db) = {}"
proof -
  from assms show "inj (\<lambda>i. dke_uuid env (i + 1))" by (auto simp: fresh_refunds_def inj_def)
  have "range (\<lambda>i. dke_uuid env (i + 1)) \<subseteq> range (dke_uuid env)" by auto
  moreover have "range (dke_uuid env) \<inter> rfr_id ` set (sls_refunds db) = {}"
    using assms by (simp add: fresh_refunds_def)
  ultimately show "range (\<lambda>i. dke_uuid env (i + 1)) \<inter> rfr_id ` set (sls_refunds db) = {}"
    by (simp add: disjoint_iff subset_iff)
qed

lemma cancellation_refunds_ok:
  assumes "cancellation_refunds env saleId refunded reason db = Inr refunds" and "0 \<le> refunded"
  shows "(\<Sum>d\<leftarrow>refunds. rfd_amountCents d) = refunded" and "\<forall>d\<in>set refunds. 0 < rfd_amountCents d"
  using assms refunds_built [of _ refunded reason refunds]
  by (auto simp: cancellation_refunds_def refund_of_def split: if_splits)

lemma cancel_tx_books:
  assumes ok: "books_ok (sdk_sales st)" and env: "fresh_refunds env st"
    and run: "cancel_tx env saleId actorId reason fromBot token st = Inr (answer, st')"
  shows "books_ok (sdk_sales st')"
  using run
proof (cases rule: cancelE)
  case (again s)
  with ok show ?thesis by simp
next
  case (canceled s canceled refunded stock refunds usage)
  from canceled(1) obtain r where r: "find_sale saleId (sdk_sales st) = Some r" "r \<in> set (sls_sales (sdk_sales st))"
      "slr_id r = saleId" "sa_id s = saleId" "sa_status s = slr_status r"
      "sa_paidCents s = slr_paidCents r" "sa_paymentStatus s = slr_paymentStatus r"
    by (rule locked_fields) metis
  note due = cancel_refunds_due [OF canceled(3) r(6,7)]
  from r(5) canceled(2) have confirmed: "slr_status r = SaleConfirmed" by simp
  have "0 \<le> refunded" using refund_due_nonneg(1) [OF ok r(2)] confirmed due(1) by simp
  note refunds = cancellation_refunds_ok [OF canceled(5) this]
  have "books_ok (persistCancellation (dke_now env) (\<lambda>i. dke_uuid env (i + 1)) canceled refunds (sdk_sales st))"
    by (rule cancellation_keeps_books [OF ok r(1) confirmed _ _ refunds(2) shifted_uuid [OF env]])
      (simp_all add: due(2) r(4) refunds(1) due(1))
  with canceled(8) show ?thesis by simp
qed

definition cancel_digest :: "desk_env \<Rightarrow> ident \<Rightarrow> ident \<Rightarrow> sale_cancel_reason \<Rightarrow> string" where
  "cancel_digest env saleId actorId reason = dke_hash env (CancelRequest saleId actorId reason)"

lemma cancel_run:
  assumes "cancelSale env saleId actorId reason fromBot st = (a, st')"
  obtains (kept) outcome where "acquireIdempotency (dke_now env) (dke_uuid env 0) OpSaleCancel (Some saleId)
        (cancellation_key saleId) (cancel_digest env saleId actorId reason) (sdk_sales st) =
        (outcome, sdk_sales st)" "a = fst (run_slot outcome undefined st)" "st' = st"
        "\<forall>tok. outcome \<noteq> SlotAcquired tok"
    | (failed) db e where "acquireIdempotency (dke_now env) (dke_uuid env 0) OpSaleCancel (Some saleId)
        (cancellation_key saleId) (cancel_digest env saleId actorId reason) (sdk_sales st) =
        (SlotAcquired (dke_uuid env 0), db)"
        "cancel_tx env saleId actorId reason fromBot (dke_uuid env 0) (st\<lparr>sdk_sales := db\<rparr>) = Inl e"
        "a = Inl e" "st' = st\<lparr>sdk_sales := db\<rparr>"
    | (succeeded) db x where "acquireIdempotency (dke_now env) (dke_uuid env 0) OpSaleCancel (Some saleId)
        (cancellation_key saleId) (cancel_digest env saleId actorId reason) (sdk_sales st) =
        (SlotAcquired (dke_uuid env 0), db)"
        "cancel_tx env saleId actorId reason fromBot (dke_uuid env 0) (st\<lparr>sdk_sales := db\<rparr>) = Inr (x, st')" "a = Inr x"
proof -
  obtain outcome db where acq: "acquireIdempotency (dke_now env) (dke_uuid env 0) OpSaleCancel (Some saleId)
      (cancellation_key saleId) (cancel_digest env saleId actorId reason) (sdk_sales st) = (outcome, db)"
    by fastforce
  from assms acq have "run_slot outcome (\<lambda>token. in_tx (cancel_tx env saleId actorId reason fromBot token
      (st\<lparr>sdk_sales := db\<rparr>)) (st\<lparr>sdk_sales := db\<rparr>)) (st\<lparr>sdk_sales := db\<rparr>) = (a, st')"
    by (simp add: cancelSale_def Let_def cancel_digest_def)
  with acq show thesis
  proof (cases rule: slot_run)
    case answered
    with acq not_acquired [OF acq] show thesis by (intro kept) auto
  next
    case (failed e)
    with acq that(2) show thesis by simp
  next
    case (succeeded x)
    with acq that(3) show thesis by simp
  qed
qed

lemma cancel_books:
  assumes "books_ok (sdk_sales st)" and "env_ok env st"
    and "cancelSale env saleId actorId reason fromBot st = (a, st')"
  shows "books_ok (sdk_sales st')"
  using assms(3)
proof (cases rule: cancel_run)
  case (succeeded db x)
  from acquire_books [OF succeeded(1)] have same: "same_books (sdk_sales st) db" .
  then have "books_ok db" using same_books_ok assms(1) by blast
  moreover have "fresh_refunds env (st\<lparr>sdk_sales := db\<rparr>)"
    using assms(2) same by (simp add: env_ok_def fresh_refunds_def same_books_def)
  ultimately show ?thesis using cancel_tx_books [OF _ _ succeeded(2)] by simp
next
  case failed
  from same_books_ok [OF acquire_books [OF failed(1)]] assms(1) failed show ?thesis by simp
qed (use assms(1) in simp)

subsection \<open>A settlement, step by step\<close>

lemma settleE:
  assumes "settle_tx env refundId actorId dto at bound token st = Inr (answer, st')"
  obtains r db cash db1 where
    "session_fence env (sdt_cashSessionId dto) st = Inr ()"
    and "persistSettlement (dke_uuid env 1) (settle_input_of refundId actorId dto at) (sdk_sales st) = Inr (r, db)"
    and "book_refund env bound (stl_settlementId r) (sdt_amountCents dto) at (sdk_cash st) = Inr cash"
    and "markSettlementIdempotencySucceeded (dke_now env) token (stl_saleId r) answer db = Inr db1"
    and "answer = SettlementAnswer (settlement_answer_of refundId dto at r)"
    and "st' = st\<lparr>sdk_sales := db1, sdk_cash := cash\<rparr>"
  using assms unfolding settle_tx_def Let_def
  by (elim andThen_InrE pair_InrE) (simp only: sum.inject prod.inject, erule conjE,
      rule that; (assumption | (rule sym, assumption) | (hypsubst, assumption) | (simp; fail)))

lemma settle_tx_books:
  assumes "books_ok (sdk_sales st)" and "settle_tx env refundId actorId dto at bound token st = Inr (answer, st')"
  shows "books_ok (sdk_sales st')"
proof -
  from assms(2) obtain r db cash db1 where
    p: "persistSettlement (dke_uuid env 1) (settle_input_of refundId actorId dto at) (sdk_sales st) = Inr (r, db)"
    and m: "markSettlementIdempotencySucceeded (dke_now env) token (stl_saleId r) answer db = Inr db1"
    and st': "st' = st\<lparr>sdk_sales := db1, sdk_cash := cash\<rparr>"
    by (rule settleE)
  from settlement_keeps_books [OF assms(1) p] same_books_ok [OF mark_settlement_books [OF m]] st'
  show ?thesis by simp
qed

lemma settlement_replay_state [simp]: "snd (settlement_replay r) = snd r"
  by (auto simp: settlement_replay_def split: prod.splits sum.splits sale_answer.splits)

lemma settle_books:
  assumes "books_ok (sdk_sales st)" and "settleRefund env refundId actorId dto key st = (a, st')"
  shows "books_ok (sdk_sales st')"
  using assms(2) unfolding settleRefund_def
proof (cases rule: ambient_cases)
  case ran
  show ?thesis
  proof (cases "andThen (toISOString (sdt_settledAt dto)) (\<lambda>at. mapR (Pair at) (bound_method dto))")
    case (Inl e)
    with ran assms(1) show ?thesis by (simp add: executeSettleRefund_def)
  next
    case (Inr x)
    then obtain at bound where x: "x = (at, bound)" by (cases x)
    let ?h = "dke_hash env (SettleRequest refundId actorId (sdt_amountCents dto)
      (sdt_method dto) (sdt_reference dto) at (sdt_cashSessionId dto))"
    obtain outcome db where acq: "acquireSettlementIdempotency (dke_now env) (dke_uuid env 0) refundId key
        ?h (sdk_sales st) = (outcome, db)" by fastforce
    have ok: "books_ok db" using same_books_ok [OF acquire_settlement_books [OF acq]] assms(1) by simp
    let ?st = "st\<lparr>sdk_sales := db\<rparr>"
    obtain b where run: "run_slot outcome (\<lambda>token. release_on_error token
        (in_tx (settle_tx env refundId actorId dto at bound token ?st) ?st)) ?st = (b, st')"
    proof -
      from ran Inr x acq have "settlement_replay (run_slot outcome (\<lambda>token. release_on_error token
        (in_tx (settle_tx env refundId actorId dto at bound token ?st) ?st)) ?st) = (a, st')"
        by (simp add: executeSettleRefund_def Let_def)
      from arg_cong [OF this, of snd] that show thesis by (metis settlement_replay_state snd_conv surjective_pairing)
    qed
    then show ?thesis
    proof (cases rule: run_slot_cases)
      case kept
      with ok show ?thesis by simp
    next
      case (ran token)
      show ?thesis
      proof (cases "settle_tx env refundId actorId dto at bound token ?st")
        case (Inl e)
        with ran(2) ok show ?thesis by (auto simp: in_tx_def release_on_error_def)
      next
        case (Inr y)
        with ran(2) settle_tx_books [where st = ?st] ok show ?thesis
          by (cases y) (auto simp: in_tx_def release_on_error_def)
      qed
    qed
  qed
qed (use assms(1) in simp)

end
