(* ===== verification/SaleRunLaws.thy ===== *)
theory SaleRunLaws
  imports SaleDeskLaws
begin

section \<open>Runs of the money commands\<close>

text \<open>
  Charges, collections, cancellations, settlements, saves and deletions in any order,
  as a step relation; the books along a run, and the slots: once a slot of another
  operation than a settlement is taken, no command takes it away or rewrites it,
  except the one that holds its token.

  A save is taken here only when the copy it writes has the status of the stored row.  That
  is an assumption on the run, which the generic save does not check between two states
  that are both past the draft: \<open>SaleSaveProps\<close> has the save of a stale copy it leaves out.
\<close>

subsection \<open>Runs of commands\<close>

definition same_status :: "sale \<Rightarrow> sales_db \<Rightarrow> bool" where
  "same_status s db \<longleftrightarrow>
     sa_status s = (case find_sale (sa_id s) db of None \<Rightarrow> SaleDraft | Some r \<Rightarrow> slr_status r)"

inductive money_step :: "sales_desk \<Rightarrow> sales_desk \<Rightarrow> bool" where
  step_charge: "env_ok env st \<Longrightarrow> amounts_ok dto \<Longrightarrow> chargeDraft env saleId actorId dto key st = (a, st') \<Longrightarrow>
     money_step st st'"
| step_payment: "env_ok env st \<Longrightarrow> amounts_ok dto \<Longrightarrow>
     addPayment env auth saleId actorId dto key st = (a, st') \<Longrightarrow> money_step st st'"
| step_cancel: "env_ok env st \<Longrightarrow> cancelSale env saleId actorId reason fromBot st = (a, st') \<Longrightarrow>
     money_step st st'"
| step_settle: "env_ok env st \<Longrightarrow> settleRefund env refundId actorId sdto key st = (a, st') \<Longrightarrow>
     money_step st st'"
| step_save: "same_status s (sdk_sales st) \<Longrightarrow> writeImpl now intent s (sdk_sales st) = Inr db \<Longrightarrow>
     money_step st (st\<lparr>sdk_sales := db\<rparr>)"
| step_delete: "delete_sale i (sdk_sales st) = Inr db \<Longrightarrow> money_step st (st\<lparr>sdk_sales := db\<rparr>)"

lemma money_step_books: "money_step st st' \<Longrightarrow> books_ok (sdk_sales st) \<Longrightarrow> books_ok (sdk_sales st')"
  by (induction rule: money_step.induct)
    (auto intro: charge_books payment_books cancel_books settle_books save_keeps_books delete_keeps_books
      simp: same_status_def)

interpretation books: step_invariant money_step "\<lambda>st. books_ok (sdk_sales st)"
  by unfold_locales (rule money_step_books)

subsection \<open>Slots along a run\<close>

text \<open>The slot of a key, with a given token, digest, status and answer.\<close>

definition slot_held :: "idempotency_operation \<Rightarrow> string \<Rightarrow> idempotency_slot \<Rightarrow> sales_db \<Rightarrow> bool" where
  "slot_held op key y db \<longleftrightarrow>
     (\<exists>x. find (is_slot op key) (sls_slots db) = Some x \<and> ids_id x = ids_id y \<and>
        ids_requestHash x = ids_requestHash y \<and> ids_status x = ids_status y \<and>
        ids_response x = ids_response y)"

lemma find_map_keep:
  assumes "\<And>x. p (f x) = p x"
  shows "find p (map f xs) = map_option f (find p xs)"
  by (induction xs) (simp_all add: assms)

lemma find_filter_keep:
  assumes "\<And>x. p x \<Longrightarrow> q x"
  shows "find p (filter q xs) = find p xs"
  by (induction xs) (auto simp: assms)

lemma held_same: "sls_slots db' = sls_slots db \<Longrightarrow> slot_held op key y db' = slot_held op key y db"
  by (simp add: slot_held_def)

lemma held_map:
  assumes "slot_held op key y db" and "sls_slots db' = map f (sls_slots db)"
    and "\<And>x. is_slot op key (f x) = is_slot op key x"
    and "\<And>x. ids_id x = ids_id y \<Longrightarrow> ids_id (f x) = ids_id x \<and> ids_requestHash (f x) = ids_requestHash x \<and>
      ids_status (f x) = ids_status x \<and> ids_response (f x) = ids_response x"
  shows "slot_held op key y db'"
  using assms(1) unfolding slot_held_def assms(2) find_map_keep [where p = "is_slot op key" and f = f, OF assms(3)]
  by (auto simp: assms(4))

lemma held_filter:
  assumes "slot_held op key y db" and "sls_slots db' = filter q (sls_slots db)" and "\<And>x. is_slot op key x \<Longrightarrow> q x"
  shows "slot_held op key y db'"
proof -
  have "find (is_slot op key) (filter q (sls_slots db)) = find (is_slot op key) (sls_slots db)"
    by (rule find_filter_keep) (rule assms(3))
  with assms(1,2) show ?thesis by (simp add: slot_held_def)
qed

lemma held_append:
  "slot_held op key y db \<Longrightarrow> sls_slots db' = sls_slots db @ ys \<Longrightarrow> slot_held op key y db'"
  by (auto simp: slot_held_def find_append)

lemma held_acquire:
  "acquireIdempotency now token op' saleId key' h db = (r, db') \<Longrightarrow> slot_held op key y db \<Longrightarrow> slot_held op key y db'"
  by (auto simp: acquireIdempotency_def split: option.splits if_splits intro: held_append)

lemma held_mark:
  assumes "slot_held op key y db" and "token \<noteq> ids_id y"
  shows "slot_held op key y (markIdempotencySucceeded now token saleId a db)"
  by (rule held_map [OF assms(1), where f = "\<lambda>x. if ids_id x = token then succeed_slot now saleId a x else x"])
    (use assms(2) in \<open>simp_all add: markIdempotencySucceeded_def succeed_slot_def is_slot_def\<close>)

lemma held_mark_settlement:
  assumes "slot_held op key y db" and "token \<noteq> ids_id y"
    and "markSettlementIdempotencySucceeded now token saleId a db = Inr db'"
  shows "slot_held op key y db'"
  by (rule held_map [OF assms(1), where f = "\<lambda>x. if owns_settlement token x then succeed_slot now saleId a x else x"])
    (use assms(2,3) in \<open>auto simp: markSettlementIdempotencySucceeded_def result_simps owns_settlement_def
      succeed_slot_def is_slot_def\<close>)

lemma held_acquire_settlement:
  assumes "acquireSettlementIdempotency now token refundId key' h db = (r, db')" and "slot_held op key y db"
    and op: "op \<noteq> OpRefundSettlement"
  shows "slot_held op key y db'" and "r = SlotAcquired tok \<Longrightarrow> tok = token"
proof -
  let ?k = "settlement_key refundId key'"
  obtain r1 db1 where one: "acquireIdempotency now token OpRefundSettlement None ?k h db = (r1, db1)"
    by (cases "acquireIdempotency now token OpRefundSettlement None ?k h db")
  from held_acquire [OF this assms(2)] have b: "slot_held op key y db1" .
  have "slot_held op key y db' \<and> (r = SlotAcquired tok \<longrightarrow> tok = token)"
  proof (cases "r1 = SlotBusy \<and> (\<exists>x\<in>set (sls_slots db1). reclaimable now ?k h x)")
    case True
    let ?db = "db1\<lparr>sls_slots := filter (\<lambda>x. \<not> reclaimable now ?k h x) (sls_slots db1)\<rparr>"
    from True assms(1) one have two: "acquireIdempotency now token OpRefundSettlement None ?k h ?db = (r, db')"
      by (simp add: acquireSettlementIdempotency_def Let_def)
    have "slot_held op key y ?db"
      by (rule held_filter [OF b, where q = "\<lambda>x. \<not> reclaimable now ?k h x"])
        (use op in \<open>auto simp: reclaimable_def is_slot_def\<close>)
    from held_acquire [OF two this] acquired(1) two show ?thesis by blast
  next
    case False
    with assms(1) one have "r = r1" "db' = db1"
      by (cases r1; auto simp: acquireSettlementIdempotency_def Let_def)+
    with b acquired(1) one show ?thesis by blast
  qed
  then show "slot_held op key y db'" "r = SlotAcquired tok \<Longrightarrow> tok = token" by simp_all
qed

lemma confirmation_slots:
  "persistChargeConfirmation now uuid c db = Inr (rows, db') \<Longrightarrow> sls_slots db' = sls_slots db"
  unfolding persistChargeConfirmation_def Let_def by (auto simp: result_simps split: option.splits)

lemma collection_slots:
  "persistCollectedPayments now uuid saleId userId ps db = Inr (c, db') \<Longrightarrow> sls_slots db' = sls_slots db"
  unfolding persistCollectedPayments_def Let_def by (auto simp: result_simps split: option.splits)

lemma settlement_slots: "persistSettlement i input db = Inr (r, db') \<Longrightarrow> sls_slots db' = sls_slots db"
  unfolding persistSettlement_def Let_def by (auto simp: result_simps split: option.splits)

lemma other_slots [simp]:
  "sls_slots (publish es db) = sls_slots db" "sls_slots (persistCancellation now uuid s rs db) = sls_slots db"
  "sls_slots (snd (allocateNextFolio now db)) = sls_slots db"
  by (simp_all add: publish_def persistCancellation_def allocateNextFolio_def Let_def)

lemma save_slots: "writeImpl now intent s db = Inr db' \<Longrightarrow> sls_slots db' = sls_slots db"
  unfolding writeImpl_def Let_def by (auto simp: result_simps put_sale_def split: option.splits)

lemma charge_tx_slots:
  assumes "charge_tx env saleId actorId dto entries token st = Inr (answer, st')"
  obtains db where "sls_slots db = sls_slots (sdk_sales st)"
    and "sdk_sales st' = markIdempotencySucceeded (dke_now env) token saleId answer db"
proof -
  from assms obtain folio db1 c rows db2 where
    folio: "allocateNextFolio (dke_now env) (sdk_sales st) = (folio, db1)"
    and rows: "persistChargeConfirmation (dke_now env) (\<lambda>i. dke_uuid env (i + 1)) c db1 = Inr (rows, db2)"
    and sales: "sdk_sales st' = markIdempotencySucceeded (dke_now env) token saleId answer
      (publish (charge_events actorId c rows) db2)"
    by (rule chargeE) (metis sales_desk.select_convs(1))
  have "sls_slots db1 = sls_slots (sdk_sales st)"
    using other_slots(3) [of "dke_now env" "sdk_sales st"] folio by simp
  with confirmation_slots [OF rows] show thesis by (intro that [OF _ sales]) simp
qed

lemma payment_tx_slots:
  assumes "payment_tx env auth saleId actorId session entries token st = Inr (answer, st')"
  obtains db where "sls_slots db = sls_slots (sdk_sales st)"
    and "sdk_sales st' = markIdempotencySucceeded (dke_now env) token saleId answer db"
  using assms
proof (cases rule: paymentE)
  case (went s rows c db cash)
  show thesis by (rule that) (use went(7) collection_slots [OF went(4)] in simp_all)
qed

lemma cancel_tx_slots:
  assumes "cancel_tx env saleId actorId reason fromBot token st = Inr (answer, st')"
  obtains db where "sls_slots db = sls_slots (sdk_sales st)"
    and "sdk_sales st' = markIdempotencySucceeded (dke_now env) token saleId answer db"
  using assms
proof (cases rule: cancelE)
  case (again s)
  then show thesis by (intro that [of "sdk_sales st"]) simp_all
next
  case (canceled s canceled refunded stock refunds usage)
  show thesis by (rule that) (use canceled(8) in simp_all)
qed

lemma fresh_token:
  assumes "env_ok env st" and "slot_held op key y (sdk_sales st)"
  shows "dke_uuid env i \<noteq> ids_id y"
proof
  assume eq: "dke_uuid env i = ids_id y"
  from assms(2) obtain x where x: "x \<in> set (sls_slots (sdk_sales st))" "ids_id x = ids_id y"
    by (auto simp: slot_held_def dest: find_SomeD)
  have "dke_uuid env i \<in> ids_id ` set (sls_slots (sdk_sales st))"
    unfolding eq x(2) [symmetric] using x(1) by (rule imageI)
  moreover have "range (dke_uuid env) \<inter> ids_id ` set (sls_slots (sdk_sales st)) = {}"
    using assms(1) by (simp add: env_ok_def)
  ultimately show False by (metis disjoint_iff rangeI)
qed

text \<open>Every command of a run leaves another's slot in flight.\<close>

lemma tx_held:
  assumes "slot_held op key y (sdk_sales st)" and "env_ok env st"
    and "acquireIdempotency now (dke_uuid env 0) op' saleId' key' h (sdk_sales st) = (r, db)"
    and "sls_slots db1 = sls_slots db"
    and "sdk_sales st' = markIdempotencySucceeded now' (dke_uuid env 0) saleId a db1"
  shows "slot_held op key y (sdk_sales st')"
proof -
  from fresh_token [OF assms(2,1)] held_acquire [OF assms(3,1)] show ?thesis
    unfolding assms(5) by (intro held_mark) (simp_all add: held_same [OF assms(4)])
qed

lemma charge_held:
  assumes "slot_held op key y (sdk_sales st)" and "env_ok env st"
    and "chargeDraft env saleId actorId dto key' st = (a, st')"
  shows "slot_held op key y (sdk_sales st')"
  using assms(3)
proof (cases rule: charge_run)
  case failed
  with held_acquire [OF failed(2) assms(1)] show ?thesis by simp
next
  case (succeeded entries db x)
  from succeeded(3) obtain db1 where "sls_slots db1 = sls_slots db"
    "sdk_sales st' = markIdempotencySucceeded (dke_now env) (dke_uuid env 0) saleId x db1"
    by (rule charge_tx_slots) simp
  from tx_held [OF assms(1,2) succeeded(2) this] show ?thesis .
qed (use assms(1) in simp)

lemma payment_held:
  assumes "slot_held op key y (sdk_sales st)" and "env_ok env st"
    and "addPayment env auth saleId actorId dto key' st = (a, st')"
  shows "slot_held op key y (sdk_sales st')"
  using assms(3)
proof (cases rule: payment_run)
  case failed
  with held_acquire [OF failed(2) assms(1)] show ?thesis by simp
next
  case (succeeded entries db x)
  from succeeded(3) obtain db1 where "sls_slots db1 = sls_slots db"
    "sdk_sales st' = markIdempotencySucceeded (dke_now env) (dke_uuid env 0) saleId x db1"
    by (rule payment_tx_slots) simp
  from tx_held [OF assms(1,2) succeeded(2) this] show ?thesis .
qed (use assms(1) in simp)

lemma cancel_held:
  assumes "slot_held op key y (sdk_sales st)" and "env_ok env st"
    and "cancelSale env saleId actorId reason fromBot st = (a, st')"
  shows "slot_held op key y (sdk_sales st')"
  using assms(3)
proof (cases rule: cancel_run)
  case failed
  with held_acquire [OF failed(1) assms(1)] show ?thesis by simp
next
  case (succeeded db x)
  from succeeded(2) obtain db1 where "sls_slots db1 = sls_slots db"
    "sdk_sales st' = markIdempotencySucceeded (dke_now env) (dke_uuid env 0) saleId x db1"
    by (rule cancel_tx_slots) simp
  from tx_held [OF assms(1,2) succeeded(1) this] show ?thesis .
qed (use assms(1) in simp)

lemma settle_held:
  assumes "slot_held op key y (sdk_sales st)" and "env_ok env st"
    and "settleRefund env refundId actorId dto key' st = (a, st')" and op: "op \<noteq> OpRefundSettlement"
  shows "slot_held op key y (sdk_sales st')"
  using assms(3) unfolding settleRefund_def
proof (cases rule: ambient_cases)
  case ran
  show ?thesis
  proof (cases "andThen (toISOString (sdt_settledAt dto)) (\<lambda>at. mapR (Pair at) (bound_method dto))")
    case (Inl e)
    with ran assms(1) show ?thesis by (simp add: executeSettleRefund_def)
  next
    case (Inr w)
    then obtain at bound where w: "w = (at, bound)" by (cases w)
    let ?h = "dke_hash env (SettleRequest refundId actorId (sdt_amountCents dto)
      (sdt_method dto) (sdt_reference dto) at (sdt_cashSessionId dto))"
    obtain outcome db where acq: "acquireSettlementIdempotency (dke_now env) (dke_uuid env 0) refundId key'
        ?h (sdk_sales st) = (outcome, db)" by fastforce
    note fl = held_acquire_settlement [OF acq assms(1) op]
    let ?st = "st\<lparr>sdk_sales := db\<rparr>"
    obtain b where run: "run_slot outcome (\<lambda>token. release_on_error token
        (in_tx (settle_tx env refundId actorId dto at bound token ?st) ?st)) ?st = (b, st')"
    proof -
      from ran Inr w acq have "settlement_replay (run_slot outcome (\<lambda>token. release_on_error token
        (in_tx (settle_tx env refundId actorId dto at bound token ?st) ?st)) ?st) = (a, st')"
        by (simp add: executeSettleRefund_def Let_def)
      from arg_cong [OF this, of snd] that show thesis by (metis settlement_replay_state snd_conv surjective_pairing)
    qed
    then show ?thesis
    proof (cases rule: run_slot_cases)
      case kept
      with fl(1) show ?thesis by simp
    next
      case (ran token)
      from fresh_token [OF assms(2,1)] fl(2) [OF ran(1)] have ne: "token \<noteq> ids_id y" by metis
      show ?thesis
      proof (cases "settle_tx env refundId actorId dto at bound token ?st")
        case (Inl e)
        have "slot_held op key y (releaseSettlementIdempotency token db)"
          by (rule held_filter [OF fl(1), where q = "\<lambda>x. \<not> owns_settlement token x"])
            (use op in \<open>auto simp: releaseSettlementIdempotency_def owns_settlement_def is_slot_def\<close>)
        with Inl ran(2) show ?thesis by (auto simp: in_tx_def release_on_error_def)
      next
        case (Inr z)
        with ran(2) have "settle_tx env refundId actorId dto at bound token ?st = Inr (fst z, st')"
          by (cases z) (auto simp: in_tx_def release_on_error_def)
        then obtain r db1 cash db2 where
          p: "persistSettlement (dke_uuid env 1) (settle_input_of refundId actorId dto at) (sdk_sales ?st) = Inr (r, db1)"
          and m: "markSettlementIdempotencySucceeded (dke_now env) token (stl_saleId r) (fst z) db1 = Inr db2"
          and st': "st' = ?st\<lparr>sdk_sales := db2, sdk_cash := cash\<rparr>"
          by (rule settleE)
        have "slot_held op key y db1"
          using fl(1) held_same [OF settlement_slots [OF p]] by simp
        from held_mark_settlement [OF this ne m] show ?thesis by (simp add: st')
      qed
    qed
  qed
qed (use assms(1) in simp)

lemma step_held:
  "money_step st st' \<Longrightarrow> slot_held op key y (sdk_sales st) \<Longrightarrow> op \<noteq> OpRefundSettlement \<Longrightarrow>
     slot_held op key y (sdk_sales st')"
proof (induction rule: money_step.induct)
  case (step_save s st now intent db)
  then show ?case by (simp add: held_same [OF save_slots [OF step_save(2)]])
next
  case (step_delete i st db)
  from step_delete(1) have eq: "sls_slots db = map (forget_sale i) (sls_slots (sdk_sales st))"
    by (auto simp: delete_sale_def result_simps split: option.splits)
  have "slot_held op key y db"
    by (rule held_map [OF step_delete(2) eq]) (simp_all add: forget_sale_def is_slot_def)
  then show ?case by simp
qed (auto intro: charge_held payment_held cancel_held settle_held)

interpretation kept_slot: step_invariant money_step
  "\<lambda>st. op \<noteq> OpRefundSettlement \<and> slot_held op key y (sdk_sales st)" for op key y
  by unfold_locales (blast dest: step_held)

end
