(* ===== verification/SaleSlotLaws.thy ===== *)
theory SaleSlotLaws
  imports SaleRunLaws CashTenantLaws
begin

section \<open>Answers from a slot\<close>

text \<open>
  What a taken slot answers, the slot a charge leaves, and what a command that throws
  leaves behind.
\<close>

lemma slot_held_acquire:
  assumes "slot_held op key y db"
  shows "acquireIdempotency now token op saleId key h db =
    (if ids_requestHash y \<noteq> h then SlotConflict
     else case (ids_status y, ids_response y) of (SlotSucceeded, Some a) \<Rightarrow> SlotReplay a | _ \<Rightarrow> SlotBusy, db)"
  using assms by (auto simp: slot_held_def acquireIdempotency_def resolveIdempotencyOutcome_def
      split: idempotency_status.splits option.splits)

lemma marked_slot:
  assumes "find (is_slot op key) (sls_slots db0) = None" and "is_slot op key new" and "ids_id new = token"
    and "sls_slots db = sls_slots db0 @ [new]"
  shows "slot_held op key (succeed_slot now saleId a new) (markIdempotencySucceeded now token saleId a db)"
proof -
  let ?f = "\<lambda>x. if ids_id x = token then succeed_slot now saleId a x else x"
  have "find (is_slot op key) (map ?f (sls_slots db)) = map_option ?f (find (is_slot op key) (sls_slots db))"
    by (rule find_map_keep) (simp add: is_slot_def succeed_slot_def)
  also have "\<dots> = Some (succeed_slot now saleId a new)" using assms by (simp add: find_append)
  finally show ?thesis by (simp add: slot_held_def markIdempotencySucceeded_def)
qed

lemma charge_from_slot:
  assumes "normalizeChargeRequestPayments dto = Inr entries"
    and "slot_held OpSaleCharge key y (sdk_sales st)"
    and "charge_digest env saleId actorId dto entries = ids_requestHash y"
    and "ids_status y = SlotSucceeded" and "ids_response y = Some a"
  shows "chargeDraft env saleId actorId dto key st = (Inr a, st)"
proof -
  have "acquireIdempotency (dke_now env) (dke_uuid env 0) OpSaleCharge (Some saleId) key
      (charge_digest env saleId actorId dto entries) (sdk_sales st) = (SlotReplay a, sdk_sales st)"
    using slot_held_acquire [OF assms(2)] assms(3-5) by simp
  then have "executeChargeDraft env saleId actorId dto key st = (Inr a, st)"
    by (simp add: executeChargeDraft_def assms(1) Let_def run_slot_def flip: charge_digest_def)
  then show ?thesis by (simp add: chargeDraft_def ambient_def)
qed

lemma charge_taken:
  assumes "chargeDraft env saleId actorId dto key st = (Inr a, st')"
    and "normalizeChargeRequestPayments dto = Inr entries"
  obtains (replayed) x where "st' = st" "find (is_slot OpSaleCharge key) (sls_slots (sdk_sales st)) = Some x"
      "resolveIdempotencyOutcome (charge_digest env saleId actorId dto entries) x = SlotReplay a"
  | (charged) db where
      "acquireIdempotency (dke_now env) (dke_uuid env 0) OpSaleCharge (Some saleId) key
         (charge_digest env saleId actorId dto entries) (sdk_sales st) = (SlotAcquired (dke_uuid env 0), db)"
      "charge_tx env saleId actorId dto entries (dke_uuid env 0) (st\<lparr>sdk_sales := db\<rparr>) = Inr (a, st')"
proof -
  obtain outcome db where acq: "acquireIdempotency (dke_now env) (dke_uuid env 0) OpSaleCharge (Some saleId) key
      (charge_digest env saleId actorId dto entries) (sdk_sales st) = (outcome, db)" by fastforce
  have "run_slot outcome (\<lambda>token. in_tx (charge_tx env saleId actorId dto entries token (st\<lparr>sdk_sales := db\<rparr>))
      (st\<lparr>sdk_sales := db\<rparr>)) (st\<lparr>sdk_sales := db\<rparr>) = (Inr a, st')"
  proof -
    have "executeChargeDraft env saleId actorId dto key st = (Inr a, st')"
      using assms(1) by (auto simp: chargeDraft_def ambient_def split: if_splits prod.splits sum.splits)
    with acq show ?thesis by (simp add: executeChargeDraft_def assms(2) Let_def flip: charge_digest_def)
  qed
  with acq show thesis
  proof (cases rule: slot_run)
    case answered
    then have "outcome = SlotReplay a" by (cases outcome) (auto simp: run_slot_def)
    with acq obtain x where x: "find (is_slot OpSaleCharge key) (sls_slots (sdk_sales st)) = Some x"
        "resolveIdempotencyOutcome (charge_digest env saleId actorId dto entries) x = SlotReplay a"
      by (auto simp: acquireIdempotency_def split: option.splits if_splits)
    from replayed [OF answered(1) this] show thesis .
  next
    case (succeeded x)
    with acq show thesis by (intro charged) simp_all
  qed simp
qed

lemma charge_answered:
  assumes "chargeDraft env saleId actorId dto key st = (Inr a, st')"
    and "normalizeChargeRequestPayments dto = Inr entries"
  shows "\<exists>y. slot_held OpSaleCharge key y (sdk_sales st') \<and>
    ids_requestHash y = charge_digest env saleId actorId dto entries \<and>
    ids_status y = SlotSucceeded \<and> ids_response y = Some a"
  using assms
proof (cases rule: charge_taken)
  case (replayed x)
  then have "slot_held OpSaleCharge key x (sdk_sales st')" by (simp add: slot_held_def)
  moreover have "ids_requestHash x = charge_digest env saleId actorId dto entries"
      "ids_status x = SlotSucceeded" "ids_response x = Some a"
    using replayed(3) by (auto simp: resolveIdempotencyOutcome_def split: if_splits idempotency_status.splits option.splits)
  ultimately show ?thesis by blast
next
  case (charged db)
  note new = acquired [OF charged(1)]
  from charged(2) obtain db1 where db1: "sls_slots db1 = sls_slots db"
    "sdk_sales st' = markIdempotencySucceeded (dke_now env) (dke_uuid env 0) saleId a db1"
    by (rule charge_tx_slots) simp
  let ?new = "\<lparr>ids_id = dke_uuid env 0, ids_operation = OpSaleCharge, ids_key = key,
    ids_requestHash = charge_digest env saleId actorId dto entries, ids_status = SlotInFlight,
    ids_response = None, ids_saleId = Some saleId, ids_updatedAt = dke_now env\<rparr>"
  have "slot_held OpSaleCharge key (succeed_slot (dke_now env) saleId a ?new) (sdk_sales st')"
    unfolding db1(2) by (rule marked_slot [OF new(2)]) (simp_all add: is_slot_def db1(1) new(3))
  then show ?thesis by (intro exI conjI) (assumption, simp_all add: succeed_slot_def)
qed

lemma new_slot_held:
  assumes "acquireIdempotency now token op saleId key h db = (SlotAcquired token, db')"
  obtains y where "slot_held op key y db'" and "ids_status y = SlotInFlight" and "ids_requestHash y = h"
proof -
  note new = acquired [OF assms]
  let ?new = "\<lparr>ids_id = token, ids_operation = op, ids_key = key, ids_requestHash = h,
    ids_status = SlotInFlight, ids_response = None, ids_saleId = saleId, ids_updatedAt = now\<rparr>"
  have "slot_held op key ?new db'"
    using new(2) by (simp add: slot_held_def new(3) find_append is_slot_def)
  then show thesis by (rule that) simp_all
qed

lemma cancel_from_slot:
  assumes "slot_held OpSaleCancel (cancellation_key saleId) y (sdk_sales st)" and "ids_status y = SlotInFlight"
  shows "cancelSale env saleId actorId reason fromBot st \<in>
    {(Inl (rule_violation ''IDEMPOTENCY_KEY_IN_FLIGHT''), st), (Inl (rule_violation ''IDEMPOTENCY_KEY_CONFLICT''), st)}"
  using slot_held_acquire [OF assms(1)] assms(2)
  by (simp add: cancelSale_def run_slot_def Let_def)

subsection \<open>The till behind a session\<close>

text \<open>What the ledger of a session adds up to, over all methods.\<close>

definition session_cents :: "ident \<Rightarrow> cash_tenant \<Rightarrow> cents" where
  "session_cents sid cash =
     (case find_session cash sid of None \<Rightarrow> 0
      | Some s \<Rightarrow> \<Sum>r\<leftarrow>dsk_ledger (tss_desk s). js_trunc (cmv_deltaCents (ldr_movement r)))"

lemma find_update_same: "find p xs = Some x \<Longrightarrow> p (f x) \<Longrightarrow> find p (update_first p f xs) = Some (f x)"
  by (induction xs) (auto split: if_splits)

definition deltas :: "cash_movement list \<Rightarrow> cents" where
  "deltas ms = (\<Sum>m\<leftarrow>ms. js_trunc (cmv_deltaCents m))"

lemma tender_delta:
  "ledger_tender sid p = Inr m \<Longrightarrow> deltas (List.map_filter id [m]) = js_trunc (ldp_amountCents p)"
  by (auto simp: ledger_tender_def result_simps Let_def deltas_def List.map_filter_def split: if_splits)

lemma tenders_delta:
  assumes "mapM_list (ledger_tender sid) ps = Inr ms"
  shows "deltas (List.map_filter id ms) = (\<Sum>p\<leftarrow>ps. js_trunc (ldp_amountCents p))"
proof -
  have cons: "deltas (List.map_filter id (m # ms)) =
      deltas (List.map_filter id [m]) + deltas (List.map_filter id ms)" for m ms
    by (simp add: deltas_def List.map_filter_def)
  from assms have "list_all2 (\<lambda>p m. ledger_tender sid p = Inr m) ps ms" by (simp add: mapM_list_Inr)
  then show ?thesis
  proof (induction rule: list_all2_induct)
    case Nil
    show ?case by (simp add: deltas_def List.map_filter_def)
  next
    case (Cons p ps m ms)
    show ?case unfolding cons [of m ms] tender_delta [OF Cons(1)] Cons(3) by simp
  qed
qed

lemma change_delta:
  "planChangeMovement sid saleId (JsInt n) channel = Inr c \<Longrightarrow> deltas (List.map_filter id [c]) = - n"
  by (auto simp: planChangeMovement_def result_simps Let_def deltas_def List.map_filter_def
      split: if_splits)

lemma ledger_adds:
  assumes "ledgerPayments env sid saleId ps (JsInt change) cash = Inr cash'"
  shows "session_cents sid cash' = session_cents sid cash + (\<Sum>p\<leftarrow>ps. js_trunc (ldp_amountCents p)) - change"
proof -
  let ?p = "\<lambda>s. csn_id (session_of s) = sid"
  from assms obtain s d where s: "find_session cash sid = Some s" and
    d: "recordPayments (cev_actor env) (elsewhere_sources cash sid) saleId ps (JsInt change) (cev_now env)
      (tss_desk s) = Inr d" and
    cash': "cash' = cash\<lparr>ctn_sessions := update_first ?p (\<lambda>_. s\<lparr>tss_desk := d\<rparr>) (ctn_sessions cash)\<rparr>"
    by (auto simp: ledgerPayments_def on_session_def result_simps split: option.splits)
  from d obtain planned where
    planned: "planLedgerPayments (csn_id (dsk_session (tss_desk s))) saleId ps (JsInt change) = Inr planned"
    and d': "dsk_session d = dsk_session (tss_desk s)"
      "(\<Sum>r\<leftarrow>dsk_ledger d. js_trunc (cmv_deltaCents (ldr_movement r))) =
       (\<Sum>r\<leftarrow>dsk_ledger (tss_desk s). js_trunc (cmv_deltaCents (ldr_movement r))) + deltas planned"
    by (auto simp: recordPayments_def persistLedgerMovements_def result_simps deltas_def comp_def split: if_splits)
  from planned obtain ms c where "mapM_list (ledger_tender (csn_id (dsk_session (tss_desk s)))) ps = Inr ms"
    and c: "planChangeMovement (csn_id (dsk_session (tss_desk s))) saleId (JsInt change) POOLED_CASH_CHANNEL = Inr c"
    and "planned = List.map_filter id (ms @ [c])"
    by (auto simp: planLedgerPayments_def result_simps)
  then have "deltas planned = (\<Sum>p\<leftarrow>ps. js_trunc (ldp_amountCents p)) - change"
    using tenders_delta change_delta [OF c] by (simp add: map_filter_append deltas_def)
  moreover have "?p s" using find_SomeD [OF s [unfolded find_session_def]] by simp
  then have "find_session cash' sid = Some (s\<lparr>tss_desk := d\<rparr>)"
    using s d'(1) find_update_same [of ?p "ctn_sessions cash" s "\<lambda>_. s\<lparr>tss_desk := d\<rparr>"]
    by (simp add: find_session_def cash')
  ultimately show ?thesis using s d'(2) by (simp add: session_cents_def)
qed

lemma booked_payments:
  assumes "book_payments env at (Some sid) saleId rows change cash = Inr cash'"
  shows "session_cents sid cash' = session_cents sid cash + (\<Sum>r\<leftarrow>rows. spy_amountCents r) - change"
proof -
  from assms obtain ps where ps: "mapM_list ledger_payment_of rows = Inr ps"
    and l: "ledgerPayments ((dke_cash env)\<lparr>cev_now := at\<rparr>) sid saleId ps (JsInt change) cash = Inr cash'"
    by (auto simp: book_payments_def result_simps)
  from ps have "list_all2 (\<lambda>r p. ledger_payment_of r = Inr p) rows ps" by (simp add: mapM_list_Inr)
  then have "(\<Sum>p\<leftarrow>ps. js_trunc (ldp_amountCents p)) = (\<Sum>r\<leftarrow>rows. spy_amountCents r)"
    by (induction rule: list_all2_induct) (auto simp: ledger_payment_of_def result_simps)
  with ledger_adds [OF l] show ?thesis by simp
qed

text \<open>A bound charge books what it was tendered and gives the change back.\<close>

lemma charge_tx_till:
  assumes "charge_tx env saleId actorId dto entries token st = Inr (ChargeAnswer c, st')"
    and "cdt_cashSessionId dto = Some sid"
  shows "session_cents sid (sdk_cash st') = session_cents sid (sdk_cash st) + cha_paidCents c"
  using assms(1)
proof (cases rule: chargeE)
  case (1 s0 s1 s2 s3 demands settled payments usage stock folio db1 s4 rows db2 cash)
  let ?c = "charge_confirmation env actorId s4 payments settled folio"
  have c: "cnf_shipping ?c \<noteq> None" "cnf_payments ?c = payments" "cnf_paidCents ?c = cst_paidCents settled"
    by (simp_all add: charge_confirmation_def Let_def)
  from 1(12) c(1) obtain rows_eq: "rows = payment_rows (\<lambda>i. dke_uuid env (i + 1)) (cnf_saleId ?c)
      (Some (cnf_userId ?c)) (cnf_payments ?c)" by (rule confirmationE)
  have "(\<Sum>r\<leftarrow>rows. spy_amountCents r) = tenderedCents entries"
    unfolding rows_eq payment_rows_sum c(2) by (rule canonical_charge_sum(1) [OF 1(6,7)])
  moreover have "tenderedCents entries = cst_paidCents settled + cst_changeDueCents settled"
    using 1(6) by (rule settle_chargeE)
  ultimately have "session_cents sid cash = session_cents sid (sdk_cash st) + cst_paidCents settled"
    using booked_payments [OF 1(13) [unfolded assms(2)]] by simp
  with 1(14,15) c(3) show ?thesis by (simp add: charge_answer_of_def)
qed

text \<open>What a failed command leaves.\<close>

lemma left_slot:
  assumes "acquireIdempotency now token op (Some saleId) key h (sdk_sales st) = (SlotAcquired tok, db)"
  shows "find (is_slot op key) (sls_slots (sdk_sales st)) = None"
    and "\<exists>x. is_slot op key x \<and> ids_status x = SlotInFlight \<and> ids_response x = None \<and>
      ids_saleId x = Some saleId \<and>
      st\<lparr>sdk_sales := db\<rparr> = st\<lparr>sdk_sales := (sdk_sales st)\<lparr>sls_slots := sls_slots (sdk_sales st) @ [x]\<rparr>\<rparr>"
proof -
  show "find (is_slot op key) (sls_slots (sdk_sales st)) = None" by (rule acquired(2) [OF assms])
  let ?x = "\<lparr>ids_id = token, ids_operation = op, ids_key = key, ids_requestHash = h, ids_status = SlotInFlight,
        ids_response = None, ids_saleId = Some saleId, ids_updatedAt = now\<rparr>"
  show "\<exists>x. is_slot op key x \<and> ids_status x = SlotInFlight \<and> ids_response x = None \<and>
      ids_saleId x = Some saleId \<and>
      st\<lparr>sdk_sales := db\<rparr> = st\<lparr>sdk_sales := (sdk_sales st)\<lparr>sls_slots := sls_slots (sdk_sales st) @ [x]\<rparr>\<rparr>"
    by (rule exI [of _ ?x]) (simp add: is_slot_def acquired(3) [OF assms])
qed

end
