(* ===== verification/SaleShop.thy ===== *)
theory SaleShop
  imports SaleSlotLaws PriceCatalogProps SalesPricingProps StockJournalProps CashProps
begin

section \<open>A sample shop\<close>

text \<open>
  One product with its prices and stock, one till, and a sale of three units: as a
  draft, and as it is once charged.  The properties of the money commands are applied
  to it.
\<close>

definition shop_address :: shipping_address where
  "shop_address = \<lparr>sad_street = ''Main'', sad_exteriorNumber = None, sad_interiorNumber = None,
     sad_zipCode = None, sad_neighborhood = None, sad_municipality = None, sad_city = None,
     sad_state = None, sad_visualReferences = None, sad_carrierPhone = None, sad_label = None,
     sad_latitude = None, sad_longitude = None\<rparr>"

text \<open>A digest that keeps what distinguishes the requests of the samples.\<close>

fun shop_hash :: "sale_request \<Rightarrow> string" where
  "shop_hash (ChargeRequest saleId actorId ps d v c) = ''h'' @ concat (map payment_sort_key ps)"
| "shop_hash (PaymentRequest saleId actorId ps c) = ''p'' @ concat (map payment_sort_key ps)"
| "shop_hash (CancelRequest saleId actorId reason) = ''c'' @ actorId"
| "shop_hash (SettleRequest refundId actorId n m r t c) = ''r'' @ show_int n"

definition shop_env :: "nat \<Rightarrow> desk_env" where
  "shop_env t =
     \<lparr>dke_now = int t, dke_uuid = (\<lambda>i. replicate (t + i) (CHR ''u'')), dke_hash = shop_hash,
      dke_collate = id, dke_in_fifteen_days = (\<lambda>t. t + 1296000000), dke_catalog = sample_catalog,
      dke_weekday = (\<lambda>_. Monday), dke_promotions = id,
      dke_resolver = (\<lambda>i m. Inr (''Card'', None)),
      dke_address = (\<lambda>_. Some (''c1'', shop_address)), dke_payment_order = id,
      dke_user_name = (\<lambda>_. None), dke_journal = shelf_env t,
      dke_cash = \<lparr>cev_actor = cashier, cev_coarse = (\<lambda>_ _. True), cev_recipientActive = True,
        cev_recipientMember = True, cev_uuid = ''u'', cev_folio = ''F'', cev_now = int t\<rparr>\<rparr>"

definition shop_row :: sale_row where
  "shop_row = (new_row 1 sample_sale)
     \<lparr>slr_customerId := Some ''c1'', slr_shippingAddressId := Some ''a1'',
      slr_globalPriceListId := Some ''g1'',
      slr_items := [toWriteRow ''s1'' (tiered_item 3
        \<lparr>si_unitPriceCents := 900, si_priceSource := SourcePriceList\<rparr>)]\<rparr>"

definition shop_desk :: sales_desk where
  "shop_desk =
     \<lparr>sdk_sales = \<lparr>sls_sales = [shop_row], sls_payments = [], sls_refunds = [], sls_settlements = [],
        sls_slots = [], sls_folios = [], sls_outbox = []\<rparr>,
      sdk_usage = \<lparr>ust_promotions = [], ust_usages = [], ust_near = []\<rparr>,
      sdk_stock = \<lparr>sst_db = shelf_db, sst_alerts = \<lparr>als_products = [(''p'', (7, True))],
        als_variants = [], als_rows = [], als_outbox = []\<rparr>\<rparr>,
      sdk_cash = \<lparr>ctn_registers = [],
        ctn_sessions = [\<lparr>tss_desk = fresh_desk, tss_openingHandoverId = None\<rparr>], ctn_commands = []\<rparr>\<rparr>"

definition cash_dto :: "cents \<Rightarrow> charge_dto" where
  "cash_dto n = \<lparr>cdt_method = Some ''cash'', cdt_amountCents = Some n, cdt_reference = None,
     cdt_paymentMethodId = None, cdt_payments = None, cdt_dueDate = None, cdt_delivery = Some True,
     cdt_cashSessionId = Some ''s1''\<rparr>"

lemma shop_env_ok:
  "sls_refunds (sdk_sales st) = [] \<Longrightarrow> sls_slots (sdk_sales st) = [] \<Longrightarrow> env_ok (shop_env t) st"
  by (auto simp: env_ok_def shop_env_def inj_def)

lemma shop_books: "books_ok (sdk_sales shop_desk)"
  by (simp add: books_ok_def shop_desk_def row_balanced_def shop_row_def new_row_def)

text \<open>The same sale on the books: charged, and paid in two parts.\<close>

definition part_payment :: "ident \<Rightarrow> tender \<Rightarrow> cents \<Rightarrow> sale_payment" where
  "part_payment i m n = \<lparr>spy_id = i, spy_saleId = ''s1'', spy_method = m, spy_amountCents = n,
     spy_reference = None, spy_metadata = None, spy_userId = Some ''u1''\<rparr>"

definition sold_row :: sale_row where
  "sold_row = shop_row
     \<lparr>slr_status := SaleConfirmed, slr_deliveryStatus := DeliveryPending, slr_subtotalCents := 2700,
      slr_totalCents := 2700, slr_paidCents := 1000, slr_debtCents := 1700,
      slr_paymentStatus := Some PaymentPartial, slr_confirmedAt := Some 5,
      slr_folio := Some ''A-197001-000001''\<rparr>"

definition sold_books :: sales_db where
  "sold_books = \<lparr>sls_sales = [sold_row], sls_payments = [part_payment ''p1'' TenderTransfer 700,
      part_payment ''p2'' TenderCash 300], sls_refunds = [], sls_settlements = [], sls_slots = [],
      sls_folios = [(''197001'', 1)], sls_outbox = []\<rparr>"

lemma sold_books_ok: "books_ok sold_books"
  by (simp add: books_ok_def sold_books_def row_balanced_def charged_row_def payment_status_of_def
      paid_from_ledger_def payments_of_def payment_booked_def has_row_def part_payment_def sold_row_def
      shop_row_def new_row_def sample_sale_simps)

definition sold_desk :: sales_desk where
  "sold_desk = shop_desk\<lparr>sdk_sales := sold_books\<rparr>"

end
