(* ===== verification/SaleDeskProps.thy ===== *)
theory SaleDeskProps
  imports SaleShop
begin

section \<open>What the money commands promise\<close>

text \<open>
  Over every order of charges, collections, cancellations, settlements, deletions and
  saves that leave a sale's status as it is, the books balance; a repeated request is answered from its slot; a command that fails
  leaves nothing but its slot behind, and what that costs a cancellation.
\<close>

subsection \<open>A charge at the till\<close>

text \<open>The sale of three units at 9.00, charged with 30.00 in cash at the till.\<close>

definition charged_desk :: sales_desk where
  "charged_desk = snd (chargeDraft (shop_env 5) ''s1'' ''u1'' (cash_dto 3000) ''k'' shop_desk)"

lemma shop_charged:
  "\<exists>a. chargeDraft (shop_env 5) ''s1'' ''u1'' (cash_dto 3000) ''k'' shop_desk =
     (Inr (ChargeAnswer a), charged_desk) \<and> cha_paidCents a = 2700 \<and> charged_desk \<noteq> shop_desk"
proof -
  have "(case chargeDraft (shop_env 5) ''s1'' ''u1'' (cash_dto 3000) ''k'' shop_desk of
     (Inr (ChargeAnswer a), st) \<Rightarrow> cha_paidCents a = 2700 \<and> sls_slots (sdk_sales st) \<noteq> [] | _ \<Rightarrow> False)"
    by code_simp
  moreover have "sls_slots (sdk_sales shop_desk) = []" by (simp add: shop_desk_def)
  ultimately show ?thesis
    by (cases "chargeDraft (shop_env 5) ''s1'' ''u1'' (cash_dto 3000) ''k'' shop_desk")
      (auto simp: charged_desk_def split: sum.splits sale_answer.splits)
qed

subsection \<open>Properties\<close>

text \<open>
  Property C1: money is conserved.  Along every order of charges, collections,
  cancellations, settlements of refunds, deletions and saves that leave a sale's status
  as the row has it, whether they succeed or fail, the books stay balanced: what a charged
  sale says it was paid is what its payments sum to, up to its total, and its debt is
  the rest; a cancelled sale's refunds sum to exactly what was paid; a refund is
  settled by its settlements and never beyond its amount.  The code does not check the
  status a save writes: Property C10 has the save of a stale copy that is excluded here.
\<close>

theorem money_conserved:
  assumes "books_ok (sdk_sales st)" and "money_step\<^sup>*\<^sup>* st st'"
  shows "books_ok (sdk_sales st')"
  using assms(2,1) by (rule books.inv_reach)

theorem money_conserved_witness: "books_ok (sdk_sales charged_desk)"
proof -
  obtain a where run: "chargeDraft (shop_env 5) ''s1'' ''u1'' (cash_dto 3000) ''k'' shop_desk =
    (Inr (ChargeAnswer a), charged_desk)"
    using shop_charged by blast
  have "amounts_ok (cash_dto 3000)" by (simp add: amounts_ok_def cash_dto_def)
  with run have "money_step shop_desk charged_desk"
    by (intro step_charge [of "shop_env 5"] shop_env_ok) (simp_all add: shop_desk_def)
  with money_conserved [OF shop_books] show ?thesis by blast
qed

text \<open>
  Property C22: a cancellation can always be paid back.  On balanced books the refunds
  of a confirmed sale are built without an audit mismatch, in whatever order its
  payments are read: they sum to what the cancellation owes, and each returns a
  positive part of one payment by that payment's own method.
\<close>

theorem cancellation_refunds_payments:
  assumes "books_ok db" and "\<forall>ps. mset (dke_payment_order env ps) = mset ps"
    and "findByIdForUpdate saleId db = Some s"
    and "Sale_cancel now reason actor s = Inr (canceled, refunded)"
  shows "\<exists>rs. cancellation_refunds env saleId refunded reason db = Inr rs \<and>
    (\<Sum>d\<leftarrow>rs. rfd_amountCents d) = refunded \<and> (\<forall>d\<in>set rs. refund_of reason (payments_of saleId db) d)"
proof (cases "refunded = 0")
  case True
  then show ?thesis by (simp add: cancellation_refunds_def)
next
  case False
  from assms(3) obtain r where r: "find_sale saleId db = Some r" "r \<in> set (sls_sales db)" "slr_id r = saleId"
    "sa_status s = slr_status r" "sa_paidCents s = slr_paidCents r" "sa_paymentStatus s = slr_paymentStatus r"
    by (rule locked_fields) metis
  have due: "refunded = refund_due r" by (rule cancel_refunds_due [OF assms(4) r(5,6)])
  have confirmed: "slr_status r \<noteq> SaleDraft"
    using assms(4) r(4) by (auto simp: Sale_cancel_def split: if_splits)
  let ?ps = "dke_payment_order env (payments_of saleId db)"
  have pool: "refund_pool ?ps = refund_pool (payments_of saleId db)" using assms(2) by (intro refund_pool_mset) simp
  have "0 \<le> refunded" "refunded \<le> refund_pool ?ps"
    using refund_due_nonneg [OF assms(1) r(2) confirmed] refund_pool_ge [of "payments_of saleId db"]
    unfolding due pool by (simp_all add: r(3) paid_from_ledger_def)
  then obtain rs where rs: "buildCancellationRefunds ?ps refunded reason = Inr rs"
    "(\<Sum>d\<leftarrow>rs. rfd_amountCents d) = refunded" "\<forall>d\<in>set rs. refund_of reason ?ps d"
    by (rule refunds_cover)
  have "set ?ps = set (payments_of saleId db)" using assms(2) by (metis set_mset_mset)
  with rs(3) have "\<forall>d\<in>set rs. refund_of reason (payments_of saleId db) d" by (simp add: refund_of_def)
  with rs(1,2) False r(1) confirmed show ?thesis
    by (simp add: cancellation_refunds_def refundable_payments_def)
qed

theorem cancellation_refunds_payments_witness:
  "\<exists>rs. cancellation_refunds (shop_env 9) ''s1'' 1000 OrderError sold_books = Inr rs \<and>
     (\<Sum>d\<leftarrow>rs. rfd_amountCents d) = 1000"
proof -
  let ?s = "Sale_fromPersistence (locked_props sold_row)"
  have s: "findByIdForUpdate ''s1'' sold_books = Some ?s"
    by (simp add: findByIdForUpdate_def find_sale_def is_sale_def sold_books_def sold_row_def shop_row_def
        new_row_def sample_sale_simps sample_sale_def)
  have "(case Sale_cancel 9 OrderError \<lparr>cna_actorId = ''u2'', cna_canceledAt = None\<rparr> ?s of
      Inr (c, n) \<Rightarrow> n = 1000 | Inl e \<Rightarrow> False)"
    by (simp add: Sale_cancel_def refunds_nothing_def Let_def Sale_fromPersistence_def locked_props_def
        loaded_props_def sold_row_def)
  then obtain c where c: "Sale_cancel 9 OrderError \<lparr>cna_actorId = ''u2'', cna_canceledAt = None\<rparr> ?s = Inr (c, 1000)"
    by (cases "Sale_cancel 9 OrderError \<lparr>cna_actorId = ''u2'', cna_canceledAt = None\<rparr> ?s") auto
  have "\<forall>ps. mset (dke_payment_order (shop_env 9) ps) = mset ps" by (simp add: shop_env_def)
  from cancellation_refunds_payments [OF sold_books_ok this s c] show ?thesis by blast
qed

text \<open>
  Property C3: a charge answers once for ever.  After a charge that was accepted, the
  same request under the same key is answered with the same result and changes
  nothing, whatever charges, collections, cancellations, settlements, saves and
  deletions came in between; no sale is charged twice by a retry.
\<close>

theorem charge_replays:
  assumes "env_ok env st" and "chargeDraft env saleId actorId dto key st = (Inr a, st1)"
    and "money_step\<^sup>*\<^sup>* st1 st2" and "dke_hash env' = dke_hash env" and "dke_collate env' = dke_collate env"
  shows "chargeDraft env' saleId actorId dto key st2 = (Inr a, st2)"
proof -
  obtain entries where entries: "normalizeChargeRequestPayments dto = Inr entries"
    using assms(2) by (cases "normalizeChargeRequestPayments dto")
      (auto simp: chargeDraft_def executeChargeDraft_def ambient_def split: if_splits)
  let ?h = "charge_digest env saleId actorId dto entries"
  obtain y where y: "slot_held OpSaleCharge key y (sdk_sales st1)" "ids_requestHash y = ?h"
      "ids_status y = SlotSucceeded" "ids_response y = Some a"
    using charge_answered [OF assms(2) entries] by blast
  have "slot_held OpSaleCharge key y (sdk_sales st2)"
    using kept_slot.inv_reach [OF assms(3), of OpSaleCharge key y] y(1) by simp
  moreover have "charge_digest env' saleId actorId dto entries = ?h"
    using assms(4,5) by (simp add: charge_digest_def)
  ultimately show ?thesis using y(2-4) entries by (auto intro: charge_from_slot)
qed

theorem charge_replays_witness:
  "\<exists>a. cha_paidCents a = 2700 \<and>
     chargeDraft (shop_env 9) ''s1'' ''u1'' (cash_dto 3000) ''k'' charged_desk = (Inr (ChargeAnswer a), charged_desk)"
proof -
  obtain a where run: "chargeDraft (shop_env 5) ''s1'' ''u1'' (cash_dto 3000) ''k'' shop_desk =
      (Inr (ChargeAnswer a), charged_desk)" "cha_paidCents a = 2700"
    using shop_charged by blast
  have "env_ok (shop_env 5) shop_desk" by (rule shop_env_ok) (simp_all add: shop_desk_def)
  from charge_replays [OF this run(1) rtranclp.rtrancl_refl, of "shop_env 9"] run(2) show ?thesis
    by (auto simp: shop_env_def)
qed

text \<open>A cancellation that comes too early: the sale is still a draft.\<close>

definition refused_desk :: sales_desk where
  "refused_desk = snd (cancelSale (shop_env 4) ''s1'' ''u1'' OrderError False shop_desk)"

lemma shop_refused:
  "cancelSale (shop_env 4) ''s1'' ''u1'' OrderError False shop_desk =
     (Inl (rule_violation ''SALE_NOT_CANCELLABLE''), refused_desk)"
  "refused_desk \<noteq> shop_desk"
proof -
  have "(case cancelSale (shop_env 4) ''s1'' ''u1'' OrderError False shop_desk of
      (Inl e, st) \<Rightarrow> e = rule_violation ''SALE_NOT_CANCELLABLE'' \<and> sls_slots (sdk_sales st) \<noteq> []
    | _ \<Rightarrow> False)" by code_simp
  moreover have "sls_slots (sdk_sales shop_desk) = []" by (simp add: shop_desk_def)
  ultimately show "cancelSale (shop_env 4) ''s1'' ''u1'' OrderError False shop_desk =
     (Inl (rule_violation ''SALE_NOT_CANCELLABLE''), refused_desk)" "refused_desk \<noteq> shop_desk"
    by (auto simp: refused_desk_def split: prod.splits sum.splits)
qed

text \<open>
  Property C14: a command that fails changes nothing but its slot.  Whatever makes a
  charge, a collection or a cancellation fail, at whatever point of its transaction, the
  sales, the payments, the folios, the promotion counters, the stock, the tills, the
  outbox and the slots of every other command are as they were.  Either nothing at all has
  changed, or one slot is new: of this operation and key, for this sale, still in flight
  and without an answer, where the operation and key had none.  A charge or a collection
  bound to a cash session does not even leave that one, so it can be tried again.
\<close>

theorem failed_command_changes_nothing:
  assumes "chargeDraft env saleId actorId dto key st = (Inl e, st') \<and> op = OpSaleCharge \<and> k = key \<or>
    addPayment env auth saleId actorId dto key st = (Inl e, st') \<and> op = OpSalePayment \<and> k = key \<or>
    cancelSale env saleId actorId reason fromBot st = (Inl e, st') \<and>
      op = OpSaleCancel \<and> k = cancellation_key saleId"
  shows "st' = st \<or>
    (op = OpSaleCancel \<or> cdt_cashSessionId dto = None) \<and>
    find (is_slot op k) (sls_slots (sdk_sales st)) = None \<and>
    (\<exists>x. is_slot op k x \<and> ids_status x = SlotInFlight \<and> ids_response x = None \<and> ids_saleId x = Some saleId \<and>
      st' = st\<lparr>sdk_sales := (sdk_sales st)\<lparr>sls_slots := sls_slots (sdk_sales st) @ [x]\<rparr>\<rparr>)"
  using assms
proof (elim disjE conjE)
  assume run: "chargeDraft env saleId actorId dto key st = (Inl e, st')" and op: "op = OpSaleCharge" "k = key"
  from run show ?thesis
  proof (cases rule: charge_run)
    case (failed entries db e')
    with left_slot [OF failed(2)] show ?thesis unfolding op by blast
  qed simp_all
next
  assume run: "addPayment env auth saleId actorId dto key st = (Inl e, st')" and op: "op = OpSalePayment" "k = key"
  from run show ?thesis
  proof (cases rule: payment_run)
    case (failed entries db e')
    with left_slot [OF failed(2)] show ?thesis unfolding op by blast
  qed simp_all
next
  assume run: "cancelSale env saleId actorId reason fromBot st = (Inl e, st')"
    and op: "op = OpSaleCancel" "k = cancellation_key saleId"
  from run show ?thesis
  proof (cases rule: cancel_run)
    case (failed db e')
    with left_slot [OF failed(1)] show ?thesis unfolding op by blast
  qed simp_all
qed

theorem failed_command_changes_nothing_witness:
  "\<exists>x. is_slot OpSaleCancel ''sale:cancel:s1'' x \<and> ids_status x = SlotInFlight \<and> ids_response x = None \<and>
     ids_saleId x = Some ''s1'' \<and>
     refused_desk = shop_desk\<lparr>sdk_sales := (sdk_sales shop_desk)\<lparr>sls_slots := [x]\<rparr>\<rparr>"
proof -
  have "refused_desk \<noteq> shop_desk" by (rule shop_refused)
  moreover have "sls_slots (sdk_sales shop_desk) = []" by (simp add: shop_desk_def)
  moreover have "cancellation_key ''s1'' = ''sale:cancel:s1''" by (simp add: cancellation_key_def)
  ultimately show ?thesis
    using failed_command_changes_nothing [where e = "rule_violation ''SALE_NOT_CANCELLABLE''" and op = OpSaleCancel,
      OF disjI2 [OF disjI2 [OF conjI [OF shop_refused(1) conjI [OF refl refl]]]]] by simp
qed

text \<open>
  Property C9: a cancellation that failed once can never be done again.  The key of a
  cancellation is fixed by the sale and the slot of a failed attempt is never given
  back, so after an attempt that failed inside its transaction (say, on a draft) every
  later cancellation of that sale is refused as in flight or as a conflict, whatever
  happened in between, the sale being charged included.
\<close>

theorem failed_cancellation_strands_sale:
  assumes "env_ok env st" and "cancelSale env saleId actorId reason fromBot st = (Inl e, st1)" and "st1 \<noteq> st"
    and "money_step\<^sup>*\<^sup>* st1 st2"
  shows "cancelSale env' saleId actorId' reason' fromBot' st2 \<in>
    {(Inl (rule_violation ''IDEMPOTENCY_KEY_IN_FLIGHT''), st2),
     (Inl (rule_violation ''IDEMPOTENCY_KEY_CONFLICT''), st2)}"
  using assms(2)
proof (cases rule: cancel_run)
  case (failed db e)
  from new_slot_held [OF failed(1)] obtain y where
    y: "slot_held OpSaleCancel (cancellation_key saleId) y db" "ids_status y = SlotInFlight" by blast
  have "slot_held OpSaleCancel (cancellation_key saleId) y (sdk_sales st2)"
    using kept_slot.inv_reach [OF assms(4), of OpSaleCancel "cancellation_key saleId" y] y(1) failed(4) by simp
  from cancel_from_slot [OF this y(2)] show ?thesis .
qed (use assms(3) in simp_all)

theorem failed_cancellation_strands_sale_witness:
  "cancelSale (shop_env 9) ''s1'' ''u1'' OrderError False refused_desk \<in>
    {(Inl (rule_violation ''IDEMPOTENCY_KEY_IN_FLIGHT''), refused_desk),
     (Inl (rule_violation ''IDEMPOTENCY_KEY_CONFLICT''), refused_desk)}"
proof -
  have "env_ok (shop_env 4) shop_desk" by (rule shop_env_ok) (simp_all add: shop_desk_def)
  from failed_cancellation_strands_sale [OF this shop_refused rtranclp.rtrancl_refl] show ?thesis .
qed

text \<open>
  Property C15: a charge that is bound to a cash session raises what the ledger of that
  session adds up to by exactly what the sale was paid: every tender is booked, and the
  change is given back.
\<close>

theorem bound_charge_raises_till:
  assumes "chargeDraft env saleId actorId dto key st = (Inr (ChargeAnswer c), st')" and "st' \<noteq> st"
    and "cdt_cashSessionId dto = Some sid"
  shows "session_cents sid (sdk_cash st') = session_cents sid (sdk_cash st) + cha_paidCents c"
  using assms(1)
proof (cases rule: charge_run)
  case (succeeded entries db x)
  then have "charge_tx env saleId actorId dto entries (dke_uuid env 0) (st\<lparr>sdk_sales := db\<rparr>) =
      Inr (ChargeAnswer c, st')" by simp
  from charge_tx_till [OF this assms(3)] show ?thesis by simp
qed (use assms(2) in simp_all)

theorem bound_charge_raises_till_witness: "session_cents ''s1'' (sdk_cash charged_desk) = 2700"
proof -
  obtain a where run: "chargeDraft (shop_env 5) ''s1'' ''u1'' (cash_dto 3000) ''k'' shop_desk =
      (Inr (ChargeAnswer a), charged_desk)" "cha_paidCents a = 2700" "charged_desk \<noteq> shop_desk"
    using shop_charged by blast
  have "cdt_cashSessionId (cash_dto 3000) = Some ''s1''" by (simp add: cash_dto_def)
  from bound_charge_raises_till [OF run(1,3) this] run(2) show ?thesis
    by (simp add: session_cents_def shop_desk_def find_session_def fresh_desk_def new_desk_def)
qed

end
