(* ===== verification/SaleSaveProps.thy ===== *)
theory SaleSaveProps
  imports SaleShop
begin

section \<open>A save from an old copy\<close>

text \<open>
  \<open>assignSeller\<close> loads a sale, changes it and saves the whole row, outside every
  transaction: a cancellation that commits in between is undone on the sale, and kept
  in the refunds.
\<close>

text \<open>The rows of the items are what a load and a save of the sale write again.\<close>

definition stable_items :: "sale_row \<Rightarrow> bool" where
  "stable_items r \<longleftrightarrow> distinct (map sip_id (slr_items r)) \<and>
     (\<forall>p\<in>set (slr_items r). toWriteRow (slr_id r) (SaleItem_fromPersistence p) = p)"

lemma find_distinct: "distinct (map f xs) \<Longrightarrow> x \<in> set xs \<Longrightarrow> find (\<lambda>y. f y = f x) xs = Some x"
  by (induction xs) (auto simp: image_iff)

lemma stable_itemsD:
  assumes "stable_items r"
  shows "snapshotItemsEqual (map SaleItem_fromPersistence (slr_items r)) (slr_items r) (slr_id r)"
proof -
  have ids: "si_id (SaleItem_fromPersistence p) = sip_id p" for p
    by (simp add: SaleItem_fromPersistence_def item_of_props_def)
  from assms have "\<forall>p\<in>set (slr_items r). find (\<lambda>q. sip_id q = sip_id p) (slr_items r) =
      Some (toWriteRow (slr_id r) (SaleItem_fromPersistence p))"
    by (simp add: stable_items_def find_distinct)
  with assms show ?thesis by (simp add: snapshotItemsEqual_def stable_items_def ids comp_def)
qed

lemma find_put_sale:
  "find_sale i db = Some r0 \<Longrightarrow> slr_id r = i \<Longrightarrow> find_sale i (put_sale r db) = Some r"
  by (auto simp: find_sale_def put_sale_def is_sale_def find_update_same)

text \<open>What a load of a charged sale and a new seller give, saved over its row of now.\<close>

lemma save_over:
  assumes "find_sale i db0 = Some r0" and "slr_status r0 = SaleConfirmed" and "stable_items r0"
    and "load_sale i db0 = Some s" and "assignSeller u s = Inr s'"
    and "find_sale i db = Some r" and "slr_items r = slr_items r0"
  shows "\<exists>db' r'. save_sale now s' db = Inr db' \<and> find_sale i db' = Some r' \<and>
    slr_status r' = SaleConfirmed \<and> slr_canceledAt r' = slr_canceledAt r \<and> sls_refunds db' = sls_refunds db"
proof -
  have ids: "slr_id r0 = i" "slr_id r = i" using find_sale_SomeD assms(1,6) by blast+
  from assms(1,2,4,5) have s': "sa_id s' = i" "sa_status s' = SaleConfirmed"
      "sa_items s' = map SaleItem_fromPersistence (slr_items r0)" "sa_createdAt s' \<noteq> None"
      "sa_dueDate s' = map_option ValidDate (slr_dueDate r0)"
      "sa_confirmedAt s' = map_option ValidDate (slr_confirmedAt r0)"
    by (auto simp: load_sale_def assignSeller_def ensureNotCanceled_def Sale_fromPersistence_def loaded_props_def
        ids result_simps)
  have stored: "stored_date (map_option ValidDate d) = Inr d" for d by (cases d) simp_all
  have eq: "snapshotItemsEqual (sa_items s') (slr_items r) i"
    using stable_itemsD [OF assms(3)] ids by (simp add: s'(3) assms(7))
  let ?w = "write_columns now (slr_status r = SaleDraft) (slr_dueDate r0) (slr_confirmedAt r0) s' r"
  have "save_sale now s' db = Inr (put_sale ?w db)"
    using eq by (simp add: save_sale_def writeImpl_def check_intent_def assms(6) s'(1,2,5,6) stored)
  moreover have "find_sale i (put_sale ?w db) = Some ?w"
    by (rule find_put_sale [OF assms(6)]) (simp add: write_columns_def ids)
  ultimately show ?thesis by (simp add: write_columns_def s'(2) put_sale_def)
qed

lemma canceled_row:
  assumes "cancelSale env i actorId reason fromBot st = (Inr a, st1)" and "st1 \<noteq> st"
    and "find_sale i (sdk_sales st) = Some r" and "slr_status r = SaleConfirmed"
  shows "\<exists>r1. find_sale i (sdk_sales st1) = Some r1 \<and> slr_status r1 = SaleCanceled \<and> slr_items r1 = slr_items r"
  using assms(1)
proof (cases rule: cancel_run)
  case (succeeded db x)
  have same: "find_sale i db = Some r"
    using acquired(3) [OF succeeded(1)] assms(3) by (simp add: find_sale_def)
  from succeeded(2) show ?thesis
  proof (cases rule: cancelE)
    case (again s)
    with same assms(4) show ?thesis
      by (auto simp: findByIdForUpdate_def Sale_fromPersistence_def locked_props_def loaded_props_def)
  next
    case (canceled s c refunded stock refunds usage)
    from canceled(1) obtain r' where r': "find_sale i db = Some r'" "sa_id s = i" by (rule locked_fields) simp
    have id: "sa_id c = i" using canceled(3) r'(2) by (auto simp: Sale_cancel_def Let_def split: if_splits)
    have "is_sale i (cancel_row (dke_now env) c r)"
      using find_sale_SomeD [OF same] by (simp add: is_sale_def cancel_row_def)
    with find_update_same [OF same [unfolded find_sale_def]]
    have "find_sale i (sdk_sales st1) = Some (cancel_row (dke_now env) c r)"
      by (simp add: canceled(8) markIdempotencySucceeded_def publish_def persistCancellation_def find_sale_def id)
    then show ?thesis by (simp add: cancel_row_def)
  qed
qed (use assms(2) in simp_all)

text \<open>
  Property C10: a seller assigned while a sale is cancelled brings the sale back.  When
  the sale was loaded before an accepted cancellation and is saved after it, the save is
  accepted and the row is confirmed again, while the refunds that pay its customer back
  stay booked.
\<close>

theorem stale_save_revives_canceled:
  assumes "find_sale i (sdk_sales st) = Some r" and "slr_status r = SaleConfirmed" and "stable_items r"
    and "load_sale i (sdk_sales st) = Some s" and "assignSeller u s = Inr s'"
    and "cancelSale env i actorId reason fromBot st = (Inr a, st1)" and "st1 \<noteq> st"
  shows "\<exists>db r'. save_sale now s' (sdk_sales st1) = Inr db \<and> find_sale i db = Some r' \<and>
    slr_status r' = SaleConfirmed \<and> sls_refunds db = sls_refunds (sdk_sales st1)"
proof -
  from canceled_row [OF assms(6,7,1,2)] obtain r1 where r1: "find_sale i (sdk_sales st1) = Some r1"
    "slr_items r1 = slr_items r" by blast
  from save_over [OF assms(1-5) r1] show ?thesis by blast
qed

lemma sold_canceled:
  "\<exists>a. cancelSale (shop_env 9) ''s1'' ''u2'' OrderError False sold_desk =
     (Inr a, snd (cancelSale (shop_env 9) ''s1'' ''u2'' OrderError False sold_desk)) \<and>
     snd (cancelSale (shop_env 9) ''s1'' ''u2'' OrderError False sold_desk) \<noteq> sold_desk"
proof -
  have "(case cancelSale (shop_env 9) ''s1'' ''u2'' OrderError False sold_desk of
      (Inr a, st) \<Rightarrow> sls_slots (sdk_sales st) \<noteq> [] | _ \<Rightarrow> False)" by code_simp
  moreover have "sls_slots (sdk_sales sold_desk) = []" by (simp add: sold_desk_def sold_books_def)
  ultimately show ?thesis
    by (cases "cancelSale (shop_env 9) ''s1'' ''u2'' OrderError False sold_desk") (auto split: sum.splits)
qed

theorem stale_save_revives_canceled_witness:
  "\<exists>st1 s db r'. fst (cancelSale (shop_env 9) ''s1'' ''u2'' OrderError False sold_desk) \<in> range Inr \<and>
     st1 = snd (cancelSale (shop_env 9) ''s1'' ''u2'' OrderError False sold_desk) \<and>
     save_sale 10 s (sdk_sales st1) = Inr db \<and> find_sale ''s1'' db = Some r' \<and>
     slr_status r' = SaleConfirmed \<and> sls_refunds db = sls_refunds (sdk_sales st1)"
proof -
  let ?st1 = "snd (cancelSale (shop_env 9) ''s1'' ''u2'' OrderError False sold_desk)"
  have row: "find_sale ''s1'' (sdk_sales sold_desk) = Some sold_row"
    by (simp add: sold_desk_def sold_books_def find_sale_def is_sale_def sold_row_def shop_row_def new_row_def
        sample_sale_simps)
  have confirmed: "slr_status sold_row = SaleConfirmed" by (simp add: sold_row_def)
  have stable: "stable_items sold_row"
    by (simp add: stable_items_def sold_row_def shop_row_def new_row_def sample_sale_simps toWriteRow_def
        SaleItem_fromPersistence_def item_of_props_def)
  let ?s = "Sale_fromPersistence (loaded_props sold_row)"
  have load: "load_sale ''s1'' (sdk_sales sold_desk) = Some ?s" by (simp add: load_sale_def row)
  have "sa_status ?s = SaleConfirmed" by (simp add: Sale_fromPersistence_def loaded_props_def sold_row_def)
  then have seller: "assignSeller ''u3'' ?s = Inr (?s\<lparr>sa_sellerUserId := Some ''u3''\<rparr>)"
    by (simp add: assignSeller_def ensureNotCanceled_def result_simps)
  obtain a where a: "cancelSale (shop_env 9) ''s1'' ''u2'' OrderError False sold_desk = (Inr a, ?st1)"
      "?st1 \<noteq> sold_desk" using sold_canceled by blast
  from stale_save_revives_canceled [OF row confirmed stable load seller a, of 10] a(1)
  show ?thesis by (metis fst_conv rangeI)
qed

end
