(* ===== verification/SalesQuoteProps.thy ===== *)
theory SalesQuoteProps
  imports SalesPricingProps SaleDesk
begin

section \<open>Quoting a draft again\<close>

text \<open>
  A second recompute of a draft changes nothing, and the charge of a draft that has
  just been recomputed takes exactly what the counter shows.
\<close>

subsection \<open>A recompute, step by step\<close>

lemma recomputeE:
  assumes "recomputePricingAndPromotions env b u s = Inr (s', demands, excluded)"
  obtains r its where "sa_status s = SaleDraft"
    and "repriceNonStickyLines (pce_catalog env) (s\<lparr>sa_items := map clear_promotion (sa_items s)\<rparr>) = Inr r"
    and "loopR (apply_result_line (pce_now env)) (sa_items r)
      (per_lines (evaluatePromotionsForSale env b u r)) = Inr its"
    and "s' = prune_opt_ins (per_targetableManualPromotionIds (evaluatePromotionsForSale env b u r))
      (apply_order (per_order (evaluatePromotionsForSale env b u r)) (r\<lparr>sa_items := its\<rparr>))"
    and "demands = per_promotionCapacityDemands (evaluatePromotionsForSale env b u r)"
    and "excluded = per_capacityExcludedPromotionIds (evaluatePromotionsForSale env b u r)"
  using assms by (auto simp: recomputePricingAndPromotions_def ensureDraft_def result_simps Let_def)

text \<open>A line without a discount has nothing left of one.\<close>

definition tidy :: "sale_item \<Rightarrow> bool" where
  "tidy it \<longleftrightarrow> (si_discountType it = None \<longrightarrow>
     si_prePriceCentsBeforeDiscount it = None \<and> clearDiscountFields it = it)"

lemma removeDiscount_alt: "removeDiscount it = clearDiscountFields (it\<lparr>si_unitPriceCents := item_baseline it\<rparr>)"
  by (cases "si_prePriceCentsBeforeDiscount it") (simp_all add: removeDiscount_def)

lemma clear_idem [simp]: "clearDiscountFields (clearDiscountFields it) = clearDiscountFields it"
  by (simp add: clearDiscountFields_def)

lemma removeDiscount_tidy: "tidy it \<Longrightarrow> si_discountType it = None \<Longrightarrow> removeDiscount it = it"
  by (simp add: tidy_def removeDiscount_def)

lemma tidy_cleared: "tidy it \<Longrightarrow> tidy (clear_promotion it)"
  by (simp add: tidy_def clear_promotion_def removeDiscount_def split: option.splits)

lemma reprice_item_cases:
  assumes "reprice_item g m x = Inr y"
  obtains (same) "y = x"
  | (priced) l price where "\<not> is_sticky x" "effective_list g x = Some l"
      "map_price m (price_key (si_productId x) (si_variantId x) l) (si_quantity x) = Some price" "0 \<le> price"
      "y = x\<lparr>si_unitPriceCents := price, si_priceSource := SourcePriceList\<rparr>"
proof (cases "y = x")
  case False
  with assms obtain l price where c: "\<not> is_sticky x" "effective_list g x = Some l"
      "map_price m (price_key (si_productId x) (si_variantId x) l) (si_quantity x) = Some price"
    and r: "reprice \<lparr>rpi_priceCents = JsInt price, rpi_priceSource = SourcePriceList,
      rpi_appliedPriceListId = si_appliedPriceListId x\<rparr> x = Inr y"
    by (auto simp: reprice_item_def split: if_splits option.splits)
  from r have "0 \<le> price" "y = x\<lparr>si_unitPriceCents := price, si_priceSource := SourcePriceList,
      si_appliedPriceListId := si_appliedPriceListId x\<rparr>"
    by (simp_all add: reprice_def split: if_splits)
  moreover have "x\<lparr>si_unitPriceCents := price, si_priceSource := SourcePriceList,
      si_appliedPriceListId := si_appliedPriceListId x\<rparr> =
      x\<lparr>si_unitPriceCents := price, si_priceSource := SourcePriceList\<rparr>" by (cases x) simp
  ultimately show thesis using c by (intro priced) simp_all
qed (rule same)

lemma clear_priced:
  "clearDiscountFields (x\<lparr>si_unitPriceCents := p, si_priceSource := q\<rparr>) =
     clearDiscountFields x\<lparr>si_unitPriceCents := p, si_priceSource := q\<rparr>"
  by (simp add: clearDiscountFields_def)

lemma tidy_priced: "tidy x \<Longrightarrow> tidy (x\<lparr>si_unitPriceCents := p, si_priceSource := q\<rparr>)"
  by (simp add: tidy_def clear_priced)

lemma reprice_keeps:
  assumes "reprice_item g m x = Inr y"
  shows "si_promotionId y = si_promotionId x" and "tidy x \<longrightarrow> tidy y" and "is_sticky y = is_sticky x"
    and "same_line x y" and "si_discountType y = si_discountType x"
  using assms
  by (cases rule: reprice_item_cases; auto simp: same_line_def is_sticky_def is_manual_discount_def tidy_priced)+

lemma reprice_again:
  assumes "reprice_item g m x = Inr y"
  shows "reprice_item g m y = Inr y"
  using assms
proof (cases rule: reprice_item_cases)
  case same
  with assms show ?thesis by simp
next
  case (priced l price)
  have y: "\<not> is_sticky y" "effective_list g y = Some l" "si_productId y = si_productId x"
      "si_variantId y = si_variantId x" "si_quantity y = si_quantity x"
    using priced(1,2) by (simp_all add: priced(5) is_sticky_def is_manual_discount_def effective_list_def)
  have "reprice \<lparr>rpi_priceCents = JsInt price, rpi_priceSource = SourcePriceList,
      rpi_appliedPriceListId = si_appliedPriceListId y\<rparr> y = Inr y"
    using priced(4) by (cases x) (simp add: priced(5) reprice_def)
  with y priced(3) show ?thesis by (simp add: reprice_item_def)
qed

lemma reprice_inputs_again:
  assumes "list_all2 (\<lambda>x y. is_sticky y = is_sticky x \<and> same_line x y) xs ys"
  shows "reprice_inputs g ys = reprice_inputs g xs"
  using assms
proof (induction rule: list_all2_induct)
  case (Cons x xs y ys)
  then have y: "is_sticky y = is_sticky x" "si_productId y = si_productId x" "si_variantId y = si_variantId x"
      "si_quantity y = si_quantity x" "effective_list g y = effective_list g x"
    by (simp_all add: same_line_def effective_list_def)
  show ?case unfolding reprice_inputs_def map_filter_Cons y Cons(3) [unfolded reprice_inputs_def] ..
qed (simp add: reprice_inputs_def)

subsection \<open>The lines a promotion is applied to\<close>

lemma apply_line_id: "apply_line_result now r x = Inr y \<Longrightarrow> si_id y = si_id x"
  by (cases r) (auto elim!: applyDiscountE applyRewardE)

lemma apply_line_promotion:
  "apply_line_result now r x = Inr y \<Longrightarrow> si_promotionId y = Some (lr_promotionId r)"
  by (cases r) (auto elim!: applyDiscountE applyRewardE simp: line_reward_def)

lemma applyDiscount_undone: "applyDiscount now i x = Inr y \<Longrightarrow> removeDiscount y = removeDiscount x"
  by (erule applyDiscountE) (simp add: removeDiscount_alt clearDiscountFields_def)

lemma applyReward_undone:
  assumes "applyBuyXGetYReward now i x = Inr y" and "si_prePriceCentsBeforeDiscount x = None"
  shows "removeDiscount y = removeDiscount x"
  using assms(1) by (rule applyRewardE) (simp add: removeDiscount_alt clearDiscountFields_def assms(2))

lemma apply_line_undone:
  assumes "apply_line_result now r x = Inr y" and "si_prePriceCentsBeforeDiscount x = None"
  shows "removeDiscount y = removeDiscount x"
  using assms by (cases r) (auto dest: applyDiscount_undone applyReward_undone)

text \<open>Every line is left alone or takes one result.\<close>

definition touched :: "timestamp \<Rightarrow> line_result list \<Rightarrow> sale_item \<Rightarrow> sale_item \<Rightarrow> bool" where
  "touched now rs x y \<longleftrightarrow>
     y = x \<or> (\<exists>r\<in>set rs. lr_itemId r = si_id x \<and> apply_line_result now r x = Inr y)"

lemma apply_results_touched:
  assumes "loopR (apply_result_line now) its rs = Inr its'" and "distinct (map lr_itemId rs)"
  shows "list_all2 (touched now rs) its its'"
  using assms
proof (induction rs arbitrary: its)
  case Nil
  then show ?case by (simp add: touched_def list.rel_refl)
next
  case (Cons r rs)
  from Cons.prems(1) obtain its1 where
    one: "apply_result_line now its r = Inr its1" and rest: "loopR (apply_result_line now) its1 rs = Inr its'"
    by (auto simp: result_simps)
  let ?R = "\<lambda>x y. y = x \<or> lr_itemId r = si_id x \<and> apply_line_result now r x = Inr y"
  have "list_all2 ?R its its1"
  proof (cases "find (has_id (lr_itemId r)) its")
    case None
    with one show ?thesis by (simp add: apply_result_line_def list.rel_refl)
  next
    case (Some it)
    with one obtain it' where it': "apply_line_result now r it = Inr it'"
      "its1 = update_first (has_id (lr_itemId r)) (\<lambda>_. it') its"
      by (auto simp: apply_result_line_def result_simps)
    have "?R it it'" using find_SomeD [OF Some] it'(1) by (simp add: has_id_def)
    from list_all2_update_first [where R = ?R, OF Some this] show ?thesis by (simp add: it'(2))
  qed
  moreover have "list_all2 (touched now rs) its1 its'" using Cons.IH [OF rest] Cons.prems(2) by simp
  ultimately show ?case
  proof (rule list_all2_trans2)
    fix x y z
    assume xy: "?R x y" and yz: "touched now rs y z"
    show "touched now (r # rs) x z"
    proof (cases "y = x")
      case True
      with yz show ?thesis by (auto simp: touched_def)
    next
      case False
      with xy have r: "lr_itemId r = si_id x" "apply_line_result now r x = Inr y" by simp_all
      have "lr_itemId q \<noteq> si_id y" if "q \<in> set rs" for q
        using Cons.prems(2) apply_line_id [OF r(2)] r(1) that by (auto simp: image_iff)
      with yz have "z = y" by (auto simp: touched_def)
      with r show ?thesis by (auto simp: touched_def)
    qed
  qed
qed

subsection \<open>A second recompute\<close>

text \<open>The lines the engine gives results for have no manual discount.\<close>

lemma evaluated_targets:
  assumes "\<forall>it\<in>set (sa_items r). item_ok it" and "distinct (map si_id (sa_items r))"
    and "\<forall>p\<in>set (pce_promotions env). promotion_shape p"
  shows "distinct (map lr_itemId (per_lines (evaluatePromotionsForSale env b u r)))"
    and "\<forall>it\<in>set (sa_items r). si_id it \<in> lr_itemId ` set (per_lines (evaluatePromotionsForSale env b u r)) \<longrightarrow>
      \<not> is_manual_discount it"
proof -
  obtain f where f: "pei_lines (eval_input env b u r) = map f (sa_items r)"
    "\<And>it. pel_itemId (f it) = si_id it" "\<And>it. pel_quantity (f it) = si_quantity it"
    "\<And>it. pel_effectiveUnitPriceCents (f it) = item_baseline it"
    "\<And>it. pel_hasManualDiscount (f it) = is_manual_discount it"
    using eval_input_lines [of env b u r] by metis
  have "0 \<le> item_baseline it \<and> 1 \<le> si_quantity it" if "it \<in> set (sa_items r)" for it
    using assms(1) that item_ok_baseline by (auto simp: item_ok_def)
  then have "cart_ok (pei_lines (eval_input env b u r))"
    using assms(2) by (auto simp: cart_ok_def f comp_def)
  from evaluate_results_ok [OF this assms(3)] have res:
    "results_ok (pei_lines (eval_input env b u r)) (per_lines (evaluatePromotionsForSale env b u r))"
    by (simp add: evaluatePromotionsForSale_def)
  then show "distinct (map lr_itemId (per_lines (evaluatePromotionsForSale env b u r)))"
    by (simp add: results_ok_def)
  show "\<forall>it\<in>set (sa_items r). si_id it \<in> lr_itemId ` set (per_lines (evaluatePromotionsForSale env b u r)) \<longrightarrow>
      \<not> is_manual_discount it"
  proof (intro ballI impI)
    fix it
    assume it: "it \<in> set (sa_items r)"
      and "si_id it \<in> lr_itemId ` set (per_lines (evaluatePromotionsForSale env b u r))"
    then obtain x where "x \<in> set (sa_items r)" "si_id x = si_id it" "\<not> is_manual_discount x"
      using res by (auto simp: results_ok_def result_ok_def f)
    with assms(2) it show "\<not> is_manual_discount it" by (metis distinct_map inj_onD)
  qed
qed

text \<open>What the engine reads of a sale.\<close>

lemma eval_input_cong:
  assumes "sa_items s = sa_items r" and "sa_customerId s = sa_customerId r"
    and "sa_vetoedPromotionIds s = sa_vetoedPromotionIds r"
    and "sa_optedInManualPromotionIds s = sa_optedInManualPromotionIds r"
    and "sa_globalPriceListId s = sa_globalPriceListId r"
  shows "evaluatePromotionsForSale env b u s = evaluatePromotionsForSale env b u r"
  by (simp add: evaluatePromotionsForSale_def eval_input_def buildPosEvalInput_def effective_global_list_def assms
      Let_def cong: option.case_cong if_cong)

lemma prune_no_op:
  assumes "sa_optedInManualPromotionIds (prune_opt_ins ts s) = sa_optedInManualPromotionIds s"
  shows "prune_opt_ins ts s = s"
proof -
  have opts: "sa_optedInManualPromotionIds (foldl (\<lambda>s p. if p \<in> set ts then s else optOutManualPromotion p s) s ps) =
      filter (\<lambda>x. x \<in> set ts \<or> x \<notin> set ps) (sa_optedInManualPromotionIds s)" for ps
    by (induction ps arbitrary: s) (auto simp: optOutManualPromotion_def intro: filter_cong)
  have "filter (\<lambda>x. x \<in> set ts \<or> x \<notin> set (sa_optedInManualPromotionIds s)) (sa_optedInManualPromotionIds s) =
      sa_optedInManualPromotionIds s"
    using assms unfolding prune_opt_ins_def opts .
  then have all: "\<forall>x\<in>set (sa_optedInManualPromotionIds s). x \<in> set ts"
    by (auto simp: filter_id_conv)
  have "foldl (\<lambda>s p. if p \<in> set ts then s else optOutManualPromotion p s) s ps = s" if "set ps \<subseteq> set ts" for ps
    using that by (induction ps) auto
  with all show ?thesis unfolding prune_opt_ins_def by blast
qed

text \<open>A repriced sale is repriced to itself.\<close>

lemma repriceNonSticky_again:
  assumes "catalog_ok c" and "\<forall>it\<in>set (sa_items s). plain_id (si_productId it) \<and> plain_variant (si_variantId it)"
    and "repriceNonStickyLines c s = Inr r" and "sa_items r' = sa_items r"
    and "sa_globalPriceListId r' = sa_globalPriceListId s"
  shows "repriceNonStickyLines c r' = Inr r'"
proof -
  let ?g = "effective_global_list c s"
  let ?m = "batchResolvePriceMap c (reprice_inputs ?g (sa_items s))"
  from repriceNonSticky_items [OF assms(1-3)] have
    all: "list_all2 (\<lambda>x y. reprice_item ?g ?m x = Inr y) (sa_items s) (sa_items r)" by simp
  have g: "effective_global_list c r' = ?g" by (simp add: effective_global_list_def assms(5))
  have "list_all2 (\<lambda>x y. is_sticky y = is_sticky x \<and> same_line x y) (sa_items s) (sa_items r)"
    by (rule list_all2_mono [OF all]) (use reprice_keeps in blast)
  from reprice_inputs_again [OF this] have inputs: "reprice_inputs ?g (sa_items r') = reprice_inputs ?g (sa_items s)"
    by (simp add: assms(4))
  have "\<forall>y\<in>set (sa_items r). reprice_item ?g ?m y = Inr y"
    using list_all2_set_right [OF all] reprice_again by blast
  then have "mapM_list (reprice_item ?g ?m) (sa_items r') = Inr (sa_items r')"
    by (simp add: mapM_list_Inr assms(4) list.rel_refl_strong)
  then show ?thesis unfolding repriceNonStickyLines_def Let_def g inputs by (simp add: result_simps)
qed

lemma prune_other [simp]:
  "sa_customerId (prune_opt_ins ts s) = sa_customerId s" "sa_vetoedPromotionIds (prune_opt_ins ts s) = sa_vetoedPromotionIds s"
  "sa_status (prune_opt_ins ts s) = sa_status s"
proof -
  have "sa_customerId (foldl (\<lambda>s p. if p \<in> set ts then s else optOutManualPromotion p s) s ps) = sa_customerId s \<and>
      sa_vetoedPromotionIds (foldl (\<lambda>s p. if p \<in> set ts then s else optOutManualPromotion p s) s ps) =
        sa_vetoedPromotionIds s \<and>
      sa_status (foldl (\<lambda>s p. if p \<in> set ts then s else optOutManualPromotion p s) s ps) = sa_status s" for ps
    by (induction ps arbitrary: s) (simp_all add: optOutManualPromotion_def)
  then show "sa_customerId (prune_opt_ins ts s) = sa_customerId s"
    "sa_vetoedPromotionIds (prune_opt_ins ts s) = sa_vetoedPromotionIds s" "sa_status (prune_opt_ins ts s) = sa_status s"
    by (simp_all add: prune_opt_ins_def)
qed

lemma apply_order_other [simp]:
  "sa_customerId (apply_order r s) = sa_customerId s" "sa_vetoedPromotionIds (apply_order r s) = sa_vetoedPromotionIds s"
  "sa_status (apply_order r s) = sa_status s"
  "sa_optedInManualPromotionIds (apply_order r s) = sa_optedInManualPromotionIds s"
  by (simp_all add: apply_order_def setAppliedOrderPromotion_def clearAppliedOrderPromotion_def
      split: option.splits)

lemma apply_order_again: "apply_order r (apply_order r s) = apply_order r s"
  by (simp add: apply_order_def setAppliedOrderPromotion_def clearAppliedOrderPromotion_def
      split: option.splits)

text \<open>Clearing the promotions of a recomputed sale gives the repriced lines back.\<close>

lemma cleared_again:
  assumes "list_all2 (touched now rs) its its'"
    and "\<forall>it\<in>set its. si_promotionId it = None \<and> tidy it \<and>
      (si_id it \<in> lr_itemId ` set rs \<longrightarrow> si_discountType it = None)"
  shows "map clear_promotion its' = its"
  using assms
proof (induction rule: list_all2_induct)
  case (Cons x xs y ys)
  have x: "si_promotionId x = None" "tidy x" using Cons.prems by simp_all
  have "clear_promotion y = x"
  proof (cases "y = x")
    case True
    with x(1) show ?thesis by (simp add: clear_promotion_def)
  next
    case False
    with Cons.hyps(1) obtain r where r: "r \<in> set rs" "lr_itemId r = si_id x" "apply_line_result now r x = Inr y"
      by (auto simp: touched_def)
    from r(1) have "lr_itemId r \<in> lr_itemId ` set rs" by (rule imageI)
    with r(2) Cons.prems have none: "si_discountType x = None" by simp
    with x(2) have "si_prePriceCentsBeforeDiscount x = None" by (simp add: tidy_def)
    from apply_line_undone [OF r(3) this] removeDiscount_tidy [OF x(2) none] apply_line_promotion [OF r(3)]
    show ?thesis by (simp add: clear_promotion_def)
  qed
  with Cons show ?case by simp
qed simp

text \<open>The repriced sale of a recompute, and what its lines are.\<close>

lemma recompute_parts:
  assumes ok: "draft_ok s" and cat: "catalog_ok (pce_catalog env)"
    and tidy: "\<forall>it\<in>set (sa_items s). tidy it"
    and shapes: "\<forall>p\<in>set (pce_promotions env). promotion_shape p"
    and run: "recomputePricingAndPromotions env b u s = Inr (s', demands, excluded)"
  obtains r its where "sa_status s = SaleDraft"
    and "loopR (apply_result_line (pce_now env)) (sa_items r)
      (per_lines (evaluatePromotionsForSale env b u r)) = Inr its"
    and "s' = prune_opt_ins (per_targetableManualPromotionIds (evaluatePromotionsForSale env b u r))
      (apply_order (per_order (evaluatePromotionsForSale env b u r)) (r\<lparr>sa_items := its\<rparr>))"
    and "demands = per_promotionCapacityDemands (evaluatePromotionsForSale env b u r)"
    and "excluded = per_capacityExcludedPromotionIds (evaluatePromotionsForSale env b u r)"
    and "r = s\<lparr>sa_items := sa_items r\<rparr>"
    and "\<And>r'. sa_items r' = sa_items r \<Longrightarrow> sa_globalPriceListId r' = sa_globalPriceListId s \<Longrightarrow>
      repriceNonStickyLines (pce_catalog env) r' = Inr r'"
    and "\<forall>it\<in>set (sa_items r). si_promotionId it = None"
    and "list_all2 (touched (pce_now env) (per_lines (evaluatePromotionsForSale env b u r))) (sa_items r) its"
    and "map clear_promotion its = sa_items r"
  using run
proof (cases rule: recomputeE)
  case (1 r its)
  let ?s0 = "s\<lparr>sa_items := map clear_promotion (sa_items s)\<rparr>"
  let ?g = "effective_global_list (pce_catalog env) ?s0"
  let ?m = "batchResolvePriceMap (pce_catalog env) (reprice_inputs ?g (sa_items ?s0))"
  have line: "item_ok (clear_promotion it) \<and> same_line it (clear_promotion it) \<and> tidy (clear_promotion it) \<and>
      si_promotionId (clear_promotion it) = None \<and>
      (\<not> is_manual_discount (clear_promotion it) \<longrightarrow> si_discountType (clear_promotion it) = None)"
    if "it \<in> set (sa_items s)" for it
    using clear_line [of it] tidy_cleared [of it] ok tidy that by (auto simp: draft_ok_def clear_promotion_def)
  have plain: "\<forall>it\<in>set (sa_items ?s0). plain_id (si_productId it) \<and> plain_variant (si_variantId it)"
    using line ok by (fastforce simp: draft_ok_def same_line_def)
  note rep = repriceNonSticky_items [OF cat plain 1(2)]
  then have all: "list_all2 (\<lambda>x y. reprice_item ?g ?m x = Inr y) (map clear_promotion (sa_items s)) (sa_items r)"
    by simp
  have lines: "item_ok y \<and> tidy y \<and> si_promotionId y = None \<and> (\<not> is_manual_discount y \<longrightarrow> si_discountType y = None)"
    if y: "y \<in> set (sa_items r)" for y
  proof -
    from list_all2_set_right [OF all y] obtain it where it: "it \<in> set (sa_items s)"
      and p: "reprice_item ?g ?m (clear_promotion it) = Inr y" by auto
    from line [OF it] reprice_keeps(1,2) [OF p] reprice_line [OF p] show ?thesis by simp
  qed
  have "map si_id (sa_items r) = map si_id (map clear_promotion (sa_items s))"
    by (rule list_all2_map_eq [OF all, THEN sym]) (use reprice_keeps(4) in \<open>auto simp: same_line_def\<close>)
  also have "\<dots> = map si_id (sa_items s)" using line by (simp add: same_line_def)
  finally have ids: "distinct (map si_id (sa_items r))" using ok by (simp add: draft_ok_def)
  have "\<forall>it\<in>set (sa_items r). item_ok it" using lines by blast
  note targets = evaluated_targets [OF this ids shapes, of b u]
  note touched = apply_results_touched [OF 1(3) targets(1)]
  have "map clear_promotion its = sa_items r"
    by (rule cleared_again [OF touched]) (use lines targets(2) in blast)
  moreover have "repriceNonStickyLines (pce_catalog env) r' = Inr r'"
    if "sa_items r' = sa_items r" "sa_globalPriceListId r' = sa_globalPriceListId s" for r'
    by (rule repriceNonSticky_again [OF cat plain 1(2) that(1)]) (simp add: that(2))
  ultimately show thesis using that [OF 1(1,3-6)] rep lines touched by simp
qed

text \<open>A recompute of its own result gives the same sale, demands and exclusions.\<close>

lemma recompute_again:
  assumes "draft_ok s" and "catalog_ok (pce_catalog env)" and "\<forall>it\<in>set (sa_items s). tidy it"
    and "\<forall>p\<in>set (pce_promotions env). promotion_shape p"
    and "recomputePricingAndPromotions env b u s = Inr (s', demands, excluded)"
    and opts: "sa_optedInManualPromotionIds s' = sa_optedInManualPromotionIds s"
  shows "recomputePricingAndPromotions env b u s' = Inr (s', demands, excluded)"
  using assms(1-5)
proof (cases rule: recompute_parts)
  case (1 r its)
  let ?e = "evaluatePromotionsForSale env b u r"
  let ?s1 = "s'\<lparr>sa_items := map clear_promotion (sa_items s')\<rparr>"
  have s1: "sa_items ?s1 = sa_items r" by (simp add: 1(3,10))
  have fields: "sa_customerId r = sa_customerId s" "sa_vetoedPromotionIds r = sa_vetoedPromotionIds s"
    "sa_optedInManualPromotionIds r = sa_optedInManualPromotionIds s" "sa_status r = sa_status s"
    "sa_globalPriceListId r = sa_globalPriceListId s" by (subst 1(6), simp)+
  have again: "repriceNonStickyLines (pce_catalog env) ?s1 = Inr ?s1"
    by (rule 1(7) [OF s1]) (simp add: 1(3) fields)
  have eval: "evaluatePromotionsForSale env b u ?s1 = ?e"
    by (rule eval_input_cong [OF s1]) (simp_all add: 1(3) fields opts [unfolded 1(3)])
  let ?pre = "apply_order (per_order ?e) (r\<lparr>sa_items := its\<rparr>)"
  have s': "s' = ?pre"
    unfolding 1(3) by (rule prune_no_op) (use opts fields in \<open>simp add: 1(3)\<close>)
  have "?s1\<lparr>sa_items := its\<rparr> = s'" by (simp add: s')
  moreover have "apply_order (per_order ?e) s' = s'"
    unfolding s' by (rule apply_order_again)
  moreover have "prune_opt_ins (per_targetableManualPromotionIds ?e) s' = s'"
    using 1(3) [symmetric] unfolding s' .
  moreover have "sa_status s' = SaleDraft" using 1(1) by (simp add: s' fields)
  ultimately show ?thesis
    using 1(2,4,5) by (simp add: recomputePricingAndPromotions_def ensureDraft_def again eval s1 Let_def)
qed

subsection \<open>The quote of a recomputed draft\<close>

text \<open>Nothing a recompute applied is among what it excluded.\<close>

lemma winners_not_excluded:
  assumes "(\<exists>r\<in>set (per_lines (evaluate weekday input data)). lr_promotionId r = i) \<or>
    (\<exists>w. per_order (evaluate weekday input data) = Some w \<and> orr_promotionId w = i)"
  shows "i \<notin> set (per_capacityExcludedPromotionIds (evaluate weekday input data))"
proof -
  let ?loaded = "if pei_botEligibleOnly input then filter pm_botEligible data else data"
  obtain ex where e: "evaluate weekday input data = pso_result (runEvaluationPass weekday input ?loaded ex)"
    using evaluate_loop_pass [of weekday input ?loaded "[]"] by (auto simp: evaluate_def)
  with assms pass_winner_candidate [of weekday input ?loaded ex i] show ?thesis
    by (simp add: run_pass_fields)
qed

lemma touched_promotions:
  assumes "list_all2 (touched now rs) its its'" and "\<forall>it\<in>set its. si_promotionId it = None" and "y \<in> set its'"
    and "si_promotionId y = Some p"
  shows "\<exists>r\<in>set rs. lr_promotionId r = p"
proof -
  from list_all2_set_right [OF assms(1,3)] obtain x where "x \<in> set its" "touched now rs x y" by blast
  with assms(2,4) apply_line_promotion show ?thesis by (fastforce simp: touched_def)
qed

lemma applied_not_excluded:
  assumes "draft_ok s" and "catalog_ok (pce_catalog env)" and "\<forall>it\<in>set (sa_items s). tidy it"
    and "\<forall>p\<in>set (pce_promotions env). promotion_shape p"
    and "recomputePricingAndPromotions env b u s = Inr (s', demands, excluded)"
    and "p \<in> set (applied_promotion_ids s')"
  shows "p \<notin> set excluded"
  using assms(1-5)
proof (cases rule: recompute_parts)
  case (1 r its)
  let ?e = "evaluatePromotionsForSale env b u r"
  have some: "truthy x \<Longrightarrow> x = Some (the_ident x)" for x by (cases x) simp_all
  have order: "sa_appliedOrderPromotion (prune_opt_ins ts x) = sa_appliedOrderPromotion x" for ts x
  proof -
    have "sa_appliedOrderPromotion (foldl (\<lambda>s p. if p \<in> set ts then s else optOutManualPromotion p s) x ps) =
        sa_appliedOrderPromotion x" for ps
      by (induction ps arbitrary: x) (simp_all add: optOutManualPromotion_def)
    then show ?thesis by (simp add: prune_opt_ins_def)
  qed
  have "(\<exists>y\<in>set its. si_promotionId y = Some p) \<or> (\<exists>w. per_order ?e = Some w \<and> orr_promotionId w = p)"
    using assms(6) some
    by (auto simp: applied_promotion_ids_def 1(3) order apply_order_def setAppliedOrderPromotion_def
        clearAppliedOrderPromotion_def order_snapshot_def split: option.splits if_splits)
  with touched_promotions [OF 1(9,8)] have
    "(\<exists>r\<in>set (per_lines ?e). lr_promotionId r = p) \<or> (\<exists>w. per_order ?e = Some w \<and> orr_promotionId w = p)" by blast
  from winners_not_excluded [OF this [unfolded evaluatePromotionsForSale_def]] show ?thesis
    by (simp add: 1(5) evaluatePromotionsForSale_def)
qed

subsection \<open>Properties\<close>

text \<open>Twelve units at their tier price, with ten percent off the product and off the order.\<close>

definition coffee_pricing :: pricing_env where
  "coffee_pricing = sample_pricing\<lparr>pce_promotions :=
     [pd_promotion\<lparr>pm_targetItems := [product_target\<lparr>ptg_targetId := ''p''\<rparr>]\<rparr>, od_promotion]\<rparr>"

lemma coffee_draft:
  "draft_ok (tiered_draft (Some ''g1'') 12)" "catalog_ok (pce_catalog coffee_pricing)"
  "\<forall>it\<in>set (sa_items (tiered_draft (Some ''g1'') 12)). tidy it"
  "\<forall>p\<in>set (pce_promotions coffee_pricing). promotion_shape p"
proof -
  show "draft_ok (tiered_draft (Some ''g1'') 12)" by (rule tiered_draft_ok) simp
  show "catalog_ok (pce_catalog coffee_pricing)"
    by (simp add: coffee_pricing_def sample_pricing_def sample_catalog_ok)
  show "\<forall>it\<in>set (sa_items (tiered_draft (Some ''g1'') 12)). tidy it"
    by (simp add: tiered_draft_def tiered_item_def sample_simps tidy_def clearDiscountFields_def)
  show "\<forall>p\<in>set (pce_promotions coffee_pricing). promotion_shape p"
    by (simp add: coffee_pricing_def promotion_shape_def sample_engine_simps)
qed

lemma coffee_recomputed:
  "\<exists>s' d x. recomputePricingAndPromotions coffee_pricing False False (tiered_draft (Some ''g1'') 12) = Inr (s', d, x) \<and>
     sa_optedInManualPromotionIds s' = sa_optedInManualPromotionIds (tiered_draft (Some ''g1'') 12) \<and>
     map si_unitPriceCents (sa_items s') = [720]"
proof -
  have "(case recomputePricingAndPromotions coffee_pricing False False (tiered_draft (Some ''g1'') 12) of
      Inr (s', d, x) \<Rightarrow> sa_optedInManualPromotionIds s' = [] \<and> map si_unitPriceCents (sa_items s') = [720]
    | Inl e \<Rightarrow> False)" by code_simp
  moreover have "sa_optedInManualPromotionIds (tiered_draft (Some ''g1'') 12) = []"
    by (simp add: tiered_draft_def sample_simps sample_sale_simps)
  ultimately show ?thesis
    by (cases "recomputePricingAndPromotions coffee_pricing False False (tiered_draft (Some ''g1'') 12)") auto
qed

text \<open>
  Property C5: recomputing twice is recomputing once.  At the same catalogue, promotions
  and time a second recompute of a draft returns the same sale, to the last field of
  every line, with the same demands on the promotions' capacity: the rewards are taken
  off and put back as they were, and prices that were taken from a list are taken from
  it again.  (Unless the first pruned an opt-in that had lost its target.)
\<close>

theorem recompute_idempotent:
  assumes "draft_ok s" and "catalog_ok (pce_catalog env)" and "\<forall>it\<in>set (sa_items s). tidy it"
    and "\<forall>p\<in>set (pce_promotions env). promotion_shape p"
    and "recomputePricingAndPromotions env b u s = Inr (s', demands, excluded)"
    and "sa_optedInManualPromotionIds s' = sa_optedInManualPromotionIds s"
  shows "recomputePricingAndPromotions env b u s' = Inr (s', demands, excluded)"
  using assms by (rule recompute_again)

theorem recompute_idempotent_witness:
  "\<exists>s' d x. recomputePricingAndPromotions coffee_pricing False False (tiered_draft (Some ''g1'') 12) = Inr (s', d, x) \<and>
     map si_unitPriceCents (sa_items s') = [720] \<and>
     recomputePricingAndPromotions coffee_pricing False False s' = Inr (s', d, x)"
proof -
  obtain s' d x where r: "recomputePricingAndPromotions coffee_pricing False False (tiered_draft (Some ''g1'') 12) =
      Inr (s', d, x)" "sa_optedInManualPromotionIds s' = sa_optedInManualPromotionIds (tiered_draft (Some ''g1'') 12)"
      "map si_unitPriceCents (sa_items s') = [720]" using coffee_recomputed by (elim exE conjE)
  from recompute_idempotent [OF coffee_draft r(1,2)] r show ?thesis by (intro exI conjI)
qed

text \<open>
  Property C4: what the counter shows is what the charge takes, where the two price by the
  same list.  Take a draft that has just been recomputed, and of which before that every
  line was at a custom price or followed a list that has its price, no line without a
  discount carried the remains of one, and no opted-in promotion was dropped by the
  recompute.  The charge quotes it as it stands: the price check passes, the recompute of
  the charge changes nothing, none of its promotions is reported as out of capacity, and
  the charge goes on with exactly the sale, and the total, that the draft shows.  A
  walk-in draft at a tier of the default list is outside of this, see Property C34.
\<close>

theorem shown_is_charged:
  assumes "draft_ok s" and "catalog_ok (pce_catalog env)" and "\<forall>it\<in>set (sa_items s). tidy it"
    and "\<forall>p\<in>set (pce_promotions env). promotion_shape p"
    and "recomputePricingAndPromotions env False False s = Inr (s', demands, excluded)"
    and "sa_optedInManualPromotionIds s' = sa_optedInManualPromotionIds s"
    and "\<forall>it\<in>set (sa_items s). si_priceSource it = SourceCustom \<or>
      \<not> is_manual_discount it \<and> follows_price (pce_catalog env) (sa_globalPriceListId s) it"
  shows "quote_charge env s' = Inr (s', demands)"
proof -
  have "check_charge_prices (pce_catalog env) s' = Inr ()"
    by (rule recomputed_draft_passes_price_check [OF assms(1,2,4,5,7)])
  moreover have "recomputePricingAndPromotions env False False s' = Inr (s', demands, excluded)"
    by (rule recompute_again [OF assms(1-6)])
  moreover have "\<forall>p\<in>set (sortUniquePromotionIds (applied_promotion_ids s')). p \<notin> set excluded"
    using applied_not_excluded [OF assms(1-5)] by (simp add: sortUniquePromotionIds_def)
  ultimately show ?thesis by (auto simp: quote_charge_def Let_def)
qed

theorem shown_is_charged_witness:
  "\<exists>s' d. quote_charge coffee_pricing s' = Inr (s', d) \<and> map si_unitPriceCents (sa_items s') = [720]"
proof -
  let ?s = "tiered_draft (Some ''g1'') 12"
  obtain s' d x where r: "recomputePricingAndPromotions coffee_pricing False False ?s = Inr (s', d, x)"
      "sa_optedInManualPromotionIds s' = sa_optedInManualPromotionIds ?s"
      "map si_unitPriceCents (sa_items s') = [720]" using coffee_recomputed by (elim exE conjE)
  have price: "list_price sample_catalog ''p'' None ''g1'' 12 = Some 800" by code_simp
  have "\<forall>it\<in>set (sa_items ?s). si_priceSource it = SourceCustom \<or> \<not> is_manual_discount it \<and>
      follows_price (pce_catalog coffee_pricing) (sa_globalPriceListId ?s) it"
    by (simp add: tiered_draft_def tiered_item_def sample_simps follows_price_def is_manual_discount_def
        coffee_pricing_def sample_pricing_def price)
  from shown_is_charged [OF coffee_draft r(1,2) this] r(3) show ?thesis by (intro exI conjI)
qed

end
