(* ===== verification/SaleDrafts.thy ===== *)
theory SaleDrafts
  imports SaleStore SalesPricing
begin

section \<open>The use cases of a draft\<close>

text \<open>
  The draft operations of \<open>src/src/sales/sales.service.ts\<close>: each loads the sale,
  changes the aggregate in memory, recomputes prices and promotions where the code does,
  saves the whole row and answers.  None runs in a transaction of its own; the load and
  the save of one call are taken together here.  A throw before the save leaves the
  tables and emits nothing; a throw after it (an answer that cannot be built) leaves the
  saved row.

  The environment holds what a call reads from elsewhere: the catalogue and the
  promotions with the clock, the business day of the stock check, the customers, their
  addresses, the users, and the identifier it draws.
\<close>

subsection \<open>What a call reads and answers\<close>

record draft_customer =
  dcu_firstName :: string
  dcu_lastName :: "string option"
  dcu_globalPriceListId :: "ident option"

record draft_env =
  dfe_pricing :: pricing_env
  dfe_today :: int
  dfe_uuid :: ident
  dfe_customer :: "ident \<Rightarrow> draft_customer option"
  dfe_address :: "ident \<Rightarrow> (ident \<times> shipping_address) option"
  dfe_user :: "ident \<Rightarrow> bool"
  dfe_tenantId :: ident

abbreviation dfe_now :: "draft_env \<Rightarrow> timestamp" where
  "dfe_now env \<equiv> pce_now (dfe_pricing env)"

datatype draft_event =
    DraftOpened ident ident
  | ItemAdded ident ident ident "ident option" int cents
  | ItemQuantityChanged ident ident int int
  | DraftCleared ident nat
  | DraftDeleted ident ident
  | ItemPriceOverridden ident ident ident cents cents bool "ident option" "cents option" timestamp
  | ItemDiscountApplied ident ident ident "discount_kind option" "int option" "cents option"
      "string option" timestamp
  | ItemDiscountRemoved ident ident ident timestamp
  | ItemRemoved ident ident ident timestamp
  | CustomerAssigned ident ident ident "ident option" "ident option" "ident option"
  | CustomerCleared ident ident ident "ident option" "ident option"
  | ShippingAddressSet ident ident ident "ident option" "ident option"
  | ShippingAddressCleared ident ident ident "ident option"
  | SellerAssigned ident ident ident "ident option" ident
  | SellerCleared ident ident ident "ident option"

text \<open>The view \<open>findDraftResponseById\<close> reads back.\<close>

record draft_address_view =
  dav_id :: "ident option"
  dav_street :: string
  dav_exteriorNumber :: "string option"
  dav_interiorNumber :: "string option"
  dav_zipCode :: "string option"
  dav_neighborhood :: "string option"
  dav_municipality :: "string option"
  dav_city :: "string option"
  dav_state :: "string option"

record draft_view =
  dvw_sale :: sale_response
  dvw_customer :: "(ident \<times> string \<times> string option) option"
  dvw_shippingAddress :: "draft_address_view option"

record priced_option =
  pop_price :: applicable_price
  pop_isCurrent :: bool

datatype draft_answer =
    SaleAnswer sale_response
  | ViewAnswer "draft_view option"
  | DiscountAnswer sale_response "(ident \<times> skip_reason) list"
  | ManualAnswer ident "manual_candidate list"
  | PricesAnswer ident ident "priced_option list"
  | DraftsAnswer "sale_response list"
  | ReferenceAnswer sale_payment
  | DetailAnswer ident
  | EmptyAnswer

record draft_desk =
  ddk_sales :: sales_db
  ddk_events :: "draft_event list"

type_synonym drafting = "draft_answer result \<times> draft_desk"

subsection \<open>Loading, saving and answering\<close>

definition address_view :: "ident option \<Rightarrow> shipping_address \<Rightarrow> draft_address_view" where
  "address_view i a =
     \<lparr>dav_id = i, dav_street = sad_street a, dav_exteriorNumber = sad_exteriorNumber a,
      dav_interiorNumber = sad_interiorNumber a, dav_zipCode = sad_zipCode a,
      dav_neighborhood = sad_neighborhood a, dav_municipality = sad_municipality a,
      dav_city = sad_city a, dav_state = sad_state a\<rparr>"

text \<open>\<open>{ ...sale.toResponse(), ...sale.previewTotals() }\<close>.\<close>

definition with_preview :: "sale \<Rightarrow> sale_response \<Rightarrow> sale_response" where
  "with_preview s r =
     r\<lparr>srs_totalCents := pvt_totalCents (previewTotals s),
       srs_subtotalCents := Some (pvt_subtotalCents (previewTotals s)),
       srs_discountCents := Some (pvt_discountCents (previewTotals s))\<rparr>"

definition findDraftResponseById :: "draft_env \<Rightarrow> ident \<Rightarrow> sales_db \<Rightarrow> draft_view option result" where
  "findDraftResponseById env i db =
     (case find_sale i db of
        None \<Rightarrow> Inr None
      | Some r \<Rightarrow>
          let s = Sale_fromPersistence (loaded_props r) in
          mapR (\<lambda>response. Some
              \<lparr>dvw_sale = with_preview s response,
               dvw_customer = (case slr_customerId r of
                   None \<Rightarrow> None
                 | Some c \<Rightarrow> map_option (\<lambda>x. (c, dcu_firstName x, dcu_lastName x)) (dfe_customer env c)),
               dvw_shippingAddress = map_option (address_view (slr_shippingAddressId r)) (slr_shipping r)\<rparr>)
            (Sale_toResponse s))"

text \<open>Newest first; the sort is stable.\<close>

definition findDraftsByUserId :: "ident \<Rightarrow> sales_db \<Rightarrow> sale list" where
  "findDraftsByUserId userId db =
     map (Sale_fromPersistence \<circ> loaded_props)
       (sort_key (\<lambda>r. - slr_createdAt r)
         (filter (\<lambda>r. slr_userId r = userId \<and> slr_status r = SaleDraft) (sls_sales db)))"

definition getUserDrafts :: "ident \<Rightarrow> draft_desk \<Rightarrow> drafting" where
  "getUserDrafts userId st =
     (mapR DraftsAnswer (mapM_list Sale_toResponse (findDraftsByUserId userId (ddk_sales st))), st)"

text \<open>The checks the operations start with, in the two orders and wordings the code has.\<close>

definition not_owner :: "ident \<Rightarrow> domain_error" where
  "not_owner userId = BusinessRuleViolationError (''User '' @ userId @ '' does not own this sale'')
     ''BUSINESS_RULE_VIOLATION''"

definition loaded_own :: "ident \<Rightarrow> ident \<Rightarrow> sales_db \<Rightarrow> sale result" where
  "loaded_own saleId userId db =
     (case load_sale saleId db of
        None \<Rightarrow> Inl (EntityNotFoundError ''Sale'' saleId)
      | Some s \<Rightarrow>
          andThen (throw_if (sa_userId s \<noteq> userId) (not_owner userId)) (\<lambda>_.
          andThen (ensureDraft s) (\<lambda>_. Inr s)))"

definition loaded_for :: "ident \<Rightarrow> ident \<Rightarrow> sales_db \<Rightarrow> sale result" where
  "loaded_for saleId actorId db =
     (case load_sale saleId db of
        None \<Rightarrow> Inl (rule_violation ''SALE_NOT_FOUND'')
      | Some s \<Rightarrow>
          andThen (throw_if (sa_userId s \<noteq> actorId) (rule_violation ''SALE_UPDATE_FORBIDDEN'')) (\<lambda>_.
          Inr s))"

definition loaded_draft :: "ident \<Rightarrow> ident \<Rightarrow> sales_db \<Rightarrow> sale result" where
  "loaded_draft saleId actorId db =
     (case load_sale saleId db of
        None \<Rightarrow> Inl (rule_violation ''SALE_NOT_FOUND'')
      | Some s \<Rightarrow>
          andThen (throw_if (sa_status s \<noteq> SaleDraft) (rule_violation ''SALE_NOT_DRAFT'')) (\<lambda>_.
          andThen (throw_if (sa_userId s \<noteq> actorId) (rule_violation ''SALE_UPDATE_FORBIDDEN'')) (\<lambda>_.
          Inr s)))"

text \<open>
  The end of every operation: the change, the save, the events, the answer.  The change
  gives the aggregate with what the events and the answer need.
\<close>

definition saved ::
  "(sale \<Rightarrow> sales_db \<Rightarrow> sales_db result) \<Rightarrow> (sale \<times> 'x) result \<Rightarrow> (sale \<Rightarrow> 'x \<Rightarrow> draft_event list)
     \<Rightarrow> (sale \<Rightarrow> 'x \<Rightarrow> sales_db \<Rightarrow> draft_answer result) \<Rightarrow> draft_desk \<Rightarrow> drafting" where
  "saved save change events answer st =
     (case andThen change (\<lambda>(s, x). mapR (\<lambda>db. (s, x, db)) (save s (ddk_sales st))) of
        Inl e \<Rightarrow> (Inl e, st)
      | Inr (s, x, db) \<Rightarrow>
          (answer s x db, \<lparr>ddk_sales = db, ddk_events = ddk_events st @ events s x\<rparr>))"

definition sale_answer :: "sale \<Rightarrow> 'x \<Rightarrow> sales_db \<Rightarrow> draft_answer result" where
  "sale_answer s x db = mapR SaleAnswer (Sale_toResponse s)"

definition view_answer :: "draft_env \<Rightarrow> sale \<Rightarrow> 'x \<Rightarrow> sales_db \<Rightarrow> draft_answer result" where
  "view_answer env s x db = mapR ViewAnswer (findDraftResponseById env (sa_id s) db)"

definition recomputed :: "draft_env \<Rightarrow> 'x \<Rightarrow> sale \<Rightarrow> (sale \<times> 'x) result" where
  "recomputed env x s =
     mapR (\<lambda>(s', demands, excluded). (s', x)) (recomputePricingAndPromotions (dfe_pricing env) False False s)"

subsection \<open>Opening and deleting\<close>

definition openDraft :: "draft_env \<Rightarrow> ident \<Rightarrow> draft_desk \<Rightarrow> drafting" where
  "openDraft env userId =
     saved (save_sale (dfe_now env)) (mapR (\<lambda>s. (s, ())) (Sale_create (dfe_uuid env) userId))
       (\<lambda>s _. [DraftOpened (dfe_uuid env) userId]) sale_answer"

definition deleteDraft :: "ident \<Rightarrow> ident \<Rightarrow> draft_desk \<Rightarrow> drafting" where
  "deleteDraft saleId userId st =
     (case andThen (loaded_own saleId userId (ddk_sales st)) (\<lambda>_. delete_sale saleId (ddk_sales st)) of
        Inl e \<Rightarrow> (Inl e, st)
      | Inr db \<Rightarrow>
          (Inr EmptyAnswer,
           \<lparr>ddk_sales = db, ddk_events = ddk_events st @ [DraftDeleted saleId userId]\<rparr>))"

subsection \<open>Lines\<close>

record add_item_dto =
  aid_productId :: ident
  aid_variantId :: "ident option"
  aid_quantity :: int

fun stock_text :: "int option \<Rightarrow> string" where
  "stock_text None = ''null''"
| "stock_text (Some n) = show_int n"

definition require_stock ::
  "draft_env \<Rightarrow> ident \<Rightarrow> ident option \<Rightarrow> int \<Rightarrow> unit result" where
  "require_stock env productId variantId quantity =
     andThen (checkStockAvailability (pce_catalog (dfe_pricing env)) (dfe_today env) productId variantId quantity)
       (\<lambda>(available, current).
         throw_if (\<not> available)
           (BusinessRuleViolationError
             (''Insufficient stock for product '' @ productId @ ''. Available: '' @ stock_text current @
              '', Requested: '' @ show_int quantity) ''BUSINESS_RULE_VIOLATION''))"

definition new_item_props ::
  "draft_env \<Rightarrow> ident \<Rightarrow> product_sale_info \<Rightarrow> int \<Rightarrow> sale_item_props" where
  "new_item_props env saleId info quantity =
     \<lparr>sip_id = dfe_uuid env, sip_saleId = saleId, sip_productId = pif_productId info,
      sip_variantId = pif_variantId info, sip_productName = pif_productName info,
      sip_variantName = pif_variantName info, sip_imageUrl = pif_imageUrl info,
      sip_quantity = quantity, sip_unitPriceCents = pif_unitPriceCents info,
      sip_unitPriceCurrency = ''MXN'', sip_originalPriceCents = None, sip_priceSource = None,
      sip_appliedPriceListId = None, sip_customPriceCents = None, sip_discountType = None,
      sip_discountValue = None, sip_discountAmountCents = None,
      sip_prePriceCentsBeforeDiscount = None, sip_discountTitle = None, sip_discountedAt = None,
      sip_promotionId = None, sip_rewardDiscountPercent = None, sip_rewardKind = None\<rparr>"

definition cumulative_quantity :: "add_item_dto \<Rightarrow> sale \<Rightarrow> int" where
  "cumulative_quantity dto s =
     (case find (\<lambda>it. item_matches it (aid_productId dto) (aid_variantId dto)) (sa_items s) of
        None \<Rightarrow> aid_quantity dto
      | Some it \<Rightarrow> si_quantity it + aid_quantity dto)"

definition SalesService_addItem ::
  "draft_env \<Rightarrow> ident \<Rightarrow> ident \<Rightarrow> add_item_dto \<Rightarrow> draft_desk \<Rightarrow> drafting" where
  "SalesService_addItem env saleId userId dto st =
     saved (saveDraftItems (dfe_now env))
       (andThen (loaded_own saleId userId (ddk_sales st)) (\<lambda>s.
        andThen (getProductInfoForSale (pce_catalog (dfe_pricing env)) (aid_productId dto) (aid_variantId dto))
          (\<lambda>info.
        andThen (require_stock env (aid_productId dto) (aid_variantId dto) (cumulative_quantity dto s)) (\<lambda>_.
        andThen (addItem (new_item_props env saleId info (aid_quantity dto)) s)
          (recomputed env info)))))
       (\<lambda>s info. [ItemAdded saleId (dfe_uuid env) (pif_productId info) (pif_variantId info)
          (aid_quantity dto) (pif_unitPriceCents info)])
       sale_answer st"

definition SalesService_updateItemQuantity ::
  "draft_env \<Rightarrow> ident \<Rightarrow> ident \<Rightarrow> ident \<Rightarrow> int \<Rightarrow> draft_desk \<Rightarrow> drafting" where
  "SalesService_updateItemQuantity env saleId userId itemId quantity st =
     saved (saveDraftItems (dfe_now env))
       (andThen (loaded_own saleId userId (ddk_sales st)) (\<lambda>s.
        case find (has_id itemId) (sa_items s) of
          None \<Rightarrow> Inl (BusinessRuleViolationError (''Item '' @ itemId @ '' not found in sale'')
            ''BUSINESS_RULE_VIOLATION'')
        | Some it \<Rightarrow>
            andThen (require_stock env (si_productId it) (si_variantId it) quantity) (\<lambda>_.
            andThen (updateItemQuantity itemId quantity s) (recomputed env (si_quantity it)))))
       (\<lambda>s previous. [ItemQuantityChanged saleId itemId previous quantity])
       sale_answer st"

definition SalesService_clearItems :: "draft_env \<Rightarrow> ident \<Rightarrow> ident \<Rightarrow> draft_desk \<Rightarrow> drafting" where
  "SalesService_clearItems env saleId userId st =
     saved (saveDraftItems (dfe_now env))
       (andThen (loaded_own saleId userId (ddk_sales st)) (\<lambda>s.
          mapR (\<lambda>s'. (s', length (sa_items s))) (clearItems s)))
       (\<lambda>s n. [DraftCleared saleId n]) sale_answer st"

definition SalesService_removeItem ::
  "draft_env \<Rightarrow> ident \<Rightarrow> ident \<Rightarrow> ident \<Rightarrow> draft_desk \<Rightarrow> drafting" where
  "SalesService_removeItem env saleId actorId itemId st =
     saved (saveDraftItems (dfe_now env))
       (andThen (loaded_for saleId actorId (ddk_sales st)) (\<lambda>s.
        andThen (ensureDraft s) (\<lambda>_.
        andThen (removeItem itemId s) (recomputed env ()))))
       (\<lambda>s _. [ItemRemoved saleId itemId actorId (dfe_now env)]) sale_answer st"

subsection \<open>Prices and discounts\<close>

definition getAvailablePrices ::
  "draft_env \<Rightarrow> ident \<Rightarrow> ident \<Rightarrow> ident \<Rightarrow> draft_desk \<Rightarrow> drafting" where
  "getAvailablePrices env saleId itemId actorId st =
     (andThen (loaded_draft saleId actorId (ddk_sales st)) (\<lambda>s.
        case find (has_id itemId) (sa_items s) of
          None \<Rightarrow> Inl (rule_violation ''SALE_ITEM_NOT_FOUND'')
        | Some it \<Rightarrow>
            Inr (PricesAnswer saleId itemId
              (map (\<lambda>a. \<lparr>pop_price = a,
                   pop_isCurrent =
                     (case si_appliedPriceListId it of
                        Some l \<Rightarrow> l = apr_priceListId a
                      | None \<Rightarrow> si_unitPriceCents it = apr_priceCents a)\<rparr>)
                (getApplicablePrices (pce_catalog (dfe_pricing env)) (si_productId it) (si_variantId it)
                  (si_quantity it))))), st)"

record override_dto =
  ovd_priceListId :: "ident option"
  ovd_customPriceCents :: "cents option"

definition override_of ::
  "draft_env \<Rightarrow> override_dto \<Rightarrow> sale_item \<Rightarrow> override_price_input result" where
  "override_of env dto it =
     (if truthy (ovd_priceListId dto) then
        mapR (\<lambda>price. \<lparr>opi_priceCents = price, opi_priceSource = SourcePriceList,
                opi_appliedPriceListId = ovd_priceListId dto, opi_customPriceCents = None\<rparr>)
          (resolveListPrice (pce_catalog (dfe_pricing env)) (the_ident (ovd_priceListId dto))
            (si_productId it) (si_variantId it) (si_quantity it))
      else Inr \<lparr>opi_priceCents = or_default (ovd_customPriceCents dto) 0, opi_priceSource = SourceCustom,
                opi_appliedPriceListId = None, opi_customPriceCents = ovd_customPriceCents dto\<rparr>)"

definition price_overridden_event ::
  "draft_env \<Rightarrow> ident \<Rightarrow> ident \<Rightarrow> ident \<Rightarrow> sale \<Rightarrow> cents \<Rightarrow> draft_event list" where
  "price_overridden_event env saleId itemId actorId s previous =
     (case find (has_id itemId) (sa_items s) of
        None \<Rightarrow> []
      | Some it \<Rightarrow>
          [ItemPriceOverridden saleId itemId actorId previous (si_unitPriceCents it)
             (si_priceSource it = SourcePriceList) (si_appliedPriceListId it) (si_customPriceCents it)
             (dfe_now env)])"

definition SalesService_overrideItemPrice ::
  "draft_env \<Rightarrow> ident \<Rightarrow> ident \<Rightarrow> override_dto \<Rightarrow> ident \<Rightarrow> draft_desk \<Rightarrow> drafting" where
  "SalesService_overrideItemPrice env saleId itemId dto actorId st =
     saved (save_sale (dfe_now env))
       (andThen (throw_if (truthy (ovd_priceListId dto) = (\<not> falsy_number (ovd_customPriceCents dto)))
          (BusinessRuleViolationError ''INVALID_PRICE_OVERRIDE_INPUT'' ''BUSINESS_RULE_VIOLATION'')) (\<lambda>_.
        andThen (loaded_draft saleId actorId (ddk_sales st)) (\<lambda>s.
        case find (has_id itemId) (sa_items s) of
          None \<Rightarrow> Inl (rule_violation ''SALE_ITEM_NOT_FOUND'')
        | Some it \<Rightarrow>
            andThen (override_of env dto it) (\<lambda>i.
            andThen (overrideItemPrice itemId i s) (recomputed env (si_unitPriceCents it))))))
       (price_overridden_event env saleId itemId actorId) sale_answer st"

record discount_dto =
  ddo_type :: discount_kind
  ddo_amountCents :: "js_number option"
  ddo_percent :: "js_number option"
  ddo_title :: "string option"
  ddo_discountTitle :: "string option"
  ddo_strategy :: "discount_strategy option"

definition check_discount_input :: "discount_dto \<Rightarrow> unit result" where
  "check_discount_input dto =
     throw_if (ddo_type dto = AmountDiscount \<and> ddo_amountCents dto = None \<or>
         ddo_type dto = PercentageDiscount \<and> ddo_percent dto = None \<or>
         ddo_amountCents dto \<noteq> None \<and> ddo_percent dto \<noteq> None)
       (rule_violation ''INVALID_DISCOUNT_INPUT'')"

definition discount_of :: "discount_dto \<Rightarrow> apply_discount_input" where
  "discount_of dto =
     \<lparr>adi_type = ddo_type dto, adi_amountCents = ddo_amountCents dto, adi_percent = ddo_percent dto,
      adi_discountTitle = (case ddo_title dto of Some t \<Rightarrow> Some t | None \<Rightarrow> ddo_discountTitle dto),
      adi_strategy = ddo_strategy dto, adi_promotionId = None\<rparr>"

definition discount_applied_event :: "draft_env \<Rightarrow> ident \<Rightarrow> ident \<Rightarrow> sale_item \<Rightarrow> draft_event" where
  "discount_applied_event env saleId actorId it =
     ItemDiscountApplied saleId (si_id it) actorId (si_discountType it) (si_discountValue it)
       (si_discountAmountCents it) (si_discountTitle it) (dfe_now env)"

definition SalesService_applyItemDiscount ::
  "draft_env \<Rightarrow> ident \<Rightarrow> ident \<Rightarrow> discount_dto \<Rightarrow> ident \<Rightarrow> draft_desk \<Rightarrow> drafting" where
  "SalesService_applyItemDiscount env saleId itemId dto actorId st =
     saved (save_sale (dfe_now env))
       (andThen (check_discount_input dto) (\<lambda>_.
        andThen (loaded_for saleId actorId (ddk_sales st)) (\<lambda>s.
        mapR (\<lambda>s'. (s', ()))
          (applyItemDiscount (dfe_now env) itemId (discount_of dto \<lparr>adi_strategy := None\<rparr>) s))))
       (\<lambda>s _. (case find (has_id itemId) (sa_items s) of
           None \<Rightarrow> [] | Some it \<Rightarrow> [discount_applied_event env saleId actorId it]))
       sale_answer st"

definition SalesService_removeItemDiscount ::
  "draft_env \<Rightarrow> ident \<Rightarrow> ident \<Rightarrow> ident \<Rightarrow> draft_desk \<Rightarrow> drafting" where
  "SalesService_removeItemDiscount env saleId itemId actorId st =
     saved (save_sale (dfe_now env))
       (andThen (loaded_for saleId actorId (ddk_sales st)) (\<lambda>s.
        andThen (removeItemDiscount itemId s) (recomputed env ())))
       (\<lambda>s _. [ItemDiscountRemoved saleId itemId actorId (dfe_now env)]) sale_answer st"

text \<open>The lines that are announced: not skipped, and with a discount of a value that is not zero.\<close>

definition global_discount_events ::
  "draft_env \<Rightarrow> ident \<Rightarrow> ident \<Rightarrow> sale \<Rightarrow> (ident \<times> skip_reason) list \<Rightarrow> draft_event list" where
  "global_discount_events env saleId actorId s skipped =
     map (discount_applied_event env saleId actorId)
       (filter (\<lambda>it. si_id it \<notin> fst ` set skipped \<and> si_discountType it \<noteq> None \<and>
           \<not> falsy_number (si_discountValue it)) (sa_items s))"

definition SalesService_applyGlobalDiscount ::
  "draft_env \<Rightarrow> ident \<Rightarrow> discount_dto \<Rightarrow> ident \<Rightarrow> draft_desk \<Rightarrow> drafting" where
  "SalesService_applyGlobalDiscount env saleId dto actorId st =
     saved (save_sale (dfe_now env))
       (andThen (check_discount_input dto) (\<lambda>_.
        andThen (loaded_draft saleId actorId (ddk_sales st)) (\<lambda>s.
        case applyGlobalDiscount (dfe_now env) (discount_of dto) s of
          (r, s') \<Rightarrow> mapR (\<lambda>skipped. (s', skipped)) r)))
       (global_discount_events env saleId actorId)
       (\<lambda>s skipped db. mapR (\<lambda>r. DiscountAnswer r skipped) (Sale_toResponse s)) st"

definition SalesService_removeGlobalDiscount ::
  "draft_env \<Rightarrow> ident \<Rightarrow> ident \<Rightarrow> draft_desk \<Rightarrow> drafting" where
  "SalesService_removeGlobalDiscount env saleId actorId st =
     saved (save_sale (dfe_now env))
       (mapR (\<lambda>s. (removeGlobalDiscount s,
            map si_id (filter (\<lambda>it. si_discountType it \<noteq> None) (sa_items s))))
          (loaded_draft saleId actorId (ddk_sales st)))
       (\<lambda>s ids. map (\<lambda>i. ItemDiscountRemoved saleId i actorId (dfe_now env)) ids) sale_answer st"

subsection \<open>Promotions and the price list\<close>

definition listApplicablePromotions :: "draft_env \<Rightarrow> ident \<Rightarrow> ident \<Rightarrow> draft_desk \<Rightarrow> drafting" where
  "listApplicablePromotions env saleId actorId st =
     (mapR (\<lambda>s. ManualAnswer saleId
          (per_availableManualPromotions (evaluatePromotionsForSale (dfe_pricing env) False False s)))
        (loaded_draft saleId actorId (ddk_sales st)), st)"

definition applyManualPromotion ::
  "draft_env \<Rightarrow> ident \<Rightarrow> ident \<Rightarrow> ident \<Rightarrow> draft_desk \<Rightarrow> drafting" where
  "applyManualPromotion env saleId actorId promotionId st =
     saved (save_sale (dfe_now env))
       (andThen (loaded_draft saleId actorId (ddk_sales st)) (\<lambda>s.
          recomputed env () (optInManualPromotion promotionId s)))
       (\<lambda>_ _. []) sale_answer st"

definition removeManualPromotion ::
  "draft_env \<Rightarrow> ident \<Rightarrow> ident \<Rightarrow> ident \<Rightarrow> draft_desk \<Rightarrow> drafting" where
  "removeManualPromotion env saleId actorId promotionId st =
     saved (save_sale (dfe_now env))
       (andThen (loaded_draft saleId actorId (ddk_sales st)) (\<lambda>s.
          recomputed env () (optOutManualPromotion promotionId s)))
       (\<lambda>_ _. []) sale_answer st"

definition removeAppliedPromotion ::
  "draft_env \<Rightarrow> ident \<Rightarrow> ident \<Rightarrow> ident \<Rightarrow> draft_desk \<Rightarrow> drafting" where
  "removeAppliedPromotion env saleId actorId promotionId st =
     saved (save_sale (dfe_now env))
       (andThen (loaded_draft saleId actorId (ddk_sales st)) (\<lambda>s.
          recomputed env ()
            (if promotionId \<in> set (sa_optedInManualPromotionIds s)
             then optOutManualPromotion promotionId s else addVetoedPromotion promotionId s)))
       (\<lambda>_ _. []) sale_answer st"

definition setSalePriceList ::
  "draft_env \<Rightarrow> ident \<Rightarrow> ident \<Rightarrow> ident option \<Rightarrow> draft_desk \<Rightarrow> drafting" where
  "setSalePriceList env saleId userId listId st =
     saved (save_sale (dfe_now env))
       (andThen (loaded_draft saleId userId (ddk_sales st)) (\<lambda>s.
        andThen (throw_if (case listId of None \<Rightarrow> False
              | Some l \<Rightarrow> global_list (pce_catalog (dfe_pricing env)) l = None)
          (rule_violation ''PRICE_LIST_NOT_FOUND'')) (\<lambda>_.
        andThen (setGlobalPriceList listId True s) (recomputed env ()))))
       (\<lambda>_ _. []) (view_answer env) st"

subsection \<open>Customer and address\<close>

definition empty_answer :: "sale \<Rightarrow> 'x \<Rightarrow> sales_db \<Rightarrow> draft_answer result" where
  "empty_answer s x db = Inr EmptyAnswer"

definition address_for ::
  "draft_env \<Rightarrow> ident \<Rightarrow> ident option \<Rightarrow> shipping_address result" where
  "address_for env addressId customerId =
     (case dfe_address env addressId of
        None \<Rightarrow> Inl (rule_violation ''SHIPPING_ADDRESS_NOT_FOUND'')
      | Some (owner, address) \<Rightarrow>
          andThen (throw_if (Some owner \<noteq> customerId)
            (rule_violation ''SHIPPING_ADDRESS_NOT_FOR_CUSTOMER'')) (\<lambda>_. Inr address))"

text \<open>The list of the customer seeds the sale only while the cashier has not chosen one.\<close>

definition seed_list :: "draft_customer \<Rightarrow> sale \<Rightarrow> sale result" where
  "seed_list customer s =
     (if \<not> sa_priceListExplicitlySet s \<and> dcu_globalPriceListId customer \<noteq> None
      then setGlobalPriceList (dcu_globalPriceListId customer) False s else Inr s)"

definition address_event ::
  "draft_env \<Rightarrow> ident \<Rightarrow> sale \<Rightarrow> ident option \<Rightarrow> draft_event list" where
  "address_event env userId s previous =
     (if previous = sa_shippingAddressId s then []
      else if truthy (sa_shippingAddressId s)
        then [ShippingAddressSet (sa_id s) (dfe_tenantId env) userId previous (sa_shippingAddressId s)]
      else if truthy previous
        then [ShippingAddressCleared (sa_id s) (dfe_tenantId env) userId previous] else [])"

definition SalesService_assignCustomer ::
  "draft_env \<Rightarrow> ident \<Rightarrow> ident \<Rightarrow> ident \<Rightarrow> ident option \<Rightarrow> draft_desk \<Rightarrow> drafting" where
  "SalesService_assignCustomer env saleId userId customerId addressId st =
     saved (save_sale (dfe_now env))
       (andThen (loaded_draft saleId userId (ddk_sales st)) (\<lambda>s.
        case dfe_customer env customerId of
          None \<Rightarrow> Inl (rule_violation ''CUSTOMER_NOT_FOUND'')
        | Some customer \<Rightarrow>
            andThen (seed_list customer s) (\<lambda>s1.
            andThen (case addressId of
                None \<Rightarrow> Inr None
              | Some a \<Rightarrow> mapR Some (address_for env a (Some customerId))) (\<lambda>address.
            andThen (assignCustomer customerId addressId s1) (\<lambda>s2.
            andThen (captureShippingAddress address s2)
              (recomputed env (sa_customerId s, sa_shippingAddressId s)))))))
       (\<lambda>s (customer, address).
          CustomerAssigned (sa_id s) (dfe_tenantId env) userId customer (sa_customerId s)
            (sa_shippingAddressId s) # address_event env userId s address)
       (view_answer env) st"

text \<open>A deleted customer leaves the copy of the address, which is dropped without an event.\<close>

definition drop_address_copy :: "draft_env \<Rightarrow> sale \<Rightarrow> draft_desk \<Rightarrow> drafting" where
  "drop_address_copy env s st =
     (if sa_shippingAddressSnapshot s = None then (Inr EmptyAnswer, st)
      else saved (save_sale (dfe_now env)) (mapR (\<lambda>s'. (s', ())) (setShippingAddress None s))
        (\<lambda>_ _. []) empty_answer st)"

definition SalesService_clearCustomer :: "draft_env \<Rightarrow> ident \<Rightarrow> ident \<Rightarrow> draft_desk \<Rightarrow> drafting" where
  "SalesService_clearCustomer env saleId userId st =
     (case loaded_draft saleId userId (ddk_sales st) of
        Inl e \<Rightarrow> (Inl e, st)
      | Inr s \<Rightarrow>
          if \<not> truthy (sa_customerId s) then drop_address_copy env s st
          else saved (save_sale (dfe_now env))
            (mapR (\<lambda>s'. (s', (sa_customerId s, sa_shippingAddressId s))) (clearCustomer s))
            (\<lambda>s (customer, address).
               CustomerCleared (sa_id s) (dfe_tenantId env) userId customer address #
               (if truthy address
                then [ShippingAddressCleared (sa_id s) (dfe_tenantId env) userId address] else []))
            empty_answer st)"

definition clearShippingAddress :: "draft_env \<Rightarrow> ident \<Rightarrow> ident \<Rightarrow> draft_desk \<Rightarrow> drafting" where
  "clearShippingAddress env saleId userId st =
     (case loaded_draft saleId userId (ddk_sales st) of
        Inl e \<Rightarrow> (Inl e, st)
      | Inr s \<Rightarrow>
          if \<not> truthy (sa_shippingAddressId s) then drop_address_copy env s st
          else saved (save_sale (dfe_now env))
            (mapR (\<lambda>s'. (s', sa_shippingAddressId s)) (setShippingAddress None s))
            (\<lambda>s address. [ShippingAddressCleared (sa_id s) (dfe_tenantId env) userId address])
            empty_answer st)"

text \<open>With null the address is cleared, and the draft read back.\<close>

definition SalesService_setShippingAddress ::
  "draft_env \<Rightarrow> ident \<Rightarrow> ident \<Rightarrow> ident option \<Rightarrow> draft_desk \<Rightarrow> drafting" where
  "SalesService_setShippingAddress env saleId userId addressId st =
     (case addressId of
        None \<Rightarrow>
          (case clearShippingAddress env saleId userId st of
             (r, st') \<Rightarrow>
               (andThen r (\<lambda>_. mapR ViewAnswer (findDraftResponseById env saleId (ddk_sales st'))), st'))
      | Some a \<Rightarrow>
          saved (save_sale (dfe_now env))
            (andThen (loaded_draft saleId userId (ddk_sales st)) (\<lambda>s.
             andThen (throw_if (\<not> truthy (sa_customerId s))
               (rule_violation ''SHIPPING_ADDRESS_REQUIRES_CUSTOMER'')) (\<lambda>_.
             andThen (address_for env a (sa_customerId s)) (\<lambda>address.
             andThen (setShippingAddress (Some a) s) (\<lambda>s1.
             mapR (\<lambda>s2. (s2, sa_shippingAddressId s)) (captureShippingAddress (Some address) s1))))))
            (\<lambda>s previous.
               if previous \<noteq> sa_shippingAddressId s \<and> truthy (sa_shippingAddressId s)
               then [ShippingAddressSet (sa_id s) (dfe_tenantId env) userId previous (sa_shippingAddressId s)]
               else [])
            (view_answer env) st)"

subsection \<open>Seller, due date and payment reference\<close>

text \<open>
  These are also for charged sales and for every user; a charged sale is answered with
  \<open>getSaleDetail\<close>, a read that is not modelled beyond the sale it names.
\<close>

definition loaded_any :: "ident \<Rightarrow> sales_db \<Rightarrow> sale result" where
  "loaded_any saleId db =
     (case load_sale saleId db of None \<Rightarrow> Inl (rule_violation ''SALE_NOT_FOUND'') | Some s \<Rightarrow> Inr s)"

definition seller_answer :: "draft_env \<Rightarrow> sale \<Rightarrow> 'x \<Rightarrow> sales_db \<Rightarrow> draft_answer result" where
  "seller_answer env s x db =
     (if sa_status s = SaleDraft then view_answer env s x db else Inr (DetailAnswer (sa_id s)))"

definition SalesService_assignSeller ::
  "draft_env \<Rightarrow> ident \<Rightarrow> ident \<Rightarrow> ident \<Rightarrow> draft_desk \<Rightarrow> drafting" where
  "SalesService_assignSeller env saleId actorUserId sellerUserId st =
     saved (save_sale (dfe_now env))
       (andThen (loaded_any saleId (ddk_sales st)) (\<lambda>s.
        andThen (throw_if (\<not> dfe_user env sellerUserId) (rule_violation ''SELLER_NOT_FOUND'')) (\<lambda>_.
        mapR (\<lambda>s'. (s', sa_sellerUserId s)) (assignSeller sellerUserId s))))
       (\<lambda>s previous. if previous = Some sellerUserId then []
          else [SellerAssigned (sa_id s) (dfe_tenantId env) actorUserId previous sellerUserId])
       (seller_answer env) st"

definition SalesService_clearSeller :: "draft_env \<Rightarrow> ident \<Rightarrow> ident \<Rightarrow> draft_desk \<Rightarrow> drafting" where
  "SalesService_clearSeller env saleId actorUserId st =
     saved (save_sale (dfe_now env))
       (andThen (loaded_any saleId (ddk_sales st)) (\<lambda>s.
        mapR (\<lambda>s'. (s', sa_sellerUserId s)) (clearSeller s)))
       (\<lambda>s previous. if previous = None then []
          else [SellerCleared (sa_id s) (dfe_tenantId env) actorUserId previous])
       (seller_answer env) st"

text \<open>\<open>setUTCHours(0, 0, 0, 0)\<close>; an invalid date stays one, and compares as false.\<close>

definition utc_day :: "timestamp \<Rightarrow> timestamp" where
  "utc_day t = t - t mod 86400000"

definition before_today :: "timestamp \<Rightarrow> js_date option \<Rightarrow> bool" where
  "before_today now due =
     (case due of Some (ValidDate t) \<Rightarrow> utc_day t < utc_day now | _ \<Rightarrow> False)"

definition SalesService_setDueDate :: "draft_env \<Rightarrow> ident \<Rightarrow> js_date option \<Rightarrow> draft_desk \<Rightarrow> drafting" where
  "SalesService_setDueDate env saleId due st =
     saved (save_sale (dfe_now env))
       (case (load_sale saleId (ddk_sales st), find_sale saleId (ddk_sales st)) of
          (Some s, Some detail) \<Rightarrow>
            andThen (throw_if (sa_status s = SaleCanceled) (rule_violation ''SALE_CANCELED'')) (\<lambda>_.
            andThen (throw_if (sa_status s \<noteq> SaleConfirmed) (rule_violation ''SALE_NOT_FOUND'')) (\<lambda>_.
            andThen (throw_if (slr_paymentStatus detail = Some PaymentPaid)
              (rule_violation ''SALE_FULLY_PAID'')) (\<lambda>_.
            andThen (throw_if (before_today (dfe_now env) due) (rule_violation ''INVALID_DUE_DATE'')) (\<lambda>_.
            mapR (\<lambda>s'. (s', ())) (setDueDate due s)))))
        | _ \<Rightarrow> Inl (rule_violation ''SALE_NOT_FOUND''))
       (\<lambda>_ _. []) (\<lambda>s _ _. Inr (DetailAnswer (sa_id s))) st"

definition payment_of_sale :: "ident \<Rightarrow> ident \<Rightarrow> sale_payment \<Rightarrow> bool" where
  "payment_of_sale paymentId saleId p \<longleftrightarrow> spy_id p = paymentId \<and> spy_saleId p = saleId"

definition SalesService_updatePaymentReference ::
  "ident \<Rightarrow> ident \<Rightarrow> string option \<Rightarrow> draft_desk \<Rightarrow> drafting" where
  "SalesService_updatePaymentReference saleId paymentId reference st =
     (let normalized = (case reference of
            None \<Rightarrow> None | Some r \<Rightarrow> if trim r = [] then None else Some r);
          p = payment_of_sale paymentId saleId in
      case find p (sls_payments (ddk_sales st)) of
        None \<Rightarrow> (Inl (EntityNotFoundError ''SalePayment'' paymentId), st)
      | Some x \<Rightarrow>
          (Inr (ReferenceAnswer (x\<lparr>spy_reference := normalized\<rparr>)),
           st\<lparr>ddk_sales := (ddk_sales st)
             \<lparr>sls_payments := update_first p (\<lambda>x. x\<lparr>spy_reference := normalized\<rparr>)
                (sls_payments (ddk_sales st))\<rparr>\<rparr>))"

subsection \<open>The requests\<close>

text \<open>
  The routes of \<open>src/src/sales/sales.controller.ts\<close> on one draft, but for its charge, which
  is \<open>chargeDraft\<close> of \<open>SaleDesk\<close>.  The seller, due date and payment reference routes are of
  \<open>sales-query.controller.ts\<close>, are open to every user with the permission, and are the
  definitions above (\<open>SalesService_assignSeller\<close>, \<open>SalesService_clearSeller\<close> and so on).
\<close>

datatype draft_command =
    AddItem add_item_dto
  | ChangeQuantity ident int
  | ClearItems
  | RemoveItem ident
  | DeleteDraft
  | AssignCustomer ident "ident option"
  | ClearCustomer
  | SetShippingAddress "ident option"
  | ClearShippingAddress
  | SetPriceList "ident option"
  | AvailablePrices ident
  | OverridePrice ident override_dto
  | ApplyItemDiscount ident discount_dto
  | RemoveItemDiscount ident
  | ApplyGlobalDiscount discount_dto
  | RemoveGlobalDiscount
  | ApplicablePromotions
  | ApplyManualPromotion ident
  | RemoveManualPromotion ident
  | RemoveAppliedPromotion ident

fun run_draft :: "draft_env \<Rightarrow> ident \<Rightarrow> ident \<Rightarrow> draft_command \<Rightarrow> draft_desk \<Rightarrow> drafting" where
  "run_draft env i user (AddItem dto) st = SalesService_addItem env i user dto st"
| "run_draft env i user (ChangeQuantity itemId n) st = SalesService_updateItemQuantity env i user itemId n st"
| "run_draft env i user ClearItems st = SalesService_clearItems env i user st"
| "run_draft env i user (RemoveItem itemId) st = SalesService_removeItem env i user itemId st"
| "run_draft env i user DeleteDraft st = deleteDraft i user st"
| "run_draft env i user (AssignCustomer c a) st = SalesService_assignCustomer env i user c a st"
| "run_draft env i user ClearCustomer st = SalesService_clearCustomer env i user st"
| "run_draft env i user (SetShippingAddress a) st = SalesService_setShippingAddress env i user a st"
| "run_draft env i user ClearShippingAddress st = clearShippingAddress env i user st"
| "run_draft env i user (SetPriceList l) st = setSalePriceList env i user l st"
| "run_draft env i user (AvailablePrices itemId) st = getAvailablePrices env i itemId user st"
| "run_draft env i user (OverridePrice itemId dto) st = SalesService_overrideItemPrice env i itemId dto user st"
| "run_draft env i user (ApplyItemDiscount itemId dto) st = SalesService_applyItemDiscount env i itemId dto user st"
| "run_draft env i user (RemoveItemDiscount itemId) st = SalesService_removeItemDiscount env i itemId user st"
| "run_draft env i user (ApplyGlobalDiscount dto) st = SalesService_applyGlobalDiscount env i dto user st"
| "run_draft env i user RemoveGlobalDiscount st = SalesService_removeGlobalDiscount env i user st"
| "run_draft env i user ApplicablePromotions st = listApplicablePromotions env i user st"
| "run_draft env i user (ApplyManualPromotion p) st = applyManualPromotion env i user p st"
| "run_draft env i user (RemoveManualPromotion p) st = removeManualPromotion env i user p st"
| "run_draft env i user (RemoveAppliedPromotion p) st = removeAppliedPromotion env i user p st"

end
