(* ===== verification/SaleDraftProps.thy ===== *)
theory SaleDraftProps
  imports SaleDrafts SalesPricingProps SaleSlotLaws
begin

section \<open>What the draft requests keep\<close>

text \<open>
  A request of the drafts controller by another user changes nothing; no such request on a draft touches a sale that
  was charged; what is saved is what is loaded.
\<close>

subsection \<open>The end of a request\<close>

lemma saved_cases:
  assumes "saved save change events answer st = (a, st')"
  obtains (kept) e where "a = Inl e" "st' = st"
  | (wrote) s x db where "change = Inr (s, x)" "save s (ddk_sales st) = Inr db" "a = answer s x db"
      "st' = \<lparr>ddk_sales = db, ddk_events = ddk_events st @ events s x\<rparr>"
proof (cases "andThen change (\<lambda>(s, x). mapR (\<lambda>db. (s, x, db)) (save s (ddk_sales st)))")
  case (Inl e)
  with assms have "a = Inl e" "st' = st" by (simp_all add: saved_def)
  then show thesis by (rule kept)
next
  case (Inr r)
  then obtain s x db where c: "change = Inr (s, x)" "save s (ddk_sales st) = Inr db" "r = (s, x, db)"
    by (auto simp: result_simps)
  with assms Inr show thesis by (intro wrote [OF c(1,2)]) (simp_all add: saved_def)
qed

lemma saved_Inl [simp]: "saved save (Inl e) events answer st = (Inl e, st)"
  by (simp add: saved_def)

lemma load_sale_row:
  assumes "find_sale i db = Some r"
  shows "load_sale i db = Some (Sale_fromPersistence (loaded_props r))"
    and "sa_userId (Sale_fromPersistence (loaded_props r)) = slr_userId r"
    and "sa_status (Sale_fromPersistence (loaded_props r)) = slr_status r"
    and "sa_id (Sale_fromPersistence (loaded_props r)) = i"
  using assms
  by (auto simp: load_sale_def find_sale_def is_sale_def Sale_fromPersistence_def loaded_props_def dest: find_SomeD)

lemmas draft_requests =
  SalesService_addItem_def SalesService_updateItemQuantity_def SalesService_clearItems_def
  SalesService_removeItem_def deleteDraft_def SalesService_assignCustomer_def SalesService_clearCustomer_def
  SalesService_setShippingAddress_def clearShippingAddress_def setSalePriceList_def getAvailablePrices_def
  SalesService_overrideItemPrice_def SalesService_applyItemDiscount_def SalesService_removeItemDiscount_def
  SalesService_applyGlobalDiscount_def SalesService_removeGlobalDiscount_def listApplicablePromotions_def
  applyManualPromotion_def removeManualPromotion_def removeAppliedPromotion_def

text \<open>A check before the load.\<close>

lemma check_first:
  "\<exists>e. saved save (andThen c (\<lambda>_. Inl x)) events answer st = (Inl e, st)"
  by (cases c) simp_all

subsection \<open>Who may change a draft\<close>

lemma stranger:
  assumes "find_sale i db = Some r" and "slr_userId r \<noteq> user"
  shows "\<exists>e. loaded_own i user db = Inl e" and "\<exists>e. loaded_for i user db = Inl e"
    and "\<exists>e. loaded_draft i user db = Inl e"
  using load_sale_row [OF assms(1)] assms(2)
  by (simp_all add: loaded_own_def loaded_for_def loaded_draft_def throw_if_def)

text \<open>
  Property C26: only its cashier works the lines of a draft.  Whatever the request of the
  drafts controller other than the charge, from a new line to the deletion, on a sale of
  another user it is refused: no table changes and no event is emitted.  The routes of the
  query controller are not meant: anyone with the permission may set the seller.
\<close>

theorem strangers_change_nothing:
  assumes "find_sale saleId (ddk_sales st) = Some r" and "slr_userId r \<noteq> user"
  shows "\<exists>e. run_draft env saleId user cmd st = (Inl e, st)"
proof -
  obtain e1 e2 e3 where e: "loaded_own saleId user (ddk_sales st) = Inl e1"
    "loaded_for saleId user (ddk_sales st) = Inl e2" "loaded_draft saleId user (ddk_sales st) = Inl e3"
    using stranger [OF assms] by blast
  show ?thesis
    by (cases cmd) (simp_all add: draft_requests e check_first split: option.split)
qed

subsection \<open>What a save writes\<close>

lemma find_update_other:
  "(\<And>x. x \<in> set xs \<Longrightarrow> q x \<Longrightarrow> \<not> p x) \<Longrightarrow> \<not> p y \<Longrightarrow> find p (update_first q (\<lambda>_. y) xs) = find p xs"
  by (induction xs) (auto split: if_splits)

lemma write_find:
  assumes "writeImpl now intent s db = Inr db'"
  obtains due confirmed where "stored_date (sa_dueDate s) = Inr due" and "stored_date (sa_confirmedAt s) = Inr confirmed"
    and "check_intent intent s (find_sale (sa_id s) db) = Inr ()"
    and "\<And>i. find_sale i db' = (if i = sa_id s
       then Some (case find_sale (sa_id s) db of
           None \<Rightarrow> write_columns now True due confirmed s (new_row now s)
         | Some r \<Rightarrow> write_columns now (slr_status r = SaleDraft) due confirmed s r)
       else find_sale i db)"
proof -
  from assms obtain due confirmed where d: "stored_date (sa_dueDate s) = Inr due"
      "stored_date (sa_confirmedAt s) = Inr confirmed" "check_intent intent s (find_sale (sa_id s) db) = Inr ()"
    and db': "db' = (case find_sale (sa_id s) db of
        None \<Rightarrow> db\<lparr>sls_sales := sls_sales db @ [write_columns now True due confirmed s (new_row now s)]\<rparr>
      | Some r \<Rightarrow> put_sale (write_columns now (slr_status r = SaleDraft) due confirmed s r) db)"
    by (auto simp: writeImpl_def Let_def result_simps split: option.splits)
  show thesis
  proof (rule that [OF d])
    fix i
    have new: "slr_id (write_columns now True due confirmed s (new_row now s)) = sa_id s"
      by (simp add: write_columns_def new_row_def)
    show "find_sale i db' = (if i = sa_id s
       then Some (case find_sale (sa_id s) db of
           None \<Rightarrow> write_columns now True due confirmed s (new_row now s)
         | Some r \<Rightarrow> write_columns now (slr_status r = SaleDraft) due confirmed s r)
       else find_sale i db)"
    proof (cases "find_sale (sa_id s) db")
      case None
      then show ?thesis using new
        by (auto simp: db' find_sale_def find_append is_sale_def split: option.split)
    next
      case (Some r)
      let ?w = "write_columns now (slr_status r = SaleDraft) due confirmed s r"
      from find_SomeD [OF Some [unfolded find_sale_def]] have row: "slr_id r = sa_id s"
        by (simp add: is_sale_def)
      then have id: "slr_id ?w = sa_id s" by (simp add: write_columns_def)
      show ?thesis
      proof (cases "i = sa_id s")
        case True
        with Some id show ?thesis
          by (simp add: db' find_sale_def put_sale_def find_update_same is_sale_def)
      next
        case False
        then have "find (is_sale i) (update_first (is_sale (sa_id s)) (\<lambda>_. ?w) (sls_sales db)) =
            find (is_sale i) (sls_sales db)"
          by (intro find_update_other) (auto simp: is_sale_def id row)
        with Some False id row show ?thesis by (auto simp: db' find_sale_def put_sale_def)
      qed
    qed
  qed
qed

text \<open>
  Property C36: a saved draft is loaded as it was saved.  After an accepted save of a sale
  that is a draft before and after, a load finds it with the same lines, customer,
  address, price list, promotion state and totals; the copy of its address is that of
  the aggregate.
\<close>

theorem saved_draft_is_loaded:
  assumes "writeImpl now intent s db = Inr db'" and "sa_status s = SaleDraft"
  shows "\<exists>s'. load_sale (sa_id s) db' = Some s' \<and> sa_status s' = SaleDraft \<and>
    sa_items s' = map (\<lambda>it. it\<lparr>si_saleId := sa_id s\<rparr>) (sa_items s) \<and>
    sa_customerId s' = sa_customerId s \<and> sa_shippingAddressId s' = sa_shippingAddressId s \<and>
    sa_shippingAddressSnapshot s' = map_option copyShippingAddress (sa_shippingAddressSnapshot s) \<and>
    sa_globalPriceListId s' = sa_globalPriceListId s \<and>
    sa_priceListExplicitlySet s' = sa_priceListExplicitlySet s \<and>
    sa_vetoedPromotionIds s' = sa_vetoedPromotionIds s \<and>
    sa_optedInManualPromotionIds s' = sa_optedInManualPromotionIds s \<and>
    sa_appliedOrderPromotion s' = sa_appliedOrderPromotion s \<and> previewTotals s' = previewTotals s"
  using assms(1)
proof (cases rule: write_find)
  case (1 due confirmed)
  obtain r where r: "find_sale (sa_id s) db' = Some (write_columns now True due confirmed s r)"
  proof (cases "find_sale (sa_id s) db")
    case None
    with 1(4) [of "sa_id s"] show thesis by (intro that) simp
  next
    case (Some r)
    have "slr_status r = SaleDraft"
      using 1(3) Some assms(2) by (auto simp: check_intent_def throw_if_def split: write_intent.splits if_splits)
    with 1(4) [of "sa_id s"] Some show thesis by (intro that) simp
  qed
  have row: "SaleItem_fromPersistence (toWriteRow i it) = it\<lparr>si_saleId := i\<rparr>" for i it
    by (simp add: SaleItem_fromPersistence_def item_of_props_def toWriteRow_def)
  let ?s' = "Sale_fromPersistence (loaded_props (write_columns now True due confirmed s r))"
  have items: "sa_items ?s' = map (\<lambda>it. it\<lparr>si_saleId := sa_id s\<rparr>) (sa_items s)"
    by (simp add: Sale_fromPersistence_def loaded_props_def write_columns_def row comp_def)
  have same: "item_baseline (it\<lparr>si_saleId := i\<rparr>) = item_baseline it" "subtotalCents (it\<lparr>si_saleId := i\<rparr>) = subtotalCents it"
    "reward_cents (it\<lparr>si_saleId := i\<rparr>) = reward_cents it" for it :: sale_item and i
    by (auto simp: item_baseline_def subtotalCents_def reward_cents_def isBuyXGetYReward_def split: option.splits)
  have order: "sa_appliedOrderPromotion ?s' = sa_appliedOrderPromotion s"
    by (simp add: Sale_fromPersistence_def loaded_props_def write_columns_def)
  have "previewTotals ?s' = previewTotals s"
    by (simp add: previewTotals_def Let_def post_line_subtotal_def items order comp_def same)
  with items order show ?thesis
    by (auto simp: load_sale_def r Sale_fromPersistence_def loaded_props_def write_columns_def assms(2))
qed

subsection \<open>The sale a request saves\<close>

definition same_sale :: "sale \<Rightarrow> sale \<Rightarrow> bool" where
  "same_sale s s' \<longleftrightarrow> sa_id s' = sa_id s \<and> sa_status s' = sa_status s"

lemma same_sale_refl [simp]: "same_sale s s"
  by (simp add: same_sale_def)

lemma same_sale_trans: "same_sale s s' \<Longrightarrow> same_sale s' s'' \<Longrightarrow> same_sale s s''"
  by (simp add: same_sale_def)

lemma with_item_same: "with_item e p f s = Inr s' \<Longrightarrow> same_sale s s'"
  by (auto simp: with_item_def same_sale_def result_simps split: option.splits)

lemma flags_same [simp]:
  "same_sale s (optOutManualPromotion p s)" "same_sale s (optInManualPromotion p s)"
  "same_sale s (addVetoedPromotion p s)" "same_sale s (removeGlobalDiscount s)" "same_sale s (drop_orphan_opt_in q s)"
  by (auto simp: same_sale_def optOutManualPromotion_def optInManualPromotion_def addVetoedPromotion_def
      removeVetoedPromotion_def removeGlobalDiscount_def drop_orphan_opt_in_def Let_def split: option.split)

lemma drop_items_same [simp]: "same_sale s (drop_orphan_opt_in q (s\<lparr>sa_items := its\<rparr>))"
  using flags_same(5) [of "s\<lparr>sa_items := its\<rparr>" q] by (simp add: same_sale_def)

lemma lines_same:
  "addItem p s = Inr s' \<Longrightarrow> same_sale s s'" "updateItemQuantity i n s = Inr s' \<Longrightarrow> same_sale s s'"
  "clearItems s = Inr s' \<Longrightarrow> same_sale s s'" "removeItem i s = Inr s' \<Longrightarrow> same_sale s s'"
  "overrideItemPrice i j s = Inr s' \<Longrightarrow> same_sale s s'" "applyItemDiscount now i d s = Inr s' \<Longrightarrow> same_sale s s'"
  "removeItemDiscount i s = Inr s' \<Longrightarrow> same_sale s s'" "applyGlobalDiscount now d s = (r, s') \<Longrightarrow> same_sale s s'"
  by (auto simp: addItem_def updateItemQuantity_def clearItems_def removeItem_def overrideItemPrice_def
      applyItemDiscount_def removeItemDiscount_def applyGlobalDiscount_def result_simps Let_def
      split: if_splits option.splits prod.splits dest: with_item_same) (simp_all add: same_sale_def)

lemma global_same: "same_sale s (snd (applyGlobalDiscount now d s))"
  by (rule lines_same(8), rule surjective_pairing)

lemma owner_same:
  "setGlobalPriceList l e s = Inr s' \<Longrightarrow> same_sale s s'" "assignCustomer c a s = Inr s' \<Longrightarrow> same_sale s s'"
  "captureShippingAddress b s = Inr s' \<Longrightarrow> same_sale s s'" "clearCustomer s = Inr s' \<Longrightarrow> same_sale s s'"
  "setShippingAddress a s = Inr s' \<Longrightarrow> same_sale s s'" "seed_list k s = Inr s' \<Longrightarrow> same_sale s s'"
  by (auto simp: setGlobalPriceList_def assignCustomer_def captureShippingAddress_def clearCustomer_def
      setShippingAddress_def seed_list_def same_sale_def result_simps Let_def split: if_splits option.splits)

lemma prune_same: "same_sale s (prune_opt_ins ts s)"
proof -
  have "same_sale s (foldl (\<lambda>s p. if p \<in> set ts then s else optOutManualPromotion p s) s ps)" for ps
    by (induction ps arbitrary: s) (auto intro: same_sale_trans flags_same)
  then show ?thesis by (simp add: prune_opt_ins_def)
qed

lemma apply_order_same: "same_sale s (apply_order r (s\<lparr>sa_items := its\<rparr>))"
  by (simp add: same_sale_def apply_order_def setAppliedOrderPromotion_def clearAppliedOrderPromotion_def
      split: option.split)

lemma recomputed_same:
  assumes "recomputed env x s = Inr (s', y)"
  shows "same_sale s s'" and "sa_status s = SaleDraft"
proof -
  from assms obtain d e where "recomputePricingAndPromotions (dfe_pricing env) False False s = Inr (s', d, e)"
    by (auto simp: recomputed_def result_simps)
  then obtain r its ts o' where draft: "ensureDraft s = Inr ()"
    and r: "repriceNonStickyLines (pce_catalog (dfe_pricing env)) (s\<lparr>sa_items := map clear_promotion (sa_items s)\<rparr>) = Inr r"
    and s': "s' = prune_opt_ins ts (apply_order o' (r\<lparr>sa_items := its\<rparr>))"
    by (auto simp: recomputePricingAndPromotions_def result_simps Let_def)
  from r have "same_sale s r" by (auto simp: repriceNonStickyLines_def Let_def same_sale_def result_simps split: if_splits)
  with apply_order_same prune_same show "same_sale s s'" unfolding s' by (blast intro: same_sale_trans)
  from draft show "sa_status s = SaleDraft" by (simp add: ensureDraft_def throw_if_def split: if_splits)
qed

lemma loadedD:
  "loaded_own i user db = Inr s \<Longrightarrow> load_sale i db = Some s \<and> sa_status s = SaleDraft"
  "loaded_draft i user db = Inr s \<Longrightarrow> load_sale i db = Some s \<and> sa_status s = SaleDraft"
  "loaded_for i user db = Inr s \<Longrightarrow> load_sale i db = Some s"
  by (auto simp: loaded_own_def loaded_draft_def loaded_for_def ensureDraft_def result_simps throw_if_def
      split: option.splits if_splits)

definition writes :: "timestamp \<Rightarrow> ident \<Rightarrow> sales_db \<Rightarrow> sale \<Rightarrow> bool" where
  "writes now i db s \<longleftrightarrow>
     (\<exists>s0. load_sale i db = Some s0 \<and> same_sale s0 s \<and>
        (sa_status s0 = SaleDraft \<or> (\<exists>itemId d. applyItemDiscount now itemId d s0 = Inr s)))"

definition kept_or_written :: "timestamp \<Rightarrow> ident \<Rightarrow> draft_desk \<Rightarrow> draft_desk \<Rightarrow> bool" where
  "kept_or_written now i st st' \<longleftrightarrow>
     ddk_sales st' = ddk_sales st \<or> delete_sale i (ddk_sales st) = Inr (ddk_sales st') \<or>
     (\<exists>s intent. writes now i (ddk_sales st) s \<and> writeImpl now intent s (ddk_sales st) = Inr (ddk_sales st'))"

lemma kept_same [simp]: "kept_or_written now i st st"
  by (simp add: kept_or_written_def)

lemma saved_writes:
  assumes "saved save change events answer st = (a, st')" and "save = save_sale now \<or> save = saveDraftItems now"
    and "\<And>s x. change = Inr (s, x) \<Longrightarrow> writes now i (ddk_sales st) s"
  shows "kept_or_written now i st st'"
  using assms(1)
proof (cases rule: saved_cases)
  case (wrote s x db)
  then obtain intent where "writeImpl now intent s (ddk_sales st) = Inr db"
    using assms(2) by (auto simp: save_sale_def saveDraftItems_def result_simps)
  with assms(3) [OF wrote(1)] wrote(4) show ?thesis by (auto simp: kept_or_written_def)
qed simp

lemma writesI: "load_sale i db = Some s0 \<and> sa_status s0 = SaleDraft \<Longrightarrow> same_sale s0 s \<Longrightarrow> writes now i db s"
  by (auto simp: writes_def)

lemma recomputed_writes:
  assumes "recomputed env x s1 = Inr (s, y)" and "load_sale i db = Some s0" and "same_sale s0 s1"
  shows "writes now i db s"
  using recomputed_same [OF assms(1)] assms(2,3)
  by (intro writesI) (auto simp: same_sale_def)

lemma drop_writes:
  assumes "drop_address_copy env s st = (a, st')" and "load_sale i (ddk_sales st) = Some s \<and> sa_status s = SaleDraft"
  shows "kept_or_written (dfe_now env) i st st'"
proof (cases "sa_shippingAddressSnapshot s = None")
  case False
  with assms(1) have "saved (save_sale (dfe_now env)) (mapR (\<lambda>s'. (s', ())) (setShippingAddress None s))
      (\<lambda>_ _. []) empty_answer st = (a, st')" by (simp add: drop_address_copy_def)
  then show ?thesis
    by (rule saved_writes) (use assms(2) in \<open>auto simp: result_simps intro: writesI owner_same\<close>)
qed (use assms(1) in \<open>simp add: drop_address_copy_def\<close>)

lemma address_writes:
  assumes "clearShippingAddress env i user st = (a, st')"
  shows "kept_or_written (dfe_now env) i st st'"
proof (cases "loaded_draft i user (ddk_sales st)")
  case (Inr s)
  show ?thesis
  proof (cases "truthy (sa_shippingAddressId s)")
    case True
    with assms have "saved (save_sale (dfe_now env)) (mapR (\<lambda>s'. (s', sa_shippingAddressId s)) (setShippingAddress None s))
        (\<lambda>s address. [ShippingAddressCleared (sa_id s) (dfe_tenantId env) user address]) empty_answer st = (a, st')"
      by (simp add: clearShippingAddress_def Inr)
    then show ?thesis
      by (rule saved_writes) (use loadedD(2) [OF Inr] in \<open>auto simp: result_simps intro: writesI owner_same\<close>)
  qed (use assms drop_writes loadedD(2) [OF Inr] in \<open>simp add: clearShippingAddress_def Inr\<close>)
qed (use assms in \<open>simp add: clearShippingAddress_def\<close>)

lemma customer_same:
  "seed_list k s = Inr s1 \<Longrightarrow> assignCustomer c b s1 = Inr s2 \<Longrightarrow> captureShippingAddress d s2 = Inr s3 \<Longrightarrow>
   same_sale s s3"
  using owner_same same_sale_trans by metis

lemma assigned_writes:
  "load_sale i db = Some s \<Longrightarrow> seed_list k s = Inr s1 \<Longrightarrow> assignCustomer c b s1 = Inr s2 \<Longrightarrow>
   captureShippingAddress d s2 = Inr s3 \<Longrightarrow> recomputed env x s3 = Inr (s', y) \<Longrightarrow> writes now i db s'"
  using recomputed_writes customer_same by metis

lemma request_writes:
  assumes "run_draft env i user cmd st = (a, st')"
  shows "kept_or_written (dfe_now env) i st st'"
proof -
  note intros = writesI recomputed_writes lines_same owner_same flags_same
  show ?thesis
  proof (cases cmd)
    case (AddItem dto)
    from assms [unfolded AddItem run_draft.simps SalesService_addItem_def] show ?thesis
      by (rule saved_writes) (auto simp: result_simps dest!: loadedD(1) intro: intros)
  next
    case (ChangeQuantity itemId n)
    from assms [unfolded ChangeQuantity run_draft.simps SalesService_updateItemQuantity_def] show ?thesis
      by (rule saved_writes) (auto simp: result_simps dest!: loadedD(1) intro: intros split: option.splits)
  next
    case ClearItems
    from assms [unfolded ClearItems run_draft.simps SalesService_clearItems_def] show ?thesis
      by (rule saved_writes) (auto simp: result_simps dest!: loadedD(1) intro: intros)
  next
    case (RemoveItem itemId)
    from assms [unfolded RemoveItem run_draft.simps SalesService_removeItem_def] show ?thesis
      by (rule saved_writes) (auto simp: result_simps dest!: loadedD(3) intro: intros)
  next
    case DeleteDraft
    with assms show ?thesis
      by (auto simp: deleteDraft_def kept_or_written_def result_simps split: sum.splits)
  next
    case (AssignCustomer c b)
    from assms [unfolded AssignCustomer run_draft.simps SalesService_assignCustomer_def] show ?thesis
      by (rule saved_writes) (auto simp: result_simps dest!: loadedD(2)
        intro: assigned_writes split: option.splits)
  next
    case ClearCustomer
    show ?thesis
    proof (cases "loaded_draft i user (ddk_sales st)")
      case (Inr s)
      have drop: "kept_or_written (dfe_now env) i st st'" if "drop_address_copy env s st = (a, st')" for a st'
        using drop_writes that loadedD(2) [OF Inr] by blast
      show ?thesis
      proof (cases "truthy (sa_customerId s)")
        case True
        with assms have "saved (save_sale (dfe_now env))
            (mapR (\<lambda>s'. (s', (sa_customerId s, sa_shippingAddressId s))) (clearCustomer s))
            (\<lambda>s (customer, address).
               CustomerCleared (sa_id s) (dfe_tenantId env) user customer address #
               (if truthy address
                then [ShippingAddressCleared (sa_id s) (dfe_tenantId env) user address] else []))
            empty_answer st = (a, st')"
          by (simp add: ClearCustomer SalesService_clearCustomer_def Inr)
        then show ?thesis
          by (rule saved_writes) (use loadedD(2) [OF Inr] in \<open>auto simp: result_simps intro: intros\<close>)
      qed (use assms drop in \<open>simp add: ClearCustomer SalesService_clearCustomer_def Inr\<close>)
    qed (use assms in \<open>simp add: ClearCustomer SalesService_clearCustomer_def\<close>)
  next
    case (SetShippingAddress b)
    show ?thesis
    proof (cases b)
      case None
      with assms show ?thesis using address_writes
        by (auto simp: SetShippingAddress SalesService_setShippingAddress_def split: prod.splits)
    next
      case (Some x)
      from assms [unfolded SetShippingAddress Some run_draft.simps SalesService_setShippingAddress_def option.case]
      show ?thesis
        by (rule saved_writes) (auto simp: result_simps dest!: loadedD(2) intro: intros same_sale_trans)
    qed
  next
    case ClearShippingAddress
    with assms address_writes show ?thesis by simp
  next
    case (SetPriceList l)
    from assms [unfolded SetPriceList run_draft.simps setSalePriceList_def] show ?thesis
      by (rule saved_writes) (auto simp: result_simps dest!: loadedD(2) intro: intros)
  next
    case (AvailablePrices itemId)
    with assms show ?thesis by (simp add: getAvailablePrices_def)
  next
    case (OverridePrice itemId dto)
    from assms [unfolded OverridePrice run_draft.simps SalesService_overrideItemPrice_def] show ?thesis
      by (rule saved_writes) (auto simp: result_simps dest!: loadedD(2) intro: intros split: option.splits)
  next
    case (ApplyItemDiscount itemId dto)
    from assms [unfolded ApplyItemDiscount run_draft.simps SalesService_applyItemDiscount_def] show ?thesis
      by (rule saved_writes) (auto simp: result_simps writes_def dest!: loadedD(3) intro: lines_same)
  next
    case (RemoveItemDiscount itemId)
    from assms [unfolded RemoveItemDiscount run_draft.simps SalesService_removeItemDiscount_def] show ?thesis
      by (rule saved_writes) (auto simp: result_simps dest!: loadedD(3) intro: intros)
  next
    case (ApplyGlobalDiscount dto)
    from assms [unfolded ApplyGlobalDiscount run_draft.simps SalesService_applyGlobalDiscount_def] show ?thesis
      by (rule saved_writes) (auto simp: result_simps case_prod_unfold dest!: loadedD(2) intro: writesI global_same)
  next
    case RemoveGlobalDiscount
    from assms [unfolded RemoveGlobalDiscount run_draft.simps SalesService_removeGlobalDiscount_def] show ?thesis
      by (rule saved_writes) (auto simp: result_simps dest!: loadedD(2) intro: intros)
  next
    case ApplicablePromotions
    with assms show ?thesis by (simp add: listApplicablePromotions_def)
  next
    case (ApplyManualPromotion p)
    from assms [unfolded ApplyManualPromotion run_draft.simps applyManualPromotion_def] show ?thesis
      by (rule saved_writes) (auto simp: result_simps dest!: loadedD(2) intro: intros)
  next
    case (RemoveManualPromotion p)
    from assms [unfolded RemoveManualPromotion run_draft.simps removeManualPromotion_def] show ?thesis
      by (rule saved_writes) (auto simp: result_simps dest!: loadedD(2) intro: intros)
  next
    case (RemoveAppliedPromotion p)
    from assms [unfolded RemoveAppliedPromotion run_draft.simps removeAppliedPromotion_def] show ?thesis
      by (rule saved_writes) (auto simp: result_simps dest!: loadedD(2) intro: intros split: if_splits)
  qed
qed

subsection \<open>Charged sales\<close>

lemma rows_eq:
  assumes "snapshotItemsEqual its rows i" and "map si_id its = map sip_id rows"
  shows "map (toWriteRow i) its = rows"
proof (rule nth_equalityI)
  show len: "length (map (toWriteRow i) its) = length rows" using assms(1) by (simp add: snapshotItemsEqual_def)
  fix k
  assume k: "k < length (map (toWriteRow i) its)"
  then have k': "k < length its" "k < length rows" using len by simp_all
  have id: "si_id (its ! k) = sip_id (rows ! k)" using assms(2) k' by (metis nth_map)
  have "find (\<lambda>q. sip_id q = sip_id (rows ! k)) rows = Some (rows ! k)"
  proof -
    have "distinct (map sip_id rows)" using assms(1) by (simp add: snapshotItemsEqual_def)
    then show ?thesis using k'(2)
    proof (induction rows arbitrary: k)
      case (Cons q rows)
      then show ?case by (cases k) (auto simp: nth_mem image_iff)
    qed simp
  qed
  moreover have "find (\<lambda>r. sip_id r = si_id (its ! k)) rows = Some (toWriteRow i (its ! k))"
    using assms(1) k'(1) by (simp add: snapshotItemsEqual_def)
  ultimately show "map (toWriteRow i) its ! k = rows ! k" using k' id by simp
qed

lemma discounted_fields:
  assumes "applyItemDiscount now itemId d s = Inr s'"
  shows "s' = s\<lparr>sa_items := sa_items s'\<rparr> \<and> map si_id (sa_items s') = map si_id (sa_items s)"
proof -
  from assms obtain it it' where it: "find (has_id itemId) (sa_items s) = Some it"
    "applyDiscount now d it = Inr it'" "s' = s\<lparr>sa_items := update_first (has_id itemId) (\<lambda>_. it') (sa_items s)\<rparr>"
    by (auto simp: applyItemDiscount_def with_item_def result_simps split: option.splits)
  from it(2) have id: "si_id it' = si_id it" by (auto elim: applyDiscountE)
  have "map si_id (update_first (has_id itemId) (\<lambda>_. it') xs) = map si_id xs"
    if "find (has_id itemId) xs = Some it" for xs
    using that by (induction xs) (auto simp: id split: if_splits)
  with it show ?thesis by simp
qed

lemma write_same:
  "write_columns now False (slr_dueDate r) (slr_confirmedAt r) (Sale_fromPersistence (loaded_props r)\<lparr>sa_items := its\<rparr>) r =
     r\<lparr>slr_updatedAt := now, slr_items := map (toWriteRow (slr_id r)) its\<rparr>"
  by (cases r) (simp add: write_columns_def Sale_fromPersistence_def loaded_props_def)

lemma delete_sales:
  "delete_sale i db = Inr db' \<Longrightarrow> (\<exists>q. find_sale i db = Some q \<and> slr_status q = SaleDraft) \<and>
   sls_sales db' = remove_first (is_sale i) (sls_sales db)"
  by (auto simp: delete_sale_def result_simps throw_if_def split: option.splits if_splits)

text \<open>
  A line discount on a charged sale, the one change that is not refused beforehand, is
  saved only when it changes nothing.
\<close>

lemma discount_rewrites_same:
  assumes q: "find_sale i db = Some r" and nd: "slr_status r \<noteq> SaleDraft"
    and d: "applyItemDiscount now itemId d (Sale_fromPersistence (loaded_props r)) = Inr s"
    and w: "writeImpl now intent s db = Inr db'"
  shows "find_sale i db' = Some (r\<lparr>slr_updatedAt := now\<rparr>)"
proof -
  let ?s0 = "Sale_fromPersistence (loaded_props r)"
  note s = discounted_fields [OF d] and row = load_sale_row [OF q]
  obtain its where its: "s = ?s0\<lparr>sa_items := its\<rparr>" using s by blast
  have id: "sa_id s = i" "sa_status s \<noteq> SaleDraft" using row(3,4) nd by (simp_all add: its)
  have idr: "slr_id r = i" using find_sale_SomeD [OF q] by simp
  from w show ?thesis
  proof (cases rule: write_find)
    case (1 due confirmed)
    have "snapshotItemsEqual its (slr_items r) i"
      using 1(3) q id nd by (auto simp: check_intent_def throw_if_def its split: write_intent.splits if_splits)
    moreover have "map si_id its = map sip_id (slr_items r)"
      using conjunct2 [OF s]
      by (simp add: its Sale_fromPersistence_def loaded_props_def SaleItem_fromPersistence_def item_of_props_def comp_def)
    ultimately have items: "map (toWriteRow i) its = slr_items r" by (rule rows_eq)
    have stored: "stored_date (map_option ValidDate t) = Inr t" for t by (cases t) simp_all
    have "sa_dueDate s = map_option ValidDate (slr_dueDate r)"
        "sa_confirmedAt s = map_option ValidDate (slr_confirmedAt r)"
      by (simp_all add: its Sale_fromPersistence_def loaded_props_def)
    with 1(1,2) stored have dates: "due = slr_dueDate r" "confirmed = slr_confirmedAt r" by simp_all
    have "write_columns now False due confirmed s r = r\<lparr>slr_updatedAt := now, slr_items := map (toWriteRow i) its\<rparr>"
      unfolding dates its using write_same [of now r its] idr by simp
    also have "\<dots> = r\<lparr>slr_updatedAt := now\<rparr>" unfolding items by simp
    finally show ?thesis using 1(4) [of i] id q nd by simp
  qed
qed

lemma other_removed: "i \<noteq> j \<Longrightarrow> find (is_sale i) (remove_first (is_sale j) xs) = find (is_sale i) xs"
  by (induction xs) (auto simp: is_sale_def)

text \<open>
  Property C25: a charged sale is out of reach of the draft requests.  Whatever request
  is made on whatever sale, by its cashier or not, accepted or not, the row of every
  sale that is confirmed or cancelled keeps every column, its lines included, except
  the time of its last update.
\<close>

theorem requests_keep_charged_sales:
  assumes "run_draft env saleId user cmd st = (a, st')"
    and "find_sale i (ddk_sales st) = Some r" and "slr_status r \<noteq> SaleDraft"
  shows "\<exists>t. find_sale i (ddk_sales st') = Some (r\<lparr>slr_updatedAt := t\<rparr>)"
proof -
  have kept: "find_sale i (ddk_sales st) = Some (r\<lparr>slr_updatedAt := slr_updatedAt r\<rparr>)" using assms(2) by simp
  from request_writes [OF assms(1)] consider (same) "ddk_sales st' = ddk_sales st"
    | (deleted) "delete_sale saleId (ddk_sales st) = Inr (ddk_sales st')"
    | (written) s intent where "writes (dfe_now env) saleId (ddk_sales st) s"
        "writeImpl (dfe_now env) intent s (ddk_sales st) = Inr (ddk_sales st')"
    unfolding kept_or_written_def by blast
  then show ?thesis
  proof cases
    case same
    with kept show ?thesis by metis
  next
    case deleted
    note d = delete_sales [OF deleted]
    with assms(2,3) have "i \<noteq> saleId" by auto
    with kept d other_removed show ?thesis by (metis find_sale_def)
  next
    case (written s intent)
    then obtain q where q: "find_sale saleId (ddk_sales st) = Some q"
      and w: "same_sale (Sale_fromPersistence (loaded_props q)) s" "slr_status q = SaleDraft \<or>
        (\<exists>itemId d. applyItemDiscount (dfe_now env) itemId d (Sale_fromPersistence (loaded_props q)) = Inr s)"
      using load_sale_row(3) by (fastforce simp: writes_def load_sale_def)
    have id: "sa_id s = saleId" using w(1) load_sale_row(4) [OF q] by (simp add: same_sale_def)
    show ?thesis
    proof (cases "i = saleId")
      case True
      with q assms(2,3) w(2) discount_rewrites_same [OF assms(2,3) _ written(2)] show ?thesis by auto
    next
      case False
      with written(2) kept id show ?thesis by (cases rule: write_find) metis
    qed
  qed
qed

text \<open>One draft and one charged sale of the same cashier.\<close>

definition counter_env :: draft_env where
  "counter_env = \<lparr>dfe_pricing = sample_pricing, dfe_today = 0, dfe_uuid = ''n1'', dfe_customer = (\<lambda>_. None),
     dfe_address = (\<lambda>_. None), dfe_user = (\<lambda>_. True), dfe_tenantId = ''t1''\<rparr>"

definition counter_row :: "ident \<Rightarrow> sale_status \<Rightarrow> sale_row" where
  "counter_row i status = (new_row 1 sample_sale)
     \<lparr>slr_id := i, slr_status := status, slr_items := [toWriteRow i sample_item]\<rparr>"

definition counter_desk :: draft_desk where
  "counter_desk = \<lparr>ddk_sales = \<lparr>sls_sales = [counter_row ''s1'' SaleDraft, counter_row ''s2'' SaleConfirmed],
     sls_payments = [], sls_refunds = [], sls_settlements = [], sls_slots = [], sls_folios = [],
     sls_outbox = []\<rparr>, ddk_events = []\<rparr>"

lemma counter_rows:
  "find_sale ''s1'' (ddk_sales counter_desk) = Some (counter_row ''s1'' SaleDraft)"
  "find_sale ''s2'' (ddk_sales counter_desk) = Some (counter_row ''s2'' SaleConfirmed)"
  "slr_userId (counter_row i status) = ''u1''" "slr_status (counter_row i status) = status"
  by (simp_all add: counter_desk_def find_sale_def is_sale_def counter_row_def new_row_def sample_sale_simps)

theorem strangers_change_nothing_witness:
  "\<exists>e. run_draft counter_env ''s1'' ''u2'' DeleteDraft counter_desk = (Inl e, counter_desk)"
  by (rule strangers_change_nothing [OF counter_rows(1)]) (simp add: counter_rows)

theorem requests_keep_charged_sales_witness:
  "\<exists>t. find_sale ''s2'' (ddk_sales (snd (run_draft counter_env ''s1'' ''u1'' ClearItems counter_desk))) =
     Some (counter_row ''s2'' SaleConfirmed\<lparr>slr_updatedAt := t\<rparr>)"
  by (rule requests_keep_charged_sales [OF surjective_pairing counter_rows(2)]) (simp add: counter_rows)

theorem saved_draft_is_loaded_witness:
  "\<exists>db s'. writeImpl 5 IntentDraft sample_sale (ddk_sales counter_desk) = Inr db \<and>
     load_sale ''s1'' db = Some s' \<and> previewTotals s' = previewTotals sample_sale"
proof -
  have "\<exists>db. writeImpl 5 IntentDraft sample_sale (ddk_sales counter_desk) = Inr db"
    using counter_rows by (simp add: writeImpl_def check_intent_def sample_sale_simps throw_if_def)
  then obtain db where db: "writeImpl 5 IntentDraft sample_sale (ddk_sales counter_desk) = Inr db" ..
  have "sa_id sample_sale = ''s1''" by (simp add: sample_sale_simps)
  with saved_draft_is_loaded [OF db] db show ?thesis by auto
qed

end
