(* ===== verification/QuotationItem.thy ===== *)
theory QuotationItem
  imports SaleItem
begin

section \<open>Quotation items and their tax\<close>

text \<open>
  \<open>src/src/quotations/domain/quotation-item.entity.ts\<close> and \<open>quotation-tax.types.ts\<close>:
  one line of a quotation with the tax classification it froze.  As in \<open>SaleItem\<close>,
  a method checks before it writes, so a failing call leaves the line as it was.
  The column of the rate is an enumeration; \<open>rate_of\<close> reads its four values.
\<close>

subsection \<open>Tax classifications\<close>

datatype iva_rate = RateIva16 | RateIva8 | RateIva0 | RateExento
datatype iva_class = Classified iva_rate | NotTaxable

definition IVA_CLASSIFICATION_BUCKET_ORDER :: "iva_class list" where
  "IVA_CLASSIFICATION_BUCKET_ORDER =
     [Classified RateIva16, Classified RateIva8, Classified RateIva0, Classified RateExento, NotTaxable]"

fun IVA_RATE_PERCENT :: "iva_rate \<Rightarrow> int" where
  "IVA_RATE_PERCENT RateIva16 = 16"
| "IVA_RATE_PERCENT RateIva8 = 8"
| "IVA_RATE_PERCENT RateIva0 = 0"
| "IVA_RATE_PERCENT RateExento = 0"

text \<open>The strings \<open>isQuotationIvaRateClassification\<close> accepts, with the rate they name.\<close>

definition rate_of :: "string \<Rightarrow> iva_rate option" where
  "rate_of s =
     (if s = ''IVA_16'' then Some RateIva16 else if s = ''IVA_8'' then Some RateIva8
      else if s = ''IVA_0'' then Some RateIva0 else if s = ''IVA_EXENTO'' then Some RateExento
      else None)"

subsection \<open>Data\<close>

datatype quote_source = QuotePriceList | QuoteCustom

record quote_item_props =
  qip_id :: ident
  qip_quotationId :: ident
  qip_productId :: ident
  qip_variantId :: "ident option"
  qip_productName :: string
  qip_variantName :: "string option"
  qip_quantity :: js_number
  qip_unitPriceCents :: js_number
  qip_unitPriceCurrency :: "string option"
  qip_priceSource :: "quote_source option"
  qip_appliedPriceListId :: "ident option"
  qip_customPriceCents :: "cents option"
  qip_discountType :: "discount_kind option"
  qip_discountValue :: "int option"
  qip_discountAmountCents :: "cents option"
  qip_promotionId :: "ident option"
  qip_taxableBaseCents :: "cents option"
  qip_ivaRateClassification :: "iva_rate option"
  qip_chargeProductTaxesSnapshot :: "bool option"
  qip_createdAt :: "timestamp option"
  qip_updatedAt :: "timestamp option"

record quote_item =
  qit_id :: ident
  qit_quotationId :: ident
  qit_productId :: ident
  qit_variantId :: "ident option"
  qit_productName :: string
  qit_variantName :: "string option"
  qit_quantity :: int
  qit_unitPriceCents :: cents
  qit_unitPriceCurrency :: string
  qit_priceSource :: quote_source
  qit_appliedPriceListId :: "ident option"
  qit_customPriceCents :: "cents option"
  qit_discountType :: "discount_kind option"
  qit_discountValue :: "int option"
  qit_discountAmountCents :: cents
  qit_discountTitle :: "string option"
  qit_promotionId :: "ident option"
  qit_taxableBaseCents :: "cents option"
  qit_ivaRateClassification :: "iva_rate option"
  qit_chargeProductTaxesSnapshot :: "bool option"
  qit_createdAt :: "timestamp option"
  qit_updatedAt :: "timestamp option"

text \<open>The inputs of a discount are the engine's integers.\<close>

record quote_discount_input =
  qdi_type :: discount_kind
  qdi_amountCents :: "int option"
  qdi_percent :: "int option"
  qdi_discountTitle :: "string option"
  qdi_promotionId :: "ident option"

record quote_price_input =
  qpi_priceCents :: js_number
  qpi_priceSource :: quote_source
  qpi_appliedPriceListId :: "ident option"
  qpi_customPriceCents :: "cents option"

subsection \<open>Factories\<close>

text \<open>The title of a discount starts as \<open>null\<close> and has no property to come from.\<close>

definition quote_item_of :: "quote_item_props \<Rightarrow> quote_item" where
  "quote_item_of p =
     \<lparr>qit_id = qip_id p, qit_quotationId = qip_quotationId p, qit_productId = qip_productId p,
      qit_variantId = qip_variantId p, qit_productName = qip_productName p,
      qit_variantName = qip_variantName p, qit_quantity = js_trunc (qip_quantity p),
      qit_unitPriceCents = js_trunc (qip_unitPriceCents p),
      qit_unitPriceCurrency = or_default (qip_unitPriceCurrency p) ''MXN'',
      qit_priceSource = or_default (qip_priceSource p) QuotePriceList,
      qit_appliedPriceListId = qip_appliedPriceListId p,
      qit_customPriceCents = qip_customPriceCents p, qit_discountType = qip_discountType p,
      qit_discountValue = qip_discountValue p,
      qit_discountAmountCents = or_default (qip_discountAmountCents p) 0,
      qit_discountTitle = None, qit_promotionId = qip_promotionId p,
      qit_taxableBaseCents = qip_taxableBaseCents p,
      qit_ivaRateClassification = qip_ivaRateClassification p,
      qit_chargeProductTaxesSnapshot = qip_chargeProductTaxesSnapshot p,
      qit_createdAt = qip_createdAt p, qit_updatedAt = qip_updatedAt p\<rparr>"

fun at_least :: "int \<Rightarrow> js_number \<Rightarrow> bool" where
  "at_least k (JsInt n) = (k \<le> n)"
| "at_least k _ = False"

definition QuotationItem_create :: "quote_item_props \<Rightarrow> quote_item result" where
  "QuotationItem_create p =
     (if is_blank (qip_id p) then Inl (invalid_argument ''QuotationItem ID cannot be empty'')
      else if is_blank (qip_productId p) then Inl (invalid_argument ''Product ID cannot be empty'')
      else if is_blank (qip_productName p) then Inl (invalid_argument ''Product name cannot be empty'')
      else if \<not> at_least 1 (qip_quantity p) then Inl (invalid_argument ''Quantity must be at least 1'')
      else if \<not> at_least 0 (qip_unitPriceCents p)
        then Inl (invalid_argument ''Unit price cannot be negative'')
      else Inr (quote_item_of p))"

definition QuotationItem_fromPersistence :: "quote_item_props \<Rightarrow> quote_item" where
  "QuotationItem_fromPersistence p = quote_item_of p"

subsection \<open>Reads\<close>

definition quote_subtotalCents :: "quote_item \<Rightarrow> cents" where
  "quote_subtotalCents it = qit_unitPriceCents it * qit_quantity it"

definition hasCompleteTaxSnapshot :: "quote_item \<Rightarrow> bool" where
  "hasCompleteTaxSnapshot it \<longleftrightarrow>
     qit_taxableBaseCents it \<noteq> None \<and> qit_ivaRateClassification it \<noteq> None \<and>
     qit_chargeProductTaxesSnapshot it \<noteq> None"

definition effectiveIvaClassification :: "quote_item \<Rightarrow> iva_class option" where
  "effectiveIvaClassification it =
     (case (qit_ivaRateClassification it, qit_chargeProductTaxesSnapshot it) of
        (Some r, Some charge) \<Rightarrow> Some (if charge then Classified r else NotTaxable)
      | _ \<Rightarrow> None)"

definition includedIvaCents :: "quote_item \<Rightarrow> cents option" where
  "includedIvaCents it =
     (if \<not> hasCompleteTaxSnapshot it then None
      else Some (qit_unitPriceCents it * qit_quantity it - or_default (qit_taxableBaseCents it) 0))"

definition quote_matches :: "quote_item \<Rightarrow> ident \<Rightarrow> ident option \<Rightarrow> bool" where
  "quote_matches it productId variantId \<longleftrightarrow>
     qit_productId it = productId \<and> qit_variantId it = variantId"

subsection \<open>Mutations\<close>

definition quote_changeQuantity :: "js_number \<Rightarrow> quote_item \<Rightarrow> quote_item result" where
  "quote_changeQuantity n it =
     (if \<not> at_least 1 n then Inl (invalid_argument ''Quantity must be at least 1'')
      else Inr (it\<lparr>qit_quantity := js_trunc n\<rparr>))"

text \<open>The title is not among the fields it clears.\<close>

definition quote_clearDiscountFields :: "quote_item \<Rightarrow> quote_item" where
  "quote_clearDiscountFields it =
     it\<lparr>qit_discountType := None, qit_discountValue := None, qit_discountAmountCents := 0,
        qit_promotionId := None\<rparr>"

definition quote_reprice :: "js_number \<Rightarrow> quote_source \<Rightarrow> ident option \<Rightarrow> quote_item \<Rightarrow> quote_item result" where
  "quote_reprice priceCents source appliedPriceListId it =
     (if source = QuoteCustom then Inl (invalid_argument ''INVALID_REPRICE_INPUT'')
      else if \<not> at_least 0 priceCents then Inl (invalid_argument ''INVALID_REPRICE_INPUT'')
      else Inr (it\<lparr>qit_unitPriceCents := js_trunc priceCents, qit_priceSource := source,
        qit_appliedPriceListId := appliedPriceListId\<rparr>))"

definition quote_overridePrice :: "quote_price_input \<Rightarrow> quote_item \<Rightarrow> quote_item result" where
  "quote_overridePrice i it =
     (if qpi_priceSource i = QuotePriceList \<and>
         (\<not> truthy (qpi_appliedPriceListId i) \<or> qpi_customPriceCents i \<noteq> None)
        then Inl (invalid_argument ''INVALID_PRICE_OVERRIDE_INPUT'')
      else if qpi_priceSource i = QuoteCustom \<and>
         (falsy_number (qpi_customPriceCents i) \<or> qpi_appliedPriceListId i \<noteq> None)
        then Inl (invalid_argument ''INVALID_PRICE_OVERRIDE_INPUT'')
      else if \<not> at_least 0 (qpi_priceCents i)
        then Inl (invalid_argument ''INVALID_PRICE_OVERRIDE_INPUT'')
      else Inr (quote_clearDiscountFields
        (it\<lparr>qit_unitPriceCents := js_trunc (qpi_priceCents i), qit_priceSource := qpi_priceSource i,
            qit_appliedPriceListId := qpi_appliedPriceListId i,
            qit_customPriceCents := qpi_customPriceCents i\<rparr>)))"

definition quote_discountCents :: "quote_discount_input \<Rightarrow> cents \<Rightarrow> cents" where
  "quote_discountCents i baseline =
     (case qdi_type i of
        AmountDiscount \<Rightarrow> min (or_default (qdi_amountCents i) 0) baseline
      | PercentageDiscount \<Rightarrow>
          round_percent baseline (min (max (or_default (qdi_percent i) 0) 1) 99))"

definition quote_applyDiscount :: "quote_discount_input \<Rightarrow> quote_item \<Rightarrow> quote_item result" where
  "quote_applyDiscount i it =
     (if (qdi_amountCents i \<noteq> None) = (qdi_percent i \<noteq> None)
        then Inl (invalid_argument ''INVALID_DISCOUNT_INPUT'')
      else if qdi_type i = AmountDiscount \<and> qdi_amountCents i = None
        then Inl (invalid_argument ''INVALID_DISCOUNT_INPUT'')
      else if qdi_type i = PercentageDiscount \<and> qdi_percent i = None
        then Inl (invalid_argument ''INVALID_DISCOUNT_INPUT'')
      else
        let baseline = qit_unitPriceCents it;
            amount = quote_discountCents i baseline
        in if baseline - amount < 1 then Inl (invalid_argument ''DISCOUNT_AMOUNT_INVALID'')
           else Inr (it\<lparr>qit_discountType := Some (qdi_type i),
             qit_discountValue := (case qdi_type i of
               AmountDiscount \<Rightarrow> qdi_amountCents i | PercentageDiscount \<Rightarrow> qdi_percent i),
             qit_discountAmountCents := amount, qit_discountTitle := qdi_discountTitle i,
             qit_promotionId := qdi_promotionId i, qit_unitPriceCents := baseline - amount\<rparr>))"

definition quote_removeDiscount :: "quote_item \<Rightarrow> quote_item" where
  "quote_removeDiscount it =
     quote_clearDiscountFields
       (if 0 < qit_discountAmountCents it
        then it\<lparr>qit_unitPriceCents := qit_unitPriceCents it + qit_discountAmountCents it\<rparr> else it)"

subsection \<open>The tax snapshot\<close>

definition snapshotTaxClassification :: "iva_rate \<Rightarrow> bool \<Rightarrow> quote_item \<Rightarrow> quote_item" where
  "snapshotTaxClassification rate charge it =
     it\<lparr>qit_ivaRateClassification := Some rate, qit_chargeProductTaxesSnapshot := Some charge\<rparr>"

text \<open>The base without tax of an amount with tax, to the nearest cent.\<close>

definition taxable_base :: "int \<Rightarrow> cents \<Rightarrow> cents" where
  "taxable_base percent inclusive =
     (let divisor = 100 + percent in (inclusive * 100 + divisor div 2) div divisor)"

definition recomputeTaxableBase :: "quote_item \<Rightarrow> quote_item result" where
  "recomputeTaxableBase it =
     (case (qit_ivaRateClassification it, qit_chargeProductTaxesSnapshot it) of
        (Some rate, Some charge) \<Rightarrow>
          let inclusive = qit_unitPriceCents it * qit_quantity it in
          if inclusive < 0 then Inl (invalid_argument ''INVALID_INCLUSIVE_LINE_CENTS'')
          else Inr (it\<lparr>qit_taxableBaseCents :=
            Some (taxable_base (if charge then IVA_RATE_PERCENT rate else 0) inclusive)\<rparr>)
      | _ \<Rightarrow> Inl (invalid_argument ''TAX_SNAPSHOT_INCOMPLETE''))"

end
