(* ===== verification/Quotation.thy ===== *)
theory Quotation
  imports QuotationItem Complex_Main
begin

section \<open>Quotations\<close>

text \<open>
  The aggregate of \<open>src/src/quotations/domain/quotation.entity.ts\<close>: a method that
  changes the quotation in place returns it, and throws before it writes.  A status
  transition builds a new aggregate.  The tax rate is a rational number; the clock is
  an argument.
\<close>

subsection \<open>Data\<close>

datatype quotation_status = QuoteDraft | QuoteSent | QuoteExpired | QuoteCancelled
datatype quotation_cancel_reason = CustomerRequest | PriceObjection | ReasonExpired | ReasonOther

fun quotation_status_name :: "quotation_status \<Rightarrow> string" where
  "quotation_status_name QuoteDraft = ''DRAFT''"
| "quotation_status_name QuoteSent = ''SENT''"
| "quotation_status_name QuoteExpired = ''EXPIRED''"
| "quotation_status_name QuoteCancelled = ''CANCELLED''"

record quotation_props =
  qup_id :: ident
  qup_sellerUserId :: ident
  qup_customerId :: "ident option"
  qup_globalPriceListId :: "ident option"
  qup_priceListExplicitlySet :: bool
  qup_status :: quotation_status
  qup_expiresAt :: "timestamp option"
  qup_cancelReason :: "quotation_cancel_reason option"
  qup_canceledAt :: "timestamp option"
  qup_subtotalCents :: cents
  qup_discountCents :: cents
  qup_totalCents :: cents
  qup_manuallyEnded :: bool
  qup_items :: "quote_item_props list"
  qup_vetoedPromotionIds :: "ident list"
  qup_optedInManualPromotionIds :: "ident list"
  qup_customerNotes :: "string option"
  qup_taxRate :: rat
  qup_createdAt :: timestamp
  qup_updatedAt :: timestamp

record quotation =
  quo_id :: ident
  quo_sellerUserId :: ident
  quo_status :: quotation_status
  quo_subtotalCents :: cents
  quo_discountCents :: cents
  quo_totalCents :: cents
  quo_manuallyEnded :: bool
  quo_cancelReason :: "quotation_cancel_reason option"
  quo_canceledAt :: "timestamp option"
  quo_createdAt :: "timestamp option"
  quo_updatedAt :: "timestamp option"
  quo_customerId :: "ident option"
  quo_globalPriceListId :: "ident option"
  quo_priceListExplicitlySet :: bool
  quo_expiresAt :: "js_date option"
  quo_items :: "quote_item list"
  quo_vetoedPromotionIds :: "ident list"
  quo_optedInManualPromotionIds :: "ident list"
  quo_customerNotes :: "string option"
  quo_taxRate :: rat

subsection \<open>Factories\<close>

definition Quotation_create :: "ident \<Rightarrow> ident \<Rightarrow> ident option \<Rightarrow> ident option \<Rightarrow> quotation result" where
  "Quotation_create quotationId sellerUserId customerId globalPriceListId =
     (if is_blank quotationId then Inl (invalid_argument ''Quotation ID cannot be empty'')
      else if is_blank sellerUserId then Inl (invalid_argument ''Seller user ID cannot be empty'')
      else Inr \<lparr>quo_id = quotationId, quo_sellerUserId = sellerUserId, quo_status = QuoteDraft,
        quo_subtotalCents = 0, quo_discountCents = 0, quo_totalCents = 0, quo_manuallyEnded = False,
        quo_cancelReason = None, quo_canceledAt = None, quo_createdAt = None, quo_updatedAt = None,
        quo_customerId = customerId, quo_globalPriceListId = globalPriceListId,
        quo_priceListExplicitlySet = False, quo_expiresAt = None, quo_items = [],
        quo_vetoedPromotionIds = [], quo_optedInManualPromotionIds = [],
        quo_customerNotes = None, quo_taxRate = 16 / 100\<rparr>)"

definition Quotation_fromPersistence :: "quotation_props \<Rightarrow> quotation" where
  "Quotation_fromPersistence p =
     \<lparr>quo_id = qup_id p, quo_sellerUserId = qup_sellerUserId p, quo_status = qup_status p,
      quo_subtotalCents = qup_subtotalCents p, quo_discountCents = qup_discountCents p,
      quo_totalCents = qup_totalCents p, quo_manuallyEnded = qup_manuallyEnded p,
      quo_cancelReason = qup_cancelReason p, quo_canceledAt = qup_canceledAt p,
      quo_createdAt = Some (qup_createdAt p), quo_updatedAt = Some (qup_updatedAt p),
      quo_customerId = qup_customerId p, quo_globalPriceListId = qup_globalPriceListId p,
      quo_priceListExplicitlySet = qup_priceListExplicitlySet p,
      quo_expiresAt = map_option ValidDate (qup_expiresAt p),
      quo_items = map QuotationItem_fromPersistence (qup_items p),
      quo_vetoedPromotionIds = qup_vetoedPromotionIds p,
      quo_optedInManualPromotionIds = qup_optedInManualPromotionIds p,
      quo_customerNotes = qup_customerNotes p, quo_taxRate = qup_taxRate p\<rparr>"

subsection \<open>Guards\<close>

definition quotation_not_draft :: "quotation_status \<Rightarrow> domain_error" where
  "quotation_not_draft status =
     BusinessRuleViolationError
       (''Quotation is in '' @ quotation_status_name status @ '' status; mutation is not allowed'')
       ''QUOTATION_NOT_DRAFT''"

definition ensureQuoteDraft :: "quotation \<Rightarrow> unit result" where
  "ensureQuoteDraft q = throw_if (quo_status q \<noteq> QuoteDraft) (quotation_not_draft (quo_status q))"

definition quotation_item_not_found :: "ident \<Rightarrow> domain_error" where
  "quotation_item_not_found itemId =
     BusinessRuleViolationError (''QuotationItem with id '' @ [CHR 0x22] @ itemId @ [CHR 0x22] @ '' not found'')
       ''QUOTATION_ITEM_NOT_FOUND''"

definition has_quote_id :: "ident \<Rightarrow> quote_item \<Rightarrow> bool" where
  "has_quote_id i it \<longleftrightarrow> qit_id it = i"

text \<open>\<open>this._items.find\<close>, then a method of the item found.\<close>

definition change_quote_item ::
  "ident \<Rightarrow> (quote_item \<Rightarrow> quote_item result) \<Rightarrow> quotation \<Rightarrow> quotation result" where
  "change_quote_item itemId f q =
     (case find (has_quote_id itemId) (quo_items q) of
        None \<Rightarrow> Inl (quotation_item_not_found itemId)
      | Some it \<Rightarrow>
          mapR (\<lambda>it'. q\<lparr>quo_items := update_first (has_quote_id itemId) (\<lambda>_. it') (quo_items q)\<rparr>) (f it))"

subsection \<open>Lines\<close>

definition Quotation_addItem :: "quote_item_props \<Rightarrow> quotation \<Rightarrow> quotation result" where
  "Quotation_addItem p q =
     andThen (ensureQuoteDraft q) (\<lambda>_.
     andThen (QuotationItem_create p) (\<lambda>new.
       let same = (\<lambda>it. quote_matches it (qit_productId new) (qit_variantId new)) in
       case find same (quo_items q) of
         Some existing \<Rightarrow>
           mapR (\<lambda>it'. q\<lparr>quo_items := update_first same (\<lambda>_. it') (quo_items q)\<rparr>)
             (quote_changeQuantity (JsInt (qit_quantity existing + qit_quantity new)) existing)
       | None \<Rightarrow> Inr (q\<lparr>quo_items := quo_items q @ [new]\<rparr>)))"

definition Quotation_updateItemQuantity :: "ident \<Rightarrow> js_number \<Rightarrow> quotation \<Rightarrow> quotation result" where
  "Quotation_updateItemQuantity itemId n q =
     andThen (ensureQuoteDraft q) (\<lambda>_.
       if \<not> at_least 1 n then Inl (invalid_argument ''Quantity must be at least 1'')
       else change_quote_item itemId (quote_changeQuantity n) q)"

definition Quotation_removeItem :: "ident \<Rightarrow> quotation \<Rightarrow> quotation result" where
  "Quotation_removeItem itemId q =
     andThen (ensureQuoteDraft q) (\<lambda>_.
       if find (has_quote_id itemId) (quo_items q) = None then Inl (quotation_item_not_found itemId)
       else Inr (q\<lparr>quo_items := remove_first (has_quote_id itemId) (quo_items q)\<rparr>))"

definition Quotation_clearItems :: "quotation \<Rightarrow> quotation result" where
  "Quotation_clearItems q = andThen (ensureQuoteDraft q) (\<lambda>_. Inr (q\<lparr>quo_items := []\<rparr>))"

definition Quotation_overrideItemPrice :: "ident \<Rightarrow> quote_price_input \<Rightarrow> quotation \<Rightarrow> quotation result" where
  "Quotation_overrideItemPrice itemId i q =
     andThen (ensureQuoteDraft q) (\<lambda>_. change_quote_item itemId (quote_overridePrice i) q)"

definition Quotation_applyItemDiscount :: "ident \<Rightarrow> quote_discount_input \<Rightarrow> quotation \<Rightarrow> quotation result" where
  "Quotation_applyItemDiscount itemId i q =
     andThen (ensureQuoteDraft q) (\<lambda>_. change_quote_item itemId (quote_applyDiscount i) q)"

subsection \<open>Customer, list and seller\<close>

definition Quotation_assignCustomer :: "ident \<Rightarrow> ident option \<Rightarrow> quotation \<Rightarrow> quotation result" where
  "Quotation_assignCustomer customerId priceListId q =
     andThen (ensureQuoteDraft q) (\<lambda>_.
     andThen (throw_if (is_blank customerId) (invalid_argument ''Customer ID cannot be empty'')) (\<lambda>_.
       let q1 = q\<lparr>quo_customerId := Some customerId\<rparr> in
       Inr (if quo_priceListExplicitlySet q then q1 else q1\<lparr>quo_globalPriceListId := priceListId\<rparr>)))"

definition Quotation_clearCustomer :: "quotation \<Rightarrow> quotation result" where
  "Quotation_clearCustomer q =
     andThen (ensureQuoteDraft q) (\<lambda>_.
       let q1 = q\<lparr>quo_customerId := None\<rparr> in
       Inr (if quo_priceListExplicitlySet q then q1 else q1\<lparr>quo_globalPriceListId := None\<rparr>))"

definition Quotation_setGlobalPriceList :: "ident option \<Rightarrow> bool \<Rightarrow> quotation \<Rightarrow> quotation result" where
  "Quotation_setGlobalPriceList listId explicit q =
     andThen (ensureQuoteDraft q) (\<lambda>_.
     andThen (throw_if (case listId of None \<Rightarrow> False | Some i \<Rightarrow> trim i = [])
       (invalid_argument ''INVALID_PRICE_LIST_ID'')) (\<lambda>_.
       Inr (q\<lparr>quo_globalPriceListId := listId, quo_priceListExplicitlySet := explicit\<rparr>)))"

definition Quotation_assignSeller :: "ident \<Rightarrow> quotation \<Rightarrow> quotation result" where
  "Quotation_assignSeller userId q =
     andThen (ensureQuoteDraft q) (\<lambda>_. Inr (q\<lparr>quo_sellerUserId := userId\<rparr>))"

subsection \<open>Promotions of the draft\<close>

definition quote_removeVetoedPromotion :: "ident \<Rightarrow> quotation \<Rightarrow> quotation" where
  "quote_removeVetoedPromotion p q =
     q\<lparr>quo_vetoedPromotionIds := filter (\<lambda>i. i \<noteq> p) (quo_vetoedPromotionIds q)\<rparr>"

definition quote_optOutManualPromotion :: "ident \<Rightarrow> quotation \<Rightarrow> quotation" where
  "quote_optOutManualPromotion p q =
     q\<lparr>quo_optedInManualPromotionIds := filter (\<lambda>i. i \<noteq> p) (quo_optedInManualPromotionIds q)\<rparr>"

definition quote_addVetoedPromotion :: "ident \<Rightarrow> quotation \<Rightarrow> quotation" where
  "quote_addVetoedPromotion p q =
     (let q1 = quote_optOutManualPromotion p q in
      if p \<in> set (quo_vetoedPromotionIds q1) then q1
      else q1\<lparr>quo_vetoedPromotionIds := quo_vetoedPromotionIds q1 @ [p]\<rparr>)"

definition quote_optInManualPromotion :: "ident \<Rightarrow> quotation \<Rightarrow> quotation" where
  "quote_optInManualPromotion p q =
     (let q1 = quote_removeVetoedPromotion p q in
      if p \<in> set (quo_optedInManualPromotionIds q1) then q1
      else q1\<lparr>quo_optedInManualPromotionIds := quo_optedInManualPromotionIds q1 @ [p]\<rparr>)"

subsection \<open>Expiry, notes, rate\<close>

definition Quotation_setExpiry :: "js_date option \<Rightarrow> quotation \<Rightarrow> quotation result" where
  "Quotation_setExpiry date q = andThen (ensureQuoteDraft q) (\<lambda>_. Inr (q\<lparr>quo_expiresAt := date\<rparr>))"

definition Quotation_setNotes :: "string option \<Rightarrow> quotation \<Rightarrow> quotation result" where
  "Quotation_setNotes notes q =
     andThen (ensureQuoteDraft q) (\<lambda>_.
     andThen (throw_if (280 < length (or_default notes []))
       (InvalidArgumentError ''Customer notes must be 280 characters or fewer'' ''NOTES_TOO_LONG'')) (\<lambda>_.
       Inr (q\<lparr>quo_customerNotes := notes\<rparr>)))"

definition setDeprecatedTaxRate :: "rat \<Rightarrow> quotation \<Rightarrow> quotation result" where
  "setDeprecatedTaxRate rate q =
     andThen (ensureQuoteDraft q) (\<lambda>_.
     andThen (throw_if (rate < 0 \<or> 1 < rate)
       (InvalidArgumentError ''Tax rate must be between 0 and 1'' ''INVALID_TAX_RATE'')) (\<lambda>_.
       Inr (q\<lparr>quo_taxRate := rate\<rparr>)))"

text \<open>An invalid date compares as not reached.\<close>

fun past :: "js_date \<Rightarrow> timestamp \<Rightarrow> bool" where
  "past (ValidDate t) now = (t \<le> now)"
| "past InvalidDate now = False"

definition Quotation_getEffectiveStatus :: "timestamp \<Rightarrow> quotation \<Rightarrow> quotation_status" where
  "Quotation_getEffectiveStatus now q =
     (if quo_status q = QuoteCancelled \<or> quo_status q = QuoteExpired then quo_status q
      else case quo_expiresAt q of
        None \<Rightarrow> quo_status q
      | Some d \<Rightarrow> if past d now then QuoteExpired else quo_status q)"

subsection \<open>Transitions\<close>

definition Quotation_send :: "timestamp \<Rightarrow> quotation \<Rightarrow> quotation result" where
  "Quotation_send sentAt q =
     (if quo_status q \<noteq> QuoteDraft then Inl (quotation_not_draft (quo_status q))
      else if quo_items q = [] then Inl (BusinessRuleViolationError
        (''Quotation '' @ quo_id q @ '' cannot be sent because it has no items'') ''QUOTATION_HAS_NO_ITEMS'')
      else Inr (q\<lparr>quo_status := QuoteSent, quo_updatedAt := Some sentAt\<rparr>))"

definition Quotation_cancel :: "quotation_cancel_reason \<Rightarrow> timestamp \<Rightarrow> quotation \<Rightarrow> quotation" where
  "Quotation_cancel reason now q =
     (if quo_status q = QuoteCancelled then q
      else q\<lparr>quo_status := QuoteCancelled, quo_cancelReason := Some reason,
        quo_canceledAt := Some now, quo_updatedAt := Some now\<rparr>)"

subsection \<open>Totals and the wire shape\<close>

record quote_totals =
  qtt_subtotalCents :: cents
  qtt_discountCents :: cents
  qtt_totalCents :: cents

definition Quotation_recomputeTotals :: "quotation \<Rightarrow> quote_totals" where
  "Quotation_recomputeTotals q =
     (let subtotal = (\<Sum>it\<leftarrow>quo_items q. (qit_unitPriceCents it + qit_discountAmountCents it) * qit_quantity it);
          total = (\<Sum>it\<leftarrow>quo_items q. qit_unitPriceCents it * qit_quantity it)
      in \<lparr>qtt_subtotalCents = subtotal, qtt_discountCents = max 0 (subtotal - total), qtt_totalCents = total\<rparr>)"

definition add_bucket :: "(iva_class \<times> cents) list \<Rightarrow> quote_item \<Rightarrow> (iva_class \<times> cents) list" where
  "add_bucket m it =
     (case (effectiveIvaClassification it, includedIvaCents it) of
        (Some c, Some v) \<Rightarrow> assoc_set m c (or_default (assoc_get m c) 0 + v)
      | _ \<Rightarrow> m)"

definition computeIvaBreakdown :: "quotation \<Rightarrow> (iva_class \<times> cents) list" where
  "computeIvaBreakdown q =
     (if quo_items q = [] then []
      else if \<exists>it\<in>set (quo_items q). \<not> hasCompleteTaxSnapshot it then []
      else
        let buckets = foldl add_bucket [] (quo_items q) in
        List.map_filter (\<lambda>c. map_option (\<lambda>v. (c, v)) (assoc_get buckets c)) IVA_CLASSIFICATION_BUCKET_ORDER)"

definition add_applied ::
  "(ident \<times> string \<times> cents) list \<Rightarrow> quote_item \<Rightarrow> (ident \<times> string \<times> cents) list" where
  "add_applied m it =
     (case qit_promotionId it of
        None \<Rightarrow> m
      | Some p \<Rightarrow>
          if p = [] then m
          else case assoc_get m p of
            Some (title, d) \<Rightarrow> assoc_set m p (title, d + qit_discountAmountCents it)
          | None \<Rightarrow> assoc_set m p (or_default (qit_discountTitle it) p, qit_discountAmountCents it))"

definition computeAppliedPromotions :: "quotation \<Rightarrow> (ident \<times> string \<times> cents) list" where
  "computeAppliedPromotions q = foldl add_applied [] (quo_items q)"

text \<open>
  The wire shape: the quotation itself, with the totals, the promotions and the tax
  worked out from its lines, and the status as of now.
\<close>

record quotation_response =
  qrs_quotation :: quotation
  qrs_totals :: quote_totals
  qrs_appliedPromotions :: "(ident \<times> string \<times> cents) list"
  qrs_ivaBreakdown :: "(iva_class \<times> cents) list"
  qrs_effectiveStatus :: quotation_status

definition Quotation_toResponse :: "timestamp \<Rightarrow> quotation \<Rightarrow> quotation_response" where
  "Quotation_toResponse now q =
     \<lparr>qrs_quotation = q, qrs_totals = Quotation_recomputeTotals q,
      qrs_appliedPromotions = computeAppliedPromotions q, qrs_ivaBreakdown = computeIvaBreakdown q,
      qrs_effectiveStatus = Quotation_getEffectiveStatus now q\<rparr>"

end
