(* ===== verification/QuotationDesk.thy ===== *)
theory QuotationDesk
  imports Quotation SalesPricing
begin

section \<open>The quotation desk\<close>

text \<open>
  The use cases of \<open>src/src/quotations/application/quotations.service.ts\<close> over the
  rows of \<open>infrastructure/prisma-quotation.repository.ts\<close>.  A use case loads the
  aggregate, changes it in memory, and saves it; nothing holds the row between the load
  and the save.  So each use case is the aggregate it is about to save, or the error
  before that, and \<open>save_quotation\<close> is a run of statements outside a transaction,
  each of which may be the last: what the earlier ones wrote stays.  Rendering a document and sending a mail are
  outcomes in the environment.
\<close>

subsection \<open>What a use case reads\<close>

record quote_customer =
  qcu_globalPriceListId :: "ident option"
  qcu_firstName :: string
  qcu_lastName :: "string option"
  qcu_email :: "string option"

text \<open>
  The rows come back in an order the database chooses; \<open>qev_contains\<close> is its
  case-insensitive search.
\<close>

record quote_env =
  qev_pricing :: pricing_env
  qev_uuid :: ident
  qev_customer :: "ident \<Rightarrow> quote_customer option"
  qev_user :: "ident \<Rightarrow> string option"
  qev_promotion :: "ident \<Rightarrow> promotion_method option"
  qev_itemOrder :: "quote_item_props list \<Rightarrow> quote_item_props list"
  qev_idOrder :: "ident list \<Rightarrow> ident list"
  qev_contains :: "string \<Rightarrow> string \<Rightarrow> bool"
  qev_renderError :: "string option"
  qev_mailError :: "string option"

abbreviation qev_now :: "quote_env \<Rightarrow> timestamp" where
  "qev_now env \<equiv> pce_now (qev_pricing env)"

abbreviation qev_catalog :: "quote_env \<Rightarrow> price_catalog" where
  "qev_catalog env \<equiv> pce_catalog (qev_pricing env)"

subsection \<open>Rows\<close>

type_synonym quotes_db = "quotation_props list"

definition is_quotation :: "ident \<Rightarrow> quotation_props \<Rightarrow> bool" where
  "is_quotation i r \<longleftrightarrow> qup_id r = i"

definition find_quotation :: "ident \<Rightarrow> quotes_db \<Rightarrow> quotation_props option" where
  "find_quotation i db = find (is_quotation i) db"

definition load_quotation :: "quote_env \<Rightarrow> ident \<Rightarrow> quotes_db \<Rightarrow> quotation option" where
  "load_quotation env i db =
     map_option (\<lambda>r. Quotation_fromPersistence
         (r\<lparr>qup_items := qev_itemOrder env (qup_items r),
            qup_vetoedPromotionIds := qev_idOrder env (qup_vetoedPromotionIds r),
            qup_optedInManualPromotionIds := qev_idOrder env (qup_optedInManualPromotionIds r)\<rparr>))
       (find_quotation i db)"

text \<open>The row of a line; the database stamps both instants anew.\<close>

definition quote_item_row :: "timestamp \<Rightarrow> ident \<Rightarrow> quote_item \<Rightarrow> quote_item_props" where
  "quote_item_row now quotationId it =
     \<lparr>qip_id = qit_id it, qip_quotationId = quotationId, qip_productId = qit_productId it,
      qip_variantId = qit_variantId it, qip_productName = qit_productName it,
      qip_variantName = qit_variantName it, qip_quantity = JsInt (qit_quantity it),
      qip_unitPriceCents = JsInt (qit_unitPriceCents it),
      qip_unitPriceCurrency = Some (qit_unitPriceCurrency it),
      qip_priceSource = Some (qit_priceSource it),
      qip_appliedPriceListId = qit_appliedPriceListId it,
      qip_customPriceCents = qit_customPriceCents it, qip_discountType = qit_discountType it,
      qip_discountValue = qit_discountValue it,
      qip_discountAmountCents = Some (qit_discountAmountCents it),
      qip_promotionId = qit_promotionId it, qip_taxableBaseCents = qit_taxableBaseCents it,
      qip_ivaRateClassification = qit_ivaRateClassification it,
      qip_chargeProductTaxesSnapshot = qit_chargeProductTaxesSnapshot it,
      qip_createdAt = Some now, qip_updatedAt = Some now\<rparr>"

definition new_quotation_row :: "timestamp \<Rightarrow> quotation \<Rightarrow> quotation_props" where
  "new_quotation_row now q =
     \<lparr>qup_id = quo_id q, qup_sellerUserId = quo_sellerUserId q, qup_customerId = quo_customerId q,
      qup_globalPriceListId = quo_globalPriceListId q,
      qup_priceListExplicitlySet = quo_priceListExplicitlySet q, qup_status = quo_status q,
      qup_expiresAt = None, qup_cancelReason = quo_cancelReason q, qup_canceledAt = quo_canceledAt q,
      qup_subtotalCents = quo_subtotalCents q, qup_discountCents = quo_discountCents q,
      qup_totalCents = quo_totalCents q, qup_manuallyEnded = quo_manuallyEnded q, qup_items = [],
      qup_vetoedPromotionIds = [], qup_optedInManualPromotionIds = [],
      qup_customerNotes = quo_customerNotes q, qup_taxRate = quo_taxRate q,
      qup_createdAt = now, qup_updatedAt = now\<rparr>"

definition root_columns ::
  "timestamp \<Rightarrow> timestamp option \<Rightarrow> quotation \<Rightarrow> quotation_props \<Rightarrow> quotation_props" where
  "root_columns now expires q r =
     r\<lparr>qup_sellerUserId := quo_sellerUserId q, qup_customerId := quo_customerId q,
       qup_globalPriceListId := quo_globalPriceListId q,
       qup_priceListExplicitlySet := quo_priceListExplicitlySet q, qup_status := quo_status q,
       qup_expiresAt := expires, qup_cancelReason := quo_cancelReason q,
       qup_canceledAt := quo_canceledAt q, qup_subtotalCents := quo_subtotalCents q,
       qup_discountCents := quo_discountCents q, qup_totalCents := quo_totalCents q,
       qup_manuallyEnded := quo_manuallyEnded q, qup_customerNotes := quo_customerNotes q,
       qup_taxRate := quo_taxRate q, qup_updatedAt := now\<rparr>"

definition update_quotation :: "ident \<Rightarrow> (quotation_props \<Rightarrow> quotation_props) \<Rightarrow> quotes_db \<Rightarrow> quotes_db" where
  "update_quotation i f db = update_first (is_quotation i) f db"

definition foreign_key_violated :: domain_error where
  "foreign_key_violated = PlainError ''Foreign key constraint violated''"

definition unique_violated :: domain_error where
  "unique_violated = PlainError ''Unique constraint failed''"

text \<open>The statement of the root row, with the foreign keys and the date it may fail on.\<close>

definition upsert_quotation :: "quote_env \<Rightarrow> quotation \<Rightarrow> quotes_db \<Rightarrow> quotes_db result" where
  "upsert_quotation env q db =
     andThen (case quo_expiresAt q of
         Some InvalidDate \<Rightarrow> Inl (PlainError ''Provided Date object is invalid. Expected Date.'')
       | Some (ValidDate t) \<Rightarrow> Inr (Some t)
       | None \<Rightarrow> Inr None) (\<lambda>expires.
     andThen (throw_if (qev_user env (quo_sellerUserId q) = None
         \<or> (case quo_customerId q of None \<Rightarrow> False | Some c \<Rightarrow> qev_customer env c = None)
         \<or> (case quo_globalPriceListId q of None \<Rightarrow> False
            | Some l \<Rightarrow> l \<notin> gpl_id ` set (ctg_globalLists (qev_catalog env))))
       foreign_key_violated) (\<lambda>_.
       Inr (if find_quotation (quo_id q) db = None
         then db @ [(new_quotation_row (qev_now env) q)\<lparr>qup_expiresAt := expires\<rparr>]
         else update_quotation (quo_id q) (root_columns (qev_now env) expires q) db)))"

definition promotions_exist :: "quote_env \<Rightarrow> ident list \<Rightarrow> bool" where
  "promotions_exist env ps \<longleftrightarrow> list_all (\<lambda>p. qev_promotion env p \<noteq> None) ps"

definition line_references_exist :: "quote_env \<Rightarrow> quote_item \<Rightarrow> bool" where
  "line_references_exist env it \<longleftrightarrow>
     find_product (qev_catalog env) (qit_productId it) \<noteq> None \<and>
     (case qit_variantId it of
        None \<Rightarrow> True
      | Some v \<Rightarrow> list_ex (\<lambda>p. find_variant p v \<noteq> None) (ctg_products (qev_catalog env))) \<and>
     (case qit_promotionId it of None \<Rightarrow> True | Some p \<Rightarrow> qev_promotion env p \<noteq> None)"

definition stored_line_ids :: "quotes_db \<Rightarrow> ident list" where
  "stored_line_ids db = concat (map (\<lambda>r. map qip_id (qup_items r)) db)"

text \<open>
  The statements of a save.  A deletion cannot fail; an insertion fails as a whole on a
  row that is gone, on a foreign key and on a key that is taken.  Insertions add to the
  rows they find, which another request may have put there.
\<close>

datatype quote_statement =
    UpsertRoot | DeleteLines | CreateLines | DeleteVetoes | CreateVetoes | DeleteOptIns | CreateOptIns

definition create_lines :: "quote_env \<Rightarrow> quotation \<Rightarrow> quotes_db \<Rightarrow> quotes_db result" where
  "create_lines env q db =
     andThen (throw_if (find_quotation (quo_id q) db = None
         \<or> \<not> list_all (line_references_exist env) (quo_items q)) foreign_key_violated) (\<lambda>_.
     andThen (throw_if (\<not> distinct (map qit_id (quo_items q))
         \<or> list_ex (\<lambda>it. qit_id it \<in> set (stored_line_ids db)) (quo_items q)) unique_violated) (\<lambda>_.
       Inr (update_quotation (quo_id q)
         (\<lambda>r. r\<lparr>qup_items := qup_items r @ map (quote_item_row (qev_now env) (quo_id q)) (quo_items q)\<rparr>) db)))"

text \<open>A junction table: the ids already stored, the ids to insert.\<close>

definition create_junction ::
  "quote_env \<Rightarrow> ident \<Rightarrow> (quotation_props \<Rightarrow> ident list) \<Rightarrow> ident list \<Rightarrow>
   (ident list \<Rightarrow> quotation_props \<Rightarrow> quotation_props) \<Rightarrow> quotes_db \<Rightarrow> quotes_db result" where
  "create_junction env i stored ps put db =
     (case find_quotation i db of
        None \<Rightarrow> Inl foreign_key_violated
      | Some r \<Rightarrow>
          andThen (throw_if (\<not> promotions_exist env ps) foreign_key_violated) (\<lambda>_.
          andThen (throw_if (\<not> distinct (stored r @ ps)) unique_violated) (\<lambda>_.
            Inr (update_quotation i (\<lambda>r. put (stored r @ ps) r) db))))"

fun save_statement :: "quote_env \<Rightarrow> quotation \<Rightarrow> quote_statement \<Rightarrow> quotes_db \<Rightarrow> quotes_db result" where
  "save_statement env q UpsertRoot db = upsert_quotation env q db"
| "save_statement env q DeleteLines db =
     Inr (update_quotation (quo_id q) (\<lambda>r. r\<lparr>qup_items := []\<rparr>) db)"
| "save_statement env q CreateLines db = create_lines env q db"
| "save_statement env q DeleteVetoes db =
     Inr (update_quotation (quo_id q) (\<lambda>r. r\<lparr>qup_vetoedPromotionIds := []\<rparr>) db)"
| "save_statement env q CreateVetoes db =
     create_junction env (quo_id q) qup_vetoedPromotionIds (quo_vetoedPromotionIds q)
       (\<lambda>ps r. r\<lparr>qup_vetoedPromotionIds := ps\<rparr>) db"
| "save_statement env q DeleteOptIns db =
     Inr (update_quotation (quo_id q) (\<lambda>r. r\<lparr>qup_optedInManualPromotionIds := []\<rparr>) db)"
| "save_statement env q CreateOptIns db =
     create_junction env (quo_id q) qup_optedInManualPromotionIds (quo_optedInManualPromotionIds q)
       (\<lambda>ps r. r\<lparr>qup_optedInManualPromotionIds := ps\<rparr>) db"

definition save_statements :: "quotation \<Rightarrow> quote_statement list" where
  "save_statements q =
     [UpsertRoot, DeleteLines] @ (if quo_items q = [] then [] else [CreateLines]) @
     [DeleteVetoes] @ (if quo_vetoedPromotionIds q = [] then [] else [CreateVetoes]) @
     [DeleteOptIns] @ (if quo_optedInManualPromotionIds q = [] then [] else [CreateOptIns])"

text \<open>The statements up to the first that fails: what the earlier ones wrote stays.\<close>

fun run_statements ::
  "quote_env \<Rightarrow> quotation \<Rightarrow> quote_statement list \<Rightarrow> quotes_db \<Rightarrow> unit result \<times> quotes_db" where
  "run_statements env q [] db = (Inr (), db)"
| "run_statements env q (st # sts) db =
     (case save_statement env q st db of
        Inl e \<Rightarrow> (Inl e, db)
      | Inr db' \<Rightarrow> run_statements env q sts db')"

text \<open>A save nothing interferes with: its statements, then the row read back.\<close>

definition save_quotation :: "quote_env \<Rightarrow> quotation \<Rightarrow> quotes_db \<Rightarrow> quotation result \<times> quotes_db" where
  "save_quotation env q db =
     (case run_statements env q (save_statements q) db of
        (Inl e, db') \<Rightarrow> (Inl e, db')
      | (Inr _, db') \<Rightarrow>
          (case load_quotation env (quo_id q) db' of
             None \<Rightarrow> (Inl (PlainError ''Cannot read properties of null''), db')
           | Some saved_quote \<Rightarrow> (Inr saved_quote, db')))"

definition delete_quotation :: "ident \<Rightarrow> quotes_db \<Rightarrow> quotes_db" where
  "delete_quotation i db = filter (\<lambda>r. \<not> is_quotation i r) db"

subsection \<open>The recompute of a quotation\<close>

definition quote_clear_promotion :: "quote_item \<Rightarrow> quote_item" where
  "quote_clear_promotion it = (if qit_promotionId it \<noteq> None then quote_removeDiscount it else it)"

definition quote_global_list :: "price_catalog \<Rightarrow> quotation \<Rightarrow> ident option" where
  "quote_global_list c q =
     (case quo_globalPriceListId q of
        Some g \<Rightarrow> Some g | None \<Rightarrow> resolveDefaultGlobalPriceListId c)"

definition quote_effective_list :: "ident option \<Rightarrow> quote_item \<Rightarrow> ident option" where
  "quote_effective_list global it =
     (case qit_appliedPriceListId it of Some l \<Rightarrow> Some l | None \<Rightarrow> global)"

definition quote_reprice_input :: "ident option \<Rightarrow> quote_item \<Rightarrow> price_input option" where
  "quote_reprice_input global it =
     (if qit_priceSource it = QuoteCustom then None
      else map_option (\<lambda>l.
          \<lparr>pin_productId = qit_productId it, pin_variantId = qit_variantId it, pin_priceListId = Some l,
           pin_globalPriceListId = (if Some l = global then global else None),
           pin_quantity = qit_quantity it\<rparr>)
        (quote_effective_list global it))"

text \<open>A line with the mark that it received a price.\<close>

definition quote_reprice_item :: "ident option \<Rightarrow> price_map \<Rightarrow> quote_item \<Rightarrow> (quote_item \<times> bool) result" where
  "quote_reprice_item global m it =
     (if qit_priceSource it = QuoteCustom then Inr (it, False)
      else case quote_effective_list global it of
        None \<Rightarrow> Inr (it, False)
      | Some l \<Rightarrow>
          (case map_price m (price_key (qit_productId it) (qit_variantId it) l) (qit_quantity it) of
             None \<Rightarrow> Inr (it, False)
           | Some price \<Rightarrow>
               mapR (\<lambda>it'. (it', True))
                 (quote_reprice (JsInt price) QuotePriceList (qit_appliedPriceListId it) it)))"

definition quote_repriceLines ::
  "price_catalog \<Rightarrow> quotation \<Rightarrow> quote_item list \<Rightarrow> (quote_item \<times> bool) list result" where
  "quote_repriceLines c q its =
     (let global = quote_global_list c q;
          inputs = List.map_filter (quote_reprice_input global) its
      in if inputs = [] then Inr (map (\<lambda>it. (it, False)) its)
         else mapM_list (quote_reprice_item global (batchResolvePriceMap c inputs)) its)"

type_synonym tax_cache = "(string \<times> (iva_rate \<times> bool)) list"

definition taxMetadataKey :: "ident \<Rightarrow> ident option \<Rightarrow> string" where
  "taxMetadataKey productId variantId = productId @ ''::'' @ or_default variantId []"

definition getProductTaxMetadata ::
  "price_catalog \<Rightarrow> ident \<Rightarrow> ident option \<Rightarrow> tax_cache \<Rightarrow> ((iva_rate \<times> bool) option \<times> tax_cache) result" where
  "getProductTaxMetadata c productId variantId cache =
     (let key = taxMetadataKey productId variantId in
      case assoc_get cache key of
        Some m \<Rightarrow> Inr (Some m, cache)
      | None \<Rightarrow>
          mapR (\<lambda>info.
              case rate_of (pif_ivaRate info) of
                None \<Rightarrow> (None, cache)
              | Some r \<Rightarrow> (Some (r, pif_chargeProductTaxes info),
                  assoc_set cache key (r, pif_chargeProductTaxes info)))
            (getProductInfoForSale c productId variantId))"

fun resnapshot_line ::
  "price_catalog \<Rightarrow> tax_cache \<times> quote_item list \<Rightarrow> quote_item \<times> bool \<Rightarrow> (tax_cache \<times> quote_item list) result" where
  "resnapshot_line c (cache, done_items) (it, repriced) =
     (if \<not> repriced then Inr (cache, done_items @ [it])
      else mapR (\<lambda>(m, cache').
          (cache', done_items @ [case m of
             None \<Rightarrow> it | Some (r, taxed) \<Rightarrow> snapshotTaxClassification r taxed it]))
        (getProductTaxMetadata c (qit_productId it) (qit_variantId it) cache))"

definition quote_eval_line ::
  "(ident \<times> ident) list \<Rightarrow> (ident \<times> (ident option \<times> ident option)) list \<Rightarrow> quote_item \<Rightarrow> pos_eval_line" where
  "quote_eval_line globals groups it =
     \<lparr>pel_itemId = qit_id it, pel_productId = qit_productId it, pel_variantId = qit_variantId it,
      pel_quantity = qit_quantity it, pel_effectiveUnitPriceCents = qit_unitPriceCents it,
      pel_appliedPriceListId = qit_appliedPriceListId it,
      pel_appliedGlobalPriceListId =
        (case qit_appliedPriceListId it of None \<Rightarrow> None | Some l \<Rightarrow> assoc_get globals l),
      pel_categoryId = (case assoc_get groups (qit_productId it) of None \<Rightarrow> None | Some g \<Rightarrow> fst g),
      pel_brandId = (case assoc_get groups (qit_productId it) of None \<Rightarrow> None | Some g \<Rightarrow> snd g),
      pel_hasManualDiscount = False\<rparr>"

definition quote_eval_input :: "pricing_env \<Rightarrow> quotation \<Rightarrow> pos_eval_input" where
  "quote_eval_input env q =
     (let lists = unique (map the_ident (filter truthy (map qit_appliedPriceListId (quo_items q))));
          products = unique (filter (\<lambda>p. p \<noteq> []) (map qit_productId (quo_items q)));
          globals = (if lists = [] then [] else resolvePriceListGlobalIds (pce_catalog env) lists);
          groups = (if products = [] then []
            else resolveProductCategoryBrandIds (pce_catalog env) products)
      in \<lparr>pei_botEligibleOnly = False, pei_treatCustomerAsUnregistered = False,
          pei_now = pce_now env, pei_customerId = quo_customerId q,
          pei_lines = map (quote_eval_line globals groups) (quo_items q),
          pei_vetoedPromotionIds = quo_vetoedPromotionIds q,
          pei_optedInManualPromotionIds = quo_optedInManualPromotionIds q\<rparr>)"

definition quote_evaluate :: "pricing_env \<Rightarrow> quotation \<Rightarrow> pos_eval_result" where
  "quote_evaluate env q = evaluate (pce_weekday env) (quote_eval_input env q) (pce_promotions env)"

text \<open>Rewards over a whole line are skipped; the other results are discounts per unit.\<close>

fun applyLineResultToItem :: "line_result \<Rightarrow> quote_item \<Rightarrow> quote_item result" where
  "applyLineResultToItem (BuyXGetYResult i p t d u n g) it = Inr it"
| "applyLineResultToItem (AdvancedResult i p t d u n g) it = Inr it"
| "applyLineResultToItem (PerUnitResult i p k v t) it =
     quote_applyDiscount
       \<lparr>qdi_type = k, qdi_amountCents = (if k = AmountDiscount then Some v else None),
        qdi_percent = (if k = PercentageDiscount then Some v else None),
        qdi_discountTitle = Some t, qdi_promotionId = Some p\<rparr> it"

definition quote_apply_line :: "quote_item list \<Rightarrow> line_result \<Rightarrow> quote_item list result" where
  "quote_apply_line its r =
     (case find (has_quote_id (lr_itemId r)) its of
        None \<Rightarrow> Inr its
      | Some it \<Rightarrow>
          mapR (\<lambda>it'. update_first (has_quote_id (lr_itemId r)) (\<lambda>_. it') its)
            (applyLineResultToItem r it))"

definition quote_prune_opt_ins :: "ident list \<Rightarrow> quotation \<Rightarrow> quotation" where
  "quote_prune_opt_ins targetables q =
     foldl (\<lambda>q p. if p \<in> set targetables then q else quote_optOutManualPromotion p q) q
       (quo_optedInManualPromotionIds q)"

definition refresh_base :: "quote_item \<Rightarrow> quote_item result" where
  "refresh_base it =
     (if qit_ivaRateClassification it = None \<or> qit_chargeProductTaxesSnapshot it = None then Inr it
      else recomputeTaxableBase it)"

definition quote_recompute :: "pricing_env \<Rightarrow> tax_cache \<Rightarrow> quotation \<Rightarrow> quotation result" where
  "quote_recompute env cache q =
     andThen (quote_repriceLines (pce_catalog env) q (map quote_clear_promotion (quo_items q))) (\<lambda>marked.
     andThen (loopR (resnapshot_line (pce_catalog env)) (cache, []) marked) (\<lambda>(_, its).
       let repriced = q\<lparr>quo_items := its\<rparr>;
           result = quote_evaluate env repriced in
     andThen (loopR quote_apply_line its (per_lines result)) (\<lambda>discounted.
       let pruned = quote_prune_opt_ins (per_targetableManualPromotionIds result) repriced in
     mapR (\<lambda>based. pruned\<lparr>quo_items := based\<rparr>) (mapM_list refresh_base discounted))))"

end
