(* ===== verification/QuotationService.thy ===== *)
theory QuotationService
  imports QuotationDesk
begin

section \<open>The use cases of a quotation\<close>

text \<open>
  One definition per use case of \<open>quotations.service.ts\<close>: the aggregate it is about to
  save.  \<open>serve_quotation\<close> is a request served alone; \<open>quote_step\<close> lets
  requests overlap between their load and their save and between the statements of a
  save, none of which the code excludes.  A load is one step.
\<close>

subsection \<open>Loading\<close>

definition loaded_quotation :: "quote_env \<Rightarrow> ident \<Rightarrow> quotes_db \<Rightarrow> quotation result" where
  "loaded_quotation env i db =
     (case load_quotation env i db of
        None \<Rightarrow> Inl (EntityNotFoundError ''Quotation'' i)
      | Some q \<Rightarrow> Inr q)"

definition loaded_quote_draft :: "quote_env \<Rightarrow> ident \<Rightarrow> quotes_db \<Rightarrow> quotation result" where
  "loaded_quote_draft env i db =
     andThen (loaded_quotation env i db) (\<lambda>q.
     andThen (throw_if (quo_status q \<noteq> QuoteDraft) (quotation_not_draft (quo_status q))) (\<lambda>_.
     Inr q))"

definition findCustomerOrFail :: "quote_env \<Rightarrow> ident \<Rightarrow> quote_customer result" where
  "findCustomerOrFail env c =
     (case qev_customer env c of None \<Rightarrow> Inl (EntityNotFoundError ''Customer'' c) | Some r \<Rightarrow> Inr r)"

abbreviation recomputed_quote :: "quote_env \<Rightarrow> quotation \<Rightarrow> quotation result" where
  "recomputed_quote env \<equiv> quote_recompute (qev_pricing env) []"

subsection \<open>Opening\<close>

text \<open>The customer's list seeds the draft unless the request names one; \<open>''\<close> counts as none.\<close>

definition Quotes_openDraft ::
  "quote_env \<Rightarrow> ident \<Rightarrow> ident option \<Rightarrow> ident option \<Rightarrow> quotation result" where
  "Quotes_openDraft env sellerUserId customerId listId =
     andThen (if truthy customerId
         then mapR (\<lambda>c. (customerId, if truthy listId then listId else qcu_globalPriceListId c))
           (findCustomerOrFail env (the_ident customerId))
         else Inr (None, if truthy listId then listId else None)) (\<lambda>(customer, seeded).
     andThen (Quotation_create (qev_uuid env) sellerUserId customer seeded) (\<lambda>q.
       if truthy listId then Quotation_setGlobalPriceList seeded True q else Inr q))"

subsection \<open>Lines\<close>

definition new_quote_item ::
  "quote_env \<Rightarrow> ident \<Rightarrow> product_sale_info \<Rightarrow> js_number \<Rightarrow> quote_item_props" where
  "new_quote_item env quotationId info quantity =
     \<lparr>qip_id = qev_uuid env, qip_quotationId = quotationId, qip_productId = pif_productId info,
      qip_variantId = pif_variantId info, qip_productName = pif_productName info,
      qip_variantName = pif_variantName info, qip_quantity = quantity,
      qip_unitPriceCents = JsInt (pif_unitPriceCents info), qip_unitPriceCurrency = Some ''MXN'',
      qip_priceSource = Some QuotePriceList, qip_appliedPriceListId = None,
      qip_customPriceCents = None, qip_discountType = None, qip_discountValue = None,
      qip_discountAmountCents = None, qip_promotionId = None, qip_taxableBaseCents = None,
      qip_ivaRateClassification = rate_of (pif_ivaRate info),
      qip_chargeProductTaxesSnapshot = Some (pif_chargeProductTaxes info),
      qip_createdAt = None, qip_updatedAt = None\<rparr>"

definition seeded_cache :: "product_sale_info \<Rightarrow> tax_cache" where
  "seeded_cache info =
     (case rate_of (pif_ivaRate info) of
        None \<Rightarrow> []
      | Some r \<Rightarrow>
          [(taxMetadataKey (pif_productId info) (pif_variantId info), (r, pif_chargeProductTaxes info))])"

definition Quotes_addItem ::
  "quote_env \<Rightarrow> ident \<Rightarrow> ident \<Rightarrow> ident option \<Rightarrow> js_number \<Rightarrow> quotes_db \<Rightarrow> quotation result" where
  "Quotes_addItem env i productId variantId quantity db =
     andThen (loaded_quote_draft env i db) (\<lambda>q.
     andThen (getProductInfoForSale (qev_catalog env) productId variantId) (\<lambda>info.
     andThen (Quotation_addItem (new_quote_item env (quo_id q) info quantity) q)
       (quote_recompute (qev_pricing env) (seeded_cache info))))"

definition Quotes_updateItemQuantity ::
  "quote_env \<Rightarrow> ident \<Rightarrow> ident \<Rightarrow> js_number \<Rightarrow> quotes_db \<Rightarrow> quotation result" where
  "Quotes_updateItemQuantity env i itemId quantity db =
     andThen (loaded_quote_draft env i db) (\<lambda>q.
     andThen (Quotation_updateItemQuantity itemId quantity q) (recomputed_quote env))"

definition Quotes_removeItem :: "quote_env \<Rightarrow> ident \<Rightarrow> ident \<Rightarrow> quotes_db \<Rightarrow> quotation result" where
  "Quotes_removeItem env i itemId db =
     andThen (loaded_quote_draft env i db) (\<lambda>q.
     andThen (Quotation_removeItem itemId q) (recomputed_quote env))"

definition Quotes_overrideItemPrice ::
  "quote_env \<Rightarrow> ident \<Rightarrow> ident \<Rightarrow> cents \<Rightarrow> quotes_db \<Rightarrow> quotation result" where
  "Quotes_overrideItemPrice env i itemId priceCents db =
     andThen (loaded_quote_draft env i db) (\<lambda>q.
     andThen (Quotation_overrideItemPrice itemId
         \<lparr>qpi_priceCents = JsInt priceCents, qpi_priceSource = QuoteCustom,
          qpi_appliedPriceListId = None, qpi_customPriceCents = Some priceCents\<rparr> q)
       (recomputed_quote env))"

subsection \<open>Promotions\<close>

definition assertPromotionIsManual :: "quote_env \<Rightarrow> ident \<Rightarrow> unit result" where
  "assertPromotionIsManual env p =
     (case qev_promotion env p of
        None \<Rightarrow> Inl (EntityNotFoundError ''Promotion'' p)
      | Some m \<Rightarrow> throw_if (m \<noteq> Manual)
          (BusinessRuleViolationError
            (''Promotion '' @ p @ '' is method=AUTOMATIC, not MANUAL. Use veto/opt-in endpoints for AUTOMATIC promotions.'')
            ''PROMOTION_IS_NOT_MANUAL''))"

definition Quotes_applyManualPromotion :: "quote_env \<Rightarrow> ident \<Rightarrow> ident \<Rightarrow> quotes_db \<Rightarrow> quotation result" where
  "Quotes_applyManualPromotion env i p db =
     andThen (loaded_quote_draft env i db) (\<lambda>q.
     andThen (assertPromotionIsManual env p) (\<lambda>_.
       recomputed_quote env (quote_optInManualPromotion p q)))"

definition Quotes_removeManualPromotion :: "quote_env \<Rightarrow> ident \<Rightarrow> ident \<Rightarrow> quotes_db \<Rightarrow> quotation result" where
  "Quotes_removeManualPromotion env i p db =
     andThen (loaded_quote_draft env i db) (\<lambda>q. recomputed_quote env (quote_optOutManualPromotion p q))"

definition Quotes_vetoPromotion :: "quote_env \<Rightarrow> ident \<Rightarrow> ident \<Rightarrow> quotes_db \<Rightarrow> quotation result" where
  "Quotes_vetoPromotion env i p db =
     andThen (loaded_quote_draft env i db) (\<lambda>q. recomputed_quote env (quote_addVetoedPromotion p q))"

definition Quotes_optInPromotion :: "quote_env \<Rightarrow> ident \<Rightarrow> ident \<Rightarrow> quotes_db \<Rightarrow> quotation result" where
  "Quotes_optInPromotion env i p db =
     andThen (loaded_quote_draft env i db) (\<lambda>q. recomputed_quote env (quote_removeVetoedPromotion p q))"

subsection \<open>Expiry, notes, rate\<close>

definition Quotes_setExpiry :: "quote_env \<Rightarrow> ident \<Rightarrow> js_date option \<Rightarrow> quotes_db \<Rightarrow> quotation result" where
  "Quotes_setExpiry env i date db = andThen (loaded_quote_draft env i db) (Quotation_setExpiry date)"

definition Quotes_setNotes :: "quote_env \<Rightarrow> ident \<Rightarrow> string option \<Rightarrow> quotes_db \<Rightarrow> quotation result" where
  "Quotes_setNotes env i notes db = andThen (loaded_quote_draft env i db) (Quotation_setNotes notes)"

definition Quotes_setTaxRate :: "quote_env \<Rightarrow> ident \<Rightarrow> rat \<Rightarrow> quotes_db \<Rightarrow> quotation result" where
  "Quotes_setTaxRate env i rate db = andThen (loaded_quote_draft env i db) (setDeprecatedTaxRate rate)"

subsection \<open>Customer, seller and list\<close>

definition Quotes_assignCustomer :: "quote_env \<Rightarrow> ident \<Rightarrow> ident \<Rightarrow> quotes_db \<Rightarrow> quotation result" where
  "Quotes_assignCustomer env i customerId db =
     andThen (loaded_quote_draft env i db) (\<lambda>q.
     andThen (findCustomerOrFail env customerId) (\<lambda>c.
     andThen (if \<not> quo_priceListExplicitlySet q \<and> truthy (qcu_globalPriceListId c)
         then Quotation_setGlobalPriceList (qcu_globalPriceListId c) False q else Inr q) (\<lambda>q1.
     andThen (Quotation_assignCustomer customerId (quo_globalPriceListId q1) q1)
       (recomputed_quote env))))"

definition Quotes_assignSeller :: "quote_env \<Rightarrow> ident \<Rightarrow> ident \<Rightarrow> quotes_db \<Rightarrow> quotation result" where
  "Quotes_assignSeller env i userId db =
     andThen (loaded_quotation env i db) (\<lambda>q.
     andThen (throw_if (qev_user env userId = None) (rule_violation ''SELLER_NOT_FOUND'')) (\<lambda>_.
       Quotation_assignSeller userId q))"

definition Quotes_setPriceList :: "quote_env \<Rightarrow> ident \<Rightarrow> ident option \<Rightarrow> quotes_db \<Rightarrow> quotation result" where
  "Quotes_setPriceList env i listId db =
     andThen (loaded_quote_draft env i db) (\<lambda>q.
     andThen (throw_if (case listId of None \<Rightarrow> False
         | Some l \<Rightarrow> l \<notin> gpl_id ` set (ctg_globalLists (qev_catalog env)))
       (rule_violation ''PRICE_LIST_NOT_FOUND'')) (\<lambda>_.
     andThen (Quotation_setGlobalPriceList listId True q) (recomputed_quote env)))"

subsection \<open>Cancelling, deleting, sending\<close>

definition Quotes_cancel ::
  "quote_env \<Rightarrow> ident \<Rightarrow> quotation_cancel_reason \<Rightarrow> quotes_db \<Rightarrow> quotation result" where
  "Quotes_cancel env i reason db =
     mapR (Quotation_cancel reason (qev_now env)) (loaded_quotation env i db)"

definition Quotes_remove :: "quote_env \<Rightarrow> ident \<Rightarrow> quotes_db \<Rightarrow> unit result" where
  "Quotes_remove env i db =
     andThen (loaded_quotation env i db) (\<lambda>q.
       throw_if (quo_status q = QuoteSent \<or> quo_status q = QuoteExpired)
         (BusinessRuleViolationError
           (''Quotation is in '' @ quotation_status_name (quo_status q) @
            '' status; only DRAFT and CANCELLED can be deleted'') ''QUOTATION_CANNOT_DELETE''))"

definition loadCustomerForWire :: "quote_env \<Rightarrow> ident option \<Rightarrow> quote_customer option" where
  "loadCustomerForWire env customerId =
     (if truthy customerId then qev_customer env (the_ident customerId) else None)"

text \<open>
  The sent aggregate with the address the mail went to.  The status it checks is the
  stored one; the expiry is not looked at.
\<close>

definition Quotes_send ::
  "quote_env \<Rightarrow> ident \<Rightarrow> bool \<Rightarrow> quotes_db \<Rightarrow> (quotation \<times> ident option) result" where
  "Quotes_send env i sendEmail db =
     andThen (loaded_quote_draft env i db) (\<lambda>q.
     andThen (throw_if (quo_items q = []) (BusinessRuleViolationError
       (''Quotation '' @ i @ '' cannot be sent because it has no items'') ''QUOTATION_HAS_NO_ITEMS'')) (\<lambda>_.
       let email = (case loadCustomerForWire env (quo_customerId q) of None \<Rightarrow> None | Some c \<Rightarrow> qcu_email c) in
     andThen (throw_if (sendEmail \<and> \<not> truthy email) (BusinessRuleViolationError
       (''Quotation '' @ i @ '' cannot be sent: assigned customer has no email address'')
       ''QUOTATION_CUSTOMER_HAS_NO_EMAIL'')) (\<lambda>_.
     andThen (case qev_renderError env of None \<Rightarrow> Inr () | Some e \<Rightarrow> Inl (PlainError e)) (\<lambda>_.
     andThen (case qev_mailError env of
         None \<Rightarrow> Inr ()
       | Some e \<Rightarrow> throw_if sendEmail (PlainError (''QUOTATION_EMAIL_SEND_FAILED: '' @ e))) (\<lambda>_.
     mapR (\<lambda>sent. (sent, if sendEmail then email else None)) (Quotation_send (qev_now env) q))))))"

subsection \<open>Reading\<close>

definition Quotes_findOne ::
  "quote_env \<Rightarrow> ident \<Rightarrow> quotes_db \<Rightarrow> (quotation_response \<times> quote_customer option) result" where
  "Quotes_findOne env i db =
     mapR (\<lambda>q. (Quotation_toResponse (qev_now env) q, loadCustomerForWire env (quo_customerId q)))
       (loaded_quotation env i db)"

datatype quote_sort = SortCreatedAt | SortUpdatedAt | SortTotalCents | SortExpiresAt

record quotation_query =
  qqy_page :: "int option"
  qqy_limit :: "int option"
  qqy_status :: "quotation_status list"
  qqy_customerId :: "ident list"
  qqy_search :: "string option"
  qqy_createdFrom :: "timestamp option"
  qqy_createdTo :: "timestamp option"
  qqy_expiresFrom :: "timestamp option"
  qqy_expiresTo :: "timestamp option"
  qqy_minTotalCents :: "cents option"
  qqy_maxTotalCents :: "cents option"
  qqy_sortBy :: "quote_sort option"
  qqy_descending :: "bool option"

definition any_quotation :: quotation_query where
  "any_quotation =
     \<lparr>qqy_page = None, qqy_limit = None, qqy_status = [], qqy_customerId = [], qqy_search = None,
      qqy_createdFrom = None, qqy_createdTo = None, qqy_expiresFrom = None, qqy_expiresTo = None,
      qqy_minTotalCents = None, qqy_maxTotalCents = None, qqy_sortBy = None, qqy_descending = None\<rparr>"

definition in_range :: "int option \<Rightarrow> int option \<Rightarrow> int option \<Rightarrow> bool" where
  "in_range lower upper x \<longleftrightarrow>
     (case lower of None \<Rightarrow> True | Some a \<Rightarrow> (case x of None \<Rightarrow> False | Some v \<Rightarrow> a \<le> v)) \<and>
     (case upper of None \<Rightarrow> True | Some b \<Rightarrow> (case x of None \<Rightarrow> False | Some v \<Rightarrow> v \<le> b))"

definition quotation_matches :: "quote_env \<Rightarrow> quotation_query \<Rightarrow> quotation_props \<Rightarrow> bool" where
  "quotation_matches env q r \<longleftrightarrow>
     (qqy_status q = [] \<or> qup_status r \<in> set (qqy_status q)) \<and>
     (qqy_customerId q = [] \<or> qup_customerId r \<in> Some ` set (qqy_customerId q)) \<and>
     (let search = trim (or_default (qqy_search q) []) in
      search = [] \<or>
      (case qup_customerId r of
         None \<Rightarrow> False
       | Some c \<Rightarrow>
           (case qev_customer env c of
              None \<Rightarrow> False
            | Some x \<Rightarrow> qev_contains env (qcu_firstName x) search \<or>
                (case qcu_lastName x of None \<Rightarrow> False | Some n \<Rightarrow> qev_contains env n search)))) \<and>
     in_range (qqy_createdFrom q) (qqy_createdTo q) (Some (qup_createdAt r)) \<and>
     in_range (qqy_expiresFrom q) (qqy_expiresTo q) (qup_expiresAt r) \<and>
     in_range (qqy_minTotalCents q) (qqy_maxTotalCents q) (Some (qup_totalCents r))"

text \<open>A missing value sorts as the largest; rows with equal keys stay in the table's order.\<close>

fun sort_value :: "quote_sort \<Rightarrow> quotation_props \<Rightarrow> int option" where
  "sort_value SortCreatedAt r = Some (qup_createdAt r)"
| "sort_value SortUpdatedAt r = Some (qup_updatedAt r)"
| "sort_value SortTotalCents r = Some (qup_totalCents r)"
| "sort_value SortExpiresAt r = qup_expiresAt r"

definition sort_rank :: "quote_sort \<Rightarrow> bool \<Rightarrow> quotation_props \<Rightarrow> bool \<times> int" where
  "sort_rank by_column descending r =
     (let v = sort_value by_column r in
      if descending then (v \<noteq> None, - or_default v 0) else (v = None, or_default v 0))"

record quotation_list =
  qls_data :: "(quotation_response \<times> quote_customer option) list"
  qls_page :: int
  qls_limit :: int
  qls_total :: int
  qls_totalPages :: int

definition Quotes_findAll :: "quote_env \<Rightarrow> quotation_query \<Rightarrow> quotes_db \<Rightarrow> quotation_list" where
  "Quotes_findAll env q db =
     (let page = max 1 (or_default (qqy_page q) 1);
          limit = min 100 (max 1 (or_default (qqy_limit q) 20));
          found = filter (quotation_matches env q) db;
          total = int (length found);
          sorted_rows = sort_key
            (sort_rank (or_default (qqy_sortBy q) SortCreatedAt) (or_default (qqy_descending q) True)) found;
          rows = take (nat limit) (drop (nat ((page - 1) * limit)) sorted_rows)
      in \<lparr>qls_data = List.map_filter (\<lambda>r.
            map_option (\<lambda>x. (Quotation_toResponse (qev_now env) x, loadCustomerForWire env (quo_customerId x)))
              (load_quotation env (qup_id r) [r])) rows,
          qls_page = page, qls_limit = limit, qls_total = total,
          qls_totalPages = (if total = 0 then 0 else (total + limit - 1) div limit)\<rparr>)"

subsection \<open>Requests\<close>

datatype quote_request =
    OpenQuotation ident "ident option" "ident option"
  | AddQuoteItem ident ident "ident option" js_number
  | UpdateQuoteQuantity ident ident js_number
  | RemoveQuoteItem ident ident
  | OverrideQuotePrice ident ident cents
  | ApplyQuoteManual ident ident
  | RemoveQuoteManual ident ident
  | VetoQuotePromotion ident ident
  | OptInQuotePromotion ident ident
  | SetQuoteExpiry ident "js_date option"
  | SetQuoteNotes ident "string option"
  | SetQuoteTaxRate ident rat
  | AssignQuoteCustomer ident ident
  | AssignQuoteSeller ident ident
  | SetQuotePriceList ident "ident option"
  | CancelQuotation ident quotation_cancel_reason
  | SendQuotation ident bool

text \<open>The aggregate a request is about to save, and the mail it has sent by then.\<close>

fun prepare_quotation ::
  "quote_env \<Rightarrow> quote_request \<Rightarrow> quotes_db \<Rightarrow> (quotation \<times> ident option) result" where
  "prepare_quotation env (SendQuotation i sendEmail) db = Quotes_send env i sendEmail db"
| "prepare_quotation env req db =
     mapR (\<lambda>q. (q, None))
       (case req of
          OpenQuotation seller customer l \<Rightarrow> Quotes_openDraft env seller customer l
        | AddQuoteItem i p v n \<Rightarrow> Quotes_addItem env i p v n db
        | UpdateQuoteQuantity i it n \<Rightarrow> Quotes_updateItemQuantity env i it n db
        | RemoveQuoteItem i it \<Rightarrow> Quotes_removeItem env i it db
        | OverrideQuotePrice i it price \<Rightarrow> Quotes_overrideItemPrice env i it price db
        | ApplyQuoteManual i p \<Rightarrow> Quotes_applyManualPromotion env i p db
        | RemoveQuoteManual i p \<Rightarrow> Quotes_removeManualPromotion env i p db
        | VetoQuotePromotion i p \<Rightarrow> Quotes_vetoPromotion env i p db
        | OptInQuotePromotion i p \<Rightarrow> Quotes_optInPromotion env i p db
        | SetQuoteExpiry i d \<Rightarrow> Quotes_setExpiry env i d db
        | SetQuoteNotes i n \<Rightarrow> Quotes_setNotes env i n db
        | SetQuoteTaxRate i r \<Rightarrow> Quotes_setTaxRate env i r db
        | AssignQuoteCustomer i c \<Rightarrow> Quotes_assignCustomer env i c db
        | AssignQuoteSeller i u \<Rightarrow> Quotes_assignSeller env i u db
        | SetQuotePriceList i l \<Rightarrow> Quotes_setPriceList env i l db
        | CancelQuotation i r \<Rightarrow> Quotes_cancel env i r db
        | SendQuotation i e \<Rightarrow> Inl (PlainError ''unreachable''))"

datatype quote_answer =
    QuotationAnswer quotation_response string
  | SentAnswer ident "ident option"

definition loadSellerNameForWire :: "quote_env \<Rightarrow> ident \<Rightarrow> string" where
  "loadSellerNameForWire env userId = or_default (qev_user env userId) userId"

definition quote_answer_of :: "quote_env \<Rightarrow> quote_request \<Rightarrow> ident option \<Rightarrow> quotation \<Rightarrow> quote_answer" where
  "quote_answer_of env req mail q =
     (case req of
        SendQuotation i e \<Rightarrow> SentAnswer (quo_id q) mail
      | _ \<Rightarrow> QuotationAnswer (Quotation_toResponse (qev_now env) q)
               (loadSellerNameForWire env (quo_sellerUserId q)))"

text \<open>A request served alone.\<close>

definition run_quotation ::
  "quote_env \<Rightarrow> quote_request \<Rightarrow> quotes_db \<Rightarrow> quote_answer result \<times> quotes_db" where
  "run_quotation env req db =
     (case prepare_quotation env req db of
        Inl e \<Rightarrow> (Inl e, db)
      | Inr (q, mail) \<Rightarrow>
          (case save_quotation env q db of
             (r, db') \<Rightarrow> (mapR (quote_answer_of env req mail) r, db')))"

definition run_remove :: "quote_env \<Rightarrow> ident \<Rightarrow> quotes_db \<Rightarrow> unit result \<times> quotes_db" where
  "run_remove env i db =
     (case Quotes_remove env i db of
        Inl e \<Rightarrow> (Inl e, db)
      | Inr _ \<Rightarrow> (Inr (), delete_quotation i db))"

text \<open>Every request that writes: the one that deletes saves nothing.\<close>

datatype quote_call =
    SavingCall quote_request
  | RemoveQuotation ident

fun serve_quotation ::
  "quote_env \<Rightarrow> quote_call \<Rightarrow> quotes_db \<Rightarrow> quote_answer option result \<times> quotes_db" where
  "serve_quotation env (SavingCall req) db =
     (case run_quotation env req db of (r, db') \<Rightarrow> (mapR Some r, db'))"
| "serve_quotation env (RemoveQuotation i) db =
     (case run_remove env i db of (r, db') \<Rightarrow> (mapR (\<lambda>_. None) r, db'))"

subsection \<open>Overlapping requests\<close>

record quote_system =
  qsy_db :: quotes_db
  qsy_saves :: "(quotation \<times> quote_statement list) list"
  qsy_deletes :: "ident list"
  qsy_mails :: "(ident \<times> ident) list"

definition mail_of :: "ident \<Rightarrow> ident option \<Rightarrow> (ident \<times> ident) list" where
  "mail_of i mail = (case mail of None \<Rightarrow> [] | Some a \<Rightarrow> [(i, a)])"

text \<open>
  Assumed of the environment: the database answers with the rows it has, and a product's
  rate is one of the enumeration.
\<close>

definition quote_env_ok :: "quote_env \<Rightarrow> bool" where
  "quote_env_ok env \<longleftrightarrow>
     (\<forall>xs. mset (qev_itemOrder env xs) = mset xs) \<and> (\<forall>xs. mset (qev_idOrder env xs) = mset xs) \<and>
     (\<forall>p\<in>set (ctg_products (qev_catalog env)). rate_of (cpd_ivaRate p) \<noteq> None)"

text \<open>
  A save is the aggregate with the statements it has still to run: each is one step, other
  requests run between them, and the first that fails ends the save.  A request that has
  no statement left has nothing more to write.
\<close>

inductive quote_step :: "quote_system \<Rightarrow> quote_system \<Rightarrow> bool" where
  begin_save: "quote_env_ok env \<Longrightarrow> prepare_quotation env req (qsy_db s) = Inr (q, mail) \<Longrightarrow>
     quote_step s (s\<lparr>qsy_saves := (q, save_statements q) # qsy_saves s,
       qsy_mails := qsy_mails s @ mail_of (quo_id q) mail\<rparr>)"
| statement_runs: "quote_env_ok env \<Longrightarrow> (q, st # sts) \<in> set (qsy_saves s) \<Longrightarrow>
     save_statement env q st (qsy_db s) = Inr db' \<Longrightarrow>
     quote_step s (s\<lparr>qsy_db := db', qsy_saves := (q, sts) # remove1 (q, st # sts) (qsy_saves s)\<rparr>)"
| statement_fails: "quote_env_ok env \<Longrightarrow> (q, st # sts) \<in> set (qsy_saves s) \<Longrightarrow>
     save_statement env q st (qsy_db s) = Inl e \<Longrightarrow>
     quote_step s (s\<lparr>qsy_saves := remove1 (q, st # sts) (qsy_saves s)\<rparr>)"
| end_save: "(q, []) \<in> set (qsy_saves s) \<Longrightarrow>
     quote_step s (s\<lparr>qsy_saves := remove1 (q, []) (qsy_saves s)\<rparr>)"
| begin_delete: "quote_env_ok env \<Longrightarrow> Quotes_remove env i (qsy_db s) = Inr () \<Longrightarrow>
     quote_step s (s\<lparr>qsy_deletes := i # qsy_deletes s\<rparr>)"
| end_delete: "i \<in> set (qsy_deletes s) \<Longrightarrow>
     quote_step s (s\<lparr>qsy_db := delete_quotation i (qsy_db s), qsy_deletes := remove1 i (qsy_deletes s)\<rparr>)"

definition no_quotations :: quote_system where
  "no_quotations = \<lparr>qsy_db = [], qsy_saves = [], qsy_deletes = [], qsy_mails = []\<rparr>"

abbreviation quotes_reachable :: "quote_system \<Rightarrow> bool" where
  "quotes_reachable s \<equiv> quote_step\<^sup>*\<^sup>* no_quotations s"

end
