(* ===== verification/QuotationLaws.thy ===== *)
theory QuotationLaws
  imports QuotationService SalesPricingLaws
begin

section \<open>Laws of the quotations\<close>

text \<open>
  What a line is and stays through the recompute, what a save leaves in the tables, and
  the tax of a quotation by classification.
\<close>

named_theorems quote_line_simps \<open>the methods of a line\<close>

lemmas [quote_line_simps] = quote_item_of_def QuotationItem_fromPersistence_def quote_clearDiscountFields_def
  quote_removeDiscount_def quote_clear_promotion_def snapshotTaxClassification_def quote_item_row_def

subsection \<open>Taxable bases\<close>

lemma taxable_base_bounds:
  assumes "0 \<le> percent" and "0 \<le> inclusive"
  shows "0 \<le> taxable_base percent inclusive" and "taxable_base percent inclusive \<le> inclusive"
proof -
  let ?d = "100 + percent"
  have d: "0 < ?d" using assms(1) by simp
  show "0 \<le> taxable_base percent inclusive"
    using assms d by (simp add: taxable_base_def Let_def pos_imp_zdiv_nonneg_iff)
  have "inclusive * 100 + ?d div 2 < ?d * (inclusive + 1)"
  proof -
    have "inclusive * 100 \<le> inclusive * ?d" using assms by (intro mult_left_mono) simp_all
    moreover have "?d div 2 < ?d" using d by (simp add: int_div_less_self)
    ultimately show ?thesis by (simp add: algebra_simps)
  qed
  moreover have "?d * ((inclusive * 100 + ?d div 2) div ?d) \<le> inclusive * 100 + ?d div 2"
    using pos_mod_sign [OF d] by (simp add: minus_mod_eq_mult_div [symmetric])
  ultimately have "?d * ((inclusive * 100 + ?d div 2) div ?d) < ?d * (inclusive + 1)" by simp
  then have "(inclusive * 100 + ?d div 2) div ?d < inclusive + 1"
    using d by (simp only: mult_less_cancel_left_pos)
  then show "taxable_base percent inclusive \<le> inclusive" by (simp add: taxable_base_def Let_def)
qed

subsection \<open>A line\<close>

text \<open>The base of a line with a classification is that of its amount.\<close>

definition line_percent :: "quote_item \<Rightarrow> int" where
  "line_percent it =
     (case effectiveIvaClassification it of Some (Classified r) \<Rightarrow> IVA_RATE_PERCENT r | _ \<Rightarrow> 0)"

definition quote_line_ok :: "quote_item \<Rightarrow> bool" where
  "quote_line_ok it \<longleftrightarrow> 1 \<le> qit_quantity it \<and> 0 \<le> qit_unitPriceCents it \<and>
     qit_ivaRateClassification it \<noteq> None \<and> qit_chargeProductTaxesSnapshot it \<noteq> None"

definition quote_line_based :: "quote_item \<Rightarrow> bool" where
  "quote_line_based it \<longleftrightarrow>
     qit_taxableBaseCents it = Some (taxable_base (line_percent it) (quote_subtotalCents it))"

lemma line_ok_clear [simp]: "quote_line_ok it \<Longrightarrow> quote_line_ok (quote_clear_promotion it)"
  by (simp add: quote_line_ok_def quote_line_simps)

lemma line_ok_reprice:
  "quote_line_ok it \<Longrightarrow> quote_reprice_item g m it = Inr (it', b) \<Longrightarrow> quote_line_ok it'"
  by (auto simp: quote_line_ok_def quote_reprice_item_def quote_reprice_def result_simps
      split: if_splits option.splits)

lemma line_ok_snapshot [simp]: "quote_line_ok it \<Longrightarrow> quote_line_ok (snapshotTaxClassification r c it)"
  by (simp add: quote_line_ok_def quote_line_simps)

lemma applyDiscount_Inr:
  "quote_applyDiscount i it = Inr it' \<Longrightarrow>
     it' = it\<lparr>qit_discountType := qit_discountType it', qit_discountValue := qit_discountValue it',
       qit_discountAmountCents := qit_discountAmountCents it', qit_discountTitle := qit_discountTitle it',
       qit_promotionId := qit_promotionId it', qit_unitPriceCents := qit_unitPriceCents it'\<rparr>
     \<and> 1 \<le> qit_unitPriceCents it'"
  by (auto simp: quote_applyDiscount_def Let_def split: if_splits)

lemma line_ok_discount: "quote_line_ok it \<Longrightarrow> quote_applyDiscount i it = Inr it' \<Longrightarrow> quote_line_ok it'"
  by (auto simp: quote_applyDiscount_def quote_line_ok_def Let_def split: if_splits)

lemma line_ok_result: "quote_line_ok it \<Longrightarrow> applyLineResultToItem r it = Inr it' \<Longrightarrow> quote_line_ok it'"
  by (cases r) (auto intro: line_ok_discount)

lemma refresh_base_Inr:
  assumes "quote_line_ok it" and "refresh_base it = Inr it'"
  shows "quote_line_ok it' \<and> quote_line_based it'"
  using assms by (auto simp: refresh_base_def recomputeTaxableBase_def quote_line_ok_def quote_line_based_def
      line_percent_def effectiveIvaClassification_def quote_subtotalCents_def Let_def split: if_splits)

subsection \<open>The recompute\<close>

lemma repriceLines_ok:
  assumes "quote_repriceLines c q its = Inr marked" and "\<forall>it\<in>set its. quote_line_ok it"
  shows "\<forall>x\<in>set marked. quote_line_ok (fst x)"
proof (cases "List.map_filter (quote_reprice_input (quote_global_list c q)) its = []")
  case True
  with assms show ?thesis by (auto simp: quote_repriceLines_def Let_def)
next
  case False
  with assms(1) obtain m where "list_all2 (\<lambda>x y. quote_reprice_item (quote_global_list c q) m x = Inr y) its marked"
    by (auto simp: quote_repriceLines_def Let_def mapM_list_Inr)
  then show ?thesis using assms(2)
    by (induction rule: list_all2_induct) (auto dest: line_ok_reprice)
qed

lemma resnapshot_ok:
  assumes "loopR (resnapshot_line c) (cache, []) marked = Inr (cache', its)"
    and "\<forall>x\<in>set marked. quote_line_ok (fst x)"
  shows "\<forall>it\<in>set its. quote_line_ok it"
proof -
  have "\<forall>it\<in>set (snd (cache', its)). quote_line_ok it"
    by (rule loopR_rule [OF assms(1), where P = "\<lambda>_ st. \<forall>it\<in>set (snd st). quote_line_ok it"])
      (use assms(2) in \<open>fastforce simp: result_simps split: option.splits prod.splits if_splits\<close>)+
  then show ?thesis by simp
qed

lemma apply_lines_ok:
  assumes "loopR quote_apply_line its rs = Inr its'" and "\<forall>it\<in>set its. quote_line_ok it"
  shows "\<forall>it\<in>set its'. quote_line_ok it"
proof (rule loopR_rule [OF assms(1), where P = "\<lambda>_ xs. \<forall>it\<in>set xs. quote_line_ok it"])
  fix pre x u v
  assume ok: "\<forall>it\<in>set u. quote_line_ok it" and step: "quote_apply_line u x = Inr v"
  show "\<forall>it\<in>set v. quote_line_ok it"
  proof (cases "find (has_quote_id (lr_itemId x)) u")
    case None
    with ok step show ?thesis by (simp add: quote_apply_line_def)
  next
    case (Some it)
    with step obtain it' where it': "applyLineResultToItem x it = Inr it'"
      "v = update_first (has_quote_id (lr_itemId x)) (\<lambda>_. it') u"
      by (auto simp: quote_apply_line_def result_simps)
    have "quote_line_ok it" using find_SomeD [OF Some] ok by blast
    from line_ok_result [OF this it'(1)] show ?thesis
      unfolding it'(2) using ok by (intro update_first_pres) auto
  qed
qed (use assms(2) in simp)

lemma prune_items [simp]: "quo_items (quote_prune_opt_ins ts q) = quo_items q"
  and prune_id [simp]: "quo_id (quote_prune_opt_ins ts q) = quo_id q"
  and prune_status [simp]: "quo_status (quote_prune_opt_ins ts q) = quo_status q"
  and prune_totals [simp]: "quo_subtotalCents (quote_prune_opt_ins ts q) = quo_subtotalCents q"
    "quo_discountCents (quote_prune_opt_ins ts q) = quo_discountCents q"
    "quo_totalCents (quote_prune_opt_ins ts q) = quo_totalCents q"
proof -
  let ?f = "foldl (\<lambda>q p. if p \<in> set ts then q else quote_optOutManualPromotion p q) q"
  have "quo_items (?f ps) = quo_items q \<and> quo_id (?f ps) = quo_id q \<and> quo_status (?f ps) = quo_status q \<and>
      quo_subtotalCents (?f ps) = quo_subtotalCents q \<and> quo_discountCents (?f ps) = quo_discountCents q \<and>
      quo_totalCents (?f ps) = quo_totalCents q" for ps
    by (induction ps rule: rev_induct) (simp_all add: quote_optOutManualPromotion_def)
  then show "quo_items (quote_prune_opt_ins ts q) = quo_items q" "quo_id (quote_prune_opt_ins ts q) = quo_id q"
    "quo_status (quote_prune_opt_ins ts q) = quo_status q"
    "quo_subtotalCents (quote_prune_opt_ins ts q) = quo_subtotalCents q"
    "quo_discountCents (quote_prune_opt_ins ts q) = quo_discountCents q"
    "quo_totalCents (quote_prune_opt_ins ts q) = quo_totalCents q"
    by (simp_all add: quote_prune_opt_ins_def)
qed

text \<open>What never moves with the lines.\<close>

definition same_quote :: "quotation \<Rightarrow> quotation \<Rightarrow> bool" where
  "same_quote q q' \<longleftrightarrow> quo_id q' = quo_id q \<and> quo_status q' = quo_status q \<and>
     quo_subtotalCents q' = quo_subtotalCents q \<and> quo_discountCents q' = quo_discountCents q \<and>
     quo_totalCents q' = quo_totalCents q"

lemma recompute_same: "quote_recompute env cache q = Inr q' \<Longrightarrow> same_quote q q'"
  by (auto simp: quote_recompute_def result_simps Let_def same_quote_def split: prod.splits)

lemma quote_recompute_lines:
  assumes "quote_recompute env cache q = Inr q'" and "\<forall>it\<in>set (quo_items q). quote_line_ok it"
  shows "\<forall>it\<in>set (quo_items q'). quote_line_ok it \<and> quote_line_based it"
proof -
  from assms(1) obtain marked cache' its discounted where
    m: "quote_repriceLines (pce_catalog env) q (map quote_clear_promotion (quo_items q)) = Inr marked"
    and s: "loopR (resnapshot_line (pce_catalog env)) (cache, []) marked = Inr (cache', its)"
    and d: "loopR quote_apply_line its (per_lines (quote_evaluate env (q\<lparr>quo_items := its\<rparr>))) = Inr discounted"
    and b: "mapM_list refresh_base discounted = Inr (quo_items q')"
    by (auto simp: quote_recompute_def result_simps Let_def split: prod.splits)
  have "\<forall>it\<in>set (map quote_clear_promotion (quo_items q)). quote_line_ok it" using assms(2) by simp
  from apply_lines_ok [OF d resnapshot_ok [OF s repriceLines_ok [OF m this]]]
  have ok: "\<forall>it\<in>set discounted. quote_line_ok it" .
  from b have "list_all2 (\<lambda>x y. refresh_base x = Inr y) discounted (quo_items q')" by (simp add: mapM_list_Inr)
  then show ?thesis using ok
    by (induction rule: list_all2_induct) (auto dest: refresh_base_Inr)
qed

end
