(* ===== verification/QuotationStepLaws.thy ===== *)
theory QuotationStepLaws
  imports QuotationLaws
begin

section \<open>What the tables of quotations keep\<close>

text \<open>
  The invariant of every row and of every aggregate on its way to the tables, kept by
  each request and by each statement of a save, whatever overlaps.
\<close>

subsection \<open>A sound quotation\<close>

lemma product_info_rate:
  assumes "getProductInfoForSale c p v = Inr info" and "\<forall>x\<in>set (ctg_products c). rate_of (cpd_ivaRate x) \<noteq> None"
  shows "rate_of (pif_ivaRate info) \<noteq> None"
proof -
  from assms(1) obtain x where "find_product c p = Some x" "pif_ivaRate info = cpd_ivaRate x"
    by (auto simp: getProductInfoForSale_def split: option.splits if_splits)
  with assms(2) show ?thesis using find_SomeD by (fastforce simp: find_product_def)
qed

definition no_stored_totals :: "quotation \<Rightarrow> bool" where
  "no_stored_totals q \<longleftrightarrow> quo_subtotalCents q = 0 \<and> quo_discountCents q = 0 \<and> quo_totalCents q = 0"

definition quotation_ok :: "quotation \<Rightarrow> bool" where
  "quotation_ok q \<longleftrightarrow>
     (\<forall>it\<in>set (quo_items q). quote_line_ok it \<and> quote_line_based it) \<and> no_stored_totals q"

definition quotation_row_ok :: "quotation_props \<Rightarrow> bool" where
  "quotation_row_ok r \<longleftrightarrow>
     (\<forall>p\<in>set (qup_items r). quote_line_ok (quote_item_of p) \<and> quote_line_based (quote_item_of p)) \<and>
     qup_subtotalCents r = 0 \<and> qup_discountCents r = 0 \<and> qup_totalCents r = 0"

lemma loaded_ok:
  assumes "quote_env_ok env" and "\<forall>r\<in>set db. quotation_row_ok r" and "load_quotation env i db = Some q"
  shows "quotation_ok q" and "quo_id q = i"
proof -
  from assms(3) obtain r where r: "r \<in> set db" "qup_id r = i"
    and q: "q = Quotation_fromPersistence
         (r\<lparr>qup_items := qev_itemOrder env (qup_items r),
            qup_vetoedPromotionIds := qev_idOrder env (qup_vetoedPromotionIds r),
            qup_optedInManualPromotionIds := qev_idOrder env (qup_optedInManualPromotionIds r)\<rparr>)"
    using find_SomeD [of "is_quotation i" db]
    by (auto simp: load_quotation_def find_quotation_def is_quotation_def)
  have "mset (qev_itemOrder env (qup_items r)) = mset (qup_items r)"
    using assms(1) by (simp add: quote_env_ok_def)
  then have "set (qev_itemOrder env (qup_items r)) = set (qup_items r)" by (rule mset_eq_setD)
  with r(1) assms(2) show "quotation_ok q"
    by (auto simp: q quotation_ok_def quotation_row_ok_def no_stored_totals_def Quotation_fromPersistence_def
        QuotationItem_fromPersistence_def)
  show "quo_id q = i" by (simp add: q Quotation_fromPersistence_def r(2))
qed

subsection \<open>Changing one line\<close>

text \<open>A change that keeps the lines sound and the identity.\<close>

definition lines_ok :: "quotation \<Rightarrow> bool" where
  "lines_ok q \<longleftrightarrow> (\<forall>it\<in>set (quo_items q). quote_line_ok it) \<and> no_stored_totals q"

definition keeps_lines :: "quotation \<Rightarrow> quotation \<Rightarrow> bool" where
  "keeps_lines q q' \<longleftrightarrow> (lines_ok q \<longrightarrow> lines_ok q') \<and> quo_id q' = quo_id q"

lemma keeps_linesI: "\<lbrakk>same_quote q q'; \<forall>it\<in>set (quo_items q). quote_line_ok it \<Longrightarrow>
    \<forall>it\<in>set (quo_items q'). quote_line_ok it\<rbrakk> \<Longrightarrow> keeps_lines q q'"
  by (simp add: keeps_lines_def lines_ok_def same_quote_def no_stored_totals_def)

lemma keeps_lines_same: "\<lbrakk>same_quote q q'; set (quo_items q') \<subseteq> set (quo_items q)\<rbrakk> \<Longrightarrow> keeps_lines q q'"
  by (rule keeps_linesI) auto

lemma change_item_kept:
  assumes "change_quote_item i f q = Inr q'"
    and "\<And>it it'. quote_line_ok it \<Longrightarrow> f it = Inr it' \<Longrightarrow> quote_line_ok it'"
  shows "keeps_lines q q'"
proof -
  from assms(1) obtain it it' where c: "find (has_quote_id i) (quo_items q) = Some it" "f it = Inr it'"
    "q' = q\<lparr>quo_items := update_first (has_quote_id i) (\<lambda>_. it') (quo_items q)\<rparr>"
    by (auto simp: change_quote_item_def result_simps split: option.splits)
  have "same_quote q q'" by (simp add: c(3) same_quote_def)
  moreover have "\<forall>x\<in>set (quo_items q'). quote_line_ok x" if ok: "\<forall>it\<in>set (quo_items q). quote_line_ok it"
  proof -
    from find_SomeD [OF c(1)] ok have "quote_line_ok it" by blast
    from assms(2) [OF this c(2)] ok have
      "\<forall>x\<in>set (update_first (has_quote_id i) (\<lambda>_. it') (quo_items q)). quote_line_ok x"
      by (intro update_first_pres) auto
    then show ?thesis by (simp add: c(3))
  qed
  ultimately show ?thesis by (rule keeps_linesI)
qed

lemma changeQuantity_line: "quote_line_ok it \<Longrightarrow> quote_changeQuantity n it = Inr it' \<Longrightarrow> quote_line_ok it'"
  by (cases n) (auto simp: quote_changeQuantity_def quote_line_ok_def split: if_splits)

lemma at_least_trunc: "at_least k n \<Longrightarrow> k \<le> js_trunc n" by (cases n) simp_all

lemma overridePrice_line: "quote_line_ok it \<Longrightarrow> quote_overridePrice i it = Inr it' \<Longrightarrow> quote_line_ok it'"
  by (auto simp: quote_overridePrice_def quote_line_ok_def quote_clearDiscountFields_def
      dest: at_least_trunc split: if_splits)

lemma addItem_lines:
  assumes "Quotation_addItem p q = Inr q'" and "\<forall>it\<in>set (quo_items q). quote_line_ok it"
    and "qip_ivaRateClassification p \<noteq> None" and "qip_chargeProductTaxesSnapshot p \<noteq> None"
  shows "\<forall>it\<in>set (quo_items q'). quote_line_ok it" and "same_quote q q'"
proof -
  from assms(1) obtain new where new: "QuotationItem_create p = Inr new"
    and q': "(case find (\<lambda>it. quote_matches it (qit_productId new) (qit_variantId new)) (quo_items q) of
         Some existing \<Rightarrow>
           mapR (\<lambda>it'. q\<lparr>quo_items := update_first
               (\<lambda>it. quote_matches it (qit_productId new) (qit_variantId new)) (\<lambda>_. it') (quo_items q)\<rparr>)
             (quote_changeQuantity (JsInt (qit_quantity existing + qit_quantity new)) existing)
       | None \<Rightarrow> Inr (q\<lparr>quo_items := quo_items q @ [new]\<rparr>)) = Inr q'"
    by (auto simp: Quotation_addItem_def result_simps Let_def)
  have ok: "quote_line_ok new" using new assms(3,4)
    by (auto simp: QuotationItem_create_def quote_line_ok_def quote_item_of_def dest: at_least_trunc
        split: if_splits)
  show "\<forall>it\<in>set (quo_items q'). quote_line_ok it"
  proof (cases "find (\<lambda>it. quote_matches it (qit_productId new) (qit_variantId new)) (quo_items q)")
    case None
    with q' ok assms(2) show ?thesis by auto
  next
    case (Some it)
    with q' obtain it' where it': "quote_changeQuantity (JsInt (qit_quantity it + qit_quantity new)) it = Inr it'"
      "quo_items q' = update_first (\<lambda>it. quote_matches it (qit_productId new) (qit_variantId new))
         (\<lambda>_. it') (quo_items q)" by (auto simp: result_simps)
    have "quote_line_ok it" using find_SomeD [OF Some] assms(2) by blast
    from changeQuantity_line [OF this it'(1)] show ?thesis
      unfolding it'(2) using assms(2) by (intro update_first_pres) auto
  qed
  show "same_quote q q'" using q' by (auto simp: result_simps same_quote_def split: option.splits)
qed

subsection \<open>What a request prepares\<close>

text \<open>The quotation a request is about; \<open>uuid\<close> when it opens one.\<close>

fun subject_of :: "quote_env \<Rightarrow> quote_request \<Rightarrow> ident" where
  "subject_of env (OpenQuotation s c l) = qev_uuid env"
| "subject_of env (AddQuoteItem i p v n) = i"
| "subject_of env (UpdateQuoteQuantity i it n) = i"
| "subject_of env (RemoveQuoteItem i it) = i"
| "subject_of env (OverrideQuotePrice i it c) = i"
| "subject_of env (ApplyQuoteManual i p) = i"
| "subject_of env (RemoveQuoteManual i p) = i"
| "subject_of env (VetoQuotePromotion i p) = i"
| "subject_of env (OptInQuotePromotion i p) = i"
| "subject_of env (SetQuoteExpiry i d) = i"
| "subject_of env (SetQuoteNotes i n) = i"
| "subject_of env (SetQuoteTaxRate i r) = i"
| "subject_of env (AssignQuoteCustomer i c) = i"
| "subject_of env (AssignQuoteSeller i u) = i"
| "subject_of env (SetQuotePriceList i l) = i"
| "subject_of env (CancelQuotation i r) = i"
| "subject_of env (SendQuotation i e) = i"

lemma recompute_ok:
  assumes "quote_recompute env cache q1 = Inr q'" and "keeps_lines q q1" and "quotation_ok q"
  shows "quotation_ok q' \<and> quo_id q' = quo_id q"
proof -
  from assms(2,3) have q1: "lines_ok q1" "quo_id q1 = quo_id q"
    by (auto simp: keeps_lines_def lines_ok_def quotation_ok_def)
  from quote_recompute_lines [OF assms(1)] recompute_same [OF assms(1)] q1 show ?thesis
    by (auto simp: quotation_ok_def lines_ok_def same_quote_def no_stored_totals_def)
qed

lemma draft_loaded:
  assumes "loaded_quote_draft env i db = Inr q" and "quote_env_ok env" and "\<forall>r\<in>set db. quotation_row_ok r"
  shows "quotation_ok q" and "quo_id q = i" and "quo_status q = QuoteDraft"
  using assms(1) loaded_ok [OF assms(2,3), of i q]
  by (auto simp: loaded_quote_draft_def loaded_quotation_def result_simps split: option.splits)

lemma removeItem_kept: "Quotation_removeItem it q = Inr q' \<Longrightarrow> keeps_lines q q'"
  using set_remove_first [of "has_quote_id it" "quo_items q"]
  by (intro keeps_lines_same) (auto simp: Quotation_removeItem_def result_simps same_quote_def split: if_splits)

lemma updateItemQuantity_kept: "Quotation_updateItemQuantity it n q = Inr q' \<Longrightarrow> keeps_lines q q'"
  by (rule change_item_kept [of it "quote_changeQuantity n", OF _ changeQuantity_line])
    (auto simp: Quotation_updateItemQuantity_def result_simps split: if_splits)

lemma overrideItemPrice_kept: "Quotation_overrideItemPrice it i q = Inr q' \<Longrightarrow> keeps_lines q q'"
  by (rule change_item_kept [of it "quote_overridePrice i", OF _ overridePrice_line])
    (auto simp: Quotation_overrideItemPrice_def result_simps)

lemma promotion_kept:
  "keeps_lines q (quote_optOutManualPromotion p q)" "keeps_lines q (quote_removeVetoedPromotion p q)"
  "keeps_lines q (quote_optInManualPromotion p q)" "keeps_lines q (quote_addVetoedPromotion p q)"
  by (simp_all add: keeps_lines_def lines_ok_def no_stored_totals_def quote_optOutManualPromotion_def
      quote_removeVetoedPromotion_def quote_optInManualPromotion_def quote_addVetoedPromotion_def Let_def)

lemma setGlobalPriceList_kept: "Quotation_setGlobalPriceList l b q = Inr q' \<Longrightarrow> keeps_lines q q'"
  by (auto simp: Quotation_setGlobalPriceList_def result_simps keeps_lines_def lines_ok_def no_stored_totals_def)

lemma assignCustomer_kept: "Quotation_assignCustomer c l q = Inr q' \<Longrightarrow> keeps_lines q q'"
  by (auto simp: Quotation_assignCustomer_def result_simps keeps_lines_def lines_ok_def no_stored_totals_def Let_def
      split: if_splits)

lemma keeps_lines_trans: "keeps_lines a b \<Longrightarrow> keeps_lines b c \<Longrightarrow> keeps_lines a c"
  by (simp add: keeps_lines_def)

lemma keeps_lines_refl [simp]: "keeps_lines q q" by (simp add: keeps_lines_def)

text \<open>Requests that change nothing the invariant reads.\<close>

lemma field_requests_kept:
  "Quotation_setExpiry d q = Inr q' \<Longrightarrow> same_quote q q' \<and> quo_items q' = quo_items q"
  "Quotation_setNotes n q = Inr q' \<Longrightarrow> same_quote q q' \<and> quo_items q' = quo_items q"
  "setDeprecatedTaxRate r q = Inr q' \<Longrightarrow> same_quote q q' \<and> quo_items q' = quo_items q"
  "Quotation_assignSeller u q = Inr q' \<Longrightarrow> same_quote q q' \<and> quo_items q' = quo_items q"
  by (auto simp: Quotation_setExpiry_def Quotation_setNotes_def setDeprecatedTaxRate_def
      Quotation_assignSeller_def result_simps same_quote_def)

lemma same_items_ok: "\<lbrakk>quotation_ok q; quo_items q' = quo_items q; quo_id q' = quo_id q;
    quo_subtotalCents q' = quo_subtotalCents q; quo_discountCents q' = quo_discountCents q;
    quo_totalCents q' = quo_totalCents q\<rbrakk> \<Longrightarrow> quotation_ok q' \<and> quo_id q' = quo_id q"
  by (simp add: quotation_ok_def no_stored_totals_def)

lemma opened_ok:
  assumes "Quotes_openDraft env seller customer l = Inr q"
  shows "quotation_ok q \<and> quo_id q = qev_uuid env"
proof -
  from assms obtain c s q0 where q0: "Quotation_create (qev_uuid env) seller c s = Inr q0"
    and q: "(if truthy l then Quotation_setGlobalPriceList s True q0 else Inr q0) = Inr q"
    by (auto simp: Quotes_openDraft_def result_simps)
  from q0 have "quotation_ok q0" "quo_id q0 = qev_uuid env"
    by (auto simp: Quotation_create_def quotation_ok_def no_stored_totals_def split: if_splits)
  with q show ?thesis
    by (auto simp: Quotation_setGlobalPriceList_def quotation_ok_def no_stored_totals_def result_simps split: if_splits)
qed

text \<open>The shape of the requests on a draft: load, change, recompute or not.\<close>

lemma changed_draft_ok:
  assumes "andThen (loaded_quote_draft env i db) f = Inr q'" and "quote_env_ok env"
    and "\<forall>r\<in>set db. quotation_row_ok r"
    and "\<And>q. \<lbrakk>quotation_ok q; quo_id q = i; f q = Inr q'\<rbrakk> \<Longrightarrow> quotation_ok q' \<and> quo_id q' = quo_id q"
  shows "quotation_ok q' \<and> quo_id q' = i"
  using assms(1,4) draft_loaded [OF _ assms(2,3)] by (fastforce simp: result_simps)

lemma recomputed_draft_ok:
  assumes "andThen (change q) (quote_recompute env cache) = Inr q'" and "quotation_ok q"
    and "\<And>q1. change q = Inr q1 \<Longrightarrow> keeps_lines q q1"
  shows "quotation_ok q' \<and> quo_id q' = quo_id q"
  using assms recompute_ok by (fastforce simp: result_simps)

lemma line_requests_ok:
  assumes "quote_env_ok env" and "\<forall>r\<in>set db. quotation_row_ok r"
  shows "Quotes_updateItemQuantity env i it n db = Inr q' \<Longrightarrow> quotation_ok q' \<and> quo_id q' = i"
    and "Quotes_removeItem env i it db = Inr q' \<Longrightarrow> quotation_ok q' \<and> quo_id q' = i"
    and "Quotes_overrideItemPrice env i it c db = Inr q' \<Longrightarrow> quotation_ok q' \<and> quo_id q' = i"
  unfolding Quotes_updateItemQuantity_def Quotes_removeItem_def Quotes_overrideItemPrice_def
  by (erule changed_draft_ok [OF _ assms], erule recomputed_draft_ok, assumption,
      erule updateItemQuantity_kept removeItem_kept overrideItemPrice_kept)+

lemma addItem_ok:
  assumes "quote_env_ok env" and "\<forall>r\<in>set db. quotation_row_ok r" and "Quotes_addItem env i p v n db = Inr q'"
  shows "quotation_ok q' \<and> quo_id q' = i"
  using assms(3) unfolding Quotes_addItem_def
proof (rule changed_draft_ok [OF _ assms(1,2)])
  fix q
  assume q: "quotation_ok q"
    and run: "andThen (getProductInfoForSale (qev_catalog env) p v)
      (\<lambda>info. andThen (Quotation_addItem (new_quote_item env (quo_id q) info n) q)
         (quote_recompute (qev_pricing env) (seeded_cache info))) = Inr q'"
  from run obtain info q1 where info: "getProductInfoForSale (qev_catalog env) p v = Inr info"
    and q1: "Quotation_addItem (new_quote_item env (quo_id q) info n) q = Inr q1"
    and q': "quote_recompute (qev_pricing env) (seeded_cache info) q1 = Inr q'"
    by (auto simp: result_simps)
  from assms(1) have "rate_of (pif_ivaRate info) \<noteq> None"
    by (intro product_info_rate [OF info]) (simp add: quote_env_ok_def)
  then have "keeps_lines q q1"
    using addItem_lines [OF q1] addItem_lines(2) [OF q1] q
    by (intro keeps_linesI) (auto simp: new_quote_item_def quotation_ok_def)
  from recompute_ok [OF q' this q] show "quotation_ok q' \<and> quo_id q' = quo_id q" .
qed

lemma promotion_requests_ok:
  assumes "quote_env_ok env" and "\<forall>r\<in>set db. quotation_row_ok r"
  shows "Quotes_applyManualPromotion env i p db = Inr q' \<Longrightarrow> quotation_ok q' \<and> quo_id q' = i"
    and "Quotes_removeManualPromotion env i p db = Inr q' \<Longrightarrow> quotation_ok q' \<and> quo_id q' = i"
    and "Quotes_vetoPromotion env i p db = Inr q' \<Longrightarrow> quotation_ok q' \<and> quo_id q' = i"
    and "Quotes_optInPromotion env i p db = Inr q' \<Longrightarrow> quotation_ok q' \<and> quo_id q' = i"
  unfolding Quotes_applyManualPromotion_def Quotes_removeManualPromotion_def Quotes_vetoPromotion_def
    Quotes_optInPromotion_def
  by (erule changed_draft_ok [OF _ assms]; use recompute_ok promotion_kept in \<open>fastforce simp: result_simps\<close>)+

lemma customer_requests_ok:
  assumes "quote_env_ok env" and "\<forall>r\<in>set db. quotation_row_ok r"
  shows "Quotes_assignCustomer env i c db = Inr q' \<Longrightarrow> quotation_ok q' \<and> quo_id q' = i"
    and "Quotes_setPriceList env i l db = Inr q' \<Longrightarrow> quotation_ok q' \<and> quo_id q' = i"
proof -
  have kept: "keeps_lines q q2"
    if "(if b then Quotation_setGlobalPriceList x e q else Inr q) = Inr q1" "Quotation_assignCustomer c y q1 = Inr q2"
    for b x e y q q1 q2
    using that setGlobalPriceList_kept assignCustomer_kept keeps_lines_trans
    by (metis keeps_lines_refl sum.inject(2))
  show "Quotes_assignCustomer env i c db = Inr q' \<Longrightarrow> quotation_ok q' \<and> quo_id q' = i"
    unfolding Quotes_assignCustomer_def
    by (erule changed_draft_ok [OF _ assms]) (use kept recompute_ok in \<open>fastforce simp: result_simps\<close>)
  show "Quotes_setPriceList env i l db = Inr q' \<Longrightarrow> quotation_ok q' \<and> quo_id q' = i"
    unfolding Quotes_setPriceList_def
    by (erule changed_draft_ok [OF _ assms])
      (use setGlobalPriceList_kept recompute_ok in \<open>fastforce simp: result_simps\<close>)
qed

lemma field_requests_ok:
  assumes "quote_env_ok env" and "\<forall>r\<in>set db. quotation_row_ok r"
  shows "Quotes_setExpiry env i d db = Inr q' \<Longrightarrow> quotation_ok q' \<and> quo_id q' = i"
    and "Quotes_setNotes env i n db = Inr q' \<Longrightarrow> quotation_ok q' \<and> quo_id q' = i"
    and "Quotes_setTaxRate env i rate db = Inr q' \<Longrightarrow> quotation_ok q' \<and> quo_id q' = i"
  unfolding Quotes_setExpiry_def Quotes_setNotes_def Quotes_setTaxRate_def
  by (erule changed_draft_ok [OF _ assms];
      use field_requests_kept same_items_ok in \<open>fastforce simp: same_quote_def\<close>)+

lemma loaded_quotation_ok:
  assumes "quote_env_ok env" and "\<forall>r\<in>set db. quotation_row_ok r" and "loaded_quotation env i db = Inr q"
  shows "quotation_ok q" and "quo_id q = i"
  using loaded_ok [OF assms(1,2)] assms(3) by (auto simp: loaded_quotation_def split: option.splits)

lemma whole_requests_ok:
  assumes "quote_env_ok env" and "\<forall>r\<in>set db. quotation_row_ok r"
  shows "Quotes_assignSeller env i u db = Inr q' \<Longrightarrow> quotation_ok q' \<and> quo_id q' = i"
    and "Quotes_cancel env i reason db = Inr q' \<Longrightarrow> quotation_ok q' \<and> quo_id q' = i"
    and "Quotes_send env i e db = Inr (q', mail) \<Longrightarrow> quotation_ok q' \<and> quo_id q' = i"
proof -
  show "Quotes_assignSeller env i u db = Inr q' \<Longrightarrow> quotation_ok q' \<and> quo_id q' = i"
    using loaded_quotation_ok [OF assms] field_requests_kept(4) same_items_ok
    by (fastforce simp: Quotes_assignSeller_def result_simps same_quote_def)
  show "Quotes_cancel env i reason db = Inr q' \<Longrightarrow> quotation_ok q' \<and> quo_id q' = i"
    using loaded_quotation_ok [OF assms]
    by (auto simp: Quotes_cancel_def result_simps Quotation_cancel_def quotation_ok_def no_stored_totals_def
        split: if_splits)
  show "Quotes_send env i e db = Inr (q', mail) \<Longrightarrow> quotation_ok q' \<and> quo_id q' = i"
    using draft_loaded [OF _ assms]
    by (auto simp: Quotes_send_def result_simps Let_def Quotation_send_def quotation_ok_def no_stored_totals_def
        split: if_splits)
qed

lemma prepare_ok:
  assumes "quote_env_ok env" and "\<forall>r\<in>set db. quotation_row_ok r" and "prepare_quotation env req db = Inr (q, mail)"
  shows "quotation_ok q \<and> quo_id q = subject_of env req"
proof -
  note ok = line_requests_ok [OF assms(1,2)] addItem_ok [OF assms(1,2)] promotion_requests_ok [OF assms(1,2)]
    customer_requests_ok [OF assms(1,2)] field_requests_ok [OF assms(1,2)] whole_requests_ok [OF assms(1,2)] opened_ok
  show ?thesis using assms(3) by (cases req) (auto simp: result_simps dest: ok)
qed

end
