(* ===== verification/QuotationTax.thy ===== *)
theory QuotationTax
  imports QuotationStepLaws
begin

section \<open>Saved quotations and their tax\<close>

text \<open>
  A save writes sound rows and touches one quotation only; every state that overlapping
  requests reach is sound; the breakdown of a sound quotation by classification.
\<close>

subsection \<open>Saving\<close>

lemma update_rows_ok:
  assumes "\<forall>r\<in>set db. quotation_row_ok r" and "\<And>r. quotation_row_ok r \<Longrightarrow> quotation_row_ok (f r)"
  shows "\<forall>r\<in>set (update_quotation i f db). quotation_row_ok r"
  using assms unfolding update_quotation_def by (intro update_first_pres) auto

lemma stored_line_ok [simp]:
  "quote_line_ok (quote_item_of (quote_item_row now i it)) = quote_line_ok it"
  "quote_line_based (quote_item_of (quote_item_row now i it)) = quote_line_based it"
  by (simp_all add: quote_line_ok_def quote_line_based_def line_percent_def effectiveIvaClassification_def
      quote_subtotalCents_def quote_item_of_def quote_item_row_def)

lemma upserted_ok:
  assumes "upsert_quotation env q db = Inr db'" and "\<forall>r\<in>set db. quotation_row_ok r" and "quotation_ok q"
  shows "\<forall>r\<in>set db'. quotation_row_ok r"
proof -
  from assms(1) obtain expires where db': "db' = (if find_quotation (quo_id q) db = None
         then db @ [(new_quotation_row (qev_now env) q)\<lparr>qup_expiresAt := expires\<rparr>]
         else update_quotation (quo_id q) (root_columns (qev_now env) expires q) db)"
    by (auto simp: upsert_quotation_def result_simps)
  have "quotation_row_ok ((new_quotation_row (qev_now env) q)\<lparr>qup_expiresAt := expires\<rparr>)"
    using assms(3) by (simp add: quotation_row_ok_def new_quotation_row_def quotation_ok_def no_stored_totals_def)
  moreover have "quotation_row_ok (root_columns (qev_now env) expires q r)" if "quotation_row_ok r" for r
    using that assms(3) by (simp add: quotation_row_ok_def root_columns_def quotation_ok_def no_stored_totals_def)
  ultimately show ?thesis
    unfolding db' using assms(2) update_rows_ok [of db "root_columns (qev_now env) expires q"] by simp
qed

lemma created_lines:
  assumes "create_lines env q db = Inr db'"
  shows "db' = update_quotation (quo_id q)
    (\<lambda>r. r\<lparr>qup_items := qup_items r @ map (quote_item_row (qev_now env) (quo_id q)) (quo_items q)\<rparr>) db"
    and "find_quotation (quo_id q) db \<noteq> None"
  using assms by (auto simp: create_lines_def result_simps throw_if_def split: if_splits)

lemma created_junction:
  assumes "create_junction env i stored ps put db = Inr db'"
  shows "db' = update_quotation i (\<lambda>r. put (stored r @ ps) r) db"
  using assms by (auto simp: create_junction_def result_simps split: option.splits)

lemma junction_rows_ok:
  assumes "\<forall>r\<in>set db. quotation_row_ok r"
  shows "\<forall>r\<in>set (update_quotation i (\<lambda>r. r\<lparr>qup_vetoedPromotionIds := f r\<rparr>) db). quotation_row_ok r"
    and "\<forall>r\<in>set (update_quotation i (\<lambda>r. r\<lparr>qup_optedInManualPromotionIds := f r\<rparr>) db). quotation_row_ok r"
  by (rule update_rows_ok [OF assms], simp add: quotation_row_ok_def)+

lemma statement_rows_ok:
  assumes "save_statement env q st db = Inr db'" and "\<forall>r\<in>set db. quotation_row_ok r" and "quotation_ok q"
  shows "\<forall>r\<in>set db'. quotation_row_ok r"
proof (cases st)
  case UpsertRoot
  with assms show ?thesis by (auto dest: upserted_ok)
next
  case DeleteLines
  with assms(1) have db': "db' = update_quotation (quo_id q) (\<lambda>r. r\<lparr>qup_items := []\<rparr>) db" by simp
  show ?thesis unfolding db' by (rule update_rows_ok [OF assms(2)]) (simp add: quotation_row_ok_def)
next
  case CreateLines
  with assms(1) have "create_lines env q db = Inr db'" by simp
  note db' = created_lines(1) [OF this]
  show ?thesis unfolding db'
    by (rule update_rows_ok [OF assms(2)]) (use assms(3) in \<open>auto simp: quotation_row_ok_def quotation_ok_def\<close>)
qed (use assms(1) junction_rows_ok [OF assms(2)] in \<open>auto dest!: created_junction\<close>)

lemma run_rows_ok:
  assumes "\<forall>r\<in>set db. quotation_row_ok r" and "quotation_ok q"
  shows "\<forall>r\<in>set (snd (run_statements env q sts db)). quotation_row_ok r"
  using assms(1) by (induction sts arbitrary: db) (auto split: sum.split dest: statement_rows_ok [OF _ _ assms(2)])

lemma snd_save_quotation: "snd (save_quotation env q db) = snd (run_statements env q (save_statements q) db)"
  by (simp add: save_quotation_def split: prod.split sum.split option.split)

lemma find_update_quotation [simp]:
  assumes "\<And>r. qup_id (f r) = qup_id r"
  shows "find_quotation i (update_quotation j f db) =
    (if i = j then map_option f (find_quotation i db) else find_quotation i db)"
  using assms unfolding find_quotation_def update_quotation_def
  by (induction db) (auto simp: is_quotation_def)

lemma upserted_find:
  assumes "upsert_quotation env q db = Inr db'"
  shows "i \<noteq> quo_id q \<Longrightarrow> find_quotation i db' = find_quotation i db"
    and "\<exists>r. find_quotation (quo_id q) db' = Some r \<and> qup_status r = quo_status q"
proof -
  from assms obtain expires where db': "db' = (if find_quotation (quo_id q) db = None
         then db @ [(new_quotation_row (qev_now env) q)\<lparr>qup_expiresAt := expires\<rparr>]
         else update_quotation (quo_id q) (root_columns (qev_now env) expires q) db)"
    by (auto simp: upsert_quotation_def result_simps)
  let ?new = "(new_quotation_row (qev_now env) q)\<lparr>qup_expiresAt := expires\<rparr>"
  have new: "find_quotation i (db @ [?new]) =
      (case find_quotation i db of Some r \<Rightarrow> Some r | None \<Rightarrow> if i = quo_id q then Some ?new else None)" for i
    by (induction db) (auto simp: find_quotation_def is_quotation_def new_quotation_row_def)
  have id: "qup_id (root_columns (qev_now env) expires q r) = qup_id r" for r by (simp add: root_columns_def)
  show "find_quotation i db' = find_quotation i db" if "i \<noteq> quo_id q"
    using that by (simp add: db' new id split: option.split)
  have found: "find_quotation (quo_id q) (db @ [?new]) = Some ?new" if "find_quotation (quo_id q) db = None"
    using new [of "quo_id q"] that by simp
  have status: "qup_status ?new = quo_status q" "qup_status (root_columns (qev_now env) expires q r) = quo_status q" for r
    by (simp_all add: root_columns_def new_quotation_row_def)
  show "\<exists>r. find_quotation (quo_id q) db' = Some r \<and> qup_status r = quo_status q"
    by (cases "find_quotation (quo_id q) db") (simp_all add: db' found id status)
qed

lemma statement_other:
  assumes "i \<noteq> quo_id q" and "save_statement env q st db = Inr db'"
  shows "find_quotation i db' = find_quotation i db"
  using assms by (cases st) (auto dest!: created_junction dest: upserted_find(1) created_lines(1))

lemma saved_other:
  assumes "i \<noteq> quo_id q"
  shows "find_quotation i (snd (save_quotation env q db)) = find_quotation i db"
proof -
  have "find_quotation i (snd (run_statements env q sts db)) = find_quotation i db" for sts
    by (induction sts arbitrary: db) (auto split: sum.split dest: statement_other [OF assms])
  then show ?thesis by (simp add: snd_save_quotation)
qed

text \<open>The row after a save that went through: the statements after the lines leave both fields.\<close>

lemma junction_statement_keeps:
  assumes "save_statement env q st db = Inr db'" and "st \<in> {DeleteVetoes, CreateVetoes, DeleteOptIns, CreateOptIns}"
    and "\<exists>r. find_quotation (quo_id q) db = Some r \<and> qup_status r = x \<and> qup_items r = its"
  shows "\<exists>r. find_quotation (quo_id q) db' = Some r \<and> qup_status r = x \<and> qup_items r = its"
  using assms by (auto dest!: created_junction)

lemma junction_run_keeps:
  assumes "run_statements env q sts db = (Inr u, db')"
    and "set sts \<subseteq> {DeleteVetoes, CreateVetoes, DeleteOptIns, CreateOptIns}"
    and "\<exists>r. find_quotation (quo_id q) db = Some r \<and> qup_status r = x \<and> qup_items r = its"
  shows "\<exists>r. find_quotation (quo_id q) db' = Some r \<and> qup_status r = x \<and> qup_items r = its"
  using assms
proof (induction sts arbitrary: db)
  case (Cons st sts)
  then obtain db1 where st: "save_statement env q st db = Inr db1" "run_statements env q sts db1 = (Inr u, db')"
    by (auto split: sum.splits)
  have "st \<in> {DeleteVetoes, CreateVetoes, DeleteOptIns, CreateOptIns}" using Cons.prems(2) by simp
  from junction_statement_keeps [OF st(1) this Cons.prems(3)] Cons.IH [OF st(2)] Cons.prems(2)
  show ?case by simp
qed simp

lemma saved_row:
  assumes "fst (save_quotation env q db) = Inr q'"
  shows "\<exists>r. find_quotation (quo_id q) (snd (save_quotation env q db)) = Some r \<and> qup_status r = quo_status q \<and>
    qup_items r = map (quote_item_row (qev_now env) (quo_id q)) (quo_items q)"
proof -
  define rest where "rest = [DeleteVetoes] @ (if quo_vetoedPromotionIds q = [] then [] else [CreateVetoes]) @
     [DeleteOptIns] @ (if quo_optedInManualPromotionIds q = [] then [] else [CreateOptIns])"
  have sts: "save_statements q = UpsertRoot # DeleteLines # (if quo_items q = [] then [] else [CreateLines]) @ rest"
    by (simp add: save_statements_def rest_def)
  obtain db' where run: "run_statements env q (save_statements q) db = (Inr (), db')"
    using assms by (cases "run_statements env q (save_statements q) db")
      (auto simp: save_quotation_def split: sum.splits)
  from run obtain db1 where up: "upsert_quotation env q db = Inr db1" by (auto simp: sts split: sum.splits)
  let ?f = "\<lambda>r. r\<lparr>qup_items := []\<rparr>"
  define db2 where "db2 = update_quotation (quo_id q) ?f db1"
  from upserted_find(2) [OF up] obtain r1 where r1: "find_quotation (quo_id q) db1 = Some r1" "qup_status r1 = quo_status q"
    by blast
  then have r2: "find_quotation (quo_id q) db2 = Some (r1\<lparr>qup_items := []\<rparr>)" by (simp add: db2_def)
  have run2: "run_statements env q ((if quo_items q = [] then [] else [CreateLines]) @ rest) db2 = (Inr (), db')"
    using run by (simp add: sts up db2_def)
  have rest: "set rest \<subseteq> {DeleteVetoes, CreateVetoes, DeleteOptIns, CreateOptIns}" by (simp add: rest_def)
  have "\<exists>r. find_quotation (quo_id q) db' = Some r \<and> qup_status r = quo_status q \<and>
      qup_items r = map (quote_item_row (qev_now env) (quo_id q)) (quo_items q)"
  proof (cases "quo_items q = []")
    case True
    with run2 have "run_statements env q rest db2 = (Inr (), db')" by simp
    from junction_run_keeps [OF this rest] r1(2) r2 True show ?thesis by simp
  next
    case False
    with run2 obtain db3 where db3: "create_lines env q db2 = Inr db3" "run_statements env q rest db3 = (Inr (), db')"
      by (auto split: sum.splits)
    have "\<exists>r. find_quotation (quo_id q) db3 = Some r \<and> qup_status r = quo_status q \<and>
        qup_items r = map (quote_item_row (qev_now env) (quo_id q)) (quo_items q)"
      using created_lines(1) [OF db3(1)] r1(2) r2 by simp
    from junction_run_keeps [OF db3(2) rest this] show ?thesis .
  qed
  then show ?thesis by (simp add: snd_save_quotation run)
qed

text \<open>
  Lines the database refuses leave the quotation with none: the old ones are deleted by
  then.  A promotion that is deleted while the edit is in memory is enough.
\<close>

lemma refused_lines_are_lost:
  assumes "upsert_quotation env q db = Inr db1" and "quo_items q \<noteq> []"
    and "create_lines env q (update_quotation (quo_id q) (\<lambda>r. r\<lparr>qup_items := []\<rparr>) db1) = Inl e"
  shows "fst (save_quotation env q db) = Inl e"
    and "\<exists>r. find_quotation (quo_id q) (snd (save_quotation env q db)) = Some r \<and> qup_items r = []"
proof -
  have "run_statements env q (save_statements q) db =
      (Inl e, update_quotation (quo_id q) (\<lambda>r. r\<lparr>qup_items := []\<rparr>) db1)"
    using assms by (simp add: save_statements_def)
  then show "fst (save_quotation env q db) = Inl e"
    and "\<exists>r. find_quotation (quo_id q) (snd (save_quotation env q db)) = Some r \<and> qup_items r = []"
    using upserted_find(2) [OF assms(1)] by (auto simp: save_quotation_def)
qed

subsection \<open>Overlapping requests\<close>

definition quotes_ok :: "quote_system \<Rightarrow> bool" where
  "quotes_ok s \<longleftrightarrow> (\<forall>r\<in>set (qsy_db s). quotation_row_ok r) \<and> (\<forall>(q, sts)\<in>set (qsy_saves s). quotation_ok q)"

lemma quote_step_ok: "quote_step s s' \<Longrightarrow> quotes_ok s \<Longrightarrow> quotes_ok s'"
proof (induction rule: quote_step.induct)
  case (begin_save env req s q mail)
  then have "\<forall>r\<in>set (qsy_db s). quotation_row_ok r" by (simp add: quotes_ok_def)
  from prepare_ok [OF begin_save(1) this begin_save(2)] begin_save(3) show ?case by (simp add: quotes_ok_def)
next
  case (statement_runs env q st sts s db')
  then have ok: "\<forall>r\<in>set (qsy_db s). quotation_row_ok r" "quotation_ok q" by (auto simp: quotes_ok_def)
  from statement_rows_ok [OF statement_runs(3) ok] ok(2) statement_runs(4) show ?case
    by (auto simp: quotes_ok_def dest: notin_set_remove1)
qed (auto simp: quotes_ok_def delete_quotation_def dest: notin_set_remove1)

lemma quotes_reachable_ok: "quotes_reachable s \<Longrightarrow> quotes_ok s"
proof (induction rule: rtranclp_induct)
  case base
  show ?case by (simp add: no_quotations_def quotes_ok_def)
next
  case (step s1 s2)
  from quote_step_ok [OF step.hyps(2) step.IH] show ?case .
qed

text \<open>The statements of a save one after the other, with nothing in between.\<close>

lemma save_steps:
  assumes "quote_env_ok env"
  shows "quote_step\<^sup>*\<^sup>* (s\<lparr>qsy_saves := (q, sts) # saves\<rparr>)
    (s\<lparr>qsy_db := snd (run_statements env q sts (qsy_db s)), qsy_saves := saves\<rparr>)"
proof (induction sts arbitrary: s)
  case Nil
  have "quote_step (s\<lparr>qsy_saves := (q, []) # saves\<rparr>) (s\<lparr>qsy_saves := saves\<rparr>)"
    using end_save [of q "s\<lparr>qsy_saves := (q, []) # saves\<rparr>"] by simp
  then show ?case by (simp add: r_into_rtranclp)
next
  case (Cons st sts)
  let ?s0 = "s\<lparr>qsy_saves := (q, st # sts) # saves\<rparr>"
  show ?case
  proof (cases "save_statement env q st (qsy_db s)")
    case (Inl e)
    have "quote_step ?s0 (s\<lparr>qsy_saves := saves\<rparr>)"
      using statement_fails [OF assms, of q st sts ?s0 e] Inl by simp
    with Inl show ?thesis by (simp add: r_into_rtranclp)
  next
    case (Inr db1)
    have "quote_step ?s0 (s\<lparr>qsy_db := db1, qsy_saves := (q, sts) # saves\<rparr>)"
      using statement_runs [OF assms, of q st sts ?s0 db1] Inr by simp
    moreover have "quote_step\<^sup>*\<^sup>* (s\<lparr>qsy_db := db1, qsy_saves := (q, sts) # saves\<rparr>)
        (s\<lparr>qsy_db := snd (run_statements env q sts db1), qsy_saves := saves\<rparr>)"
      using Cons.IH [of "s\<lparr>qsy_db := db1\<rparr>"] by simp
    ultimately show ?thesis using Inr by (simp add: converse_rtranclp_into_rtranclp)
  qed
qed

lemma save_steps_first:
  assumes "quote_env_ok env" and "s' = s\<lparr>qsy_saves := (q, save_statements q) # saves\<rparr>"
  shows "quote_step\<^sup>*\<^sup>* s' (s\<lparr>qsy_db := snd (save_quotation env q (qsy_db s)), qsy_saves := saves\<rparr>)"
  using save_steps [OF assms(1)] by (simp add: assms(2) snd_save_quotation)

subsection \<open>The breakdown\<close>

lemma buckets_of:
  assumes "\<forall>it\<in>set its. hasCompleteTaxSnapshot it"
  shows "assoc_get (foldl add_bucket m its) c =
    (if \<exists>it\<in>set its. effectiveIvaClassification it = Some c
     then Some (or_default (assoc_get m c) 0 +
       (\<Sum>it\<leftarrow>filter (\<lambda>it. effectiveIvaClassification it = Some c) its. or_default (includedIvaCents it) 0))
     else assoc_get m c)"
  using assms
proof (induction its arbitrary: m)
  case (Cons it its)
  then obtain d v where it: "effectiveIvaClassification it = Some d" "includedIvaCents it = Some v"
    by (auto simp: hasCompleteTaxSnapshot_def effectiveIvaClassification_def includedIvaCents_def)
  have m: "add_bucket m it = assoc_set m d (or_default (assoc_get m d) 0 + v)" by (simp add: add_bucket_def it)
  show ?case using Cons.IH [of "add_bucket m it"] Cons.prems by (auto simp: m it)
qed simp

lemma map_filter_alt: "List.map_filter (\<lambda>c. map_option (\<lambda>v. (c, v)) (f c)) cs =
    map (\<lambda>c. (c, or_default (f c) d)) (filter (\<lambda>c. f c \<noteq> None) cs)"
  by (induction cs) (auto simp: List.map_filter_simps split: option.splits)

text \<open>The percent of a classification.\<close>

fun class_percent :: "iva_class \<Rightarrow> int" where
  "class_percent (Classified r) = IVA_RATE_PERCENT r"
| "class_percent NotTaxable = 0"

definition tax_of_class :: "iva_class \<Rightarrow> quote_item list \<Rightarrow> cents" where
  "tax_of_class c its =
     (\<Sum>it\<leftarrow>filter (\<lambda>it. effectiveIvaClassification it = Some c) its.
        quote_subtotalCents it - taxable_base (class_percent c) (quote_subtotalCents it))"

lemma line_complete: "quote_line_ok it \<Longrightarrow> quote_line_based it \<Longrightarrow> hasCompleteTaxSnapshot it"
  by (simp add: quote_line_ok_def quote_line_based_def hasCompleteTaxSnapshot_def)

lemma line_tax:
  assumes "quote_line_ok it" and "quote_line_based it" and "effectiveIvaClassification it = Some c"
  shows "or_default (includedIvaCents it) 0 =
    quote_subtotalCents it - taxable_base (class_percent c) (quote_subtotalCents it)"
proof -
  have "line_percent it = class_percent c" using assms(3) by (cases c) (simp_all add: line_percent_def)
  with assms line_complete [OF assms(1,2)] show ?thesis
    by (simp add: includedIvaCents_def quote_line_based_def quote_subtotalCents_def)
qed

lemma sound_breakdown:
  assumes "quotation_ok q"
  shows "computeIvaBreakdown q =
    map (\<lambda>c. (c, tax_of_class c (quo_items q)))
      (filter (\<lambda>c. \<exists>it\<in>set (quo_items q). effectiveIvaClassification it = Some c) IVA_CLASSIFICATION_BUCKET_ORDER)"
proof (cases "quo_items q = []")
  case True
  then show ?thesis by (simp add: computeIvaBreakdown_def IVA_CLASSIFICATION_BUCKET_ORDER_def)
next
  case False
  have ok: "\<forall>it\<in>set (quo_items q). quote_line_ok it \<and> quote_line_based it" using assms by (simp add: quotation_ok_def)
  then have complete: "\<forall>it\<in>set (quo_items q). hasCompleteTaxSnapshot it" using line_complete by blast
  let ?b = "\<lambda>c. assoc_get (foldl add_bucket [] (quo_items q)) c"
  have some: "?b c \<noteq> None \<longleftrightarrow> (\<exists>it\<in>set (quo_items q). effectiveIvaClassification it = Some c)" for c
    using buckets_of [OF complete, of "[]" c] by simp
  have "or_default (?b c) 0 = tax_of_class c (quo_items q)"
    if "\<exists>it\<in>set (quo_items q). effectiveIvaClassification it = Some c" for c
  proof -
    have "or_default (?b c) 0 = (\<Sum>it\<leftarrow>filter (\<lambda>it. effectiveIvaClassification it = Some c) (quo_items q).
        or_default (includedIvaCents it) 0)"
      using buckets_of [OF complete, of "[]" c] that by simp
    also have "\<dots> = tax_of_class c (quo_items q)" unfolding tax_of_class_def
      by (rule arg_cong [where f = sum_list], rule map_cong) (use ok line_tax in auto)
    finally show ?thesis .
  qed
  with False complete show ?thesis
    unfolding computeIvaBreakdown_def Let_def map_filter_alt [where d = 0] some
    by (auto intro!: map_cong)
qed

end
