(* ===== verification/QuotationProps.thy ===== *)
theory QuotationProps
  imports QuotationTax SalesPricingProps
begin

section \<open>What quotations promise\<close>

text \<open>
  The properties of \<open>src/src/quotations\<close>, with a sample shop: one product with ten
  percent off, a customer with an address, a draft that is opened, filled and sent.
\<close>

subsection \<open>Requests served alone\<close>

text \<open>A request served alone is its load and the statements of its save in a row.\<close>

definition alone :: "quote_env \<Rightarrow> quote_request \<Rightarrow> quote_system \<Rightarrow> quote_system" where
  "alone env req s =
     (case prepare_quotation env req (qsy_db s) of
        Inl e \<Rightarrow> s
      | Inr (q, mail) \<Rightarrow> s\<lparr>qsy_mails := qsy_mails s @ mail_of (quo_id q) mail,
          qsy_db := snd (run_quotation env req (qsy_db s))\<rparr>)"

lemma alone_reachable:
  assumes "quotes_reachable s" and "quote_env_ok env"
  shows "quotes_reachable (alone env req s)"
proof (cases "prepare_quotation env req (qsy_db s)")
  case (Inl e)
  with assms(1) show ?thesis by (simp add: alone_def)
next
  case (Inr x)
  then obtain q mail where p: "prepare_quotation env req (qsy_db s) = Inr (q, mail)" by (cases x) simp
  let ?s1 = "s\<lparr>qsy_saves := (q, save_statements q) # qsy_saves s, qsy_mails := qsy_mails s @ mail_of (quo_id q) mail\<rparr>"
  let ?s2 = "s\<lparr>qsy_mails := qsy_mails s @ mail_of (quo_id q) mail\<rparr>"
  have "quote_step s ?s1" using assms(2) p by (rule begin_save)
  moreover have "quote_step\<^sup>*\<^sup>* ?s1
      (?s2\<lparr>qsy_db := snd (save_quotation env q (qsy_db ?s2)), qsy_saves := qsy_saves s\<rparr>)"
    by (rule save_steps_first [OF assms(2)]) simp
  moreover have "snd (run_quotation env req (qsy_db s)) = snd (save_quotation env q (qsy_db s))"
    by (cases "save_quotation env q (qsy_db s)") (simp add: run_quotation_def p)
  ultimately show ?thesis using assms(1) by (simp add: alone_def p)
qed

subsection \<open>A quotation that is not a draft\<close>

lemma draft_refused:
  assumes "load_quotation env i db = Some q" and "quo_status q \<noteq> QuoteDraft"
  shows "loaded_quote_draft env i db = Inl (quotation_not_draft (quo_status q))"
  using assms by (simp add: loaded_quote_draft_def loaded_quotation_def)

lemma not_draft_refused:
  assumes "load_quotation env i db = Some q" and "quo_status q \<noteq> QuoteDraft" and "subject_of env req = i"
    and "\<And>reason. req \<noteq> CancelQuotation i reason" and "qev_uuid env \<noteq> i"
  shows "\<exists>e. prepare_quotation env req db = Inl e"
  using assms(3-5) draft_refused [OF assms(1,2)] assms(1,2)
  by (cases req) (auto simp: Quotes_addItem_def Quotes_updateItemQuantity_def Quotes_removeItem_def
      Quotes_overrideItemPrice_def Quotes_applyManualPromotion_def Quotes_removeManualPromotion_def
      Quotes_vetoPromotion_def Quotes_optInPromotion_def Quotes_setExpiry_def Quotes_setNotes_def
      Quotes_setTaxRate_def Quotes_assignCustomer_def Quotes_setPriceList_def Quotes_send_def
      Quotes_assignSeller_def loaded_quotation_def Quotation_assignSeller_def ensureQuoteDraft_def throw_if_def)

lemma run_other:
  assumes "quotes_reachable s" and "quote_env_ok env" and "subject_of env req \<noteq> i"
  shows "find_quotation i (snd (run_quotation env req (qsy_db s))) = find_quotation i (qsy_db s)"
proof (cases "prepare_quotation env req (qsy_db s)")
  case (Inl e)
  then show ?thesis by (simp add: run_quotation_def)
next
  case (Inr x)
  then obtain q mail where p: "prepare_quotation env req (qsy_db s) = Inr (q, mail)" by (cases x) simp
  have "\<forall>r\<in>set (qsy_db s). quotation_row_ok r" using quotes_reachable_ok [OF assms(1)] by (simp add: quotes_ok_def)
  from prepare_ok [OF assms(2) this p] assms(3) have "i \<noteq> quo_id q" by auto
  from saved_other [OF this, of env "qsy_db s"] show ?thesis
    by (cases "save_quotation env q (qsy_db s)") (simp add: run_quotation_def p)
qed

lemma removed_other:
  assumes "i \<noteq> j"
  shows "find_quotation i (snd (run_remove env j db)) = find_quotation i db"
proof -
  have "find_quotation i (delete_quotation j db) = find_quotation i db"
    using assms by (induction db) (auto simp: find_quotation_def delete_quotation_def is_quotation_def)
  then show ?thesis by (simp add: run_remove_def split: sum.split)
qed

lemma remove_refused:
  assumes "find_quotation i db = Some r" and "qup_status r = QuoteSent \<or> qup_status r = QuoteExpired"
  shows "snd (run_remove env i db) = db"
  using assms by (auto simp: run_remove_def Quotes_remove_def loaded_quotation_def load_quotation_def
      Quotation_fromPersistence_def throw_if_def)

lemma run_frozen:
  assumes "quotes_reachable s" and "quote_env_ok env" and "find_quotation i (qsy_db s) = Some r"
    and "qup_status r \<noteq> QuoteDraft" and "\<And>reason. req \<noteq> CancelQuotation i reason" and "qev_uuid env \<noteq> i"
  shows "find_quotation i (snd (run_quotation env req (qsy_db s))) = Some r"
proof (cases "subject_of env req = i")
  case False
  with run_other [OF assms(1,2)] assms(3) show ?thesis by simp
next
  case True
  from assms(3) obtain q where q: "load_quotation env i (qsy_db s) = Some q" "quo_status q = qup_status r"
    by (simp add: load_quotation_def Quotation_fromPersistence_def)
  have "quo_status q \<noteq> QuoteDraft" using q(2) assms(4) by simp
  from not_draft_refused [OF q(1) this True assms(5,6)]
  obtain e where "prepare_quotation env req (qsy_db s) = Inl e" by blast
  with assms(3) show ?thesis by (simp add: run_quotation_def)
qed

lemma served_saving: "snd (serve_quotation env (SavingCall req) db) = snd (run_quotation env req db)"
  and served_removal: "snd (serve_quotation env (RemoveQuotation i) db) = snd (run_remove env i db)"
  by (simp_all split: prod.split)

subsection \<open>An edit that a send overtakes\<close>

text \<open>The edit has loaded, the send is served, and the edit's save has all its statements to run.\<close>

definition overtaken :: "quote_env \<Rightarrow> quotation \<Rightarrow> ident \<Rightarrow> quote_system \<Rightarrow> quote_system" where
  "overtaken env edit i s =
     alone env (SendQuotation i True) (s\<lparr>qsy_saves := (edit, save_statements edit) # qsy_saves s\<rparr>)"

lemma overtaken_reachable:
  assumes "quotes_reachable s" and "quote_env_ok env" and "quote_env_ok env'"
    and "prepare_quotation env req (qsy_db s) = Inr (edit, None)"
  shows "quotes_reachable (overtaken env' edit i s)"
proof -
  have "quote_step s (s\<lparr>qsy_saves := (edit, save_statements edit) # qsy_saves s,
      qsy_mails := qsy_mails s @ mail_of (quo_id edit) None\<rparr>)"
    using assms(2,4) by (rule begin_save)
  then have "quote_step s (s\<lparr>qsy_saves := (edit, save_statements edit) # qsy_saves s\<rparr>)"
    by (simp add: mail_of_def)
  with assms(1) have "quotes_reachable (s\<lparr>qsy_saves := (edit, save_statements edit) # qsy_saves s\<rparr>)"
    by (rule rtranclp.rtrancl_into_rtrancl)
  from alone_reachable [OF this assms(3)] show ?thesis by (simp add: overtaken_def)
qed

lemma overtaken_state:
  assumes "prepare_quotation env (SendQuotation i True) (qsy_db s) = Inr (sent, mail)"
  shows "overtaken env edit i s = s\<lparr>qsy_mails := qsy_mails s @ mail_of (quo_id sent) mail,
      qsy_saves := (edit, save_statements edit) # qsy_saves s,
      qsy_db := snd (save_quotation env sent (qsy_db s))\<rparr>"
proof -
  have "snd (run_quotation env (SendQuotation i True) (qsy_db s)) = snd (save_quotation env sent (qsy_db s))"
    by (cases "save_quotation env sent (qsy_db s)") (simp add: run_quotation_def assms del: prepare_quotation.simps)
  then show ?thesis by (simp add: overtaken_def alone_def assms del: prepare_quotation.simps)
qed

lemma sent_aggregate:
  assumes "quotes_reachable s" and "quote_env_ok env"
    and "prepare_quotation env (SendQuotation i True) (qsy_db s) = Inr (sent, mail)"
  shows "quo_id sent = i" and "quo_status sent = QuoteSent"
proof -
  have "\<forall>r\<in>set (qsy_db s). quotation_row_ok r" using quotes_reachable_ok [OF assms(1)] by (simp add: quotes_ok_def)
  from prepare_ok [OF assms(2) this assms(3)] show "quo_id sent = i" by simp
  show "quo_status sent = QuoteSent"
    using assms(3) by (auto simp: Quotes_send_def Quotation_send_def Let_def result_simps split: if_splits)
qed

subsection \<open>Lines and results\<close>

text \<open>The lines as the promotions are evaluated on them.\<close>

definition lines_evaluated :: "pricing_env \<Rightarrow> tax_cache \<Rightarrow> quotation \<Rightarrow> quote_item list result" where
  "lines_evaluated env cache q =
     andThen (quote_repriceLines (pce_catalog env) q (map quote_clear_promotion (quo_items q))) (\<lambda>marked.
     mapR snd (loopR (resnapshot_line (pce_catalog env)) (cache, []) marked))"

lemma reprice_id: "quote_reprice_item g m it = Inr (it', b) \<Longrightarrow> qit_id it' = qit_id it"
  by (auto simp: quote_reprice_item_def quote_reprice_def result_simps split: if_splits option.splits)

lemma repriced_ids:
  assumes "quote_repriceLines c q its = Inr marked"
  shows "map (qit_id \<circ> fst) marked = map qit_id its"
proof (cases "List.map_filter (quote_reprice_input (quote_global_list c q)) its = []")
  case True
  with assms show ?thesis by (auto simp: quote_repriceLines_def Let_def)
next
  case False
  with assms obtain m where "list_all2 (\<lambda>x y. quote_reprice_item (quote_global_list c q) m x = Inr y) its marked"
    by (auto simp: quote_repriceLines_def Let_def mapM_list_Inr)
  then show ?thesis by (induction rule: list_all2_induct) (auto dest: reprice_id)
qed

lemma resnapshot_ids:
  assumes "loopR (resnapshot_line c) (cache, []) marked = Inr (cache', its)"
  shows "map qit_id its = map (qit_id \<circ> fst) marked"
proof -
  have "map qit_id (snd (cache', its)) = map (qit_id \<circ> fst) marked"
    by (rule loopR_rule [OF assms, where P = "\<lambda>pre st. map qit_id (snd st) = map (qit_id \<circ> fst) pre"])
      (auto simp: result_simps snapshotTaxClassification_def split: if_splits option.splits prod.splits)
  then show ?thesis by simp
qed

lemma lines_evaluated_ok:
  assumes "lines_evaluated env cache q = Inr its" and "\<forall>it\<in>set (quo_items q). quote_line_ok it"
  shows "\<forall>it\<in>set its. quote_line_ok it" and "map qit_id its = map qit_id (quo_items q)"
proof -
  from assms(1) obtain marked cache' where
    m: "quote_repriceLines (pce_catalog env) q (map quote_clear_promotion (quo_items q)) = Inr marked"
    and s: "loopR (resnapshot_line (pce_catalog env)) (cache, []) marked = Inr (cache', its)"
    by (auto simp: lines_evaluated_def result_simps)
  show "\<forall>it\<in>set its. quote_line_ok it"
    by (rule resnapshot_ok [OF s repriceLines_ok [OF m]]) (use assms(2) in auto)
  have "qit_id (quote_clear_promotion it) = qit_id it" for it by (simp add: quote_line_simps)
  then show "map qit_id its = map qit_id (quo_items q)"
    using resnapshot_ids [OF s] repriced_ids [OF m] by simp
qed

lemma quote_results_distinct:
  assumes "\<forall>it\<in>set its. quote_line_ok it" and "distinct (map qit_id its)"
    and "\<forall>p\<in>set (pce_promotions env). promotion_shape p"
  shows "distinct (map lr_itemId (per_lines (quote_evaluate env (q\<lparr>quo_items := its\<rparr>))))"
proof -
  have "cart_ok (pei_lines (quote_eval_input env (q\<lparr>quo_items := its\<rparr>)))"
    using assms(1,2) by (auto simp: cart_ok_def quote_eval_input_def Let_def quote_eval_line_def quote_line_ok_def comp_def)
  from evaluate_results_ok [OF this assms(3)] show ?thesis by (simp add: quote_evaluate_def results_ok_def)
qed

lemma result_error: "applyLineResultToItem r it = Inl e \<Longrightarrow> e = invalid_argument ''DISCOUNT_AMOUNT_INVALID''"
  by (cases r; cases "lr_discountType r") (auto simp: quote_applyDiscount_def Let_def split: if_splits)

lemma result_id: "applyLineResultToItem r it = Inr it' \<Longrightarrow> qit_id it' = qit_id it"
  by (cases r) (auto dest: applyDiscount_Inr simp: quote_applyDiscount_def Let_def split: if_splits)

lemma quote_find_by_id:
  "distinct (map qit_id its) \<Longrightarrow> it \<in> set its \<Longrightarrow> find (has_quote_id (qit_id it)) its = Some it"
  by (induction its) (auto simp: has_quote_id_def)

lemma too_much_fails:
  assumes "PerUnitResult (qit_id it) p AmountDiscount v t \<in> set rs" and "it \<in> set its" and "qit_unitPriceCents it \<le> v"
    and "distinct (map qit_id its)" and "distinct (map lr_itemId rs)"
  shows "loopR quote_apply_line its rs = Inl (invalid_argument ''DISCOUNT_AMOUNT_INVALID'')"
  using assms
proof (induction rs arbitrary: its)
  case (Cons r rs)
  note fit = quote_find_by_id [OF Cons.prems(4,2)]
  show ?case
  proof (cases "r = PerUnitResult (qit_id it) p AmountDiscount v t")
    case True
    with fit Cons.prems(3) show ?thesis
      by (simp add: quote_apply_line_def quote_applyDiscount_def quote_discountCents_def Let_def)
  next
    case False
    with Cons.prems(1) have in_rs: "PerUnitResult (qit_id it) p AmountDiscount v t \<in> set rs" by simp
    with Cons.prems(5) have other: "lr_itemId r \<noteq> qit_id it" by force
    show ?thesis
    proof (cases "quote_apply_line its r")
      case (Inl e)
      then have "e = invalid_argument ''DISCOUNT_AMOUNT_INVALID''"
        by (auto simp: quote_apply_line_def result_simps dest: result_error split: option.splits)
      with Inl show ?thesis by simp
    next
      case (Inr its')
      have "it \<in> set its' \<and> map qit_id its' = map qit_id its"
      proof (cases "find (has_quote_id (lr_itemId r)) its")
        case None
        with Inr Cons.prems(2) show ?thesis by (simp add: quote_apply_line_def)
      next
        case (Some x)
        with Inr obtain x' where x': "applyLineResultToItem r x = Inr x'"
          "its' = update_first (has_quote_id (lr_itemId r)) (\<lambda>_. x') its"
          by (auto simp: quote_apply_line_def result_simps)
        from find_SomeD [OF Some] result_id [OF x'(1)] have "qit_id x' = lr_itemId r" by (simp add: has_quote_id_def)
        then have "map qit_id its' = map qit_id its" unfolding x'(2)
          by (intro map_update_first) (simp add: has_quote_id_def)
        moreover have "it \<in> set its'" unfolding x'(2) using Cons.prems(2) other
          by (induction its) (auto simp: has_quote_id_def)
        ultimately show ?thesis by simp
      qed
      with Cons.IH [OF in_rs _ Cons.prems(3)] Cons.prems(4,5) Inr show ?thesis by simp
    qed
  qed
qed simp

subsection \<open>A sample shop\<close>

definition quote_shop :: quote_env where
  "quote_shop =
     \<lparr>qev_pricing = sample_pricing\<lparr>pce_promotions :=
        [pd_promotion\<lparr>pm_targetItems := [product_target\<lparr>ptg_targetId := ''p''\<rparr>]\<rparr>]\<rparr>,
      qev_uuid = ''l1'',
      qev_customer = (\<lambda>c. if c = ''c1'' then Some \<lparr>qcu_globalPriceListId = None, qcu_firstName = ''Ana'',
        qcu_lastName = None, qcu_email = Some ''ana@mail''\<rparr> else None),
      qev_user = (\<lambda>_. Some ''Eva''), qev_promotion = (\<lambda>_. Some Manual),
      qev_itemOrder = (\<lambda>xs. xs), qev_idOrder = (\<lambda>xs. xs),
      qev_contains = (\<lambda>x y. x = y),
      qev_renderError = None, qev_mailError = None\<rparr>"

definition quote_opened :: quote_system where
  "quote_opened = alone (quote_shop\<lparr>qev_uuid := ''q1''\<rparr>) (OpenQuotation ''u1'' (Some ''c1'') None) no_quotations"

definition quote_filled :: quote_system where
  "quote_filled = alone quote_shop (AddQuoteItem ''q1'' ''p'' None (JsInt 12)) quote_opened"

lemma quote_shop_ok: "quote_env_ok quote_shop" "quote_env_ok (quote_shop\<lparr>qev_uuid := u\<rparr>)"
proof -
  have "\<forall>p\<in>set (ctg_products sample_catalog). rate_of (cpd_ivaRate p) \<noteq> None" by code_simp
  then show "quote_env_ok quote_shop" "quote_env_ok (quote_shop\<lparr>qev_uuid := u\<rparr>)"
    by (simp_all add: quote_env_ok_def quote_shop_def sample_pricing_def)
qed

lemma quote_filled_reachable: "quotes_reachable quote_filled"
  unfolding quote_filled_def quote_opened_def by (intro alone_reachable quote_shop_ok) simp

lemma quote_filled_lines:
  "map (\<lambda>r. (qup_id r, qup_status r, map qip_unitPriceCents (qup_items r))) (qsy_db quote_filled) =
     [(''q1'', QuoteDraft, [JsInt 720])]"
  by code_simp

subsection \<open>Properties\<close>

text \<open>
  Property C16: the tax of a quotation.  In every state that overlapping requests can
  reach, a quotation read back shows, for each classification one of its lines has and in
  the fixed order, the sum over those lines of the line's amount less its taxable base
  at the classification's rate: no line is left out, none is counted twice, none carries
  a base of an earlier price, quantity or discount.
\<close>

theorem quotation_tax_by_class:
  assumes "quotes_reachable s" and "quote_env_ok env" and "load_quotation env i (qsy_db s) = Some q"
  shows "computeIvaBreakdown q =
    map (\<lambda>c. (c, tax_of_class c (quo_items q)))
      (filter (\<lambda>c. \<exists>it\<in>set (quo_items q). effectiveIvaClassification it = Some c)
        IVA_CLASSIFICATION_BUCKET_ORDER)"
proof -
  have "\<forall>r\<in>set (qsy_db s). quotation_row_ok r" using quotes_reachable_ok [OF assms(1)] by (simp add: quotes_ok_def)
  from loaded_ok(1) [OF assms(2) this assms(3)] show ?thesis by (rule sound_breakdown)
qed

theorem quotation_tax_by_class_witness:
  "\<exists>q. load_quotation quote_shop ''q1'' (qsy_db quote_filled) = Some q \<and>
     computeIvaBreakdown q = [(Classified RateIva16, 1192)] \<and>
     computeIvaBreakdown q = map (\<lambda>c. (c, tax_of_class c (quo_items q)))
       (filter (\<lambda>c. \<exists>it\<in>set (quo_items q). effectiveIvaClassification it = Some c)
         IVA_CLASSIFICATION_BUCKET_ORDER)"
proof -
  have "map_option computeIvaBreakdown (load_quotation quote_shop ''q1'' (qsy_db quote_filled)) =
      Some [(Classified RateIva16, 1192)]" by code_simp
  then obtain q where q: "load_quotation quote_shop ''q1'' (qsy_db quote_filled) = Some q"
    "computeIvaBreakdown q = [(Classified RateIva16, 1192)]" by auto
  from quotation_tax_by_class [OF quote_filled_reachable quote_shop_ok(1) q(1)] q show ?thesis by (intro exI conjI)
qed

text \<open>
  Property C39: the taxable base is the amount without tax to the nearest cent: it is
  off by at most half a cent, for every rate and amount.
\<close>

theorem taxable_base_nearest:
  assumes "0 \<le> percent"
  shows "2 * \<bar>taxable_base percent inclusive * (100 + percent) - inclusive * 100\<bar> \<le> 100 + percent"
proof -
  define d where "d = 100 + percent"
  define m where "m = (inclusive * 100 + d div 2) mod d"
  have "0 < d" using assms by (simp add: d_def)
  then have m: "0 \<le> m" "m < d" by (simp_all add: m_def)
  have "taxable_base percent inclusive * d = inclusive * 100 + d div 2 - m"
    by (simp add: taxable_base_def Let_def minus_mod_eq_div_mult d_def m_def)
  then have "taxable_base percent inclusive * d - inclusive * 100 = d div 2 - m" by simp
  moreover have "2 * \<bar>d div 2 - m\<bar> \<le> d" using m by (simp add: abs_if) arith
  ultimately show ?thesis by (simp add: d_def)
qed

theorem taxable_base_nearest_witness:
  "2 * \<bar>taxable_base 16 8640 * (100 + 16) - 8640 * 100\<bar> \<le> 100 + 16 \<and> taxable_base 16 8640 = 7448"
  using taxable_base_nearest [of 16 8640] by (simp add: taxable_base_def)

definition quote_mailed :: quote_system where
  "quote_mailed = alone quote_shop (SendQuotation ''q1'' True) quote_filled"

lemma quote_mailed_row:
  "map (\<lambda>r. (qup_id r, qup_status r)) (qsy_db quote_mailed) = [(''q1'', QuoteSent)]"
  "qsy_mails quote_mailed = [(''q1'', ''ana@mail'')]"
  by code_simp+

definition stale_edit :: quotation where
  "stale_edit = (case prepare_quotation quote_shop (OverrideQuotePrice ''q1'' ''l1'' 500) (qsy_db quote_filled) of
     Inr (q, mail) \<Rightarrow> q
   | Inl e \<Rightarrow> Quotation_fromPersistence (hd (qsy_db quote_filled)))"

definition sent_sample :: quotation where
  "sent_sample = (case prepare_quotation quote_shop (SendQuotation ''q1'' True) (qsy_db quote_filled) of
     Inr (q, mail) \<Rightarrow> q
   | Inl e \<Rightarrow> Quotation_fromPersistence (hd (qsy_db quote_filled)))"

lemma prepared_fst:
  assumes "mapR snd r = Inr m"
  shows "r = Inr (case r of Inr (q, m) \<Rightarrow> q | Inl e \<Rightarrow> d, m)"
  using assms by (cases r) auto

lemma stale_edit_prepared:
  "prepare_quotation quote_shop (OverrideQuotePrice ''q1'' ''l1'' 500) (qsy_db quote_filled) = Inr (stale_edit, None)"
  "prepare_quotation quote_shop (SendQuotation ''q1'' True) (qsy_db quote_filled) = Inr (sent_sample, Some ''ana@mail'')"
proof -
  have "mapR snd (prepare_quotation quote_shop (OverrideQuotePrice ''q1'' ''l1'' 500) (qsy_db quote_filled)) = Inr None"
    by code_simp
  from prepared_fst [OF this] show
    "prepare_quotation quote_shop (OverrideQuotePrice ''q1'' ''l1'' 500) (qsy_db quote_filled) = Inr (stale_edit, None)"
    unfolding stale_edit_def .
  have "mapR snd (prepare_quotation quote_shop (SendQuotation ''q1'' True) (qsy_db quote_filled)) = Inr (Some ''ana@mail'')"
    by code_simp
  from prepared_fst [OF this] show
    "prepare_quotation quote_shop (SendQuotation ''q1'' True) (qsy_db quote_filled) = Inr (sent_sample, Some ''ana@mail'')"
    unfolding sent_sample_def .
qed

lemma stale_edit_fields: "quo_id stale_edit = ''q1''" "quo_status stale_edit = QuoteDraft"
  "map qit_unitPriceCents (quo_items stale_edit) = [450]" "map qit_unitPriceCents (quo_items sent_sample) = [720]"
  by code_simp+

lemma stale_edit_accepted:
  "case save_quotation quote_shop sent_sample (qsy_db quote_filled) of (Inl e, db) \<Rightarrow> False
   | (Inr q, db) \<Rightarrow> (case fst (save_quotation quote_shop stale_edit db) of Inl e \<Rightarrow> False | Inr q' \<Rightarrow> True)"
  by code_simp

text \<open>
  Property C28: a quotation that left the draft stays as it is.  In every reachable state
  any request that writes, served alone, leaves a sent or cancelled quotation's row
  untouched, whether the request is about it or about another one, but for two: the
  request that cancels it, and the deletion of a quotation that is cancelled.
\<close>

theorem sent_quotation_frozen:
  assumes "quotes_reachable s" and "quote_env_ok env" and "find_quotation i (qsy_db s) = Some r"
    and "qup_status r \<noteq> QuoteDraft" and "\<forall>reason. call \<noteq> SavingCall (CancelQuotation i reason)"
    and "call \<noteq> RemoveQuotation i \<or> qup_status r \<noteq> QuoteCancelled" and "qev_uuid env \<noteq> i"
  shows "find_quotation i (snd (serve_quotation env call (qsy_db s))) = Some r"
proof (cases call)
  case (SavingCall req)
  with assms(5) have "req \<noteq> CancelQuotation i reason" for reason by simp
  from run_frozen [OF assms(1-4) this assms(7)] SavingCall show ?thesis by (simp only: served_saving)
next
  case (RemoveQuotation j)
  have "find_quotation i (snd (run_remove env j (qsy_db s))) = Some r"
  proof (cases "i = j")
    case True
    with assms(4,6) RemoveQuotation have "qup_status r = QuoteSent \<or> qup_status r = QuoteExpired"
      by (cases "qup_status r") auto
    from remove_refused [OF assms(3) this] True assms(3) show ?thesis by simp
  next
    case False
    with removed_other assms(3) show ?thesis by simp
  qed
  with RemoveQuotation show ?thesis by (simp only: served_removal)
qed

theorem sent_quotation_frozen_witness:
  "\<exists>r. find_quotation ''q1'' (qsy_db quote_mailed) = Some r \<and> qup_status r = QuoteSent \<and>
     find_quotation ''q1'' (snd (serve_quotation quote_shop (SavingCall (OverrideQuotePrice ''q1'' ''l1'' 1))
       (qsy_db quote_mailed))) = Some r \<and>
     find_quotation ''q1'' (snd (serve_quotation quote_shop (RemoveQuotation ''q1'') (qsy_db quote_mailed))) = Some r"
proof -
  from quote_mailed_row(1) obtain r where r: "find_quotation ''q1'' (qsy_db quote_mailed) = Some r" "qup_status r = QuoteSent"
    by (auto simp: find_quotation_def is_quotation_def)
  have reach: "quotes_reachable quote_mailed"
    unfolding quote_mailed_def by (intro alone_reachable quote_filled_reachable quote_shop_ok)
  have uuid: "qev_uuid quote_shop \<noteq> ''q1''" by (simp add: quote_shop_def)
  have status: "qup_status r \<noteq> QuoteDraft" "qup_status r \<noteq> QuoteCancelled" using r(2) by simp_all
  note frozen = sent_quotation_frozen [OF reach quote_shop_ok(1) r(1) status(1) _ _ uuid]
  show ?thesis
    by (intro exI [of _ r] conjI r frozen) (use status(2) in simp_all)
qed

text \<open>
  Property C27: an edit that a send overtakes undoes it.  Take any reachable state, any
  request there that is about to save the quotation as a draft and sends no mail, and a
  send of the same quotation with a mail.  If both saves go through, one after the
  other, there is a state in which the mail is out and the row is SENT, and from it the
  edit's remaining statements lead to one where the row is DRAFT again, with the lines of
  the edit in place of those the customer was sent.
\<close>

theorem stale_edit_reopens_sent:
  assumes "quotes_reachable s" and "quote_env_ok env" and "quote_env_ok env1" and "quote_env_ok env2"
    and "prepare_quotation env req (qsy_db s) = Inr (edit, None)"
    and "quo_id edit = i" and "quo_status edit = QuoteDraft"
    and "prepare_quotation env1 (SendQuotation i True) (qsy_db s) = Inr (sent, Some address)"
    and "fst (save_quotation env1 sent (qsy_db s)) = Inr sent'"
    and "fst (save_quotation env2 edit (snd (save_quotation env1 sent (qsy_db s)))) = Inr edit'"
  shows "\<exists>s1 s2 r1 r2. quotes_reachable s1 \<and> quote_step\<^sup>*\<^sup>* s1 s2 \<and>
     qsy_mails s1 = qsy_mails s @ [(i, address)] \<and> qsy_mails s2 = qsy_mails s1 \<and>
     find_quotation i (qsy_db s1) = Some r1 \<and> qup_status r1 = QuoteSent \<and>
     qup_items r1 = map (quote_item_row (qev_now env1) i) (quo_items sent) \<and>
     find_quotation i (qsy_db s2) = Some r2 \<and> qup_status r2 = QuoteDraft \<and>
     qup_items r2 = map (quote_item_row (qev_now env2) i) (quo_items edit)"
proof -
  note sent = sent_aggregate [OF assms(1,3,8)]
  let ?s1 = "overtaken env1 edit i s"
  note s1 = overtaken_state [OF assms(8), of edit]
  let ?s2 = "?s1\<lparr>qsy_db := snd (save_quotation env2 edit (qsy_db ?s1)), qsy_saves := qsy_saves s\<rparr>"
  have db1: "qsy_db ?s1 = snd (save_quotation env1 sent (qsy_db s))" and saves1: "qsy_saves ?s1 = (edit, save_statements edit) # qsy_saves s"
    and mails1: "qsy_mails ?s1 = qsy_mails s @ [(i, address)]" by (simp_all add: s1 mail_of_def sent(1))
  have "quote_step\<^sup>*\<^sup>* ?s1 ?s2" by (rule save_steps_first [OF assms(4)]) (simp add: saves1 [symmetric])
  moreover obtain r1 where "find_quotation i (qsy_db ?s1) = Some r1" "qup_status r1 = QuoteSent"
      "qup_items r1 = map (quote_item_row (qev_now env1) i) (quo_items sent)"
    using saved_row [OF assms(9)] sent db1 by auto
  moreover obtain r2 where "find_quotation i (qsy_db ?s2) = Some r2" "qup_status r2 = QuoteDraft"
      "qup_items r2 = map (quote_item_row (qev_now env2) i) (quo_items edit)"
    using saved_row [OF assms(10)] assms(6,7) db1 by auto
  moreover have "qsy_mails ?s2 = qsy_mails ?s1" by simp
  ultimately show ?thesis using overtaken_reachable [OF assms(1,2,3,5), of i] mails1
    by (intro exI [of _ ?s1] exI [of _ ?s2] exI [of _ r1] exI [of _ r2] conjI)
qed

theorem stale_edit_reopens_sent_witness:
  "\<exists>s1 s2 r1 r2. quotes_reachable s1 \<and> quote_step\<^sup>*\<^sup>* s1 s2 \<and>
     qsy_mails s1 = [(''q1'', ''ana@mail'')] \<and> qsy_mails s2 = qsy_mails s1 \<and>
     find_quotation ''q1'' (qsy_db s1) = Some r1 \<and> qup_status r1 = QuoteSent \<and>
     map qip_unitPriceCents (qup_items r1) = [JsInt 720] \<and>
     find_quotation ''q1'' (qsy_db s2) = Some r2 \<and> qup_status r2 = QuoteDraft \<and>
     map qip_unitPriceCents (qup_items r2) = [JsInt 450]"
proof -
  let ?saved = "save_quotation quote_shop sent_sample (qsy_db quote_filled)"
  obtain sent' edit' where accepted: "fst ?saved = Inr sent'"
      "fst (save_quotation quote_shop stale_edit (snd ?saved)) = Inr edit'"
    using stale_edit_accepted by (cases ?saved) (auto split: sum.splits)
  have prices: "map qip_unitPriceCents (map (quote_item_row now i) its) = map (JsInt \<circ> qit_unitPriceCents) its" for now i its
    by (simp add: quote_item_row_def)
  have shown: "map (JsInt \<circ> qit_unitPriceCents) (quo_items sent_sample) = [JsInt 720]"
      "map (JsInt \<circ> qit_unitPriceCents) (quo_items stale_edit) = [JsInt 450]"
    using stale_edit_fields(3,4) by auto
  have "qsy_mails quote_filled = []" by code_simp
  with stale_edit_reopens_sent [OF quote_filled_reachable quote_shop_ok(1) quote_shop_ok(1) quote_shop_ok(1)
      stale_edit_prepared(1) stale_edit_fields(1,2) stale_edit_prepared(2) accepted]
  obtain s1 s2 r1 r2 where run: "quotes_reachable s1" "quote_step\<^sup>*\<^sup>* s1 s2"
      "qsy_mails s1 = [(''q1'', ''ana@mail'')]" "qsy_mails s2 = qsy_mails s1"
      "find_quotation ''q1'' (qsy_db s1) = Some r1" "qup_status r1 = QuoteSent"
      "qup_items r1 = map (quote_item_row (qev_now quote_shop) ''q1'') (quo_items sent_sample)"
      "find_quotation ''q1'' (qsy_db s2) = Some r2" "qup_status r2 = QuoteDraft"
      "qup_items r2 = map (quote_item_row (qev_now quote_shop) ''q1'') (quo_items stale_edit)"
    by auto
  have "map qip_unitPriceCents (qup_items r1) = [JsInt 720]" "map qip_unitPriceCents (qup_items r2) = [JsInt 450]"
    unfolding run(7,10) prices by (rule shown)+
  with run show ?thesis by (intro exI [of _ s1] exI [of _ s2] exI [of _ r1] exI [of _ r2] conjI)
qed

text \<open>
  Property C38: no quotation is ever found by its total.  In every reachable state the list
  filtered by a minimum total above zero is empty, whatever the quotations are worth: the
  total columns it compares are written as 0 by every save.
\<close>

theorem list_by_total_is_empty:
  assumes "quotes_reachable s" and "qqy_minTotalCents query = Some m" and "0 < m"
  shows "qls_total (Quotes_findAll env query (qsy_db s)) = 0"
proof -
  have "\<not> quotation_matches env query r" if "r \<in> set (qsy_db s)" for r
  proof -
    have "qup_totalCents r = 0"
      using quotes_reachable_ok [OF assms(1)] that by (simp add: quotes_ok_def quotation_row_ok_def)
    with assms(2,3) have "\<not> in_range (qqy_minTotalCents query) (qqy_maxTotalCents query) (Some (qup_totalCents r))"
      by (simp add: in_range_def)
    then show ?thesis unfolding quotation_matches_def by blast
  qed
  then have "filter (quotation_matches env query) (qsy_db s) = []" by simp
  then show ?thesis by (simp add: Quotes_findAll_def Let_def)
qed

theorem list_by_total_is_empty_witness:
  "qls_total (Quotes_findAll quote_shop (any_quotation\<lparr>qqy_minTotalCents := Some 1\<rparr>) (qsy_db quote_filled)) = 0 \<and>
   map (qtt_totalCents \<circ> qrs_totals \<circ> fst) (qls_data (Quotes_findAll quote_shop any_quotation (qsy_db quote_filled))) = [8640]"
proof
  show "qls_total (Quotes_findAll quote_shop (any_quotation\<lparr>qqy_minTotalCents := Some 1\<rparr>) (qsy_db quote_filled)) = 0"
    by (rule list_by_total_is_empty [OF quote_filled_reachable, where m = 1]) simp_all
  show "map (qtt_totalCents \<circ> qrs_totals \<circ> fst)
      (qls_data (Quotes_findAll quote_shop any_quotation (qsy_db quote_filled))) = [8640]" by code_simp
qed

text \<open>
  Property C35: a promotion worth as much as the product blocks the draft.  When the
  engine gives a line a fixed discount of at least its price, the recompute throws
  DISCOUNT_AMOUNT_INVALID, so every request that recomputes fails, the removal of that
  line's neighbours and of the customer's other opt-ins included.
\<close>

theorem generous_promotion_blocks_quotation:
  assumes "\<forall>it\<in>set (quo_items q). quote_line_ok it" and "distinct (map qit_id (quo_items q))"
    and "\<forall>p\<in>set (pce_promotions env). promotion_shape p"
    and "lines_evaluated env cache q = Inr its" and "it \<in> set its" and "qit_unitPriceCents it \<le> v"
    and "PerUnitResult (qit_id it) p AmountDiscount v t \<in> set (per_lines (quote_evaluate env (q\<lparr>quo_items := its\<rparr>)))"
  shows "quote_recompute env cache q = Inl (invalid_argument ''DISCOUNT_AMOUNT_INVALID'')"
proof -
  note ok = lines_evaluated_ok [OF assms(4,1)]
  have ids: "distinct (map qit_id its)" using ok(2) assms(2) by simp
  from too_much_fails [OF assms(7,5,6) ids quote_results_distinct [OF ok(1) ids assms(3)]] assms(4)
  show ?thesis by (auto simp: lines_evaluated_def quote_recompute_def result_simps)
qed

definition generous_pricing :: pricing_env where
  "generous_pricing = sample_pricing\<lparr>pce_promotions :=
     [pd_promotion\<lparr>pm_discountType := Some PromoFixed, pm_discountValue := Some 5000,
        pm_targetItems := [product_target\<lparr>ptg_targetId := ''p''\<rparr>]\<rparr>]\<rparr>"

definition loaded_sample :: quotation where
  "loaded_sample = Quotation_fromPersistence (hd (qsy_db quote_filled))"

lemma loaded_sample_lines: "\<forall>it\<in>set (quo_items loaded_sample). quote_line_ok it"
  "map qit_id (quo_items loaded_sample) = [''l1'']"
proof -
  have "load_quotation quote_shop ''q1'' (qsy_db quote_filled) = Some loaded_sample"
    using quote_filled_lines
    by (auto simp: load_quotation_def find_quotation_def is_quotation_def quote_shop_def loaded_sample_def)
  moreover have "\<forall>r\<in>set (qsy_db quote_filled). quotation_row_ok r"
    using quotes_reachable_ok [OF quote_filled_reachable] by (simp add: quotes_ok_def)
  ultimately have "quotation_ok loaded_sample" by (rule loaded_ok(1) [OF quote_shop_ok(1), rotated])
  then show "\<forall>it\<in>set (quo_items loaded_sample). quote_line_ok it" by (simp add: quotation_ok_def)
qed code_simp

theorem generous_promotion_blocks_quotation_witness:
  "quote_recompute generous_pricing [] loaded_sample = Inl (invalid_argument ''DISCOUNT_AMOUNT_INVALID'')"
proof -
  have "case lines_evaluated generous_pricing [] loaded_sample of Inl e \<Rightarrow> False
    | Inr its \<Rightarrow> map (\<lambda>it. (qit_id it, qit_unitPriceCents it)) its = [(''l1'', 800)] \<and>
        per_lines (quote_evaluate generous_pricing (loaded_sample\<lparr>quo_items := its\<rparr>)) =
          [PerUnitResult ''l1'' ''pd'' AmountDiscount 5000 ''pd'']" by code_simp
  then obtain its where its: "lines_evaluated generous_pricing [] loaded_sample = Inr its"
      "map (\<lambda>it. (qit_id it, qit_unitPriceCents it)) its = [(''l1'', 800)]"
      "per_lines (quote_evaluate generous_pricing (loaded_sample\<lparr>quo_items := its\<rparr>)) =
          [PerUnitResult ''l1'' ''pd'' AmountDiscount 5000 ''pd'']"
    by (cases "lines_evaluated generous_pricing [] loaded_sample") simp_all
  from its(2) obtain it where it: "it \<in> set its" "qit_id it = ''l1''" "qit_unitPriceCents it \<le> 5000" by auto
  have shapes: "\<forall>p\<in>set (pce_promotions generous_pricing). promotion_shape p"
    by (simp add: generous_pricing_def promotion_shape_def sample_engine_simps)
  have "PerUnitResult (qit_id it) ''pd'' AmountDiscount 5000 ''pd''
      \<in> set (per_lines (quote_evaluate generous_pricing (loaded_sample\<lparr>quo_items := its\<rparr>)))"
    by (simp add: its(3) it(2))
  with loaded_sample_lines shapes its(1) it(1,3) show ?thesis
    by (intro generous_promotion_blocks_quotation) simp_all
qed

end
