(* ===== verification/Spec2Isabelle.thy ===== *)
theory Spec2Isabelle
  imports SaleLaws EngineProps StockLaws CashProps DeliveryProps PromotionUsageProps
    StockJournalProps PriceCatalogProps SalesPricingProps SaleDeskProps SaleSaveProps SalesQuoteProps
    SaleDraftProps QuotationProps
begin

text \<open>
  The back end of a point of sale: drafts are priced and promoted, charged into a cash
  register and against the stock, cancelled and refunded, delivered on routes; quotations
  are priced the same way and sent.  The theories model that core of \<open>src/src\<close>, in the
  order below; each opens with the file it models.  What is proved are the theorems whose
  text says \<open>Property\<close>; the other theorems are what they rest on.

  \<^bold>\<open>How the code is represented.\<close>  A class is a record and a method a function on it.  A
  throw is \<open>Inl\<close> of the error, with its message and code; the details of an error are left
  out.  A method that changed its receiver before it throws returns the receiver too.  Money,
  quantities, positions and instants are integers: the code computes them with doubles, which
  are exact below \<open>2^53\<close>, and guards or 32-bit columns keep them below.  A parameter whose
  integrality or validity the code tests is a \<open>js_number\<close> or a \<open>js_date\<close>.  Strings are
  lists of code units up to 255.  A JavaScript \<open>Map\<close> is an association list in insertion
  order.  A Prisma query is a filter or a \<open>find\<close> over the rows of one tenant; unique indexes
  and foreign keys are guards.  A transaction maps the tables to the tables, or to the error
  that rolls them back; where the code runs statements outside a transaction the earlier
  ones stay.

  \<^bold>\<open>The parts.\<close>
  \<^item> \<open>Prelude\<close>: errors, results, loops that may throw, array idioms, the generic lemmas.
    \<open>Lifecycle\<close>: the locales of entities whose status only moves forward, interpreted on
    sales, promotions, routes, cash sessions and registers.
  \<^item> \<open>SaleItem\<close>, \<open>Sale\<close>: the aggregate of \<open>sales/domain\<close>.  \<open>SaleLaws\<close>: its invariant over
    every operation, and what a confirmed sale no longer lets change.
  \<^item> \<open>Promotion\<close>: creation, update and validity of \<open>promotions/domain\<close>.  \<open>PromotionEngine\<close>
    and \<open>EngineLoop\<close>: the evaluation of
    \<open>promotions/application/pos-evaluate-promotions.use-case.ts\<close>, its three rankings and the
    capacity loop.  \<open>EngineLaws\<close>, \<open>EngineProps\<close>: the ranking contract as a locale, what a line
    saves, who may win, that the result fits the capacities.  \<open>PromotionUsage\<close> with its laws
    and properties: the ledger of claimed capacity.
  \<^item> \<open>StockPlan\<close> and \<open>StockLaws\<close>: the plan of \<open>inventory/domain\<close>, first expired first out,
    charges and reversals.  \<open>StockJournal\<close> with its laws and properties: the writer of the
    journal, its versions, and the ledger that balances.  \<open>StockAlerts\<close>: the low-stock
    crossings of \<open>stock-alerts\<close> that sale movements cause.
  \<^item> \<open>CashMoney\<close>, \<open>CashMovement\<close>, \<open>CashChannel\<close>, \<open>CashCount\<close>, \<open>CashSession\<close>,
    \<open>CashCustody\<close>: the policies of \<open>cash-register/domain\<close>.  \<open>CashDesk\<close>, \<open>CashClosing\<close>,
    \<open>CashTenant\<close>: the command handlers of \<open>cash-register/infrastructure\<close> over one session
    and over a tenant.  \<open>CashLaws\<close>, \<open>CashTill\<close>, \<open>CashTenantLaws\<close>, \<open>CashProps\<close>: the frozen
    snapshot, the abstract till every session refines, the soundness of the tables, replays.
  \<^item> \<open>DeliveryRoute\<close>, \<open>DeliveryBoard\<close>, \<open>DeliverySystem\<close>: the aggregate of
    \<open>delivery-routes\<close>, its tables, and its requests with their retries, interleaved.
    \<open>DeliveryLaws\<close>, \<open>DeliveryCommit\<close>, \<open>DeliveryProps\<close>: reservations, the optimistic commit
    against the serial one, notices sent once.
  \<^item> \<open>PriceCatalog\<close>, \<open>SalesPricing\<close> with their laws and properties: list prices and tiers of
    \<open>products/products.service.ts\<close>, and the recompute and price check of
    \<open>sales/sales.service.ts\<close>.  \<open>SalesQuoteProps\<close>: recomputing twice, and the charge against
    what was shown.
  \<^item> \<open>SalesTender\<close> and its laws: how tenders pay a debt.  \<open>SaleStore\<close>, \<open>SaleBooks\<close>,
    \<open>SaleBooksLaws\<close>: the rows of \<open>prisma-sale.repository.ts\<close>, saves, confirmations,
    collections, cancellations, settlements, idempotency slots.  \<open>SaleDesk\<close>: the four money
    commands of \<open>sales.service.ts\<close> as whole requests over sales, promotions, stock and cash.
    \<open>SaleDeskLaws\<close>, \<open>SaleRunLaws\<close>, \<open>SaleSlotLaws\<close>, \<open>SaleShop\<close> (a sample shop),
    \<open>SaleDeskProps\<close>, \<open>SaleSaveProps\<close>: the books along every run, replays, failures, a save of
    a stale copy.
  \<^item> \<open>SaleDrafts\<close>, \<open>SaleDraftProps\<close>: every request of the drafts controller but the charge, who
    may make it, what it can touch, and what a load gives back after a save; the requests of
    the query controller that set a seller, a due date or a payment reference.
  \<^item> \<open>QuotationItem\<close>, \<open>Quotation\<close>, \<open>QuotationDesk\<close>, \<open>QuotationService\<close>: the aggregate, the
    tables and the use cases of \<open>quotations\<close>.  \<open>QuotationLaws\<close>, \<open>QuotationStepLaws\<close>,
    \<open>QuotationTax\<close>, \<open>QuotationProps\<close>: the statements of a save, sound lines, the breakdown of
    the tax, and what overlapping requests keep and break.

  \<^bold>\<open>How the parts interact.\<close>  A draft asks the catalogue for prices and the engine for
  promotions (\<open>recomputePricingAndPromotions\<close>).  A charge (\<open>executeChargeDraft\<close>) checks the
  prices again, claims promotion capacity, withdraws stock and raises its alerts, confirms the
  sale with its payments, and books them in the session of the cash register; a collection
  pays a debt, a cancellation gives stock and capacity back and plans refunds, a settlement
  pays one out.  Each runs in one transaction behind an idempotency slot.

  \<^bold>\<open>Termination and bounds.\<close>  \<open>evaluate_loop\<close> needs no fuel: every round excludes a
  promotion that was still a candidate, which is its termination proof.  The retries of the
  delivery service are the four attempts of the code (\<open>deliver_rest\<close>); what happens when all
  fail is a result.  Every other loop runs over a list.

  \<^bold>\<open>Assumed of the environment.\<close>  A generated identifier is new; the clock is read once per
  request where the code reads it several times in a row; rows without \<open>orderBy\<close> come back as
  a permutation in the delivery and quotation models, and in the order they were stored where
  a sale is loaded; the collation of \<open>localeCompare\<close>, the hash of a request, the ability check
  and the search of the database are parameters; users, customers and addresses are
  arguments.  A draft request of a sale takes its load and its save together, and along a run
  of the money commands (\<open>money_step\<close>) a save writes the status the row has; the code holds
  no lock that would ensure either, and \<open>SaleSaveProps\<close> has a save of a stale copy that
  undoes a cancellation.  The requests of a quotation overlap freely: each statement of a save
  is a step of its own (\<open>quote_step\<close>), only a load is one step.  The clock of the delivery
  runs is strictly after the stamps of the route it is compared with.

  \<^bold>\<open>Not modelled.\<close>  The other lists, details and statistics (reads without state), receipts
  and their review, the administration of products, customers and users, the editorial and
  public catalogue, authorization, procurement, the chatbot, shipping quotes, the delivery of
  mails and documents, scripts and seeds: they are queries, plain editing of rows, or input
  and output.  The pricing and confirmation of chatbot sales in \<open>sales.service.ts\<close> are not
  modelled either.
\<close>

section \<open>Verification of the sales core\<close>

end
